(* ===== verification/Js_Prelude.thy ===== *)
theory Js_Prelude
  imports Complex_Main "HOL-Library.Word"
begin

text \<open>
  Shared vocabulary of the development: how JavaScript values of the player's code are
  represented, the error and state-passing combinators of the models, and the lemmas on lists,
  bytes and 32-bit numbers that several components use.

  A \<open>Uint8Array\<close> is a list of \<open>8 word\<close>; a JavaScript number that the code uses as an integer is
  an \<open>int\<close>; the 32-bit operators of the language (\<open>>>\<close>, \<open>>>>\<close>, \<open><<\<close>, \<open>&\<close>, \<open>|\<close>, \<open>^\<close>) are
  written out on \<open>int\<close> with the coercions of the language standard, and a register that the code
  only ever touches with those operators is a \<open>32 word\<close>. Numbers that are fractional in the code
  (seconds, timestamps) are rationals: rounding of IEEE doubles is outside the model.
\<close>

unbundle bit_operations_syntax

named_theorems js_defs \<open>definitions of the JavaScript number operators\<close>
named_theorems mon_simps \<open>evaluation rules of the error and state combinators\<close>

type_synonym u8 = "8 word"
type_synonym u32 = "32 word"
type_synonym bytes = "u8 list"

subsection \<open>Errors and state passing\<close>

datatype js_error =
    JsError string \<comment> \<open>\<open>throw new Error(msg)\<close>\<close>
  | TypeError      \<comment> \<open>a method call or property access on \<open>undefined\<close>\<close>

type_synonym 'a result = "js_error + 'a"

text \<open>A statement of a stateful object: it throws or returns a value and the new state.\<close>

type_synonym ('s, 'a) stm = "'s \<Rightarrow> js_error + ('a \<times> 's)"

definition ret :: "'a \<Rightarrow> ('s, 'a) stm" where
  "ret x = (\<lambda>s. Inr (x, s))"

definition throw :: "js_error \<Rightarrow> ('s, 'a) stm" where
  "throw e = (\<lambda>s. Inl e)"

definition bnd :: "('s, 'a) stm \<Rightarrow> ('a \<Rightarrow> ('s, 'b) stm) \<Rightarrow> ('s, 'b) stm" where
  "bnd m f = (\<lambda>s. case m s of Inl e \<Rightarrow> Inl e | Inr (x, s') \<Rightarrow> f x s')"

definition seq :: "('s, 'a) stm \<Rightarrow> ('s, 'b) stm \<Rightarrow> ('s, 'b) stm" where
  "seq m k = bnd m (\<lambda>_. k)"

text \<open>\<open>for (i = i0; i < i0 + n; i++) body(i)\<close>\<close>

fun for_upto :: "nat \<Rightarrow> nat \<Rightarrow> (nat \<Rightarrow> ('s, unit) stm) \<Rightarrow> ('s, unit) stm" where
  "for_upto i 0 body = ret ()"
| "for_upto i (Suc n) body = seq (body i) (for_upto (Suc i) n body)"

lemma ret_apply [simp, mon_simps]: "ret x s = Inr (x, s)"
  by (simp add: ret_def)

lemma throw_apply [simp, mon_simps]: "throw e s = Inl e"
  by (simp add: throw_def)

lemma bnd_Inr [simp, mon_simps]: "m s = Inr (x, s') \<Longrightarrow> bnd m f s = f x s'"
  by (simp add: bnd_def)

lemma bnd_Inl [simp, mon_simps]: "m s = Inl e \<Longrightarrow> bnd m f s = Inl e"
  by (simp add: bnd_def)

lemma seq_Inr [simp, mon_simps]: "m s = Inr (x, s') \<Longrightarrow> seq m k s = k s'"
  by (simp add: seq_def)

lemma seq_Inl [simp, mon_simps]: "m s = Inl e \<Longrightarrow> seq m k s = Inl e"
  by (simp add: seq_def)

lemma bnd_InrE:
  assumes "bnd m f s = Inr r"
  obtains x s' where "m s = Inr (x, s')" and "f x s' = Inr r"
  using assms by (auto simp: bnd_def split: sum.splits)

lemma seq_InrE:
  assumes "seq m k s = Inr r"
  obtains x s' where "m s = Inr (x, s')" and "k s' = Inr r"
  using assms unfolding seq_def by (rule bnd_InrE)

text \<open>Loops over an array whose body may throw: \<open>xs.map(f)\<close>, and one that updates a state.\<close>

fun map_result :: "('a \<Rightarrow> 'b result) \<Rightarrow> 'a list \<Rightarrow> 'b list result" where
  "map_result f [] = Inr []"
| "map_result f (x # xs) =
     (case f x of
        Inl e \<Rightarrow> Inl e
      | Inr y \<Rightarrow> (case map_result f xs of Inl e \<Rightarrow> Inl e | Inr ys \<Rightarrow> Inr (y # ys)))"

fun fold_result :: "('a \<Rightarrow> 's \<Rightarrow> 's result) \<Rightarrow> 'a list \<Rightarrow> 's \<Rightarrow> 's result" where
  "fold_result f [] s = Inr s"
| "fold_result f (x # xs) s = (case f x s of Inl e \<Rightarrow> Inl e | Inr s' \<Rightarrow> fold_result f xs s')"

subsection \<open>The 32-bit operators of the language\<close>

definition to_int32 :: "int \<Rightarrow> int" where
  [js_defs]: "to_int32 x = signed_take_bit 31 x"

definition to_uint32 :: "int \<Rightarrow> int" where
  [js_defs]: "to_uint32 x = take_bit 32 x"

definition js_shr :: "int \<Rightarrow> nat \<Rightarrow> int" where \<comment> \<open>\<open>x >> n\<close>\<close>
  [js_defs]: "js_shr x n = drop_bit (n mod 32) (to_int32 x)"

definition js_ushr :: "int \<Rightarrow> nat \<Rightarrow> int" where \<comment> \<open>\<open>x >>> n\<close>\<close>
  [js_defs]: "js_ushr x n = drop_bit (n mod 32) (to_uint32 x)"

definition js_shl :: "int \<Rightarrow> nat \<Rightarrow> int" where \<comment> \<open>\<open>x << n\<close>\<close>
  [js_defs]: "js_shl x n = to_int32 (push_bit (n mod 32) x)"

definition js_and :: "int \<Rightarrow> int \<Rightarrow> int" where \<comment> \<open>\<open>x & y\<close>\<close>
  [js_defs]: "js_and x y = (to_int32 x AND to_int32 y)"

definition js_or :: "int \<Rightarrow> int \<Rightarrow> int" where \<comment> \<open>\<open>x | y\<close>\<close>
  [js_defs]: "js_or x y = (to_int32 x OR to_int32 y)"

definition js_rem :: "int \<Rightarrow> int \<Rightarrow> int" where \<comment> \<open>\<open>x % y\<close> for positive \<open>y\<close>: the sign of \<open>x\<close>\<close>
  "js_rem x y = (if 0 \<le> x then x mod y else - ((- x) mod y))"

text \<open>Storing a number into a \<open>Uint8Array\<close> keeps its lowest eight bits.\<close>

definition u8of :: "int \<Rightarrow> u8" where
  "u8of x = word_of_int x"

lemma bit_u8of: "bit (u8of x) n \<longleftrightarrow> n < 8 \<and> bit x n"
  by (simp add: u8of_def bit_word_of_int_iff)

lemma bit_to_int32: "bit (to_int32 x) n \<longleftrightarrow> bit x (min n 31)"
  by (simp add: to_int32_def bit_signed_take_bit_iff min.commute)

subsection \<open>Typed arrays\<close>

text \<open>
  \<open>byte d i\<close> is \<open>d[i]\<close> as an operand of a bitwise operator: an index out of range reads
  \<open>undefined\<close>, which these operators coerce to 0.
\<close>

definition byte :: "bytes \<Rightarrow> nat \<Rightarrow> int" where
  "byte d i = (if i < length d then uint (d ! i) else 0)"

text \<open>\<open>d[i]\<close> as a value, \<open>None\<close> for \<open>undefined\<close>.\<close>

definition at_index :: "bytes \<Rightarrow> nat \<Rightarrow> int option" where
  "at_index d i = (if i < length d then Some (uint (d ! i)) else None)"

definition clamp_index :: "bytes \<Rightarrow> int \<Rightarrow> nat" where
  "clamp_index d x =
     (let n = int (length d) in nat (if x < 0 then max (n + x) 0 else min x n))"

text \<open>\<open>d.subarray(a, b)\<close>: negative indices count from the end, others are clamped.\<close>

definition subarray :: "bytes \<Rightarrow> int \<Rightarrow> int \<Rightarrow> bytes" where
  "subarray d a b =
     (let i = clamp_index d a; j = clamp_index d b in take (j - i) (drop i d))"

text \<open>\<open>arr.set(xs, off)\<close> for a chunk that fits.\<close>

definition set_at :: "bytes \<Rightarrow> bytes \<Rightarrow> nat \<Rightarrow> bytes" where
  "set_at arr xs off = take off arr @ xs @ drop (off + length xs) arr"

lemma byte_bounds [simp]: "0 \<le> byte d i" "byte d i < 256"
  using uint_lt2p [of "d ! i"] by (auto simp: byte_def)

lemma byte_append: "byte (xs @ ys) i = (if i < length xs then byte xs i else byte ys (i - length xs))"
  by (auto simp: byte_def nth_append)

lemma subarray_nat:
  "a \<le> b \<Longrightarrow> b \<le> length d \<Longrightarrow> subarray d (int a) (int b) = take (b - a) (drop a d)"
  by (simp add: subarray_def clamp_index_def Let_def)

lemma length_set_at: "off + length xs \<le> length arr \<Longrightarrow> length (set_at arr xs off) = length arr"
  by (simp add: set_at_def)

subsection \<open>Big-endian words\<close>

definition word_be :: "u8 \<Rightarrow> u8 \<Rightarrow> u8 \<Rightarrow> u8 \<Rightarrow> u32" where
  "word_be a b c d =
     (push_bit 24 (ucast a) OR push_bit 16 (ucast b) OR push_bit 8 (ucast c) OR ucast d)"

text \<open>\<open>new DataView(buf).getUint32(i)\<close>: big-endian, on an offset inside the buffer.\<close>

definition get_uint32 :: "bytes \<Rightarrow> nat \<Rightarrow> u32" where
  "get_uint32 d i = word_be (d ! i) (d ! (i + 1)) (d ! (i + 2)) (d ! (i + 3))"

lemma bit_word_be:
  "bit (word_be a b c d) n \<longleftrightarrow>
     (if n < 8 then bit d n else if n < 16 then bit c (n - 8)
      else if n < 24 then bit b (n - 16) else n < 32 \<and> bit a (n - 24))"
  by (auto simp: word_be_def bit_simps dest: bit_imp_le_length)

text \<open>
  The four bytes \<open>(x >> 24) & 0xFF, (x >> 16) & 0xFF, (x >> 8) & 0xFF, x & 0xFF\<close> that the code writes
  for a number \<open>x\<close> (some places leave out the mask of the top byte or use \<open>>>>\<close>: \<open>be32_variants\<close>
  shows that the stored bytes are the same).
\<close>

definition be32 :: "int \<Rightarrow> bytes" where
  "be32 x = [u8of (js_and (js_shr x 24) 0xFF), u8of (js_and (js_shr x 16) 0xFF),
             u8of (js_and (js_shr x 8) 0xFF), u8of (js_and x 0xFF)]"

definition be16 :: "int \<Rightarrow> bytes" where
  "be16 x = [u8of (js_and (js_shr x 8) 0xFF), u8of (js_and x 0xFF)]"

lemma bit_js_shr: "n < 32 \<Longrightarrow> bit (js_shr x n) k \<longleftrightarrow> bit x (min (n + k) 31)"
  by (simp add: js_shr_def bit_to_int32 bit_drop_bit_eq)

lemma bit_js_ushr: "n < 32 \<Longrightarrow> bit (js_ushr x n) k \<longleftrightarrow> n + k < 32 \<and> bit x (n + k)"
  by (simp add: js_ushr_def to_uint32_def bit_drop_bit_eq bit_take_bit_iff)

lemma u8of_js_and_0xFF [simp]: "u8of (js_and x 0xFF) = u8of x"
proof -
  have "bit (255 :: int) k" if "k < 8" for k
  proof -
    have "(255 :: int) = mask 8" by (simp add: mask_eq_exp_minus_1)
    then show ?thesis using that by (simp only: bit_mask_iff) simp
  qed
  then show ?thesis
    by (intro bit_eqI) (simp add: bit_u8of js_and_def bit_and_iff bit_to_int32)
qed

lemma be32_eq: "be32 x = [u8of (js_shr x 24), u8of (js_shr x 16), u8of (js_shr x 8), u8of x]"
  by (simp add: be32_def)

lemma be32_variants:
  "u8of (js_shr x 24) = u8of (js_ushr x 24)" "u8of (js_shr x 16) = u8of (js_ushr x 16)"
  "u8of (js_shr x 8) = u8of (js_ushr x 8)"
  by (auto intro!: bit_eqI simp: bit_u8of bit_js_shr bit_js_ushr min_def)

lemma length_be32 [simp]: "length (be32 x) = 4"
  by (simp add: be32_def)

lemma length_be16 [simp]: "length (be16 x) = 2"
  by (simp add: be16_def)

subsection \<open>Characters\<close>

text \<open>\<open>s.charCodeAt(i)\<close> as a byte, and \<open>String.fromCharCode\<close> of a byte.\<close>

definition char_code :: "char \<Rightarrow> u8" where
  "char_code c = of_nat (of_char c)"

definition code_char :: "u8 \<Rightarrow> char" where
  "code_char b = char_of (unat b)"

lemma code_char_code [simp]: "code_char (char_code c) = c"
proof -
  have "of_char c < (256 :: nat)" by (rule nat_of_char_less_256)
  then have "unat (char_code c) = of_char c"
    by (simp add: char_code_def unat_of_nat)
  then show ?thesis by (simp add: code_char_def)
qed

subsection \<open>Fractional numbers\<close>

text \<open>The coercion of a fractional number to an integer, and the remainder \<open>x % y\<close>.\<close>

definition trunc_int :: "rat \<Rightarrow> int" where
  "trunc_int x = (if 0 \<le> x then \<lfloor>x\<rfloor> else \<lceil>x\<rceil>)"

definition js_fmod :: "rat \<Rightarrow> rat \<Rightarrow> rat" where
  "js_fmod x y = x - y * of_int (trunc_int (x / y))"

end
