(* ===== verification/Exp_Golomb.thy ===== *)
theory Exp_Golomb
  imports Js_Prelude
begin

text \<open>
  The H.264 bit reader of \<open>hls.js/src/demux/exp-golomb.js\<close>: the object \<open>ExpGolomb\<close> as a record,
  each method as a statement over it. The register \<open>this.word\<close> is only touched by the 32-bit
  operators, so it is a \<open>32 word\<close>; the counters are JavaScript numbers (\<open>int\<close>), because
  \<open>skipBits\<close> can drive both below zero.
\<close>

section \<open>The reader object\<close>

record exp_golomb =
  eg_data :: bytes
  eg_bytesAvailable :: int
  eg_word :: u32
  eg_bitsAvailable :: int

type_synonym 'a eg = "(exp_golomb, 'a) stm"

definition new_ExpGolomb :: "bytes \<Rightarrow> exp_golomb" where
  "new_ExpGolomb data =
     \<lparr>eg_data = data, eg_bytesAvailable = int (length data), eg_word = 0, eg_bitsAvailable = 0\<rparr>"

text \<open>JavaScript takes shift counts modulo 32.\<close>

definition shl :: "u32 \<Rightarrow> int \<Rightarrow> u32" where
  "shl w n = push_bit (nat (n mod 32)) w"

definition ushr :: "u32 \<Rightarrow> int \<Rightarrow> u32" where
  "ushr w n = drop_bit (nat (n mod 32)) w"

definition loadWord :: "unit eg" where
  "loadWord s =
     (let data = eg_data s;
          bytesAvailable = eg_bytesAvailable s;
          position = int (length data) - bytesAvailable;
          availableBytes = min 4 bytesAvailable
      in if availableBytes = 0 then Inl (JsError ''no bytes available'')
         else
           let workingBytes =
                 set_at [0, 0, 0, 0] (subarray data position (position + availableBytes)) 0
           in Inr ((), s\<lparr>eg_word := get_uint32 workingBytes 0,
                         eg_bitsAvailable := availableBytes * 8,
                         eg_bytesAvailable := bytesAvailable - availableBytes\<rparr>))"

definition skipBits :: "int \<Rightarrow> unit eg" where
  "skipBits count s =
     (if eg_bitsAvailable s > count
      then Inr ((), s\<lparr>eg_word := shl (eg_word s) count,
                      eg_bitsAvailable := eg_bitsAvailable s - count\<rparr>)
      else
        let count = count - eg_bitsAvailable s;
            skipBytes = js_shr count 3;
            count = count - js_shr skipBytes 3
        in case loadWord (s\<lparr>eg_bytesAvailable := eg_bytesAvailable s - skipBytes\<rparr>) of
             Inl e \<Rightarrow> Inl e
           | Inr (_, s) \<Rightarrow>
               Inr ((), s\<lparr>eg_word := shl (eg_word s) count,
                          eg_bitsAvailable := eg_bitsAvailable s - count\<rparr>))"

lemma loadWord_Inr:
  assumes "loadWord s = Inr (x, s')"
  shows "eg_bytesAvailable s \<noteq> 0"
    and "eg_bytesAvailable s' = eg_bytesAvailable s - min 4 (eg_bytesAvailable s)"
    and "eg_data s' = eg_data s"
  using assms by (auto simp: loadWord_def Let_def min_def split: if_splits)

lemma loadWord_decreases:
  "loadWord s = Inr (x, s') \<Longrightarrow> nat \<bar>eg_bytesAvailable s'\<bar> < nat \<bar>eg_bytesAvailable s\<bar>"
  using loadWord_Inr [of s x s'] by (auto simp: min_def)

text \<open>
  \<open>readBits\<close>: a value taken from one word is unsigned (\<open>>>>\<close>), one put together from two words
  with \<open>|\<close> is a signed 32-bit number. After the register is empty it is reloaded if bytes are
  left; the recursion reads the remaining bits.
\<close>

definition refill :: "int \<Rightarrow> exp_golomb \<Rightarrow> js_error + exp_golomb" where
  "refill bits s =
     (let s = s\<lparr>eg_bitsAvailable := eg_bitsAvailable s - bits\<rparr>
      in if eg_bitsAvailable s > 0 then Inr (s\<lparr>eg_word := shl (eg_word s) bits\<rparr>)
         else if eg_bytesAvailable s > 0 then map_sum id snd (loadWord s)
         else Inr s)"

lemma refill_decreases:
  assumes "refill (min (eg_bitsAvailable s) sz) s = Inr s'"
    and "sz - min (eg_bitsAvailable s) sz > 0" and "eg_bitsAvailable s' \<noteq> 0"
  shows "nat \<bar>eg_bytesAvailable s'\<bar> < nat \<bar>eg_bytesAvailable s\<bar>"
proof -
  let ?s = "s\<lparr>eg_bitsAvailable := 0\<rparr>"
  have "loadWord ?s = Inr ((), s')"
    using assms by (auto simp: refill_def Let_def min_def split: if_splits sum.splits)
      (cases "loadWord ?s"; auto)+
  from loadWord_decreases [OF this] show ?thesis by simp
qed

function readBits :: "int \<Rightarrow> int eg" where
  "readBits sz s =
     (let bits = min (eg_bitsAvailable s) sz;
          valu = ushr (eg_word s) (32 - bits)
      in case refill bits s of
           Inl e \<Rightarrow> Inl e
         | Inr s' \<Rightarrow>
             if sz - bits > 0 \<and> eg_bitsAvailable s' \<noteq> 0 then
               (case readBits (sz - bits) s' of
                  Inl e \<Rightarrow> Inl e
                | Inr (v, s'') \<Rightarrow>
                    Inr (js_or (uint (shl valu (sz - bits))) v, s''))
             else Inr (uint valu, s'))"
  by pat_completeness auto
termination
  by (relation "measure (\<lambda>(sz, s). nat \<bar>eg_bytesAvailable s\<bar>)")
    (auto dest!: refill_decreases)

declare readBits.simps [simp del]

text \<open>The \<open>for\<close> loop of \<open>skipLZ\<close>: the first position below \<open>avail\<close> whose bit is set.\<close>

function lz_loop :: "u32 \<Rightarrow> int \<Rightarrow> int \<Rightarrow> int option" where
  "lz_loop w avail i =
     (if i < avail then
        if w AND ushr 0x80000000 i \<noteq> 0 then Some i else lz_loop w avail (i + 1)
      else None)"
  by pat_completeness auto
termination
  by (relation "measure (\<lambda>(w, avail, i). nat (avail - i))") auto

declare lz_loop.simps [simp del]

function skipLZ :: "int eg" where
  "skipLZ s =
     (case lz_loop (eg_word s) (eg_bitsAvailable s) 0 of
        Some lz \<Rightarrow>
          Inr (lz, s\<lparr>eg_word := shl (eg_word s) lz, eg_bitsAvailable := eg_bitsAvailable s - lz\<rparr>)
      | None \<Rightarrow>
          (case loadWord s of
             Inl e \<Rightarrow> Inl e
           | Inr (_, s') \<Rightarrow>
               (case skipLZ s' of
                  Inl e \<Rightarrow> Inl e
                | Inr (n, s'') \<Rightarrow> Inr (max 0 (eg_bitsAvailable s) + n, s''))))"
  by pat_completeness auto
termination
  by (relation "measure (\<lambda>s. nat \<bar>eg_bytesAvailable s\<bar>)") (auto dest!: loadWord_decreases)

declare skipLZ.simps [simp del]

section \<open>Codes built on the reader\<close>

definition skipUEG :: "unit eg" where
  "skipUEG = bnd skipLZ (\<lambda>clz. skipBits (1 + clz))"

definition skipEG :: "unit eg" where
  "skipEG = bnd skipLZ (\<lambda>clz. skipBits (1 + clz))"

definition readUEG :: "int eg" where
  "readUEG = bnd skipLZ (\<lambda>clz. bnd (readBits (clz + 1)) (\<lambda>v. ret (v - 1)))"

definition readEG :: "int eg" where
  "readEG = bnd readUEG (\<lambda>valu.
     if js_and 1 valu \<noteq> 0 then ret (js_ushr (1 + valu) 1)
     else ret (- 1 * js_ushr valu 1))"

definition readBoolean :: "bool eg" where
  "readBoolean = bnd (readBits 1) (\<lambda>v. ret (1 = v))"

definition readUByte :: "int eg" where
  "readUByte = readBits 8"

definition readUShort :: "int eg" where
  "readUShort = readBits 16"

definition readUInt :: "int eg" where
  "readUInt = readBits 32"

text \<open>\<open>skipScalingList\<close>: the loop carries \<open>lastScale\<close> and \<open>nextScale\<close>.\<close>

fun scaling_loop :: "nat \<Rightarrow> int \<Rightarrow> int \<Rightarrow> unit eg" where
  "scaling_loop 0 lastScale nextScale = ret ()"
| "scaling_loop (Suc j) lastScale nextScale =
     bnd (if nextScale \<noteq> 0
          then bnd readEG (\<lambda>deltaScale. ret (js_rem (lastScale + deltaScale + 256) 256))
          else ret nextScale)
       (\<lambda>nextScale. scaling_loop j (if nextScale = 0 then lastScale else nextScale) nextScale)"

definition skipScalingList :: "nat \<Rightarrow> unit eg" where
  "skipScalingList count = scaling_loop count 8 8"

section \<open>Sequence parameter sets\<close>

record sps_info =
  sps_width :: int
  sps_height :: int
  sps_pixelRatio :: "int \<times> int"

definition high_profiles :: "int list" where
  "high_profiles = [100, 110, 122, 244, 44, 83, 86, 118, 128]"

text \<open>The chroma, bit-depth and scaling-matrix part that the high profiles carry.\<close>

definition scaling_matrix :: "int \<Rightarrow> unit eg" where
  "scaling_matrix chromaFormatIdc =
     bnd readBoolean (\<lambda>present.
       if present then
         for_upto 0 (if chromaFormatIdc \<noteq> 3 then 8 else 12) (\<lambda>i.
           bnd readBoolean (\<lambda>listPresent.
             if listPresent then skipScalingList (if i < 6 then 16 else 64) else ret ()))
       else ret ())"

definition readHighProfile :: "unit eg" where
  "readHighProfile =
     bnd readUEG (\<lambda>chromaFormatIdc.
     seq (if chromaFormatIdc = 3 then skipBits 1 else ret ())
    (seq skipUEG
    (seq skipUEG
    (seq (skipBits 1)
         (scaling_matrix chromaFormatIdc)))))"

definition readPicOrderCnt :: "unit eg" where
  "readPicOrderCnt =
     bnd readUEG (\<lambda>picOrderCntType.
       if picOrderCntType = 0 then seq readUEG (ret ())
       else if picOrderCntType = 1 then
         seq (skipBits 1)
        (seq skipEG
        (seq skipEG
        (bnd readUEG (\<lambda>numRefFramesInPicOrderCntCycle.
           for_upto 0 (nat numRefFramesInPicOrderCntCycle) (\<lambda>_. skipEG)))))
       else ret ())"

definition readCropping :: "(int \<times> int \<times> int \<times> int) eg" where
  "readCropping =
     bnd readBoolean (\<lambda>frame_cropping_flag.
       if frame_cropping_flag then
         bnd readUEG (\<lambda>left. bnd readUEG (\<lambda>right. bnd readUEG (\<lambda>top. bnd readUEG (\<lambda>bottom.
           ret (left, right, top, bottom)))))
       else ret (0, 0, 0, 0))"

text \<open>The \<open>switch\<close> over \<open>aspect_ratio_idc\<close>; 255 is handled by its caller, which reads the ratio.\<close>

definition aspect_ratio :: "int \<Rightarrow> int \<times> int" where
  "aspect_ratio idc =
     (if idc = 1 then (1, 1) else if idc = 2 then (12, 11) else if idc = 3 then (10, 11)
      else if idc = 4 then (16, 11) else if idc = 5 then (40, 33) else if idc = 6 then (24, 11)
      else if idc = 7 then (20, 11) else if idc = 8 then (32, 11) else if idc = 9 then (80, 33)
      else if idc = 10 then (18, 11) else if idc = 11 then (15, 11) else if idc = 12 then (64, 33)
      else if idc = 13 then (160, 99) else if idc = 14 then (4, 3) else if idc = 15 then (3, 2)
      else if idc = 16 then (2, 1) else (1, 1))"

definition readPixelRatio :: "(int \<times> int) eg" where
  "readPixelRatio =
     bnd readBoolean (\<lambda>vui_parameters_present_flag.
       if vui_parameters_present_flag then
         bnd readBoolean (\<lambda>aspect_ratio_info_present_flag.
           if aspect_ratio_info_present_flag then
             bnd readUByte (\<lambda>aspectRatioIdc.
               if aspectRatioIdc = 255 then
                 bnd readUByte (\<lambda>a. bnd readUByte (\<lambda>b. bnd readUByte (\<lambda>c. bnd readUByte (\<lambda>d.
                   ret (js_or (js_shl a 8) b, js_or (js_shl c 8) d)))))
               else ret (aspect_ratio aspectRatioIdc))
           else ret (1, 1))
       else ret (1, 1))"

definition readSPS :: "sps_info eg" where
  "readSPS =
     seq readUByte
    (bnd readUByte (\<lambda>profileIdc.
     bnd (readBits 5) (\<lambda>profileCompat.
     seq (skipBits 3)
    (bnd readUByte (\<lambda>levelIdc.
     seq skipUEG
    (seq (if profileIdc \<in> set high_profiles then readHighProfile else ret ())
    (seq skipUEG
    (seq readPicOrderCnt
    (seq skipUEG
    (seq (skipBits 1)
    (bnd readUEG (\<lambda>picWidthInMbsMinus1.
     bnd readUEG (\<lambda>picHeightInMapUnitsMinus1.
     bnd (readBits 1) (\<lambda>frameMbsOnlyFlag.
     seq (if frameMbsOnlyFlag = 0 then skipBits 1 else ret ())
    (seq (skipBits 1)
    (bnd readCropping (\<lambda>(frameCropLeftOffset, frameCropRightOffset,
                         frameCropTopOffset, frameCropBottomOffset).
     bnd readPixelRatio (\<lambda>pixelRatio.
     ret \<lparr>sps_width = (picWidthInMbsMinus1 + 1) * 16
                       - frameCropLeftOffset * 2 - frameCropRightOffset * 2,
          sps_height = (2 - frameMbsOnlyFlag) * (picHeightInMapUnitsMinus1 + 1) * 16
                       - (if frameMbsOnlyFlag \<noteq> 0 then 2 else 4)
                         * (frameCropTopOffset + frameCropBottomOffset),
          sps_pixelRatio = pixelRatio\<rparr>))))))))))))))))))"

definition readSliceType :: "int eg" where
  "readSliceType = seq readUByte (seq readUEG readUEG)"

end
