(* ===== verification/Bit_Lists.thy ===== *)
theory Bit_Lists
  imports Js_Prelude
begin

text \<open>
  Bit strings, most significant bit first, as the abstract view of bytes, 32-bit registers and
  numbers. The bit reader is specified on them: a number read from the stream is the
  value of the bits it consumed.
\<close>

named_theorems bits_simps \<open>bit strings of bytes, words and numbers\<close>

definition word_bits :: "u32 \<Rightarrow> bool list" where
  "word_bits w = map (\<lambda>i. bit w (31 - i)) [0..<32]"

definition byte_bits :: "u8 \<Rightarrow> bool list" where
  "byte_bits b = map (\<lambda>i. bit b (7 - i)) [0..<8]"

definition stream_bits :: "bytes \<Rightarrow> bool list" where
  "stream_bits bs = concat (map byte_bits bs)"

definition bits_val :: "bool list \<Rightarrow> int" where
  "bits_val bs = horner_sum of_bool 2 (rev bs)"

text \<open>The low \<open>n\<close> bits of a number, most significant first.\<close>

definition num_bits :: "nat \<Rightarrow> int \<Rightarrow> bool list" where
  "num_bits n x = map (\<lambda>i. bit x (n - 1 - i)) [0..<n]"

lemma length_bits [simp, bits_simps]:
  "length (word_bits w) = 32" "length (byte_bits b) = 8" "length (num_bits n x) = n"
  by (simp_all add: word_bits_def byte_bits_def num_bits_def)

lemma stream_bits_simps [simp, bits_simps]:
  "stream_bits [] = []" "stream_bits (b # bs) = byte_bits b @ stream_bits bs"
  "stream_bits (xs @ ys) = stream_bits xs @ stream_bits ys"
  by (simp_all add: stream_bits_def)

lemma length_stream_bits [simp, bits_simps]: "length (stream_bits bs) = 8 * length bs"
  by (induction bs) auto

lemma stream_bits_drop: "stream_bits (drop n bs) = drop (8 * n) (stream_bits bs)"
proof (induction n arbitrary: bs)
  case (Suc n)
  then show ?case by (cases bs) simp_all
qed simp

lemma nth_word_bits [simp]: "i < 32 \<Longrightarrow> word_bits w ! i = bit w (31 - i)"
  by (simp add: word_bits_def)

lemma nth_byte_bits [simp]: "i < 8 \<Longrightarrow> byte_bits b ! i = bit b (7 - i)"
  by (simp add: byte_bits_def)

lemma nth_num_bits [simp]: "i < n \<Longrightarrow> num_bits n x ! i = bit x (n - 1 - i)"
  by (simp add: num_bits_def)

lemma num_bits_Suc: "num_bits (Suc n) x = bit x n # num_bits n x"
  by (rule nth_equalityI) (auto simp: nth_Cons split: nat.split)

lemma num_bits_eval [bits_simps]:
  "num_bits 0 x = []"
  "num_bits (numeral k) x = bit x (pred_numeral k) # num_bits (pred_numeral k) x"
  "num_bits 1 x = [odd x]"
  by (simp add: num_bits_def, simp only: numeral_eq_Suc num_bits_Suc, simp add: num_bits_def bit_0)

lemma byte_bits_num: "byte_bits b = num_bits 8 (uint b)"
  by (rule nth_equalityI) (auto simp: bit_uint_iff)

lemma bit_bits_val: "bit (bits_val bs) n \<longleftrightarrow> n < length bs \<and> bs ! (length bs - 1 - n)"
  by (auto simp: bits_val_def bit_horner_sum_bit_iff rev_nth)

lemma bits_val_Nil [simp]: "bits_val [] = 0"
  by (simp add: bits_val_def)

lemma bits_val_snoc: "bits_val (bs @ [b]) = of_bool b + 2 * bits_val bs"
  by (simp add: bits_val_def)

lemma bits_val_append: "bits_val (xs @ ys) = bits_val xs * 2 ^ length ys + bits_val ys"
  by (induction ys rule: rev_induct)
    (simp_all add: bits_val_snoc algebra_simps flip: append_assoc)

lemma bits_val_bounds: "0 \<le> bits_val bs" "bits_val bs < 2 ^ length bs"
proof -
  show "0 \<le> bits_val bs" by (simp add: bits_val_def horner_sum_nonnegative)
  show "bits_val bs < 2 ^ length bs"
    using horner_sum_bound [of "rev bs", where 'a = int] by (simp add: bits_val_def)
qed

lemma bits_val_replicate_False [simp]: "bits_val (replicate k False @ bs) = bits_val bs"
  by (induction k) (simp_all add: bits_val_def horner_sum_append)

lemma bits_val_num_bits [simp]: "bits_val (num_bits n x) = take_bit n x"
  by (rule bit_eqI) (auto simp: bit_bits_val bit_take_bit_iff)

lemma num_bits_bits_val: "num_bits (length bs) (bits_val bs) = bs"
  by (rule nth_equalityI) (auto simp: bit_bits_val)

lemma bits_val_word: "n \<le> 32 \<Longrightarrow> bits_val (take n (word_bits w)) = uint (drop_bit (32 - n) w)"
proof (rule bit_eqI)
  fix k assume n: "n \<le> 32"
  show "bit (bits_val (take n (word_bits w))) k \<longleftrightarrow> bit (uint (drop_bit (32 - n) w)) k"
  proof (cases "k < n")
    case True
    then have "31 - (n - 1 - k) = 32 - n + k" using n by simp
    with True n show ?thesis by (auto simp: bit_bits_val bit_simps)
  next
    case False
    with n show ?thesis
      by (auto simp: bit_bits_val bit_simps min_def dest: bit_imp_le_length)
  qed
qed

lemma word_bits_push: "n \<le> 32 \<Longrightarrow> word_bits (push_bit n w) = drop n (word_bits w) @ replicate n False"
  by (rule nth_equalityI) (auto simp: bit_simps nth_append add.commute)

lemma word_bits_be:
  "word_bits (word_be a b c d) = byte_bits a @ byte_bits b @ byte_bits c @ byte_bits d"
  by (rule nth_equalityI)
    (auto simp: bit_word_be nth_append intro!: arg_cong2 [where f = bit])

lemma byte_bits_0: "byte_bits 0 = replicate 8 False"
  by (rule nth_equalityI) auto

lemma word_eq_0_iff_bits: "w = 0 \<longleftrightarrow> word_bits w = replicate 32 False"
proof
  assume "word_bits w = replicate 32 False"
  then have *: "\<And>i. i < 32 \<Longrightarrow> \<not> bit w (31 - i)" by (metis nth_word_bits nth_replicate)
  have "\<not> bit w k" for k
    using * [of "31 - k"] bit_imp_le_length [of w k] by (cases "k < 32") auto
  then show "w = 0" by (simp add: bit_eq_iff)
next
  assume "w = 0"
  then show "word_bits w = replicate 32 False"
    by (intro nth_equalityI) auto
qed

end
