(* ===== verification/Golomb_Codes.thy ===== *)
theory Golomb_Codes
  imports Exp_Golomb Bit_Lists
begin

text \<open>
  Correctness of the bit reader: what the reader has left is a bit string, every operation
  consumes a prefix of it, and the Exp-Golomb codes are decoded as the H.264 standard defines
  them.
\<close>

section \<open>The reader as a bit string\<close>

definition eg_rest :: "exp_golomb \<Rightarrow> bytes" where
  "eg_rest s = drop (length (eg_data s) - nat (eg_bytesAvailable s)) (eg_data s)"

definition eg_bits :: "exp_golomb \<Rightarrow> bool list" where
  "eg_bits s = take (nat (eg_bitsAvailable s)) (word_bits (eg_word s)) @ stream_bits (eg_rest s)"

definition eg_inv :: "exp_golomb \<Rightarrow> bool" where
  "eg_inv s \<longleftrightarrow>
     0 \<le> eg_bytesAvailable s \<and> eg_bytesAvailable s \<le> int (length (eg_data s)) \<and>
     0 \<le> eg_bitsAvailable s \<and> eg_bitsAvailable s \<le> 32 \<and>
     (eg_bitsAvailable s = 0 \<and> 0 < eg_bytesAvailable s \<longrightarrow> eg_word s = 0)"

lemma new_inv [simp]: "eg_inv (new_ExpGolomb d)"
  by (simp add: eg_inv_def new_ExpGolomb_def)

lemma new_bits [simp]: "eg_bits (new_ExpGolomb d) = stream_bits d"
  by (simp add: eg_bits_def eg_rest_def new_ExpGolomb_def)

lemma length_eg_rest: "eg_inv s \<Longrightarrow> length (eg_rest s) = nat (eg_bytesAvailable s)"
  by (auto simp: eg_rest_def eg_inv_def)

lemma length_eg_bits:
  "eg_inv s \<Longrightarrow> int (length (eg_bits s)) = eg_bitsAvailable s + 8 * eg_bytesAvailable s"
  by (auto simp: eg_bits_def length_eg_rest) (auto simp: eg_inv_def)

lemma word_bits_of_chunk:
  assumes "length xs \<le> 4"
  shows "take (8 * length xs) (word_bits (get_uint32 (set_at [0, 0, 0, 0] xs 0) 0)) = stream_bits xs"
proof -
  have "xs = [] \<or> (\<exists>a. xs = [a]) \<or> (\<exists>a b. xs = [a, b]) \<or> (\<exists>a b c. xs = [a, b, c])
        \<or> (\<exists>a b c d. xs = [a, b, c, d])"
    using assms by (cases xs; cases "tl xs"; cases "tl (tl xs)"; cases "tl (tl (tl xs))") auto
  then show ?thesis
    by (elim disjE exE) (simp_all add: set_at_def get_uint32_def word_bits_be numeral_nat)
qed

lemma loadWord_refines:
  assumes "0 < eg_bytesAvailable s" and "eg_bytesAvailable s \<le> int (length (eg_data s))"
  obtains s' where "loadWord s = Inr ((), s')" "eg_inv s'" "eg_data s' = eg_data s"
    "eg_bits s' = stream_bits (eg_rest s)" "0 < eg_bitsAvailable s'" "8 dvd eg_bitsAvailable s'"
    "eg_bytesAvailable s' < eg_bytesAvailable s"
proof -
  define n where "n = nat (eg_bytesAvailable s)"
  define p where "p = length (eg_data s) - n"
  define a where "a = min 4 n"
  define xs where "xs = take a (drop p (eg_data s))"
  have n: "eg_bytesAvailable s = int n" "0 < n" "n \<le> length (eg_data s)"
    using assms by (auto simp: n_def)
  have pa: "p + a \<le> length (eg_data s)" and lx: "length xs = a" and a: "0 < a" "a \<le> 4" "a \<le> n"
    using n by (auto simp: p_def a_def xs_def)
  have av: "min 4 (eg_bytesAvailable s) = int a" using n by (simp add: a_def)
  have pos: "int (length (eg_data s)) - int n = int p" using n by (simp add: p_def)
  have sub: "subarray (eg_data s) (int p) (int p + int a) = xs"
    using subarray_nat [of p "p + a" "eg_data s"] pa by (simp add: xs_def)
  let ?s = "s\<lparr>eg_word := get_uint32 (set_at [0, 0, 0, 0] xs 0) 0,
              eg_bitsAvailable := int a * 8, eg_bytesAvailable := int n - int a\<rparr>"
  have "loadWord s = Inr ((), ?s)"
    using a n av sub pos by (simp add: loadWord_def Let_def)
  moreover have "eg_inv ?s" using a n by (auto simp: eg_inv_def)
  moreover have "eg_bits ?s = stream_bits (eg_rest s)"
  proof -
    have "nat (int a * 8) = 8 * length xs" using lx by simp
    then have "take (nat (int a * 8)) (word_bits (eg_word ?s)) = stream_bits xs"
      using word_bits_of_chunk [of xs] lx a by simp
    moreover have "eg_rest ?s = drop (p + a) (eg_data s)"
      using n a by (simp add: eg_rest_def p_def nat_diff_distrib algebra_simps)
    moreover have "eg_rest s = xs @ drop (p + a) (eg_data s)"
      using append_take_drop_id [of a "drop p (eg_data s)"] n
      by (simp add: eg_rest_def p_def xs_def add.commute)
    ultimately show ?thesis by (simp add: eg_bits_def)
  qed
  ultimately show thesis using a n by (intro that) auto
qed

lemma eg_bits_shift:
  assumes "eg_inv s" and "0 \<le> n" and "n < eg_bitsAvailable s"
  shows "eg_inv (s\<lparr>eg_word := shl (eg_word s) n, eg_bitsAvailable := eg_bitsAvailable s - n\<rparr>)"
    (is "eg_inv ?s")
    and "eg_bits (s\<lparr>eg_word := shl (eg_word s) n, eg_bitsAvailable := eg_bitsAvailable s - n\<rparr>)
         = drop (nat n) (eg_bits s)"
proof -
  show "eg_inv ?s" using assms by (auto simp: eg_inv_def)
  define k m where "k = nat n" and "m = nat (eg_bitsAvailable s)"
  have km: "n = int k" "eg_bitsAvailable s = int m" "k < m" "m \<le> 32"
    using assms by (auto simp: eg_inv_def k_def m_def)
  then have "take (m - k) (word_bits (shl (eg_word s) n)) = drop k (take m (word_bits (eg_word s)))"
    by (simp add: shl_def word_bits_push drop_take nat_mod_distrib)
  moreover have "nat (int m - int k) = m - k" using km by arith
  ultimately show "eg_bits ?s = drop (nat n) (eg_bits s)"
    using km by (simp add: eg_bits_def eg_rest_def)
qed

section \<open>Values put together from two words\<close>

lemma bit_bits_val_append:
  "bit (bits_val (xs @ ys)) k \<longleftrightarrow>
     (if k < length ys then bit (bits_val ys) k else bit (bits_val xs) (k - length ys))"
  by (auto simp: bit_bits_val nth_append)

lemma or_combine:
  assumes "uint w = bits_val xs" and "to_uint32 v = bits_val ys"
    and "length xs + length ys \<le> 32" and "length ys = 32 \<longrightarrow> w = 0"
  shows "to_uint32 (js_or (uint (shl w (int (length ys)))) v) = bits_val (xs @ ys)"
proof (rule bit_eqI)
  fix k
  let ?n = "length ys"
  have v: "k < 32 \<Longrightarrow> bit v k = bit (bits_val ys) k"
    using assms(2) by (auto simp: to_uint32_def bit_take_bit_iff dest: arg_cong [where f = "\<lambda>x. bit x k"])
  have w: "bit w j = bit (bits_val xs) j" for j
    using assms(1) by (metis bit_uint_iff bit_imp_le_length)
  have high: "bit (bits_val ys) k \<Longrightarrow> k < ?n" and "bit (bits_val xs) (k - ?n) \<Longrightarrow> k - ?n < length xs"
    by (simp_all add: bit_bits_val)
  show "bit (to_uint32 (js_or (uint (shl w (int ?n))) v)) k = bit (bits_val (xs @ ys)) k"
  proof (cases "?n = 32")
    case True
    then have "xs = []" and "w = 0" using assms(3,4) by auto
    with True v show ?thesis
      by (auto simp: to_uint32_def js_or_def bit_simps bit_to_int32 shl_def bit_bits_val min_def)
  next
    case False
    then have "?n < 32" using assms(3) by simp
    then have "bit (to_uint32 (js_or (uint (shl w (int ?n))) v)) k
        \<longleftrightarrow> k < 32 \<and> (?n \<le> k \<and> bit w (k - ?n) \<or> bit v k)"
      by (auto simp: to_uint32_def js_or_def bit_simps bit_to_int32 shl_def min_def)
    also have "\<dots> \<longleftrightarrow> bit (bits_val (xs @ ys)) k"
      unfolding bit_bits_val_append w using v high assms(3)
      by (cases "k < 32"; cases "k < ?n") (auto dest: bit_bits_val [THEN iffD1])
    finally show ?thesis .
  qed
qed

lemma small_of_uint32:
  assumes "to_uint32 x = y" and "y < 2 ^ 31" and "to_int32 x = x"
  shows "x = y"
proof -
  have "x = signed_take_bit 31 (take_bit 32 x)"
    using assms(3) by (simp add: to_int32_def signed_take_bit_take_bit)
  also have "\<dots> = y"
    using assms(1,2) take_bit_nonnegative [of 32 x] by (simp add: to_uint32_def signed_take_bit_int_eq_self_iff)
  finally show ?thesis .
qed

section \<open>Reading, skipping and counting zeros\<close>


lemma drop_reg:
  assumes "eg_inv s"
  shows "take (nat (eg_bitsAvailable s)) (eg_bits s) = take (nat (eg_bitsAvailable s)) (word_bits (eg_word s))"
    and "drop (nat (eg_bitsAvailable s)) (eg_bits s) = stream_bits (eg_rest s)"
  using assms by (auto simp: eg_bits_def eg_inv_def)

lemma reg_value:
  assumes "eg_inv s" and "0 < n" and "n \<le> nat (eg_bitsAvailable s)"
  shows "uint (ushr (eg_word s) (32 - int n)) = bits_val (take n (eg_bits s))"
proof -
  have "n \<le> 32" using assms by (auto simp: eg_inv_def)
  have "(32 - int n) mod 32 = 32 - int n"
    using \<open>n \<le> 32\<close> assms(2) by (intro mod_pos_pos_trivial) auto
  then have "nat ((32 - int n) mod 32) = 32 - n"
    using \<open>n \<le> 32\<close> by (simp only:)
  moreover have "take n (eg_bits s) = take n (word_bits (eg_word s))"
    using assms \<open>n \<le> 32\<close> by (simp add: eg_bits_def)
  ultimately show ?thesis using \<open>n \<le> 32\<close> by (simp add: ushr_def bits_val_word)
qed

lemma refill_within:
  assumes "eg_inv s" and "0 < n" and "int n < eg_bitsAvailable s"
  obtains s' where "refill (int n) s = Inr s'" "eg_inv s'" "eg_data s' = eg_data s"
    "eg_bits s' = drop n (eg_bits s)"
proof -
  let ?s = "s\<lparr>eg_word := shl (eg_word s) (int n), eg_bitsAvailable := eg_bitsAvailable s - int n\<rparr>"
  have "refill (int n) s = Inr ?s"
    using assms by (cases s) (simp add: refill_def Let_def)
  then show thesis
    using eg_bits_shift [OF assms(1), of "int n"] assms by (intro that [of ?s]) auto
qed

lemma refill_all:
  assumes "eg_inv s"
  obtains s' where "refill (eg_bitsAvailable s) s = Inr s'" "eg_inv s'" "eg_data s' = eg_data s"
    "eg_bits s' = stream_bits (eg_rest s)"
    "eg_bytesAvailable s > 0 \<longrightarrow> 0 < eg_bitsAvailable s'"
proof (cases "0 < eg_bytesAvailable s")
  case True
  let ?s = "s\<lparr>eg_bitsAvailable := 0\<rparr>"
  have "0 < eg_bytesAvailable ?s" "eg_bytesAvailable ?s \<le> int (length (eg_data ?s))"
    using True assms by (auto simp: eg_inv_def)
  from loadWord_refines [OF this] obtain s' where
    "loadWord ?s = Inr ((), s')" "eg_inv s'" "eg_data s' = eg_data s"
    "eg_bits s' = stream_bits (eg_rest s)" "0 < eg_bitsAvailable s'"
    by (auto simp: eg_rest_def)
  with True that show thesis by (auto simp: refill_def Let_def)
next
  case False
  with assms that [of "s\<lparr>eg_bitsAvailable := 0\<rparr>"] show thesis
    by (auto simp: refill_def Let_def eg_inv_def eg_bits_def eg_rest_def)
qed

definition reads :: "int \<Rightarrow> bool list \<Rightarrow> bool" where
  "reads v bs \<longleftrightarrow> to_uint32 v = bits_val bs \<and> (length bs < 32 \<longrightarrow> v = bits_val bs)"

lemma to_uint32_bits_val [simp]: "length bs \<le> 32 \<Longrightarrow> to_uint32 (bits_val bs) = bits_val bs"
  using bits_val_bounds [of bs] power_increasing [of "length bs" 32 "2::int"]
  by (simp add: to_uint32_def take_bit_int_eq_self_iff)

lemma reads_reg: "v = bits_val bs \<Longrightarrow> length bs \<le> 32 \<Longrightarrow> reads v bs"
  by (simp add: reads_def)

lemma to_int32_js_or [simp]: "to_int32 (js_or x y) = js_or x y"
  by (rule bit_eqI) (simp add: js_or_def bit_simps bit_to_int32)

lemma reads_or:
  assumes "uint w = bits_val xs" "reads v ys" "length xs + length ys \<le> 32"
    "length ys = 32 \<longrightarrow> w = 0"
  shows "reads (js_or (uint (shl w (int (length ys)))) v) (xs @ ys)"
proof -
  have u: "to_uint32 (js_or (uint (shl w (int (length ys)))) v) = bits_val (xs @ ys)"
    using or_combine assms by (simp add: reads_def)
  moreover have "length (xs @ ys) < 32 \<Longrightarrow> bits_val (xs @ ys) < 2 ^ 31"
    using bits_val_bounds(2) [of "xs @ ys"] power_increasing [of "length (xs @ ys)" 31 "2::int"]
    by (simp add: order_less_le_trans)
  ultimately show ?thesis
    using small_of_uint32 [OF u] unfolding reads_def by (metis to_int32_js_or)
qed

lemma readBits_refines:
  assumes "eg_inv s" and "0 < n" and "n \<le> 32" and "n \<le> length (eg_bits s)"
  shows "\<exists>v s'. readBits (int n) s = Inr (v, s') \<and> eg_inv s' \<and> eg_data s' = eg_data s \<and>
           eg_bits s' = drop n (eg_bits s) \<and> reads v (take n (eg_bits s))"
  using assms
proof (induction "int n" s arbitrary: n rule: readBits.induct)
  case (1 s n)
  define m where "m = nat (eg_bitsAvailable s)"
  have m: "eg_bitsAvailable s = int m" "m \<le> 32" using "1.prems"(1) by (auto simp: m_def eg_inv_def)
  show ?case
  proof (cases "n < m")
    case True
    with refill_within [OF "1.prems"(1,2)] m obtain s' where s':
      "refill (int n) s = Inr s'" "eg_inv s'" "eg_data s' = eg_data s"
      "eg_bits s' = drop n (eg_bits s)" by auto
    have "reads (uint (ushr (eg_word s) (32 - int n))) (take n (eg_bits s))"
      using reg_value [OF "1.prems"(1,2)] True "1.prems"(3) by (intro reads_reg) (auto simp: m_def)
    with s' True m show ?thesis by (subst readBits.simps) (simp add: min_def)
  next
    case False
    from refill_all [OF "1.prems"(1)] obtain s1 where s1:
      "refill (int m) s = Inr s1" "eg_inv s1" "eg_data s1 = eg_data s"
      "eg_bits s1 = drop m (eg_bits s)" "eg_bytesAvailable s > 0 \<longrightarrow> 0 < eg_bitsAvailable s1"
      using m drop_reg [OF "1.prems"(1)] by (metis nat_int)
    have min: "min (eg_bitsAvailable s) (int n) = int m" using False m by simp
    show ?thesis
    proof (cases "n = m")
      case True
      have "reads (uint (ushr (eg_word s) (32 - int n))) (take n (eg_bits s))"
        using reg_value [OF "1.prems"(1,2)] True "1.prems"(3) by (intro reads_reg) (auto simp: m_def)
      with s1 True m show ?thesis by (subst readBits.simps) simp
    next
      case neq: False
      with False have nm: "m < n" by simp
      have bytes: "0 < eg_bytesAvailable s"
        using "1.prems"(4) nm m length_eg_bits [OF "1.prems"(1)] "1.prems"(1)
        by (auto simp: eg_inv_def)
      have "\<exists>v s'. readBits (int (n - m)) s1 = Inr (v, s') \<and> eg_inv s' \<and> eg_data s' = eg_data s1 \<and>
          eg_bits s' = drop (n - m) (eg_bits s1) \<and> reads v (take (n - m) (eg_bits s1))"
        using s1 bytes nm min m "1.prems"
        by (intro "1.hyps" [of "int m" "ushr (eg_word s) (32 - int m)" s1])
          (auto simp: of_nat_diff)
      then obtain v s2 where s2: "readBits (int n - int m) s1 = Inr (v, s2)" "eg_inv s2"
        "eg_data s2 = eg_data s" "eg_bits s2 = drop n (eg_bits s)"
        "reads v (take (n - m) (drop m (eg_bits s)))"
        using s1 nm by (auto simp: of_nat_diff)
      let ?w = "ushr (eg_word s) (32 - int m)"
      have w: "uint ?w = bits_val (take m (eg_bits s))"
      proof (cases "m = 0")
        case True
        then have "eg_word s = 0" using "1.prems"(1) bytes m by (auto simp: eg_inv_def)
        then show ?thesis using True by (simp add: ushr_def)
      next
        case False
        then show ?thesis using reg_value [OF "1.prems"(1), of m] by (simp add: m_def)
      qed
      have len: "length (take m (eg_bits s)) = m" "length (take (n - m) (drop m (eg_bits s))) = n - m"
        using "1.prems"(4) nm by auto
      have zero: "n - m = 32 \<longrightarrow> ?w = 0"
      proof
        assume "n - m = 32"
        then have "m = 0" using "1.prems"(3) by simp
        then show "?w = 0" using w by (simp flip: uint_0_iff)
      qed
      have "reads (js_or (uint (shl ?w (int (n - m)))) v)
              (take m (eg_bits s) @ take (n - m) (drop m (eg_bits s)))"
        using reads_or [OF w s2(5)] len zero "1.prems"(3) nm by simp
      moreover have "take m (eg_bits s) @ take (n - m) (drop m (eg_bits s)) = take n (eg_bits s)"
        using nm by (simp flip: take_add)
      ultimately show ?thesis
        using s1 s2 bytes nm min by (subst readBits.simps) (simp add: of_nat_diff Let_def)
    qed
  qed
qed

lemma skipBits_refines:
  assumes "eg_inv s" and "n < length (eg_bits s)" and "int n - eg_bitsAvailable s < 8"
  shows "\<exists>s'. skipBits (int n) s = Inr ((), s') \<and> eg_inv s' \<and> eg_data s' = eg_data s \<and>
           eg_bits s' = drop n (eg_bits s)"
proof (cases "eg_bitsAvailable s > int n")
  case True
  with eg_bits_shift [OF assms(1), of "int n"] show ?thesis by (simp add: skipBits_def)
next
  case False
  define m where "m = nat (eg_bitsAvailable s)"
  define c where "c = n - m"
  have m: "eg_bitsAvailable s = int m" and c: "int n - int m = int c" "c < 8" "n = m + c"
    using assms(1,3) False by (auto simp: m_def c_def eg_inv_def)
  have zero: "js_shr (int c) 3 = 0" "js_shr 0 3 = 0"
    using c(2) by (simp_all add: js_shr_def to_int32_def signed_take_bit_int_eq_self drop_bit_eq_div)
  have bytes: "0 < eg_bytesAvailable s" "eg_bytesAvailable s \<le> int (length (eg_data s))"
    using assms(1,2) length_eg_bits [OF assms(1)] c m by (auto simp: eg_inv_def)
  from loadWord_refines [OF bytes] obtain s1 where s1: "loadWord s = Inr ((), s1)" "eg_inv s1"
    "eg_data s1 = eg_data s" "eg_bits s1 = stream_bits (eg_rest s)"
    "0 < eg_bitsAvailable s1" "8 dvd eg_bitsAvailable s1" by metis
  have eight: "8 \<le> eg_bitsAvailable s1" using s1(5,6) by (rule zdvd_imp_le [rotated])
  have "eg_bits s1 = drop m (eg_bits s)" using s1(4) drop_reg(2) [OF assms(1)] m by simp
  then show ?thesis
    using s1 False m c zero eg_bits_shift [OF s1(2), of "int c"] eight
    by (simp add: skipBits_def Let_def add.commute)
qed

lemma skipBits_overshoots:
  assumes "eg_inv s" and c: "int n = eg_bitsAvailable s + int c" "8 \<le> c" "c < 32"
    and "int (c div 8) + 4 \<le> eg_bytesAvailable s"
  shows "\<exists>s'. skipBits (int n) s = Inr ((), s') \<and>
           eg_bits s' = drop (n + 8 * (c div 8)) (eg_bits s)"
proof -
  define m where "m = nat (eg_bitsAvailable s)"
  have m: "eg_bitsAvailable s = int m" and n: "n = m + c"
    using assms(1) c by (auto simp: m_def eg_inv_def)
  have shr: "js_shr (int c) 3 = int (c div 8)" "js_shr (int (c div 8)) 3 = 0"
    using c by (simp_all add: js_shr_def to_int32_def signed_take_bit_int_eq_self drop_bit_eq_div zdiv_int)
  let ?s = "s\<lparr>eg_bytesAvailable := eg_bytesAvailable s - int (c div 8)\<rparr>"
  have bytes: "0 < eg_bytesAvailable ?s" "eg_bytesAvailable ?s \<le> int (length (eg_data ?s))"
    using assms by (auto simp: eg_inv_def)
  from loadWord_refines [OF bytes] obtain s1 where s1: "loadWord ?s = Inr ((), s1)" "eg_inv s1"
    "eg_bits s1 = stream_bits (eg_rest ?s)" by metis
  have avail: "eg_bitsAvailable s1 = 32"
    using s1(1) assms by (auto simp: loadWord_def Let_def min_def split: if_splits)
  have "eg_rest ?s = drop (c div 8) (eg_rest s)"
  proof -
    define b where "b = nat (eg_bytesAvailable s)"
    have b: "eg_bytesAvailable s = int b" "c div 8 \<le> b" "b \<le> length (eg_data s)"
      using assms by (auto simp: b_def eg_inv_def)
    then have "nat (int b - int (c div 8)) = b - c div 8" by arith
    then show ?thesis using b by (simp add: eg_rest_def add.commute)
  qed
  then have "eg_bits s1 = drop (m + 8 * (c div 8)) (eg_bits s)"
    using s1(3) drop_reg(2) [OF assms(1)] m
    by (metis stream_bits_drop drop_drop add.commute nat_int)
  then show ?thesis
    using s1 c shr m n avail eg_bits_shift [OF s1(2), of "int c"]
    by (simp add: skipBits_def Let_def ac_simps)
qed

lemma test_bit_ushr: "j < 32 \<Longrightarrow> w AND ushr 0x80000000 (int j) \<noteq> 0 \<longleftrightarrow> word_bits w ! j"
proof -
  assume j: "j < 32"
  have e: "bit (0x80000000 :: u32) i \<longleftrightarrow> i = 31" for i
  proof -
    have "(0x80000000 :: u32) = push_bit 31 1" by simp
    then show ?thesis by (simp only: bit_push_bit_iff) (auto simp: bit_1_iff)
  qed
  have "drop_bit j (0x80000000 :: u32) = 2 ^ (31 - j)"
    by (rule bit_eqI, unfold bit_drop_bit_eq comp_def e) (use j in \<open>auto simp: bit_exp_iff\<close>)
  then show ?thesis using j by (simp add: ushr_def and_exp_eq_0_iff_not_bit)
qed

lemma lz_loop_None:
  assumes "i \<le> m" "m \<le> 32" "\<And>j. i \<le> j \<Longrightarrow> j < m \<Longrightarrow> \<not> word_bits w ! j"
  shows "lz_loop w (int m) (int i) = None"
  using assms
proof (induction "m - i" arbitrary: i)
  case 0
  then show ?case by (subst lz_loop.simps) simp
next
  case (Suc d)
  then have "\<not> word_bits w ! i" "i < 32" by auto
  moreover have "lz_loop w (int m) (int (Suc i)) = None" using Suc by (intro Suc.hyps) auto
  ultimately show ?case
    using test_bit_ushr [of i w] by (subst lz_loop.simps) (auto simp: add.commute)
qed

lemma lz_loop_Some:
  assumes "i \<le> k" "k < m" "m \<le> 32" "\<And>j. i \<le> j \<Longrightarrow> j < k \<Longrightarrow> \<not> word_bits w ! j" "word_bits w ! k"
  shows "lz_loop w (int m) (int i) = Some (int k)"
  using assms
proof (induction "k - i" arbitrary: i)
  case 0
  then show ?case using test_bit_ushr [of i w] by (subst lz_loop.simps) simp
next
  case (Suc d)
  then have "\<not> word_bits w ! i" "i < 32" by auto
  moreover have "lz_loop w (int m) (int (Suc i)) = Some (int k)" using Suc by (intro Suc.hyps) auto
  ultimately show ?case
    using test_bit_ushr [of i w] Suc by (subst lz_loop.simps) (auto simp: add.commute)
qed

lemma skipLZ_refines:
  assumes "eg_inv s" and "eg_bits s = replicate k False @ True # rest"
  shows "\<exists>s'. skipLZ s = Inr (int k, s') \<and> eg_inv s' \<and> eg_data s' = eg_data s \<and>
           eg_bits s' = True # rest"
  using assms
proof (induction s arbitrary: k rule: skipLZ.induct)
  case (1 s k)
  define m where "m = nat (eg_bitsAvailable s)"
  have m: "eg_bitsAvailable s = int m" "m \<le> 32" using "1.prems"(1) by (auto simp: m_def eg_inv_def)
  have reg: "word_bits (eg_word s) ! j = (replicate k False @ True # rest) ! j" if "j < m" for j
    using that m arg_cong [OF "1.prems"(2), of "\<lambda>bs. bs ! j"] by (simp add: eg_bits_def nth_append)
  show ?case
  proof (cases "k < m")
    case True
    have "\<not> word_bits (eg_word s) ! j" if "j < k" for j
      using reg [of j] that True by (simp add: nth_append)
    moreover have "word_bits (eg_word s) ! k" using reg [OF True] by (simp add: nth_append)
    ultimately have "lz_loop (eg_word s) (int m) 0 = Some (int k)"
      using lz_loop_Some [of 0 k m "eg_word s"] True m by simp
    moreover have "drop k (replicate k False @ True # rest) = True # rest" by simp
    ultimately show ?thesis
      using True m eg_bits_shift [OF "1.prems"(1), of "int k"] "1.prems"(2)
      by (subst skipLZ.simps) simp
  next
    case False
    have "\<not> word_bits (eg_word s) ! j" if "j < m" for j
      using reg [of j] that False by (simp add: nth_append)
    then have none: "lz_loop (eg_word s) (int m) 0 = None"
      using lz_loop_None [of 0 m "eg_word s"] m by simp
    have bytes: "0 < eg_bytesAvailable s" "eg_bytesAvailable s \<le> int (length (eg_data s))"
      using "1.prems" length_eg_bits [OF "1.prems"(1)] m False by (auto simp: eg_inv_def)
    from loadWord_refines [OF bytes] obtain s1 where s1: "loadWord s = Inr ((), s1)" "eg_inv s1"
      "eg_data s1 = eg_data s" "eg_bits s1 = stream_bits (eg_rest s)" by metis
    then have "eg_bits s1 = replicate (k - m) False @ True # rest"
      using drop_reg(2) [OF "1.prems"(1)] m "1.prems"(2) False by simp
    then obtain s2 where s2: "skipLZ s1 = Inr (int (k - m), s2)" "eg_inv s2"
      "eg_data s2 = eg_data s1" "eg_bits s2 = True # rest"
      using "1.IH" [of "((), s1)" "()" s1 "k - m"] none s1 m by auto
    have "int m + int (k - m) = int k" using False by simp
    with none s1 s2 m show ?thesis by (subst skipLZ.simps) simp
  qed
qed

section \<open>Parsers of bit strings\<close>

text \<open>
  \<open>parses I B m bs x\<close>: started where the remaining bits begin with \<open>bs\<close> and something follows,
  \<open>m\<close> returns \<open>x\<close> and leaves exactly what follows.
\<close>

definition parses ::
  "('s \<Rightarrow> bool) \<Rightarrow> ('s \<Rightarrow> bool list) \<Rightarrow> ('s, 'a) stm \<Rightarrow> bool list \<Rightarrow> 'a \<Rightarrow> bool" where
  "parses I B m bs x \<longleftrightarrow>
     (\<forall>s rest. I s \<longrightarrow> B s = bs @ rest \<longrightarrow> rest \<noteq> [] \<longrightarrow>
        (\<exists>s'. m s = Inr (x, s') \<and> I s' \<and> B s' = rest))"

named_theorems parses_rules \<open>composition of bit-string parsers\<close>

lemma parsesE:
  assumes "parses I B m bs x" "I s" "B s = bs @ rest" "rest \<noteq> []"
  obtains s' where "m s = Inr (x, s')" "I s'" "B s' = rest"
  using assms by (auto simp: parses_def)

lemma parses_ret [parses_rules]: "parses I B (ret x) [] x"
  by (simp add: parses_def)

lemma parses_bnd [parses_rules]:
  assumes "parses I B m bs x" and "parses I B (f x) cs y"
  shows "parses I B (bnd m f) (bs @ cs) y"
  unfolding parses_def
proof (intro allI impI)
  fix s rest assume s: "I s" "B s = (bs @ cs) @ rest" "rest \<noteq> []"
  with parsesE [OF assms(1), of s "cs @ rest"] obtain s1
    where s1: "m s = Inr (x, s1)" "I s1" "B s1 = cs @ rest" by auto
  from parsesE [OF assms(2) s1(2,3) s(3)] obtain s2
    where "f x s1 = Inr (y, s2)" "I s2" "B s2 = rest" .
  with s1 show "\<exists>s'. bnd m f s = Inr (y, s') \<and> I s' \<and> B s' = rest" by simp
qed

lemma parses_seq [parses_rules]:
  "parses I B m bs x \<Longrightarrow> parses I B k cs y \<Longrightarrow> parses I B (seq m k) (bs @ cs) y"
  unfolding seq_def by (rule parses_bnd)

lemma parses_eq: "parses I B m bs x \<Longrightarrow> bs = bs' \<Longrightarrow> x = x' \<Longrightarrow> parses I B m bs' x'"
  by simp

section \<open>Exp-Golomb codes\<close>

fun ilog2 :: "nat \<Rightarrow> nat" where
  "ilog2 n = (if n < 2 then 0 else Suc (ilog2 (n div 2)))"

declare ilog2.simps [simp del]

text \<open>\<open>ue(v)\<close> and \<open>se(v)\<close> of the H.264 standard, sections 9.1 and 9.1.1.\<close>

definition ueg_code :: "nat \<Rightarrow> bool list" where
  "ueg_code n = (let k = ilog2 (n + 1) in replicate k False @ num_bits (k + 1) (int (n + 1)))"

definition seg_code :: "int \<Rightarrow> bool list" where
  "seg_code v = ueg_code (nat (if v > 0 then 2 * v - 1 else - 2 * v))"

lemma ilog2_bounds: "0 < n \<Longrightarrow> 2 ^ ilog2 n \<le> n \<and> n < 2 ^ Suc (ilog2 n)"
proof (induction n rule: ilog2.induct)
  case (1 n)
  show ?case
  proof (cases "n < 2")
    case True
    with "1.prems" show ?thesis by (subst (1 2) ilog2.simps) simp
  next
    case False
    with "1.IH" have "2 ^ ilog2 (n div 2) \<le> n div 2 \<and> n div 2 < 2 ^ Suc (ilog2 (n div 2))" by simp
    with False show ?thesis by (subst (1 2) ilog2.simps) auto
  qed
qed

lemma ilog2_less: "0 < n \<Longrightarrow> n < 2 ^ k \<Longrightarrow> ilog2 n < k"
proof -
  assume "0 < n" and "n < 2 ^ k"
  then have "(2::nat) ^ ilog2 n < 2 ^ k" using ilog2_bounds [of n] by linarith
  then show ?thesis by simp
qed

lemma ueg_code_cons:
  "ueg_code n = replicate (ilog2 (n + 1)) False @ True # num_bits (ilog2 (n + 1)) (int (n + 1))"
proof -
  let ?k = "ilog2 (n + 1)"
  have "2 ^ ?k \<le> n + 1" "n + 1 < 2 * 2 ^ ?k" using ilog2_bounds [of "n + 1"] by auto
  then have "(n + 1) div 2 ^ ?k = 1" by (simp add: div_nat_eqI)
  then have "bit (n + 1) ?k" unfolding bit_iff_odd by simp
  then have "bit (int (n + 1)) ?k" by (simp only: bit_of_nat_iff_bit)
  then show ?thesis by (simp add: ueg_code_def Let_def num_bits_Suc)
qed

section \<open>The interface of a bit reader\<close>

text \<open>
  What the code tables above the reader rely on: reading a number of bits, counting leading zeros
  and skipping fewer than eight bits. The laws are those the reader keeps as long as the stream
  holds the bits asked for.
\<close>

locale bit_reader =
  fixes inv :: "'s \<Rightarrow> bool" and bits :: "'s \<Rightarrow> bool list"
    and read :: "int \<Rightarrow> ('s, int) stm" and zeros :: "('s, int) stm"
    and skip :: "int \<Rightarrow> ('s, unit) stm"
  assumes read_law: "inv s \<Longrightarrow> 0 < n \<Longrightarrow> n \<le> 32 \<Longrightarrow> n \<le> length (bits s) \<Longrightarrow>
      \<exists>v s'. read (int n) s = Inr (v, s') \<and> inv s' \<and> bits s' = drop n (bits s)
           \<and> reads v (take n (bits s))"
    and zeros_law: "inv s \<Longrightarrow> bits s = replicate k False @ True # rest \<Longrightarrow>
      \<exists>s'. zeros s = Inr (int k, s') \<and> inv s' \<and> bits s' = True # rest"
    and skip_law: "inv s \<Longrightarrow> n < length (bits s) \<Longrightarrow> n < 8 \<Longrightarrow>
      \<exists>s'. skip (int n) s = Inr ((), s') \<and> inv s' \<and> bits s' = drop n (bits s)"
begin

lemma parses_read:
  assumes "0 < length bs" and "length bs < 32" and "n = int (length bs)" and "v = bits_val bs"
  shows "parses inv bits (read n) bs v"
  unfolding parses_def
proof (intro allI impI)
  fix s rest assume "inv s" "bits s = bs @ rest"
  then show "\<exists>s'. read n s = Inr (v, s') \<and> inv s' \<and> bits s' = rest"
    using read_law [of s "length bs"] assms by (auto simp: reads_def)
qed

lemma parses_skip:
  assumes "length bs < 8" and "n = int (length bs)"
  shows "parses inv bits (skip n) bs ()"
  unfolding parses_def
proof (intro allI impI)
  fix s rest assume "inv s" "bits s = bs @ rest" "rest \<noteq> []"
  then show "\<exists>s'. skip n s = Inr ((), s') \<and> inv s' \<and> bits s' = rest"
    using skip_law [of s "length bs"] assms by auto
qed

lemma parses_ue:
  assumes "n + 1 < 2 ^ 31"
  shows "parses inv bits (bnd zeros (\<lambda>z. bnd (read (z + 1)) (\<lambda>v. ret (v - 1)))) (ueg_code n) (int n)"
  unfolding parses_def
proof (intro allI impI)
  fix s rest assume s: "inv s" "bits s = ueg_code n @ rest" "rest \<noteq> []"
  let ?k = "ilog2 (n + 1)"
  let ?c = "True # num_bits ?k (int (n + 1))"
  from s zeros_law [of s ?k "num_bits ?k (int (n + 1)) @ rest"] obtain s1
    where s1: "zeros s = Inr (int ?k, s1)" "inv s1" "bits s1 = ?c @ rest"
    by (auto simp: ueg_code_cons)
  have k: "?k < 31" using ilog2_less [of "n + 1" 31] assms by simp
  have "bits_val ?c = int (n + 1)"
  proof -
    have "bits_val (replicate ?k False @ ?c) = bits_val (num_bits (?k + 1) (int (n + 1)))"
      unfolding ueg_code_cons [symmetric] by (simp add: ueg_code_def Let_def)
    also have "\<dots> = int (take_bit (?k + 1) (n + 1))" by (simp only: bits_val_num_bits of_nat_take_bit)
    also have "take_bit (?k + 1) (n + 1) = n + 1"
      using ilog2_bounds [of "n + 1"] by (intro take_bit_nat_eq_self) simp
    finally show ?thesis by simp
  qed
  then have "parses inv bits (read (int ?k + 1)) ?c (int (n + 1))"
    using k by (intro parses_read) auto
  from parsesE [OF this s1(2,3) s(3)] obtain s2
    where "read (int ?k + 1) s1 = Inr (int (n + 1), s2)" "inv s2" "bits s2 = rest" .
  with s1 show "\<exists>s'. bnd zeros (\<lambda>z. bnd (read (z + 1)) (\<lambda>v. ret (v - 1))) s = Inr (int n, s')
      \<and> inv s' \<and> bits s' = rest" by simp
qed

lemma parses_skip_ue:
  assumes "n + 1 < 128"
  shows "parses inv bits (bnd zeros (\<lambda>z. skip (1 + z))) (ueg_code n) ()"
  unfolding parses_def
proof (intro allI impI)
  fix s rest assume s: "inv s" "bits s = ueg_code n @ rest" "rest \<noteq> []"
  let ?k = "ilog2 (n + 1)"
  let ?c = "True # num_bits ?k (int (n + 1))"
  from s zeros_law [of s ?k "num_bits ?k (int (n + 1)) @ rest"] obtain s1
    where s1: "zeros s = Inr (int ?k, s1)" "inv s1" "bits s1 = ?c @ rest"
    by (auto simp: ueg_code_cons)
  have "?k < 7" using ilog2_less [of "n + 1" 7] assms by simp
  then have "parses inv bits (skip (1 + int ?k)) ?c ()" by (intro parses_skip) auto
  from parsesE [OF this s1(2,3) s(3)] s1
  show "\<exists>s'. bnd zeros (\<lambda>z. skip (1 + z)) s = Inr ((), s') \<and> inv s' \<and> bits s' = rest"
    by auto
qed

end

interpretation eg: bit_reader eg_inv eg_bits readBits skipLZ skipBits
proof unfold_locales
  fix s n assume "eg_inv s" "0 < n" "n \<le> 32" "n \<le> length (eg_bits s)"
  then show "\<exists>v s'. readBits (int n) s = Inr (v, s') \<and> eg_inv s' \<and> eg_bits s' = drop n (eg_bits s)
      \<and> reads v (take n (eg_bits s))"
    using readBits_refines by blast
next
  fix s k rest assume "eg_inv s" "eg_bits s = replicate k False @ True # rest"
  then show "\<exists>s'. skipLZ s = Inr (int k, s') \<and> eg_inv s' \<and> eg_bits s' = True # rest"
    using skipLZ_refines by blast
next
  fix s n assume s: "eg_inv s" "n < length (eg_bits s)" "n < 8"
  then have "int n - eg_bitsAvailable s < 8" by (auto simp: eg_inv_def)
  with s skipBits_refines
  show "\<exists>s'. skipBits (int n) s = Inr ((), s') \<and> eg_inv s' \<and> eg_bits s' = drop n (eg_bits s)"
    by blast
qed

lemma to_int32_small: "- (2 ^ 31) \<le> x \<Longrightarrow> x < 2 ^ 31 \<Longrightarrow> to_int32 x = x"
  by (simp add: to_int32_def signed_take_bit_int_eq_self)

lemma parses_readUEG: "n + 1 < 2 ^ 31 \<Longrightarrow> parses eg_inv eg_bits readUEG (ueg_code n) (int n)"
  unfolding readUEG_def by (rule eg.parses_ue)

lemma parses_skipUEG: "n + 1 < 128 \<Longrightarrow> parses eg_inv eg_bits skipUEG (ueg_code n) ()"
  unfolding skipUEG_def by (rule eg.parses_skip_ue)

lemma parses_skipEG: "\<bar>v\<bar> < 64 \<Longrightarrow> parses eg_inv eg_bits skipEG (seg_code v) ()"
  unfolding skipEG_def seg_code_def by (rule eg.parses_skip_ue) auto

lemma parses_readEG:
  assumes "\<bar>v\<bar> < 2 ^ 30"
  shows "parses eg_inv eg_bits readEG (seg_code v) v"
proof -
  define n where "n = nat (if v > 0 then 2 * v - 1 else - 2 * v)"
  have n: "n + 1 < 2 ^ 31" "int n = (if v > 0 then 2 * v - 1 else - 2 * v)"
    using assms by (auto simp: n_def)
  have odd: "js_and 1 (int n) \<noteq> 0 \<longleftrightarrow> v > 0"
    using n assms by (auto simp: js_and_def to_int32_small one_and_eq) presburger
  have half: "v > 0 \<Longrightarrow> js_ushr (1 + int n) 1 = v" "\<not> v > 0 \<Longrightarrow> - 1 * js_ushr (int n) 1 = v"
    using n assms by (auto simp: js_ushr_def to_uint32_def take_bit_int_eq_self drop_bit_eq_div)
  have "parses eg_inv eg_bits readEG (ueg_code n @ []) v"
    unfolding readEG_def
    by (rule parses_bnd [OF parses_readUEG [OF n(1)]]) (use odd half in \<open>auto intro: parses_ret\<close>)
  then show ?thesis by (simp add: seg_code_def n_def)
qed

lemma parses_bool: "parses eg_inv eg_bits readBoolean [b] b"
proof -
  have "parses eg_inv eg_bits readBoolean ([b] @ []) (1 = bits_val [b])"
    unfolding readBoolean_def
    by (rule parses_bnd [where x = "bits_val [b]"], rule eg.parses_read) (auto intro: parses_ret)
  then show ?thesis using bits_val_snoc [of "[]" b] by simp
qed

lemma parses_bits:
  assumes "0 < n" "n < 32" "0 \<le> x" "x < 2 ^ n"
  shows "parses eg_inv eg_bits (readBits (int n)) (num_bits n x) x"
  using assms by (intro eg.parses_read) (auto simp: take_bit_int_eq_self)

lemma parses_byte: "parses eg_inv eg_bits readUByte (num_bits 8 (uint b)) (uint (b :: u8))"
  using parses_bits [of 8 "uint b"] uint_lt2p [of b] by (simp add: readUByte_def)

section \<open>Sequence parameter sets\<close>

text \<open>
  The syntax of a sequence parameter set (H.264, section 7.3.2.1.1) up to the aspect ratio, and
  its bits. A scaling list is given by its first entries, up to the one from which on the rest
  repeats it (an empty list asks for the default); \<open>x_scaling\<close> holds the lists that are present.
\<close>

datatype poc = Poc0 nat | Poc1 bool int int "int list" | Poc2 nat

datatype vui = No_vui | No_ratio | Ratio u8 | Extended_ratio u8 u8 u8 u8

record sps_syntax =
  x_nal :: u8
  x_profile :: u8
  x_flags :: "bool list"
  x_level :: u8
  x_id :: nat
  x_chroma :: nat
  x_plane :: bool
  x_luma_depth :: nat
  x_chroma_depth :: nat
  x_bypass :: bool
  x_scaling :: "int list option list option"
  x_log2_frame_num :: nat
  x_poc :: poc
  x_ref_frames :: nat
  x_gaps :: bool
  x_width :: nat
  x_height :: nat
  x_mbs_only :: bool
  x_adaptive :: bool
  x_direct :: bool
  x_crop :: "(nat \<times> nat \<times> nat \<times> nat) option"
  x_vui :: vui

text \<open>The profiles whose parameter sets say the chroma format, in the order of the standard.\<close>

definition std_high_profiles :: "u8 list" where
  "std_high_profiles = [100, 110, 122, 244, 44, 83, 86, 118, 128, 138, 139, 134, 135]"

definition is_high :: "sps_syntax \<Rightarrow> bool" where
  "is_high x \<longleftrightarrow> x_profile x \<in> set std_high_profiles"

text \<open>
  Section 7.3.2.1.1.1: \<open>delta_scale\<close> is from -128 to 127, and leads from one entry to the next modulo
  256; a next entry of 0 ends the list.
\<close>

definition delta_scale :: "int \<Rightarrow> int \<Rightarrow> int" where
  "delta_scale prv x = (x - prv + 128) mod 256 - 128"

fun scaling_list_code :: "nat \<Rightarrow> int \<Rightarrow> int list \<Rightarrow> bool list" where
  "scaling_list_code 0 prv xs = []"
| "scaling_list_code (Suc n) prv [] = seg_code (delta_scale prv 0)"
| "scaling_list_code (Suc n) prv (x # xs) = seg_code (delta_scale prv x) @ scaling_list_code n x xs"

lemma scaling_list_code_numeral [simp]:
  "scaling_list_code (numeral k) prv [] = seg_code (delta_scale prv 0)"
  "scaling_list_code (numeral k) prv (x # xs) = seg_code (delta_scale prv x) @ scaling_list_code (pred_numeral k) x xs"
  by (simp_all add: numeral_eq_Suc)

definition scaling_size :: "nat \<Rightarrow> nat" where
  "scaling_size i = (if i < 6 then 16 else 64)"

fun scaling_lists_code :: "nat \<Rightarrow> int list option list \<Rightarrow> bool list" where
  "scaling_lists_code i [] = []"
| "scaling_lists_code i (None # ls) = False # scaling_lists_code (Suc i) ls"
| "scaling_lists_code i (Some xs # ls) = True # scaling_list_code (scaling_size i) 8 xs @ scaling_lists_code (Suc i) ls"

definition scaling_code :: "int list option list option \<Rightarrow> bool list" where
  "scaling_code m = (case m of None \<Rightarrow> [False] | Some ls \<Rightarrow> True # scaling_lists_code 0 ls)"

definition scaling_ok :: "nat \<Rightarrow> int list option list option \<Rightarrow> bool" where
  "scaling_ok chroma m = (case m of None \<Rightarrow> True
     | Some ls \<Rightarrow> length ls = (if chroma = 3 then 12 else 8) \<and>
         (\<forall>i < length ls. case ls ! i of None \<Rightarrow> True
            | Some xs \<Rightarrow> length xs \<le> scaling_size i \<and> (\<forall>x \<in> set xs. 1 \<le> x \<and> x \<le> 255)))"

definition high_code :: "sps_syntax \<Rightarrow> bool list" where
  "high_code x =
     ueg_code (x_chroma x) @ (if x_chroma x = 3 then [x_plane x] else []) @
     ueg_code (x_luma_depth x) @ ueg_code (x_chroma_depth x) @ [x_bypass x] @ scaling_code (x_scaling x)"

fun poc_code :: "poc \<Rightarrow> bool list" where
  "poc_code (Poc0 n) = ueg_code 0 @ ueg_code n"
| "poc_code (Poc1 z a b fs) =
     ueg_code 1 @ [z] @ seg_code a @ seg_code b @ ueg_code (length fs) @ concat (map seg_code fs)"
| "poc_code (Poc2 n) = ueg_code (n + 2)"

fun poc_ok :: "poc \<Rightarrow> bool" where
  "poc_ok (Poc0 n) \<longleftrightarrow> n + 1 < 2 ^ 31"
| "poc_ok (Poc1 z a b fs) \<longleftrightarrow>
     \<bar>a\<bar> < 64 \<and> \<bar>b\<bar> < 64 \<and> length fs + 1 < 2 ^ 31 \<and> (\<forall>f \<in> set fs. \<bar>f\<bar> < 64)"
| "poc_ok (Poc2 n) \<longleftrightarrow> n + 3 < 2 ^ 31"

fun vui_code :: "vui \<Rightarrow> bool list" where
  "vui_code No_vui = [False]"
| "vui_code No_ratio = [True, False]"
| "vui_code (Ratio r) = [True] @ [True] @ num_bits 8 (uint r)"
| "vui_code (Extended_ratio a b c d) =
     [True] @ [True] @ num_bits 8 255 @ num_bits 8 (uint a) @ num_bits 8 (uint b) @
     num_bits 8 (uint c) @ num_bits 8 (uint d)"

text \<open>Table E-1, for the indices from 1; index 0 is unspecified and those above are reserved: square pixels.\<close>

definition sample_aspect_ratios :: "(int \<times> int) list" where
  "sample_aspect_ratios = [(1, 1), (12, 11), (10, 11), (16, 11), (40, 33), (24, 11), (20, 11), (32, 11), (80, 33),
     (18, 11), (15, 11), (64, 33), (160, 99), (4, 3), (3, 2), (2, 1)]"

fun vui_ratio :: "vui \<Rightarrow> int \<times> int" where
  "vui_ratio (Ratio r) =
     (if 1 \<le> unat r \<and> unat r \<le> length sample_aspect_ratios then sample_aspect_ratios ! (unat r - 1) else (1, 1))"
| "vui_ratio (Extended_ratio a b c d) = (uint a * 256 + uint b, uint c * 256 + uint d)"
| "vui_ratio _ = (1, 1)"

definition crop_code :: "(nat \<times> nat \<times> nat \<times> nat) option \<Rightarrow> bool list" where
  "crop_code c = (case c of None \<Rightarrow> [False]
     | Some (l, r, t, b) \<Rightarrow> [True] @ ueg_code l @ ueg_code r @ ueg_code t @ ueg_code b)"

definition sps_code :: "sps_syntax \<Rightarrow> bool list" where
  "sps_code x =
     num_bits 8 (uint (x_nal x)) @ num_bits 8 (uint (x_profile x)) @ take 5 (x_flags x) @
     drop 5 (x_flags x) @ num_bits 8 (uint (x_level x)) @ ueg_code (x_id x) @
     (if is_high x then high_code x else []) @
     ueg_code (x_log2_frame_num x) @ poc_code (x_poc x) @ ueg_code (x_ref_frames x) @ [x_gaps x] @
     ueg_code (x_width x) @ ueg_code (x_height x) @ [x_mbs_only x] @
     (if x_mbs_only x then [] else [x_adaptive x]) @ [x_direct x] @
     crop_code (x_crop x) @ vui_code (x_vui x)"

text \<open>
  The ranges: what the reader skips with \<open>skipUEG\<close> has to be below 127 (the standard bounds these
  fields by 31 or less) and the offsets it skips with \<open>skipEG\<close> below 64 in absolute value (the
  standard allows more, but a longer skip may go too far); what it reads is below \<open>2 ^ 31\<close>. The
  profiles 138, 139, 134 and 135 (with depth and multiple resolutions) are not known to the reader.
\<close>

definition sps_ok :: "sps_syntax \<Rightarrow> bool" where
  "sps_ok x \<longleftrightarrow>
     length (x_flags x) = 8 \<and> x_profile x \<notin> {138, 139, 134, 135} \<and> x_id x < 127 \<and> x_chroma x \<le> 3 \<and>
     scaling_ok (x_chroma x) (x_scaling x) \<and>
     x_luma_depth x < 127 \<and> x_chroma_depth x < 127 \<and> x_log2_frame_num x < 127 \<and>
     poc_ok (x_poc x) \<and> x_ref_frames x < 127 \<and> x_width x + 1 < 2 ^ 31 \<and> x_height x + 1 < 2 ^ 31 \<and>
     (case x_crop x of None \<Rightarrow> True
      | Some (l, r, t, b) \<Rightarrow> l + 1 < 2 ^ 31 \<and> r + 1 < 2 ^ 31 \<and> t + 1 < 2 ^ 31 \<and> b + 1 < 2 ^ 31) \<and>
     (\<forall>r. x_vui x = Ratio r \<longrightarrow> r \<noteq> 255)"

definition crop_of :: "sps_syntax \<Rightarrow> int \<times> int \<times> int \<times> int" where
  "crop_of x = (case x_crop x of None \<Rightarrow> (0, 0, 0, 0)
     | Some (l, r, t, b) \<Rightarrow> (int l, int r, int t, int b))"

text \<open>
  What a parameter set means (section 7.4.2.1.1): cropping counts in units that depend on the chroma
  format, table 6-1, and on whether frames are made of fields. Without the syntax for it the format is
  4:2:0, and planes that are coded apart count as monochrome.
\<close>

definition chroma_format_idc :: "sps_syntax \<Rightarrow> nat" where
  "chroma_format_idc x = (if is_high x then x_chroma x else 1)"

definition chroma_array_type :: "sps_syntax \<Rightarrow> nat" where
  "chroma_array_type x = (if chroma_format_idc x = 3 \<and> x_plane x then 0 else chroma_format_idc x)"

definition crop_unit_x :: "sps_syntax \<Rightarrow> int" where
  "crop_unit_x x = (if chroma_array_type x \<in> {1, 2} then 2 else 1)"

definition crop_unit_y :: "sps_syntax \<Rightarrow> int" where
  "crop_unit_y x = (if chroma_array_type x = 1 then 2 else 1) * (if x_mbs_only x then 1 else 2)"

definition sps_meaning :: "sps_syntax \<Rightarrow> sps_info" where
  "sps_meaning x =
     (let (l, r, t, b) = crop_of x
      in \<lparr>sps_width = 16 * (int (x_width x) + 1) - crop_unit_x x * (l + r),
          sps_height = (if x_mbs_only x then 1 else 2) * 16 * (int (x_height x) + 1) - crop_unit_y x * (t + b),
          sps_pixelRatio = vui_ratio (x_vui x)\<rparr>)"

text \<open>What the reader takes it for: every chroma format as 4:2:0.\<close>

definition sps_read :: "sps_syntax \<Rightarrow> sps_info" where
  "sps_read x =
     (let (l, r, t, b) = crop_of x; frame = (if x_mbs_only x then 1 else 2)
      in \<lparr>sps_width = 16 * (int (x_width x) + 1) - 2 * (l + r),
          sps_height = frame * (16 * (int (x_height x) + 1) - 2 * (t + b)),
          sps_pixelRatio = vui_ratio (x_vui x)\<rparr>)"

lemma sps_read_meaning: "x_crop x = None \<or> chroma_format_idc x = 1 \<Longrightarrow> sps_read x = sps_meaning x"
  by (auto simp: sps_read_def sps_meaning_def crop_of_def crop_unit_x_def crop_unit_y_def chroma_array_type_def Let_def split: prod.split)

lemma parses_flag_skip: "parses eg_inv eg_bits (skipBits 1) [b] ()"
  by (rule eg.parses_skip) auto

lemma parses_opt_skip:
  "parses eg_inv eg_bits (if c then skipBits 1 else ret ()) (if c then [b] else []) ()"
  by (auto intro: parses_flag_skip parses_ret)

lemmas parses_last = parses_bnd [where cs = "[]", simplified]

lemma parses_bool_then:
  "parses eg_inv eg_bits (f b) cs y \<Longrightarrow> parses eg_inv eg_bits (bnd readBoolean f) (b # cs) y"
  using parses_bnd [OF parses_bool] by fastforce

lemma parses_flag_then:
  "parses eg_inv eg_bits k cs y \<Longrightarrow> parses eg_inv eg_bits (seq (skipBits 1) k) (b # cs) y"
  using parses_seq [OF parses_flag_skip] by fastforce

lemma parses_for:
  assumes "\<And>f. f \<in> set fs \<Longrightarrow> parses I B m (code f) ()"
  shows "parses I B (for_upto k (length fs) (\<lambda>_. m)) (concat (map code fs)) ()"
  using assms by (induction fs arbitrary: k) (auto intro!: parses_rules)

lemma is_high_iff: "x_profile x \<notin> {138, 139, 134, 135} \<Longrightarrow> is_high x \<longleftrightarrow> uint (x_profile x) \<in> set high_profiles"
  by (simp add: is_high_def std_high_profiles_def high_profiles_def word_uint_eq_iff)

lemma js_rem_delta: "1 \<le> prv \<Longrightarrow> prv \<le> 255 \<Longrightarrow> 0 \<le> x \<Longrightarrow> x \<le> 255 \<Longrightarrow> js_rem (prv + delta_scale prv x + 256) 256 = x"
proof -
  assume *: "1 \<le> prv" "prv \<le> 255" "0 \<le> x" "x \<le> 255"
  have "0 \<le> (x - prv + 128) mod 256" by simp
  moreover have "(prv + ((x - prv + 128) mod 256 - 128) + 256) mod 256 = x mod 256"
  proof -
    have "prv + ((x - prv + 128) mod 256 - 128) + 256 = (x - prv + 128) mod 256 + (prv + 128)" by simp
    then have "(prv + ((x - prv + 128) mod 256 - 128) + 256) mod 256 = (x - prv + 128 + (prv + 128)) mod 256"
      by (simp only: mod_add_left_eq)
    also have "x - prv + 128 + (prv + 128) = x + 256" by simp
    finally show ?thesis by simp
  qed
  ultimately show ?thesis using * by (simp add: js_rem_def delta_scale_def)
qed

lemma delta_small: "\<bar>delta_scale prv x\<bar> < 2 ^ 30"
proof -
  have "0 \<le> (x - prv + 128) mod 256" "(x - prv + 128) mod 256 < 256" by simp_all
  then show ?thesis by (simp add: delta_scale_def)
qed

lemma parses_scaling_rest: "parses eg_inv eg_bits (scaling_loop n prv 0) [] ()"
  by (induction n) (auto intro!: parses_last [OF parses_ret] parses_ret simp: parses_def bnd_def ret_def)

lemma parses_scaling_loop:
  "length xs \<le> n \<Longrightarrow> \<forall>x \<in> set xs. 1 \<le> x \<and> x \<le> 255 \<Longrightarrow> 1 \<le> prv \<Longrightarrow> prv \<le> 255 \<Longrightarrow> next' \<noteq> 0 \<Longrightarrow>
    parses eg_inv eg_bits (scaling_loop n prv next') (scaling_list_code n prv xs) ()"
proof (induction n prv xs arbitrary: next' rule: scaling_list_code.induct)
  case (1 prv xs)
  show ?case unfolding scaling_loop.simps scaling_list_code.simps by (rule parses_ret)
next
  case (2 n prv)
  have "parses eg_inv eg_bits (bnd readEG (\<lambda>d. ret (js_rem (prv + d + 256) 256))) (seg_code (delta_scale prv 0)) 0"
    using 2 by (intro parses_last [OF parses_readEG [OF delta_small]]) (simp add: js_rem_delta parses_ret)
  from parses_last [OF this, of "\<lambda>nx. scaling_loop n (if nx = 0 then prv else nx) nx"] parses_scaling_rest
  show ?case using 2 by simp
next
  case (3 n prv x xs)
  have "parses eg_inv eg_bits (bnd readEG (\<lambda>d. ret (js_rem (prv + d + 256) 256))) (seg_code (delta_scale prv x)) x"
    using 3 by (intro parses_last [OF parses_readEG [OF delta_small]]) (simp add: js_rem_delta parses_ret)
  from parses_bnd [OF this, of "\<lambda>nx. scaling_loop n (if nx = 0 then prv else nx) nx"] 3
  show ?case by simp
qed

lemma parses_scaling_lists:
  assumes "\<forall>i < length ls. case ls ! i of None \<Rightarrow> True
    | Some xs \<Rightarrow> length xs \<le> scaling_size (k + i) \<and> (\<forall>x \<in> set xs. 1 \<le> x \<and> x \<le> 255)"
  shows "parses eg_inv eg_bits
    (for_upto k (length ls) (\<lambda>i. bnd readBoolean (\<lambda>p. if p then skipScalingList (if i < 6 then 16 else 64) else ret ())))
    (scaling_lists_code k ls) ()"
  using assms
proof (induction ls arbitrary: k)
  case Nil
  show ?case unfolding list.size for_upto.simps scaling_lists_code.simps by (rule parses_ret)
next
  case (Cons l ls)
  have tl: "\<forall>i < length ls. case ls ! i of None \<Rightarrow> True
      | Some xs \<Rightarrow> length xs \<le> scaling_size (Suc k + i) \<and> (\<forall>x \<in> set xs. 1 \<le> x \<and> x \<le> 255)"
  proof (intro allI impI)
    fix i assume "i < length ls"
    then show "case ls ! i of None \<Rightarrow> True | Some xs \<Rightarrow> length xs \<le> scaling_size (Suc k + i) \<and> (\<forall>x \<in> set xs. 1 \<le> x \<and> x \<le> 255)"
      using Cons.prems [rule_format, of "Suc i"] unfolding add_Suc_shift by simp
  qed
  show ?case
  proof (cases l)
    case None
    have "parses eg_inv eg_bits (bnd readBoolean (\<lambda>p. if p then skipScalingList (if k < 6 then 16 else 64) else ret ())) [False] ()"
      by (rule parses_bool_then) (simp add: parses_ret)
    from parses_seq [OF this Cons.IH [OF tl]] show ?thesis using None by simp
  next
    case (Some xs)
    have "length xs \<le> scaling_size k" "\<forall>x \<in> set xs. 1 \<le> x \<and> x \<le> 255" using Cons.prems Some by (auto dest: spec [of _ 0])
    then have "parses eg_inv eg_bits (bnd readBoolean (\<lambda>p. if p then skipScalingList (if k < 6 then 16 else 64) else ret ()))
        (True # scaling_list_code (scaling_size k) 8 xs) ()"
      using parses_scaling_loop [of xs "scaling_size k" 8 8]
      by (intro parses_bool_then) (simp add: skipScalingList_def scaling_size_def)
    from parses_seq [OF this Cons.IH [OF tl]] show ?thesis using Some by simp
  qed
qed

lemma parses_scaling_matrix:
  assumes "scaling_ok chroma m"
  shows "parses eg_inv eg_bits (scaling_matrix (int chroma)) (scaling_code m) ()"
proof (cases m)
  case None
  then show ?thesis unfolding scaling_matrix_def scaling_code_def by (auto intro!: parses_bool_then parses_ret)
next
  case (Some ls)
  then have "parses eg_inv eg_bits
      (for_upto 0 (length ls) (\<lambda>i. bnd readBoolean (\<lambda>p. if p then skipScalingList (if i < 6 then 16 else 64) else ret ())))
      (scaling_lists_code 0 ls) ()" "length ls = (if int chroma \<noteq> 3 then 8 else 12)"
    using assms parses_scaling_lists [of ls 0, unfolded add_0] by (auto simp: scaling_ok_def)
  then show ?thesis unfolding scaling_matrix_def scaling_code_def Some by (auto intro!: parses_bool_then)
qed

lemma parses_high:
  assumes "sps_ok x"
  shows "parses eg_inv eg_bits readHighProfile (high_code x) ()"
proof -
  have m: "parses eg_inv eg_bits (scaling_matrix (int (x_chroma x))) (scaling_code (x_scaling x)) ()"
    using assms by (intro parses_scaling_matrix) (simp add: sps_ok_def)
  have s: "parses eg_inv eg_bits (if int (x_chroma x) = 3 then skipBits 1 else ret ())
      (if x_chroma x = 3 then [x_plane x] else []) ()"
    using parses_opt_skip [of "x_chroma x = 3" "x_plane x"] by (simp split: if_splits)
  show ?thesis
    unfolding readHighProfile_def high_code_def
    using assms
    by (intro parses_bnd [OF parses_readUEG] parses_seq [OF s] parses_seq [OF parses_skipUEG]
        parses_seq [OF parses_flag_skip] m) (auto simp: sps_ok_def)
qed

lemma parses_poc:
  assumes "poc_ok p"
  shows "parses eg_inv eg_bits readPicOrderCnt (poc_code p) ()"
proof (cases p)
  case (Poc0 n)
  have "parses eg_inv eg_bits (seq readUEG (ret ())) (ueg_code n @ []) ()"
    using assms Poc0 by (intro parses_seq [OF parses_readUEG] parses_ret) auto
  then show ?thesis unfolding readPicOrderCnt_def using Poc0
    by (auto intro!: parses_bnd [OF parses_readUEG])
next
  case (Poc1 z a b fs)
  have loop: "parses eg_inv eg_bits (for_upto 0 (nat (int (length fs))) (\<lambda>_. skipEG))
      (concat (map seg_code fs)) ()"
    using parses_for [of fs eg_inv eg_bits skipEG seg_code 0] parses_skipEG assms Poc1 by simp
  show ?thesis unfolding readPicOrderCnt_def using Poc1 assms
    by (auto intro!: parses_bnd [OF parses_readUEG] parses_flag_then
        parses_seq [OF parses_skipEG] loop)
next
  case (Poc2 n)
  have "parses eg_inv eg_bits readPicOrderCnt (ueg_code (n + 2) @ []) ()"
    unfolding readPicOrderCnt_def using Poc2 assms
    by (intro parses_bnd [OF parses_readUEG]) (auto intro: parses_ret)
  then show ?thesis using Poc2 by simp
qed

lemma parses_cropping:
  assumes "sps_ok x"
  shows "parses eg_inv eg_bits readCropping (crop_code (x_crop x)) (crop_of x)"
proof (cases "x_crop x")
  case None
  have "parses eg_inv eg_bits readCropping ([False] @ []) (0, 0, 0, 0)"
    unfolding readCropping_def by (rule parses_bnd [OF parses_bool]) (simp add: parses_ret)
  then show ?thesis using None by (simp add: crop_code_def crop_of_def)
next
  case (Some c)
  obtain l r t b where c: "c = (l, r, t, b)" by (cases c)
  have "parses eg_inv eg_bits readCropping
      (True # ueg_code l @ ueg_code r @ ueg_code t @ ueg_code b) (int l, int r, int t, int b)"
    unfolding readCropping_def using assms Some c
    by (auto simp: sps_ok_def intro!: parses_bool_then parses_bnd [OF parses_readUEG]
        parses_last [OF parses_readUEG] parses_ret)
  then show ?thesis using Some c by (simp add: crop_code_def crop_of_def)
qed

lemma two_bytes: "js_or (js_shl (uint (a :: u8)) 8) (uint (b :: u8)) = uint a * 256 + uint b"
proof -
  have "0 \<le> uint a" "uint a < 256" "0 \<le> uint b" "uint b < 256"
    using uint_lt2p [of a] uint_lt2p [of b] by auto
  note bounds = this
  have "to_int32 (x * 256) = x * 256" "to_int32 x = x" if "0 \<le> x" "x < 256" for x
    using that by (simp_all add: to_int32_def signed_take_bit_int_eq_self)
  with bounds have "to_int32 (uint a * 256) = uint a * 256" "to_int32 (uint b) = uint b" by blast+
  then have "js_or (js_shl (uint a) 8) (uint b) = (push_bit 8 (uint a) OR uint b)"
    by (simp add: js_or_def js_shl_def push_bit_eq_mult)
  also have "\<dots> = concat_bit 8 (uint b) (uint a)"
    using bounds
    by (simp add: concat_bit_def take_bit_int_eq_self or.commute)
  also have "\<dots> = uint a * 256 + uint b"
    using bounds
    by (simp add: concat_bit_eq take_bit_int_eq_self push_bit_eq_mult)
  finally show ?thesis .
qed

lemma aspect_ratio_table:
  "aspect_ratio (uint (r :: u8)) = vui_ratio (Ratio r)"
proof -
  have "aspect_ratio (int n) = (if 1 \<le> n \<and> n \<le> length sample_aspect_ratios then sample_aspect_ratios ! (n - 1) else (1, 1))" for n
  proof (cases "1 \<le> n \<and> n \<le> 16")
    case True
    then have "n \<in> {1, 2, 3, 4, 5, 6, 7, 8, 9, 10, 11, 12, 13, 14, 15, 16}" by simp presburger
    then show ?thesis by (auto simp: aspect_ratio_def sample_aspect_ratios_def)
  next
    case False
    then show ?thesis by (auto simp: aspect_ratio_def sample_aspect_ratios_def)
  qed
  from this [of "unat r"] show ?thesis by simp
qed

lemma parses_ratio:
  assumes "\<forall>r. v = Ratio r \<longrightarrow> r \<noteq> 255"
  shows "parses eg_inv eg_bits readPixelRatio (vui_code v) (vui_ratio v)"
proof (cases v)
  case No_vui
  have "parses eg_inv eg_bits readPixelRatio ([False] @ []) (1, 1)"
    unfolding readPixelRatio_def by (rule parses_bnd [OF parses_bool]) (simp add: parses_ret)
  then show ?thesis using No_vui by simp
next
  case No_ratio
  have "parses eg_inv eg_bits readPixelRatio [True, False] (1, 1)"
    unfolding readPixelRatio_def by (auto intro!: parses_bool_then parses_ret)
  then show ?thesis using No_ratio by simp
next
  case (Ratio r)
  then have "uint r \<noteq> 255" using assms by (auto simp: word_uint_eq_iff)
  then have "parses eg_inv eg_bits readPixelRatio (True # True # num_bits 8 (uint r))
      (aspect_ratio (uint r))"
    unfolding readPixelRatio_def
    by (auto intro!: parses_bool_then parses_last [OF parses_byte] parses_ret)
  then show ?thesis using Ratio by (simp add: aspect_ratio_table)
next
  case (Extended_ratio a b c d)
  have escape: "parses eg_inv eg_bits readUByte (num_bits 8 255) 255"
    using parses_byte [of 255] by simp
  have "parses eg_inv eg_bits readPixelRatio
      (True # True # num_bits 8 255 @ num_bits 8 (uint a) @ num_bits 8 (uint b) @
       num_bits 8 (uint c) @ num_bits 8 (uint d))
      (js_or (js_shl (uint a) 8) (uint b), js_or (js_shl (uint c) 8) (uint d))"
    unfolding readPixelRatio_def
    by (auto intro!: parses_bool_then parses_bnd [OF escape] parses_bnd [OF parses_byte]
        parses_last [OF parses_byte] parses_ret)
  then show ?thesis using Extended_ratio by (simp add: two_bytes)
qed

lemma parses_SPS:
  assumes "sps_ok x"
  shows "parses eg_inv eg_bits readSPS (sps_code x) (sps_read x)"
proof -
  obtain l r t b where crop: "crop_of x = (l, r, t, b)" by (cases "crop_of x")
  define f :: int where "f = (if x_mbs_only x then 1 else 0)"
  have f: "parses eg_inv eg_bits (readBits 1) [x_mbs_only x] f"
    by (rule eg.parses_read) (auto simp: f_def bits_val_snoc [of "[]", simplified])
  have adaptive: "parses eg_inv eg_bits (if f = 0 then skipBits 1 else ret ())
      (if x_mbs_only x then [] else [x_adaptive x]) ()"
    using parses_opt_skip [of "f = 0" "x_adaptive x"] by (auto simp: f_def split: if_splits)
  have flags: "parses eg_inv eg_bits (readBits 5) (take 5 (x_flags x)) (bits_val (take 5 (x_flags x)))"
    "parses eg_inv eg_bits (skipBits 3) (drop 5 (x_flags x)) ()"
    using assms by (auto simp: sps_ok_def intro!: eg.parses_read eg.parses_skip)
  have high: "parses eg_inv eg_bits
      (if uint (x_profile x) \<in> set high_profiles then readHighProfile else ret ())
      (if is_high x then high_code x else []) ()"
    using parses_high [OF assms] is_high_iff [of x] assms by (auto simp: sps_ok_def intro: parses_ret)
  have ratio: "parses eg_inv eg_bits readPixelRatio (vui_code (x_vui x)) (vui_ratio (x_vui x))"
    using assms by (intro parses_ratio) (simp add: sps_ok_def)
  let ?r = "\<lparr>sps_width = (int (x_width x) + 1) * 16 - l * 2 - r * 2,
     sps_height = (2 - f) * (int (x_height x) + 1) * 16 - (if f \<noteq> 0 then 2 else 4) * (t + b),
     sps_pixelRatio = vui_ratio (x_vui x)\<rparr>"
  have small: "x_id x + 1 < 128" "x_log2_frame_num x + 1 < 128" "x_ref_frames x + 1 < 128"
    and dims: "x_width x + 1 < 2 ^ 31" "x_height x + 1 < 2 ^ 31" and poc: "poc_ok (x_poc x)"
    using assms by (auto simp: sps_ok_def)
  have "parses eg_inv eg_bits readSPS (sps_code x) ?r"
    unfolding readSPS_def sps_code_def append_assoc
    by (rule parses_seq [OF parses_byte],
        rule parses_bnd [OF parses_byte],
        rule parses_bnd [OF flags(1)],
        rule parses_seq [OF flags(2)],
        rule parses_bnd [OF parses_byte],
        rule parses_seq [OF parses_skipUEG [OF small(1)]],
        rule parses_seq [OF high],
        rule parses_seq [OF parses_skipUEG [OF small(2)]],
        rule parses_seq [OF parses_poc [OF poc]],
        rule parses_seq [OF parses_skipUEG [OF small(3)]],
        rule parses_seq [OF parses_flag_skip],
        rule parses_bnd [OF parses_readUEG [OF dims(1)]],
        rule parses_bnd [OF parses_readUEG [OF dims(2)]],
        rule parses_bnd [OF f],
        rule parses_seq [OF adaptive],
        rule parses_seq [OF parses_flag_skip],
        rule parses_bnd [OF parses_cropping [OF assms, unfolded crop]],
        simp only: prod.case,
        rule parses_last [OF ratio],
        rule parses_ret)
  moreover have "?r = sps_read x"
    by (cases "x_mbs_only x") (simp_all add: sps_read_def crop f_def)
  ultimately show ?thesis by simp
qed

end
