(* ===== verification/Golomb_Props.thy ===== *)
theory Golomb_Props
  imports Golomb_Codes
begin

text \<open>
  The properties of the Exp-Golomb reader and of the parameter-set parser, on the refinement to bit
  strings of \<open>Golomb_Codes\<close>: each rests on the laws of the \<open>bit_reader\<close> interface or on the refinement
  lemmas of the single operations.
\<close>

lemma skipLZ_all_zero:
  assumes "eg_inv s" and "True \<notin> set (eg_bits s)"
  shows "skipLZ s = Inl (JsError ''no bytes available'')"
  using assms
proof (induction s rule: skipLZ.induct)
  case (1 s)
  define m where "m = nat (eg_bitsAvailable s)"
  have m: "eg_bitsAvailable s = int m" "m \<le> 32" using "1.prems"(1) by (auto simp: m_def eg_inv_def)
  have "\<not> word_bits (eg_word s) ! j" if "j < m" for j
  proof -
    have "take m (word_bits (eg_word s)) ! j \<in> set (take m (word_bits (eg_word s)))"
      using that m by (intro nth_mem) simp
    then show ?thesis using "1.prems"(2) that m by (auto simp: eg_bits_def)
  qed
  then have none: "lz_loop (eg_word s) (eg_bitsAvailable s) 0 = None"
    using lz_loop_None [of 0 m "eg_word s"] m by simp
  show ?case
  proof (cases "eg_bytesAvailable s = 0")
    case True
    then show ?thesis using none by (subst skipLZ.simps) (simp add: loadWord_def Let_def)
  next
    case False
    then have bytes: "0 < eg_bytesAvailable s" "eg_bytesAvailable s \<le> int (length (eg_data s))"
      using "1.prems"(1) by (auto simp: eg_inv_def)
    from loadWord_refines [OF bytes] obtain s1 where s1: "loadWord s = Inr ((), s1)" "eg_inv s1"
      "eg_bits s1 = stream_bits (eg_rest s)" by metis
    then have "skipLZ s1 = Inl (JsError ''no bytes available'')"
      using "1.IH" [of "((), s1)" "()" s1] none "1.prems"(2) by (auto simp: eg_bits_def)
    then show ?thesis using none s1 by (subst skipLZ.simps) simp
  qed
qed

lemma first_True: "True \<in> set bs \<Longrightarrow> \<exists>k rest. bs = replicate k False @ True # rest"
proof (induction bs)
  case (Cons b bs)
  show ?case
  proof (cases b)
    case True
    then have "b # bs = replicate 0 False @ True # bs" by simp
    then show ?thesis by blast
  next
    case False
    with Cons obtain k rest where "b # bs = replicate (Suc k) False @ True # rest" by auto
    then show ?thesis by blast
  qed
qed simp

lemma takeWhile_zeros [simp]: "takeWhile Not (replicate k False @ True # bs) = replicate k False"
  by (induction k) simp_all

lemma dropWhile_zeros [simp]: "dropWhile Not (replicate k False @ True # bs) = True # bs"
  by (induction k) simp_all

section \<open>Properties\<close>

text \<open>
  C4. Reading a sequence parameter set: on a buffer whose bits are the H.264 syntax of a parameter
  set (any picture-order type; optional scaling matrix, cropping and aspect ratio; ranges as in
  \<open>sps_ok\<close>) followed by at least one more bit, a fresh reader's \<open>readSPS\<close> returns the width, height
  and pixel ratio the standard gives them and stops exactly after the aspect ratio. A picture that is
  cropped has to be in the format 4:2:0; the profiles 138, 139, 134 and 135 are excluded, and so are
  picture-order offsets from 64 on.
\<close>

theorem readSPS_decodes:
  assumes "sps_ok x" and "x_crop x = None \<or> chroma_format_idc x = 1"
    and "stream_bits d = sps_code x @ rest" and "rest \<noteq> []"
  shows "\<exists>s'. readSPS (new_ExpGolomb d) = Inr (sps_meaning x, s') \<and> eg_inv s' \<and> eg_bits s' = rest"
  using parsesE [OF parses_SPS [OF assms(1)], of "new_ExpGolomb d" rest] sps_read_meaning [OF assms(2)] assms by auto

definition sps_example :: sps_syntax where
  "sps_example =
     \<lparr>x_nal = 0x67, x_profile = 100,
      x_flags = [False, False, False, False, False, False, False, False], x_level = 30, x_id = 0,
      x_chroma = 1, x_plane = False, x_luma_depth = 0, x_chroma_depth = 0, x_bypass = False,
      x_scaling = Some [Some [16], None, Some [], None, None, None, None, Some [6, 13]],
      x_log2_frame_num = 0, x_poc = Poc2 0, x_ref_frames = 1, x_gaps = False, x_width = 39,
      x_height = 22, x_mbs_only = True, x_adaptive = False, x_direct = True,
      x_crop = Some (0, 0, 0, 4), x_vui = Ratio 2\<rparr>"

lemma sps_example_ok: "sps_ok sps_example"
proof -
  have "scaling_ok 1 (Some [Some [16], None, Some [], None, None, None, None, Some [6, 13]])"
    by (auto simp: scaling_ok_def scaling_size_def less_Suc_eq numeral_eq_Suc)
  then show ?thesis by (simp add: sps_ok_def sps_example_def)
qed

lemma sps_example_facts:
  "sps_meaning sps_example = \<lparr>sps_width = 640, sps_height = 360, sps_pixelRatio = (12, 11)\<rparr>"
  "chroma_format_idc sps_example = 1"
  "stream_bits [0x67, 0x64, 0, 0x1e, 0xad, 0x84, 1, 0x0a, 0x11, 9, 0x47, 6, 0xed, 1, 0x40, 0x5f, 0xf2, 0xe0, 0x50]
     = sps_code sps_example @ [True, False, False, False, False]"
  by (simp add: sps_meaning_def sps_example_def crop_of_def crop_unit_x_def crop_unit_y_def chroma_array_type_def
        chroma_format_idc_def is_high_def std_high_profiles_def sample_aspect_ratios_def,
      simp add: chroma_format_idc_def is_high_def std_high_profiles_def sps_example_def,
      simp add: sps_code_def sps_example_def high_code_def scaling_code_def scaling_size_def delta_scale_def seg_code_def
        crop_code_def ueg_code_def ilog2.simps Let_def
        byte_bits_num bits_simps num_bits_Suc bit_0 std_high_profiles_def is_high_def)

lemma readSPS_decodes_witness:
  "\<exists>s'. readSPS (new_ExpGolomb [0x67, 0x64, 0, 0x1e, 0xad, 0x84, 1, 0x0a, 0x11, 9, 0x47, 6, 0xed, 1, 0x40, 0x5f, 0xf2, 0xe0, 0x50])
     = Inr (\<lparr>sps_width = 640, sps_height = 360, sps_pixelRatio = (12, 11)\<rparr>, s')"
  using readSPS_decodes [OF sps_example_ok _ sps_example_facts(3)] sps_example_facts(1,2) by auto

text \<open>
  In any other format a cropped picture is read as if it were in 4:2:0: without subsampling, the four
  rows that are cropped here are taken for eight.
\<close>

lemma readSPS_crops_as_420:
  assumes "sps_ok x" and "stream_bits d = sps_code x @ rest" and "rest \<noteq> []"
  shows "\<exists>s'. readSPS (new_ExpGolomb d) = Inr (sps_read x, s') \<and> eg_bits s' = rest"
  using parsesE [OF parses_SPS [OF assms(1)], of "new_ExpGolomb d" rest] assms by auto

definition sps_444 :: sps_syntax where
  "sps_444 = sps_example\<lparr>x_profile := 244, x_chroma := 3, x_scaling := None, x_vui := Ratio 1\<rparr>"

lemma readSPS_444_cropping:
  "\<exists>s'. readSPS (new_ExpGolomb [0x67, 0xf4, 0, 0x1e, 0x91, 0x96, 0x80, 0xa0, 0x2f, 0xf9, 0x70, 0x18])
     = Inr (\<lparr>sps_width = 640, sps_height = 360, sps_pixelRatio = (1, 1)\<rparr>, s')"
  "sps_meaning sps_444 = \<lparr>sps_width = 640, sps_height = 364, sps_pixelRatio = (1, 1)\<rparr>"
proof -
  have ok: "sps_ok sps_444" by (simp add: sps_ok_def sps_444_def sps_example_def scaling_ok_def)
  have code: "stream_bits [0x67, 0xf4, 0, 0x1e, 0x91, 0x96, 0x80, 0xa0, 0x2f, 0xf9, 0x70, 0x18]
      = sps_code sps_444 @ [True, False, False, False]"
    by (simp add: sps_code_def sps_444_def sps_example_def high_code_def scaling_code_def crop_code_def ueg_code_def ilog2.simps
        Let_def byte_bits_num bits_simps num_bits_Suc bit_0 std_high_profiles_def is_high_def)
  have "sps_read sps_444 = \<lparr>sps_width = 640, sps_height = 360, sps_pixelRatio = (1, 1)\<rparr>"
    by (simp add: sps_read_def sps_444_def sps_example_def crop_of_def sample_aspect_ratios_def)
  then show "\<exists>s'. readSPS (new_ExpGolomb [0x67, 0xf4, 0, 0x1e, 0x91, 0x96, 0x80, 0xa0, 0x2f, 0xf9, 0x70, 0x18])
     = Inr (\<lparr>sps_width = 640, sps_height = 360, sps_pixelRatio = (1, 1)\<rparr>, s')"
    using readSPS_crops_as_420 [OF ok code] by auto
  show "sps_meaning sps_444 = \<lparr>sps_width = 640, sps_height = 364, sps_pixelRatio = (1, 1)\<rparr>"
    by (simp add: sps_meaning_def sps_444_def sps_example_def crop_of_def crop_unit_x_def crop_unit_y_def chroma_array_type_def
        chroma_format_idc_def is_high_def std_high_profiles_def sample_aspect_ratios_def)
qed

text \<open>
  Unsigned Exp-Golomb codes round-trip: where the remaining bits start with the code of \<open>n\<close>
  (any \<open>n\<close> below \<open>2 ^ 31 - 1\<close>), \<open>readUEG\<close> returns \<open>n\<close> and leaves exactly the bits after the code.
\<close>

lemma readUEG_decodes:
  assumes "eg_inv s" and "eg_bits s = ueg_code n @ rest" and "rest \<noteq> []" and "n + 1 < 2 ^ 31"
  shows "\<exists>s'. readUEG s = Inr (int n, s') \<and> eg_inv s' \<and> eg_bits s' = rest"
  using parsesE [OF parses_readUEG [OF assms(4)] assms(1-3)] by blast

lemma readUEG_decodes_witness:
  "\<exists>s'. readUEG (new_ExpGolomb [0x28, 0x80]) = Inr (4, s')
     \<and> eg_bits s' = [False, False, False, True, False, False, False, False, False, False, False]"
proof -
  have "eg_bits (new_ExpGolomb [0x28, 0x80])
      = ueg_code 4 @ [False, False, False, True, False, False, False, False, False, False, False]"
    by (simp add: ueg_code_def ilog2.simps Let_def byte_bits_num bits_simps num_bits_Suc bit_0)
  from readUEG_decodes [OF new_inv this] show ?thesis by auto
qed

text \<open>
  Signed Exp-Golomb codes round-trip: where the remaining bits start with the code of \<open>v\<close>
  (with \<open>v\<close> below \<open>2 ^ 30\<close> in absolute value), \<open>readEG\<close> returns \<open>v\<close> and leaves exactly the bits
  after the code.
\<close>

lemma readEG_decodes:
  assumes "eg_inv s" and "eg_bits s = seg_code v @ rest" and "rest \<noteq> []" and "\<bar>v\<bar> < 2 ^ 30"
  shows "\<exists>s'. readEG s = Inr (v, s') \<and> eg_inv s' \<and> eg_bits s' = rest"
  using parsesE [OF parses_readEG [OF assms(4)] assms(1-3)] by blast

lemma readEG_decodes_witness:
  "\<exists>s'. readEG (new_ExpGolomb [0x28, 0x80]) = Inr (-2, s')
     \<and> eg_bits s' = [False, False, False, True, False, False, False, False, False, False, False]"
proof -
  have "eg_bits (new_ExpGolomb [0x28, 0x80]) = seg_code (- 2)
      @ [False, False, False, True, False, False, False, False, False, False, False]"
    by (simp add: seg_code_def ueg_code_def ilog2.simps Let_def byte_bits_num bits_simps
        num_bits_Suc bit_0)
  from readEG_decodes [OF new_inv this] show ?thesis by auto
qed

text \<open>
  \<open>readBits\<close> over the 4-byte register reads the bit string: asked for up to 32 bits that the
  stream still holds, it consumes exactly those bits, whatever the position inside the register,
  and returns their value (for 32 bits possibly as the signed number with the same 32 bits).
\<close>

lemma readBits_reads:
  assumes "eg_inv s" and "0 < n" and "n \<le> 32" and "n \<le> length (eg_bits s)"
  shows "\<exists>v s'. readBits (int n) s = Inr (v, s') \<and> eg_inv s' \<and> eg_bits s' = drop n (eg_bits s)
     \<and> to_uint32 v = bits_val (take n (eg_bits s)) \<and> (n < 32 \<longrightarrow> v = bits_val (take n (eg_bits s)))"
proof -
  have "length (take n (eg_bits s)) = n" using assms(4) by simp
  then show ?thesis using readBits_refines [OF assms] by (auto simp: reads_def simp del: length_take)
qed

lemma readBits_reads_witness:
  "\<exists>v s'. readBits 12 (new_ExpGolomb [0xab, 0xcd]) = Inr (v, s') \<and> v = 0xabc"
proof -
  have "bits_val (take 12 (eg_bits (new_ExpGolomb [0xab, 0xcd]))) = 0xabc"
    by (simp add: byte_bits_num bits_simps num_bits_Suc bit_0 bits_val_def)
  with readBits_reads [of "new_ExpGolomb [0xab, 0xcd]" 12] show ?thesis by fastforce
qed

text \<open>
  The zero count fails only for want of a one bit: \<open>skipLZ\<close> throws \<open>no bytes available\<close> exactly
  when no bit of the rest of the stream is set, and otherwise returns the number of leading zeros.
\<close>

lemma skipLZ_total:
  assumes "eg_inv s"
  shows "if True \<in> set (eg_bits s)
         then \<exists>s'. skipLZ s = Inr (int (length (takeWhile Not (eg_bits s))), s')
                \<and> eg_bits s' = dropWhile Not (eg_bits s)
         else skipLZ s = Inl (JsError ''no bytes available'')"
proof (cases "True \<in> set (eg_bits s)")
  case True
  then obtain k rest where b: "eg_bits s = replicate k False @ True # rest"
    using first_True by blast
  then have "length (takeWhile Not (eg_bits s)) = k" "dropWhile Not (eg_bits s) = True # rest"
    by simp_all
  with skipLZ_refines [OF assms b] True show ?thesis by auto
qed (use skipLZ_all_zero [OF assms] in simp)

lemma skipLZ_total_witness:
  "skipLZ (new_ExpGolomb [0, 0]) = Inl (JsError ''no bytes available'')"
  using skipLZ_total [OF new_inv, of "[0, 0]"] by (simp add: byte_bits_0)

text \<open>
  A long skip goes too far: when the bits to skip pass the register by \<open>c\<close> bits with
  \<open>8 \<le> c < 32\<close> (and the data goes on), \<open>skipBits\<close> skips the whole bytes of \<open>c\<close> twice, because it
  subtracts \<open>skipBytes >> 3\<close> where \<open>skipBytes << 3\<close> is meant. Skips that pass it by fewer than
  eight bits are exact.
\<close>

lemma skipBits_long_skip:
  assumes "eg_inv s" and "int n = eg_bitsAvailable s + int c" and "c < 32"
    and "int (c div 8) + 4 \<le> eg_bytesAvailable s"
  shows "\<exists>s'. skipBits (int n) s = Inr ((), s') \<and> eg_bits s' = drop (n + 8 * (c div 8)) (eg_bits s)"
proof (cases "8 \<le> c")
  case False
  moreover have "n < length (eg_bits s)"
    using length_eg_bits [OF assms(1)] assms(2,4) False by simp
  ultimately show ?thesis using skipBits_refines [OF assms(1), of n] assms(2) by auto
qed (use skipBits_overshoots assms in blast)

lemma skipBits_long_skip_witness:
  "\<exists>s'. skipBits 20 (new_ExpGolomb [0, 0, 0, 0, 0xf0, 0, 0, 0]) = Inr ((), s')
     \<and> eg_bits s' = drop 36 (stream_bits [0, 0, 0, 0, 0xf0, 0, 0, 0])"
proof -
  define s where "s = new_ExpGolomb [0, 0, 0, 0, 0xf0, 0, 0, 0]"
  have "eg_inv s" "eg_bytesAvailable s = 8" "eg_bitsAvailable s = 0"
    and "eg_bits s = stream_bits [0, 0, 0, 0, 0xf0, 0, 0, 0]"
    by (simp_all add: s_def) (simp_all add: new_ExpGolomb_def)
  with skipBits_long_skip [of s 20 20] show ?thesis by (simp add: s_def [symmetric])
qed

end
