(* ===== verification/Mp4_Generator.thy ===== *)
theory Mp4_Generator
  imports Js_Prelude
begin

text \<open>
  The writer of ISO media boxes, \<open>src/remux/mp4-generator.js\<close>: the box primitive, one function per
  box type, the init segment and the fragment header. A track object is a record with the fields
  the writer reads; \<open>type\<close> is one of the two literals that the code compares with, and a missing
  \<open>duration\<close> or flag field, which the code's operators coerce to 0, is 0.
\<close>

subsection \<open>Tracks and samples\<close>

datatype media_type = Audio | Video

record sample_flags =
  sf_isLeading :: int
  sf_dependsOn :: int
  sf_isDependedOn :: int
  sf_hasRedundancy :: int
  sf_paddingValue :: int
  sf_isNonSync :: int
  sf_degradPrio :: int

record sample =
  sm_duration :: int
  sm_size :: int
  sm_flags :: sample_flags
  sm_cts :: int

record track =
  tr_type :: media_type
  tr_id :: int
  tr_timescale :: int
  tr_duration :: rat
  tr_sps :: "bytes list"
  tr_pps :: "bytes list"
  tr_width :: int
  tr_height :: int
  tr_pixelRatio :: "int \<times> int"
  tr_config :: "int list"
  tr_samplerate :: int
  tr_channelCount :: int
  tr_isAAC :: bool
  tr_codec :: string
  tr_samples :: "sample list"

subsection \<open>The box primitive\<close>

text \<open>\<open>MP4.types[name]\<close>, as \<open>init\<close> fills it: the four character codes of the name.\<close>

definition types :: "string \<Rightarrow> bytes" where
  "types name = map char_code (take 4 name)"

text \<open>The copying loop of \<open>box\<close> (\<open>off\<close> is its variable \<open>size\<close>).\<close>

fun copy_payload :: "bytes \<Rightarrow> nat \<Rightarrow> bytes list \<Rightarrow> bytes" where
  "copy_payload result off [] = result"
| "copy_payload result off (p # ps) = copy_payload (set_at result p off) (off + length p) ps"

definition box :: "bytes \<Rightarrow> bytes list \<Rightarrow> bytes" where
  "box ty payload =
     (let sz = 8 + sum_list (map length payload);
          result = replicate sz 0;
          result = set_at result (be32 (int sz)) 0;
          result = set_at result ty 4
      in copy_payload result 8 payload)"

subsection \<open>Constant payloads\<close>

definition videoHdlr :: bytes where
  "videoHdlr = [
      0x00,
      0x00, 0x00, 0x00,
      0x00, 0x00, 0x00, 0x00,
      0x76, 0x69, 0x64, 0x65,
      0x00, 0x00, 0x00, 0x00,
      0x00, 0x00, 0x00, 0x00,
      0x00, 0x00, 0x00, 0x00,
      0x56, 0x69, 0x64, 0x65,
      0x6f, 0x48, 0x61, 0x6e,
      0x64, 0x6c, 0x65, 0x72, 0x00]"

definition audioHdlr :: bytes where
  "audioHdlr = [
      0x00,
      0x00, 0x00, 0x00,
      0x00, 0x00, 0x00, 0x00,
      0x73, 0x6f, 0x75, 0x6e,
      0x00, 0x00, 0x00, 0x00,
      0x00, 0x00, 0x00, 0x00,
      0x00, 0x00, 0x00, 0x00,
      0x53, 0x6f, 0x75, 0x6e,
      0x64, 0x48, 0x61, 0x6e,
      0x64, 0x6c, 0x65, 0x72, 0x00]"

definition HDLR_TYPES :: "media_type \<Rightarrow> bytes" where
  "HDLR_TYPES ty = (case ty of Video \<Rightarrow> videoHdlr | Audio \<Rightarrow> audioHdlr)"

definition dref :: bytes where
  "dref = [
      0x00,
      0x00, 0x00, 0x00,
      0x00, 0x00, 0x00, 0x01,
      0x00, 0x00, 0x00, 0x0c,
      0x75, 0x72, 0x6c, 0x20,
      0x00,
      0x00, 0x00, 0x01]"

text \<open>\<open>MP4.STTS = MP4.STSC = MP4.STCO = stco\<close>\<close>

definition STCO :: bytes where
  "STCO = [0x00, 0x00, 0x00, 0x00, 0x00, 0x00, 0x00, 0x00]"

definition STSZ :: bytes where
  "STSZ = [
      0x00,
      0x00, 0x00, 0x00,
      0x00, 0x00, 0x00, 0x00,
      0x00, 0x00, 0x00, 0x00]"

definition VMHD :: bytes where
  "VMHD = [
      0x00,
      0x00, 0x00, 0x01,
      0x00, 0x00,
      0x00, 0x00,
      0x00, 0x00,
      0x00, 0x00]"

definition SMHD :: bytes where
  "SMHD = [
      0x00,
      0x00, 0x00, 0x00,
      0x00, 0x00,
      0x00, 0x00]"

definition STSD :: bytes where
  "STSD = [
      0x00,
      0x00, 0x00, 0x00,
      0x00, 0x00, 0x00, 0x01]"

definition FTYP :: bytes where
  "FTYP = (let majorBrand = [105, 115, 111, 109]; avc1Brand = [97, 118, 99, 49];
               minorVersion = [0, 0, 0, 1]
           in box (types ''ftyp'') [majorBrand, minorVersion, majorBrand, avc1Brand])"

definition DINF :: bytes where
  "DINF = box (types ''dinf'') [box (types ''dref'') [dref]]"

subsection \<open>Boxes of the init segment\<close>

text \<open>The two 32-bit words of a 64-bit time: \<open>Math.floor(x / 2 ** 32)\<close>, \<open>Math.floor(x % 2 ** 32)\<close>.\<close>

definition upperWord :: "rat \<Rightarrow> int" where
  "upperWord x = \<lfloor>x / 4294967296\<rfloor>"

definition lowerWord :: "rat \<Rightarrow> int" where
  "lowerWord x = \<lfloor>js_fmod x 4294967296\<rfloor>"

definition hdlr :: "media_type \<Rightarrow> bytes" where
  "hdlr ty = box (types ''hdlr'') [HDLR_TYPES ty]"

definition mdat :: "bytes \<Rightarrow> bytes" where
  "mdat data = box (types ''mdat'') [data]"

text \<open>Creation and modification time of the version 1 headers.\<close>

definition creation_times :: bytes where
  "creation_times = [
      0x00, 0x00, 0x00, 0x00, 0x00, 0x00, 0x00, 0x02,
      0x00, 0x00, 0x00, 0x00, 0x00, 0x00, 0x00, 0x03]"

definition mdhd :: "int \<Rightarrow> rat \<Rightarrow> bytes" where
  "mdhd timescale duration =
     (let duration = duration * of_int timescale
      in box (types ''mdhd'') [
           [0x01, 0x00, 0x00, 0x00] @ creation_times @ be32 timescale
           @ be32 (upperWord duration) @ be32 (lowerWord duration)
           @ [0x55, 0xc4, 0x00, 0x00]])"

definition mfhd :: "int \<Rightarrow> bytes" where
  "mfhd sequenceNumber = box (types ''mfhd'') [[0x00, 0x00, 0x00, 0x00] @ be32 sequenceNumber]"

fun param_sets :: "bytes list \<Rightarrow> bytes" where
  "param_sets [] = []"
| "param_sets (data # sets) =
     (let len = int (length data)
      in [u8of (js_and (js_ushr len 8) 0xFF), u8of (js_and len 0xFF)] @ data @ param_sets sets)"

text \<open>An element of a plain array stored into a typed array: \<open>undefined\<close> becomes 0.\<close>

definition elem_or_0 :: "bytes \<Rightarrow> nat \<Rightarrow> u8" where
  "elem_or_0 xs i = (if i < length xs then xs ! i else 0)"

definition avcC :: "track \<Rightarrow> bytes" where
  "avcC track =
     (let sps = param_sets (tr_sps track); pps = param_sets (tr_pps track)
      in box (types ''avcC'') [
           [0x01, elem_or_0 sps 3, elem_or_0 sps 4, elem_or_0 sps 5, 0xff,
            u8of (js_or 0xE0 (int (length (tr_sps track))))]
           @ sps @ [u8of (int (length (tr_pps track)))] @ pps])"

definition avc1 :: "track \<Rightarrow> bytes" where
  "avc1 track =
     (let avcc = avcC track;
          width = tr_width track; height = tr_height track;
          hSpacing = fst (tr_pixelRatio track); vSpacing = snd (tr_pixelRatio track)
      in box (types ''avc1'') [
           [0x00, 0x00, 0x00,
            0x00, 0x00, 0x00,
            0x00, 0x01,
            0x00, 0x00,
            0x00, 0x00,
            0x00, 0x00, 0x00, 0x00,
            0x00, 0x00, 0x00, 0x00,
            0x00, 0x00, 0x00, 0x00]
           @ be16 width @ be16 height
           @ [0x00, 0x48, 0x00, 0x00,
              0x00, 0x48, 0x00, 0x00,
              0x00, 0x00, 0x00, 0x00,
              0x00, 0x01,
              0x12,
              0x64, 0x61, 0x69, 0x6C,
              0x79, 0x6D, 0x6F, 0x74,
              0x69, 0x6F, 0x6E, 0x2F,
              0x68, 0x6C, 0x73, 0x2E,
              0x6A, 0x73, 0x00, 0x00,
              0x00, 0x00, 0x00, 0x00,
              0x00, 0x00, 0x00, 0x00,
              0x00, 0x00, 0x00,
              0x00, 0x18,
              0x11, 0x11],
           avcc,
           box (types ''btrt'') [
             [0x00, 0x1c, 0x9c, 0x80,
              0x00, 0x2d, 0xc6, 0xc0,
              0x00, 0x2d, 0xc6, 0xc0]],
           box (types ''pasp'') [be32 hSpacing @ be32 vSpacing]])"

definition esds :: "track \<Rightarrow> bytes" where
  "esds track =
     (let configlen = int (length (tr_config track))
      in [0x00,
          0x00, 0x00, 0x00,
          0x03,
          u8of (0x17 + configlen),
          0x00, 0x01,
          0x00,
          0x04,
          u8of (0x0f + configlen),
          0x40,
          0x15,
          0x00, 0x00, 0x00,
          0x00, 0x00, 0x00, 0x00,
          0x00, 0x00, 0x00, 0x00,
          0x05]
         @ [u8of configlen] @ map u8of (tr_config track) @ [0x06, 0x01, 0x02])"

text \<open>The sample entry that \<open>mp4a\<close> and \<open>mp3\<close> write in the same bytes.\<close>

definition audio_entry :: "track \<Rightarrow> bytes" where
  "audio_entry track =
     [0x00, 0x00, 0x00,
      0x00, 0x00, 0x00,
      0x00, 0x01,
      0x00, 0x00, 0x00, 0x00,
      0x00, 0x00, 0x00, 0x00,
      0x00, u8of (tr_channelCount track),
      0x00, 0x10,
      0x00, 0x00, 0x00, 0x00]
     @ be16 (tr_samplerate track) @ [0x00, 0x00]"

definition mp4a :: "track \<Rightarrow> bytes" where
  "mp4a track = box (types ''mp4a'') [audio_entry track, box (types ''esds'') [esds track]]"

definition mp3 :: "track \<Rightarrow> bytes" where
  "mp3 track = box (types ''.mp3'') [audio_entry track]"

definition stsd :: "track \<Rightarrow> bytes" where
  "stsd track =
     (if tr_type track = Audio then
        if \<not> tr_isAAC track \<and> tr_codec track = ''mp3''
        then box (types ''stsd'') [STSD, mp3 track]
        else box (types ''stsd'') [STSD, mp4a track]
      else box (types ''stsd'') [STSD, avc1 track])"

definition stbl :: "track \<Rightarrow> bytes" where
  "stbl track =
     box (types ''stbl'') [stsd track, box (types ''stts'') [STCO], box (types ''stsc'') [STCO],
       box (types ''stsz'') [STSZ], box (types ''stco'') [STCO]]"

definition minf :: "track \<Rightarrow> bytes" where
  "minf track =
     (if tr_type track = Audio
      then box (types ''minf'') [box (types ''smhd'') [SMHD], DINF, stbl track]
      else box (types ''minf'') [box (types ''vmhd'') [VMHD], DINF, stbl track])"

definition mdia :: "track \<Rightarrow> bytes" where
  "mdia track =
     box (types ''mdia'') [mdhd (tr_timescale track) (tr_duration track), hdlr (tr_type track),
       minf track]"

text \<open>The unity matrix of \<open>mvhd\<close> and \<open>tkhd\<close>.\<close>

definition unity_matrix :: bytes where
  "unity_matrix = [
        0x00, 0x01, 0x00, 0x00,
        0x00, 0x00, 0x00, 0x00,
        0x00, 0x00, 0x00, 0x00,
        0x00, 0x00, 0x00, 0x00,
        0x00, 0x01, 0x00, 0x00,
        0x00, 0x00, 0x00, 0x00,
        0x00, 0x00, 0x00, 0x00,
        0x00, 0x00, 0x00, 0x00,
        0x40, 0x00, 0x00, 0x00]"

definition mvhd :: "int \<Rightarrow> rat \<Rightarrow> bytes" where
  "mvhd timescale duration =
     (let duration = duration * of_int timescale
      in box (types ''mvhd'') [
           [0x01, 0x00, 0x00, 0x00] @ creation_times @ be32 timescale
           @ be32 (upperWord duration) @ be32 (lowerWord duration)
           @ [0x00, 0x01, 0x00, 0x00,
              0x01, 0x00,
              0x00, 0x00,
              0x00, 0x00, 0x00, 0x00,
              0x00, 0x00, 0x00, 0x00]
           @ unity_matrix
           @ [0x00, 0x00, 0x00, 0x00,
              0x00, 0x00, 0x00, 0x00,
              0x00, 0x00, 0x00, 0x00,
              0x00, 0x00, 0x00, 0x00,
              0x00, 0x00, 0x00, 0x00,
              0x00, 0x00, 0x00, 0x00,
              0xff, 0xff, 0xff, 0xff]])"

definition tkhd :: "track \<Rightarrow> bytes" where
  "tkhd track =
     (let duration = tr_duration track * of_int (tr_timescale track)
      in box (types ''tkhd'') [
           [0x01, 0x00, 0x00, 0x07] @ creation_times @ be32 (tr_id track)
           @ [0x00, 0x00, 0x00, 0x00]
           @ be32 (upperWord duration) @ be32 (lowerWord duration)
           @ [0x00, 0x00, 0x00, 0x00,
              0x00, 0x00, 0x00, 0x00,
              0x00, 0x00,
              0x00, 0x00,
              0x00, 0x00,
              0x00, 0x00]
           @ unity_matrix
           @ be16 (tr_width track) @ [0x00, 0x00]
           @ be16 (tr_height track) @ [0x00, 0x00]])"

text \<open>\<open>track.duration = track.duration || 0xffffffff\<close>: the store is visible to the caller.\<close>

definition default_duration :: "track \<Rightarrow> track" where
  "default_duration track =
     (if tr_duration track = 0 then track\<lparr>tr_duration := 0xffffffff\<rparr> else track)"

definition trak :: "track \<Rightarrow> bytes \<times> track" where
  "trak track =
     (let track = default_duration track in (box (types ''trak'') [tkhd track, mdia track], track))"

definition trex :: "track \<Rightarrow> bytes" where
  "trex track =
     box (types ''trex'') [
       [0x00, 0x00, 0x00, 0x00] @ be32 (tr_id track)
       @ [0x00, 0x00, 0x00, 0x01,
          0x00, 0x00, 0x00, 0x00,
          0x00, 0x00, 0x00, 0x00,
          0x00, 0x01, 0x00, 0x01]]"

definition mvex :: "track list \<Rightarrow> bytes" where
  "mvex tracks = box (types ''mvex'') (map trex tracks)"

text \<open>
  The track boxes are written before \<open>mvhd\<close> reads the first track, so it sees the default duration.
  An empty list of tracks throws when \<open>tracks[0]\<close> is read.
\<close>

definition moov :: "track list \<Rightarrow> (bytes \<times> track list) result" where
  "moov tracks =
     (let boxes = map (fst \<circ> trak) tracks; tracks = map (snd \<circ> trak) tracks
      in case tracks of
           [] \<Rightarrow> Inl TypeError
         | t # _ \<Rightarrow> Inr (box (types ''moov'')
               ([mvhd (tr_timescale t) (tr_duration t)] @ boxes @ [mvex tracks]), tracks))"

definition initSegment :: "track list \<Rightarrow> (bytes \<times> track list) result" where
  "initSegment tracks =
     (case moov tracks of
        Inl e \<Rightarrow> Inl e
      | Inr (movie, tracks) \<Rightarrow>
          let result = replicate (length FTYP + length movie) 0;
              result = set_at result FTYP 0;
              result = set_at result movie (length FTYP)
          in Inr (result, tracks))"

subsection \<open>Boxes of a media fragment\<close>

definition sdtp_byte :: "sample_flags \<Rightarrow> u8" where
  "sdtp_byte flags =
     u8of (js_or (js_or (js_shl (sf_dependsOn flags) 4) (js_shl (sf_isDependedOn flags) 2))
             (sf_hasRedundancy flags))"

fun sdtp_loop :: "sample list \<Rightarrow> nat \<Rightarrow> bytes \<Rightarrow> bytes" where
  "sdtp_loop [] i arr = arr"
| "sdtp_loop (s # samples) i arr =
     sdtp_loop samples (i + 1) (arr[i + 4 := sdtp_byte (sm_flags s)])"

definition sdtp :: "track \<Rightarrow> bytes" where
  "sdtp track =
     (let samples = tr_samples track
      in box (types ''sdtp'') [sdtp_loop samples 0 (replicate (4 + length samples) 0)])"

text \<open>The 16 bytes of one sample; \<open>degradPrio & 0xF0 << 8\<close> parses as \<open>degradPrio & (0xF0 << 8)\<close>.\<close>

definition sample_entry :: "sample \<Rightarrow> bytes" where
  "sample_entry sample =
     (let flags = sm_flags sample
      in be32 (sm_duration sample) @ be32 (sm_size sample)
         @ [u8of (js_or (js_shl (sf_isLeading flags) 2) (sf_dependsOn flags)),
            u8of (js_or (js_or (js_or (js_shl (sf_isDependedOn flags) 6)
                                      (js_shl (sf_hasRedundancy flags) 4))
                               (js_shl (sf_paddingValue flags) 1))
                    (sf_isNonSync flags)),
            u8of (js_and (sf_degradPrio flags) (js_shl 0xF0 8)),
            u8of (js_and (sf_degradPrio flags) 0x0F)]
         @ be32 (sm_cts sample))"

fun trun_loop :: "sample list \<Rightarrow> nat \<Rightarrow> bytes \<Rightarrow> bytes" where
  "trun_loop [] i arr = arr"
| "trun_loop (s # samples) i arr =
     trun_loop samples (i + 1) (set_at arr (sample_entry s) (12 + 16 * i))"

definition trun :: "track \<Rightarrow> int \<Rightarrow> bytes" where
  "trun track offset =
     (let samples = tr_samples track; len = length samples; arraylen = 12 + 16 * len;
          arr = replicate arraylen 0;
          offset = offset + 8 + int arraylen;
          arr = set_at arr ([0x00, 0x00, 0x0f, 0x01] @ be32 (int len) @ be32 offset) 0
      in box (types ''trun'') [trun_loop samples 0 arr])"

definition traf :: "track \<Rightarrow> rat \<Rightarrow> bytes" where
  "traf track baseMediaDecodeTime =
     (let sampleDependencyTable = sdtp track
      in box (types ''traf'') [
           box (types ''tfhd'') [[0x00, 0x00, 0x00, 0x00] @ be32 (tr_id track)],
           box (types ''tfdt'') [[0x01, 0x00, 0x00, 0x00]
             @ be32 (upperWord baseMediaDecodeTime) @ be32 (lowerWord baseMediaDecodeTime)],
           trun track (int (length sampleDependencyTable) + 16 + 20 + 8 + 16 + 8 + 8),
           sampleDependencyTable])"

definition moof :: "int \<Rightarrow> rat \<Rightarrow> track \<Rightarrow> bytes" where
  "moof sn baseMediaDecodeTime track =
     box (types ''moof'') [mfhd sn, traf track baseMediaDecodeTime]"

end
