(* ===== verification/Mp4_Demuxer.thy ===== *)
theory Mp4_Demuxer
  imports Mp4_Generator
begin

text \<open>
  The reader of ISO media boxes, \<open>src/demux/mp4demuxer.js\<close>: the box search, the init-segment
  parser, the start time of a fragment and its in-place shift, and the demuxer object that ties
  them together. The views \<open>{data, start, end}\<close> that \<open>findBox\<close> returns all alias the one buffer of
  the call, so a view is its pair \<open>(start, end)\<close> and the buffer is passed beside it.
\<close>

type_synonym view = "nat \<times> nat"

definition whole :: "bytes \<Rightarrow> view" where
  "whole data = (0, length data)"

subsection \<open>Reading and writing the buffer\<close>

definition bin2str :: "bytes \<Rightarrow> string" where
  "bin2str buffer = map code_char buffer"

definition readUint32 :: "bytes \<Rightarrow> nat \<Rightarrow> int" where
  "readUint32 buffer offset =
     (let val = js_or (js_or (js_or (js_shl (byte buffer offset) 24)
                                    (js_shl (byte buffer (offset + 1)) 16))
                             (js_shl (byte buffer (offset + 2)) 8))
                      (byte buffer (offset + 3))
      in if val < 0 then 4294967296 + val else val)"

text \<open>A store past the end of a typed array is ignored, as \<open>list_update\<close> ignores it.\<close>

definition writeUint32 :: "bytes \<Rightarrow> nat \<Rightarrow> rat \<Rightarrow> bytes" where
  "writeUint32 buffer offset value =
     (let v = trunc_int value;
          b0 = buffer[offset := u8of (js_shr v 24)];
          b1 = b0[offset + 1 := u8of (js_and (js_shr v 16) 0xff)];
          b2 = b1[offset + 2 := u8of (js_and (js_shr v 8) 0xff)]
      in b2[offset + 3 := u8of (js_and v 0xff)])"

definition mp4_probe :: "bytes \<Rightarrow> bool" where
  "mp4_probe data =
     (8 \<le> length data \<and> bin2str (subarray data 4 8) \<in> {''moof'', ''ftyp'', ''styp''})"

subsection \<open>The box search\<close>

text \<open>The loop of \<open>findBox\<close> from position \<open>i\<close> for the path \<open>p # ps\<close>.\<close>

function find_in :: "bytes \<Rightarrow> nat \<Rightarrow> nat \<Rightarrow> string list \<Rightarrow> view list" where
  "find_in data i e [] = []"
| "find_in data i e (p # ps) =
     (if i < e then
        let sz = readUint32 data i;
            ty = bin2str (subarray data (int (i + 4)) (int (i + 8)));
            endbox = (if sz > 1 then i + nat sz else e)
        in (if ty = p then
              if ps = [] then [(i + 8, endbox)] else find_in data (i + 8) endbox ps
            else [])
           @ find_in data endbox e (p # ps)
      else [])"
  by pat_completeness auto
termination
  by (relation "measures [\<lambda>(d, i, e, path). length path, \<lambda>(d, i, e, path). e - i]") auto

text \<open>An empty path is answered with \<open>null\<close>.\<close>

definition findBox :: "bytes \<Rightarrow> view \<Rightarrow> string list \<Rightarrow> view list option" where
  "findBox data v path = (if path = [] then None else Some (find_in data (fst v) (snd v) path))"

text \<open>The views the callers go through; they all pass a path that is not empty.\<close>

definition boxes :: "bytes \<Rightarrow> view \<Rightarrow> string list \<Rightarrow> view list" where
  "boxes data v path = (case findBox data v path of None \<Rightarrow> [] | Some vs \<Rightarrow> vs)"

subsection \<open>The init segment\<close>

text \<open>
  The array that \<open>parseInitSegment\<close> fills: \<open>result[trackId]\<close> and the two named entries
  \<open>result.audio\<close>, \<open>result.video\<close> (timescale and track id).
\<close>

record init_data =
  id_tracks :: "int \<Rightarrow> (int \<times> media_type) option"
  id_audio :: "(int \<times> int) option"
  id_video :: "(int \<times> int) option"

definition empty_init :: init_data where
  "empty_init = \<lparr>id_tracks = \<lambda>_. None, id_audio = None, id_video = None\<rparr>"

definition handler_type :: "string \<Rightarrow> media_type option" where
  "handler_type t =
     (if t = ''soun'' then Some Audio else if t = ''vide'' then Some Video else None)"

definition set_init :: "int \<Rightarrow> int \<Rightarrow> media_type \<Rightarrow> init_data \<Rightarrow> init_data" where
  "set_init trackId timescale ty r =
     (let r = r\<lparr>id_tracks := (id_tracks r)(trackId \<mapsto> (timescale, ty))\<rparr>
      in case ty of Audio \<Rightarrow> r\<lparr>id_audio := Some (timescale, trackId)\<rparr>
                  | Video \<Rightarrow> r\<lparr>id_video := Some (timescale, trackId)\<rparr>)"

text \<open>Offset of the track id in \<open>tkhd\<close> and of the timescale in \<open>mdhd\<close>, by the version byte.\<close>

definition header_index :: "bytes \<Rightarrow> nat \<Rightarrow> nat" where
  "header_index data start = (if at_index data start = Some 0 then 12 else 20)"

definition parse_trak :: "bytes \<Rightarrow> view \<Rightarrow> init_data \<Rightarrow> init_data" where
  "parse_trak data tk r =
     (case boxes data tk [''tkhd''] of
        [] \<Rightarrow> r
      | h # _ \<Rightarrow>
          let trackId = readUint32 data (header_index data (fst h) + fst h)
          in (case boxes data tk [''mdia'', ''mdhd''] of
                [] \<Rightarrow> r
              | m # _ \<Rightarrow>
                  let timescale = readUint32 data (header_index data (fst m) + fst m)
                  in (case boxes data tk [''mdia'', ''hdlr''] of
                        [] \<Rightarrow> r
                      | g # _ \<Rightarrow>
                          let hdlrType = bin2str (subarray data (int (fst g + 8)) (int (fst g + 12)))
                          in (case handler_type hdlrType of
                                None \<Rightarrow> r
                              | Some ty \<Rightarrow> set_init trackId timescale ty r))))"

definition parseInitSegment :: "bytes \<Rightarrow> init_data" where
  "parseInitSegment data =
     fold (parse_trak data) (boxes data (whole data) [''moov'', ''trak'']) empty_init"

subsection \<open>Decode times of a fragment\<close>

text \<open>\<open>initData[id].timescale || 90e3\<close>: an unknown track id is a property of \<open>undefined\<close>.\<close>

definition track_scale :: "init_data option \<Rightarrow> int \<Rightarrow> int result" where
  "track_scale initData tid =
     (case initData of
        None \<Rightarrow> Inl TypeError
      | Some r \<Rightarrow> (case id_tracks r tid of
                    None \<Rightarrow> Inl TypeError
                  | Some (timescale, _) \<Rightarrow> Inr (if timescale = 0 then 90000 else timescale)))"

definition tfdt_time :: "bytes \<Rightarrow> view \<Rightarrow> int" where
  "tfdt_time data tfdt =
     (let version = at_index data (fst tfdt);
          result = readUint32 data (4 + fst tfdt)
      in if version = Some 1 then result * 2 ^ 32 + readUint32 data (8 + fst tfdt) else result)"

text \<open>The start time of one \<open>tfhd\<close>; without a \<open>tfdt\<close> it is \<open>undefined / scale\<close>, not a number.\<close>

definition tfhd_time :: "bytes \<Rightarrow> init_data option \<Rightarrow> view \<Rightarrow> view \<Rightarrow> rat option result" where
  "tfhd_time data initData tf hv =
     (let tid = readUint32 data (4 + fst hv)
      in case track_scale initData tid of
           Inl e \<Rightarrow> Inl e
         | Inr scale \<Rightarrow>
             (case map (tfdt_time data) (boxes data tf [''tfdt'']) of
                [] \<Rightarrow> Inr None
              | baseTime # _ \<Rightarrow> Inr (Some (of_int baseTime / of_int scale))))"

definition traf_times :: "bytes \<Rightarrow> init_data option \<Rightarrow> view \<Rightarrow> rat option list result" where
  "traf_times data initData tf =
     map_result (tfhd_time data initData tf) (boxes data tf [''tfhd''])"

fun min_list :: "rat \<Rightarrow> rat list \<Rightarrow> rat" where
  "min_list m [] = m"
| "min_list m (x # xs) = min_list (min m x) xs"

text \<open>\<open>Math.min\<close> and the test for a finite number: no time, or one that is not a number, gives 0.\<close>

definition min_time :: "rat option list \<Rightarrow> rat" where
  "min_time ts =
     (if None \<in> set ts then 0
      else case map the ts of [] \<Rightarrow> 0 | x # xs \<Rightarrow> min_list x xs)"

definition getStartDTS :: "init_data option \<Rightarrow> bytes \<Rightarrow> rat result" where
  "getStartDTS initData fragment =
     (case map_result (traf_times fragment initData)
             (boxes fragment (whole fragment) [''moof'', ''traf'']) of
        Inl e \<Rightarrow> Inl e
      | Inr baseTimes \<Rightarrow> Inr (min_time (concat baseTimes)))"

definition offset_tfdt :: "int \<Rightarrow> rat \<Rightarrow> view \<Rightarrow> bytes \<Rightarrow> bytes" where
  "offset_tfdt timescale timeOffset tfdt data =
     (let version = at_index data (fst tfdt);
          baseMediaDecodeTime = readUint32 data (4 + fst tfdt)
      in if version = Some 0 then
           writeUint32 data (4 + fst tfdt) (of_int baseMediaDecodeTime - timeOffset * of_int timescale)
         else
           let t = of_int (baseMediaDecodeTime * 2 ^ 32 + readUint32 data (8 + fst tfdt))
                     - timeOffset * of_int timescale;
               upper = upperWord t;
               lower = lowerWord t;
               data = writeUint32 data (4 + fst tfdt) (of_int upper)
           in writeUint32 data (8 + fst tfdt) (of_int lower))"

definition offset_tfhd ::
  "init_data option \<Rightarrow> rat \<Rightarrow> view \<Rightarrow> view \<Rightarrow> bytes \<Rightarrow> bytes result" where
  "offset_tfhd initData timeOffset tf hv data =
     (let tid = readUint32 data (4 + fst hv)
      in case track_scale initData tid of
           Inl e \<Rightarrow> Inl e
         | Inr timescale \<Rightarrow>
             Inr (fold (offset_tfdt timescale timeOffset) (boxes data tf [''tfdt'']) data))"

definition offset_traf :: "init_data option \<Rightarrow> rat \<Rightarrow> view \<Rightarrow> bytes \<Rightarrow> bytes result" where
  "offset_traf initData timeOffset tf data =
     fold_result (offset_tfhd initData timeOffset tf) (boxes data tf [''tfhd'']) data"

text \<open>The buffer is updated in place: the result is its contents after the call.\<close>

definition offsetStartDTS :: "init_data option \<Rightarrow> bytes \<Rightarrow> rat \<Rightarrow> bytes result" where
  "offsetStartDTS initData fragment timeOffset =
     fold_result (offset_traf initData timeOffset)
       (boxes fragment (whole fragment) [''moof'', ''traf'']) fragment"

subsection \<open>The demuxer object\<close>

record init_track =
  it_container :: string
  it_codec :: "string option"
  it_initSegment :: "bytes option"

datatype mp4_event =
    FragParsingInitSegment "(string \<times> init_track) list"
  | InitPtsFound rat
  | Remux "(int \<times> int) option" "(int \<times> int) option" rat bool bool bytes
    \<comment> \<open>audio, video, startDTS, contiguous, accurateTimeOffset, data\<close>

text \<open>The object, with the calls it made on its observer and its remuxer, the oldest first.\<close>

record mp4_demuxer =
  md_initData :: "init_data option"
  md_initPTS :: "rat option"
  md_audioCodec :: "string option"
  md_videoCodec :: "string option"
  md_out :: "mp4_event list"

definition new_MP4Demuxer :: mp4_demuxer where
  "new_MP4Demuxer =
     \<lparr>md_initData = None, md_initPTS = None, md_audioCodec = None, md_videoCodec = None, md_out = []\<rparr>"

definition mp4_resetTimeStamp :: "rat option \<Rightarrow> mp4_demuxer \<Rightarrow> mp4_demuxer" where
  "mp4_resetTimeStamp initPTS d = d\<lparr>md_initPTS := initPTS\<rparr>"

definition emit :: "mp4_event \<Rightarrow> mp4_demuxer \<Rightarrow> mp4_demuxer" where
  "emit ev d = d\<lparr>md_out := md_out d @ [ev]\<rparr>"

definition js_string :: "string option \<Rightarrow> string" where
  "js_string s = (case s of None \<Rightarrow> ''undefined'' | Some t \<Rightarrow> t)"

text \<open>An empty or missing segment only stores the codecs; a missing or zero duration is 0.\<close>

definition resetInitSegment ::
  "bytes option \<Rightarrow> string option \<Rightarrow> string option \<Rightarrow> rat \<Rightarrow> mp4_demuxer \<Rightarrow> mp4_demuxer" where
  "resetInitSegment seg audioCodec videoCodec duration d =
     (case seg of
        Some (b # bs) \<Rightarrow>
          let segment = b # bs;
              initData = parseInitSegment segment;
              kept = (if duration \<noteq> 0 then Some segment else None);
              tracks =
                (if id_audio initData \<noteq> None \<and> id_video initData \<noteq> None then
                   [(''audiovideo'', \<lparr>it_container = ''video/mp4'',
                       it_codec = Some (js_string audioCodec @ '','' @ js_string videoCodec),
                       it_initSegment = kept\<rparr>)]
                 else
                   (if id_audio initData \<noteq> None then
                      [(''audio'', \<lparr>it_container = ''audio/mp4'', it_codec = audioCodec,
                          it_initSegment = kept\<rparr>)] else [])
                   @ (if id_video initData \<noteq> None then
                        [(''video'', \<lparr>it_container = ''video/mp4'', it_codec = videoCodec,
                            it_initSegment = kept\<rparr>)] else []))
          in emit (FragParsingInitSegment tracks) (d\<lparr>md_initData := Some initData\<rparr>)
      | _ \<Rightarrow>
          let d = (case audioCodec of Some (c # cs) \<Rightarrow> d\<lparr>md_audioCodec := Some (c # cs)\<rparr> | _ \<Rightarrow> d)
          in (case videoCodec of Some (c # cs) \<Rightarrow> d\<lparr>md_videoCodec := Some (c # cs)\<rparr> | _ \<Rightarrow> d))"

definition mp4_append :: "bytes \<Rightarrow> rat \<Rightarrow> bool \<Rightarrow> bool \<Rightarrow> mp4_demuxer \<Rightarrow> mp4_demuxer result" where
  "mp4_append data timeOffset contiguous accurateTimeOffset d =
     (let d = (if md_initData d = None
               then resetInitSegment (Some data) (md_audioCodec d) (md_videoCodec d) 0 d else d);
          initData = md_initData d;
          d = (case md_initPTS d of
                 Some _ \<Rightarrow> Inr d
               | None \<Rightarrow>
                   (case getStartDTS initData data of
                      Inl e \<Rightarrow> Inl e
                    | Inr startDTS \<Rightarrow>
                        let initPTS = startDTS - timeOffset
                        in Inr (emit (InitPtsFound initPTS) (d\<lparr>md_initPTS := Some initPTS\<rparr>))))
      in case d of
           Inl e \<Rightarrow> Inl e
         | Inr d \<Rightarrow>
             (case offsetStartDTS initData data (the (md_initPTS d)) of
                Inl e \<Rightarrow> Inl e
              | Inr data \<Rightarrow>
                  (case getStartDTS initData data of
                     Inl e \<Rightarrow> Inl e
                   | Inr startDTS \<Rightarrow>
                       (case initData of
                          None \<Rightarrow> Inl TypeError
                        | Some r \<Rightarrow> Inr (emit (Remux (id_audio r) (id_video r) startDTS contiguous
                                                 accurateTimeOffset data) d)))))"

end
