(* ===== verification/Mp4_Boxes.thy ===== *)
theory Mp4_Boxes
  imports Mp4_Demuxer
begin

text \<open>
  Boxes as syntax: the layout that the box primitive writes, what a buffer holds at a position,
  numbers read from and written to it, box trees with their encoding and path queries, and the
  interface \<open>box_reader\<close> between the box search and its callers, interpreted on the code's search.
\<close>

subsection \<open>The box primitive writes a header and its payloads\<close>

definition mk_box :: "string \<Rightarrow> bytes \<Rightarrow> bytes" where
  "mk_box name payload = be32 (8 + int (length payload)) @ types name @ payload"

lemma length_types [simp]: "length name = 4 \<Longrightarrow> length (types name) = 4"
  by (simp add: types_def)

lemma length_mk_box [simp]: "length name = 4 \<Longrightarrow> length (mk_box name p) = 8 + length p"
  by (simp add: mk_box_def)

lemma set_at_append: "set_at (pre @ ys @ post) xs (length pre) = pre @ xs @ post"
  if "length xs = length ys"
  using that by (simp add: set_at_def)

lemma copy_payload_concat:
  "n = sum_list (map length ps) \<Longrightarrow>
   copy_payload (pre @ replicate n 0) (length pre) ps = pre @ concat ps"
proof (induction ps arbitrary: pre n)
  case (Cons p ps)
  let ?m = "sum_list (map length ps)"
  have "set_at (pre @ replicate n 0) p (length pre) = (pre @ p) @ replicate ?m 0"
    using set_at_append [of p "replicate (length p) 0" pre "replicate ?m 0"] Cons.prems
    by (simp add: replicate_add)
  with Cons.IH [of ?m "pre @ p"] show ?case by simp
qed simp

lemma box_layout: "length name = 4 \<Longrightarrow> box (types name) ps = mk_box name (concat ps)"
proof -
  assume n: "length name = 4"
  let ?m = "sum_list (map length ps)"
  have 1: "set_at (replicate (8 + ?m) 0) (be32 (int (8 + ?m))) 0
      = be32 (int (8 + ?m)) @ replicate 4 0 @ replicate ?m 0"
    using set_at_append [of "be32 (int (8 + ?m))" "replicate 4 0" "[]" "replicate (4 + ?m) 0"]
    by (simp add: replicate_add [symmetric])
  have 2: "set_at (be32 (int (8 + ?m)) @ replicate 4 0 @ replicate ?m 0) (types name) 4
      = (be32 (int (8 + ?m)) @ types name) @ replicate ?m 0"
    using set_at_append [of "types name" "replicate 4 0" "be32 (int (8 + ?m))" "replicate ?m 0"] n
    by simp
  have 3: "copy_payload ((be32 (int (8 + ?m)) @ types name) @ replicate ?m 0) 8 ps
      = (be32 (int (8 + ?m)) @ types name) @ concat ps"
    using copy_payload_concat [of ?m ps "be32 (int (8 + ?m)) @ types name"] n by simp
  show ?thesis
    unfolding box_def Let_def 1 2 3 by (simp add: mk_box_def length_concat)
qed

subsection \<open>Contents of a buffer at a position\<close>

definition holds_at :: "bytes \<Rightarrow> nat \<Rightarrow> bytes \<Rightarrow> bool" where
  "holds_at d i xs \<longleftrightarrow> take (length xs) (drop i d) = xs"

lemma holds_at_0 [simp]: "holds_at d 0 d"
  by (simp add: holds_at_def)

lemma holds_at_Nil [simp]: "holds_at d i []"
  by (simp add: holds_at_def)

lemma holds_at_append:
  "holds_at d i (xs @ ys) \<longleftrightarrow> holds_at d i xs \<and> holds_at d (i + length xs) ys"
proof (cases "length xs \<le> length (drop i d)")
  case True
  then have "length (take (length xs) (drop i d)) = length xs" by simp
  then show ?thesis unfolding holds_at_def
    by (simp add: take_add add.commute append_eq_append_conv del: length_take)
next
  case False
  then have "length (take (length xs + n) (drop i d)) < length xs" for n by simp
  then have "take (length xs + n) (drop i d) \<noteq> xs @ zs" for n zs
    by (metis length_append not_add_less1)
  from this [of "length ys" ys] this [of 0 "[]"] show ?thesis by (simp add: holds_at_def)
qed

lemma holds_at_length: "holds_at d i xs \<Longrightarrow> xs \<noteq> [] \<Longrightarrow> i + length xs \<le> length d"
proof -
  assume "holds_at d i xs" "xs \<noteq> []"
  then have "min (length xs) (length d - i) = length xs" unfolding holds_at_def
    by (metis length_drop length_take min.commute)
  with \<open>xs \<noteq> []\<close> show ?thesis by (cases xs) auto
qed

lemma holds_at_nth: "holds_at d i xs \<Longrightarrow> k < length xs \<Longrightarrow> i + k < length d \<and> d ! (i + k) = xs ! k"
proof -
  assume a: "holds_at d i xs" "k < length xs"
  then have "i + length xs \<le> length d" using holds_at_length by fastforce
  moreover have "xs ! k = take (length xs) (drop i d) ! k" using a by (simp add: holds_at_def)
  ultimately show ?thesis using a(2) by simp
qed

lemma holds_at_subarray: "holds_at d i xs \<Longrightarrow> xs \<noteq> [] \<Longrightarrow> subarray d (int i) (int (i + length xs)) = xs"
  using holds_at_length [of d i xs] by (subst subarray_nat) (auto simp: holds_at_def)

lemma holds_at_drop_take:
  assumes "holds_at d i xs" and "a + n \<le> length xs"
  shows "holds_at d (i + a) (take n (drop a xs))"
proof -
  have "xs = take a xs @ take n (drop a xs) @ drop n (drop a xs)" by (metis append_take_drop_id)
  with assms(1) have "holds_at d i (take a xs @ take n (drop a xs) @ drop n (drop a xs))" by simp
  then have "holds_at d (i + length (take a xs)) (take n (drop a xs))"
    by (simp only: holds_at_append)
  then show ?thesis using assms(2) by simp
qed

subsection \<open>Numbers in a buffer\<close>

lemma bit_readUint32_val:
  "bit (js_or (js_or (js_or (js_shl a 24) (js_shl b 16)) (js_shl c 8)) e) n \<longleftrightarrow>
     (let k = min n 31 in bit e k \<or> (8 \<le> k \<and> bit c (k - 8)) \<or> (16 \<le> k \<and> bit b (k - 16))
        \<or> (24 \<le> k \<and> bit a (k - 24)))"
  by (auto simp: js_or_def js_shl_def bit_or_iff bit_to_int32 bit_push_bit_iff Let_def min_def)

lemma uint32_of_signed: "(if x < 0 then 4294967296 + x else x) = to_uint32 x"
  if "to_int32 x = (x::int)"
proof -
  have b: "- (2 ^ 31) \<le> x \<and> x < 2 ^ 31"
    using that signed_take_bit_int_greater_eq_minus_exp [of 31 x] signed_take_bit_int_less_exp [of 31 x]
    by (simp add: to_int32_def)
  show ?thesis
  proof (cases "x < 0")
    case True
    then have "x mod 4294967296 = (x + 4294967296) mod 4294967296" by simp
    also have "\<dots> = x + 4294967296" using b True by (intro mod_pos_pos_trivial) auto
    finally show ?thesis using True by (simp add: to_uint32_def take_bit_eq_mod)
  next
    case False
    then show ?thesis using b by (simp add: to_uint32_def take_bit_eq_mod)
  qed
qed

lemma bit_byte: "bit (byte d i) k \<Longrightarrow> k < 8"
  by (cases "i < length d") (auto simp: byte_def bit_uint_iff dest: bit_imp_le_length)

lemma bit_uint_u8of: "bit (uint (u8of x)) k \<longleftrightarrow> k < 8 \<and> bit x k"
  by (simp add: bit_uint_iff bit_u8of)

lemma holds_at_byte: "holds_at d i xs \<Longrightarrow> k < length xs \<Longrightarrow> byte d (i + k) = uint (xs ! k)"
  using holds_at_nth by (simp add: byte_def)

lemma readUint32_at:
  assumes "holds_at d i (be32 x)"
  shows "readUint32 d i = to_uint32 x"
proof -
  have b: "byte d i = uint (u8of (js_shr x 24))" "byte d (i + 1) = uint (u8of (js_shr x 16))"
    "byte d (i + 2) = uint (u8of (js_shr x 8))" "byte d (i + 3) = uint (u8of x)"
    using holds_at_byte [OF assms, of 0] holds_at_byte [OF assms, of 1] holds_at_byte [OF assms, of 2]
      holds_at_byte [OF assms, of 3] by (simp_all add: be32_eq)
  let ?v = "js_or (js_or (js_or (js_shl (byte d i) 24) (js_shl (byte d (i + 1)) 16))
    (js_shl (byte d (i + 2)) 8)) (byte d (i + 3))"
  have v: "?v = to_int32 x"
    unfolding b
  proof (rule bit_eqI)
    fix n :: nat
    define k :: nat where "k = min n 31"
    consider "k < 8" | j where "k = 8 + j" "j < 8" | j where "k = 16 + j" "j < 8"
      | j where "k = 24 + j" "j < 8"
    proof -
      have "k < 8 \<or> k = 8 + (k - 8) \<and> k - 8 < 8 \<or> k = 16 + (k - 16) \<and> k - 16 < 8
        \<or> k = 24 + (k - 24) \<and> k - 24 < 8" by (auto simp: k_def)
      then show ?thesis using that by blast
    qed
    then show "bit (js_or (js_or (js_or (js_shl (uint (u8of (js_shr x 24))) 24)
        (js_shl (uint (u8of (js_shr x 16))) 16)) (js_shl (uint (u8of (js_shr x 8))) 8))
        (uint (u8of x))) n = bit (to_int32 x) n"
      unfolding bit_readUint32_val bit_to_int32 k_def [symmetric] Let_def
      by cases (simp_all add: bit_uint_u8of bit_js_shr)
  qed
  show ?thesis
    unfolding readUint32_def Let_def v
    by (subst uint32_of_signed) (simp_all add: to_int32_def to_uint32_def take_bit_signed_take_bit)
qed

lemma to_uint32_small: "0 \<le> x \<Longrightarrow> x < 2 ^ 32 \<Longrightarrow> to_uint32 x = x"
  by (simp add: to_uint32_def take_bit_int_eq_self)

lemma writeUint32_eq:
  assumes "length old = 4"
  shows "writeUint32 (pre @ old @ post) (length pre) v = pre @ be32 (trunc_int v) @ post"
proof -
  obtain a b c e where "old = [a, b, c, e]"
    using assms by (auto simp: numeral_eq_Suc length_Suc_conv)
  then show ?thesis
    by (simp add: writeUint32_def be32_def Let_def list_update_append)
qed

subsection \<open>Box trees\<close>

text \<open>
  The abstract syntax of a sequence of boxes: a box with a plain payload, or a container. \<open>enc\<close>
  serialises it; \<open>query\<close> is the meaning of a path, the boxes on it in document order.
\<close>

datatype tree = Leaf string bytes | Node string "tree list"

fun tree_name :: "tree \<Rightarrow> string" where
  "tree_name (Leaf n _) = n"
| "tree_name (Node n _) = n"

fun enc1 :: "tree \<Rightarrow> bytes" where
  "enc1 (Leaf n b) = mk_box n b"
| "enc1 (Node n ts) = mk_box n (concat (map enc1 ts))"

definition enc :: "tree list \<Rightarrow> bytes" where
  "enc ts = concat (map enc1 ts)"

fun contents :: "tree \<Rightarrow> bytes" where
  "contents (Leaf n b) = b"
| "contents (Node n ts) = enc ts"

fun children :: "tree \<Rightarrow> tree list" where
  "children (Leaf n b) = []"
| "children (Node n ts) = ts"

fun query :: "tree list \<Rightarrow> string list \<Rightarrow> tree list" where
  "query ts [] = []"
| "query ts [p] = filter (\<lambda>t. tree_name t = p) ts"
| "query ts (p # q # ps) =
     concat (map (\<lambda>t. if tree_name t = p then query (children t) (q # ps) else []) ts)"

text \<open>The positions of these payloads in the encoding, for a sequence that starts at \<open>i\<close>.\<close>

fun places :: "nat \<Rightarrow> tree list \<Rightarrow> string list \<Rightarrow> nat list" where
  "places i ts [] = []"
| "places i [] (p # ps) = []"
| "places i (t # ts) (p # ps) =
     (if tree_name t = p then if ps = [] then [i + 8] else places (i + 8) (children t) ps else [])
     @ places (i + length (enc1 t)) ts (p # ps)"

text \<open>
  A path is searched only inside containers: no box on its way has a plain payload. Names have
  four characters.
\<close>

fun opens :: "tree list \<Rightarrow> string list \<Rightarrow> bool" where
  "opens ts [] = True"
| "opens ts [p] = (\<forall>t \<in> set ts. length (tree_name t) = 4)"
| "opens ts (p # q # ps) =
     (\<forall>t \<in> set ts. length (tree_name t) = 4
        \<and> (tree_name t = p \<longrightarrow> t = Node p (children t) \<and> opens (children t) (q # ps)))"

lemma enc_simps [simp]: "enc [] = []" "enc (t # ts) = enc1 t @ enc ts"
  by (simp_all add: enc_def)

lemma enc1_contents: "enc1 t = mk_box (tree_name t) (contents t)"
  by (cases t) (simp_all add: enc_def)

text \<open>A view that shows a payload in a buffer.\<close>

definition views :: "bytes \<Rightarrow> view \<Rightarrow> bytes \<Rightarrow> bool" where
  "views d v b \<longleftrightarrow> holds_at d (fst v) b \<and> snd v = fst v + length b"

lemma find_in_end [simp]: "find_in d e e path = []"
  by (cases path) (simp_all add: find_in.simps(2))

declare find_in.simps [simp del]

lemma find_in_box:
  assumes "holds_at d i (mk_box name b)" and "length name = 4" and "length b + 8 < 2 ^ 32" and "i < e"
  shows "find_in d i e (p # ps) =
     (if name = p then if ps = [] then [(i + 8, i + 8 + length b)]
        else find_in d (i + 8) (i + 8 + length b) ps else [])
     @ find_in d (i + 8 + length b) e (p # ps)"
proof -
  from assms(1) have h: "holds_at d i (be32 (8 + int (length b)))" "holds_at d (i + 4) (types name)"
    by (auto simp: mk_box_def holds_at_append)
  have "8 + int (length b) < 2 ^ 32" using assms(3) by auto
  then have sz: "readUint32 d i = 8 + int (length b)"
    using readUint32_at [OF h(1)] by (simp add: to_uint32_small)
  have "subarray d (int (i + 4)) (int (i + 4 + length (types name))) = types name"
    using assms(2) by (intro holds_at_subarray h) (auto simp: types_def)
  then have "subarray d (int (i + 4)) (int (i + 8)) = types name" using assms(2) by (simp add: add.commute)
  moreover have "bin2str (types name) = name"
    using assms(2) by (simp add: bin2str_def types_def o_def)
  ultimately have ty: "bin2str (subarray d (int (i + 4)) (int (i + 8))) = name" by simp
  have e: "i + nat (8 + int (length b)) = i + 8 + length b" by simp
  show ?thesis
    using assms(4) by (subst find_in.simps(2)) (simp only: sz ty e Let_def, simp)
qed

lemma length_contents_less:
  assumes "t \<in> set ts" "length (tree_name t) = 4"
  shows "length (contents t) + 8 \<le> length (enc ts)"
  using assms
proof (induction ts)
  case (Cons u us)
  then show ?case by (auto simp: enc1_contents)
qed simp

text \<open>The search loop computes the query of the tree.\<close>

lemma find_in_query:
  assumes "holds_at d i (enc ts)" and "e = i + length (enc ts)" and "opens ts path"
    and "length (enc ts) < 2 ^ 32"
  shows "list_all2 (\<lambda>v t. views d v (contents t)) (find_in d i e path) (query ts path)
    \<and> map fst (find_in d i e path) = places i ts path"
  using assms
proof (induction path arbitrary: d i e ts)
  case Nil
  then show ?case by (simp add: find_in.simps)
next
  case (Cons p ps)
  note outer = Cons.IH
  from Cons.prems show ?case
  proof (induction ts arbitrary: i)
    case Nil
    then show ?case by (cases ps) simp_all
  next
    case (Cons t ts)
    let ?b = "contents t"
    have n: "length (tree_name t) = 4" using Cons.prems(3) by (cases ps) auto
    have l: "length (enc1 t) = 8 + length ?b" using n by (simp add: enc1_contents)
    have h: "holds_at d i (mk_box (tree_name t) ?b)" "holds_at d (i + 8) ?b"
      "holds_at d (i + 8 + length ?b) (enc ts)"
      using Cons.prems(1) n l by (auto simp: holds_at_append enc1_contents mk_box_def add.assoc)
    have step: "find_in d i e (p # ps) =
       (if tree_name t = p then if ps = [] then [(i + 8, i + 8 + length ?b)]
          else find_in d (i + 8) (i + 8 + length ?b) ps else [])
       @ find_in d (i + 8 + length ?b) e (p # ps)"
      using Cons.prems(2,4) l by (intro find_in_box h(1) n) auto
    have rest: "list_all2 (\<lambda>v t. views d v (contents t)) (find_in d (i + 8 + length ?b) e (p # ps))
        (query ts (p # ps))
        \<and> map fst (find_in d (i + 8 + length ?b) e (p # ps)) = places (i + length (enc1 t)) ts (p # ps)"
    proof -
      have "opens ts (p # ps)" using Cons.prems(3) by (cases ps) simp_all
      moreover have "i + 8 + length ?b + length (enc ts) = e" "length (enc ts) < 2 ^ 32"
        using Cons.prems(2,4) l by simp_all
      ultimately have r: "opens ts (p # ps)" "e = i + 8 + length ?b + length (enc ts)"
        "length (enc ts) < 2 ^ 32" by simp_all
      from Cons.IH [OF h(3) r(2,1,3)] show ?thesis by (simp add: l add.assoc)
    qed
    show ?case
    proof (cases ps)
      case Nil
      then show ?thesis using rest h(2) unfolding step by (simp add: views_def)
    next
      case (Cons q qs)
      show ?thesis
      proof (cases "tree_name t = p")
        case True
        then have t: "t = Node p (children t)" "opens (children t) ps"
          using Cons.prems(3) \<open>ps = q # qs\<close> by auto
        then have c: "?b = enc (children t)" by (metis contents.simps(2))
        have "list_all2 (\<lambda>v t. views d v (contents t)) (find_in d (i + 8) (i + 8 + length ?b) ps)
            (query (children t) ps)
            \<and> map fst (find_in d (i + 8) (i + 8 + length ?b) ps) = places (i + 8) (children t) ps"
          using outer [of d "i + 8" "children t" "i + 8 + length ?b"] h(2) t(2) c Cons.prems(4) l
          by simp
        with rest show ?thesis using True \<open>ps = q # qs\<close> unfolding step
          by (simp add: list_all2_appendI)
      next
        case False
        with rest show ?thesis using \<open>ps = q # qs\<close> unfolding step by simp
      qed
    qed
  qed
qed

text \<open>
  The interface between the box search and its callers: a search over a view that shows a
  serialised tree returns, in order, views of the payloads of the boxes on the path.
\<close>

locale box_reader =
  fixes find :: "bytes \<Rightarrow> view \<Rightarrow> string list \<Rightarrow> view list"
  assumes find_law: "\<lbrakk>views d v (enc ts); opens ts path; path \<noteq> []; length (enc ts) < 2 ^ 32\<rbrakk>
    \<Longrightarrow> list_all2 (\<lambda>v t. views d v (contents t)) (find d v path) (query ts path)"
    and place_law: "\<lbrakk>views d v (enc ts); opens ts path; path \<noteq> []; length (enc ts) < 2 ^ 32\<rbrakk>
    \<Longrightarrow> map fst (find d v path) = places (fst v) ts path"
begin

lemma find_whole:
  assumes "opens ts path" and "path \<noteq> []" and "length (enc ts) < 2 ^ 32"
  shows "list_all2 (\<lambda>v t. views (enc ts) v (contents t)) (find (enc ts) (whole (enc ts)) path) (query ts path)"
  using assms by (intro find_law) (simp_all add: views_def whole_def)

lemma find_first:
  assumes "views d v (enc ts)" and "opens ts path" and "path \<noteq> []" and "length (enc ts) < 2 ^ 32"
    and "query ts path = t # us"
  obtains w ws where "find d v path = w # ws" and "views d w (contents t)"
    and "length ws = length us"
  using find_law [OF assms(1-4)] assms(5)
  by (auto simp: list_all2_Cons2 dest: list_all2_lengthD)

lemma find_only:
  assumes "views d v (enc ts)" and "opens ts path" and "path \<noteq> []" and "length (enc ts) < 2 ^ 32"
    and "query ts path = [t]"
  obtains w where "find d v path = [w]" and "views d w (contents t)" and "[fst w] = places (fst v) ts path"
  using find_law [OF assms(1-4)] place_law [OF assms(1-4)] assms(5) by (auto simp: list_all2_Cons2)

end

interpretation mp4: box_reader boxes
proof
  fix d ts path and v :: view
  assume "views d v (enc ts)" "opens ts path" "path \<noteq> []" "length (enc ts) < 2 ^ 32"
  then show "list_all2 (\<lambda>v t. views d v (contents t)) (boxes d v path) (query ts path)"
    and "map fst (boxes d v path) = places (fst v) ts path"
    using find_in_query [of d "fst v" ts "snd v" path] by (simp_all add: boxes_def findBox_def views_def)
qed

subsection \<open>The segments of the writer as trees\<close>

lemma box_leaf: "length n = 4 \<Longrightarrow> box (types n) ps = enc1 (Leaf n (concat ps))"
  by (simp add: box_layout)

lemma box_node: "length n = 4 \<Longrightarrow> concat ps = enc ts \<Longrightarrow> box (types n) ps = enc1 (Node n ts)"
  by (simp add: box_layout enc_def)

text \<open>Payload of a box that the writer built: what follows the eight bytes of the header.\<close>

definition payload :: "bytes \<Rightarrow> bytes" where
  "payload b = drop 8 b"

definition trak_tree :: "track \<Rightarrow> tree" where
  "trak_tree tr = Node ''trak'' [Leaf ''tkhd'' (payload (tkhd tr)),
     Node ''mdia'' [Leaf ''mdhd'' (payload (mdhd (tr_timescale tr) (tr_duration tr))),
       Leaf ''hdlr'' (HDLR_TYPES (tr_type tr)), Leaf ''minf'' (payload (minf tr))]]"

lemma payload_box [simp]: "length n = 4 \<Longrightarrow> payload (box (types n) ps) = concat ps"
  by (simp add: payload_def box_layout mk_box_def)

lemma payload_mk_box [simp]: "length n = 4 \<Longrightarrow> payload (mk_box n b) = b"
  by (simp add: payload_def mk_box_def)

lemma box_enc1: "length n = 4 \<Longrightarrow> b = box (types n) ps \<Longrightarrow> b = enc1 (Leaf n (payload b))"
  by (simp add: box_leaf)

lemma tkhd_enc: "tkhd tr = enc1 (Leaf ''tkhd'' (payload (tkhd tr)))"
  unfolding tkhd_def Let_def by (rule box_enc1 [OF _ refl]) simp

lemma mdhd_enc: "mdhd ts du = enc1 (Leaf ''mdhd'' (payload (mdhd ts du)))"
  unfolding mdhd_def Let_def by (rule box_enc1 [OF _ refl]) simp

lemma minf_enc: "minf tr = enc1 (Leaf ''minf'' (payload (minf tr)))"
  unfolding minf_def by (cases "tr_type tr = Audio") (simp_all add: box_leaf)

lemma trak_enc: "trak tr = (enc1 (trak_tree (default_duration tr)), default_duration tr)"
  unfolding trak_def Let_def
  by (simp add: trak_tree_def mdia_def hdlr_def box_layout
      tkhd_enc [symmetric, simplified] mdhd_enc [symmetric, simplified] minf_enc [symmetric, simplified])

definition moov_tree :: "track \<Rightarrow> track list \<Rightarrow> tree" where
  "moov_tree t ts = Node ''moov''
     ([Leaf ''mvhd'' (payload (mvhd (tr_timescale t) (tr_duration t)))] @ map trak_tree (t # ts)
      @ [Leaf ''mvex'' (payload (mvex (t # ts)))])"

definition ftyp_tree :: tree where
  "ftyp_tree = Leaf ''ftyp'' (payload FTYP)"

lemma FTYP_enc: "FTYP = enc1 ftyp_tree"
  unfolding ftyp_tree_def FTYP_def Let_def by (rule box_enc1 [OF _ refl]) simp

lemma mvhd_enc: "mvhd ts du = enc1 (Leaf ''mvhd'' (payload (mvhd ts du)))"
  unfolding mvhd_def Let_def by (rule box_enc1 [OF _ refl]) simp

lemma mvex_enc: "mvex ts = enc1 (Leaf ''mvex'' (payload (mvex ts)))"
  unfolding mvex_def by (rule box_enc1 [OF _ refl]) simp

lemma moov_enc:
  "moov (t # ts) =
     (let us = map default_duration (t # ts)
      in Inr (enc1 (moov_tree (default_duration t) (map default_duration ts)), us))"
proof -
  have "map (fst \<circ> trak) xs = map (enc1 \<circ> trak_tree \<circ> default_duration) xs"
    "map (snd \<circ> trak) xs = map default_duration xs" for xs
    by (simp_all add: trak_enc o_def)
  then show ?thesis
    by (simp add: trak_enc moov_def Let_def moov_tree_def box_layout o_def
        mvhd_enc [symmetric, simplified] mvex_enc [symmetric, simplified])
qed

lemma set_at_0: "length xs = n \<Longrightarrow> set_at (replicate (n + m) 0) xs 0 = xs @ replicate m 0"
  by (simp add: set_at_def)

lemma initSegment_enc:
  "initSegment (t # ts) =
     Inr (enc [ftyp_tree, moov_tree (default_duration t) (map default_duration ts)],
          map default_duration (t # ts))"
proof -
  let ?m = "enc1 (moov_tree (default_duration t) (map default_duration ts))"
  have "set_at (set_at (replicate (length FTYP + length ?m) 0) FTYP 0) ?m (length FTYP) = FTYP @ ?m"
    using set_at_append [of ?m "replicate (length ?m) 0" FTYP "[]"] by (simp add: set_at_0)
  then show ?thesis
    unfolding initSegment_def moov_enc Let_def by (simp add: FTYP_enc)
qed

definition moof_tree :: "int \<Rightarrow> rat \<Rightarrow> track \<Rightarrow> tree" where
  "moof_tree sn time tr = Node ''moof'' [Leaf ''mfhd'' ([0, 0, 0, 0] @ be32 sn),
     Node ''traf'' [Leaf ''tfhd'' ([0, 0, 0, 0] @ be32 (tr_id tr)),
       Leaf ''tfdt'' ([1, 0, 0, 0] @ be32 (upperWord time) @ be32 (lowerWord time)),
       Leaf ''trun'' (payload (trun tr (76 + int (length (sdtp tr))))),
       Leaf ''sdtp'' (payload (sdtp tr))]]"

lemma trun_enc: "trun tr n = enc1 (Leaf ''trun'' (payload (trun tr n)))"
  unfolding trun_def Let_def by (rule box_enc1 [OF _ refl]) simp

lemma sdtp_enc: "sdtp tr = enc1 (Leaf ''sdtp'' (payload (sdtp tr)))"
  unfolding sdtp_def Let_def by (rule box_enc1 [OF _ refl]) simp

lemma moof_enc: "moof sn time tr = enc1 (moof_tree sn time tr)"
  by (simp add: moof_def traf_def mfhd_def Let_def moof_tree_def box_layout
      trun_enc [symmetric, simplified] sdtp_enc [symmetric, simplified])

end
