(* ===== verification/Mp4_Segments.thy ===== *)
theory Mp4_Segments
  imports Mp4_Boxes
begin

text \<open>
  The init segment and the fragments of the writer seen by the reader: the fields of a header in
  view, the parse of one track and of all, the boxes of a track fragment with their positions, the
  loops that fill the sample tables, and the shift of the decode time.
\<close>

subsection \<open>Times as two words\<close>

lemma trunc_int_of_int [simp]: "trunc_int (of_int x) = x"
  by (simp add: trunc_int_def)

lemma words_of_time:
  assumes "0 \<le> t" and "t < 2 ^ 64"
  shows "to_uint32 (upperWord t) * 2 ^ 32 + to_uint32 (lowerWord t) = \<lfloor>t\<rfloor>"
proof -
  define u where "u = \<lfloor>t / 4294967296\<rfloor>"
  have q: "of_int u \<le> t / 4294967296" "t / 4294967296 < of_int u + 1"
    unfolding u_def by linarith+
  then have b: "of_int u * 4294967296 \<le> t" "t < (of_int u + 1) * 4294967296"
    by (simp_all add: field_simps)
  have l: "lowerWord t = \<lfloor>t\<rfloor> - 4294967296 * u"
  proof -
    have "0 \<le> t / 4294967296" using assms(1) by simp
    then have "js_fmod t 4294967296 = t - of_int (4294967296 * u)"
      by (simp add: js_fmod_def trunc_int_def u_def)
    then show ?thesis by (simp only: lowerWord_def floor_diff_of_int)
  qed
  have "0 \<le> u" using assms(1) by (simp add: u_def)
  moreover have "u < 2 ^ 32"
  proof -
    have "of_int u * 4294967296 < (2 ^ 64 :: rat)" using b(1) assms(2) by linarith
    then have "of_int (u * 4294967296) < (of_int (2 ^ 64) :: rat)" by simp
    then show ?thesis unfolding of_int_less_iff by simp
  qed
  moreover have "0 \<le> lowerWord t"
    using b(1) unfolding l by (simp add: le_floor_iff)
  moreover have "lowerWord t < 2 ^ 32"
    using b(2) unfolding l by (simp add: floor_less_iff algebra_simps)
  ultimately show ?thesis
    using l by (simp add: to_uint32_small upperWord_def u_def)
qed

subsection \<open>Fields of a payload in view\<close>

lemma views_read:
  assumes "views d v (xs @ be32 x @ ys)" and "n = length xs"
  shows "readUint32 d (n + fst v) = to_uint32 x"
  using assms by (intro readUint32_at) (simp add: views_def holds_at_append add.commute)

lemma views_first: "views d v (b # bs) \<Longrightarrow> at_index d (fst v) = Some (uint b)"
  using holds_at_nth [of d "fst v" "b # bs" 0] by (auto simp: views_def at_index_def)

lemma views_subarray:
  assumes "views d v (xs @ b @ ys)" and "b \<noteq> []" and "n = length xs" and "m = n + length b"
  shows "subarray d (int (fst v + n)) (int (fst v + m)) = b"
  using assms holds_at_subarray [of d "fst v + n" b] by (simp add: views_def holds_at_append add.assoc)

subsection \<open>Parsing one track\<close>

lemma tkhd_payload: "\<exists>ys. payload (tkhd tr) = [1, 0, 0, 7] @ creation_times @ be32 (tr_id tr) @ ys"
  by (simp add: tkhd_def Let_def)

lemma mdhd_payload: "\<exists>ys. payload (mdhd ts du) = [1, 0, 0, 0] @ creation_times @ be32 ts @ ys"
  by (simp add: mdhd_def Let_def)

lemma length_creation_times [simp]: "length creation_times = 16"
  by (simp add: creation_times_def)

lemma handler_type_HDLR: "\<exists>xs ys b. HDLR_TYPES ty = xs @ b @ ys \<and> length xs = 8 \<and> length b = 4
    \<and> handler_type (bin2str b) = Some ty"
proof (cases ty)
  case Audio
  have "HDLR_TYPES Audio = [0, 0, 0, 0, 0, 0, 0, 0] @ [0x73, 0x6f, 0x75, 0x6e] @ drop 12 (HDLR_TYPES Audio)"
    by (simp add: HDLR_TYPES_def audioHdlr_def)
  moreover have "handler_type (bin2str [0x73, 0x6f, 0x75, 0x6e]) = Some Audio" by code_simp
  ultimately show ?thesis unfolding Audio
    by (intro exI [of _ "[0, 0, 0, 0, 0, 0, 0, 0]"] exI [of _ "drop 12 (HDLR_TYPES Audio)"]
        exI [of _ "[0x73, 0x6f, 0x75, 0x6e]"]) simp
next
  case Video
  have "HDLR_TYPES Video = [0, 0, 0, 0, 0, 0, 0, 0] @ [0x76, 0x69, 0x64, 0x65] @ drop 12 (HDLR_TYPES Video)"
    by (simp add: HDLR_TYPES_def videoHdlr_def)
  moreover have "handler_type (bin2str [0x76, 0x69, 0x64, 0x65]) = Some Video" by code_simp
  ultimately show ?thesis unfolding Video
    by (intro exI [of _ "[0, 0, 0, 0, 0, 0, 0, 0]"] exI [of _ "drop 12 (HDLR_TYPES Video)"]
        exI [of _ "[0x76, 0x69, 0x64, 0x65]"]) simp
qed

lemma header_index_1: "views d v (1 # bs) \<Longrightarrow> header_index d (fst v) = 20"
  using views_first by (simp add: header_index_def)

lemma header_field:
  assumes "views d v b" and "b = [1, 0, 0, f] @ creation_times @ be32 x @ ys"
  shows "readUint32 d (header_index d (fst v) + fst v) = to_uint32 x"
proof -
  have "header_index d (fst v) = 20" using assms by (intro header_index_1) simp
  then show ?thesis
    using views_read [of d v "[1, 0, 0, f] @ creation_times" x ys 20] assms by simp
qed

lemma parse_trak_tree:
  assumes "views d v (contents (trak_tree tr))" and "length (contents (trak_tree tr)) < 2 ^ 32"
  shows "parse_trak d v r = set_init (to_uint32 (tr_id tr)) (to_uint32 (tr_timescale tr)) (tr_type tr) r"
proof -
  let ?ts = "children (trak_tree tr)"
  have v: "views d v (enc ?ts)" "length (enc ?ts) < 2 ^ 32"
    using assms by (simp_all add: trak_tree_def)
  have o: "opens ?ts [''tkhd'']" "opens ?ts [''mdia'', ''mdhd'']" "opens ?ts [''mdia'', ''hdlr'']"
    and q: "query ?ts [''tkhd''] = [Leaf ''tkhd'' (payload (tkhd tr))]"
      "query ?ts [''mdia'', ''mdhd''] = [Leaf ''mdhd'' (payload (mdhd (tr_timescale tr) (tr_duration tr)))]"
      "query ?ts [''mdia'', ''hdlr''] = [Leaf ''hdlr'' (HDLR_TYPES (tr_type tr))]"
    by (simp_all add: trak_tree_def)
  obtain tk where tk: "boxes d v [''tkhd''] = [tk]" "views d tk (payload (tkhd tr))"
    using mp4.find_only [OF v(1) o(1) _ v(2) q(1)] by (metis contents.simps(1) list.distinct(1))
  obtain md where md: "boxes d v [''mdia'', ''mdhd''] = [md]"
    "views d md (payload (mdhd (tr_timescale tr) (tr_duration tr)))"
    using mp4.find_only [OF v(1) o(2) _ v(2) q(2)] by (metis contents.simps(1) list.distinct(1))
  obtain hv where hv: "boxes d v [''mdia'', ''hdlr''] = [hv]" "views d hv (HDLR_TYPES (tr_type tr))"
    using mp4.find_only [OF v(1) o(3) _ v(2) q(3)] by (metis contents.simps(1) list.distinct(1))
  have 1: "readUint32 d (header_index d (fst tk) + fst tk) = to_uint32 (tr_id tr)"
    using tkhd_payload header_field [OF tk(2)] by metis
  have 2: "readUint32 d (header_index d (fst md) + fst md) = to_uint32 (tr_timescale tr)"
    using mdhd_payload header_field [OF md(2)] by metis
  obtain xs ys b where b: "HDLR_TYPES (tr_type tr) = xs @ b @ ys" "length xs = 8" "length b = 4"
    "handler_type (bin2str b) = Some (tr_type tr)" using handler_type_HDLR by blast
  have "subarray d (int (fst hv + 8)) (int (fst hv + 12)) = b"
    using hv(2) b by (intro views_subarray [of d hv xs b ys]) auto
  then show ?thesis
    unfolding parse_trak_def tk md hv list.case Let_def 1 2 by (simp add: b)
qed

lemma fold_list_all2:
  assumes "list_all2 R vs us" and "\<And>v u r. R v u \<Longrightarrow> u \<in> set us \<Longrightarrow> f v r = g u r"
  shows "fold f vs r = fold g us r"
  using assms by (induction arbitrary: r rule: list_all2_induct) auto

lemma opens_moov:
  "opens [ftyp_tree, moov_tree t ts] [''moov'', ''trak'']"
  by (auto simp: ftyp_tree_def moov_tree_def trak_tree_def)

lemma query_moov:
  "query [ftyp_tree, moov_tree t ts] [''moov'', ''trak''] = map trak_tree (t # ts)"
  by (simp add: ftyp_tree_def moov_tree_def trak_tree_def filter_map o_def)

lemma parse_moov:
  assumes "length (enc [ftyp_tree, moov_tree t ts]) < 2 ^ 32"
  shows "parseInitSegment (enc [ftyp_tree, moov_tree t ts]) =
    fold (\<lambda>tr. set_init (to_uint32 (tr_id tr)) (to_uint32 (tr_timescale tr)) (tr_type tr)) (t # ts) empty_init"
proof -
  let ?d = "enc [ftyp_tree, moov_tree t ts]"
  define g where "g = (\<lambda>tr :: track. set_init (to_uint32 (tr_id tr)) (to_uint32 (tr_timescale tr)) (tr_type tr))"
  have small: "length (contents (trak_tree tr)) < 2 ^ 32" if "tr \<in> set (t # ts)" for tr
  proof -
    have "trak_tree tr \<in> set (children (moov_tree t ts))" "length (tree_name (trak_tree tr)) = 4"
      using that by (auto simp: moov_tree_def trak_tree_def)
    then have "length (contents (trak_tree tr)) + 8 \<le> length (enc (children (moov_tree t ts)))"
      by (rule length_contents_less)
    also have "\<dots> = length (contents (moov_tree t ts))" by (simp add: moov_tree_def)
    also have "\<dots> + 8 \<le> length ?d"
      by (rule length_contents_less) (simp_all add: moov_tree_def)
    finally show ?thesis using assms by linarith
  qed
  have "list_all2 (\<lambda>v tr. views ?d v (contents (trak_tree tr)))
      (boxes ?d (whole ?d) [''moov'', ''trak'']) (t # ts)"
    using mp4.find_whole [OF opens_moov _ assms] unfolding query_moov
    by (simp only: list_all2_map2) simp
  then have "fold (parse_trak ?d) (boxes ?d (whole ?d) [''moov'', ''trak'']) r = fold g (t # ts) r" for r
    by (rule fold_list_all2) (use small in \<open>auto simp: parse_trak_tree g_def\<close>)
  then show ?thesis unfolding parseInitSegment_def g_def .
qed

subsection \<open>Media fragments\<close>

text \<open>A fragment as the remuxer emits it: the \<open>moof\<close> of one track and the \<open>mdat\<close> with its data.\<close>

definition fragment :: "int \<Rightarrow> rat \<Rightarrow> track \<Rightarrow> bytes \<Rightarrow> bytes" where
  "fragment sn time tr data = moof sn time tr @ mdat data"

definition fragment_tree :: "int \<Rightarrow> rat \<Rightarrow> track \<Rightarrow> bytes \<Rightarrow> tree list" where
  "fragment_tree sn time tr data = [moof_tree sn time tr, Leaf ''mdat'' data]"

definition traf_trees :: "rat \<Rightarrow> track \<Rightarrow> tree list" where
  "traf_trees time tr = children (children (moof_tree 0 time tr) ! 1)"

lemma fragment_enc: "fragment sn time tr data = enc (fragment_tree sn time tr data)"
  by (simp add: fragment_def fragment_tree_def moof_enc mdat_def box_leaf)

lemma length_traf: "length (enc (traf_trees time tr)) + 32 \<le> length (fragment sn time tr data)"
  by (simp add: fragment_enc fragment_tree_def moof_tree_def traf_trees_def)

lemma traf_view:
  assumes "length (fragment sn time tr data) < 2 ^ 32"
  shows "\<exists>v. boxes (fragment sn time tr data) (whole (fragment sn time tr data)) [''moof'', ''traf''] = [v]
    \<and> fst v = 32 \<and> views (fragment sn time tr data) v (enc (traf_trees time tr))"
proof -
  let ?ts = "fragment_tree sn time tr data"
  have o: "opens ?ts [''moof'', ''traf'']" "places 0 ?ts [''moof'', ''traf''] = [32]"
    "query ?ts [''moof'', ''traf''] = [Node ''traf'' (traf_trees time tr)]"
    by (simp_all add: fragment_tree_def moof_tree_def traf_trees_def)
  have w: "views (enc ?ts) (whole (enc ?ts)) (enc ?ts)" by (simp add: views_def whole_def)
  obtain v where "boxes (enc ?ts) (whole (enc ?ts)) [''moof'', ''traf''] = [v]"
    "views (enc ?ts) v (contents (Node ''traf'' (traf_trees time tr)))"
    "[fst v] = places (fst (whole (enc ?ts))) ?ts [''moof'', ''traf'']"
    by (rule mp4.find_only [OF w o(1) _ _ o(3)]) (use assms in \<open>simp_all add: fragment_enc\<close>)
  then show ?thesis using o(2) by (auto simp: fragment_enc whole_def)
qed

lemma traf_child:
  assumes "views d v (enc (traf_trees time tr))" and "length (enc (traf_trees time tr)) < 2 ^ 32"
    and "query (traf_trees time tr) [n] = [Leaf n b]" and "length n = 4"
    and "places (fst v) (traf_trees time tr) [n] = [k]"
  shows "\<exists>w. boxes d v [n] = [w] \<and> fst w = k \<and> views d w b"
proof -
  have "opens (traf_trees time tr) [n]" by (simp add: traf_trees_def moof_tree_def)
  from mp4.find_only [OF assms(1) this _ assms(2,3)] assms(5) show ?thesis
    by (metis contents.simps(1) list.distinct(1) list.inject)
qed

text \<open>The views of the boxes of the track fragment, with the places the reader finds them at.\<close>

lemma traf_parts:
  assumes "length (fragment sn time tr data) < 2 ^ 32" and "d = fragment sn time tr data"
  obtains v h t u where "boxes d (whole d) [''moof'', ''traf''] = [v]"
    and "boxes d v [''tfhd''] = [h]" and "views d h ([0, 0, 0, 0] @ be32 (tr_id tr))"
    and "boxes d v [''tfdt''] = [t]" and "fst t = 56"
    and "views d t ([1, 0, 0, 0] @ be32 (upperWord time) @ be32 (lowerWord time))"
    and "boxes d v [''trun''] = [u]"
    and "views d u (payload (trun tr (76 + int (length (sdtp tr)))))"
proof -
  from traf_view [OF assms(1)] obtain v where v: "boxes d (whole d) [''moof'', ''traf''] = [v]"
    "fst v = 32" "views d v (enc (traf_trees time tr))" unfolding assms(2) by blast
  have l: "length (enc (traf_trees time tr)) < 2 ^ 32"
    using length_traf [of time tr sn data] assms(1) by linarith
  have q: "query (traf_trees time tr) [''tfhd''] = [Leaf ''tfhd'' ([0, 0, 0, 0] @ be32 (tr_id tr))]"
    "query (traf_trees time tr) [''tfdt'']
      = [Leaf ''tfdt'' ([1, 0, 0, 0] @ be32 (upperWord time) @ be32 (lowerWord time))]"
    "query (traf_trees time tr) [''trun''] = [Leaf ''trun'' (payload (trun tr (76 + int (length (sdtp tr)))))]"
    "places (fst v) (traf_trees time tr) [''tfhd''] = [40]"
    "places (fst v) (traf_trees time tr) [''tfdt''] = [56]"
    "places (fst v) (traf_trees time tr) [''trun''] = [76]"
    by (simp_all add: traf_trees_def moof_tree_def v(2))
  obtain h where h: "boxes d v [''tfhd''] = [h]" "views d h ([0, 0, 0, 0] @ be32 (tr_id tr))"
    using traf_child [OF v(3) l q(1) _ q(4)] by auto
  obtain t where t: "boxes d v [''tfdt''] = [t]" "fst t = 56"
    "views d t ([1, 0, 0, 0] @ be32 (upperWord time) @ be32 (lowerWord time))"
    using traf_child [OF v(3) l q(2) _ q(5)] by auto
  obtain u where u: "boxes d v [''trun''] = [u]"
    "views d u (payload (trun tr (76 + int (length (sdtp tr)))))"
    using traf_child [OF v(3) l q(3) _ q(6)] by auto
  show ?thesis by (rule that [OF v(1) h t u])
qed

subsection \<open>The tables of \<open>trun\<close> and \<open>sdtp\<close>\<close>

lemma length_sample_entry [simp]: "length (sample_entry s) = 16"
  by (simp add: sample_entry_def Let_def)

lemma trun_loop_concat:
  "length pre = 12 + 16 * i \<Longrightarrow>
   trun_loop ss i (pre @ replicate (16 * length ss) 0) = pre @ concat (map sample_entry ss)"
proof (induction ss arbitrary: i pre)
  case (Cons s ss)
  have "set_at (pre @ replicate (16 + 16 * length ss) 0) (sample_entry s) (12 + 16 * i)
      = (pre @ sample_entry s) @ replicate (16 * length ss) 0"
    using set_at_append [of "sample_entry s" "replicate 16 0" pre "replicate (16 * length ss) 0"]
      Cons.prems by (simp add: replicate_add)
  with Cons.IH [of "pre @ sample_entry s" "Suc i"] Cons.prems show ?case by simp
qed simp

lemma trun_payload:
  "payload (trun tr offset) = [0x00, 0x00, 0x0f, 0x01] @ be32 (int (length (tr_samples tr)))
     @ be32 (offset + 20 + 16 * int (length (tr_samples tr))) @ concat (map sample_entry (tr_samples tr))"
proof -
  let ?n = "length (tr_samples tr)"
  let ?h = "[0x00, 0x00, 0x0f, 0x01] @ be32 (int ?n) @ be32 (offset + 8 + int (12 + 16 * ?n))"
  have "set_at (replicate (12 + 16 * ?n) 0) ?h 0 = ?h @ replicate (16 * ?n) 0"
    by (rule set_at_0) simp
  then have "trun_loop (tr_samples tr) 0 (set_at (replicate (12 + 16 * ?n) 0) ?h 0)
      = ?h @ concat (map sample_entry (tr_samples tr))"
    using trun_loop_concat [of ?h 0 "tr_samples tr"] by simp
  then show ?thesis unfolding trun_def Let_def by (simp add: add.assoc)
qed

lemma length_concat_entries [simp]: "length (concat (map sample_entry ss)) = 16 * length ss"
  by (induction ss) simp_all

lemma length_trun [simp]: "length (trun tr n) = 20 + 16 * length (tr_samples tr)"
  by (subst trun_enc) (simp add: trun_payload)

lemma length_sdtp: "length (sdtp tr) = 8 + length (payload (sdtp tr))"
  by (subst sdtp_enc) simp

lemma length_moof: "length (moof sn time tr) = 88 + 16 * length (tr_samples tr) + length (sdtp tr)"
  by (simp add: moof_enc moof_tree_def trun_payload length_sdtp)

lemma nth_concat_entries:
  "i < length ss \<Longrightarrow> \<exists>xs ys. concat (map sample_entry ss) = xs @ sample_entry (ss ! i) @ ys
     \<and> length xs = 16 * i"
proof (induction ss arbitrary: i)
  case (Cons s ss)
  show ?case
  proof (cases i)
    case 0
    then show ?thesis by (intro exI [of _ "[]"] exI [of _ "concat (map sample_entry ss)"]) simp
  next
    case (Suc j)
    with Cons.prems have "j < length ss" by simp
    from Cons.IH [OF this] obtain xs ys where
      "concat (map sample_entry ss) = xs @ sample_entry (ss ! j) @ ys" "length xs = 16 * j" by blast
    then show ?thesis
      using Suc by (intro exI [of _ "sample_entry s @ xs"] exI [of _ ys]) simp
  qed
qed simp

subsection \<open>The start time of a fragment and its shift\<close>

lemma tfdt_time_view:
  assumes "views d t ([1, 0, 0, 0] @ be32 (upperWord time) @ be32 (lowerWord time))"
    and "0 \<le> time" and "time < 2 ^ 64"
  shows "tfdt_time d t = \<lfloor>time\<rfloor>"
proof -
  have "at_index d (fst t) = Some 1" using views_first [of d t 1] assms(1) by simp
  moreover have "readUint32 d (4 + fst t) = to_uint32 (upperWord time)"
    using views_read [of d t "[1, 0, 0, 0]" _ "be32 (lowerWord time)" 4] assms(1) by simp
  moreover have "readUint32 d (8 + fst t) = to_uint32 (lowerWord time)"
    using views_read [of d t "[1, 0, 0, 0] @ be32 (upperWord time)" "lowerWord time" "[]" 8] assms(1)
    by simp
  ultimately show ?thesis using words_of_time [OF assms(2,3)] by (simp add: tfdt_time_def Let_def)
qed

lemma getStartDTS_fragment:
  assumes "length (fragment sn time tr data) < 2 ^ 32" and "0 \<le> time" and "time < 2 ^ 64"
    and "track_scale init (to_uint32 (tr_id tr)) = Inr scale"
  shows "getStartDTS init (fragment sn time tr data) = Inr (of_int \<lfloor>time\<rfloor> / of_int scale)"
proof -
  define d where "d = fragment sn time tr data"
  obtain v h t where p: "boxes d (whole d) [''moof'', ''traf''] = [v]"
    "boxes d v [''tfhd''] = [h]" "views d h ([0, 0, 0, 0] @ be32 (tr_id tr))"
    "boxes d v [''tfdt''] = [t]"
    "views d t ([1, 0, 0, 0] @ be32 (upperWord time) @ be32 (lowerWord time))"
    by (rule traf_parts [OF assms(1) d_def])
  have "readUint32 d (4 + fst h) = to_uint32 (tr_id tr)"
    using views_read [of d h "[0, 0, 0, 0]" _ "[]" 4] p(3) by simp
  then have "tfhd_time d init v h = Inr (Some (of_int \<lfloor>time\<rfloor> / of_int scale))"
    using tfdt_time_view [OF p(5) assms(2,3)] assms(4) by (simp add: tfhd_time_def p(4))
  then show ?thesis
    by (simp add: getStartDTS_def d_def [symmetric] p(1,2) traf_times_def min_time_def)
qed

lemma moof_cong_length: "length (fragment sn time tr data) = length (fragment sn time' tr data)"
  by (simp add: fragment_def length_moof)

text \<open>The eight bytes of the decode time start at byte 60 of a fragment.\<close>

lemma fragment_split:
  "\<exists>pre post. length pre = 60 \<and>
     (\<forall>time. fragment sn time tr data = pre @ be32 (upperWord time) @ be32 (lowerWord time) @ post)"
proof -
  let ?post = "enc1 (Leaf ''trun'' (payload (trun tr (76 + int (length (sdtp tr)))))) @
    enc1 (Leaf ''sdtp'' (payload (sdtp tr))) @ enc1 (Leaf ''mdat'' data)"
  have "fragment sn time tr data = take 60 (fragment sn 0 tr data)
      @ be32 (upperWord time) @ be32 (lowerWord time) @ ?post" for time
    by (simp add: fragment_enc fragment_tree_def moof_tree_def mk_box_def)
  then show ?thesis
    using length_moof [of sn 0 tr] by (intro exI [of _ "take 60 (fragment sn 0 tr data)"] exI [of _ ?post])
      (simp add: fragment_def)
qed

lemma write_words:
  "writeUint32 (writeUint32 (pre @ be32 a @ be32 b @ post) (length pre) (of_int x)) (length pre + 4) (of_int y)
     = pre @ be32 x @ be32 y @ post"
proof -
  have 1: "writeUint32 (pre @ be32 a @ be32 b @ post) (length pre) (of_int x) = pre @ be32 x @ be32 b @ post"
    by (simp add: writeUint32_eq)
  show ?thesis
    using writeUint32_eq [of "be32 b" "pre @ be32 x" post "of_int y"] unfolding 1 by simp
qed

lemma offset_fragment:
  assumes "length (fragment sn time tr data) < 2 ^ 32" and "0 \<le> time" and "time < 2 ^ 64"
    and "track_scale init (to_uint32 (tr_id tr)) = Inr scale"
  shows "offsetStartDTS init (fragment sn time tr data) off
    = Inr (fragment sn (of_int \<lfloor>time\<rfloor> - off * of_int scale) tr data)"
proof -
  define d where "d = fragment sn time tr data"
  obtain v h t where p: "boxes d (whole d) [''moof'', ''traf''] = [v]"
    "boxes d v [''tfhd''] = [h]" "views d h ([0, 0, 0, 0] @ be32 (tr_id tr))"
    "boxes d v [''tfdt''] = [t]" "fst t = 56"
    "views d t ([1, 0, 0, 0] @ be32 (upperWord time) @ be32 (lowerWord time))"
    by (rule traf_parts [OF assms(1) d_def])
  have i: "readUint32 d (4 + fst h) = to_uint32 (tr_id tr)"
    using views_read [of d h "[0, 0, 0, 0]" _ "[]" 4] p(3) by simp
  have f: "at_index d (fst t) = Some 1" using views_first [of d t 1] p(6) by simp
  have time: "readUint32 d (4 + fst t) * 2 ^ 32 + readUint32 d (8 + fst t) = \<lfloor>time\<rfloor>"
    using tfdt_time_view [OF p(6) assms(2,3)] f by (simp add: tfdt_time_def Let_def)
  let ?t = "of_int \<lfloor>time\<rfloor> - off * of_int scale"
  obtain pre post where s: "length pre = 60" "\<And>time. fragment sn time tr data
      = pre @ be32 (upperWord time) @ be32 (lowerWord time) @ post"
    using fragment_split by blast
  have "offset_tfdt scale off t d = writeUint32 (writeUint32 d 60 (of_int (upperWord ?t))) 64
      (of_int (lowerWord ?t))"
    using time p(5) unfolding offset_tfdt_def f by (simp add: Let_def)
  also have "\<dots> = fragment sn ?t tr data"
    using write_words [of pre] unfolding d_def s(2) by (simp add: s(1))
  finally show ?thesis
    using i assms(4) by (simp add: offsetStartDTS_def d_def [symmetric] p(1,2,4) offset_traf_def offset_tfhd_def)
qed

end
