(* ===== verification/Mp4_Props.thy ===== *)
theory Mp4_Props
  imports Mp4_Segments
begin

text \<open>
  The properties of the box writer and the box reader, most of them of the two together: what the
  writer produces is what the reader finds, parses and shifts. They rest on the laws of the
  \<open>box_reader\<close> interface and on the views of \<open>Mp4_Segments\<close>.
\<close>

lemma length_sdtp_loop [simp]: "length (sdtp_loop ss i xs) = length xs"
  by (induction ss arbitrary: i xs) simp_all

lemma length_sdtp_eq: "length (sdtp tr) = 12 + length (tr_samples tr)"
  by (simp add: sdtp_def Let_def box_layout)

lemma length_fragment:
  "length (fragment sn time tr data) = 108 + 17 * length (tr_samples tr) + length data"
  by (simp add: fragment_def length_moof length_sdtp_eq mdat_def box_layout)

definition init_entry :: "track \<Rightarrow> int \<times> int \<times> media_type" where
  "init_entry tr = (tr_id tr, tr_timescale tr, tr_type tr)"

definition last_of :: "media_type \<Rightarrow> track list \<Rightarrow> (int \<times> int) option" where
  "last_of ty trs =
     (case rev (filter (\<lambda>tr. tr_type tr = ty) trs) of
        [] \<Rightarrow> None
      | tr # _ \<Rightarrow> Some (tr_timescale tr, tr_id tr))"

lemma fold_set_init:
  fixes trs :: "track list"
  assumes "\<forall>tr \<in> set trs. to_uint32 (tr_id tr) = tr_id tr \<and> to_uint32 (tr_timescale tr) = tr_timescale tr"
  defines "f \<equiv> \<lambda>tr :: track. set_init (to_uint32 (tr_id tr)) (to_uint32 (tr_timescale tr)) (tr_type tr)"
  shows "fold f trs empty_init = \<lparr>id_tracks = map_of (rev (map init_entry trs)),
    id_audio = last_of Audio trs, id_video = last_of Video trs\<rparr>"
  using assms(1)
proof (induction trs rule: rev_induct)
  case Nil
  then show ?case by (simp add: empty_init_def last_of_def fun_eq_iff)
next
  case (snoc tr trs)
  then show ?case
    by (cases "tr_type tr") (auto simp: f_def set_init_def Let_def last_of_def init_entry_def)
qed

lemma default_duration_fields [simp]:
  "tr_id (default_duration tr) = tr_id tr" "tr_timescale (default_duration tr) = tr_timescale tr"
  "tr_type (default_duration tr) = tr_type tr"
  by (simp_all add: default_duration_def)

lemma last_of_default [simp]: "last_of ty (map default_duration trs) = last_of ty trs"
  by (simp add: last_of_def filter_map o_def rev_map split: list.splits)

lemma init_entries_default [simp]: "init_entry (default_duration tr) = init_entry tr"
  by (simp add: init_entry_def)

definition example_track :: track where
  "example_track = \<lparr>tr_type = Video, tr_id = 1, tr_timescale = 90000, tr_duration = 10,
     tr_sps = [[0x67, 66, 0, 30]], tr_pps = [[0x68]], tr_width = 640, tr_height = 360,
     tr_pixelRatio = (1, 1), tr_config = [], tr_samplerate = 0, tr_channelCount = 0,
     tr_isAAC = False, tr_codec = ''avc1'',
     tr_samples = [\<lparr>sm_duration = 3000, sm_size = 5, sm_flags = \<lparr>sf_isLeading = 0, sf_dependsOn = 2,
       sf_isDependedOn = 0, sf_hasRedundancy = 0, sf_paddingValue = 0, sf_isNonSync = 0,
       sf_degradPrio = 0\<rparr>, sm_cts = 0\<rparr>]\<rparr>"

section \<open>Properties\<close>

lemma init_segment_parsed:
  assumes "\<forall>tr \<in> set (t # ts). 0 \<le> tr_id tr \<and> tr_id tr < 2 ^ 32
    \<and> 0 \<le> tr_timescale tr \<and> tr_timescale tr < 2 ^ 32"
    and "initSegment (t # ts) = Inr (seg, tracks)" and "length seg < 2 ^ 32"
  shows "parseInitSegment seg = \<lparr>id_tracks = map_of (rev (map init_entry (t # ts))),
    id_audio = last_of Audio (t # ts), id_video = last_of Video (t # ts)\<rparr>"
proof -
  let ?us = "map default_duration (t # ts)"
  have seg: "seg = enc [ftyp_tree, moov_tree (default_duration t) (map default_duration ts)]"
    using assms(2) unfolding initSegment_enc by simp
  have "\<forall>tr \<in> set ?us. to_uint32 (tr_id tr) = tr_id tr \<and> to_uint32 (tr_timescale tr) = tr_timescale tr"
    using assms(1) by (auto simp: to_uint32_small)
  note f = fold_set_init [OF this]
  have "last_of ty ?us = last_of ty (t # ts)" for ty by (rule last_of_default)
  moreover have "map init_entry ?us = map init_entry (t # ts)" by (simp add: o_def)
  ultimately show ?thesis
    unfolding seg parse_moov [OF assms(3) [unfolded seg]] using f by (simp only: list.map)
qed

text \<open>
  C5. Init segments round-trip: what the writer produces for any non-empty list of tracks (ids and
  timescales of 32 bits) is parsed back to exactly the tracks' ids, timescales and media types,
  the last track of a kind being the named audio or video entry.
\<close>

theorem parseInitSegment_initSegment:
  assumes "\<forall>tr \<in> set (t # ts). 0 \<le> tr_id tr \<and> tr_id tr < 2 ^ 32
    \<and> 0 \<le> tr_timescale tr \<and> tr_timescale tr < 2 ^ 32"
    and "initSegment (t # ts) = Inr (seg, tracks)" and "length seg < 2 ^ 32"
  shows "parseInitSegment seg = \<lparr>id_tracks = map_of (rev (map init_entry (t # ts))),
    id_audio = last_of Audio (t # ts), id_video = last_of Video (t # ts)\<rparr>"
  by (rule init_segment_parsed [OF assms])

lemma length_example_init: "length (fst (projr (initSegment [example_track]))) < 2 ^ 32"
  by (simp add: initSegment_def moov_def trak_def Let_def default_duration_def example_track_def
      mvhd_def tkhd_def mdia_def mdhd_def hdlr_def HDLR_TYPES_def minf_def stbl_def stsd_def avc1_def
      avcC_def mvex_def trex_def FTYP_def DINF_def dref_def VMHD_def STCO_def STSZ_def STSD_def
      videoHdlr_def box_layout unity_matrix_def length_set_at)

lemma parseInitSegment_initSegment_witness:
  "parseInitSegment (fst (projr (initSegment [example_track])))
     = \<lparr>id_tracks = [1 \<mapsto> (90000, Video)], id_audio = None, id_video = Some (90000, 1)\<rparr>"
proof -
  obtain seg trs where s: "initSegment [example_track] = Inr (seg, trs)"
    unfolding initSegment_enc by blast
  have "length seg < 2 ^ 32" using length_example_init s by simp
  moreover have "tr_id example_track = 1" "tr_timescale example_track = 90000"
    "tr_type example_track = Video" by (simp_all add: example_track_def)
  ultimately show ?thesis
    using parseInitSegment_initSegment [OF _ s] by (simp add: s init_entry_def last_of_def)
qed

text \<open>
  Box search: on the serialisation of any box tree (four-character names, less than 4 GB, with
  containers along the path), \<open>findBox\<close> returns exactly the payloads of the boxes on the path, in
  document order, and each view starts where the payload lies in the buffer.
\<close>

lemma findBox_finds:
  assumes "opens ts path" and "path \<noteq> []" and "length (enc ts) < 2 ^ 32"
  shows "\<exists>vs. findBox (enc ts) (whole (enc ts)) path = Some vs
    \<and> map (\<lambda>v. take (snd v - fst v) (drop (fst v) (enc ts))) vs = map contents (query ts path)
    \<and> map fst vs = places 0 ts path"
proof -
  let ?vs = "boxes (enc ts) (whole (enc ts)) path"
  have w: "views (enc ts) (whole (enc ts)) (enc ts)" by (simp add: views_def whole_def)
  have "list_all2 (\<lambda>v t. take (snd v - fst v) (drop (fst v) (enc ts)) = contents t) ?vs (query ts path)"
    using mp4.find_whole [OF assms] by (rule list_all2_mono) (simp add: views_def holds_at_def)
  then have "map (\<lambda>v. take (snd v - fst v) (drop (fst v) (enc ts))) ?vs = map contents (query ts path)"
    by (induction rule: list_all2_induct) simp_all
  then show ?thesis
    using mp4.place_law [OF w assms] assms(2) by (simp add: boxes_def findBox_def whole_def)
qed

lemma findBox_finds_witness:
  "findBox (enc [Leaf ''free'' [1], Node ''moov'' [Leaf ''mvhd'' [7, 7], Leaf ''trak'' [9]]])
     (whole (enc [Leaf ''free'' [1], Node ''moov'' [Leaf ''mvhd'' [7, 7], Leaf ''trak'' [9]]]))
     [''moov'', ''trak''] = Some [(35, 36)]"
proof -
  let ?ts = "[Leaf ''free'' [1], Node ''moov'' [Leaf ''mvhd'' [7, 7], Leaf ''trak'' [9]]]"
  let ?d = "enc ?ts"
  have h: "opens ?ts [''moov'', ''trak'']" "length ?d = 36" "drop 35 ?d = [9]" by (simp_all add: mk_box_def)
  from findBox_finds [OF h(1)] h(2) obtain vs where vs:
    "findBox ?d (whole ?d) [''moov'', ''trak''] = Some vs"
    "map (\<lambda>v. take (snd v - fst v) (drop (fst v) ?d)) vs = [[9]]" "map fst vs = [35]" by auto
  obtain e where e: "vs = [(35, e)]" using vs(3) by (cases vs) auto
  have "find_in ?d 0 (length ?d) [''moov'', ''trak''] = [(35, e)]"
    using vs(1) e by (simp add: findBox_def whole_def)
  moreover have "views ?d (35, e) [9]"
  proof -
    have "list_all2 (\<lambda>v t. views ?d v (contents t)) (find_in ?d 0 (length ?d) [''moov'', ''trak''])
        (query ?ts [''moov'', ''trak''])"
      using find_in_query [of ?d 0 ?ts "length ?d", OF _ _ h(1)] h(2) by simp
    then show ?thesis unfolding \<open>find_in _ _ _ _ = _\<close> by simp
  qed
  ultimately show ?thesis using vs(1) e by (simp add: views_def)
qed

text \<open>
  Shifting a fragment in place: on a fragment of the writer, \<open>offsetStartDTS\<close> leaves exactly the
  bytes of the fragment written with the base decode time moved by \<open>timeOffset\<close> seconds (two's
  complement when the result is negative); only the eight time bytes change.
\<close>

lemma offsetStartDTS_shifts:
  assumes "length (fragment sn time tr data) < 2 ^ 32" and "0 \<le> time" and "time < 2 ^ 64"
    and "track_scale init (to_uint32 (tr_id tr)) = Inr scale"
  shows "offsetStartDTS init (fragment sn time tr data) off
    = Inr (fragment sn (of_int \<lfloor>time\<rfloor> - off * of_int scale) tr data)"
  by (rule offset_fragment [OF assms])

lemma offsetStartDTS_shifts_witness:
  "offsetStartDTS (Some \<lparr>id_tracks = [1 \<mapsto> (90000, Video)], id_audio = None, id_video = None\<rparr>)
     (fragment 7 180000 example_track [1, 2, 3, 4, 5]) 1
   = Inr (fragment 7 90000 example_track [1, 2, 3, 4, 5])"
  using offsetStartDTS_shifts [of 7 180000 example_track "[1, 2, 3, 4, 5]"
    "Some \<lparr>id_tracks = [1 \<mapsto> (90000, Video)], id_audio = None, id_video = None\<rparr>" 90000 1]
  by (simp add: length_fragment track_scale_def example_track_def to_uint32_small)

text \<open>
  The start time of a fragment: \<open>getStartDTS\<close> on a fragment of the writer returns the base decode
  time that was written (any 64-bit time, both words), in seconds of the track's timescale.
\<close>

lemma getStartDTS_reads:
  assumes "length (fragment sn time tr data) < 2 ^ 32" and "0 \<le> time" and "time < 2 ^ 64"
    and "track_scale init (to_uint32 (tr_id tr)) = Inr scale"
  shows "getStartDTS init (fragment sn time tr data) = Inr (of_int \<lfloor>time\<rfloor> / of_int scale)"
  by (rule getStartDTS_fragment [OF assms])

lemma getStartDTS_reads_witness:
  "getStartDTS (Some \<lparr>id_tracks = [1 \<mapsto> (90000, Video)], id_audio = None, id_video = None\<rparr>)
     (fragment 7 (2 ^ 33) example_track [1, 2, 3, 4, 5]) = Inr (2 ^ 33 / 90000)"
  using getStartDTS_reads [of 7 "2 ^ 33" example_track "[1, 2, 3, 4, 5]"
    "Some \<lparr>id_tracks = [1 \<mapsto> (90000, Video)], id_audio = None, id_video = None\<rparr>" 90000]
  by (simp add: length_fragment track_scale_def example_track_def to_uint32_small)

lemma mp4_append_shifts:
  assumes "length (fragment sn time tr data) < 2 ^ 32" and "0 \<le> time" and "time < 2 ^ 64"
    and "md_initData d = Some r" and "md_initPTS d = None"
    and "id_tracks r (to_uint32 (tr_id tr)) = Some (scale, ty)" and "0 < scale"
    and "0 \<le> off" and "off * of_int scale < 2 ^ 64"
  shows "\<exists>d'. mp4_append (fragment sn time tr data) off c a d = Inr d'
    \<and> md_initPTS d' = Some (of_int \<lfloor>time\<rfloor> / of_int scale - off)
    \<and> md_out d' = md_out d @ [InitPtsFound (of_int \<lfloor>time\<rfloor> / of_int scale - off),
        Remux (id_audio r) (id_video r) (of_int \<lfloor>off * of_int scale\<rfloor> / of_int scale) c a
          (fragment sn (off * of_int scale) tr data)]"
proof -
  have scale: "track_scale (Some r) (to_uint32 (tr_id tr)) = Inr scale"
    using assms(6,7) by (simp add: track_scale_def)
  have "of_int \<lfloor>time\<rfloor> - (of_int \<lfloor>time\<rfloor> / of_int scale - off) * of_int scale = off * (of_int scale :: rat)"
    using assms(7) by (simp add: field_simps)
  then have o: "offsetStartDTS (Some r) (fragment sn time tr data) (of_int \<lfloor>time\<rfloor> / of_int scale - off)
      = Inr (fragment sn (off * of_int scale) tr data)"
    using offset_fragment [OF assms(1-3) scale] by simp
  have "length (fragment sn (off * of_int scale) tr data) < 2 ^ 32"
    using assms(1) moof_cong_length by metis
  then have g: "getStartDTS (Some r) (fragment sn (off * of_int scale) tr data)
      = Inr (of_int \<lfloor>off * of_int scale\<rfloor> / of_int scale)"
    using assms(7-9) scale by (intro getStartDTS_fragment) simp_all
  show ?thesis
    using assms(4,5) getStartDTS_fragment [OF assms(1-3) scale] o g
    by (simp add: mp4_append_def Let_def emit_def)
qed

text \<open>
  The demuxer aligns a fragment to its playback position: the first fragment appended after an
  init segment fixes the initial timestamp, is shifted so that it starts at \<open>timeOffset\<close> (to the
  tick), and is handed to the remuxer with that start time.
\<close>

lemma mp4_append_first:
  assumes "length (fragment sn time tr data) < 2 ^ 32" and "0 \<le> time" and "time < 2 ^ 64"
    and "md_initData d = Some r" and "md_initPTS d = None"
    and "id_tracks r (to_uint32 (tr_id tr)) = Some (scale, ty)" and "0 < scale"
    and "0 \<le> off" and "off * of_int scale < 2 ^ 64"
  shows "\<exists>d'. mp4_append (fragment sn time tr data) off c a d = Inr d'
    \<and> md_initPTS d' = Some (of_int \<lfloor>time\<rfloor> / of_int scale - off)
    \<and> md_out d' = md_out d @ [InitPtsFound (of_int \<lfloor>time\<rfloor> / of_int scale - off),
        Remux (id_audio r) (id_video r) (of_int \<lfloor>off * of_int scale\<rfloor> / of_int scale) c a
          (fragment sn (off * of_int scale) tr data)]"
  by (rule mp4_append_shifts [OF assms])

lemma mp4_append_first_witness:
  "\<exists>d'. mp4_append (fragment 7 180000 example_track [1, 2, 3, 4, 5]) 10 True False
      (new_MP4Demuxer\<lparr>md_initData := Some \<lparr>id_tracks = [1 \<mapsto> (90000, Video)], id_audio = None,
        id_video = Some (90000, 1)\<rparr>\<rparr>) = Inr d'
    \<and> md_initPTS d' = Some (- 8)
    \<and> md_out d' = [InitPtsFound (- 8), Remux None (Some (90000, 1)) 10 True False
        (fragment 7 900000 example_track [1, 2, 3, 4, 5])]"
  using mp4_append_first [of 7 180000 example_track "[1, 2, 3, 4, 5]"
    "new_MP4Demuxer\<lparr>md_initData := Some \<lparr>id_tracks = [1 \<mapsto> (90000, Video)], id_audio = None,
        id_video = Some (90000, 1)\<rparr>\<rparr>" _ 90000 Video 10 True False]
  by (simp add: length_fragment new_MP4Demuxer_def example_track_def to_uint32_small)

text \<open>
  The data offset of a fragment: the number stored in \<open>trun\<close> (found by the reader's own search)
  points at the first payload byte of the \<open>mdat\<close> that follows, for any number of samples, although
  the writer adds the sizes of the enclosing boxes up by hand.
\<close>

lemma trun_data_offset:
  assumes "length (fragment sn time tr data) < 2 ^ 31"
  shows "\<exists>u trf. boxes (fragment sn time tr data) (whole (fragment sn time tr data)) [''moof'', ''traf''] = [trf]
    \<and> boxes (fragment sn time tr data) trf [''trun''] = [u]
    \<and> drop (nat (readUint32 (fragment sn time tr data) (8 + fst u))) (fragment sn time tr data) = data"
proof -
  define d where "d = fragment sn time tr data"
  have small: "length (fragment sn time tr data) < 2 ^ 32" using assms by simp
  obtain v u where p: "boxes d (whole d) [''moof'', ''traf''] = [v]" "boxes d v [''trun''] = [u]"
    "views d u (payload (trun tr (76 + int (length (sdtp tr)))))"
    by (rule traf_parts [OF small d_def])
  let ?off = "76 + int (length (sdtp tr)) + 20 + 16 * int (length (tr_samples tr))"
  have off: "?off = int (length (moof sn time tr) + 8)" by (simp add: length_moof)
  have "readUint32 d (8 + fst u) = to_uint32 ?off"
    using p(3) unfolding trun_payload
    by (intro views_read [where xs = "[0, 0, 15, 1] @ be32 (int (length (tr_samples tr)))"
          and ys = "concat (map sample_entry (tr_samples tr))"]) simp_all
  moreover have "?off < 2 ^ 32"
    using small unfolding off fragment_def mdat_def by (simp add: box_layout)
  ultimately have "nat (readUint32 d (8 + fst u)) = length (moof sn time tr) + 8"
    unfolding off by (simp add: to_uint32_small)
  moreover have "drop (length (moof sn time tr) + 8) d = data"
    by (simp add: d_def fragment_def mdat_def box_layout mk_box_def)
  ultimately show ?thesis using p(1,2) unfolding d_def by auto
qed

lemma trun_data_offset_witness:
  "\<exists>u trf. boxes (fragment 1 0 example_track [1, 2, 3, 4, 5])
      (whole (fragment 1 0 example_track [1, 2, 3, 4, 5])) [''moof'', ''traf''] = [trf]
    \<and> boxes (fragment 1 0 example_track [1, 2, 3, 4, 5]) trf [''trun''] = [u]
    \<and> drop (nat (readUint32 (fragment 1 0 example_track [1, 2, 3, 4, 5]) (8 + fst u)))
        (fragment 1 0 example_track [1, 2, 3, 4, 5]) = [1, 2, 3, 4, 5]"
  using trun_data_offset [of 1 0 example_track "[1, 2, 3, 4, 5]"]
  by (simp add: length_fragment example_track_def)

text \<open>
  The sample table: in the \<open>trun\<close> of a fragment, the entry of sample \<open>i\<close> holds its duration, size
  and composition offset (negative offsets as two's complement), whatever the number of samples.
\<close>

lemma trun_sample_table:
  assumes "length (fragment sn time tr data) < 2 ^ 32" and "i < length (tr_samples tr)"
  shows "\<exists>u trf. boxes (fragment sn time tr data) (whole (fragment sn time tr data)) [''moof'', ''traf''] = [trf]
    \<and> boxes (fragment sn time tr data) trf [''trun''] = [u]
    \<and> readUint32 (fragment sn time tr data) (12 + 16 * i + fst u) = to_uint32 (sm_duration (tr_samples tr ! i))
    \<and> readUint32 (fragment sn time tr data) (16 + 16 * i + fst u) = to_uint32 (sm_size (tr_samples tr ! i))
    \<and> readUint32 (fragment sn time tr data) (24 + 16 * i + fst u) = to_uint32 (sm_cts (tr_samples tr ! i))"
proof -
  define d where "d = fragment sn time tr data"
  define s where "s = tr_samples tr ! i"
  obtain v u where p: "boxes d (whole d) [''moof'', ''traf''] = [v]" "boxes d v [''trun''] = [u]"
    "views d u (payload (trun tr (76 + int (length (sdtp tr)))))"
    by (rule traf_parts [OF assms(1) d_def])
  obtain xs ys where e: "concat (map sample_entry (tr_samples tr)) = xs @ sample_entry s @ ys"
    "length xs = 16 * i" using nth_concat_entries [OF assms(2)] unfolding s_def by blast
  obtain fl where fl: "sample_entry s = be32 (sm_duration s) @ be32 (sm_size s) @ fl @ be32 (sm_cts s)"
    "length fl = 4" by (simp add: sample_entry_def Let_def)
  define pre where "pre = [0x00, 0x00, 0x0f, 0x01] @ be32 (int (length (tr_samples tr)))
     @ be32 (76 + int (length (sdtp tr)) + 20 + 16 * int (length (tr_samples tr))) @ xs"
  have pre: "length pre = 12 + 16 * i" by (simp add: pre_def e)
  have w: "views d u (pre @ be32 (sm_duration s) @ be32 (sm_size s) @ fl @ be32 (sm_cts s) @ ys)"
    using p(3) unfolding trun_payload e fl by (simp add: pre_def)
  have "readUint32 d (12 + 16 * i + fst u) = to_uint32 (sm_duration s)"
    by (rule views_read [OF w]) (simp add: pre)
  moreover have "readUint32 d (16 + 16 * i + fst u) = to_uint32 (sm_size s)"
    using w by (intro views_read [where xs = "pre @ be32 (sm_duration s)"]) (simp_all add: pre)
  moreover have "readUint32 d (24 + 16 * i + fst u) = to_uint32 (sm_cts s)"
    using w fl by (intro views_read [where xs = "pre @ be32 (sm_duration s) @ be32 (sm_size s) @ fl"])
      (simp_all add: pre)
  ultimately show ?thesis using p(1,2) unfolding d_def s_def by blast
qed

lemma trun_sample_table_witness:
  "\<exists>u trf. boxes (fragment 1 0 example_track [1, 2, 3, 4, 5])
      (whole (fragment 1 0 example_track [1, 2, 3, 4, 5])) [''moof'', ''traf''] = [trf]
    \<and> boxes (fragment 1 0 example_track [1, 2, 3, 4, 5]) trf [''trun''] = [u]
    \<and> readUint32 (fragment 1 0 example_track [1, 2, 3, 4, 5]) (12 + fst u) = 3000"
  using trun_sample_table [of 1 0 example_track "[1, 2, 3, 4, 5]" 0]
  by (auto simp: length_fragment example_track_def to_uint32_small)

text \<open>
  Writing a number into a buffer: within the buffer, \<open>readUint32\<close> after \<open>writeUint32\<close> returns the
  number modulo \<open>2 ^ 32\<close> (truncated to an integer), and no other byte changes.
\<close>

lemma read_writeUint32:
  assumes "i + 4 \<le> length d"
  shows "readUint32 (writeUint32 d i v) i = to_uint32 (trunc_int v)
    \<and> take i (writeUint32 d i v) = take i d \<and> drop (i + 4) (writeUint32 d i v) = drop (i + 4) d"
proof -
  have "d = take i d @ take 4 (drop i d) @ drop 4 (drop i d)" by (metis append_take_drop_id)
  then have w: "writeUint32 d i v = take i d @ be32 (trunc_int v) @ drop (i + 4) d"
    using writeUint32_eq [of "take 4 (drop i d)" "take i d" "drop 4 (drop i d)" v] assms
    by (simp add: add.commute)
  moreover have "holds_at (take i d @ be32 (trunc_int v) @ drop (i + 4) d) i (be32 (trunc_int v))"
    using assms by (simp add: holds_at_def)
  ultimately show ?thesis using assms readUint32_at by simp
qed

lemma read_writeUint32_witness:
  "readUint32 (writeUint32 [1, 2, 3, 4, 5, 6] 1 (- 3 / 2)) 1 = 2 ^ 32 - 1"
proof -
  have "trunc_int (- 3 / 2) = - 1" by (simp add: trunc_int_def ceiling_eq_iff)
  with read_writeUint32 [of 1 "[1, 2, 3, 4, 5, 6]" "- 3 / 2"] show ?thesis
    by (simp add: to_uint32_def take_bit_eq_mod)
qed

end
