(* ===== verification/Cea608.thy ===== *)
theory Cea608
  imports Js_Prelude
begin

text \<open>
  The CEA-608 closed-caption decoder, \<open>src/utils/cea-608-parser.js\<close>: pen state, styled characters,
  rows, caption screens, channels and the parser of byte pairs. The objects are records; the two
  screens that \<open>writeScreen\<close> can point to are named by \<open>Disp\<close> and \<open>NonDisp\<close>. A character is its
  UTF-16 code unit. Calls on \<open>undefined\<close> are \<open>TypeError\<close>; calls of the logger are left out. The
  parser's \<open>logger.time\<close> is a field of the parser.
\<close>

text \<open>Sequencing of two updates that may throw.\<close>

definition andthen :: "('a \<Rightarrow> 'b result) \<Rightarrow> ('b \<Rightarrow> 'c result) \<Rightarrow> 'a \<Rightarrow> 'c result" where
  "andthen f g x = (case f x of Inl e \<Rightarrow> Inl e | Inr y \<Rightarrow> g y)"

subsection \<open>Characters\<close>

definition specialCea608CharsCodes :: "(nat \<times> nat) list" where
  "specialCea608CharsCodes = [
      (0x2a, 0xe1), (0x5c, 0xe9), (0x5e, 0xed), (0x5f, 0xf3), (0x60, 0xfa), (0x7b, 0xe7),
      (0x7c, 0xf7), (0x7d, 0xd1), (0x7e, 0xf1), (0x7f, 0x2588), (0x80, 0xae), (0x81, 0xb0),
      (0x82, 0xbd), (0x83, 0xbf), (0x84, 0x2122), (0x85, 0xa2), (0x86, 0xa3), (0x87, 0x266a),
      (0x88, 0xe0), (0x89, 0x20), (0x8a, 0xe8), (0x8b, 0xe2), (0x8c, 0xea), (0x8d, 0xee),
      (0x8e, 0xf4), (0x8f, 0xfb), (0x90, 0xc1), (0x91, 0xc9), (0x92, 0xd3), (0x93, 0xda),
      (0x94, 0xdc), (0x95, 0xfc), (0x96, 0x2018), (0x97, 0xa1), (0x98, 0x2a), (0x99, 0x2019),
      (0x9a, 0x2501), (0x9b, 0xa9), (0x9c, 0x2120), (0x9d, 0x2022), (0x9e, 0x201c), (0x9f, 0x201d),
      (0xa0, 0xc0), (0xa1, 0xc2), (0xa2, 0xc7), (0xa3, 0xc8), (0xa4, 0xca), (0xa5, 0xcb),
      (0xa6, 0xeb), (0xa7, 0xce), (0xa8, 0xcf), (0xa9, 0xef), (0xaa, 0xd4), (0xab, 0xd9),
      (0xac, 0xf9), (0xad, 0xdb), (0xae, 0xab), (0xaf, 0xbb), (0xb0, 0xc3), (0xb1, 0xe3),
      (0xb2, 0xcd), (0xb3, 0xcc), (0xb4, 0xec), (0xb5, 0xd2), (0xb6, 0xf2), (0xb7, 0xd5),
      (0xb8, 0xf5), (0xb9, 0x7b), (0xba, 0x7d), (0xbb, 0x5c), (0xbc, 0x5e), (0xbd, 0x5f),
      (0xbe, 0x7c), (0xbf, 0x223c), (0xc0, 0xc4), (0xc1, 0xe4), (0xc2, 0xd6), (0xc3, 0xf6),
      (0xc4, 0xdf), (0xc5, 0xa5), (0xc6, 0xa4), (0xc7, 0x2503), (0xc8, 0xc5), (0xc9, 0xe5),
      (0xca, 0xd8), (0xcb, 0xf8), (0xcc, 0x250f), (0xcd, 0x2513), (0xce, 0x2517), (0xcf, 0x251b)]"

definition getCharForByte :: "nat \<Rightarrow> nat" where
  "getCharForByte b =
     (case map_of specialCea608CharsCodes b of Some c \<Rightarrow> c | None \<Rightarrow> b)"

definition NR_ROWS :: nat where "NR_ROWS = 15"
definition NR_COLS :: nat where "NR_COLS = 100"

definition rowsLowCh1 :: "nat \<Rightarrow> nat option" where
  "rowsLowCh1 = map_of [(0x11, 1), (0x12, 3), (0x15, 5), (0x16, 7), (0x17, 9), (0x10, 11), (0x13, 12), (0x14, 14)]"

definition rowsHighCh1 :: "nat \<Rightarrow> nat option" where
  "rowsHighCh1 = map_of [(0x11, 2), (0x12, 4), (0x15, 6), (0x16, 8), (0x17, 10), (0x13, 13), (0x14, 15)]"

definition rowsLowCh2 :: "nat \<Rightarrow> nat option" where
  "rowsLowCh2 = map_of [(0x19, 1), (0x1A, 3), (0x1D, 5), (0x1E, 7), (0x1F, 9), (0x18, 11), (0x1B, 12), (0x1C, 14)]"

definition rowsHighCh2 :: "nat \<Rightarrow> nat option" where
  "rowsHighCh2 = map_of [(0x19, 2), (0x1A, 4), (0x1D, 6), (0x1E, 8), (0x1F, 10), (0x1B, 13), (0x1C, 15)]"

definition backgroundColors :: "string list" where
  "backgroundColors = [''white'', ''green'', ''blue'', ''cyan'', ''red'', ''yellow'', ''magenta'',
     ''black'', ''transparent'']"

subsection \<open>Pen states and styled characters\<close>

record pen_state =
  ps_foreground :: string
  ps_underline :: bool
  ps_italics :: bool
  ps_background :: string
  ps_flash :: bool

definition new_PenState :: pen_state where
  "new_PenState = \<lparr>ps_foreground = ''white'', ps_underline = False, ps_italics = False,
     ps_background = ''black'', ps_flash = False\<rparr>"

text \<open>An object of styles: an absent property is \<open>None\<close>.\<close>

record styles =
  st_foreground :: "string option"
  st_underline :: "bool option"
  st_italics :: "bool option"
  st_background :: "string option"
  st_flash :: "bool option"

definition no_styles :: styles where
  "no_styles = \<lparr>st_foreground = None, st_underline = None, st_italics = None, st_background = None,
     st_flash = None\<rparr>"

definition or_else :: "'a option \<Rightarrow> 'a \<Rightarrow> 'a" where
  "or_else x y = (case x of Some v \<Rightarrow> v | None \<Rightarrow> y)"

definition setStyles :: "styles \<Rightarrow> pen_state \<Rightarrow> pen_state" where
  "setStyles st p =
     \<lparr>ps_foreground = or_else (st_foreground st) (ps_foreground p),
      ps_underline = or_else (st_underline st) (ps_underline p),
      ps_italics = or_else (st_italics st) (ps_italics p),
      ps_background = or_else (st_background st) (ps_background p),
      ps_flash = or_else (st_flash st) (ps_flash p)\<rparr>"

definition pen_isDefault :: "pen_state \<Rightarrow> bool" where
  "pen_isDefault p \<longleftrightarrow> ps_foreground p = ''white'' \<and> \<not> ps_underline p \<and> \<not> ps_italics p
     \<and> ps_background p = ''black'' \<and> \<not> ps_flash p"

definition pen_equals :: "pen_state \<Rightarrow> pen_state \<Rightarrow> bool" where
  "pen_equals p q \<longleftrightarrow> ps_foreground p = ps_foreground q \<and> ps_underline p = ps_underline q
     \<and> ps_italics p = ps_italics q \<and> ps_background p = ps_background q \<and> ps_flash p = ps_flash q"

record styled_char =
  sc_uchar :: nat
  sc_pen :: pen_state

definition new_StyledUnicodeChar :: styled_char where
  "new_StyledUnicodeChar = \<lparr>sc_uchar = 0x20, sc_pen = new_PenState\<rparr>"

definition setChar :: "nat \<Rightarrow> pen_state \<Rightarrow> styled_char \<Rightarrow> styled_char" where
  "setChar u p c = c\<lparr>sc_uchar := u, sc_pen := p\<rparr>"

definition setPenState :: "pen_state \<Rightarrow> styled_char \<Rightarrow> styled_char" where
  "setPenState p c = c\<lparr>sc_pen := p\<rparr>"

definition char_reset :: "styled_char \<Rightarrow> styled_char" where
  "char_reset c = c\<lparr>sc_uchar := 0x20, sc_pen := new_PenState\<rparr>"

definition char_equals :: "styled_char \<Rightarrow> styled_char \<Rightarrow> bool" where
  "char_equals c d \<longleftrightarrow> sc_uchar c = sc_uchar d \<and> pen_equals (sc_pen c) (sc_pen d)"

definition char_isEmpty :: "styled_char \<Rightarrow> bool" where
  "char_isEmpty c \<longleftrightarrow> sc_uchar c = 0x20 \<and> pen_isDefault (sc_pen c)"

subsection \<open>Rows\<close>

record row =
  rw_chars :: "styled_char list"
  rw_pos :: int
  rw_pen :: pen_state

definition new_Row :: row where
  "new_Row = \<lparr>rw_chars = replicate NR_COLS new_StyledUnicodeChar, rw_pos = 0, rw_pen = new_PenState\<rparr>"

text \<open>A method call on \<open>this.chars[i]\<close>.\<close>

definition on_char :: "int \<Rightarrow> (styled_char \<Rightarrow> styled_char) \<Rightarrow> row \<Rightarrow> row result" where
  "on_char i f r =
     (if 0 \<le> i \<and> i < int (length (rw_chars r))
      then Inr (r\<lparr>rw_chars := (rw_chars r)[nat i := f (rw_chars r ! nat i)]\<rparr>)
      else Inl TypeError)"

text \<open>Comparisons of \<open>NR_COLS\<close> columns; both rows have them.\<close>

definition row_equals :: "row \<Rightarrow> row \<Rightarrow> bool" where
  "row_equals r s \<longleftrightarrow> list_all2 char_equals (rw_chars r) (rw_chars s)"

definition row_copy :: "row \<Rightarrow> row \<Rightarrow> row" where \<comment> \<open>\<open>r.copy(other)\<close>: the characters only\<close>
  "row_copy other r = r\<lparr>rw_chars := rw_chars other\<rparr>"

definition row_isEmpty :: "row \<Rightarrow> bool" where
  "row_isEmpty r \<longleftrightarrow> list_all char_isEmpty (rw_chars r)"

definition row_setCursor :: "int \<Rightarrow> row \<Rightarrow> row" where
  "row_setCursor absPos r =
     (if absPos < 0 then r\<lparr>rw_pos := 0\<rparr>
      else if absPos > int NR_COLS then r\<lparr>rw_pos := int NR_COLS\<rparr>
      else r\<lparr>rw_pos := absPos\<rparr>)"

text \<open>\<open>for (i = pos + 1; i < newPos + 1; i++) chars[i].setPenState(currPenState)\<close>, \<open>n\<close> rounds left.\<close>

fun pen_loop :: "int \<Rightarrow> nat \<Rightarrow> row \<Rightarrow> row result" where
  "pen_loop i 0 r = Inr r"
| "pen_loop i (Suc n) r =
     (case on_char i (setPenState (rw_pen r)) r of Inl e \<Rightarrow> Inl e | Inr r' \<Rightarrow> pen_loop (i + 1) n r')"

definition row_moveCursor :: "int \<Rightarrow> row \<Rightarrow> row result" where
  "row_moveCursor relPos r =
     (let newPos = rw_pos r + relPos
      in case (if relPos > 1 then pen_loop (rw_pos r + 1) (nat relPos) r else Inr r) of
           Inl e \<Rightarrow> Inl e
         | Inr r' \<Rightarrow> Inr (row_setCursor newPos r'))"

definition row_backSpace :: "row \<Rightarrow> row result" where
  "row_backSpace = andthen (row_moveCursor (- 1))
     (\<lambda>r. on_char (rw_pos r) (setChar 0x20 (rw_pen r)) r)"

definition row_insertChar :: "nat \<Rightarrow> row \<Rightarrow> row result" where
  "row_insertChar b = andthen (if b \<ge> 0x90 then row_backSpace else Inr)
     (\<lambda>r. if rw_pos r \<ge> int NR_COLS then Inr r
          else andthen (on_char (rw_pos r) (setChar (getCharForByte b) (rw_pen r))) (row_moveCursor 1) r)"

definition clearFromPos :: "int \<Rightarrow> row \<Rightarrow> row" where
  "clearFromPos startPos r =
     r\<lparr>rw_chars := take (nat startPos) (rw_chars r) @ map char_reset (drop (nat startPos) (rw_chars r))\<rparr>"

definition row_clear :: "row \<Rightarrow> row" where
  "row_clear r = (clearFromPos 0 r)\<lparr>rw_pos := 0, rw_pen := new_PenState\<rparr>"

definition row_clearToEnd :: "row \<Rightarrow> row" where
  "row_clearToEnd r = clearFromPos (rw_pos r) r"

definition getTextString :: "row \<Rightarrow> nat list" where
  "getTextString r =
     (let chars = map sc_uchar (rw_chars r)
      in if list_all (\<lambda>c. c = 0x20) chars then [] else chars)"

definition setPenStyles :: "styles \<Rightarrow> row \<Rightarrow> row result" where
  "setPenStyles st r =
     (let r = r\<lparr>rw_pen := setStyles st (rw_pen r)\<rparr> in on_char (rw_pos r) (setPenState (rw_pen r)) r)"

subsection \<open>Caption screens\<close>

record screen =
  cs_rows :: "row list"
  cs_currRow :: int
  cs_nrRollUpRows :: "int option"

definition screen_reset :: "screen \<Rightarrow> screen" where
  "screen_reset s = s\<lparr>cs_rows := map row_clear (cs_rows s), cs_currRow := int NR_ROWS - 1\<rparr>"

definition new_CaptionScreen :: screen where
  "new_CaptionScreen = screen_reset
     \<lparr>cs_rows = replicate NR_ROWS new_Row, cs_currRow = int NR_ROWS - 1, cs_nrRollUpRows = None\<rparr>"

definition screen_equals :: "screen \<Rightarrow> screen \<Rightarrow> bool" where
  "screen_equals s t \<longleftrightarrow> list_all2 row_equals (cs_rows s) (cs_rows t)"

definition screen_copy :: "screen \<Rightarrow> screen \<Rightarrow> screen" where \<comment> \<open>\<open>s.copy(other)\<close>\<close>
  "screen_copy other s = s\<lparr>cs_rows := map2 row_copy (cs_rows other) (cs_rows s)\<rparr>"

definition screen_isEmpty :: "screen \<Rightarrow> bool" where
  "screen_isEmpty s \<longleftrightarrow> list_all row_isEmpty (cs_rows s)"

text \<open>A method call on \<open>this.rows[this.currRow]\<close>.\<close>

definition on_row :: "(row \<Rightarrow> row result) \<Rightarrow> screen \<Rightarrow> screen result" where
  "on_row f s =
     (if 0 \<le> cs_currRow s \<and> cs_currRow s < int (length (cs_rows s)) then
        case f (cs_rows s ! nat (cs_currRow s)) of
          Inl e \<Rightarrow> Inl e
        | Inr r \<Rightarrow> Inr (s\<lparr>cs_rows := (cs_rows s)[nat (cs_currRow s) := r]\<rparr>)
      else Inl TypeError)"

definition backSpace :: "screen \<Rightarrow> screen result" where
  "backSpace = on_row row_backSpace"

definition clearToEndOfRow :: "screen \<Rightarrow> screen result" where
  "clearToEndOfRow = on_row (\<lambda>r. Inr (row_clearToEnd r))"

definition insertChar :: "nat \<Rightarrow> screen \<Rightarrow> screen result" where
  "insertChar c = on_row (row_insertChar c)"

definition setPen :: "styles \<Rightarrow> screen \<Rightarrow> screen result" where
  "setPen st = on_row (setPenStyles st)"

definition moveCursor :: "int \<Rightarrow> screen \<Rightarrow> screen result" where
  "moveCursor relPos = on_row (row_moveCursor relPos)"

record pac_data =
  pd_color :: "string option"
  pd_italics :: bool
  pd_indent :: "int option"
  pd_underline :: bool
  pd_row :: int

text \<open>
  \<open>if (this.nrRollUpRows && ...)\<close>: neither \<open>null\<close> nor 0. The screen's own \<open>lastOutputScreen\<close> is never
  assigned, so the copy of rows that it guards is not reached: moving the roll-up base only clears.
\<close>

definition rolling :: "screen \<Rightarrow> int option" where
  "rolling s = (case cs_nrRollUpRows s of Some n \<Rightarrow> if n = 0 then None else Some n | None \<Rightarrow> None)"

definition pac_row :: "screen \<Rightarrow> pac_data \<Rightarrow> int" where
  "pac_row s pac =
     (case rolling s of
        Some n \<Rightarrow> if pd_row pac - 1 < n - 1 then n - 1 else pd_row pac - 1
      | None \<Rightarrow> pd_row pac - 1)"

definition pac_styles :: "pac_data \<Rightarrow> styles" where
  "pac_styles pac = \<lparr>st_foreground = pd_color pac, st_underline = Some (pd_underline pac),
     st_italics = Some (pd_italics pac), st_background = Some ''black'', st_flash = Some False\<rparr>"

text \<open>The screen after the row change: cleared when the base row of a roll-up moves.\<close>

definition pac_screen :: "pac_data \<Rightarrow> screen \<Rightarrow> screen" where
  "pac_screen pac s =
     (let newRow = pac_row s pac
      in (if rolling s \<noteq> None \<and> cs_currRow s \<noteq> newRow
          then s\<lparr>cs_rows := map row_clear (cs_rows s)\<rparr> else s)\<lparr>cs_currRow := newRow\<rparr>)"

definition setPAC :: "pac_data \<Rightarrow> screen \<Rightarrow> screen result" where
  "setPAC pac s =
     (let s = pac_screen pac s; newRow = cs_currRow s
      in case pd_indent pac of
           None \<Rightarrow> setPen (pac_styles pac) s
         | Some indent \<Rightarrow>
             (if 0 \<le> newRow \<and> newRow < int (length (cs_rows s)) then
                let r = row_setCursor indent (cs_rows s ! nat newRow);
                    prevPos = nat (max (indent - 1) 0)
                in if prevPos < length (rw_chars r) then
                     let color = ps_foreground (sc_pen (rw_chars r ! prevPos))
                     in setPen (pac_styles (pac\<lparr>pd_color := Some color\<rparr>))
                          (s\<lparr>cs_rows := (cs_rows s)[nat newRow := r]\<rparr>)
                   else Inl TypeError
              else Inl TypeError))"

definition setBkgData :: "styles \<Rightarrow> screen \<Rightarrow> screen result" where
  "setBkgData bkgData = andthen backSpace (andthen (setPen bkgData) (insertChar 0x20))"

definition setRollUpRows :: "int \<Rightarrow> screen \<Rightarrow> screen" where
  "setRollUpRows nrRows s = s\<lparr>cs_nrRollUpRows := Some nrRows\<rparr>"

text \<open>The start argument of \<open>splice\<close>: a negative one counts from the end.\<close>

definition splice_start :: "int \<Rightarrow> nat \<Rightarrow> nat" where
  "splice_start i len = (if i < 0 then nat (max (int len + i) 0) else min (nat i) len)"

definition rollUp :: "screen \<Rightarrow> screen result" where
  "rollUp s =
     (case cs_nrRollUpRows s of
        None \<Rightarrow> Inr s
      | Some n \<Rightarrow>
          let rows = cs_rows s;
              topRowIndex = splice_start (cs_currRow s + 1 - n) (length rows)
          in if topRowIndex < length rows then
               let topRow = row_clear (rows ! topRowIndex);
                   rows = take topRowIndex rows @ drop (topRowIndex + 1) rows;
                   k = splice_start (cs_currRow s) (length rows)
               in Inr (s\<lparr>cs_rows := take k rows @ [topRow] @ drop k rows\<rparr>)
             else Inl TypeError)"

subsection \<open>Channels\<close>

datatype caption_mode = MODE_POP_ON | MODE_ROLL_UP | MODE_PAINT_ON | MODE_TEXT

datatype write_screen = Disp | NonDisp

text \<open>The output filter: which of its two optional callbacks it has.\<close>

record output_filter =
  of_updateData :: bool
  of_newCue :: bool

datatype cue_event =
    UpdateData rat screen
  | NewCue "rat option" rat screen \<comment> \<open>start time, end time, screen\<close>

record channel =
  ch_outputFilter :: "output_filter option"
  ch_mode :: "caption_mode option"
  ch_disp :: screen
  ch_nonDisp :: screen
  ch_lastOutput :: screen
  ch_write :: write_screen
  ch_cueStart :: "rat option"
  ch_out :: "cue_event list" \<comment> \<open>the calls of the filter, the oldest first\<close>

definition new_Cea608Channel :: "output_filter option \<Rightarrow> channel" where
  "new_Cea608Channel flt = \<lparr>ch_outputFilter = flt, ch_mode = None, ch_disp = new_CaptionScreen,
     ch_nonDisp = new_CaptionScreen, ch_lastOutput = new_CaptionScreen, ch_write = Disp,
     ch_cueStart = None, ch_out = []\<rparr>"

definition channel_reset :: "channel \<Rightarrow> channel" where
  "channel_reset c = c\<lparr>ch_mode := None, ch_disp := screen_reset (ch_disp c),
     ch_nonDisp := screen_reset (ch_nonDisp c), ch_lastOutput := screen_reset (ch_lastOutput c),
     ch_write := Disp, ch_cueStart := None\<rparr>"

text \<open>A method call on \<open>this.writeScreen\<close>.\<close>

definition on_write :: "(screen \<Rightarrow> screen result) \<Rightarrow> channel \<Rightarrow> channel result" where
  "on_write f c =
     (case ch_write c of
        Disp \<Rightarrow> (case f (ch_disp c) of Inl e \<Rightarrow> Inl e | Inr s \<Rightarrow> Inr (c\<lparr>ch_disp := s\<rparr>))
      | NonDisp \<Rightarrow> (case f (ch_nonDisp c) of Inl e \<Rightarrow> Inl e | Inr s \<Rightarrow> Inr (c\<lparr>ch_nonDisp := s\<rparr>)))"

definition no_rollup :: "screen \<Rightarrow> screen" where
  "no_rollup s = s\<lparr>cs_nrRollUpRows := None\<rparr>"

definition setMode :: "caption_mode \<Rightarrow> channel \<Rightarrow> channel" where
  "setMode newMode c =
     (if ch_mode c = Some newMode then c
      else
        let c = c\<lparr>ch_mode := Some newMode\<rparr>;
            c = (if newMode = MODE_POP_ON then c\<lparr>ch_write := NonDisp\<rparr>
                 else c\<lparr>ch_write := Disp, ch_disp := screen_reset (ch_disp c)\<rparr>)
        in if newMode \<noteq> MODE_ROLL_UP
           then c\<lparr>ch_disp := no_rollup (ch_disp c), ch_nonDisp := no_rollup (ch_nonDisp c)\<rparr>
           else c)"

definition push_event :: "bool \<Rightarrow> cue_event \<Rightarrow> channel \<Rightarrow> channel" where
  "push_event present ev c = (if present then c\<lparr>ch_out := ch_out c @ [ev]\<rparr> else c)"

definition outputDataUpdate :: "rat option \<Rightarrow> channel \<Rightarrow> channel" where
  "outputDataUpdate time c =
     (case time of
        None \<Rightarrow> c
      | Some t \<Rightarrow>
          (case ch_outputFilter c of
             None \<Rightarrow> c
           | Some flt \<Rightarrow>
               let c = push_event (of_updateData flt) (UpdateData t (ch_disp c)) c;
                   c = (if ch_cueStart c = None \<and> \<not> screen_isEmpty (ch_disp c)
                        then c\<lparr>ch_cueStart := Some t\<rparr>
                        else if \<not> screen_equals (ch_disp c) (ch_lastOutput c) then
                          let c = push_event (of_newCue flt) (NewCue (ch_cueStart c) t (ch_lastOutput c)) c
                          in c\<lparr>ch_cueStart := (if screen_isEmpty (ch_disp c) then None else Some t)\<rparr>
                        else c)
               in c\<lparr>ch_lastOutput := screen_copy (ch_disp c) (ch_lastOutput c)\<rparr>))"

fun insert_loop :: "nat list \<Rightarrow> channel \<Rightarrow> channel result" where
  "insert_loop [] c = Inr c"
| "insert_loop (b # bs) c =
     (case on_write (insertChar b) c of Inl e \<Rightarrow> Inl e | Inr c' \<Rightarrow> insert_loop bs c')"

definition insertChars :: "rat option \<Rightarrow> nat list \<Rightarrow> channel \<Rightarrow> channel result" where
  "insertChars time chars = andthen (insert_loop chars)
     (\<lambda>c. Inr (if ch_mode c = Some MODE_PAINT_ON \<or> ch_mode c = Some MODE_ROLL_UP
               then outputDataUpdate time c else c))"

definition ccRCL :: "channel \<Rightarrow> channel" where
  "ccRCL c = setMode MODE_POP_ON c"

definition ccBS :: "rat option \<Rightarrow> channel \<Rightarrow> channel result" where
  "ccBS time c =
     (if ch_mode c = Some MODE_TEXT then Inr c
      else andthen (on_write backSpace)
             (\<lambda>c. Inr (if ch_write c = Disp then outputDataUpdate time c else c)) c)"

definition ccDER :: "rat option \<Rightarrow> channel \<Rightarrow> channel result" where
  "ccDER time = andthen (on_write clearToEndOfRow) (\<lambda>c. Inr (outputDataUpdate time c))"

definition ccRU :: "int \<Rightarrow> channel \<Rightarrow> channel" where
  "ccRU nrRows c =
     (let c = setMode MODE_ROLL_UP (c\<lparr>ch_write := Disp\<rparr>)
      in case ch_write c of
           Disp \<Rightarrow> c\<lparr>ch_disp := setRollUpRows nrRows (ch_disp c)\<rparr>
         | NonDisp \<Rightarrow> c\<lparr>ch_nonDisp := setRollUpRows nrRows (ch_nonDisp c)\<rparr>)"

definition ccFON :: "channel \<Rightarrow> channel result" where
  "ccFON = on_write (setPen (no_styles\<lparr>st_flash := Some True\<rparr>))"

definition ccRDC :: "channel \<Rightarrow> channel" where
  "ccRDC c = setMode MODE_PAINT_ON c"

definition ccTR :: "channel \<Rightarrow> channel" where
  "ccTR c = setMode MODE_TEXT c"

definition ccRTD :: "channel \<Rightarrow> channel" where
  "ccRTD c = setMode MODE_TEXT c"

definition ccEDM :: "rat option \<Rightarrow> channel \<Rightarrow> channel" where
  "ccEDM time c = outputDataUpdate time (c\<lparr>ch_disp := screen_reset (ch_disp c)\<rparr>)"

definition ccCR :: "rat option \<Rightarrow> channel \<Rightarrow> channel result" where
  "ccCR time = andthen (on_write rollUp) (\<lambda>c. Inr (outputDataUpdate time c))"

definition ccENM :: "channel \<Rightarrow> channel" where
  "ccENM c = c\<lparr>ch_nonDisp := screen_reset (ch_nonDisp c)\<rparr>"

definition ccEOC :: "rat option \<Rightarrow> channel \<Rightarrow> channel" where
  "ccEOC time c =
     (let c = (if ch_mode c = Some MODE_POP_ON
               then c\<lparr>ch_disp := ch_nonDisp c, ch_nonDisp := ch_disp c, ch_write := NonDisp\<rparr>
               else c)
      in outputDataUpdate time c)"

definition ccTO :: "int \<Rightarrow> channel \<Rightarrow> channel result" where
  "ccTO nrCols = on_write (moveCursor nrCols)"

definition midrow_colors :: "string list" where
  "midrow_colors = [''white'', ''green'', ''blue'', ''cyan'', ''red'', ''yellow'', ''magenta'']"

definition midrow_styles :: "nat \<Rightarrow> styles" where
  "midrow_styles b =
     (let underline = (b mod 2 = 1); italics = (b \<ge> 0x2e);
          foreground = (if \<not> italics then midrow_colors ! (b div 2 - 0x10) else ''white'')
      in no_styles\<lparr>st_flash := Some False, st_underline := Some underline,
           st_italics := Some italics, st_foreground := Some foreground\<rparr>)"

definition ccMIDROW :: "nat \<Rightarrow> channel \<Rightarrow> channel result" where
  "ccMIDROW secondByte = on_write (setPen (midrow_styles secondByte))"

definition channel_cueSplit :: "rat \<Rightarrow> channel \<Rightarrow> channel" where
  "channel_cueSplit t c =
     (case ch_outputFilter c of
        None \<Rightarrow> c
      | Some flt \<Rightarrow>
          if \<not> screen_isEmpty (ch_disp c) then
            (push_event (of_newCue flt) (NewCue (ch_cueStart c) t (ch_disp c)) c)\<lparr>ch_cueStart := Some t\<rparr>
          else c)"

subsection \<open>The parser\<close>

datatype chan_nr = Ch1 | Ch2

record parser =
  pr_ch1 :: channel
  pr_ch2 :: channel
  pr_currCh :: "chan_nr option" \<comment> \<open>\<open>currChNr\<close>, \<open>None\<close> for its initial \<open>-1\<close>\<close>
  pr_lastCmd :: "(nat \<times> nat) option" \<comment> \<open>\<open>lastCmdA\<close>, \<open>lastCmdB\<close>, which are set together\<close>
  pr_time :: "rat option" \<comment> \<open>\<open>logger.time\<close>\<close>
  pr_padding :: nat
  pr_char :: nat
  pr_cmd :: nat
  pr_other :: nat

definition new_Cea608Parser :: "output_filter option \<Rightarrow> output_filter option \<Rightarrow> parser" where
  "new_Cea608Parser out1 out2 = \<lparr>pr_ch1 = new_Cea608Channel out1, pr_ch2 = new_Cea608Channel out2,
     pr_currCh = None, pr_lastCmd = None, pr_time = None, pr_padding = 0, pr_char = 0, pr_cmd = 0,
     pr_other = 0\<rparr>"

definition on_channel :: "chan_nr \<Rightarrow> (channel \<Rightarrow> channel result) \<Rightarrow> parser \<Rightarrow> parser result" where
  "on_channel n f p =
     (case n of
        Ch1 \<Rightarrow> (case f (pr_ch1 p) of Inl e \<Rightarrow> Inl e | Inr c \<Rightarrow> Inr (p\<lparr>pr_ch1 := c\<rparr>))
      | Ch2 \<Rightarrow> (case f (pr_ch2 p) of Inl e \<Rightarrow> Inl e | Inr c \<Rightarrow> Inr (p\<lparr>pr_ch2 := c\<rparr>)))"

text \<open>The command of the second byte, for the first bytes 0x14 and 0x1C.\<close>

definition control_code :: "rat option \<Rightarrow> nat \<Rightarrow> channel \<Rightarrow> channel result" where
  "control_code time b =
     (if b = 0x20 then Inr \<circ> ccRCL
      else if b = 0x21 then ccBS time
      else if b = 0x22 then Inr
      else if b = 0x23 then Inr
      else if b = 0x24 then ccDER time
      else if b = 0x25 then Inr \<circ> ccRU 2
      else if b = 0x26 then Inr \<circ> ccRU 3
      else if b = 0x27 then Inr \<circ> ccRU 4
      else if b = 0x28 then ccFON
      else if b = 0x29 then Inr \<circ> ccRDC
      else if b = 0x2A then Inr \<circ> ccTR
      else if b = 0x2B then Inr \<circ> ccRTD
      else if b = 0x2C then Inr \<circ> ccEDM time
      else if b = 0x2D then ccCR time
      else if b = 0x2E then Inr \<circ> ccENM
      else if b = 0x2F then Inr \<circ> ccEOC time
      else Inr)"

text \<open>Each parser of a byte pair says whether it found its code.\<close>

definition parseCmd :: "nat \<Rightarrow> nat \<Rightarrow> parser \<Rightarrow> (bool \<times> parser) result" where
  "parseCmd a b p =
     (let cond1 = ((a = 0x14 \<or> a = 0x1C) \<and> 0x20 \<le> b \<and> b \<le> 0x2F);
          cond2 = ((a = 0x17 \<or> a = 0x1F) \<and> 0x21 \<le> b \<and> b \<le> 0x23)
      in if \<not> (cond1 \<or> cond2) then Inr (False, p)
         else if pr_lastCmd p = Some (a, b) then Inr (True, p\<lparr>pr_lastCmd := None\<rparr>)
         else
           let chNr = (if a = 0x14 \<or> a = 0x17 then Ch1 else Ch2)
           in case on_channel chNr
                     (if a = 0x14 \<or> a = 0x1C then control_code (pr_time p) b
                      else ccTO (int b - 0x20)) p of
                Inl e \<Rightarrow> Inl e
              | Inr p \<Rightarrow> Inr (True, p\<lparr>pr_lastCmd := Some (a, b), pr_currCh := Some chNr\<rparr>))"

definition parseMidrow :: "nat \<Rightarrow> nat \<Rightarrow> parser \<Rightarrow> (bool \<times> parser) result" where
  "parseMidrow a b p =
     (if (a = 0x11 \<or> a = 0x19) \<and> 0x20 \<le> b \<and> b \<le> 0x2f then
        let chNr = (if a = 0x11 then Ch1 else Ch2)
        in if pr_currCh p \<noteq> Some chNr then Inr (False, p)
           else (case on_channel chNr (ccMIDROW b) p of Inl e \<Rightarrow> Inl e | Inr p \<Rightarrow> Inr (True, p))
      else Inr (False, p))"

definition pac_colors :: "string list" where
  "pac_colors = [''white'', ''green'', ''blue'', ''cyan'', ''red'', ''yellow'', ''magenta'', ''white'']"

definition interpretPAC :: "int \<Rightarrow> nat \<Rightarrow> pac_data" where
  "interpretPAC row b =
     (let pacIndex = (if b > 0x5F then b - 0x60 else b - 0x40);
          pac = \<lparr>pd_color = None, pd_italics = False, pd_indent = None,
                 pd_underline = (pacIndex mod 2 = 1), pd_row = row\<rparr>
      in if pacIndex \<le> 0xd then pac\<lparr>pd_color := Some (pac_colors ! (pacIndex div 2))\<rparr>
         else if pacIndex \<le> 0xf then pac\<lparr>pd_italics := True, pd_color := Some ''white''\<rparr>
         else pac\<lparr>pd_indent := Some (int ((pacIndex - 0x10) div 2) * 4)\<rparr>)"

text \<open>
  The row tables have an entry for every pair that passes the tests; a missing one would be
  \<open>undefined\<close>, a row that is not a number, and the lookup of that row throws.
\<close>

definition parsePAC :: "nat \<Rightarrow> nat \<Rightarrow> parser \<Rightarrow> (bool \<times> parser) result" where
  "parsePAC a b p =
     (let case1 = ((0x11 \<le> a \<and> a \<le> 0x17 \<or> 0x19 \<le> a \<and> a \<le> 0x1F) \<and> 0x40 \<le> b \<and> b \<le> 0x7F);
          case2 = ((a = 0x10 \<or> a = 0x18) \<and> 0x40 \<le> b \<and> b \<le> 0x5F)
      in if \<not> (case1 \<or> case2) then Inr (False, p)
         else if pr_lastCmd p = Some (a, b) then Inr (True, p\<lparr>pr_lastCmd := None\<rparr>)
         else
           let chNr = (if a \<le> 0x17 then Ch1 else Ch2);
               row = (if 0x40 \<le> b \<and> b \<le> 0x5F
                      then (if chNr = Ch1 then rowsLowCh1 a else rowsLowCh2 a)
                      else (if chNr = Ch1 then rowsHighCh1 a else rowsHighCh2 a))
           in case row of
                None \<Rightarrow> Inl TypeError
              | Some row \<Rightarrow>
                  (case on_channel chNr (on_write (setPAC (interpretPAC (int row) b))) p of
                     Inl e \<Rightarrow> Inl e
                   | Inr p \<Rightarrow> Inr (True, p\<lparr>pr_lastCmd := Some (a, b), pr_currCh := Some chNr\<rparr>)))"

definition char_codes :: "nat \<Rightarrow> nat \<Rightarrow> nat list option" where
  "char_codes a b =
     (let charCode1 = (if a \<ge> 0x19 then a - 8 else a)
      in if 0x11 \<le> charCode1 \<and> charCode1 \<le> 0x13 then
           Some [if charCode1 = 0x11 then b + 0x50 else if charCode1 = 0x12 then b + 0x70 else b + 0x90]
         else if 0x20 \<le> a \<and> a \<le> 0x7f then Some (if b = 0 then [a] else [a, b])
         else None)"

definition parseChars :: "nat \<Rightarrow> nat \<Rightarrow> parser \<Rightarrow> nat list option \<times> parser" where
  "parseChars a b p =
     (case char_codes a b of
        None \<Rightarrow> (None, p)
      | Some cs \<Rightarrow> (Some cs, p\<lparr>pr_lastCmd := None\<rparr>))"

definition bkg_styles :: "nat \<Rightarrow> nat \<Rightarrow> styles" where
  "bkg_styles a b =
     (if a = 0x10 \<or> a = 0x18 then
        let index = (b - 0x20) div 2;
            background = backgroundColors ! index
        in no_styles\<lparr>st_background := Some (if b mod 2 = 1 then background @ ''_semi'' else background)\<rparr>
      else if b = 0x2d then no_styles\<lparr>st_background := Some ''transparent''\<rparr>
      else (if b = 0x2f then no_styles\<lparr>st_foreground := Some ''black'', st_underline := Some True\<rparr>
            else no_styles\<lparr>st_foreground := Some ''black''\<rparr>))"

definition parseBackgroundAttributes :: "nat \<Rightarrow> nat \<Rightarrow> parser \<Rightarrow> (bool \<times> parser) result" where
  "parseBackgroundAttributes a b p =
     (let case1 = ((a = 0x10 \<or> a = 0x18) \<and> 0x20 \<le> b \<and> b \<le> 0x2f);
          case2 = ((a = 0x17 \<or> a = 0x1f) \<and> 0x2d \<le> b \<and> b \<le> 0x2f)
      in if \<not> (case1 \<or> case2) then Inr (False, p)
         else
           let chNr = (if a < 0x18 then Ch1 else Ch2)
           in case on_channel chNr (on_write (setBkgData (bkg_styles a b))) p of
                Inl e \<Rightarrow> Inl e
              | Inr p \<Rightarrow> Inr (True, p\<lparr>pr_lastCmd := None\<rparr>))"

text \<open>Try a parser of the pair only when none before it has found its code.\<close>

definition or_parse :: "(bool \<times> parser) result \<Rightarrow> (parser \<Rightarrow> (bool \<times> parser) result) \<Rightarrow> (bool \<times> parser) result" where
  "or_parse x f = (case x of Inr (False, p) \<Rightarrow> f p | _ \<Rightarrow> x)"

definition addPair :: "nat \<Rightarrow> nat \<Rightarrow> parser \<Rightarrow> parser result" where
  "addPair a b p =
     (if a = 0 \<and> b = 0 then Inr (p\<lparr>pr_padding := pr_padding p + 2\<rparr>)
      else
        case or_parse (or_parse (or_parse (parseCmd a b p) (parseMidrow a b)) (parsePAC a b))
               (parseBackgroundAttributes a b) of
          Inl e \<Rightarrow> Inl e
        | Inr (True, p) \<Rightarrow> Inr (p\<lparr>pr_cmd := pr_cmd p + 2\<rparr>)
        | Inr (False, p) \<Rightarrow>
            (case parseChars a b p of
               (None, p) \<Rightarrow> Inr (p\<lparr>pr_other := pr_other p + 2\<rparr>)
             | (Some cs, p) \<Rightarrow>
                 (case (case pr_currCh p of
                          Some n \<Rightarrow> on_channel n (insertChars (pr_time p) cs) p
                        | None \<Rightarrow> Inr p) of
                    Inl e \<Rightarrow> Inl e
                  | Inr p \<Rightarrow> Inr (p\<lparr>pr_char := pr_char p + 2\<rparr>))))"

text \<open>The loop over the byte list; the second byte of an odd last pair is \<open>undefined & 0x7f\<close>, 0.\<close>

fun addPairs :: "nat list \<Rightarrow> parser \<Rightarrow> parser result" where
  "addPairs [] p = Inr p"
| "addPairs [x] p = addPair (x mod 128) 0 p"
| "addPairs (x # y # bs) p =
     (case addPair (x mod 128) (y mod 128) p of Inl e \<Rightarrow> Inl e | Inr p' \<Rightarrow> addPairs bs p')"

definition addData :: "rat \<Rightarrow> nat list \<Rightarrow> parser \<Rightarrow> parser result" where
  "addData t byteList p = addPairs byteList (p\<lparr>pr_time := Some t\<rparr>)"

definition parser_reset :: "parser \<Rightarrow> parser" where
  "parser_reset p = p\<lparr>pr_ch1 := channel_reset (pr_ch1 p), pr_ch2 := channel_reset (pr_ch2 p),
     pr_lastCmd := None\<rparr>"

definition parser_setHandler :: "chan_nr \<Rightarrow> output_filter option \<Rightarrow> parser \<Rightarrow> parser" where
  "parser_setHandler n newHandler p =
     (case n of
        Ch1 \<Rightarrow> p\<lparr>pr_ch1 := (pr_ch1 p)\<lparr>ch_outputFilter := newHandler\<rparr>\<rparr>
      | Ch2 \<Rightarrow> p\<lparr>pr_ch2 := (pr_ch2 p)\<lparr>ch_outputFilter := newHandler\<rparr>\<rparr>)"

definition parser_cueSplit :: "rat \<Rightarrow> parser \<Rightarrow> parser" where
  "parser_cueSplit t p = p\<lparr>pr_ch1 := channel_cueSplit t (pr_ch1 p),
     pr_ch2 := channel_cueSplit t (pr_ch2 p)\<rparr>"

end
