(* ===== verification/Cea608_Ops.thy ===== *)
theory Cea608_Ops
  imports Cea608
begin

text \<open>
  The contracts of the caption decoder. Row, screen, channel and parser operations each have an
  interface (\<open>row_op\<close>, \<open>screen_op\<close>, \<open>channel_op\<close>, \<open>parser_op\<close>) that promises the structure of the
  state, the sense of the emitted cues and the absence of exceptions below a cursor bound; an
  operation lifted to the next level keeps the next contract, so that the laws are discharged once
  for the code's own row operations and carried to \<open>addData\<close>.
\<close>

lemma andthen_Inr: "andthen f g x = Inr z \<longleftrightarrow> (\<exists>y. f x = Inr y \<and> g y = Inr z)"
  by (auto simp: andthen_def split: sum.splits)

lemma andthen_simps [simp]: "f x = Inr y \<Longrightarrow> andthen f g x = g y" "f x = Inl e \<Longrightarrow> andthen f g x = Inl e"
  by (simp_all add: andthen_def)

subsection \<open>Rows\<close>

definition row_ok :: "row \<Rightarrow> bool" where
  "row_ok r \<longleftrightarrow> length (rw_chars r) = NR_COLS \<and> 0 \<le> rw_pos r \<and> rw_pos r \<le> int NR_COLS"

text \<open>
  The contract of a row operation: it keeps the row well formed, and on a row whose cursor is at
  most \<open>B\<close>, with \<open>B + k\<close> still a column, it does not throw and moves the cursor by at most \<open>k\<close>.
\<close>

locale row_op =
  fixes f :: "row \<Rightarrow> row result" and k :: int
  assumes row_nonneg: "0 \<le> k"
    and row_keeps: "row_ok r \<Longrightarrow> f r = Inr r' \<Longrightarrow> row_ok r'"
    and row_total: "row_ok r \<Longrightarrow> rw_pos r \<le> B \<Longrightarrow> B + k < int NR_COLS
      \<Longrightarrow> \<exists>r'. f r = Inr r' \<and> rw_pos r' \<le> B + k"

lemma on_char_Inr: "on_char i g r = Inr r' \<longleftrightarrow>
    0 \<le> i \<and> i < int (length (rw_chars r)) \<and> r' = r\<lparr>rw_chars := (rw_chars r)[nat i := g (rw_chars r ! nat i)]\<rparr>"
  by (auto simp: on_char_def)

lemma setCursor_ok: "row_ok r \<Longrightarrow> row_ok (row_setCursor i r)"
  by (auto simp: row_setCursor_def row_ok_def)

lemma setCursor_fields [simp]: "rw_chars (row_setCursor i r) = rw_chars r"
  "rw_pen (row_setCursor i r) = rw_pen r"
  by (simp_all add: row_setCursor_def)

lemma setCursor_pos: "0 \<le> i \<Longrightarrow> i \<le> int NR_COLS \<Longrightarrow> rw_pos (row_setCursor i r) = i"
  by (simp add: row_setCursor_def)

lemma setCursor_le: "i \<le> B \<Longrightarrow> 0 \<le> B \<Longrightarrow> rw_pos (row_setCursor i r) \<le> B"
  by (simp add: row_setCursor_def)

lemma pen_loop_keeps:
  "pen_loop i n r = Inr r' \<Longrightarrow> length (rw_chars r') = length (rw_chars r) \<and> rw_pos r' = rw_pos r
     \<and> rw_pen r' = rw_pen r"
  by (induction i n r rule: pen_loop.induct) (auto simp: on_char_Inr split: sum.splits)

lemma pen_loop_total:
  "0 \<le> i \<Longrightarrow> i + int n \<le> int (length (rw_chars r)) \<Longrightarrow> \<exists>r'. pen_loop i n r = Inr r'"
proof (induction n arbitrary: i r)
  case (Suc n)
  let ?r = "r\<lparr>rw_chars := (rw_chars r)[nat i := setPenState (rw_pen r) (rw_chars r ! nat i)]\<rparr>"
  have "on_char i (setPenState (rw_pen r)) r = Inr ?r" using Suc.prems by (simp add: on_char_Inr)
  moreover have "\<exists>r'. pen_loop (i + 1) n ?r = Inr r'" using Suc.prems by (intro Suc.IH) simp_all
  ultimately show ?case by simp
qed simp

lemma moveCursor_keeps: "row_ok r \<Longrightarrow> row_moveCursor n r = Inr r' \<Longrightarrow> row_ok r'"
  by (auto simp: row_moveCursor_def Let_def row_ok_def setCursor_ok row_setCursor_def
      split: if_splits sum.splits dest!: pen_loop_keeps)

lemma moveCursor_total:
  assumes "row_ok r" and "rw_pos r + n < int NR_COLS"
  shows "\<exists>r'. row_moveCursor n r = Inr r' \<and> rw_pos r' = max 0 (rw_pos r + n)"
proof -
  obtain r' where "(if n > 1 then pen_loop (rw_pos r + 1) (nat n) r else Inr r) = Inr r'"
  proof (cases "n > 1")
    case True
    then have "\<exists>r'. pen_loop (rw_pos r + 1) (nat n) r = Inr r'"
      using assms by (intro pen_loop_total) (auto simp: row_ok_def)
    then show ?thesis using that True by auto
  qed (use that in auto)
  then show ?thesis using assms by (auto simp: row_moveCursor_def Let_def row_setCursor_def max_def)
qed

interpretation move: row_op "row_moveCursor n" "max n 0" for n
proof
  fix r B
  assume r: "row_ok r" "rw_pos r \<le> B" "B + max n 0 < int NR_COLS"
  then have "rw_pos r + n < int NR_COLS" by linarith
  with moveCursor_total [OF r(1) this] r show "\<exists>r'. row_moveCursor n r = Inr r' \<and> rw_pos r' \<le> B + max n 0"
    by (auto simp: row_ok_def)
qed (auto intro: moveCursor_keeps)

lemma on_char_keeps: "row_ok r \<Longrightarrow> on_char i g r = Inr r' \<Longrightarrow> row_ok r' \<and> rw_pos r' = rw_pos r"
  by (auto simp: on_char_Inr row_ok_def)

lemma on_char_total: "row_ok r \<Longrightarrow> 0 \<le> i \<Longrightarrow> i < int NR_COLS \<Longrightarrow> \<exists>r'. on_char i g r = Inr r'"
  by (simp add: on_char_Inr row_ok_def)

lemma row_backSpace_any:
  assumes "row_ok r"
  shows "\<exists>r'. row_backSpace r = Inr r' \<and> row_ok r' \<and> rw_pos r' = max 0 (rw_pos r - 1)"
proof -
  obtain r1 where r1: "row_moveCursor (- 1) r = Inr r1" "rw_pos r1 = max 0 (rw_pos r - 1)"
    using moveCursor_total [OF assms, of "- 1"] assms by (auto simp: row_ok_def)
  have ok: "row_ok r1" using moveCursor_keeps [OF assms r1(1)] .
  have "0 \<le> rw_pos r1" "rw_pos r1 < int NR_COLS"
    using assms unfolding r1(2) by (auto simp: row_ok_def NR_COLS_def)
  then obtain r2 where r2: "on_char (rw_pos r1) (setChar 0x20 (rw_pen r1)) r1 = Inr r2"
    using on_char_total [OF ok] by blast
  then show ?thesis using r1 on_char_keeps [OF ok r2] by (simp add: row_backSpace_def)
qed

interpretation row_back: row_op row_backSpace 0
proof
  fix r r' assume "row_ok r" "row_backSpace r = Inr r'"
  then show "row_ok r'" using row_backSpace_any by fastforce
next
  fix r B
  assume "row_ok r" "rw_pos r \<le> B" "B + 0 < int NR_COLS"
  then show "\<exists>r'. row_backSpace r = Inr r' \<and> rw_pos r' \<le> B + 0"
    using row_backSpace_any [of r] by (auto simp: row_ok_def)
qed simp

lemma insertChar_keeps:
  assumes "row_ok r" "row_insertChar b r = Inr r'"
  shows "row_ok r'"
proof -
  obtain r1 where r1: "(if b \<ge> 0x90 then row_backSpace else Inr) r = Inr r1"
    "(if rw_pos r1 \<ge> int NR_COLS then Inr r1
      else andthen (on_char (rw_pos r1) (setChar (getCharForByte b) (rw_pen r1))) (row_moveCursor 1) r1) = Inr r'"
    using assms(2) unfolding row_insertChar_def andthen_Inr by blast
  have "row_ok r1" using r1(1) assms(1) row_back.row_keeps by (auto split: if_splits)
  then show ?thesis
    using r1(2) by (auto simp: andthen_Inr split: if_splits dest: on_char_keeps moveCursor_keeps)
qed

text \<open>Inserting never throws: past the last column the character is dropped.\<close>

lemma insertChar_any:
  assumes "row_ok r"
  shows "\<exists>r'. row_insertChar b r = Inr r' \<and> rw_pos r' \<le> rw_pos r + 1"
proof -
  have "\<exists>r1. (if b \<ge> 0x90 then row_backSpace else Inr) r = Inr r1 \<and> row_ok r1 \<and> rw_pos r1 \<le> rw_pos r"
  proof (cases "b \<ge> 0x90")
    case True
    obtain r1 where "row_backSpace r = Inr r1" "row_ok r1" "rw_pos r1 = max 0 (rw_pos r - 1)"
      using row_backSpace_any [OF assms] by blast
    then show ?thesis using True assms by (auto simp: row_ok_def)
  qed (use assms in simp)
  then obtain r1 where r1: "(if b \<ge> 0x90 then row_backSpace else Inr) r = Inr r1" "row_ok r1"
    "rw_pos r1 \<le> rw_pos r" by blast
  show ?thesis
  proof (cases "rw_pos r1 \<ge> int NR_COLS")
    case True
    then show ?thesis using r1 by (simp add: row_insertChar_def)
  next
    case False
    obtain r2 where r2: "on_char (rw_pos r1) (setChar (getCharForByte b) (rw_pen r1)) r1 = Inr r2"
    proof -
      have "0 \<le> rw_pos r1" "rw_pos r1 < int NR_COLS" using False r1(2) by (auto simp: row_ok_def)
      from on_char_total [OF r1(2) this] that show ?thesis by blast
    qed
    have r2': "row_ok r2" "rw_pos r2 = rw_pos r1" using on_char_keeps [OF r1(2) r2] by auto
    have m: "row_moveCursor 1 r2 = Inr (row_setCursor (rw_pos r1 + 1) r2)"
      by (simp add: row_moveCursor_def r2'(2))
    have "0 \<le> rw_pos r1 + 1" "rw_pos r1 + 1 \<le> int NR_COLS" using False r1(2) by (auto simp: row_ok_def)
    then have "rw_pos (row_setCursor (rw_pos r1 + 1) r2) = rw_pos r1 + 1" by (rule setCursor_pos)
    then show ?thesis
      using r1(1,3) r2 m False by (simp add: row_insertChar_def)
  qed
qed

interpretation row_insert: row_op "row_insertChar b" 1 for b
proof
  fix r B
  assume r: "row_ok r" "rw_pos r \<le> B" "B + 1 < int NR_COLS"
  from insertChar_any [OF r(1), of b] r(2) show "\<exists>r'. row_insertChar b r = Inr r' \<and> rw_pos r' \<le> B + 1"
    by force
qed (auto intro: insertChar_keeps)

lemma length_clearFromPos [simp]: "length (rw_chars (clearFromPos n r)) = length (rw_chars r)"
  by (simp add: clearFromPos_def)

lemma clearFromPos_pos [simp]: "rw_pos (clearFromPos n r) = rw_pos r"
  by (simp add: clearFromPos_def)

interpretation row_clear_end: row_op "\<lambda>r. Inr (row_clearToEnd r)" 0
  by unfold_locales (auto simp: row_clearToEnd_def row_ok_def)

interpretation row_style: row_op "setPenStyles st" 0 for st
proof
  fix r r' assume "row_ok r" "setPenStyles st r = Inr r'"
  then show "row_ok r'" by (auto simp: setPenStyles_def Let_def on_char_Inr row_ok_def)
next
  fix r B
  assume "row_ok r" "rw_pos r \<le> B" "B + 0 < int NR_COLS"
  then show "\<exists>r'. setPenStyles st r = Inr r' \<and> rw_pos r' \<le> B + 0"
    by (auto simp: setPenStyles_def Let_def on_char_def row_ok_def)
qed simp

lemma row_clear_ok: "row_ok r \<Longrightarrow> row_ok (row_clear r)"
  by (simp add: row_clear_def row_ok_def)

lemma row_clear_pos [simp]: "rw_pos (row_clear r) = 0"
  by (simp add: row_clear_def)

subsection \<open>Screens\<close>

definition rollup_ok :: "int option \<Rightarrow> bool" where
  "rollup_ok n \<longleftrightarrow> n \<in> {None, Some 2, Some 3, Some 4}"

definition screen_ok :: "screen \<Rightarrow> bool" where
  "screen_ok s \<longleftrightarrow> length (cs_rows s) = NR_ROWS \<and> (\<forall>r \<in> set (cs_rows s). row_ok r)
     \<and> 0 \<le> cs_currRow s \<and> cs_currRow s < int NR_ROWS \<and> rollup_ok (cs_nrRollUpRows s)"

definition cursors_le :: "screen \<Rightarrow> int \<Rightarrow> bool" where
  "cursors_le s B \<longleftrightarrow> (\<forall>r \<in> set (cs_rows s). rw_pos r \<le> B)"

text \<open>The contract of a screen operation: the same, for the cursors of all its rows.\<close>

locale screen_op =
  fixes f :: "screen \<Rightarrow> screen result" and k :: int
  assumes screen_nonneg: "0 \<le> k"
    and screen_keeps: "screen_ok s \<Longrightarrow> f s = Inr s' \<Longrightarrow> screen_ok s' \<and> cs_nrRollUpRows s' = cs_nrRollUpRows s"
    and screen_total: "screen_ok s \<Longrightarrow> cursors_le s B \<Longrightarrow> 28 \<le> B \<Longrightarrow> B + k < int NR_COLS
      \<Longrightarrow> \<exists>s'. f s = Inr s' \<and> cursors_le s' (B + k)"

lemma set_update_mono:
  assumes "\<forall>x \<in> set xs. P x" and "Q y" and "\<And>x. P x \<Longrightarrow> Q x"
  shows "\<forall>x \<in> set (xs[i := y]). Q x"
  using assms set_update_subset_insert [of xs i y] by blast

lemma curr_row_ok: "screen_ok s \<Longrightarrow> row_ok (cs_rows s ! nat (cs_currRow s))"
  by (auto simp: screen_ok_def)

lemma curr_row_le: "screen_ok s \<Longrightarrow> cursors_le s B \<Longrightarrow> rw_pos (cs_rows s ! nat (cs_currRow s)) \<le> B"
  by (auto simp: screen_ok_def cursors_le_def)

lemma cursors_le_mono: "cursors_le s B \<Longrightarrow> B \<le> C \<Longrightarrow> cursors_le s C"
  by (auto simp: cursors_le_def)

lemma update_row_ok:
  "screen_ok s \<Longrightarrow> row_ok r \<Longrightarrow> screen_ok (s\<lparr>cs_rows := (cs_rows s)[i := r]\<rparr>)"
  using set_update_mono [of "cs_rows s" row_ok row_ok r] by (simp add: screen_ok_def)

lemma update_row_le:
  "cursors_le s B \<Longrightarrow> rw_pos r \<le> C \<Longrightarrow> B \<le> C \<Longrightarrow> cursors_le (s\<lparr>cs_rows := (cs_rows s)[i := r]\<rparr>) C"
  using set_update_mono [of "cs_rows s" "\<lambda>r. rw_pos r \<le> B" "\<lambda>r. rw_pos r \<le> C" r] by (simp add: cursors_le_def)

lemma on_row_eq:
  "screen_ok s \<Longrightarrow> on_row f s = (case f (cs_rows s ! nat (cs_currRow s)) of
     Inl e \<Rightarrow> Inl e | Inr r \<Rightarrow> Inr (s\<lparr>cs_rows := (cs_rows s)[nat (cs_currRow s) := r]\<rparr>))"
  by (simp add: on_row_def screen_ok_def)

context row_op
begin

lemma on_row_keeps:
  assumes "screen_ok s" and "on_row f s = Inr s'"
  shows "screen_ok s' \<and> cs_nrRollUpRows s' = cs_nrRollUpRows s"
  using assms row_keeps [OF curr_row_ok [OF assms(1)]]
  by (auto simp: on_row_eq update_row_ok split: sum.splits)

lemma on_row_total:
  assumes "screen_ok s" and "cursors_le s B" and "B + k < int NR_COLS"
  shows "\<exists>s'. on_row f s = Inr s' \<and> cursors_le s' (B + k)"
proof -
  obtain r where "f (cs_rows s ! nat (cs_currRow s)) = Inr r" "rw_pos r \<le> B + k"
    using row_total [OF curr_row_ok [OF assms(1)] curr_row_le [OF assms(1,2)] assms(3)] by blast
  then show ?thesis
    using assms(1,2) row_nonneg by (auto simp: on_row_eq intro!: update_row_le)
qed

end

sublocale row_op \<subseteq> screen_op "on_row f" k
  by unfold_locales (rule row_nonneg, (rule on_row_keeps; assumption), (rule on_row_total; assumption))

interpretation bksp: screen_op backSpace 0
  unfolding backSpace_def by unfold_locales

interpretation clear_end: screen_op clearToEndOfRow 0
  unfolding clearToEndOfRow_def by unfold_locales

interpretation insert: screen_op "insertChar c" 1 for c
  unfolding insertChar_def by unfold_locales

interpretation pen: screen_op "setPen st" 0 for st
  unfolding setPen_def by unfold_locales

interpretation tab: screen_op "moveCursor n" "max n 0" for n
  unfolding moveCursor_def by unfold_locales

text \<open>Two operations in a row.\<close>

lemma screen_op_andthen:
  assumes "screen_op f k" and "screen_op g l"
  shows "screen_op (andthen f g) (k + l)"
proof
  show "0 \<le> k + l" using assms by (simp add: screen_op_def)
next
  fix s s'
  assume s: "screen_ok s" "andthen f g s = Inr s'"
  then obtain t where "f s = Inr t" "g t = Inr s'" by (auto simp: andthen_Inr)
  with s(1) show "screen_ok s' \<and> cs_nrRollUpRows s' = cs_nrRollUpRows s"
    using screen_op.screen_keeps [OF assms(1)] screen_op.screen_keeps [OF assms(2)] by metis
next
  fix s B
  assume s: "screen_ok s" "cursors_le s B" "28 \<le> B" "B + (k + l) < int NR_COLS"
  have nn: "0 \<le> k" "0 \<le> l" using assms by (simp_all add: screen_op_def)
  obtain t where t: "f s = Inr t" "cursors_le t (B + k)"
    using screen_op.screen_total [OF assms(1) s(1,2,3)] s(4) nn by auto
  have "screen_ok t" using screen_op.screen_keeps [OF assms(1) s(1) t(1)] by simp
  from screen_op.screen_total [OF assms(2) this t(2)] s(3,4) nn obtain s' where
    "g t = Inr s'" "cursors_le s' (B + k + l)" by auto
  then show "\<exists>s'. andthen f g s = Inr s' \<and> cursors_le s' (B + (k + l))"
    using t(1) by (auto simp: add.assoc)
qed

interpretation bkg: screen_op "setBkgData st" 1 for st
  unfolding setBkgData_def
  using screen_op_andthen [OF bksp.screen_op_axioms
      screen_op_andthen [OF pen.screen_op_axioms insert.screen_op_axioms]] by simp

definition pac_ok :: "pac_data \<Rightarrow> bool" where
  "pac_ok pac \<longleftrightarrow> 1 \<le> pd_row pac \<and> pd_row pac \<le> int NR_ROWS
     \<and> (\<forall>i. pd_indent pac = Some i \<longrightarrow> 0 \<le> i \<and> i \<le> 28)"

lemma pac_row_bounds:
  assumes "screen_ok s" and "pac_ok pac"
  shows "0 \<le> pac_row s pac \<and> pac_row s pac < int NR_ROWS"
  using assms by (auto simp: pac_row_def rolling_def pac_ok_def screen_ok_def rollup_ok_def NR_ROWS_def
      split: option.splits)

lemma pac_screen_row [simp]: "cs_currRow (pac_screen pac s) = pac_row s pac"
  by (simp add: pac_screen_def Let_def)

lemma pac_screen_ok: "screen_ok s \<Longrightarrow> pac_ok pac \<Longrightarrow> screen_ok (pac_screen pac s)"
  using pac_row_bounds [of s pac] by (auto simp: pac_screen_def Let_def screen_ok_def row_clear_ok)

lemma pac_screen_le: "cursors_le s B \<Longrightarrow> 0 \<le> B \<Longrightarrow> cursors_le (pac_screen pac s) B"
  by (auto simp: pac_screen_def Let_def cursors_le_def)

lemma pac_screen_nr [simp]: "cs_nrRollUpRows (pac_screen pac s) = cs_nrRollUpRows s"
  by (simp add: pac_screen_def Let_def)

text \<open>\<open>setPAC\<close> on a well-formed screen: move the cursor of the row, then set the pen.\<close>

lemma setPAC_eq:
  assumes "screen_ok s" and "pac_ok pac"
  shows "setPAC pac s =
    (let s1 = pac_screen pac s; r = cs_rows s1 ! nat (pac_row s pac)
     in case pd_indent pac of
          None \<Rightarrow> setPen (pac_styles pac) s1
        | Some i \<Rightarrow> setPen (pac_styles (pac\<lparr>pd_color := Some (ps_foreground (sc_pen (rw_chars r ! nat (max (i - 1) 0))))\<rparr>))
            (s1\<lparr>cs_rows := (cs_rows s1)[nat (pac_row s pac) := row_setCursor i r]\<rparr>))"
proof (cases "pd_indent pac")
  case None
  then show ?thesis by (simp add: setPAC_def Let_def)
next
  case (Some i)
  let ?s = "pac_screen pac s"
  let ?r = "cs_rows ?s ! nat (pac_row s pac)"
  have b: "0 \<le> pac_row s pac" "pac_row s pac < int (length (cs_rows ?s))" "0 \<le> i" "i \<le> 28"
    using pac_row_bounds [OF assms] pac_screen_ok [OF assms] assms(2) Some
    by (auto simp: screen_ok_def pac_ok_def)
  have "row_ok ?r" using curr_row_ok [OF pac_screen_ok [OF assms]] by simp
  then have "nat (max (i - 1) 0) < length (rw_chars ?r)" using b by (auto simp: row_ok_def NR_COLS_def)
  then show ?thesis using Some b by (simp add: setPAC_def Let_def)
qed

lemma setPAC_op: "pac_ok pac \<Longrightarrow> screen_op (setPAC pac) 0"
proof
  fix s s'
  assume s: "pac_ok pac" "screen_ok s" "setPAC pac s = Inr s'"
  let ?s = "pac_screen pac s"
  have ok: "screen_ok ?s" "row_ok (cs_rows ?s ! nat (pac_row s pac))"
    using pac_screen_ok [OF s(2,1)] curr_row_ok [OF pac_screen_ok [OF s(2,1)]] by simp_all
  show "screen_ok s' \<and> cs_nrRollUpRows s' = cs_nrRollUpRows s"
    using s(3) ok unfolding setPAC_eq [OF s(2,1)] Let_def
    by (auto split: option.splits dest!: pen.screen_keeps [rotated] intro: update_row_ok setCursor_ok)
next
  fix s B
  assume s: "pac_ok pac" "screen_ok s" "cursors_le s B" "28 \<le> B" "B + 0 < int NR_COLS"
  let ?s = "pac_screen pac s"
  let ?r = "cs_rows ?s ! nat (pac_row s pac)"
  have ok: "screen_ok ?s" "row_ok ?r" "cursors_le ?s B"
    using pac_screen_ok [OF s(2,1)] curr_row_ok [OF pac_screen_ok [OF s(2,1)]] pac_screen_le [OF s(3)] s(4)
    by simp_all
  show "\<exists>s'. setPAC pac s = Inr s' \<and> cursors_le s' (B + 0)"
  proof (cases "pd_indent pac")
    case None
    then show ?thesis
      unfolding setPAC_eq [OF s(2,1)] Let_def using pen.screen_total [OF ok(1,3) s(4,5)] by simp
  next
    case (Some i)
    let ?t = "?s\<lparr>cs_rows := (cs_rows ?s)[nat (pac_row s pac) := row_setCursor i ?r]\<rparr>"
    have "screen_ok ?t" using update_row_ok [OF ok(1) setCursor_ok [OF ok(2)]] .
    moreover have "cursors_le ?t B"
      using s(1,4) Some by (intro update_row_le [OF ok(3)] setCursor_le) (auto simp: pac_ok_def)
    ultimately show ?thesis
      unfolding setPAC_eq [OF s(2,1)] Let_def Some option.case using pen.screen_total [OF _ _ s(4,5)] by blast
  qed
qed simp

lemma screen_reset_ok: "screen_ok s \<Longrightarrow> screen_ok (screen_reset s)"
  by (auto simp: screen_reset_def screen_ok_def row_clear_ok NR_ROWS_def)

lemma screen_reset_le: "0 \<le> B \<Longrightarrow> cursors_le (screen_reset s) B"
  by (auto simp: screen_reset_def cursors_le_def)

lemma screen_reset_nr [simp]: "cs_nrRollUpRows (screen_reset s) = cs_nrRollUpRows s"
  by (simp add: screen_reset_def)

subsection \<open>Roll-up\<close>

lemma splice_bounds:
  "0 < len \<Longrightarrow> - int len \<le> i \<Longrightarrow> i < int len \<Longrightarrow> splice_start i len < len"
  by (auto simp: splice_start_def)

definition splice_move :: "nat \<Rightarrow> nat \<Rightarrow> row list \<Rightarrow> row list" where
  "splice_move i k rows =
     (let rest = take i rows @ drop (i + 1) rows in take k rest @ [row_clear (rows ! i)] @ drop k rest)"

lemma set_splice_move:
  "i < length rows \<Longrightarrow> set (splice_move i k rows) \<subseteq> insert (row_clear (rows ! i)) (set rows)"
  by (auto simp: splice_move_def Let_def dest: in_set_takeD in_set_dropD)

lemma length_splice_move [simp]: "i < length rows \<Longrightarrow> length (splice_move i k rows) = length rows"
  by (auto simp: splice_move_def Let_def min_def)

lemma rollUp_eq:
  assumes "screen_ok s" and "cs_nrRollUpRows s = Some n"
  shows "rollUp s = Inr (s\<lparr>cs_rows := splice_move (splice_start (cs_currRow s + 1 - n) NR_ROWS)
    (nat (cs_currRow s)) (cs_rows s)\<rparr>)
    \<and> splice_start (cs_currRow s + 1 - n) NR_ROWS < length (cs_rows s)"
proof -
  let ?i = "splice_start (cs_currRow s + 1 - n) NR_ROWS"
  have b: "length (cs_rows s) = NR_ROWS" "0 \<le> cs_currRow s" "cs_currRow s < int NR_ROWS" "n \<in> {2, 3, 4}"
    using assms by (auto simp: screen_ok_def rollup_ok_def)
  then have i: "?i < NR_ROWS" by (intro splice_bounds) (auto simp: NR_ROWS_def)
  have k: "splice_start (cs_currRow s) (length (take ?i (cs_rows s) @ drop (?i + 1) (cs_rows s)))
      = nat (cs_currRow s)"
    using b(1-3) i by (auto simp: splice_start_def min_def)
  show ?thesis
    using i unfolding rollUp_def assms(2) option.case Let_def b(1) k by (simp add: splice_move_def Let_def b(1))
qed

interpretation roll: screen_op rollUp 0
proof
  fix s s'
  assume s: "screen_ok s" "rollUp s = Inr s'"
  show "screen_ok s' \<and> cs_nrRollUpRows s' = cs_nrRollUpRows s"
  proof (cases "cs_nrRollUpRows s")
    case None
    then show ?thesis using s by (simp add: rollUp_def)
  next
    case (Some n)
    let ?i = "splice_start (cs_currRow s + 1 - n) NR_ROWS"
    have i: "?i < length (cs_rows s)" and s': "s' = s\<lparr>cs_rows := splice_move ?i (nat (cs_currRow s)) (cs_rows s)\<rparr>"
      using rollUp_eq [OF s(1) Some] s(2) by auto
    have "\<forall>r \<in> set (splice_move ?i (nat (cs_currRow s)) (cs_rows s)). row_ok r"
    proof -
      have "\<forall>r \<in> set (cs_rows s). row_ok r" using s(1) by (simp add: screen_ok_def)
      moreover from this have "row_ok (row_clear (cs_rows s ! ?i))" using i by (intro row_clear_ok) simp
      ultimately show ?thesis using set_splice_move [OF i] by blast
    qed
    then show ?thesis using s(1) i by (simp add: s' screen_ok_def)
  qed
next
  fix s B
  assume s: "screen_ok s" "cursors_le s B" "28 \<le> B" "B + 0 < int NR_COLS"
  show "\<exists>s'. rollUp s = Inr s' \<and> cursors_le s' (B + 0)"
  proof (cases "cs_nrRollUpRows s")
    case None
    then show ?thesis using s by (simp add: rollUp_def)
  next
    case (Some n)
    let ?i = "splice_start (cs_currRow s + 1 - n) NR_ROWS"
    have i: "?i < length (cs_rows s)" and r: "rollUp s = Inr (s\<lparr>cs_rows := splice_move ?i (nat (cs_currRow s)) (cs_rows s)\<rparr>)"
      using rollUp_eq [OF s(1) Some] by auto
    have "\<forall>r \<in> set (splice_move ?i (nat (cs_currRow s)) (cs_rows s)). rw_pos r \<le> B"
    proof -
      have "\<forall>r \<in> set (cs_rows s). rw_pos r \<le> B" "rw_pos (row_clear (cs_rows s ! ?i)) \<le> B"
        using s(2,3) by (simp_all add: cursors_le_def)
      then show ?thesis using set_splice_move [OF i] by blast
    qed
    then show ?thesis using r by (simp add: cursors_le_def)
  qed
qed simp

subsection \<open>Channels\<close>

text \<open>
  The structure of a channel: well-formed screens, the non-displayed and the last output screen
  never in roll-up, and the write screen determined by the mode.
\<close>

definition chan_ok :: "channel \<Rightarrow> bool" where
  "chan_ok c \<longleftrightarrow> screen_ok (ch_disp c) \<and> screen_ok (ch_nonDisp c) \<and> screen_ok (ch_lastOutput c)
     \<and> cs_nrRollUpRows (ch_nonDisp c) = None
     \<and> (cs_nrRollUpRows (ch_disp c) \<noteq> None \<longrightarrow> ch_mode c \<in> {None, Some MODE_ROLL_UP})
     \<and> (ch_write c = NonDisp \<longleftrightarrow> ch_mode c = Some MODE_POP_ON)"

definition chan_le :: "channel \<Rightarrow> int \<Rightarrow> bool" where
  "chan_le c B \<longleftrightarrow> cursors_le (ch_disp c) B \<and> cursors_le (ch_nonDisp c) B"

text \<open>A cue that makes sense: it has a start, which is not after its end, and it shows something.\<close>

definition cue_wf :: "cue_event \<Rightarrow> bool" where
  "cue_wf ev = (case ev of
     UpdateData t s \<Rightarrow> True
   | NewCue st t s \<Rightarrow> (case st of None \<Rightarrow> False | Some b \<Rightarrow> b \<le> t) \<and> \<not> screen_isEmpty s)"

text \<open>
  The cue bookkeeping at time \<open>t\<close>: a cue is open exactly when the last output screen shows
  something, it was opened in the past, and all cues so far make sense.
\<close>

definition cue_ok :: "rat \<Rightarrow> channel \<Rightarrow> bool" where
  "cue_ok t c \<longleftrightarrow> (ch_cueStart c = None \<longleftrightarrow> screen_isEmpty (ch_lastOutput c))
     \<and> (\<forall>b. ch_cueStart c = Some b \<longrightarrow> b \<le> t) \<and> (\<forall>ev \<in> set (ch_out c). cue_wf ev)"

lemma cue_ok_mono: "cue_ok t c \<Longrightarrow> t \<le> t' \<Longrightarrow> cue_ok t' c"
  by (auto simp: cue_ok_def)

text \<open>The contract of a channel operation that runs at time \<open>t\<close>.\<close>

locale channel_op =
  fixes f :: "rat \<Rightarrow> channel \<Rightarrow> channel result" and k :: int
  assumes chan_nonneg: "0 \<le> k"
    and chan_keeps: "chan_ok c \<Longrightarrow> f t c = Inr c' \<Longrightarrow> chan_ok c'"
    and chan_cues: "chan_ok c \<Longrightarrow> cue_ok t c \<Longrightarrow> f t c = Inr c' \<Longrightarrow> cue_ok t c'"
    and chan_total: "chan_ok c \<Longrightarrow> chan_le c B \<Longrightarrow> 28 \<le> B \<Longrightarrow> B + k < int NR_COLS
      \<Longrightarrow> \<exists>c'. f t c = Inr c' \<and> chan_le c' (B + k)"

context screen_op
begin

lemma on_write_keeps:
  assumes c: "chan_ok c" and w: "on_write f c = Inr c'"
  shows "chan_ok c'"
proof (cases "ch_write c")
  case Disp
  with w obtain s where s: "f (ch_disp c) = Inr s" "c' = c\<lparr>ch_disp := s\<rparr>"
    by (auto simp: on_write_def split: sum.splits)
  have "screen_ok (ch_disp c)" using c by (simp add: chan_ok_def)
  from screen_keeps [OF this s(1)] c show ?thesis by (simp add: chan_ok_def s(2))
next
  case NonDisp
  with w obtain s where s: "f (ch_nonDisp c) = Inr s" "c' = c\<lparr>ch_nonDisp := s\<rparr>"
    by (auto simp: on_write_def split: sum.splits)
  have "screen_ok (ch_nonDisp c)" using c by (simp add: chan_ok_def)
  from screen_keeps [OF this s(1)] c show ?thesis by (simp add: chan_ok_def s(2))
qed

lemma on_write_cues: "cue_ok t c \<Longrightarrow> on_write f c = Inr c' \<Longrightarrow> cue_ok t c'"
  by (cases "ch_write c") (auto simp: on_write_def cue_ok_def split: sum.splits)

lemma on_write_total:
  assumes "chan_ok c" "chan_le c B" "28 \<le> B" "B + k < int NR_COLS"
  shows "\<exists>c'. on_write f c = Inr c' \<and> chan_le c' (B + k)"
proof -
  have le: "cursors_le (ch_disp c) B" "cursors_le (ch_nonDisp c) B" using assms(2) by (simp_all add: chan_le_def)
  then have m: "cursors_le (ch_disp c) (B + k)" "cursors_le (ch_nonDisp c) (B + k)"
    using screen_nonneg by (auto intro: cursors_le_mono)
  have ok: "screen_ok (ch_disp c)" "screen_ok (ch_nonDisp c)" using assms(1) by (simp_all add: chan_ok_def)
  show ?thesis
  proof (cases "ch_write c")
    case Disp
    then show ?thesis
      using screen_total [OF ok(1) le(1) assms(3,4)] m(2) by (auto simp: on_write_def chan_le_def)
  next
    case NonDisp
    then show ?thesis
      using screen_total [OF ok(2) le(2) assms(3,4)] m(1) by (auto simp: on_write_def chan_le_def)
  qed
qed

end

sublocale screen_op \<subseteq> channel_op "\<lambda>t. on_write f" k
  by unfold_locales (rule screen_nonneg, (rule on_write_keeps; assumption), (rule on_write_cues; assumption),
      (rule on_write_total; assumption))

lemma channel_op_andthen:
  assumes "channel_op f k" and "channel_op g l"
  shows "channel_op (\<lambda>t. andthen (f t) (g t)) (k + l)"
proof
  have nn: "0 \<le> k" "0 \<le> l" using assms by (simp_all add: channel_op_def)
  then show "0 \<le> k + l" by simp
  fix c c' t
  show "chan_ok c \<Longrightarrow> andthen (f t) (g t) c = Inr c' \<Longrightarrow> chan_ok c'"
    unfolding andthen_Inr by (blast intro: channel_op.chan_keeps [OF assms(1)] channel_op.chan_keeps [OF assms(2)])
  show "chan_ok c \<Longrightarrow> cue_ok t c \<Longrightarrow> andthen (f t) (g t) c = Inr c' \<Longrightarrow> cue_ok t c'"
    unfolding andthen_Inr
    by (blast intro: channel_op.chan_keeps [OF assms(1)] channel_op.chan_cues [OF assms(1)]
        channel_op.chan_cues [OF assms(2)])
  fix B
  assume c: "chan_ok c" "chan_le c B" "28 \<le> B" "B + (k + l) < int NR_COLS"
  have "B + k < int NR_COLS" using c(4) nn by linarith
  then obtain d where d: "f t c = Inr d" "chan_le d (B + k)"
    using channel_op.chan_total [OF assms(1) c(1,2,3)] by blast
  have ok: "chan_ok d" using channel_op.chan_keeps [OF assms(1) c(1) d(1)] .
  have "28 \<le> B + k" "B + k + l < int NR_COLS" using c(3,4) nn by linarith+
  from channel_op.chan_total [OF assms(2) ok d(2) this]
  show "\<exists>c'. andthen (f t) (g t) c = Inr c' \<and> chan_le c' (B + (k + l))"
    using d(1) by (auto simp: add.assoc)
qed

text \<open>An operation that cannot throw.\<close>

lemma channel_op_pure:
  assumes "\<And>t c. chan_ok c \<Longrightarrow> chan_ok (g t c)"
    and "\<And>t c. chan_ok c \<Longrightarrow> cue_ok t c \<Longrightarrow> cue_ok t (g t c)"
    and "\<And>t c B. chan_le c B \<Longrightarrow> 0 \<le> B \<Longrightarrow> chan_le (g t c) B"
  shows "channel_op (\<lambda>t c. Inr (g t c)) 0"
  by unfold_locales (use assms in auto)

lemma screen_isEmpty_reset [simp]: "screen_isEmpty (screen_reset s)"
  by (auto simp: screen_isEmpty_def screen_reset_def list_all_iff row_isEmpty_def row_clear_def clearFromPos_def
      char_isEmpty_def char_reset_def pen_isDefault_def new_PenState_def)

lemma row_isEmpty_copy [simp]: "row_isEmpty (row_copy r s) = row_isEmpty r"
  by (simp add: row_isEmpty_def row_copy_def)

lemma screen_isEmpty_copy:
  "length (cs_rows s) = length (cs_rows t) \<Longrightarrow> screen_isEmpty (screen_copy s t) = screen_isEmpty s"
proof -
  have "length xs = length ys \<Longrightarrow> list_all row_isEmpty (map2 row_copy xs ys) = list_all row_isEmpty xs" for xs ys
    by (induction xs ys rule: list_induct2) simp_all
  then show "length (cs_rows s) = length (cs_rows t) \<Longrightarrow> screen_isEmpty (screen_copy s t) = screen_isEmpty s"
    by (simp add: screen_isEmpty_def screen_copy_def)
qed

lemma row_copy_ok: "row_ok r \<Longrightarrow> row_ok s \<Longrightarrow> row_ok (row_copy r s)"
  by (simp add: row_ok_def row_copy_def)

lemma screen_copy_ok:
  assumes "screen_ok s" "screen_ok t"
  shows "screen_ok (screen_copy s t)"
  using assms by (auto simp: screen_ok_def screen_copy_def set_zip intro!: row_copy_ok)

lemma pen_equals_eq: "pen_equals p q \<longleftrightarrow> p = q"
  by (auto simp: pen_equals_def)

lemma char_equals_eq: "char_equals = (=)"
  by (intro ext) (auto simp: char_equals_def pen_equals_eq)

lemma row_equals_eq: "row_equals r s \<longleftrightarrow> rw_chars r = rw_chars s"
  by (simp add: row_equals_def char_equals_eq list.rel_eq)

lemma screen_equals_eq: "screen_equals s t \<longleftrightarrow> map rw_chars (cs_rows s) = map rw_chars (cs_rows t)"
  by (simp add: screen_equals_def row_equals_eq list_all2_conv_all_nth list_eq_iff_nth_eq)
    (metis nth_map)

lemma char_isEmpty_eq: "char_isEmpty c \<longleftrightarrow> c = new_StyledUnicodeChar"
  by (auto simp: char_isEmpty_def pen_isDefault_def new_StyledUnicodeChar_def new_PenState_def)

lemma row_isEmpty_eq: "row_isEmpty r \<longleftrightarrow> rw_chars r = replicate (length (rw_chars r)) new_StyledUnicodeChar"
  by (auto simp: row_isEmpty_def list_all_iff char_isEmpty_eq intro: replicate_eqI dest: arg_cong [where f = set])

lemma screen_isEmpty_eq:
  assumes "screen_ok s"
  shows "screen_isEmpty s \<longleftrightarrow> map rw_chars (cs_rows s)
    = replicate NR_ROWS (replicate NR_COLS new_StyledUnicodeChar)"
proof
  assume e: "screen_isEmpty s"
  have "map rw_chars (cs_rows s) = replicate (length (map rw_chars (cs_rows s))) (replicate NR_COLS new_StyledUnicodeChar)"
    using e assms by (intro replicate_eqI) (auto simp: screen_isEmpty_def list_all_iff row_isEmpty_eq screen_ok_def row_ok_def)
  then show "map rw_chars (cs_rows s) = replicate NR_ROWS (replicate NR_COLS new_StyledUnicodeChar)"
    using assms by (simp add: screen_ok_def)
next
  assume "map rw_chars (cs_rows s) = replicate NR_ROWS (replicate NR_COLS new_StyledUnicodeChar)"
  then have "set (map rw_chars (cs_rows s)) \<subseteq> {replicate NR_COLS new_StyledUnicodeChar}"
    by (simp only: set_replicate_conv_if) simp
  then show "screen_isEmpty s" by (auto simp: screen_isEmpty_def list_all_iff row_isEmpty_eq)
qed

lemma empty_screens_equal:
  "screen_ok s \<Longrightarrow> screen_ok t \<Longrightarrow> screen_isEmpty s \<Longrightarrow> screen_isEmpty t \<Longrightarrow> screen_equals s t"
  by (simp add: screen_isEmpty_eq screen_equals_eq)

subsection \<open>The operations of a channel keep its contract\<close>

lemma push_event_fields [simp]:
  "ch_mode (push_event b ev c) = ch_mode c" "ch_disp (push_event b ev c) = ch_disp c"
  "ch_nonDisp (push_event b ev c) = ch_nonDisp c" "ch_lastOutput (push_event b ev c) = ch_lastOutput c"
  "ch_write (push_event b ev c) = ch_write c" "ch_cueStart (push_event b ev c) = ch_cueStart c"
  "ch_outputFilter (push_event b ev c) = ch_outputFilter c"
  by (simp_all add: push_event_def)

lemma set_push_event: "set (ch_out (push_event b ev c)) \<subseteq> insert ev (set (ch_out c))"
  by (auto simp: push_event_def)

lemma outputDataUpdate_fields [simp]:
  "ch_mode (outputDataUpdate time c) = ch_mode c" "ch_disp (outputDataUpdate time c) = ch_disp c"
  "ch_nonDisp (outputDataUpdate time c) = ch_nonDisp c" "ch_write (outputDataUpdate time c) = ch_write c"
  "ch_outputFilter (outputDataUpdate time c) = ch_outputFilter c"
  by (auto simp: outputDataUpdate_def Let_def split: option.splits)

lemma outputDataUpdate_last:
  "ch_lastOutput (outputDataUpdate time c) = (if time \<noteq> None \<and> ch_outputFilter c \<noteq> None
     then screen_copy (ch_disp c) (ch_lastOutput c) else ch_lastOutput c)"
  by (auto simp: outputDataUpdate_def Let_def split: option.splits)

lemma output_ok: "chan_ok c \<Longrightarrow> chan_ok (outputDataUpdate time c)"
  by (simp add: chan_ok_def outputDataUpdate_last screen_copy_ok)

lemma output_le: "chan_le c B \<Longrightarrow> chan_le (outputDataUpdate time c) B"
  by (simp add: chan_le_def)

lemma output_cues:
  assumes "chan_ok c" and "cue_ok t c"
  shows "cue_ok t (outputDataUpdate (Some t) c)"
proof (cases "ch_outputFilter c")
  case None
  then show ?thesis using assms by (simp add: outputDataUpdate_def)
next
  case (Some flt)
  let ?c = "outputDataUpdate (Some t) c"
  have ok: "screen_ok (ch_disp c)" "screen_ok (ch_lastOutput c)" using assms(1) by (simp_all add: chan_ok_def)
  then have last: "screen_isEmpty (ch_lastOutput ?c) = screen_isEmpty (ch_disp c)"
    by (simp add: outputDataUpdate_last Some screen_isEmpty_copy screen_ok_def)
  have iff: "ch_cueStart c = None \<longleftrightarrow> screen_isEmpty (ch_lastOutput c)"
    and past: "\<And>b. ch_cueStart c = Some b \<Longrightarrow> b \<le> t" and evs: "\<forall>ev \<in> set (ch_out c). cue_wf ev"
    using assms(2) by (auto simp: cue_ok_def)
  have up: "cue_wf (UpdateData t (ch_disp c))" by (simp add: cue_wf_def)
  let ?u = "push_event (of_updateData flt) (UpdateData t (ch_disp c)) c"
  have u: "\<forall>ev \<in> set (ch_out ?u). cue_wf ev" using set_push_event [of _ _ c] evs up by blast
  show ?thesis
  proof (cases "ch_cueStart c = None \<and> \<not> screen_isEmpty (ch_disp c)")
    case True
    then show ?thesis using last u by (simp add: cue_ok_def outputDataUpdate_def Some Let_def)
  next
    case False
    show ?thesis
    proof (cases "screen_equals (ch_disp c) (ch_lastOutput c)")
      case True
      then have "screen_isEmpty (ch_disp c) = screen_isEmpty (ch_lastOutput c)"
        using ok by (simp add: screen_isEmpty_eq screen_equals_eq)
      then show ?thesis using last u iff past False True
        by (simp add: cue_ok_def outputDataUpdate_def Some Let_def)
    next
      case neq: False
      obtain b where start: "ch_cueStart c = Some b"
        using empty_screens_equal [OF ok] neq False iff by auto
      then have "cue_wf (NewCue (ch_cueStart c) t (ch_lastOutput c))"
        using past iff by (auto simp: cue_wf_def)
      then have "\<forall>ev \<in> set (ch_out (push_event (of_newCue flt)
          (NewCue (ch_cueStart c) t (ch_lastOutput c)) ?u)). cue_wf ev"
        using set_push_event [of _ _ ?u] u by blast
      then show ?thesis using last False neq start
        by (simp add: cue_ok_def outputDataUpdate_def Some Let_def)
    qed
  qed
qed

interpretation cue_update: channel_op "\<lambda>t c. Inr (outputDataUpdate (Some t) c)" 0
  by (rule channel_op_pure) (simp_all add: output_ok output_cues output_le)

lemma no_rollup_ok: "screen_ok s \<Longrightarrow> screen_ok (no_rollup s)"
  by (simp add: screen_ok_def no_rollup_def rollup_ok_def)

lemma no_rollup_simps [simp]: "cs_nrRollUpRows (no_rollup s) = None" "cs_rows (no_rollup s) = cs_rows s"
  "cursors_le (no_rollup s) B = cursors_le s B"
  by (simp_all add: no_rollup_def cursors_le_def)

lemma setMode_ok: "chan_ok c \<Longrightarrow> chan_ok (setMode m c)"
  by (cases m) (auto simp: setMode_def Let_def chan_ok_def no_rollup_ok screen_reset_ok)

lemma setMode_cues: "cue_ok t c \<Longrightarrow> cue_ok t (setMode m c)"
  by (simp add: setMode_def Let_def cue_ok_def)

lemma setMode_le: "chan_le c B \<Longrightarrow> 0 \<le> B \<Longrightarrow> chan_le (setMode m c) B"
  by (auto simp: setMode_def Let_def chan_le_def screen_reset_le)

interpretation mode: channel_op "\<lambda>t c. Inr (setMode m c)" 0 for m
  by (rule channel_op_pure) (simp_all add: setMode_ok setMode_cues setMode_le)

lemma ccRU_eq: "ccRU n c = (let d = setMode MODE_ROLL_UP (c\<lparr>ch_write := Disp\<rparr>)
    in d\<lparr>ch_disp := setRollUpRows n (ch_disp d)\<rparr>)"
  by (auto simp: ccRU_def setMode_def Let_def)

lemma ccRU_ok:
  assumes "chan_ok c" and "rollup_ok (Some n)"
  shows "chan_ok (ccRU n c)"
proof -
  have "screen_ok (setRollUpRows n s)" if "screen_ok s" for s
    using that assms(2) by (simp add: screen_ok_def setRollUpRows_def)
  then show ?thesis
    using assms(1) by (auto simp: ccRU_eq setMode_def Let_def chan_ok_def screen_reset_ok)
qed

lemma ccRU_op: "rollup_ok (Some n) \<Longrightarrow> channel_op (\<lambda>t c. Inr (ccRU n c)) 0"
proof (rule channel_op_pure)
  assume n: "rollup_ok (Some n)"
  show "chan_ok c \<Longrightarrow> chan_ok (ccRU n c)" for c using n by (rule ccRU_ok [rotated])
  show "cue_ok t c \<Longrightarrow> cue_ok t (ccRU n c)" for t c
    by (simp add: ccRU_eq setMode_def Let_def cue_ok_def)
  show "chan_le c B \<Longrightarrow> 0 \<le> B \<Longrightarrow> chan_le (ccRU n c) B" for c B
    using screen_reset_le [of B "ch_disp c"]
    by (auto simp: ccRU_eq setMode_def Let_def chan_le_def setRollUpRows_def cursors_le_def)
qed

interpretation erase_disp: channel_op "\<lambda>t c. Inr (ccEDM (Some t) c)" 0
proof (rule channel_op_pure)
  have ok: "chan_ok (c\<lparr>ch_disp := screen_reset (ch_disp c)\<rparr>)" if "chan_ok c" for c
    using that by (simp add: chan_ok_def screen_reset_ok)
  then show "chan_ok c \<Longrightarrow> chan_ok (ccEDM (Some t) c)" for c t by (simp add: ccEDM_def output_ok)
  show "chan_ok c \<Longrightarrow> cue_ok t c \<Longrightarrow> cue_ok t (ccEDM (Some t) c)" for c t
    unfolding ccEDM_def by (intro output_cues ok) (simp_all add: cue_ok_def)
  show "chan_le c B \<Longrightarrow> 0 \<le> B \<Longrightarrow> chan_le (ccEDM (Some t) c) B" for c t B
    by (simp add: ccEDM_def chan_le_def screen_reset_le)
qed

interpretation erase_non_disp: channel_op "\<lambda>t c. Inr (ccENM c)" 0
  by (rule channel_op_pure) (simp_all add: ccENM_def chan_ok_def screen_reset_ok cue_ok_def chan_le_def screen_reset_le)

interpretation flip: channel_op "\<lambda>t c. Inr (ccEOC (Some t) c)" 0
proof (rule channel_op_pure)
  let ?flip = "\<lambda>c. if ch_mode c = Some MODE_POP_ON
    then c\<lparr>ch_disp := ch_nonDisp c, ch_nonDisp := ch_disp c, ch_write := NonDisp\<rparr> else c"
  have ok: "chan_ok (?flip c)" if "chan_ok c" for c using that by (auto simp: chan_ok_def)
  then show "chan_ok c \<Longrightarrow> chan_ok (ccEOC (Some t) c)" for c t
    unfolding ccEOC_def Let_def by (intro output_ok) blast
  show "chan_ok c \<Longrightarrow> cue_ok t c \<Longrightarrow> cue_ok t (ccEOC (Some t) c)" for c t
    unfolding ccEOC_def Let_def by (intro output_cues ok) (simp_all add: cue_ok_def)
  show "chan_le c B \<Longrightarrow> 0 \<le> B \<Longrightarrow> chan_le (ccEOC (Some t) c) B" for c t B
    by (simp add: ccEOC_def Let_def chan_le_def)
qed

interpretation idle: channel_op "\<lambda>t. Inr" 0
  by unfold_locales auto

lemma channel_op_if:
  assumes "channel_op f k" and "channel_op g k"
  shows "channel_op (\<lambda>t c. if P c then f t c else g t c) k"
proof
  show "0 \<le> k" using channel_op.chan_nonneg [OF assms(1)] .
  show "chan_ok c \<Longrightarrow> (if P c then f t c else g t c) = Inr c' \<Longrightarrow> chan_ok c'" for c t c'
    by (cases "P c") (auto intro: channel_op.chan_keeps [OF assms(1)] channel_op.chan_keeps [OF assms(2)])
  show "chan_ok c \<Longrightarrow> cue_ok t c \<Longrightarrow> (if P c then f t c else g t c) = Inr c' \<Longrightarrow> cue_ok t c'" for c t c'
    by (cases "P c") (auto intro: channel_op.chan_cues [OF assms(1)] channel_op.chan_cues [OF assms(2)])
  show "chan_ok c \<Longrightarrow> chan_le c B \<Longrightarrow> 28 \<le> B \<Longrightarrow> B + k < int NR_COLS
    \<Longrightarrow> \<exists>c'. (if P c then f t c else g t c) = Inr c' \<and> chan_le c' (B + k)" for c t B
    by (cases "P c") (simp_all add: channel_op.chan_total [OF assms(1)] channel_op.chan_total [OF assms(2)])
qed

lemma channel_op_update:
  "channel_op f k \<Longrightarrow> channel_op (\<lambda>t. andthen (f t) (\<lambda>c. Inr (if P c then outputDataUpdate (Some t) c else c))) k"
proof -
  have "channel_op (\<lambda>t c. Inr (if P c then outputDataUpdate (Some t) c else c)) 0"
    using channel_op_if [OF cue_update.channel_op_axioms idle.channel_op_axioms, of P] by (simp add: if_distrib)
  from channel_op_andthen [OF _ this, of f k]
  show "channel_op f k \<Longrightarrow> channel_op (\<lambda>t. andthen (f t) (\<lambda>c. Inr (if P c then outputDataUpdate (Some t) c else c))) k"
    by simp
qed

lemma ccBS_op: "channel_op (\<lambda>t. ccBS (Some t)) 0"
proof -
  have "ccBS (Some t) = (\<lambda>c. if ch_mode c = Some MODE_TEXT then Inr c
    else andthen (on_write backSpace) (\<lambda>c. Inr (if ch_write c = Disp then outputDataUpdate (Some t) c else c)) c)" for t
    by (simp add: ccBS_def fun_eq_iff)
  then show ?thesis
    using channel_op_if [OF idle.channel_op_axioms channel_op_update [OF bksp.channel_op_axioms, of "\<lambda>c. ch_write c = Disp"],
        of "\<lambda>c. ch_mode c = Some MODE_TEXT"] by simp
qed

lemma ccDER_op: "channel_op (\<lambda>t. ccDER (Some t)) 0"
  unfolding ccDER_def using channel_op_update [OF clear_end.channel_op_axioms, of "\<lambda>_. True"] by simp

lemma ccCR_op: "channel_op (\<lambda>t. ccCR (Some t)) 0"
  unfolding ccCR_def using channel_op_update [OF roll.channel_op_axioms, of "\<lambda>_. True"] by simp

interpretation control: channel_op "\<lambda>t. control_code (Some t) b" 0 for b
proof -
  have ru: "channel_op (\<lambda>t. Inr \<circ> ccRU n) 0" if "n \<in> {2, 3, 4}" for n
    using ccRU_op [of n] that by (auto simp: o_def rollup_ok_def)
  consider "b = 0x20" | "b = 0x21" | "b = 0x24" | "b = 0x25" | "b = 0x26" | "b = 0x27" | "b = 0x28" | "b = 0x29"
    | "b = 0x2A" | "b = 0x2B" | "b = 0x2C" | "b = 0x2D" | "b = 0x2E" | "b = 0x2F"
    | "b \<notin> {0x20, 0x21, 0x24, 0x25, 0x26, 0x27, 0x28, 0x29, 0x2A, 0x2B, 0x2C, 0x2D, 0x2E, 0x2F}" by blast
  then show "channel_op (\<lambda>t. control_code (Some t) b) 0"
    unfolding control_code_def
    by cases (simp_all add: o_def ccRCL_def ccRDC_def ccTR_def ccRTD_def ccFON_def mode.channel_op_axioms
        ccBS_op ccDER_op ccCR_op ru [unfolded o_def] pen.channel_op_axioms erase_disp.channel_op_axioms
        erase_non_disp.channel_op_axioms flip.channel_op_axioms idle.channel_op_axioms cong: if_cong)
qed

lemma insert_loop_op: "channel_op (\<lambda>t. insert_loop bs) (int (length bs))"
proof (induction bs)
  case Nil
  have "insert_loop [] = Inr" by (simp add: fun_eq_iff)
  then show ?case using idle.channel_op_axioms by simp
next
  case (Cons b bs)
  have "insert_loop (b # bs) = andthen (on_write (insertChar b)) (insert_loop bs)"
    by (simp add: fun_eq_iff andthen_def)
  then show ?case using channel_op_andthen [OF insert.channel_op_axioms [of b] Cons.IH] by simp
qed

interpretation insert_chars: channel_op "\<lambda>t. insertChars (Some t) bs" "int (length bs)" for bs
  unfolding insertChars_def by (rule channel_op_update [OF insert_loop_op])

lemma screen_new_ok: "screen_ok new_CaptionScreen"
  unfolding new_CaptionScreen_def
  by (rule screen_reset_ok) (simp add: screen_ok_def rollup_ok_def row_ok_def new_Row_def NR_ROWS_def)

lemma screen_new_nr [simp]: "cs_nrRollUpRows new_CaptionScreen = None"
  by (simp add: new_CaptionScreen_def)

lemma screen_new_empty [simp]: "screen_isEmpty new_CaptionScreen" "0 \<le> B \<Longrightarrow> cursors_le new_CaptionScreen B"
  by (simp_all add: new_CaptionScreen_def screen_reset_le)

lemma channel_new: "chan_ok (new_Cea608Channel flt)" "cue_ok t (new_Cea608Channel flt)"
  "chan_le (new_Cea608Channel flt) 0"
  by (simp_all add: chan_ok_def chan_le_def cue_ok_def new_Cea608Channel_def screen_new_ok)

lemma channel_reset_ok: "chan_ok c \<Longrightarrow> chan_ok (channel_reset c)"
  by (simp add: chan_ok_def channel_reset_def screen_reset_ok)

lemma channel_reset_cues: "cue_ok t c \<Longrightarrow> cue_ok t (channel_reset c)"
  by (simp add: cue_ok_def channel_reset_def)

lemma channel_split_ok: "chan_ok c \<Longrightarrow> chan_ok (channel_cueSplit t c)"
  by (simp add: channel_cueSplit_def chan_ok_def split: option.splits)

subsection \<open>The parser\<close>

definition parser_ok :: "parser \<Rightarrow> bool" where
  "parser_ok p \<longleftrightarrow> chan_ok (pr_ch1 p) \<and> chan_ok (pr_ch2 p)"

definition parser_cues :: "rat \<Rightarrow> parser \<Rightarrow> bool" where
  "parser_cues t p \<longleftrightarrow> cue_ok t (pr_ch1 p) \<and> cue_ok t (pr_ch2 p)"

definition parser_le :: "parser \<Rightarrow> int \<Rightarrow> bool" where
  "parser_le p B \<longleftrightarrow> chan_le (pr_ch1 p) B \<and> chan_le (pr_ch2 p) B"

lemma chan_le_mono: "chan_le c B \<Longrightarrow> B \<le> C \<Longrightarrow> chan_le c C"
  by (auto simp: chan_le_def intro: cursors_le_mono)

lemma parser_le_mono: "parser_le p B \<Longrightarrow> B \<le> C \<Longrightarrow> parser_le p C"
  by (auto simp: parser_le_def intro: chan_le_mono)

text \<open>The contract of a parser of one byte pair: a pair that it does not take leaves it unchanged.\<close>

locale parser_op =
  fixes f :: "parser \<Rightarrow> (bool \<times> parser) result" and k :: int
  assumes par_nonneg: "0 \<le> k"
    and par_unfound: "f p = Inr (False, p') \<Longrightarrow> p' = p"
    and par_time: "f p = Inr (b, p') \<Longrightarrow> pr_time p' = pr_time p"
    and par_keeps: "parser_ok p \<Longrightarrow> pr_time p = Some t \<Longrightarrow> f p = Inr (b, p') \<Longrightarrow> parser_ok p'"
    and par_cues: "parser_ok p \<Longrightarrow> pr_time p = Some t \<Longrightarrow> parser_cues t p \<Longrightarrow> f p = Inr (b, p')
      \<Longrightarrow> parser_cues t p'"
    and par_total: "parser_ok p \<Longrightarrow> pr_time p = Some t \<Longrightarrow> parser_le p B \<Longrightarrow> 28 \<le> B \<Longrightarrow> B + k < int NR_COLS
      \<Longrightarrow> \<exists>b p'. f p = Inr (b, p') \<and> parser_le p' (B + k)"

context channel_op
begin

lemma on_channel_keeps:
  assumes "parser_ok p" and "on_channel n (f t) p = Inr p'"
  shows "parser_ok p'"
  using assms by (cases n) (auto simp: on_channel_def parser_ok_def split: sum.splits intro: chan_keeps)

lemma on_channel_cues:
  assumes "parser_ok p" and "parser_cues t p" and "on_channel n (f t) p = Inr p'"
  shows "parser_cues t p'"
  using assms
  by (cases n) (auto simp: on_channel_def parser_ok_def parser_cues_def split: sum.splits intro: chan_cues)

lemma on_channel_total:
  assumes "parser_ok p" and "parser_le p B" and "28 \<le> B" and "B + k < int NR_COLS"
  shows "\<exists>p'. on_channel n (f t) p = Inr p' \<and> parser_le p' (B + k)"
proof -
  have c: "chan_ok (pr_ch1 p)" "chan_ok (pr_ch2 p)" "chan_le (pr_ch1 p) B" "chan_le (pr_ch2 p) B"
    using assms(1,2) by (simp_all add: parser_ok_def parser_le_def)
  have m: "chan_le (pr_ch1 p) (B + k)" "chan_le (pr_ch2 p) (B + k)"
    using c chan_nonneg by (auto intro: chan_le_mono)
  show ?thesis
    using chan_total [OF c(1,3) assms(3,4), of t] chan_total [OF c(2,4) assms(3,4), of t] m
    by (cases n) (auto simp: on_channel_def parser_le_def)
qed

end

lemma on_channel_time: "on_channel n f p = Inr p' \<Longrightarrow> pr_time p' = pr_time p"
  by (cases n) (auto simp: on_channel_def split: sum.splits)

lemma parser_fields [simp]:
  "parser_ok (p\<lparr>pr_lastCmd := x\<rparr>) = parser_ok p" "parser_ok (p\<lparr>pr_currCh := y\<rparr>) = parser_ok p"
  "parser_cues t (p\<lparr>pr_lastCmd := x\<rparr>) = parser_cues t p" "parser_cues t (p\<lparr>pr_currCh := y\<rparr>) = parser_cues t p"
  "parser_le (p\<lparr>pr_lastCmd := x\<rparr>) B = parser_le p B" "parser_le (p\<lparr>pr_currCh := y\<rparr>) B = parser_le p B"
  "parser_ok (p\<lparr>pr_lastCmd := x, pr_currCh := y\<rparr>) = parser_ok p"
  "parser_cues t (p\<lparr>pr_lastCmd := x, pr_currCh := y\<rparr>) = parser_cues t p"
  "parser_le (p\<lparr>pr_lastCmd := x, pr_currCh := y\<rparr>) B = parser_le p B"
  "parser_ok (p\<lparr>pr_padding := m\<rparr>) = parser_ok p" "parser_ok (p\<lparr>pr_char := m\<rparr>) = parser_ok p"
  "parser_ok (p\<lparr>pr_cmd := m\<rparr>) = parser_ok p" "parser_ok (p\<lparr>pr_other := m\<rparr>) = parser_ok p"
  "parser_ok (p\<lparr>pr_time := w\<rparr>) = parser_ok p"
  "parser_cues t (p\<lparr>pr_padding := m\<rparr>) = parser_cues t p" "parser_cues t (p\<lparr>pr_char := m\<rparr>) = parser_cues t p"
  "parser_cues t (p\<lparr>pr_cmd := m\<rparr>) = parser_cues t p" "parser_cues t (p\<lparr>pr_other := m\<rparr>) = parser_cues t p"
  "parser_cues t (p\<lparr>pr_time := w\<rparr>) = parser_cues t p"
  "parser_le (p\<lparr>pr_padding := m\<rparr>) B = parser_le p B" "parser_le (p\<lparr>pr_char := m\<rparr>) B = parser_le p B"
  "parser_le (p\<lparr>pr_cmd := m\<rparr>) B = parser_le p B" "parser_le (p\<lparr>pr_other := m\<rparr>) B = parser_le p B"
  "parser_le (p\<lparr>pr_time := w\<rparr>) B = parser_le p B"
  by (simp_all add: parser_ok_def parser_cues_def parser_le_def)

lemma screen_op_channel: "screen_op f k \<Longrightarrow> channel_op (\<lambda>t. on_write f) k"
  by unfold_locales (rule screen_op.screen_nonneg, assumption, (rule screen_op.on_write_keeps; assumption),
      (rule screen_op.on_write_cues; assumption), (rule screen_op.on_write_total; assumption))

text \<open>
  A parser of one pair runs one channel operation at the parser's time, or passes, or only changes
  the last command and the current channel.
\<close>

lemma parser_op_intro:
  assumes op: "channel_op (\<lambda>t. run (Some t)) k"
    and f: "\<And>p. f p = Inr (False, p) \<or> f p = Inr (True, p\<lparr>pr_lastCmd := None\<rparr>)
     \<or> f p = (case on_channel n (run (pr_time p)) p of Inl e \<Rightarrow> Inl e | Inr p' \<Rightarrow> Inr (True, g p'))"
    and g: "\<And>p. pr_time (g p) = pr_time p" "\<And>p. parser_ok (g p) = parser_ok p"
      "\<And>p t. parser_cues t (g p) = parser_cues t p" "\<And>p B. parser_le (g p) B = parser_le p B"
  shows "parser_op f k"
proof
  show "0 \<le> k" by (rule channel_op.chan_nonneg [OF op])
  fix p p' t b
  show "f p = Inr (False, p') \<Longrightarrow> p' = p" using f [of p] by (auto split: sum.splits)
  show "f p = Inr (b, p') \<Longrightarrow> pr_time p' = pr_time p"
    using f [of p] by (auto split: sum.splits simp: g(1) dest: on_channel_time)
  show "parser_ok p \<Longrightarrow> pr_time p = Some t \<Longrightarrow> f p = Inr (b, p') \<Longrightarrow> parser_ok p'"
    using f [of p] by (auto split: sum.splits simp: g(2) intro: channel_op.on_channel_keeps [OF op])
  show "parser_ok p \<Longrightarrow> pr_time p = Some t \<Longrightarrow> parser_cues t p \<Longrightarrow> f p = Inr (b, p') \<Longrightarrow> parser_cues t p'"
    using f [of p] by (auto split: sum.splits simp: g(3) intro: channel_op.on_channel_cues [OF op])
  fix B
  assume p: "parser_ok p" "pr_time p = Some t" "parser_le p B" "28 \<le> B" "B + k < int NR_COLS"
  have le: "parser_le p (B + k)"
    using p(3) channel_op.chan_nonneg [OF op] by (auto intro: parser_le_mono)
  obtain q where "on_channel n (run (Some t)) p = Inr q" "parser_le q (B + k)"
    using channel_op.on_channel_total [OF op p(1,3,4,5)] by blast
  then show "\<exists>b p'. f p = Inr (b, p') \<and> parser_le p' (B + k)"
    using f [of p] p(2) le by (auto simp: g(4))
qed

lemma parser_op_mono: "parser_op f k \<Longrightarrow> k \<le> l \<Longrightarrow> parser_op f l"
proof
  assume f: "parser_op f k" and l: "k \<le> l"
  show "0 \<le> l" using parser_op.par_nonneg [OF f] l by simp
  fix p p' t b B
  show "f p = Inr (False, p') \<Longrightarrow> p' = p" by (rule parser_op.par_unfound [OF f])
  show "f p = Inr (b, p') \<Longrightarrow> pr_time p' = pr_time p" by (rule parser_op.par_time [OF f])
  show "parser_ok p \<Longrightarrow> pr_time p = Some t \<Longrightarrow> f p = Inr (b, p') \<Longrightarrow> parser_ok p'"
    by (rule parser_op.par_keeps [OF f])
  show "parser_ok p \<Longrightarrow> pr_time p = Some t \<Longrightarrow> parser_cues t p \<Longrightarrow> f p = Inr (b, p') \<Longrightarrow> parser_cues t p'"
    by (rule parser_op.par_cues [OF f])
  assume p: "parser_ok p" "pr_time p = Some t" "parser_le p B" "28 \<le> B" "B + l < int NR_COLS"
  have "B + k < int NR_COLS" using p(5) l by linarith
  from parser_op.par_total [OF f p(1-4) this] l show "\<exists>b p'. f p = Inr (b, p') \<and> parser_le p' (B + l)"
    by (meson parser_le_mono add_left_mono)
qed

interpretation cmd: parser_op "parseCmd a b" 3 for a b
proof (cases "((a = 0x14 \<or> a = 0x1C) \<and> 0x20 \<le> b \<and> b \<le> 0x2F) \<or> ((a = 0x17 \<or> a = 0x1F) \<and> 0x21 \<le> b \<and> b \<le> 0x23)")
  case True
  let ?run = "\<lambda>time. if a = 0x14 \<or> a = 0x1C then control_code time b else ccTO (int b - 0x20)"
  have "channel_op (\<lambda>t. ?run (Some t)) (if a = 0x14 \<or> a = 0x1C then 0 else max (int b - 0x20) 0)"
    unfolding ccTO_def using control.channel_op_axioms tab.channel_op_axioms by simp
  then have "parser_op (parseCmd a b) (if a = 0x14 \<or> a = 0x1C then 0 else max (int b - 0x20) 0)"
    by (rule parser_op_intro [where n = "if a = 0x14 \<or> a = 0x17 then Ch1 else Ch2"
          and g = "\<lambda>p. p\<lparr>pr_lastCmd := Some (a, b), pr_currCh := Some (if a = 0x14 \<or> a = 0x17 then Ch1 else Ch2)\<rparr>"])
      (use True in \<open>simp_all add: parseCmd_def Let_def\<close>)
  then show "parser_op (parseCmd a b) 3" by (rule parser_op_mono) (use True in auto)
next
  case False
  then have "parseCmd a b p = Inr (False, p)" for p by (simp add: parseCmd_def Let_def)
  then show "parser_op (parseCmd a b) 3" by unfold_locales (auto intro: parser_le_mono)
qed

interpretation midrow: parser_op "parseMidrow a b" 0 for a b
  by (rule parser_op_intro [where n = "if a = 0x11 then Ch1 else Ch2" and run = "\<lambda>_. ccMIDROW b" and g = "\<lambda>p. p"])
    (simp_all add: ccMIDROW_def pen.channel_op_axioms parseMidrow_def Let_def)

interpretation bkg_attr: parser_op "parseBackgroundAttributes a b" 1 for a b
  by (rule parser_op_intro [where n = "if a < 0x18 then Ch1 else Ch2" and run = "\<lambda>_. on_write (setBkgData (bkg_styles a b))"
        and g = "\<lambda>p. p\<lparr>pr_lastCmd := None\<rparr>"])
    (simp_all add: bkg.channel_op_axioms parseBackgroundAttributes_def Let_def)

text \<open>The row of a preamble address code, and its tables.\<close>

definition pac_table :: "nat \<Rightarrow> nat \<Rightarrow> nat option" where
  "pac_table a b = (if 0x40 \<le> b \<and> b \<le> 0x5F
                    then (if a \<le> 0x17 then rowsLowCh1 a else rowsLowCh2 a)
                    else (if a \<le> 0x17 then rowsHighCh1 a else rowsHighCh2 a))"

definition pac_pair :: "nat \<Rightarrow> nat \<Rightarrow> bool" where
  "pac_pair a b \<longleftrightarrow> ((0x11 \<le> a \<and> a \<le> 0x17 \<or> 0x19 \<le> a \<and> a \<le> 0x1F) \<and> 0x40 \<le> b \<and> b \<le> 0x7F)
     \<or> ((a = 0x10 \<or> a = 0x18) \<and> 0x40 \<le> b \<and> b \<le> 0x5F)"

lemma pac_table_total:
  assumes "pac_pair a b"
  shows "\<exists>row. pac_table a b = Some row \<and> 1 \<le> row \<and> row \<le> NR_ROWS"
proof -
  have "a \<in> {0x11, 0x12, 0x13, 0x14, 0x15, 0x16, 0x17, 0x19, 0x1A, 0x1B, 0x1C, 0x1D, 0x1E, 0x1F}
    \<or> a \<in> {0x10, 0x18} \<and> 0x40 \<le> b \<and> b \<le> 0x5F" using assms by (auto simp: pac_pair_def)
  then show ?thesis
    by (cases "0x40 \<le> b \<and> b \<le> 0x5F")
      (auto simp: pac_table_def rowsLowCh1_def rowsLowCh2_def rowsHighCh1_def rowsHighCh2_def NR_ROWS_def)
qed

lemma interpretPAC_row [simp]: "pd_row (interpretPAC row b) = row"
  by (simp add: interpretPAC_def Let_def)

lemma interpretPAC_ok:
  assumes "1 \<le> row" "row \<le> NR_ROWS" "0x40 \<le> b" "b \<le> 0x7F"
  shows "pac_ok (interpretPAC (int row) b)"
proof -
  define i where "i = (if b > 0x5F then b - 0x60 else b - 0x40)"
  have "i \<le> 31" using assms(3,4) by (auto simp: i_def)
  then have "(i - 16) div 2 \<le> 7" by simp
  then have "int ((i - 16) div 2) \<le> 7" by simp
  then show ?thesis
    using assms(1,2) unfolding pac_ok_def interpretPAC_row
    by (auto simp: interpretPAC_def Let_def i_def [symmetric])
qed

lemma parsePAC_eq:
  "parsePAC a b p =
     (if \<not> pac_pair a b then Inr (False, p)
      else if pr_lastCmd p = Some (a, b) then Inr (True, p\<lparr>pr_lastCmd := None\<rparr>)
      else let chNr = (if a \<le> 0x17 then Ch1 else Ch2)
        in case on_channel chNr (on_write (setPAC (interpretPAC (int (the (pac_table a b))) b))) p of
             Inl e \<Rightarrow> Inl e
           | Inr p \<Rightarrow> Inr (True, p\<lparr>pr_lastCmd := Some (a, b), pr_currCh := Some chNr\<rparr>))"
proof (cases "pac_pair a b")
  case True
  then obtain row where "pac_table a b = Some row" using pac_table_total by blast
  then show ?thesis
    using True unfolding parsePAC_def Let_def pac_pair_def [symmetric] pac_table_def
    by (cases "0x40 \<le> b \<and> b \<le> 0x5F"; cases "a \<le> 0x17"; auto)
qed (simp add: parsePAC_def pac_pair_def)

interpretation pac: parser_op "parsePAC a b" 0 for a b
proof (cases "pac_pair a b")
  case True
  obtain row where row: "pac_table a b = Some row" "1 \<le> row" "row \<le> NR_ROWS" using pac_table_total [OF True] by blast
  have "pac_ok (interpretPAC (int row) b)"
    using True by (intro interpretPAC_ok row) (auto simp: pac_pair_def)
  then have "channel_op (\<lambda>t. on_write (setPAC (interpretPAC (int row) b))) 0"
    by (intro screen_op_channel setPAC_op)
  then show "parser_op (parsePAC a b) 0"
    by (rule parser_op_intro [where n = "if a \<le> 0x17 then Ch1 else Ch2" and run = "\<lambda>_. on_write (setPAC (interpretPAC (int row) b))"
          and g = "\<lambda>p. p\<lparr>pr_lastCmd := Some (a, b), pr_currCh := Some (if a \<le> 0x17 then Ch1 else Ch2)\<rparr>"])
      (simp_all add: parsePAC_eq Let_def True row(1))
next
  case False
  then show "parser_op (parsePAC a b) 0" by unfold_locales (auto simp: parsePAC_eq)
qed

text \<open>Trying one parser after the other.\<close>

lemma parser_op_or:
  assumes f: "parser_op f k" and g: "parser_op g k"
  shows "parser_op (\<lambda>p. or_parse (f p) g) k"
proof
  show "0 \<le> k" by (rule parser_op.par_nonneg [OF f])
  fix p p' t b B
  have cases: "f p = Inr (False, p) \<and> or_parse (f p) g = g p \<or> or_parse (f p) g = f p \<and> (\<forall>q. f p \<noteq> Inr (False, q))"
    by (cases "f p") (auto simp: or_parse_def dest: parser_op.par_unfound [OF f] split: bool.splits)
  show "or_parse (f p) g = Inr (False, p') \<Longrightarrow> p' = p"
    using cases by (metis parser_op.par_unfound [OF g])
  show "or_parse (f p) g = Inr (b, p') \<Longrightarrow> pr_time p' = pr_time p"
    using cases by (metis parser_op.par_time [OF f] parser_op.par_time [OF g])
  show "parser_ok p \<Longrightarrow> pr_time p = Some t \<Longrightarrow> or_parse (f p) g = Inr (b, p') \<Longrightarrow> parser_ok p'"
    using cases by (metis parser_op.par_keeps [OF f] parser_op.par_keeps [OF g])
  show "parser_ok p \<Longrightarrow> pr_time p = Some t \<Longrightarrow> parser_cues t p \<Longrightarrow> or_parse (f p) g = Inr (b, p')
    \<Longrightarrow> parser_cues t p'"
    using cases by (metis parser_op.par_cues [OF f] parser_op.par_cues [OF g])
  assume "parser_ok p" "pr_time p = Some t" "parser_le p B" "28 \<le> B" "B + k < int NR_COLS"
  then show "\<exists>b p'. or_parse (f p) g = Inr (b, p') \<and> parser_le p' (B + k)"
    using cases parser_op.par_total [OF f] parser_op.par_total [OF g] by metis
qed

definition parse_codes :: "nat \<Rightarrow> nat \<Rightarrow> parser \<Rightarrow> (bool \<times> parser) result" where
  "parse_codes a b p = or_parse (or_parse (or_parse (parseCmd a b p) (parseMidrow a b)) (parsePAC a b))
     (parseBackgroundAttributes a b)"

interpretation codes: parser_op "parse_codes a b" 3 for a b
  unfolding parse_codes_def
  by (intro parser_op_or cmd.parser_op_axioms parser_op_mono [OF midrow.parser_op_axioms]
      parser_op_mono [OF pac.parser_op_axioms] parser_op_mono [OF bkg_attr.parser_op_axioms]) simp_all

text \<open>The last branch of a pair: its characters go to the current channel.\<close>

definition parse_text :: "nat \<Rightarrow> nat \<Rightarrow> parser \<Rightarrow> parser result" where
  "parse_text a b p =
     (case parseChars a b p of
        (None, p) \<Rightarrow> Inr (p\<lparr>pr_other := pr_other p + 2\<rparr>)
      | (Some cs, p) \<Rightarrow>
          (case (case pr_currCh p of Some n \<Rightarrow> on_channel n (insertChars (pr_time p) cs) p | None \<Rightarrow> Inr p) of
             Inl e \<Rightarrow> Inl e
           | Inr p \<Rightarrow> Inr (p\<lparr>pr_char := pr_char p + 2\<rparr>)))"

lemma addPair_eq:
  "addPair a b p =
     (if a = 0 \<and> b = 0 then Inr (p\<lparr>pr_padding := pr_padding p + 2\<rparr>)
      else case parse_codes a b p of
          Inl e \<Rightarrow> Inl e
        | Inr (True, p) \<Rightarrow> Inr (p\<lparr>pr_cmd := pr_cmd p + 2\<rparr>)
        | Inr (False, p) \<Rightarrow> parse_text a b p)"
  unfolding addPair_def parse_codes_def parse_text_def by (rule refl)

lemma char_codes_length: "char_codes a b = Some cs \<Longrightarrow> length cs \<le> 2"
  by (auto simp: char_codes_def Let_def split: if_splits)

lemma parse_text_cases:
  obtains "parse_text a b p = Inr (p\<lparr>pr_other := pr_other p + 2\<rparr>)"
  | cs n where "char_codes a b = Some cs" "pr_currCh p = Some n"
      "parse_text a b p = (case on_channel n (insertChars (pr_time p) cs) (p\<lparr>pr_lastCmd := None\<rparr>) of
         Inl e \<Rightarrow> Inl e | Inr p \<Rightarrow> Inr (p\<lparr>pr_char := pr_char p + 2\<rparr>))"
  | "parse_text a b p = Inr (p\<lparr>pr_lastCmd := None, pr_char := pr_char p + 2\<rparr>)"
  by (cases "char_codes a b"; cases "pr_currCh p") (auto simp: parse_text_def parseChars_def)

lemma parse_text_keeps:
  assumes "parser_ok p" and "pr_time p = Some t" and "parse_text a b p = Inr p'"
  shows "parser_ok p' \<and> pr_time p' = Some t \<and> (parser_cues t p \<longrightarrow> parser_cues t p')"
proof (cases rule: parse_text_cases [of a b p])
  case (2 cs n)
  then obtain q where q: "on_channel n (insertChars (Some t) cs) (p\<lparr>pr_lastCmd := None\<rparr>) = Inr q"
    "p' = q\<lparr>pr_char := pr_char q + 2\<rparr>"
    using assms(2,3) by (auto split: sum.splits)
  then show ?thesis
    using insert_chars.on_channel_keeps [OF _ q(1)] insert_chars.on_channel_cues [OF _ _ q(1)] assms(1,2)
      on_channel_time [OF q(1)] by simp
qed (use assms in auto)

lemma parse_text_total:
  assumes "parser_ok p" and "pr_time p = Some t" and "parser_le p B" and "28 \<le> B" and "B + 3 < int NR_COLS"
  shows "\<exists>p'. parse_text a b p = Inr p' \<and> parser_le p' (B + 3)"
proof (cases rule: parse_text_cases [of a b p])
  case (2 cs n)
  have l: "B + int (length cs) < int NR_COLS" "B + int (length cs) \<le> B + 3"
    using char_codes_length [OF 2(1)] assms(5) by linarith+
  have ok: "parser_ok (p\<lparr>pr_lastCmd := None\<rparr>)" "parser_le (p\<lparr>pr_lastCmd := None\<rparr>) B" using assms by simp_all
  obtain q where "on_channel n (insertChars (Some t) cs) (p\<lparr>pr_lastCmd := None\<rparr>) = Inr q"
    "parser_le q (B + int (length cs))"
    using insert_chars.on_channel_total [OF ok assms(4) l(1)] by blast
  then show ?thesis using 2 assms(2) l(2) by (auto intro: parser_le_mono)
qed (use assms in \<open>auto intro: parser_le_mono\<close>)

lemma addPair_keeps:
  assumes "parser_ok p" and "pr_time p = Some t" and "addPair a b p = Inr p'"
  shows "parser_ok p' \<and> pr_time p' = Some t \<and> (parser_cues t p \<longrightarrow> parser_cues t p')"
proof (cases "a = 0 \<and> b = 0")
  case True
  then show ?thesis using assms by (auto simp: addPair_eq)
next
  case False
  with assms(3) obtain found q where q: "parse_codes a b p = Inr (found, q)"
    "p' = q\<lparr>pr_cmd := pr_cmd q + 2\<rparr> \<or> parse_text a b q = Inr p'"
    by (auto simp: addPair_eq split: sum.splits bool.splits if_splits)
  have "parser_ok q" "pr_time q = Some t" "parser_cues t p \<longrightarrow> parser_cues t q"
    using codes.par_keeps [OF assms(1,2) q(1)] codes.par_time [OF q(1)] codes.par_cues [OF assms(1,2) _ q(1)] assms(2)
    by auto
  with q(2) show ?thesis using parse_text_keeps [of q t a b p'] by auto
qed

lemma addPair_total:
  assumes "parser_ok p" and "pr_time p = Some t" and "parser_le p B" and "28 \<le> B" and "B + 3 < int NR_COLS"
  shows "\<exists>p'. addPair a b p = Inr p' \<and> parser_le p' (B + 3)"
proof (cases "a = 0 \<and> b = 0")
  case True
  then show ?thesis using assms by (auto simp: addPair_eq intro: parser_le_mono)
next
  case False
  obtain found q where q: "parse_codes a b p = Inr (found, q)" "parser_le q (B + 3)"
    using codes.par_total [OF assms] by blast
  show ?thesis
  proof (cases found)
    case True
    then show ?thesis using False q by (intro exI [of _ "q\<lparr>pr_cmd := pr_cmd q + 2\<rparr>"]) (simp only: addPair_eq; simp)
  next
    case unfound: False
    then have "q = p" using q(1) codes.par_unfound by simp
    then show ?thesis using False q unfound parse_text_total [OF assms] by (simp add: addPair_eq)
  qed
qed

lemma addPairs_keeps:
  "parser_ok p \<Longrightarrow> pr_time p = Some t \<Longrightarrow> addPairs bs p = Inr p' \<Longrightarrow>
   parser_ok p' \<and> pr_time p' = Some t \<and> (parser_cues t p \<longrightarrow> parser_cues t p')"
proof (induction bs p rule: addPairs.induct)
  case (3 x y bs p)
  then obtain q where q: "addPair (x mod 128) (y mod 128) p = Inr q" "addPairs bs q = Inr p'"
    by (auto split: sum.splits)
  from addPair_keeps [OF "3.prems"(1,2) q(1)] "3.IH" [OF q(1) _ _ q(2)] show ?case by auto
qed (auto dest: addPair_keeps)

lemma addPairs_total:
  "parser_ok p \<Longrightarrow> pr_time p = Some t \<Longrightarrow> parser_le p B \<Longrightarrow> 28 \<le> B \<Longrightarrow>
   B + 3 * int ((length bs + 1) div 2) < int NR_COLS \<Longrightarrow>
   \<exists>p'. addPairs bs p = Inr p' \<and> parser_le p' (B + 3 * int ((length bs + 1) div 2))"
proof (induction bs p arbitrary: B rule: addPairs.induct)
  case (2 x p)
  then show ?case using addPair_total [of p t B] by simp
next
  case (3 x y bs p)
  have l: "(length (x # y # bs) + 1) div 2 = (length bs + 1) div 2 + 1" by simp
  have b: "B + 3 < int NR_COLS" "B + 3 + 3 * int ((length bs + 1) div 2) < int NR_COLS"
    using "3.prems"(5) unfolding l by simp_all
  obtain q where q: "addPair (x mod 128) (y mod 128) p = Inr q" "parser_le q (B + 3)"
    using addPair_total [OF "3.prems"(1-4) b(1)] by blast
  have "parser_ok q" "pr_time q = Some t" using addPair_keeps [OF "3.prems"(1,2) q(1)] by auto
  from "3.IH" [OF q(1) this q(2) _ b(2)] "3.prems"(4) show ?case
    unfolding l using q(1) by (auto simp: algebra_simps)
qed auto

end
