(* ===== verification/Cea608_Captions.thy ===== *)
theory Cea608_Captions
  imports Cea608_Ops
begin

text \<open>
  What captions look like: the cells a screen shows, text written into a row, erased screens,
  the effect of single byte pairs on channel 1, and the pop-on sequence on one channel.
\<close>

text \<open>What a screen shows: its styled characters, row by row.\<close>

definition shown :: "screen \<Rightarrow> styled_char list list" where
  "shown s = map rw_chars (cs_rows s)"

abbreviation blank :: styled_char where "blank \<equiv> new_StyledUnicodeChar"

definition blank_screen :: "styled_char list list" where
  "blank_screen = replicate NR_ROWS (replicate NR_COLS blank)"

lemma row_clear_new: "row_ok r \<Longrightarrow> row_clear r = new_Row"
proof -
  assume "row_ok r"
  then have "length (rw_chars r) = NR_COLS" by (simp add: row_ok_def)
  moreover have "map char_reset xs = replicate (length xs) blank" for xs
    by (induction xs) (simp_all add: char_reset_def new_StyledUnicodeChar_def)
  ultimately show ?thesis by (simp add: row_clear_def clearFromPos_def new_Row_def)
qed

lemma screen_reset_new:
  assumes "screen_ok s"
  shows "screen_reset s = \<lparr>cs_rows = replicate NR_ROWS new_Row, cs_currRow = int NR_ROWS - 1,
    cs_nrRollUpRows = cs_nrRollUpRows s\<rparr>"
proof -
  have "map row_clear (cs_rows s) = replicate (length (map row_clear (cs_rows s))) new_Row"
    using assms by (intro replicate_eqI) (auto simp: screen_ok_def row_clear_new)
  then show ?thesis using assms by (simp add: screen_reset_def screen_ok_def)
qed

subsection \<open>Inserting text\<close>

definition styled :: "pen_state \<Rightarrow> nat \<Rightarrow> styled_char" where
  "styled p b = \<lparr>sc_uchar = getCharForByte b, sc_pen = p\<rparr>"

lemma setChar_eq: "setChar (getCharForByte b) p c = styled p b"
  by (cases c) (simp add: setChar_def styled_def)

definition write_text :: "nat list \<Rightarrow> row \<Rightarrow> row" where
  "write_text bs r = r\<lparr>rw_chars := take (nat (rw_pos r)) (rw_chars r) @ map (styled (rw_pen r)) bs
     @ drop (nat (rw_pos r) + length bs) (rw_chars r), rw_pos := rw_pos r + int (length bs)\<rparr>"

lemma insert_basic:
  assumes "row_ok r" and "rw_pos r < int NR_COLS" and "b < 0x90"
  shows "row_insertChar b r = Inr (write_text [b] r)"
proof -
  have p: "0 \<le> rw_pos r" "rw_pos r < int (length (rw_chars r))" using assms by (auto simp: row_ok_def)
  then have u: "(rw_chars r)[nat (rw_pos r) := c] = take (nat (rw_pos r)) (rw_chars r) @ [c]
      @ drop (nat (rw_pos r) + 1) (rw_chars r)" for c
    by (simp add: upd_conv_take_nth_drop)
  have c: "on_char (rw_pos r) (setChar (getCharForByte b) (rw_pen r)) r
      = Inr (r\<lparr>rw_chars := (rw_chars r)[nat (rw_pos r) := styled (rw_pen r) b]\<rparr>)"
    using p by (simp add: on_char_def setChar_eq)
  show ?thesis
    using assms c p unfolding row_insertChar_def u
    by (simp add: row_moveCursor_def row_setCursor_def write_text_def)
qed

lemma write_text_Cons:
  assumes "row_ok r" and "rw_pos r + int (length bs) < int NR_COLS"
  shows "write_text (b # bs) r = write_text bs (write_text [b] r)"
proof -
  have p: "0 \<le> rw_pos r" "nat (rw_pos r) < length (rw_chars r)" using assms by (auto simp: row_ok_def)
  then have "nat (rw_pos r + 1) = Suc (nat (rw_pos r))" by simp
  then show ?thesis using p by (simp add: write_text_def min_def add.commute add.left_commute)
qed

lemma write_text_ok:
  "row_ok r \<Longrightarrow> rw_pos r + int (length bs) \<le> int NR_COLS \<Longrightarrow> row_ok (write_text bs r)"
  by (auto simp: row_ok_def write_text_def)

lemma write_text_Nil [simp]: "write_text [] r = r"
  by (simp add: write_text_def)

text \<open>The non-displayed memory of a channel in pop-on mode takes the text at the cursor.\<close>

lemma insert_loop_text:
  assumes "screen_ok (ch_nonDisp c)" and "ch_write c = NonDisp" and "\<forall>b \<in> set bs. b < 0x90"
    and "rw_pos (cs_rows (ch_nonDisp c) ! nat (cs_currRow (ch_nonDisp c))) + int (length bs) \<le> int NR_COLS"
  shows "insert_loop bs c = Inr (c\<lparr>ch_nonDisp := (ch_nonDisp c)\<lparr>cs_rows :=
    (cs_rows (ch_nonDisp c))[nat (cs_currRow (ch_nonDisp c)) :=
      write_text bs (cs_rows (ch_nonDisp c) ! nat (cs_currRow (ch_nonDisp c)))]\<rparr>\<rparr>)"
  using assms
proof (induction bs arbitrary: c)
  case (Cons b bs)
  let ?s = "ch_nonDisp c"
  let ?i = "nat (cs_currRow ?s)"
  let ?r = "cs_rows ?s ! ?i"
  let ?c = "c\<lparr>ch_nonDisp := ?s\<lparr>cs_rows := (cs_rows ?s)[?i := write_text [b] ?r]\<rparr>\<rparr>"
  have r: "row_ok ?r" "rw_pos ?r < int NR_COLS" "rw_pos ?r + int (length bs) < int NR_COLS"
    using curr_row_ok [OF Cons.prems(1)] Cons.prems(4) by simp_all
  have i: "?i < length (cs_rows ?s)" using Cons.prems(1) by (auto simp: screen_ok_def)
  have "row_insertChar b ?r = Inr (write_text [b] ?r)" using insert_basic r Cons.prems(3) by simp
  then have 1: "on_write (insertChar b) c = Inr ?c"
    using Cons.prems(1,2) by (simp add: on_write_def insertChar_def on_row_eq)
  have ok: "screen_ok (ch_nonDisp ?c)"
    using update_row_ok [OF Cons.prems(1) write_text_ok [OF r(1), of "[b]"]] r(2) by simp
  have "insert_loop bs ?c = Inr (?c\<lparr>ch_nonDisp := (ch_nonDisp ?c)\<lparr>cs_rows :=
    (cs_rows (ch_nonDisp ?c))[?i := write_text bs (write_text [b] ?r)]\<rparr>\<rparr>)"
    using Cons.IH [OF ok] Cons.prems(2,3,4) i by (simp add: write_text_def)
  then show ?case using 1 write_text_Cons [OF r(1,3), of b] by simp
qed simp

subsection \<open>Preamble codes\<close>

text \<open>The pen and the cursor that a preamble code with an indent sets on an erased screen.\<close>

definition indent_pen :: "bool \<Rightarrow> pen_state" where
  "indent_pen u = new_PenState\<lparr>ps_underline := u\<rparr>"

lemma setPAC_erased:
  assumes "screen_ok s" and "cs_nrRollUpRows s = None" and "pac_ok pac" and "pd_indent pac = Some i"
    and "\<not> pd_italics pac"
  shows "setPAC pac (screen_reset s) = Inr \<lparr>cs_rows = (replicate NR_ROWS new_Row)[nat (pd_row pac - 1) :=
      \<lparr>rw_chars = (replicate NR_COLS blank)[nat i := setPenState (indent_pen (pd_underline pac)) blank],
       rw_pos = i, rw_pen = indent_pen (pd_underline pac)\<rparr>],
    cs_currRow = pd_row pac - 1, cs_nrRollUpRows = None\<rparr>"
proof -
  let ?s = "screen_reset s"
  have row: "pac_row ?s pac = pd_row pac - 1" using assms(2) by (simp add: pac_row_def rolling_def)
  have scr: "pac_screen pac ?s = \<lparr>cs_rows = replicate NR_ROWS new_Row, cs_currRow = pd_row pac - 1, cs_nrRollUpRows = None\<rparr>"
    unfolding pac_screen_def Let_def row by (simp add: rolling_def screen_reset_new [OF assms(1)] assms(2))
  have b: "0 \<le> pd_row pac - 1" "pd_row pac - 1 < int NR_ROWS" "0 \<le> i" "i \<le> 28" using assms(3,4) by (auto simp: pac_ok_def)
  have fg: "ps_foreground (sc_pen blank) = ''white''"
    by (simp add: new_StyledUnicodeChar_def new_PenState_def)
  have pen: "setStyles (pac_styles (pac\<lparr>pd_color := Some ''white''\<rparr>)) new_PenState = indent_pen (pd_underline pac)"
    using assms(5) by (simp add: setStyles_def pac_styles_def or_else_def indent_pen_def new_PenState_def)
  show ?thesis
    unfolding setPAC_eq [OF screen_reset_ok [OF assms(1)] assms(3)] Let_def assms(4) option.case row scr
    using b
    by (simp add: fg setPen_def on_row_def setPenStyles_def Let_def on_char_def row_setCursor_def NR_COLS_def
        new_Row_def [unfolded NR_COLS_def] pen)
qed

subsection \<open>Single pairs\<close>

lemma addPair_control:
  assumes "0x20 \<le> b" "b \<le> 0x2F" and "pr_lastCmd p \<noteq> Some (0x14, b)"
    and "control_code (pr_time p) b (pr_ch1 p) = Inr c"
  shows "addPair 0x14 b p = Inr (p\<lparr>pr_ch1 := c, pr_lastCmd := Some (0x14, b), pr_currCh := Some Ch1, pr_cmd := pr_cmd p + 2\<rparr>)"
  using assms by (simp add: addPair_def parseCmd_def or_parse_def on_channel_def)

lemma addPair_pac:
  assumes "pac_pair a b" and "a \<le> 0x17" and "pr_lastCmd p \<noteq> Some (a, b)"
    and "on_write (setPAC (interpretPAC (int (the (pac_table a b))) b)) (pr_ch1 p) = Inr c"
  shows "addPair a b p = Inr (p\<lparr>pr_ch1 := c, pr_lastCmd := Some (a, b), pr_currCh := Some Ch1, pr_cmd := pr_cmd p + 2\<rparr>)"
proof -
  have ab: "0x40 \<le> b" "a \<noteq> 0" using assms(1) by (auto simp: pac_pair_def)
  have "parseCmd a b p = Inr (False, p)" "parseMidrow a b p = Inr (False, p)"
    using ab by (simp_all add: parseCmd_def parseMidrow_def)
  then show ?thesis
    using assms ab by (simp add: addPair_def or_parse_def parsePAC_eq on_channel_def)
qed

definition text_pair :: "nat \<times> nat \<Rightarrow> bool" where
  "text_pair ab \<longleftrightarrow> 0x20 \<le> fst ab \<and> fst ab \<le> 0x7f \<and> (snd ab = 0 \<or> 0x20 \<le> snd ab \<and> snd ab \<le> 0x7f)"

definition pair_codes :: "nat \<times> nat \<Rightarrow> nat list" where
  "pair_codes ab = (if snd ab = 0 then [fst ab] else [fst ab, snd ab])"

lemma addPair_text:
  assumes "text_pair (a, b)" and "pr_currCh p = Some Ch1"
    and "insertChars (pr_time p) (pair_codes (a, b)) (pr_ch1 p) = Inr c"
  shows "addPair a b p = Inr (p\<lparr>pr_ch1 := c, pr_lastCmd := None, pr_char := pr_char p + 2\<rparr>)"
proof -
  have a: "0x20 \<le> a" "a \<le> 0x7f" using assms(1) by (auto simp: text_pair_def)
  have "parseCmd a b p = Inr (False, p)" "parseMidrow a b p = Inr (False, p)" "parsePAC a b p = Inr (False, p)"
    "parseBackgroundAttributes a b p = Inr (False, p)"
    using a by (simp_all add: parseCmd_def parseMidrow_def parsePAC_def parseBackgroundAttributes_def)
  moreover have "char_codes a b = Some (pair_codes (a, b))"
  proof -
    have "\<not> a - 8 \<le> 0x13" using a by simp
    then show ?thesis using a by (simp add: char_codes_def pair_codes_def Let_def)
  qed
  ultimately show ?thesis
    using a assms(2,3) by (simp add: addPair_def or_parse_def parseChars_def on_channel_def)
qed

lemma insert_loop_append:
  "insert_loop (as @ bs) c = (case insert_loop as c of Inl e \<Rightarrow> Inl e | Inr c' \<Rightarrow> insert_loop bs c')"
  by (induction as arbitrary: c) (auto split: sum.splits)

lemma insert_loop_mode: "insert_loop bs c = Inr c' \<Longrightarrow> ch_mode c' = ch_mode c"
  by (induction bs arbitrary: c)
    (fastforce simp: on_write_def split: sum.splits write_screen.splits)+

text \<open>A run of text pairs in pop-on mode.\<close>

lemma addPairs_text:
  assumes "\<forall>ab \<in> set ps. text_pair ab" and "ps \<noteq> []" and "pr_currCh p = Some Ch1"
    and "ch_mode (pr_ch1 p) = Some MODE_POP_ON"
    and "insert_loop (concat (map pair_codes ps)) (pr_ch1 p) = Inr c"
  shows "addPairs (concat (map (\<lambda>(a, b). [a, b]) ps) @ rest) p
    = addPairs rest (p\<lparr>pr_ch1 := c, pr_lastCmd := None, pr_char := pr_char p + 2 * length ps\<rparr>)"
  using assms
proof (induction ps arbitrary: p)
  case (Cons ab ps)
  obtain a b where ab: "ab = (a, b)" by force
  have t: "text_pair (a, b)" using Cons.prems(1) ab by simp
  obtain d where d: "insert_loop (pair_codes (a, b)) (pr_ch1 p) = Inr d"
    "insert_loop (concat (map pair_codes ps)) d = Inr c"
    using Cons.prems(5) by (auto simp: ab insert_loop_append split: sum.splits)
  have m: "ch_mode d = Some MODE_POP_ON" using insert_loop_mode [OF d(1)] Cons.prems(4) by simp
  have "insertChars (pr_time p) (pair_codes (a, b)) (pr_ch1 p) = Inr d"
    using d(1) m by (simp add: insertChars_def)
  from addPair_text [OF t Cons.prems(3) this]
  have step: "addPair a b p = Inr (p\<lparr>pr_ch1 := d, pr_lastCmd := None, pr_char := pr_char p + 2\<rparr>)" .
  have "a mod 128 = a" "b mod 128 = b" using t by (auto simp: text_pair_def)
  then have "addPairs (concat (map (\<lambda>(a, b). [a, b]) (ab # ps)) @ rest) p
      = addPairs (concat (map (\<lambda>(a, b). [a, b]) ps) @ rest) (p\<lparr>pr_ch1 := d, pr_lastCmd := None, pr_char := pr_char p + 2\<rparr>)"
    using step by (simp add: ab)
  also have "\<dots> = addPairs rest (p\<lparr>pr_ch1 := c, pr_lastCmd := None, pr_char := pr_char p + 2 * length (ab # ps)\<rparr>)"
  proof (cases "ps = []")
    case True
    then show ?thesis using d(2) by simp
  next
    case False
    then show ?thesis using Cons.IH [of "p\<lparr>pr_ch1 := d, pr_lastCmd := None, pr_char := pr_char p + 2\<rparr>"] Cons.prems(1,3) m d(2)
      by (simp add: add.assoc)
  qed
  finally show ?case .
qed simp

subsection \<open>A pop-on caption\<close>

lemma RCL_ENM:
  assumes "chan_ok c"
  shows "\<exists>s. screen_ok s \<and> cs_nrRollUpRows s = None \<and> ch_nonDisp (ccENM (ccRCL c)) = screen_reset s
    \<and> ch_write (ccENM (ccRCL c)) = NonDisp \<and> ch_mode (ccENM (ccRCL c)) = Some MODE_POP_ON
    \<and> chan_ok (ccRCL c) \<and> chan_ok (ccENM (ccRCL c))"
proof -
  have 1: "chan_ok (ccRCL c)" unfolding ccRCL_def by (rule setMode_ok [OF assms])
  moreover have "ch_mode (ccRCL c) = Some MODE_POP_ON" by (simp add: ccRCL_def setMode_def Let_def)
  moreover have "chan_ok (ccENM (ccRCL c))" using 1 by (simp add: ccENM_def chan_ok_def screen_reset_ok)
  ultimately show ?thesis by (auto simp: ccENM_def chan_ok_def intro!: exI [of _ "ch_nonDisp (ccRCL c)"])
qed

text \<open>The characters of a row with text from column \<open>i\<close> on.\<close>

definition text_row :: "nat \<Rightarrow> pen_state \<Rightarrow> nat list \<Rightarrow> styled_char list" where
  "text_row i p bs = replicate i blank @ map (styled p) bs @ replicate (NR_COLS - i - length bs) blank"

lemma write_text_erased:
  assumes "bs \<noteq> []" and "i + length bs \<le> NR_COLS"
  shows "rw_chars (write_text bs \<lparr>rw_chars = (replicate NR_COLS blank)[i := x], rw_pos = int i, rw_pen = p\<rparr>)
    = text_row i p bs"
proof -
  have "drop (i + length bs) ((replicate NR_COLS blank)[i := x]) = replicate (NR_COLS - (i + length bs)) blank"
    using assms by (cases bs) (simp_all add: drop_update_cancel)
  then show ?thesis using assms(2) by (simp add: write_text_def text_row_def take_update_cancel min_def)
qed

lemma popon_shown:
  assumes ok: "chan_ok c" and pac: "pac_ok pac" "pd_indent pac = Some (int i)" "\<not> pd_italics pac"
    and bs: "bs \<noteq> []" "\<forall>b \<in> set bs. b < 0x90" "i + length bs \<le> NR_COLS"
  shows "\<exists>c1 c2. on_write (setPAC pac) (ccENM (ccRCL c)) = Inr c1 \<and> insert_loop bs c1 = Inr c2
    \<and> ch_mode c1 = Some MODE_POP_ON \<and> ch_mode c2 = Some MODE_POP_ON
    \<and> shown (ch_nonDisp c2) = blank_screen[nat (pd_row pac - 1) := text_row i (indent_pen (pd_underline pac)) bs]"
proof -
  let ?c = "ccENM (ccRCL c)"
  obtain s where s: "screen_ok s" "cs_nrRollUpRows s = None" "ch_nonDisp ?c = screen_reset s"
    "ch_write ?c = NonDisp" "ch_mode ?c = Some MODE_POP_ON" "chan_ok ?c" using RCL_ENM [OF ok] by blast
  let ?pen = "indent_pen (pd_underline pac)"
  let ?R = "nat (pd_row pac - 1)"
  let ?r = "\<lparr>rw_chars = (replicate NR_COLS blank)[i := setPenState ?pen blank], rw_pos = int i, rw_pen = ?pen\<rparr>"
  let ?s = "\<lparr>cs_rows = (replicate NR_ROWS new_Row)[?R := ?r], cs_currRow = pd_row pac - 1, cs_nrRollUpRows = None\<rparr>"
  let ?c1 = "?c\<lparr>ch_nonDisp := ?s\<rparr>"
  have R: "?R < NR_ROWS" "0 \<le> pd_row pac - 1" using pac(1) by (auto simp: pac_ok_def)
  have "setPAC pac (screen_reset s) = Inr ?s" using setPAC_erased [OF s(1,2) pac(1,2,3)] by simp
  then have 1: "on_write (setPAC pac) ?c = Inr ?c1" using s(3,4) by (simp add: on_write_def)
  have "chan_ok ?c1" using screen_op.on_write_keeps [OF setPAC_op [OF pac(1)] s(6) 1] .
  then have ok1: "screen_ok (ch_nonDisp ?c1)" by (simp only: chan_ok_def)
  have "insert_loop bs ?c1 = Inr (?c1\<lparr>ch_nonDisp := ?s\<lparr>cs_rows := (cs_rows ?s)[?R := write_text bs ?r]\<rparr>\<rparr>)"
    using insert_loop_text [OF ok1 _ bs(2)] s(4) R bs(3) by simp
  moreover have "shown (?s\<lparr>cs_rows := (cs_rows ?s)[?R := write_text bs ?r]\<rparr>) = blank_screen[?R := text_row i ?pen bs]"
    using write_text_erased [OF bs(1,3)] R by (simp add: shown_def map_update blank_screen_def new_Row_def)
  ultimately show ?thesis using 1 s(5) by (intro exI conjI) (assumption | simp)+
qed

end
