(* ===== verification/Cea608_Props.thy ===== *)
theory Cea608_Props
  imports Cea608_Captions
begin

text \<open>
  The properties of the caption decoder: its reachable states, the pop-on caption byte by byte,
  cues, roll-up, repeated codes, preamble codes, and where it throws.
\<close>

subsection \<open>Reachable decoders\<close>

text \<open>What the player does with a decoder, in any order: new data, cue splits, resets, new handlers.\<close>

inductive reachable :: "parser \<Rightarrow> bool" where
  reach_new: "reachable (new_Cea608Parser out1 out2)"
| reach_data: "reachable p \<Longrightarrow> addData t bs p = Inr p' \<Longrightarrow> reachable p'"
| reach_reset: "reachable p \<Longrightarrow> reachable (parser_reset p)"
| reach_split: "reachable p \<Longrightarrow> reachable (parser_cueSplit t p)"
| reach_handler: "reachable p \<Longrightarrow> reachable (parser_setHandler n h p)"

inductive_cases reach_dataE: "reachable p"

lemma new_parser_ok: "parser_ok (new_Cea608Parser out1 out2)"
  "parser_le (new_Cea608Parser out1 out2) 28" "parser_cues t (new_Cea608Parser out1 out2)"
  by (simp_all add: parser_ok_def parser_le_def parser_cues_def new_Cea608Parser_def channel_new
      chan_le_mono [OF channel_new(3)])

lemma addData_keeps: "parser_ok p \<Longrightarrow> addData t bs p = Inr p' \<Longrightarrow> parser_ok p'"
  using addPairs_keeps [of "p\<lparr>pr_time := Some t\<rparr>" t bs p'] by (simp add: addData_def)

lemma reachable_inv: "reachable p \<Longrightarrow> parser_ok p"
proof (induction rule: reachable.induct)
  case (reach_data p t bs p')
  then show ?case by (blast intro: addData_keeps)
next
  case (reach_handler p n h)
  then show ?case by (cases n) (simp_all add: parser_setHandler_def parser_ok_def chan_ok_def)
qed (simp_all add: new_parser_ok, simp_all add: parser_ok_def parser_reset_def parser_cueSplit_def
    channel_reset_ok channel_split_ok)

subsection \<open>Runs in the order of time\<close>

text \<open>
  The same calls in the order of time. The player itself never splits a cue; a split is allowed here while no channel
  shows something that it has not reported yet, see \<open>unannounced_split\<close>.
\<close>

definition announced :: "channel \<Rightarrow> bool" where
  "announced c \<longleftrightarrow> ch_outputFilter c = None \<or> screen_isEmpty (ch_disp c) \<or> ch_cueStart c \<noteq> None"

inductive timed :: "rat \<Rightarrow> parser \<Rightarrow> bool" where
  timed_new: "timed t (new_Cea608Parser out1 out2)"
| timed_data: "timed t p \<Longrightarrow> t \<le> t' \<Longrightarrow> addData t' bs p = Inr p' \<Longrightarrow> timed t' p'"
| timed_reset: "timed t p \<Longrightarrow> timed t (parser_reset p)"
| timed_handler: "timed t p \<Longrightarrow> timed t (parser_setHandler n h p)"
| timed_split: "timed t p \<Longrightarrow> t \<le> t' \<Longrightarrow> announced (pr_ch1 p) \<Longrightarrow> announced (pr_ch2 p) \<Longrightarrow> timed t' (parser_cueSplit t' p)"

lemma split_cues: "cue_ok t c \<Longrightarrow> t \<le> t' \<Longrightarrow> announced c \<Longrightarrow> cue_ok t' (channel_cueSplit t' c)"
  by (auto simp: cue_ok_def channel_cueSplit_def announced_def push_event_def cue_wf_def split: option.splits)

lemma addData_cues_kept:
  assumes "parser_ok p" "parser_cues t p" "t \<le> t'" "addData t' bs p = Inr p'"
  shows "parser_cues t' p'"
proof -
  have "parser_cues t' (p\<lparr>pr_time := Some t'\<rparr>)" using assms(2,3) by (auto simp: parser_cues_def intro: cue_ok_mono)
  then show ?thesis using addPairs_keeps [of "p\<lparr>pr_time := Some t'\<rparr>" t' bs p'] assms(1,4) by (simp add: addData_def)
qed

lemma timed_inv: "timed t p \<Longrightarrow> parser_ok p \<and> parser_cues t p"
proof (induction rule: timed.induct)
  case (timed_new t out1 out2)
  then show ?case using new_parser_ok by blast
next
  case (timed_data t p t' bs p')
  then show ?case using addData_keeps addData_cues_kept by blast
next
  case (timed_reset t p)
  then show ?case by (auto simp: parser_reset_def parser_ok_def parser_cues_def channel_reset_ok channel_reset_cues)
next
  case (timed_handler t p n h)
  then show ?case by (cases n) (simp_all add: parser_setHandler_def parser_ok_def chan_ok_def parser_cues_def cue_ok_def)
next
  case (timed_split t p t')
  then show ?case by (auto simp: parser_cueSplit_def parser_ok_def parser_cues_def channel_split_ok split_cues)
qed

subsection \<open>Rows after a splice\<close>

lemma nth_remove: "i < length xs \<Longrightarrow> j < length xs - 1 \<Longrightarrow>
    (take i xs @ drop (i + 1) xs) ! j = (if j < i then xs ! j else xs ! (j + 1))"
  by (simp add: nth_append)

lemma nth_insert: "k \<le> length xs \<Longrightarrow> j \<le> length xs \<Longrightarrow>
    (take k xs @ [x] @ drop k xs) ! j = (if j < k then xs ! j else if j = k then x else xs ! (j - 1))"
  by (auto simp: nth_append nth_Cons')

lemma nth_splice_move:
  assumes "i < length rows" and "k < length rows" and "j < length rows"
  shows "splice_move i k rows ! j =
    (if j = k then row_clear (rows ! i)
     else if j < k then (if j < i then rows ! j else rows ! (j + 1))
     else (if j - 1 < i then rows ! (j - 1) else rows ! j))"
proof -
  let ?rest = "take i rows @ drop (i + 1) rows"
  have l: "length ?rest = length rows - 1" using assms(1) by simp
  have "splice_move i k rows ! j = (if j < k then ?rest ! j else if j = k then row_clear (rows ! i) else ?rest ! (j - 1))"
    unfolding splice_move_def Let_def using assms l by (intro nth_insert) auto
  moreover have "?rest ! j = (if j < i then rows ! j else rows ! (j + 1))" if "j < k"
    using that assms by (intro nth_remove) auto
  moreover have "?rest ! (j - 1) = (if j - 1 < i then rows ! (j - 1) else rows ! j)" if "k < j"
    using that assms nth_remove [of i rows "j - 1"] by auto
  ultimately show ?thesis by simp
qed

subsection \<open>A closed run\<close>

lemma new_parser_lastCmd [simp]: "pr_lastCmd (new_Cea608Parser out1 out2) = None"
  by (simp add: new_Cea608Parser_def)

lemma indent_pen_False [simp]: "indent_pen False = new_PenState"
  by (simp add: indent_pen_def new_PenState_def)

definition newCue_filter :: output_filter where
  "newCue_filter = \<lparr>of_updateData = False, of_newCue = True\<rparr>"

definition pac_first :: "nat \<Rightarrow> nat" where
  "pac_first row = [0x11, 0x11, 0x12, 0x12, 0x15, 0x15, 0x16, 0x16, 0x17, 0x17, 0x10, 0x13, 0x13, 0x14, 0x14] ! (row - 1)"

definition pac_base :: "nat \<Rightarrow> nat" where
  "pac_base row = (if row \<in> {1, 3, 5, 7, 9, 11, 12, 14} then 0x40 else 0x60)"

datatype pac_style = Color nat | Italic | Indent nat

fun style_code :: "pac_style \<Rightarrow> nat" where
  "style_code (Color n) = 2 * n"
| "style_code Italic = 14"
| "style_code (Indent n) = 16 + 2 * n"

fun style_ok :: "pac_style \<Rightarrow> bool" where
  "style_ok (Color n) \<longleftrightarrow> n \<le> 6"
| "style_ok Italic \<longleftrightarrow> True"
| "style_ok (Indent n) \<longleftrightarrow> n \<le> 7"

definition pac_second :: "nat \<Rightarrow> pac_style \<Rightarrow> bool \<Rightarrow> nat" where
  "pac_second row st u = pac_base row + style_code st + of_bool u"

fun style_data :: "pac_style \<Rightarrow> nat \<Rightarrow> bool \<Rightarrow> pac_data" where
  "style_data (Color n) row u = \<lparr>pd_color = Some (pac_colors ! n), pd_italics = False, pd_indent = None,
     pd_underline = u, pd_row = int row\<rparr>"
| "style_data Italic row u = \<lparr>pd_color = Some ''white'', pd_italics = True, pd_indent = None,
     pd_underline = u, pd_row = int row\<rparr>"
| "style_data (Indent n) row u = \<lparr>pd_color = None, pd_italics = False, pd_indent = Some (4 * int n),
     pd_underline = u, pd_row = int row\<rparr>"

lemma style_code_bound: "style_ok st \<Longrightarrow> style_code st + of_bool u \<le> 31"
  by (cases st) auto

lemma row_cases: "1 \<le> row \<Longrightarrow> row \<le> 15 \<Longrightarrow> row \<in> {1 :: nat, 2, 3, 4, 5, 6, 7, 8, 9, 10, 11, 12, 13, 14, 15}"
  by (simp only: insert_iff empty_iff) presburger

lemma pac_code_found:
  assumes "1 \<le> row" "row \<le> 15" "style_ok st"
  shows "pac_pair (pac_first row) (pac_second row st u) \<and> pac_first row \<le> 0x17
    \<and> pac_table (pac_first row) (pac_second row st u) = Some row"
proof -
  define k where "k = style_code st + of_bool u"
  have k: "k \<le> 31" using style_code_bound [OF assms(3)] by (simp add: k_def)
  have s: "pac_second row st u = pac_base row + k" by (simp add: pac_second_def k_def)
  show ?thesis
    using row_cases [OF assms(1,2)] k unfolding s
    by (elim insertE; simp add: pac_first_def pac_base_def pac_pair_def pac_table_def rowsLowCh1_def rowsHighCh1_def)
qed

definition control_pair :: "nat \<Rightarrow> nat \<Rightarrow> bool" where
  "control_pair a b \<longleftrightarrow> ((a = 0x14 \<or> a = 0x1C) \<and> 0x20 \<le> b \<and> b \<le> 0x2F)
     \<or> ((a = 0x17 \<or> a = 0x1F) \<and> 0x21 \<le> b \<and> b \<le> 0x23)"

definition pac_a :: "chan_nr \<Rightarrow> nat \<Rightarrow> nat" where
  "pac_a ch row = (case ch of Ch1 \<Rightarrow> pac_first row | Ch2 \<Rightarrow> pac_first row + 8)"

lemma pac_code_found2:
  assumes "1 \<le> row" "row \<le> 15" "style_ok st"
  shows "pac_pair (pac_first row + 8) (pac_second row st u) \<and> \<not> pac_first row + 8 \<le> 0x17
    \<and> pac_table (pac_first row + 8) (pac_second row st u) = Some row"
proof -
  define k where "k = style_code st + of_bool u"
  have k: "k \<le> 31" using style_code_bound [OF assms(3)] by (simp add: k_def)
  have s: "pac_second row st u = pac_base row + k" by (simp add: pac_second_def k_def)
  show ?thesis
    using row_cases [OF assms(1,2)] k unfolding s
    by (elim insertE; simp add: pac_first_def pac_base_def pac_pair_def pac_table_def rowsLowCh2_def rowsHighCh2_def)
qed

lemma interpretPAC_code:
  assumes "style_ok st"
  shows "interpretPAC (int row) (pac_second row st u) = style_data st row u"
proof -
  have k: "style_code st + of_bool u \<le> 31" by (rule style_code_bound [OF assms])
  have i: "(if pac_second row st u > 0x5F then pac_second row st u - 0x60 else pac_second row st u - 0x40)
      = style_code st + of_bool u"
    using k by (auto simp: pac_second_def pac_base_def)
  show ?thesis
    unfolding interpretPAC_def Let_def i using assms by (cases st; cases u) auto
qed

lemma style_data_ok: "style_ok st \<Longrightarrow> 1 \<le> row \<Longrightarrow> row \<le> 15 \<Longrightarrow> pac_ok (style_data st row u)"
  by (cases st) (auto simp: pac_ok_def NR_ROWS_def)

section \<open>Properties\<close>

text \<open>
  C6. A pop-on caption, byte by byte: fed to a decoder in any well-formed state, the bytes RCL, ENM,
  a preamble code for a row with an indent, pairs of basic characters that fit the row, and EOC
  put exactly that text on the displayed screen of channel 1, at that row and column and with the
  underline asked for; all other cells are blank and channel 2 is untouched.
\<close>

theorem popon_caption:
  assumes "parser_ok p" and "pr_lastCmd p \<noteq> Some (0x14, 0x20)"
    and "1 \<le> row" "row \<le> 15" "n \<le> 7"
    and "ps \<noteq> []" "\<forall>ab \<in> set ps. text_pair ab" "4 * n + length (concat (map pair_codes ps)) \<le> NR_COLS"
  shows "\<exists>p'. addData t ([0x14, 0x20, 0x14, 0x2e, pac_first row, pac_second row (Indent n) u]
      @ concat (map (\<lambda>(a, b). [a, b]) ps) @ [0x14, 0x2f]) p = Inr p'
    \<and> shown (ch_disp (pr_ch1 p')) = blank_screen[row - 1 := text_row (4 * n) (indent_pen u) (concat (map pair_codes ps))]
    \<and> pr_ch2 p' = pr_ch2 p"
proof -
  let ?a = "pac_first row" and ?b = "pac_second row (Indent n) u"
  let ?bs = "concat (map pair_codes ps)"
  let ?pac = "interpretPAC (int row) ?b"
  let ?c = "pr_ch1 p"
  have found: "pac_pair ?a ?b" "?a \<le> 0x17" "pac_table ?a ?b = Some row"
    using pac_code_found [OF assms(3,4), of "Indent n" u] assms(5) by auto
  have pac: "?pac = style_data (Indent n) row u" using assms(5) by (intro interpretPAC_code) simp
  have pok: "pac_ok ?pac" "pd_indent ?pac = Some (int (4 * n))" "\<not> pd_italics ?pac" "pd_row ?pac = int row"
    "pd_underline ?pac = u"
    unfolding pac using assms(3-5) by (simp_all add: style_data_ok [of "Indent n", simplified])
  have codes: "\<forall>b \<in> set (pair_codes ab). b < 0x90" "pair_codes ab \<noteq> []" if "text_pair ab" for ab
    using that by (auto simp: text_pair_def pair_codes_def)
  have bs: "?bs \<noteq> []" "\<forall>b \<in> set ?bs. b < 0x90" using assms(6,7) codes by (cases ps; auto)+
  have ok: "chan_ok ?c" using assms(1) by (simp add: parser_ok_def)
  obtain c1 c2 where c: "on_write (setPAC ?pac) (ccENM (ccRCL ?c)) = Inr c1" "insert_loop ?bs c1 = Inr c2"
    "ch_mode c1 = Some MODE_POP_ON" "ch_mode c2 = Some MODE_POP_ON"
    "shown (ch_nonDisp c2) = blank_screen[nat (pd_row ?pac - 1) := text_row (4 * n) (indent_pen (pd_underline ?pac)) ?bs]"
    using popon_shown [OF ok pok(1,2,3) bs assms(8)] by blast
  define p0 where "p0 = p\<lparr>pr_time := Some t\<rparr>"
  define p1 where "p1 = p0\<lparr>pr_ch1 := ccRCL ?c, pr_lastCmd := Some (0x14, 0x20), pr_currCh := Some Ch1, pr_cmd := pr_cmd p0 + 2\<rparr>"
  define p2 where "p2 = p1\<lparr>pr_ch1 := ccENM (ccRCL ?c), pr_lastCmd := Some (0x14, 0x2e), pr_currCh := Some Ch1, pr_cmd := pr_cmd p1 + 2\<rparr>"
  define p3 where "p3 = p2\<lparr>pr_ch1 := c1, pr_lastCmd := Some (?a, ?b), pr_currCh := Some Ch1, pr_cmd := pr_cmd p2 + 2\<rparr>"
  define p4 where "p4 = p3\<lparr>pr_ch1 := c2, pr_lastCmd := None, pr_char := pr_char p3 + 2 * length ps\<rparr>"
  define p5 where "p5 = p4\<lparr>pr_ch1 := ccEOC (Some t) c2, pr_lastCmd := Some (0x14, 0x2f), pr_currCh := Some Ch1, pr_cmd := pr_cmd p4 + 2\<rparr>"
  have 1: "addPair 0x14 0x20 p0 = Inr p1"
    unfolding p1_def using assms(2) by (intro addPair_control) (simp_all add: p0_def control_code_def)
  have 2: "addPair 0x14 0x2e p1 = Inr p2"
    unfolding p2_def by (intro addPair_control) (simp_all add: p1_def control_code_def)
  have 3: "addPair ?a ?b p2 = Inr p3"
    unfolding p3_def using found c(1) by (intro addPair_pac) (auto simp: p2_def pac_pair_def)
  have 4: "addPairs (concat (map (\<lambda>(a, b). [a, b]) ps) @ rest) p3 = addPairs rest p4" for rest
    unfolding p4_def using assms(6,7) c(2,3) by (intro addPairs_text) (simp_all add: p3_def)
  have 5: "addPair 0x14 0x2f p4 = Inr p5"
    unfolding p5_def by (intro addPair_control)
      (simp_all add: p4_def p3_def p2_def p1_def p0_def control_code_def)
  have m: "?a mod 128 = ?a" "?b mod 128 = ?b" using found(1) by (auto simp: pac_pair_def)
  have "addData t ([0x14, 0x20, 0x14, 0x2e, ?a, ?b] @ concat (map (\<lambda>(a, b). [a, b]) ps) @ [0x14, 0x2f]) p = Inr p5"
    unfolding addData_def p0_def [symmetric] by (simp add: m 1 2 3 4 5)
  moreover have "shown (ch_disp (pr_ch1 p5)) = blank_screen[row - 1 := text_row (4 * n) (indent_pen u) ?bs]"
  proof -
    have "nat (int row - 1) = row - 1" by simp
    then show ?thesis using c(4,5) pok(4,5) by (simp add: p5_def ccEOC_def Let_def)
  qed
  moreover have "pr_ch2 p5 = pr_ch2 p" by (simp add: p5_def p4_def p3_def p2_def p1_def p0_def)
  ultimately show ?thesis by blast
qed

lemma popon_caption_witness:
  "\<exists>p'. addData 5 [0x14, 0x20, 0x14, 0x2e, 0x14, 0x74, 0x48, 0x49, 0x14, 0x2f] (new_Cea608Parser None None) = Inr p'
    \<and> shown (ch_disp (pr_ch1 p')) = blank_screen[14 := text_row 8 new_PenState [0x48, 0x49]]"
  using popon_caption [OF new_parser_ok(1), of None None 15 2 "[(0x48, 0x49)]" 5 False]
  by (auto simp: text_pair_def pair_codes_def NR_COLS_def pac_first_def pac_second_def pac_base_def)

text \<open>
  C7. The structure of the decoder is an invariant: after any sequence of data, resets, cue splits
  and handler changes, all screens have 15 rows of 100 characters with their cursors inside, the
  roll-up depth is 2, 3 or 4 or absent, and the write screen is the one the mode asks for.
\<close>

theorem reachable_ok:
  assumes "reachable p"
  shows "parser_ok p"
  using assms by (rule reachable_inv)

lemma reachable_ok_witness: "parser_ok (parser_reset (new_Cea608Parser None None))"
  using reachable_ok [OF reach_reset [OF reach_new]] .

text \<open>
  Data cannot throw while the cursors leave room: if no cursor is past column \<open>B\<close> and the pairs
  times three still fit before the last column, \<open>addData\<close> succeeds on any bytes, and no cursor
  moves further than that.
\<close>

lemma addData_total:
  assumes "parser_ok p" and "parser_le p B" and "28 \<le> B"
    and "B + 3 * int ((length bs + 1) div 2) < int NR_COLS"
  shows "\<exists>p'. addData t bs p = Inr p' \<and> parser_ok p' \<and> parser_le p' (B + 3 * int ((length bs + 1) div 2))"
proof -
  let ?p = "p\<lparr>pr_time := Some t\<rparr>"
  have p: "parser_ok ?p" "pr_time ?p = Some t" "parser_le ?p B" using assms(1,2) by simp_all
  obtain p' where "addPairs bs ?p = Inr p'" "parser_le p' (B + 3 * int ((length bs + 1) div 2))"
    using addPairs_total [OF p assms(3,4)] by blast
  then show ?thesis using addPairs_keeps [OF p(1,2)] unfolding addData_def by blast
qed

lemma addData_total_witness:
  "\<exists>p'. addData 0 [0x17, 0x23, 0x11, 0x2e] (new_Cea608Parser None None) = Inr p'"
  using addData_total [OF new_parser_ok(1,2), where bs = "[0x17, 0x23, 0x11, 0x2e]" and t = 0]
  by (auto simp: NR_COLS_def)

text \<open>
  C8. Every cue makes sense: after any sequence of data with times that do not run backwards, resets, handler changes and
  cue splits, each cue that was handed to a filter has a start, does not start after its end, and shows at least one
  non-blank cell. Excluded are splits at which a channel shows something it has not reported, as after characters in text mode.
\<close>

theorem addData_cues:
  assumes "timed t p"
  shows "\<forall>st e s. NewCue st e s \<in> set (ch_out (pr_ch1 p)) \<union> set (ch_out (pr_ch2 p))
    \<longrightarrow> (\<exists>b. st = Some b \<and> b \<le> e) \<and> \<not> screen_isEmpty s"
proof -
  have "\<forall>ev \<in> set (ch_out (pr_ch1 p)) \<union> set (ch_out (pr_ch2 p)). cue_wf ev"
    using timed_inv [OF assms] by (auto simp: parser_cues_def cue_ok_def)
  moreover have "(\<exists>b. st = Some b \<and> b \<le> e) \<and> \<not> screen_isEmpty s" if "cue_wf (NewCue st e s)" for st e s
    using that by (auto simp: cue_wf_def split: option.splits)
  ultimately show ?thesis by blast
qed

lemma addData_cues_witness:
  "\<exists>p'. addData 3 [0x14, 0x29, 0x48, 0x49] (new_Cea608Parser (Some newCue_filter) None) = Inr p' \<and>
    \<not> (\<exists>st e s. NewCue st e s \<in> set (ch_out (pr_ch1 p')) \<and> (st = None \<or> screen_isEmpty s))"
proof -
  let ?p = "new_Cea608Parser (Some newCue_filter) None"
  have p: "parser_ok (?p\<lparr>pr_time := Some 3\<rparr>)" "pr_time (?p\<lparr>pr_time := Some 3\<rparr>) = Some 3" "parser_le (?p\<lparr>pr_time := Some 3\<rparr>) 28"
    using new_parser_ok(1,2) by simp_all
  obtain p' where "addPairs [0x14, 0x29, 0x48, 0x49] (?p\<lparr>pr_time := Some 3\<rparr>) = Inr p'"
    using addPairs_total [OF p, of "[0x14, 0x29, 0x48, 0x49]"] by (auto simp: NR_COLS_def)
  then have d: "addData 3 [0x14, 0x29, 0x48, 0x49] ?p = Inr p'" by (simp add: addData_def)
  then have "timed 3 p'" using timed_data [OF timed_new order_refl] by blast
  from addData_cues [OF this] d show ?thesis by blast
qed

text \<open>
  In text mode characters are displayed, but not reported. A split there hands over a cue without a start, and the next
  update a cue that shows nothing.
\<close>

lemma new_Row_clear [simp]: "row_clear new_Row = new_Row"
  by (simp add: row_clear_def clearFromPos_def new_Row_def char_reset_def new_StyledUnicodeChar_def)

lemma text_mode_unannounced:
  "\<exists>c. insertChars time [0x48] (ccTR (new_Cea608Channel (Some newCue_filter))) = Inr c \<and> \<not> announced c \<and> screen_isEmpty (ch_lastOutput c)"
proof -
  define r where "r = row_setCursor 1 (new_Row\<lparr>rw_chars := (rw_chars new_Row)[0 := setChar 0x48 new_PenState new_StyledUnicodeChar]\<rparr>)"
  have "\<not> char_isEmpty (rw_chars r ! 0)" "rw_chars r \<noteq> []"
    by (simp_all add: r_def row_setCursor_def new_Row_def char_isEmpty_def setChar_def NR_COLS_def)
  then have ne: "\<not> row_isEmpty r" by (metis list_all_length length_greater_0_conv row_isEmpty_def)
  have i: "row_insertChar 0x48 new_Row = Inr r"
    by (simp add: row_insertChar_def andthen_def on_char_def row_moveCursor_def r_def new_Row_def NR_COLS_def getCharForByte_def specialCea608CharsCodes_def Let_def)
  have "\<not> screen_isEmpty \<lparr>cs_rows = (replicate 15 new_Row)[14 := r], cs_currRow = 14, cs_nrRollUpRows = None\<rparr>"
    using ne by (auto simp: screen_isEmpty_def list_all_iff intro!: bexI [of _ r] set_update_memI)
  moreover have "screen_isEmpty new_CaptionScreen"
    by (simp add: new_CaptionScreen_def screen_reset_def screen_isEmpty_def list_all_iff)
      (simp add: row_isEmpty_def list_all_iff new_Row_def char_isEmpty_def new_StyledUnicodeChar_def pen_isDefault_def new_PenState_def)
  ultimately show ?thesis
    by (simp add: insertChars_def ccTR_def setMode_def new_Cea608Channel_def on_write_def insertChar_def on_row_def i
       andthen_def no_rollup_def new_CaptionScreen_def screen_reset_def NR_ROWS_def announced_def)
qed

lemma screen_empty_chars: "screen_isEmpty s \<longleftrightarrow> list_all (list_all char_isEmpty) (map rw_chars (cs_rows s))"
  by (simp add: screen_isEmpty_def row_isEmpty_def [abs_def] list.pred_map comp_def)

lemma unannounced_split:
  assumes "ch_outputFilter c = Some newCue_filter" "\<not> announced c" "screen_isEmpty (ch_lastOutput c)"
  shows "ch_out (outputDataUpdate (Some t') (channel_cueSplit t c)) = ch_out c @ [NewCue None t (ch_disp c), NewCue (Some t) t' (ch_lastOutput c)]"
proof -
  have "\<not> screen_equals (ch_disp c) (ch_lastOutput c)"
  proof
    assume "screen_equals (ch_disp c) (ch_lastOutput c)"
    then have "screen_isEmpty (ch_disp c) = screen_isEmpty (ch_lastOutput c)"
      using screen_empty_chars by (metis screen_equals_eq)
    then show False using assms(2,3) by (simp add: announced_def)
  qed
  then show ?thesis using assms
    by (auto simp: announced_def channel_cueSplit_def outputDataUpdate_def newCue_filter_def push_event_def Let_def)
qed

text \<open>
  A cue ends exactly when what is shown changes: \<open>outputDataUpdate\<close> emits one cue, from the start
  of the shown content to now and with that content, if something was shown and the screen now
  differs; it then remembers the new content and whether and since when it is shown.
\<close>

lemma outputDataUpdate_spec:
  assumes "chan_ok c" and "cue_ok t c" and "ch_outputFilter c = Some newCue_filter"
  shows "ch_out (outputDataUpdate (Some t) c) = ch_out c
      @ (if shown (ch_lastOutput c) = blank_screen \<or> shown (ch_disp c) = shown (ch_lastOutput c) then []
         else [NewCue (ch_cueStart c) t (ch_lastOutput c)])
    \<and> shown (ch_lastOutput (outputDataUpdate (Some t) c)) = shown (ch_disp c)
    \<and> ch_cueStart (outputDataUpdate (Some t) c) =
        (if shown (ch_disp c) = blank_screen then None
         else if shown (ch_disp c) = shown (ch_lastOutput c) then ch_cueStart c else Some t)"
proof -
  have ok: "screen_ok (ch_disp c)" "screen_ok (ch_lastOutput c)" using assms(1) by (simp_all add: chan_ok_def)
  have e: "screen_isEmpty s \<longleftrightarrow> shown s = blank_screen" if "screen_ok s" for s
    using that by (simp add: screen_isEmpty_eq shown_def blank_screen_def)
  have q: "screen_equals s s' \<longleftrightarrow> shown s = shown s'" for s s' by (simp add: screen_equals_eq shown_def)
  have iff: "ch_cueStart c = None \<longleftrightarrow> shown (ch_lastOutput c) = blank_screen"
    using assms(2) ok by (simp add: cue_ok_def e)
  have "map rw_chars (map2 row_copy xs ys) = map rw_chars xs" if "length xs = length ys" for xs ys
    using that by (induction xs ys rule: list_induct2) (simp_all add: row_copy_def)
  then have copy: "shown (screen_copy (ch_disp c) (ch_lastOutput c)) = shown (ch_disp c)"
    using ok by (simp add: shown_def screen_copy_def screen_ok_def)
  show ?thesis
    using iff ok copy
    by (auto simp: outputDataUpdate_def assms(3) newCue_filter_def push_event_def e q Let_def)
qed

lemma outputDataUpdate_spec_witness:
  "ch_out (outputDataUpdate (Some 4) (new_Cea608Channel (Some newCue_filter))) = []"
  using outputDataUpdate_spec [OF channel_new(1,2), of "Some newCue_filter" 4]
  by (simp add: new_Cea608Channel_def)

text \<open>
  Roll-up: a carriage return with depth \<open>n\<close> and room above moves the \<open>n - 1\<close> rows up by one, clears
  the base row and leaves every other row, the cursor row and the depth alone.
\<close>

lemma rollUp_shifts:
  assumes "screen_ok s" and "cs_nrRollUpRows s = Some n" and "n \<le> cs_currRow s + 1"
  shows "\<exists>s'. rollUp s = Inr s' \<and> cs_currRow s' = cs_currRow s \<and> cs_nrRollUpRows s' = Some n
    \<and> (\<forall>i < NR_ROWS. cs_rows s' ! i =
         (if int i < cs_currRow s + 1 - n \<or> cs_currRow s < int i then cs_rows s ! i
          else if int i = cs_currRow s then new_Row else cs_rows s ! (i + 1)))"
proof -
  let ?k = "nat (cs_currRow s)" and ?i = "nat (cs_currRow s + 1 - n)"
  have b: "length (cs_rows s) = NR_ROWS" "0 \<le> cs_currRow s" "cs_currRow s < int NR_ROWS" "2 \<le> n" "n \<le> 4"
    using assms(1,2) by (auto simp: screen_ok_def rollup_ok_def)
  have i: "splice_start (cs_currRow s + 1 - n) NR_ROWS = ?i" "?i \<le> ?k" "?k < NR_ROWS"
    using assms(3) b by (auto simp: splice_start_def)
  have "row_clear (cs_rows s ! ?i) = new_Row" using assms(1) i b(1) by (intro row_clear_new) (auto simp: screen_ok_def)
  then have "splice_move ?i ?k (cs_rows s) ! j =
      (if j < ?i \<or> ?k < j then cs_rows s ! j else if j = ?k then new_Row else cs_rows s ! (j + 1))"
    if "j < NR_ROWS" for j
    using that i(2,3) b(1) by (subst nth_splice_move) auto
  moreover have "j < ?i \<longleftrightarrow> int j < cs_currRow s + 1 - n" "?k < j \<longleftrightarrow> cs_currRow s < int j"
    "j = ?k \<longleftrightarrow> int j = cs_currRow s" for j using b(2) by auto
  ultimately show ?thesis using rollUp_eq [OF assms(1,2)] assms(2) unfolding i(1) by simp
qed

lemma rollUp_shifts_witness:
  "\<exists>s'. rollUp (new_CaptionScreen\<lparr>cs_nrRollUpRows := Some 2\<rparr>) = Inr s' \<and> cs_rows s' ! 14 = new_Row"
proof -
  have "screen_ok (new_CaptionScreen\<lparr>cs_nrRollUpRows := Some 2\<rparr>)"
    using screen_new_ok by (simp add: screen_ok_def rollup_ok_def)
  moreover have "cs_currRow new_CaptionScreen = 14" by (simp add: new_CaptionScreen_def screen_reset_def NR_ROWS_def)
  ultimately show ?thesis
    using rollUp_shifts [of "new_CaptionScreen\<lparr>cs_nrRollUpRows := Some 2\<rparr>" 2] by (auto simp: NR_ROWS_def)
qed

text \<open>
  Roll-up with a depth that reaches above the first row goes wrong: the negative index counts from
  the end, so the carriage return removes a row near the bottom, and the rows from the cursor row
  down move down by one instead of up.
\<close>

lemma rollUp_wraps:
  assumes "screen_ok s" and "cs_nrRollUpRows s = Some n" and "cs_currRow s + 1 < n"
  shows "\<exists>s'. rollUp s = Inr s'
    \<and> (\<forall>i < NR_ROWS. cs_rows s' ! i =
         (if int i < cs_currRow s \<or> int NR_ROWS + (cs_currRow s + 1 - n) < int i then cs_rows s ! i
          else if int i = cs_currRow s then new_Row else cs_rows s ! (i - 1)))"
proof -
  let ?k = "nat (cs_currRow s)" and ?i = "nat (int NR_ROWS + (cs_currRow s + 1 - n))"
  have b: "length (cs_rows s) = NR_ROWS" "0 \<le> cs_currRow s" "cs_currRow s \<le> 2" "n \<le> 4"
    using assms by (auto simp: screen_ok_def rollup_ok_def)
  have i: "splice_start (cs_currRow s + 1 - n) NR_ROWS = ?i" "?i < NR_ROWS" "?k \<le> ?i"
    using assms(3) b by (auto simp: splice_start_def NR_ROWS_def)
  have "row_clear (cs_rows s ! ?i) = new_Row" using assms(1) i b(1) by (intro row_clear_new) (auto simp: screen_ok_def)
  then have "splice_move ?i ?k (cs_rows s) ! j =
      (if j < ?k \<or> ?i < j then cs_rows s ! j else if j = ?k then new_Row else cs_rows s ! (j - 1))"
    if "j < NR_ROWS" for j
    using that i(2,3) b(1) by (subst nth_splice_move) auto
  moreover have "j < ?k \<longleftrightarrow> int j < cs_currRow s" "?i < j \<longleftrightarrow> int NR_ROWS + (cs_currRow s + 1 - n) < int j"
    "j = ?k \<longleftrightarrow> int j = cs_currRow s" for j using b by (auto simp: NR_ROWS_def)
  ultimately show ?thesis using rollUp_eq [OF assms(1,2)] unfolding i(1) by simp
qed

lemma rollUp_wraps_witness:
  "\<exists>s'. rollUp (new_CaptionScreen\<lparr>cs_nrRollUpRows := Some 4, cs_currRow := 1\<rparr>) = Inr s' \<and> cs_rows s' ! 1 = new_Row"
proof -
  have "screen_ok (new_CaptionScreen\<lparr>cs_nrRollUpRows := Some 4, cs_currRow := 1\<rparr>)"
    using screen_new_ok by (simp add: screen_ok_def rollup_ok_def NR_ROWS_def)
  then show ?thesis
    using rollUp_wraps [of "new_CaptionScreen\<lparr>cs_nrRollUpRows := Some 4, cs_currRow := 1\<rparr>" 4] by (auto simp: NR_ROWS_def)
qed

text \<open>
  Control codes are sent twice and act once: after a command or preamble pair that succeeded, the
  same pair again is counted and forgotten, and changes nothing else of the decoder.
\<close>

lemma repeated_code_dropped:
  assumes "control_pair a b \<or> pac_pair a b" and "pr_lastCmd p \<noteq> Some (a, b)" and "addPair a b p = Inr p1"
  shows "addPair a b p1 = Inr (p1\<lparr>pr_lastCmd := None, pr_cmd := pr_cmd p1 + 2\<rparr>)"
proof -
  have nz: "a \<noteq> 0" using assms(1) by (auto simp: control_pair_def pac_pair_def)
  show ?thesis
  proof (cases "control_pair a b")
    case True
    then have c: "((a = 0x14 \<or> a = 0x1C) \<and> 0x20 \<le> b \<and> b \<le> 0x2F) \<or> ((a = 0x17 \<or> a = 0x1F) \<and> 0x21 \<le> b \<and> b \<le> 0x23)"
      by (simp add: control_pair_def)
    obtain found q where q: "parseCmd a b p = Inr (found, q)"
      using assms(3) nz by (cases "parseCmd a b p") (auto simp: addPair_def or_parse_def)
    then have l: "found" "pr_lastCmd q = Some (a, b)"
      using c assms(2) by (auto simp: parseCmd_def Let_def split: sum.splits)
    then have "p1 = q\<lparr>pr_cmd := pr_cmd q + 2\<rparr>" using assms(3) nz q by (simp add: addPair_def or_parse_def)
    then have "parseCmd a b p1 = Inr (True, p1\<lparr>pr_lastCmd := None\<rparr>)"
      using c l(2) by (auto simp: parseCmd_def Let_def)
    then show ?thesis using nz by (simp add: addPair_def or_parse_def)
  next
    case False
    then have pac: "pac_pair a b" using assms(1) by simp
    then have b: "0x40 \<le> b" by (auto simp: pac_pair_def)
    have u: "parseCmd a b r = Inr (False, r)" "parseMidrow a b r = Inr (False, r)" for r
      using b by (simp_all add: parseCmd_def parseMidrow_def)
    obtain found q where q: "parsePAC a b p = Inr (found, q)"
      using assms(3) nz u by (cases "parsePAC a b p") (auto simp: addPair_def or_parse_def)
    then have l: "found" "pr_lastCmd q = Some (a, b)"
      using pac assms(2) by (auto simp: parsePAC_eq Let_def split: sum.splits)
    then have "p1 = q\<lparr>pr_cmd := pr_cmd q + 2\<rparr>" using assms(3) nz q u by (simp add: addPair_def or_parse_def)
    then have "parsePAC a b p1 = Inr (True, p1\<lparr>pr_lastCmd := None\<rparr>)"
      using pac l(2) by (simp add: parsePAC_eq)
    then show ?thesis using nz u by (simp add: addPair_def or_parse_def)
  qed
qed

lemma repeated_code_dropped_witness:
  "\<exists>p1. addPair 0x14 0x2c (new_Cea608Parser None None) = Inr p1
    \<and> addPair 0x14 0x2c p1 = Inr (p1\<lparr>pr_lastCmd := None, pr_cmd := pr_cmd p1 + 2\<rparr>)"
proof -
  have "addPair 0x14 0x2c (new_Cea608Parser None None) = Inr ((new_Cea608Parser None None)
      \<lparr>pr_ch1 := ccEDM (pr_time (new_Cea608Parser None None)) (pr_ch1 (new_Cea608Parser None None)), pr_lastCmd := Some (0x14, 0x2c),
       pr_currCh := Some Ch1, pr_cmd := pr_cmd (new_Cea608Parser None None) + 2\<rparr>)"
    by (rule addPair_control) (simp_all add: control_code_def)
  then show ?thesis using repeated_code_dropped [where a = "0x14" and b = "0x2c" and p = "new_Cea608Parser None None"]
    by (auto simp: control_pair_def)
qed

text \<open>
  Preamble codes decode as the standard assigns them: for each of the two channels, the fifteen
  rows, the seven colours, italics and the eight indents, with or without underline, the pair of
  bytes that the standard defines makes \<open>parsePAC\<close> set exactly that row and style on that channel.
\<close>

lemma parsePAC_decodes:
  assumes "1 \<le> row" "row \<le> 15" "style_ok st" and "pr_lastCmd p \<noteq> Some (pac_a ch row, pac_second row st u)"
  shows "parsePAC (pac_a ch row) (pac_second row st u) p =
    (case on_channel ch (on_write (setPAC (style_data st row u))) p of
       Inl e \<Rightarrow> Inl e
     | Inr q \<Rightarrow> Inr (True, q\<lparr>pr_lastCmd := Some (pac_a ch row, pac_second row st u), pr_currCh := Some ch\<rparr>))"
  using pac_code_found [OF assms(1-3), of u] pac_code_found2 [OF assms(1-3), of u] assms(4)
  by (cases ch) (simp_all add: parsePAC_eq pac_a_def interpretPAC_code [OF assms(3)] Let_def cong: sum.case_cong)

lemma parsePAC_decodes_witness:
  "parsePAC 0x1d 0x6f (new_Cea608Parser None None) =
    (case on_channel Ch2 (on_write (setPAC \<lparr>pd_color = Some ''white'', pd_italics = True, pd_indent = None,
        pd_underline = True, pd_row = 6\<rparr>)) (new_Cea608Parser None None) of
       Inl e \<Rightarrow> Inl e
     | Inr q \<Rightarrow> Inr (True, q\<lparr>pr_lastCmd := Some (0x1d, 0x6f), pr_currCh := Some Ch2\<rparr>))"
  using parsePAC_decodes [of 6 Italic "new_Cea608Parser None None" Ch2 True]
  by (simp add: pac_a_def pac_first_def pac_second_def pac_base_def cong: sum.case_cong)

text \<open>
  A styling code throws exactly at the end of a row: on a well-formed screen, \<open>setPen\<close> fails with a
  type error if and only if the cursor of the current row is past its last character, where
  characters themselves are only dropped.
\<close>

lemma setPen_throws_at_end:
  assumes "screen_ok s"
  shows "(setPen st s = Inl TypeError \<longleftrightarrow> rw_pos (cs_rows s ! nat (cs_currRow s)) = int NR_COLS)
    \<and> (rw_pos (cs_rows s ! nat (cs_currRow s)) = int NR_COLS \<longrightarrow> b < 0x90 \<longrightarrow> insertChar b s = Inr s)"
proof -
  let ?r = "cs_rows s ! nat (cs_currRow s)"
  have r: "row_ok ?r" by (rule curr_row_ok [OF assms])
  have "setPenStyles st ?r = Inl TypeError \<longleftrightarrow> rw_pos ?r = int NR_COLS"
    using r by (auto simp: setPenStyles_def Let_def on_char_def row_ok_def)
  moreover have "setPenStyles st ?r = Inl e \<Longrightarrow> e = TypeError" for e
    by (auto simp: setPenStyles_def Let_def on_char_def split: if_splits)
  ultimately have 1: "setPen st s = Inl TypeError \<longleftrightarrow> rw_pos ?r = int NR_COLS"
    unfolding setPen_def on_row_eq [OF assms] by (auto split: sum.splits)
  have "row_insertChar b ?r = Inr ?r" if "rw_pos ?r = int NR_COLS" "b < 0x90"
    using that by (simp add: row_insertChar_def)
  then have "insertChar b s = Inr s" if "rw_pos ?r = int NR_COLS" "b < 0x90"
    unfolding insertChar_def on_row_eq [OF assms] using that by simp
  with 1 show ?thesis by blast
qed

lemma setPen_throws_at_end_witness:
  "setPen no_styles (new_CaptionScreen\<lparr>cs_rows := replicate 15 (new_Row\<lparr>rw_pos := 100\<rparr>)\<rparr>) = Inl TypeError"
proof -
  have "screen_ok (new_CaptionScreen\<lparr>cs_rows := replicate 15 (new_Row\<lparr>rw_pos := 100\<rparr>)\<rparr>)"
    using screen_new_ok by (simp add: screen_ok_def NR_ROWS_def row_ok_def NR_COLS_def new_Row_def)
  from setPen_throws_at_end [OF this, of no_styles] show ?thesis
    by (simp add: new_CaptionScreen_def screen_reset_def NR_ROWS_def NR_COLS_def)
qed

end
