(* ===== verification/Aes_Decryptor.thy ===== *)
theory Aes_Decryptor
  imports Js_Prelude
begin

text \<open>
  The software AES-CBC decryptor, \<open>src/crypt/aes-decryptor.js\<close>: the tables that the constructor
  computes, the key expansion and the decryption loop. A \<open>Uint32Array(256)\<close> that is filled by
  \<open>initTable\<close> and then only read at byte indices is a function; a word that the code only touches
  with bitwise operators is a \<open>32 word\<close> (the products in \<open>initTable\<close> stay below \<open>2 ^ 32\<close>). The
  platform is little-endian, which the code's \<open>Int32Array\<close> views assume too.
\<close>

definition js_xor :: "int \<Rightarrow> int \<Rightarrow> int" where \<comment> \<open>\<open>x ^ y\<close>\<close>
  [js_defs]: "js_xor x y = (to_int32 x XOR to_int32 y)"

subsection \<open>Tables\<close>

record aes_tables =
  at_sBox :: "int \<Rightarrow> int"
  at_invSBox :: "int \<Rightarrow> int"
  at_subMix0 :: "int \<Rightarrow> u32"
  at_subMix1 :: "int \<Rightarrow> u32"
  at_subMix2 :: "int \<Rightarrow> u32"
  at_subMix3 :: "int \<Rightarrow> u32"
  at_invSubMix0 :: "int \<Rightarrow> u32"
  at_invSubMix1 :: "int \<Rightarrow> u32"
  at_invSubMix2 :: "int \<Rightarrow> u32"
  at_invSubMix3 :: "int \<Rightarrow> u32"

definition empty_tables :: aes_tables where
  "empty_tables = \<lparr>at_sBox = \<lambda>_. 0, at_invSBox = \<lambda>_. 0, at_subMix0 = \<lambda>_. 0, at_subMix1 = \<lambda>_. 0,
     at_subMix2 = \<lambda>_. 0, at_subMix3 = \<lambda>_. 0, at_invSubMix0 = \<lambda>_. 0, at_invSubMix1 = \<lambda>_. 0,
     at_invSubMix2 = \<lambda>_. 0, at_invSubMix3 = \<lambda>_. 0\<rparr>"

definition rcon :: "nat \<Rightarrow> int" where
  "rcon i = [0x0, 0x1, 0x2, 0x4, 0x8, 0x10, 0x20, 0x40, 0x80, 0x1b, 0x36] ! i"

text \<open>Entry \<open>i\<close> of the table \<open>d\<close> of the first loop.\<close>

definition d_entry :: "int \<Rightarrow> int" where
  "d_entry i = (if i < 128 then js_shl i 1 else js_xor (js_shl i 1) 0x11b)"

definition sbox_value :: "int \<Rightarrow> int" where
  "sbox_value xi =
     (let sx = js_xor (js_xor (js_xor (js_xor xi (js_shl xi 1)) (js_shl xi 2)) (js_shl xi 3)) (js_shl xi 4)
      in js_xor (js_xor (js_ushr sx 8) (js_and sx 0xff)) 0x63)"

definition rot24 :: "u32 \<Rightarrow> u32" where "rot24 t = (push_bit 24 t OR drop_bit 8 t)"
definition rot16 :: "u32 \<Rightarrow> u32" where "rot16 t = (push_bit 16 t OR drop_bit 16 t)"
definition rot8 :: "u32 \<Rightarrow> u32" where "rot8 t = (push_bit 8 t OR drop_bit 24 t)"

definition sub_word :: "int \<Rightarrow> u32" where
  "sub_word sx = (word_of_int (d_entry sx * 0x101) XOR word_of_int (sx * 0x1010100))"

definition inv_sub_word :: "int \<Rightarrow> u32" where
  "inv_sub_word x =
     (let x2 = d_entry x; x4 = d_entry x2; x8 = d_entry x4
      in word_of_int (x8 * 0x1010101) XOR word_of_int (x4 * 0x10001) XOR word_of_int (x2 * 0x101)
         XOR word_of_int (x * 0x1010100))"

text \<open>The next \<open>x\<close> and \<open>xi\<close>, at the end of the loop body.\<close>

definition next_counter :: "int \<times> int \<Rightarrow> int \<times> int" where
  "next_counter c =
     (let x = fst c; xi = snd c; x2 = d_entry x; x4 = d_entry x2; x8 = d_entry x4
      in if x = 0 then (1, 1)
         else (js_xor x2 (d_entry (d_entry (d_entry (js_xor x8 x2)))), js_xor xi (d_entry (d_entry xi))))"

definition init_entry_step :: "int \<times> int \<Rightarrow> aes_tables \<Rightarrow> aes_tables" where
  "init_entry_step c tb =
     (let x = fst c; sx = sbox_value (snd c); t = sub_word sx; u = inv_sub_word x
      in tb\<lparr>at_sBox := (at_sBox tb)(x := sx), at_invSBox := (at_invSBox tb)(sx := x),
            at_subMix0 := (at_subMix0 tb)(x := rot24 t), at_subMix1 := (at_subMix1 tb)(x := rot16 t),
            at_subMix2 := (at_subMix2 tb)(x := rot8 t), at_subMix3 := (at_subMix3 tb)(x := t),
            at_invSubMix0 := (at_invSubMix0 tb)(sx := rot24 u), at_invSubMix1 := (at_invSubMix1 tb)(sx := rot16 u),
            at_invSubMix2 := (at_invSubMix2 tb)(sx := rot8 u), at_invSubMix3 := (at_invSubMix3 tb)(sx := u)\<rparr>)"

fun init_loop :: "nat \<Rightarrow> int \<times> int \<Rightarrow> aes_tables \<Rightarrow> aes_tables" where
  "init_loop 0 c tb = tb"
| "init_loop (Suc n) c tb = init_loop n (next_counter c) (init_entry_step c tb)"

definition initTable :: aes_tables where
  "initTable = init_loop 256 (0, 0) empty_tables"

subsection \<open>Key expansion\<close>

record aes_decryptor =
  ad_key :: "u32 list"
  ad_keySize :: nat
  ad_keySchedule :: "u32 list"
  ad_invKeySchedule :: "u32 list"

text \<open>The constructor; the tables it computes are the constant \<open>initTable\<close>.\<close>

definition new_AESDecryptor :: aes_decryptor where
  "new_AESDecryptor = \<lparr>ad_key = [], ad_keySize = 0, ad_keySchedule = [], ad_invKeySchedule = []\<rparr>"

text \<open>Four big-endian words; reading past the buffer throws a \<open>RangeError\<close>.\<close>

definition uint8ArrayToUint32Array :: "bytes \<Rightarrow> u32 list result" where
  "uint8ArrayToUint32Array buf =
     (if 16 \<le> length buf then Inr (map (\<lambda>i. get_uint32 buf (i * 4)) [0..<4])
      else Inl (JsError ''RangeError''))"

text \<open>The bytes of a word as table indices: \<open>w >>> 24\<close>, \<open>(w >> 16) & 0xff\<close>, \<open>(w >> 8) & 0xff\<close>, \<open>w & 0xff\<close>.\<close>

definition b3 :: "u32 \<Rightarrow> int" where "b3 w = uint (drop_bit 24 w)"
definition b2 :: "u32 \<Rightarrow> int" where "b2 w = uint (drop_bit 16 w AND 0xff)"
definition b1 :: "u32 \<Rightarrow> int" where "b1 w = uint (drop_bit 8 w AND 0xff)"
definition b0 :: "u32 \<Rightarrow> int" where "b0 w = uint (w AND 0xff)"

definition subWord :: "u32 \<Rightarrow> u32" where
  "subWord t =
     (let sbox = at_sBox initTable
      in push_bit 24 (word_of_int (sbox (b3 t))) OR push_bit 16 (word_of_int (sbox (b2 t)))
         OR push_bit 8 (word_of_int (sbox (b1 t))) OR word_of_int (sbox (b0 t)))"

text \<open>The word that is exclusive-ored into row \<open>ksRow\<close>, from the row before it.\<close>

definition ks_temp :: "nat \<Rightarrow> nat \<Rightarrow> u32 \<Rightarrow> u32" where
  "ks_temp keySize ksRow prev =
     (if ksRow mod keySize = 0 then subWord (rot8 prev) XOR push_bit 24 (word_of_int (rcon (ksRow div keySize)))
      else if keySize > 6 \<and> ksRow mod keySize = 4 then subWord prev
      else prev)"

fun ks_loop :: "u32 list \<Rightarrow> nat \<Rightarrow> u32 list \<Rightarrow> u32 list" where
  "ks_loop key 0 ks = ks"
| "ks_loop key (Suc n) ks =
     (let ksRow = length ks; keySize = length key;
          w = (if ksRow < keySize then key ! ksRow
               else ks ! (ksRow - keySize) XOR ks_temp keySize ksRow (ks ! (ksRow - 1)))
      in ks_loop key n (ks @ [w]))"

definition inv_mix :: "u32 \<Rightarrow> u32" where
  "inv_mix t =
     (let tb = initTable; sbox = at_sBox tb
      in at_invSubMix0 tb (sbox (b3 t)) XOR at_invSubMix1 tb (sbox (b2 t))
         XOR at_invSubMix2 tb (sbox (b1 t)) XOR at_invSubMix3 tb (sbox (b0 t)))"

definition inv_row :: "u32 list \<Rightarrow> nat \<Rightarrow> u32" where
  "inv_row ks invKsRow =
     (let ksRow = length ks - invKsRow;
          t = (if invKsRow mod 4 \<noteq> 0 then ks ! ksRow else ks ! (ksRow - 4))
      in if invKsRow < 4 \<or> ksRow \<le> 4 then t else inv_mix t)"

definition expandKey :: "bytes \<Rightarrow> aes_decryptor \<Rightarrow> aes_decryptor result" where
  "expandKey keyBuffer d =
     (case uint8ArrayToUint32Array keyBuffer of
        Inl e \<Rightarrow> Inl e
      | Inr key \<Rightarrow>
          if list_all (\<lambda>i. i < length (ad_key d) \<and> key ! i = ad_key d ! i) [0..<length key] then Inr d
          else
            let keySize = length key
            in if keySize \<noteq> 4 \<and> keySize \<noteq> 6 \<and> keySize \<noteq> 8 then Inl (JsError ''Invalid aes key size='')
               else
                 let ksRows = (keySize + 6 + 1) * 4;
                     ks = ks_loop key ksRows [];
                     inv = map (inv_row ks) [0..<ksRows]
                 in Inr (d\<lparr>ad_key := key, ad_keySize := keySize, ad_keySchedule := ks, ad_invKeySchedule := inv\<rparr>))"

subsection \<open>Decryption\<close>

definition swapWord :: "u32 \<Rightarrow> u32" where
  "swapWord w = (push_bit 24 w OR push_bit 8 (w AND 0xff00) OR drop_bit 8 (w AND 0xff0000) OR drop_bit 24 w)"

type_synonym aes_state = "u32 \<times> u32 \<times> u32 \<times> u32"

text \<open>One of the rounds of the loop, with the round key at \<open>ksRow\<close>.\<close>

definition inv_round :: "u32 list \<Rightarrow> nat \<Rightarrow> aes_state \<Rightarrow> aes_state" where
  "inv_round iks ksRow s =
     (let (s0, s1, s2, s3) = s; tb = initTable;
          m0 = at_invSubMix0 tb; m1 = at_invSubMix1 tb; m2 = at_invSubMix2 tb; m3 = at_invSubMix3 tb
      in (m0 (b3 s0) XOR m1 (b2 s1) XOR m2 (b1 s2) XOR m3 (b0 s3) XOR iks ! ksRow,
          m0 (b3 s1) XOR m1 (b2 s2) XOR m2 (b1 s3) XOR m3 (b0 s0) XOR iks ! (ksRow + 1),
          m0 (b3 s2) XOR m1 (b2 s3) XOR m2 (b1 s0) XOR m3 (b0 s1) XOR iks ! (ksRow + 2),
          m0 (b3 s3) XOR m1 (b2 s0) XOR m2 (b1 s1) XOR m3 (b0 s2) XOR iks ! (ksRow + 3)))"

fun inv_rounds :: "u32 list \<Rightarrow> nat \<Rightarrow> nat \<Rightarrow> aes_state \<Rightarrow> aes_state" where
  "inv_rounds iks ksRow 0 s = s"
| "inv_rounds iks ksRow (Suc n) s = inv_rounds iks (ksRow + 4) n (inv_round iks ksRow s)"

definition inv_sub :: "u32 \<Rightarrow> u32 \<Rightarrow> u32 \<Rightarrow> u32 \<Rightarrow> u32" where
  "inv_sub p q r s =
     (let isb = at_invSBox initTable
      in push_bit 24 (word_of_int (isb (b3 p))) XOR push_bit 16 (word_of_int (isb (b2 q)))
         XOR push_bit 8 (word_of_int (isb (b1 r))) XOR word_of_int (isb (b0 s)))"

text \<open>
  The body of the loop on one block of input words, up to the addition of the initialisation
  vector: the words \<open>t0 .. t3\<close>.
\<close>

definition decrypt_block :: "aes_decryptor \<Rightarrow> aes_state \<Rightarrow> aes_state" where
  "decrypt_block d inp =
     (let (i0, i1, i2, i3) = inp; nRounds = ad_keySize d + 6; iks = ad_invKeySchedule d;
          st = (i0 XOR iks ! 0, i3 XOR iks ! 1, i2 XOR iks ! 2, i1 XOR iks ! 3);
          (s0, s1, s2, s3) = inv_rounds iks 4 (nRounds - 1) st;
          ksRow = 4 + 4 * (nRounds - 1)
      in (inv_sub s0 s1 s2 s3 XOR iks ! ksRow, inv_sub s1 s2 s3 s0 XOR iks ! (ksRow + 1),
          inv_sub s2 s3 s0 s1 XOR iks ! (ksRow + 2), inv_sub s3 s0 s1 s2 XOR iks ! (ksRow + 3)))"

text \<open>An element of an \<open>Int32Array\<close>: past the end it is \<open>undefined\<close>, which the operators take as 0.\<close>

definition word_at :: "u32 list \<Rightarrow> nat \<Rightarrow> u32" where
  "word_at ws i = (if i < length ws then ws ! i else 0)"

function decrypt_loop :: "aes_decryptor \<Rightarrow> u32 list \<Rightarrow> nat \<Rightarrow> aes_state \<Rightarrow> u32 list \<Rightarrow> u32 list" where
  "decrypt_loop d input off iv output =
     (if off < length input then
        let inp = (swapWord (word_at input off), swapWord (word_at input (off + 1)),
                   swapWord (word_at input (off + 2)), swapWord (word_at input (off + 3)));
            (t0, t1, t2, t3) = decrypt_block d inp;
            (v0, v1, v2, v3) = iv;
            output = output[off := swapWord (t0 XOR v0), off + 1 := swapWord (t3 XOR v1),
                            off + 2 := swapWord (t2 XOR v2), off + 3 := swapWord (t1 XOR v3)]
        in decrypt_loop d input (off + 4) inp output
      else output)"
  by pat_completeness auto
termination by (relation "measure (\<lambda>(d, input, off, iv, output). length input - off)") auto

text \<open>The \<open>Int32Array\<close> view of a buffer on a little-endian platform, and its bytes.\<close>

fun int32_view :: "bytes \<Rightarrow> u32 list result" where
  "int32_view [] = Inr []"
| "int32_view (a # b # c # d # bs) =
     (case int32_view bs of Inl e \<Rightarrow> Inl e | Inr ws \<Rightarrow> Inr (word_be d c b a # ws))"
| "int32_view _ = Inl (JsError ''RangeError'')"

definition word_bytes :: "u32 \<Rightarrow> bytes" where
  "word_bytes w = [ucast w, ucast (drop_bit 8 w), ucast (drop_bit 16 w), ucast (drop_bit 24 w)]"

definition aes_decrypt :: "bytes \<Rightarrow> nat \<Rightarrow> bytes \<Rightarrow> aes_decryptor \<Rightarrow> bytes result" where
  "aes_decrypt inputArrayBuffer offset aesIV d =
     (case uint8ArrayToUint32Array aesIV of
        Inl e \<Rightarrow> Inl e
      | Inr iv \<Rightarrow>
          (case int32_view inputArrayBuffer of
             Inl e \<Rightarrow> Inl e
           | Inr input \<Rightarrow>
               Inr (concat (map word_bytes
                 (decrypt_loop d input offset (iv ! 0, iv ! 1, iv ! 2, iv ! 3) (replicate (length input) 0))))))"

end
