(* ===== verification/Aes_Tables.thy ===== *)
theory Aes_Tables
  imports Aes_Decryptor
begin

text \<open>
  The tables that \<open>initTable\<close> computes: the 256 values its two counters take, evaluated in four runs of
  64 rounds, the S-box of FIPS 197 that they give, and the entries of all tables that decryption
  and key expansion read.
\<close>

lemma js_small:
  "0 \<le> x \<Longrightarrow> x < 4096 \<Longrightarrow> to_int32 x = x" "0 \<le> x \<Longrightarrow> x < 4096 \<Longrightarrow> to_uint32 x = x"
  by (simp_all add: to_int32_def to_uint32_def signed_take_bit_int_eq_self take_bit_int_eq_self)

lemma d_entry_eval:
  "0 \<le> i \<Longrightarrow> i < 256 \<Longrightarrow> d_entry i = (if i < 128 then 2 * i else (2 * i) XOR 0x11b)"
  by (simp add: d_entry_def js_shl_def js_xor_def js_small push_bit_eq_mult mult.commute)


lemma init_loop_num: "init_loop (numeral k) c tb = init_loop (pred_numeral k) (next_counter c) (init_entry_step c tb)"
  by (simp add: numeral_eq_Suc)

fun counters :: "nat \<Rightarrow> int \<times> int \<Rightarrow> (int \<times> int) list" where
  "counters 0 c = []"
| "counters (Suc n) c = c # counters n (next_counter c)"

lemma counters_num: "counters (numeral k) c = c # counters (pred_numeral k) (next_counter c)"
  by (simp add: numeral_eq_Suc)

lemma js_xor_eval: "0 \<le> x \<Longrightarrow> x < 4096 \<Longrightarrow> 0 \<le> y \<Longrightarrow> y < 4096 \<Longrightarrow> js_xor x y = x XOR y"
  by (simp add: js_xor_def js_small)

definition counters_0 :: "(int \<times> int) list" where
  "counters_0 =
    [(0x0, 0x0), (0x1, 0x1), (0x52, 0x5), (0xb4, 0x11), (0x24, 0x55), (0xfd, 0x1a), (0x97, 0x72), (0x7c, 0xa1),
     (0x4b, 0x13), (0x17, 0x5f), (0xf2, 0x38), (0x94, 0xd8), (0x8a, 0x95), (0x8c, 0xf7), (0x7b, 0x6), (0xee, 0x1e),
     (0x36, 0x66), (0xe, 0xe5), (0x51, 0x5c), (0x42, 0x37), (0xe3, 0xeb), (0x91, 0x6a), (0x8b, 0xd9), (0xde, 0x90),
     (0xcf, 0xe6), (0xca, 0x53), (0xcb, 0x4), (0x99, 0x14), (0x2d, 0x44), (0x9, 0x4f), (0xf4, 0x68), (0x63, 0xd3),
     (0x1f, 0xb2), (0x54, 0x4c), (0x43, 0x67), (0xb1, 0xe0), (0x25, 0x4d), (0xaf, 0x62), (0x23, 0xf1), (0x58, 0x18),
     (0xb6, 0x78), (0x80, 0x83), (0x8e, 0xb9), (0xdf, 0x6b), (0x9d, 0xdc), (0x7e, 0x81), (0xef, 0xb3), (0x64, 0x49),
     (0xba, 0x76), (0x75, 0xb5), (0xbf, 0x57), (0x74, 0x10), (0xed, 0x50), (0xc0, 0xb), (0xc9, 0x27), (0x3d, 0xbb),
     (0x5e, 0x61), (0x41, 0xfe), (0x15, 0x2b), (0x56, 0x87), (0xe7, 0xad), (0xc2, 0x2f), (0x6d, 0x93), (0x4e, 0xe9)]"

lemma counters_0: "counters 64 (0, 0) = counters_0"
  unfolding counters_0_def
  by (simp add: counters_num next_counter_def Let_def d_entry_eval js_xor_eval)

definition counters_1 :: "(int \<times> int) list" where
  "counters_1 =
    [(0x16, 0x60), (0xa0, 0xfb), (0x20, 0x3a), (0xae, 0xd2), (0x71, 0xb7), (0xec, 0x5d), (0x92, 0x32), (0x7d, 0xfa),
     (0x19, 0x3f), (0xa3, 0xc3), (0xd6, 0xe2), (0x69, 0x47), (0x1d, 0x40), (0xf0, 0x5b), (0x30, 0x2c), (0xf9, 0x9c),
     (0xc4, 0xda), (0x9a, 0x9f), (0xdb, 0xd5), (0xce, 0xac), (0x98, 0x2a), (0x7f, 0x82), (0xbd, 0xbc), (0xd0, 0x7a),
     (0x9e, 0x89), (0x88, 0x9b), (0x28, 0xc1), (0x8, 0xe8), (0xa6, 0x65), (0xd7, 0xea), (0x3b, 0x6f), (0xa9, 0xc8),
     (0xd4, 0xc5), (0xcd, 0xfc), (0x6e, 0x21), (0xb8, 0xa5), (0xd1, 0x7), (0xcc, 0x1b), (0x3c, 0x77), (0xc, 0xb0),
     (0xf5, 0x46), (0x31, 0x45), (0xab, 0x4a), (0x70, 0x79), (0xbe, 0x86), (0x26, 0xa8), (0x59, 0x3e), (0xe4, 0xc6),
     (0x34, 0xf3), (0xaa, 0x12), (0x22, 0x5a), (0xa, 0x29), (0x2, 0x8d), (0xa4, 0x8f), (0x73, 0x85), (0x48, 0xa7),
     (0xe1, 0xd), (0x35, 0x39), (0xf8, 0xdd), (0x96, 0x84), (0x2e, 0xa2), (0xff, 0x1c), (0x33, 0x6c), (0xf, 0xc7)]"

lemma counters_1: "counters 64 (0x16, 0x60) = counters_1"
  unfolding counters_1_def
  by (simp add: counters_num next_counter_def Let_def d_entry_eval js_xor_eval)

definition counters_2 :: "(int \<times> int) list" where
  "counters_2 =
    [(0x3, 0xf6), (0xf6, 0x3), (0xc7, 0xf), (0x6c, 0x33), (0x1c, 0xff), (0xa2, 0x2e), (0x84, 0x96), (0xdd, 0xf8),
     (0x39, 0x35), (0xd, 0xe1), (0xa7, 0x48), (0x85, 0x73), (0x8f, 0xa4), (0x8d, 0x2), (0x29, 0xa), (0x5a, 0x22),
     (0x12, 0xaa), (0xf3, 0x34), (0xc6, 0xe4), (0x3e, 0x59), (0xa8, 0x26), (0x86, 0xbe), (0x79, 0x70), (0x4a, 0xab),
     (0x45, 0x31), (0x46, 0xf5), (0xb0, 0xc), (0x77, 0x3c), (0x1b, 0xcc), (0x7, 0xd1), (0xa5, 0xb8), (0x21, 0x6e),
     (0xfc, 0xcd), (0xc5, 0xd4), (0xc8, 0xa9), (0x6f, 0x3b), (0xea, 0xd7), (0x65, 0xa6), (0xe8, 0x8), (0xc1, 0x28),
     (0x9b, 0x88), (0x89, 0x9e), (0x7a, 0xd0), (0xbc, 0xbd), (0x82, 0x7f), (0x2a, 0x98), (0xac, 0xce), (0xd5, 0xdb),
     (0x9f, 0x9a), (0xda, 0xc4), (0x9c, 0xf9), (0x2c, 0x30), (0x5b, 0xf0), (0x40, 0x1d), (0x47, 0x69), (0xe2, 0xd6),
     (0xc3, 0xa3), (0x3f, 0x19), (0xfa, 0x7d), (0x32, 0x92), (0x5d, 0xec), (0xb7, 0x71), (0xd2, 0xae), (0x3a, 0x20)]"

lemma counters_2: "counters 64 (0x3, 0xf6) = counters_2"
  unfolding counters_2_def
  by (simp add: counters_num next_counter_def Let_def d_entry_eval js_xor_eval)

definition counters_3 :: "(int \<times> int) list" where
  "counters_3 =
    [(0xfb, 0xa0), (0x60, 0x16), (0xe9, 0x4e), (0x93, 0x6d), (0x2f, 0xc2), (0xad, 0xe7), (0x87, 0x56), (0x2b, 0x15),
     (0xfe, 0x41), (0x61, 0x5e), (0xbb, 0x3d), (0x27, 0xc9), (0xb, 0xc0), (0x50, 0xed), (0x10, 0x74), (0x57, 0xbf),
     (0xb5, 0x75), (0x76, 0xba), (0x49, 0x64), (0xb3, 0xef), (0x81, 0x7e), (0xdc, 0x9d), (0x6b, 0xdf), (0xb9, 0x8e),
     (0x83, 0x80), (0x78, 0xb6), (0x18, 0x58), (0xf1, 0x23), (0x62, 0xaf), (0x4d, 0x25), (0xe0, 0xb1), (0x67, 0x43),
     (0x4c, 0x54), (0xb2, 0x1f), (0xd3, 0x63), (0x68, 0xf4), (0x4f, 0x9), (0x44, 0x2d), (0x14, 0x99), (0x4, 0xcb),
     (0x53, 0xca), (0xe6, 0xcf), (0x90, 0xde), (0xd9, 0x8b), (0x6a, 0x91), (0xeb, 0xe3), (0x37, 0x42), (0x5c, 0x51),
     (0xe5, 0xe), (0x66, 0x36), (0x1e, 0xee), (0x6, 0x7b), (0xf7, 0x8c), (0x95, 0x8a), (0xd8, 0x94), (0x38, 0xf2),
     (0x5f, 0x17), (0x13, 0x4b), (0xa1, 0x7c), (0x72, 0x97), (0x1a, 0xfd), (0x55, 0x24), (0x11, 0xb4), (0x5, 0x52)]"

lemma counters_3: "counters 64 (0xfb, 0xa0) = counters_3"
  unfolding counters_3_def
  by (simp add: counters_num next_counter_def Let_def d_entry_eval js_xor_eval)


lemma counters_append: "counters (m + n) c = counters m c @ counters n ((next_counter ^^ m) c)"
  by (induction m arbitrary: c) (simp_all add: funpow_swap1)

lemma counters_last: "(next_counter ^^ Suc n) c = next_counter (last (counters (Suc n) c))"
proof (induction n arbitrary: c)
  case (Suc n)
  from Suc [of "next_counter c"] show ?case by (simp add: funpow_swap1)
qed simp

lemma counters_64: "counters 64 c = L \<Longrightarrow> (next_counter ^^ 64) c = next_counter (last L)"
proof -
  have "(64 :: nat) = Suc 63" by simp
  then show "counters 64 c = L \<Longrightarrow> (next_counter ^^ 64) c = next_counter (last L)"
    by (simp only: counters_last)
qed

definition all_counters :: "(int \<times> int) list" where
  "all_counters = counters_0 @ counters_1 @ counters_2 @ counters_3"

lemma counters_256: "counters 256 (0, 0) = all_counters"
proof -
  have "(256 :: nat) = 64 + (64 + (64 + 64))" by simp
  moreover have "(next_counter ^^ 64) (0, 0) = (0x16, 0x60)"
    by (subst counters_64 [OF counters_0])
      (simp add: counters_0_def next_counter_def Let_def d_entry_eval js_xor_eval)
  moreover have "(next_counter ^^ 64) (0x16, 0x60) = (0x3, 0xf6)"
    by (subst counters_64 [OF counters_1])
      (simp add: counters_1_def next_counter_def Let_def d_entry_eval js_xor_eval)
  moreover have "(next_counter ^^ 64) (0x3, 0xf6) = (0xfb, 0xa0)"
    by (subst counters_64 [OF counters_2])
      (simp add: counters_2_def next_counter_def Let_def d_entry_eval js_xor_eval)
  ultimately show ?thesis
    by (simp only: counters_append counters_0 counters_1 counters_2 counters_3 all_counters_def)
qed

lemma js_shl_eval: "0 \<le> x \<Longrightarrow> x < 256 \<Longrightarrow> k < 5 \<Longrightarrow> js_shl x k = x * 2 ^ k"
proof -
  assume x: "0 \<le> x" "x < 256" "k < 5"
  then have "(2::int) ^ k \<le> 2 ^ 4" by (intro power_increasing) auto
  then have "x * 2 ^ k \<le> 255 * 2 ^ 4" using x by (intro mult_mono) auto
  then show ?thesis using x by (simp add: js_shl_def js_small push_bit_eq_mult)
qed

lemma js_ushr_eval: "0 \<le> x \<Longrightarrow> x < 4096 \<Longrightarrow> js_ushr x 8 = x div 256"
  by (simp add: js_ushr_def js_small drop_bit_eq_div)

lemma js_and_eval: "0 \<le> x \<Longrightarrow> x < 4096 \<Longrightarrow> js_and x 0xff = x AND 0xff"
  by (simp add: js_and_def js_small)

lemmas sbox_eval = sbox_value_def js_shl_eval js_ushr_eval js_and_eval js_xor_eval Let_def

text \<open>The S-box of FIPS 197, row by row.\<close>

definition fips_sbox :: "int list" where
  "fips_sbox =
    [0x63, 0x7c, 0x77, 0x7b, 0xf2, 0x6b, 0x6f, 0xc5, 0x30, 0x01, 0x67, 0x2b, 0xfe, 0xd7, 0xab, 0x76,
     0xca, 0x82, 0xc9, 0x7d, 0xfa, 0x59, 0x47, 0xf0, 0xad, 0xd4, 0xa2, 0xaf, 0x9c, 0xa4, 0x72, 0xc0,
     0xb7, 0xfd, 0x93, 0x26, 0x36, 0x3f, 0xf7, 0xcc, 0x34, 0xa5, 0xe5, 0xf1, 0x71, 0xd8, 0x31, 0x15,
     0x04, 0xc7, 0x23, 0xc3, 0x18, 0x96, 0x05, 0x9a, 0x07, 0x12, 0x80, 0xe2, 0xeb, 0x27, 0xb2, 0x75,
     0x09, 0x83, 0x2c, 0x1a, 0x1b, 0x6e, 0x5a, 0xa0, 0x52, 0x3b, 0xd6, 0xb3, 0x29, 0xe3, 0x2f, 0x84,
     0x53, 0xd1, 0x00, 0xed, 0x20, 0xfc, 0xb1, 0x5b, 0x6a, 0xcb, 0xbe, 0x39, 0x4a, 0x4c, 0x58, 0xcf,
     0xd0, 0xef, 0xaa, 0xfb, 0x43, 0x4d, 0x33, 0x85, 0x45, 0xf9, 0x02, 0x7f, 0x50, 0x3c, 0x9f, 0xa8,
     0x51, 0xa3, 0x40, 0x8f, 0x92, 0x9d, 0x38, 0xf5, 0xbc, 0xb6, 0xda, 0x21, 0x10, 0xff, 0xf3, 0xd2,
     0xcd, 0x0c, 0x13, 0xec, 0x5f, 0x97, 0x44, 0x17, 0xc4, 0xa7, 0x7e, 0x3d, 0x64, 0x5d, 0x19, 0x73,
     0x60, 0x81, 0x4f, 0xdc, 0x22, 0x2a, 0x90, 0x88, 0x46, 0xee, 0xb8, 0x14, 0xde, 0x5e, 0x0b, 0xdb,
     0xe0, 0x32, 0x3a, 0x0a, 0x49, 0x06, 0x24, 0x5c, 0xc2, 0xd3, 0xac, 0x62, 0x91, 0x95, 0xe4, 0x79,
     0xe7, 0xc8, 0x37, 0x6d, 0x8d, 0xd5, 0x4e, 0xa9, 0x6c, 0x56, 0xf4, 0xea, 0x65, 0x7a, 0xae, 0x08,
     0xba, 0x78, 0x25, 0x2e, 0x1c, 0xa6, 0xb4, 0xc6, 0xe8, 0xdd, 0x74, 0x1f, 0x4b, 0xbd, 0x8b, 0x8a,
     0x70, 0x3e, 0xb5, 0x66, 0x48, 0x03, 0xf6, 0x0e, 0x61, 0x35, 0x57, 0xb9, 0x86, 0xc1, 0x1d, 0x9e,
     0xe1, 0xf8, 0x98, 0x11, 0x69, 0xd9, 0x8e, 0x94, 0x9b, 0x1e, 0x87, 0xe9, 0xce, 0x55, 0x28, 0xdf,
     0x8c, 0xa1, 0x89, 0x0d, 0xbf, 0xe6, 0x42, 0x68, 0x41, 0x99, 0x2d, 0x0f, 0xb0, 0x54, 0xbb, 0x16]"


lemma sbox_values_0: "list_all (\<lambda>c. sbox_value (snd c) = fips_sbox ! nat (fst c)) counters_0"
  by (simp add: counters_0_def sbox_eval fips_sbox_def)

lemma sbox_values_1: "list_all (\<lambda>c. sbox_value (snd c) = fips_sbox ! nat (fst c)) counters_1"
  by (simp add: counters_1_def sbox_eval fips_sbox_def)

lemma sbox_values_2: "list_all (\<lambda>c. sbox_value (snd c) = fips_sbox ! nat (fst c)) counters_2"
  by (simp add: counters_2_def sbox_eval fips_sbox_def)

lemma sbox_values_3: "list_all (\<lambda>c. sbox_value (snd c) = fips_sbox ! nat (fst c)) counters_3"
  by (simp add: counters_3_def sbox_eval fips_sbox_def)

lemma distinct_fst: "distinct (map fst all_counters)"
  by (simp add: all_counters_def counters_0_def counters_1_def counters_2_def counters_3_def)

lemma distinct_fips: "distinct fips_sbox"
  by (simp add: fips_sbox_def)

subsection \<open>The tables that the loop leaves\<close>

lemma init_loop_fold: "init_loop n c tb = fold init_entry_step (counters n c) tb"
  by (induction n arbitrary: c tb) simp_all

lemma init_entry_step_fields:
  "at_sBox (init_entry_step c tb) = (at_sBox tb)(fst c := sbox_value (snd c))"
  "at_invSBox (init_entry_step c tb) = (at_invSBox tb)(sbox_value (snd c) := fst c)"
  "at_invSubMix0 (init_entry_step c tb) = (at_invSubMix0 tb)(sbox_value (snd c) := rot24 (inv_sub_word (fst c)))"
  "at_invSubMix1 (init_entry_step c tb) = (at_invSubMix1 tb)(sbox_value (snd c) := rot16 (inv_sub_word (fst c)))"
  "at_invSubMix2 (init_entry_step c tb) = (at_invSubMix2 tb)(sbox_value (snd c) := rot8 (inv_sub_word (fst c)))"
  "at_invSubMix3 (init_entry_step c tb) = (at_invSubMix3 tb)(sbox_value (snd c) := inv_sub_word (fst c))"
  by (simp_all add: init_entry_step_def Let_def)

lemma fold_entries:
  assumes "distinct (map fst cs)" and "distinct (map (\<lambda>c. sbox_value (snd c)) cs)" and "c \<in> set cs"
  shows "at_sBox (fold init_entry_step cs tb) (fst c) = sbox_value (snd c)
    \<and> at_invSBox (fold init_entry_step cs tb) (sbox_value (snd c)) = fst c
    \<and> at_invSubMix0 (fold init_entry_step cs tb) (sbox_value (snd c)) = rot24 (inv_sub_word (fst c))
    \<and> at_invSubMix1 (fold init_entry_step cs tb) (sbox_value (snd c)) = rot16 (inv_sub_word (fst c))
    \<and> at_invSubMix2 (fold init_entry_step cs tb) (sbox_value (snd c)) = rot8 (inv_sub_word (fst c))
    \<and> at_invSubMix3 (fold init_entry_step cs tb) (sbox_value (snd c)) = inv_sub_word (fst c)"
  using assms
proof (induction cs rule: rev_induct)
  case (snoc d cs)
  show ?case
  proof (cases "c = d")
    case True
    then show ?thesis by (simp add: init_entry_step_fields)
  next
    case False
    then have c: "c \<in> set cs" using snoc.prems(3) by simp
    then have "fst c \<noteq> fst d" "sbox_value (snd c) \<noteq> sbox_value (snd d)"
      using snoc.prems(1,2) by (auto simp: image_iff)
    then show ?thesis using snoc.IH c snoc.prems(1,2) by (simp add: init_entry_step_fields)
  qed
qed simp

lemma all_values: "\<forall>c \<in> set all_counters. sbox_value (snd c) = fips_sbox ! nat (fst c)"
  using sbox_values_0 sbox_values_1 sbox_values_2 sbox_values_3
  by (auto simp: all_counters_def list_all_iff)

lemma all_range: "\<forall>c \<in> set all_counters. 0 \<le> fst c \<and> fst c < 256"
  by (simp add: all_counters_def counters_0_def counters_1_def counters_2_def counters_3_def)

lemma length_all: "length all_counters = 256"
  by (simp add: all_counters_def counters_0_def counters_1_def counters_2_def counters_3_def)

lemma length_fips: "length fips_sbox = 256"
  by (simp add: fips_sbox_def)

lemma fips_range: "\<forall>y \<in> set fips_sbox. 0 \<le> y \<and> y < 256"
  by (simp add: fips_sbox_def)

lemma fst_all: "fst ` set all_counters = {0..<256}"
proof (rule card_subset_eq)
  show "fst ` set all_counters \<subseteq> {0..<256}" using all_range by auto
  have "card (set (map fst all_counters)) = 256" using distinct_card [OF distinct_fst] length_all by simp
  then show "card (fst ` set all_counters) = card {0..<256 :: int}" by simp
qed simp

lemma distinct_values: "distinct (map (\<lambda>c. sbox_value (snd c)) all_counters)"
proof -
  have "map (\<lambda>c. sbox_value (snd c)) all_counters = map (\<lambda>x. fips_sbox ! nat x) (map fst all_counters)"
    using all_values by simp
  moreover have "inj_on (\<lambda>x. fips_sbox ! nat x) {0..<256}"
    using distinct_fips length_fips by (auto simp: inj_on_def nth_eq_iff_index_eq)
  moreover have "set (map fst all_counters) = {0..<256}" using fst_all by simp
  ultimately show ?thesis using distinct_fst by (metis distinct_map)
qed

text \<open>The entries of the tables, for each byte \<open>x\<close> and its image in the S-box of the standard.\<close>

lemma initTable_entries:
  assumes "0 \<le> x" and "x < 256"
  shows "at_sBox initTable x = fips_sbox ! nat x" "at_invSBox initTable (fips_sbox ! nat x) = x"
    "at_invSubMix0 initTable (fips_sbox ! nat x) = rot24 (inv_sub_word x)"
    "at_invSubMix1 initTable (fips_sbox ! nat x) = rot16 (inv_sub_word x)"
    "at_invSubMix2 initTable (fips_sbox ! nat x) = rot8 (inv_sub_word x)"
    "at_invSubMix3 initTable (fips_sbox ! nat x) = inv_sub_word x"
proof -
  have t: "initTable = fold init_entry_step all_counters empty_tables"
    by (simp add: initTable_def init_loop_fold counters_256)
  have "x \<in> fst ` set all_counters" unfolding fst_all using assms by simp
  then obtain c where c: "c \<in> set all_counters" "fst c = x" by auto
  then have v: "sbox_value (snd c) = fips_sbox ! nat x" using all_values by auto
  show "at_sBox initTable x = fips_sbox ! nat x" "at_invSBox initTable (fips_sbox ! nat x) = x"
    "at_invSubMix0 initTable (fips_sbox ! nat x) = rot24 (inv_sub_word x)"
    "at_invSubMix1 initTable (fips_sbox ! nat x) = rot16 (inv_sub_word x)"
    "at_invSubMix2 initTable (fips_sbox ! nat x) = rot8 (inv_sub_word x)"
    "at_invSubMix3 initTable (fips_sbox ! nat x) = inv_sub_word x"
    using fold_entries [OF distinct_fst distinct_values c(1), of empty_tables] unfolding t v c(2) by simp_all
qed

end
