(* ===== verification/Aes_Field.thy ===== *)
theory Aes_Field
  imports Aes_Tables
begin

text \<open>
  Words of the cipher as four bytes, arithmetic in the field of the cipher, MixColumns and its inverse on words, and the tables of the
  decryptor as S-box, inverse S-box and InvMixColumns.
\<close>

subsection \<open>Words as four bytes\<close>

text \<open>\<open>word_be\<close> against the shifts, masks, rotations and byte extractions of the decryptor.\<close>

definition w3 :: "u32 \<Rightarrow> u8" where "w3 w = ucast (drop_bit 24 w)"
definition w2 :: "u32 \<Rightarrow> u8" where "w2 w = ucast (drop_bit 16 w)"
definition w1 :: "u32 \<Rightarrow> u8" where "w1 w = ucast (drop_bit 8 w)"
definition w0 :: "u32 \<Rightarrow> u8" where "w0 w = ucast w"

lemma bit_word_parts: "bit (w3 w) n \<longleftrightarrow> n < 8 \<and> bit w (n + 24)" "bit (w2 w) n \<longleftrightarrow> n < 8 \<and> bit w (n + 16)"
  "bit (w1 w) n \<longleftrightarrow> n < 8 \<and> bit w (n + 8)" "bit (w0 w) n \<longleftrightarrow> n < 8 \<and> bit w n"
  by (auto simp: w3_def w2_def w1_def w0_def bit_ucast_iff bit_drop_bit_eq add.commute)

lemma word_be_parts [simp]: "w3 (word_be a b c d) = a" "w2 (word_be a b c d) = b"
  "w1 (word_be a b c d) = c" "w0 (word_be a b c d) = d"
  by (auto intro!: bit_eqI simp: bit_word_parts bit_word_be)

lemma word_be_of_parts: "word_be (w3 w) (w2 w) (w1 w) (w0 w) = w"
  by (rule bit_eqI) (auto simp: bit_word_parts bit_word_be)

lemma word_cases: obtains a b c d where "w = word_be a b c d"
  using word_be_of_parts by metis

lemma word_be_eq [simp]: "word_be a b c d = word_be a' b' c' d' \<longleftrightarrow> a = a' \<and> b = b' \<and> c = c' \<and> d = d'"
  using word_be_parts by metis

lemma word_be_xor: "word_be a b c d XOR word_be a' b' c' d' = word_be (a XOR a') (b XOR b') (c XOR c') (d XOR d')"
  by (rule bit_eqI) (auto simp: bit_word_be bit_xor_iff)

lemma word_parts_eqI: "w3 v = w3 w \<Longrightarrow> w2 v = w2 w \<Longrightarrow> w1 v = w1 w \<Longrightarrow> w0 v = w0 w \<Longrightarrow> v = w"
  using word_be_of_parts by metis

lemma bit_word_be_offsets:
  "n < 8 \<Longrightarrow> bit (word_be a b c d) (n + 24) = bit a n" "n < 8 \<Longrightarrow> bit (word_be a b c d) (n + 16) = bit b n"
  "n < 8 \<Longrightarrow> bit (word_be a b c d) (n + 8) = bit c n" "n < 8 \<Longrightarrow> bit (word_be a b c d) n = bit d n"
  by (simp_all add: bit_word_be)

lemma bit_parts_or: "w3 (v OR w) = (w3 v OR w3 w)" "w2 (v OR w) = (w2 v OR w2 w)" "w1 (v OR w) = (w1 v OR w1 w)"
  "w0 (v OR w) = (w0 v OR w0 w)"
  by (auto intro!: bit_eqI simp: bit_word_parts bit_or_iff)

lemma bit_parts_and: "w3 (v AND w) = (w3 v AND w3 w)" "w2 (v AND w) = (w2 v AND w2 w)" "w1 (v AND w) = (w1 v AND w1 w)"
  "w0 (v AND w) = (w0 v AND w0 w)"
  by (auto intro!: bit_eqI simp: bit_word_parts bit_and_iff)

lemma parts_push:
  "push_bit 24 (word_be a b c d) = word_be d 0 0 0" "push_bit 16 (word_be a b c d) = word_be c d 0 0"
  "push_bit 8 (word_be a b c d) = word_be b c d 0"
  by (rule word_parts_eqI; rule bit_eqI; simp add: bit_word_parts bit_push_bit_iff bit_word_be_offsets; simp add: bit_word_be)+

lemma parts_drop:
  "drop_bit 24 (word_be a b c d) = word_be 0 0 0 a" "drop_bit 16 (word_be a b c d) = word_be 0 0 a b"
  "drop_bit 8 (word_be a b c d) = word_be 0 a b c"
  by (rule word_parts_eqI; rule bit_eqI; simp add: bit_word_parts bit_drop_bit_eq bit_word_be)+

lemma word_be_or: "word_be a b c d OR word_be a' b' c' d' = word_be (a OR a') (b OR b') (c OR c') (d OR d')"
  by (rule word_parts_eqI) (simp_all add: bit_parts_or)

lemma word_be_and: "word_be a b c d AND word_be a' b' c' d' = word_be (a AND a') (b AND b') (c AND c') (d AND d')"
  by (rule word_parts_eqI) (simp_all add: bit_parts_and)

lemma mask_words: "(0xff :: u32) = word_be 0 0 0 (- 1)" "(0xff00 :: u32) = word_be 0 0 (- 1) 0"
  "(0xff0000 :: u32) = word_be 0 (- 1) 0 0"
  by (simp_all add: word_be_def unsigned_minus_1_eq_mask mask_eq_exp_minus_1 push_bit_eq_mult)

lemma rot_word_be: "rot24 (word_be a b c d) = word_be d a b c" "rot16 (word_be a b c d) = word_be c d a b"
  "rot8 (word_be a b c d) = word_be b c d a"
  by (simp_all add: rot24_def rot16_def rot8_def parts_push parts_drop word_be_or)

lemma swapWord_be: "swapWord (word_be a b c d) = word_be d c b a"
  by (simp add: swapWord_def mask_words word_be_and parts_push parts_drop word_be_or)

lemma uint_word_be_0: "uint (word_be 0 0 0 a) = uint a"
  by (rule bit_eqI) (auto simp: bit_uint_iff bit_word_be dest: bit_imp_le_length)

lemma bytes_of_word_be: "b3 (word_be a b c d) = uint a" "b2 (word_be a b c d) = uint b"
  "b1 (word_be a b c d) = uint c" "b0 (word_be a b c d) = uint d"
  by (simp_all add: b3_def b2_def b1_def b0_def mask_words word_be_and parts_drop uint_word_be_0)

lemma word_be_arith:
  "word_of_int (uint a * 2 ^ 24 + uint b * 2 ^ 16 + uint c * 2 ^ 8 + uint d) = word_be a b c d"
proof -
  let ?a = "push_bit 24 (ucast a) :: u32" and ?b = "push_bit 16 (ucast b) :: u32"
    and ?c = "push_bit 8 (ucast c) :: u32" and ?d = "ucast d :: u32"
  have p: "(word_of_int (uint x * 2 ^ n) :: u32) = push_bit n (ucast x)" for x :: u8 and n
    by (simp add: push_bit_eq_mult)
  have 1: "?a + ?b = (?a OR ?b)"
    by (rule disjunctive_add) (auto simp: bit_push_bit_iff bit_ucast_iff dest: bit_imp_le_length)
  have 2: "(?a OR ?b) + ?c = ((?a OR ?b) OR ?c)"
    by (rule disjunctive_add) (auto simp: bit_push_bit_iff bit_ucast_iff bit_or_iff dest: bit_imp_le_length)
  have 3: "((?a OR ?b) OR ?c) + ?d = (((?a OR ?b) OR ?c) OR ?d)"
    by (rule disjunctive_add) (auto simp: bit_push_bit_iff bit_ucast_iff bit_or_iff dest: bit_imp_le_length)
  have "(word_of_int (uint a * 2 ^ 24 + uint b * 2 ^ 16 + uint c * 2 ^ 8 + uint d) :: u32)
      = word_of_int (uint a * 2 ^ 24) + word_of_int (uint b * 2 ^ 16) + word_of_int (uint c * 2 ^ 8)
        + word_of_int (uint d * 2 ^ 0)" by simp
  also have "\<dots> = ?a + ?b + ?c + push_bit 0 ?d" by (simp only: p)
  finally show ?thesis unfolding push_bit_0_id id_apply 1 2 3 by (simp only: word_be_def or.assoc)
qed

subsection \<open>The field of the cipher\<close>

text \<open>Multiplication by \<open>x\<close> in the field, and the S-box on bytes.\<close>

definition xt :: "u8 \<Rightarrow> u8" where
  "xt b = (push_bit 1 b XOR (if bit b 7 then 0x1b else 0))"

definition S :: "u8 \<Rightarrow> u8" where
  "S b = word_of_int (fips_sbox ! nat (uint b))"

lemma xt_xor: "xt (a XOR b) = xt a XOR xt b"
  by (rule bit_eqI) (auto simp: xt_def bit_simps)

lemma xt_0 [simp]: "xt 0 = 0"
  by (simp add: xt_def)

lemma uint_byte: "0 \<le> uint (b :: u8)" "uint (b :: u8) < 256"
  using uint_lt2p [of b] by simp_all

lemma msb_byte: "bit (b :: u8) 7 \<longleftrightarrow> 128 \<le> uint b"
proof -
  have "bit b 7 \<longleftrightarrow> bit (uint b) 7" by (simp add: bit_uint_iff)
  also have "\<dots> \<longleftrightarrow> odd (uint b div 128)" by (simp only: bit_iff_odd) simp
  also have "\<dots> \<longleftrightarrow> 128 \<le> uint b"
  proof (cases "128 \<le> uint b")
    case True
    then have "uint b div 128 = 1" using uint_byte [of b] by simp
    then show ?thesis using True by simp
  next
    case False
    then have "uint b div 128 = 0" using uint_byte [of b] by simp
    then show ?thesis using False by simp
  qed
  finally show ?thesis .
qed

lemma xor_high: "0 \<le> r \<Longrightarrow> r < 256 \<Longrightarrow> (256 + r) XOR 0x11b = r XOR (0x1b :: int)"
proof -
  assume r: "0 \<le> r" "r < 256"
  have t: "take_bit 8 r = r" using r by (simp add: take_bit_int_eq_self)
  have "\<not> bit r 8" using t by (metis bit_take_bit_iff less_irrefl)
  then have "set_bit 8 r = r + 256" by (simp add: set_bit_eq)
  moreover have "set_bit 8 r = (256 XOR r)"
    using \<open>\<not> bit r 8\<close> by (intro bit_eqI) (auto simp: bit_set_bit_iff bit_xor_iff bit_exp_iff [of 8, simplified])
  ultimately have "(256 + r) XOR 0x11b = (256 XOR r) XOR (256 XOR 0x1b)" by (simp add: add.commute)
  also have "\<dots> = r XOR 0x1b" by (metis xor.assoc xor.commute xor_self_eq xor.left_neutral)
  finally show ?thesis .
qed

lemma d_entry_xt: "d_entry (uint b) = uint (xt b)"
proof (cases "128 \<le> uint b")
  case False
  have "uint (push_bit 1 b) = 2 * uint b"
    using False uint_byte [of b] by (simp add: push_bit_eq_mult uint_word_ariths)
  then show ?thesis using False by (simp add: d_entry_eval uint_byte xt_def msb_byte)
next
  case True
  define r where "r = 2 * uint b - 256"
  have r: "2 * uint b = 256 + r" "0 \<le> r" "r < 256"
    using True uint_byte [of b] by (simp_all add: r_def)
  have "uint b * 2 mod 256 = r" using r by (simp add: mult.commute [of _ 2])
  then have "uint (push_bit 1 b) = r" by (simp add: push_bit_eq_mult uint_word_ariths)
  then show ?thesis using True r xor_high [of r] by (simp add: d_entry_eval uint_byte xt_def msb_byte uint_xor)
qed

lemma byte_index: "nat (uint (b :: u8)) < length fips_sbox"
  using uint_byte [of b] unfolding length_fips by linarith

lemma S_byte: "uint (S b) = fips_sbox ! nat (uint b)"
proof -
  have "fips_sbox ! nat (uint b) \<in> set fips_sbox" using byte_index by (rule nth_mem)
  with fips_range have "0 \<le> fips_sbox ! nat (uint b)" "fips_sbox ! nat (uint b) < 256" by blast+
  then show ?thesis by (simp add: S_def uint_word_of_int)
qed

lemma inj_S: "inj S"
proof (rule injI)
  fix a b assume "S a = S b"
  then have "fips_sbox ! nat (uint a) = fips_sbox ! nat (uint b)" using S_byte by metis
  then have "nat (uint a) = nat (uint b)"
    using nth_eq_iff_index_eq [OF distinct_fips] byte_index by blast
  then show "a = b" using uint_byte by (metis eq_nat_nat_iff word_uint_eqI)
qed

lemma surj_S: "surj S"
  using inj_S by (simp add: finite_UNIV_inj_surj)

lemma S_cases: obtains a where "b = S a"
  using surj_S by (metis surjD)

text \<open>The columns that MixColumns and its inverse make of one column.\<close>

definition mc :: "u32 \<Rightarrow> u32" where
  "mc w = (let a = w3 w; b = w2 w; c = w1 w; d = w0 w in
     word_be (xt a XOR xt b XOR b XOR c XOR d) (a XOR xt b XOR xt c XOR c XOR d)
             (a XOR b XOR xt c XOR xt d XOR d) (xt a XOR a XOR b XOR c XOR xt d))"

definition x9 :: "u8 \<Rightarrow> u8" where "x9 a = (xt (xt (xt a)) XOR a)"
definition x11 :: "u8 \<Rightarrow> u8" where "x11 a = (xt (xt (xt a)) XOR xt a XOR a)"
definition x13 :: "u8 \<Rightarrow> u8" where "x13 a = (xt (xt (xt a)) XOR xt (xt a) XOR a)"
definition x14 :: "u8 \<Rightarrow> u8" where "x14 a = (xt (xt (xt a)) XOR xt (xt a) XOR xt a)"

definition imc :: "u32 \<Rightarrow> u32" where
  "imc w = (let a = w3 w; b = w2 w; c = w1 w; d = w0 w in
     word_be (x14 a XOR x11 b XOR x13 c XOR x9 d) (x9 a XOR x14 b XOR x11 c XOR x13 d)
             (x13 a XOR x9 b XOR x14 c XOR x11 d) (x11 a XOR x13 b XOR x9 c XOR x14 d))"

lemma xor_left_cancel [simp]: "(a :: u8) XOR (a XOR b) = b"
  by (simp flip: xor.assoc)

lemma imc_mc: "imc (mc w) = w"
  by (cases w rule: word_cases)
    (simp add: imc_def mc_def Let_def x9_def x11_def x13_def x14_def xt_xor xor.assoc xor.commute xor.left_commute)

lemma imc_xor: "imc (v XOR w) = imc v XOR imc w"
  by (cases v rule: word_cases; cases w rule: word_cases)
    (simp add: word_be_xor imc_def Let_def x9_def x11_def x13_def x14_def xt_xor xor.assoc xor.commute xor.left_commute)

subsection \<open>The tables of the decryptor on bytes\<close>

text \<open>The inverse S-box, as the decryptor's table gives it.\<close>

definition iS :: "u8 \<Rightarrow> u8" where
  "iS b = word_of_int (at_invSBox initTable (uint b))"

lemma iS_table: "at_invSBox initTable (uint (S b)) = uint b"
  using initTable_entries(2) [OF uint_byte [of b]] by (simp add: S_byte)

lemma iS_S [simp]: "iS (S b) = b"
  by (simp add: iS_def iS_table)

lemma sBox_S: "at_sBox initTable (uint b) = uint (S b)"
  using initTable_entries(1) [OF uint_byte [of b]] by (simp add: S_byte)

lemma word_of_multiples:
  "(word_of_int (uint a * 0x1010101) :: u32) = word_be a a a a"
  "(word_of_int (uint a * 0x10001) :: u32) = word_be 0 a 0 a"
  "(word_of_int (uint a * 0x101) :: u32) = word_be 0 0 a a"
  "(word_of_int (uint a * 0x1010100) :: u32) = word_be a a a 0"
  by (simp_all flip: word_be_arith add: algebra_simps)

lemma inv_sub_word_be: "inv_sub_word (uint b) = word_be (x9 b) (x13 b) (x11 b) (x14 b)"
  unfolding inv_sub_word_def Let_def d_entry_xt word_of_multiples word_be_xor
  by (simp add: x9_def x11_def x13_def x14_def xor.assoc)

lemma invSubMix_S:
  "at_invSubMix0 initTable (uint (S b)) = word_be (x14 b) (x9 b) (x13 b) (x11 b)"
  "at_invSubMix1 initTable (uint (S b)) = word_be (x11 b) (x14 b) (x9 b) (x13 b)"
  "at_invSubMix2 initTable (uint (S b)) = word_be (x13 b) (x11 b) (x14 b) (x9 b)"
  "at_invSubMix3 initTable (uint (S b)) = word_be (x9 b) (x13 b) (x11 b) (x14 b)"
  using initTable_entries(3-6) [OF uint_byte [of b]] by (simp_all add: S_byte inv_sub_word_be rot_word_be)

lemmas table_simps = iS_table sBox_S invSubMix_S bytes_of_word_be

lemma inv_mix_imc: "inv_mix w = imc w"
  by (cases w rule: word_cases) (simp add: inv_mix_def Let_def table_simps word_be_xor imc_def xor.assoc)

lemma subWord_be: "subWord (word_be a b c d) = word_be (S a) (S b) (S c) (S d)"
proof -
  have "push_bit 24 (word_of_int (uint x)) = word_be x 0 0 0" "push_bit 16 (word_of_int (uint x)) = word_be 0 x 0 0"
    "push_bit 8 (word_of_int (uint x)) = word_be 0 0 x 0" "(word_of_int (uint x) :: u32) = word_be 0 0 0 x" for x :: u8
    by (simp_all add: word_be_def)
  then show ?thesis by (simp add: subWord_def Let_def table_simps word_be_or)
qed

text \<open>One column of a round and of the last round, on bytes that are images in the S-box.\<close>

lemma inv_column_bare:
  "at_invSubMix0 initTable (b3 (word_be (S a) p0 p1 p2)) XOR at_invSubMix1 initTable (b2 (word_be p3 (S b) p4 p5))
   XOR at_invSubMix2 initTable (b1 (word_be p6 p7 (S c) p8)) XOR at_invSubMix3 initTable (b0 (word_be p9 q0 q1 (S d)))
   = imc (word_be a b c d)"
  by (simp add: table_simps word_be_xor imc_def xor.assoc)

lemma inv_column:
  "at_invSubMix0 initTable (b3 (word_be (S a) p0 p1 p2)) XOR at_invSubMix1 initTable (b2 (word_be p3 (S b) p4 p5))
   XOR at_invSubMix2 initTable (b1 (word_be p6 p7 (S c) p8)) XOR at_invSubMix3 initTable (b0 (word_be p9 q0 q1 (S d))) XOR k
   = imc (word_be a b c d) XOR k"
  by (simp only: inv_column_bare [of a p0 p1 p2 p3 b p4 p5 p6 p7 c p8 p9 q0 q1 d, symmetric] xor.assoc)

lemma inv_sub_be: "inv_sub (word_be (S a) p0 p1 p2) (word_be p3 (S b) p4 p5) (word_be p6 p7 (S c) p8) (word_be p9 q0 q1 (S d))
    = word_be a b c d"
proof -
  have "push_bit 24 (word_of_int (uint x)) = word_be x 0 0 0" "push_bit 16 (word_of_int (uint x)) = word_be 0 x 0 0"
    "push_bit 8 (word_of_int (uint x)) = word_be 0 0 x 0" "(word_of_int (uint x) :: u32) = word_be 0 0 0 x" for x :: u8
    by (simp_all add: word_be_def)
  then show ?thesis by (simp add: inv_sub_def Let_def table_simps word_be_xor)
qed

end
