(* ===== verification/Aes_Cbc.thy ===== *)
theory Aes_Cbc
  imports Aes_Field
begin

text \<open>
  The cipher of FIPS 197 as the specification of the decryptor, whose rounds over the inverse key schedule undo it
  block by block; the key schedule of the standard against \<open>expandKey\<close>, cipher block chaining as a locale over any
  block cipher, and the decryption loop as its decryption.
\<close>

section \<open>The cipher of FIPS 197\<close>

text \<open>
  The state is its four columns, each a big-endian word (row 0 is the high byte). A round key is a
  state, and a key schedule is the list of its words.
\<close>

definition sub_word_fips :: "u32 \<Rightarrow> u32" where
  "sub_word_fips w = word_be (S (w3 w)) (S (w2 w)) (S (w1 w)) (S (w0 w))"

fun sub_bytes :: "aes_state \<Rightarrow> aes_state" where
  "sub_bytes (a, b, c, d) = (sub_word_fips a, sub_word_fips b, sub_word_fips c, sub_word_fips d)"

fun shift_rows :: "aes_state \<Rightarrow> aes_state" where
  "shift_rows (a, b, c, d) =
     (word_be (w3 a) (w2 b) (w1 c) (w0 d), word_be (w3 b) (w2 c) (w1 d) (w0 a),
      word_be (w3 c) (w2 d) (w1 a) (w0 b), word_be (w3 d) (w2 a) (w1 b) (w0 c))"

fun mix_columns :: "aes_state \<Rightarrow> aes_state" where
  "mix_columns (a, b, c, d) = (mc a, mc b, mc c, mc d)"

fun add_block :: "aes_state \<Rightarrow> aes_state \<Rightarrow> aes_state" where
  "add_block (a, b, c, d) (a', b', c', d') = (a XOR a', b XOR b', c XOR c', d XOR d')"

definition round_key :: "u32 list \<Rightarrow> nat \<Rightarrow> aes_state" where
  "round_key ks j = (ks ! (4 * j), ks ! (4 * j + 1), ks ! (4 * j + 2), ks ! (4 * j + 3))"

text \<open>The state after the first \<open>j\<close> rounds, and the whole cipher with \<open>nr\<close> rounds.\<close>

fun rounds :: "u32 list \<Rightarrow> nat \<Rightarrow> aes_state \<Rightarrow> aes_state" where
  "rounds ks 0 p = add_block p (round_key ks 0)"
| "rounds ks (Suc j) p = add_block (mix_columns (shift_rows (sub_bytes (rounds ks j p)))) (round_key ks (Suc j))"

definition encrypt_block :: "u32 list \<Rightarrow> nat \<Rightarrow> aes_state \<Rightarrow> aes_state" where
  "encrypt_block ks nr p = add_block (shift_rows (sub_bytes (rounds ks (nr - 1) p))) (round_key ks nr)"

lemma add_block_cancel [simp]: "add_block (add_block p k) k = p"
  by (cases p; cases k) (simp add: xor.assoc)

lemma add_block_commute: "add_block p k = add_block k p"
  by (cases p; cases k) (simp add: xor.commute)

section \<open>Decryption undoes the cipher\<close>

text \<open>The decryptor holds the columns in the order 0, 3, 2, 1.\<close>

fun perm :: "aes_state \<Rightarrow> aes_state" where
  "perm (a, b, c, d) = (a, d, c, b)"

lemma perm_perm [simp]: "perm (perm p) = p"
  by (cases p) simp

lemma perm_add: "perm (add_block p k) = add_block (perm p) (perm k)"
  by (cases p; cases k) simp

fun inv_mix_columns :: "aes_state \<Rightarrow> aes_state" where
  "inv_mix_columns (a, b, c, d) = (imc a, imc b, imc c, imc d)"

lemma inv_mix_columns_add: "inv_mix_columns (add_block p k) = add_block (inv_mix_columns p) (inv_mix_columns k)"
  by (cases p; cases k) (simp add: imc_xor)

lemma inv_mix_columns_mix [simp]: "inv_mix_columns (mix_columns p) = p"
  by (cases p) (simp add: imc_mc)

lemma inv_round_sub_shift:
  assumes "round_key iks j = k"
  shows "inv_round iks (4 * j) (perm (shift_rows (sub_bytes y))) = add_block (perm (inv_mix_columns y)) k"
proof -
  obtain c0 c1 c2 c3 where y: "y = (c0, c1, c2, c3)" by (cases y) auto
  show ?thesis
    unfolding y
    by (cases c0 rule: word_cases; cases c1 rule: word_cases; cases c2 rule: word_cases; cases c3 rule: word_cases)
      (simp add: sub_word_fips_def inv_round_def Let_def inv_column round_key_def flip: assms)
qed


lemma inv_sub_shift:
  "(let (s0, s1, s2, s3) = perm (shift_rows (sub_bytes y))
    in (inv_sub s0 s1 s2 s3, inv_sub s1 s2 s3 s0, inv_sub s2 s3 s0 s1, inv_sub s3 s0 s1 s2)) = perm y"
proof -
  obtain c0 c1 c2 c3 where y: "y = (c0, c1, c2, c3)" by (cases y) auto
  show ?thesis
    unfolding y
    by (cases c0 rule: word_cases; cases c1 rule: word_cases; cases c2 rule: word_cases; cases c3 rule: word_cases)
      (simp add: sub_word_fips_def Let_def inv_sub_be)
qed

text \<open>
  The inverse schedule: the round keys in reverse order and with permuted columns, those of the
  middle rounds with InvMixColumns applied.
\<close>

definition inverse_schedule :: "u32 list \<Rightarrow> u32 list \<Rightarrow> nat \<Rightarrow> bool" where
  "inverse_schedule ks iks nr \<longleftrightarrow>
     (\<forall>r \<le> nr. round_key iks r = perm (if r = 0 \<or> r = nr then round_key ks (nr - r)
                                         else inv_mix_columns (round_key ks (nr - r))))"

lemma inverse_scheduleD:
  assumes "inverse_schedule ks iks nr"
  shows "round_key iks 0 = perm (round_key ks nr)" "round_key iks nr = perm (round_key ks 0)"
    "0 < r \<Longrightarrow> r < nr \<Longrightarrow> round_key iks r = perm (inv_mix_columns (round_key ks (nr - r)))"
  using assms by (auto simp: inverse_schedule_def)

lemma add_xor: "add_block (add_block x k) (perm k) = add_block x (add_block k (perm k))"
  by (cases x; cases k) (simp add: xor.assoc)

lemma inv_rounds_invert:
  assumes inv: "inverse_schedule ks iks nr"
  shows "j < nr \<Longrightarrow> n \<le> j \<Longrightarrow>
    inv_rounds iks (4 * (nr - j)) n (perm (shift_rows (sub_bytes (rounds ks j p))))
      = perm (shift_rows (sub_bytes (rounds ks (j - n) p)))"
proof (induction n arbitrary: j)
  case (Suc n)
  then obtain i where j: "j = Suc i" by (cases j) auto
  have k: "round_key iks (nr - j) = perm (inv_mix_columns (round_key ks j))"
    using inverse_scheduleD(3) [OF inv, of "nr - j"] Suc.prems j by simp
  have "inv_round iks (4 * (nr - j)) (perm (shift_rows (sub_bytes (rounds ks j p))))
      = perm (shift_rows (sub_bytes (rounds ks i p)))"
    unfolding inv_round_sub_shift [OF k] by (simp add: j inv_mix_columns_add perm_add)
  moreover have "4 * (nr - j) + 4 = 4 * (nr - i)" using Suc.prems j by simp
  ultimately show ?case using Suc.IH [of i] Suc.prems j by simp
qed simp

lemma decrypt_encrypt:
  assumes inv: "inverse_schedule ks (ad_invKeySchedule d) nr" and nr: "nr = ad_keySize d + 6"
  shows "perm (decrypt_block d (encrypt_block ks nr p)) = p"
proof -
  let ?iks = "ad_invKeySchedule d"
  obtain c0 c1 c2 c3 where c: "encrypt_block ks nr p = (c0, c1, c2, c3)" by (cases "encrypt_block ks nr p") auto
  have "add_block (perm (encrypt_block ks nr p)) (round_key ?iks 0) = perm (shift_rows (sub_bytes (rounds ks (nr - 1) p)))"
    unfolding inverse_scheduleD(1) [OF inv] encrypt_block_def by (simp flip: perm_add)
  then have st: "(c0 XOR ?iks ! 0, c3 XOR ?iks ! 1, c2 XOR ?iks ! 2, c1 XOR ?iks ! 3)
      = perm (shift_rows (sub_bytes (rounds ks (nr - 1) p)))"
    by (simp add: c round_key_def eval_nat_numeral)
  have r: "inv_rounds ?iks 4 (nr - 1) (perm (shift_rows (sub_bytes (rounds ks (nr - 1) p))))
      = perm (shift_rows (sub_bytes (rounds ks 0 p)))"
    using inv_rounds_invert [OF inv, of "nr - 1" "nr - 1" p] nr by simp
  have n4: "4 + 4 * (nr - 1) = 4 * nr" using nr by simp
  obtain s0 s1 s2 s3 where s: "perm (shift_rows (sub_bytes (rounds ks 0 p))) = (s0, s1, s2, s3)"
    by (cases "perm (shift_rows (sub_bytes (rounds ks 0 p)))") auto
  have "decrypt_block d (encrypt_block ks nr p)
      = add_block (inv_sub s0 s1 s2 s3, inv_sub s1 s2 s3 s0, inv_sub s2 s3 s0 s1, inv_sub s3 s0 s1 s2) (round_key ?iks nr)"
    unfolding decrypt_block_def c Let_def prod.case nr [symmetric] st r s n4 by (simp add: round_key_def)
  also have "\<dots> = add_block (perm (rounds ks 0 p)) (round_key ?iks nr)"
    using inv_sub_shift [of "rounds ks 0 p"] unfolding s by (simp add: Let_def)
  also have "\<dots> = perm p"
    unfolding inverse_scheduleD(2) [OF inv] by (simp flip: perm_add)
  finally show ?thesis by simp
qed

section \<open>The key schedule\<close>

text \<open>The key expansion of FIPS 197 for 128-bit keys (\<open>Nk = 4\<close>), word by word.\<close>

definition rcon_fips :: "nat \<Rightarrow> u32" where
  "rcon_fips i = word_be ((xt ^^ (i - 1)) 1) 0 0 0"

definition rot_word :: "u32 \<Rightarrow> u32" where
  "rot_word w = word_be (w2 w) (w1 w) (w0 w) (w3 w)"

fun fips_word :: "u32 list \<Rightarrow> nat \<Rightarrow> u32" where
  "fips_word key i =
     (if i < 4 then key ! i
      else fips_word key (i - 4) XOR
        (if i mod 4 = 0 then sub_word_fips (rot_word (fips_word key (i - 1))) XOR rcon_fips (i div 4)
         else fips_word key (i - 1)))"

declare fips_word.simps [simp del]

lemma subWord_fips: "subWord w = sub_word_fips w"
  by (cases w rule: word_cases) (simp add: subWord_be sub_word_fips_def)

lemma rot8_rot_word: "rot8 w = rot_word w"
  by (cases w rule: word_cases) (simp add: rot_word_be rot_word_def)

lemma funpow_num: "(f ^^ numeral k) x = f ((f ^^ pred_numeral k) x)"
  by (simp add: numeral_eq_Suc)

lemma rcon_powers:
  "(xt ^^ 0) 1 = 0x1" "(xt ^^ 1) 1 = 0x2" "(xt ^^ 2) 1 = 0x4" "(xt ^^ 3) 1 = 0x8" "(xt ^^ 4) 1 = 0x10"
  "(xt ^^ 5) 1 = 0x20" "(xt ^^ 6) 1 = 0x40" "(xt ^^ 7) 1 = 0x80" "(xt ^^ 8) 1 = 0x1b" "(xt ^^ 9) 1 = 0x36"
  by (simp_all add: funpow_num xt_def)

lemma rcon_rcon_fips:
  assumes "0 < i" and "i < 11"
  shows "push_bit 24 (word_of_int (rcon i)) = rcon_fips i"
proof -
  have p: "(push_bit 24 (word_of_int (uint x)) :: u32) = word_be x 0 0 0" for x :: u8
    by (simp add: word_be_def)
  have "i \<in> {1..<11}" using assms by simp
  then have "word_of_int (rcon i) = (word_of_int (uint ((xt ^^ (i - 1)) 1)) :: u32)"
    by (simp add: atLeastLessThan_nat_numeral) (auto simp: rcon_def rcon_powers [simplified])
  then show ?thesis by (simp only: p rcon_fips_def)
qed


lemma ks_temp_fips:
  assumes "4 \<le> i" and "i < 44"
  shows "ks_temp 4 i w = (if i mod 4 = 0 then sub_word_fips (rot_word w) XOR rcon_fips (i div 4) else w)"
  using assms rcon_rcon_fips [of "i div 4"] by (auto simp: ks_temp_def subWord_fips rot8_rot_word)

lemma ks_loop_fips:
  assumes "length key = 4"
  shows "length ks + n \<le> 44 \<Longrightarrow> ks = map (fips_word key) [0..<length ks] \<Longrightarrow>
    ks_loop key n ks = map (fips_word key) [0..<length ks + n]"
proof (induction n arbitrary: ks)
  case (Suc n)
  let ?i = "length ks"
  have nth: "ks ! j = fips_word key j" if "j < ?i" for j
    using Suc.prems(2) that by (metis (no_types) add_0 diff_zero length_map length_upt nth_map nth_upt)
  define w where "w = (if ?i < 4 then key ! ?i else ks ! (?i - 4) XOR ks_temp 4 ?i (ks ! (?i - 1)))"
  have "w = fips_word key ?i"
    using Suc.prems(1) by (simp add: w_def fips_word.simps [of key ?i] nth ks_temp_fips)
  then have "ks @ [w] = map (fips_word key) [0..<Suc ?i]"
    using Suc.prems(2) by simp
  then have "ks_loop key n (ks @ [w]) = map (fips_word key) [0..<length (ks @ [w]) + n]"
    using Suc.prems(1) by (intro Suc.IH) simp_all
  then show ?case using assms by (simp add: Let_def w_def)
qed simp

lemma inv_schedule_words:
  assumes "length ks = 44"
  shows "inverse_schedule ks (map (inv_row ks) [0..<44]) 10"
  unfolding inverse_schedule_def
proof (intro allI impI)
  fix r :: nat assume "r \<le> 10"
  let ?iks = "map (inv_row ks) [0..<44]"
  have i: "?iks ! (4 * r + c) = inv_row ks (4 * r + c)" if "c < 4" for c
    using that \<open>r \<le> 10\<close> by simp
  have sub: "44 - (4 * r + c) = 4 * (10 - r) + (4 - c)" if "c < 4" for c
    using that \<open>r \<le> 10\<close> by simp
  have m: "(4 * r + c) mod 4 = c" if "c < 4" for c using that by simp
  have row: "inv_row ks (4 * r + c) =
      (if r = 0 \<or> r = 10 then ks ! (4 * (10 - r) + (4 - c) mod 4)
       else imc (ks ! (4 * (10 - r) + (4 - c) mod 4)))" if "c < 4" for c
  proof -
    have "(4 * r + c < 4) = (r = 0)" using that by auto
    moreover have "(4 * (10 - r) + (4 - c) \<le> 4) = (r = 10)" using that \<open>r \<le> 10\<close> by auto
    moreover have "(if c \<noteq> 0 then ks ! (4 * (10 - r) + (4 - c)) else ks ! (4 * (10 - r) + (4 - c) - 4))
        = ks ! (4 * (10 - r) + (4 - c) mod 4)" using that by auto
    ultimately show ?thesis
      by (simp only: inv_row_def Let_def assms sub [OF that] m [OF that] inv_mix_imc)
  qed
  show "round_key ?iks r = perm (if r = 0 \<or> r = 10 then round_key ks (10 - r) else inv_mix_columns (round_key ks (10 - r)))"
    using i [of 0] i [of 1] i [of 2] i [of 3] row [of 0] row [of 1] row [of 2] row [of 3]
    by (simp add: round_key_def)
qed

section \<open>The state of a decryptor\<close>

text \<open>
  A decryptor holds no key, or a key of four words with the schedule of the standard and the
  inverse schedule that belongs to it.
\<close>

definition keyed :: "aes_decryptor \<Rightarrow> bool" where
  "keyed d \<longleftrightarrow> length (ad_key d) = 4 \<and> ad_keySize d = 4 \<and> ad_keySchedule d = map (fips_word (ad_key d)) [0..<44]
     \<and> inverse_schedule (ad_keySchedule d) (ad_invKeySchedule d) 10"

definition decryptor_ok :: "aes_decryptor \<Rightarrow> bool" where
  "decryptor_ok d \<longleftrightarrow> ad_key d = [] \<or> keyed d"

lemma keyedD:
  "keyed d \<Longrightarrow> inverse_schedule (ad_keySchedule d) (ad_invKeySchedule d) 10" "keyed d \<Longrightarrow> ad_keySize d = 4"
  unfolding keyed_def by blast+

lemma uint8ArrayToUint32Array_length: "uint8ArrayToUint32Array bs = Inr ws \<Longrightarrow> length ws = 4"
  by (auto simp: uint8ArrayToUint32Array_def split: if_splits)

lemma same_key_iff:
  assumes "length key = 4" and "ad_key d = [] \<or> length (ad_key d) = 4"
  shows "list_all (\<lambda>i. i < length (ad_key d) \<and> key ! i = ad_key d ! i) [0..<length key] \<longleftrightarrow> ad_key d = key"
  using assms by (auto simp: list_all_iff intro!: nth_equalityI [of "ad_key d" key])

lemma expandKey_keyed:
  assumes "decryptor_ok d" and "uint8ArrayToUint32Array keyBuffer = Inr key" and "expandKey keyBuffer d = Inr d'"
  shows "keyed d' \<and> ad_key d' = key"
proof -
  have l: "length key = 4" using assms(2) by (rule uint8ArrayToUint32Array_length)
  have same: "list_all (\<lambda>i. i < length (ad_key d) \<and> key ! i = ad_key d ! i) [0..<length key] \<longleftrightarrow> ad_key d = key"
    using assms(1) l by (intro same_key_iff) (auto simp: decryptor_ok_def keyed_def)
  show ?thesis
  proof (cases "ad_key d = key")
    case True
    then have "d' = d" using assms(2,3) same by (simp add: expandKey_def)
    then show ?thesis using True assms(1) l by (auto simp: decryptor_ok_def)
  next
    case False
    have ks: "ks_loop key 44 [] = map (fips_word key) [0..<44]"
      using ks_loop_fips [OF l, of "[]" 44] by simp
    have "d' = d\<lparr>ad_key := key, ad_keySize := 4, ad_keySchedule := ks_loop key 44 [],
        ad_invKeySchedule := map (inv_row (ks_loop key 44 [])) [0..<44]\<rparr>"
      using assms(2,3) same False l by (simp add: expandKey_def Let_def)
    then show ?thesis using l inv_schedule_words [of "ks_loop key 44 []"] by (simp add: keyed_def ks)
  qed
qed

lemma expandKey_total:
  assumes "decryptor_ok d" and "16 \<le> length keyBuffer"
  obtains d' where "expandKey keyBuffer d = Inr d'"
proof -
  obtain key where k: "uint8ArrayToUint32Array keyBuffer = Inr key"
    using assms(2) by (simp add: uint8ArrayToUint32Array_def)
  then have "length key = 4" by (rule uint8ArrayToUint32Array_length)
  then have "\<exists>d'. expandKey keyBuffer d = Inr d'" using k by (auto simp: expandKey_def Let_def)
  then show thesis using that by blast
qed

lemma expandKey_short: "length keyBuffer < 16 \<Longrightarrow> expandKey keyBuffer d = Inl (JsError ''RangeError'')"
  by (simp add: expandKey_def uint8ArrayToUint32Array_def)

section \<open>Cipher block chaining\<close>

text \<open>A block cipher under a key, with an addition that is its own inverse on blocks.\<close>

locale block_cipher =
  fixes valid :: "'k \<Rightarrow> bool" and enc :: "'k \<Rightarrow> 'b \<Rightarrow> 'b" and dec :: "'k \<Rightarrow> 'b \<Rightarrow> 'b" and add :: "'b \<Rightarrow> 'b \<Rightarrow> 'b"
  assumes dec_enc: "valid k \<Longrightarrow> dec k (enc k b) = b"
    and add_add: "add (add a b) b = a"
begin

fun cbc_enc :: "'k \<Rightarrow> 'b \<Rightarrow> 'b list \<Rightarrow> 'b list" where
  "cbc_enc k iv [] = []"
| "cbc_enc k iv (p # ps) = enc k (add p iv) # cbc_enc k (enc k (add p iv)) ps"

fun cbc_dec :: "'k \<Rightarrow> 'b \<Rightarrow> 'b list \<Rightarrow> 'b list" where
  "cbc_dec k iv [] = []"
| "cbc_dec k iv (c # cs) = add (dec k c) iv # cbc_dec k c cs"

lemma cbc_roundtrip: "valid k \<Longrightarrow> cbc_dec k iv (cbc_enc k iv ps) = ps"
  by (induction ps arbitrary: iv) (simp_all add: dec_enc add_add)

lemma length_cbc_enc: "length (cbc_enc k iv ps) = length ps"
  by (induction ps arbitrary: iv) simp_all

lemma cbc_dec_append: "cbc_dec k iv (cs @ c # ds) = cbc_dec k iv (cs @ [c]) @ cbc_dec k c ds"
  by (induction cs arbitrary: iv) simp_all

text \<open>Damage to the initialisation vector reaches the first block only.\<close>

lemma cbc_dec_iv: "tl (cbc_dec k iv cs) = tl (cbc_dec k iv' cs)"
  by (cases cs) simp_all

end

text \<open>AES-128 under a key of four words, and the decryptor with the columns in the order of the standard.\<close>

definition fips_encrypt :: "u32 list \<Rightarrow> aes_state \<Rightarrow> aes_state" where
  "fips_encrypt key = encrypt_block (map (fips_word key) [0..<44]) 10"

definition aes_dec :: "aes_decryptor \<Rightarrow> aes_state \<Rightarrow> aes_state" where
  "aes_dec d b = perm (decrypt_block d b)"

interpretation aes: block_cipher keyed "\<lambda>d. fips_encrypt (ad_key d)" aes_dec add_block
proof
  show "aes_dec k (fips_encrypt (ad_key k) b) = b" if "keyed k" for k b
    unfolding aes_dec_def fips_encrypt_def using that
    by (intro decrypt_encrypt) (auto simp: keyed_def dest: sym)
qed simp

text \<open>AES-128-CBC as its users write it: the key, the initialisation vector and the blocks.\<close>

fun aes128_cbc_encrypt :: "u32 list \<Rightarrow> aes_state \<Rightarrow> aes_state list \<Rightarrow> aes_state list" where
  "aes128_cbc_encrypt key iv [] = []"
| "aes128_cbc_encrypt key iv (p # ps) =
     (let c = fips_encrypt key (add_block p iv) in c # aes128_cbc_encrypt key c ps)"

lemma cbc_enc_aes128: "aes.cbc_enc d iv ps = aes128_cbc_encrypt (ad_key d) iv ps"
  by (induction ps arbitrary: iv) (simp_all add: Let_def)

section \<open>The decryption loop\<close>

text \<open>The words of a block in the order of the buffer, and its bytes.\<close>

fun block_words :: "aes_state \<Rightarrow> u32 list" where
  "block_words (a, b, c, d) = [a, b, c, d]"

definition bytes_be :: "u32 \<Rightarrow> bytes" where
  "bytes_be w = [w3 w, w2 w, w1 w, w0 w]"

definition block_bytes :: "aes_state \<Rightarrow> bytes" where
  "block_bytes b = concat (map bytes_be (block_words b))"

lemma length_block_words [simp]: "length (block_words b) = 4"
  by (cases b) simp

lemma swapWord_swapWord [simp]: "swapWord (swapWord w) = w"
  by (cases w rule: word_cases) (simp add: swapWord_be)

lemma word_at_append:
  assumes "length pre = off"
  shows "word_at (pre @ a # b # c # d # rest) off = a" "word_at (pre @ a # b # c # d # rest) (off + 1) = b"
    "word_at (pre @ a # b # c # d # rest) (off + 2) = c" "word_at (pre @ a # b # c # d # rest) (off + 3) = d"
  using assms by (auto simp: word_at_def nth_append eval_nat_numeral)

lemma update4:
  assumes "length pre = off"
  shows "(pre @ a # b # c # d # rest)[off := w, off + 1 := x, off + 2 := y, off + 3 := z] = pre @ w # x # y # z # rest"
  using assms by (simp add: list_update_append eval_nat_numeral)

declare decrypt_loop.simps [simp del]

lemma decrypt_loop_cbc:
  assumes "length pre = off" and "length fin = off"
  shows "decrypt_loop d (pre @ map swapWord (concat (map block_words cs))) off iv (fin @ replicate (4 * length cs) 0)
    = fin @ map swapWord (concat (map block_words (aes.cbc_dec d iv cs)))"
  using assms
proof (induction cs arbitrary: pre off iv fin)
  case Nil
  then show ?case by (subst decrypt_loop.simps) simp
next
  case (Cons c cs)
  obtain a b e f where c: "c = (a, b, e, f)" by (cases c) auto
  obtain t0 t1 t2 t3 where t: "decrypt_block d c = (t0, t1, t2, t3)" by (cases "decrypt_block d c") auto
  obtain v0 v1 v2 v3 where v: "iv = (v0, v1, v2, v3)" by (cases iv) auto
  let ?rest = "map swapWord (concat (map block_words cs))"
  let ?in = "map swapWord (block_words c)"
  let ?out = "map swapWord (block_words (add_block (aes_dec d c) iv))"
  have inp: "pre @ map swapWord (concat (map block_words (c # cs)))
      = pre @ swapWord a # swapWord b # swapWord e # swapWord f # ?rest" by (simp add: c)
  have out: "fin @ replicate (4 * length (c # cs)) (0 :: u32) = fin @ 0 # 0 # 0 # 0 # replicate (4 * length cs) 0"
    by (simp add: eval_nat_numeral)
  have new: "fin @ swapWord (t0 XOR v0) # swapWord (t3 XOR v1) # swapWord (t2 XOR v2) # swapWord (t1 XOR v3) # replicate (4 * length cs) 0
      = (fin @ ?out) @ replicate (4 * length cs) 0"
    by (simp add: aes_dec_def t v)
  have "decrypt_loop d (pre @ map swapWord (concat (map block_words (c # cs)))) off iv (fin @ replicate (4 * length (c # cs)) 0)
      = decrypt_loop d ((pre @ ?in) @ ?rest) (off + 4) c ((fin @ ?out) @ replicate (4 * length cs) 0)"
    unfolding inp out
    by (subst decrypt_loop.simps)
      (simp only: word_at_append [OF Cons.prems(1)] update4 [OF Cons.prems(2)] swapWord_swapWord c [symmetric] t v
        Let_def prod.case new, simp add: Cons.prems c)
  also have "\<dots> = (fin @ ?out) @ map swapWord (concat (map block_words (aes.cbc_dec d c cs)))"
    using Cons.prems by (intro Cons.IH) simp_all
  finally show ?case by simp
qed

lemma int32_view_bytes: "int32_view (concat (map bytes_be ws)) = Inr (map swapWord ws)"
proof (induction ws)
  case (Cons w ws)
  show ?case by (cases w rule: word_cases) (use Cons.IH in \<open>simp add: bytes_be_def swapWord_be\<close>)
qed simp

lemma word_bytes_swap: "word_bytes (swapWord w) = bytes_be w"
  by (cases w rule: word_cases)
    (simp add: swapWord_be word_bytes_def bytes_be_def parts_drop flip: w0_def)

lemma concat_block_bytes: "concat (map block_bytes bs) = concat (map bytes_be (concat (map block_words bs)))"
  by (induction bs) (simp_all add: block_bytes_def)

lemma aes_decrypt_cbc:
  assumes "uint8ArrayToUint32Array aesIV = Inr [v0, v1, v2, v3]"
  shows "aes_decrypt (concat (map block_bytes cs)) 0 aesIV d
    = Inr (concat (map block_bytes (aes.cbc_dec d (v0, v1, v2, v3) cs)))"
proof -
  let ?in = "map swapWord (concat (map block_words cs))"
  have l: "length ?in = 4 * length cs" by (induction cs) simp_all
  have "decrypt_loop d ?in 0 (v0, v1, v2, v3) (replicate (length ?in) 0)
      = map swapWord (concat (map block_words (aes.cbc_dec d (v0, v1, v2, v3) cs)))"
    using decrypt_loop_cbc [of "[]" 0 "[]" d cs "(v0, v1, v2, v3)"] unfolding l by simp
  then show ?thesis
    by (simp add: aes_decrypt_def assms concat_block_bytes int32_view_bytes comp_def word_bytes_swap)
qed

lemma uint8ArrayToUint32Array_block: "uint8ArrayToUint32Array (block_bytes b @ bs) = Inr (block_words b)"
proof -
  obtain p q r s where b: "b = (p, q, r, s)" by (cases b) auto
  show ?thesis
    unfolding b
    by (cases p rule: word_cases; cases q rule: word_cases; cases r rule: word_cases; cases s rule: word_cases)
      (simp add: uint8ArrayToUint32Array_def block_bytes_def bytes_be_def get_uint32_def upt_rec byte_def)
qed

end
