(* ===== verification/Aes_Props.thy ===== *)
theory Aes_Props
  imports Aes_Cbc
begin

text \<open>
  Properties of the AES decryptor: its tables are those of FIPS 197, key expansion is the key
  schedule of the standard, and decryption inverts AES-128-CBC.
\<close>

lemma aes_decrypt_cbc_encrypt:
  assumes "keyed d"
  shows "aes_decrypt (concat (map block_bytes (aes128_cbc_encrypt (ad_key d) iv ps))) 0 (block_bytes iv) d
    = Inr (concat (map block_bytes ps))"
proof -
  obtain v0 v1 v2 v3 where iv: "iv = (v0, v1, v2, v3)" by (cases iv) auto
  have "uint8ArrayToUint32Array (block_bytes iv) = Inr [v0, v1, v2, v3]"
    using uint8ArrayToUint32Array_block [of iv "[]"] by (simp add: iv)
  then show ?thesis
    by (simp add: aes_decrypt_cbc aes.cbc_roundtrip [OF assms] flip: cbc_enc_aes128 iv)
qed

lemma decryptor_ok_new: "decryptor_ok new_AESDecryptor"
  by (simp add: decryptor_ok_def new_AESDecryptor_def)

text \<open>
  The two tables that \<open>initTable\<close> computes with its counters in the field are the S-box of FIPS
  197 and its inverse, at every byte.
\<close>

lemma initTable_is_fips_sbox:
  "at_sBox initTable (uint (b :: u8)) = fips_sbox ! nat (uint b)
   \<and> at_invSBox initTable (fips_sbox ! nat (uint b)) = uint b"
  using initTable_entries(1,2) [OF uint_byte [of b]] by simp

text \<open>
  C10. Key expansion of a buffer of at least 16 bytes succeeds from every state that key expansion can
  have left, and leaves the key schedule that FIPS 197 prescribes for the first four words of the
  buffer, with the inverse schedule that belongs to it.
\<close>

theorem expandKey_fips:
  assumes "decryptor_ok d" and "16 \<le> length keyBuffer"
  shows "\<exists>d'. expandKey keyBuffer d = Inr d' \<and> decryptor_ok d'
    \<and> ad_keySchedule d' = map (fips_word (map (\<lambda>i. get_uint32 keyBuffer (i * 4)) [0..<4])) [0..<44]
    \<and> inverse_schedule (ad_keySchedule d') (ad_invKeySchedule d') 10"
proof -
  have k: "uint8ArrayToUint32Array keyBuffer = Inr (map (\<lambda>i. get_uint32 keyBuffer (i * 4)) [0..<4])"
    using assms(2) by (simp add: uint8ArrayToUint32Array_def)
  obtain d' where d': "expandKey keyBuffer d = Inr d'" using expandKey_total [OF assms] .
  show ?thesis
    using expandKey_keyed [OF assms(1) k d'] d' unfolding keyed_def decryptor_ok_def by metis
qed

text \<open>The key of appendix A.1 of the standard, and the first word that it expands to.\<close>

definition fips_key :: bytes where
  "fips_key = [0x2b, 0x7e, 0x15, 0x16, 0x28, 0xae, 0xd2, 0xa6, 0xab, 0xf7, 0x15, 0x88, 0x09, 0xcf, 0x4f, 0x3c]"

lemma fips_key_words:
  "map (\<lambda>i. get_uint32 fips_key (i * 4)) [0..<4]
    = [word_be 0x2b 0x7e 0x15 0x16, word_be 0x28 0xae 0xd2 0xa6, word_be 0xab 0xf7 0x15 0x88, word_be 0x09 0xcf 0x4f 0x3c]"
  by (simp add: fips_key_def get_uint32_def upt_rec)

lemma expandKey_fips_witness:
  "\<exists>d'. expandKey fips_key new_AESDecryptor = Inr d' \<and> ad_keySchedule d' ! 4 = word_be 0xa0 0xfa 0xfe 0x17"
proof -
  have "16 \<le> length fips_key" by (simp add: fips_key_def)
  then obtain d' where d': "expandKey fips_key new_AESDecryptor = Inr d'"
    and ks: "ad_keySchedule d' = map (fips_word (map (\<lambda>i. get_uint32 fips_key (i * 4)) [0..<4])) [0..<44]"
    using expandKey_fips [OF decryptor_ok_new] by blast
  have "ad_keySchedule d' ! 4 = word_be 0xa0 0xfa 0xfe 0x17"
    unfolding ks fips_key_words
    by (simp add: fips_word.simps sub_word_fips_def rot_word_def rcon_fips_def S_def fips_sbox_def word_be_xor)
  with d' show ?thesis by blast
qed

text \<open>
  C9. Decryption inverts AES-128-CBC: after expanding a key, decrypting what the cipher of FIPS 197
  makes of any blocks under that key and any initialisation vector returns the bytes of the blocks.
\<close>

theorem aes_decrypt_inverts_cbc:
  assumes "decryptor_ok d" and "uint8ArrayToUint32Array keyBuffer = Inr key" and "expandKey keyBuffer d = Inr d'"
  shows "aes_decrypt (concat (map block_bytes (aes128_cbc_encrypt key iv ps))) 0 (block_bytes iv) d'
    = Inr (concat (map block_bytes ps))"
  using aes_decrypt_cbc_encrypt [of d' iv ps] expandKey_keyed [OF assms] by simp

lemma aes_decrypt_inverts_cbc_witness:
  "\<exists>key d'. expandKey fips_key new_AESDecryptor = Inr d'
     \<and> aes_decrypt (concat (map block_bytes (aes128_cbc_encrypt key (1, 2, 3, 4) [(5, 6, 7, 8), (9, 10, 11, 12)]))) 0
         (block_bytes (1, 2, 3, 4)) d' = Inr (concat (map block_bytes [(5, 6, 7, 8), (9, 10, 11, 12)]))"
proof -
  have l: "16 \<le> length fips_key" by (simp add: fips_key_def)
  obtain d' where d': "expandKey fips_key new_AESDecryptor = Inr d'"
    using expandKey_total [OF decryptor_ok_new l] .
  obtain key where k: "uint8ArrayToUint32Array fips_key = Inr key" using l by (simp add: uint8ArrayToUint32Array_def)
  show ?thesis using aes_decrypt_inverts_cbc [OF decryptor_ok_new k d'] d' by blast
qed

text \<open>
  A key buffer or an initialisation vector below 16 bytes, and an input that is not a whole number
  of 32-bit words, is refused with the error of the typed array, whatever the state.
\<close>

lemma aes_short_buffers:
  "(length keyBuffer < 16 \<longrightarrow> expandKey keyBuffer d = Inl (JsError ''RangeError''))
   \<and> (length aesIV < 16 \<longrightarrow> aes_decrypt input off aesIV d = Inl (JsError ''RangeError''))
   \<and> (16 \<le> length aesIV \<longrightarrow> length input mod 4 \<noteq> 0 \<longrightarrow> aes_decrypt input off aesIV d = Inl (JsError ''RangeError''))"
proof -
  have "int32_view bs = Inl (JsError ''RangeError'')" if "length bs mod 4 \<noteq> 0" for bs
    using that by (induction bs rule: int32_view.induct) auto
  then show ?thesis
    by (auto simp: expandKey_short aes_decrypt_def uint8ArrayToUint32Array_def)
qed

lemma aes_short_buffers_witness:
  "expandKey [1, 2] new_AESDecryptor = Inl (JsError ''RangeError'')
   \<and> aes_decrypt [] 0 [3] new_AESDecryptor = Inl (JsError ''RangeError'')
   \<and> aes_decrypt [1] 0 fips_key new_AESDecryptor = Inl (JsError ''RangeError'')"
  using aes_short_buffers [of "[1, 2]" new_AESDecryptor "[3]" "[]" 0]
    aes_short_buffers [of "[]" new_AESDecryptor fips_key "[1]" 0]
  by (simp add: fips_key_def)

end
