(* ===== verification/Js_Values.thy ===== *)
theory Js_Values
  imports Js_Prelude "HOL-Library.Multiset"
begin

text \<open>
  Values of the player that its components compute with: numbers that may be \<open>undefined\<close> or \<open>NaN\<close>, rounding,
  strings of the platform, and the sort of arrays.
\<close>

subsection \<open>Numbers\<close>

text \<open>
  A number is a rational or \<open>None\<close>, which stands for \<open>undefined\<close> and \<open>NaN\<close>: arithmetic keeps it and every comparison
  rejects it.
\<close>

type_synonym num = "rat option"

definition num_add :: "num \<Rightarrow> num \<Rightarrow> num" where
  "num_add x y = (case (x, y) of (Some a, Some b) \<Rightarrow> Some (a + b) | _ \<Rightarrow> None)"

definition num_sub :: "num \<Rightarrow> num \<Rightarrow> num" where
  "num_sub x y = (case (x, y) of (Some a, Some b) \<Rightarrow> Some (a - b) | _ \<Rightarrow> None)"

definition num_scale :: "nat \<Rightarrow> num \<Rightarrow> num" where
  "num_scale n x = map_option (\<lambda>a. of_nat n * a) x"

definition num_less :: "num \<Rightarrow> num \<Rightarrow> bool" where
  "num_less x y = (case (x, y) of (Some a, Some b) \<Rightarrow> a < b | _ \<Rightarrow> False)"

lemma num_Some [simp]: "num_add (Some a) (Some b) = Some (a + b)" "num_sub (Some a) (Some b) = Some (a - b)"
  "num_scale n (Some a) = Some (of_nat n * a)" "num_less (Some a) (Some b) \<longleftrightarrow> a < b"
  by (simp_all add: num_add_def num_sub_def num_scale_def num_less_def)

definition js_round :: "rat \<Rightarrow> int" where \<comment> \<open>\<open>Math.round\<close>\<close>
  "js_round x = \<lfloor>x + 1 / 2\<rfloor>"

definition num_mul :: "num \<Rightarrow> num \<Rightarrow> num" where
  "num_mul x y = (case (x, y) of (Some a, Some b) \<Rightarrow> Some (a * b) | _ \<Rightarrow> None)"

definition num_div :: "num \<Rightarrow> num \<Rightarrow> num" where
  "num_div x y = (case (x, y) of (Some a, Some b) \<Rightarrow> if b = 0 then None else Some (a / b) | _ \<Rightarrow> None)"

definition num_max :: "num \<Rightarrow> num \<Rightarrow> num" where \<comment> \<open>\<open>Math.max\<close>\<close>
  "num_max x y = (case (x, y) of (Some a, Some b) \<Rightarrow> Some (max a b) | _ \<Rightarrow> None)"

definition num_min :: "num \<Rightarrow> num \<Rightarrow> num" where \<comment> \<open>\<open>Math.min\<close>\<close>
  "num_min x y = (case (x, y) of (Some a, Some b) \<Rightarrow> Some (min a b) | _ \<Rightarrow> None)"

definition num_round :: "num \<Rightarrow> num" where \<comment> \<open>\<open>Math.round\<close>\<close>
  "num_round x = map_option (\<lambda>a. of_int (js_round a)) x"

definition num_abs :: "num \<Rightarrow> num" where
  "num_abs x = map_option abs x"

definition truthy :: "num \<Rightarrow> bool" where
  "truthy x \<longleftrightarrow> x \<noteq> None \<and> x \<noteq> Some 0"

text \<open>The coercion of the box writer's operators, which turn \<open>NaN\<close> into 0.\<close>

definition num_int :: "num \<Rightarrow> int" where
  "num_int x = (case x of None \<Rightarrow> 0 | Some a \<Rightarrow> trunc_int a)"

definition num_rat :: "num \<Rightarrow> rat" where
  "num_rat x = (case x of None \<Rightarrow> 0 | Some a \<Rightarrow> a)"

lemma num_Some_simps [simp]:
  "num_mul (Some a) (Some b) = Some (a * b)" "num_max (Some a) (Some b) = Some (max a b)"
  "num_min (Some a) (Some b) = Some (min a b)" "num_round (Some a) = Some (of_int (js_round a))"
  "num_abs (Some a) = Some \<bar>a\<bar>" "b \<noteq> 0 \<Longrightarrow> num_div (Some a) (Some b) = Some (a / b)"
  "truthy (Some a) \<longleftrightarrow> a \<noteq> 0" "\<not> truthy None" "num_int (Some a) = trunc_int a" "num_rat (Some a) = a"
  by (simp_all add: num_mul_def num_max_def num_min_def num_round_def num_abs_def num_div_def truthy_def num_int_def num_rat_def)

lemma js_round_of_int [simp]: "js_round (of_int k) = k" "js_round (numeral j) = numeral j"
  by (simp_all add: js_round_def) linarith+

subsection \<open>Strings of the platform\<close>

fun contains :: "string \<Rightarrow> string \<Rightarrow> bool" where \<comment> \<open>\<open>s.indexOf(pat) !== -1\<close>\<close>
  "contains pat [] = (pat = [])"
| "contains pat (c # cs) = (take (length pat) (c # cs) = pat \<or> contains pat cs)"

definition lower_char :: "char \<Rightarrow> char" where
  "lower_char c = (let n = of_char c :: nat in if 65 \<le> n \<and> n \<le> 90 then char_of (n + 32) else c)"

fun dec_string :: "nat \<Rightarrow> string" where
  "dec_string n = (if n < 10 then [char_of (48 + n)] else dec_string (n div 10) @ [char_of (48 + n mod 10)])"

subsection \<open>\<open>Array.prototype.sort\<close>\<close>

text \<open>A stable sort; \<open>le a b\<close> says that the comparison function is not positive.\<close>

fun insert_by :: "('a \<Rightarrow> 'a \<Rightarrow> bool) \<Rightarrow> 'a \<Rightarrow> 'a list \<Rightarrow> 'a list" where
  "insert_by le x [] = [x]"
| "insert_by le x (y # ys) = (if le x y then x # y # ys else y # insert_by le x ys)"

definition js_sort :: "('a \<Rightarrow> 'a \<Rightarrow> bool) \<Rightarrow> 'a list \<Rightarrow> 'a list" where
  "js_sort le xs = foldr (insert_by le) xs []"

text \<open>Not positive: a \<open>NaN\<close> counts as 0.\<close>

definition num_le0 :: "num \<Rightarrow> num \<Rightarrow> bool" where
  "num_le0 x y \<longleftrightarrow> \<not> num_less y x"

lemma mset_js_sort: "mset (js_sort le xs) = mset xs"
proof -
  have "mset (insert_by le x ys) = {#x#} + mset ys" for x ys by (induction ys) auto
  then show ?thesis unfolding js_sort_def by (induction xs) auto
qed

lemma set_js_sort [simp]: "set (js_sort le xs) = set xs"
  using mset_js_sort by (metis set_mset_mset)

lemma length_js_sort [simp]: "length (js_sort le xs) = length xs"
  using mset_js_sort by (metis size_mset)

text \<open>When the order is a total preorder on the elements, the result is sorted.\<close>

lemma sorted_js_sort:
  assumes "\<And>x y. x \<in> set xs \<Longrightarrow> y \<in> set xs \<Longrightarrow> le x y \<or> le y x"
    and "\<And>x y z. x \<in> set xs \<Longrightarrow> y \<in> set xs \<Longrightarrow> z \<in> set xs \<Longrightarrow> le x y \<Longrightarrow> le y z \<Longrightarrow> le x z"
  shows "sorted_wrt le (js_sort le xs)"
proof -
  have set: "set (insert_by le x ys) = insert x (set ys)" for x ys by (induction ys) auto
  have ins: "sorted_wrt le (insert_by le x ys)"
    if "sorted_wrt le ys" "insert x (set ys) \<subseteq> set xs" for x ys
    using that
  proof (induction ys)
    case (Cons y ys)
    have in_xs: "x \<in> set xs" "y \<in> set xs" "set ys \<subseteq> set xs" using Cons.prems(2) by auto
    show ?case
    proof (cases "le x y")
      case True
      then have "\<forall>z \<in> set ys. le x z" using Cons.prems(1) in_xs assms(2) [of x y] by auto
      then show ?thesis using True Cons.prems(1) by simp
    next
      case False
      then have "le y x" using assms(1) in_xs by blast
      then show ?thesis using False Cons set in_xs by auto
    qed
  qed simp
  have "set ys \<subseteq> set xs \<Longrightarrow> sorted_wrt le (js_sort le ys)" for ys
    unfolding js_sort_def
  proof (induction ys)
    case (Cons y ys)
    have "set (foldr (insert_by le) ys []) = set ys" using set_js_sort [of le ys] by (simp add: js_sort_def)
    then show ?case using Cons ins by simp
  qed simp
  then show ?thesis by blast
qed

lemma js_sort_sorted: "sorted_wrt le xs \<Longrightarrow> js_sort le xs = xs"
proof (induction xs)
  case (Cons x xs)
  then have "js_sort le (x # xs) = insert_by le x xs" by (simp add: js_sort_def)
  also have "\<dots> = x # xs" using Cons.prems by (cases xs) simp_all
  finally show ?case .
qed (simp add: js_sort_def)

end
