(* ===== verification/Audio_Frames.thy ===== *)
theory Audio_Frames
  imports Js_Values
begin

text \<open>
  The audio frame parsers, \<open>src/demux/adts.js\<close> and \<open>src/demux/mpegaudio.js\<close>, and the silent frames
  of \<open>src/helper/aac.js\<close>. Timestamps are rationals; \<open>None\<close> stands for \<open>undefined\<close> and \<open>NaN\<close>, which
  arithmetic keeps and every comparison rejects. The user agent of the browser is an argument.
\<close>

subsection \<open>Samples and tracks\<close>

record media_sample =
  sm_unit :: bytes
  sm_pts :: num
  sm_dts :: num

record audio_track =
  au_container :: string
  au_id :: int
  au_sequenceNumber :: int
  au_isAAC :: bool
  au_samples :: "media_sample list"
  au_len :: int
  au_manifestCodec :: "string option"
  au_duration :: num
  au_inputTimeScale :: int
  au_config :: "int list option"
  au_samplerate :: "int option"
  au_channelCount :: "int option"
  au_codec :: "string option"

definition push_sample :: "media_sample \<Rightarrow> int \<Rightarrow> audio_track \<Rightarrow> audio_track" where
  "push_sample s n tr = tr\<lparr>au_samples := au_samples tr @ [s], au_len := au_len tr + n\<rparr>"

subsection \<open>ADTS: the audio configuration\<close>

record audio_config =
  ac_config :: "int list"
  ac_samplerate :: int
  ac_channelCount :: int
  ac_codec :: string
  ac_manifestCodec :: "string option"

definition adtsSampleingRates :: "int list" where
  "adtsSampleingRates =
     [96000, 88200, 64000, 48000, 44100, 32000, 24000, 22050, 16000, 12000, 11025, 8000, 7350]"

text \<open>
  The event that is triggered for an invalid index. The file does not import the player's
  \<open>Event\<close>, and so \<open>Event.ERROR\<close> is a property of the browser's own \<open>Event\<close> that does not exist: the
  name of the event is \<open>undefined\<close>.
\<close>

datatype error_type = MediaError | NetworkError | MuxError | OtherError

record error_event =
  ee_name :: "string option"
  ee_type :: error_type
  ee_details :: string
  ee_fatal :: bool

definition adts_error :: error_event where
  "adts_error = \<lparr>ee_name = None, ee_type = MediaError, ee_details = ''fragParsingError'', ee_fatal = True\<rparr>"

text \<open>The object type that is announced and the extension index, by browser and manifest.\<close>

definition adts_object :: "string \<Rightarrow> string option \<Rightarrow> int \<Rightarrow> int \<Rightarrow> int \<times> int" where
  "adts_object userAgent audioCodec index channels =
     (let codec = (case audioCodec of None \<Rightarrow> '''' | Some c \<Rightarrow> c); given = (codec \<noteq> '''')
      in if contains ''firefox'' userAgent then (if index \<ge> 6 then (5, index - 3) else (2, index))
         else if contains ''android'' userAgent then (2, index)
         else if given \<and> (contains ''mp4a.40.29'' codec \<or> contains ''mp4a.40.5'' codec) \<or> \<not> given \<and> index \<ge> 6
           then (5, index - 3)
         else if given \<and> contains ''mp4a.40.2'' codec
                   \<and> (index \<ge> 6 \<and> channels = 1 \<or> contains ''vivaldi'' userAgent)
                 \<or> \<not> given \<and> channels = 1
           then (2, index)
         else (5, index))"

definition config_bytes :: "int \<Rightarrow> int \<Rightarrow> int \<Rightarrow> int \<Rightarrow> int list" where
  "config_bytes objectType index channels ext =
     (let c0 = js_or (js_shl objectType 3) (js_shr (js_and index 0x0E) 1);
          c1 = js_or (js_shl (js_and index 0x01) 7) (js_shl channels 3)
      in if objectType = 5 then
           [c0, js_or c1 (js_shr (js_and ext 0x0E) 1), js_or (js_shl (js_and ext 0x01) 7) (js_shl 2 2), 0]
         else [c0, c1])"

definition getAudioConfig :: "string \<Rightarrow> bytes \<Rightarrow> nat \<Rightarrow> string option \<Rightarrow> error_event + audio_config" where
  "getAudioConfig ua data offset audioCodec =
     (let userAgent = map lower_char ua;
          index = js_ushr (js_and (byte data (offset + 2)) 0x3C) 2
      in if index > int (length adtsSampleingRates) - 1 then Inl adts_error
         else
           let channels = js_or (js_shl (js_and (byte data (offset + 2)) 0x01) 2)
                                (js_ushr (js_and (byte data (offset + 3)) 0xC0) 6);
               (objectType, ext) = adts_object userAgent audioCodec index channels
           in Inr \<lparr>ac_config = config_bytes objectType index channels ext,
                   ac_samplerate = adtsSampleingRates ! nat index, ac_channelCount = channels,
                   ac_codec = ''mp4a.40.'' @ dec_string (nat objectType), ac_manifestCodec = audioCodec\<rparr>)"

text \<open>
  \<open>!track.samplerate\<close> holds for \<open>undefined\<close> and for 0. After an error \<open>config\<close> is \<open>undefined\<close> and the
  access to \<open>config.config\<close> throws; the event has been triggered then.
\<close>

definition initTrackConfig ::
  "string \<Rightarrow> audio_track \<Rightarrow> bytes \<Rightarrow> nat \<Rightarrow> string option \<Rightarrow> error_event list \<times> audio_track result" where
  "initTrackConfig ua track data offset audioCodec =
     (if au_samplerate track = None \<or> au_samplerate track = Some 0 then
        (case getAudioConfig ua data offset audioCodec of
           Inl ev \<Rightarrow> ([ev], Inl TypeError)
         | Inr c \<Rightarrow>
             ([], Inr (track\<lparr>au_config := Some (ac_config c), au_samplerate := Some (ac_samplerate c),
                             au_channelCount := Some (ac_channelCount c), au_codec := Some (ac_codec c),
                             au_manifestCodec := ac_manifestCodec c\<rparr>)))
      else ([], Inr track))"

subsection \<open>ADTS: frames\<close>

definition adts_isHeaderPattern :: "bytes \<Rightarrow> nat \<Rightarrow> bool" where
  "adts_isHeaderPattern data offset \<longleftrightarrow>
     at_index data offset = Some 0xff \<and> js_and (byte data (offset + 1)) 0xf6 = 0xf0"

definition getHeaderLength :: "bytes \<Rightarrow> nat \<Rightarrow> nat" where
  "getHeaderLength data offset = (if js_and (byte data (offset + 1)) 0x01 \<noteq> 0 then 7 else 9)"

definition getFullFrameLength :: "bytes \<Rightarrow> nat \<Rightarrow> int" where
  "getFullFrameLength data offset =
     js_or (js_or (js_shl (js_and (byte data (offset + 3)) 0x03) 11) (js_shl (byte data (offset + 4)) 3))
           (js_ushr (js_and (byte data (offset + 5)) 0xE0) 5)"

definition adts_isHeader :: "bytes \<Rightarrow> nat \<Rightarrow> bool" where
  "adts_isHeader data offset \<longleftrightarrow> offset + 1 < length data \<and> adts_isHeaderPattern data offset"

definition adts_probe :: "bytes \<Rightarrow> nat \<Rightarrow> bool" where
  "adts_probe data offset \<longleftrightarrow>
     offset + 1 < length data \<and> adts_isHeaderPattern data offset \<and>
     (let frameLength = (if offset + 5 < length data then getFullFrameLength data offset
                         else int (getHeaderLength data offset));
          newOffset = offset + nat frameLength
      in newOffset = length data \<or> newOffset + 1 < length data \<and> adts_isHeaderPattern data newOffset)"

definition getFrameDuration :: "int option \<Rightarrow> num" where
  "getFrameDuration samplerate = map_option (\<lambda>r. 1024 * 90000 / of_int r) samplerate"

record frame_header =
  fh_headerLength :: nat
  fh_frameLength :: int
  fh_stamp :: num

definition parseFrameHeader :: "bytes \<Rightarrow> nat \<Rightarrow> num \<Rightarrow> nat \<Rightarrow> num \<Rightarrow> frame_header option" where
  "parseFrameHeader data offset pts frameIndex frameDuration =
     (let headerLength = getHeaderLength data offset;
          frameLength = getFullFrameLength data offset - int headerLength
      in if frameLength > 0 \<and> int offset + int headerLength + frameLength \<le> int (length data) then
           Some \<lparr>fh_headerLength = headerLength, fh_frameLength = frameLength,
                 fh_stamp = num_add pts (num_scale frameIndex frameDuration)\<rparr>
         else None)"

text \<open>The frame that \<open>appendFrame\<close> returns (its sample and its length), and the track it updates.\<close>

definition adts_appendFrame ::
  "audio_track \<Rightarrow> bytes \<Rightarrow> nat \<Rightarrow> num \<Rightarrow> nat \<Rightarrow> (media_sample \<times> nat \<times> audio_track) option" where
  "adts_appendFrame track data offset pts frameIndex =
     (case parseFrameHeader data offset pts frameIndex (getFrameDuration (au_samplerate track)) of
        None \<Rightarrow> None
      | Some h \<Rightarrow>
          let start = int offset + int (fh_headerLength h);
              sample = \<lparr>sm_unit = subarray data start (start + fh_frameLength h),
                        sm_pts = fh_stamp h, sm_dts = fh_stamp h\<rparr>
          in Some (sample, nat (fh_frameLength h) + fh_headerLength h, push_sample sample (fh_frameLength h) track))"

subsection \<open>MPEG audio\<close>

definition BitratesMap :: "int list" where
  "BitratesMap =
     [32, 64, 96, 128, 160, 192, 224, 256, 288, 320, 352, 384, 416, 448,
      32, 48, 56, 64, 80, 96, 112, 128, 160, 192, 224, 256, 320, 384,
      32, 40, 48, 56, 64, 80, 96, 112, 128, 160, 192, 224, 256, 320,
      32, 48, 56, 64, 80, 96, 112, 128, 144, 160, 176, 192, 224, 256,
      8, 16, 24, 32, 40, 48, 56, 64, 80, 96, 112, 128, 144, 160]"

definition SamplingRateMap :: "int list" where
  "SamplingRateMap = [44100, 48000, 32000, 22050, 24000, 16000, 11025, 12000, 8000]"

record mpeg_header =
  mh_sampleRate :: int
  mh_channelCount :: int
  mh_frameLength :: int

text \<open>
  The shift and the \<open>| 0\<close> of the frame length bind weaker than the sum: both truncate it.
\<close>

definition mpeg_frameLength :: "int \<Rightarrow> int \<Rightarrow> int \<Rightarrow> int \<Rightarrow> int \<Rightarrow> int" where
  "mpeg_frameLength headerB headerC bitRate sampleRate padding =
     (if headerC = 3 then
        js_shl (trunc_int (of_int ((if headerB = 3 then 12 else 6) * bitRate) / of_int sampleRate + of_int padding)) 2
      else
        js_or (trunc_int (of_int ((if headerB = 3 then 144 else 72) * bitRate) / of_int sampleRate + of_int padding)) 0)"

definition parseHeader :: "bytes \<Rightarrow> nat \<Rightarrow> mpeg_header option" where
  "parseHeader data offset =
     (let headerB = js_and (js_shr (byte data (offset + 1)) 3) 3;
          headerC = js_and (js_shr (byte data (offset + 1)) 1) 3;
          headerE = js_and (js_shr (byte data (offset + 2)) 4) 15;
          headerF = js_and (js_shr (byte data (offset + 2)) 2) 3;
          headerG = (js_and (byte data (offset + 2)) 2 \<noteq> 0)
      in if headerB \<noteq> 1 \<and> headerE \<noteq> 0 \<and> headerE \<noteq> 15 \<and> headerF \<noteq> 3 then
           let columnInBitrates = (if headerB = 3 then 3 - headerC else if headerC = 3 then 3 else 4);
               bitRate = BitratesMap ! nat (columnInBitrates * 14 + headerE - 1) * 1000;
               columnInSampleRates = (if headerB = 3 then 0 else if headerB = 2 then 1 else 2);
               sampleRate = SamplingRateMap ! nat (columnInSampleRates * 3 + headerF);
               padding = (if headerG then 1 else 0);
               channelCount = (if js_shr (byte data (offset + 3)) 6 = 3 then 1 else 2)
           in Some \<lparr>mh_sampleRate = sampleRate, mh_channelCount = channelCount,
                    mh_frameLength = mpeg_frameLength headerB headerC bitRate sampleRate padding\<rparr>
         else None)"

definition mpeg_isHeaderPattern :: "bytes \<Rightarrow> nat \<Rightarrow> bool" where
  "mpeg_isHeaderPattern data offset \<longleftrightarrow>
     at_index data offset = Some 0xff \<and> js_and (byte data (offset + 1)) 0xe0 = 0xe0
     \<and> js_and (byte data (offset + 1)) 0x06 \<noteq> 0"

definition mpeg_isHeader :: "bytes \<Rightarrow> nat \<Rightarrow> bool" where
  "mpeg_isHeader data offset \<longleftrightarrow> offset + 1 < length data \<and> mpeg_isHeaderPattern data offset"

definition mpeg_probe :: "bytes \<Rightarrow> nat \<Rightarrow> bool" where
  "mpeg_probe data offset \<longleftrightarrow>
     offset + 1 < length data \<and> mpeg_isHeaderPattern data offset \<and>
     (let frameLength = (case parseHeader data offset of
            Some h \<Rightarrow> if mh_frameLength h \<noteq> 0 then mh_frameLength h else 4 | None \<Rightarrow> 4);
          newOffset = offset + nat frameLength
      in newOffset = length data \<or> newOffset + 1 < length data \<and> mpeg_isHeaderPattern data newOffset)"

definition mpeg_appendFrame ::
  "audio_track \<Rightarrow> bytes \<Rightarrow> nat \<Rightarrow> num \<Rightarrow> nat \<Rightarrow> (media_sample \<times> nat \<times> audio_track) option" where
  "mpeg_appendFrame track data offset pts frameIndex =
     (if offset + 24 > length data then None
      else
        (case parseHeader data offset of
           None \<Rightarrow> None
         | Some h \<Rightarrow>
             if int offset + mh_frameLength h \<le> int (length data) then
               let frameDuration = Some (1152 * 90000 / of_int (mh_sampleRate h));
                   stamp = num_add pts (num_scale frameIndex frameDuration);
                   sample = \<lparr>sm_unit = subarray data (int offset) (int offset + mh_frameLength h),
                             sm_pts = stamp, sm_dts = stamp\<rparr>
               in Some (sample, nat (mh_frameLength h),
                    push_sample sample (mh_frameLength h)
                      (track\<lparr>au_config := Some [], au_channelCount := Some (mh_channelCount h),
                             au_samplerate := Some (mh_sampleRate h)\<rparr>))
             else None))"

subsection \<open>Silent frames\<close>

text \<open>\<open>getSilentFrame\<close>: \<open>None\<close> is \<open>null\<close>.\<close>

definition getSilentFrame :: "string \<Rightarrow> int \<Rightarrow> bytes option" where
  "getSilentFrame codec channelCount =
     (if codec = ''mp4a.40.2'' then
        if channelCount = 1 then Some
          [0x0, 0xc8, 0x0, 0x80, 0x23, 0x80]
        else if channelCount = 2 then Some
          [0x21, 0x0, 0x49, 0x90, 0x2, 0x19, 0x0, 0x23, 0x80]
        else if channelCount = 3 then Some
          [0x0, 0xc8, 0x0, 0x80, 0x20, 0x84, 0x1, 0x26, 0x40, 0x8, 0x64, 0x0, 0x8e]
        else if channelCount = 4 then Some
          [0x0, 0xc8, 0x0, 0x80, 0x20, 0x84, 0x1, 0x26, 0x40, 0x8, 0x64, 0x0, 0x80, 0x2c, 0x80, 0x8,
           0x2, 0x38]
        else if channelCount = 5 then Some
          [0x0, 0xc8, 0x0, 0x80, 0x20, 0x84, 0x1, 0x26, 0x40, 0x8, 0x64, 0x0, 0x82, 0x30, 0x4, 0x99,
           0x0, 0x21, 0x90, 0x2, 0x38]
        else if channelCount = 6 then Some
          [0x0, 0xc8, 0x0, 0x80, 0x20, 0x84, 0x1, 0x26, 0x40, 0x8, 0x64, 0x0, 0x82, 0x30, 0x4, 0x99,
           0x0, 0x21, 0x90, 0x2, 0x0, 0xb2, 0x0, 0x20, 0x8, 0xe0]
        else None
      else
        if channelCount = 1 then Some
          [0x1, 0x40, 0x22, 0x80, 0xa3, 0x4e, 0xe6, 0x80, 0xba, 0x8, 0x0, 0x0, 0x0, 0x1c, 0x6, 0xf1,
           0xc1, 0xa, 0x5a, 0x5a, 0x5a, 0x5a, 0x5a, 0x5a, 0x5a, 0x5a, 0x5a, 0x5a, 0x5a, 0x5a, 0x5a, 0x5a,
           0x5a, 0x5a, 0x5a, 0x5a, 0x5a, 0x5a, 0x5a, 0x5a, 0x5a, 0x5a, 0x5a, 0x5a, 0x5a, 0x5a, 0x5a, 0x5a,
           0x5a, 0x5a, 0x5a, 0x5a, 0x5a, 0x5a, 0x5a, 0x5a, 0x5a, 0x5a, 0x5e]
        else if channelCount = 2 then Some
          [0x1, 0x40, 0x22, 0x80, 0xa3, 0x5e, 0xe6, 0x80, 0xba, 0x8, 0x0, 0x0, 0x0, 0x0, 0x95, 0x0,
           0x6, 0xf1, 0xa1, 0xa, 0x5a, 0x5a, 0x5a, 0x5a, 0x5a, 0x5a, 0x5a, 0x5a, 0x5a, 0x5a, 0x5a, 0x5a,
           0x5a, 0x5a, 0x5a, 0x5a, 0x5a, 0x5a, 0x5a, 0x5a, 0x5a, 0x5a, 0x5a, 0x5a, 0x5a, 0x5a, 0x5a, 0x5a,
           0x5a, 0x5a, 0x5a, 0x5a, 0x5a, 0x5a, 0x5a, 0x5a, 0x5a, 0x5a, 0x5e]
        else if channelCount = 3 then Some
          [0x1, 0x40, 0x22, 0x80, 0xa3, 0x5e, 0xe6, 0x80, 0xba, 0x8, 0x0, 0x0, 0x0, 0x0, 0x95, 0x0,
           0x6, 0xf1, 0xa1, 0xa, 0x5a, 0x5a, 0x5a, 0x5a, 0x5a, 0x5a, 0x5a, 0x5a, 0x5a, 0x5a, 0x5a, 0x5a,
           0x5a, 0x5a, 0x5a, 0x5a, 0x5a, 0x5a, 0x5a, 0x5a, 0x5a, 0x5a, 0x5a, 0x5a, 0x5a, 0x5a, 0x5a, 0x5a,
           0x5a, 0x5a, 0x5a, 0x5a, 0x5a, 0x5a, 0x5a, 0x5a, 0x5a, 0x5a, 0x5e]
        else None)"

end
