(* ===== verification/Audio_Headers.thy ===== *)
theory Audio_Headers
  imports Audio_Frames
begin

text \<open>
  Bit fields of bytes as quotients and remainders, and the bounds of what the MPEG audio header
  parser returns: its tables are read in range and a frame is neither empty nor long.
\<close>

subsection \<open>Bit fields of bytes\<close>

lemma to_int32_nonneg [simp]: "0 \<le> x \<Longrightarrow> x < 2147483648 \<Longrightarrow> to_int32 x = x"
  by (simp add: to_int32_def signed_take_bit_int_eq_self)

lemma to_int32_byte [simp]: "to_int32 (byte d i) = byte d i"
  using byte_bounds [of d i] by (intro to_int32_nonneg) linarith+

lemma js_and_mask: "0 \<le> x \<Longrightarrow> x < 2147483648 \<Longrightarrow> n < 31 \<Longrightarrow> js_and x (mask n) = x mod 2 ^ n"
proof -
  assume a: "0 \<le> x" "x < 2147483648" "n < 31"
  have "(2 :: int) ^ n < 2 ^ 31" using a(3) by (intro power_strict_increasing) auto
  then have "to_int32 (mask n) = mask n" by (intro to_int32_nonneg) (simp_all add: mask_eq_exp_minus_1)
  then show ?thesis using a by (simp add: js_and_def take_bit_eq_mask [symmetric] take_bit_eq_mod)
qed

lemma js_and_masks:
  assumes "0 \<le> x" and "x < 2147483648"
  shows "js_and x 1 = x mod 2" "js_and x 3 = x mod 4" "js_and x 15 = x mod 16" "js_and x 31 = x mod 32"
    "js_and x 63 = x mod 64" "js_and x 127 = x mod 128" "js_and x 255 = x mod 256"
proof -
  have "mask 1 = (1 :: int)" by (simp add: mask_eq_exp_minus_1)
  then show "js_and x 1 = x mod 2" using js_and_mask [OF assms, of 1] by simp
  have "mask 2 = (3 :: int)" by (simp add: mask_eq_exp_minus_1)
  then show "js_and x 3 = x mod 4" using js_and_mask [OF assms, of 2] by simp
  have "mask 4 = (15 :: int)" by (simp add: mask_eq_exp_minus_1)
  then show "js_and x 15 = x mod 16" using js_and_mask [OF assms, of 4] by simp
  have "mask 5 = (31 :: int)" by (simp add: mask_eq_exp_minus_1)
  then show "js_and x 31 = x mod 32" using js_and_mask [OF assms, of 5] by simp
  have "mask 6 = (63 :: int)" by (simp add: mask_eq_exp_minus_1)
  then show "js_and x 63 = x mod 64" using js_and_mask [OF assms, of 6] by simp
  have "mask 7 = (127 :: int)" by (simp add: mask_eq_exp_minus_1)
  then show "js_and x 127 = x mod 128" using js_and_mask [OF assms, of 7] by simp
  have "mask 8 = (255 :: int)" by (simp add: mask_eq_exp_minus_1)
  then show "js_and x 255 = x mod 256" using js_and_mask [OF assms, of 8] by simp
qed

lemma js_shr_small: "0 \<le> x \<Longrightarrow> x < 2147483648 \<Longrightarrow> n < 32 \<Longrightarrow> js_shr x n = x div 2 ^ n"
  by (simp add: js_shr_def drop_bit_eq_div)

subsection \<open>MPEG headers\<close>

lemma BitratesMap_columns:
  "list_all (\<lambda>r. 32 \<le> r \<and> r \<le> 448) (take 14 (drop 0 BitratesMap))"
  "list_all (\<lambda>r. 32 \<le> r \<and> r \<le> 384) (take 28 (drop 14 BitratesMap))"
  "list_all (\<lambda>r. 32 \<le> r \<and> r \<le> 256) (take 14 (drop 42 BitratesMap))"
  "list_all (\<lambda>r. 8 \<le> r \<and> r \<le> 160) (take 14 (drop 56 BitratesMap))"
  by (simp_all add: BitratesMap_def)

lemma list_all_slice:
  "list_all P (take n (drop m xs)) \<Longrightarrow> m \<le> i \<Longrightarrow> i < m + n \<Longrightarrow> i < length xs \<Longrightarrow> P (xs ! i)"
proof -
  assume a: "list_all P (take n (drop m xs))" "m \<le> i" "i < m + n" "i < length xs"
  define k where "k = i - m"
  have "i = m + k" "k < n" "k < length xs - m" using a(2-4) unfolding k_def by linarith+
  then show ?thesis using a(1) by (simp add: list_all_length)
qed

lemma length_maps: "length BitratesMap = 70" "length SamplingRateMap = 9"
  by (simp_all add: BitratesMap_def SamplingRateMap_def)

text \<open>The bit rate by layer column, and the sampling rate by version.\<close>

lemma bitrate_bounds:
  assumes "1 \<le> e" and "e \<le> 14"
  shows "32 \<le> BitratesMap ! nat (0 * 14 + e - 1) \<and> BitratesMap ! nat (0 * 14 + e - 1) \<le> 448"
    "c = 1 \<or> c = 2 \<Longrightarrow> 32 \<le> BitratesMap ! nat (c * 14 + e - 1) \<and> BitratesMap ! nat (c * 14 + e - 1) \<le> 384"
    "32 \<le> BitratesMap ! nat (3 * 14 + e - 1) \<and> BitratesMap ! nat (3 * 14 + e - 1) \<le> 256"
    "8 \<le> BitratesMap ! nat (4 * 14 + e - 1) \<and> BitratesMap ! nat (4 * 14 + e - 1) \<le> 160"
proof -
  show "32 \<le> BitratesMap ! nat (0 * 14 + e - 1) \<and> BitratesMap ! nat (0 * 14 + e - 1) \<le> 448"
    by (rule list_all_slice [OF BitratesMap_columns(1)]) (use assms in \<open>auto simp: length_maps nat_less_iff le_nat_iff\<close>)
  show "c = 1 \<or> c = 2 \<Longrightarrow> 32 \<le> BitratesMap ! nat (c * 14 + e - 1) \<and> BitratesMap ! nat (c * 14 + e - 1) \<le> 384"
    by (rule list_all_slice [OF BitratesMap_columns(2)]) (use assms in \<open>auto simp: length_maps nat_less_iff le_nat_iff\<close>)
  show "32 \<le> BitratesMap ! nat (3 * 14 + e - 1) \<and> BitratesMap ! nat (3 * 14 + e - 1) \<le> 256"
    by (rule list_all_slice [OF BitratesMap_columns(3)]) (use assms in \<open>auto simp: length_maps nat_less_iff le_nat_iff\<close>)
  show "8 \<le> BitratesMap ! nat (4 * 14 + e - 1) \<and> BitratesMap ! nat (4 * 14 + e - 1) \<le> 160"
    by (rule list_all_slice [OF BitratesMap_columns(4)]) (use assms in \<open>auto simp: length_maps nat_less_iff le_nat_iff\<close>)
qed

lemma samplerate_bounds:
  assumes "0 \<le> f" and "f \<le> 2"
  shows "32000 \<le> SamplingRateMap ! nat (0 * 3 + f) \<and> SamplingRateMap ! nat (0 * 3 + f) \<le> 48000"
    "c = 1 \<or> c = 2 \<Longrightarrow> 8000 \<le> SamplingRateMap ! nat (c * 3 + f) \<and> SamplingRateMap ! nat (c * 3 + f) \<le> 24000"
proof -
  have "f = 0 \<or> f = 1 \<or> f = 2" using assms by linarith
  then show "32000 \<le> SamplingRateMap ! nat (0 * 3 + f) \<and> SamplingRateMap ! nat (0 * 3 + f) \<le> 48000"
    "c = 1 \<or> c = 2 \<Longrightarrow> 8000 \<le> SamplingRateMap ! nat (c * 3 + f) \<and> SamplingRateMap ! nat (c * 3 + f) \<le> 24000"
    by (auto simp: SamplingRateMap_def)
qed

lemma trunc_quotient:
  assumes "0 < s" and "lo * s \<le> n" and "n \<le> hi * s" and "0 \<le> lo" and "0 \<le> p"
  shows "lo + p \<le> trunc_int (of_int n / of_int s + of_int p)" "trunc_int (of_int n / of_int s + of_int p) \<le> hi + p"
proof -
  have l: "of_int lo \<le> (of_int n / of_int s :: rat)"
    using assms(1,2) by (simp add: le_divide_eq flip: of_int_mult)
  have h: "(of_int n / of_int s :: rat) \<le> of_int hi"
    using assms(1,3) by (simp add: divide_le_eq flip: of_int_mult)
  have "0 \<le> (of_int n / of_int s + of_int p :: rat)" using l assms(4,5) by (meson add_nonneg_nonneg of_int_0_le_iff order_trans)
  then have t: "trunc_int (of_int n / of_int s + of_int p) = \<lfloor>of_int n / of_int s :: rat\<rfloor> + p"
    by (simp add: trunc_int_def)
  show "lo + p \<le> trunc_int (of_int n / of_int s + of_int p)" unfolding t using l by (simp add: le_floor_iff)
  show "trunc_int (of_int n / of_int s + of_int p) \<le> hi + p" unfolding t using h by (simp add: floor_le_iff)
qed

lemma mpeg_frameLength_bounds:
  assumes "0 < s" and "p = 0 \<or> p = 1" and "1000 \<le> s"
  shows "c = 3 \<Longrightarrow> 8 * s \<le> (if b = 3 then 12 else 6) * r \<Longrightarrow> (if b = 3 then 12 else 6) * r \<le> 200 * s \<Longrightarrow>
      24 \<le> mpeg_frameLength b c r s p \<and> mpeg_frameLength b c r s p \<le> 1729"
    "c \<noteq> 3 \<Longrightarrow> 24 * s \<le> (if b = 3 then 144 else 72) * r \<Longrightarrow> (if b = 3 then 144 else 72) * r \<le> 1728 * s \<Longrightarrow>
      24 \<le> mpeg_frameLength b c r s p \<and> mpeg_frameLength b c r s p \<le> 1729"
proof -
  assume "c = 3" "8 * s \<le> (if b = 3 then 12 else 6) * r" "(if b = 3 then 12 else 6) * r \<le> 200 * s"
  note t = trunc_quotient [OF assms(1) this(2,3)]
  let ?t = "trunc_int (of_int ((if b = 3 then 12 else 6) * r) / of_int s + of_int p)"
  have b: "8 \<le> ?t" "?t \<le> 201" using t [of p] assms(2) by auto
  have "mpeg_frameLength b c r s p = ?t * 4"
    using b \<open>c = 3\<close> by (simp add: mpeg_frameLength_def js_shl_def push_bit_eq_mult)
  then show "24 \<le> mpeg_frameLength b c r s p \<and> mpeg_frameLength b c r s p \<le> 1729" using b by simp
next
  assume "c \<noteq> 3" "24 * s \<le> (if b = 3 then 144 else 72) * r" "(if b = 3 then 144 else 72) * r \<le> 1728 * s"
  note t = trunc_quotient [OF assms(1) this(2,3)]
  let ?t = "trunc_int (of_int ((if b = 3 then 144 else 72) * r) / of_int s + of_int p)"
  have b: "24 \<le> ?t" "?t \<le> 1729" using t [of p] assms(2) by auto
  have "mpeg_frameLength b c r s p = ?t"
    using b \<open>c \<noteq> 3\<close> by (simp add: mpeg_frameLength_def js_or_def)
  then show "24 \<le> mpeg_frameLength b c r s p \<and> mpeg_frameLength b c r s p \<le> 1729" using b by simp
qed

lemma field_bounds:
  "0 \<le> js_and (js_shr (byte d i) n) 3" "js_and (js_shr (byte d i) n) 3 \<le> 3"
  "0 \<le> js_and (js_shr (byte d i) n) 15" "js_and (js_shr (byte d i) n) 15 \<le> 15"
proof -
  have "0 \<le> js_shr (byte d i) n \<and> js_shr (byte d i) n < 256"
    using byte_bounds [of d i] zdiv_mono2 [of "byte d i" 1 "2 ^ (n mod 32)"]
    by (auto simp: js_shr_def drop_bit_eq_div pos_imp_zdiv_nonneg_iff intro: le_less_trans)
  then show "0 \<le> js_and (js_shr (byte d i) n) 3" "js_and (js_shr (byte d i) n) 3 \<le> 3"
    "0 \<le> js_and (js_shr (byte d i) n) 15" "js_and (js_shr (byte d i) n) 15 \<le> 15"
    using js_and_masks(2,3) [of "js_shr (byte d i) n"] pos_mod_bound [of 4 "js_shr (byte d i) n"]
      pos_mod_bound [of 16 "js_shr (byte d i) n"] pos_mod_sign [of 4 "js_shr (byte d i) n"]
      pos_mod_sign [of 16 "js_shr (byte d i) n"]
    by linarith+
qed

lemma parseHeader_bounds:
  assumes "parseHeader data offset = Some h"
  shows "24 \<le> mh_frameLength h" "mh_frameLength h \<le> 1729" "8000 \<le> mh_sampleRate h" "mh_sampleRate h \<le> 48000"
proof -
  define b where "b = js_and (js_shr (byte data (offset + 1)) 3) 3"
  define c where "c = js_and (js_shr (byte data (offset + 1)) 1) 3"
  define e where "e = js_and (js_shr (byte data (offset + 2)) 4) 15"
  define f where "f = js_and (js_shr (byte data (offset + 2)) 2) 3"
  define p :: int where "p = (if js_and (byte data (offset + 2)) 2 \<noteq> 0 then 1 else 0)"
  define col where "col = (if b = 3 then 3 - c else if c = 3 then 3 else 4)"
  define scol where "scol = (if b = 3 then 0 else if b = 2 then 1 else (2 :: int))"
  define r where "r = BitratesMap ! nat (col * 14 + e - 1) * 1000"
  define s where "s = SamplingRateMap ! nat (scol * 3 + f)"
  have h: "b \<noteq> 1 \<and> e \<noteq> 0 \<and> e \<noteq> 15 \<and> f \<noteq> 3" "mh_frameLength h = mpeg_frameLength b c r s p" "mh_sampleRate h = s"
    using assms unfolding parseHeader_def Let_def
    by (auto simp: b_def c_def e_def f_def p_def col_def scol_def r_def s_def split: if_splits)
  have rng: "0 \<le> c" "c \<le> 3" "1 \<le> e" "e \<le> 14" "0 \<le> f" "f \<le> 2"
    using h(1) field_bounds [of data "offset + 1" 1] field_bounds [of data "offset + 2" 4] field_bounds [of data "offset + 2" 2]
    unfolding c_def e_def f_def by linarith+
  have p: "p = 0 \<or> p = 1" by (simp add: p_def)
  have fl: "24 \<le> mpeg_frameLength b c r s p \<and> mpeg_frameLength b c r s p \<le> 1729 \<and> 8000 \<le> s \<and> s \<le> 48000"
  proof (cases "b = 3")
    case True
    then have s: "32000 \<le> s" "s \<le> 48000" using samplerate_bounds(1) [OF rng(5,6)] by (simp_all add: s_def scol_def)
    show ?thesis
    proof (cases "c = 3")
      case c3: True
      then have "32000 \<le> r" "r \<le> 448000" using bitrate_bounds(1) [OF rng(3,4)] True by (simp_all add: r_def col_def)
      then show ?thesis using mpeg_frameLength_bounds(1) [of s p c b r] s p c3 True by auto
    next
      case False
      then have "c = 0 \<or> c = 1 \<or> c = 2" using rng by linarith
      then have "32000 \<le> r" "r \<le> 384000"
        using bitrate_bounds(2) [OF rng(3,4), of "3 - c"] bitrate_bounds(3) [OF rng(3,4)] True by (auto simp: r_def col_def)
      then show ?thesis using mpeg_frameLength_bounds(2) [of s p c b r] s p False True by auto
    qed
  next
    case False
    then have s: "8000 \<le> s" "s \<le> 24000" using samplerate_bounds(2) [OF rng(5,6), of scol] by (simp_all add: s_def scol_def)
    show ?thesis
    proof (cases "c = 3")
      case c3: True
      then have "32000 \<le> r" "r \<le> 256000" using bitrate_bounds(3) [OF rng(3,4)] False by (simp_all add: r_def col_def)
      then show ?thesis using mpeg_frameLength_bounds(1) [of s p c b r] s p c3 False by auto
    next
      case c3: False
      then have "8000 \<le> r" "r \<le> 160000" using bitrate_bounds(4) [OF rng(3,4)] False by (simp_all add: r_def col_def)
      then show ?thesis using mpeg_frameLength_bounds(2) [of s p c b r] s p c3 False by auto
    qed
  qed
  then show "24 \<le> mh_frameLength h" "mh_frameLength h \<le> 1729" "8000 \<le> mh_sampleRate h" "mh_sampleRate h \<le> 48000"
    by (simp_all add: h)
qed

end
