(* ===== verification/Id3.thy ===== *)
theory Id3
  imports Js_Values
begin

text \<open>
  The ID3 parser, \<open>src/demux/id3.js\<close>: tags and their frames, the text decoder, and the timestamp of
  the elementary stream. A JavaScript string is its list of UTF-16 code units; \<open>undefined\<close> is
  \<open>None\<close>. The loops advance by at least ten bytes a round, and so they end.
\<close>

type_synonym js_string = "int list"

definition codes :: "string \<Rightarrow> js_string" where
  "codes s = map of_char s"

definition data_is :: "bytes \<Rightarrow> nat \<Rightarrow> int \<Rightarrow> bool" where \<comment> \<open>\<open>data[i] === v\<close>\<close>
  "data_is d i v \<longleftrightarrow> at_index d i = Some v"

subsection \<open>Tags\<close>

definition isHeader :: "bytes \<Rightarrow> nat \<Rightarrow> bool" where
  "isHeader data offset \<longleftrightarrow>
     offset + 10 \<le> length data
     \<and> (data_is data offset 0x49 \<and> data_is data (offset + 1) 0x44 \<and> data_is data (offset + 2) 0x33)
     \<and> (byte data (offset + 3) < 0xFF \<and> byte data (offset + 4) < 0xFF)
     \<and> (byte data (offset + 6) < 0x80 \<and> byte data (offset + 7) < 0x80 \<and> byte data (offset + 8) < 0x80
        \<and> byte data (offset + 9) < 0x80)"

definition isFooter :: "bytes \<Rightarrow> nat \<Rightarrow> bool" where
  "isFooter data offset \<longleftrightarrow>
     offset + 10 \<le> length data
     \<and> (data_is data offset 0x33 \<and> data_is data (offset + 1) 0x44 \<and> data_is data (offset + 2) 0x49)
     \<and> (byte data (offset + 3) < 0xFF \<and> byte data (offset + 4) < 0xFF)
     \<and> (byte data (offset + 6) < 0x80 \<and> byte data (offset + 7) < 0x80 \<and> byte data (offset + 8) < 0x80
        \<and> byte data (offset + 9) < 0x80)"

definition readSize :: "bytes \<Rightarrow> nat \<Rightarrow> int" where
  "readSize data offset =
     js_or (js_or (js_or (js_shl (js_and (byte data offset) 0x7f) 21)
                         (js_shl (js_and (byte data (offset + 1)) 0x7f) 14))
                  (js_shl (js_and (byte data (offset + 2)) 0x7f) 7))
           (js_and (byte data (offset + 3)) 0x7f)"

text \<open>The loop of \<open>getID3Data\<close>: it returns the \<open>length\<close> that it adds up.\<close>

function id3_length :: "bytes \<Rightarrow> nat \<Rightarrow> nat \<Rightarrow> nat" where
  "id3_length data offset len =
     (if isHeader data offset then
        let len1 = len + 10 + nat (readSize data (offset + 6));
            len2 = (if isFooter data (offset + 10) then len1 + 10 else len1)
        in id3_length data (offset + len2) len2
      else len)"
  by pat_completeness auto
termination
  by (relation "measure (\<lambda>(data, offset, len). length data - offset)") (auto simp: isHeader_def Let_def)

definition getID3Data :: "bytes \<Rightarrow> nat \<Rightarrow> bytes option" where
  "getID3Data data offset =
     (let len = id3_length data offset 0
      in if len > 0 then Some (subarray data (int offset) (int (offset + len))) else None)"

subsection \<open>Text\<close>

function utf8ArrayToStr :: "bytes \<Rightarrow> js_string" where
  "utf8ArrayToStr [] = []"
| "utf8ArrayToStr (b # bs) =
     (let c = uint b; k = js_shr c 4
      in if k = 0 then []
         else if 1 \<le> k \<and> k \<le> 7 then c # utf8ArrayToStr bs
         else if k = 12 \<or> k = 13 then
           js_or (js_shl (js_and c 0x1F) 6) (js_and (byte bs 0) 0x3F) # utf8ArrayToStr (drop 1 bs)
         else if k = 14 then
           js_or (js_or (js_shl (js_and c 0x0F) 12) (js_shl (js_and (byte bs 0) 0x3F) 6))
                 (js_shl (js_and (byte bs 1) 0x3F) 0) # utf8ArrayToStr (drop 2 bs)
         else utf8ArrayToStr bs)"
  by pat_completeness auto
termination by (relation "measure length") auto

subsection \<open>Frames\<close>

record raw_frame =
  rf_type :: js_string
  rf_size :: nat
  rf_data :: bytes

datatype id3_content = Buffer bytes | Str js_string

record id3_frame =
  if_key :: js_string
  if_info :: "js_string option"
  if_data :: id3_content

definition getFrameData :: "bytes \<Rightarrow> raw_frame" where
  "getFrameData data =
     (let size = nat (readSize data 4)
      in \<lparr>rf_type = [byte data 0, byte data 1, byte data 2, byte data 3], rf_size = size,
          rf_data = subarray data 10 (10 + int size)\<rparr>)"

definition decodePrivFrame :: "raw_frame \<Rightarrow> id3_frame option" where
  "decodePrivFrame f =
     (if rf_size f < 2 then None
      else
        let owner = utf8ArrayToStr (rf_data f)
        in Some \<lparr>if_key = rf_type f, if_info = Some owner, if_data = Buffer (drop (length owner + 1) (rf_data f))\<rparr>)"

text \<open>The description and the value of a \<open>TXXX\<close> or \<open>WXXX\<close> frame, after the encoding byte.\<close>

definition decode_described :: "raw_frame \<Rightarrow> id3_frame" where
  "decode_described f =
     (let description = utf8ArrayToStr (drop 1 (rf_data f));
          index = 1 + (length description + 1);
          v = utf8ArrayToStr (drop index (rf_data f))
      in \<lparr>if_key = rf_type f, if_info = Some description, if_data = Str v\<rparr>)"

definition decodeTextFrame :: "raw_frame \<Rightarrow> id3_frame option" where
  "decodeTextFrame f =
     (if rf_size f < 2 then None
      else if rf_type f = codes ''TXXX'' then Some (decode_described f)
      else Some \<lparr>if_key = rf_type f, if_info = None, if_data = Str (utf8ArrayToStr (drop 1 (rf_data f)))\<rparr>)"

definition decodeURLFrame :: "raw_frame \<Rightarrow> id3_frame option" where
  "decodeURLFrame f =
     (if rf_type f = codes ''WXXX'' then (if rf_size f < 2 then None else Some (decode_described f))
      else Some \<lparr>if_key = rf_type f, if_info = None, if_data = Str (utf8ArrayToStr (rf_data f))\<rparr>)"

definition decodeFrame :: "raw_frame \<Rightarrow> id3_frame option" where
  "decodeFrame f =
     (if rf_type f = codes ''PRIV'' then decodePrivFrame f
      else if take 1 (rf_type f) = codes ''T'' then decodeTextFrame f
      else if take 1 (rf_type f) = codes ''W'' then decodeURLFrame f
      else None)"

text \<open>The inner loop of \<open>getID3Frames\<close> over one tag: its frames, and the offset after the last one.\<close>

function tag_frames :: "bytes \<Rightarrow> nat \<Rightarrow> nat \<Rightarrow> id3_frame list \<Rightarrow> id3_frame list \<times> nat" where
  "tag_frames data offset tag_end frames =
     (if offset + 8 < tag_end then
        let fd = getFrameData (drop offset data)
        in tag_frames data (offset + (rf_size fd + 10)) tag_end
             (case decodeFrame fd of None \<Rightarrow> frames | Some f \<Rightarrow> frames @ [f])
      else (frames, offset))"
  by pat_completeness auto
termination
  by (relation "measure (\<lambda>(data, offset, tag_end, frames). tag_end - offset)") (auto simp: Let_def)

declare tag_frames.simps [simp del]

lemma tag_frames_offset: "snd (tag_frames data offset tag_end frames) \<ge> offset"
proof (induction data offset tag_end frames rule: tag_frames.induct)
  case (1 data offset tag_end frames)
  show ?case
    using 1 [OF _ refl] unfolding tag_frames.simps [of data offset] by (force simp: Let_def)
qed

function frames_loop :: "bytes \<Rightarrow> nat \<Rightarrow> id3_frame list \<Rightarrow> id3_frame list" where
  "frames_loop id3Data offset frames =
     (if isHeader id3Data offset then
        let size = nat (readSize id3Data (offset + 6));
            start = offset + 10;
            r = tag_frames id3Data start (start + size) frames;
            next_offset = (if isFooter id3Data (snd r) then snd r + 10 else snd r)
        in frames_loop id3Data next_offset (fst r)
      else frames)"
  by pat_completeness auto
termination
proof (relation "measure (\<lambda>(data, offset, frames). length data - offset)"; clarsimp simp: Let_def)
  fix d :: bytes and offset frames
  assume h: "isHeader d offset"
  have "offset + 10 \<le> snd (tag_frames d (offset + 10) (offset + 10 + nat (readSize d (offset + 6))) frames)"
    by (rule tag_frames_offset)
  with h show "(isFooter d (snd (tag_frames d (offset + 10) (offset + 10 + nat (readSize d (offset + 6))) frames)) \<longrightarrow>
      length d - (snd (tag_frames d (offset + 10) (offset + 10 + nat (readSize d (offset + 6))) frames) + 10) < length d - offset) \<and>
    (\<not> isFooter d (snd (tag_frames d (offset + 10) (offset + 10 + nat (readSize d (offset + 6))) frames)) \<longrightarrow>
      length d - snd (tag_frames d (offset + 10) (offset + 10 + nat (readSize d (offset + 6))) frames) < length d - offset)"
    by (auto simp: isHeader_def)
qed

declare frames_loop.simps [simp del] id3_length.simps [simp del]

definition getID3Frames :: "bytes \<Rightarrow> id3_frame list" where
  "getID3Frames id3Data = frames_loop id3Data 0 []"

subsection \<open>The timestamp of the elementary stream\<close>

definition isTimeStampFrame :: "id3_frame \<Rightarrow> bool" where
  "isTimeStampFrame f \<longleftrightarrow>
     if_key f = codes ''PRIV'' \<and> if_info f = Some (codes ''com.apple.streaming.transportStreamTimestamp'')"

text \<open>A string has no \<open>byteLength\<close>, and so only a buffer can give a timestamp.\<close>

definition readTimeStamp :: "id3_frame \<Rightarrow> int option" where
  "readTimeStamp f =
     (case if_data f of
        Buffer d \<Rightarrow>
          if length d = 8 then
            let pts33Bit = js_and (byte d 3) 0x1;
                ts = js_shl (byte d 4) 23 + js_shl (byte d 5) 15 + js_shl (byte d 6) 7 + byte d 7;
                t = of_int ts / (45 :: rat);
                t = (if pts33Bit \<noteq> 0 then t + 4772185884 / 100 else t)
            in Some (js_round t)
          else None
      | Str _ \<Rightarrow> None)"

definition getTimeStamp :: "bytes \<Rightarrow> int option" where
  "getTimeStamp data =
     (case filter isTimeStampFrame (getID3Frames data) of [] \<Rightarrow> None | f # _ \<Rightarrow> readTimeStamp f)"

end
