(* ===== verification/Audio_Demuxers.thy ===== *)
theory Audio_Demuxers
  imports Audio_Headers Id3
begin

text \<open>
  The demuxers of packed audio, \<open>src/demux/aacdemuxer.js\<close> and \<open>src/demux/mp3demuxer.js\<close>. \<open>append\<close>
  hands the audio track and the ID3 samples to the remuxer, which is not part of this component: its
  result is the arguments of that call, with the events that were triggered on the way. The loops
  move on by the length of a frame or a tag or by one byte, and so they end.
\<close>

record id3_sample =
  is_pts :: num
  is_dts :: num
  is_data :: bytes

record scan_state =
  sc_track :: audio_track
  sc_frameIndex :: nat
  sc_stamp :: num
  sc_id3 :: "id3_sample list"

definition push_frame :: "media_sample \<times> nat \<times> audio_track \<Rightarrow> scan_state \<Rightarrow> scan_state" where
  "push_frame r st =
     st\<lparr>sc_track := snd (snd r), sc_stamp := sm_pts (fst r), sc_frameIndex := sc_frameIndex st + 1\<rparr>"

definition push_id3 :: "bytes \<Rightarrow> scan_state \<Rightarrow> scan_state" where
  "push_id3 d st = st\<lparr>sc_id3 := sc_id3 st @ [\<lparr>is_pts = sc_stamp st, is_dts = sc_stamp st, is_data = d\<rparr>]\<rparr>"

lemma adts_appendFrame_length: "adts_appendFrame tr d i pts k = Some r \<Longrightarrow> 0 < fst (snd r)"
  by (auto simp: adts_appendFrame_def parseFrameHeader_def Let_def split: option.splits if_splits)

lemma mpeg_appendFrame_length: "mpeg_appendFrame tr d i pts k = Some r \<Longrightarrow> 0 < fst (snd r)"
  using parseHeader_bounds(1) [of d i]
  by (fastforce simp: mpeg_appendFrame_def Let_def split: option.splits if_splits)

lemma getID3Data_progress: "isHeader d i \<Longrightarrow> getID3Data d i = Some t \<Longrightarrow> 10 \<le> length t"
proof -
  assume h: "isHeader d i" and t: "getID3Data d i = Some t"
  have mono: "len \<le> id3_length d off len" for off len
  proof (induction d off len rule: id3_length.induct)
    case (1 d off len)
    show ?case using 1 [OF _ refl refl] unfolding id3_length.simps [of d off len] by (force simp: Let_def)
  qed
  have "10 \<le> id3_length d i 0"
    using h by (subst id3_length.simps) (simp add: Let_def, intro conjI impI; rule order_trans [OF _ mono]; simp)
  moreover have "i + 10 \<le> length d" using h by (simp add: isHeader_def)
  ultimately show ?thesis using t
    by (auto simp: getID3Data_def Let_def subarray_def clamp_index_def split: if_splits)
qed

subsection \<open>AAC\<close>

text \<open>\<open>resetInitSegment\<close>: the track that a demuxer starts with.\<close>

definition aac_resetInitSegment :: "string option \<Rightarrow> num \<Rightarrow> audio_track" where
  "aac_resetInitSegment audioCodec duration =
     \<lparr>au_container = ''audio/adts'', au_id = 0, au_sequenceNumber = 0, au_isAAC = True, au_samples = [], au_len = 0,
      au_manifestCodec = audioCodec, au_duration = duration, au_inputTimeScale = 90000, au_config = None,
      au_samplerate = None, au_channelCount = None, au_codec = None\<rparr>"

text \<open>The offsets from \<open>start\<close> to before \<open>min (length - 1) (start + 100)\<close>, as in \<open>probe\<close>.\<close>

definition probe_offsets :: "bytes \<Rightarrow> nat \<Rightarrow> nat list" where
  "probe_offsets data start = [start..<min (length data - 1) (start + 100)]"

definition aac_probe :: "bytes \<Rightarrow> bool" where
  "aac_probe data =
     (case getID3Data data 0 of
        None \<Rightarrow> False
      | Some id3Data \<Rightarrow>
          getTimeStamp id3Data \<noteq> None \<and> list_ex (adts_probe data) (probe_offsets data (length id3Data)))"

function aac_loop ::
  "string \<Rightarrow> bytes \<Rightarrow> num \<Rightarrow> nat \<Rightarrow> scan_state \<Rightarrow> error_event list \<times> scan_state result" where
  "aac_loop ua data pts offset st =
     (if offset + 1 < length data then
        if adts_isHeader data offset \<and> offset + 5 < length data then
          (case initTrackConfig ua (sc_track st) data offset (au_manifestCodec (sc_track st)) of
             (evs, Inl e) \<Rightarrow> (evs, Inl e)
           | (evs, Inr track) \<Rightarrow>
               (case adts_appendFrame track data offset pts (sc_frameIndex st) of
                  Some r \<Rightarrow> aac_loop ua data pts (offset + fst (snd r)) (push_frame r st)
                | None \<Rightarrow> ([], Inr (st\<lparr>sc_track := track\<rparr>))))
        else if isHeader data offset then
          (case getID3Data data offset of
             Some id3Data \<Rightarrow> aac_loop ua data pts (offset + length id3Data) (push_id3 id3Data st)
           | None \<Rightarrow> ([], Inl TypeError))
        else aac_loop ua data pts (offset + 1) st
      else ([], Inr st))"
  by pat_completeness auto
termination
  by (relation "measure (\<lambda>(ua, data, pts, offset, st). length data - offset)")
    (auto dest: adts_appendFrame_length getID3Data_progress)

declare aac_loop.simps [simp del]

definition aac_append ::
  "string \<Rightarrow> bytes \<Rightarrow> audio_track \<Rightarrow> error_event list \<times> (audio_track \<times> id3_sample list) result" where
  "aac_append ua data track =
     (case getID3Data data 0 of
        None \<Rightarrow> ([], Inl TypeError)
      | Some id3Data \<Rightarrow>
          let pts = map_option (\<lambda>t. 90 * of_int t) (getTimeStamp id3Data);
              st = \<lparr>sc_track = track, sc_frameIndex = 0, sc_stamp = pts,
                    sc_id3 = [\<lparr>is_pts = pts, is_dts = pts, is_data = id3Data\<rparr>]\<rparr>
          in (case aac_loop ua data pts (length id3Data) st of
                (evs, Inl e) \<Rightarrow> (evs, Inl e)
              | (evs, Inr st) \<Rightarrow> (evs, Inr (sc_track st, sc_id3 st))))"

subsection \<open>MP3\<close>

definition mp3_resetInitSegment :: "string option \<Rightarrow> num \<Rightarrow> audio_track" where
  "mp3_resetInitSegment audioCodec duration =
     \<lparr>au_container = ''audio/mpeg'', au_id = - 1, au_sequenceNumber = 0, au_isAAC = False, au_samples = [], au_len = 0,
      au_manifestCodec = audioCodec, au_duration = duration, au_inputTimeScale = 90000, au_config = None,
      au_samplerate = None, au_channelCount = None, au_codec = None\<rparr>"

definition mp3_probe :: "bytes \<Rightarrow> bool" where
  "mp3_probe data =
     (case getID3Data data 0 of
        None \<Rightarrow> False
      | Some id3Data \<Rightarrow>
          getTimeStamp id3Data \<noteq> None \<and> list_ex (mpeg_probe data) (probe_offsets data (length id3Data)))"

function mp3_loop :: "bytes \<Rightarrow> num \<Rightarrow> nat \<Rightarrow> scan_state \<Rightarrow> scan_state result" where
  "mp3_loop data pts offset st =
     (if offset < length data then
        if mpeg_isHeader data offset then
          (case mpeg_appendFrame (sc_track st) data offset pts (sc_frameIndex st) of
             Some r \<Rightarrow> mp3_loop data pts (offset + fst (snd r)) (push_frame r st)
           | None \<Rightarrow> Inr st)
        else if isHeader data offset then
          (case getID3Data data offset of
             Some id3Data \<Rightarrow> mp3_loop data pts (offset + length id3Data) (push_id3 id3Data st)
           | None \<Rightarrow> Inl TypeError)
        else mp3_loop data pts (offset + 1) st
      else Inr st)"
  by pat_completeness auto
termination
  by (relation "measure (\<lambda>(data, pts, offset, st). length data - offset)")
    (auto dest: mpeg_appendFrame_length getID3Data_progress)

declare mp3_loop.simps [simp del]

definition mp3_append :: "bytes \<Rightarrow> audio_track \<Rightarrow> (audio_track \<times> id3_sample list) result" where
  "mp3_append data track =
     (case getID3Data data 0 of
        None \<Rightarrow> Inl TypeError
      | Some id3Data \<Rightarrow>
          let pts = map_option (\<lambda>t. 90 * of_int t) (getTimeStamp id3Data);
              st = \<lparr>sc_track = track, sc_frameIndex = 0, sc_stamp = Some 0,
                    sc_id3 = [\<lparr>is_pts = pts, is_dts = pts, is_data = id3Data\<rparr>]\<rparr>
          in (case mp3_loop data pts (length id3Data) st of
                Inl e \<Rightarrow> Inl e
              | Inr st \<Rightarrow> Inr (sc_track st, sc_id3 st)))"

end
