(* ===== verification/Ts_Pes.thy ===== *)
theory Ts_Pes
  imports Audio_Demuxers
begin

text \<open>
  The transport stream demuxer, \<open>src/demux/tsdemuxer.js\<close>: program tables and packetized elementary
  streams. A stream under assembly is its list of chunks and the size that the code adds up, which is
  negative when an adaptation field claims more than the packet; a typed array of negative length
  and a \<open>set\<close> past the end throw a \<open>RangeError\<close>.
\<close>

subsection \<open>Program tables\<close>

text \<open>
  The offset of a table, after the pointer field when the unit starts here: \<open>None\<close> is the \<open>NaN\<close>
  that comes from a pointer field past the end of the data. All reads there are \<open>undefined\<close>.
\<close>

definition psi_offset :: "bytes \<Rightarrow> bool \<Rightarrow> nat \<Rightarrow> nat option" where
  "psi_offset data stt offset =
     (if stt then map_option (\<lambda>p. offset + nat p + 1) (at_index data offset) else Some offset)"

definition parsePAT :: "bytes \<Rightarrow> nat option \<Rightarrow> int" where
  "parsePAT data off =
     (case off of
        None \<Rightarrow> 0
      | Some offset \<Rightarrow> js_or (js_shl (js_and (byte data (offset + 10)) 0x1F) 8) (byte data (offset + 11)))"

record pmt_pids =
  pm_audio :: int
  pm_avc :: int
  pm_id3 :: int
  pm_isAAC :: bool

definition no_pids :: pmt_pids where
  "no_pids = \<lparr>pm_audio = - 1, pm_avc = - 1, pm_id3 = - 1, pm_isAAC = True\<rparr>"

text \<open>One entry of the table: the \<open>switch\<close> over the stream type.\<close>

definition pmt_entry :: "bool \<Rightarrow> bool \<Rightarrow> int option \<Rightarrow> int \<Rightarrow> pmt_pids \<Rightarrow> pmt_pids" where
  "pmt_entry mpegSupported isSampleAes stype pid r =
     (if stype = Some 0x0f \<or> (stype = Some 0xcf \<and> isSampleAes) then
        (if pm_audio r = - 1 then r\<lparr>pm_audio := pid\<rparr> else r)
      else if stype = Some 0x15 then (if pm_id3 r = - 1 then r\<lparr>pm_id3 := pid\<rparr> else r)
      else if stype = Some 0x1b \<or> (stype = Some 0xdb \<and> isSampleAes) then
        (if pm_avc r = - 1 then r\<lparr>pm_avc := pid\<rparr> else r)
      else if stype = Some 0x03 \<or> stype = Some 0x04 then
        (if mpegSupported \<and> pm_audio r = - 1 then r\<lparr>pm_audio := pid, pm_isAAC := False\<rparr> else r)
      else r)"

function pmt_loop :: "bytes \<Rightarrow> bool \<Rightarrow> bool \<Rightarrow> nat \<Rightarrow> int \<Rightarrow> pmt_pids \<Rightarrow> pmt_pids" where
  "pmt_loop data mpegSupported isSampleAes offset tableEnd r =
     (if int offset < tableEnd then
        let pid = js_or (js_shl (js_and (byte data (offset + 1)) 0x1F) 8) (byte data (offset + 2));
            len = js_or (js_shl (js_and (byte data (offset + 3)) 0x0F) 8) (byte data (offset + 4)) + 5
        in pmt_loop data mpegSupported isSampleAes (offset + nat len) tableEnd
             (pmt_entry mpegSupported isSampleAes (at_index data offset) pid r)
      else r)"
  by pat_completeness auto

lemma js_or_nonneg: "0 \<le> x \<Longrightarrow> x < 2147483648 \<Longrightarrow> 0 \<le> y \<Longrightarrow> y < 2147483648 \<Longrightarrow> 0 \<le> js_or x y"
  by (simp add: js_or_def)

lemma field12_nonneg: "0 \<le> js_or (js_shl (js_and (byte d i) 0x0F) 8) (byte d j)"
proof -
  have "js_and (byte d i) 0x0F = byte d i mod 16"
    using byte_bounds [of d i] by (intro js_and_masks) linarith+
  then have "0 \<le> js_shl (js_and (byte d i) 0x0F) 8 \<and> js_shl (js_and (byte d i) 0x0F) 8 < 2147483648"
    by (simp add: js_shl_def push_bit_eq_mult)
  then show ?thesis using byte_bounds [of d j] by (intro js_or_nonneg) linarith+
qed

termination pmt_loop
  by (relation "measure (\<lambda>(d, m, a, off, te, r). nat (te - int off))")
    (auto simp: field12_nonneg intro: le_less_trans [OF _ zero_less_numeral] simp flip: neg_0_le_iff_le)

declare pmt_loop.simps [simp del]

definition parsePMT :: "bytes \<Rightarrow> nat option \<Rightarrow> bool \<Rightarrow> bool \<Rightarrow> pmt_pids" where
  "parsePMT data off mpegSupported isSampleAes =
     (case off of
        None \<Rightarrow> no_pids
      | Some offset \<Rightarrow>
          let sectionLength = js_or (js_shl (js_and (byte data (offset + 1)) 0x0f) 8) (byte data (offset + 2));
              tableEnd = int offset + 3 + sectionLength - 4;
              programInfoLength = js_or (js_shl (js_and (byte data (offset + 10)) 0x0f) 8) (byte data (offset + 11))
          in pmt_loop data mpegSupported isSampleAes (offset + 12 + nat programInfoLength) tableEnd no_pids)"

subsection \<open>Packetized elementary streams\<close>

record pes_stream =
  ps_data :: "bytes list"
  ps_size :: int

record pes_packet =
  pp_data :: bytes
  pp_pts :: num
  pp_dts :: num
  pp_len :: "int option"

fun pes_merge :: "bytes list \<Rightarrow> bytes list" where
  "pes_merge (a # b # ds) = (if length a < 19 then pes_merge ((a @ b) # ds) else a # b # ds)"
| "pes_merge ds = ds"

text \<open>The 33-bit timestamp in the five bytes from \<open>i\<close>, made signed.\<close>

definition pes_stamp :: "bytes \<Rightarrow> nat \<Rightarrow> int" where
  "pes_stamp frag i =
     (let t = js_and (byte frag i) 0x0E * 536870912 + js_and (byte frag (i + 1)) 0xFF * 4194304
              + js_and (byte frag (i + 2)) 0xFE * 16384 + js_and (byte frag (i + 3)) 0xFF * 128
              + js_and (byte frag (i + 4)) 0xFE div 2
      in if t > 4294967295 then t - 8589934592 else t)"

definition pes_stamps :: "bytes \<Rightarrow> num \<times> num" where
  "pes_stamps frag =
     (let pesFlags = byte frag 7 in
      if js_and pesFlags 0xC0 \<noteq> 0 then
        let pesPts = pes_stamp frag 9 in
        if js_and pesFlags 0x40 \<noteq> 0 then
          let pesDts = pes_stamp frag 14;
              pesPts = (if pesPts - pesDts > 60 * 90000 then pesDts else pesPts)
          in (Some (of_int pesPts), Some (of_int pesDts))
        else (Some (of_int pesPts), Some (of_int pesPts))
      else (None, None))"

definition range_error :: js_error where
  "range_error = JsError ''RangeError''"

text \<open>The loop that copies the chunks without the first \<open>payloadStartOffset\<close> bytes.\<close>

fun pes_copy :: "nat \<Rightarrow> bytes list \<Rightarrow> nat \<Rightarrow> bytes \<Rightarrow> bytes result" where
  "pes_copy payloadStartOffset [] i pesData = Inr pesData"
| "pes_copy payloadStartOffset (frag # fs) i pesData =
     (if payloadStartOffset > length frag then pes_copy (payloadStartOffset - length frag) fs i pesData
      else
        let frag = drop payloadStartOffset frag
        in if i + length frag \<le> length pesData
           then pes_copy 0 fs (i + length frag) (set_at pesData frag i)
           else Inl range_error)"

definition pes_assemble :: "bytes list \<Rightarrow> int \<Rightarrow> bytes \<Rightarrow> int option \<Rightarrow> pes_packet result" where
  "pes_assemble data size0 frag pesLen =
     (case at_index frag 8 of
        None \<Rightarrow> Inl range_error
      | Some pesHdrLen \<Rightarrow>
          let payloadStartOffset = pesHdrLen + 9;
              size1 = size0 - payloadStartOffset;
              (pts, dts) = pes_stamps frag
          in if size1 < 0 then Inl range_error
             else
               (case pes_copy (nat payloadStartOffset) data 0 (replicate (nat size1) 0) of
                  Inl e \<Rightarrow> Inl e
                | Inr d \<Rightarrow>
                    Inr \<lparr>pp_data = d, pp_pts = pts, pp_dts = dts,
                         pp_len = map_option (\<lambda>l. if l \<noteq> 0 then l - (pesHdrLen + 3) else l) pesLen\<rparr>))"

text \<open>
  \<open>parsePES\<close> returns the packet or \<open>null\<close>, and the stream with its first chunks merged, which the
  caller keeps when there is no packet yet.
\<close>

definition parsePES :: "pes_stream \<Rightarrow> (pes_packet option \<times> pes_stream) result" where
  "parsePES stream =
     (if ps_size stream = 0 then Inr (None, stream)
      else
        (case pes_merge (ps_data stream) of
           [] \<Rightarrow> Inl TypeError
         | frag # fs \<Rightarrow>
             let data = frag # fs;
                 stream = stream\<lparr>ps_data := data\<rparr>;
                 pesLen = (if length frag > 5 then Some (js_shl (byte frag 4) 8 + byte frag 5) else None)
             in if length frag > 2 \<and> js_shl (byte frag 0) 16 + js_shl (byte frag 1) 8 + byte frag 2 = 1 then
                  (case pesLen of
                     Some l \<Rightarrow>
                       if l \<noteq> 0 \<and> l > ps_size stream - 6 then Inr (None, stream)
                       else map_sum id (\<lambda>p. (Some p, stream)) (pes_assemble data (ps_size stream) frag pesLen)
                   | None \<Rightarrow> map_sum id (\<lambda>p. (Some p, stream)) (pes_assemble data (ps_size stream) frag pesLen))
                else Inr (None, stream)))"

end
