(* ===== verification/Ts_Avc.thy ===== *)
theory Ts_Avc
  imports Ts_Pes Exp_Golomb
begin

text \<open>
  The transport stream demuxer: NAL units, access units and captions. A unit or sample that the code
  changes through a reference is either the current sample or the last sample of the track, and the
  model changes it there. The \<open>debug\<close> string of a sample is only logged and left out.
\<close>

subsection \<open>State\<close>

record avc_unit =
  un_data :: bytes
  un_type :: int
  un_state :: "int option"

record avc_sample =
  av_key :: bool
  av_pts :: num
  av_dts :: num
  av_units :: "avc_unit list"
  av_frame :: bool
  av_id :: "nat option"

record avc_track =
  vt_id :: int
  vt_samples :: "avc_sample list"
  vt_len :: int
  vt_dropped :: nat
  vt_sps :: "bytes option"
  vt_pps :: "bytes option"
  vt_audFound :: bool
  vt_naluState :: int
  vt_width :: "int option"
  vt_height :: "int option"
  vt_pixelRatio :: "(int \<times> int) option"
  vt_duration :: num
  vt_codec :: "string option"
  vt_pesData :: "pes_stream option"

record id3_track =
  it_id :: int
  it_samples :: "pes_packet list"
  it_pesData :: "pes_stream option"

record txt_sample =
  tx_type :: int
  tx_pts :: num
  tx_bytes :: "int list"

record ts_demuxer =
  ts_pmtParsed :: bool
  ts_pmtId :: int
  ts_avcTrack :: avc_track
  ts_audioTrack :: audio_track
  ts_audioPesData :: "pes_stream option"
  ts_id3Track :: id3_track
  ts_txtSamples :: "txt_sample list"
  ts_aacOverFlow :: "bytes option"
  ts_aacLastPTS :: num
  ts_avcSample :: "avc_sample option"
  ts_audioCodec :: "string option"
  ts_videoCodec :: "string option"
  ts_duration :: num
  ts_contiguous :: bool
  ts_sampleAes :: bool
  ts_events :: "error_event list"

text \<open>What the demuxer reads of its configuration and the browser.\<close>

record ts_env =
  te_userAgent :: string
  te_forceKeyFrameOnDiscontinuity :: bool
  te_mpegSupported :: bool

type_synonym 'a ts = "(ts_demuxer, 'a) stm"

definition modify :: "('s \<Rightarrow> 's) \<Rightarrow> ('s, unit) stm" where
  "modify f = (\<lambda>s. Inr ((), f s))"

definition gets :: "('s \<Rightarrow> 'a) \<Rightarrow> ('s, 'a) stm" where
  "gets f = (\<lambda>s. Inr (f s, s))"

lemma modify_apply [simp, mon_simps]: "modify f s = Inr ((), f s)"
  by (simp add: modify_def)

lemma gets_apply [simp, mon_simps]: "gets f s = Inr (f s, s)"
  by (simp add: gets_def)

definition new_avcTrack :: avc_track where
  "new_avcTrack = \<lparr>vt_id = - 1, vt_samples = [], vt_len = 0, vt_dropped = 0, vt_sps = None, vt_pps = None,
     vt_audFound = False, vt_naluState = 0, vt_width = None, vt_height = None, vt_pixelRatio = None,
     vt_duration = None, vt_codec = None, vt_pesData = None\<rparr>"

definition new_tsAudioTrack :: "num \<Rightarrow> audio_track" where
  "new_tsAudioTrack duration =
     \<lparr>au_container = ''video/mp2t'', au_id = - 1, au_sequenceNumber = 0, au_isAAC = True, au_samples = [], au_len = 0,
      au_manifestCodec = None, au_duration = duration, au_inputTimeScale = 90000, au_config = None,
      au_samplerate = None, au_channelCount = None, au_codec = None\<rparr>"

definition ts_resetInitSegment :: "string option \<Rightarrow> string option \<Rightarrow> num \<Rightarrow> ts_demuxer \<Rightarrow> ts_demuxer" where
  "ts_resetInitSegment audioCodec videoCodec duration d =
     d\<lparr>ts_pmtParsed := False, ts_pmtId := - 1, ts_avcTrack := new_avcTrack,
       ts_audioTrack := new_tsAudioTrack duration, ts_audioPesData := None,
       ts_id3Track := \<lparr>it_id = - 1, it_samples = [], it_pesData = None\<rparr>, ts_txtSamples := [],
       ts_aacOverFlow := None, ts_aacLastPTS := None, ts_avcSample := None, ts_audioCodec := audioCodec,
       ts_videoCodec := videoCodec, ts_duration := duration\<rparr>"

subsection \<open>NAL units\<close>

text \<open>\<open>_getLastNalUnit\<close>, and the change of the unit that it refers to.\<close>

fun update_last :: "('a \<Rightarrow> 'a) \<Rightarrow> 'a list \<Rightarrow> 'a list" where
  "update_last f [] = []"
| "update_last f [x] = [f x]"
| "update_last f (x # y # ys) = x # update_last f (y # ys)"

definition in_current :: "ts_demuxer \<Rightarrow> bool" where
  "in_current d \<longleftrightarrow> (case ts_avcSample d of None \<Rightarrow> False | Some a \<Rightarrow> av_units a \<noteq> [])"

definition getLastNalUnit :: "ts_demuxer \<Rightarrow> avc_unit option" where
  "getLastNalUnit d =
     (let units = (if in_current d then (case ts_avcSample d of None \<Rightarrow> [] | Some a \<Rightarrow> av_units a)
                   else if vt_samples (ts_avcTrack d) = [] then []
                   else av_units (last (vt_samples (ts_avcTrack d))))
      in if units = [] then None else Some (last units))"

definition updateLastNalUnit :: "(avc_unit \<Rightarrow> avc_unit) \<Rightarrow> ts_demuxer \<Rightarrow> ts_demuxer" where
  "updateLastNalUnit f d =
     (let g = (\<lambda>a. a\<lparr>av_units := update_last f (av_units a)\<rparr>)
      in if in_current d then d\<lparr>ts_avcSample := map_option g (ts_avcSample d)\<rparr>
         else d\<lparr>ts_avcTrack := (ts_avcTrack d)\<lparr>vt_samples := update_last g (vt_samples (ts_avcTrack d))\<rparr>\<rparr>)"

record nal_scan =
  ns_state :: int
  ns_units :: "avc_unit list"
  ns_lastUnitStart :: int
  ns_lastUnitType :: int
  ns_dem :: ts_demuxer

text \<open>The first start code of a packet: what precedes it belongs to the last unit of the packet before.\<close>

definition nal_overflow :: "bytes \<Rightarrow> int \<Rightarrow> int \<Rightarrow> int \<Rightarrow> avc_unit \<Rightarrow> avc_unit" where
  "nal_overflow array lastState i state lastUnit =
     (let u = (if lastState \<noteq> 0 \<and> i \<le> 4 - lastState \<and> un_state lastUnit \<noteq> None \<and> un_state lastUnit \<noteq> Some 0
               then lastUnit\<lparr>un_data := subarray (un_data lastUnit) 0 (int (length (un_data lastUnit)) - lastState)\<rparr>
               else lastUnit);
          overflow = i - state - 1
      in if overflow > 0 then u\<lparr>un_data := un_data u @ subarray array 0 overflow\<rparr> else u)"

definition nal_start_code :: "bytes \<Rightarrow> int \<Rightarrow> nat \<Rightarrow> nal_scan \<Rightarrow> nal_scan" where
  "nal_start_code array lastState i sc =
     (let sc = (if ns_lastUnitStart sc \<ge> 0 then
                  sc\<lparr>ns_units := ns_units sc @
                       [\<lparr>un_data = subarray array (ns_lastUnitStart sc) (int i - ns_state sc - 1),
                         un_type = ns_lastUnitType sc, un_state = None\<rparr>]\<rparr>
                else sc\<lparr>ns_dem := updateLastNalUnit (nal_overflow array lastState (int i) (ns_state sc)) (ns_dem sc)\<rparr>)
      in if i < length array then
           sc\<lparr>ns_lastUnitStart := int i, ns_lastUnitType := js_and (byte array i) 0x1f, ns_state := 0\<rparr>
         else sc\<lparr>ns_state := - 1\<rparr>)"

text \<open>The body of the loop on the byte \<open>v\<close>; \<open>i\<close> is the index after it.\<close>

definition nal_step :: "bytes \<Rightarrow> int \<Rightarrow> int \<Rightarrow> nat \<Rightarrow> nal_scan \<Rightarrow> nal_scan" where
  "nal_step array lastState v i sc =
     (if ns_state sc = 0 then sc\<lparr>ns_state := (if v \<noteq> 0 then 0 else 1)\<rparr>
      else if ns_state sc = 1 then sc\<lparr>ns_state := (if v \<noteq> 0 then 0 else 2)\<rparr>
      else if v = 0 then sc\<lparr>ns_state := 3\<rparr>
      else if v = 1 then nal_start_code array lastState i sc
      else sc\<lparr>ns_state := 0\<rparr>)"

function nal_loop :: "bytes \<Rightarrow> int \<Rightarrow> nat \<Rightarrow> nal_scan \<Rightarrow> nal_scan" where
  "nal_loop array lastState i sc =
     (if i < length array then nal_loop array lastState (i + 1) (nal_step array lastState (byte array i) (i + 1) sc)
      else sc)"
  by pat_completeness auto
termination by (relation "measure (\<lambda>(array, ls, i, sc). length array - i)") auto

declare nal_loop.simps [simp del]

definition parseAVCNALu :: "bytes \<Rightarrow> avc_unit list ts" where
  "parseAVCNALu array d =
     (let lastState = vt_naluState (ts_avcTrack d);
          sc0 = \<lparr>ns_state = lastState, ns_units = [], ns_lastUnitStart = - 1, ns_lastUnitType = 0, ns_dem = d\<rparr>;
          sc = (if lastState = - 1
                then nal_loop array lastState 1
                       (sc0\<lparr>ns_lastUnitStart := 0, ns_lastUnitType := js_and (byte array 0) 0x1f, ns_state := 0\<rparr>)
                else nal_loop array lastState 0 sc0);
          units = (if ns_lastUnitStart sc \<ge> 0 \<and> ns_state sc \<ge> 0 then
                     ns_units sc @ [\<lparr>un_data = subarray array (ns_lastUnitStart sc) (int (length array)),
                                     un_type = ns_lastUnitType sc, un_state = Some (ns_state sc)\<rparr>]
                   else ns_units sc);
          d = (if units = [] then updateLastNalUnit (\<lambda>u. u\<lparr>un_data := un_data u @ array\<rparr>) (ns_dem sc) else ns_dem sc)
      in Inr (units, d\<lparr>ts_avcTrack := (ts_avcTrack d)\<lparr>vt_naluState := ns_state sc\<rparr>\<rparr>))"

subsection \<open>Emulation prevention\<close>

function epb_positions :: "bytes \<Rightarrow> nat \<Rightarrow> nat list" where
  "epb_positions data i =
     (if i + 2 < length data then
        if data ! i = 0 \<and> data ! (i + 1) = 0 \<and> data ! (i + 2) = 3 then (i + 2) # epb_positions data (i + 2)
        else epb_positions data (i + 1)
      else [])"
  by pat_completeness auto
termination by (relation "measure (\<lambda>(data, i). length data - i)") auto

declare epb_positions.simps [simp del]

text \<open>The copying loop: \<open>n\<close> bytes are left to write, the next source byte is at \<open>src\<close>.\<close>

fun epb_copy :: "bytes \<Rightarrow> nat \<Rightarrow> nat \<Rightarrow> nat list \<Rightarrow> bytes" where
  "epb_copy data 0 src pos = []"
| "epb_copy data (Suc n) src pos =
     (let (src, pos) = (case pos of [] \<Rightarrow> (src, []) | p # ps \<Rightarrow> if src = p then (src + 1, ps) else (src, pos))
      in u8of (byte data src) # epb_copy data n (src + 1) pos)"

definition discardEPB :: "bytes \<Rightarrow> bytes" where
  "discardEPB data =
     (let pos = epb_positions data 1
      in if pos = [] then data else epb_copy data (length data - length pos) 0 pos)"

subsection \<open>Captions in SEI units\<close>

text \<open>
  The bits that a reader still has. A read that finds none left leaves the reader as it is; a loop
  that would then read the same value for ever is the error \<open>''diverges''\<close>.
\<close>

definition eg_left :: "exp_golomb \<Rightarrow> nat" where
  "eg_left s = 8 * nat (eg_bytesAvailable s) + nat (eg_bitsAvailable s)"

definition diverges :: js_error where
  "diverges = JsError ''diverges''"

text \<open>\<open>do { b = readUByte(); sum += b } while (b === 0xFF)\<close>\<close>

function sei_sum :: "int \<Rightarrow> int eg" where
  "sei_sum acc s =
     (case readUByte s of
        Inl e \<Rightarrow> Inl e
      | Inr (b, s') \<Rightarrow>
          if b = 0xFF then (if eg_left s' < eg_left s then sei_sum (acc + b) s' else Inl diverges)
          else Inr (acc + b, s'))"
  by pat_completeness auto
termination by (relation "measure (\<lambda>(acc, s). eg_left s)") auto

declare sei_sum.simps [simp del]

text \<open>The payload of a caption message: the bytes of the sample, or nothing.\<close>

fun read_bytes :: "nat \<Rightarrow> int list eg" where
  "read_bytes 0 = ret []"
| "read_bytes (Suc n) = bnd readUByte (\<lambda>b. bnd (read_bytes n) (\<lambda>bs. ret (b # bs)))"

definition sei_caption :: "int list option eg" where
  "sei_caption =
     bnd readUByte (\<lambda>countryCode.
       if countryCode = 181 then
         bnd readUShort (\<lambda>providerCode.
           if providerCode = 49 then
             bnd readUInt (\<lambda>userStructure.
               if userStructure = 0x47413934 then
                 bnd readUByte (\<lambda>userDataType.
                   if userDataType = 3 then
                     bnd readUByte (\<lambda>firstByte.
                     bnd readUByte (\<lambda>secondByte.
                       let totalCCs = js_and 31 firstByte
                       in bnd (read_bytes (3 * nat totalCCs)) (\<lambda>bs. ret (Some (firstByte # secondByte # bs)))))
                   else ret None)
               else ret None)
           else ret None)
       else ret None)"

text \<open>The loop over the messages; it ends after a message of type 4.\<close>

function sei_loop :: "int list option eg" where
  "sei_loop s =
     (if eg_bytesAvailable s > 1 then
        (case bnd (sei_sum 0) (\<lambda>payloadType. bnd (sei_sum 0) (\<lambda>payloadSize. ret (payloadType, payloadSize))) s of
           Inl e \<Rightarrow> Inl e
         | Inr ((payloadType, payloadSize), s') \<Rightarrow>
             if payloadType = 4 \<and> eg_bytesAvailable s' \<noteq> 0 then sei_caption s'
             else
               (case (if payloadSize < eg_bytesAvailable s' then bnd (read_bytes (nat payloadSize)) (\<lambda>_. ret ())
                      else ret ()) s' of
                  Inl e \<Rightarrow> Inl e
                | Inr (_, s'') \<Rightarrow> if eg_left s'' < eg_left s then sei_loop s'' else Inl diverges))
      else Inr (None, s))"
  by pat_completeness auto
termination by (relation "measure eg_left") auto

declare sei_loop.simps [simp del]

definition sei_captions :: "bytes \<Rightarrow> int list option result" where
  "sei_captions data = map_sum id fst (seq readUByte sei_loop (new_ExpGolomb (discardEPB data)))"

text \<open>\<open>_insertSampleInOrder\<close>: the search from the end for a sample with a greater timestamp.\<close>

definition num_le :: "num \<Rightarrow> num \<Rightarrow> bool" where
  "num_le x y = (case (x, y) of (Some a, Some b) \<Rightarrow> a \<le> b | _ \<Rightarrow> False)"

fun insert_from :: "txt_sample list \<Rightarrow> nat \<Rightarrow> txt_sample \<Rightarrow> txt_sample list" where \<comment> \<open>positions \<open>pos - 1\<close> down to 0\<close>
  "insert_from arr 0 data = arr"
| "insert_from arr (Suc pos) data =
     (if num_less (tx_pts data) (tx_pts (arr ! pos)) then take pos arr @ data # drop pos arr
      else insert_from arr pos data)"

definition insertSampleInOrder :: "txt_sample list \<Rightarrow> txt_sample \<Rightarrow> txt_sample list" where
  "insertSampleInOrder arr data =
     (if length arr > 0 then
        if num_le (tx_pts (arr ! (length arr - 1))) (tx_pts data) then arr @ [data]
        else insert_from arr (length arr) data
      else arr @ [data])"

subsection \<open>Access units\<close>

definition createAVCSample :: "bool \<Rightarrow> num \<Rightarrow> num \<Rightarrow> avc_sample" where
  "createAVCSample key pts dts =
     \<lparr>av_key = key, av_pts = pts, av_dts = dts, av_units = [], av_frame = False, av_id = None\<rparr>"

definition pushAccesUnit :: "ts_env \<Rightarrow> bool \<Rightarrow> avc_sample \<Rightarrow> avc_track \<Rightarrow> avc_track" where
  "pushAccesUnit env contiguous a tr =
     (if av_units a \<noteq> [] \<and> av_frame a then
        let nbSamples = length (vt_samples tr)
        in if \<not> te_forceKeyFrameOnDiscontinuity env \<or> av_key a \<or> vt_sps tr \<noteq> None \<and> (nbSamples \<noteq> 0 \<or> contiguous) then
             tr\<lparr>vt_samples := vt_samples tr @ [a\<lparr>av_id := Some nbSamples\<rparr>]\<rparr>
           else tr\<lparr>vt_dropped := vt_dropped tr + 1\<rparr>
      else tr)"

text \<open>The current sample goes to the track, and \<open>this.avcSample\<close> becomes \<open>next\<close>.\<close>

definition push_current :: "ts_env \<Rightarrow> avc_sample option \<Rightarrow> unit ts" where
  "push_current env next_sample d =
     Inr ((), d\<lparr>ts_avcTrack := (case ts_avcSample d of
                                  None \<Rightarrow> ts_avcTrack d
                                | Some a \<Rightarrow> pushAccesUnit env (ts_contiguous d) a (ts_avcTrack d)),
                ts_avcSample := next_sample\<rparr>)"

definition hex_digit :: "nat \<Rightarrow> char" where
  "hex_digit n = ''0123456789abcdef'' ! n"

text \<open>A byte as two hexadecimal digits, and the codec string of a parameter set.\<close>

definition hex2 :: "u8 \<Rightarrow> string" where
  "hex2 b = [hex_digit (unat b div 16), hex_digit (unat b mod 16)]"

definition avc_codec :: "bytes \<Rightarrow> string result" where
  "avc_codec data =
     (if length data < 4 then Inl TypeError
      else Inr (''avc1.'' @ concat (map hex2 (subarray data 1 4))))"

definition ensure_sample :: "num \<Rightarrow> num \<Rightarrow> ts_demuxer \<Rightarrow> ts_demuxer" where
  "ensure_sample pts dts d =
     (if ts_avcSample d = None then d\<lparr>ts_avcSample := Some (createAVCSample True pts dts)\<rparr> else d)"

definition update_sample :: "(avc_sample \<Rightarrow> avc_sample) \<Rightarrow> ts_demuxer \<Rightarrow> ts_demuxer" where
  "update_sample f d = d\<lparr>ts_avcSample := map_option f (ts_avcSample d)\<rparr>"

text \<open>A coded slice outside an IDR picture: a key frame when its slice type says so.\<close>

definition avc_NDR :: "num \<Rightarrow> num \<Rightarrow> bool \<Rightarrow> avc_unit \<Rightarrow> unit ts" where
  "avc_NDR pts dts spsfound u d =
     (let d = update_sample (\<lambda>a. a\<lparr>av_frame := True\<rparr>) (ensure_sample pts dts d)
      in if spsfound \<and> length (un_data u) > 4 then
           (case readSliceType (new_ExpGolomb (un_data u)) of
              Inl e \<Rightarrow> Inl e
            | Inr (sliceType, _) \<Rightarrow>
                Inr ((), if sliceType \<in> {2, 4, 7, 9} then update_sample (\<lambda>a. a\<lparr>av_key := True\<rparr>) d else d))
         else Inr ((), d))"

definition avc_IDR :: "num \<Rightarrow> num \<Rightarrow> unit ts" where
  "avc_IDR pts dts =
     modify (\<lambda>d. update_sample (\<lambda>a. a\<lparr>av_key := True, av_frame := True\<rparr>) (ensure_sample pts dts d))"

definition avc_SEI :: "num \<Rightarrow> avc_unit \<Rightarrow> unit ts" where
  "avc_SEI pts u d =
     (case sei_captions (un_data u) of
        Inl e \<Rightarrow> Inl e
      | Inr None \<Rightarrow> Inr ((), d)
      | Inr (Some bs) \<Rightarrow>
          Inr ((), d\<lparr>ts_txtSamples := insertSampleInOrder (ts_txtSamples d) \<lparr>tx_type = 3, tx_pts = pts, tx_bytes = bs\<rparr>\<rparr>))"

definition avc_SPS :: "avc_unit \<Rightarrow> unit ts" where
  "avc_SPS u d =
     (let tr = ts_avcTrack d in
      if vt_sps tr = None then
        (case readSPS (new_ExpGolomb (un_data u)) of
           Inl e \<Rightarrow> Inl e
         | Inr (config, _) \<Rightarrow>
             (case avc_codec (un_data u) of
                Inl e \<Rightarrow> Inl e
              | Inr codec \<Rightarrow>
                  Inr ((), d\<lparr>ts_avcTrack := tr\<lparr>vt_width := Some (sps_width config), vt_height := Some (sps_height config),
                    vt_pixelRatio := Some (sps_pixelRatio config), vt_sps := Some (un_data u),
                    vt_duration := ts_duration d, vt_codec := Some codec\<rparr>\<rparr>)))
      else Inr ((), d))"

definition avc_PPS :: "avc_unit \<Rightarrow> unit ts" where
  "avc_PPS u =
     modify (\<lambda>d. if vt_pps (ts_avcTrack d) = None
                 then d\<lparr>ts_avcTrack := (ts_avcTrack d)\<lparr>vt_pps := Some (un_data u)\<rparr>\<rparr> else d)"

text \<open>An access unit delimiter; without a current sample \<open>push_current\<close> pushes none.\<close>

definition avc_AUD :: "ts_env \<Rightarrow> num \<Rightarrow> num \<Rightarrow> unit ts" where
  "avc_AUD env pts dts =
     seq (modify (\<lambda>d. d\<lparr>ts_avcTrack := (ts_avcTrack d)\<lparr>vt_audFound := True\<rparr>\<rparr>))
         (push_current env (Some (createAVCSample False pts dts)))"

definition push_unit :: "avc_unit \<Rightarrow> unit ts" where
  "push_unit u = modify (update_sample (\<lambda>a. a\<lparr>av_units := av_units a @ [u]\<rparr>))"

text \<open>The body of the loop over the units; it returns \<open>spsfound\<close>.\<close>

definition avc_unit_step :: "ts_env \<Rightarrow> num \<Rightarrow> num \<Rightarrow> bool \<Rightarrow> avc_unit \<Rightarrow> bool ts" where
  "avc_unit_step env pts dts spsfound u =
     (if un_type u = 1 then seq (avc_NDR pts dts spsfound u) (seq (push_unit u) (ret spsfound))
      else if un_type u = 5 then seq (avc_IDR pts dts) (seq (push_unit u) (ret spsfound))
      else if un_type u = 6 then seq (avc_SEI pts u) (seq (push_unit u) (ret spsfound))
      else if un_type u = 7 then seq (avc_SPS u) (seq (push_unit u) (ret True))
      else if un_type u = 8 then seq (avc_PPS u) (seq (push_unit u) (ret spsfound))
      else if un_type u = 9 then seq (avc_AUD env pts dts) (ret spsfound)
      else ret spsfound)"

fun avc_units :: "ts_env \<Rightarrow> num \<Rightarrow> num \<Rightarrow> bool \<Rightarrow> avc_unit list \<Rightarrow> unit ts" where
  "avc_units env pts dts spsfound [] = ret ()"
| "avc_units env pts dts spsfound (u # us) =
     bnd (avc_unit_step env pts dts spsfound u) (\<lambda>sf. avc_units env pts dts sf us)"

definition parseAVCPES :: "ts_env \<Rightarrow> pes_packet \<Rightarrow> bool \<Rightarrow> unit ts" where
  "parseAVCPES env pes is_last =
     bnd (parseAVCNALu (pp_data pes)) (\<lambda>units.
     seq (\<lambda>d. if ts_avcSample d \<noteq> None \<and> units \<noteq> [] \<and> \<not> vt_audFound (ts_avcTrack d)
              then push_current env (Some (createAVCSample False (pp_pts pes) (pp_dts pes))) d else Inr ((), d))
    (seq (avc_units env (pp_pts pes) (pp_dts pes) False units)
         (\<lambda>d. if is_last \<and> ts_avcSample d \<noteq> None then push_current env None d else Inr ((), d))))"

end
