(* ===== verification/Sample_Aes.thy ===== *)
theory Sample_Aes
  imports Ts_Avc Aes_Cbc
begin

text \<open>
  The decrypter, \<open>src/crypt/decrypter.js\<close> (with \<open>fast-aes-key.js\<close> and \<open>aes-crypto.js\<close>), and SAMPLE-AES,
  \<open>src/demux/sample-aes.js\<close>. The browser's WebCrypto is an argument: \<open>import_key key\<close> tells whether
  \<open>importKey\<close> resolves, \<open>web key iv data\<close> is the value that \<open>decrypt\<close> resolves to, \<open>None\<close> when it
  rejects. A decryption ends in a list of calls of the callback, in order, with \<open>None\<close> for a call
  with \<open>undefined\<close>.
\<close>

subsection \<open>The decrypter\<close>

record decrypter =
  dc_disableWebCrypto :: bool
  dc_enableSoftwareAES :: bool
  dc_logEnabled :: bool
  dc_decryptor :: "aes_decryptor option"
  dc_key :: "bytes option"

definition new_Decrypter :: "bool \<Rightarrow> bool \<Rightarrow> decrypter" where
  "new_Decrypter subtle enableSoftwareAES =
     \<lparr>dc_disableWebCrypto = (\<not> subtle), dc_enableSoftwareAES = enableSoftwareAES, dc_logEnabled = True,
      dc_decryptor = None, dc_key = None\<rparr>"

definition isSync :: "decrypter \<Rightarrow> bool" where
  "isSync d \<longleftrightarrow> dc_disableWebCrypto d \<and> dc_enableSoftwareAES d"

definition software_decrypt :: "bytes \<Rightarrow> bytes \<Rightarrow> bytes \<Rightarrow> (decrypter, bytes) stm" where
  "software_decrypt data key iv d =
     (let decryptor = (case dc_decryptor d of None \<Rightarrow> new_AESDecryptor | Some a \<Rightarrow> a)
      in (case expandKey key decryptor of
            Inl e \<Rightarrow> Inl e
          | Inr decryptor \<Rightarrow>
              (case aes_decrypt data 0 iv decryptor of
                 Inl e \<Rightarrow> Inl e
               | Inr r \<Rightarrow> Inr (r, d\<lparr>dc_logEnabled := False, dc_decryptor := Some decryptor\<rparr>))))"

record callback_log =
  cl_calls :: "bytes option list"
  cl_events :: "error_event list"

text \<open>This file does not import the player's \<open>Event\<close> either: the name of the event is \<open>undefined\<close>.\<close>

definition decrypt_error :: error_event where
  "decrypt_error = \<lparr>ee_name = None, ee_type = MediaError, ee_details = ''fragDecryptError'', ee_fatal = True\<rparr>"

definition onWebCryptoError :: "bytes \<Rightarrow> bytes \<Rightarrow> bytes \<Rightarrow> (decrypter, callback_log) stm" where
  "onWebCryptoError data key iv d =
     (if dc_enableSoftwareAES d then
        bnd (software_decrypt data key iv) (\<lambda>r. ret \<lparr>cl_calls = [Some r], cl_events = []\<rparr>)
          (d\<lparr>dc_disableWebCrypto := True, dc_logEnabled := True\<rparr>)
      else Inr (\<lparr>cl_calls = [], cl_events = [decrypt_error]\<rparr>, d))"

text \<open>
  \<open>decrypt\<close>. The handler of a rejected decryption stands before the \<open>then\<close> that calls the callback, and
  so the callback is called again, with \<open>undefined\<close>, after the handler.
\<close>

definition decrypter_decrypt ::
  "(bytes \<Rightarrow> bool) \<Rightarrow> (bytes \<Rightarrow> bytes \<Rightarrow> bytes \<Rightarrow> bytes option) \<Rightarrow> bytes \<Rightarrow> bytes \<Rightarrow> bytes \<Rightarrow> (decrypter, callback_log) stm" where
  "decrypter_decrypt import_key web data key iv d =
     (if isSync d then bnd (software_decrypt data key iv) (\<lambda>r. ret \<lparr>cl_calls = [Some r], cl_events = []\<rparr>) d
      else
        let d = d\<lparr>dc_logEnabled := False, dc_key := Some key\<rparr>
        in if import_key key then
             (case web key iv data of
                Some r \<Rightarrow> Inr (\<lparr>cl_calls = [Some r], cl_events = []\<rparr>, d)
              | None \<Rightarrow> bnd (onWebCryptoError data key iv) (\<lambda>l. ret (l\<lparr>cl_calls := cl_calls l @ [None]\<rparr>)) d)
           else onWebCryptoError data key iv d)"

definition decrypter_destroy :: "decrypter \<Rightarrow> decrypter" where
  "decrypter_destroy d = d\<lparr>dc_decryptor := None\<rparr>"

subsection \<open>SAMPLE-AES\<close>

text \<open>
  The loops over samples and units, with the decryption of a buffer as an argument that calls its
  callback once: synchronously this is \<open>software_decrypt\<close>, and otherwise the callback goes on with the
  next sample.
\<close>

definition decryptAacSample :: "(bytes \<Rightarrow> ('c, bytes) stm) \<Rightarrow> bytes \<Rightarrow> ('c, bytes) stm" where
  "decryptAacSample dec unit0 =
     bnd (dec (subarray unit0 16 (int (length unit0) - int (length unit0) mod 16))) (\<lambda>decryptedData.
       if 16 + length decryptedData \<le> length unit0 then ret (set_at unit0 decryptedData 16) else throw range_error)"

fun decryptAacSamples :: "(bytes \<Rightarrow> ('c, bytes) stm) \<Rightarrow> media_sample list \<Rightarrow> ('c, media_sample list) stm" where
  "decryptAacSamples dec [] = ret []"
| "decryptAacSamples dec (s # ss) =
     bnd (if length (sm_unit s) < 32 then ret s
          else bnd (decryptAacSample dec (sm_unit s)) (\<lambda>u. ret (s\<lparr>sm_unit := u\<rparr>)))
       (\<lambda>s. bnd (decryptAacSamples dec ss) (\<lambda>ss. ret (s # ss)))"

text \<open>The block of 16 bytes in each 160 from offset 32: gathered, and put back.\<close>

function avc_gather :: "bytes \<Rightarrow> nat \<Rightarrow> bytes" where
  "avc_gather decodedData inputPos =
     (if inputPos + 16 \<le> length decodedData
      then take 16 (drop inputPos decodedData) @ avc_gather decodedData (inputPos + 160) else [])"
  by pat_completeness auto
termination by (relation "measure (\<lambda>(d, i). length d - i)") auto

declare avc_gather.simps [simp del]

text \<open>
  The array has \<open>floor ((length - 48) / 160) * 16 + 16\<close> bytes, which are as many as the loop writes for
  every length (the lemma \<open>slice_blocks_length\<close>).
\<close>

definition encryptedDataLen :: "bytes \<Rightarrow> int" where
  "encryptedDataLen decodedData = (int (length decodedData) - 48) div 160 * 16 + 16"

definition getAvcEncryptedData :: "bytes \<Rightarrow> bytes result" where
  "getAvcEncryptedData decodedData =
     (let blocks = avc_gather decodedData 32; n = encryptedDataLen decodedData
      in if n < 0 \<or> int (length blocks) > n then Inl range_error
         else Inr (blocks @ replicate (nat n - length blocks) 0))"

function getAvcDecryptedUnit :: "bytes \<Rightarrow> bytes \<Rightarrow> nat \<Rightarrow> bytes" where
  "getAvcDecryptedUnit decodedData decryptedData outputPos =
     (if outputPos + 16 \<le> length decodedData then
        getAvcDecryptedUnit (set_at decodedData (take 16 decryptedData) outputPos) (drop 16 decryptedData) (outputPos + 160)
      else decodedData)"
  by pat_completeness auto
termination
  by (relation "measure (\<lambda>(d, x, i). length d - i)") (auto simp: set_at_def)

declare getAvcDecryptedUnit.simps [simp del]

definition decryptAvcSample :: "(bytes \<Rightarrow> ('c, bytes) stm) \<Rightarrow> avc_unit \<Rightarrow> ('c, avc_unit) stm" where
  "decryptAvcSample dec u =
     (let decodedData = discardEPB (un_data u)
      in (case getAvcEncryptedData decodedData of
            Inl e \<Rightarrow> throw e
          | Inr encryptedData \<Rightarrow>
              bnd (dec encryptedData) (\<lambda>decryptedData.
                ret (u\<lparr>un_data := getAvcDecryptedUnit decodedData decryptedData 32\<rparr>))))"

text \<open>
  The guard \<open>curUnit.length <= 48\<close> reads a property that units do not have: it is \<open>undefined <= 48\<close>,
  which is false, and only the type is tested.
\<close>

fun decryptAvcUnits :: "(bytes \<Rightarrow> ('c, bytes) stm) \<Rightarrow> avc_unit list \<Rightarrow> ('c, avc_unit list) stm" where
  "decryptAvcUnits dec [] = ret []"
| "decryptAvcUnits dec (u # us) =
     bnd (if un_type u \<noteq> 1 \<and> un_type u \<noteq> 5 then ret u else decryptAvcSample dec u)
       (\<lambda>u. bnd (decryptAvcUnits dec us) (\<lambda>us. ret (u # us)))"

fun decryptAvcSamples :: "(bytes \<Rightarrow> ('c, bytes) stm) \<Rightarrow> avc_sample list \<Rightarrow> ('c, avc_sample list) stm" where
  "decryptAvcSamples dec [] = ret []"
| "decryptAvcSamples dec (a # as) =
     bnd (decryptAvcUnits dec (av_units a)) (\<lambda>us.
     bnd (decryptAvcSamples dec as) (\<lambda>as. ret (a\<lparr>av_units := us\<rparr> # as)))"

end
