(* ===== verification/Ts_Demuxer.thy ===== *)
theory Ts_Demuxer
  imports Ts_Avc Sample_Aes
begin

text \<open>
  The transport stream demuxer: audio packets and the loop over the packets of a fragment. \<open>append\<close>
  ends by handing the tracks to the remuxer, whose arguments are the tracks of the resulting state.
\<close>

subsection \<open>Audio\<close>

definition ts_error :: "bool \<Rightarrow> error_event" where
  "ts_error fatal = \<lparr>ee_name = Some ''hlsError'', ee_type = MediaError, ee_details = ''fragParsingError'', ee_fatal = fatal\<rparr>"

definition trigger :: "error_event list \<Rightarrow> unit ts" where
  "trigger evs = modify (\<lambda>d. d\<lparr>ts_events := ts_events d @ evs\<rparr>)"

text \<open>The search for the first header: the offset at which the loop stops.\<close>

function find_adts :: "bytes \<Rightarrow> nat \<Rightarrow> nat" where
  "find_adts data offset =
     (if offset + 1 < length data \<and> \<not> adts_isHeader data offset then find_adts data (offset + 1) else offset)"
  by pat_completeness auto
termination by (relation "measure (\<lambda>(data, offset). length data - offset)") auto

declare find_adts.simps [simp del]

text \<open>The scan for samples: the track, the offset where it stops and the last timestamp.\<close>

function aac_scan :: "bytes \<Rightarrow> num \<Rightarrow> nat \<Rightarrow> nat \<Rightarrow> num \<Rightarrow> audio_track \<Rightarrow> audio_track \<times> nat \<times> num" where
  "aac_scan data pts offset frameIndex stamp track =
     (if offset < length data then
        if adts_isHeader data offset \<and> offset + 5 < length data then
          (case adts_appendFrame track data offset pts frameIndex of
             Some r \<Rightarrow> aac_scan data pts (offset + fst (snd r)) (frameIndex + 1) (sm_pts (fst r)) (snd (snd r))
           | None \<Rightarrow> (track, offset, stamp))
        else aac_scan data pts (offset + 1) frameIndex stamp track
      else (track, offset, stamp))"
  by pat_completeness auto
termination
  by (relation "measure (\<lambda>(data, pts, offset, k, st, tr). length data - offset)") (auto dest: adts_appendFrame_length)

declare aac_scan.simps [simp del]

text \<open>The timestamp of the first sample: aligned when the last frame overflowed into this packet.\<close>

definition aligned_pts :: "bool \<Rightarrow> num \<Rightarrow> num \<Rightarrow> num \<Rightarrow> num" where
  "aligned_pts overflow aacLastPTS frameDuration pts =
     (if overflow \<and> aacLastPTS \<noteq> None \<and> aacLastPTS \<noteq> Some 0 then
        let newPTS = num_add aacLastPTS frameDuration
        in if num_less (Some 1) (map_option abs (num_sub newPTS pts)) then newPTS else pts
      else pts)"

definition parseAACPES :: "ts_env \<Rightarrow> pes_packet \<Rightarrow> unit ts" where
  "parseAACPES env pes d =
     (let data = (case ts_aacOverFlow d of None \<Rightarrow> pp_data pes | Some o1 \<Rightarrow> o1 @ pp_data pes);
          len = length data;
          offset = find_adts data 0;
          fatal = (\<not> offset + 1 < len);
          d = (if offset \<noteq> 0 then d\<lparr>ts_events := ts_events d @ [ts_error fatal]\<rparr> else d)
      in if offset \<noteq> 0 \<and> fatal then Inr ((), d)
         else
           (case initTrackConfig (te_userAgent env) (ts_audioTrack d) data offset (ts_audioCodec d) of
              (evs, Inl e) \<Rightarrow> Inl e
            | (evs, Inr track) \<Rightarrow>
                let frameDuration = getFrameDuration (au_samplerate track);
                    pts = aligned_pts (ts_aacOverFlow d \<noteq> None) (ts_aacLastPTS d) frameDuration (pp_pts pes);
                    (track, offset, stamp) = aac_scan data pts offset 0 None track
                in Inr ((), d\<lparr>ts_audioTrack := track,
                              ts_aacOverFlow := (if offset < len then Some (subarray data (int offset) (int len)) else None),
                              ts_aacLastPTS := stamp\<rparr>)))"

function mpeg_scan :: "bytes \<Rightarrow> num \<Rightarrow> nat \<Rightarrow> nat \<Rightarrow> audio_track \<Rightarrow> audio_track" where
  "mpeg_scan data pts offset frameIndex track =
     (if offset < length data then
        if mpeg_isHeader data offset then
          (case mpeg_appendFrame track data offset pts frameIndex of
             Some r \<Rightarrow> mpeg_scan data pts (offset + fst (snd r)) (frameIndex + 1) (snd (snd r))
           | None \<Rightarrow> track)
        else mpeg_scan data pts (offset + 1) frameIndex track
      else track)"
  by pat_completeness auto
termination
  by (relation "measure (\<lambda>(data, pts, offset, k, tr). length data - offset)") (auto dest: mpeg_appendFrame_length)

declare mpeg_scan.simps [simp del]

definition parseMPEGPES :: "pes_packet \<Rightarrow> unit ts" where
  "parseMPEGPES pes = modify (\<lambda>d. d\<lparr>ts_audioTrack := mpeg_scan (pp_data pes) (pp_pts pes) 0 0 (ts_audioTrack d)\<rparr>)"

definition parseAudioPES :: "ts_env \<Rightarrow> pes_packet \<Rightarrow> unit ts" where
  "parseAudioPES env pes d = (if au_isAAC (ts_audioTrack d) then parseAACPES env pes d else parseMPEGPES pes d)"

definition parseID3PES :: "pes_packet \<Rightarrow> unit ts" where
  "parseID3PES pes = modify (\<lambda>d. d\<lparr>ts_id3Track := (ts_id3Track d)\<lparr>it_samples := it_samples (ts_id3Track d) @ [pes]\<rparr>\<rparr>)"

subsection \<open>The packets of a fragment\<close>

text \<open>The local variables of \<open>append\<close> over the demuxer.\<close>

record ts_scan =
  tl_dem :: ts_demuxer
  tl_pmtParsed :: bool
  tl_unknownPIDs :: bool
  tl_avcId :: int
  tl_audioId :: int
  tl_id3Id :: int
  tl_pmtId :: int
  tl_avcData :: "pes_stream option"
  tl_audioData :: "pes_stream option"
  tl_id3Data :: "pes_stream option"

text \<open>
  \<open>if (data && (pes = parsePES(data))) parse(pes)\<close>: the demuxer, whether there was a packet, and the
  stream as \<open>parsePES\<close> leaves it.
\<close>

definition flush_pes ::
  "(pes_packet \<Rightarrow> unit ts) \<Rightarrow> pes_stream option \<Rightarrow> ts_demuxer \<Rightarrow> (ts_demuxer \<times> bool \<times> pes_stream option) result" where
  "flush_pes parse data d =
     (case data of
        None \<Rightarrow> Inr (d, False, None)
      | Some str \<Rightarrow>
          (case parsePES str of
             Inl e \<Rightarrow> Inl e
           | Inr (None, str) \<Rightarrow> Inr (d, False, Some str)
           | Inr (Some pes, str) \<Rightarrow>
               (case parse pes d of Inl e \<Rightarrow> Inl e | Inr (_, d) \<Rightarrow> Inr (d, True, Some str))))"

text \<open>The three branches for a known track: a unit start flushes the stream; the packet is added to it.\<close>

definition feed_pes ::
  "(pes_packet \<Rightarrow> unit ts) \<Rightarrow> bytes \<Rightarrow> nat \<Rightarrow> nat \<Rightarrow> bool \<Rightarrow> pes_stream option \<Rightarrow> ts_demuxer
    \<Rightarrow> (ts_demuxer \<times> pes_stream option) result" where
  "feed_pes parse data start offset stt str d =
     (case (if stt then map_sum id (\<lambda>r. (fst r, Some \<lparr>ps_data = [], ps_size = 0\<rparr>)) (flush_pes parse str d)
            else Inr (d, str)) of
        Inl e \<Rightarrow> Inl e
      | Inr (d, str) \<Rightarrow>
          Inr (d, map_option (\<lambda>s. s\<lparr>ps_data := ps_data s @ [subarray data (int offset) (int start + 188)],
                                     ps_size := ps_size s + (int start + 188 - int offset)\<rparr>) str))"

definition tl_set_dem :: "ts_demuxer \<Rightarrow> ts_scan \<Rightarrow> ts_scan" where
  "tl_set_dem d sc = sc\<lparr>tl_dem := d\<rparr>"

text \<open>A program map table: the track ids, and whether the fragment is read again from the beginning.\<close>

definition ts_pmt :: "ts_env \<Rightarrow> bytes \<Rightarrow> nat option \<Rightarrow> ts_scan \<Rightarrow> ts_scan \<times> bool" where
  "ts_pmt env data off sc =
     (let d = tl_dem sc;
          p = parsePMT data off (te_mpegSupported env) (ts_sampleAes d);
          d = (if pm_avc p > 0 then d\<lparr>ts_avcTrack := (ts_avcTrack d)\<lparr>vt_id := pm_avc p\<rparr>\<rparr> else d);
          d = (if pm_audio p > 0
               then d\<lparr>ts_audioTrack := (ts_audioTrack d)\<lparr>au_id := pm_audio p, au_isAAC := pm_isAAC p\<rparr>\<rparr> else d);
          d = (if pm_id3 p > 0 then d\<lparr>ts_id3Track := (ts_id3Track d)\<lparr>it_id := pm_id3 p\<rparr>\<rparr> else d);
          again = (tl_unknownPIDs sc \<and> \<not> tl_pmtParsed sc)
      in (sc\<lparr>tl_dem := d\<lparr>ts_pmtParsed := True\<rparr>, tl_avcId := pm_avc p, tl_audioId := pm_audio p, tl_id3Id := pm_id3 p,
             tl_unknownPIDs := (if again then False else tl_unknownPIDs sc), tl_pmtParsed := True\<rparr>, again))"

definition ts_payload :: "ts_env \<Rightarrow> bytes \<Rightarrow> nat \<Rightarrow> int \<Rightarrow> nat \<Rightarrow> bool \<Rightarrow> ts_scan \<Rightarrow> (ts_scan \<times> bool) result" where
  "ts_payload env data start pid offset stt sc =
     (let d = tl_dem sc in
      if pid = tl_avcId sc then
        map_sum id (\<lambda>r. (sc\<lparr>tl_dem := fst r, tl_avcData := snd r\<rparr>, False))
          (feed_pes (\<lambda>pes. parseAVCPES env pes False) data start offset stt (tl_avcData sc) d)
      else if pid = tl_audioId sc then
        map_sum id (\<lambda>r. (sc\<lparr>tl_dem := fst r, tl_audioData := snd r\<rparr>, False))
          (feed_pes (parseAudioPES env) data start offset stt (tl_audioData sc) d)
      else if pid = tl_id3Id sc then
        map_sum id (\<lambda>r. (sc\<lparr>tl_dem := fst r, tl_id3Data := snd r\<rparr>, False))
          (feed_pes parseID3PES data start offset stt (tl_id3Data sc) d)
      else if pid = 0 then
        let pmtId = parsePAT data (psi_offset data stt offset)
        in Inr (sc\<lparr>tl_pmtId := pmtId, tl_dem := d\<lparr>ts_pmtId := pmtId\<rparr>\<rparr>, False)
      else if pid = tl_pmtId sc then Inr (ts_pmt env data (psi_offset data stt offset) sc)
      else if pid = 17 \<or> pid = 0x1fff then Inr (sc, False)
      else Inr (sc\<lparr>tl_unknownPIDs := True\<rparr>, False))"

text \<open>The body of the loop on the packet at \<open>start\<close>; the flag says that \<open>start\<close> goes back to 0.\<close>

definition ts_packet :: "ts_env \<Rightarrow> bytes \<Rightarrow> nat \<Rightarrow> ts_scan \<Rightarrow> (ts_scan \<times> bool) result" where
  "ts_packet env data start sc =
     (if at_index data start = Some 0x47 then
        let stt = (js_and (byte data (start + 1)) 0x40 \<noteq> 0);
            pid = js_shl (js_and (byte data (start + 1)) 0x1f) 8 + byte data (start + 2);
            atf = js_shr (js_and (byte data (start + 3)) 0x30) 4;
            offset = (if atf > 1 then start + 5 + nat (byte data (start + 4)) else start + 4)
        in if atf > 1 \<and> offset = start + 188 then Inr (sc, False)
           else ts_payload env data start pid offset stt sc
      else Inr (sc\<lparr>tl_dem := (tl_dem sc)\<lparr>ts_events := ts_events (tl_dem sc) @ [ts_error False]\<rparr>\<rparr>, False))"

lemma map_sum_Inr_iff: "map_sum id f x = Inr y \<longleftrightarrow> (\<exists>z. x = Inr z \<and> y = f z)"
  by (cases x) auto

text \<open>A second reading starts only from a table that is the first: the loop ends.\<close>

lemma ts_packet_again:
  "ts_packet env data start sc = Inr (sc', True) \<Longrightarrow> \<not> tl_pmtParsed sc \<and> tl_pmtParsed sc'"
  by (auto simp: ts_packet_def ts_payload_def ts_pmt_def Let_def map_sum_Inr_iff split: if_splits)

lemma ts_packet_pmtParsed:
  "ts_packet env data start sc = Inr (sc', False) \<Longrightarrow> tl_pmtParsed sc \<Longrightarrow> tl_pmtParsed sc'"
  by (auto simp: ts_packet_def ts_payload_def ts_pmt_def Let_def map_sum_Inr_iff split: if_splits)

function ts_loop :: "ts_env \<Rightarrow> bytes \<Rightarrow> nat \<Rightarrow> nat \<Rightarrow> ts_scan \<Rightarrow> ts_scan result" where
  "ts_loop env data len start sc =
     (if start < len then
        (case ts_packet env data start sc of
           Inl e \<Rightarrow> Inl e
         | Inr (sc', again) \<Rightarrow> if again then ts_loop env data len 0 sc' else ts_loop env data len (start + 188) sc')
      else Inr sc)"
  by pat_completeness auto
termination
  by (relation "measures [\<lambda>(env, data, len, start, sc). if tl_pmtParsed sc then 0 else 1,
                          \<lambda>(env, data, len, start, sc). len - start]")
    (auto dest: ts_packet_again ts_packet_pmtParsed)

declare ts_loop.simps [simp del]

definition ts_append :: "ts_env \<Rightarrow> bytes \<Rightarrow> bool \<Rightarrow> ts_demuxer \<Rightarrow> ts_demuxer result" where
  "ts_append env data contiguous d =
     (let d = d\<lparr>ts_contiguous := contiguous\<rparr>;
          sc = \<lparr>tl_dem = d, tl_pmtParsed = ts_pmtParsed d, tl_unknownPIDs = False, tl_avcId = vt_id (ts_avcTrack d),
                tl_audioId = au_id (ts_audioTrack d), tl_id3Id = it_id (ts_id3Track d), tl_pmtId = ts_pmtId d,
                tl_avcData = vt_pesData (ts_avcTrack d), tl_audioData = ts_audioPesData d,
                tl_id3Data = it_pesData (ts_id3Track d)\<rparr>;
          len = length data - length data mod 188
      in (case ts_loop env data len 0 sc of
            Inl e \<Rightarrow> Inl e
          | Inr sc \<Rightarrow>
              (case flush_pes (\<lambda>pes. parseAVCPES env pes True) (tl_avcData sc) (tl_dem sc) of
                 Inl e \<Rightarrow> Inl e
               | Inr (d, parsed, str) \<Rightarrow>
                   let d = d\<lparr>ts_avcTrack := (ts_avcTrack d)\<lparr>vt_pesData := (if parsed then None else str)\<rparr>\<rparr>
                   in (case flush_pes (parseAudioPES env) (tl_audioData sc) d of
                         Inl e \<Rightarrow> Inl e
                       | Inr (d, parsed, str) \<Rightarrow>
                           let d = d\<lparr>ts_audioPesData := (if parsed then None else str)\<rparr>
                           in (case flush_pes parseID3PES (tl_id3Data sc) d of
                                 Inl e \<Rightarrow> Inl e
                               | Inr (d, parsed, str) \<Rightarrow>
                                   Inr (d\<lparr>ts_id3Track := (ts_id3Track d)\<lparr>it_pesData := (if parsed then None else str)\<rparr>\<rparr>))))))"

definition ts_probe :: "bytes \<Rightarrow> bool" where
  "ts_probe data \<longleftrightarrow>
     length data \<ge> 3 * 188 \<and> at_index data 0 = Some 0x47 \<and> at_index data 188 = Some 0x47
     \<and> at_index data (2 * 188) = Some 0x47"

definition ts_destroy :: "ts_demuxer \<Rightarrow> ts_demuxer" where
  "ts_destroy d = d\<lparr>ts_duration := Some 0\<rparr>"

subsection \<open>Decryption before remuxing\<close>

text \<open>What \<open>setDecryptData\<close> reads of its argument; \<open>None\<close> for \<open>null\<close> and \<open>undefined\<close>.\<close>

record decryptdata =
  dd_method :: string
  dd_key :: "bytes option"
  dd_iv :: bytes

definition setDecryptData :: "decryptdata option \<Rightarrow> ts_demuxer \<Rightarrow> ts_demuxer" where
  "setDecryptData dd d =
     d\<lparr>ts_sampleAes := (case dd of None \<Rightarrow> False | Some x \<Rightarrow> dd_key x \<noteq> None \<and> dd_method x = ''SAMPLE-AES'')\<rparr>"

definition decryptAndRemuxAvc :: "(bytes \<Rightarrow> ('c, bytes) stm) \<Rightarrow> ts_demuxer \<Rightarrow> ('c, ts_demuxer) stm" where
  "decryptAndRemuxAvc dec d =
     bnd (decryptAvcSamples dec (vt_samples (ts_avcTrack d))) (\<lambda>ss.
       ret (d\<lparr>ts_avcTrack := (ts_avcTrack d)\<lparr>vt_samples := ss\<rparr>\<rparr>))"

text \<open>The tracks that are handed to the remuxer after the decryption of their samples.\<close>

definition decryptAndRemux :: "(bytes \<Rightarrow> ('c, bytes) stm) \<Rightarrow> ts_demuxer \<Rightarrow> ('c, ts_demuxer) stm" where
  "decryptAndRemux dec d =
     (if au_isAAC (ts_audioTrack d) then
        bnd (decryptAacSamples dec (au_samples (ts_audioTrack d))) (\<lambda>ss.
          decryptAndRemuxAvc dec (d\<lparr>ts_audioTrack := (ts_audioTrack d)\<lparr>au_samples := ss\<rparr>\<rparr>))
      else decryptAndRemuxAvc dec d)"

end
