(* ===== verification/Ts_Nal.thy ===== *)
theory Ts_Nal
  imports Ts_Demuxer
begin

text \<open>
  NAL units in packets: emulation prevention bytes are removed exactly, and the scan for start codes
  cuts a packet into its units.
\<close>

section \<open>Emulation prevention\<close>

text \<open>The encoder of H.264: after two zero bytes, a byte of at most 3 is preceded by a 3.\<close>

fun epb_escape :: "nat \<Rightarrow> bytes \<Rightarrow> bytes" where
  "epb_escape z [] = []"
| "epb_escape z (x # xs) =
     (if z = 2 \<and> uint x \<le> 3 then 3 # x # epb_escape (if x = 0 then 1 else 0) xs
      else x # epb_escape (if x = 0 then z + 1 else 0) xs)"

fun epb_strip :: "bytes \<Rightarrow> bytes" where
  "epb_strip (a # b # c # xs) = (if a = 0 \<and> b = 0 \<and> c = 3 then a # b # epb_strip xs else a # epb_strip (b # c # xs))"
| "epb_strip xs = xs"

lemma epb_strip_nonzero: "x \<noteq> 0 \<Longrightarrow> epb_strip (x # xs) = x # epb_strip xs"
  by (cases xs rule: epb_strip.cases) auto

lemma epb_strip_second: "y \<noteq> 0 \<Longrightarrow> epb_strip (x # y # xs) = x # epb_strip (y # xs)"
  by (cases xs) auto

lemma strip_escape_zeros: "z \<le> 2 \<Longrightarrow> epb_strip (replicate z 0 @ epb_escape z xs) = replicate z 0 @ xs"
proof (induction xs arbitrary: z)
  case Nil
  then have "z = 0 \<or> z = 1 \<or> z = 2" by auto
  then show ?case by (auto simp: eval_nat_numeral)
next
  case (Cons x xs)
  have nz: "epb_strip (x # epb_escape 0 xs) = x # xs" if "x \<noteq> 0"
    using that Cons.IH [of 0] by (simp add: epb_strip_nonzero)
  have zero: "epb_strip (0 # epb_escape 1 xs) = 0 # xs" using Cons.IH [of 1] by simp
  have two: "epb_strip (0 # 0 # epb_escape 2 xs) = 0 # 0 # xs" using Cons.IH [of 2] by (simp add: eval_nat_numeral)
  consider "z = 0" | "z = 1" | "z = 2" using Cons.prems by linarith
  then show ?case
  proof cases
    case 1
    then show ?thesis using nz zero by (cases "x = 0") auto
  next
    case 2
    then show ?thesis using nz two by (cases "x = 0") (auto simp: epb_strip_second eval_nat_numeral)
  next
    case 3
    then have r: "replicate z 0 = [0, 0 :: u8]" by (simp add: eval_nat_numeral)
    have big: "x \<noteq> 0" "x \<noteq> 3" if "\<not> uint x \<le> 3" using that by auto
    show ?thesis
    proof (cases "uint x \<le> 3")
      case True
      then show ?thesis using 3 nz zero r by (cases "x = 0") auto
    next
      case False
      then have "epb_strip (0 # 0 # x # epb_escape 0 xs) = 0 # 0 # x # xs"
        using nz big by (auto simp: epb_strip_second)
      then show ?thesis using 3 False big r by simp
    qed
  qed
qed

lemma strip_escape: "epb_strip (epb_escape 0 xs) = xs"
  using strip_escape_zeros [of 0 xs] by simp

lemma epb_positions_ge: "p \<in> set (epb_positions data i) \<Longrightarrow> i + 2 \<le> p"
proof (induction data i rule: epb_positions.induct)
  case (1 data i)
  then show ?case by (subst (asm) (3) epb_positions.simps) (auto split: if_splits)
qed

lemma length_epb_positions: "length (epb_positions data i) + i \<le> max i (length data)"
proof (induction data i rule: epb_positions.induct)
  case (1 data i)
  then show ?case by (subst epb_positions.simps) auto
qed

lemma u8of_byte: "i < length d \<Longrightarrow> u8of (byte d i) = d ! i"
  by (simp add: u8of_def byte_def)

lemma epb_copy_step:
  assumes "pos = [] \<or> hd pos \<noteq> src" and "src < length data"
  shows "epb_copy data (Suc n) src pos = data ! src # epb_copy data n (src + 1) pos"
  using assms by (cases pos) (auto simp: u8of_byte)

lemma epb_copy_skip:
  assumes "pos = [] \<or> hd pos \<noteq> src + 1"
  shows "epb_copy data n src (src # pos) = epb_copy data n (src + 1) pos"
  using assms by (cases n; cases pos) auto

lemma positions_hd: "epb_positions data i = [] \<or> i + 2 \<le> hd (epb_positions data i)"
  using epb_positions_ge [of "hd (epb_positions data i)" data i] by (cases "epb_positions data i") auto

lemma drop_3: "i + 2 < length d \<Longrightarrow> drop i d = d ! i # d ! (i + 1) # d ! (i + 2) # drop (i + 3) d"
  using Cons_nth_drop_Suc [of i d] Cons_nth_drop_Suc [of "Suc i" d] Cons_nth_drop_Suc [of "Suc (Suc i)" d]
  by (simp add: eval_nat_numeral)

lemma positions_end: "\<not> i + 2 < length d \<Longrightarrow> epb_positions d i = []"
  by (subst epb_positions.simps) simp

lemma positions_next: "i < length d \<Longrightarrow> d ! i \<noteq> 0 \<Longrightarrow> epb_positions d i = epb_positions d (i + 1)"
  using positions_end [of i d] positions_end [of "i + 1" d] epb_positions.simps [of d i] by (cases "i + 2 < length d") auto

lemma epb_copy_all: "i \<le> length d \<Longrightarrow> epb_copy d (length d - i) i [] = drop i d"
proof (induction "length d - i" arbitrary: i)
  case (Suc n)
  then have "i < length d" "epb_copy d (length d - (i + 1)) (i + 1) [] = drop (i + 1) d" by (simp_all add: Suc.hyps(1))
  moreover have "length d - i = Suc (length d - (i + 1))" using \<open>i < length d\<close> by simp
  ultimately show ?case by (simp add: u8of_byte Cons_nth_drop_Suc)
qed simp

lemma epb_copy_strip:
  "i \<le> length data \<Longrightarrow>
   epb_copy data (length data - i - length (epb_positions data i)) i (epb_positions data i) = epb_strip (drop i data)"
proof (induction "length data - i" arbitrary: i rule: less_induct)
  case less
  show ?case
  proof (cases "i + 2 < length data")
    case False
    then have "length (drop i data) \<le> 2" by simp
    then have "epb_strip (drop i data) = drop i data" by (cases "drop i data" rule: epb_strip.cases) auto
    then show ?thesis using positions_end [OF False] epb_copy_all [OF less.prems] by simp
  next
    case True
    note d = drop_3 [OF True]
    show ?thesis
    proof (cases "data ! i = 0 \<and> data ! (i + 1) = 0 \<and> data ! (i + 2) = 3")
      case m: True
      have next3: "epb_positions data (i + 2) = epb_positions data (i + 3)"
      proof -
        have "(3 :: u8) \<noteq> 0" by simp
        then show ?thesis using m positions_next [of "i + 2" data] True by (simp add: numeral_3_eq_3)
      qed
      let ?q = "epb_positions data (i + 3)"
      have p: "epb_positions data i = (i + 2) # ?q"
        using True m next3 by (subst epb_positions.simps) simp
      have l: "length ?q + (i + 3) \<le> length data"
        using length_epb_positions [of data "i + 3"] True by simp
      then have n: "length data - i - length ((i + 2) # ?q) = Suc (Suc (length data - (i + 3) - length ?q))" by simp
      have "epb_copy data (length data - i - length ((i + 2) # ?q)) i ((i + 2) # ?q)
          = data ! i # data ! (i + 1) # epb_copy data (length data - (i + 3) - length ?q) (i + 2) ((i + 2) # ?q)"
        unfolding n using True by (subst epb_copy_step, simp, simp, subst epb_copy_step) (simp_all add: eval_nat_numeral)
      also have "epb_copy data (length data - (i + 3) - length ?q) (i + 2) ((i + 2) # ?q)
          = epb_copy data (length data - (i + 3) - length ?q) (i + 3) ?q"
        using positions_hd [of data "i + 3"] by (subst epb_copy_skip) (auto simp: eval_nat_numeral)
      also have "\<dots> = epb_strip (drop (i + 3) data)"
        using True by (intro less.hyps) simp_all
      finally show ?thesis using p d m by simp
    next
      case m: False
      let ?q = "epb_positions data (i + 1)"
      have p: "epb_positions data i = ?q" using True m by (subst epb_positions.simps) auto
      have l: "length ?q + (i + 1) \<le> length data" using length_epb_positions [of data "i + 1"] True by simp
      then have n: "length data - i - length ?q = Suc (length data - (i + 1) - length ?q)" by simp
      have "epb_copy data (length data - i - length ?q) i ?q = data ! i # epb_copy data (length data - (i + 1) - length ?q) (i + 1) ?q"
        unfolding n using positions_hd [of data "i + 1"] True by (intro epb_copy_step) auto
      also have "epb_copy data (length data - (i + 1) - length ?q) (i + 1) ?q = epb_strip (drop (i + 1) data)"
        using True by (intro less.hyps) simp_all
      finally show ?thesis using p d m Cons_nth_drop_Suc [of i data] True by auto
    qed
  qed
qed

lemma discardEPB_strip: "discardEPB (b # xs) = b # epb_strip xs"
proof -
  let ?d = "b # xs" and ?q = "epb_positions (b # xs) 1"
  have s: "epb_copy ?d (length ?d - 1 - length ?q) 1 ?q = epb_strip xs"
    using epb_copy_strip [of 1 ?d] by simp
  have l: "length ?q + 1 \<le> length ?d" using length_epb_positions [of ?d 1] by simp
  show ?thesis
  proof (cases "?q = []")
    case True
    then have "epb_strip xs = xs" using s epb_copy_all [of 1 ?d] by simp
    then show ?thesis using True by (simp add: discardEPB_def)
  next
    case False
    have "epb_copy ?d (Suc (length ?d - 1 - length ?q)) 0 ?q = ?d ! 0 # epb_copy ?d (length ?d - 1 - length ?q) (0 + 1) ?q"
      using positions_hd [of ?d 1] by (intro epb_copy_step) auto
    moreover have "Suc (length ?d - 1 - length ?q) = length ?d - length ?q" using l by simp
    ultimately have "epb_copy ?d (length ?d - length ?q) 0 ?q = b # epb_strip xs" using s by (simp del: epb_copy.simps)
    then show ?thesis using False by (simp add: discardEPB_def del: epb_copy.simps)
  qed
qed

section \<open>Start codes\<close>

text \<open>The states of the scan between start codes: how many zero bytes were read, up to three.\<close>

definition zstep :: "int \<Rightarrow> u8 \<Rightarrow> int" where
  "zstep s v = (if v \<noteq> 0 then 0 else if s = 0 then 1 else if s = 1 then 2 else 3)"

fun no_start_code :: "int \<Rightarrow> bytes \<Rightarrow> bool" where
  "no_start_code s [] = True"
| "no_start_code s (v # vs) = (\<not> (s \<ge> 2 \<and> v = 1) \<and> no_start_code (zstep s v) vs)"

definition zrun :: "int \<Rightarrow> bytes \<Rightarrow> int" where
  "zrun s vs = foldl zstep s vs"

lemma zstep_range: "s \<in> {0, 1, 2, 3} \<Longrightarrow> zstep s v \<in> {0, 1, 2, 3}"
  by (auto simp: zstep_def)

lemma zrun_last: "vs \<noteq> [] \<Longrightarrow> last vs \<noteq> 0 \<Longrightarrow> zrun s vs = 0"
  by (cases vs rule: rev_cases) (auto simp: zrun_def zstep_def)

lemma byte_nth: "byte (pre @ v # rest) (length pre) = uint v"
  by (simp add: byte_def)

lemma nal_step_plain:
  assumes "ns_state sc \<in> {0, 1, 2, 3}" and "\<not> (ns_state sc \<ge> 2 \<and> v = 1)"
  shows "nal_step array ls (uint v) i sc = sc\<lparr>ns_state := zstep (ns_state sc) v\<rparr>"
proof -
  have "uint v = 1 \<longleftrightarrow> v = 1" by (metis uint_1 word_uint_eqI)
  moreover have "uint v = 0 \<longleftrightarrow> v = 0" by (simp add: uint_0_iff)
  ultimately show ?thesis using assms by (auto simp: nal_step_def zstep_def)
qed

lemma nal_loop_unfold:
  "nal_loop (pre @ v # rest) ls (length pre) sc
   = nal_loop (pre @ v # rest) ls (length pre + 1) (nal_step (pre @ v # rest) ls (uint v) (length pre + 1) sc)"
  by (subst nal_loop.simps) (simp add: byte_nth)

text \<open>Bytes without a start code only move the state.\<close>

lemma nal_loop_plain:
  "ns_state sc \<in> {0, 1, 2, 3} \<Longrightarrow> no_start_code (ns_state sc) vs \<Longrightarrow>
   nal_loop (pre @ vs @ rest) ls (length pre) sc
     = nal_loop (pre @ vs @ rest) ls (length pre + length vs) (sc\<lparr>ns_state := zrun (ns_state sc) vs\<rparr>)"
proof (induction vs arbitrary: pre sc)
  case Nil
  then show ?case by (simp add: zrun_def)
next
  case (Cons v vs)
  have "nal_loop (pre @ (v # vs) @ rest) ls (length pre) sc
      = nal_loop ((pre @ [v]) @ vs @ rest) ls (length (pre @ [v])) (sc\<lparr>ns_state := zstep (ns_state sc) v\<rparr>)"
    using nal_loop_unfold [of pre v "vs @ rest" ls sc] nal_step_plain Cons.prems by simp
  also have "\<dots> = nal_loop ((pre @ [v]) @ vs @ rest) ls (length (pre @ [v]) + length vs)
      (sc\<lparr>ns_state := zrun (zstep (ns_state sc) v) vs\<rparr>)"
    using Cons.IH [of "sc\<lparr>ns_state := zstep (ns_state sc) v\<rparr>" "pre @ [v]"] Cons.prems zstep_range by simp
  finally show ?case by (simp add: zrun_def)
qed

text \<open>A start code of three or four bytes before a byte, from state 0.\<close>

definition start_code :: "bool \<Rightarrow> bytes" where
  "start_code long = (if long then [0, 0, 0, 1] else [0, 0, 1])"

lemma nal_loop_start_code:
  assumes "ns_state sc = 0"
  shows "nal_loop (pre @ start_code long @ v # rest) ls (length pre) sc
    = nal_loop (pre @ start_code long @ v # rest) ls (length (pre @ start_code long))
        (nal_start_code (pre @ start_code long @ v # rest) ls (length (pre @ start_code long))
          (sc\<lparr>ns_state := (if long then 3 else 2)\<rparr>))"
proof -
  let ?z = "butlast (start_code long)"
  let ?sc = "sc\<lparr>ns_state := (if long then 3 else 2)\<rparr>"
  have split: "start_code long @ v # rest = ?z @ 1 # v # rest" by (simp add: start_code_def)
  have z: "no_start_code (ns_state sc) ?z" "zrun (ns_state sc) ?z = (if long then 3 else 2)"
    using assms by (simp_all add: start_code_def zstep_def zrun_def)
  have "nal_loop (pre @ start_code long @ v # rest) ls (length pre) sc
      = nal_loop ((pre @ ?z) @ 1 # v # rest) ls (length (pre @ ?z)) ?sc"
    unfolding split using nal_loop_plain [of sc ?z pre "1 # v # rest" ls] assms z by simp
  also have "\<dots> = nal_loop ((pre @ ?z) @ 1 # v # rest) ls (length (pre @ ?z) + 1)
      (nal_step ((pre @ ?z) @ 1 # v # rest) ls (uint (1 :: u8)) (length (pre @ ?z) + 1) ?sc)"
    by (rule nal_loop_unfold)
  also have "length (pre @ ?z) + 1 = length (pre @ start_code long)" by (simp add: start_code_def)
  also have "nal_step ((pre @ ?z) @ 1 # v # rest) ls (uint (1 :: u8)) (length (pre @ start_code long)) ?sc
      = nal_start_code ((pre @ ?z) @ 1 # v # rest) ls (length (pre @ start_code long)) ?sc"
    by (simp add: nal_step_def)
  finally show ?thesis unfolding split by simp
qed

text \<open>A NAL unit as the encoder leaves it: no start code inside, and not ending in a zero byte.\<close>

definition nal_ok :: "bytes \<Rightarrow> bool" where
  "nal_ok u \<longleftrightarrow> u \<noteq> [] \<and> last u \<noteq> 0 \<and> no_start_code 0 u"

definition nal_type :: "bytes \<Rightarrow> int" where
  "nal_type u = js_and (byte u 0) 0x1f"

definition nal_unit :: "bytes \<Rightarrow> int option \<Rightarrow> avc_unit" where
  "nal_unit u st = \<lparr>un_data = u, un_type = nal_type u, un_state = st\<rparr>"

definition annex_b :: "(bool \<times> bytes) list \<Rightarrow> bytes" where
  "annex_b us = concat (map (\<lambda>(long, u). start_code long @ u) us)"

text \<open>From inside a unit \<open>u\<close> that began at \<open>length pre\<close>: the rest of the packet.\<close>

lemma nal_loop_units:
  assumes "ns_state sc = 0" and "nal_ok u" and "(\<forall>lu \<in> set us. nal_ok (snd lu))"
    and "ns_lastUnitStart sc = int (length pre)" and "ns_lastUnitType sc = nal_type u"
    and "array = pre @ u @ annex_b us"
  shows "nal_loop array ls (length pre) sc =
    sc\<lparr>ns_units := ns_units sc @ butlast (map (\<lambda>u. nal_unit u None) (u # map snd us)),
       ns_lastUnitStart := int (length array) - int (length (last (u # map snd us))),
       ns_lastUnitType := nal_type (last (u # map snd us))\<rparr>"
  using assms
proof (induction us arbitrary: sc u pre)
  case Nil
  have "nal_loop array ls (length pre) sc = nal_loop array ls (length array) (sc\<lparr>ns_state := zrun 0 u\<rparr>)"
    using nal_loop_plain [of sc u pre "[]" ls] Nil by (simp add: nal_ok_def annex_b_def)
  also have "\<dots> = sc" using Nil zrun_last [of u 0] by (subst nal_loop.simps) (simp add: nal_ok_def)
  finally show ?case using Nil by (simp add: annex_b_def)
next
  case (Cons lu us)
  obtain long w where lu: "lu = (long, w)" by (cases lu) auto
  have w: "nal_ok w" "(\<forall>lu \<in> set us. nal_ok (snd lu))" using Cons.prems(3) by (simp_all add: lu)
  then obtain v w' where vw: "w = v # w'" by (cases w) (auto simp: nal_ok_def)
  let ?pre = "pre @ u @ start_code long"
  let ?sc = "sc\<lparr>ns_units := ns_units sc @ [nal_unit u None], ns_lastUnitStart := int (length ?pre),
    ns_lastUnitType := nal_type w, ns_state := 0\<rparr>"
  have arr: "array = (pre @ u) @ start_code long @ v # (w' @ annex_b us)" "array = ?pre @ w @ annex_b us"
    using Cons.prems(6) by (simp_all add: lu vw annex_b_def)
  have "nal_loop array ls (length pre) sc = nal_loop array ls (length (pre @ u)) (sc\<lparr>ns_state := zrun 0 u\<rparr>)"
    using nal_loop_plain [of sc u pre "start_code long @ v # w' @ annex_b us" ls] Cons.prems(1,2) arr(1) by (simp add: nal_ok_def)
  also have "sc\<lparr>ns_state := zrun 0 u\<rparr> = sc" using Cons.prems(1,2) zrun_last [of u 0] by (simp add: nal_ok_def)
  also have "nal_loop array ls (length (pre @ u)) sc
      = nal_loop array ls (length ?pre) (nal_start_code array ls (length ?pre) (sc\<lparr>ns_state := (if long then 3 else 2)\<rparr>))"
    using nal_loop_start_code [OF Cons.prems(1), of "pre @ u" long v "w' @ annex_b us" ls] unfolding arr(1) by simp
  also have "nal_start_code array ls (length ?pre) (sc\<lparr>ns_state := (if long then 3 else 2)\<rparr>) = ?sc"
  proof -
    have "int (length ?pre) - (if long then 3 else 2) - 1 = int (length (pre @ u))" by (simp add: start_code_def)
    moreover have "subarray array (int (length pre)) (int (length (pre @ u))) = u"
      by (subst subarray_nat) (simp_all add: arr)
    ultimately have sub: "subarray array (int (length pre)) (int (length ?pre) - (if long then 3 else 2) - 1) = u"
      by (simp only:)
    have t: "byte array (length ?pre) = byte w 0" "length ?pre < length array"
      using arr byte_nth [of ?pre v "w' @ annex_b us"] by (simp_all add: vw byte_def)
    show ?thesis
      using Cons.prems(4,5) sub t by (simp add: nal_start_code_def Let_def nal_unit_def nal_type_def del: length_append)
  qed
  also have "nal_loop array ls (length ?pre) ?sc = ?sc\<lparr>ns_units := ns_units ?sc @ butlast (map (\<lambda>u. nal_unit u None) (w # map snd us)),
       ns_lastUnitStart := int (length array) - int (length (last (w # map snd us))),
       ns_lastUnitType := nal_type (last (w # map snd us))\<rparr>"
    by (rule Cons.IH [of ?sc w ?pre]) (use w arr(2) in simp_all)
  finally show ?case using Cons.prems(1) by (cases sc) (simp add: lu)
qed


lemma update_last_id: "(\<And>x. f x = x) \<Longrightarrow> update_last f xs = xs"
  by (induction f xs rule: update_last.induct) auto

lemma nal_overflow_start: "nal_overflow array 0 i (i - 1) u = u"
  by (simp add: nal_overflow_def Let_def)

lemma updateLastNalUnit_id: "(\<And>u. f u = u) \<Longrightarrow> updateLastNalUnit f d = d"
  by (cases "ts_avcSample d") (simp_all add: updateLastNalUnit_def Let_def update_last_id)

text \<open>A packet that begins with a start code, after one that ended outside a start code.\<close>

lemma parseAVCNALu_annex_b:
  assumes "us \<noteq> []" and "(\<forall>lu \<in> set us. nal_ok (snd lu))" and "vt_naluState (ts_avcTrack d) = 0"
  shows "parseAVCNALu (annex_b us) d =
    Inr (map (\<lambda>u. nal_unit u None) (butlast (map snd us)) @ [nal_unit (last (map snd us)) (Some 0)], d)"
proof -
  obtain long u us' where us: "us = (long, u) # us'" using assms(1) by (cases us) auto
  then have ok: "nal_ok u" "(\<forall>lu \<in> set us'. nal_ok (snd lu))" using assms(2) by (simp_all add: comp_def)
  then obtain v u' where u: "u = v # u'" by (cases u) (auto simp: nal_ok_def)
  let ?a = "annex_b us"
  have a: "?a = [] @ start_code long @ v # (u' @ annex_b us')" "?a = start_code long @ u @ annex_b us'"
    by (simp_all add: us u annex_b_def)
  let ?sc0 = "\<lparr>ns_state = 0, ns_units = [], ns_lastUnitStart = - 1, ns_lastUnitType = 0, ns_dem = d\<rparr>"
  let ?sc1 = "?sc0\<lparr>ns_lastUnitStart := int (length (start_code long)), ns_lastUnitType := nal_type u\<rparr>"
  have step: "nal_start_code ?a 0 (length (start_code long)) (?sc0\<lparr>ns_state := (if long then 3 else 2)\<rparr>) = ?sc1"
  proof -
    have "updateLastNalUnit (nal_overflow ?a 0 (int (length (start_code long))) (if long then 3 else 2)) d = d"
      using nal_overflow_start [of ?a "int (length (start_code long))"]
      by (intro updateLastNalUnit_id) (cases long; simp add: start_code_def)
    moreover have "byte ?a (length (start_code long)) = byte u 0" "length (start_code long) < length ?a"
      using a byte_nth [of "start_code long" v "u' @ annex_b us'"] by (simp_all add: u byte_def)
    ultimately show ?thesis by (simp add: nal_start_code_def Let_def nal_type_def)
  qed
  have "nal_loop ?a 0 0 ?sc0 = nal_loop ?a 0 (length (start_code long)) ?sc1"
    using nal_loop_start_code [of ?sc0 "[]" long v "u' @ annex_b us'" 0] step unfolding a(1) by simp
  also have "\<dots> = ?sc1\<lparr>ns_units := butlast (map (\<lambda>u. nal_unit u None) (u # map snd us')),
       ns_lastUnitStart := int (length ?a) - int (length (last (u # map snd us'))),
       ns_lastUnitType := nal_type (last (u # map snd us'))\<rparr>"
    using nal_loop_units [of ?sc1 u us' "start_code long" ?a 0] ok a(2) by simp
  finally have loop: "nal_loop ?a 0 0 ?sc0 = \<dots>" .
  let ?w = "last (map snd us)"
  have w: "?w = last (u # map snd us')" by (simp add: us)
  have "\<exists>pre. ?a = pre @ ?w" unfolding annex_b_def
    using assms(1) by (cases us rule: rev_cases) (auto simp: split_def)
  then obtain pre where pre: "?a = pre @ ?w" by blast
  have "subarray ?a (int (length ?a) - int (length ?w)) (int (length ?a)) = ?w"
    using subarray_nat [of "length pre" "length ?a" ?a] by (simp add: pre)
  moreover have "int (length ?w) \<le> int (length ?a)" by (simp add: pre)
  moreover have "d\<lparr>ts_avcTrack := (ts_avcTrack d)\<lparr>vt_naluState := 0\<rparr>\<rparr> = d"
  proof -
    have "(ts_avcTrack d)\<lparr>vt_naluState := 0\<rparr> = ts_avcTrack d" using assms(3) by (cases "ts_avcTrack d") simp
    then show ?thesis by simp
  qed
  ultimately show ?thesis
    unfolding parseAVCNALu_def Let_def assms(3) using loop
    by (simp add: w [symmetric] nal_unit_def map_butlast us split: if_splits)
qed

end
