(* ===== verification/Ts_Packets.thy ===== *)
theory Ts_Packets
  imports Ts_Demuxer
begin

text \<open>
  Packetized elementary streams: the header of ISO 13818-1 with its 33-bit timestamps, and that a
  packet is put together from its chunks, however it was cut.
\<close>

subsection \<open>Reassembly\<close>

lemma pes_merge_concat: "concat (pes_merge ds) = concat ds"
  by (induction ds rule: pes_merge.induct) auto

lemma pes_merge_Nil [simp]: "pes_merge ds = [] \<longleftrightarrow> ds = []"
  by (induction ds rule: pes_merge.induct) auto

text \<open>After merging, the first chunk has 19 bytes or it is the only one.\<close>

lemma pes_merge_hd: "pes_merge ds = frag # fs \<Longrightarrow> 19 \<le> length frag \<or> fs = []"
  by (induction ds rule: pes_merge.induct) (auto split: if_splits)

lemma pes_copy_concat:
  "off \<le> length (concat ds) \<Longrightarrow> i + (length (concat ds) - off) = length buf \<Longrightarrow>
   pes_copy off ds i buf = Inr (take i buf @ drop off (concat ds))"
proof (induction off ds i buf rule: pes_copy.induct)
  case (2 off frag fs i buf)
  show ?case
  proof (cases "off > length frag")
    case True
    then show ?thesis using 2 by (simp add: Let_def)
  next
    case False
    let ?f = "drop off frag"
    have l: "i + length ?f \<le> length buf" using 2(3,4) False by simp
    have "pes_copy 0 fs (i + length ?f) (set_at buf ?f i)
        = Inr (take (i + length ?f) (set_at buf ?f i) @ drop 0 (concat fs))"
      using 2(3,4) False l by (intro 2(2) [OF False refl l]) (simp_all add: length_set_at)
    moreover have "take (i + length ?f) (set_at buf ?f i) = take i buf @ ?f"
      using l by (simp add: set_at_def)
    ultimately show ?thesis using False l by (simp add: Let_def)
  qed
qed simp

subsection \<open>Timestamps\<close>

text \<open>The five bytes of a timestamp \<open>t\<close>, with the four bits of its prefix and the marker bits.\<close>

definition stamp_bytes :: "int \<Rightarrow> int \<Rightarrow> bytes" where
  "stamp_bytes prefix t =
     [u8of (prefix * 16 + t div 2 ^ 30 mod 8 * 2 + 1), u8of (t div 2 ^ 22 mod 256), u8of (t div 2 ^ 15 mod 128 * 2 + 1),
      u8of (t div 2 ^ 7 mod 256), u8of (t mod 128 * 2 + 1)]"

definition signed33 :: "int \<Rightarrow> int" where
  "signed33 t = (if t > 4294967295 then t - 8589934592 else t)"

lemma uint_u8of: "0 \<le> x \<Longrightarrow> x < 256 \<Longrightarrow> uint (u8of x) = x"
  by (simp add: u8of_def uint_word_of_int)

lemma js_and_even_mask:
  assumes "0 \<le> x" and "x < 2147483648" and "n < 30"
  shows "js_and x (2 * mask n) = 2 * (x div 2 mod 2 ^ n)"
proof -
  have "(2 :: int) * mask n < 2 ^ 31"
    using power_strict_increasing [of n 30 "2 :: int"] assms(3) by (simp add: mask_eq_exp_minus_1)
  then have "to_int32 (2 * mask n) = 2 * mask n" by (intro to_int32_nonneg) (simp_all add: mask_eq_exp_minus_1)
  then have "js_and x (2 * mask n) = (x AND (2 * mask n))" using assms by (simp add: js_and_def)
  also have "\<dots> = 2 * ((x div 2) AND mask n)" by (subst and_rec) simp
  also have "(x div 2) AND mask n = x div 2 mod 2 ^ n" by (simp add: take_bit_eq_mod flip: take_bit_eq_mask)
  finally show ?thesis .
qed

lemma js_and_even_masks:
  assumes "0 \<le> x" and "x < 256"
  shows "js_and x 0x0E = 2 * (x div 2 mod 8)" "js_and x 0xFE = 2 * (x div 2)" "js_and x 0xFF = x"
proof -
  have "2 * mask 3 = (0x0E :: int)" "2 * mask 7 = (0xFE :: int)" by (simp_all add: mask_eq_exp_minus_1)
  moreover have "x div 2 mod 128 = x div 2" using assms by simp
  ultimately show "js_and x 0x0E = 2 * (x div 2 mod 8)" "js_and x 0xFE = 2 * (x div 2)" "js_and x 0xFF = x"
    using js_and_even_mask [of x 3] js_and_even_mask [of x 7] js_and_masks(7) [of x] assms by simp_all
qed

lemma pes_stamp_bytes:
  assumes "0 \<le> t" and "t < 2 ^ 33" and "0 \<le> p" and "p < 16" and "\<And>k. k < 5 \<Longrightarrow> frag ! (i + k) = stamp_bytes p t ! k"
    and "i + 5 \<le> length frag"
  shows "pes_stamp frag i = signed33 t"
proof -
  let ?b0 = "p * 16 + t div 2 ^ 30 mod 8 * 2 + 1" and ?b1 = "t div 2 ^ 22 mod 256"
    and ?b2 = "t div 2 ^ 15 mod 128 * 2 + 1" and ?b3 = "t div 2 ^ 7 mod 256" and ?b4 = "t mod 128 * 2 + 1"
  have r: "0 \<le> ?b0 \<and> ?b0 < 256" "0 \<le> ?b1 \<and> ?b1 < 256" "0 \<le> ?b2 \<and> ?b2 < 256" "0 \<le> ?b3 \<and> ?b3 < 256" "0 \<le> ?b4 \<and> ?b4 < 256"
    using assms(3,4) pos_mod_bound [of 8 "t div 2 ^ 30"] pos_mod_sign [of 8 "t div 2 ^ 30"]
      pos_mod_bound [of 128 "t div 2 ^ 15"] pos_mod_sign [of 128 "t div 2 ^ 15"]
      pos_mod_bound [of 128 t] pos_mod_sign [of 128 t] pos_mod_bound [of 256 "t div 2 ^ 22"] pos_mod_sign [of 256 "t div 2 ^ 22"]
      pos_mod_bound [of 256 "t div 2 ^ 7"] pos_mod_sign [of 256 "t div 2 ^ 7"]
    by (intro conjI; linarith)+
  have b: "byte frag i = ?b0" "byte frag (i + 1) = ?b1" "byte frag (i + 2) = ?b2" "byte frag (i + 3) = ?b3"
    "byte frag (i + 4) = ?b4"
    using assms(5) [of 0] assms(5) [of 1] assms(5) [of 2] assms(5) [of 3] assms(5) [of 4] assms(6) r
    by (simp_all add: byte_def stamp_bytes_def uint_u8of del: power_numeral)
  have m: "?b0 div 2 mod 8 = t div 2 ^ 30 mod 8" "?b2 div 2 = t div 2 ^ 15 mod 128" "?b4 div 2 = t mod 128"
    by (simp_all del: power_numeral)
  have m8: "t div 2 ^ 30 mod 8 = t div 2 ^ 30" using assms(1,2) by simp
  have split: "t = t div 2 ^ 30 * 2 ^ 30 + t div 2 ^ 22 mod 256 * 2 ^ 22 + t div 2 ^ 15 mod 128 * 2 ^ 15
      + t div 2 ^ 7 mod 256 * 2 ^ 7 + t mod 128"
  proof -
    have gen: "x = q30 * 2 ^ 30 + r3 * 2 ^ 22 + r2 * 2 ^ 15 + r1 * 2 ^ 7 + r0"
      if "x = q7 * 2 ^ 7 + r0" "q7 = q15 * 256 + r1" "q15 = q22 * 128 + r2" "q22 = q30 * 256 + r3"
      for x q7 q15 q22 q30 r0 r1 r2 r3 :: int
      using that by simp
    show ?thesis
    proof (rule gen)
      show "t = t div 2 ^ 7 * 2 ^ 7 + t mod 128" using div_mult_mod_eq [of t 128] by simp
      show "t div 2 ^ 7 = t div 2 ^ 15 * 256 + t div 2 ^ 7 mod 256"
        using div_mult_mod_eq [of "t div 2 ^ 7" 256] by (simp add: zdiv_zmult2_eq [symmetric])
      show "t div 2 ^ 15 = t div 2 ^ 22 * 128 + t div 2 ^ 15 mod 128"
        using div_mult_mod_eq [of "t div 2 ^ 15" 128] by (simp add: zdiv_zmult2_eq [symmetric])
      show "t div 2 ^ 22 = t div 2 ^ 30 * 256 + t div 2 ^ 22 mod 256"
        using div_mult_mod_eq [of "t div 2 ^ 22" 256] by (simp add: zdiv_zmult2_eq [symmetric])
    qed
  qed
  have half: "2 * x div 2 = x" for x :: int by simp
  have sum: "js_and (byte frag i) 0x0E * 536870912 + js_and (byte frag (i + 1)) 0xFF * 4194304
      + js_and (byte frag (i + 2)) 0xFE * 16384 + js_and (byte frag (i + 3)) 0xFF * 128
      + js_and (byte frag (i + 4)) 0xFE div 2
    = t div 2 ^ 30 * 2 ^ 30 + t div 2 ^ 22 mod 256 * 2 ^ 22 + t div 2 ^ 15 mod 128 * 2 ^ 15
      + t div 2 ^ 7 mod 256 * 2 ^ 7 + t mod 128"
    unfolding b js_and_even_masks(1) [OF conjunct1 [OF r(1)] conjunct2 [OF r(1)]]
      js_and_even_masks(3) [OF conjunct1 [OF r(2)] conjunct2 [OF r(2)]]
      js_and_even_masks(2) [OF conjunct1 [OF r(3)] conjunct2 [OF r(3)]]
      js_and_even_masks(3) [OF conjunct1 [OF r(4)] conjunct2 [OF r(4)]]
      js_and_even_masks(2) [OF conjunct1 [OF r(5)] conjunct2 [OF r(5)]] m half
    unfolding m8 by simp
  show ?thesis unfolding pes_stamp_def Let_def sum split [symmetric] signed33_def ..
qed

subsection \<open>A packet\<close>

text \<open>
  The header of a packet with a presentation timestamp and, if \<open>dts\<close> is given, a decoding timestamp;
  \<open>len\<close> is the length field and \<open>stuffing\<close> the stuffing bytes at the end of the header.
\<close>

definition pes_header :: "u8 \<Rightarrow> int \<Rightarrow> int \<Rightarrow> int option \<Rightarrow> bytes \<Rightarrow> bytes" where
  "pes_header sid len pts dts stuffing =
     [0, 0, 1, sid, u8of (len div 256), u8of (len mod 256), 0x80, (if dts = None then 0x80 else 0xC0),
      of_nat ((if dts = None then 5 else 10) + length stuffing)]
     @ (case dts of None \<Rightarrow> stamp_bytes 2 pts | Some d \<Rightarrow> stamp_bytes 3 pts @ stamp_bytes 1 d) @ stuffing"

definition pes_times :: "int \<Rightarrow> int option \<Rightarrow> num \<times> num" where
  "pes_times pts dts =
     (case dts of
        None \<Rightarrow> (Some (of_int (signed33 pts)), Some (of_int (signed33 pts)))
      | Some d \<Rightarrow>
          (Some (of_int (if signed33 pts - signed33 d > 60 * 90000 then signed33 d else signed33 pts)),
           Some (of_int (signed33 d))))"

lemma length_stamp_bytes [simp]: "length (stamp_bytes p t) = 5"
  by (simp add: stamp_bytes_def)

lemma length_pes_header: "length (pes_header sid len pts dts stuffing) = 9 + (if dts = None then 5 else 10) + length stuffing"
  by (cases dts) (simp_all add: pes_header_def)

lemma pes_header_bytes:
  assumes "frag = pes_header sid len pts dts stuffing @ rest" and "length stuffing \<le> 245" and "0 \<le> len" and "len < 65536"
  shows "byte frag 0 = 0" "byte frag 1 = 0" "byte frag 2 = 1" "byte frag 4 = len div 256" "byte frag 5 = len mod 256"
    "byte frag 7 = (if dts = None then 0x80 else 0xC0)"
    "at_index frag 8 = Some (int ((if dts = None then 5 else 10) + length stuffing))"
proof -
  have r: "0 \<le> len div 256 \<and> len div 256 < 256" "0 \<le> len mod 256 \<and> len mod 256 < 256"
    using assms(3,4) by (auto simp: pos_imp_zdiv_nonneg_iff)
  have n: "uint (of_nat k :: u8) = int k" if "k < 256" for k
    using that by (simp add: unsigned_of_nat take_bit_nat_eq_self)
  show "byte frag 0 = 0" "byte frag 1 = 0" "byte frag 2 = 1" "byte frag 4 = len div 256" "byte frag 5 = len mod 256"
    "byte frag 7 = (if dts = None then 0x80 else 0xC0)"
    using r by (simp_all add: assms(1) pes_header_def byte_def uint_u8of)
  show "at_index frag 8 = Some (int ((if dts = None then 5 else 10) + length stuffing))"
    using assms(2) n [of "5 + length stuffing"] n [of "10 + length stuffing"]
    by (simp add: assms(1) pes_header_def at_index_def)
qed

lemma pes_stamps_header:
  assumes "frag = pes_header sid len pts dts stuffing @ rest" and "length stuffing \<le> 245" and "0 \<le> len" and "len < 65536"
    and "0 \<le> pts" and "pts < 2 ^ 33" and "\<And>d. dts = Some d \<Longrightarrow> 0 \<le> d \<and> d < 2 ^ 33"
  shows "pes_stamps frag = pes_times pts dts"
proof (cases dts)
  case None
  have "pes_stamp frag 9 = signed33 pts"
    using assms(1,5,6) None
    by (intro pes_stamp_bytes [where p = 2]) (auto simp: pes_header_def nth_append)
  moreover have "js_and 0x80 0xC0 = 0x80" "js_and 0x80 0x40 = 0" by (simp_all add: js_and_def)
  ultimately show ?thesis
    using pes_header_bytes(6) [OF assms(1-4)] by (simp add: pes_stamps_def pes_times_def None Let_def)
next
  case (Some d)
  have "pes_stamp frag 9 = signed33 pts"
    using assms(1,5,6) Some
    by (intro pes_stamp_bytes [where p = 3]) (auto simp: pes_header_def nth_append)
  moreover have "pes_stamp frag 14 = signed33 d"
    using assms(1,7) Some
    by (intro pes_stamp_bytes [where p = 1]) (auto simp: pes_header_def nth_append)
  moreover have "js_and 0xC0 0xC0 = 0xC0" "js_and 0xC0 0x40 = 0x40" by (simp_all add: js_and_def)
  ultimately show ?thesis
    using pes_header_bytes(6) [OF assms(1-4)] by (simp add: pes_stamps_def pes_times_def Some Let_def)
qed

text \<open>A stream whose chunks are the header and the payload, cut anywhere.\<close>

lemma parsePES_header:
  assumes "concat ds = pes_header sid len pts dts stuffing @ payload"
    and "length stuffing \<le> 245" and "0 \<le> len" and "len < 65536" and "len \<le> int (length (concat ds)) - 6"
    and "0 \<le> pts" and "pts < 2 ^ 33" and "\<And>d. dts = Some d \<Longrightarrow> 0 \<le> d \<and> d < 2 ^ 33"
  shows "\<exists>p str. parsePES \<lparr>ps_data = ds, ps_size = int (length (concat ds))\<rparr> = Inr (Some p, str)
    \<and> pp_data p = payload \<and> (pp_pts p, pp_dts p) = pes_times pts dts"
proof -
  let ?h = "pes_header sid len pts dts stuffing"
  let ?n = "(if dts = None then 5 else 10) + length stuffing"
  have lh: "length ?h = 9 + ?n" by (simp add: length_pes_header)
  have "ds \<noteq> []" using assms(1) by (auto simp: pes_header_def)
  then obtain frag fs where m: "pes_merge ds = frag # fs" by (cases "pes_merge ds") auto
  have c: "frag @ concat fs = ?h @ payload" using pes_merge_concat [of ds] m assms(1) by simp
  have "19 \<le> length frag \<or> fs = []" using pes_merge_hd [OF m] .
  then have lf: "14 \<le> length frag" "dts \<noteq> None \<Longrightarrow> 19 \<le> length frag"
    using arg_cong [OF c, of length] lh by auto
  have b: "byte frag k = byte (?h @ payload) k" if "k < length frag" for k
    unfolding c [symmetric] using that by (simp add: byte_append)
  have b14: "byte frag k = byte (?h @ payload) k" if "k < 14" for k using b lf(1) that by simp
  note full = pes_header_bytes [OF refl assms(2,3,4), of sid pts dts payload]
  have f: "byte frag 0 = 0" "byte frag 1 = 0" "byte frag 2 = 1" "byte frag 4 = len div 256" "byte frag 5 = len mod 256"
    using full by (simp_all add: b14)
  have a8: "at_index frag 8 = Some (int ?n)"
    using full(7) lf(1) arg_cong [OF c, of "\<lambda>x. x ! 8"] lh by (simp add: at_index_def nth_append)
  have st: "pes_stamps frag = pes_times pts dts"
  proof -
    have "byte frag 7 = byte (?h @ payload) 7" by (simp add: b14)
    moreover have "pes_stamp frag 9 = pes_stamp (?h @ payload) 9" unfolding pes_stamp_def by (simp add: b14)
    moreover have "pes_stamp frag 14 = pes_stamp (?h @ payload) 14" if "dts \<noteq> None"
      unfolding pes_stamp_def using b lf(2) [OF that] by simp
    ultimately have "pes_stamps frag = pes_stamps (?h @ payload)"
      using full(6) by (cases "dts = None") (simp_all add: pes_stamps_def js_and_def)
    then show ?thesis using pes_stamps_header [OF refl assms(2-4,6-8)] by simp
  qed
  have size: "int (length (concat ds)) - (int ?n + 9) = int (length payload)" using assms(1) lh by simp
  have "pes_copy (nat (int ?n + 9)) (frag # fs) 0 (replicate (length payload) 0) = Inr payload"
  proof -
    have l: "length (concat (frag # fs)) = 9 + ?n + length payload" using arg_cong [OF c, of length] lh by simp
    have "drop (9 + ?n) (concat (frag # fs)) = payload" using c lh by simp
    then show ?thesis using pes_copy_concat [of "9 + ?n" "frag # fs" 0 "replicate (length payload) 0"] l
      by (simp add: nat_add_distrib add.commute del: pes_copy.simps)
  qed
  then have as: "pes_assemble (frag # fs) (int (length (concat ds))) frag (Some len)
      = Inr \<lparr>pp_data = payload, pp_pts = fst (pes_times pts dts), pp_dts = snd (pes_times pts dts),
             pp_len = map_option (\<lambda>l. if l \<noteq> 0 then l - (int ?n + 3) else l) (Some len)\<rparr>"
    unfolding pes_assemble_def a8 using size st by (simp add: Let_def split_def del: pes_copy.simps)
  have len: "js_shl (len div 256) 8 + len mod 256 = len"
    using assms(3,4) by (simp add: js_shl_def push_bit_eq_mult)
  define L where "L = int (length (concat ds))"
  have "js_shl 0 n = 0" for n by (simp add: js_shl_def to_int32_def)
  then have "parsePES \<lparr>ps_data = ds, ps_size = L\<rparr>
      = map_sum id (\<lambda>p. (Some p, \<lparr>ps_data = frag # fs, ps_size = L\<rparr>)) (pes_assemble (frag # fs) L frag (Some len))"
    if "L \<noteq> 0"
    unfolding parsePES_def using m f lf(1) assms(5) that by (simp add: len Let_def flip: L_def)
  moreover have "L \<noteq> 0" using assms(1) lh by (simp add: L_def)
  ultimately show ?thesis using as by (simp flip: L_def)
qed

end
