(* ===== verification/Ts_Aac.thy ===== *)
theory Ts_Aac
  imports Ts_Demuxer
begin

text \<open>
  AAC in the transport stream: the scan of a packet finds the frames one after the other, and a
  frame that a packet boundary cuts is completed from the next packet.
\<close>

subsection \<open>Frames\<close>

text \<open>A complete ADTS frame: a header, its length field and a payload that is not empty.\<close>

definition adts_frame :: "bytes \<Rightarrow> bool" where
  "adts_frame f \<longleftrightarrow> adts_isHeaderPattern f 0 \<and> int (length f) = getFullFrameLength f 0 \<and> getHeaderLength f 0 < length f"

definition adts_payload :: "bytes \<Rightarrow> bytes" where
  "adts_payload f = drop (getHeaderLength f 0) f"

lemma getHeaderLength_cases: "getHeaderLength d i = 7 \<or> getHeaderLength d i = 9"
  by (simp add: getHeaderLength_def)

lemma adts_frame_length: "adts_frame f \<Longrightarrow> 8 \<le> length f"
  using getHeaderLength_cases [of f 0] by (auto simp: adts_frame_def)

text \<open>What the parser reads of the frame \<open>f\<close> at \<open>length pre\<close> when its first \<open>n\<close> bytes are there.\<close>

lemma byte_at: "k < length f \<Longrightarrow> byte (pre @ f @ rest) (length pre + k) = byte f k"
  by (simp add: byte_def nth_append)

lemma header_at:
  assumes "6 \<le> length p"
  shows "adts_isHeaderPattern (pre @ p @ rest) (length pre) = adts_isHeaderPattern p 0"
    "getHeaderLength (pre @ p @ rest) (length pre) = getHeaderLength p 0"
    "getFullFrameLength (pre @ p @ rest) (length pre) = getFullFrameLength p 0"
proof -
  have b: "byte (pre @ p @ rest) (length pre + k) = byte p k" if "k < 6" for k
    using that assms by (intro byte_at) simp
  have "p \<noteq> []" using assms by auto
  then have a: "at_index (pre @ p @ rest) (length pre) = at_index p 0" by (simp add: at_index_def nth_append)
  show "adts_isHeaderPattern (pre @ p @ rest) (length pre) = adts_isHeaderPattern p 0"
    "getHeaderLength (pre @ p @ rest) (length pre) = getHeaderLength p 0"
    "getFullFrameLength (pre @ p @ rest) (length pre) = getFullFrameLength p 0"
    using b [of 1] b [of 3] b [of 4] b [of 5] a
    by (simp_all add: adts_isHeaderPattern_def getHeaderLength_def getFullFrameLength_def)
qed

lemma header_prefix:
  assumes "6 \<le> length p"
  shows "adts_isHeaderPattern (p @ q) 0 = adts_isHeaderPattern p 0" "getHeaderLength (p @ q) 0 = getHeaderLength p 0"
    "getFullFrameLength (p @ q) 0 = getFullFrameLength p 0"
  using header_at [OF assms, of "[]" q] by simp_all

text \<open>The sample that a frame becomes.\<close>

definition frame_sample :: "bytes \<Rightarrow> num \<Rightarrow> media_sample" where
  "frame_sample f t = \<lparr>sm_unit = adts_payload f, sm_pts = t, sm_dts = t\<rparr>"

definition frame_time :: "audio_track \<Rightarrow> num \<Rightarrow> nat \<Rightarrow> num" where
  "frame_time tr pts k = num_add pts (num_scale k (getFrameDuration (au_samplerate tr)))"

lemma appendFrame_frame:
  assumes "adts_frame f" and "data = pre @ f @ rest"
  shows "adts_appendFrame tr data (length pre) pts k
    = Some (frame_sample f (frame_time tr pts k), length f,
        push_sample (frame_sample f (frame_time tr pts k)) (int (length (adts_payload f))) tr)"
proof -
  have 6: "6 \<le> length f" using adts_frame_length [OF assms(1)] by simp
  note h = header_at [OF 6, of pre rest, folded assms(2)]
  have l: "getFullFrameLength f 0 = int (length f)" "getHeaderLength f 0 < length f" using assms(1) by (simp_all add: adts_frame_def)
  have s: "subarray data (int (length pre) + int (getHeaderLength f 0)) (int (length pre) + int (getHeaderLength f 0)
      + (int (length f) - int (getHeaderLength f 0))) = adts_payload f"
    using subarray_nat [of "length pre + getHeaderLength f 0" "length pre + length f" data] l(2) assms(2)
    by (simp add: adts_payload_def)
  have ld: "int (length data) = int (length pre) + int (length f) + int (length rest)" by (simp add: assms(2))
  show ?thesis
    unfolding adts_appendFrame_def parseFrameHeader_def h Let_def
    using l(2) s by (simp add: l(1) ld frame_sample_def frame_time_def) (simp add: adts_payload_def)
qed

lemma appendFrame_partial:
  assumes "6 \<le> length p" and "int (length p) < getFullFrameLength p 0" and "data = pre @ p"
  shows "adts_appendFrame tr data (length pre) pts k = None"
  using header_at [OF assms(1), of pre "[]"] assms(2,3) by (simp add: adts_appendFrame_def parseFrameHeader_def Let_def)

subsection \<open>The scan\<close>

lemma frame_time_push [simp]: "frame_time (push_sample s n tr) pts k = frame_time tr pts k"
  by (simp add: frame_time_def push_sample_def)

text \<open>The rest that stops the scan: nothing, or the beginning of a frame with its length field.\<close>

definition partial_frame :: "bytes \<Rightarrow> bool" where
  "partial_frame p \<longleftrightarrow> p = [] \<or> 6 \<le> length p \<and> adts_isHeaderPattern p 0 \<and> int (length p) < getFullFrameLength p 0"

fun scan_samples :: "bytes list \<Rightarrow> num \<Rightarrow> nat \<Rightarrow> audio_track \<Rightarrow> audio_track" where
  "scan_samples [] pts k tr = tr"
| "scan_samples (f # fs) pts k tr =
     scan_samples fs pts (k + 1) (push_sample (frame_sample f (frame_time tr pts k)) (int (length (adts_payload f))) tr)"

text \<open>One frame of the scan.\<close>

lemma aac_scan_frame:
  assumes "adts_frame f"
  shows "aac_scan (pre @ f @ rest) pts (length pre) k st tr
    = aac_scan (pre @ f @ rest) pts (length (pre @ f)) (k + 1) (frame_time tr pts k)
        (push_sample (frame_sample f (frame_time tr pts k)) (int (length (adts_payload f))) tr)"
proof -
  have "adts_isHeader (pre @ f @ rest) (length pre)"
    using header_at(1) [of f pre rest] assms adts_frame_length [OF assms] by (simp add: adts_isHeader_def adts_frame_def)
  then show ?thesis
    using adts_frame_length [OF assms] appendFrame_frame [OF assms refl, of tr pre rest pts k]
    by (subst aac_scan.simps) (cases "f = []"; simp add: frame_sample_def)
qed

lemma aac_scan_frames:
  assumes "list_all adts_frame fs" and "partial_frame p"
  shows "aac_scan (pre @ concat fs @ p) pts (length pre) k st tr
    = (scan_samples fs pts k tr, length pre + length (concat fs),
       if fs = [] then st else frame_time tr pts (k + length fs - 1))"
  using assms(1)
proof (induction fs arbitrary: pre k st tr)
  case Nil
  show ?case
  proof (cases "p = []")
    case True
    then show ?thesis by (subst aac_scan.simps) simp
  next
    case False
    then have p: "6 \<le> length p" "adts_isHeaderPattern p 0" "int (length p) < getFullFrameLength p 0"
      using assms(2) by (auto simp: partial_frame_def)
    have "adts_isHeader (pre @ p) (length pre)"
      using header_at(1) [OF p(1), of pre "[]"] p by (simp add: adts_isHeader_def)
    then show ?thesis
      using p appendFrame_partial [OF p(1,3) refl] by (subst aac_scan.simps) simp
  qed
next
  case (Cons f fs)
  have f: "adts_frame f" using Cons.prems by simp
  let ?tr = "push_sample (frame_sample f (frame_time tr pts k)) (int (length (adts_payload f))) tr"
  have "aac_scan (pre @ concat (f # fs) @ p) pts (length pre) k st tr
      = aac_scan ((pre @ f) @ concat fs @ p) pts (length (pre @ f)) (k + 1) (frame_time tr pts k) ?tr"
    using aac_scan_frame [OF f, of pre "concat fs @ p"] by simp
  also have "\<dots> = (scan_samples fs pts (k + 1) ?tr, length (pre @ f) + length (concat fs),
      if fs = [] then frame_time tr pts k else frame_time ?tr pts (k + 1 + length fs - 1))"
    using Cons.IH [of "pre @ f" "k + 1" "frame_time tr pts k" ?tr] Cons.prems by simp
  finally show ?case by simp
qed

lemma scan_samples_fields:
  "map sm_unit (au_samples (scan_samples fs pts k tr)) = map sm_unit (au_samples tr) @ map adts_payload fs"
  "au_samplerate (scan_samples fs pts k tr) = au_samplerate tr"
  "au_isAAC (scan_samples fs pts k tr) = au_isAAC tr"
  by (induction fs arbitrary: k tr) (simp_all add: push_sample_def frame_sample_def)

lemma find_adts_0:
  "adts_isHeader data 0 \<Longrightarrow> find_adts data 0 = 0"
  by (subst find_adts.simps) simp

subsection \<open>Packets\<close>

lemma scan_samples_pts:
  "map sm_pts (au_samples (scan_samples fs pts k tr))
    = map sm_pts (au_samples tr) @ map (\<lambda>i. frame_time tr pts (k + i)) [0..<length fs]"
proof (induction fs arbitrary: k tr)
  case (Cons f fs)
  have "map (\<lambda>i. frame_time tr pts (k + i)) [0..<length (f # fs)]
      = frame_time tr pts k # map (\<lambda>i. frame_time tr pts (k + 1 + i)) [0..<length fs]"
    by (simp add: upt_conv_Cons map_Suc_upt [symmetric] del: upt_Suc)
  then show ?case using Cons.IH [of "k + 1"] by (simp add: push_sample_def frame_sample_def frame_time_def)
qed simp

definition with_overflow :: "ts_demuxer \<Rightarrow> bytes \<Rightarrow> bytes" where
  "with_overflow d data = (case ts_aacOverFlow d of None \<Rightarrow> data | Some o1 \<Rightarrow> o1 @ data)"

definition packet_pts :: "ts_demuxer \<Rightarrow> pes_packet \<Rightarrow> num" where
  "packet_pts d pes = aligned_pts (ts_aacOverFlow d \<noteq> None) (ts_aacLastPTS d)
     (getFrameDuration (au_samplerate (ts_audioTrack d))) (pp_pts pes)"

text \<open>One packet of frames, for the configuration that the track gets or has.\<close>

lemma parseAACPES_config:
  assumes "with_overflow d (pp_data pes) = concat fs @ p" and "list_all adts_frame fs" and "partial_frame p"
    and "fs \<noteq> [] \<or> p \<noteq> []"
    and cfg: "initTrackConfig (te_userAgent env) (ts_audioTrack d) (concat fs @ p) 0 (ts_audioCodec d) = ([], Inr tr)"
    and t: "t = aligned_pts (ts_aacOverFlow d \<noteq> None) (ts_aacLastPTS d) (getFrameDuration (au_samplerate tr)) (pp_pts pes)"
  shows "parseAACPES env pes d = Inr ((), d\<lparr>
      ts_audioTrack := scan_samples fs t 0 tr,
      ts_aacOverFlow := (if p = [] then None else Some p),
      ts_aacLastPTS := (if fs = [] then None else frame_time tr t (length fs - 1))\<rparr>)"
proof -
  let ?data = "concat fs @ p"
  have data: "(case ts_aacOverFlow d of None \<Rightarrow> pp_data pes | Some o1 \<Rightarrow> o1 @ pp_data pes) = ?data"
    using assms(1) by (simp add: with_overflow_def)
  have "adts_isHeader ?data 0"
  proof (cases fs)
    case Nil
    then have "6 \<le> length p" "adts_isHeaderPattern p 0" using assms(3,4) by (auto simp: partial_frame_def)
    then show ?thesis by (simp add: adts_isHeader_def Nil)
  next
    case (Cons f gs)
    then have "adts_frame f" using assms(2) by simp
    then show ?thesis
      using header_prefix(1) [of f "concat gs @ p"] adts_frame_length [of f] by (simp add: adts_isHeader_def Cons adts_frame_def)
  qed
  then have f0: "find_adts ?data 0 = 0" by (rule find_adts_0)
  have sub: "subarray ?data (int (length (concat fs))) (int (length ?data)) = p"
    by (subst subarray_nat) simp_all
  show ?thesis
    using aac_scan_frames [OF assms(2,3), of "[]" t 0 None tr] sub
    unfolding parseAACPES_def data f0 Let_def by (simp add: cfg t [symmetric] del: not_None_eq)
qed

lemma parseAACPES_frames:
  assumes "with_overflow d (pp_data pes) = concat fs @ p" and "list_all adts_frame fs" and "partial_frame p"
    and "fs \<noteq> [] \<or> p \<noteq> []" and "au_samplerate (ts_audioTrack d) = Some r" and "r \<noteq> 0"
  shows "parseAACPES env pes d = Inr ((), d\<lparr>
      ts_audioTrack := scan_samples fs (packet_pts d pes) 0 (ts_audioTrack d),
      ts_aacOverFlow := (if p = [] then None else Some p),
      ts_aacLastPTS := (if fs = [] then None else frame_time (ts_audioTrack d) (packet_pts d pes) (length fs - 1))\<rparr>)"
  by (rule parseAACPES_config [OF assms(1-4)]) (use assms(5,6) in \<open>simp_all add: initTrackConfig_def packet_pts_def\<close>)

lemma aligned_close:
  assumes "aligned_pts True (Some a) (Some dur) (Some b) = Some t" and "a \<noteq> 0"
  shows "\<bar>t - (a + dur)\<bar> \<le> 1"
  using assms by (auto simp: aligned_pts_def Let_def abs_if split: if_splits)

lemma aligned_Some: "\<exists>t. aligned_pts o1 (Some a) (Some dur) (Some b) = Some t"
  by (simp add: aligned_pts_def Let_def)

text \<open>A tail below six bytes is scanned byte by byte to the end.\<close>

lemma aac_scan_short:
  "length data \<le> offset + 5 \<Longrightarrow> offset \<le> length data \<Longrightarrow> aac_scan data pts offset k st tr = (tr, length data, st)"
proof (induction "length data - offset" arbitrary: offset)
  case 0
  then show ?case by (subst aac_scan.simps) simp
next
  case (Suc n)
  then show ?case by (subst aac_scan.simps) simp
qed

lemma aac_scan_frames_short:
  assumes "list_all adts_frame fs" and "length p \<le> 5"
  shows "aac_scan (pre @ concat fs @ p) pts (length pre) k st tr
    = (scan_samples fs pts k tr, length pre + length (concat fs) + length p,
       if fs = [] then st else frame_time tr pts (k + length fs - 1))"
  using assms(1)
proof (induction fs arbitrary: pre k st tr)
  case Nil
  then show ?case using aac_scan_short [of "pre @ p" "length pre"] assms(2) by simp
next
  case (Cons f fs)
  have f: "adts_frame f" using Cons.prems by simp
  let ?tr = "push_sample (frame_sample f (frame_time tr pts k)) (int (length (adts_payload f))) tr"
  have "aac_scan (pre @ concat (f # fs) @ p) pts (length pre) k st tr
      = aac_scan ((pre @ f) @ concat fs @ p) pts (length (pre @ f)) (k + 1) (frame_time tr pts k) ?tr"
    using aac_scan_frame [OF f, of pre "concat fs @ p"] by simp
  then show ?case
    using Cons.IH [of "pre @ f" "k + 1" "frame_time tr pts k" ?tr] Cons.prems by simp
qed

subsection \<open>Streams of packets\<close>

text \<open>
  A stream of packets: each is described by its bytes, the frames that are complete after it, and the
  beginning of the frame that it cuts.
\<close>

type_synonym aac_cut = "bytes \<times> bytes list \<times> bytes"

fun cuts_ok :: "bytes \<Rightarrow> aac_cut list \<Rightarrow> bool" where
  "cuts_ok rest [] \<longleftrightarrow> True"
| "cuts_ok rest ((data, fs, p) # cs) \<longleftrightarrow>
     rest @ data = concat fs @ p \<and> (\<forall>f \<in> set fs. adts_frame f) \<and> partial_frame p \<and> (fs \<noteq> [] \<or> p \<noteq> []) \<and> cuts_ok p cs"

definition cut_frames :: "aac_cut list \<Rightarrow> bytes list" where
  "cut_frames cs = concat (map (\<lambda>(data, fs, p). fs) cs)"

definition last_rest :: "bytes \<Rightarrow> aac_cut list \<Rightarrow> bytes" where
  "last_rest rest cs = (case cs of [] \<Rightarrow> rest | _ \<Rightarrow> snd (snd (last cs)))"

text \<open>The audio packets of a stream, one after the other.\<close>

definition run_pes :: "(pes_packet \<Rightarrow> unit ts) \<Rightarrow> pes_packet \<Rightarrow> ts_demuxer \<Rightarrow> ts_demuxer result" where
  "run_pes parse pes d = (case parse pes d of Inl e \<Rightarrow> Inl e | Inr (_, d) \<Rightarrow> Inr d)"

lemma run_pes_eval [simp]:
  "parse pes d = Inl e \<Longrightarrow> run_pes parse pes d = Inl e"
  "parse pes d = Inr (u, d') \<Longrightarrow> run_pes parse pes d = Inr d'"
  by (simp_all add: run_pes_def)

definition parse_packets :: "ts_env \<Rightarrow> pes_packet list \<Rightarrow> ts_demuxer \<Rightarrow> ts_demuxer result" where
  "parse_packets env = fold_result (run_pes (parseAudioPES env))"

definition rest_state :: "bytes \<Rightarrow> bytes option" where
  "rest_state p = (if p = [] then None else Some p)"

lemma cuts_parse:
  assumes "cuts_ok rest cs" and "map pp_data ps = map fst cs" and "ts_aacOverFlow d = rest_state rest"
    and "au_samplerate (ts_audioTrack d) = Some r" and "r \<noteq> 0" and "au_isAAC (ts_audioTrack d)"
  shows "\<exists>track t. parse_packets env ps d
      = Inr (d\<lparr>ts_audioTrack := track, ts_aacOverFlow := rest_state (last_rest rest cs), ts_aacLastPTS := t\<rparr>)
    \<and> map sm_unit (au_samples track) = map sm_unit (au_samples (ts_audioTrack d)) @ map adts_payload (cut_frames cs)"
  using assms
proof (induction cs arbitrary: rest ps d)
  case Nil
  have "d\<lparr>ts_audioTrack := ts_audioTrack d, ts_aacOverFlow := ts_aacOverFlow d, ts_aacLastPTS := ts_aacLastPTS d\<rparr> = d" by simp
  then show ?case using Nil by (intro exI [of _ "ts_audioTrack d"] exI [of _ "ts_aacLastPTS d"])
    (simp add: parse_packets_def cut_frames_def last_rest_def)
next
  case (Cons c cs)
  obtain data fs p where c: "c = (data, fs, p)" by (cases c) auto
  obtain pes ps' where ps: "ps = pes # ps'" "pp_data pes = data" "map pp_data ps' = map fst cs"
    using Cons.prems(2) by (cases ps) (auto simp: c)
  have ok: "rest @ data = concat fs @ p" "list_all adts_frame fs" "partial_frame p" "fs \<noteq> [] \<or> p \<noteq> []" "cuts_ok p cs"
    using Cons.prems(1) by (simp_all add: c list_all_iff)
  have w: "with_overflow d (pp_data pes) = concat fs @ p"
    using ok(1) Cons.prems(3) ps(2) by (simp add: with_overflow_def rest_state_def split: if_splits)
  let ?d = "d\<lparr>ts_audioTrack := scan_samples fs (packet_pts d pes) 0 (ts_audioTrack d), ts_aacOverFlow := rest_state p,
    ts_aacLastPTS := (if fs = [] then None else frame_time (ts_audioTrack d) (packet_pts d pes) (length fs - 1))\<rparr>"
  have step: "parseAudioPES env pes d = Inr ((), ?d)"
    using parseAACPES_frames [OF w ok(2,3,4) Cons.prems(4,5)] Cons.prems(6) by (simp add: parseAudioPES_def rest_state_def)
  obtain track t where ih: "parse_packets env ps' ?d
      = Inr (?d\<lparr>ts_audioTrack := track, ts_aacOverFlow := rest_state (last_rest p cs), ts_aacLastPTS := t\<rparr>)"
    "map sm_unit (au_samples track) = map sm_unit (au_samples (ts_audioTrack ?d)) @ map adts_payload (cut_frames cs)"
    using Cons.IH [OF ok(5) ps(3), of ?d] by (auto simp: scan_samples_fields Cons.prems(4,5,6))
  have "last_rest rest (c # cs) = last_rest p cs" by (simp add: last_rest_def c split: list.split)
  then show ?case
    using ih step by (intro exI [of _ track] exI [of _ t])
      (simp add: parse_packets_def ps(1) scan_samples_fields cut_frames_def c)
qed

end
