(* ===== verification/Ts_Fragments.thy ===== *)
theory Ts_Fragments
  imports Ts_Packets Ts_Aac
begin

text \<open>
  Fragments: transport packets with their adaptation fields, the chunks they feed to a stream, and the
  units that the loop over the fragment hands to the parser of the stream.
\<close>

subsection \<open>Transport packets\<close>

text \<open>
  A transport packet that carries the chunk \<open>c\<close> of a stream: without adaptation field when it fills
  the packet, otherwise with one of the length that is left.
\<close>

definition ts_pkt :: "int \<Rightarrow> bool \<times> bytes \<Rightarrow> bytes" where
  "ts_pkt pid sc =
     (let c = snd sc; n = 183 - length c;
          head = [0x47, u8of ((if fst sc then 0x40 else 0) + pid div 256), u8of (pid mod 256)]
      in if length c = 184 then head @ [0x10] @ c
         else head @ [0x30, u8of (int n)] @ replicate n 0xFF @ c)"

definition feed_chunk ::
  "(pes_packet \<Rightarrow> unit ts) \<Rightarrow> bool \<times> bytes \<Rightarrow> pes_stream option \<Rightarrow> ts_demuxer \<Rightarrow> (ts_demuxer \<times> pes_stream option) result" where
  "feed_chunk parse sc str d =
     (case (if fst sc then map_sum id (\<lambda>r. (fst r, Some \<lparr>ps_data = [], ps_size = 0\<rparr>)) (flush_pes parse str d)
            else Inr (d, str)) of
        Inl e \<Rightarrow> Inl e
      | Inr (d, str) \<Rightarrow>
          Inr (d, map_option (\<lambda>s. s\<lparr>ps_data := ps_data s @ [snd sc], ps_size := ps_size s + int (length (snd sc))\<rparr>) str))"

lemma length_ts_pkt: "length (snd sc) \<le> 184 \<Longrightarrow> length (ts_pkt pid sc) = 188"
  by (simp add: ts_pkt_def Let_def)

lemma pkt_fields:
  assumes "0 \<le> pid" and "pid < 8192" and "length c \<le> 184" and "data = pre @ ts_pkt pid (stt, c) @ post"
  shows "at_index data (length pre) = Some 0x47"
    "js_and (byte data (length pre + 1)) 0x40 \<noteq> 0 \<longleftrightarrow> stt"
    "js_shl (js_and (byte data (length pre + 1)) 0x1f) 8 + byte data (length pre + 2) = pid"
    "js_shr (js_and (byte data (length pre + 3)) 0x30) 4 = (if length c = 184 then 1 else 3)"
    "length c < 184 \<Longrightarrow> byte data (length pre + 4) = int (183 - length c)"
proof -
  let ?p = "ts_pkt pid (stt, c)"
  have l: "length ?p = 188" using assms(3) by (simp add: length_ts_pkt)
  have b: "byte data (length pre + k) = byte ?p k" if "k < 188" for k
    unfolding assms(4) using that l by (simp add: byte_def nth_append)
  have p: "0 \<le> pid div 256" "pid div 256 < 32" "0 \<le> pid mod 256" "pid mod 256 < 256" using assms(1,2) by auto
  define h where "h = (if stt then 0x40 else 0) + pid div 256"
  have h: "0 \<le> h" "h < 256" using p by (auto simp: h_def)
  have b1: "byte data (length pre + 1) = h" "byte data (length pre + 2) = pid mod 256"
    "byte data (length pre + 3) = (if length c = 184 then 0x10 else 0x30)"
    using b [of 1] b [of 2] b [of 3] h p by (simp_all add: ts_pkt_def Let_def byte_def uint_u8of h_def [symmetric])
  show "at_index data (length pre) = Some 0x47"
    unfolding assms(4) by (simp add: at_index_def ts_pkt_def Let_def nth_append)
  show "js_and (byte data (length pre + 1)) 0x40 \<noteq> 0 \<longleftrightarrow> stt"
  proof -
    have "js_and h 0x40 \<noteq> 0 \<longleftrightarrow> h AND push_bit 6 1 \<noteq> 0" using h by (simp add: js_and_def push_bit_eq_mult)
    also have "\<dots> \<longleftrightarrow> bit h 6" by (rule bit_iff_and_push_bit_not_eq_0 [symmetric])
    also have "\<dots> \<longleftrightarrow> stt" using p by (simp add: bit_iff_odd h_def)
    finally show ?thesis unfolding b1 .
  qed
  show "js_shl (js_and (byte data (length pre + 1)) 0x1f) 8 + byte data (length pre + 2) = pid"
  proof -
    have "(64 + x) mod 32 = x" if "0 \<le> x" "x < 32" for x :: int using that by presburger
    then have "h mod 32 = pid div 256" using p by (simp add: h_def)
    then have "js_and h 0x1f = pid div 256" using js_and_masks(4) [of h] h by simp
    then show ?thesis unfolding b1 using p by (simp add: js_shl_def push_bit_eq_mult)
  qed
  show "js_shr (js_and (byte data (length pre + 3)) 0x30) 4 = (if length c = 184 then 1 else 3)"
    unfolding b1 by (simp add: js_and_def js_shr_def)
  show "length c < 184 \<Longrightarrow> byte data (length pre + 4) = int (183 - length c)"
    using b [of 4] by (simp add: ts_pkt_def Let_def byte_def uint_u8of)
qed


text \<open>One packet of the audio stream in the loop.\<close>

lemma ts_packet_audio:
  assumes "0 \<le> pid" and "pid < 8192" and "length (snd sc) \<le> 184" and "data = pre @ ts_pkt pid sc @ post"
    and "tl_audioId st = pid" and "tl_avcId st \<noteq> pid" and "snd sc \<noteq> []"
  shows "ts_packet env data (length pre) st
    = map_sum id (\<lambda>r. (st\<lparr>tl_dem := fst r, tl_audioData := snd r\<rparr>, False))
        (feed_chunk (parseAudioPES env) sc (tl_audioData st) (tl_dem st))"
proof -
  obtain stt c where sc: "sc = (stt, c)" by (cases sc) auto
  note f = pkt_fields [OF assms(1,2) assms(3) [unfolded sc snd_conv] assms(4) [unfolded sc]]
  define off where "off = length pre + (188 - length c)"
  have l: "length (ts_pkt pid (stt, c)) = 188" "length c \<le> 184" "c \<noteq> []"
    using assms(3,7) by (simp_all add: sc length_ts_pkt)
  have c: "drop (188 - length c) (ts_pkt pid (stt, c)) = c"
  proof (cases "length c = 184")
    case False
    define n where "n = 183 - length c"
    have "188 - length c = Suc (Suc (Suc (Suc (Suc n))))" using False l(2) by (simp add: n_def)
    then show ?thesis using False by (simp add: ts_pkt_def Let_def flip: n_def)
  qed (simp add: ts_pkt_def Let_def)
  have sub: "subarray data (int off) (int (length pre) + 188) = c"
  proof -
    have "int (length pre) + 188 = int (length pre + 188)" by simp
    moreover have "subarray data (int off) (int (length pre + 188)) = take (length pre + 188 - off) (drop off data)"
      using l assms(4) by (intro subarray_nat) (simp_all add: off_def sc)
    moreover have "drop off data = c @ post"
      using c l by (simp add: assms(4) off_def sc)
    ultimately show ?thesis using l(2) by (simp add: off_def)
  qed
  have sz: "ps_size s + (int (length pre) + 188 - int off) = ps_size s + int (length c)" for s
    using l(2) by (simp add: off_def)
  have feed: "feed_pes (parseAudioPES env) data (length pre) off stt str d = feed_chunk (parseAudioPES env) (stt, c) str d" for str d
    by (simp only: feed_pes_def feed_chunk_def fst_conv snd_conv sub sz)
  have atf: "(1 :: int) < (if length c = 184 then 1 else 3) \<longleftrightarrow> length c < 184" using l(2) by simp
  have offs: "(if length c < 184 then length pre + 5 + nat (byte data (length pre + 4)) else length pre + 4) = off"
    using f(5) l(2) by (auto simp: off_def)
  have "off \<noteq> length pre + 188" using l(2,3) by (cases c) (auto simp: off_def)
  then show ?thesis
    using assms(5,6) unfolding ts_packet_def f(1-4) Let_def atf offs
    by (simp add: ts_payload_def feed sc)
qed


text \<open>All packets of the stream, and the chunks that are fed one after the other.\<close>

fun feed_chunks ::
  "(pes_packet \<Rightarrow> unit ts) \<Rightarrow> (bool \<times> bytes) list \<Rightarrow> pes_stream option \<Rightarrow> ts_demuxer \<Rightarrow> (ts_demuxer \<times> pes_stream option) result" where
  "feed_chunks parse [] str d = Inr (d, str)"
| "feed_chunks parse (sc # scs) str d =
     (case feed_chunk parse sc str d of Inl e \<Rightarrow> Inl e | Inr (d, str) \<Rightarrow> feed_chunks parse scs str d)"

lemma feed_chunks_append:
  "feed_chunks parse (xs @ ys) str d =
     (case feed_chunks parse xs str d of Inl e \<Rightarrow> Inl e | Inr (d, str) \<Rightarrow> feed_chunks parse ys str d)"
  by (induction xs arbitrary: str d) (auto split: sum.splits)

definition pkts :: "int \<Rightarrow> (bool \<times> bytes) list \<Rightarrow> bytes" where
  "pkts pid scs = concat (map (ts_pkt pid) scs)"

definition chunks_ok :: "(bool \<times> bytes) list \<Rightarrow> bool" where
  "chunks_ok scs \<longleftrightarrow> (\<forall>sc \<in> set scs. snd sc \<noteq> [] \<and> length (snd sc) \<le> 184)"

lemma length_pkts: "chunks_ok scs \<Longrightarrow> length (pkts pid scs) = 188 * length scs"
  by (induction scs) (simp_all add: pkts_def chunks_ok_def length_ts_pkt)

lemma ts_loop_audio:
  assumes "0 \<le> pid" and "pid < 8192" and "chunks_ok scs" and "tl_audioId st = pid" and "tl_avcId st \<noteq> pid"
    and "data = pre @ pkts pid scs @ post" and "len = length pre + length (pkts pid scs)"
  shows "ts_loop env data len (length pre) st
    = (case feed_chunks (parseAudioPES env) scs (tl_audioData st) (tl_dem st) of
         Inl e \<Rightarrow> Inl e | Inr (d, str) \<Rightarrow> Inr (st\<lparr>tl_dem := d, tl_audioData := str\<rparr>))"
  using assms
proof (induction scs arbitrary: pre st)
  case Nil
  then show ?case by (subst ts_loop.simps) (simp add: pkts_def)
next
  case (Cons sc scs)
  have sc: "length (snd sc) \<le> 184" "snd sc \<noteq> []" "chunks_ok scs" using Cons.prems(3) by (simp_all add: chunks_ok_def)
  have d: "data = pre @ ts_pkt pid sc @ (pkts pid scs @ post)" using Cons.prems(6) by (simp add: pkts_def)
  have lt: "length pre < len" using Cons.prems(7) length_ts_pkt [OF sc(1), of pid] by (simp add: pkts_def)
  note step = ts_packet_audio [OF Cons.prems(1,2) sc(1) d Cons.prems(4,5) sc(2), of env]
  show ?case
  proof (cases "feed_chunk (parseAudioPES env) sc (tl_audioData st) (tl_dem st)")
    case (Inl e)
    then show ?thesis using step lt by (subst ts_loop.simps) simp
  next
    case (Inr r)
    let ?st = "st\<lparr>tl_dem := fst r, tl_audioData := snd r\<rparr>"
    have d': "data = (pre @ ts_pkt pid sc) @ pkts pid scs @ post" using d by simp
    have l: "length (pre @ ts_pkt pid sc) = length pre + 188" using length_ts_pkt [OF sc(1), of pid] by simp
    have len: "len = length (pre @ ts_pkt pid sc) + length (pkts pid scs)"
      using Cons.prems(7) by (simp add: pkts_def)
    have "ts_loop env data len (length pre + 188) ?st
        = (case feed_chunks (parseAudioPES env) scs (tl_audioData ?st) (tl_dem ?st) of
             Inl e \<Rightarrow> Inl e | Inr (d, str) \<Rightarrow> Inr (?st\<lparr>tl_dem := d, tl_audioData := str\<rparr>))"
      using Cons.IH [OF Cons.prems(1,2) sc(3) _ _ d' len, of ?st] Cons.prems(4,5) unfolding l by simp
    then show ?thesis using step lt Inr by (cases r, subst ts_loop.simps) (simp split: sum.split)
  qed
qed

text \<open>A stream of packets: each is cut into chunks, and only the first one starts a unit.\<close>

definition unit_chunks :: "bytes list \<Rightarrow> (bool \<times> bytes) list" where
  "unit_chunks cs = (case cs of [] \<Rightarrow> [] | c # cs \<Rightarrow> (True, c) # map (Pair False) cs)"

lemma feed_rest:
  "feed_chunks parse (map (Pair False) cs) (Some s) d
    = Inr (d, Some \<lparr>ps_data = ps_data s @ cs, ps_size = ps_size s + int (length (concat cs))\<rparr>)"
  by (induction cs arbitrary: s) (auto simp: feed_chunk_def)

lemma feed_unit:
  assumes "cs \<noteq> []"
  shows "feed_chunks parse (unit_chunks cs) str d =
    (case flush_pes parse str d of
       Inl e \<Rightarrow> Inl e
     | Inr (d, _, _) \<Rightarrow> Inr (d, Some \<lparr>ps_data = cs, ps_size = int (length (concat cs))\<rparr>))"
proof -
  obtain c cs' where cs: "cs = c # cs'" using assms by (cases cs) auto
  show ?thesis
    by (cases "flush_pes parse str d") (auto simp: cs unit_chunks_def feed_chunk_def feed_rest)
qed


text \<open>The units of a stream: their chunks, and the packets that they are parsed into.\<close>

definition units_chunks :: "bytes list list \<Rightarrow> (bool \<times> bytes) list" where
  "units_chunks us = concat (map unit_chunks us)"

definition parses_to :: "bytes list \<Rightarrow> pes_packet \<Rightarrow> bool" where
  "parses_to cs pes \<longleftrightarrow> (\<exists>str. parsePES \<lparr>ps_data = cs, ps_size = int (length (concat cs))\<rparr> = Inr (Some pes, str))"

lemma flush_parsed:
  assumes "parses_to cs pes" and "parse pes d = Inr (u, d')"
  shows "\<exists>str. flush_pes parse (Some \<lparr>ps_data = cs, ps_size = int (length (concat cs))\<rparr>) d = Inr (d', True, str)"
  using assms by (auto simp: parses_to_def flush_pes_def)

text \<open>From inside a unit: the following units are parsed in order, and the last one is left.\<close>

lemma feed_units:
  assumes "list_all2 parses_to (cs # us) pess" and "\<forall>cs \<in> set us. cs \<noteq> []"
    and "fold_result (run_pes parse) pess d = Inr d'"
  shows "\<exists>d1 last_cs str. feed_chunks parse (units_chunks us) (Some \<lparr>ps_data = cs, ps_size = int (length (concat cs))\<rparr>) d
      = Inr (d1, Some \<lparr>ps_data = last_cs, ps_size = int (length (concat last_cs))\<rparr>)
    \<and> flush_pes parse (Some \<lparr>ps_data = last_cs, ps_size = int (length (concat last_cs))\<rparr>) d1 = Inr (d', True, str)"
  using assms
proof (induction us arbitrary: cs pess d)
  case Nil
  then obtain pes where p: "pess = [pes]" "parses_to cs pes" by (auto simp: list_all2_Cons1)
  then obtain u where "parse pes d = Inr (u, d')" using Nil.prems(3) by (cases "parse pes d") auto
  then show ?case using flush_parsed [OF p(2)] by (simp add: units_chunks_def)
next
  case (Cons c us)
  obtain pes pess' where p: "pess = pes # pess'" "parses_to cs pes" "list_all2 parses_to (c # us) pess'"
    using Cons.prems(1) by (auto simp: list_all2_Cons1)
  obtain u d2 where d2: "parse pes d = Inr (u, d2)"
    "fold_result (run_pes parse) pess' d2 = Inr d'"
    using Cons.prems(3) p(1) by (cases "parse pes d") auto
  obtain str where fl: "flush_pes parse (Some \<lparr>ps_data = cs, ps_size = int (length (concat cs))\<rparr>) d = Inr (d2, True, str)"
    using flush_parsed [OF p(2), of parse d u d2] d2(1) by blast
  have "\<forall>cs \<in> set us. cs \<noteq> []" and c: "c \<noteq> []" using Cons.prems(2) by simp_all
  then obtain d1 last_cs str' where
    "feed_chunks parse (units_chunks us) (Some \<lparr>ps_data = c, ps_size = int (length (concat c))\<rparr>) d2
      = Inr (d1, Some \<lparr>ps_data = last_cs, ps_size = int (length (concat last_cs))\<rparr>)"
    "flush_pes parse (Some \<lparr>ps_data = last_cs, ps_size = int (length (concat last_cs))\<rparr>) d1 = Inr (d', True, str')"
    using Cons.IH [OF p(3) _ d2(2)] by blast
  then show ?case
    by (simp add: units_chunks_def feed_chunks_append feed_unit [OF c] fl)
qed

text \<open>A fragment that consists of the packets of the audio stream.\<close>

lemma parseAudioPES_keeps:
  assumes "parseAudioPES env pes d = Inr (u, d')"
  shows "ts_avcTrack d' = ts_avcTrack d" "ts_id3Track d' = ts_id3Track d"
  using assms by (auto simp: parseAudioPES_def parseAACPES_def parseMPEGPES_def Let_def split: if_splits sum.splits prod.splits)

text \<open>A part of the demuxer that the parser of a stream leaves alone is left alone by the packets.\<close>

locale stream_keeps =
  fixes parse :: "pes_packet \<Rightarrow> unit ts" and part :: "ts_demuxer \<Rightarrow> 'f"
  assumes parse_keeps: "parse pes d = Inr (u, d') \<Longrightarrow> part d' = part d"
begin

lemma flush_keeps: "flush_pes parse str d = Inr (d', b, str') \<Longrightarrow> part d' = part d"
  by (auto simp: flush_pes_def dest!: parse_keeps split: option.splits sum.splits)

lemma feed_chunk_keeps:
  assumes "feed_chunk parse sc str d = Inr (d', str')"
  shows "part d' = part d"
proof (cases "fst sc")
  case True
  then obtain b str1 where "flush_pes parse str d = Inr (d', b, str1)"
    using assms by (cases "flush_pes parse str d") (auto simp: feed_chunk_def)
  then show ?thesis by (rule flush_keeps)
next
  case False
  then show ?thesis using assms by (auto simp: feed_chunk_def)
qed

lemma feed_chunks_keeps: "feed_chunks parse scs str d = Inr (d', str') \<Longrightarrow> part d' = part d"
proof (induction scs arbitrary: str d)
  case (Cons sc scs)
  then obtain d1 str1 where 1: "feed_chunk parse sc str d = Inr (d1, str1)" "feed_chunks parse scs str1 d1 = Inr (d', str')"
    by (auto split: sum.splits)
  then show ?case using Cons.IH [OF 1(2)] feed_chunk_keeps [OF 1(1)] by simp
qed simp

end

interpretation audio_avc: stream_keeps "parseAudioPES env" ts_avcTrack for env
  by unfold_locales (rule parseAudioPES_keeps)

interpretation audio_id3: stream_keeps "parseAudioPES env" ts_id3Track for env
  by unfold_locales (rule parseAudioPES_keeps)

text \<open>The local variables at the start of \<open>append\<close>, and its end when only audio is left to flush.\<close>

definition start_scan :: "bool \<Rightarrow> ts_demuxer \<Rightarrow> ts_scan" where
  "start_scan contiguous d =
     (let d = d\<lparr>ts_contiguous := contiguous\<rparr> in
      \<lparr>tl_dem = d, tl_pmtParsed = ts_pmtParsed d, tl_unknownPIDs = False, tl_avcId = vt_id (ts_avcTrack d),
       tl_audioId = au_id (ts_audioTrack d), tl_id3Id = it_id (ts_id3Track d), tl_pmtId = ts_pmtId d,
       tl_avcData = vt_pesData (ts_avcTrack d), tl_audioData = ts_audioPesData d, tl_id3Data = it_pesData (ts_id3Track d)\<rparr>)"

lemma ts_append_flush:
  assumes loop: "ts_loop env data (length data - length data mod 188) 0 (start_scan contiguous d)
      = Inr (st\<lparr>tl_dem := d1, tl_audioData := Some s\<rparr>)"
    and st: "tl_avcData st = None" "tl_id3Data st = None"
    and parse: "flush_pes (parseAudioPES env) (Some s) d1 = Inr (d', True, str)"
    and "vt_pesData (ts_avcTrack d1) = None" and "it_pesData (ts_id3Track d1) = None"
  shows "ts_append env data contiguous d = Inr (d'\<lparr>ts_audioPesData := None\<rparr>)"
proof -
  have none: "flush_pes p None x = Inr (x, False, None)" for p :: "pes_packet \<Rightarrow> unit ts" and x by (simp add: flush_pes_def)
  have avc: "d1\<lparr>ts_avcTrack := (ts_avcTrack d1)\<lparr>vt_pesData := None\<rparr>\<rparr> = d1"
  proof -
    have "(ts_avcTrack d1)\<lparr>vt_pesData := None\<rparr> = ts_avcTrack d1" using assms(5) by (cases "ts_avcTrack d1") simp
    then show ?thesis by simp
  qed
  have id3: "d'\<lparr>ts_audioPesData := None, ts_id3Track := (ts_id3Track d')\<lparr>it_pesData := None\<rparr>\<rparr> = d'\<lparr>ts_audioPesData := None\<rparr>"
  proof -
    have "ts_id3Track d' = ts_id3Track d1" using audio_id3.flush_keeps [OF parse] .
    then have "(ts_id3Track d')\<lparr>it_pesData := None\<rparr> = ts_id3Track d'" using assms(6) by (cases "ts_id3Track d'") simp
    then show ?thesis by (cases d') simp
  qed
  show ?thesis
    unfolding ts_append_def Let_def loop [unfolded start_scan_def Let_def]
    using parse avc id3 by (simp add: none st)
qed

text \<open>All units of a stream, from nothing: the last one is left, and parsing it ends as parsing them all.\<close>

lemma feed_all:
  assumes "list_all2 parses_to (u # us) pess" and "\<forall>cs \<in> set (u # us). cs \<noteq> []"
    and "fold_result (run_pes parse) pess d = Inr d'"
  shows "\<exists>d1 cs str. feed_chunks parse (units_chunks (u # us)) None d
      = Inr (d1, Some \<lparr>ps_data = cs, ps_size = int (length (concat cs))\<rparr>)
    \<and> flush_pes parse (Some \<lparr>ps_data = cs, ps_size = int (length (concat cs))\<rparr>) d1 = Inr (d', True, str)"
proof -
  have us: "\<forall>cs \<in> set us. cs \<noteq> []" and u: "u \<noteq> []" using assms(2) by simp_all
  show ?thesis
    using feed_units [OF assms(1) us assms(3)] feed_unit [OF u, of parse None d]
    by (simp add: units_chunks_def feed_chunks_append flush_pes_def)
qed

lemma ts_append_audio:
  assumes "0 \<le> pid" and "pid < 8192" and "chunks_ok (units_chunks (u # us))" and "\<forall>cs \<in> set (u # us). cs \<noteq> []"
    and "list_all2 parses_to (u # us) pess" and "au_id (ts_audioTrack d) = pid" and "vt_id (ts_avcTrack d) \<noteq> pid"
    and "ts_audioPesData d = None" and "vt_pesData (ts_avcTrack d) = None" and "it_pesData (ts_id3Track d) = None"
    and "parse_packets env pess (d\<lparr>ts_contiguous := contiguous\<rparr>) = Inr d'"
  shows "ts_append env (pkts pid (units_chunks (u # us))) contiguous d = Inr (d'\<lparr>ts_audioPesData := None\<rparr>)"
proof -
  let ?data = "pkts pid (units_chunks (u # us))"
  let ?parse = "parseAudioPES env"
  let ?d = "d\<lparr>ts_contiguous := contiguous\<rparr>"
  have len: "length ?data - length ?data mod 188 = length ?data" using length_pkts [OF assms(3)] by simp
  obtain d1 cs str where all: "feed_chunks ?parse (units_chunks (u # us)) None ?d
      = Inr (d1, Some \<lparr>ps_data = cs, ps_size = int (length (concat cs))\<rparr>)"
    and flush: "flush_pes ?parse (Some \<lparr>ps_data = cs, ps_size = int (length (concat cs))\<rparr>) d1 = Inr (d', True, str)"
    using feed_all [OF assms(5,4,11) [unfolded parse_packets_def]] by blast
  have loop: "ts_loop env ?data (length ?data) 0 (start_scan contiguous d)
      = Inr ((start_scan contiguous d)\<lparr>tl_dem := d1, tl_audioData := Some \<lparr>ps_data = cs, ps_size = int (length (concat cs))\<rparr>\<rparr>)"
    using ts_loop_audio [OF assms(1-3), of "start_scan contiguous d" ?data "[]" "[]" "length ?data" env] assms(6-8) all
    by (simp add: start_scan_def Let_def)
  have d1: "ts_avcTrack d1 = ts_avcTrack d" "ts_id3Track d1 = ts_id3Track d"
    using audio_avc.feed_chunks_keeps [OF all] audio_id3.feed_chunks_keeps [OF all] by simp_all
  show ?thesis
    by (rule ts_append_flush [OF _ _ _ flush, where st = "start_scan contiguous d"])
      (use loop assms(9,10) d1 in \<open>simp_all add: len start_scan_def Let_def\<close>)
qed

text \<open>A unit of a stream: the chunks of a packet with a header in the syntax of ISO 13818-1.\<close>

definition pes_unit :: "bytes list \<Rightarrow> bytes \<Rightarrow> bool" where
  "pes_unit cs payload \<longleftrightarrow>
     (\<exists>sid len pts dts stuffing. concat cs = pes_header sid len pts dts stuffing @ payload
       \<and> length stuffing \<le> 245 \<and> 0 \<le> len \<and> len < 65536 \<and> len \<le> int (length (concat cs)) - 6
       \<and> 0 \<le> pts \<and> pts < 2 ^ 33 \<and> (\<forall>d. dts = Some d \<longrightarrow> 0 \<le> d \<and> d < 2 ^ 33))"

lemma pes_unit_parses: "pes_unit cs payload \<Longrightarrow> cs \<noteq> [] \<and> (\<exists>p. parses_to cs p \<and> pp_data p = payload)"
proof
  assume u: "pes_unit cs payload"
  then show "cs \<noteq> []" by (auto simp: pes_unit_def pes_header_def)
  obtain sid len pts dts stuffing where h: "concat cs = pes_header sid len pts dts stuffing @ payload"
    "length stuffing \<le> 245" "0 \<le> len" "len < 65536" "len \<le> int (length (concat cs)) - 6" "0 \<le> pts" "pts < 2 ^ 33"
    "\<And>d. dts = Some d \<Longrightarrow> 0 \<le> d \<and> d < 2 ^ 33"
    using u unfolding pes_unit_def by blast
  show "\<exists>p. parses_to cs p \<and> pp_data p = payload"
    using parsePES_header [OF h] unfolding parses_to_def by blast
qed

lemma pes_units_parse:
  "list_all2 pes_unit us ds \<Longrightarrow> (\<forall>cs \<in> set us. cs \<noteq> []) \<and> (\<exists>pess. list_all2 parses_to us pess \<and> map pp_data pess = ds)"
proof (induction us ds rule: list_all2_induct)
  case (Cons u us payload ds)
  obtain pess where 1: "list_all2 parses_to us pess" "map pp_data pess = ds" using Cons.IH by blast
  obtain p where 2: "u \<noteq> []" "parses_to u p" "pp_data p = payload" using pes_unit_parses [OF Cons.hyps(1)] by blast
  show ?case
  proof
    show "\<forall>cs \<in> set (u # us). cs \<noteq> []" using 2(1) Cons.IH by simp
    show "\<exists>pess. list_all2 parses_to (u # us) pess \<and> map pp_data pess = payload # ds"
      by (rule exI [of _ "p # pess"]) (use 1 2 in simp)
  qed
qed simp

definition idle :: "ts_demuxer \<Rightarrow> bool" where \<comment> \<open>no packet is left from the fragment before\<close>
  "idle d \<longleftrightarrow> ts_audioPesData d = None \<and> vt_pesData (ts_avcTrack d) = None \<and> it_pesData (ts_id3Track d) = None
     \<and> ts_aacOverFlow d = None"

end
