(* ===== verification/Ts_Sei.thy ===== *)
theory Ts_Sei
  imports Ts_Demuxer Golomb_Codes
begin

text \<open>
  The reader of captions ends: read byte by byte, a reader that is empty never returns 0xFF, and so the
  loops over an SEI unit come to their end.
\<close>

subsection \<open>Captions in SEI units end\<close>

lemma loadWord_total: "0 < eg_bytesAvailable s \<Longrightarrow> \<exists>s'. loadWord s = Inr ((), s')"
  by (simp add: loadWord_def Let_def)

lemma refill_total: "\<exists>s'. refill bits s = Inr s'"
  using loadWord_total [of "s\<lparr>eg_bitsAvailable := eg_bitsAvailable s - bits\<rparr>"]
  by (auto simp: refill_def Let_def)

lemma readBits_total: "\<exists>v s'. readBits n s = Inr (v, s')"
proof (induction n s rule: readBits.induct)
  case (1 sz s)
  define n where "n = min (eg_bitsAvailable s) sz"
  obtain s1 where s1: "refill n s = Inr s1" using refill_total by blast
  show ?case
  proof (cases "sz - n > 0 \<and> eg_bitsAvailable s1 \<noteq> 0")
    case True
    then obtain v s2 where "readBits (sz - n) s1 = Inr (v, s2)"
      using "1" [OF refl refl, folded n_def, OF s1 True] by blast
    then show ?thesis using s1 True by (subst readBits.simps) (simp only: Let_def n_def [symmetric], simp)
  next
    case False
    then show ?thesis using s1 by (subst readBits.simps) (simp only: Let_def n_def [symmetric], auto)
  qed
qed

text \<open>A reader that has only been read by bytes: below the bits it has, the register is zero.\<close>

definition byte_reader :: "exp_golomb \<Rightarrow> bool" where
  "byte_reader s \<longleftrightarrow> eg_inv s \<and> 8 dvd eg_bitsAvailable s
     \<and> (\<forall>i < 32 - max 8 (nat (eg_bitsAvailable s)). \<not> bit (eg_word s) i)"

lemma byte_reader_new: "byte_reader (new_ExpGolomb d)"
  by (simp add: byte_reader_def) (simp add: new_ExpGolomb_def)

lemma chunk_low_bits:
  assumes "length xs \<le> 4" and "i < 32 - 8 * length xs"
  shows "\<not> bit (get_uint32 (set_at [0, 0, 0, 0] xs 0) 0) i"
proof -
  have "xs = [] \<or> (\<exists>a. xs = [a]) \<or> (\<exists>a b. xs = [a, b]) \<or> (\<exists>a b c. xs = [a, b, c])
        \<or> (\<exists>a b c d. xs = [a, b, c, d])"
    using assms by (cases xs; cases "tl xs"; cases "tl (tl xs)"; cases "tl (tl (tl xs))") auto
  then show ?thesis
    using assms(2) by (elim disjE exE) (simp_all add: set_at_def get_uint32_def bit_word_be numeral_nat)
qed

lemma loadWord_reader:
  assumes "0 < eg_bytesAvailable s" and "eg_bytesAvailable s \<le> int (length (eg_data s))"
  obtains s' where "loadWord s = Inr ((), s')" "byte_reader s'" "0 < eg_bitsAvailable s'"
    "eg_left s' = 8 * nat (eg_bytesAvailable s)"
proof -
  obtain s' where s': "loadWord s = Inr ((), s')" "eg_inv s'" "0 < eg_bitsAvailable s'" "8 dvd eg_bitsAvailable s'"
    using loadWord_refines [OF assms] by metis
  define n where "n = nat (eg_bytesAvailable s)"
  define xs where "xs = subarray (eg_data s) (int (length (eg_data s)) - int n) (int (length (eg_data s)) - int n + int (min 4 n))"
  have n: "eg_bytesAvailable s = int n" "0 < n" "n \<le> length (eg_data s)" using assms by (simp_all add: n_def)
  have "int (length (eg_data s)) - int n = int (length (eg_data s) - n)"
    "int (length (eg_data s)) - int n + int (min 4 n) = int (length (eg_data s) - n + min 4 n)"
    using n by simp_all
  then have "xs = take (min 4 n) (drop (length (eg_data s) - n) (eg_data s))"
    unfolding xs_def using subarray_nat [of "length (eg_data s) - n" "length (eg_data s) - n + min 4 n" "eg_data s"] n
    by (simp only:) simp
  then have xs: "length xs = min 4 n" using n by simp
  have m: "min 4 (int n) = int (min 4 n)" by simp
  have w: "eg_word s' = get_uint32 (set_at [0, 0, 0, 0] xs 0) 0" "eg_bitsAvailable s' = 8 * int (min 4 n)"
    "eg_bytesAvailable s' = int n - int (min 4 n)"
    using s'(1) n(2) unfolding loadWord_def Let_def n(1) m xs_def by (auto split: if_splits)
  have "byte_reader s'"
    unfolding byte_reader_def
  proof (intro conjI allI impI)
    fix i assume "i < 32 - max 8 (nat (eg_bitsAvailable s'))"
    then have "i < 32 - 8 * length xs" unfolding xs w(2) by auto
    then show "\<not> bit (eg_word s') i" unfolding w(1) using xs by (intro chunk_low_bits) simp_all
  qed (use s' in auto)
  moreover have "eg_left s' = 8 * nat (eg_bytesAvailable s)"
    unfolding eg_left_def w n(1) by simp
  ultimately show ?thesis using that s' by blast
qed

text \<open>One byte: the reader moves on by a byte, or it is empty, stays and returns something other than 0xFF.\<close>

lemma readUByte_register:
  assumes "byte_reader s" and "8 \<le> eg_bitsAvailable s"
  shows "\<exists>v s'. readUByte s = Inr (v, s') \<and> byte_reader s' \<and> eg_left s' + 8 = eg_left s"
proof -
  define b where "b = eg_bitsAvailable s"
  have b: "8 \<le> b" "b \<le> 32" "8 dvd b" "eg_inv s" using assms by (simp_all add: byte_reader_def eg_inv_def b_def)
  have bytes: "0 \<le> eg_bytesAvailable s" "eg_bytesAvailable s \<le> int (length (eg_data s))" using b(4) by (simp_all add: eg_inv_def)
  have "\<exists>s'. refill 8 s = Inr s' \<and> byte_reader s' \<and> eg_left s' + 8 = eg_left s"
  proof (cases "8 < b")
    case True
    then have b16: "16 \<le> b" using b(3) by (auto elim: dvdE)
    let ?s = "s\<lparr>eg_bitsAvailable := b - 8, eg_word := shl (eg_word s) 8\<rparr>"
    have "\<not> bit (shl (eg_word s) 8) i" if "i < 32 - max 8 (nat (b - 8))" for i
    proof -
      have "i - 8 < 32 - max 8 (nat b)" if "8 \<le> i" using that \<open>i < _\<close> b16 b(2) by linarith
      then show ?thesis using assms(1) by (auto simp: shl_def bit_push_bit_iff byte_reader_def b_def)
    qed
    moreover have "eg_inv ?s" using b b16 by (simp add: eg_inv_def)
    moreover have "8 dvd b - 8" using b(3) by simp
    ultimately have "byte_reader ?s" by (simp add: byte_reader_def)
    moreover have "eg_left ?s + 8 = eg_left s" using b16 by (simp add: eg_left_def nat_diff_distrib flip: b_def)
    moreover have "refill 8 s = Inr ?s" using True by (simp add: refill_def Let_def flip: b_def)
    ultimately show ?thesis by blast
  next
    case False
    then have b8: "eg_bitsAvailable s = 8" using b(1) by (simp add: b_def)
    let ?s = "s\<lparr>eg_bitsAvailable := 0\<rparr>"
    show ?thesis
    proof (cases "0 < eg_bytesAvailable s")
      case True
      then obtain s' where "loadWord ?s = Inr ((), s')" "byte_reader s'" "eg_left s' = 8 * nat (eg_bytesAvailable s)"
        using loadWord_reader [of ?s] bytes by auto
      then show ?thesis using True b8 by (auto simp: refill_def eg_left_def)
    next
      case False
      then have "byte_reader ?s" using assms(1) b8 bytes by (simp add: byte_reader_def eg_inv_def)
      then show ?thesis using False b8 by (simp add: refill_def eg_left_def)
    qed
  qed
  then obtain s' where "refill 8 s = Inr s'" "byte_reader s'" "eg_left s' + 8 = eg_left s" by blast
  then show ?thesis using assms(2) unfolding readUByte_def by (subst readBits.simps) simp
qed

lemma readUByte_step:
  assumes "byte_reader s"
  shows "\<exists>v s'. readUByte s = Inr (v, s') \<and> byte_reader s'
    \<and> (eg_left s' + 8 = eg_left s \<or> eg_left s = 0 \<and> s' = s \<and> v \<noteq> 0xFF)"
proof (cases "eg_bitsAvailable s = 0")
  case False
  have "8 \<le> eg_bitsAvailable s" using assms False by (auto simp: byte_reader_def eg_inv_def elim: dvdE)
  then show ?thesis using readUByte_register [OF assms] by blast
next
  case b0: True
  have inv: "0 \<le> eg_bytesAvailable s" "eg_bytesAvailable s \<le> int (length (eg_data s))"
    using assms by (simp_all add: byte_reader_def eg_inv_def)
  show ?thesis
  proof (cases "0 < eg_bytesAvailable s")
    case True
    then obtain s' where s': "loadWord (s\<lparr>eg_bitsAvailable := 0\<rparr>) = Inr ((), s')" "byte_reader s'" "0 < eg_bitsAvailable s'"
      "eg_left s' = 8 * nat (eg_bytesAvailable s)"
      using loadWord_reader [of "s\<lparr>eg_bitsAvailable := 0\<rparr>"] inv by auto
    have "8 \<le> eg_bitsAvailable s'" using s'(2,3) by (auto simp: byte_reader_def elim: dvdE)
    then obtain v s'' where v: "readBits 8 s' = Inr (v, s'')" "byte_reader s''" "eg_left s'' + 8 = eg_left s'"
      using readUByte_register [OF s'(2)] by (auto simp: readUByte_def)
    have "refill 0 s = Inr s'" using s'(1) b0 True by (simp add: refill_def)
    then have "readUByte s = Inr (js_or (uint (shl (ushr (eg_word s) 32) 8)) v, s'')"
      using v(1) s'(3) b0 unfolding readUByte_def by (subst readBits.simps) simp
    then show ?thesis using v s'(4) b0 by (simp add: eg_left_def)
  next
    case False
    have "refill 0 s = Inr s" using False b0 by (simp add: refill_def)
    then have r: "readUByte s = Inr (uint (eg_word s), s)"
      using b0 unfolding readUByte_def by (subst readBits.simps) (simp add: ushr_def)
    have "\<not> bit (eg_word s) 0" using assms b0 by (simp add: byte_reader_def)
    moreover have "bit (0xFF :: int) 0" by simp
    ultimately have "uint (eg_word s) \<noteq> 0xFF" by (metis bit_uint_iff)
    then show ?thesis using r assms False b0 inv by (simp add: eg_left_def)
  qed
qed

lemma sei_sum_total:
  assumes "byte_reader s"
  shows "\<exists>v s'. sei_sum acc s = Inr (v, s') \<and> byte_reader s' \<and> eg_left s' \<le> eg_left s \<and> (0 < eg_left s \<longrightarrow> eg_left s' < eg_left s)"
  using assms
proof (induction "eg_left s" arbitrary: s acc rule: less_induct)
  case less
  obtain v s' where v: "readUByte s = Inr (v, s')" "byte_reader s'"
    "eg_left s' + 8 = eg_left s \<or> eg_left s = 0 \<and> s' = s \<and> v \<noteq> 0xFF"
    using readUByte_step [OF less.prems] by blast
  show ?case
  proof (cases "v = 0xFF")
    case True
    then have l: "eg_left s' < eg_left s" using v(3) by auto
    obtain w s'' where "sei_sum (acc + v) s' = Inr (w, s'')" "byte_reader s''" "eg_left s'' \<le> eg_left s'"
      using less.hyps [OF l v(2)] by blast
    then show ?thesis using v(1) l True by (subst sei_sum.simps) auto
  next
    case False
    then show ?thesis using v by (subst sei_sum.simps) auto
  qed
qed

lemma read_bytes_total:
  "byte_reader s \<Longrightarrow> \<exists>bs s'. read_bytes n s = Inr (bs, s') \<and> byte_reader s' \<and> eg_left s' \<le> eg_left s"
proof (induction n arbitrary: s)
  case (Suc n)
  obtain v s' where v: "readUByte s = Inr (v, s')" "byte_reader s'" "eg_left s' \<le> eg_left s"
    using readUByte_step [OF Suc.prems] by (metis le_add1 order_refl)
  obtain bs s'' where "read_bytes n s' = Inr (bs, s'')" "byte_reader s''" "eg_left s'' \<le> eg_left s'"
    using Suc.IH [OF v(2)] by blast
  then show ?case using v by auto
qed simp

lemma bnd_total:
  "(\<exists>x s'. m s = Inr (x, s')) \<Longrightarrow> (\<And>x s'. \<exists>y s''. f x s' = Inr (y, s'')) \<Longrightarrow> \<exists>y s''. bnd m f s = Inr (y, s'')"
  by (auto simp: bnd_def)

lemma read_bytes_ends: "\<exists>bs s'. read_bytes n s = Inr (bs, s')"
  by (induction n arbitrary: s) (auto intro!: bnd_total simp: readUByte_def readBits_total)

lemma sei_caption_total: "\<exists>c s'. sei_caption s = Inr (c, s')"
  unfolding sei_caption_def readUByte_def readUShort_def readUInt_def Let_def
  by (intro bnd_total allI impI readBits_total)
    (auto intro!: bnd_total readBits_total read_bytes_ends)

lemma sei_loop_total: "byte_reader s \<Longrightarrow> \<exists>c s'. sei_loop s = Inr (c, s')"
proof (induction "eg_left s" arbitrary: s rule: less_induct)
  case less
  show ?case
  proof (cases "eg_bytesAvailable s > 1")
    case False
    then show ?thesis by (subst sei_loop.simps) simp
  next
    case True
    then have pos: "0 < eg_left s" by (simp add: eg_left_def)
    obtain t s1 where t: "sei_sum 0 s = Inr (t, s1)" "byte_reader s1" "eg_left s1 < eg_left s"
      using sei_sum_total [OF less.prems, of 0] pos by blast
    obtain n s2 where n: "sei_sum 0 s1 = Inr (n, s2)" "byte_reader s2" "eg_left s2 \<le> eg_left s1"
      using sei_sum_total [OF t(2), of 0] by blast
    obtain bs s3 where r: "read_bytes (nat n) s2 = Inr (bs, s3)" "byte_reader s3" "eg_left s3 \<le> eg_left s2"
      using read_bytes_total [OF n(2)] by blast
    have l: "eg_left s2 < eg_left s" "eg_left s3 < eg_left s" using t(3) n(3) r(3) by simp_all
    show ?thesis
      using sei_caption_total [of s2] less.hyps [OF l(1) n(2)] less.hyps [OF l(2) r(2)] t(1) n(1) r(1) l
      by (subst sei_loop.simps) (auto simp: True)
  qed
qed

end
