(* ===== verification/Ts_Tables.thy ===== *)
theory Ts_Tables
  imports Ts_Packets Ts_Aac
begin

text \<open>
  Program map tables: the syntax of a section, and what the loop over its entries returns.
\<close>

text \<open>A program map section: its entries are the stream type, the packet id and the descriptors.\<close>

definition pmt_bytes :: "int \<times> int \<times> bytes \<Rightarrow> bytes" where
  "pmt_bytes e = (case e of (stype, pid, desc) \<Rightarrow>
     [u8of stype, u8of (0xE0 + pid div 256), u8of (pid mod 256), u8of (0xF0 + int (length desc) div 256),
      u8of (int (length desc) mod 256)] @ desc)"

definition pmt_section :: "bytes \<Rightarrow> (int \<times> int \<times> bytes) list \<Rightarrow> bytes \<Rightarrow> bytes" where
  "pmt_section info es crc =
     (let body = concat (map pmt_bytes es); n = 9 + length info + length body + 4
      in [2, u8of (0xB0 + int n div 256), u8of (int n mod 256), 0, 1, 0xC1, 0, 0, 0xE1, 0,
          u8of (0xF0 + int (length info) div 256), u8of (int (length info) mod 256)] @ info @ body @ crc)"

definition pmt_ok :: "int \<times> int \<times> bytes \<Rightarrow> bool" where
  "pmt_ok e = (case e of (stype, pid, desc) \<Rightarrow> 0 \<le> stype \<and> stype < 256 \<and> 0 \<le> pid \<and> pid < 8192 \<and> length desc < 1024)"

text \<open>The first entry with one of the types, and -1 when there is none.\<close>

definition first_pid :: "int set \<Rightarrow> (int \<times> int \<times> bytes) list \<Rightarrow> int" where
  "first_pid ts es = (case filter (\<lambda>e. fst e \<in> ts) es of [] \<Rightarrow> - 1 | e # _ \<Rightarrow> fst (snd e))"

lemma field12:
  assumes "0 \<le> h" and "h < 256" and "0 \<le> l" and "l < 256"
  shows "js_or (js_shl (js_and h 0x0F) 8) l = h mod 16 * 256 + l" "js_or (js_shl (js_and h 0x1F) 8) l = h mod 32 * 256 + l"
proof -
  have c: "js_or (js_shl x 8) l = x * 256 + l" if "0 \<le> x" "x < 256" for x
  proof -
    have "js_shl x 8 = x * 256" using that by (simp add: js_shl_def push_bit_eq_mult)
    then have "js_or (js_shl x 8) l = (push_bit 8 x OR l)"
      using that assms(3,4) by (simp add: js_or_def push_bit_eq_mult)
    also have "\<dots> = concat_bit 8 l x" using assms(3,4) by (simp add: concat_bit_def take_bit_int_eq_self or.commute)
    also have "\<dots> = x * 256 + l" using assms(3,4) by (simp add: concat_bit_eq take_bit_int_eq_self push_bit_eq_mult)
    finally show ?thesis .
  qed
  have "js_and h 0x0F = h mod 16" "js_and h 0x1F = h mod 32" using js_and_masks(3,4) [of h] assms(1,2) by simp_all
  then show "js_or (js_shl (js_and h 0x0F) 8) l = h mod 16 * 256 + l" "js_or (js_shl (js_and h 0x1F) 8) l = h mod 32 * 256 + l"
    using c [of "h mod 16"] c [of "h mod 32"] pos_mod_bound [of 16 h] pos_mod_bound [of 32 h] by simp_all
qed

lemma pmt_entry_bytes:
  assumes "pmt_ok (stype, pid, desc)" and "length desc < 4096" and "data = pre @ pmt_bytes (stype, pid, desc) @ post"
  shows "at_index data (length pre) = Some stype"
    "js_or (js_shl (js_and (byte data (length pre + 1)) 0x1F) 8) (byte data (length pre + 2)) = pid"
    "js_or (js_shl (js_and (byte data (length pre + 3)) 0x0F) 8) (byte data (length pre + 4)) = int (length desc)"
proof -
  have ok: "0 \<le> stype" "stype < 256" "0 \<le> pid" "pid < 8192" using assms(1) by (simp_all add: pmt_ok_def)
  have b: "byte data (length pre + k) = byte (pmt_bytes (stype, pid, desc)) k" if "k < 5" for k
    unfolding assms(3) using that by (intro byte_at) (simp add: pmt_bytes_def)
  define p where "p = 0xE0 + pid div 256"
  define l where "l = 0xF0 + int (length desc) div 256"
  have r: "0 \<le> p" "p < 256" "0 \<le> l" "l < 256" "0 \<le> pid mod 256" "pid mod 256 < 256"
    using ok assms(2) unfolding p_def l_def by linarith+
  have m: "p mod 32 = pid div 256" "l mod 16 = int (length desc) div 256"
  proof -
    have "(0xE0 + x) mod 32 = x" if "0 \<le> x" "x < 32" for x :: int using that by presburger
    then show "p mod 32 = pid div 256" using ok by (simp add: p_def)
    have "(0xF0 + x) mod 16 = x" if "0 \<le> x" "x < 16" for x :: int using that by presburger
    then show "l mod 16 = int (length desc) div 256" using assms(2) by (simp add: l_def)
  qed
  show "at_index data (length pre) = Some stype"
    unfolding assms(3) using ok by (simp add: at_index_def nth_append pmt_bytes_def uint_u8of)
  have bs: "byte data (length pre + 1) = p" "byte data (length pre + 2) = pid mod 256"
    "byte data (length pre + 3) = l" "byte data (length pre + 4) = int (length desc) mod 256"
    using b [of 1] b [of 2] b [of 3] b [of 4] r by (simp_all add: pmt_bytes_def byte_def uint_u8of flip: p_def l_def)
  show "js_or (js_shl (js_and (byte data (length pre + 1)) 0x1F) 8) (byte data (length pre + 2)) = pid"
    unfolding bs field12(2) [OF r(1,2,5,6)] m by simp
  have d0: "0 \<le> int (length desc) mod 256" "int (length desc) mod 256 < 256" by simp_all
  then show "js_or (js_shl (js_and (byte data (length pre + 3)) 0x0F) 8) (byte data (length pre + 4)) = int (length desc)"
    unfolding bs field12(1) [OF r(3,4) d0] m by simp
qed

lemma length_pmt_bytes: "length (pmt_bytes (stype, pid, desc)) = 5 + length desc"
  by (simp add: pmt_bytes_def)

lemma pmt_loop_entries:
  assumes "\<forall>e \<in> set es. pmt_ok e" and "length (concat (map pmt_bytes es)) < 4096"
    and "data = pre @ concat (map pmt_bytes es) @ post" and "te = int (length pre + length (concat (map pmt_bytes es)))"
  shows "pmt_loop data m a (length pre) te r = fold (\<lambda>e. pmt_entry m a (Some (fst e)) (fst (snd e))) es r"
  using assms
proof (induction es arbitrary: pre r)
  case Nil
  then show ?case by (subst pmt_loop.simps) simp
next
  case (Cons e es)
  obtain stype pid desc where e: "e = (stype, pid, desc)" by (cases e) auto
  have d: "data = pre @ pmt_bytes (stype, pid, desc) @ (concat (map pmt_bytes es) @ post)" using Cons.prems(3) by (simp add: e)
  have "pmt_ok (stype, pid, desc)" "length desc < 4096" using Cons.prems(1,2) by (simp_all add: e length_pmt_bytes)
  note b = pmt_entry_bytes [OF this d]
  let ?pre = "pre @ pmt_bytes (stype, pid, desc)"
  have lt: "int (length pre) < te" using Cons.prems(4) by (simp add: e length_pmt_bytes)
  have "nat (int (length desc) + 5) = 5 + length desc" by simp
  then have "pmt_loop data m a (length pre) te r = pmt_loop data m a (length ?pre) te (pmt_entry m a (Some stype) pid r)"
    by (subst pmt_loop.simps, simp only: lt b if_True Let_def) (simp add: length_pmt_bytes)
  also have "\<dots> = fold (\<lambda>e. pmt_entry m a (Some (fst e)) (fst (snd e))) es (pmt_entry m a (Some stype) pid r)"
    using Cons.prems d by (intro Cons.IH) (simp_all add: e)
  finally show ?case by (simp add: e)
qed

definition audio_types :: "bool \<Rightarrow> bool \<Rightarrow> int set" where
  "audio_types mpeg aes = {0x0f} \<union> (if aes then {0xcf} else {}) \<union> (if mpeg then {3, 4} else {})"

definition avc_types :: "bool \<Rightarrow> int set" where
  "avc_types aes = {0x1b} \<union> (if aes then {0xdb} else {})"

lemma pmt_entry_fields:
  "pm_audio (pmt_entry m a (Some t) p r) = (if t \<in> audio_types m a \<and> pm_audio r = - 1 then p else pm_audio r)"
  "pm_avc (pmt_entry m a (Some t) p r) = (if t \<in> avc_types a \<and> pm_avc r = - 1 then p else pm_avc r)"
  "pm_id3 (pmt_entry m a (Some t) p r) = (if t = 0x15 \<and> pm_id3 r = - 1 then p else pm_id3 r)"
  "pm_isAAC (pmt_entry m a (Some t) p r)
    = (if t \<in> audio_types m a \<and> pm_audio r = - 1 then pm_isAAC r \<and> t \<notin> {3, 4} else pm_isAAC r)"
  by (simp_all add: pmt_entry_def audio_types_def avc_types_def)

abbreviation "pmt_fold m a es r \<equiv> fold (\<lambda>e. pmt_entry m a (Some (fst e)) (fst (snd e))) es r"

lemma pmt_ok_pid: "pmt_ok e \<Longrightarrow> fst (snd e) \<noteq> - 1"
  by (auto simp: pmt_ok_def)

lemma fold_pmt_fields:
  assumes "\<forall>e \<in> set es. pmt_ok e"
  shows "pm_audio (pmt_fold m a es r) = (if pm_audio r = - 1 then first_pid (audio_types m a) es else pm_audio r)"
    "pm_avc (pmt_fold m a es r) = (if pm_avc r = - 1 then first_pid (avc_types a) es else pm_avc r)"
    "pm_id3 (pmt_fold m a es r) = (if pm_id3 r = - 1 then first_pid {0x15} es else pm_id3 r)"
    "pm_isAAC (pmt_fold m a es r) = (if pm_audio r = - 1 then
        (case filter (\<lambda>e. fst e \<in> audio_types m a) es of [] \<Rightarrow> pm_isAAC r | e # _ \<Rightarrow> pm_isAAC r \<and> fst e \<notin> {3, 4}) else pm_isAAC r)"
  using assms
  by (induction es arbitrary: r) (simp_all add: first_pid_def pmt_entry_fields pmt_ok_pid split: list.split)

text \<open>The fields of a section, and the packet ids that its entries give.\<close>

lemma parsePMT_section:
  assumes "\<forall>e \<in> set es. pmt_ok e" and "13 + length info + length (concat (map pmt_bytes es)) < 4096"
  shows "parsePMT (pre @ pmt_section info es crc @ post) (Some (length pre)) mpegSupported isSampleAes =
    \<lparr>pm_audio = first_pid (audio_types mpegSupported isSampleAes) es, pm_avc = first_pid (avc_types isSampleAes) es,
     pm_id3 = first_pid {0x15} es,
     pm_isAAC = (case filter (\<lambda>e. fst e \<in> audio_types mpegSupported isSampleAes) es of [] \<Rightarrow> True | e # _ \<Rightarrow> fst e \<notin> {3, 4})\<rparr>"
proof -
  let ?data = "pre @ pmt_section info es crc @ post"
  let ?body = "concat (map pmt_bytes es)"
  define n where "n = 9 + length info + length ?body + 4"
  define h where "h = 0xB0 + int n div 256"
  define i where "i = 0xF0 + int (length info) div 256"
  have n: "n < 4096" "length info < 4096" using assms(2) by (simp_all add: n_def)
  have b: "byte ?data (length pre + k) = byte (pmt_section info es crc) k" if "k < 12" for k
    using that by (intro byte_at) (simp add: pmt_section_def Let_def)
  have r: "0 \<le> h" "h < 256" "0 \<le> i" "i < 256" "0 \<le> int n mod 256" "int n mod 256 < 256"
    "0 \<le> int (length info) mod 256" "int (length info) mod 256 < 256"
    using n unfolding h_def i_def by linarith+
  have m: "h mod 16 = int n div 256" "i mod 16 = int (length info) div 256"
  proof -
    have "(0xB0 + x) mod 16 = x" if "0 \<le> x" "x < 16" for x :: int using that by presburger
    then show "h mod 16 = int n div 256" using n(1) by (simp add: h_def)
    have "(0xF0 + x) mod 16 = x" if "0 \<le> x" "x < 16" for x :: int using that by presburger
    then show "i mod 16 = int (length info) div 256" using n(2) by (simp add: i_def)
  qed
  have sect: "pmt_section info es crc
      = [2, u8of h, u8of (int n mod 256), 0, 1, 0xC1, 0, 0, 0xE1, 0, u8of i, u8of (int (length info) mod 256)] @ info @ ?body @ crc"
    by (simp only: pmt_section_def Let_def n_def h_def i_def)
  have bs: "byte ?data (length pre + 1) = h" "byte ?data (length pre + 2) = int n mod 256"
    "byte ?data (length pre + 10) = i" "byte ?data (length pre + 11) = int (length info) mod 256"
    using b [of 1] b [of 2] b [of 10] b [of 11] r by (simp_all add: sect byte_def uint_u8of)
  have sec: "js_or (js_shl (js_and (byte ?data (length pre + 1)) 0x0F) 8) (byte ?data (length pre + 2)) = int n"
    "js_or (js_shl (js_and (byte ?data (length pre + 10)) 0x0F) 8) (byte ?data (length pre + 11)) = int (length info)"
    unfolding bs field12(1) [OF r(1,2,5,6)] field12(1) [OF r(3,4,7,8)] m by simp_all
  let ?pre = "pre @ [2, u8of h, u8of (int n mod 256), 0, 1, 0xC1, 0, 0, 0xE1, 0, u8of i, u8of (int (length info) mod 256)] @ info"
  have data: "?data = ?pre @ ?body @ (crc @ post)" by (simp add: sect)
  let ?fold = "pmt_fold mpegSupported isSampleAes es no_pids"
  have loop: "pmt_loop ?data mpegSupported isSampleAes (length ?pre) (int (length ?pre + length ?body)) no_pids = ?fold"
    using assms by (intro pmt_loop_entries [OF _ _ data refl]) simp_all
  have start: "length pre + 12 + nat (int (length info)) = length ?pre" by simp
  have te: "int (length pre) + 3 + int n - 4 = int (length ?pre + length ?body)" by (simp add: n_def)
  have "parsePMT ?data (Some (length pre)) mpegSupported isSampleAes = ?fold"
    unfolding parsePMT_def Let_def option.case sec start te loop ..
  then show ?thesis
    by (intro pmt_pids.equality) (simp_all add: fold_pmt_fields [OF assms(1)] no_pids_def split: list.split)
qed

end
