(* ===== verification/Sample_Aes_Tracks.thy ===== *)
theory Sample_Aes_Tracks
  imports Ts_Nal Aes_Props
begin

text \<open>
  SAMPLE-AES: the slices of a unit that are encrypted, the protection of the samples of whole tracks, and
  that decryption before remuxing undoes it for every cipher that the decrypter inverts.
\<close>

subsection \<open>SAMPLE-AES of video\<close>

text \<open>
  The bytes that the decrypter takes for encrypted: after the first 32 bytes of a unit a block of 16 bytes in each
  160, as long as there are 16 bytes. \<open>slice_blocks\<close> are these blocks and \<open>slice_protect\<close> puts other bytes in their place.
\<close>

function slice_blocks :: "bytes \<Rightarrow> bytes" where
  "slice_blocks xs = (if 16 \<le> length xs then take 16 xs @ slice_blocks (drop 160 xs) else [])"
  by pat_completeness auto
termination by (relation "measure length") auto

function slice_protect :: "bytes \<Rightarrow> bytes \<Rightarrow> bytes" where
  "slice_protect xs cs =
     (if 16 \<le> length xs then take 16 cs @ take 144 (drop 16 xs) @ slice_protect (drop 160 xs) (drop 16 cs) else xs)"
  by pat_completeness auto
termination by (relation "measure (\<lambda>(xs, cs). length xs)") auto

declare slice_blocks.simps [simp del] slice_protect.simps [simp del]

lemma slice_blocks_16: "16 dvd length (slice_blocks xs)"
proof (induction xs rule: slice_blocks.induct)
  case (1 xs)
  then show ?case by (subst slice_blocks.simps) auto
qed

lemma slice_blocks_length:
  "int (length (slice_blocks xs)) = (if 16 \<le> length xs then (int (length xs) - 16) div 160 * 16 + 16 else 0)"
proof (induction xs rule: slice_blocks.induct)
  case (1 xs)
  show ?case
  proof (cases "16 \<le> length xs")
    case True
    show ?thesis
    proof (cases "176 \<le> length xs")
      case big: True
      have "(int (length xs) - 160 - 16) div 160 = (int (length xs) - 16) div 160 - 1"
        using div_add_self2 [of 160 "int (length xs) - 16 - 160"] by simp
      then show ?thesis using "1" [OF True] True big by (subst slice_blocks.simps) (simp add: of_nat_diff)
    next
      case False
      then have "(int (length xs) - 16) div 160 = 0" using True by (intro div_pos_pos_trivial) simp_all
      moreover have "slice_blocks (drop 160 xs) = []" using False by (subst slice_blocks.simps) auto
      ultimately show ?thesis using True by (subst slice_blocks.simps) simp
    qed
  qed (subst slice_blocks.simps, simp)
qed

lemma slice_protect_inverse:
  "length cs = length (slice_blocks xs) \<Longrightarrow>
   slice_blocks (slice_protect xs cs) = cs \<and> slice_protect (slice_protect xs cs) (slice_blocks xs) = xs
     \<and> length (slice_protect xs cs) = length xs"
proof (induction xs cs rule: slice_protect.induct)
  case (1 xs cs)
  show ?case
  proof (cases "16 \<le> length xs")
    case True
    let ?p = "slice_protect (drop 160 xs) (drop 16 cs)"
    have b: "slice_blocks xs = take 16 xs @ slice_blocks (drop 160 xs)" using True by (subst slice_blocks.simps) simp
    then have lc: "16 \<le> length cs" "length (drop 16 cs) = length (slice_blocks (drop 160 xs))"
      using "1.prems" True by simp_all
    have ih: "slice_blocks ?p = drop 16 cs" "slice_protect ?p (slice_blocks (drop 160 xs)) = drop 160 xs"
      "length ?p = length xs - 160"
      using "1.IH" [OF True lc(2)] by simp_all
    have s: "slice_protect xs cs = take 16 cs @ take 144 (drop 16 xs) @ ?p"
      using True by (subst slice_protect.simps) simp
    have d: "drop 160 (take 16 cs @ take 144 (drop 16 xs) @ ?p) = ?p"
    proof (cases "160 \<le> length xs")
      case False
      then have "drop 160 xs = []" by simp
      then have "?p = []" using ih(3) False by simp
      then show ?thesis using lc(1) by simp
    qed (use lc(1) in simp)
    have len: "length (slice_protect xs cs) = length xs" unfolding s using lc(1) ih(3) True by simp
    have "slice_blocks (slice_protect xs cs) = take 16 (slice_protect xs cs) @ slice_blocks (drop 160 (slice_protect xs cs))"
      using len True by (subst slice_blocks.simps) simp
    then have 1: "slice_blocks (slice_protect xs cs) = cs" using ih(1) d lc(1) unfolding s by simp
    have "slice_protect (slice_protect xs cs) (slice_blocks xs)
        = take 16 (slice_blocks xs) @ take 144 (drop 16 (slice_protect xs cs))
          @ slice_protect (drop 160 (slice_protect xs cs)) (drop 16 (slice_blocks xs))"
      using len True by (subst slice_protect.simps) simp
    also have "\<dots> = take 16 xs @ take 144 (drop 16 xs) @ drop 160 xs"
    proof -
      have "take 144 (take 144 (drop 16 xs) @ ?p) = take 144 (drop 16 xs)"
      proof (cases "160 \<le> length xs")
        case False
        then have "?p = []" using ih(3) by simp
        then show ?thesis by simp
      qed simp
      then show ?thesis unfolding s d b using ih(2) lc(1) True by simp
    qed
    also have "\<dots> = xs" using append_take_drop_id [of 144 "drop 16 xs"] by (simp add: append_take_drop_id)
    finally show ?thesis using 1 len by blast
  next
    case False
    then have "slice_blocks xs = []" "slice_protect xs cs = xs" by (subst slice_blocks.simps slice_protect.simps; simp)+
    then show ?thesis using "1.prems" False by (simp add: slice_protect.simps)
  qed
qed

text \<open>The loops of the code over the whole unit.\<close>

lemma avc_gather_blocks: "avc_gather (pre @ xs) (length pre) = slice_blocks xs"
proof (induction "length xs" arbitrary: pre xs rule: less_induct)
  case less
  show ?case
  proof (cases "16 \<le> length xs")
    case True
    have "avc_gather (pre @ xs) (length pre + 160) = slice_blocks (drop 160 xs)"
    proof (cases "160 \<le> length xs")
      case long: True
      then show ?thesis using less [of "drop 160 xs" "pre @ take 160 xs"] by simp
    next
      case False
      then show ?thesis by (subst avc_gather.simps, subst slice_blocks.simps) simp
    qed
    then show ?thesis using True by (subst avc_gather.simps, subst slice_blocks.simps) simp
  next
    case False
    then show ?thesis by (subst avc_gather.simps, subst slice_blocks.simps) simp
  qed
qed

lemma decrypted_unit_protect:
  "length (slice_blocks xs) \<le> length cs \<Longrightarrow>
   getAvcDecryptedUnit (pre @ xs) cs (length pre) = pre @ slice_protect xs cs"
proof (induction "length xs" arbitrary: pre xs cs rule: less_induct)
  case less
  show ?case
  proof (cases "16 \<le> length xs")
    case True
    have b: "slice_blocks xs = take 16 xs @ slice_blocks (drop 160 xs)" using True by (subst slice_blocks.simps) simp
    then have lc: "16 \<le> length cs" "length (slice_blocks (drop 160 xs)) \<le> length (drop 16 cs)"
      using less.prems True by simp_all
    let ?q = "pre @ take 16 cs @ drop 16 xs"
    have q: "set_at (pre @ xs) (take 16 cs) (length pre) = ?q" using lc(1) by (simp add: set_at_def)
    have "getAvcDecryptedUnit ?q (drop 16 cs) (length pre + 160)
        = pre @ take 16 cs @ take 144 (drop 16 xs) @ slice_protect (drop 160 xs) (drop 16 cs)"
    proof (cases "160 \<le> length xs")
      case long: True
      let ?r = "pre @ take 16 cs @ take 144 (drop 16 xs)"
      have "?q = ?r @ drop 160 xs" using append_take_drop_id [of 144 "drop 16 xs"] by simp
      moreover have "length pre + 160 = length ?r" using lc(1) long by simp
      moreover have "getAvcDecryptedUnit (?r @ drop 160 xs) (drop 16 cs) (length ?r) = ?r @ slice_protect (drop 160 xs) (drop 16 cs)"
        using long by (intro less.hyps lc(2)) simp
      ultimately show ?thesis by (metis append.assoc)
    next
      case False
      then have "getAvcDecryptedUnit ?q (drop 16 cs) (length pre + 160) = ?q"
        using lc(1) by (subst getAvcDecryptedUnit.simps) auto
      moreover have "slice_protect (drop 160 xs) (drop 16 cs) = []" using False by (subst slice_protect.simps) simp
      ultimately show ?thesis using False by simp
    qed
    then show ?thesis using True q by (subst getAvcDecryptedUnit.simps, subst slice_protect.simps) simp
  next
    case False
    then show ?thesis by (subst getAvcDecryptedUnit.simps, subst slice_protect.simps) simp
  qed
qed

text \<open>
  The encryption that the format prescribes (Apple, MPEG-2 stream encryption format for HTTP live streaming,
  \<open>Encrypted_nal_unit\<close>): units of at most 48 bytes are clear; in others a block of 16 bytes is encrypted, followed by 144
  clear bytes, as long as more than 16 bytes are left; then the bytes that prevent start codes are stuffed into the unit.
\<close>

function std_blocks :: "bytes \<Rightarrow> bytes" where
  "std_blocks xs = (if 16 < length xs then take 16 xs @ std_blocks (drop 160 xs) else [])"
  by pat_completeness auto
termination by (relation "measure length") auto

function std_encrypted :: "bytes \<Rightarrow> bytes \<Rightarrow> bytes" where
  "std_encrypted xs cs =
     (if 16 < length xs then take 16 cs @ take 144 (drop 16 xs) @ std_encrypted (drop 160 xs) (drop 16 cs) else xs)"
  by pat_completeness auto
termination by (relation "measure (\<lambda>(xs, cs). length xs)") auto

declare std_blocks.simps [simp del] std_encrypted.simps [simp del]

definition protect_unit :: "(bytes \<Rightarrow> bytes) \<Rightarrow> bytes \<Rightarrow> bytes" where
  "protect_unit enc plain =
     (if length plain \<le> 48 then plain
      else let p = take 32 plain @ std_encrypted (drop 32 plain) (enc (std_blocks (drop 32 plain)))
           in hd p # epb_escape 0 (tl p))"

text \<open>Both agree unless exactly 16 bytes are left where a block may begin.\<close>

lemma std_blocks_eq: "length xs mod 160 \<noteq> 16 \<Longrightarrow> std_blocks xs = slice_blocks xs"
proof (induction xs rule: std_blocks.induct)
  case (1 xs)
  show ?case
  proof (cases "160 \<le> length xs")
    case True
    then have "length (drop 160 xs) mod 160 = length xs mod 160" by (simp add: le_mod_geq)
    then show ?thesis using 1 True by (subst std_blocks.simps, subst slice_blocks.simps) simp
  next
    case False
    then have "length xs \<noteq> 16" using "1.prems" by auto
    then show ?thesis using False
      by (subst std_blocks.simps, subst slice_blocks.simps) (auto simp: std_blocks.simps [of "[]"] slice_blocks.simps [of "[]"])
  qed
qed

lemma std_encrypted_eq: "length xs mod 160 \<noteq> 16 \<Longrightarrow> std_encrypted xs cs = slice_protect xs cs"
proof (induction xs cs rule: std_encrypted.induct)
  case (1 xs cs)
  show ?case
  proof (cases "160 \<le> length xs")
    case True
    then have "length (drop 160 xs) mod 160 = length xs mod 160" by (simp add: le_mod_geq)
    then show ?thesis using 1 True by (subst std_encrypted.simps, subst slice_protect.simps) simp
  next
    case False
    then have "length xs \<noteq> 16" using "1.prems" by auto
    then show ?thesis using False
      by (subst std_encrypted.simps, subst slice_protect.simps)
        (auto simp: std_encrypted.simps [of "[]"] slice_protect.simps [of "[]"])
  qed
qed

text \<open>
  The slices that the decrypter gives back: those that leave no 16 bytes at the end of a period, and clear ones without
  bytes that prevent start codes, which it would remove.
\<close>

definition slice_ok :: "bytes \<Rightarrow> bool" where
  "slice_ok x \<longleftrightarrow> (if length x \<le> 48 then length x < 48 \<and> discardEPB x = x else length x mod 160 \<noteq> 48)"

lemma gather_encrypted:
  assumes "length cs = length (slice_blocks (drop 32 plain))"
  shows "getAvcEncryptedData (take 32 plain @ slice_protect (drop 32 plain) cs) = Inr cs"
proof (cases "32 \<le> length plain")
  case True
  let ?p = "take 32 plain @ slice_protect (drop 32 plain) cs"
  note inv = slice_protect_inverse [OF assms]
  have "avc_gather ?p 32 = cs"
    using avc_gather_blocks [of "take 32 plain" "slice_protect (drop 32 plain) cs"] inv True by simp
  moreover have "encryptedDataLen ?p = int (length cs)"
  proof -
    have l: "length ?p = length plain" using inv True by simp
    show ?thesis
    proof (cases "48 \<le> length plain")
      case big: True
      then show ?thesis
        unfolding encryptedDataLen_def l assms slice_blocks_length using True by (simp add: of_nat_diff)
    next
      case False
      then have "(int (length plain) - 48) div 160 = - 1"
        using True by (intro int_div_pos_eq [where r = "int (length plain) - 48 + 160"]) simp_all
      then show ?thesis unfolding encryptedDataLen_def l assms slice_blocks_length using True False by simp
    qed
  qed
  ultimately show ?thesis by (simp add: getAvcEncryptedData_def Let_def)
next
  case False
  then have c: "cs = []" using assms by (subst (asm) slice_blocks.simps) simp
  have s: "slice_protect [] [] = []" by (subst slice_protect.simps) simp
  have "avc_gather plain 32 = []" using False by (subst avc_gather.simps) simp
  moreover have "(int (length plain) - 48) div 160 = - 1"
    using False by (intro int_div_pos_eq [where r = "int (length plain) - 48 + 160"]) simp_all
  ultimately show ?thesis using False by (simp add: getAvcEncryptedData_def encryptedDataLen_def c s Let_def)
qed

lemma decryptAvcSample_blocks:
  assumes "length cs = length (slice_blocks (drop 32 plain))"
    and "discardEPB (un_data u) = take 32 plain @ slice_protect (drop 32 plain) cs" and "dec cs c = Inr (slice_blocks (drop 32 plain), c')"
  shows "decryptAvcSample dec u c = Inr (u\<lparr>un_data := plain\<rparr>, c')"
proof -
  let ?p = "take 32 plain @ slice_protect (drop 32 plain) cs"
  note inv = slice_protect_inverse [OF assms(1)]
  have "getAvcDecryptedUnit ?p (slice_blocks (drop 32 plain)) 32 = plain"
  proof (cases "32 \<le> length plain")
    case True
    have "length (slice_blocks (slice_protect (drop 32 plain) cs)) = length (slice_blocks (drop 32 plain))"
      using inv assms(1) by simp
    then show ?thesis
      using decrypted_unit_protect [of "slice_protect (drop 32 plain) cs" "slice_blocks (drop 32 plain)" "take 32 plain"] inv True
      by simp
  next
    case False
    then show ?thesis using inv by (subst getAvcDecryptedUnit.simps) simp
  qed
  then show ?thesis
    using assms(2,3) gather_encrypted [OF assms(1)] by (simp add: decryptAvcSample_def Let_def)
qed

lemma decryptAvcSample_protect:
  assumes "slice_ok plain" and "\<And>x. 16 dvd length x \<Longrightarrow> length (enc x) = length x"
    and "un_data u = protect_unit enc plain" and "dec (enc (slice_blocks (drop 32 plain))) c = Inr (slice_blocks (drop 32 plain), c')"
  shows "decryptAvcSample dec u c = Inr (u\<lparr>un_data := plain\<rparr>, c')"
proof (rule decryptAvcSample_blocks)
  show len: "length (enc (slice_blocks (drop 32 plain))) = length (slice_blocks (drop 32 plain))"
    by (rule assms(2) [OF slice_blocks_16])
  show "discardEPB (un_data u) = take 32 plain @ slice_protect (drop 32 plain) (enc (slice_blocks (drop 32 plain)))"
  proof (cases "length plain \<le> 48")
    case True
    then have short: "length plain < 48" "discardEPB plain = plain" using assms(1) by (auto simp: slice_ok_def)
    have "\<not> 16 \<le> length (drop 32 plain)" using short(1) by simp
    then have "slice_protect (drop 32 plain) cs = drop 32 plain" for cs by (subst slice_protect.simps) (simp only: if_False)
    then show ?thesis using True short(2) by (simp add: assms(3) protect_unit_def)
  next
    case False
    then have "length plain mod 160 \<noteq> 48" using assms(1) by (simp add: slice_ok_def)
    moreover have "length plain mod 160 = (length (drop 32 plain) mod 160 + 32) mod 160" using False by (simp add: mod_add_left_eq)
    ultimately have m: "length (drop 32 plain) mod 160 \<noteq> 16" by auto
    have stuffed: "discardEPB (hd p # epb_escape 0 (tl p)) = p" if "p \<noteq> []" for p
      using that by (simp add: discardEPB_strip strip_escape)
    have "take 32 plain @ slice_protect (drop 32 plain) (enc (slice_blocks (drop 32 plain))) \<noteq> []" using False by auto
    then show ?thesis using False stuffed
      by (simp add: assms(3) protect_unit_def Let_def std_blocks_eq [OF m] std_encrypted_eq [OF m])
  qed
qed (rule assms(4))

text \<open>Of a clear slice of 48 bytes the last block is taken for encrypted.\<close>

lemma decryptAvcSample_clear_48:
  assumes "length x = 48" and "un_data u = x" and "discardEPB x = x" and "dec (drop 32 x) c = Inr (y, c')" and "length y = 16"
  shows "protect_unit enc x = x \<and> decryptAvcSample dec u c = Inr (u\<lparr>un_data := take 32 x @ y\<rparr>, c')"
proof -
  have one: "slice_blocks b = b" "slice_protect b c = take 16 c" if "length b = 16" for b c
    using that by (subst slice_blocks.simps slice_protect.simps,
        simp add: slice_blocks.simps [of "[]"] slice_protect.simps [of "[]"])+
  have "slice_blocks (drop 32 x) = drop 32 x" "slice_blocks y = y" "slice_protect y (drop 32 x) = drop 32 x"
    using assms(1,5) by (simp_all add: one)
  moreover have "take 32 (take 32 x @ y) = take 32 x" "drop 32 (take 32 x @ y) = y" using assms(1) by simp_all
  ultimately show ?thesis
    using decryptAvcSample_blocks [of "drop 32 x" "take 32 x @ y" u dec c c'] assms by (simp add: protect_unit_def)
qed

subsection \<open>Whole tracks\<close>

text \<open>The blocks of a buffer, and AES-128-CBC on buffers of whole blocks.\<close>

function blocks_of :: "bytes \<Rightarrow> aes_state list" where
  "blocks_of xs =
     (if 16 \<le> length xs
      then (get_uint32 xs 0, get_uint32 xs 4, get_uint32 xs 8, get_uint32 xs 12) # blocks_of (drop 16 xs) else [])"
  by pat_completeness auto
termination by (relation "measure length") auto

declare blocks_of.simps [simp del]

definition cbc_bytes :: "u32 list \<Rightarrow> aes_state \<Rightarrow> bytes \<Rightarrow> bytes" where
  "cbc_bytes key iv xs = concat (map block_bytes (aes128_cbc_encrypt key iv (blocks_of xs)))"

lemma bytes_be_get: "i + 3 < length xs \<Longrightarrow> bytes_be (get_uint32 xs i) = [xs ! i, xs ! (i + 1), xs ! (i + 2), xs ! (i + 3)]"
  by (simp add: bytes_be_def get_uint32_def)

lemma take_16:
  assumes "16 \<le> length xs"
  shows "take 16 xs = [xs ! 0, xs ! 1, xs ! 2, xs ! 3, xs ! 4, xs ! 5, xs ! 6, xs ! 7, xs ! 8, xs ! 9, xs ! 10, xs ! 11,
    xs ! 12, xs ! 13, xs ! 14, xs ! 15]"
proof -
  have "take 16 xs = map (\<lambda>i. xs ! i) [0..<16]" using assms by (intro nth_equalityI) simp_all
  then show ?thesis by (simp add: upt_rec eval_nat_numeral)
qed

lemma block_bytes_blocks: "16 dvd length xs \<Longrightarrow> concat (map block_bytes (blocks_of xs)) = xs"
proof (induction xs rule: blocks_of.induct)
  case (1 xs)
  show ?case
  proof (cases "16 \<le> length xs")
    case True
    have "16 dvd length (drop 16 xs)" using "1.prems" True by (simp add: dvd_diff_nat)
    then have "concat (map block_bytes (blocks_of (drop 16 xs))) = drop 16 xs" by (rule "1.IH" [OF True])
    moreover have "block_bytes (get_uint32 xs 0, get_uint32 xs 4, get_uint32 xs 8, get_uint32 xs 12) = take 16 xs"
      using True by (simp add: block_bytes_def bytes_be_get take_16 numeral_2_eq_2)
    ultimately show ?thesis using True by (subst blocks_of.simps) simp
  next
    case False
    then have "xs = []" using "1.prems" by (auto dest: dvd_imp_le)
    then show ?thesis by (subst blocks_of.simps) simp
  qed
qed

lemma length_cbc: "length (aes128_cbc_encrypt key iv ps) = length ps"
  by (induction ps arbitrary: iv) (simp_all add: Let_def)

lemma length_block_bytes [simp]: "length (block_bytes b) = 16"
  by (cases b) (simp add: block_bytes_def bytes_be_def)

lemma length_concat_blocks: "length (concat (map block_bytes bs)) = 16 * length bs"
  by (induction bs) simp_all

lemma length_cbc_bytes: "16 dvd length xs \<Longrightarrow> length (cbc_bytes key iv xs) = length xs"
  using arg_cong [OF block_bytes_blocks, of xs length]
  by (simp add: cbc_bytes_def length_concat_blocks length_cbc)

text \<open>
  What the loops need of the decryption of a buffer: an encryption that it inverts on whole blocks,
  in every state of the decrypter that it keeps.
\<close>

locale sample_cipher =
  fixes dec :: "bytes \<Rightarrow> ('c, bytes) stm" and enc :: "bytes \<Rightarrow> bytes" and ok :: "'c \<Rightarrow> bool"
  assumes length_enc: "16 dvd length x \<Longrightarrow> length (enc x) = length x"
    and dec_enc: "16 dvd length x \<Longrightarrow> ok c \<Longrightarrow> \<exists>c'. dec (enc x) c = Inr (x, c') \<and> ok c'"

text \<open>The protected samples: 16 clear bytes of audio, and the slices of video units of the types 1 and 5.\<close>

definition protect_aac :: "(bytes \<Rightarrow> bytes) \<Rightarrow> media_sample \<Rightarrow> media_sample" where
  "protect_aac enc s =
     (let u = sm_unit s; n = (length u - 16) div 16 * 16
      in if length u < 32 then s
         else s\<lparr>sm_unit := take 16 u @ enc (take n (drop 16 u)) @ drop (16 + n) u\<rparr>)"

definition protect_avc :: "(bytes \<Rightarrow> bytes) \<Rightarrow> avc_unit \<Rightarrow> avc_unit" where
  "protect_avc enc u =
     (if un_type u = 1 \<or> un_type u = 5
      then u\<lparr>un_data := protect_unit enc (un_data u)\<rparr> else u)"

definition protect_avc_sample :: "(bytes \<Rightarrow> bytes) \<Rightarrow> avc_sample \<Rightarrow> avc_sample" where
  "protect_avc_sample enc a = a\<lparr>av_units := map (protect_avc enc) (av_units a)\<rparr>"

definition protect_tracks :: "(bytes \<Rightarrow> bytes) \<Rightarrow> ts_demuxer \<Rightarrow> ts_demuxer" where
  "protect_tracks enc d =
     d\<lparr>ts_audioTrack := (ts_audioTrack d)\<lparr>au_samples :=
         (if au_isAAC (ts_audioTrack d) then map (protect_aac enc) (au_samples (ts_audioTrack d))
          else au_samples (ts_audioTrack d))\<rparr>,
       ts_avcTrack := (ts_avcTrack d)\<lparr>vt_samples := map (protect_avc_sample enc) (vt_samples (ts_avcTrack d))\<rparr>\<rparr>"

lemma bnd_ends:
  "m s = Inr (x, s') \<Longrightarrow> \<exists>c. f x s' = Inr (y, c) \<and> P c \<Longrightarrow> \<exists>c. bnd m f s = Inr (y, c) \<and> P c"
  by simp

context sample_cipher
begin

lemma aac_sample:
  assumes "ok c"
  shows "\<exists>c'. (if length (sm_unit (protect_aac enc s)) < 32 then ret (protect_aac enc s)
      else bnd (decryptAacSample dec (sm_unit (protect_aac enc s))) (\<lambda>u. ret ((protect_aac enc s)\<lparr>sm_unit := u\<rparr>))) c
    = Inr (s, c') \<and> ok c'"
proof (cases "length (sm_unit s) < 32")
  case True
  then show ?thesis using assms by (simp add: protect_aac_def Let_def)
next
  case False
  define u where "u = sm_unit s"
  define n where "n = (length u - 16) div 16 * 16"
  define x where "x = take n (drop 16 u)"
  have n: "n + 16 \<le> length u" "16 dvd n" using False div_times_less_eq_dividend [of "length u - 16" 16] by (auto simp: n_def u_def)
  have lx: "length x = n" using n by (simp add: x_def)
  let ?v = "take 16 u @ enc x @ drop (16 + n) u"
  have lv: "length ?v = length u" "length (enc x) = n" using length_enc [of x] n lx by simp_all
  have p: "protect_aac enc s = s\<lparr>sm_unit := ?v\<rparr>" using False by (simp add: protect_aac_def Let_def u_def n_def x_def)
  have e: "length u - length u mod 16 = 16 + n"
    using minus_mod_eq_div_mult [of "length u" 16] le_div_geq [of 16 "length u"] n(1) by (simp add: n_def)
  then have "int (length u) - int (length u) mod 16 = int (16 + n)"
    by (metis (no_types) mod_less_eq_dividend of_nat_diff of_nat_mod of_nat_numeral)
  then have sub: "subarray ?v 16 (int (length ?v) - int (length ?v) mod 16) = enc x"
    using subarray_nat [of 16 "16 + n" ?v] lv n(1) by simp
  obtain c' where c': "dec (enc x) c = Inr (x, c')" "ok c'" using dec_enc [of x c] n lx assms by auto
  have "set_at ?v x 16 = u"
    using n lx lv append_take_drop_id [of n "drop 16 u"] by (simp add: set_at_def x_def add.commute)
  then have "decryptAacSample dec ?v c = Inr (u, c')"
    unfolding decryptAacSample_def sub using c'(1) n(1) lx lv by simp
  then show ?thesis using False lv c'(2) by (simp add: p u_def)
qed

lemma aac_samples: "ok c \<Longrightarrow> \<exists>c'. decryptAacSamples dec (map (protect_aac enc) ss) c = Inr (ss, c') \<and> ok c'"
proof (induction ss arbitrary: c)
  case (Cons s ss)
  obtain c' where 1: "(if length (sm_unit (protect_aac enc s)) < 32 then ret (protect_aac enc s)
      else bnd (decryptAacSample dec (sm_unit (protect_aac enc s))) (\<lambda>u. ret ((protect_aac enc s)\<lparr>sm_unit := u\<rparr>))) c
    = Inr (s, c')" "ok c'"
    using aac_sample [OF Cons.prems] by blast
  obtain c'' where "decryptAacSamples dec (map (protect_aac enc) ss) c' = Inr (ss, c'')" "ok c''"
    using Cons.IH [OF 1(2)] by blast
  then have rest: "\<exists>c. bnd (decryptAacSamples dec (map (protect_aac enc) ss)) (\<lambda>xs. ret (s # xs)) c' = Inr (s # ss, c) \<and> ok c" by simp
  show ?case unfolding list.map decryptAacSamples.simps by (rule bnd_ends, rule 1(1), rule rest)
qed simp

lemma avc_units:
  "ok c \<Longrightarrow> (\<forall>u \<in> set us. un_type u = 1 \<or> un_type u = 5 \<longrightarrow> slice_ok (un_data u)) \<Longrightarrow>
   \<exists>c'. decryptAvcUnits dec (map (protect_avc enc) us) c = Inr (us, c') \<and> ok c'"
proof (induction us arbitrary: c)
  case (Cons u us)
  have "\<exists>c'. (if un_type (protect_avc enc u) \<noteq> 1 \<and> un_type (protect_avc enc u) \<noteq> 5 then ret (protect_avc enc u)
      else decryptAvcSample dec (protect_avc enc u)) c = Inr (u, c') \<and> ok c'"
  proof (cases "un_type u = 1 \<or> un_type u = 5")
    case True
    let ?x = "slice_blocks (drop 32 (un_data u))"
    obtain c' where c': "dec (enc ?x) c = Inr (?x, c')" "ok c'" using dec_enc [OF slice_blocks_16 Cons.prems(1)] by blast
    have "slice_ok (un_data u)" using True Cons.prems(2) by auto
    moreover have "un_data (protect_avc enc u) = protect_unit enc (un_data u)" using True by (simp add: protect_avc_def)
    ultimately have "decryptAvcSample dec (protect_avc enc u) c = Inr ((protect_avc enc u)\<lparr>un_data := un_data u\<rparr>, c')"
      using length_enc c'(1) by (intro decryptAvcSample_protect [where enc = enc]) simp_all
    then show ?thesis using True c'(2) by (auto simp: protect_avc_def)
  qed (use Cons.prems(1) in \<open>simp add: protect_avc_def\<close>)
  then obtain c' where 1: "(if un_type (protect_avc enc u) \<noteq> 1 \<and> un_type (protect_avc enc u) \<noteq> 5 then ret (protect_avc enc u)
      else decryptAvcSample dec (protect_avc enc u)) c = Inr (u, c')" "ok c'" by blast
  obtain c'' where "decryptAvcUnits dec (map (protect_avc enc) us) c' = Inr (us, c'')" "ok c''"
    using Cons.IH [OF 1(2)] Cons.prems(2) by auto
  then have rest: "\<exists>c. bnd (decryptAvcUnits dec (map (protect_avc enc) us)) (\<lambda>xs. ret (u # xs)) c' = Inr (u # us, c) \<and> ok c" by simp
  show ?case unfolding list.map decryptAvcUnits.simps by (rule bnd_ends, rule 1(1), rule rest)
qed simp

lemma avc_samples:
  "ok c \<Longrightarrow> (\<forall>a \<in> set as. \<forall>u \<in> set (av_units a). un_type u = 1 \<or> un_type u = 5 \<longrightarrow> slice_ok (un_data u)) \<Longrightarrow>
   \<exists>c'. decryptAvcSamples dec (map (protect_avc_sample enc) as) c = Inr (as, c') \<and> ok c'"
proof (induction as arbitrary: c)
  case (Cons a as)
  obtain c' where 1: "decryptAvcUnits dec (map (protect_avc enc) (av_units a)) c = Inr (av_units a, c')" "ok c'"
    using avc_units [OF Cons.prems(1), of "av_units a"] Cons.prems(2) by auto
  obtain c'' where "decryptAvcSamples dec (map (protect_avc_sample enc) as) c' = Inr (as, c'')" "ok c''"
    using Cons.IH [OF 1(2)] Cons.prems(2) by auto
  moreover have "av_units (protect_avc_sample enc a) = map (protect_avc enc) (av_units a)"
    "(protect_avc_sample enc a)\<lparr>av_units := av_units a\<rparr> = a"
    by (simp_all add: protect_avc_sample_def)
  ultimately show ?case using 1(1) by simp
qed simp

lemma tracks:
  assumes "ok c" and "\<forall>a \<in> set (vt_samples (ts_avcTrack d)). \<forall>u \<in> set (av_units a). un_type u = 1 \<or> un_type u = 5 \<longrightarrow> slice_ok (un_data u)"
  shows "\<exists>c'. decryptAndRemux dec (protect_tracks enc d) c = Inr (d, c') \<and> ok c'"
proof (cases "au_isAAC (ts_audioTrack d)")
  case True
  obtain c1 where 1: "decryptAacSamples dec (map (protect_aac enc) (au_samples (ts_audioTrack d))) c
      = Inr (au_samples (ts_audioTrack d), c1)" "ok c1"
    using aac_samples [OF assms(1)] by blast
  obtain c2 where "decryptAvcSamples dec (map (protect_avc_sample enc) (vt_samples (ts_avcTrack d))) c1
      = Inr (vt_samples (ts_avcTrack d), c2)" "ok c2"
    using avc_samples [OF 1(2) assms(2)] by blast
  then show ?thesis
    using True 1(1) by (auto simp: decryptAndRemux_def decryptAndRemuxAvc_def protect_tracks_def)
next
  case False
  obtain c2 where "decryptAvcSamples dec (map (protect_avc_sample enc) (vt_samples (ts_avcTrack d))) c
      = Inr (vt_samples (ts_avcTrack d), c2)" "ok c2"
    using avc_samples [OF assms] by blast
  then show ?thesis
    using False by (auto simp: decryptAndRemux_def decryptAndRemuxAvc_def protect_tracks_def)
qed

end

text \<open>The software decrypter is such a cipher, with AES-128-CBC under the words of the key buffer.\<close>

definition decrypter_ready :: "bytes \<Rightarrow> decrypter \<Rightarrow> bool" where
  "decrypter_ready key d \<longleftrightarrow> 16 \<le> length key \<and> (\<forall>a. dc_decryptor d = Some a \<longrightarrow> decryptor_ok a)"

definition key_words :: "bytes \<Rightarrow> u32 list" where
  "key_words key = map (\<lambda>i. get_uint32 key (i * 4)) [0..<4]"

interpretation software: sample_cipher "\<lambda>x. software_decrypt x key (block_bytes iv)" "cbc_bytes (key_words key) iv"
  "decrypter_ready key" for key iv
proof
  fix x :: bytes and c
  assume x: "16 dvd length x" and c: "decrypter_ready key c"
  let ?a = "case dc_decryptor c of None \<Rightarrow> new_AESDecryptor | Some a \<Rightarrow> a"
  have a: "decryptor_ok ?a" "16 \<le> length key"
    using c decryptor_ok_new by (auto simp: decrypter_ready_def split: option.split)
  obtain a' where a': "expandKey key ?a = Inr a'" "decryptor_ok a'" using expandKey_fips [OF a] by blast
  have "uint8ArrayToUint32Array key = Inr (key_words key)" using a(2) by (simp add: uint8ArrayToUint32Array_def key_words_def)
  then have "keyed a'" "ad_key a' = key_words key" using expandKey_keyed [OF a(1) _ a'(1)] by simp_all
  then have "aes_decrypt (cbc_bytes (key_words key) iv x) 0 (block_bytes iv) a' = Inr x"
    using aes_decrypt_cbc_encrypt [of a' iv "blocks_of x"] block_bytes_blocks [OF x] by (simp add: cbc_bytes_def)
  then show "\<exists>c'. software_decrypt (cbc_bytes (key_words key) iv x) key (block_bytes iv) c = Inr (x, c') \<and> decrypter_ready key c'"
    using a' a(2) by (simp add: software_decrypt_def Let_def decrypter_ready_def)
qed (rule length_cbc_bytes)

end
