(* ===== verification/Ts_Props.thy ===== *)
theory Ts_Props
  imports Ts_Nal Ts_Fragments Ts_Sei Ts_Tables Sample_Aes_Tracks
begin

text \<open>
  Properties of the transport stream demuxer: emulation prevention, NAL units, packets and their
  timestamps, program tables, and AAC frames across packets.
\<close>

text \<open>
  \<open>discardEPB\<close> undoes the emulation prevention of an H.264 encoder: whatever the bytes after the
  header byte of a unit are, inserting a 3 before every byte of at most 3 that follows two zero bytes
  and then discarding gives the unit back.
\<close>

lemma discardEPB_escape: "discardEPB (b # epb_escape 0 xs) = b # xs"
  by (simp add: discardEPB_strip strip_escape)

text \<open>
  A packet that consists of NAL units, each after a start code of three or four bytes, parses into
  exactly these units, in order and each with the type of its header byte, for units that neither
  contain a start code nor end in a zero byte; the last one carries the state of the scan, and the
  demuxer does not change.
\<close>

lemma parseAVCNALu_units:
  assumes "us \<noteq> []" and "\<forall>lu \<in> set us. nal_ok (snd lu)" and "vt_naluState (ts_avcTrack d) = 0"
  shows "\<exists>units. parseAVCNALu (annex_b us) d = Inr (units, d)
    \<and> map un_data units = map snd us \<and> map un_type units = map (\<lambda>lu. js_and (byte (snd lu) 0) 0x1f) us"
proof -
  obtain vs lu where us: "us = vs @ [lu]" using assms(1) by (cases us rule: rev_cases) auto
  show ?thesis using parseAVCNALu_annex_b [OF assms] by (simp add: us nal_unit_def nal_type_def comp_def)
qed

text \<open>The demuxer after a reset.\<close>

definition fresh_demuxer :: ts_demuxer where
  "fresh_demuxer = ts_resetInitSegment None None (Some 10)
     \<lparr>ts_pmtParsed = False, ts_pmtId = - 1, ts_avcTrack = new_avcTrack, ts_audioTrack = new_tsAudioTrack None,
      ts_audioPesData = None, ts_id3Track = \<lparr>it_id = - 1, it_samples = [], it_pesData = None\<rparr>, ts_txtSamples = [],
      ts_aacOverFlow = None, ts_aacLastPTS = None, ts_avcSample = None, ts_audioCodec = None, ts_videoCodec = None,
      ts_duration = None, ts_contiguous = False, ts_sampleAes = False, ts_events = []\<rparr>"

lemma fresh_fields [simp]:
  "ts_avcTrack fresh_demuxer = new_avcTrack" "ts_audioTrack fresh_demuxer = new_tsAudioTrack (Some 10)"
  "ts_aacOverFlow fresh_demuxer = None" "ts_aacLastPTS fresh_demuxer = None"
  by (simp_all add: fresh_demuxer_def ts_resetInitSegment_def)

lemma parseAVCNALu_units_witness:
  "\<exists>units. parseAVCNALu [0, 0, 0, 1, 9, 240, 0, 0, 1, 0x65, 0, 0, 3, 1, 128] fresh_demuxer = Inr (units, fresh_demuxer)
     \<and> map un_data units = [[9, 240], [0x65, 0, 0, 3, 1, 128]] \<and> map un_type units = [9, 5]"
proof -
  have ok: "\<forall>lu \<in> set [(True, [9, 240]), (False, [0x65, 0, 0, 3, 1, 128])]. nal_ok (snd lu)"
    by (simp add: nal_ok_def zstep_def)
  have "vt_naluState (ts_avcTrack fresh_demuxer) = 0" by (simp add: new_avcTrack_def)
  from parseAVCNALu_units [OF _ ok this] show ?thesis
    by (simp add: annex_b_def start_code_def byte_def js_and_def to_int32_def)
qed

text \<open>
  C12. A packet in the syntax of ISO 13818-1, with a presentation timestamp and perhaps a decoding
  timestamp of 33 bits, any stuffing and any payload, is parsed into its payload and its timestamps
  however the transport packets cut it into chunks. Timestamps of 2^32 and more become negative, and a
  presentation timestamp more than a minute after its decoding timestamp is replaced by it.
\<close>

theorem parsePES_chunks:
  assumes "concat ds = pes_header sid len pts dts stuffing @ payload"
    and "length stuffing \<le> 245" and "0 \<le> len" and "len < 65536" and "len \<le> int (length (concat ds)) - 6"
    and "0 \<le> pts" and "pts < 2 ^ 33" and "\<And>d. dts = Some d \<Longrightarrow> 0 \<le> d \<and> d < 2 ^ 33"
  shows "\<exists>p str. parsePES \<lparr>ps_data = ds, ps_size = int (length (concat ds))\<rparr> = Inr (Some p, str)
    \<and> pp_data p = payload \<and> (pp_pts p, pp_dts p) = pes_times pts dts"
  by (rule parsePES_header [OF assms])

lemma parsePES_chunks_witness:
  "\<exists>p str. parsePES \<lparr>ps_data = [[0, 0, 1, 0xE0, 0, 0, 0x80, 0xC0, 11, 0x3F, 0xFF], [0xFF, 0xFF, 0xFF, 0x11, 0, 1], [0, 181, 0xFF],
       [7, 8, 9]], ps_size = 23\<rparr> = Inr (Some p, str)
     \<and> pp_data p = [7, 8, 9] \<and> pp_pts p = Some (- 1) \<and> pp_dts p = Some 90"
proof -
  let ?ds = "[[0, 0, 1, 0xE0, 0, 0, 0x80, 0xC0, 11, 0x3F, 0xFF], [0xFF, 0xFF, 0xFF, 0x11, 0, 1], [0, 181, 0xFF],
    [7, 8, 9]] :: bytes list"
  have c: "concat ?ds = pes_header 0xE0 0 8589934591 (Some 90) [0xFF] @ [7, 8, 9]"
    by (simp add: pes_header_def stamp_bytes_def u8of_def)
  show ?thesis using parsePES_chunks [OF c] by (simp add: pes_times_def signed33_def)
qed

text \<open>
  AAC frames do not depend on how the packets cut them: for any sequence of packets whose bytes,
  put together, are ADTS frames, with each cut between two frames or at least six bytes into one, the
  track receives the payloads of exactly these frames in order, no error is triggered, and the bytes
  of an unfinished frame at the end are kept for the next packet.
\<close>

lemma aac_packets_frames:
  assumes "cuts_ok [] cs" and "map pp_data ps = map fst cs" and "ts_aacOverFlow d = None"
    and "au_samplerate (ts_audioTrack d) = Some r" and "r \<noteq> 0" and "au_isAAC (ts_audioTrack d)"
  shows "\<exists>d'. parse_packets env ps d = Inr d'
    \<and> map sm_unit (au_samples (ts_audioTrack d')) = map sm_unit (au_samples (ts_audioTrack d)) @ map adts_payload (cut_frames cs)
    \<and> ts_aacOverFlow d' = rest_state (last_rest [] cs) \<and> ts_events d' = ts_events d"
  using cuts_parse [OF assms(1,2) _ assms(4-6), of env] assms(3) by (auto simp: rest_state_def)

text \<open>A frame of ten bytes.\<close>

definition frame10 :: bytes where
  "frame10 = [0xFF, 0xF1, 0x50, 0x80, 0x01, 0x5F, 0xFC, 1, 2, 3]"

lemma frame10_fields:
  "adts_frame frame10" "adts_payload frame10 = [1, 2, 3]" "partial_frame (take 7 frame10)"
  by (simp_all add: frame10_def adts_frame_def adts_payload_def partial_frame_def adts_isHeaderPattern_def getHeaderLength_def
      getFullFrameLength_def byte_def at_index_def js_and_def js_or_def js_shl_def js_shr_def js_ushr_def to_int32_def to_uint32_def)

definition configured_demuxer :: ts_demuxer where
  "configured_demuxer = fresh_demuxer\<lparr>ts_audioTrack := (new_tsAudioTrack (Some 10))\<lparr>au_samplerate := Some 44100\<rparr>\<rparr>"

definition test_env :: ts_env where
  "test_env = \<lparr>te_userAgent = [], te_forceKeyFrameOnDiscontinuity = False, te_mpegSupported = True\<rparr>"

definition aac_pes :: "bytes \<Rightarrow> pes_packet" where
  "aac_pes data = \<lparr>pp_data = data, pp_pts = Some 90000, pp_dts = Some 90000, pp_len = None\<rparr>"

lemma aac_packets_frames_witness:
  "\<exists>d'. parse_packets test_env [aac_pes (frame10 @ take 7 frame10), aac_pes (drop 7 frame10)] configured_demuxer = Inr d'
     \<and> map sm_unit (au_samples (ts_audioTrack d')) = [[1, 2, 3], [1, 2, 3]] \<and> ts_aacOverFlow d' = None"
proof -
  have ok: "cuts_ok [] [(frame10 @ take 7 frame10, [frame10], take 7 frame10), (drop 7 frame10, [frame10], [])]"
    using frame10_fields by (simp add: partial_frame_def)
  show ?thesis
    using aac_packets_frames [OF ok, of "[aac_pes (frame10 @ take 7 frame10), aac_pes (drop 7 frame10)]" configured_demuxer 44100 test_env]
      frame10_fields(2)
    by (auto simp: aac_pes_def configured_demuxer_def new_tsAudioTrack_def cut_frames_def last_rest_def rest_state_def)
qed

text \<open>
  A frame that a packet boundary cuts within its first five bytes is lost, and with it these
  bytes: the packet leaves no overflow, and only the complete frames before it become samples.
\<close>

lemma aac_short_tail_lost:
  assumes "\<forall>f \<in> set fs. adts_frame f" and "fs \<noteq> []" and "length p \<le> 5" and "pp_data pes = concat fs @ p"
    and "ts_aacOverFlow d = None" and "au_samplerate (ts_audioTrack d) = Some r" and "r \<noteq> 0"
  shows "\<exists>d'. parseAACPES env pes d = Inr ((), d') \<and> ts_aacOverFlow d' = None \<and> ts_events d' = ts_events d
    \<and> map sm_unit (au_samples (ts_audioTrack d')) = map sm_unit (au_samples (ts_audioTrack d)) @ map adts_payload fs"
proof -
  obtain f gs where fs: "fs = f # gs" using assms(2) by (cases fs) auto
  let ?data = "concat fs @ p"
  have f: "adts_frame f" using assms(1) fs by simp
  have "adts_isHeader ?data 0"
    using header_prefix(1) [of f "concat gs @ p"] adts_frame_length [OF f] f by (simp add: adts_isHeader_def fs adts_frame_def)
  then have f0: "find_adts ?data 0 = 0" by (rule find_adts_0)
  have cfg: "initTrackConfig ua (ts_audioTrack d) ?data 0 codec = ([], Inr (ts_audioTrack d))" for ua codec
    using assms(6,7) by (simp add: initTrackConfig_def)
  have "list_all adts_frame fs" using assms(1) by (simp add: list_all_iff)
  note scan = aac_scan_frames_short [OF this assms(3), of "[]" _ 0]
  show ?thesis
    using assms(5) unfolding parseAACPES_def assms(4) Let_def
    by (simp add: f0 cfg scan [simplified] scan_samples_fields)
qed

lemma aac_short_tail_lost_witness:
  "\<exists>d'. parseAACPES test_env (aac_pes (frame10 @ take 5 frame10)) configured_demuxer = Inr ((), d')
     \<and> ts_aacOverFlow d' = None \<and> map sm_unit (au_samples (ts_audioTrack d')) = [[1, 2, 3]]"
  using aac_short_tail_lost [of "[frame10]" "take 5 frame10" "aac_pes (frame10 @ take 5 frame10)" configured_demuxer 44100 test_env]
    frame10_fields
  by (auto simp: aac_pes_def configured_demuxer_def new_tsAudioTrack_def)

text \<open>
  Reading the captions of an SEI unit ends without an error for all bytes: neither the sums of
  0xFF bytes nor the loop over the messages can go on for ever at the end of the data, where the
  reader keeps returning what is left in its register.
\<close>

lemma sei_captions_ends: "\<exists>c. sei_captions data = Inr c"
proof -
  obtain v s' where "readUByte (new_ExpGolomb (discardEPB data)) = Inr (v, s')" "byte_reader s'"
    using readUByte_step [OF byte_reader_new] by blast
  moreover obtain c s'' where "sei_loop s' = Inr (c, s'')" using sei_loop_total [OF calculation(2)] by blast
  ultimately show ?thesis by (simp add: sei_captions_def)
qed

text \<open>
  C11. From transport packets to samples: when the audio stream is known and configured, appending a
  fragment of its transport packets gives the track the payload of every AAC frame that was sent, once
  and in order, however the frames are cut into packets of the stream (between frames or at least six
  bytes into one) and these into transport packets with their adaptation fields.
\<close>

theorem ts_append_delivers:
  assumes "0 \<le> pid" and "pid < 8192" and "us \<noteq> []" and "\<forall>cs \<in> set us. \<forall>c \<in> set cs. c \<noteq> [] \<and> length c \<le> 184"
    and "list_all2 pes_unit us (map fst cuts)" and "cuts_ok [] cuts"
    and "au_id (ts_audioTrack d) = pid" and "vt_id (ts_avcTrack d) \<noteq> pid" and "au_isAAC (ts_audioTrack d)"
    and "au_samplerate (ts_audioTrack d) = Some r" and "r \<noteq> 0" and "idle d"
  shows "\<exists>d'. ts_append env (pkts pid (units_chunks us)) contiguous d = Inr d'
    \<and> map sm_unit (au_samples (ts_audioTrack d')) = map sm_unit (au_samples (ts_audioTrack d)) @ map adts_payload (cut_frames cuts)
    \<and> ts_aacOverFlow d' = rest_state (last_rest [] cuts)"
proof -
  obtain pess where p: "list_all2 parses_to us pess" "map pp_data pess = map fst cuts" and ne: "\<forall>cs \<in> set us. cs \<noteq> []"
    using pes_units_parse [OF assms(5)] by blast
  obtain u us' where us: "us = u # us'" using assms(3) by (cases us) auto
  have "chunks_ok (units_chunks us)"
    using assms(4) by (fastforce simp: chunks_ok_def units_chunks_def unit_chunks_def split: list.splits)
  moreover obtain track t where "parse_packets env pess (d\<lparr>ts_contiguous := contiguous\<rparr>)
      = Inr (d\<lparr>ts_contiguous := contiguous, ts_audioTrack := track, ts_aacOverFlow := rest_state (last_rest [] cuts), ts_aacLastPTS := t\<rparr>)"
    "map sm_unit (au_samples track) = map sm_unit (au_samples (ts_audioTrack d)) @ map adts_payload (cut_frames cuts)"
    using cuts_parse [OF assms(6) p(2), of "d\<lparr>ts_contiguous := contiguous\<rparr>" r env] assms(9-12)
    by (auto simp: idle_def rest_state_def)
  ultimately show ?thesis
    using ts_append_audio [OF assms(1,2), of u us' pess d env contiguous] ne p(1) assms(7,8,12)
    by (auto simp: us idle_def)
qed

definition audio_demuxer :: ts_demuxer where
  "audio_demuxer = configured_demuxer\<lparr>ts_audioTrack := (new_tsAudioTrack None)\<lparr>au_id := 257, au_samplerate := Some 44100\<rparr>\<rparr>"

lemma ts_append_delivers_witness:
  "\<exists>d'. ts_append test_env (pkts 257 (units_chunks [[pes_header 0xC0 0 90000 None [] @ frame10 @ take 7 frame10],
        [pes_header 0xC0 0 93000 None [], drop 7 frame10]])) True audio_demuxer = Inr d'
     \<and> map sm_unit (au_samples (ts_audioTrack d')) = [[1, 2, 3], [1, 2, 3]] \<and> ts_aacOverFlow d' = None"
proof -
  let ?us = "[[pes_header 0xC0 0 90000 None [] @ frame10 @ take 7 frame10], [pes_header 0xC0 0 93000 None [], drop 7 frame10]]"
  let ?cuts = "[(frame10 @ take 7 frame10, [frame10], take 7 frame10), (drop 7 frame10, [frame10], [])]"
  have unit: "pes_unit cs payload" if "concat cs = pes_header 0xC0 0 pts None [] @ payload" "0 \<le> pts" "pts < 2 ^ 33" for cs payload pts
    unfolding pes_unit_def
    using that by (intro exI [of _ "0xC0"] exI [of _ 0] exI [of _ pts] exI [of _ None] exI [of _ "[]"])
      (simp add: length_pes_header)
  have u: "list_all2 pes_unit ?us (map fst ?cuts)"
    using unit [of "hd ?us" 90000] unit [of "?us ! 1" 93000] by simp
  have c: "cuts_ok [] ?cuts" using frame10_fields by (simp add: partial_frame_def)
  have l: "\<forall>cs \<in> set ?us. \<forall>c \<in> set cs. c \<noteq> [] \<and> length c \<le> 184"
    by (simp add: length_pes_header frame10_def) (simp add: pes_header_def)
  have d: "idle audio_demuxer" "ts_avcTrack audio_demuxer = new_avcTrack"
    "ts_audioTrack audio_demuxer = (new_tsAudioTrack None)\<lparr>au_id := 257, au_samplerate := Some 44100\<rparr>"
    by (simp_all add: idle_def audio_demuxer_def configured_demuxer_def fresh_demuxer_def ts_resetInitSegment_def new_avcTrack_def)
  show ?thesis
    using ts_append_delivers [OF _ _ _ l u c, of 257 audio_demuxer 44100 test_env True] d frame10_fields(2)
    by (auto simp: new_tsAudioTrack_def new_avcTrack_def cut_frames_def last_rest_def rest_state_def)
qed

subsection \<open>Sample decryption\<close>

text \<open>
  C13. SAMPLE-AES with the software decrypter: for tracks whose samples are protected as the format prescribes, with
  AES-128-CBC as FIPS 197 defines it - the whole blocks of audio after 16 clear bytes; of the video units of types 1 and 5 that are
  longer than 48 bytes a block of 16 bytes after 32 clear bytes, followed by 144 clear ones, as long as more than 16 bytes are left,
  with emulation prevention over the result; shorter units clear - decryption before remuxing
  returns every sample as it was and changes nothing else, for any key of 16 bytes and any vector. Two
  kinds of slices are excluded, which the code does not return: those with exactly 16 bytes left where a block may begin
  (a clear slice of 48 bytes among them, see \<open>decryptAvcSample_clear_48\<close>), and clear ones with bytes of emulation prevention.
\<close>

theorem decryptAndRemux_protected:
  assumes "16 \<le> length key" and "\<forall>a. dc_decryptor c = Some a \<longrightarrow> decryptor_ok a"
    and "\<forall>s \<in> set (vt_samples (ts_avcTrack d)). \<forall>u \<in> set (av_units s). un_type u = 1 \<or> un_type u = 5 \<longrightarrow> slice_ok (un_data u)"
  shows "\<exists>c'. decryptAndRemux (\<lambda>x. software_decrypt x key (block_bytes iv)) (protect_tracks (cbc_bytes (key_words key) iv) d) c
    = Inr (d, c')"
  using software.tracks [of key c d iv] assms by (auto simp: decrypter_ready_def)

definition clear_demuxer :: ts_demuxer where
  "clear_demuxer = audio_demuxer\<lparr>
     ts_audioTrack := (new_tsAudioTrack None)\<lparr>au_samples := [\<lparr>sm_unit = replicate 40 7, sm_pts = None, sm_dts = None\<rparr>]\<rparr>,
     ts_avcTrack := new_avcTrack\<lparr>vt_samples :=
       [(createAVCSample False None None)\<lparr>av_units := [nal_unit (0x65 # replicate 59 1) None, nal_unit (0x41 # replicate 9 2) None]\<rparr>]\<rparr>\<rparr>"

lemma decryptAndRemux_protected_witness:
  "\<exists>c'. decryptAndRemux (\<lambda>x. software_decrypt x fips_key (block_bytes (1, 2, 3, 4)))
      (protect_tracks (cbc_bytes (key_words fips_key) (1, 2, 3, 4)) clear_demuxer) (new_Decrypter False True)
    = Inr (clear_demuxer, c')"
proof -
  have "discardEPB (0x41 # replicate 9 2) = 0x41 # epb_strip (replicate 9 2)" by (rule discardEPB_strip)
  also have "epb_strip (replicate 9 2) = replicate 9 2" by (simp add: eval_nat_numeral)
  finally have "\<forall>s \<in> set (vt_samples (ts_avcTrack clear_demuxer)). \<forall>u \<in> set (av_units s).
      un_type u = 1 \<or> un_type u = 5 \<longrightarrow> slice_ok (un_data u)"
    by (simp add: clear_demuxer_def nal_unit_def slice_ok_def)
  then show ?thesis
    using decryptAndRemux_protected [of fips_key "new_Decrypter False True" clear_demuxer "(1, 2, 3, 4)"]
    by (simp add: fips_key_def new_Decrypter_def)
qed

text \<open>
  When the browser rejects a decryption and the software fallback is enabled, the callback is
  called twice: first with the plain text that the fallback computes, and then with \<open>undefined\<close>. From
  then on the decrypter is synchronous and calls the callback once.
\<close>

lemma decrypt_rejected_calls_twice:
  assumes "16 \<le> length key" and "\<forall>a. dc_decryptor c = Some a \<longrightarrow> decryptor_ok a" and "16 dvd length plain"
    and "\<not> dc_disableWebCrypto c" and "dc_enableSoftwareAES c" and "import_key key"
    and "web key (block_bytes iv) (cbc_bytes (key_words key) iv plain) = None"
  shows "\<exists>c'. decrypter_decrypt import_key web (cbc_bytes (key_words key) iv plain) key (block_bytes iv) c
      = Inr (\<lparr>cl_calls = [Some plain, None], cl_events = []\<rparr>, c')
    \<and> isSync c' \<and> (\<exists>c''. decrypter_decrypt import_key web (cbc_bytes (key_words key) iv plain) key (block_bytes iv) c'
         = Inr (\<lparr>cl_calls = [Some plain], cl_events = []\<rparr>, c''))"
proof -
  let ?x = "cbc_bytes (key_words key) iv plain"
  let ?c = "c\<lparr>dc_logEnabled := False, dc_key := Some key, dc_disableWebCrypto := True, dc_logEnabled := True\<rparr>"
  have "decrypter_ready key ?c" using assms(1,2) by (simp add: decrypter_ready_def)
  then obtain c1 where c1: "software_decrypt ?x key (block_bytes iv) ?c = Inr (plain, c1)" "decrypter_ready key c1"
    using software.dec_enc [OF assms(3)] by blast
  then obtain c2 where c2: "software_decrypt ?x key (block_bytes iv) c1 = Inr (plain, c2)"
    using software.dec_enc [OF assms(3) c1(2)] by blast
  have sync: "isSync c1" "\<not> isSync c"
    using c1(1) assms(4,5) by (auto simp: software_decrypt_def isSync_def Let_def split: sum.splits)
  then show ?thesis
    using c1(1) c2 assms(5-7) by (simp add: decrypter_decrypt_def onWebCryptoError_def Let_def)
qed

lemma decrypt_rejected_calls_twice_witness:
  "\<exists>c'. decrypter_decrypt (\<lambda>k. True) (\<lambda>k v x. None) (cbc_bytes (key_words fips_key) (1, 2, 3, 4) (replicate 16 9)) fips_key
      (block_bytes (1, 2, 3, 4)) (new_Decrypter True True)
    = Inr (\<lparr>cl_calls = [Some (replicate 16 9), None], cl_events = []\<rparr>, c')"
  using decrypt_rejected_calls_twice [of fips_key "new_Decrypter True True" "replicate 16 9" "\<lambda>k. True" "\<lambda>k v x. None" "(1, 2, 3, 4)"]
  by (auto simp: fips_key_def new_Decrypter_def)

subsection \<open>Program tables\<close>

text \<open>
  Parsing a program map section returns, for any program descriptors, entries and entry
  descriptors, the packet id of the first entry of each kind - AAC or, where the browser plays it, MPEG
  audio; H.264; ID3 - or -1, with the encrypted types only when the samples are to be decrypted, and
  whether the audio is AAC.
\<close>

lemma parsePMT_first_pids:
  assumes "\<forall>e \<in> set es. pmt_ok e" and "13 + length info + length (concat (map pmt_bytes es)) < 4096"
  shows "parsePMT (pre @ pmt_section info es crc @ post) (Some (length pre)) mpegSupported isSampleAes =
    \<lparr>pm_audio = first_pid (audio_types mpegSupported isSampleAes) es, pm_avc = first_pid (avc_types isSampleAes) es,
     pm_id3 = first_pid {0x15} es,
     pm_isAAC = (case filter (\<lambda>e. fst e \<in> audio_types mpegSupported isSampleAes) es of [] \<Rightarrow> True | e # _ \<Rightarrow> fst e \<notin> {3, 4})\<rparr>"
  by (rule parsePMT_section [OF assms])

lemma parsePMT_first_pids_witness:
  "parsePMT ([0] @ pmt_section [1, 2] [(0x0f, 257, [10, 4, 0, 0]), (0x1b, 256, []), (0x0f, 300, []), (0xdb, 301, [])] [0, 0, 0, 0] @ [0xFF])
     (Some 1) True False = \<lparr>pm_audio = 257, pm_avc = 256, pm_id3 = - 1, pm_isAAC = True\<rparr>"
  using parsePMT_first_pids [of "[(0x0f, 257, [10, 4, 0, 0]), (0x1b, 256, []), (0x0f, 300, []), (0xdb, 301, [])]" "[1, 2]" "[0]"
      "[0, 0, 0, 0]" "[0xFF]" True False]
  by (simp add: pmt_ok_def length_pmt_bytes first_pid_def audio_types_def avc_types_def)

end
