(* ===== verification/Audio_Props.thy ===== *)
theory Audio_Props
  imports Id3 Audio_Headers Ts_Packets
begin

text \<open>
  Properties of the ID3 and MPEG audio parsers.
\<close>

subsection \<open>ID3 timestamps\<close>

text \<open>The 33-bit timestamp as eight big-endian bytes.\<close>

definition bytes8 :: "int \<Rightarrow> bytes" where
  "bytes8 t = [0, 0, 0, u8of (t div 2 ^ 32), u8of (t div 2 ^ 24 mod 256), u8of (t div 2 ^ 16 mod 256),
    u8of (t div 2 ^ 8 mod 256), u8of (t mod 256)]"

text \<open>The tag that carries it: one private frame with the owner and the timestamp.\<close>

definition timestamp_tag :: "int \<Rightarrow> bytes" where
  "timestamp_tag t =
     [0x49, 0x44, 0x33, 4, 0, 0, 0, 0, 0, 63] @ map char_code ''PRIV'' @ [0, 0, 0, 53, 0, 0]
     @ map char_code ''com.apple.streaming.transportStreamTimestamp'' @ [0] @ bytes8 t"

lemma utf8_ascii:
  "(\<forall>b \<in> set bs. 16 \<le> uint b \<and> uint b < 128) \<Longrightarrow> utf8ArrayToStr (bs @ 0 # rest) = map uint bs"
proof (induction bs)
  case (Cons b bs)
  have "js_shr (uint b) 4 = uint b div 16" using Cons.prems by (simp add: js_shr_def to_int32_nonneg drop_bit_eq_div)
  moreover have "uint b div 16 \<noteq> 0" "1 \<le> uint b div 16" "uint b div 16 \<le> 7" using Cons.prems by auto
  ultimately show ?case using Cons by (simp add: Let_def)
qed (simp add: js_shr_def)

lemma bytes8_fields:
  assumes "0 \<le> t" and "t < 2 ^ 33"
  shows "byte (bytes8 t) 3 = t div 2 ^ 32" "byte (bytes8 t) 4 = t div 2 ^ 24 mod 256" "byte (bytes8 t) 5 = t div 2 ^ 16 mod 256"
    "byte (bytes8 t) 6 = t div 2 ^ 8 mod 256" "byte (bytes8 t) 7 = t mod 256"
proof -
  have "0 \<le> t div 2 ^ 32" "t div 2 ^ 32 < 256" using assms by (simp_all add: pos_imp_zdiv_nonneg_iff)
  then show "byte (bytes8 t) 3 = t div 2 ^ 32" "byte (bytes8 t) 4 = t div 2 ^ 24 mod 256" "byte (bytes8 t) 5 = t div 2 ^ 16 mod 256"
    "byte (bytes8 t) 6 = t div 2 ^ 8 mod 256" "byte (bytes8 t) 7 = t mod 256"
    by (simp_all add: bytes8_def byte_def uint_u8of)
qed

lemma shl_byte: "0 \<le> x \<Longrightarrow> x < 256 \<Longrightarrow> n \<le> 23 \<Longrightarrow> js_shl x n = x * 2 ^ n"
proof -
  assume a: "0 \<le> x" "x < 256" "n \<le> 23"
  have "(2 :: int) ^ n \<le> 2 ^ 23" using a(3) by (rule power_increasing) simp
  then have "x * 2 ^ n \<le> 255 * 2 ^ 23" using a by (intro mult_mono) simp_all
  then show ?thesis using a by (simp add: js_shl_def push_bit_eq_mult to_int32_nonneg)
qed

text \<open>The value that the code computes, and its distance from the exact one.\<close>

definition computed_stamp :: "int \<Rightarrow> rat" where
  "computed_stamp t =
     of_int (t mod 2 ^ 32 div 256 * 128 + t mod 256) / 45 + (if t < 2 ^ 32 then 0 else 4772185884 / 100)"

lemma stamp_high: "0 \<le> t \<Longrightarrow> t < 2 ^ 33 \<Longrightarrow> t div 2 ^ 32 = (if t < 2 ^ 32 then 0 else (1 :: int))"
  by (auto intro: int_div_pos_eq [where r = "t - 2 ^ 32"])

lemma stamp_split:
  "(t :: int) mod 2 ^ 32 div 256 = t div 2 ^ 24 mod 256 * 2 ^ 16 + t div 2 ^ 16 mod 256 * 2 ^ 8 + t div 2 ^ 8 mod 256"
proof -
  have 1: "t mod 2 ^ 32 div 256 = t div 256 mod 2 ^ 24" using zmod_zmult2_eq [of "2 ^ 24" t 256] by simp
  have 2: "x mod 2 ^ 24 = x div 2 ^ 16 mod 2 ^ 8 * 2 ^ 16 + x mod 2 ^ 16" for x :: int
    using zmod_zmult2_eq [of "2 ^ 8" x "2 ^ 16"] by simp
  have 3: "x mod 2 ^ 16 = x div 2 ^ 8 mod 2 ^ 8 * 2 ^ 8 + x mod 2 ^ 8" for x :: int
    using zmod_zmult2_eq [of "2 ^ 8" x "2 ^ 8"] by simp
  have 4: "t div 256 div 2 ^ 16 = t div 2 ^ 24" "t div 256 div 2 ^ 8 = t div 2 ^ 16"
    by (simp_all add: zdiv_zmult2_eq [symmetric])
  show ?thesis unfolding 1 2 [of "t div 256"] 3 [of "t div 256"] 4 by simp
qed

lemma readTimeStamp_bytes8:
  assumes "0 \<le> t" and "t < 2 ^ 33"
  shows "readTimeStamp \<lparr>if_key = k, if_info = i, if_data = Buffer (bytes8 t)\<rparr> = Some (js_round (computed_stamp t))"
proof -
  note split = stamp_split [of t]
  have b32: "js_and (t div 2 ^ 32) 1 \<noteq> 0 \<longleftrightarrow> \<not> t < 2 ^ 32"
    unfolding stamp_high [OF assms] by (simp add: js_and_def to_int32_nonneg)
  have l: "length (bytes8 t) = 8" by (simp add: bytes8_def)
  have sum: "js_shl (t div 2 ^ 24 mod 256) 23 + js_shl (t div 2 ^ 16 mod 256) 15 + js_shl (t div 2 ^ 8 mod 256) 7 + t mod 256
      = t mod 2 ^ 32 div 256 * 128 + t mod 256"
  proof -
    have s: "js_shl (x mod 256) n = x mod 256 * 2 ^ n" if "n \<le> 23" for x n using that by (intro shl_byte) simp_all
    show ?thesis unfolding split using s [of 23] s [of 15] s [of 7] by (simp only:) simp
  qed
  show ?thesis
    unfolding readTimeStamp_def id3_frame.simps id3_content.case l bytes8_fields [OF assms] Let_def b32 computed_stamp_def sum
    by (cases "t < 2 ^ 32") (simp_all only: if_True if_False not_True_eq_False not_False_eq_True add_0_right simp_thms)
qed

lemma computed_stamp_close:
  assumes "0 \<le> t" and "t < 2 ^ 33"
  shows "\<bar>of_int (js_round (computed_stamp t)) * 90 - of_int t\<bar> \<le> (301 :: rat)"
proof -
  define q where "q = t mod 2 ^ 32 div 256"
  define r where "r = t mod 256"
  define h where "h = t div 2 ^ 32"
  have hq: "t = h * 2 ^ 32 + q * 256 + r"
  proof -
    have "t mod 2 ^ 32 mod 256 = r" by (simp add: r_def mod_mod_cancel)
    then have "t mod 2 ^ 32 = q * 256 + r" unfolding q_def using div_mult_mod_eq [of "t mod 2 ^ 32" 256] by simp
    then show ?thesis unfolding h_def using div_mult_mod_eq [of t "2 ^ 32"] by simp
  qed
  have r: "0 \<le> r" "r < 256" by (simp_all add: r_def)
  have h: "h = 0 \<and> t < 2 ^ 32 \<or> h = 1 \<and> \<not> t < 2 ^ 32" unfolding h_def stamp_high [OF assms] by simp
  define x where "x = computed_stamp t"
  have x90: "x * 90 = of_int (q * 256 + 2 * r) + (if h = 0 then 0 else 42949672956 / 10)"
    using h by (auto simp: x_def computed_stamp_def q_def r_def)
  have rnd: "x - 1 / 2 \<le> of_int (js_round x)" "of_int (js_round x) \<le> x + 1 / 2"
    unfolding js_round_def by linarith+
  have "of_int t = (of_int h * 2 ^ 32 + of_int q * 256 + of_int r :: rat)" using arg_cong [OF hq, of "of_int :: int \<Rightarrow> rat"] by simp
  moreover have "(0 :: rat) \<le> of_int r" "(of_int r :: rat) \<le> 255" using r by simp_all
  ultimately show ?thesis using x90 rnd h unfolding x_def [symmetric] by auto
qed

text \<open>The parser on the tag.\<close>

lemma uint_char_code: "uint (char_code c) = of_char c"
proof -
  have "of_char c < (256 :: nat)" by (rule nat_of_char_less_256)
  then have "uint (char_code c) = int (of_char c)" by (simp add: char_code_def unsigned_of_nat take_bit_nat_eq_self)
  then show ?thesis by (simp add: of_nat_of_char)
qed

lemma map_uint_chars: "map uint (map char_code s) = codes s"
  by (simp add: codes_def uint_char_code comp_def)

abbreviation "owner \<equiv> ''com.apple.streaming.transportStreamTimestamp''"

lemma owner_ascii: "\<forall>b \<in> set (map char_code owner). 16 \<le> uint b \<and> uint b < 128"
  by (simp add: char_code_def)

lemma length_owner: "length owner = 44"
  by simp

definition stamp_frame :: "int \<Rightarrow> bytes" where
  "stamp_frame t = map char_code ''PRIV'' @ [0, 0, 0, 53, 0, 0] @ map char_code owner @ [0] @ bytes8 t"

lemma length_bytes8 [simp]: "length (bytes8 t) = 8"
  by (simp add: bytes8_def)

lemma frame_data: "getFrameData (stamp_frame t)
    = \<lparr>rf_type = codes ''PRIV'', rf_size = 53, rf_data = map char_code owner @ [0] @ bytes8 t\<rparr>"
proof -
  let ?d = "map char_code owner @ [0] @ bytes8 t"
  have f: "stamp_frame t = [0x50, 0x52, 0x49, 0x56, 0, 0, 0, 53, 0, 0] @ ?d"
    by (simp add: stamp_frame_def char_code_def)
  have l: "length ?d = 53" by simp
  have s: "nat (readSize (stamp_frame t) 4) = 53"
    unfolding f by (simp add: readSize_def byte_def js_and_def js_or_def js_shl_def to_int32_nonneg)
  have "subarray (stamp_frame t) 10 (10 + int 53) = ?d"
    using subarray_nat [of 10 63 "stamp_frame t"] l unfolding f by simp
  moreover have "[byte (stamp_frame t) 0, byte (stamp_frame t) 1, byte (stamp_frame t) 2, byte (stamp_frame t) 3] = codes ''PRIV''"
    unfolding f by (simp add: byte_def codes_def)
  ultimately show ?thesis unfolding getFrameData_def Let_def s by (simp only:)
qed

lemma tag_frame_decoded:
  "decodeFrame (getFrameData (stamp_frame t))
    = Some \<lparr>if_key = codes ''PRIV'', if_info = Some (codes owner), if_data = Buffer (bytes8 t)\<rparr>"
proof -
  have o1: "utf8ArrayToStr (map char_code owner @ [0] @ bytes8 t) = codes owner"
    using utf8_ascii [OF owner_ascii, of "bytes8 t"] by (simp only: map_uint_chars append.simps)
  have "length (codes owner) = 44" by (simp add: codes_def)
  then show ?thesis
    unfolding frame_data decodeFrame_def decodePrivFrame_def Let_def raw_frame.simps o1 by simp
qed

lemma getID3Frames_tag:
  "getID3Frames (timestamp_tag t)
    = [\<lparr>if_key = codes ''PRIV'', if_info = Some (codes owner), if_data = Buffer (bytes8 t)\<rparr>]"
proof -
  let ?tag = "timestamp_tag t"
  have tag: "?tag = [0x49, 0x44, 0x33, 4, 0, 0, 0, 0, 0, 63] @ stamp_frame t"
    by (simp add: timestamp_tag_def stamp_frame_def)
  have l: "length (stamp_frame t) = 63" by (simp add: stamp_frame_def)
  then have lt: "length ?tag = 73" by (simp add: tag)
  have hdr: "isHeader ?tag 0" "nat (readSize ?tag 6) = 63"
    by (simp_all add: isHeader_def lt)
      (simp_all add: tag data_is_def at_index_def byte_def readSize_def js_and_def js_or_def js_shl_def to_int32_nonneg)
  have "tag_frames ?tag 73 73 fs = (fs, 73)" for fs by (subst tag_frames.simps) simp
  moreover have "drop 10 ?tag = stamp_frame t" by (simp add: tag)
  ultimately have tf: "tag_frames ?tag 10 73 []
      = ([\<lparr>if_key = codes ''PRIV'', if_info = Some (codes owner), if_data = Buffer (bytes8 t)\<rparr>], 73)"
    by (subst tag_frames.simps) (simp add: Let_def tag_frame_decoded frame_data [THEN arg_cong, of rf_size] del: codes_def)
  have "\<not> isFooter ?tag 73" "\<not> isHeader ?tag 73" by (simp_all add: isFooter_def isHeader_def lt)
  then show ?thesis
    unfolding getID3Frames_def using hdr tf
    by (subst frames_loop.simps) (simp add: Let_def frames_loop.simps [of ?tag 73])
qed

text \<open>
  The timestamp of a private frame: for the tag that carries a 33-bit timestamp of the 90 kHz
  clock, the parser returns a number of milliseconds, and it is within 301 ticks of the timestamp
  (the last byte is not halved with the others, which alone can add 2.8 ms).
\<close>

lemma getTimeStamp_close:
  assumes "0 \<le> t" and "t < 2 ^ 33"
  shows "\<exists>ms. getTimeStamp (timestamp_tag t) = Some ms \<and> \<bar>of_int ms * 90 - of_int t\<bar> \<le> (301 :: rat)"
proof -
  have "filter isTimeStampFrame (getID3Frames (timestamp_tag t))
      = [\<lparr>if_key = codes ''PRIV'', if_info = Some (codes owner), if_data = Buffer (bytes8 t)\<rparr>]"
    unfolding getID3Frames_tag by (simp add: isTimeStampFrame_def)
  then show ?thesis
    using readTimeStamp_bytes8 [OF assms] computed_stamp_close [OF assms] by (simp add: getTimeStamp_def)
qed

lemma getTimeStamp_close_witness:
  "\<exists>ms. getTimeStamp (timestamp_tag 900255) = Some ms \<and> \<bar>of_int ms * 90 - 900255\<bar> \<le> (301 :: rat)"
  using getTimeStamp_close [of 900255] by simp

text \<open>
  Whatever four bytes pass the MPEG audio header parser, the frame length it returns is at least 24
  and at most 1729 bytes and the sample rate between 8 and 48 kHz: the scan of an audio packet always
  advances, and the division by the sample rate is defined.
\<close>

lemma parseHeader_frame_bounds:
  assumes "parseHeader data offset = Some h"
  shows "24 \<le> mh_frameLength h \<and> mh_frameLength h \<le> 1729 \<and> 8000 \<le> mh_sampleRate h \<and> mh_sampleRate h \<le> 48000"
  using parseHeader_bounds [OF assms] by simp

lemma parseHeader_frame_bounds_witness:
  "\<exists>h. parseHeader [0xFF, 0xFB, 0x90, 0x64] 0 = Some h \<and> 24 \<le> mh_frameLength h"
proof -
  have "parseHeader [0xFF, 0xFB, 0x90, 0x64] 0 \<noteq> None"
    by (simp add: parseHeader_def Let_def byte_def js_and_def js_shr_def to_int32_nonneg BitratesMap_def SamplingRateMap_def)
  then obtain h where "parseHeader [0xFF, 0xFB, 0x90, 0x64] 0 = Some h" by blast
  then show ?thesis using parseHeader_frame_bounds by blast
qed

end
