(* ===== verification/Mp4_Remuxer.thy ===== *)
theory Mp4_Remuxer
  imports Mp4_Generator Ts_Avc Id3
begin

text \<open>
  The remuxer, \<open>src/remux/mp4-remuxer.js\<close>: its state, the numbers it computes with, and the video track.
  A number is a rational or \<open>None\<close>, which stands for \<open>undefined\<close> and \<open>NaN\<close>: arithmetic keeps it and every
  comparison with it fails. The only division by zero, the constant duration of a single sample on
  Safari, is \<open>0 / 0\<close>. Allocation of the output does not fail in the model, and the messages to the log are
  left out.
\<close>

subsection \<open>\<open>_PTSNormalize\<close>\<close>

text \<open>
  The loop adds the same offset until the difference is at most \<open>2 ^ 32\<close>; \<open>down\<close> tells its sign. A value that
  would move away from the reference for ever is \<open>None\<close> (this does not happen, see \<open>PTSNormalize_near\<close>).
\<close>

function pts_loop :: "bool \<Rightarrow> rat \<Rightarrow> rat \<Rightarrow> rat option" where
  "pts_loop down v r =
     (if \<bar>v - r\<bar> > 4294967296 then
        if (down \<longleftrightarrow> r < v) then pts_loop down (v + (if down then - 8589934592 else 8589934592)) r else None
      else Some v)"
  by pat_completeness auto
termination
proof (relation "measure (\<lambda>(down, v, r). nat \<lceil>\<bar>v - r\<bar> / 4294967296\<rceil>)", simp)
  fix down and v r :: rat
  assume a: "\<bar>v - r\<bar> > 4294967296" "down \<longleftrightarrow> r < v"
  define x where "x = \<bar>v - r\<bar> / 4294967296"
  define y where "y = \<bar>v + (if down then - 8589934592 else 8589934592) - r\<bar> / 4294967296"
  have x: "1 < x" using a(1) by (simp add: x_def)
  have "y = \<bar>x - 2\<bar>"
    using a by (cases "r < v") (auto simp: x_def y_def abs_if field_simps)
  then consider "y \<le> 1" | "y = x - of_int 2" using x by (cases "x < 2") auto
  then have "\<lceil>y\<rceil> < \<lceil>x\<rceil>"
  proof cases
    case 1
    then have "\<lceil>y\<rceil> \<le> 1" by (simp add: ceiling_le_iff)
    moreover have "1 < \<lceil>x\<rceil>" using x by (simp add: less_ceiling_iff)
    ultimately show ?thesis by linarith
  next
    case 2
    then show ?thesis by (simp only: ceiling_diff_of_int)
  qed
  moreover have "0 < \<lceil>x\<rceil>" using x by linarith
  ultimately show "((down, v + (if down then - 8589934592 else 8589934592), r), down, v, r)
      \<in> measure (\<lambda>(down, v, r). nat \<lceil>\<bar>v - r\<bar> / 4294967296\<rceil>)"
    by (simp add: x_def y_def)
qed

declare pts_loop.simps [simp del]

definition PTSNormalize :: "num \<Rightarrow> num \<Rightarrow> num" where
  "PTSNormalize v reference =
     (case (v, reference) of (Some a, Some r) \<Rightarrow> pts_loop (r < a) a r | _ \<Rightarrow> v)"

lemma pts_loop_near:
  assumes "v \<noteq> r \<Longrightarrow> down \<longleftrightarrow> r < v"
  shows "\<exists>w k. pts_loop down v r = Some w \<and> w = v + of_int k * 8589934592 \<and> \<bar>w - r\<bar> \<le> 4294967296"
  using assms
proof (induction down v r rule: pts_loop.induct)
  case (1 down v r)
  show ?case
  proof (cases "\<bar>v - r\<bar> > 4294967296")
    case True
    let ?v = "v + (if down then - 8589934592 else 8589934592)"
    have d: "down \<longleftrightarrow> r < v" using "1.prems" True by auto
    show ?thesis
    proof (cases "\<bar>?v - r\<bar> > 4294967296")
      case far: True
      have "?v \<noteq> r \<Longrightarrow> down \<longleftrightarrow> r < ?v" using far True d by (cases "r < v") (auto simp: abs_if split: if_splits)
      then obtain w k where "pts_loop down ?v r = Some w" "w = ?v + of_int k * 8589934592" "\<bar>w - r\<bar> \<le> 4294967296"
        using "1.IH" [OF True d] by blast
      moreover have "?v + of_int k * 8589934592 = v + of_int (if down then k - 1 else k + 1) * 8589934592"
        by (simp add: algebra_simps)
      moreover have "pts_loop down v r = pts_loop down ?v r" using True d by (subst pts_loop.simps) simp
      ultimately show ?thesis by metis
    next
      case False
      then have "pts_loop down v r = Some ?v"
        using True d by (subst pts_loop.simps, subst pts_loop.simps) simp
      moreover have "?v = v + of_int (if down then - 1 else 1) * 8589934592" by simp
      ultimately show ?thesis using False by (metis not_le)
    qed
  next
    case False
    then have "pts_loop down v r = Some v" by (subst pts_loop.simps) simp
    moreover have "v = v + of_int 0 * 8589934592" by simp
    ultimately show ?thesis using False by (metis not_le)
  qed
qed


subsection \<open>State\<close>

text \<open>The configuration and the browser.\<close>

record remux_env =
  re_mpeg :: bool
  re_mp3 :: bool
  re_userAgent :: string
  re_stretchShortVideoTrack :: bool
  re_maxBufferHole :: rat
  re_maxSeekHole :: rat

text \<open>What the remuxer hands to the player; \<open>fd_dropped\<close> is only there for video.\<close>

record frag_data =
  fd_data1 :: bytes
  fd_data2 :: bytes
  fd_startPTS :: num
  fd_endPTS :: num
  fd_startDTS :: num
  fd_endDTS :: num
  fd_type :: string
  fd_nb :: nat
  fd_dropped :: "nat option"

record init_data_track =
  in_container :: string
  in_codec :: "string option"
  in_initSegment :: bytes

record timed_text =
  tt_pts :: num
  tt_dts :: num
  tt_bytes :: "int list"

datatype remux_event =
    FoundInitPts num
  | ParsingInitSegment "init_data_track option" "init_data_track option" \<comment> \<open>audio and video\<close>
  | ParsingData frag_data
  | ParsingMetadata "timed_text list"
  | ParsingUserdata "timed_text list"
  | FragParsed
  | RemuxError string

text \<open>
  Two fields are compared with \<open>undefined\<close>: there \<open>None\<close> is \<open>undefined\<close> and \<open>Some None\<close> is \<open>NaN\<close>; \<open>as_num\<close> reads them.
\<close>

definition as_num :: "num option \<Rightarrow> num" where
  "as_num x = (case x of None \<Rightarrow> None | Some n \<Rightarrow> n)"

record remuxer =
  rm_isSafari :: bool
  rm_initPTS :: "num option"
  rm_initDTS :: num
  rm_ISGenerated :: bool
  rm_nextAudioPts :: "num option"
  rm_nextAvcDts :: num
  rm_events :: "remux_event list"

definition new_MP4Remuxer :: "string \<Rightarrow> string \<Rightarrow> remuxer" where
  "new_MP4Remuxer vendor userAgent =
     \<lparr>rm_isSafari = (contains ''Apple'' vendor \<and> userAgent \<noteq> [] \<and> \<not> contains ''CriOS'' userAgent),
      rm_initPTS = None, rm_initDTS = None, rm_ISGenerated = False, rm_nextAudioPts = None, rm_nextAvcDts = None,
      rm_events = []\<rparr>"

definition remux_resetTimeStamp :: "num option \<Rightarrow> remuxer \<Rightarrow> remuxer" where
  "remux_resetTimeStamp defaultTimeStamp r =
     r\<lparr>rm_initPTS := defaultTimeStamp, rm_initDTS := as_num defaultTimeStamp\<rparr>"

definition remux_resetInitSegment :: "remuxer \<Rightarrow> remuxer" where
  "remux_resetInitSegment r = r\<lparr>rm_ISGenerated := False\<rparr>"

definition remux_emit :: "remux_event \<Rightarrow> remuxer \<Rightarrow> remuxer" where
  "remux_emit ev r = r\<lparr>rm_events := rm_events r @ [ev]\<rparr>"

text \<open>The track objects: what the demuxers put there, and the fields of the remuxer.\<close>

record video_in =
  vi_track :: avc_track
  vi_inputTimeScale :: int
  vi_timescale :: "int option"
  vi_sequenceNumber :: int

record audio_in =
  ai_track :: audio_track
  ai_timescale :: "int option"

text \<open>The fields of a track that the box writer reads.\<close>

definition video_mp4 :: "video_in \<Rightarrow> sample list \<Rightarrow> track" where
  "video_mp4 v ss =
     (let t = vi_track v in
      \<lparr>tr_type = Video, tr_id = vt_id t, tr_timescale = (case vi_timescale v of None \<Rightarrow> 0 | Some x \<Rightarrow> x),
       tr_duration = num_rat (vt_duration t), tr_sps = (case vt_sps t of None \<Rightarrow> [] | Some x \<Rightarrow> [x]),
       tr_pps = (case vt_pps t of None \<Rightarrow> [] | Some x \<Rightarrow> [x]), tr_width = (case vt_width t of None \<Rightarrow> 0 | Some x \<Rightarrow> x),
       tr_height = (case vt_height t of None \<Rightarrow> 0 | Some x \<Rightarrow> x),
       tr_pixelRatio = (case vt_pixelRatio t of None \<Rightarrow> (0, 0) | Some x \<Rightarrow> x), tr_config = [], tr_samplerate = 0,
       tr_channelCount = 0, tr_isAAC = False, tr_codec = (case vt_codec t of None \<Rightarrow> [] | Some x \<Rightarrow> x), tr_samples = ss\<rparr>)"

definition audio_mp4 :: "audio_in \<Rightarrow> sample list \<Rightarrow> track" where
  "audio_mp4 a ss =
     (let t = ai_track a in
      \<lparr>tr_type = Audio, tr_id = au_id t, tr_timescale = (case ai_timescale a of None \<Rightarrow> 0 | Some x \<Rightarrow> x),
       tr_duration = num_rat (au_duration t), tr_sps = [], tr_pps = [], tr_width = 0, tr_height = 0, tr_pixelRatio = (0, 0),
       tr_config = (case au_config t of None \<Rightarrow> [] | Some x \<Rightarrow> x), tr_samplerate = (case au_samplerate t of None \<Rightarrow> 0 | Some x \<Rightarrow> x),
       tr_channelCount = (case au_channelCount t of None \<Rightarrow> 0 | Some x \<Rightarrow> x), tr_isAAC = au_isAAC t,
       tr_codec = (case au_codec t of None \<Rightarrow> [] | Some x \<Rightarrow> x), tr_samples = ss\<rparr>)"

definition avc_le :: "avc_sample \<Rightarrow> avc_sample \<Rightarrow> bool" where
  "avc_le a b =
     (let deltadts = num_sub (av_dts a) (av_dts b); deltapts = num_sub (av_pts a) (av_pts b)
      in if truthy deltadts then num_less deltadts (Some 0)
         else if truthy deltapts then num_less deltapts (Some 0)
         else (case (av_id a, av_id b) of (Some i, Some j) \<Rightarrow> i \<le> j | _ \<Rightarrow> True))"

subsection \<open>Video\<close>

definition video_timeScale :: "video_in \<Rightarrow> num" where
  "video_timeScale v = map_option of_int (vi_timescale v)"

text \<open>On Safari, consecutive fragments count as contiguous.\<close>

definition video_contiguous :: "remuxer \<Rightarrow> num \<Rightarrow> rat \<Rightarrow> bool \<Rightarrow> bool \<Rightarrow> avc_sample list \<Rightarrow> bool" where
  "video_contiguous r timeScale timeOffset contiguous accurateTimeOffset inputSamples =
     (contiguous \<or> rm_isSafari r \<and> inputSamples \<noteq> [] \<and> truthy (rm_nextAvcDts r) \<and>
        (accurateTimeOffset \<and>
           num_less (num_abs (num_sub (Some timeOffset) (num_div (rm_nextAvcDts r) timeScale))) (Some (1 / 10))
         \<or> num_less (num_abs (num_sub (num_sub (av_pts (hd inputSamples)) (rm_nextAvcDts r)) (rm_initDTS r)))
             (num_div timeScale (Some 5))))"

definition normalize_sample :: "num \<Rightarrow> num \<Rightarrow> avc_sample \<Rightarrow> avc_sample" where
  "normalize_sample initDTS reference s =
     s\<lparr>av_pts := PTSNormalize (num_sub (av_pts s) initDTS) reference,
       av_dts := PTSNormalize (num_sub (av_dts s) initDTS) reference\<rparr>"

text \<open>The shift for streams with PTS below DTS, at most 200 ms.\<close>

definition PTSDTSshift :: "avc_sample list \<Rightarrow> num" where
  "PTSDTSshift ss =
     foldl (\<lambda>prev curr. num_max (num_min prev (num_sub (av_pts curr) (av_dts curr))) (Some (- 18000))) (Some 0) ss"

definition shift_dts :: "avc_sample list \<Rightarrow> avc_sample list" where
  "shift_dts ss =
     (if num_less (PTSDTSshift ss) (Some 0) then map (\<lambda>s. s\<lparr>av_dts := num_add (av_dts s) (PTSDTSshift ss)\<rparr>) ss else ss)"

text \<open>The first timestamps, with the gap or overlap to the fragment before closed: samples, first PTS, first DTS.\<close>

definition close_gap :: "bool \<Rightarrow> num \<Rightarrow> avc_sample list \<Rightarrow> avc_sample list \<times> num \<times> num" where
  "close_gap contiguous nextAvcDts ss =
     (let s = hd ss; firstDTS = num_max (av_dts s) (Some 0); firstPTS = num_max (av_pts s) (Some 0);
          delta = num_round (num_div (num_sub firstDTS nextAvcDts) (Some 90))
      in if contiguous \<and> truthy delta then
           let firstPTS = num_max (num_sub firstPTS delta) nextAvcDts
           in (s\<lparr>av_dts := nextAvcDts, av_pts := firstPTS\<rparr> # tl ss, firstPTS, nextAvcDts)
         else (ss, firstPTS, firstDTS))"

definition settle_sample :: "bool \<Rightarrow> num \<Rightarrow> num \<Rightarrow> nat \<Rightarrow> avc_sample \<Rightarrow> avc_sample" where
  "settle_sample isSafari firstDTS mp4SampleDuration i s =
     (let dts = (if isSafari then num_add firstDTS (num_mul (Some (of_nat i)) mp4SampleDuration)
                 else num_max (av_dts s) firstDTS)
      in s\<lparr>av_dts := dts, av_pts := num_max (av_pts s) dts\<rparr>)"

text \<open>The media data: each unit after its length.\<close>

fun write_units :: "avc_unit list \<Rightarrow> nat \<Rightarrow> bytes \<Rightarrow> bytes \<times> nat" where
  "write_units [] offset buf = (buf, offset)"
| "write_units (u # us) offset buf =
     (let buf = set_at buf (be32 (int (length (un_data u)))) offset;
          offset = offset + 4;
          buf = set_at buf (un_data u) offset
      in write_units us (offset + length (un_data u)) buf)"

definition unit_sizes :: "avc_sample list \<Rightarrow> nat" where \<comment> \<open>\<open>naluLen\<close>\<close>
  "unit_sizes ss = sum_list (map (\<lambda>s. sum_list (map (length \<circ> un_data) (av_units s))) ss)"

definition unit_count :: "avc_sample list \<Rightarrow> nat" where \<comment> \<open>\<open>nbNalu\<close>\<close>
  "unit_count ss = sum_list (map (length \<circ> av_units) ss)"

definition video_mdat :: "avc_sample list \<Rightarrow> bytes" where
  "video_mdat ss =
     (let mdatSize = unit_sizes ss + 4 * unit_count ss + 8;
          buf = replicate mdatSize 0;
          buf = set_at buf (be32 (int mdatSize)) 0;
          buf = set_at buf (types ''mdat'') 4
      in fst (fold (\<lambda>s (buf, offset). write_units (av_units s) offset buf) ss (buf, 8)))"

text \<open>The duration of the last sample: that of the one before, or stretched to the end of the audio.\<close>

definition last_duration :: "remux_env \<Rightarrow> num \<Rightarrow> num \<Rightarrow> num \<Rightarrow> num \<Rightarrow> avc_sample \<Rightarrow> avc_sample \<Rightarrow> num" where
  "last_duration env timeScale firstPTS audioTrackLength nextAudioPts prev s =
     (let lastFrameDuration = num_sub (av_dts s) (av_dts prev) in
      if re_stretchShortVideoTrack env then
        let gapTolerance =
              map_option (\<lambda>x. of_int \<lfloor>x\<rfloor>) (num_mul (Some (min (re_maxBufferHole env) (re_maxSeekHole env))) timeScale);
            deltaToFrameEnd =
              num_sub (if truthy audioTrackLength then num_add firstPTS (num_mul audioTrackLength timeScale) else nextAudioPts)
                (av_pts s)
        in if num_less gapTolerance deltaToFrameEnd then
             let d = num_sub deltaToFrameEnd lastFrameDuration
             in if num_less d (Some 0) then lastFrameDuration else d
           else lastFrameDuration
      else lastFrameDuration)"

fun video_durations :: "(avc_sample \<Rightarrow> avc_sample \<Rightarrow> num) \<Rightarrow> avc_sample \<Rightarrow> avc_sample list \<Rightarrow> num list" where
  "video_durations f prev [] = []"
| "video_durations f prev [s] = [f prev s]"
| "video_durations f prev (s # t # ss) = num_sub (av_dts t) (av_dts s) # video_durations f s (t # ss)"

definition video_cts :: "bool \<Rightarrow> num \<Rightarrow> avc_sample \<Rightarrow> num" where
  "video_cts isSafari duration s =
     (if isSafari
      then num_max (Some 0) (num_mul duration (num_round (num_div (num_sub (av_pts s) (av_dts s)) duration)))
      else num_round (num_sub (av_pts s) (av_dts s)))"

definition video_sample :: "bool \<Rightarrow> avc_sample \<Rightarrow> num \<Rightarrow> sample" where
  "video_sample isSafari s duration =
     \<lparr>sm_duration = num_int duration, sm_size = int (sum_list (map (\<lambda>u. 4 + length (un_data u)) (av_units s))),
      sm_flags = \<lparr>sf_isLeading = 0, sf_dependsOn = (if av_key s then 2 else 1), sf_isDependedOn = 0, sf_hasRedundancy = 0,
                  sf_paddingValue = 0, sf_isNonSync = (if av_key s then 0 else 1), sf_degradPrio = 0\<rparr>,
      sm_cts = num_int (video_cts isSafari duration s)\<rparr>"

text \<open>Chrome: the first sample is marked as a random access point.\<close>

definition mark_first :: "string \<Rightarrow> sample list \<Rightarrow> sample list" where
  "mark_first userAgent ss =
     (case ss of
        [] \<Rightarrow> []
      | s # ss' \<Rightarrow>
          if contains ''chrome'' (map lower_char userAgent)
          then s\<lparr>sm_flags := (sm_flags s)\<lparr>sf_dependsOn := 2, sf_isNonSync := 0\<rparr>\<rparr> # ss' else ss)"

text \<open>The timeline of a fragment: its samples, first and last times, and the durations.\<close>

record video_times =
  vq_samples :: "avc_sample list"
  vq_firstPTS :: num
  vq_firstDTS :: num
  vq_lastPTS :: num
  vq_lastDTS :: num
  vq_durations :: "num list"

definition video_timeline ::
  "remux_env \<Rightarrow> remuxer \<Rightarrow> num \<Rightarrow> rat \<Rightarrow> bool \<Rightarrow> num \<Rightarrow> bool \<Rightarrow> avc_sample list \<Rightarrow> video_times" where
  "video_timeline env r timeScale timeOffset contiguous audioTrackLength accurateTimeOffset inputSamples =
     (let contiguous = video_contiguous r timeScale timeOffset contiguous accurateTimeOffset inputSamples;
          nextAvcDts = (if contiguous then rm_nextAvcDts r else num_mul (Some timeOffset) timeScale);
          ss = map (normalize_sample (rm_initDTS r) nextAvcDts) inputSamples;
          ss = shift_dts (js_sort avc_le ss);
          (ss, firstPTS, firstDTS) = close_gap contiguous nextAvcDts ss;
          lastDTS = num_max (av_dts (last ss)) (Some 0);
          lastPTS = num_max (num_max (av_pts (last ss)) (Some 0)) lastDTS;
          constDuration = num_round (num_div (num_sub lastDTS firstDTS) (Some (of_nat (length ss) - 1)));
          ss = map (\<lambda>(i, s). settle_sample (rm_isSafari r) firstDTS constDuration i s) (enumerate 0 ss);
          durations = (if rm_isSafari r then replicate (length ss) constDuration
                       else video_durations (last_duration env timeScale firstPTS audioTrackLength (as_num (rm_nextAudioPts r))) (hd ss) ss)
      in \<lparr>vq_samples = ss, vq_firstPTS = firstPTS, vq_firstDTS = firstDTS, vq_lastPTS = lastPTS, vq_lastDTS = lastDTS,
          vq_durations = durations\<rparr>)"

definition remuxVideo ::
  "remux_env \<Rightarrow> video_in \<Rightarrow> rat \<Rightarrow> bool \<Rightarrow> num \<Rightarrow> bool \<Rightarrow> remuxer \<Rightarrow> frag_data \<times> video_in \<times> remuxer" where
  "remuxVideo env v timeOffset contiguous audioTrackLength accurateTimeOffset r =
     (let timeScale = video_timeScale v;
          q = video_timeline env r timeScale timeOffset contiguous audioTrackLength accurateTimeOffset (vt_samples (vi_track v));
          outputSamples = mark_first (re_userAgent env)
            (map2 (video_sample (rm_isSafari r)) (vq_samples q) (vq_durations q));
          nextAvcDts = num_add (vq_lastDTS q) (last (vq_durations q));
          frag = moof (vi_sequenceNumber v) (num_rat (vq_firstDTS q)) (video_mp4 v outputSamples);
          data = \<lparr>fd_data1 = frag, fd_data2 = video_mdat (vq_samples q), fd_startPTS = num_div (vq_firstPTS q) timeScale,
                  fd_endPTS = num_div (num_add (vq_lastPTS q) (last (vq_durations q))) timeScale,
                  fd_startDTS = num_div (vq_firstDTS q) timeScale, fd_endDTS = num_div nextAvcDts timeScale,
                  fd_type = ''video'', fd_nb = length outputSamples, fd_dropped = Some (vt_dropped (vi_track v))\<rparr>
      in (data,
          v\<lparr>vi_sequenceNumber := vi_sequenceNumber v + 1,
            vi_track := (vi_track v)\<lparr>vt_samples := [], vt_len := 0, vt_dropped := 0\<rparr>\<rparr>,
          remux_emit (ParsingData data) (r\<lparr>rm_nextAvcDts := nextAvcDts\<rparr>)))"

end
