(* ===== verification/Mp4_Remux_Audio.thy ===== *)
theory Mp4_Remux_Audio
  imports Mp4_Remuxer
begin

text \<open>
  The remuxer: the audio track with its dropped and silent frames, the init segment, metadata and text, and
  \<open>remux\<close>, which calls them in order.
\<close>

subsection \<open>Audio: frames on the grid\<close>

text \<open>The silent frame for the codec, or the frame itself.\<close>

definition fill_frame :: "audio_track \<Rightarrow> bytes \<Rightarrow> bytes" where
  "fill_frame t frame =
     (let codec = (case au_manifestCodec t of
                     Some c \<Rightarrow> if c \<noteq> [] then c else (case au_codec t of Some k \<Rightarrow> k | None \<Rightarrow> [])
                   | None \<Rightarrow> (case au_codec t of Some k \<Rightarrow> k | None \<Rightarrow> []))
      in (case getSilentFrame codec (case au_channelCount t of Some n \<Rightarrow> n | None \<Rightarrow> 0) of
            Some f \<Rightarrow> f | None \<Rightarrow> frame))"

text \<open>
  The loop over the frames when the time offset is accurate: a frame that overlaps by a duration is
  dropped, a gap is filled, and each frame is moved to its expected time. The result has the frames and
  what \<open>track.len\<close> changes by.
\<close>

definition audio_stamp :: "num \<Rightarrow> bytes \<Rightarrow> media_sample" where
  "audio_stamp t u = \<lparr>sm_unit = u, sm_pts = t, sm_dts = t\<rparr>"

fun silent_frames :: "bytes \<Rightarrow> num \<Rightarrow> num \<Rightarrow> nat \<Rightarrow> media_sample list" where
  "silent_frames f dur nextPts 0 = []"
| "silent_frames f dur nextPts (Suc n) = audio_stamp (num_max nextPts (Some 0)) f # silent_frames f dur (num_add nextPts dur) n"

fun place_frames :: "audio_track \<Rightarrow> num \<Rightarrow> num \<Rightarrow> media_sample list \<Rightarrow> media_sample list \<times> int" where
  "place_frames t dur nextPts [] = ([], 0)"
| "place_frames t dur nextPts (s # ss) =
     (let delta = num_sub (sm_pts s) nextPts;
          duration = num_abs (num_div (num_mul (Some 1000) delta) (Some (of_int (au_inputTimeScale t))))
      in if num_less delta (num_sub (Some 0) dur) \<or> delta \<noteq> None \<and> delta = num_sub (Some 0) dur then
           let r = place_frames t dur nextPts ss in (fst r, snd r - int (length (sm_unit s)))
         else if (num_less dur delta \<or> delta \<noteq> None \<and> delta = dur) \<and> num_less duration (Some 10000) \<and> truthy nextPts then
           let missing = nat (num_int (num_round (num_div delta dur)));
               f = fill_frame t (sm_unit s);
               nextPts' = num_add nextPts (num_mul (Some (of_nat missing)) dur);
               r = place_frames t dur (num_add nextPts' dur) ss
           in (silent_frames f dur nextPts missing @ s\<lparr>sm_pts := nextPts', sm_dts := nextPts'\<rparr> # fst r,
               snd r + int missing * int (length f))
         else
           let r = place_frames t dur (num_add nextPts dur) ss
           in (s\<lparr>sm_pts := nextPts, sm_dts := nextPts\<rparr> # fst r, snd r))"

subsection \<open>Audio: the media data\<close>

text \<open>The local variables of the loop that writes the frames; \<open>aw_data\<close> is \<open>None\<close> before the first frame.\<close>

record audio_write =
  aw_data :: "bytes option"
  aw_offset :: nat
  aw_samples :: "sample list"
  aw_firstPTS :: num
  aw_lastPTS :: num
  aw_started :: bool \<comment> \<open>\<open>lastPTS !== undefined\<close>\<close>
  aw_undefined :: bool \<comment> \<open>the time of the next frame is \<open>undefined\<close>\<close>
  aw_len :: int \<comment> \<open>\<open>track.len\<close>\<close>

definition audio_sample :: "nat \<Rightarrow> int \<Rightarrow> sample" where
  "audio_sample n duration =
     \<lparr>sm_duration = duration, sm_size = int n,
      sm_flags = \<lparr>sf_isLeading = 0, sf_dependsOn = 1, sf_isDependedOn = 0, sf_hasRedundancy = 0, sf_paddingValue = 0,
                  sf_isNonSync = 0, sf_degradPrio = 0\<rparr>, sm_cts = 0\<rparr>"

definition set_last_duration :: "int \<Rightarrow> sample list \<Rightarrow> sample list" where
  "set_last_duration d ss = (if ss = [] then [] else butlast ss @ [(last ss)\<lparr>sm_duration := d\<rparr>])"

text \<open>\<open>mdat.set(frame, offset)\<close> and the sample; a frame that does not fit is a \<open>RangeError\<close>.\<close>

definition write_frame :: "bytes \<Rightarrow> int \<Rightarrow> audio_write \<Rightarrow> audio_write result" where
  "write_frame f duration w =
     (case aw_data w of
        None \<Rightarrow> Inl TypeError
      | Some buf \<Rightarrow>
          if aw_offset w + length f \<le> length buf then
            Inr (w\<lparr>aw_data := Some (set_at buf f (aw_offset w)), aw_offset := aw_offset w + length f,
                   aw_samples := aw_samples w @ [audio_sample (length f) duration]\<rparr>)
          else Inl range_error)"

fun write_times :: "nat \<Rightarrow> bytes \<Rightarrow> audio_write \<Rightarrow> audio_write result" where
  "write_times 0 f w = Inr w"
| "write_times (Suc n) f w = (case write_frame f 1024 w of Inl e \<Rightarrow> Inl e | Inr w \<Rightarrow> write_times n f w)"

definition new_audio_mdat :: "bool \<Rightarrow> int \<Rightarrow> bytes" where
  "new_audio_mdat rawMPEG len =
     (if rawMPEG then replicate (nat len) 0
      else set_at (set_at (replicate (nat (len + 8)) 0) (be32 (len + 8)) 0) (types ''mdat'') 4)"

text \<open>What the first frame does: it is dropped, or it fixes the first time and fills a hole before it.\<close>

datatype first_frame = Dropped | Kept num nat \<comment> \<open>its time and the number of missing frames\<close>

definition first_audio :: "audio_track \<Rightarrow> bool \<Rightarrow> num \<Rightarrow> num \<Rightarrow> num \<Rightarrow> first_frame" where
  "first_audio t contiguous inputSampleDuration nextAudioPts pts =
     (let delta = num_round (num_div (num_mul (Some 1000) (num_sub pts nextAudioPts)) (Some (of_int (au_inputTimeScale t))))
      in if contiguous \<and> au_isAAC t \<and> truthy delta then
           if num_less (Some 0) delta \<and> num_less delta (Some 10000) then
             Kept nextAudioPts (nat (num_int (num_round (num_div (num_sub pts nextAudioPts) inputSampleDuration))))
           else if num_less delta (Some (- 12)) then Dropped
           else Kept nextAudioPts 0
         else Kept pts 0)"

text \<open>The loop; on the left is the return when there are no bytes to write, with \<open>track.len\<close>.\<close>

fun write_audio ::
  "audio_track \<Rightarrow> bool \<Rightarrow> bool \<Rightarrow> num \<Rightarrow> num \<Rightarrow> num \<Rightarrow> media_sample list \<Rightarrow> audio_write \<Rightarrow> (int + audio_write) result" where
  "write_audio t rawMPEG contiguous scaleFactor inputSampleDuration nextAudioPts [] w = Inr (Inr w)"
| "write_audio t rawMPEG contiguous scaleFactor inputSampleDuration nextAudioPts (s # ss) w =
     (let unit_bytes = sm_unit s; pts = sm_pts s in
      if aw_started w then
        let w = w\<lparr>aw_samples := set_last_duration (num_int (num_round (num_div (num_sub pts (aw_lastPTS w)) scaleFactor))) (aw_samples w)\<rparr>
        in (case write_frame unit_bytes 0 w of
              Inl e \<Rightarrow> Inl e
            | Inr w \<Rightarrow> write_audio t rawMPEG contiguous scaleFactor inputSampleDuration nextAudioPts ss
                         (w\<lparr>aw_lastPTS := pts\<rparr>))
      else
        (case first_audio t contiguous inputSampleDuration nextAudioPts pts of
           Dropped \<Rightarrow> write_audio t rawMPEG contiguous scaleFactor inputSampleDuration nextAudioPts ss
                        (w\<lparr>aw_len := aw_len w - int (length unit_bytes)\<rparr>)
         | Kept pts missing \<Rightarrow>
             let f = fill_frame t unit_bytes;
                 len = aw_len w + int missing * int (length f)
             in if len > 0 then
                  let w = w\<lparr>aw_len := len, aw_firstPTS := num_max (Some 0) pts, aw_data := Some (new_audio_mdat rawMPEG len),
                            aw_offset := (if rawMPEG then 0 else 8)\<rparr>
                  in (case write_times missing f w of
                        Inl e \<Rightarrow> Inl e
                      | Inr w \<Rightarrow>
                          (case write_frame unit_bytes 0 w of
                             Inl e \<Rightarrow> Inl e
                           | Inr w \<Rightarrow> write_audio t rawMPEG contiguous scaleFactor inputSampleDuration nextAudioPts ss
                                        (w\<lparr>aw_lastPTS := pts, aw_started := \<not> aw_undefined w, aw_undefined := False\<rparr>)))
                else Inr (Inl len)))"

definition audio_contiguous :: "audio_track \<Rightarrow> remuxer \<Rightarrow> num \<Rightarrow> rat \<Rightarrow> bool \<Rightarrow> bool \<Rightarrow> bool" where
  "audio_contiguous t r inputSampleDuration timeOffset contiguous accurateTimeOffset =
     (contiguous \<or> au_samples t \<noteq> [] \<and> truthy (as_num (rm_nextAudioPts r)) \<and>
        (accurateTimeOffset \<and>
           num_less (num_abs (num_sub (Some timeOffset) (num_div (as_num (rm_nextAudioPts r)) (Some (of_int (au_inputTimeScale t)))))) (Some (1 / 10))
         \<or> num_less (num_abs (num_sub (num_sub (sm_pts (hd (au_samples t))) (as_num (rm_nextAudioPts r))) (rm_initDTS r)))
             (num_mul (Some 20) inputSampleDuration)))"

definition pts_le :: "media_sample \<Rightarrow> media_sample \<Rightarrow> bool" where
  "pts_le a b = num_le0 (sm_pts a) (sm_pts b)"

definition normalize_audio :: "num \<Rightarrow> num \<Rightarrow> media_sample \<Rightarrow> media_sample" where
  "normalize_audio initDTS reference s =
     (let p = PTSNormalize (num_sub (sm_pts s) initDTS) reference in s\<lparr>sm_pts := p, sm_dts := p\<rparr>)"

definition audio_scale :: "audio_in \<Rightarrow> num" where
  "audio_scale a = num_div (Some (of_int (au_inputTimeScale (ai_track a)))) (map_option of_int (ai_timescale a))"

definition frame_samples :: "audio_in \<Rightarrow> nat" where
  "frame_samples a = (if au_isAAC (ai_track a) then 1024 else 1152)"

text \<open>The frames that are written, on the time line, and \<open>track.len\<close>.\<close>

definition audio_frames :: "audio_in \<Rightarrow> num \<Rightarrow> num \<Rightarrow> bool \<Rightarrow> num \<Rightarrow> media_sample list \<times> int" where
  "audio_frames a inputSampleDuration nextAudioPts accurateTimeOffset initDTS =
     (let t = ai_track a;
          ss = js_sort pts_le (map (normalize_audio initDTS nextAudioPts) (au_samples t))
      in if accurateTimeOffset \<and> au_isAAC t then
           let r = place_frames t inputSampleDuration nextAudioPts ss in (fst r, au_len t + snd r)
         else (ss, au_len t))"

text \<open>\<open>None\<close> for no audio data: the track keeps its samples on the early return, and they are gone otherwise.\<close>

definition remuxAudio ::
  "remux_env \<Rightarrow> audio_in \<Rightarrow> rat \<Rightarrow> bool \<Rightarrow> bool \<Rightarrow> remuxer \<Rightarrow> (frag_data option \<times> audio_in \<times> remuxer) result" where
  "remuxAudio env a timeOffset contiguous accurateTimeOffset r =
     (let t = ai_track a;
          inputTimeScale = Some (of_int (au_inputTimeScale t));
          scaleFactor = audio_scale a;
          inputSampleDuration = num_mul (Some (of_nat (frame_samples a))) scaleFactor;
          rawMPEG = (\<not> au_isAAC t \<and> re_mpeg env);
          contiguous = audio_contiguous t r inputSampleDuration timeOffset contiguous accurateTimeOffset;
          nextAudioPts = (if contiguous then as_num (rm_nextAudioPts r) else num_mul (Some timeOffset) inputTimeScale);
          (ss, len) = audio_frames a inputSampleDuration nextAudioPts accurateTimeOffset (rm_initDTS r);
          w0 = \<lparr>aw_data = None, aw_offset = 0, aw_samples = [], aw_firstPTS = None, aw_lastPTS = None, aw_started = False,
                aw_undefined = (contiguous \<and> rm_nextAudioPts r = None \<and> accurateTimeOffset \<and> au_isAAC t), aw_len = len\<rparr>
      in (case write_audio t rawMPEG contiguous scaleFactor inputSampleDuration nextAudioPts ss w0 of
            Inl e \<Rightarrow> Inl e
          | Inr (Inl len) \<Rightarrow> Inr (None, a\<lparr>ai_track := t\<lparr>au_samples := ss, au_len := len\<rparr>\<rparr>, r)
          | Inr (Inr w) \<Rightarrow>
              let nbSamples = length (aw_samples w);
                  lastSampleDuration = (if nbSamples \<ge> 2 then sm_duration (aw_samples w ! (nbSamples - 2)) else 0);
                  outputSamples = (if nbSamples \<ge> 2 then set_last_duration lastSampleDuration (aw_samples w) else aw_samples w)
              in if nbSamples = 0 then Inr (None, a\<lparr>ai_track := t\<lparr>au_samples := ss, au_len := aw_len w\<rparr>\<rparr>, r)
                 else
                   let nextAudioPts = num_add (aw_lastPTS w) (num_mul scaleFactor (Some (of_int lastSampleDuration)));
                       frag = (if rawMPEG then []
                               else moof (au_sequenceNumber t) (num_rat (num_div (aw_firstPTS w) scaleFactor)) (audio_mp4 a outputSamples));
                       seqno = (if rawMPEG then au_sequenceNumber t else au_sequenceNumber t + 1);
                       start = num_div (aw_firstPTS w) inputTimeScale;
                       stop = num_div nextAudioPts inputTimeScale;
                       data = \<lparr>fd_data1 = frag, fd_data2 = (case aw_data w of None \<Rightarrow> [] | Some b \<Rightarrow> b), fd_startPTS = start,
                               fd_endPTS = stop, fd_startDTS = start, fd_endDTS = stop, fd_type = ''audio'', fd_nb = nbSamples,
                               fd_dropped = None\<rparr>
                   in Inr (Some data, a\<lparr>ai_track := t\<lparr>au_samples := [], au_len := 0, au_sequenceNumber := seqno\<rparr>\<rparr>,
                           remux_emit (ParsingData data) (r\<lparr>rm_nextAudioPts := Some nextAudioPts\<rparr>))))"

text \<open>Silent audio for the time of the video, when the audio track has no samples.\<close>

definition remuxEmptyAudio :: "remux_env \<Rightarrow> audio_in \<Rightarrow> rat \<Rightarrow> bool \<Rightarrow> frag_data \<Rightarrow> remuxer \<Rightarrow> (audio_in \<times> remuxer) result" where
  "remuxEmptyAudio env a timeOffset contiguous videoData r =
     (let t = ai_track a;
          inputTimeScale = Some (of_int (au_inputTimeScale t));
          mp4timeScale = (case au_samplerate t of Some n \<Rightarrow> if n \<noteq> 0 then Some (of_int n) else inputTimeScale | None \<Rightarrow> inputTimeScale);
          scaleFactor = num_div inputTimeScale mp4timeScale;
          startDTS = num_add (if rm_nextAudioPts r \<noteq> None then as_num (rm_nextAudioPts r)
                              else num_mul (fd_startDTS videoData) inputTimeScale) (rm_initDTS r);
          endDTS = num_add (num_mul (fd_endDTS videoData) inputTimeScale) (rm_initDTS r);
          frameDuration = num_mul scaleFactor (Some 1024);
          nbSamples = (case num_div (num_sub endDTS startDTS) frameDuration of None \<Rightarrow> 0 | Some x \<Rightarrow> nat \<lceil>x\<rceil>);
          codec = (case au_manifestCodec t of
                     Some c \<Rightarrow> if c \<noteq> [] then c else (case au_codec t of Some k \<Rightarrow> k | None \<Rightarrow> [])
                   | None \<Rightarrow> (case au_codec t of Some k \<Rightarrow> k | None \<Rightarrow> []))
      in (case getSilentFrame codec (case au_channelCount t of Some n \<Rightarrow> n | None \<Rightarrow> 0) of
            None \<Rightarrow> Inr (a, r)
          | Some f \<Rightarrow>
              let ss = map (\<lambda>i. audio_stamp (num_add startDTS (num_mul (Some (of_nat i)) frameDuration)) f) [0..<nbSamples];
                  a = a\<lparr>ai_track := t\<lparr>au_samples := ss, au_len := au_len t + int nbSamples * int (length f)\<rparr>\<rparr>
              in (case remuxAudio env a timeOffset contiguous False r of
                    Inl e \<Rightarrow> Inl e
                  | Inr (_, a, r) \<Rightarrow> Inr (a, r))))"

subsection \<open>The init segment\<close>

text \<open>\<open>Math.min\<close> with a first value of \<open>Infinity\<close>, which is \<open>None\<close> here.\<close>

definition min_first :: "num option \<Rightarrow> num \<Rightarrow> num" where
  "min_first best x = (case best of None \<Rightarrow> x | Some b \<Rightarrow> num_min b x)"

definition start_of :: "num \<Rightarrow> int \<Rightarrow> rat \<Rightarrow> num" where \<comment> \<open>\<open>pts - inputTimeScale * timeOffset\<close>\<close>
  "start_of pts inputTimeScale timeOffset = num_sub pts (Some (of_int inputTimeScale * timeOffset))"

text \<open>The audio part: the time scale is the sample rate, and the codec string of MPEG audio is set.\<close>

definition audio_IS :: "remux_env \<Rightarrow> audio_in \<Rightarrow> (audio_in \<times> init_data_track) result" where
  "audio_IS env a =
     (let t = ai_track a;
          mpeg = (\<not> au_isAAC t \<and> re_mpeg env);
          container = (if mpeg then ''audio/mpeg'' else ''audio/mp4'');
          codec = (if au_isAAC t then au_codec t else if re_mpeg env then Some '''' else if re_mp3 env then Some ''mp3'' else au_codec t);
          a = a\<lparr>ai_timescale := au_samplerate t, ai_track := t\<lparr>au_codec := codec\<rparr>\<rparr>
      in if mpeg then Inr (a, \<lparr>in_container = container, in_codec = codec, in_initSegment = []\<rparr>)
         else
           (case initSegment [audio_mp4 a []] of
              Inl e \<Rightarrow> Inl e
            | Inr (seg, ts) \<Rightarrow>
                Inr (a\<lparr>ai_track := (ai_track a)\<lparr>au_duration := Some (tr_duration (hd ts))\<rparr>\<rparr>,
                     \<lparr>in_container = container, in_codec = codec, in_initSegment = seg\<rparr>)))"

definition video_IS :: "video_in \<Rightarrow> (video_in \<times> init_data_track) result" where
  "video_IS v =
     (let v = v\<lparr>vi_timescale := Some (vi_inputTimeScale v)\<rparr>
      in (case initSegment [video_mp4 v []] of
            Inl e \<Rightarrow> Inl e
          | Inr (seg, ts) \<Rightarrow>
              Inr (v\<lparr>vi_track := (vi_track v)\<lparr>vt_duration := Some (tr_duration (hd ts))\<rparr>\<rparr>,
                   \<lparr>in_container = ''video/mp4'', in_codec = vt_codec (vi_track v), in_initSegment = seg\<rparr>)))"

definition generateIS ::
  "remux_env \<Rightarrow> rat \<Rightarrow> audio_in \<Rightarrow> video_in \<Rightarrow> remuxer \<Rightarrow> (audio_in \<times> video_in \<times> remuxer) result" where
  "generateIS env timeOffset a v r =
     (let computePTSDTS = (rm_initPTS r = None);
          hasAudio = (au_config (ai_track a) \<noteq> None \<and> au_samples (ai_track a) \<noteq> []);
          hasVideo = (vt_sps (vi_track v) \<noteq> None \<and> vt_pps (vi_track v) \<noteq> None \<and> vt_samples (vi_track v) \<noteq> [])
      in (case (if hasAudio then map_sum id (\<lambda>(a, t). (a, Some t)) (audio_IS env a) else Inr (a, None)) of
            Inl e \<Rightarrow> Inl e
          | Inr (a, audio) \<Rightarrow>
              let first = (if hasAudio
                           then Some (start_of (sm_pts (hd (au_samples (ai_track a)))) (au_inputTimeScale (ai_track a)) timeOffset)
                           else None)
              in (case (if hasVideo then map_sum id (\<lambda>(v, t). (v, Some t)) (video_IS v) else Inr (v, None)) of
                    Inl e \<Rightarrow> Inl e
                  | Inr (v, video) \<Rightarrow>
                      let s = hd (vt_samples (vi_track v));
                          initPTS = (if hasVideo then min_first first (start_of (av_pts s) (vi_inputTimeScale v) timeOffset)
                                     else (case first of None \<Rightarrow> None | Some x \<Rightarrow> x));
                          initDTS = (if hasVideo then min_first first (start_of (av_dts s) (vi_inputTimeScale v) timeOffset)
                                     else (case first of None \<Rightarrow> None | Some x \<Rightarrow> x));
                          r = (if hasVideo \<and> computePTSDTS then remux_emit (FoundInitPts initPTS) r else r)
                      in if hasAudio \<or> hasVideo then
                           let r = (remux_emit (ParsingInitSegment audio video) r)\<lparr>rm_ISGenerated := True\<rparr>
                           in Inr (a, v, if computePTSDTS then r\<lparr>rm_initPTS := Some initPTS, rm_initDTS := initDTS\<rparr> else r)
                         else Inr (a, v, remux_emit (RemuxError ''no audio/video samples found'') r))))"

subsection \<open>Metadata and text\<close>

record text_in =
  ti_samples :: "timed_text list"
  ti_inputTimeScale :: int

definition relative :: "num \<Rightarrow> num \<Rightarrow> int \<Rightarrow> num" where
  "relative t init scale = num_div (num_sub t init) (Some (of_int scale))"

definition remuxID3 :: "text_in \<Rightarrow> remuxer \<Rightarrow> text_in \<times> remuxer" where
  "remuxID3 t r =
     (let ss = map (\<lambda>s. s\<lparr>tt_pts := relative (tt_pts s) (as_num (rm_initPTS r)) (ti_inputTimeScale t),
                          tt_dts := relative (tt_dts s) (rm_initDTS r) (ti_inputTimeScale t)\<rparr>) (ti_samples t)
      in (t\<lparr>ti_samples := []\<rparr>, if ti_samples t = [] then r else remux_emit (ParsingMetadata ss) r))"

definition remuxText :: "text_in \<Rightarrow> remuxer \<Rightarrow> text_in \<times> remuxer" where
  "remuxText t r =
     (let ss = js_sort (\<lambda>a b. num_le0 (tt_pts a) (tt_pts b)) (ti_samples t);
          ss = map (\<lambda>s. s\<lparr>tt_pts := relative (tt_pts s) (as_num (rm_initPTS r)) (ti_inputTimeScale t)\<rparr>) ss
      in (t\<lparr>ti_samples := []\<rparr>, if ti_samples t = [] then r else remux_emit (ParsingUserdata ss) r))"

subsection \<open>\<open>remux\<close>\<close>

definition no_timescale :: "int option \<Rightarrow> bool" where
  "no_timescale x \<longleftrightarrow> x = None \<or> x = Some 0"

text \<open>Audio before video, so that the end of the audio is known when the last video sample is stretched.\<close>

definition remux_with_audio ::
  "remux_env \<Rightarrow> rat \<Rightarrow> bool \<Rightarrow> bool \<Rightarrow> audio_in \<Rightarrow> video_in \<Rightarrow> remuxer \<Rightarrow> (audio_in \<times> video_in \<times> remuxer) result" where
  "remux_with_audio env timeOffset contiguous accurateTimeOffset a v r =
     (case (if no_timescale (ai_timescale a) then generateIS env timeOffset a v r else Inr (a, v, r)) of
        Inl e \<Rightarrow> Inl e
      | Inr (a, v, r) \<Rightarrow>
          (case remuxAudio env a timeOffset contiguous accurateTimeOffset r of
             Inl e \<Rightarrow> Inl e
           | Inr (audioData, a, r) \<Rightarrow>
               if vt_samples (vi_track v) \<noteq> [] then
                 let audioTrackLength = (case audioData of None \<Rightarrow> None | Some d \<Rightarrow> num_sub (fd_endPTS d) (fd_startPTS d))
                 in (case (if no_timescale (vi_timescale v) then generateIS env timeOffset a v r else Inr (a, v, r)) of
                       Inl e \<Rightarrow> Inl e
                     | Inr (a, v, r) \<Rightarrow>
                         let (_, v, r) = remuxVideo env v timeOffset contiguous audioTrackLength accurateTimeOffset r
                         in Inr (a, v, r))
               else Inr (a, v, r)))"

text \<open>
  Without audio samples \<open>remuxVideo\<close> is called with one argument less: the flag \<open>accurateTimeOffset\<close> arrives as
  \<open>audioTrackLength\<close>, where \<open>true\<close> counts as 1, and the flag itself is \<open>undefined\<close>.
\<close>

definition remux_without_audio ::
  "remux_env \<Rightarrow> rat \<Rightarrow> bool \<Rightarrow> bool \<Rightarrow> audio_in \<Rightarrow> video_in \<Rightarrow> remuxer \<Rightarrow> (audio_in \<times> video_in \<times> remuxer) result" where
  "remux_without_audio env timeOffset contiguous accurateTimeOffset a v r =
     (if vt_samples (vi_track v) \<noteq> [] then
        let (videoData, v, r) = remuxVideo env v timeOffset contiguous (Some (if accurateTimeOffset then 1 else 0)) False r
        in if au_codec (ai_track a) \<noteq> None \<and> au_codec (ai_track a) \<noteq> Some '''' then
             map_sum id (\<lambda>(a, r). (a, v, r)) (remuxEmptyAudio env a timeOffset contiguous videoData r)
           else Inr (a, v, r)
      else Inr (a, v, r))"

record remux_tracks =
  rt_audio :: audio_in
  rt_video :: video_in
  rt_id3 :: text_in
  rt_text :: text_in

definition remux :: "remux_env \<Rightarrow> rat \<Rightarrow> bool \<Rightarrow> bool \<Rightarrow> remux_tracks \<Rightarrow> remuxer \<Rightarrow> (remux_tracks \<times> remuxer) result" where
  "remux env timeOffset contiguous accurateTimeOffset ts r =
     (case (if \<not> rm_ISGenerated r then generateIS env timeOffset (rt_audio ts) (rt_video ts) r
            else Inr (rt_audio ts, rt_video ts, r)) of
        Inl e \<Rightarrow> Inl e
      | Inr (a, v, r) \<Rightarrow>
          (case (if rm_ISGenerated r then
                   if au_samples (ai_track a) \<noteq> [] then remux_with_audio env timeOffset contiguous accurateTimeOffset a v r
                   else remux_without_audio env timeOffset contiguous accurateTimeOffset a v r
                 else Inr (a, v, r)) of
             Inl e \<Rightarrow> Inl e
           | Inr (a, v, r) \<Rightarrow>
               let (id3, r) = (if ti_samples (rt_id3 ts) \<noteq> [] then remuxID3 (rt_id3 ts) r else (rt_id3 ts, r));
                   (text1, r) = (if ti_samples (rt_text ts) \<noteq> [] then remuxText (rt_text ts) r else (rt_text ts, r))
               in Inr (\<lparr>rt_audio = a, rt_video = v, rt_id3 = id3, rt_text = text1\<rparr>, remux_emit FragParsed r)))"

end
