(* ===== verification/Remux_Timeline.thy ===== *)
theory Remux_Timeline
  imports Mp4_Remux_Audio
begin

text \<open>
  Properties of the video part of the remuxer: the time line of a fragment and its media data.
\<close>

subsection \<open>Samples with timestamps\<close>

definition timed :: "avc_sample \<Rightarrow> bool" where
  "timed s \<longleftrightarrow> av_pts s \<noteq> None \<and> av_dts s \<noteq> None"

abbreviation dts_of :: "avc_sample \<Rightarrow> rat" where "dts_of s \<equiv> the (av_dts s)"
abbreviation pts_of :: "avc_sample \<Rightarrow> rat" where "pts_of s \<equiv> the (av_pts s)"

lemma timedE: "timed s \<Longrightarrow> (\<And>p d. av_pts s = Some p \<Longrightarrow> av_dts s = Some d \<Longrightarrow> thesis) \<Longrightarrow> thesis"
  by (auto simp: timed_def)

lemma PTSNormalize_Some: "\<exists>w. PTSNormalize (Some a) (Some r) = Some w"
  using pts_loop_near [of a r "r < a"] by (auto simp: PTSNormalize_def)

lemma normalize_timed: "timed s \<Longrightarrow> timed (normalize_sample (Some i) ref s)"
  using PTSNormalize_Some by (cases ref) (fastforce simp: timed_def normalize_sample_def PTSNormalize_def)+

lemma avc_le_dts: "timed a \<Longrightarrow> timed b \<Longrightarrow> avc_le a b \<Longrightarrow> dts_of a \<le> dts_of b"
  by (elim timedE) (auto simp: avc_le_def Let_def split: if_splits)

lemma avc_le_key:
  assumes "timed a" and "timed b" and "av_id a = Some i" and "av_id b = Some j"
  shows "avc_le a b \<longleftrightarrow> dts_of a < dts_of b \<or> dts_of a = dts_of b \<and> (pts_of a < pts_of b \<or> pts_of a = pts_of b \<and> i \<le> j)"
  using assms by (elim timedE) (auto simp: avc_le_def Let_def)

lemma avc_sort_dts:
  assumes "\<forall>s \<in> set ss. timed s \<and> av_id s \<noteq> None"
  shows "sorted_wrt (\<lambda>a b. dts_of a \<le> dts_of b) (js_sort avc_le ss)"
proof -
  have key: "avc_le a b \<longleftrightarrow> dts_of a < dts_of b \<or> dts_of a = dts_of b \<and> (pts_of a < pts_of b \<or> pts_of a = pts_of b \<and> the (av_id a) \<le> the (av_id b))"
    if "a \<in> set ss" "b \<in> set ss" for a b
    using assms that avc_le_key [of a b "the (av_id a)" "the (av_id b)"] by auto
  have "sorted_wrt avc_le (js_sort avc_le ss)"
  proof (rule sorted_js_sort)
    show "avc_le x y \<or> avc_le y x" if "x \<in> set ss" "y \<in> set ss" for x y
      using that by (auto simp: key)
    show "avc_le x z" if "x \<in> set ss" "y \<in> set ss" "z \<in> set ss" "avc_le x y" "avc_le y z" for x y z
      using that by (auto simp: key)
  qed
  then show ?thesis
    by (rule sorted_wrt_mono_rel [rotated]) (use assms in \<open>auto simp: key\<close>)
qed

subsection \<open>The steps of the time line\<close>

lemma PTSDTSshift_Some:
  assumes "\<forall>s \<in> set ss. timed s"
  shows "\<exists>x. PTSDTSshift ss = Some x"
proof -
  have "\<exists>x. foldl (\<lambda>prev curr. num_max (num_min prev (num_sub (av_pts curr) (av_dts curr))) (Some (- 18000))) (Some a) ss = Some x" for a
    using assms
  proof (induction ss arbitrary: a)
    case (Cons s ss)
    obtain p d where "av_pts s = Some p" "av_dts s = Some d" using Cons.prems timedE [of s] by auto
    then show ?case using Cons.IH Cons.prems by simp
  qed simp
  then show ?thesis unfolding PTSDTSshift_def .
qed

lemma shift_dts_keeps:
  assumes "\<forall>s \<in> set ss. timed s" and "sorted_wrt (\<lambda>a b. dts_of a \<le> dts_of b) ss"
  shows "\<forall>s \<in> set (shift_dts ss). timed s" "sorted_wrt (\<lambda>a b. dts_of a \<le> dts_of b) (shift_dts ss)" "length (shift_dts ss) = length ss"
proof -
  obtain x where x: "PTSDTSshift ss = Some x" using PTSDTSshift_Some [OF assms(1)] by blast
  have t: "timed s \<Longrightarrow> num_add (av_dts s) (Some x) = Some (dts_of s + x)" for s by (elim timedE) simp
  show "\<forall>s \<in> set (shift_dts ss). timed s"
    using assms(1) by (auto simp: shift_dts_def x t) (auto simp: timed_def num_add_def)
  show "sorted_wrt (\<lambda>a b. dts_of a \<le> dts_of b) (shift_dts ss)"
    unfolding shift_dts_def x sorted_wrt_map
    using assms by (auto simp: t sorted_wrt_map intro: sorted_wrt_mono_rel [of ss "\<lambda>a b. dts_of a \<le> dts_of b"])
  show "length (shift_dts ss) = length ss" by (simp add: shift_dts_def)
qed


text \<open>The list that is settled: its first sample decodes at \<open>f\<close> or before, with \<open>f\<close> not below 0 then.\<close>

lemma close_gap_cases:
  assumes "ss = s # rest" and "timed s"
  shows "\<exists>s' p f. close_gap contiguous nextAvcDts ss = (s' # rest, Some p, Some f) \<and> timed s' \<and> max (dts_of s') f = f
    \<and> av_id s' = av_id s"
proof -
  obtain p d where s: "av_pts s = Some p" "av_dts s = Some d" using assms(2) by (rule timedE)
  let ?delta = "num_round (num_div (num_sub (num_max (av_dts s) (Some 0)) nextAvcDts) (Some 90))"
  show ?thesis
  proof (cases "contiguous \<and> truthy ?delta")
    case True
    then obtain n where n: "nextAvcDts = Some n" by (cases nextAvcDts) (auto simp: num_sub_def num_div_def num_round_def split: option.splits)
    let ?p = "max (max p 0 - of_int (js_round ((max d 0 - n) / 90))) n"
    have "close_gap contiguous nextAvcDts ss = (s\<lparr>av_dts := Some n, av_pts := Some ?p\<rparr> # rest, Some ?p, Some n)"
      using True by (simp add: close_gap_def assms(1) s n Let_def)
    then show ?thesis by (auto simp: timed_def)
  next
    case False
    then have "close_gap contiguous nextAvcDts ss = (s # rest, Some (max p 0), Some (max d 0))"
      unfolding close_gap_def assms(1) list.sel Let_def by (simp only: if_False) (simp add: s)
    then show ?thesis using assms(2) s by auto
  qed
qed

definition settled :: "rat \<Rightarrow> avc_sample \<Rightarrow> avc_sample" where
  "settled f s = s\<lparr>av_dts := Some (max (dts_of s) f), av_pts := Some (max (pts_of s) (max (dts_of s) f))\<rparr>"

lemma settle_settled: "timed s \<Longrightarrow> settle_sample False (Some f) c i s = settled f s"
  by (elim timedE) (simp add: settle_sample_def settled_def Let_def)

lemma settled_fields [simp]:
  "dts_of (settled f s) = max (dts_of s) f" "pts_of (settled f s) = max (pts_of s) (max (dts_of s) f)" "timed (settled f s)"
  "av_id (settled f s) = av_id s" "av_dts (settled f s) = Some (max (dts_of s) f)" "av_pts (settled f s) = Some (max (pts_of s) (max (dts_of s) f))"
  "av_units (settled f s) = av_units s"
  by (simp_all add: settled_def timed_def)

text \<open>The durations of samples in decoding order.\<close>

lemma last_duration_nonneg:
  assumes "timed prev" and "timed s" and "dts_of prev \<le> dts_of s"
  shows "\<exists>d. last_duration env ts fp al na prev s = Some d \<and> 0 \<le> d"
proof -
  obtain p d where s: "av_pts s = Some p" "av_dts s = Some d" using assms(2) by (rule timedE)
  obtain p' d' where q: "av_pts prev = Some p'" "av_dts prev = Some d'" using assms(1) by (rule timedE)
  define e where "e = (if truthy al then num_add fp (num_mul al ts) else na)"
  define g where "g = map_option (\<lambda>x. rat_of_int \<lfloor>x\<rfloor>) (num_mul (Some (min (re_maxBufferHole env) (re_maxSeekHole env))) ts)"
  have nn: "0 \<le> d - d'" using assms(3) by (simp add: s q)
  have "last_duration env ts fp al na prev s
      = (if re_stretchShortVideoTrack env then
           if num_less g (num_sub e (Some p)) then
             let x = num_sub (num_sub e (Some p)) (Some (d - d')) in if num_less x (Some 0) then Some (d - d') else x
           else Some (d - d')
         else Some (d - d'))"
    by (simp add: last_duration_def Let_def s q e_def g_def)
  also have "\<exists>x. \<dots> = Some x \<and> 0 \<le> x"
    using nn by (cases e; cases g) (auto simp: Let_def num_less_def num_sub_def)
  finally show ?thesis .
qed

lemma video_durations_sums:
  assumes "\<forall>s \<in> set (prev # ss). timed s" and "sorted_wrt (\<lambda>a b. dts_of a \<le> dts_of b) (prev # ss)"
    and "\<And>a b. timed a \<Longrightarrow> timed b \<Longrightarrow> dts_of a \<le> dts_of b \<Longrightarrow> \<exists>d. fn a b = Some d \<and> 0 \<le> d"
  shows "\<exists>ds. video_durations fn prev ss = map Some ds \<and> length ds = length ss \<and> (\<forall>d \<in> set ds. 0 \<le> d)
    \<and> (\<forall>i < length ss. dts_of (ss ! i) = dts_of (hd ss) + sum_list (take i ds))"
  using assms(1,2)
proof (induction ss arbitrary: prev)
  case (Cons s ss)
  have s: "timed prev" "timed s" "dts_of prev \<le> dts_of s" using Cons.prems by auto
  show ?case
  proof (cases ss)
    case Nil
    obtain d where "fn prev s = Some d" "0 \<le> d" using assms(3) [OF s] by blast
    then show ?thesis by (intro exI [of _ "[d]"]) (simp add: Nil)
  next
    case ss: (Cons t ss')
    obtain ds where ds: "video_durations fn s ss = map Some ds" "length ds = length ss" "\<forall>d \<in> set ds. 0 \<le> d"
      "\<forall>i < length ss. dts_of (ss ! i) = dts_of (hd ss) + sum_list (take i ds)"
      using Cons.IH [of s] Cons.prems by auto
    have t: "timed t" "dts_of s \<le> dts_of t" using Cons.prems by (auto simp: ss)
    have sub: "num_sub (av_dts t) (av_dts s) = Some (dts_of t - dts_of s)" using s(2) t(1) by (elim timedE) simp
    have "dts_of ((s # ss) ! i) = dts_of s + sum_list (take i ((dts_of t - dts_of s) # ds))" if "i < length (s # ss)" for i
      using that ds(4) by (cases i) (auto simp: ss)
    then show ?thesis
      using ds t(2) sub by (intro exI [of _ "(dts_of t - dts_of s) # ds"]) (simp add: ss)
  qed
qed simp

text \<open>The settled samples decode in order from \<open>f\<close> on.\<close>

lemma settled_sorted:
  assumes "sorted_wrt (\<lambda>a b. dts_of a \<le> dts_of b) rest" and "max (dts_of s) f = f"
  shows "sorted_wrt (\<lambda>a b. dts_of a \<le> dts_of b) (map (settled f) (s # rest))" "dts_of (hd (map (settled f) (s # rest))) = f"
proof -
  have "sorted_wrt (\<lambda>a b. dts_of a \<le> dts_of b) (map (settled f) rest)"
    unfolding sorted_wrt_map using assms(1) by (rule sorted_wrt_mono_rel [rotated]) auto
  then show "sorted_wrt (\<lambda>a b. dts_of a \<le> dts_of b) (map (settled f) (s # rest))" using assms(2) by simp
  show "dts_of (hd (map (settled f) (s # rest))) = f" using assms(2) by simp
qed

text \<open>What the demuxer hands over: samples with timestamps and an id.\<close>

definition video_input :: "avc_sample list \<Rightarrow> bool" where
  "video_input ss \<longleftrightarrow> ss \<noteq> [] \<and> (\<forall>s \<in> set ss. timed s \<and> av_id s \<noteq> None)"

lemma video_timeline_settled:
  assumes "video_input ss" and "\<not> rm_isSafari r" and "rm_initDTS r = Some i"
    and q_def: "q = video_timeline env r timeScale timeOffset contiguous audioTrackLength accurate ss"
  shows "\<exists>f ds p l m. vq_firstDTS q = Some f \<and> vq_durations q = map Some ds \<and> vq_firstPTS q = Some p
    \<and> vq_lastDTS q = Some l \<and> vq_lastPTS q = Some m \<and> length ds = length ss \<and> length (vq_samples q) = length ss
    \<and> (\<forall>d \<in> set ds. 0 \<le> d) \<and> (\<forall>s \<in> set (vq_samples q). timed s \<and> dts_of s \<le> pts_of s)
    \<and> (\<forall>i < length ss. dts_of (vq_samples q ! i) = f + sum_list (take i ds))
    \<and> mset (map av_id (vq_samples q)) = mset (map av_id ss)"
proof -
  define c where "c = video_contiguous r timeScale timeOffset contiguous accurate ss"
  have c: "c = contiguous" using assms(2) by (simp add: c_def video_contiguous_def)
  define ref where "ref = (if c then rm_nextAvcDts r else num_mul (Some timeOffset) timeScale)"
  define s1 where "s1 = map (normalize_sample (rm_initDTS r) ref) ss"
  define s2 where "s2 = shift_dts (js_sort avc_le s1)"
  have s1: "\<forall>s \<in> set s1. timed s \<and> av_id s \<noteq> None"
    using assms(1) normalize_timed by (auto simp: s1_def video_input_def assms(3)) (simp add: normalize_sample_def)
  have srt: "\<forall>s \<in> set (js_sort avc_le s1). timed s" "sorted_wrt (\<lambda>a b. dts_of a \<le> dts_of b) (js_sort avc_le s1)"
    using s1 avc_sort_dts by auto
  note s2 = shift_dts_keeps [OF srt, folded s2_def]
  have ids: "mset (map av_id s2) = mset (map av_id ss)"
  proof -
    have "map av_id s2 = map av_id (js_sort avc_le s1)" by (simp add: s2_def shift_dts_def)
    moreover have "map av_id s1 = map av_id ss" by (simp add: s1_def normalize_sample_def)
    ultimately show ?thesis using mset_js_sort [of avc_le s1] by (metis mset_map)
  qed
  have l2: "length s2 = length ss" using s2(3) by (simp add: s1_def)
  then obtain s rest where sr: "s2 = s # rest" using assms(1) by (cases s2) (auto simp: video_input_def)
  obtain s' p f where g: "close_gap c ref s2 = (s' # rest, Some p, Some f)" "timed s'" "max (dts_of s') f = f" "av_id s' = av_id s"
  proof -
    have "timed s" using s2(1) by (simp add: sr)
    from close_gap_cases [OF sr this, of c ref] show ?thesis using that by blast
  qed
  define out where "out = map (settled f) (s' # rest)"
  define fn where "fn = last_duration env timeScale (Some p) audioTrackLength (as_num (rm_nextAudioPts r))"
  have settle: "map (\<lambda>(i, s). settle_sample False (Some f) k i s) (enumerate 0 (s' # rest)) = out" for k
  proof -
    have "map (\<lambda>(i, s). settle_sample False (Some f) k i s) (enumerate m xs) = map (settled f) xs"
      if "\<forall>s \<in> set xs. timed s" for m xs
      using that by (induction xs arbitrary: m) (simp_all add: settle_settled)
    then show ?thesis using g(2) s2(1) by (simp add: out_def sr settle_settled)
  qed
  have rest: "sorted_wrt (\<lambda>a b. dts_of a \<le> dts_of b) rest" using s2(2) by (simp add: sr)
  have srt_out: "sorted_wrt (\<lambda>a b. dts_of a \<le> dts_of b) out" and hd: "dts_of (hd out) = f"
    using settled_sorted [OF rest g(3)] by (simp_all add: out_def)
  have ne: "out = hd out # tl out" by (simp add: out_def)
  have timed_out: "\<forall>s \<in> set out. timed s \<and> dts_of s \<le> pts_of s" by (auto simp: out_def)
  have pre: "sorted_wrt (\<lambda>a b. dts_of a \<le> dts_of b) (hd out # out)" "\<forall>s \<in> set (hd out # out). timed s"
    using srt_out timed_out ne by (metis (no_types, lifting) sorted_wrt.simps(2) order_refl set_ConsD, metis list.set_sel(1) out_def list.discI list.simps(9) set_ConsD)
  obtain ds where ds: "video_durations fn (hd out) out = map Some ds" "length ds = length out" "\<forall>d \<in> set ds. 0 \<le> d"
    "\<forall>i < length out. dts_of (out ! i) = dts_of (hd out) + sum_list (take i ds)"
    using video_durations_sums [OF pre(2,1), of fn] last_duration_nonneg unfolding fn_def by blast
  have hd_out: "hd out = settled f s'" by (simp add: out_def)
  have q: "vq_samples q = out" "vq_firstDTS q = Some f" "vq_durations q = video_durations fn (hd out) out" "vq_firstPTS q = Some p"
    "vq_lastDTS q = num_max (av_dts (last (s' # rest))) (Some 0)"
    "vq_lastPTS q = num_max (num_max (av_pts (last (s' # rest))) (Some 0)) (vq_lastDTS q)"
    using g(1) settle assms(2) hd_out
    by (simp_all add: settle_settled [OF g(2)] q_def video_timeline_def Let_def fn_def flip: c_def ref_def s1_def s2_def)
  have "timed (last (s' # rest))" using g(2) s2(1) by (simp add: sr)
  then obtain l m where lm: "vq_lastDTS q = Some l" "vq_lastPTS q = Some m" using q(5,6) by (elim timedE) simp
  have "map av_id out = map av_id s2" using g(4) by (simp add: out_def sr)
  then show ?thesis
    using q ds hd timed_out ids l2 lm
    by (intro exI [of _ f] exI [of _ ds] exI [of _ p] exI [of _ l] exI [of _ m]) (simp add: out_def sr comp_def)
qed

end
