(* ===== verification/Remux_Frames.thy ===== *)
theory Remux_Frames
  imports Remux_Timeline Mp4_Props
begin

text \<open>
  Properties of the segments the remuxer writes: the media data of a video fragment is its samples; with an accurate time offset, the AAC frames of a fragment come out
  on a grid of 1024 samples that starts where the fragment before ended.
\<close>

subsection \<open>The media data of a video fragment\<close>

text \<open>What a sample looks like in the file: its units, each after its length.\<close>

definition sample_bytes :: "avc_sample \<Rightarrow> bytes" where
  "sample_bytes s = concat (map (\<lambda>u. be32 (int (length (un_data u))) @ un_data u) (av_units s))"

lemma unit_bytes_sum:
  "sum_list (map (\<lambda>u. 4 + length (un_data u)) us) = sum_list (map (length \<circ> un_data) us) + 4 * length us"
  by (induction us) simp_all

lemma length_sample_bytes: "length (sample_bytes s) = sum_list (map (\<lambda>u. 4 + length (un_data u)) (av_units s))"
  by (simp add: sample_bytes_def length_concat comp_def)

lemma sm_size_video_sample [simp]: "sm_size (video_sample safari s d) = int (length (sample_bytes s))"
  by (simp add: video_sample_def length_sample_bytes)

lemma write_units_layout:
  "length pre = off \<Longrightarrow> n = sum_list (map (\<lambda>u. 4 + length (un_data u)) us) + m \<Longrightarrow>
   write_units us off (pre @ replicate n 0)
     = (pre @ concat (map (\<lambda>u. be32 (int (length (un_data u))) @ un_data u) us) @ replicate m 0, off + (n - m))"
proof (induction us arbitrary: pre off n)
  case (Cons u us)
  let ?d = "un_data u" and ?r = "sum_list (map (\<lambda>u. 4 + length (un_data u)) us) + m"
  have 1: "set_at (pre @ replicate n 0) (be32 (int (length ?d))) off = (pre @ be32 (int (length ?d))) @ replicate (length ?d + ?r) 0"
    using set_at_append [of "be32 (int (length ?d))" "replicate 4 0" pre "replicate (length ?d + ?r) 0"] Cons.prems
    by (simp add: replicate_add [symmetric] add.assoc)
  have 2: "set_at ((pre @ be32 (int (length ?d))) @ replicate (length ?d + ?r) 0) ?d (off + 4)
      = (pre @ be32 (int (length ?d)) @ ?d) @ replicate ?r 0"
    using set_at_append [of ?d "replicate (length ?d) 0" "pre @ be32 (int (length ?d))" "replicate ?r 0"] Cons.prems(1)
    by (simp add: replicate_add)
  have 3: "write_units us (off + 4 + length ?d) ((pre @ be32 (int (length ?d)) @ ?d) @ replicate ?r 0)
     = ((pre @ be32 (int (length ?d)) @ ?d) @ concat (map (\<lambda>u. be32 (int (length (un_data u))) @ un_data u) us) @ replicate m 0,
        off + 4 + length ?d + (?r - m))"
    using Cons.prems(1) by (intro Cons.IH) simp_all
  show ?case
    unfolding write_units.simps Let_def 1 2 3 using Cons.prems(2) by simp
qed simp

lemma write_sample_layout:
  assumes "n = length (sample_bytes s) + m"
  shows "write_units (av_units s) (length pre) (pre @ replicate n 0)
    = ((pre @ sample_bytes s) @ replicate m 0, length (pre @ sample_bytes s))"
  using write_units_layout [OF refl, of n "av_units s" m pre] assms
  by (simp add: length_sample_bytes) (simp add: sample_bytes_def)

text \<open>The buffer that is filled in place is the box that \<open>MP4.mdat\<close> would have built.\<close>

lemma video_mdat_box: "video_mdat ss = mdat (concat (map sample_bytes ss))"
proof -
  have fill: "fold (\<lambda>s (buf, offset). write_units (av_units s) offset buf) ss (pre @ replicate n 0, length pre)
      = (pre @ concat (map sample_bytes ss), length pre + n)"
    if "n = (\<Sum>s\<leftarrow>ss. length (sample_bytes s))" for pre n
    using that
  proof (induction ss arbitrary: pre n)
    case (Cons s ss)
    let ?m = "(\<Sum>s\<leftarrow>ss. length (sample_bytes s))"
    have "write_units (av_units s) (length pre) (pre @ replicate n 0)
        = ((pre @ sample_bytes s) @ replicate ?m 0, length (pre @ sample_bytes s))"
      using Cons.prems by (intro write_sample_layout) (simp add: comp_def)
    then show ?case
      using Cons.IH [of ?m "pre @ sample_bytes s"] Cons.prems by simp
  qed simp
  let ?n = "(\<Sum>s\<leftarrow>ss. length (sample_bytes s))"
  have size: "unit_sizes ss + 4 * unit_count ss + 8 = 8 + ?n"
    unfolding unit_sizes_def unit_count_def
    by (induction ss) (simp_all add: length_sample_bytes unit_bytes_sum comp_def)
  have hdr: "set_at (set_at (replicate (8 + ?n) 0) (be32 (int (8 + ?n))) 0) (types ''mdat'') 4
      = (be32 (int (8 + ?n)) @ types ''mdat'') @ replicate ?n 0"
    using set_at_append [of "be32 (int (8 + ?n))" "replicate 4 0" "[]" "replicate (4 + ?n) 0"]
      set_at_append [of "types ''mdat''" "replicate 4 0" "be32 (int (8 + ?n))" "replicate ?n 0"]
    by (simp add: replicate_add [symmetric])
  have "length (be32 (int (8 + ?n)) @ types ''mdat'') = 8" by simp
  then show ?thesis
    unfolding video_mdat_def Let_def size hdr
    using fill [of ?n "be32 (int (8 + ?n)) @ types ''mdat''"]
    by (simp add: mdat_def box_layout mk_box_def length_concat comp_def)
qed

text \<open>The table entries and the media data agree, whatever the time line is.\<close>

lemma length_video_durations [simp]: "length (video_durations f s ss) = length ss"
  by (induction f s ss rule: video_durations.induct) simp_all

lemma video_timeline_lengths:
  "length (vq_durations (video_timeline env r ts off c len acc ss)) = length (vq_samples (video_timeline env r ts off c len acc ss))"
  by (simp add: video_timeline_def Let_def split: prod.split)

lemma mark_first_sizes [simp]: "map sm_size (mark_first ua ss) = map sm_size ss" "length (mark_first ua ss) = length ss"
  by (simp_all add: mark_first_def split: list.split)

definition remuxed_samples :: "remux_env \<Rightarrow> remuxer \<Rightarrow> video_times \<Rightarrow> sample list" where
  "remuxed_samples env r q =
     mark_first (re_userAgent env) (map2 (video_sample (rm_isSafari r)) (vq_samples q) (vq_durations q))"

lemma remuxed_sizes:
  assumes "length (vq_durations q) = length (vq_samples q)"
  shows "map sm_size (remuxed_samples env r q) = map (\<lambda>s. int (length (sample_bytes s))) (vq_samples q)"
proof -
  have "map (\<lambda>x. int (length (sample_bytes (fst x)))) (zip xs ds) = map (\<lambda>s. int (length (sample_bytes s))) xs"
    if "length ds = length xs" for xs :: "avc_sample list" and ds :: "num list"
    using that by (induction xs ds rule: list_induct2') simp_all
  then show ?thesis using assms by (simp add: remuxed_samples_def comp_def case_prod_beta)
qed

lemma remuxVideo_fragment:
  assumes "q = video_timeline env r (video_timeScale v) off c len acc (vt_samples (vi_track v))"
  shows "fd_data1 (fst (remuxVideo env v off c len acc r)) @ fd_data2 (fst (remuxVideo env v off c len acc r))
    = fragment (vi_sequenceNumber v) (num_rat (vq_firstDTS q)) (video_mp4 v (remuxed_samples env r q))
        (concat (map sample_bytes (vq_samples q)))"
  by (simp add: remuxVideo_def Let_def assms remuxed_samples_def fragment_def video_mdat_box)

text \<open>Cutting a buffer by the lengths of its parts.\<close>

lemma cut_concat:
  "i < length xs \<Longrightarrow> take (length (xs ! i)) (drop (sum_list (map length (take i xs))) (concat xs @ ys)) = xs ! i"
proof (induction xs arbitrary: i)
  case (Cons x xs)
  then show ?case by (cases i) simp_all
qed simp

lemma fragment_samples_found:
  assumes "length (fragment sn time tr (concat xs)) < 2 ^ 31" and sizes: "map sm_size (tr_samples tr) = map (\<lambda>x. int (length x)) xs"
    and d: "d = fragment sn time tr (concat xs)"
  shows "\<exists>u trf. boxes d (whole d) [''moof'', ''traf''] = [trf] \<and> boxes d trf [''trun''] = [u] \<and>
    map (\<lambda>i. take (nat (readUint32 d (16 + 16 * i + fst u)))
               (drop (nat (readUint32 d (8 + fst u)) + (\<Sum>j\<leftarrow>[0..<i]. nat (readUint32 d (16 + 16 * j + fst u)))) d))
      [0..<length xs] = xs"
proof -
  obtain u trf where u: "boxes d (whole d) [''moof'', ''traf''] = [trf]" "boxes d trf [''trun''] = [u]"
    "drop (nat (readUint32 d (8 + fst u))) d = concat xs"
    using trun_data_offset [OF assms(1)] unfolding d by blast
  have len: "length (tr_samples tr) = length xs" using sizes by (metis length_map)
  have big: "length (concat xs) < 2 ^ 31" using assms(1) by (simp add: length_fragment)
  have size: "nat (readUint32 d (16 + 16 * i + fst u)) = length (xs ! i)" if i: "i < length xs" for i
  proof -
    have "readUint32 d (16 + 16 * i + fst u) = to_uint32 (sm_size (tr_samples tr ! i))"
      using trun_sample_table [of sn time tr "concat xs" i] assms(1) i len u unfolding d by auto
    moreover have "sm_size (tr_samples tr ! i) = int (length (xs ! i))"
      using i len sizes by (metis nth_map)
    moreover have "length (xs ! i) \<le> length (concat xs)"
      using i by (simp add: length_concat member_le_sum_list)
    ultimately show ?thesis using big by (simp add: to_uint32_small)
  qed
  have before: "(\<Sum>j\<leftarrow>[0..<i]. nat (readUint32 d (16 + 16 * j + fst u))) = sum_list (map length (take i xs))"
    if "i \<le> length xs" for i
    using that size by (intro arg_cong [where f = sum_list] nth_equalityI) simp_all
  have cut: "take (nat (readUint32 d (16 + 16 * i + fst u)))
      (drop (nat (readUint32 d (8 + fst u)) + (\<Sum>j\<leftarrow>[0..<i]. nat (readUint32 d (16 + 16 * j + fst u)))) d) = xs ! i"
    if i: "i < length xs" for i
  proof -
    have "drop (nat (readUint32 d (8 + fst u)) + sum_list (map length (take i xs))) d
        = drop (sum_list (map length (take i xs))) (concat xs)"
      using u(3) by (metis add.commute drop_drop)
    then show ?thesis using before [of i] size [OF i] cut_concat [OF i, of "[]"] i by simp
  qed
  have "map (\<lambda>i. take (nat (readUint32 d (16 + 16 * i + fst u)))
      (drop (nat (readUint32 d (8 + fst u)) + (\<Sum>j\<leftarrow>[0..<i]. nat (readUint32 d (16 + 16 * j + fst u)))) d))
      [0..<length xs] = map ((!) xs) [0..<length xs]"
    using cut by (intro map_cong) simp_all
  then show ?thesis using u(1,2) by (intro exI conjI) (simp_all add: map_nth)
qed

subsection \<open>Frames on a grid\<close>

fun on_grid :: "rat \<Rightarrow> rat \<Rightarrow> media_sample list \<Rightarrow> bool" where
  "on_grid n D [] \<longleftrightarrow> True"
| "on_grid n D (s # ss) \<longleftrightarrow> sm_pts s = Some n \<and> on_grid (n + D) D ss"

lemma on_grid_append [simp]: "on_grid n D (xs @ ys) \<longleftrightarrow> on_grid n D xs \<and> on_grid (n + of_nat (length xs) * D) D ys"
  by (induction xs arbitrary: n) (auto simp: algebra_simps)

lemma on_grid_nth: "on_grid n D ss \<Longrightarrow> i < length ss \<Longrightarrow> sm_pts (ss ! i) = Some (n + of_nat i * D)"
proof (induction ss arbitrary: n i)
  case (Cons s ss)
  then show ?case by (cases i) (auto simp: algebra_simps)
qed simp

lemma silent_frames_grid:
  "0 \<le> n \<Longrightarrow> 0 \<le> D \<Longrightarrow> on_grid n D (silent_frames f (Some D) (Some n) k)"
  by (induction k arbitrary: n) (simp_all add: audio_stamp_def max_def)

lemma silent_frames_units [simp]:
  "length (silent_frames f dur n k) = k" "map sm_unit (silent_frames f dur n k) = replicate k f"
  by (induction k arbitrary: n) (simp_all add: audio_stamp_def)

definition units_len :: "media_sample list \<Rightarrow> int" where
  "units_len ss = (\<Sum>s\<leftarrow>ss. int (length (sm_unit s)))"

lemma units_len_simps [simp]:
  "units_len [] = 0" "units_len (s # ss) = int (length (sm_unit s)) + units_len ss" "units_len (xs @ ys) = units_len xs + units_len ys"
  by (simp_all add: units_len_def)

lemma units_len_silent [simp]: "units_len (silent_frames f dur n k) = int k * int (length f)"
  by (induction k arbitrary: n) (simp_all add: audio_stamp_def algebra_simps)

lemma units_len_concat: "units_len ss = int (length (concat (map sm_unit ss)))"
  by (induction ss) simp_all

text \<open>What \<open>place_frames\<close> makes of frames with timestamps.\<close>

lemma place_frames_grid:
  assumes "0 \<le> n" and "0 < D" and "\<forall>s \<in> set ss. sm_pts s \<noteq> None"
  shows "on_grid n D (fst (place_frames t (Some D) (Some n) ss))"
    and "snd (place_frames t (Some D) (Some n) ss) = units_len (fst (place_frames t (Some D) (Some n) ss)) - units_len ss"
    and "u \<in> sm_unit ` set (fst (place_frames t (Some D) (Some n) ss)) \<Longrightarrow> \<exists>s \<in> set ss. u = sm_unit s \<or> u = fill_frame t (sm_unit s)"
proof -
  have "on_grid n D (fst (place_frames t (Some D) (Some n) ss))
    \<and> snd (place_frames t (Some D) (Some n) ss) = units_len (fst (place_frames t (Some D) (Some n) ss)) - units_len ss
    \<and> (u \<in> sm_unit ` set (fst (place_frames t (Some D) (Some n) ss)) \<longrightarrow> (\<exists>s \<in> set ss. u = sm_unit s \<or> u = fill_frame t (sm_unit s)))"
    using assms(1,3)
  proof (induction ss arbitrary: n)
    case (Cons s ss)
    obtain p where p: "sm_pts s = Some p" using Cons.prems(2) by auto
    have rest: "\<forall>s \<in> set ss. sm_pts s \<noteq> None" using Cons.prems(2) by simp
    define k where "k = nat (num_int (num_round (num_div (Some (p - n)) (Some D))))"
    have pos: "0 \<le> n + of_nat k * D + D" "0 \<le> n + D" using Cons.prems(1) assms(2) by simp_all
    note IH = Cons.IH [OF Cons.prems(1) rest] Cons.IH [OF pos(1) rest] Cons.IH [OF pos(2) rest]
    have silent: "on_grid n D (silent_frames f (Some D) (Some n) k)" for f
      using Cons.prems(1) assms(2) by (intro silent_frames_grid) simp_all
    have su: "u \<in> sm_unit ` set (silent_frames f (Some D) (Some n) k) \<Longrightarrow> u = f" for f
      by (metis silent_frames_units(2) in_set_replicate list.set_map)
    show ?case
      unfolding place_frames.simps p Let_def num_Some_simps num_Some k_def [symmetric]
      using IH silent su assms(2)
      by (auto simp: algebra_simps)
  qed simp
  then show "on_grid n D (fst (place_frames t (Some D) (Some n) ss))"
    "snd (place_frames t (Some D) (Some n) ss) = units_len (fst (place_frames t (Some D) (Some n) ss)) - units_len ss"
    "u \<in> sm_unit ` set (fst (place_frames t (Some D) (Some n) ss)) \<Longrightarrow> \<exists>s \<in> set ss. u = sm_unit s \<or> u = fill_frame t (sm_unit s)"
    by blast+
qed

subsection \<open>Writing the frames\<close>

definition mp4_frames :: "int \<Rightarrow> bytes list \<Rightarrow> sample list" where
  "mp4_frames d us = map (\<lambda>u. audio_sample (length u) d) us"

text \<open>The list while the loop runs: every frame but the last has its duration.\<close>

definition open_frames :: "bytes list \<Rightarrow> sample list" where
  "open_frames us = mp4_frames 1024 (butlast us) @ [audio_sample (length (last us)) 0]"

lemma audio_sample_duration [simp]: "(audio_sample n d)\<lparr>sm_duration := e\<rparr> = audio_sample n e"
  by (simp add: audio_sample_def)

lemma set_last_open [simp]: "us \<noteq> [] \<Longrightarrow> set_last_duration d (open_frames us) = mp4_frames 1024 (butlast us) @ mp4_frames d [last us]"
  by (simp add: open_frames_def set_last_duration_def mp4_frames_def)

lemma close_open_frames: "us \<noteq> [] \<Longrightarrow> mp4_frames 1024 (butlast us) @ mp4_frames 1024 [last us] = mp4_frames 1024 us"
  unfolding mp4_frames_def map_append [symmetric] by simp

lemma frames_snoc: "us \<noteq> [] \<Longrightarrow> mp4_frames 1024 us @ [audio_sample (length u) 0] = open_frames (us @ [u])"
  by (simp add: open_frames_def)

lemma write_frame_fits:
  assumes "aw_data w = Some (pre @ replicate (length f + m) 0)" and "aw_offset w = length pre"
  shows "write_frame f d w = Inr (w\<lparr>aw_data := Some ((pre @ f) @ replicate m 0), aw_offset := length (pre @ f),
    aw_samples := aw_samples w @ [audio_sample (length f) d]\<rparr>)"
proof -
  have "set_at (pre @ replicate (length f + m) 0) f (length pre) = (pre @ f) @ replicate m 0"
    using set_at_append [of f "replicate (length f) 0" pre "replicate m 0"] by (simp add: replicate_add)
  then show ?thesis using assms by (simp add: write_frame_def)
qed

lemma write_audio_grid:
  assumes "0 < sc" and "D = 1024 * sc"
  shows "\<lbrakk>aw_started w; aw_data w = Some (pre @ replicate m 0); aw_offset w = length pre; int m = units_len ss;
    us \<noteq> []; aw_samples w = open_frames us; aw_lastPTS w = Some l; on_grid (l + D) D ss\<rbrakk> \<Longrightarrow>
   \<exists>w'. write_audio t raw c (Some sc) isd nap ss w = Inr (Inr w')
    \<and> aw_data w' = Some (pre @ concat (map sm_unit ss)) \<and> aw_samples w' = open_frames (us @ map sm_unit ss)
    \<and> aw_lastPTS w' = Some (l + of_nat (length ss) * D) \<and> aw_firstPTS w' = aw_firstPTS w"
proof (induction ss arbitrary: w pre m us l)
  case (Cons s ss)
  let ?u = "sm_unit s"
  define m' where "m' = length (concat (map sm_unit ss))"
  have m: "m = length ?u + m'" using Cons.prems(4) by (simp add: m'_def units_len_concat)
  have p: "sm_pts s = Some (l + D)" and grid: "on_grid (l + D + D) D ss" using Cons.prems(8) by simp_all
  have dur: "num_int (num_round (num_div (num_sub (sm_pts s) (aw_lastPTS w)) (Some sc))) = 1024"
    using assms by (simp add: p Cons.prems(7) trunc_int_def)
  define w1 where "w1 = w\<lparr>aw_samples := mp4_frames 1024 us\<rparr>"
  define w2 where "w2 = w1\<lparr>aw_data := Some ((pre @ ?u) @ replicate m' 0), aw_offset := length (pre @ ?u),
    aw_samples := open_frames (us @ [?u])\<rparr>"
  have 1: "set_last_duration 1024 (aw_samples w) = mp4_frames 1024 us"
    using Cons.prems(5,6) close_open_frames [of us] by simp
  have 2: "write_frame ?u 0 w1 = Inr w2"
    using write_frame_fits [of w1 pre ?u m' 0] Cons.prems(2,3,5) frames_snoc [of us ?u] by (simp add: w1_def w2_def m)
  have "\<exists>w'. write_audio t raw c (Some sc) isd nap ss (w2\<lparr>aw_lastPTS := sm_pts s\<rparr>) = Inr (Inr w')
    \<and> aw_data w' = Some ((pre @ ?u) @ concat (map sm_unit ss)) \<and> aw_samples w' = open_frames ((us @ [?u]) @ map sm_unit ss)
    \<and> aw_lastPTS w' = Some (l + D + of_nat (length ss) * D) \<and> aw_firstPTS w' = aw_firstPTS (w2\<lparr>aw_lastPTS := sm_pts s\<rparr>)"
    using Cons.prems(1) grid p
    by (intro Cons.IH) (simp_all add: w1_def w2_def m'_def units_len_concat)
  moreover have "write_audio t raw c (Some sc) isd nap (s # ss) w = write_audio t raw c (Some sc) isd nap ss (w2\<lparr>aw_lastPTS := sm_pts s\<rparr>)"
    using Cons.prems(1) 2 by (simp add: dur 1 w1_def [symmetric])
  ultimately show ?case by (simp add: w1_def w2_def algebra_simps)
qed simp

lemma new_audio_mdat_layout:
  "new_audio_mdat False (int k) = (be32 (8 + int k) @ types ''mdat'') @ replicate k 0"
  using set_at_append [of "be32 (8 + int k)" "replicate 4 0" "[]" "replicate (4 + k) 0"]
    set_at_append [of "types ''mdat''" "replicate 4 0" "be32 (8 + int k)" "replicate k 0"]
  by (simp add: new_audio_mdat_def replicate_add [symmetric] nat_add_distrib add.commute)

lemma write_audio_first:
  assumes "0 < sc" and "D = 1024 * sc" and "au_inputTimeScale t \<noteq> 0" and "on_grid n D ss" and "0 < units_len ss"
    and w: "\<not> aw_started w" "\<not> aw_undefined w" "aw_samples w = []" "aw_len w = units_len ss"
  shows "\<exists>w'. write_audio t False c (Some sc) isd (Some n) ss w = Inr (Inr w')
    \<and> aw_data w' = Some (mdat (concat (map sm_unit ss))) \<and> aw_samples w' = open_frames (map sm_unit ss)
    \<and> aw_lastPTS w' = Some (n + of_nat (length ss - 1) * D) \<and> aw_firstPTS w' = Some (max 0 n)"
proof -
  obtain s rest where ss: "ss = s # rest" using assms(5) by (cases ss) auto
  let ?u = "sm_unit s"
  define k where "k = length (concat (map sm_unit ss))"
  define m where "m = length (concat (map sm_unit rest))"
  have k: "k = length ?u + m" by (simp add: k_def m_def ss)
  have len: "aw_len w = int k" using w(4) by (simp add: k_def units_len_concat)
  have pos: "0 < int k" using assms(5) by (simp add: k_def units_len_concat)
  have p: "sm_pts s = Some n" and grid: "on_grid (n + D) D rest" using assms(4) by (simp_all add: ss)
  have kept: "first_audio t c isd (Some n) (Some n) = Kept (Some n) 0"
    using assms(3) js_round_of_int(1) [of 0] by (simp add: first_audio_def Let_def)
  define hdr where "hdr = be32 (8 + int k) @ types ''mdat''"
  have hdr8: "length hdr = 8" by (simp add: hdr_def)
  define w1 where "w1 = w\<lparr>aw_len := int k, aw_firstPTS := Some (max 0 n), aw_data := Some (hdr @ replicate k 0), aw_offset := 8\<rparr>"
  define w2 where "w2 = w1\<lparr>aw_data := Some ((hdr @ ?u) @ replicate m 0), aw_offset := length (hdr @ ?u),
    aw_samples := open_frames [?u]\<rparr>"
  define w3 where "w3 = w2\<lparr>aw_lastPTS := Some n, aw_started := True, aw_undefined := False\<rparr>"
  have 2: "write_frame ?u 0 w1 = Inr w2"
    using write_frame_fits [of w1 hdr ?u m 0] w(3) by (simp add: w1_def w2_def k hdr8 open_frames_def mp4_frames_def)
  have "write_audio t False c (Some sc) isd (Some n) ss w = write_audio t False c (Some sc) isd (Some n) rest w3"
    unfolding ss write_audio.simps Let_def p kept using w(1,2,3) pos 2
    by (simp add: len new_audio_mdat_layout hdr_def [symmetric] w1_def [symmetric]) (simp add: w1_def w2_def w3_def)
  moreover have "\<exists>w'. write_audio t False c (Some sc) isd (Some n) rest w3 = Inr (Inr w')
    \<and> aw_data w' = Some ((hdr @ ?u) @ concat (map sm_unit rest)) \<and> aw_samples w' = open_frames ([?u] @ map sm_unit rest)
    \<and> aw_lastPTS w' = Some (n + of_nat (length rest) * D) \<and> aw_firstPTS w' = aw_firstPTS w3"
    using grid by (intro write_audio_grid [OF assms(1,2)]) (simp_all add: w3_def w2_def m_def units_len_concat)
  moreover have "(hdr @ ?u) @ concat (map sm_unit rest) = mdat (concat (map sm_unit ss))"
    by (simp add: ss mdat_def box_layout mk_box_def hdr_def k_def)
  ultimately show ?thesis by (simp add: w3_def w2_def w1_def ss)
qed

subsection \<open>A fragment of AAC frames\<close>

text \<open>The expected start of the audio of a fragment, and an audio track as the demuxer hands it over.\<close>

definition audio_reference :: "audio_in \<Rightarrow> remuxer \<Rightarrow> rat \<Rightarrow> bool \<Rightarrow> bool \<Rightarrow> num" where
  "audio_reference a r timeOffset contiguous accurate =
     (if audio_contiguous (ai_track a) r (num_mul (Some (of_nat (frame_samples a))) (audio_scale a)) timeOffset contiguous accurate
      then as_num (rm_nextAudioPts r) else num_mul (Some timeOffset) (Some (of_int (au_inputTimeScale (ai_track a)))))"

definition aac_input :: "audio_in \<Rightarrow> int \<Rightarrow> bool" where
  "aac_input a rate \<longleftrightarrow> au_isAAC (ai_track a) \<and> 0 < au_inputTimeScale (ai_track a) \<and> ai_timescale a = Some rate \<and> 0 < rate
     \<and> au_len (ai_track a) = units_len (au_samples (ai_track a)) \<and> (\<forall>s \<in> set (au_samples (ai_track a)). sm_pts s \<noteq> None)"

definition frame_ticks :: "audio_in \<Rightarrow> int \<Rightarrow> rat" where
  "frame_ticks a rate = 1024 * of_int (au_inputTimeScale (ai_track a)) / of_int rate"

definition placed_frames :: "audio_in \<Rightarrow> int \<Rightarrow> rat \<Rightarrow> remuxer \<Rightarrow> media_sample list" where
  "placed_frames a rate n r = fst (audio_frames a (Some (frame_ticks a rate)) (Some n) True (rm_initDTS r))"

lemma normalize_audio_some:
  "sm_pts s \<noteq> None \<Longrightarrow> sm_pts (normalize_audio (Some i) (Some n) s) \<noteq> None" "sm_unit (normalize_audio i' n' s) = sm_unit s"
  using PTSNormalize_Some by (force simp: normalize_audio_def Let_def) (simp add: normalize_audio_def Let_def)

lemma units_len_mset: "mset xs = mset ys \<Longrightarrow> units_len xs = units_len ys"
  unfolding units_len_def by (metis mset_map sum_mset_sum_list)

lemma placed_frames_grid:
  assumes "aac_input a rate" and "rm_initDTS r = Some i" and "0 \<le> n"
  shows "on_grid n (frame_ticks a rate) (placed_frames a rate n r)"
    and "snd (audio_frames a (Some (frame_ticks a rate)) (Some n) True (rm_initDTS r)) = units_len (placed_frames a rate n r)"
    and "s \<in> set (placed_frames a rate n r) \<Longrightarrow>
      \<exists>s' \<in> set (au_samples (ai_track a)). sm_unit s = sm_unit s' \<or> sm_unit s = fill_frame (ai_track a) (sm_unit s')"
proof -
  define xs where "xs = js_sort pts_le (map (normalize_audio (rm_initDTS r) (Some n)) (au_samples (ai_track a)))"
  have D: "0 < frame_ticks a rate" using assms(1) by (simp add: frame_ticks_def aac_input_def)
  have xs: "\<forall>s \<in> set xs. sm_pts s \<noteq> None"
    using assms(1,2) normalize_audio_some(1) by (auto simp: xs_def aac_input_def simp del: not_None_eq)
  have "units_len xs = units_len (map (normalize_audio (rm_initDTS r) (Some n)) (au_samples (ai_track a)))"
    unfolding xs_def by (intro units_len_mset mset_js_sort)
  also have "\<dots> = units_len (au_samples (ai_track a))"
    by (simp add: units_len_def comp_def normalize_audio_some(2))
  finally have len: "units_len xs = au_len (ai_track a)" using assms(1) by (simp add: aac_input_def)
  have af: "audio_frames a (Some (frame_ticks a rate)) (Some n) True (rm_initDTS r)
      = (let q = place_frames (ai_track a) (Some (frame_ticks a rate)) (Some n) xs in (fst q, au_len (ai_track a) + snd q))"
    using assms(1) by (simp add: audio_frames_def Let_def xs_def aac_input_def)
  note g = place_frames_grid [OF assms(3) D xs]
  show "on_grid n (frame_ticks a rate) (placed_frames a rate n r)"
    using g(1) by (simp add: placed_frames_def af Let_def)
  show "snd (audio_frames a (Some (frame_ticks a rate)) (Some n) True (rm_initDTS r)) = units_len (placed_frames a rate n r)"
    using g(2) len by (simp add: placed_frames_def af Let_def)
  show "\<exists>s' \<in> set (au_samples (ai_track a)). sm_unit s = sm_unit s' \<or> sm_unit s = fill_frame (ai_track a) (sm_unit s')"
    if "s \<in> set (placed_frames a rate n r)"
    using g(3) [of "sm_unit s" "ai_track a"] that by (auto simp: placed_frames_def af Let_def xs_def normalize_audio_some(2))
qed

lemma nth_length_minus2: "2 \<le> length xs \<Longrightarrow> xs ! (length xs - 2) = last (butlast xs)"
proof -
  assume n: "2 \<le> length xs"
  then have "butlast xs \<noteq> []" by (cases xs rule: rev_cases) auto
  then have "last (butlast xs) = butlast xs ! (length xs - 2)" by (simp add: last_conv_nth diff_diff_add numeral_2_eq_2)
  then show ?thesis using n by (simp add: nth_butlast)
qed

lemma remuxAudio_placed:
  assumes "aac_input a rate" and i: "rm_initDTS r = Some i" and ref: "audio_reference a r off c True = Some n" and n: "0 \<le> n"
    and us: "us = map sm_unit (placed_frames a rate n r)" and "concat us \<noteq> []"
    and d: "d = (if 2 \<le> length us then 1024 else 0)"
    and e: "e = n + of_nat (length us - 1) * frame_ticks a rate + of_int d * of_int (au_inputTimeScale (ai_track a)) / of_int rate"
  shows "\<exists>x. remuxAudio env a off c True r = Inr (Some x,
      a\<lparr>ai_track := (ai_track a)\<lparr>au_samples := [], au_len := 0, au_sequenceNumber := au_sequenceNumber (ai_track a) + 1\<rparr>\<rparr>,
      remux_emit (ParsingData x) (r\<lparr>rm_nextAudioPts := Some (Some e)\<rparr>))
    \<and> fd_data1 x @ fd_data2 x = fragment (au_sequenceNumber (ai_track a))
        (n * of_int rate / of_int (au_inputTimeScale (ai_track a))) (audio_mp4 a (mp4_frames d us)) (concat us)
    \<and> fd_startPTS x = Some (n / of_int (au_inputTimeScale (ai_track a)))
    \<and> fd_endPTS x = Some (e / of_int (au_inputTimeScale (ai_track a))) \<and> fd_nb x = length us"
proof -
  define t where "t = ai_track a"
  define its where "its = au_inputTimeScale t"
  define D where "D = frame_ticks a rate"
  define sc :: rat where "sc = of_int its / of_int rate"
  define ss where "ss = placed_frames a rate n r"
  have t: "au_isAAC t" "0 < its" "ai_timescale a = Some rate" "0 < rate"
    using assms(1) by (simp_all add: aac_input_def t_def its_def)
  have sc: "audio_scale a = Some sc" "0 < sc" "D = 1024 * sc"
    using t by (simp_all add: audio_scale_def sc_def its_def t_def D_def frame_ticks_def)
  have dur: "num_mul (Some (of_nat (frame_samples a))) (audio_scale a) = Some D"
    using t(1) sc by (simp add: frame_samples_def t_def)
  have dur': "num_mul (Some (of_nat (frame_samples a))) (Some sc) = Some D" using dur by (simp only: sc(1))
  define c' where "c' = audio_contiguous t r (Some D) off c True"
  have ref': "(if c' then as_num (rm_nextAudioPts r) else num_mul (Some off) (Some (of_int its))) = Some n"
    using ref by (simp only: audio_reference_def dur c'_def t_def its_def)
  then have undef: "\<not> (c' \<and> rm_nextAudioPts r = None)" by (cases "rm_nextAudioPts r") (auto simp: as_num_def)
  have af: "audio_frames a (Some D) (Some n) True (rm_initDTS r) = (ss, units_len ss)"
    using placed_frames_grid(2) [OF assms(1) i n] by (simp add: ss_def placed_frames_def D_def prod_eq_iff)
  have grid: "on_grid n D ss" using placed_frames_grid(1) [OF assms(1) i n] by (simp add: ss_def D_def)
  have us': "us = map sm_unit ss" "us \<noteq> []" using us assms(6) by (auto simp: ss_def)
  have pos: "0 < units_len ss" using assms(6) unfolding us'(1) units_len_concat of_nat_0_less_iff length_greater_0_conv .
  define w0 where "w0 = \<lparr>aw_data = None, aw_offset = 0, aw_samples = [], aw_firstPTS = None, aw_lastPTS = None, aw_started = False,
      aw_undefined = (c' \<and> rm_nextAudioPts r = None \<and> True \<and> au_isAAC t), aw_len = units_len ss\<rparr>"
  have its0: "au_inputTimeScale t \<noteq> 0" using t(2) by (simp add: its_def)
  obtain w where w: "write_audio t False c' (Some sc) (Some D) (Some n) ss w0 = Inr (Inr w)"
      "aw_data w = Some (mdat (concat us))" "aw_samples w = open_frames us"
      "aw_lastPTS w = Some (n + of_nat (length us - 1) * D)" "aw_firstPTS w = Some n"
    using write_audio_first [OF sc(2,3) its0 grid pos, of w0 c' "Some D"] undef n
    by (auto simp: w0_def us')
  have nb: "length (open_frames us) = length us" "open_frames us \<noteq> []"
    using us'(2) by (simp_all add: open_frames_def mp4_frames_def)
  have last: "sm_duration (open_frames us ! (length us - 2)) = 1024" if "2 \<le> length us"
  proof -
    have "open_frames us ! (length us - 2) = last (mp4_frames 1024 (butlast us))"
      using nth_length_minus2 [of "open_frames us", unfolded nb(1), OF that] by (simp add: open_frames_def)
    also have "\<dots> = audio_sample (length (last (butlast us))) 1024"
      using that by (cases us rule: rev_cases, simp, cases "butlast us = []") (auto simp: mp4_frames_def last_map)
    finally show ?thesis by (simp add: audio_sample_def)
  qed
  have out: "(if 2 \<le> length us then set_last_duration 1024 (open_frames us) else open_frames us) = mp4_frames d us"
  proof (cases "2 \<le> length us")
    case True
    then show ?thesis using close_open_frames [OF us'(2)] set_last_open [OF us'(2)] by (simp add: d)
  next
    case False
    then obtain u where "us = [u]" using us'(2) by (cases us) (auto simp: Suc_le_eq)
    then show ?thesis by (simp add: d open_frames_def mp4_frames_def)
  qed
  have lastdur: "(if 2 \<le> length us then sm_duration (open_frames us ! (length us - 2)) else 0) = d"
    using last by (simp add: d)
  have outs: "(if 2 \<le> length us then set_last_duration d (open_frames us) else open_frames us) = mp4_frames d us"
    using out by (simp add: d split: if_splits)
  have e': "num_add (Some (n + of_nat (length us - 1) * D)) (num_mul (Some sc) (Some (of_int d))) = Some e"
    by (simp add: e D_def sc_def its_def t_def)
  have start: "num_div (Some n) (Some sc) = Some (n * of_int rate / of_int its)"
    using sc(2) t by (simp add: sc_def)
  show ?thesis
    unfolding remuxAudio_def Let_def sc(1) dur' t_def [symmetric] its_def [symmetric] c'_def [symmetric] ref' af split w0_def [symmetric]
    by (simp only: t(1) simp_thms if_False w sum.case option.case nb(1) length_0_conv us'(2) lastdur outs e' start)
      (simp add: fragment_def nb(2) t(2) [THEN less_imp_neq, symmetric])
qed

end
