(* ===== verification/Remux_Props.thy ===== *)
theory Remux_Props
  imports Remux_Frames
begin

text \<open>
  Properties of the remuxer: timestamps near their reference, the video time line, the samples in a video
  fragment, and audio fragments that join.
\<close>

text \<open>
  Timestamps wrap at 33 bits: with a reference, \<open>_PTSNormalize\<close> always ends, moves the value by a multiple of
  \<open>2 ^ 33\<close> and leaves it at most \<open>2 ^ 32\<close> from the reference.
\<close>

lemma PTSNormalize_near:
  "\<exists>w k. PTSNormalize (Some v) (Some r) = Some w \<and> w = v + of_int k * 2 ^ 33 \<and> \<bar>w - r\<bar> \<le> 2 ^ 32"
  using pts_loop_near [of v r "r < v"] by (auto simp: PTSNormalize_def)

text \<open>
  C14. The video time line of a fragment (not on Safari): whatever the order, gaps, wraps and overlaps of the
  timestamps that the demuxer delivers, the samples that are written decode at the first time plus the sum of the durations
  before them, no duration is negative, no sample is shown before it is decoded, and no sample is lost.
\<close>

theorem video_timeline_consistent:
  assumes "video_input ss" and "\<not> rm_isSafari r" and "rm_initDTS r = Some i"
  shows "\<exists>f ds. let q = video_timeline env r timeScale timeOffset contiguous audioTrackLength accurate ss in
    vq_firstDTS q = Some f \<and> vq_durations q = map Some ds \<and> length ds = length ss \<and> length (vq_samples q) = length ss
    \<and> (\<forall>d \<in> set ds. 0 \<le> d) \<and> (\<forall>s \<in> set (vq_samples q). timed s \<and> dts_of s \<le> pts_of s)
    \<and> (\<forall>i < length ss. dts_of (vq_samples q ! i) = f + sum_list (take i ds))
    \<and> mset (map av_id (vq_samples q)) = mset (map av_id ss)"
  using video_timeline_settled [OF assms refl, of env timeScale timeOffset contiguous audioTrackLength accurate]
  unfolding Let_def by (elim exE) (intro exI, fast)

definition example_env :: remux_env where
  "example_env = \<lparr>re_mpeg = True, re_mp3 = True, re_userAgent = ''Chrome'', re_stretchShortVideoTrack = False,
    re_maxBufferHole = 1 / 2, re_maxSeekHole = 2\<rparr>"

definition example_sample :: "rat \<Rightarrow> rat \<Rightarrow> nat \<Rightarrow> avc_sample" where
  "example_sample p d i = \<lparr>av_key = True, av_pts = Some p, av_dts = Some d,
    av_units = [\<lparr>un_data = [9, 240], un_type = 9, un_state = None\<rparr>], av_frame = True, av_id = Some i\<rparr>"

definition example_remuxer :: remuxer where
  "example_remuxer = (new_MP4Remuxer '''' ''Chrome'')\<lparr>rm_initDTS := Some 0, rm_nextAudioPts := Some (Some 0)\<rparr>"

definition example_video :: video_in where
  "example_video = \<lparr>vi_track = new_avcTrack\<lparr>vt_samples := [example_sample 3000 3000 0, example_sample 6000 6000 1]\<rparr>,
    vi_inputTimeScale = 90000, vi_timescale = Some 90000, vi_sequenceNumber = 0\<rparr>"

lemma video_timeline_consistent_witness:
  "\<exists>f ds. let q = video_timeline example_env example_remuxer (Some 90000) 0 True None True
      [example_sample 3000 3000 0, example_sample 6000 6000 1] in
    vq_firstDTS q = Some f \<and> vq_durations q = map Some ds \<and> length ds = 2 \<and> length (vq_samples q) = 2"
  using video_timeline_consistent [of "[example_sample 3000 3000 0, example_sample 6000 6000 1]" example_remuxer 0
      example_env "Some 90000" 0 True None True]
  by (auto simp: video_input_def timed_def example_sample_def example_remuxer_def new_MP4Remuxer_def Let_def)

text \<open>
  Numbers stay numbers: remuxing a non-empty list of video samples with timestamps and ids (not on Safari) gives a
  fragment with all four times defined, and leaves a defined decode time for the next one.
\<close>

lemma remuxVideo_numbers:
  assumes "video_input (vt_samples (vi_track v))" and "\<not> rm_isSafari r" and "rm_initDTS r = Some i"
    and "vi_timescale v = Some ts" and "ts \<noteq> 0"
  shows "case remuxVideo env v off c len acc r of (x, v', r') \<Rightarrow>
    \<exists>sp ep sd ed n. fd_startPTS x = Some sp \<and> fd_endPTS x = Some ep \<and> fd_startDTS x = Some sd \<and> fd_endDTS x = Some ed
      \<and> rm_nextAvcDts r' = Some n \<and> ed = n / of_int ts \<and> rm_initDTS r' = rm_initDTS r"
proof -
  define q where "q = video_timeline env r (video_timeScale v) off c len acc (vt_samples (vi_track v))"
  obtain f ds p l m where q: "vq_firstDTS q = Some f" "vq_durations q = map Some ds" "vq_firstPTS q = Some p"
    "vq_lastDTS q = Some l" "vq_lastPTS q = Some m" "length ds = length (vt_samples (vi_track v))"
    using video_timeline_settled [OF assms(1-3) q_def] by blast
  have "ds \<noteq> []" using q(6) assms(1) by (auto simp: video_input_def)
  then have "last (vq_durations q) = Some (last ds)" by (simp add: q(2) last_map)
  then show ?thesis
    unfolding remuxVideo_def Let_def q_def [symmetric] split
    using q(1,3-5) assms(4,5) by (simp add: video_timeScale_def remux_emit_def)
qed

lemma remuxVideo_numbers_witness:
  "case remuxVideo example_env example_video 0 True None True example_remuxer of (x, v', r') \<Rightarrow>
    \<exists>sp ep sd ed n. fd_startPTS x = Some sp \<and> fd_endPTS x = Some ep \<and> fd_startDTS x = Some sd \<and> fd_endDTS x = Some ed
      \<and> rm_nextAvcDts r' = Some n \<and> ed = n / of_int 90000 \<and> rm_initDTS r' = rm_initDTS example_remuxer"
  by (rule remuxVideo_numbers [where i = 0])
    (simp_all add: example_video_def video_input_def timed_def example_sample_def example_remuxer_def new_MP4Remuxer_def)

text \<open>
  C15. Every sample can be found in a video fragment: with the offset and the sizes that \<open>trun\<close> stores, read back by the
  MP4 reader, the data of the fragment is cut into exactly the samples of the time line, each unit after its length.
\<close>

theorem video_samples_found:
  assumes "length (fd_data1 (fst (remuxVideo env v off c len acc r)) @ fd_data2 (fst (remuxVideo env v off c len acc r))) < 2 ^ 31"
  shows "let x = fst (remuxVideo env v off c len acc r); d = fd_data1 x @ fd_data2 x;
      ss = vq_samples (video_timeline env r (video_timeScale v) off c len acc (vt_samples (vi_track v)))
    in \<exists>u trf. boxes d (whole d) [''moof'', ''traf''] = [trf] \<and> boxes d trf [''trun''] = [u] \<and>
      map (\<lambda>i. take (nat (readUint32 d (16 + 16 * i + fst u)))
                 (drop (nat (readUint32 d (8 + fst u)) + (\<Sum>j\<leftarrow>[0..<i]. nat (readUint32 d (16 + 16 * j + fst u)))) d))
        [0..<length ss] = map sample_bytes ss"
proof -
  define q where "q = video_timeline env r (video_timeScale v) off c len acc (vt_samples (vi_track v))"
  note frag = remuxVideo_fragment [OF q_def]
  have sizes: "map sm_size (tr_samples (video_mp4 v (remuxed_samples env r q)))
      = map (\<lambda>x. int (length x)) (map sample_bytes (vq_samples q))"
    using remuxed_sizes [of q env r] video_timeline_lengths [of env r _ off c len acc] by (simp add: video_mp4_def Let_def q_def comp_def)
  show ?thesis
    using fragment_samples_found [OF _ sizes refl] assms unfolding Let_def frag q_def [symmetric] by simp
qed

lemma example_timeline: "vq_samples (video_timeline example_env example_remuxer (Some 90000) 0 False None True
    [example_sample 3000 3000 0, example_sample 6000 6000 1]) = [example_sample 3000 3000 0, example_sample 6000 6000 1]"
  by (simp add: video_timeline_def Let_def video_contiguous_def example_remuxer_def new_MP4Remuxer_def normalize_sample_def
      PTSNormalize_def pts_loop.simps js_sort_def avc_le_def shift_dts_def PTSDTSshift_def close_gap_def settle_sample_def
      example_sample_def contains_def)

lemma video_samples_found_witness:
  "let x = fst (remuxVideo example_env example_video 0 False None True example_remuxer); d = fd_data1 x @ fd_data2 x
   in \<exists>u trf. boxes d (whole d) [''moof'', ''traf''] = [trf] \<and> boxes d trf [''trun''] = [u] \<and>
     map (\<lambda>i. take (nat (readUint32 d (16 + 16 * i + fst u)))
                 (drop (nat (readUint32 d (8 + fst u)) + (\<Sum>j\<leftarrow>[0..<i]. nat (readUint32 d (16 + 16 * j + fst u)))) d))
        [0..<2] = [[0, 0, 0, 2, 9, 240], [0, 0, 0, 2, 9, 240]]"
proof -
  have bytes: "sample_bytes (example_sample p d i) = [0, 0, 0, 2, 9, 240]" for p d i
    by (simp add: sample_bytes_def example_sample_def be32_def js_shr_def to_int32_def u8of_def js_and_def)
  have ex: "vq_samples (video_timeline example_env example_remuxer (video_timeScale example_video) 0 False None True
      (vt_samples (vi_track example_video))) = [example_sample 3000 3000 0, example_sample 6000 6000 1]"
    using example_timeline by (simp add: example_video_def video_timeScale_def)
  have two: "length [example_sample 3000 3000 0, example_sample 6000 6000 1] = 2"
    "map sample_bytes [example_sample 3000 3000 0, example_sample 6000 6000 1] = [[0, 0, 0, 2, 9, 240], [0, 0, 0, 2, 9, 240]]"
    by (simp_all add: bytes)
  have "length (remuxed_samples example_env example_remuxer (video_timeline example_env example_remuxer
      (video_timeScale example_video) 0 False None True (vt_samples (vi_track example_video)))) = 2"
    using video_timeline_lengths [of example_env example_remuxer "video_timeScale example_video" 0 False None True
      "vt_samples (vi_track example_video)"] ex by (simp add: remuxed_samples_def)
  then have "length (fd_data1 (fst (remuxVideo example_env example_video 0 False None True example_remuxer))
      @ fd_data2 (fst (remuxVideo example_env example_video 0 False None True example_remuxer))) < 2 ^ 31"
    unfolding remuxVideo_fragment [OF refl] ex length_fragment by (simp add: bytes video_mp4_def Let_def)
  from video_samples_found [OF this] show ?thesis unfolding Let_def ex two .
qed

text \<open>
  A fragment of AAC frames with an accurate time offset: from the expected start on, the frames that are kept, with
  silent ones in the gaps, each last 1024 samples of the output; the media data is exactly these frames, the fragment starts
  and ends on that grid, and the end is remembered as the start of the next fragment. This holds for at least two frames.
\<close>

lemma remuxAudio_gapless:
  assumes "aac_input a rate" and "rm_initDTS r = Some i" and "audio_reference a r off c True = Some n" and "0 \<le> n"
    and us: "us = map sm_unit (placed_frames a rate n r)" and two: "2 \<le> length us" and "concat us \<noteq> []"
  shows "\<exists>x a' r'. remuxAudio env a off c True r = Inr (Some x, a', r')
    \<and> fd_data1 x @ fd_data2 x = fragment (au_sequenceNumber (ai_track a))
        (n * of_int rate / of_int (au_inputTimeScale (ai_track a))) (audio_mp4 a (mp4_frames 1024 us)) (concat us)
    \<and> fd_startPTS x = Some (n / of_int (au_inputTimeScale (ai_track a)))
    \<and> fd_endPTS x = Some ((n + of_nat (length us) * frame_ticks a rate) / of_int (au_inputTimeScale (ai_track a)))
    \<and> rm_nextAudioPts r' = Some (Some (n + of_nat (length us) * frame_ticks a rate))
    \<and> au_samples (ai_track a') = [] \<and> rm_events r' = rm_events r @ [ParsingData x]"
proof -
  have end_time: "n + of_nat (length us) * frame_ticks a rate = n + of_nat (length us - 1) * frame_ticks a rate
      + of_int 1024 * of_int (au_inputTimeScale (ai_track a)) / of_int rate"
    using two by (simp add: frame_ticks_def of_nat_diff diff_divide_distrib algebra_simps)
  have "(1024 :: int) = (if 2 \<le> length us then 1024 else 0)" using two by simp
  from remuxAudio_placed [OF assms(1-5,7) this end_time, of env] obtain x where
    "remuxAudio env a off c True r = Inr (Some x,
      a\<lparr>ai_track := (ai_track a)\<lparr>au_samples := [], au_len := 0, au_sequenceNumber := au_sequenceNumber (ai_track a) + 1\<rparr>\<rparr>,
      remux_emit (ParsingData x) (r\<lparr>rm_nextAudioPts := Some (Some (n + of_nat (length us) * frame_ticks a rate))\<rparr>))"
    "fd_data1 x @ fd_data2 x = fragment (au_sequenceNumber (ai_track a))
        (n * of_int rate / of_int (au_inputTimeScale (ai_track a))) (audio_mp4 a (mp4_frames 1024 us)) (concat us)"
    "fd_startPTS x = Some (n / of_int (au_inputTimeScale (ai_track a)))"
    "fd_endPTS x = Some ((n + of_nat (length us) * frame_ticks a rate) / of_int (au_inputTimeScale (ai_track a)))"
    by blast
  then show ?thesis by (simp add: remux_emit_def)
qed

text \<open>
  Audio fragments join: when an AAC fragment follows a contiguous one with the same time scale, it starts exactly where
  that one ended, wherever the timestamps of its frames put it.
\<close>

lemma remuxAudio_joins:
  assumes "aac_input a rate" and "rm_initDTS r = Some i" and "audio_reference a r off c True = Some n" and "0 \<le> n"
    and "concat (map sm_unit (placed_frames a rate n r)) \<noteq> []"
    and first: "remuxAudio env a off c True r = Inr (Some x, a', r')" and e: "rm_nextAudioPts r' = Some (Some e)"
    and "aac_input b rate" and scale: "au_inputTimeScale (ai_track b) = au_inputTimeScale (ai_track a)"
    and "concat (map sm_unit (placed_frames b rate e r')) \<noteq> []"
  shows "\<exists>y b' r''. remuxAudio env b off' True True r' = Inr (Some y, b', r'') \<and> fd_startPTS y = fd_endPTS x"
proof -
  let ?its = "of_int (au_inputTimeScale (ai_track a)) :: rat"
  have x: "fd_endPTS x = Some (e / ?its)" "rm_initDTS r' = Some i" "n \<le> e"
    using remuxAudio_placed [OF assms(1-4) refl assms(5) refl refl, of env] first e assms(1,2)
    by (auto simp: remux_emit_def frame_ticks_def aac_input_def)
  have ref: "audio_reference b r' off' True True = Some e"
    by (simp add: audio_reference_def audio_contiguous_def e as_num_def)
  have "0 \<le> e" using x(3) assms(4) by simp
  from remuxAudio_placed [OF assms(8) x(2) ref this refl assms(10) refl refl, of env]
  show ?thesis using x(1) scale by fastforce
qed

definition example_audio :: "rat \<Rightarrow> audio_in" where
  "example_audio p = \<lparr>ai_track = (new_tsAudioTrack None)\<lparr>au_isAAC := True, au_inputTimeScale := 90000, au_samplerate := Some 48000,
     au_len := 2, au_samples := [\<lparr>sm_unit = [33], sm_pts = Some p, sm_dts = Some p\<rparr>,
       \<lparr>sm_unit = [34], sm_pts = Some (p + 1920), sm_dts = Some (p + 1920)\<rparr>]\<rparr>, ai_timescale = Some 48000\<rparr>"

lemma example_audio_input: "aac_input (example_audio p) 48000"
  by (simp add: aac_input_def example_audio_def units_len_def)

lemma example_placed:
  assumes "rm_initDTS r = Some 0" and "p \<in> {0, 3840}"
  shows "map sm_unit (placed_frames (example_audio p) 48000 p r) = [[33], [34]]"
  using assms(2)
  by (auto simp: placed_frames_def audio_frames_def frame_ticks_def example_audio_def assms(1) normalize_audio_def Let_def
      PTSNormalize_def pts_loop.simps js_sort_def pts_le_def num_le0_def num_less_def js_round_def trunc_int_def)


lemma example_reference: "rm_initDTS r = Some 0 \<Longrightarrow> audio_reference (example_audio p) r 0 False True = Some 0"
  if "rm_nextAudioPts r = Some (Some 0)"
  using that by (simp add: audio_reference_def example_audio_def as_num_def)

lemma remuxAudio_gapless_witness:
  "\<exists>x a' r'. remuxAudio example_env (example_audio 0) 0 False True example_remuxer = Inr (Some x, a', r')
    \<and> fd_data1 x @ fd_data2 x = fragment 0 0 (audio_mp4 (example_audio 0) (mp4_frames 1024 [[33], [34]])) [33, 34]
    \<and> fd_startPTS x = Some 0 \<and> fd_endPTS x = Some (3840 / 90000) \<and> rm_nextAudioPts r' = Some (Some 3840)"
proof -
  have r: "rm_initDTS example_remuxer = Some 0" "rm_nextAudioPts example_remuxer = Some (Some 0)"
    by (simp_all add: example_remuxer_def)
  have us: "[[33], [34]] = map sm_unit (placed_frames (example_audio 0) 48000 0 example_remuxer)"
    using example_placed [OF r(1)] by simp
  show ?thesis
    using remuxAudio_gapless [OF example_audio_input r(1) example_reference [OF r(2,1)] order_refl us, of example_env]
    by (simp add: frame_ticks_def) (auto simp: example_audio_def new_tsAudioTrack_def)
qed

lemma remuxAudio_joins_witness:
  "\<exists>x a' r' y b' r''. remuxAudio example_env (example_audio 0) 0 False True example_remuxer = Inr (Some x, a', r')
    \<and> remuxAudio example_env (example_audio 3840) 10 True True r' = Inr (Some y, b', r'') \<and> fd_startPTS y = fd_endPTS x"
proof -
  have r: "rm_initDTS example_remuxer = Some 0" "rm_nextAudioPts example_remuxer = Some (Some 0)"
    by (simp_all add: example_remuxer_def)
  note ref = example_reference [OF r(2,1), of 0]
  have us: "map sm_unit (placed_frames (example_audio 0) 48000 0 example_remuxer) = [[33], [34]]"
    using example_placed [OF r(1)] by simp
  then have ne: "concat (map sm_unit (placed_frames (example_audio 0) 48000 0 example_remuxer)) \<noteq> []" by simp
  obtain x a' r' where x: "remuxAudio example_env (example_audio 0) 0 False True example_remuxer = Inr (Some x, a', r')"
    "rm_nextAudioPts r' = Some (Some 3840)" "rm_initDTS r' = Some 0"
    using remuxAudio_placed [OF example_audio_input r(1) ref order_refl refl ne refl refl, of example_env] us r(1)
    by (auto simp: remux_emit_def frame_ticks_def example_audio_def)
  have "map sm_unit (placed_frames (example_audio 3840) 48000 3840 r') = [[33], [34]]"
    using example_placed [OF x(3)] by simp
  then have ne': "concat (map sm_unit (placed_frames (example_audio 3840) 48000 3840 r')) \<noteq> []" by simp
  have "au_inputTimeScale (ai_track (example_audio 3840)) = au_inputTimeScale (ai_track (example_audio 0))"
    by (simp add: example_audio_def)
  from remuxAudio_joins [OF example_audio_input r(1) ref order_refl ne x(1,2) example_audio_input this ne', of 10]
  show ?thesis using x(1) by blast
qed

end
