(* ===== verification/Js_Regex.thy ===== *)
theory Js_Regex
  imports Js_Values
begin

text \<open>
  Regular expressions of the language, as far as the playlist parsers use them: a matcher that returns the
  results of an expression in the order of backtracking, with the captured groups. A string is a list of characters below 256. A group
  inside a repetition, whose captures the language resets on each round, does not occur.
\<close>

subsection \<open>Expressions\<close>

datatype regex =
    Eps
  | One "char \<Rightarrow> bool"
  | Seq regex regex
  | Alt regex regex
  | Star regex            \<comment> \<open>\<open>r*\<close>\<close>
  | LazyStar regex        \<comment> \<open>\<open>r*?\<close>\<close>
  | Group nat regex       \<comment> \<open>\<open>(r)\<close>, with its number\<close>
  | NotAhead regex        \<comment> \<open>\<open>(?!r)\<close>\<close>
  | AtEnd                 \<comment> \<open>\<open>$\<close> without the multiline flag\<close>

type_synonym captures = "nat \<Rightarrow> string option"

text \<open>An iteration that matches the empty string is no iteration.\<close>

fun star_results :: "(captures \<Rightarrow> string \<Rightarrow> (captures \<times> string) list) \<Rightarrow> bool \<Rightarrow> nat \<Rightarrow> captures \<Rightarrow> string \<Rightarrow> (captures \<times> string) list" where
  "star_results f lazy 0 c s = [(c, s)]"
| "star_results f lazy (Suc n) c s =
     (let more = concat (map (\<lambda>(c', s'). if length s' < length s then star_results f lazy n c' s' else []) (f c s))
      in if lazy then (c, s) # more else more @ [(c, s)])"

primrec results :: "regex \<Rightarrow> captures \<Rightarrow> string \<Rightarrow> (captures \<times> string) list" where
  "results Eps c s = [(c, s)]"
| "results (One p) c s = (case s of [] \<Rightarrow> [] | x # xs \<Rightarrow> if p x then [(c, xs)] else [])"
| "results (Seq r q) c s = concat (map (\<lambda>(c', s'). results q c' s') (results r c s))"
| "results (Alt r q) c s = results r c s @ results q c s"
| "results (Star r) c s = star_results (results r) False (length s) c s"
| "results (LazyStar r) c s = star_results (results r) True (length s) c s"
| "results (Group n r) c s =
     map (\<lambda>(c', s'). (c'(n := Some (take (length s - length s') s)), s')) (results r c s)"
| "results (NotAhead r) c s = (if results r c s = [] then [(c, s)] else [])"
| "results AtEnd c s = (if s = [] then [(c, s)] else [])"

text \<open>The first result at the start of a string.\<close>

definition first_result :: "regex \<Rightarrow> captures \<Rightarrow> string \<Rightarrow> (captures \<times> string) option" where
  "first_result r c s = (case results r c s of [] \<Rightarrow> None | x # _ \<Rightarrow> Some x)"

definition no_captures :: captures where
  "no_captures = (\<lambda>_. None)"

text \<open>\<open>exec\<close>: the first position with a match; the captures with the match as group 0, and the rest of the string.\<close>

fun exec :: "regex \<Rightarrow> string \<Rightarrow> (captures \<times> string) option" where
  "exec r s =
     (case first_result r no_captures s of
        Some (c, rest) \<Rightarrow> Some (c(0 := Some (take (length s - length rest) s)), rest)
      | None \<Rightarrow> (case s of [] \<Rightarrow> None | _ # t \<Rightarrow> exec r t))"

declare exec.simps [simp del]

text \<open>
  The loop \<open>while ((m = r.exec(s)) !== null)\<close> of an expression with the global flag. After an empty match it would not
  advance; no expression here matches the empty string.
\<close>

function exec_all :: "regex \<Rightarrow> string \<Rightarrow> captures list" where
  "exec_all r s =
     (case exec r s of
        None \<Rightarrow> []
      | Some (c, rest) \<Rightarrow> c # (if length rest < length s then exec_all r rest else []))"
  by pat_completeness auto
termination by (relation "measure (length \<circ> snd)") auto

declare exec_all.simps [simp del]

subsection \<open>Notation of the language\<close>

definition opt :: "regex \<Rightarrow> regex" where \<comment> \<open>\<open>r?\<close>\<close>
  "opt r = Alt r Eps"

definition plus :: "regex \<Rightarrow> regex" where \<comment> \<open>\<open>r+\<close>\<close>
  "plus r = Seq r (Star r)"

definition lazy_plus :: "regex \<Rightarrow> regex" where \<comment> \<open>\<open>r+?\<close>\<close>
  "lazy_plus r = Seq r (LazyStar r)"

definition is_digit :: "char \<Rightarrow> bool" where \<comment> \<open>\<open>\d\<close>\<close>
  "is_digit c \<longleftrightarrow> c \<in> set ''0123456789''"

definition is_space :: "char \<Rightarrow> bool" where \<comment> \<open>\<open>\s\<close>\<close>
  "is_space c \<longleftrightarrow> c \<in> {CHR 0x09, CHR 0x0A, CHR 0x0B, CHR 0x0C, CHR 0x0D, CHR 0x20, CHR 0xA0}"

definition not_newline :: "char \<Rightarrow> bool" where \<comment> \<open>\<open>.\<close> and \<open>[^\r\n]\<close>\<close>
  "not_newline c \<longleftrightarrow> c \<noteq> CHR 0x0A \<and> c \<noteq> CHR 0x0D"

definition dot :: regex where
  "dot = One not_newline"

definition digit :: regex where
  "digit = One is_digit"

definition space :: regex where
  "space = One is_space"

definition chr :: "char \<Rightarrow> regex" where
  "chr x = One (\<lambda>y. y = x)"

fun lit :: "string \<Rightarrow> regex" where
  "lit [] = Eps"
| "lit (x # xs) = Seq (chr x) (lit xs)"

fun seqs :: "regex list \<Rightarrow> regex" where
  "seqs [] = Eps"
| "seqs (r # rs) = Seq r (seqs rs)"

fun alts :: "regex list \<Rightarrow> regex" where
  "alts [] = NotAhead Eps"
| "alts [r] = r"
| "alts (r # rs) = Alt r (alts rs)"

subsection \<open>Numbers in strings\<close>

definition digit_value :: "char \<Rightarrow> nat" where \<comment> \<open>for digits and letters; 36 is no digit\<close>
  "digit_value c =
     (let n = of_char c :: nat
      in if 48 \<le> n \<and> n \<le> 57 then n - 48 else if 65 \<le> n \<and> n \<le> 90 then n - 55 else if 97 \<le> n \<and> n \<le> 122 then n - 87 else 36)"

fun digits_value :: "nat \<Rightarrow> nat \<Rightarrow> string \<Rightarrow> nat" where
  "digits_value radix n [] = n"
| "digits_value radix n (c # cs) = digits_value radix (radix * n + digit_value c) cs"

text \<open>\<open>parseInt(s, radix)\<close>; \<open>None\<close> for \<open>NaN\<close>, and radix 0 when it is not given.\<close>

definition parseInt :: "string \<Rightarrow> nat \<Rightarrow> int option" where
  "parseInt s radix =
     (let s = dropWhile is_space s;
          neg = (s \<noteq> [] \<and> hd s = CHR ''-'');
          s = (if s \<noteq> [] \<and> (hd s = CHR ''-'' \<or> hd s = CHR ''+'') then tl s else s);
          hex = ((radix = 0 \<or> radix = 16) \<and> (take 2 s = ''0x'' \<or> take 2 s = ''0X''));
          radix = (if hex then 16 else if radix = 0 then 10 else radix);
          ds = takeWhile (\<lambda>c. digit_value c < radix) (if hex then drop 2 s else s)
      in if ds = [] then None else Some ((if neg then - 1 else 1) * int (digits_value radix 0 ds)))"

text \<open>\<open>parseFloat(s)\<close>: sign, digits, fraction, exponent. The literal \<open>Infinity\<close> is left out.\<close>

definition parseFloat :: "string \<Rightarrow> num" where
  "parseFloat s =
     (let s = dropWhile is_space s;
          neg = (s \<noteq> [] \<and> hd s = CHR ''-'');
          s = (if s \<noteq> [] \<and> (hd s = CHR ''-'' \<or> hd s = CHR ''+'') then tl s else s);
          ws = takeWhile is_digit s; s = dropWhile is_digit s;
          fs = (if s \<noteq> [] \<and> hd s = CHR ''.'' then takeWhile is_digit (tl s) else []);
          s = (if s \<noteq> [] \<and> hd s = CHR ''.'' then dropWhile is_digit (tl s) else s);
          e = (if s \<noteq> [] \<and> (hd s = CHR ''e'' \<or> hd s = CHR ''E'') then tl s else []);
          eneg = (e \<noteq> [] \<and> hd e = CHR ''-'');
          e = takeWhile is_digit (if e \<noteq> [] \<and> (hd e = CHR ''-'' \<or> hd e = CHR ''+'') then tl e else e);
          k = digits_value 10 0 e;
          x = of_nat (digits_value 10 0 (ws @ fs)) / 10 ^ length fs * (if eneg then 1 / 10 ^ k else 10 ^ k)
      in if ws = [] \<and> fs = [] then None else Some ((if neg then - 1 else 1) * x))"

subsection \<open>First results\<close>

lemma first_Eps [simp]: "first_result Eps c s = Some (c, s)"
  by (simp add: first_result_def)

lemma first_Seq:
  "first_result r c s = Some (c', s') \<Longrightarrow> first_result q c' s' = Some x \<Longrightarrow> first_result (Seq r q) c s = Some x"
  by (auto simp: first_result_def split: list.splits)

lemma first_Seq_None: "first_result r c s = None \<Longrightarrow> first_result (Seq r q) c s = None"
  by (auto simp: first_result_def split: list.splits)

lemma first_Alt: "first_result (Alt r q) c s = (case first_result r c s of Some x \<Rightarrow> Some x | None \<Rightarrow> first_result q c s)"
  by (auto simp: first_result_def split: list.split)

lemma first_Group:
  "first_result r c s = Some (c', s') \<Longrightarrow>
   first_result (Group n r) c s = Some (c'(n := Some (take (length s - length s') s)), s')"
  by (auto simp: first_result_def split: list.splits)

lemma first_One [simp]: "first_result (One p) c (x # xs) = (if p x then Some (c, xs) else None)" "first_result (One p) c [] = None"
  by (simp_all add: first_result_def)

lemma first_star_results:
  assumes "\<forall>x \<in> set xs. p x" and "ys = [] \<or> \<not> p (hd ys)" and "length xs \<le> n"
  shows "\<exists>more. star_results (results (One p)) False n c (xs @ ys) = (c, ys) # more"
  using assms
proof (induction xs arbitrary: n)
  case Nil
  then have "results (One p) c ys = []" by (auto split: list.split)
  then show ?case by (cases n) simp_all
next
  case (Cons x xs)
  then obtain m where n: "n = Suc m" by (cases n) auto
  have "\<exists>more. star_results (results (One p)) False m c (xs @ ys) = (c, ys) # more"
    using Cons.prems n by (intro Cons.IH) auto
  moreover have "results (One p) c (x # xs @ ys) = [(c, xs @ ys)]" using Cons.prems(1) by simp
  ultimately show ?case
    unfolding n append_Cons star_results.simps Let_def by (auto simp del: results.simps)
qed

text \<open>A repetition of one character takes all it can.\<close>

lemma first_Star:
  "\<forall>x \<in> set xs. p x \<Longrightarrow> ys = [] \<or> \<not> p (hd ys) \<Longrightarrow> first_result (Star (One p)) c (xs @ ys) = Some (c, ys)"
  using first_star_results [of xs p ys "length (xs @ ys)" c] by (auto simp: first_result_def)

lemma first_plus:
  "\<forall>x \<in> set xs. p x \<Longrightarrow> xs \<noteq> [] \<Longrightarrow> ys = [] \<or> \<not> p (hd ys) \<Longrightarrow> first_result (plus (One p)) c (xs @ ys) = Some (c, ys)"
proof -
  assume p: "\<forall>x \<in> set xs. p x" "xs \<noteq> []" "ys = [] \<or> \<not> p (hd ys)"
  then obtain x zs where xs: "xs = x # zs" by (cases xs) auto
  have "first_result (Star (One p)) c (zs @ ys) = Some (c, ys)" using p by (intro first_Star) (auto simp: xs)
  then show ?thesis unfolding plus_def by (intro first_Seq [where c' = c and s' = "zs @ ys"]) (use p in \<open>simp_all add: xs\<close>)
qed

lemma first_lit: "first_result (lit xs) c (xs @ ys) = Some (c, ys)"
  by (induction xs) (auto intro!: first_Seq simp: chr_def)

lemma first_lit_None: "take (length xs) s \<noteq> xs \<Longrightarrow> first_result (lit xs) c s = None"
proof (induction xs arbitrary: s)
  case (Cons x xs)
  show ?case
  proof (cases s)
    case (Cons y ys)
    then show ?thesis using Cons.IH [of ys] Cons.prems
      by (cases "y = x") (auto simp: chr_def first_result_def split: list.splits)
  qed (simp add: first_Seq_None chr_def)
qed simp

lemma exec_here:
  "first_result r no_captures s = Some (c, rest) \<Longrightarrow> exec r s = Some (c(0 := Some (take (length s - length rest) s)), rest)"
  by (simp add: exec.simps)

lemma exec_later: "first_result r no_captures (x # s) = None \<Longrightarrow> exec r (x # s) = exec r s"
  by (simp add: exec.simps [of r "x # s"])

end
