(* ===== verification/Attr_List.thy ===== *)
theory Attr_List
  imports Js_Regex
begin

text \<open>
  Attribute lists, \<open>src/utils/attr-list.js\<close>, and codec strings, \<open>src/utils/codecs.js\<close>. An attribute list is the map
  from names to values; the names of its methods do not occur as attributes.
\<close>

subsection \<open>Attribute lists\<close>

type_synonym attrs = "string \<Rightarrow> string option"

definition quote :: char where
  "quote = CHR 0x22"

definition ATTR_LIST_REGEX :: regex where
  "ATTR_LIST_REGEX = seqs [Star space, Group 1 (lazy_plus dot), Star space, chr (CHR ''=''),
     Group 2 (Alt (seqs [chr quote, LazyStar dot, chr quote]) (LazyStar dot)), Alt (chr (CHR '','')) AtEnd]"

definition DECIMAL_RESOLUTION_REGEX :: regex where \<comment> \<open>without its \<open>^\<close>\<close>
  "DECIMAL_RESOLUTION_REGEX = seqs [Group 1 (plus digit), chr (CHR ''x''), Group 2 (plus digit), AtEnd]"

definition group_text :: "captures \<Rightarrow> nat \<Rightarrow> string" where
  "group_text m n = (case m n of None \<Rightarrow> [] | Some s \<Rightarrow> s)"

definition unquote :: "string \<Rightarrow> string" where
  "unquote v = (if v \<noteq> [] \<and> hd v = quote \<and> last v = quote then butlast (tl v) else v)"

definition parseAttrList :: "string \<Rightarrow> attrs" where
  "parseAttrList input =
     foldl (\<lambda>attrs m. attrs(group_text m 1 \<mapsto> unquote (group_text m 2))) (\<lambda>_. None) (exec_all ATTR_LIST_REGEX input)"

text \<open>\<open>parseInt\<close> of an attribute, with \<open>Infinity\<close> past the safe integers.\<close>

datatype js_int = Fin int | Infinity | NaN

definition safe_int :: "int option \<Rightarrow> js_int" where
  "safe_int n = (case n of None \<Rightarrow> NaN | Some i \<Rightarrow> if i > 9007199254740991 then Infinity else Fin i)"

text \<open>An attribute that is not there reads as the string \<open>undefined\<close>.\<close>

definition attr_string :: "attrs \<Rightarrow> string \<Rightarrow> string" where
  "attr_string a attrName = (case a attrName of None \<Rightarrow> ''undefined'' | Some s \<Rightarrow> s)"

definition decimalInteger :: "attrs \<Rightarrow> string \<Rightarrow> js_int" where
  "decimalInteger a attrName = safe_int (parseInt (attr_string a attrName) 10)"

definition hexadecimalIntegerAsNumber :: "attrs \<Rightarrow> string \<Rightarrow> js_int" where
  "hexadecimalIntegerAsNumber a attrName = safe_int (parseInt (attr_string a attrName) 16)"

fun hex_bytes :: "string \<Rightarrow> bytes" where
  "hex_bytes (x # y # s) = u8of (case parseInt [x, y] 16 of None \<Rightarrow> 0 | Some n \<Rightarrow> n) # hex_bytes s"
| "hex_bytes s = []"

definition hexadecimalInteger :: "attrs \<Rightarrow> string \<Rightarrow> bytes option" where
  "hexadecimalInteger a attrName =
     (case a attrName of
        None \<Rightarrow> None
      | Some v \<Rightarrow>
          if v = [] then None
          else
            let s = drop 2 v; s = (if odd (length s) then CHR ''0'' # s else s)
            in Some (hex_bytes s))"

definition decimalFloatingPoint :: "attrs \<Rightarrow> string \<Rightarrow> num" where
  "decimalFloatingPoint a attrName = parseFloat (attr_string a attrName)"

definition enumeratedString :: "attrs \<Rightarrow> string \<Rightarrow> string option" where
  "enumeratedString a attrName = a attrName"

definition decimalResolution :: "attrs \<Rightarrow> string \<Rightarrow> (int \<times> int) option" where
  "decimalResolution a attrName =
     (case first_result DECIMAL_RESOLUTION_REGEX no_captures (attr_string a attrName) of
        None \<Rightarrow> None
      | Some (m, _) \<Rightarrow>
          (case (parseInt (group_text m 1) 10, parseInt (group_text m 2) 10) of
             (Some w, Some h) \<Rightarrow> Some (w, h)
           | _ \<Rightarrow> None))"

subsection \<open>Codecs\<close>

definition sampleEntryCodesISO :: "string \<Rightarrow> string list" where
  "sampleEntryCodesISO ty =
     (if ty = ''audio'' then
        [''a3ds'', ''ac-3'', ''ac-4'', ''alac'', ''alaw'', ''dra1'', ''dts+'', ''dts-'', ''dtsc'', ''dtse'', ''dtsh'', ''ec-3'', ''enca'',
         ''g719'', ''g726'', ''m4ae'', ''mha1'', ''mha2'', ''mhm1'', ''mhm2'', ''mlpa'', ''mp4a'', ''raw '', ''Opus'', ''samr'', ''sawb'',
         ''sawp'', ''sevc'', ''sqcp'', ''ssmv'', ''twos'', ''ulaw'']
      else if ty = ''video'' then
        [''avc1'', ''avc2'', ''avc3'', ''avc4'', ''avcp'', ''drac'', ''dvav'', ''dvhe'', ''encv'', ''hev1'', ''hvc1'', ''mjp2'', ''mp4v'',
         ''mvc1'', ''mvc2'', ''mvc3'', ''mvc4'', ''resv'', ''rv60'', ''s263'', ''svc1'', ''svc2'', ''vc-1'', ''vp08'', ''vp09'']
      else [])"

definition isCodecType :: "string \<Rightarrow> string \<Rightarrow> bool" where
  "isCodecType codec ty \<longleftrightarrow> take 4 codec \<in> set (sampleEntryCodesISO ty)"

text \<open>\<open>s.split(/[ ,]+/)\<close> and \<open>s.split('.')\<close>\<close>

function split_runs :: "(char \<Rightarrow> bool) \<Rightarrow> string \<Rightarrow> string list" where
  "split_runs p s =
     (let rest = dropWhile (\<lambda>c. \<not> p c) s
      in takeWhile (\<lambda>c. \<not> p c) s # (if rest = [] then [] else split_runs p (dropWhile p rest)))"
  by pat_completeness auto
termination
proof (relation "measure (length \<circ> snd)", simp, clarify)
  fix p and s :: string
  assume ne: "dropWhile (\<lambda>c. \<not> p c) s \<noteq> []"
  then have "p (hd (dropWhile (\<lambda>c. \<not> p c) s))" using hd_dropWhile [of "\<lambda>c. \<not> p c" s] by simp
  then have "length (dropWhile p (dropWhile (\<lambda>c. \<not> p c) s)) < length (dropWhile (\<lambda>c. \<not> p c) s)"
    using ne by (cases "dropWhile (\<lambda>c. \<not> p c) s") (auto simp: less_Suc_eq_le length_dropWhile_le)
  also have "\<dots> \<le> length s" by (rule length_dropWhile_le)
  finally show "((p, dropWhile p (dropWhile (\<lambda>c. \<not> p c) s)), p, s) \<in> measure (length \<circ> snd)" by simp
qed

declare split_runs.simps [simp del]

fun split_char :: "char \<Rightarrow> string \<Rightarrow> string list" where
  "split_char x [] = [[]]"
| "split_char x (c # cs) =
     (if c = x then [] # split_char x cs
      else (case split_char x cs of [] \<Rightarrow> [[c]] | s # ss \<Rightarrow> (c # s) # ss))"

text \<open>\<open>n.toString(16)\<close>, and \<open>s.substr(-n)\<close>.\<close>

definition hex_digit :: "nat \<Rightarrow> char" where
  "hex_digit n = (if n < 10 then char_of (48 + n) else char_of (87 + n))"

fun hex_nat :: "nat \<Rightarrow> string" where
  "hex_nat n = (if n < 16 then [hex_digit n] else hex_nat (n div 16) @ [hex_digit (n mod 16)])"

declare hex_nat.simps [simp del]

definition hex_string :: "int option \<Rightarrow> string" where
  "hex_string x = (case x of None \<Rightarrow> ''NaN'' | Some i \<Rightarrow> if i < 0 then CHR ''-'' # hex_nat (nat (- i)) else hex_nat (nat i))"

definition last_chars :: "nat \<Rightarrow> string \<Rightarrow> string" where
  "last_chars n s = drop (length s - n) s"

definition avc1toavcoti :: "string \<Rightarrow> string" where
  "avc1toavcoti codec =
     (let avcdata = split_char (CHR ''.'') codec in
      if length avcdata > 2 then
        avcdata ! 0 @ ''.'' @ hex_string (parseInt (avcdata ! 1) 0) @ last_chars 4 (''000'' @ hex_string (parseInt (avcdata ! 2) 0))
      else codec)"

end
