(* ===== verification/Playlist_Helpers.thy ===== *)
theory Playlist_Helpers
  imports Js_Values
begin

text \<open>
  Playlists in time: the fragments of a level and its details (\<open>src/loader/playlist-loader.js\<close> builds them), the drift
  and sliding computations of \<open>src/helper/level-helper.js\<close>, the search of \<open>src/utils/binary-search.js\<close>, the
  alignment of \<open>src/utils/discontinuities.js\<close>, and buffered ranges, \<open>src/helper/buffer-helper.js\<close>. A fragment
  object that the array refers to is its entry in the list. Messages to the log are left out.
\<close>

subsection \<open>Fragments and levels\<close>

datatype frag_sn = SN int | InitSegment

record level_key =
  lk_method :: "string option"
  lk_iv :: "bytes option"
  lk_baseuri :: string
  lk_reluri :: "string option"

record frag =
  fr_type :: string
  fr_sn :: frag_sn
  fr_level :: int
  fr_cc :: int
  fr_start :: num
  fr_duration :: num
  fr_startPTS :: num
  fr_endPTS :: num
  fr_startDTS :: num
  fr_endDTS :: num
  fr_deltaPTS :: num
  fr_backtracked :: "bool option"
  fr_dropped :: num
  fr_title :: "string option"
  fr_baseurl :: string
  fr_relurl :: "string option"
  fr_rawByteRange :: "string option"
  fr_lastByteRangeEndOffset :: num
  fr_rawProgramDateTime :: "string option"
  fr_levelkey :: "level_key option"
  fr_tagList :: "string list list"
  fr_autoLevel :: bool
  fr_bitrateTest :: bool
  fr_loadCounter :: "int option"
  fr_loadIdx :: "int option"
  fr_loader :: bool
  fr_key :: "bytes option"
  fr_data :: "bytes option"
  fr_id :: nat

text \<open>\<open>ld_programDateTime\<close> is \<open>None\<close> for \<open>undefined\<close>, \<open>Some None\<close> for an invalid date, else milliseconds.\<close>

record level_details =
  ld_type :: "string option"
  ld_version :: "int option"
  ld_url :: string
  ld_fragments :: "frag list"
  ld_live :: bool
  ld_startSN :: int
  ld_endSN :: int
  ld_startCC :: int
  ld_endCC :: int
  ld_totalduration :: num
  ld_averagetargetduration :: num
  ld_targetduration :: num
  ld_startTimeOffset :: num
  ld_programDateTime :: "num option"
  ld_initSegment :: "frag option"
  ld_PTSKnown :: "bool option"

text \<open>\<open>xs[i]\<close>, \<open>None\<close> for \<open>undefined\<close>.\<close>

definition elem :: "'a list \<Rightarrow> int \<Rightarrow> 'a option" where
  "elem xs i = (if 0 \<le> i \<and> nat i < length xs then Some (xs ! nat i) else None)"

subsection \<open>Level helper\<close>

definition updatePTS :: "frag list \<Rightarrow> nat \<Rightarrow> nat \<Rightarrow> frag list" where
  "updatePTS fragments fromIdx toIdx =
     (let fragFrom = fragments ! fromIdx; fragTo = fragments ! toIdx in
      case fr_startPTS fragTo of
        Some p \<Rightarrow>
          if toIdx > fromIdx then fragments[fromIdx := fragFrom\<lparr>fr_duration := num_sub (Some p) (fr_start fragFrom)\<rparr>]
          else fragments[toIdx := fragTo\<lparr>fr_duration := num_sub (fr_start fragFrom) (Some p)\<rparr>]
      | None \<Rightarrow>
          if toIdx > fromIdx then fragments[toIdx := fragTo\<lparr>fr_start := num_add (fr_start fragFrom) (fr_duration fragFrom)\<rparr>]
          else fragments[toIdx := fragTo\<lparr>fr_start := num_max (num_sub (fr_start fragFrom) (fr_duration fragTo)) (Some 0)\<rparr>])"

text \<open>The two loops, down from a fragment and up from it.\<close>

fun update_down :: "nat \<Rightarrow> frag list \<Rightarrow> frag list" where
  "update_down 0 fs = fs"
| "update_down (Suc i) fs = update_down i (updatePTS fs (Suc i) i)"

fun update_up :: "nat \<Rightarrow> nat \<Rightarrow> frag list \<Rightarrow> frag list" where
  "update_up i 0 fs = fs"
| "update_up i (Suc n) fs = update_up (Suc i) n (updatePTS fs i (Suc i))"

text \<open>The new times of the fragment; \<open>min\<close> and \<open>max\<close> with the known ones.\<close>

definition set_times :: "frag \<Rightarrow> num \<Rightarrow> num \<Rightarrow> num \<Rightarrow> num \<Rightarrow> frag" where
  "set_times frag startPTS endPTS startDTS endDTS =
     (let known = (fr_startPTS frag \<noteq> None);
          deltaPTS = num_abs (num_sub (fr_startPTS frag) startPTS);
          frag1 = (if known then
                     frag\<lparr>fr_deltaPTS := (if fr_deltaPTS frag = None then deltaPTS else num_max deltaPTS (fr_deltaPTS frag))\<rparr>
                   else frag);
          startPTS = (if known then num_min startPTS (fr_startPTS frag) else startPTS);
          endPTS = (if known then num_max endPTS (fr_endPTS frag) else endPTS);
          startDTS = (if known then num_min startDTS (fr_startDTS frag) else startDTS);
          endDTS = (if known then num_max endDTS (fr_endDTS frag) else endDTS)
      in frag1\<lparr>fr_start := startPTS, fr_startPTS := startPTS, fr_endPTS := endPTS, fr_startDTS := startDTS, fr_endDTS := endDTS,
               fr_duration := num_sub endPTS startPTS\<rparr>)"

text \<open>
  The drift, the fragment and the details. The fragment is written into the array; a number past its end would
  leave a hole there, and the loop down fails on it.
\<close>

definition updateFragPTSDTS ::
  "level_details option \<Rightarrow> frag \<Rightarrow> num \<Rightarrow> num \<Rightarrow> num \<Rightarrow> num \<Rightarrow> (num \<times> frag \<times> level_details option) result" where
  "updateFragPTSDTS details frag startPTS endPTS startDTS endDTS =
     (let new = set_times frag startPTS endPTS startDTS endDTS;
          drift = num_sub (fr_start new) (fr_start frag)
      in case (details, fr_sn frag) of
           (None, _) \<Rightarrow> Inr (Some 0, new, None)
         | (Some d, InitSegment) \<Rightarrow> Inr (drift, new, Some (d\<lparr>ld_PTSKnown := Some True\<rparr>))
         | (Some d, SN sn) \<Rightarrow>
             if sn < ld_startSN d \<or> sn > ld_endSN d then Inr (Some 0, new, Some d)
             else
               let i = nat (sn - ld_startSN d); fs = ld_fragments d in
               if i > length fs then Inl TypeError
               else
                 let fs = (if i = length fs then fs @ [new] else fs[i := new]);
                     fs = update_down i fs;
                     fs = update_up i (length fs - 1 - i) fs
                 in Inr (drift, fs ! i, Some (d\<lparr>ld_fragments := fs, ld_PTSKnown := Some True\<rparr>)))"

text \<open>
  The loop over the media sequence numbers that both playlists have: the new fragments, the offset of
  the last pair, and the index of the last fragment with known times.
\<close>

definition copy_times :: "frag \<Rightarrow> frag \<Rightarrow> frag" where
  "copy_times oldFrag newFrag =
     newFrag\<lparr>fr_start := fr_startPTS oldFrag, fr_startPTS := fr_startPTS oldFrag, fr_endPTS := fr_endPTS oldFrag,
             fr_duration := fr_duration oldFrag, fr_backtracked := fr_backtracked oldFrag, fr_dropped := fr_dropped oldFrag\<rparr>"

definition merge_step :: "frag list \<Rightarrow> int \<Rightarrow> int \<Rightarrow> frag list \<times> int \<times> int option \<Rightarrow> frag list \<times> int \<times> int option" where
  "merge_step oldfragments delta i = (\<lambda>(fs, ccOffset, PTSFrag).
     case (elem oldfragments (delta + i), elem fs i) of
       (Some oldFrag, Some newFrag) \<Rightarrow>
         let ccOffset = fr_cc oldFrag - fr_cc newFrag in
         if fr_startPTS oldFrag \<noteq> None then (fs[nat i := copy_times oldFrag newFrag], ccOffset, Some i)
         else (fs, ccOffset, PTSFrag)
     | _ \<Rightarrow> (fs, ccOffset, PTSFrag))"

definition mergeDetails :: "level_details \<Rightarrow> level_details \<Rightarrow> level_details result" where
  "mergeDetails oldDetails newDetails =
     (let start = max (ld_startSN oldDetails) (ld_startSN newDetails) - ld_startSN newDetails;
          stop = min (ld_endSN oldDetails) (ld_endSN newDetails) - ld_startSN newDetails;
          delta = ld_startSN newDetails - ld_startSN oldDetails;
          old = ld_fragments oldDetails
      in if stop < start then Inr (newDetails\<lparr>ld_PTSKnown := Some False\<rparr>)
         else
           let (fs, ccOffset, PTSFrag) = fold (merge_step old delta) [start..stop] (ld_fragments newDetails, 0, None);
               fs = (if ccOffset \<noteq> 0 then map (\<lambda>f. f\<lparr>fr_cc := fr_cc f + ccOffset\<rparr>) fs else fs);
               d = newDetails\<lparr>ld_fragments := fs\<rparr>
           in case PTSFrag of
                Some i \<Rightarrow>
                  let f = fs ! nat i in
                  (case updateFragPTSDTS (Some d) f (fr_startPTS f) (fr_endPTS f) (fr_startDTS f) (fr_endDTS f) of
                     Inr (_, _, Some d) \<Rightarrow> Inr (d\<lparr>ld_PTSKnown := ld_PTSKnown oldDetails\<rparr>)
                   | Inr (_, _, None) \<Rightarrow> Inr d
                   | Inl e \<Rightarrow> Inl e)
              | None \<Rightarrow>
                  let fs = (case elem old delta of
                              Some f \<Rightarrow> map (\<lambda>g. g\<lparr>fr_start := num_add (fr_start g) (fr_start f)\<rparr>) fs
                            | None \<Rightarrow> fs)
                  in Inr (d\<lparr>ld_fragments := fs, ld_PTSKnown := ld_PTSKnown oldDetails\<rparr>))"

subsection \<open>Binary search\<close>

text \<open>The bounds of the loop are the numbers \<open>minIndex\<close> and \<open>maxIndex\<close>, and the middle is \<open>(min + max) / 2 | 0\<close>.\<close>

function search_loop :: "'a list \<Rightarrow> ('a \<Rightarrow> int) \<Rightarrow> int \<Rightarrow> int \<Rightarrow> 'a option" where
  "search_loop xs f minIndex maxIndex =
     (if minIndex \<le> maxIndex then
        let currentIndex = (minIndex + maxIndex) div 2; currentElement = xs ! nat currentIndex;
            comparisonResult = f currentElement
        in if comparisonResult > 0 then search_loop xs f (currentIndex + 1) maxIndex
           else if comparisonResult < 0 then search_loop xs f minIndex (currentIndex - 1)
           else Some currentElement
      else None)"
  by pat_completeness auto
termination by (relation "measure (\<lambda>(_, _, a, b). nat (b + 1 - a))") auto

declare search_loop.simps [simp del]

definition search :: "'a list \<Rightarrow> ('a \<Rightarrow> int) \<Rightarrow> 'a option" where
  "search xs comparisonFunction = search_loop xs comparisonFunction 0 (int (length xs) - 1)"

subsection \<open>Discontinuities\<close>

definition findFirstFragWithCC :: "frag list \<Rightarrow> int \<Rightarrow> frag option" where
  "findFirstFragWithCC fragments cc = find (\<lambda>f. fr_cc f = cc) fragments"

definition findFragWithCC :: "frag list \<Rightarrow> int \<Rightarrow> frag option" where
  "findFragWithCC fragments CC =
     search fragments (\<lambda>candidate. if fr_cc candidate < CC then 1 else if fr_cc candidate > CC then - 1 else 0)"

text \<open>A level that was played before; its details may be missing.\<close>

definition shouldAlignOnDiscontinuities :: "frag option \<Rightarrow> level_details option option \<Rightarrow> level_details option \<Rightarrow> bool" where
  "shouldAlignOnDiscontinuities lastFrag lastLevel details =
     (case (lastLevel, details) of
        (Some (Some _), Some d) \<Rightarrow>
          ld_endCC d > ld_startCC d \<or> (case lastFrag of None \<Rightarrow> False | Some f \<Rightarrow> fr_cc f < ld_startCC d)
      | _ \<Rightarrow> False)"

definition findDiscontinuousReferenceFrag :: "level_details \<Rightarrow> level_details \<Rightarrow> frag option" where
  "findDiscontinuousReferenceFrag prevDetails curDetails =
     (if ld_fragments curDetails = [] \<or> ld_fragments prevDetails = [] then None
      else
        case findFirstFragWithCC (ld_fragments prevDetails) (fr_cc (hd (ld_fragments curDetails))) of
          None \<Rightarrow> None
        | Some f \<Rightarrow> if truthy (fr_startPTS f) then Some f else None)"

definition adjustPts :: "num \<Rightarrow> level_details \<Rightarrow> level_details" where
  "adjustPts sliding details =
     details\<lparr>ld_fragments := map (\<lambda>f. let start = num_add (fr_start f) sliding
         in f\<lparr>fr_start := start, fr_startPTS := start, fr_endPTS := num_add start (fr_duration f)\<rparr>) (ld_fragments details),
       ld_PTSKnown := Some True\<rparr>"

definition date_num :: "num option \<Rightarrow> num" where
  "date_num x = (case x of None \<Rightarrow> None | Some t \<Rightarrow> t)"

definition alignDiscontinuities :: "frag option \<Rightarrow> level_details option option \<Rightarrow> level_details \<Rightarrow> level_details result" where
  "alignDiscontinuities lastFrag lastLevel details =
     (let details =
            (if shouldAlignOnDiscontinuities lastFrag lastLevel (Some details) then
               case lastLevel of
                 Some (Some prev) \<Rightarrow>
                   (case findDiscontinuousReferenceFrag prev details of
                      Some f \<Rightarrow> adjustPts (fr_start f) details
                    | None \<Rightarrow> details)
               | _ \<Rightarrow> details
             else details)
      in case lastLevel of
           Some (Some prev) \<Rightarrow>
             if ld_PTSKnown details = Some False then
               (case ld_fragments prev of
                  [] \<Rightarrow> Inl TypeError
                | f # _ \<Rightarrow>
                    let sliding = num_add (num_div (num_sub (date_num (ld_programDateTime details)) (date_num (ld_programDateTime prev)))
                                             (Some 1000)) (fr_start f)
                    in Inr (if sliding \<noteq> None then adjustPts sliding details else details))
             else Inr details
         | _ \<Rightarrow> Inr details)"

subsection \<open>Buffered ranges\<close>

record time_range =
  rg_start :: rat
  rg_end :: rat

record buffer_info =
  bi_len :: rat
  bi_start :: rat
  bi_end :: rat
  bi_nextStart :: "rat option"

definition isBuffered :: "time_range list option \<Rightarrow> rat \<Rightarrow> bool" where
  "isBuffered media position =
     (case media of None \<Rightarrow> False | Some buffered \<Rightarrow> list_ex (\<lambda>r. rg_start r \<le> position \<and> position \<le> rg_end r) buffered)"

definition range_le :: "time_range \<Rightarrow> time_range \<Rightarrow> bool" where
  "range_le a b \<longleftrightarrow> (let diff = rg_start a - rg_start b in if diff \<noteq> 0 then diff \<le> 0 else rg_end b - rg_end a \<le> 0)"

text \<open>The ranges without the small holes; the last one is at the head of \<open>acc\<close>.\<close>

fun merge_ranges :: "rat \<Rightarrow> time_range list \<Rightarrow> time_range list \<Rightarrow> time_range list" where
  "merge_ranges hole acc [] = rev acc"
| "merge_ranges hole [] (r # rs) = merge_ranges hole [r] rs"
| "merge_ranges hole (l # acc) (r # rs) =
     (if rg_start r - rg_end l < hole then
        merge_ranges hole ((if rg_end r > rg_end l then l\<lparr>rg_end := rg_end r\<rparr> else l) # acc) rs
      else merge_ranges hole (r # l # acc) rs)"

fun find_range :: "rat \<Rightarrow> rat \<Rightarrow> time_range list \<Rightarrow> buffer_info \<Rightarrow> buffer_info" where
  "find_range pos hole [] b = b"
| "find_range pos hole (r # rs) b =
     (if rg_start r \<le> pos + hole \<and> pos < rg_end r then
        find_range pos hole rs (b\<lparr>bi_start := rg_start r, bi_end := rg_end r, bi_len := rg_end r - pos\<rparr>)
      else if pos + hole < rg_start r then b\<lparr>bi_nextStart := Some (rg_start r)\<rparr>
      else find_range pos hole rs b)"

definition bufferedInfo :: "time_range list \<Rightarrow> rat \<Rightarrow> rat \<Rightarrow> buffer_info" where
  "bufferedInfo buffered pos maxHoleDuration =
     find_range pos maxHoleDuration (merge_ranges maxHoleDuration [] (js_sort range_le buffered))
       \<lparr>bi_len = 0, bi_start = pos, bi_end = pos, bi_nextStart = None\<rparr>"

definition bufferInfo :: "time_range list option \<Rightarrow> rat \<Rightarrow> rat \<Rightarrow> buffer_info" where
  "bufferInfo media pos maxHoleDuration =
     (case media of
        Some vbuffered \<Rightarrow> bufferedInfo vbuffered pos maxHoleDuration
      | None \<Rightarrow> \<lparr>bi_len = 0, bi_start = pos, bi_end = pos, bi_nextStart = None\<rparr>)"

end
