(* ===== verification/Playlist_Loader.thy ===== *)
theory Playlist_Loader
  imports Attr_List Playlist_Helpers
begin

text \<open>
  The playlist loader, \<open>src/loader/playlist-loader.js\<close>: the parsers of master and level playlists, encryption data and byte
  ranges of fragments, and the handlers of loads. \<open>resolve\<close> is the package \<open>url-toolkit\<close> (\<open>buildAbsoluteURL\<close>
  with the base and the relative URL) and \<open>dateParse\<close> is \<open>Date.parse\<close>, whose formats depend on the browser.
  The time stamps of the statistics and messages to the log are left out.
\<close>

subsection \<open>Regular expressions\<close>

definition MASTER_PLAYLIST_REGEX :: regex where
  "MASTER_PLAYLIST_REGEX = seqs [lit ''#EXT-X-STREAM-INF:'', Group 1 (Star dot), plus (One (\<lambda>c. \<not> not_newline c)), Group 2 (plus dot)]"

definition MASTER_PLAYLIST_MEDIA_REGEX :: regex where
  "MASTER_PLAYLIST_MEDIA_REGEX = Seq (lit ''#EXT-X-MEDIA:'') (Group 1 (Star dot))"

definition extinf :: regex where
  "extinf = seqs [lit ''#EXTINF:'', Group 1 (Seq (Star digit) (opt (Seq (chr (CHR ''.'')) (plus digit)))),
     opt (seqs [chr (CHR '',''), Group 2 (Star dot), plus space])]"

definition segment_uri :: regex where
  "segment_uri = Seq (NotAhead (chr (CHR ''#''))) (Group 3 (plus (One (\<lambda>c. \<not> is_space c))))"

definition byterange :: regex where
  "byterange = seqs [lit ''#EXT-X-BYTERANGE'', Star (chr (CHR '':'')), Group 4 (plus dot)]"

definition program_date :: regex where
  "program_date = Seq (lit ''#EXT-X-PROGRAM-DATE-TIME:'') (Group 5 (plus dot))"

definition other_tag :: regex where
  "other_tag = Seq (chr (CHR ''#'')) (Star dot)"

definition LEVEL_PLAYLIST_REGEX_FAST :: regex where
  "LEVEL_PLAYLIST_REGEX_FAST = Alt extinf (Alt segment_uri (Alt byterange (Alt program_date other_tag)))"

definition tag_value :: "nat \<Rightarrow> string \<Rightarrow> string \<Rightarrow> regex \<Rightarrow> regex" where \<comment> \<open>\<open>#EXT-X-(name)rest(value)\<close>\<close>
  "tag_value n name rest value = seqs [lit ''#EXT-X-'', Group n (lit name), lit rest, Group (n + 1) value]"

definition spaces :: regex where
  "spaces = Star (chr (CHR '' ''))"

definition LEVEL_PLAYLIST_REGEX_SLOW :: regex where
  "LEVEL_PLAYLIST_REGEX_SLOW = alts [
     Seq (chr (CHR ''#'')) (Group 1 (lit ''EXTM3U'')),
     tag_value 2 ''PLAYLIST-TYPE'' '':'' (plus dot),
     seqs [lit ''#EXT-X-'', Group 4 (lit ''MEDIA-SEQUENCE''), lit '':'', spaces, Group 5 (plus digit)],
     seqs [lit ''#EXT-X-'', Group 6 (lit ''TARGETDURATION''), lit '':'', spaces, Group 7 (plus digit)],
     tag_value 8 ''KEY'' '':'' (plus dot),
     tag_value 10 ''START'' '':'' (plus dot),
     seqs [lit ''#EXT-X-'', Group 12 (lit ''ENDLIST'')],
     tag_value 13 ''DISCONTINUITY-SEQ'' ''UENCE:'' (plus digit),
     seqs [lit ''#EXT-X-'', Group 15 (lit ''DIS''), lit ''CONTINUITY''],
     tag_value 16 ''VERSION'' '':'' (plus digit),
     tag_value 18 ''MAP'' '':'' (plus dot),
     seqs [Group 20 (lit ''#''), Group 21 (Star dot), lit '':'', Group 22 (Star dot)],
     seqs [Group 23 (lit ''#''), Group 24 (Star dot), Star dot, opt (chr (CHR 0x0D)), opt (chr (CHR 0x0A))]]"

subsection \<open>Fragments\<close>

text \<open>A new fragment: nothing of it is defined yet; number, level and continuity counter are placeholders.\<close>

definition new_Fragment :: frag where
  "new_Fragment = \<lparr>fr_type = '''', fr_sn = SN 0, fr_level = 0, fr_cc = 0, fr_start = None, fr_duration = None, fr_startPTS = None,
     fr_endPTS = None, fr_startDTS = None, fr_endDTS = None, fr_deltaPTS = None, fr_backtracked = None, fr_dropped = None,
     fr_title = None, fr_baseurl = '''', fr_relurl = None, fr_rawByteRange = None, fr_lastByteRangeEndOffset = None,
     fr_rawProgramDateTime = None, fr_levelkey = None, fr_tagList = [],
     fr_autoLevel = False, fr_bitrateTest = False, fr_loadCounter = None, fr_loadIdx = None, fr_loader = False, fr_key = None,
     fr_data = None, fr_id = 0\<rparr>"

definition new_LevelKey :: level_key where
  "new_LevelKey = \<lparr>lk_method = None, lk_iv = None, lk_baseuri = '''', lk_reluri = None\<rparr>"

definition filled_string :: "string option \<Rightarrow> bool" where \<comment> \<open>a string that counts as true\<close>
  "filled_string s \<longleftrightarrow> s \<noteq> None \<and> s \<noteq> Some []"

text \<open>The getter \<open>byteRange\<close>: start and end, or nothing.\<close>

definition byteRange :: "frag \<Rightarrow> (num \<times> num) option" where
  "byteRange f =
     (case fr_rawByteRange f of
        None \<Rightarrow> None
      | Some r \<Rightarrow>
          if r = [] then None
          else
            let params = take 2 (split_char (CHR ''@'') r);
                start = (if length params = 1
                         then (if truthy (fr_lastByteRangeEndOffset f) then fr_lastByteRangeEndOffset f else Some 0)
                         else map_option of_int (parseInt (params ! 1) 0))
            in Some (start, num_add (map_option of_int (parseInt (params ! 0) 0)) start))"

definition byteRangeStartOffset :: "frag \<Rightarrow> num" where
  "byteRangeStartOffset f = (case byteRange f of None \<Rightarrow> None | Some (a, _) \<Rightarrow> a)"

definition byteRangeEndOffset :: "frag \<Rightarrow> num" where
  "byteRangeEndOffset f = (case byteRange f of None \<Rightarrow> None | Some (_, b) \<Rightarrow> b)"

definition key_uri :: "(string \<Rightarrow> string \<Rightarrow> string) \<Rightarrow> level_key \<Rightarrow> string option" where
  "key_uri resolve k =
     (case lk_reluri k of None \<Rightarrow> None | Some u \<Rightarrow> if u = [] then None else Some (resolve u (lk_baseuri k)))"

definition frag_url :: "(string \<Rightarrow> string \<Rightarrow> string) \<Rightarrow> frag \<Rightarrow> string option" where
  "frag_url resolve f =
     (case fr_relurl f of None \<Rightarrow> None | Some u \<Rightarrow> if u = [] then None else Some (resolve u (fr_baseurl f)))"

definition createInitializationVector :: "frag_sn \<Rightarrow> bytes" where
  "createInitializationVector segmentNumber =
     (let n = (case segmentNumber of SN n \<Rightarrow> n | InitSegment \<Rightarrow> 0)
      in replicate 12 0 @ map (\<lambda>i. u8of (js_and (js_shr n (8 * (15 - i))) 0xff)) [12, 13, 14, 15])"

definition fragmentDecryptdataFromLevelkey :: "(string \<Rightarrow> string \<Rightarrow> string) \<Rightarrow> level_key option \<Rightarrow> frag_sn \<Rightarrow> level_key option" where
  "fragmentDecryptdataFromLevelkey resolve levelkey segmentNumber =
     (case levelkey of
        None \<Rightarrow> None
      | Some k \<Rightarrow>
          if filled_string (lk_method k) \<and> filled_string (key_uri resolve k) \<and> lk_iv k = None then
            Some (new_LevelKey\<lparr>lk_method := lk_method k, lk_baseuri := lk_baseuri k, lk_reluri := lk_reluri k,
                               lk_iv := Some (createInitializationVector segmentNumber)\<rparr>)
          else Some k)"

definition decryptdata :: "(string \<Rightarrow> string \<Rightarrow> string) \<Rightarrow> frag \<Rightarrow> level_key option" where
  "decryptdata resolve f = fragmentDecryptdataFromLevelkey resolve (fr_levelkey f) (fr_sn f)"

subsection \<open>Level playlists\<close>

record level_parse =
  lp_level :: level_details
  lp_currentSN :: int
  lp_totalduration :: rat
  lp_levelkey :: level_key
  lp_cc :: int
  lp_prevFrag :: "frag option"
  lp_frag :: frag

definition initial_level :: "string \<Rightarrow> level_details" where
  "initial_level baseurl = \<lparr>ld_type = None, ld_version = None, ld_url = baseurl, ld_fragments = [], ld_live = True, ld_startSN = 0,
     ld_endSN = 0, ld_startCC = 0, ld_endCC = 0, ld_totalduration = None, ld_averagetargetduration = None, ld_targetduration = None,
     ld_startTimeOffset = None, ld_programDateTime = None, ld_initSegment = None, ld_PTSKnown = None\<rparr>"

definition push_tag :: "string list \<Rightarrow> frag \<Rightarrow> frag" where
  "push_tag t f = f\<lparr>fr_tagList := fr_tagList f @ [t]\<rparr>"

text \<open>\<open>(' ' + x).slice(1)\<close>, which makes a string of \<open>undefined\<close>.\<close>

definition as_string :: "string option \<Rightarrow> string" where
  "as_string x = (case x of None \<Rightarrow> ''undefined'' | Some s \<Rightarrow> s)"

definition parse_inf :: "captures \<Rightarrow> level_parse \<Rightarrow> level_parse" where
  "parse_inf m p =
     (let duration = group_text m 1; title = as_string (m 2);
          f = (lp_frag p)\<lparr>fr_duration := parseFloat duration, fr_title := (if title \<noteq> [] then Some title else None)\<rparr>
      in p\<lparr>lp_frag := push_tag (if title \<noteq> [] then [''INF'', duration, title] else [''INF'', duration]) f\<rparr>)"

definition parse_uri :: "string \<Rightarrow> int \<Rightarrow> string \<Rightarrow> captures \<Rightarrow> level_parse \<Rightarrow> level_parse" where
  "parse_uri baseurl lid ty m p =
     (case fr_duration (lp_frag p) of
        None \<Rightarrow> p
      | Some d \<Rightarrow>
          let f = (lp_frag p)\<lparr>fr_type := ty, fr_start := Some (lp_totalduration p), fr_levelkey := Some (lp_levelkey p),
                    fr_sn := SN (lp_currentSN p), fr_level := lid, fr_cc := lp_cc p, fr_baseurl := baseurl, fr_relurl := m 3\<rparr>
          in p\<lparr>lp_currentSN := lp_currentSN p + 1,
               lp_level := (lp_level p)\<lparr>ld_fragments := ld_fragments (lp_level p) @ [f]\<rparr>,
               lp_prevFrag := Some f, lp_totalduration := lp_totalduration p + d, lp_frag := new_Fragment\<rparr>)"

definition parse_byterange :: "captures \<Rightarrow> level_parse \<Rightarrow> level_parse" where
  "parse_byterange m p =
     (let f = (lp_frag p)\<lparr>fr_rawByteRange := m 4\<rparr>;
          off = (case lp_prevFrag p of None \<Rightarrow> None | Some q \<Rightarrow> byteRangeEndOffset q)
      in p\<lparr>lp_frag := (if truthy off then f\<lparr>fr_lastByteRangeEndOffset := off\<rparr> else f)\<rparr>)"

text \<open>\<open>new Date(t)\<close>: whole milliseconds in the range of dates.\<close>

definition date_value :: "num \<Rightarrow> num" where
  "date_value t = (case t of None \<Rightarrow> None
     | Some x \<Rightarrow> if \<bar>x\<bar> \<le> 8640000000000000 then Some (of_int (trunc_int x)) else None)"

definition parse_date :: "(string \<Rightarrow> num) \<Rightarrow> captures \<Rightarrow> level_parse \<Rightarrow> level_parse" where
  "parse_date dateParse m p =
     (let raw = group_text m 5; level = lp_level p
      in p\<lparr>lp_frag := push_tag [''PROGRAM-DATE-TIME'', raw] ((lp_frag p)\<lparr>fr_rawProgramDateTime := Some raw\<rparr>),
           lp_level := (if ld_programDateTime level = None
             then level\<lparr>ld_programDateTime :=
                    Some (date_value (num_sub (date_value (dateParse raw)) (Some (1000 * lp_totalduration p))))\<rparr>
             else level)\<rparr>)"

definition upper_char :: "char \<Rightarrow> char" where
  "upper_char c = (let n = of_char c :: nat in if 97 \<le> n \<and> n \<le> 122 then char_of (n - 32) else c)"

text \<open>\<open>parseInt\<close> of a group that is a row of digits.\<close>

definition digits_int :: "string \<Rightarrow> int" where
  "digits_int s = (case parseInt s 0 of None \<Rightarrow> 0 | Some n \<Rightarrow> n)"

definition parse_key :: "string \<Rightarrow> string \<Rightarrow> level_parse \<Rightarrow> level_parse" where
  "parse_key baseurl decryptparams p =
     (let keyAttrs = parseAttrList decryptparams; decryptmethod = enumeratedString keyAttrs ''METHOD'';
          decrypturi = keyAttrs ''URI''; decryptiv = hexadecimalInteger keyAttrs ''IV''
      in if filled_string decryptmethod then
           p\<lparr>lp_levelkey :=
               (if filled_string decrypturi \<and> decryptmethod \<in> {Some ''AES-128'', Some ''SAMPLE-AES''}
                then new_LevelKey\<lparr>lk_method := decryptmethod, lk_baseuri := baseurl, lk_reluri := decrypturi, lk_iv := decryptiv\<rparr>
                else new_LevelKey)\<rparr>
         else p)"

definition parse_map :: "string \<Rightarrow> int \<Rightarrow> string \<Rightarrow> string \<Rightarrow> level_parse \<Rightarrow> level_parse" where
  "parse_map baseurl lid ty value1 p =
     (let mapAttrs = parseAttrList value1
      in p\<lparr>lp_level := (lp_level p)\<lparr>ld_initSegment :=
               Some ((lp_frag p)\<lparr>fr_relurl := mapAttrs ''URI'', fr_rawByteRange := mapAttrs ''BYTERANGE'', fr_baseurl := baseurl,
                 fr_level := lid, fr_type := ty, fr_sn := InitSegment\<rparr>)\<rparr>,
           lp_frag := new_Fragment\<rparr>)"

text \<open>The match of a tag with the slow expression, and its first group that is defined.\<close>

definition slow_match :: "captures \<Rightarrow> captures" where
  "slow_match m = (case exec LEVEL_PLAYLIST_REGEX_SLOW (group_text m 0) of None \<Rightarrow> no_captures | Some (r, _) \<Rightarrow> r)"

definition slow_index :: "captures \<Rightarrow> nat" where
  "slow_index m = (case find (\<lambda>i. slow_match m i \<noteq> None) [1..<25] of None \<Rightarrow> 25 | Some i \<Rightarrow> i)"

definition slow_tag :: "captures \<Rightarrow> string" where
  "slow_tag m = group_text (slow_match m) (slow_index m)"

text \<open>
  All tags that the fast expression does not take apart. The slow expression matches every string that starts
  with \<open>#\<close>, so \<open>match\<close> does not return \<open>null\<close>.
\<close>

definition parse_tag :: "string \<Rightarrow> int \<Rightarrow> string \<Rightarrow> captures \<Rightarrow> level_parse \<Rightarrow> level_parse" where
  "parse_tag baseurl lid ty m p =
     (let tag = slow_tag m; value1 = as_string (slow_match m (slow_index m + 1)); value2 = as_string (slow_match m (slow_index m + 2));
          level = lp_level p
      in if tag = ''#'' then p\<lparr>lp_frag := push_tag (if value2 \<noteq> [] then [value1, value2] else [value1]) (lp_frag p)\<rparr>
         else if tag = ''PLAYLIST-TYPE'' then p\<lparr>lp_level := level\<lparr>ld_type := Some (map upper_char value1)\<rparr>\<rparr>
         else if tag = ''MEDIA-SEQUENCE'' then
           p\<lparr>lp_currentSN := digits_int value1, lp_level := level\<lparr>ld_startSN := digits_int value1\<rparr>\<rparr>
         else if tag = ''TARGETDURATION'' then p\<lparr>lp_level := level\<lparr>ld_targetduration := parseFloat value1\<rparr>\<rparr>
         else if tag = ''VERSION'' then p\<lparr>lp_level := level\<lparr>ld_version := parseInt value1 0\<rparr>\<rparr>
         else if tag = ''EXTM3U'' then p
         else if tag = ''ENDLIST'' then p\<lparr>lp_level := level\<lparr>ld_live := False\<rparr>\<rparr>
         else if tag = ''DIS'' then p\<lparr>lp_cc := lp_cc p + 1, lp_frag := push_tag [''DIS''] (lp_frag p)\<rparr>
         else if tag = ''DISCONTINUITY-SEQ'' then p\<lparr>lp_cc := digits_int value1\<rparr>
         else if tag = ''KEY'' then parse_key baseurl value1 p
         else if tag = ''START'' then
           (case decimalFloatingPoint (parseAttrList value1) ''TIME-OFFSET'' of
              None \<Rightarrow> p
            | Some t \<Rightarrow> p\<lparr>lp_level := level\<lparr>ld_startTimeOffset := Some t\<rparr>\<rparr>)
         else if tag = ''MAP'' then parse_map baseurl lid ty value1 p
         else p)"

definition parse_token :: "(string \<Rightarrow> num) \<Rightarrow> string \<Rightarrow> int \<Rightarrow> string \<Rightarrow> captures \<Rightarrow> level_parse \<Rightarrow> level_parse" where
  "parse_token dateParse baseurl lid ty m p =
     (if filled_string (m 1) then parse_inf m p
      else if filled_string (m 3) then parse_uri baseurl lid ty m p
      else if filled_string (m 4) then parse_byterange m p
      else if filled_string (m 5) then parse_date dateParse m p
      else parse_tag baseurl lid ty m p)"

definition finish_level :: "level_parse \<Rightarrow> level_details" where
  "finish_level p =
     (let level = lp_level p;
          (frags, total) =
            (case lp_prevFrag p of
               None \<Rightarrow> (ld_fragments level, Some (lp_totalduration p))
             | Some f \<Rightarrow>
                 if \<not> filled_string (fr_relurl f)
                 then (butlast (ld_fragments level), num_sub (Some (lp_totalduration p)) (fr_duration f))
                 else (ld_fragments level, Some (lp_totalduration p)))
      in level\<lparr>ld_fragments := frags, ld_totalduration := total,
               ld_averagetargetduration := num_div total (Some (of_nat (length frags))), ld_endSN := lp_currentSN p - 1,
               ld_startCC := (case frags of [] \<Rightarrow> 0 | f # _ \<Rightarrow> fr_cc f), ld_endCC := lp_cc p\<rparr>)"

definition start_parse :: "string \<Rightarrow> level_parse" where
  "start_parse baseurl = \<lparr>lp_level = initial_level baseurl, lp_currentSN = 0, lp_totalduration = 0, lp_levelkey = new_LevelKey,
     lp_cc = 0, lp_prevFrag = None, lp_frag = new_Fragment\<rparr>"

definition parseLevelPlaylist :: "(string \<Rightarrow> num) \<Rightarrow> string \<Rightarrow> string \<Rightarrow> int \<Rightarrow> string \<Rightarrow> level_details" where
  "parseLevelPlaylist dateParse s baseurl lid ty =
     finish_level (fold (parse_token dateParse baseurl lid ty) (exec_all LEVEL_PLAYLIST_REGEX_FAST s) (start_parse baseurl))"

subsection \<open>Master playlists\<close>

record master_level =
  ml_attrs :: attrs
  ml_url :: string
  ml_resolution :: "(int \<times> int) option"
  ml_bitrate :: js_int
  ml_name :: "string option"
  ml_videoCodec :: "string option"
  ml_audioCodec :: "string option"
  ml_unknownCodecs :: "string list"
  ml_details :: "level_details option"

text \<open>\<open>setCodecs\<close> for one type: the codec it sets, and the codecs that are left.\<close>

definition pick_codec :: "string \<Rightarrow> string list \<Rightarrow> string option \<times> string list" where
  "pick_codec ty codecs =
     (let filtered = filter (\<lambda>c. isCodecType c ty) codecs;
          preferred = filter (\<lambda>c. take 4 c = ''avc1'' \<or> take 4 c = ''mp4a'') filtered
      in if filtered \<noteq> [] then (Some (if preferred \<noteq> [] then hd preferred else hd filtered), filter (\<lambda>c. c \<notin> set filtered) codecs)
         else (None, codecs))"

definition setCodecs :: "string list \<Rightarrow> string option \<times> string option \<times> string list" where
  "setCodecs codecs =
     (let (video, codecs) = pick_codec ''video'' codecs; (audio, codecs) = pick_codec ''audio'' codecs
      in (video, audio, codecs))"

text \<open>\<open>a || b\<close> of numbers.\<close>

definition js_int_or :: "js_int \<Rightarrow> js_int \<Rightarrow> js_int" where
  "js_int_or a b = (if a = NaN \<or> a = Fin 0 then b else a)"

definition master_entry :: "(string \<Rightarrow> string \<Rightarrow> string) \<Rightarrow> string \<Rightarrow> captures \<Rightarrow> master_level" where
  "master_entry resolve baseurl m =
     (let attrs = parseAttrList (group_text m 1);
          codecs = (case attrs ''CODECS'' of None \<Rightarrow> '''' | Some s \<Rightarrow> s);
          (video, audio, unknown) = setCodecs (split_runs (\<lambda>c. c = CHR '' '' \<or> c = CHR '','') codecs)
      in \<lparr>ml_attrs = attrs, ml_url = resolve (group_text m 2) baseurl, ml_resolution = decimalResolution attrs ''RESOLUTION'',
          ml_bitrate = js_int_or (decimalInteger attrs ''AVERAGE-BANDWIDTH'') (decimalInteger attrs ''BANDWIDTH''),
          ml_name = attrs ''NAME'',
          ml_videoCodec = map_option (\<lambda>v. if contains ''avc1'' v then avc1toavcoti v else v) video,
          ml_audioCodec = audio, ml_unknownCodecs = unknown, ml_details = None\<rparr>)"

definition parseMasterPlaylist :: "(string \<Rightarrow> string \<Rightarrow> string) \<Rightarrow> string \<Rightarrow> string \<Rightarrow> master_level list" where
  "parseMasterPlaylist resolve s baseurl = map (master_entry resolve baseurl) (exec_all MASTER_PLAYLIST_REGEX s)"

record media_track =
  mt_groupId :: "string option"
  mt_name :: "string option"
  mt_type :: string
  mt_default :: bool
  mt_autoselect :: bool
  mt_forced :: bool
  mt_url :: "string option"
  mt_lang :: "string option"
  mt_audioCodec :: "string option"
  mt_id :: "nat option"

definition media_entry :: "(string \<Rightarrow> string \<Rightarrow> string) \<Rightarrow> string \<Rightarrow> string \<Rightarrow> string option \<Rightarrow> attrs \<Rightarrow> nat \<Rightarrow> media_track" where
  "media_entry resolve baseurl ty audioCodec attrs lid =
     \<lparr>mt_groupId = attrs ''GROUP-ID'',
      mt_name = (if filled_string (attrs ''NAME'') then attrs ''NAME'' else attrs ''LANGUAGE''), mt_type = ty,
      mt_default = (attrs ''DEFAULT'' = Some ''YES''), mt_autoselect = (attrs ''AUTOSELECT'' = Some ''YES''),
      mt_forced = (attrs ''FORCED'' = Some ''YES''),
      mt_url = (if filled_string (attrs ''URI'') then map_option (\<lambda>u. resolve u baseurl) (attrs ''URI'') else None),
      mt_lang = attrs ''LANGUAGE'', mt_audioCodec = (if filled_string audioCodec then audioCodec else None), mt_id = Some lid\<rparr>"

definition parseMasterPlaylistMedia ::
  "(string \<Rightarrow> string \<Rightarrow> string) \<Rightarrow> string \<Rightarrow> string \<Rightarrow> string \<Rightarrow> string option \<Rightarrow> media_track list" where
  "parseMasterPlaylistMedia resolve s baseurl ty audioCodec =
     (let entries = filter (\<lambda>a. a ''TYPE'' = Some ty) (map (\<lambda>m. parseAttrList (group_text m 1)) (exec_all MASTER_PLAYLIST_MEDIA_REGEX s))
      in map (\<lambda>(lid, a). media_entry resolve baseurl ty audioCodec a lid) (enumerate 0 entries))"

subsection \<open>Loads\<close>

text \<open>
  The context of a load and what the loader does with the rest of the player. \<open>loaders\<close> holds, for each type, the context of
  the load under way, which its loader keeps; the loader object itself belongs to the configuration.
\<close>

record load_context =
  lc_type :: string
  lc_url :: string
  lc_level :: "int option"
  lc_id :: "int option"

record load_config =
  lg_maxRetry :: int
  lg_timeout :: rat
  lg_retryDelay :: rat
  lg_maxRetryDelay :: rat

record player_config =
  pc_manifestLoading :: load_config
  pc_levelLoading :: load_config

datatype playlist_action =
    AbortLoader string \<comment> \<open>the loader of a type\<close>
  | StartLoader load_context load_config
  | ManifestLoaded "master_level list" "media_track list" "media_track list" string
  | ManifestLevel string level_details \<comment> \<open>a level playlist in place of a master playlist\<close>
  | LevelLoaded level_details int int
  | AudioTrackLoaded level_details "int option"
  | SubtitleTrackLoaded level_details "int option"
  | NetworkError string bool string \<comment> \<open>details, fatal, reason\<close>

record playlist_loader =
  pl_loaders :: "string \<Rightarrow> load_context option"
  pl_actions :: "playlist_action list"

definition act :: "playlist_action \<Rightarrow> playlist_loader \<Rightarrow> playlist_loader" where
  "act a l = l\<lparr>pl_actions := pl_actions l @ [a]\<rparr>"

definition load :: "player_config \<Rightarrow> string \<Rightarrow> load_context \<Rightarrow> playlist_loader \<Rightarrow> playlist_loader" where
  "load config url context l =
     (let ty = lc_type context;
          loadConfig = (if ty = ''manifest'' then pc_manifestLoading config else pc_levelLoading config);
          context = context\<lparr>lc_url := url\<rparr>;
          start = (\<lambda>l. act (StartLoader context loadConfig) (l\<lparr>pl_loaders := (pl_loaders l)(ty \<mapsto> context)\<rparr>))
      in case pl_loaders l ty of
           Some c \<Rightarrow> if lc_url c = url then l else start (act (AbortLoader ty) l)
         | None \<Rightarrow> start l)"

definition onManifestLoading :: "player_config \<Rightarrow> string \<Rightarrow> playlist_loader \<Rightarrow> playlist_loader" where
  "onManifestLoading config url = load config url \<lparr>lc_type = ''manifest'', lc_url = '''', lc_level = None, lc_id = None\<rparr>"

definition onLevelLoading :: "player_config \<Rightarrow> string \<Rightarrow> int \<Rightarrow> int option \<Rightarrow> playlist_loader \<Rightarrow> playlist_loader" where
  "onLevelLoading config url level lid = load config url \<lparr>lc_type = ''level'', lc_url = '''', lc_level = Some level, lc_id = lid\<rparr>"

definition onAudioTrackLoading :: "player_config \<Rightarrow> string \<Rightarrow> int option \<Rightarrow> playlist_loader \<Rightarrow> playlist_loader" where
  "onAudioTrackLoading config url lid = load config url \<lparr>lc_type = ''audioTrack'', lc_url = '''', lc_level = None, lc_id = lid\<rparr>"

definition onSubtitleTrackLoading :: "player_config \<Rightarrow> string \<Rightarrow> int option \<Rightarrow> playlist_loader \<Rightarrow> playlist_loader" where
  "onSubtitleTrackLoading config url lid = load config url \<lparr>lc_type = ''subtitleTrack'', lc_url = '''', lc_level = None, lc_id = lid\<rparr>"

text \<open>The response: the text, and the URL that the browser reports, if any.\<close>

definition starts_with :: "string \<Rightarrow> string \<Rightarrow> bool" where
  "starts_with p s \<longleftrightarrow> take (length p) s = p"

text \<open>\<open>s.indexOf(p) > 0\<close>: the first occurrence is not at the start.\<close>

definition contains_later :: "string \<Rightarrow> string \<Rightarrow> bool" where
  "contains_later p s \<longleftrightarrow> contains p s \<and> \<not> starts_with p s"

definition main_audio_track :: media_track where
  "main_audio_track = \<lparr>mt_groupId = None, mt_name = Some ''main'', mt_type = ''main'', mt_default = False, mt_autoselect = False,
     mt_forced = False, mt_url = None, mt_lang = None, mt_audioCodec = None, mt_id = None\<rparr>"

definition load_level ::
  "(string \<Rightarrow> num) \<Rightarrow> string \<Rightarrow> string \<Rightarrow> load_context \<Rightarrow> playlist_loader \<Rightarrow> playlist_loader" where
  "load_level dateParse s url context l =
     (let ty = lc_type context;
          levelId = (case lc_level context of Some n \<Rightarrow> n | None \<Rightarrow> (case lc_id context of Some n \<Rightarrow> n | None \<Rightarrow> 0));
          fragType = (if ty = ''audioTrack'' then ''audio'' else if ty = ''subtitleTrack'' then ''subtitle'' else ''main'');
          details = parseLevelPlaylist dateParse s url levelId fragType;
          l = (if ty = ''manifest'' then act (ManifestLevel url details) l else l)
      in if truthy (ld_targetduration details) then
           if ty = ''audioTrack'' then act (AudioTrackLoaded details (lc_id context)) l
           else if ty = ''subtitleTrack'' then act (SubtitleTrackLoaded details (lc_id context)) l
           else act (LevelLoaded details (case lc_level context of Some n \<Rightarrow> n | None \<Rightarrow> 0) (case lc_id context of Some n \<Rightarrow> n | None \<Rightarrow> 0)) l
         else act (NetworkError ''manifestParsingError'' True ''invalid targetduration'') l)"

definition load_master :: "(string \<Rightarrow> string \<Rightarrow> string) \<Rightarrow> string \<Rightarrow> string \<Rightarrow> playlist_loader \<Rightarrow> playlist_loader" where
  "load_master resolve s url l =
     (case parseMasterPlaylist resolve s url of
        [] \<Rightarrow> act (NetworkError ''manifestParsingError'' True ''no level found in manifest'') l
      | first # rest \<Rightarrow>
          let audioTracks = parseMasterPlaylistMedia resolve s url ''AUDIO'' (ml_audioCodec first);
              subtitles = parseMasterPlaylistMedia resolve s url ''SUBTITLES'' None;
              embeddedAudioFound = list_ex (\<lambda>t. \<not> filled_string (mt_url t)) audioTracks;
              audioTracks =
                (if audioTracks \<noteq> [] \<and> \<not> embeddedAudioFound \<and> filled_string (ml_audioCodec first)
                    \<and> \<not> filled_string (ml_attrs first ''AUDIO'')
                 then main_audio_track # audioTracks else audioTracks)
          in act (ManifestLoaded (first # rest) audioTracks subtitles url) l)"

definition loadsuccess ::
  "(string \<Rightarrow> string \<Rightarrow> string) \<Rightarrow> (string \<Rightarrow> num) \<Rightarrow> string \<Rightarrow> string option \<Rightarrow> load_context \<Rightarrow> playlist_loader \<Rightarrow> playlist_loader" where
  "loadsuccess resolve dateParse s responseUrl context l =
     (let l = l\<lparr>pl_loaders := (pl_loaders l)(lc_type context := None)\<rparr>;
          url = (case responseUrl of None \<Rightarrow> lc_url context | Some u \<Rightarrow> if starts_with ''data:'' u then lc_url context else u)
      in if starts_with ''#EXTM3U'' s then
           if contains_later ''#EXTINF:'' s then load_level dateParse s url context l
           else load_master resolve s url l
         else act (NetworkError ''manifestParsingError'' True ''no EXTM3U delimiter'') l)"

text \<open>
  A failed load: its details by type (the subtitle track has none, and its error is not fatal then). \<open>loaders\<close> is only
  cleared here, after the loader of the context was aborted.
\<close>

definition load_failed :: "string \<Rightarrow> load_context \<Rightarrow> playlist_loader \<Rightarrow> playlist_loader" where
  "load_failed kind context l =
     (let ty = lc_type context;
          details = (if ty = ''manifest'' then ''manifestLoad'' @ kind else if ty = ''level'' then ''levelLoad'' @ kind
                     else if ty = ''audioTrack'' then ''audioTrackLoad'' @ kind else ''undefined'')
      in act (NetworkError details (ty = ''manifest'') '''')
           ((act (AbortLoader ty) l)\<lparr>pl_loaders := (pl_loaders l)(ty := None)\<rparr>))"

definition loaderror :: "load_context \<Rightarrow> playlist_loader \<Rightarrow> playlist_loader" where
  "loaderror = load_failed ''Error''"

definition loadtimeout :: "load_context \<Rightarrow> playlist_loader \<Rightarrow> playlist_loader" where
  "loadtimeout = load_failed ''TimeOut''"

end
