(* ===== verification/Playlist_Laws.thy ===== *)
theory Playlist_Laws
  imports Playlist_Helpers
begin

text \<open>
  Properties of playlists in time: a fragment's measured times make the whole time line of the playlist
  consistent, a refreshed playlist keeps what was measured, the search is a binary search, and small holes in
  the buffer disappear.
\<close>

subsection \<open>The time line of a playlist\<close>

text \<open>A fragment with numbers; measured ones start at their measured time.\<close>

definition frag_ok :: "frag \<Rightarrow> bool" where
  "frag_ok f \<longleftrightarrow> fr_start f \<noteq> None \<and> fr_duration f \<noteq> None \<and> (fr_startPTS f = None \<or> fr_start f = fr_startPTS f)"

text \<open>Fragment \<open>i\<close> ends where the next one starts; or it was pushed to 0 because it is longer than the time before that.\<close>

definition joined :: "frag list \<Rightarrow> nat \<Rightarrow> bool" where
  "joined fs i \<longleftrightarrow> fr_start (fs ! Suc i) = num_add (fr_start (fs ! i)) (fr_duration (fs ! i))"

definition clamped :: "frag list \<Rightarrow> nat \<Rightarrow> bool" where
  "clamped fs i \<longleftrightarrow> fr_start (fs ! i) = Some 0 \<and> num_less (fr_start (fs ! Suc i)) (fr_duration (fs ! i))"

lemma frag_okE:
  assumes "frag_ok f"
  obtains s d where "fr_start f = Some s" and "fr_duration f = Some d" and "fr_startPTS f = None \<or> fr_startPTS f = Some s"
  using assms by (auto simp: frag_ok_def)

lemma length_updatePTS [simp]: "length (updatePTS fs i j) = length fs"
  by (simp add: updatePTS_def Let_def split: option.split)

lemma length_update_down [simp]: "length (update_down i fs) = length fs"
  by (induction i fs rule: update_down.induct) simp_all

lemma length_update_up [simp]: "length (update_up i n fs) = length fs"
  by (induction i n fs rule: update_up.induct) simp_all

text \<open>One step up: fragments \<open>i\<close> and \<open>i + 1\<close> join, and the times before are not touched.\<close>

lemma updatePTS_up:
  assumes "Suc i < length fs" and "\<forall>f \<in> set fs. frag_ok f"
  shows "\<forall>f \<in> set (updatePTS fs i (Suc i)). frag_ok f" "joined (updatePTS fs i (Suc i)) i"
    "j < i \<Longrightarrow> joined (updatePTS fs i (Suc i)) j \<longleftrightarrow> joined fs j"
    "j < i \<Longrightarrow> clamped (updatePTS fs i (Suc i)) j \<longleftrightarrow> clamped fs j"
    "fr_startPTS (updatePTS fs i (Suc i) ! j) = fr_startPTS (fs ! j)"
proof -
  have "frag_ok (fs ! i)" "frag_ok (fs ! Suc i)" using assms by auto
  then obtain s d s' d' where f: "fr_start (fs ! i) = Some s" "fr_duration (fs ! i) = Some d"
    "fr_startPTS (fs ! i) = None \<or> fr_startPTS (fs ! i) = Some s" "fr_start (fs ! Suc i) = Some s'"
    "fr_duration (fs ! Suc i) = Some d'" "fr_startPTS (fs ! Suc i) = None \<or> fr_startPTS (fs ! Suc i) = Some s'"
    by (metis frag_okE)
  show "\<forall>f \<in> set (updatePTS fs i (Suc i)). frag_ok f"
    using assms f by (auto simp: updatePTS_def Let_def frag_ok_def dest!: set_update_subset_insert [THEN subsetD] split: option.splits)
  show "joined (updatePTS fs i (Suc i)) i"
    using assms(1) f by (auto simp: updatePTS_def Let_def joined_def split: option.split)
  show "j < i \<Longrightarrow> joined (updatePTS fs i (Suc i)) j \<longleftrightarrow> joined fs j"
    using assms(1) by (auto simp: updatePTS_def Let_def joined_def nth_list_update split: option.split)
  show "j < i \<Longrightarrow> clamped (updatePTS fs i (Suc i)) j \<longleftrightarrow> clamped fs j"
    using assms(1) by (auto simp: updatePTS_def Let_def clamped_def nth_list_update split: option.split)
  show "fr_startPTS (updatePTS fs i (Suc i) ! j) = fr_startPTS (fs ! j)"
    using assms(1) by (auto simp: updatePTS_def Let_def nth_list_update split: option.split)
qed

lemma updatePTS_down:
  assumes "Suc i < length fs" and "\<forall>f \<in> set fs. frag_ok f"
  shows "\<forall>f \<in> set (updatePTS fs (Suc i) i). frag_ok f"
    "joined (updatePTS fs (Suc i) i) i \<or> clamped (updatePTS fs (Suc i) i) i"
    "i < j \<Longrightarrow> updatePTS fs (Suc i) i ! j = fs ! j"
    "fr_startPTS (updatePTS fs (Suc i) i ! j) = fr_startPTS (fs ! j)"
proof -
  have "frag_ok (fs ! i)" "frag_ok (fs ! Suc i)" using assms by auto
  then obtain s d s' d' where f: "fr_start (fs ! i) = Some s" "fr_duration (fs ! i) = Some d"
    "fr_startPTS (fs ! i) = None \<or> fr_startPTS (fs ! i) = Some s" "fr_start (fs ! Suc i) = Some s'"
    "fr_duration (fs ! Suc i) = Some d'" "fr_startPTS (fs ! Suc i) = None \<or> fr_startPTS (fs ! Suc i) = Some s'"
    by (metis frag_okE)
  show "\<forall>f \<in> set (updatePTS fs (Suc i) i). frag_ok f"
    using assms f by (auto simp: updatePTS_def Let_def frag_ok_def dest!: set_update_subset_insert [THEN subsetD] split: option.splits)
  show "joined (updatePTS fs (Suc i) i) i \<or> clamped (updatePTS fs (Suc i) i) i"
    using assms(1) f by (auto simp: updatePTS_def Let_def joined_def clamped_def max_def split: option.split)
  show "i < j \<Longrightarrow> updatePTS fs (Suc i) i ! j = fs ! j"
    using assms(1) by (auto simp: updatePTS_def Let_def split: option.split)
  show "fr_startPTS (updatePTS fs (Suc i) i ! j) = fr_startPTS (fs ! j)"
    using assms(1) by (auto simp: updatePTS_def Let_def nth_list_update split: option.split)
qed

lemma update_down_joins:
  assumes "i < length fs" and "\<forall>f \<in> set fs. frag_ok f"
  shows "(\<forall>f \<in> set (update_down i fs). frag_ok f) \<and> (\<forall>j < i. joined (update_down i fs) j \<or> clamped (update_down i fs) j)
    \<and> (\<forall>j \<ge> i. update_down i fs ! j = fs ! j) \<and> (\<forall>j. fr_startPTS (update_down i fs ! j) = fr_startPTS (fs ! j))"
  using assms
proof (induction i fs rule: update_down.induct)
  case (2 i fs)
  let ?g = "updatePTS fs (Suc i) i"
  note s = updatePTS_down [OF "2.prems"]
  have IH: "(\<forall>f \<in> set (update_down i ?g). frag_ok f) \<and> (\<forall>j < i. joined (update_down i ?g) j \<or> clamped (update_down i ?g) j)
    \<and> (\<forall>j \<ge> i. update_down i ?g ! j = ?g ! j) \<and> (\<forall>j. fr_startPTS (update_down i ?g ! j) = fr_startPTS (?g ! j))"
    using "2.prems"(1) s(1) by (intro "2.IH") simp_all
  have "joined (update_down i ?g) i \<or> clamped (update_down i ?g) i"
    using s(2) IH by (simp add: joined_def clamped_def)
  then show ?case using IH s(3,4) by (auto simp: less_Suc_eq)
qed simp

lemma update_up_joins:
  assumes "i + n < length fs" and "\<forall>f \<in> set fs. frag_ok f"
  shows "(\<forall>f \<in> set (update_up i n fs). frag_ok f) \<and> (\<forall>j. i \<le> j \<and> j < i + n \<longrightarrow> joined (update_up i n fs) j)
    \<and> (\<forall>j < i. (joined (update_up i n fs) j \<longleftrightarrow> joined fs j) \<and> (clamped (update_up i n fs) j \<longleftrightarrow> clamped fs j))
    \<and> (\<forall>j. fr_startPTS (update_up i n fs ! j) = fr_startPTS (fs ! j))"
  using assms
proof (induction i n fs rule: update_up.induct)
  case (2 i n fs)
  let ?g = "updatePTS fs i (Suc i)"
  have i: "Suc i < length fs" using "2.prems"(1) by simp
  note s = updatePTS_up [OF i "2.prems"(2)]
  have IH: "(\<forall>f \<in> set (update_up (Suc i) n ?g). frag_ok f) \<and> (\<forall>j. Suc i \<le> j \<and> j < Suc i + n \<longrightarrow> joined (update_up (Suc i) n ?g) j)
    \<and> (\<forall>j < Suc i. (joined (update_up (Suc i) n ?g) j \<longleftrightarrow> joined ?g j) \<and> (clamped (update_up (Suc i) n ?g) j \<longleftrightarrow> clamped ?g j))
    \<and> (\<forall>j. fr_startPTS (update_up (Suc i) n ?g ! j) = fr_startPTS (?g ! j))"
    using "2.prems"(1) s(1) by (intro "2.IH") simp_all
  have "joined (update_up (Suc i) n ?g) i" using IH s(2) by simp
  then have "\<forall>j. i \<le> j \<and> j < i + Suc n \<longrightarrow> joined (update_up (Suc i) n ?g) j"
    using IH by (metis Suc_leI add_Suc_shift le_neq_implies_less)
  then show ?case using IH s(3-5) by simp
qed auto

text \<open>Both loops from a fragment: the whole list is consistent.\<close>

definition timeline :: "nat \<Rightarrow> frag list \<Rightarrow> bool" where
  "timeline k fs \<longleftrightarrow> (\<forall>f \<in> set fs. frag_ok f) \<and> (\<forall>i. Suc i < length fs \<longrightarrow> joined fs i \<or> i < k \<and> clamped fs i)"

lemma update_timeline:
  assumes "k < length fs" and "\<forall>f \<in> set fs. frag_ok f"
  shows "timeline k (update_up k (length fs - 1 - k) (update_down k fs))"
    "fr_startPTS (update_up k (length fs - 1 - k) (update_down k fs) ! j) = fr_startPTS (fs ! j)"
proof -
  note d = update_down_joins [OF assms]
  let ?n = "length fs - 1 - k"
  have n: "k + ?n < length (update_down k fs)" using assms(1) by simp
  from d have ok: "\<forall>f \<in> set (update_down k fs). frag_ok f" by blast
  note u = update_up_joins [OF n ok]
  show "timeline k (update_up k ?n (update_down k fs))"
    unfolding timeline_def
  proof (intro conjI allI impI)
    show "\<forall>f \<in> set (update_up k ?n (update_down k fs)). frag_ok f" using u by blast
    fix i
    assume i: "Suc i < length (update_up k ?n (update_down k fs))"
    show "joined (update_up k ?n (update_down k fs)) i \<or> i < k \<and> clamped (update_up k ?n (update_down k fs)) i"
    proof (cases "i < k")
      case True
      then show ?thesis using d u by blast
    next
      case False
      then have "k \<le> i \<and> i < k + ?n" using i by simp
      then show ?thesis using u by blast
    qed
  qed
  show "fr_startPTS (update_up k ?n (update_down k fs) ! j) = fr_startPTS (fs ! j)" using d u by metis
qed

definition measured :: "frag \<Rightarrow> bool" where
  "measured f \<longleftrightarrow> frag_ok f \<and> (fr_startPTS f \<noteq> None \<longrightarrow> fr_endPTS f \<noteq> None)"

definition numbered :: "level_details \<Rightarrow> bool" where
  "numbered d \<longleftrightarrow> ld_endSN d = ld_startSN d + int (length (ld_fragments d)) - 1
     \<and> (\<forall>i < length (ld_fragments d). fr_sn (ld_fragments d ! i) = SN (ld_startSN d + int i))"

lemma set_times_ok:
  assumes "fr_startPTS frag \<noteq> None \<Longrightarrow> fr_endPTS frag \<noteq> None"
  shows "frag_ok (set_times frag (Some a) (Some b) c e)" "fr_sn (set_times frag sp ep sd ed) = fr_sn frag"
    "fr_startPTS (set_times frag (Some a) (Some b) c e)
      = Some (case fr_startPTS frag of None \<Rightarrow> a | Some p \<Rightarrow> min a p)"
  using assms by (auto simp: set_times_def Let_def frag_ok_def split: option.split)

lemma updateFragPTSDTS_in:
  assumes ok: "\<forall>f \<in> set (ld_fragments d). frag_ok f" and sn: "fr_sn frag = SN (ld_startSN d + int k)" and k: "k < length (ld_fragments d)"
    and "ld_endSN d = ld_startSN d + int (length (ld_fragments d)) - 1"
    and m: "fr_startPTS frag \<noteq> None \<Longrightarrow> fr_endPTS frag \<noteq> None"
  shows "\<exists>drift fs. updateFragPTSDTS (Some d) frag (Some a) (Some b) c e
      = Inr (drift, fs ! k, Some (d\<lparr>ld_fragments := fs, ld_PTSKnown := Some True\<rparr>))
    \<and> timeline k fs \<and> length fs = length (ld_fragments d)
    \<and> (\<forall>j. fr_startPTS (fs ! j) = fr_startPTS ((ld_fragments d)[k := set_times frag (Some a) (Some b) c e] ! j))"
proof -
  define new where "new = set_times frag (Some a) (Some b) c e"
  define gs where "gs = (ld_fragments d)[k := new]"
  define fs where "fs = update_up k (length gs - 1 - k) (update_down k gs)"
  have "\<forall>f \<in> set gs. frag_ok f"
    using ok set_times_ok(1) [OF m] by (auto simp: gs_def new_def dest!: set_update_subset_insert [THEN subsetD])
  from update_timeline [OF _ this, of k] k
  have "timeline k fs" "\<forall>j. fr_startPTS (fs ! j) = fr_startPTS (gs ! j)" by (simp_all add: fs_def gs_def)
  moreover have "updateFragPTSDTS (Some d) frag (Some a) (Some b) c e
      = Inr (num_sub (fr_start new) (fr_start frag), fs ! k, Some (d\<lparr>ld_fragments := fs, ld_PTSKnown := Some True\<rparr>))"
    using k assms(4) unfolding updateFragPTSDTS_def Let_def sn new_def [symmetric]
    by (simp add: gs_def fs_def)
  moreover have "length fs = length (ld_fragments d)" by (simp add: fs_def gs_def)
  ultimately show ?thesis unfolding gs_def new_def by blast
qed

subsection \<open>A refreshed playlist\<close>

definition old_time :: "frag list \<Rightarrow> int \<Rightarrow> int list \<Rightarrow> nat \<Rightarrow> frag option" where
  "old_time old delta is j =
     (if int j \<in> set is then (case elem old (delta + int j) of Some f \<Rightarrow> if fr_startPTS f \<noteq> None then Some f else None | None \<Rightarrow> None)
      else None)"

lemma merge_fold:
  assumes "distinct is" and "fold (merge_step old delta) is (fs0, 0, None) = (fs, c, p)"
  shows "length fs = length fs0
    \<and> (\<forall>j < length fs0. fs ! j = (case old_time old delta is j of Some f \<Rightarrow> copy_times f (fs0 ! j) | None \<Rightarrow> fs0 ! j))
    \<and> (case p of None \<Rightarrow> \<forall>j < length fs0. old_time old delta is j = None
        | Some i \<Rightarrow> 0 \<le> i \<and> nat i < length fs0 \<and> old_time old delta is (nat i) \<noteq> None)"
  using assms
proof (induction "is" arbitrary: fs c p rule: rev_induct)
  case Nil
  then show ?case by (simp add: old_time_def)
next
  case (snoc i "is")
  obtain gs c' p' where g: "fold (merge_step old delta) is (fs0, 0, None) = (gs, c', p')" by (cases "fold (merge_step old delta) is (fs0, 0, None)")
  have IH: "length gs = length fs0"
    "j < length fs0 \<Longrightarrow> gs ! j = (case old_time old delta is j of Some f \<Rightarrow> copy_times f (fs0 ! j) | None \<Rightarrow> fs0 ! j)"
    "case p' of None \<Rightarrow> \<forall>j < length fs0. old_time old delta is j = None
        | Some i \<Rightarrow> 0 \<le> i \<and> nat i < length fs0 \<and> old_time old delta is (nat i) \<noteq> None" for j
    using snoc.IH [OF _ g] snoc.prems(1) by auto
  have st: "merge_step old delta i (gs, c', p') = (fs, c, p)" using snoc.prems(2) g by simp
  have new: "old_time old delta (is @ [i]) j = (if int j = i then old_time old delta [i] j else old_time old delta is j)" for j
    using snoc.prems(1) by (auto simp: old_time_def)
  have out: "old_time old delta is j = None" if "int j = i" for j using that snoc.prems(1) by (auto simp: old_time_def)
  show ?case
  proof (cases "0 \<le> i \<and> nat i < length fs0 \<and> old_time old delta [i] (nat i) \<noteq> None")
    case True
    then obtain f where f: "elem old (delta + i) = Some f" "fr_startPTS f \<noteq> None"
      by (auto simp: old_time_def split: option.splits if_splits)
    have gi: "elem gs i = Some (gs ! nat i)" "gs ! nat i = fs0 ! nat i" using True IH(1,2) out [of "nat i"] by (simp_all add: elem_def)
    have "fs = gs[nat i := copy_times f (fs0 ! nat i)]" "p = Some i"
      using st f gi by (simp_all add: merge_step_def Let_def)
    then show ?thesis
      using True IH(1,2) f by (auto simp: new nth_list_update old_time_def)
  next
    case False
    have "fs = gs \<and> p = p'"
    proof (cases "elem gs i")
      case None
      then show ?thesis using st by (auto simp: merge_step_def split: option.splits)
    next
      case (Some g)
      then have "0 \<le> i \<and> nat i < length fs0" using IH(1) by (simp add: elem_def split: if_splits)
      then show ?thesis using st False Some by (auto simp: merge_step_def old_time_def Let_def split: option.splits if_splits)
    qed
    moreover have "old_time old delta (is @ [i]) j = old_time old delta is j" if "j < length fs0" for j
      using False that out [of j] unfolding new by (cases "int j = i") auto
    ultimately show ?thesis using IH by (auto split: option.splits)
  qed
qed


text \<open>
  The refreshed playlist: where the old playlist has a measured fragment among the common ones, the new time line is
  consistent and every measured start is kept.
\<close>

lemma mergeDetails_timeline:
  assumes old: "\<forall>f \<in> set (ld_fragments oldD). measured f" and new: "\<forall>f \<in> set (ld_fragments newD). measured f"
    and num: "numbered oldD" "numbered newD"
    and common: "i < length (ld_fragments newD)" "elem (ld_fragments oldD) (ld_startSN newD - ld_startSN oldD + int i) = Some g"
      "fr_startPTS g \<noteq> None"
  shows "\<exists>d k. mergeDetails oldD newD = Inr d \<and> timeline k (ld_fragments d)
    \<and> length (ld_fragments d) = length (ld_fragments newD) \<and> ld_PTSKnown d = ld_PTSKnown oldD
    \<and> fr_startPTS (ld_fragments d ! i) = fr_startPTS g"
proof -
  define delta where "delta = ld_startSN newD - ld_startSN oldD"
  define lo where "lo = max (ld_startSN oldD) (ld_startSN newD) - ld_startSN newD"
  define hi where "hi = min (ld_endSN oldD) (ld_endSN newD) - ld_startSN newD"
  define old_fs where "old_fs = ld_fragments oldD"
  define new_fs where "new_fs = ld_fragments newD"
  have g: "0 \<le> delta + int i" "nat (delta + int i) < length old_fs" "g = old_fs ! nat (delta + int i)"
    using common(2) by (auto simp: elem_def delta_def old_fs_def split: if_splits)
  have i: "lo \<le> int i" "int i \<le> hi"
    using g(1,2) common(1) num by (auto simp: lo_def hi_def delta_def numbered_def old_fs_def)
  obtain fs c p where f: "fold (merge_step old_fs delta) [lo..hi] (new_fs, 0, None) = (fs, c, p)"
    by (cases "fold (merge_step old_fs delta) [lo..hi] (new_fs, 0, None)")
  note m = merge_fold [OF distinct_upto f]
  have timed_i: "old_time old_fs delta [lo..hi] i = Some g"
    using i common(2,3) by (simp add: old_time_def delta_def old_fs_def)
  then obtain q where q: "p = Some q" using m common(1) by (cases p) (auto simp: new_fs_def)
  define k where "k = nat q"
  have k: "q = int k" "k < length fs" "old_time old_fs delta [lo..hi] k \<noteq> None" "length fs = length new_fs"
    using m q by (auto simp: k_def)
  then obtain h where h: "old_time old_fs delta [lo..hi] k = Some h" by auto
  have oldtime: "old_time old_fs delta [lo..hi] j = Some f \<Longrightarrow> f \<in> set old_fs \<and> fr_startPTS f \<noteq> None" for j f
    by (auto simp: old_time_def elem_def split: if_splits option.splits)
  define gs where "gs = (if c \<noteq> 0 then map (\<lambda>f. f\<lparr>fr_cc := fr_cc f + c\<rparr>) fs else fs)"
  have gs: "length gs = length new_fs" "fr_startPTS (gs ! j) = fr_startPTS (fs ! j)" "fr_endPTS (gs ! j) = fr_endPTS (fs ! j)"
    "fr_sn (gs ! j) = fr_sn (fs ! j)" "measured (gs ! j) = measured (fs ! j)" if "j < length new_fs" for j
    using that k(4) by (auto simp: gs_def measured_def frag_ok_def)
  have len: "length gs = length new_fs" using k(4) by (simp add: gs_def)
  have fs_j: "measured (fs ! j)" "fr_sn (fs ! j) = fr_sn (new_fs ! j)" if "j < length new_fs" for j
  proof -
    have e: "fs ! j = (case old_time old_fs delta [lo..hi] j of Some f \<Rightarrow> copy_times f (new_fs ! j) | None \<Rightarrow> new_fs ! j)"
      using m that by blast
    show "fr_sn (fs ! j) = fr_sn (new_fs ! j)" unfolding e by (simp add: copy_times_def split: option.split)
    show "measured (fs ! j)"
    proof (cases "old_time old_fs delta [lo..hi] j")
      case None
      then show ?thesis using e that new by (simp add: new_fs_def)
    next
      case (Some f)
      then have "measured f" "fr_startPTS f \<noteq> None" using oldtime old by (auto simp: old_fs_def)
      then show ?thesis using e Some by (auto simp: copy_times_def measured_def frag_ok_def)
    qed
  qed
  have pts_h: "fr_startPTS (fs ! k) = fr_startPTS h" "fr_endPTS (fs ! k) = fr_endPTS h"
    using m k h by (auto simp: copy_times_def)
  have "measured h" "fr_startPTS h \<noteq> None" using oldtime [OF h] old by (auto simp: old_fs_def)
  then obtain a b where ab: "fr_startPTS h = Some a" "fr_endPTS h = Some b" by (auto simp: measured_def)
  define d where "d = newD\<lparr>ld_fragments := gs\<rparr>"
  have ok: "\<forall>f \<in> set (ld_fragments d). frag_ok f"
    using gs(5) fs_j(1) len by (auto simp: d_def in_set_conv_nth measured_def)
  have sn: "fr_sn (gs ! k) = SN (ld_startSN d + int k)"
    using gs(4) [of k] fs_j(2) [of k] k num(2) by (simp add: d_def numbered_def new_fs_def)
  have kd: "k < length (ld_fragments d)" using k len by (simp add: d_def)
  have endSN: "ld_endSN d = ld_startSN d + int (length (ld_fragments d)) - 1"
    using num(2) len by (simp add: d_def numbered_def new_fs_def)
  have mk: "fr_startPTS (gs ! k) \<noteq> None \<Longrightarrow> fr_endPTS (gs ! k) \<noteq> None"
    using gs(5) [of k] fs_j(1) [of k] k by (simp add: measured_def)
  obtain drift us where u: "updateFragPTSDTS (Some d) (gs ! k) (Some a) (Some b) (fr_startDTS (gs ! k)) (fr_endDTS (gs ! k))
      = Inr (drift, us ! k, Some (d\<lparr>ld_fragments := us, ld_PTSKnown := Some True\<rparr>))"
    "timeline k us" "length us = length (ld_fragments d)"
    "\<forall>j. fr_startPTS (us ! j) = fr_startPTS ((ld_fragments d)[k := set_times (gs ! k) (Some a) (Some b)
      (fr_startDTS (gs ! k)) (fr_endDTS (gs ! k))] ! j)"
    using updateFragPTSDTS_in [OF ok sn kd endSN mk] by blast
  have same: "fr_startPTS (us ! i) = fr_startPTS g"
  proof -
    have gi: "fr_startPTS (gs ! i) = fr_startPTS g"
      using gs(2) [of i] m timed_i common(1) by (simp add: new_fs_def copy_times_def)
    show ?thesis
    proof (cases "i = k")
      case True
      then have "fr_startPTS (us ! i) = Some (case fr_startPTS (gs ! k) of None \<Rightarrow> a | Some p \<Rightarrow> min a p)"
        using u(4) kd set_times_ok(3) [OF mk] by simp
      moreover have "fr_startPTS (gs ! k) = Some a" using gs(2) [of k] k pts_h(1) ab(1) by simp
      ultimately show ?thesis using gi True by simp
    next
      case False
      then show ?thesis using u(4) gi by (simp add: d_def)
    qed
  qed
  have "\<not> hi < lo" using i by simp
  have pk: "p = Some (int k)" using q k(1) by simp
  have gk: "fr_startPTS (gs ! k) = Some a" "fr_endPTS (gs ! k) = Some b"
    using gs(2,3) [of k] k(2,4) pts_h ab by simp_all
  have "mergeDetails oldD newD = Inr (d\<lparr>ld_fragments := us, ld_PTSKnown := ld_PTSKnown oldD\<rparr>)"
    unfolding mergeDetails_def Let_def lo_def [symmetric] hi_def [symmetric] delta_def [symmetric] old_fs_def [symmetric]
      new_fs_def [symmetric] f split gs_def [symmetric] d_def [symmetric]
    using u(1) \<open>\<not> hi < lo\<close> by (simp add: pk gk)
  then show ?thesis using u(2,3) same len by (intro exI [of _ "d\<lparr>ld_fragments := us, ld_PTSKnown := ld_PTSKnown oldD\<rparr>"] exI [of _ k])
      (simp add: d_def new_fs_def)
qed

end
