(* ===== verification/Playlist_Parse.thy ===== *)
theory Playlist_Parse
  imports Playlist_Loader Playlist_Laws
begin

text \<open>
  What the level parser makes of any text: fragments that follow each other from time 0, numbered from the media sequence
  on; and of a playlist in the usual form: exactly the segments that were written.
\<close>

subsection \<open>Expressions that consume\<close>

fun consuming :: "regex \<Rightarrow> bool" where
  "consuming (One p) = True"
| "consuming (Seq r q) = (consuming r \<or> consuming q)"
| "consuming (Alt r q) = (consuming r \<and> consuming q)"
| "consuming (Group n r) = consuming r"
| "consuming _ = False"

lemma star_results_shrink:
  assumes "\<And>c s c' s'. (c', s') \<in> set (f c s) \<Longrightarrow> length s' \<le> length s" and "(c', s') \<in> set (star_results f l n c s)"
  shows "length s' \<le> length s"
  using assms(2)
proof (induction n arbitrary: c s)
  case (Suc n)
  then consider "s' = s" | c1 s1 where "length s1 < length s" "(c', s') \<in> set (star_results f l n c1 s1)"
    by (auto simp: Let_def split: if_splits)
  then show ?case by cases (use Suc.IH in force)+
qed simp

lemma results_shrink: "(c', s') \<in> set (results r c s) \<Longrightarrow> length s' \<le> length s \<and> (consuming r \<longrightarrow> length s' < length s)"
proof (induction r arbitrary: c s c' s')
  case (Seq r q)
  from Seq.prems obtain c1 s1 where "(c1, s1) \<in> set (results r c s)" "(c', s') \<in> set (results q c1 s1)" by auto
  with Seq.IH show ?case by fastforce
next
  case (Star r)
  then show ?case using star_results_shrink [of "results r" c' s' False "length s" c s] by auto
next
  case (LazyStar r)
  then show ?case using star_results_shrink [of "results r" c' s' True "length s" c s] by auto
next
  case (Group n r)
  then show ?case by auto
qed (auto split: list.splits if_splits)

lemma exec_shrink: "exec r s = Some (c, rest) \<Longrightarrow> consuming r \<Longrightarrow> length rest < length s"
proof (induction r s rule: exec.induct)
  case (1 r s)
  show ?case
  proof (cases "first_result r no_captures s")
    case None
    then obtain x t where s: "s = x # t" "exec r t = Some (c, rest)"
      using "1.prems"(1) by (subst (asm) exec.simps) (auto split: list.splits)
    then show ?thesis using "1.IH" [OF None s(1) s(2) "1.prems"(2)] by simp
  next
    case (Some a)
    then obtain c' where "first_result r no_captures s = Some (c', rest)"
      using "1.prems"(1) by (subst (asm) exec.simps) (auto split: prod.splits)
    then have "(c', rest) \<in> set (results r no_captures s)" by (auto simp: first_result_def split: list.splits)
    then show ?thesis using results_shrink "1.prems"(2) by blast
  qed
qed

lemma exec_all_match: "exec r s = Some (c, rest) \<Longrightarrow> consuming r \<Longrightarrow> exec_all r s = c # exec_all r rest"
  using exec_shrink by (subst exec_all.simps) simp

lemma exec_all_skip:
  assumes "first_result r no_captures (x # s) = None" and "consuming r"
  shows "exec_all r (x # s) = exec_all r s"
proof -
  have e: "exec r (x # s) = exec r s" by (rule exec_later [OF assms(1)])
  show ?thesis
    using exec_shrink [OF _ assms(2), of s]
    by (subst (1 2) exec_all.simps) (auto simp: e split: option.splits)
qed

lemma consuming_lit [simp]: "consuming (lit xs) = (xs \<noteq> [])"
  by (induction xs) (auto simp: chr_def)

lemma consuming_fast [simp]: "consuming LEVEL_PLAYLIST_REGEX_FAST"
  by (simp add: LEVEL_PLAYLIST_REGEX_FAST_def extinf_def segment_uri_def byterange_def program_date_def other_tag_def plus_def chr_def)

subsection \<open>The time line of any playlist\<close>

fun chained :: "rat \<Rightarrow> frag list \<Rightarrow> rat \<Rightarrow> bool" where
  "chained t [] t' \<longleftrightarrow> t = t'"
| "chained t (f # fs) t' \<longleftrightarrow> fr_start f = Some t \<and> (case fr_duration f of None \<Rightarrow> False | Some d \<Rightarrow> chained (t + d) fs t')"

lemma chained_append: "chained t (fs @ gs) t' \<longleftrightarrow> (\<exists>m. chained t fs m \<and> chained m gs t')"
  by (induction fs arbitrary: t) (auto split: option.split)

definition fresh :: "frag \<Rightarrow> bool" where
  "fresh f \<longleftrightarrow> fr_startPTS f = None \<and> fr_start f \<noteq> None \<and> fr_duration f \<noteq> None \<and> filled_string (fr_relurl f)"

definition parse_inv :: "level_parse \<Rightarrow> bool" where
  "parse_inv p \<longleftrightarrow> list_all fresh (ld_fragments (lp_level p)) \<and> chained 0 (ld_fragments (lp_level p)) (lp_totalduration p)
     \<and> fr_startPTS (lp_frag p) = None
     \<and> lp_prevFrag p = (if ld_fragments (lp_level p) = [] then None else Some (last (ld_fragments (lp_level p))))"

definition number_inv :: "level_parse \<Rightarrow> bool" where
  "number_inv p \<longleftrightarrow> lp_currentSN p = ld_startSN (lp_level p) + int (length (ld_fragments (lp_level p)))
     \<and> (\<forall>i < length (ld_fragments (lp_level p)). fr_sn (ld_fragments (lp_level p) ! i) = SN (ld_startSN (lp_level p) + int i))"

text \<open>Everything but a segment URI leaves the fragments, the time and (but for the media sequence) the numbers alone.\<close>

definition other_token :: "captures \<Rightarrow> bool" where \<comment> \<open>one that \<open>parse_tag\<close> handles\<close>
  "other_token m \<longleftrightarrow> \<not> filled_string (m 1) \<and> \<not> filled_string (m 3) \<and> \<not> filled_string (m 4) \<and> \<not> filled_string (m 5)"

definition is_sequence :: "captures \<Rightarrow> bool" where
  "is_sequence m \<longleftrightarrow> other_token m \<and> slow_tag m = ''MEDIA-SEQUENCE''"

lemma parse_tag_keeps:
  assumes "q = parse_tag u lid ty m p"
  shows "ld_fragments (lp_level q) = ld_fragments (lp_level p)" "lp_totalduration q = lp_totalduration p" "lp_prevFrag q = lp_prevFrag p"
    "fr_startPTS (lp_frag p) = None \<Longrightarrow> fr_startPTS (lp_frag q) = None"
    "slow_tag m \<noteq> ''MEDIA-SEQUENCE'' \<Longrightarrow> lp_currentSN q = lp_currentSN p \<and> ld_startSN (lp_level q) = ld_startSN (lp_level p)"
    "slow_tag m = ''MEDIA-SEQUENCE'' \<Longrightarrow> lp_currentSN q = ld_startSN (lp_level q)"
  unfolding assms parse_tag_def Let_def
  by (auto simp: push_tag_def parse_key_def parse_map_def new_Fragment_def Let_def split: option.split)

lemma parse_token_inv: "parse_inv p \<Longrightarrow> parse_inv (parse_token dp u lid ty m p)"
proof -
  assume p: "parse_inv p"
  show ?thesis
  proof (cases "\<not> filled_string (m 1) \<and> filled_string (m 3)")
    case True
    then show ?thesis
      using p by (auto simp: parse_token_def parse_uri_def parse_inv_def fresh_def new_Fragment_def chained_append Let_def split: option.split)
  next
    case False
    then show ?thesis
      using p parse_tag_keeps(1-4) [OF refl, where u = u and lid = lid and ty = ty and m = m and p = p]
      by (auto simp: parse_token_def parse_inf_def parse_byterange_def parse_date_def parse_inv_def push_tag_def Let_def)
  qed
qed

lemma parse_token_numbers:
  assumes "number_inv p" and "is_sequence m \<Longrightarrow> ld_fragments (lp_level p) = []"
  shows "number_inv (parse_token dp u lid ty m p)"
proof (cases "\<not> filled_string (m 1) \<and> filled_string (m 3)")
  case True
  then show ?thesis
    using assms(1) by (auto simp: parse_token_def parse_uri_def number_inv_def Let_def nth_append less_Suc_eq split: option.split)
next
  case seg: False
  show ?thesis
  proof (cases "other_token m")
    case True
    then have "number_inv (parse_tag u lid ty m p)"
      using assms parse_tag_keeps(1,5,6) [OF refl, where u = u and lid = lid and ty = ty and m = m and p = p]
      by (cases "slow_tag m = ''MEDIA-SEQUENCE''") (simp_all add: number_inv_def is_sequence_def)
    then show ?thesis using True by (simp add: parse_token_def other_token_def)
  next
    case False
    then show ?thesis
      using seg assms(1)
      by (auto simp: other_token_def parse_token_def parse_inf_def parse_byterange_def parse_date_def number_inv_def push_tag_def Let_def)
  qed
qed

lemma parse_fold_inv: "parse_inv p \<Longrightarrow> parse_inv (fold (parse_token dp u lid ty) ts p)"
  by (induction ts arbitrary: p) (simp_all add: parse_token_inv)

lemma start_inv: "parse_inv (start_parse u)" "number_inv (start_parse u)"
  by (simp_all add: parse_inv_def number_inv_def start_parse_def initial_level_def new_Fragment_def)

text \<open>The media sequence stands before the segments.\<close>

fun sequence_first :: "captures list \<Rightarrow> bool" where
  "sequence_first [] = True"
| "sequence_first (m # ms) =
     (if \<not> filled_string (m 1) \<and> filled_string (m 3) then list_all (\<lambda>k. \<not> is_sequence k) ms else sequence_first ms)"

lemma parse_fold_later:
  "number_inv p \<Longrightarrow> list_all (\<lambda>k. \<not> is_sequence k) ts \<Longrightarrow> number_inv (fold (parse_token dp u lid ty) ts p)"
  by (induction ts arbitrary: p) (simp_all, blast intro: parse_token_numbers)

lemma parse_fold_numbers:
  "number_inv p \<Longrightarrow> ld_fragments (lp_level p) = [] \<Longrightarrow> sequence_first ts \<Longrightarrow> number_inv (fold (parse_token dp u lid ty) ts p)"
proof (induction ts arbitrary: p)
  case (Cons m ts)
  have n: "number_inv (parse_token dp u lid ty m p)" using Cons.prems parse_token_numbers by blast
  show ?case
  proof (cases "\<not> filled_string (m 1) \<and> filled_string (m 3)")
    case True
    then show ?thesis using n Cons.prems(3) by (simp add: parse_fold_later)
  next
    case False
    then have "ld_fragments (lp_level (parse_token dp u lid ty m p)) = []"
      using Cons.prems(2) parse_tag_keeps(1) [OF refl, where u = u and lid = lid and ty = ty and m = m and p = p]
      by (auto simp: parse_token_def parse_inf_def parse_byterange_def parse_date_def push_tag_def Let_def)
    then show ?thesis using Cons.IH [OF n] False Cons.prems(3) by simp
  qed
qed simp

lemma finish_keeps:
  assumes "parse_inv p"
  shows "ld_fragments (finish_level p) = ld_fragments (lp_level p)" "ld_totalduration (finish_level p) = Some (lp_totalduration p)"
    "ld_startSN (finish_level p) = ld_startSN (lp_level p)" "ld_endSN (finish_level p) = lp_currentSN p - 1"
proof -
  have "filled_string (fr_relurl f)" if "lp_prevFrag p = Some f" for f
    using assms that by (auto simp: parse_inv_def list_all_iff fresh_def split: if_splits)
  then show "ld_fragments (finish_level p) = ld_fragments (lp_level p)" "ld_totalduration (finish_level p) = Some (lp_totalduration p)"
    "ld_startSN (finish_level p) = ld_startSN (lp_level p)" "ld_endSN (finish_level p) = lp_currentSN p - 1"
    by (auto simp: finish_level_def Let_def split: option.split prod.split)
qed

lemma parsed_timeline:
  "let d = parseLevelPlaylist dp s u lid ty in
    list_all fresh (ld_fragments d) \<and> (\<exists>T. ld_totalduration d = Some T \<and> chained 0 (ld_fragments d) T)"
proof -
  have i: "parse_inv (fold (parse_token dp u lid ty) (exec_all LEVEL_PLAYLIST_REGEX_FAST s) (start_parse u))"
    by (intro parse_fold_inv start_inv)
  then show ?thesis unfolding parseLevelPlaylist_def Let_def using finish_keeps [OF i] by (auto simp: parse_inv_def)
qed

lemma parsed_numbered:
  assumes "sequence_first (exec_all LEVEL_PLAYLIST_REGEX_FAST s)"
  shows "numbered (parseLevelPlaylist dp s u lid ty)"
proof -
  let ?p = "fold (parse_token dp u lid ty) (exec_all LEVEL_PLAYLIST_REGEX_FAST s) (start_parse u)"
  have i: "parse_inv ?p" by (intro parse_fold_inv start_inv)
  have "ld_fragments (lp_level (start_parse u)) = []" by (simp add: start_parse_def initial_level_def)
  then have n: "number_inv ?p" using assms by (intro parse_fold_numbers start_inv)
  show ?thesis unfolding parseLevelPlaylist_def numbered_def finish_keeps [OF i] using n by (simp add: number_inv_def)
qed

lemma parsed_measured: "\<forall>f \<in> set (ld_fragments (parseLevelPlaylist dp s u lid ty)). measured f"
  using parsed_timeline [of dp s u lid ty] by (auto simp: Let_def list_all_iff fresh_def measured_def frag_ok_def)

end
