(* ===== verification/Playlist_Roundtrip.thy ===== *)
theory Playlist_Roundtrip
  imports Playlist_Parse
begin

text \<open>The level playlist of a presentation, and that the parser reads back what was written.\<close>

subsection \<open>Writing a playlist\<close>

record segment =
  sg_whole :: string    \<comment> \<open>digits of the duration\<close>
  sg_fraction :: string \<comment> \<open>and after the point, or none\<close>
  sg_title :: string
  sg_uri :: string

definition nl :: string where
  "nl = [CHR 0x0A]"

definition duration_text :: "segment \<Rightarrow> string" where
  "duration_text g = sg_whole g @ (if sg_fraction g = [] then [] else CHR ''.'' # sg_fraction g)"

definition duration_value :: "segment \<Rightarrow> rat" where
  "duration_value g = of_nat (digits_value 10 0 (sg_whole g @ sg_fraction g)) / 10 ^ length (sg_fraction g)"

definition write_segment :: "segment \<Rightarrow> string" where
  "write_segment g = ''#EXTINF:'' @ duration_text g @ '','' @ sg_title g @ nl @ sg_uri g @ nl"

definition write_playlist :: "string \<Rightarrow> string \<Rightarrow> segment list \<Rightarrow> string" where
  "write_playlist target sequence gs =
     ''#EXTM3U'' @ nl @ ''#EXT-X-TARGETDURATION:'' @ target @ nl @ ''#EXT-X-MEDIA-SEQUENCE:'' @ sequence @ nl
     @ concat (map write_segment gs) @ ''#EXT-X-ENDLIST'' @ nl"

definition valid_segment :: "segment \<Rightarrow> bool" where
  "valid_segment g \<longleftrightarrow> sg_whole g \<noteq> [] \<and> list_all is_digit (sg_whole g) \<and> list_all is_digit (sg_fraction g)
     \<and> list_all not_newline (sg_title g)
     \<and> sg_uri g \<noteq> [] \<and> hd (sg_uri g) \<noteq> CHR ''#'' \<and> list_all (\<lambda>c. \<not> is_space c) (sg_uri g)"

subsection \<open>The tokens of the fast expression\<close>

lemma exec_token:
  assumes "first_result r no_captures (m @ rest) = Some (c, rest)" and "consuming r"
  shows "exec_all r (m @ rest) = c(0 := Some m) # exec_all r rest"
  using exec_all_match [OF exec_here [OF assms(1)] assms(2)] by simp

lemma not_newline_nl [simp]: "\<not> not_newline (CHR 0x0A)" "is_space (CHR 0x0A)" "\<not> is_digit (CHR 0x0A)" "\<not> is_digit (CHR '','')"
  "\<not> is_digit (CHR ''.'')"
  by (simp_all add: not_newline_def is_space_def is_digit_def)

lemma is_digit_not [simp]: "is_digit c \<Longrightarrow> not_newline c" "is_digit c \<Longrightarrow> \<not> is_space c"
  by (auto simp: is_digit_def not_newline_def is_space_def)

lemma first_lit_Seq_None: "take (length p) s \<noteq> p \<Longrightarrow> first_result (Seq (lit p) r) c s = None"
  by (rule first_Seq_None [OF first_lit_None])

lemma first_Alt_right: "first_result a c s = None \<Longrightarrow> first_result (Alt a b) c s = first_result b c s"
  by (simp add: first_Alt)

lemma first_Alt_left: "first_result a c s = Some x \<Longrightarrow> first_result (Alt a b) c s = Some x"
  by (simp add: first_Alt)

lemma first_segment_hash: "first_result segment_uri c (CHR ''#'' # s) = None"
  by (simp add: segment_uri_def first_result_def chr_def)

lemma fast_newline: "exec_all LEVEL_PLAYLIST_REGEX_FAST (CHR 0x0A # s) = exec_all LEVEL_PLAYLIST_REGEX_FAST s"
proof (rule exec_all_skip)
  have "first_result extinf no_captures (CHR 0x0A # s) = None"
    unfolding extinf_def seqs.simps by (rule first_lit_Seq_None) simp
  moreover have "first_result segment_uri no_captures (CHR 0x0A # s) = None"
    by (simp add: segment_uri_def first_result_def chr_def plus_def)
  moreover have "first_result byterange no_captures (CHR 0x0A # s) = None"
    unfolding byterange_def seqs.simps by (rule first_lit_Seq_None) simp
  moreover have "first_result program_date no_captures (CHR 0x0A # s) = None"
    unfolding program_date_def by (rule first_lit_Seq_None) simp
  moreover have "first_result other_tag no_captures (CHR 0x0A # s) = None"
    unfolding other_tag_def by (rule first_Seq_None) (simp add: chr_def)
  ultimately show "first_result LEVEL_PLAYLIST_REGEX_FAST no_captures (CHR 0x0A # s) = None"
    by (simp add: LEVEL_PLAYLIST_REGEX_FAST_def first_Alt)
qed simp

text \<open>A tag that the fast expression does not know is one line.\<close>

lemma fast_tag:
  assumes line: "list_all not_newline line"
    and "take 7 (line @ nl @ s) \<noteq> ''EXTINF:''" and "take 15 (line @ nl @ s) \<noteq> ''EXT-X-BYTERANGE''"
    and "take 24 (line @ nl @ s) \<noteq> ''EXT-X-PROGRAM-DATE-TIME:''"
  shows "exec_all LEVEL_PLAYLIST_REGEX_FAST (CHR ''#'' # line @ nl @ s)
    = no_captures(0 := Some (CHR ''#'' # line)) # exec_all LEVEL_PLAYLIST_REGEX_FAST s"
proof -
  let ?s = "CHR ''#'' # line @ nl @ s"
  have "first_result extinf no_captures ?s = None"
    unfolding extinf_def seqs.simps by (rule first_lit_Seq_None) (use assms(2) in \<open>simp add: numeral_eq_Suc\<close>)
  moreover have "first_result byterange no_captures ?s = None"
    unfolding byterange_def seqs.simps by (rule first_lit_Seq_None) (use assms(3) in \<open>simp add: numeral_eq_Suc\<close>)
  moreover have "first_result program_date no_captures ?s = None"
    unfolding program_date_def by (rule first_lit_Seq_None) (use assms(4) in \<open>simp add: numeral_eq_Suc\<close>)
  moreover have "first_result other_tag no_captures ?s = Some (no_captures, nl @ s)"
    unfolding other_tag_def dot_def
    by (rule first_Seq [where c' = no_captures and s' = "line @ nl @ s"], simp add: chr_def, rule first_Star)
      (use line in \<open>simp_all add: list_all_iff nl_def\<close>)
  ultimately have "first_result LEVEL_PLAYLIST_REGEX_FAST no_captures ?s = Some (no_captures, nl @ s)"
    by (simp add: LEVEL_PLAYLIST_REGEX_FAST_def first_Alt first_segment_hash)
  from exec_all_match [OF exec_here [OF this] consuming_fast] show ?thesis
    by (simp add: nl_def fast_newline)
qed

text \<open>A segment gives two tokens.\<close>

lemma first_opt_none: "first_result r c s = None \<Longrightarrow> first_result (opt r) c s = Some (c, s)"
  by (simp add: opt_def first_Alt_right)

lemma first_opt_some: "first_result r c s = Some x \<Longrightarrow> first_result (opt r) c s = Some x"
  by (simp add: opt_def first_Alt_left)

lemma duration_first:
  assumes "valid_segment g"
  shows "first_result (Seq (Star digit) (opt (Seq (chr (CHR ''.'')) (plus digit)))) c (duration_text g @ CHR '','' # s)
    = Some (c, CHR '','' # s)"
proof -
  let ?t = "(if sg_fraction g = [] then [] else CHR ''.'' # sg_fraction g) @ CHR '','' # s"
  have "first_result (Star digit) c (sg_whole g @ ?t) = Some (c, ?t)"
    unfolding digit_def by (rule first_Star) (use assms in \<open>auto simp: valid_segment_def list_all_iff\<close>)
  moreover have "first_result (opt (Seq (chr (CHR ''.'')) (plus digit))) c ?t = Some (c, CHR '','' # s)"
  proof (cases "sg_fraction g = []")
    case True
    then show ?thesis by (intro first_opt_none [THEN trans] first_Seq_None) (simp_all add: chr_def)
  next
    case False
    have "first_result (plus digit) c (sg_fraction g @ CHR '','' # s) = Some (c, CHR '','' # s)"
      unfolding digit_def by (rule first_plus) (use assms False in \<open>auto simp: valid_segment_def list_all_iff\<close>)
    then show ?thesis using False
      by (intro first_opt_some first_Seq [where c' = c and s' = "sg_fraction g @ CHR '','' # s"]) (simp_all add: chr_def)
  qed
  ultimately show ?thesis by (simp add: duration_text_def first_Seq)
qed

lemma inf_first:
  assumes "valid_segment g" and "s \<noteq> []" and "\<not> is_space (hd s)"
  shows "first_result LEVEL_PLAYLIST_REGEX_FAST no_captures (''#EXTINF:'' @ duration_text g @ '','' @ sg_title g @ nl @ s)
    = Some (no_captures(1 := Some (duration_text g), 2 := Some (sg_title g)), s)"
proof -
  let ?c1 = "no_captures(1 := Some (duration_text g))"
  let ?s1 = "CHR '','' # sg_title g @ nl @ s"
  have 1: "first_result (Group 1 (Seq (Star digit) (opt (Seq (chr (CHR ''.'')) (plus digit))))) no_captures (duration_text g @ ?s1)
      = Some (?c1, ?s1)"
    using first_Group [OF duration_first [OF assms(1), of no_captures "sg_title g @ nl @ s"], of 1] by simp
  have 2: "first_result (Group 2 (Star dot)) ?c1 (sg_title g @ nl @ s) = Some (?c1(2 := Some (sg_title g)), nl @ s)"
  proof -
    have "first_result (Star dot) ?c1 (sg_title g @ nl @ s) = Some (?c1, nl @ s)"
      unfolding dot_def by (rule first_Star) (use assms(1) in \<open>auto simp: valid_segment_def list_all_iff nl_def\<close>)
    from first_Group [OF this, of 2] show ?thesis by simp
  qed
  have 3: "first_result (plus space) c (nl @ s) = Some (c, s)" for c
    unfolding space_def by (rule first_plus) (use assms(2,3) in \<open>simp_all add: nl_def\<close>)
  have "first_result (seqs [chr (CHR '',''), Group 2 (Star dot), plus space]) ?c1 ?s1 = Some (?c1(2 := Some (sg_title g)), s)"
    unfolding seqs.simps
    by (rule first_Seq [where c' = ?c1 and s' = "sg_title g @ nl @ s"], simp add: chr_def,
        rule first_Seq [OF 2], rule first_Seq [OF 3]) simp
  then have "first_result extinf no_captures (''#EXTINF:'' @ duration_text g @ ?s1) = Some (?c1(2 := Some (sg_title g)), s)"
    unfolding extinf_def seqs.simps
    by (intro first_Seq [OF first_lit] first_Seq [OF 1] first_Seq [OF first_opt_some]) simp_all
  then show ?thesis by (simp add: LEVEL_PLAYLIST_REGEX_FAST_def first_Alt)
qed

lemma uri_first:
  assumes "valid_segment g"
  shows "first_result LEVEL_PLAYLIST_REGEX_FAST no_captures (sg_uri g @ nl @ s) = Some (no_captures(3 := Some (sg_uri g)), nl @ s)"
proof -
  obtain x xs where u: "sg_uri g = x # xs" "x \<noteq> CHR ''#''" using assms by (cases "sg_uri g") (auto simp: valid_segment_def)
  have "first_result extinf no_captures (sg_uri g @ nl @ s) = None"
    unfolding extinf_def seqs.simps by (rule first_lit_Seq_None) (use u in simp)
  moreover have "first_result segment_uri no_captures (sg_uri g @ nl @ s) = Some (no_captures(3 := Some (sg_uri g)), nl @ s)"
    unfolding segment_uri_def
  proof (rule first_Seq [where c' = no_captures and s' = "sg_uri g @ nl @ s"])
    show "first_result (NotAhead (chr (CHR ''#''))) no_captures (sg_uri g @ nl @ s) = Some (no_captures, sg_uri g @ nl @ s)"
      using u by (simp add: first_result_def chr_def)
    have "first_result (plus (One (\<lambda>c. \<not> is_space c))) no_captures (sg_uri g @ nl @ s) = Some (no_captures, nl @ s)"
      by (rule first_plus) (use assms in \<open>auto simp: valid_segment_def list_all_iff nl_def\<close>)
    from first_Group [OF this, of 3]
    show "first_result (Group 3 (plus (One (\<lambda>c. \<not> is_space c)))) no_captures (sg_uri g @ nl @ s)
        = Some (no_captures(3 := Some (sg_uri g)), nl @ s)" by simp
  qed
  ultimately show ?thesis by (simp add: LEVEL_PLAYLIST_REGEX_FAST_def first_Alt)
qed

definition inf_token :: "segment \<Rightarrow> captures" where
  "inf_token g = no_captures(1 := Some (duration_text g), 2 := Some (sg_title g),
     0 := Some (''#EXTINF:'' @ duration_text g @ '','' @ sg_title g @ nl))"

definition uri_token :: "segment \<Rightarrow> captures" where
  "uri_token g = no_captures(3 := Some (sg_uri g), 0 := Some (sg_uri g))"

lemma fast_segment:
  assumes "valid_segment g"
  shows "exec_all LEVEL_PLAYLIST_REGEX_FAST (write_segment g @ s) = inf_token g # uri_token g # exec_all LEVEL_PLAYLIST_REGEX_FAST s"
proof -
  have uri: "sg_uri g @ nl @ s \<noteq> []" "\<not> is_space (hd (sg_uri g @ nl @ s))"
    using assms by (cases "sg_uri g", auto simp: valid_segment_def)+
  let ?m = "''#EXTINF:'' @ duration_text g @ '','' @ sg_title g @ nl"
  have "exec_all LEVEL_PLAYLIST_REGEX_FAST (?m @ sg_uri g @ nl @ s)
      = inf_token g # exec_all LEVEL_PLAYLIST_REGEX_FAST (sg_uri g @ nl @ s)"
    using exec_token [of LEVEL_PLAYLIST_REGEX_FAST ?m "sg_uri g @ nl @ s"] inf_first [OF assms uri] by (simp add: inf_token_def)
  moreover have "exec_all LEVEL_PLAYLIST_REGEX_FAST (sg_uri g @ nl @ s) = uri_token g # exec_all LEVEL_PLAYLIST_REGEX_FAST (nl @ s)"
    using exec_token [of LEVEL_PLAYLIST_REGEX_FAST "sg_uri g" "nl @ s"] uri_first [OF assms] by (simp add: uri_token_def)
  ultimately show ?thesis by (simp add: write_segment_def fast_newline nl_def)
qed


subsection \<open>The tags of the head and the end\<close>

lemma results_lit: "results (lit p) c (p @ t) = [(c, t)]"
  by (induction p) (simp_all add: chr_def)

lemma first_lit_then: "first_result (Seq (lit p) q) c (p @ t) = first_result q c t"
  by (simp add: first_result_def results_lit)

lemma first_tag_None:
  assumes "take (length name) t \<noteq> name"
  shows "first_result (seqs (lit ''#EXT-X-'' # Group n (lit name) # rs)) c (''#EXT-X-'' @ t) = None"
proof -
  have "first_result (Group n (lit name)) c t = None"
    using first_lit_None [OF assms, of c] by (auto simp: first_result_def split: list.splits)
  then show ?thesis unfolding seqs.simps first_lit_then by (rule first_Seq_None)
qed

lemma first_tag:
  assumes "first_result (seqs rs) (c(n := Some name)) t = Some x"
  shows "first_result (seqs (lit ''#EXT-X-'' # Group n (lit name) # rs)) c (''#EXT-X-'' @ name @ t) = Some x"
proof -
  have "first_result (Group n (lit name)) c (name @ t) = Some (c(n := Some name), t)"
    using first_Group [OF first_lit, of n name c t] by simp
  then show ?thesis unfolding seqs.simps first_lit_then using assms by (rule first_Seq)
qed

lemma number_first:
  assumes "list_all is_digit ds" and "ds \<noteq> []"
  shows "first_result (seqs [lit '':'', spaces, Group n (plus digit)]) c ('':'' @ ds) = Some (c(n := Some ds), [])"
proof -
  have "first_result (plus digit) c (ds @ []) = Some (c, [])"
    unfolding digit_def by (rule first_plus) (use assms in \<open>auto simp: list_all_iff\<close>)
  then have g: "first_result (Group n (plus digit)) c ds = Some (c(n := Some ds), [])" using first_Group by fastforce
  have "is_digit (hd ds)" using assms by (cases ds) auto
  then have "hd ds \<noteq> CHR '' ''" by (auto simp: is_digit_def)
  then have "first_result spaces c ([] @ ds) = Some (c, ds)"
    unfolding spaces_def chr_def by (intro first_Star) simp_all
  then show ?thesis unfolding seqs.simps by (intro first_Seq [OF first_lit] first_Seq [OF _ first_Seq [OF g]]) simp_all
qed

text \<open>The slow expression on the four tags that the writer uses.\<close>

lemma slow_extm3u: "slow_tag (no_captures(0 := Some ''#EXTM3U'')) = ''EXTM3U''"
proof -
  have "first_result LEVEL_PLAYLIST_REGEX_SLOW no_captures ''#EXTM3U'' = Some (no_captures(1 := Some ''EXTM3U''), [])"
    unfolding LEVEL_PLAYLIST_REGEX_SLOW_def alts.simps by (rule first_Alt_left) (simp add: first_result_def chr_def)
  from exec_here [OF this]
  have "slow_match (no_captures(0 := Some ''#EXTM3U'')) = no_captures(1 := Some ''EXTM3U'', 0 := Some ''#EXTM3U'')"
    by (simp add: slow_match_def group_text_def)
  then show ?thesis by (simp add: slow_tag_def slow_index_def group_text_def upt_rec)
qed

lemma slow_endlist: "slow_tag (no_captures(0 := Some ''#EXT-X-ENDLIST'')) = ''ENDLIST''"
proof -
  have "first_result LEVEL_PLAYLIST_REGEX_SLOW no_captures (''#EXT-X-'' @ ''ENDLIST'') = Some (no_captures(12 := Some ''ENDLIST''), [])"
    unfolding LEVEL_PLAYLIST_REGEX_SLOW_def alts.simps tag_value_def
    apply (rule first_Alt_right [THEN trans], simp add: first_result_def chr_def)
    apply (rule first_Alt_right [THEN trans], rule first_tag_None, (simp; fail))+
    apply (rule first_Alt_left)
    using first_tag [of "[]" no_captures 12 "''ENDLIST''" "[]"] by simp
  from exec_here [OF this]
  have "slow_match (no_captures(0 := Some ''#EXT-X-ENDLIST'')) = no_captures(12 := Some ''ENDLIST'', 0 := Some ''#EXT-X-ENDLIST'')"
    by (simp add: slow_match_def group_text_def)
  then show ?thesis by (simp add: slow_tag_def slow_index_def group_text_def no_captures_def upt_rec)
qed

lemma slow_number:
  assumes "list_all is_digit ds" and "ds \<noteq> []" and "(name, n) \<in> {(''MEDIA-SEQUENCE'', 4), (''TARGETDURATION'', 6)}"
  shows "slow_match (no_captures(0 := Some (''#EXT-X-'' @ name @ '':'' @ ds)))
    = no_captures(n := Some name, n + 1 := Some ds, 0 := Some (''#EXT-X-'' @ name @ '':'' @ ds))"
proof -
  have "first_result LEVEL_PLAYLIST_REGEX_SLOW no_captures (''#EXT-X-'' @ name @ '':'' @ ds)
      = Some (no_captures(n := Some name, n + 1 := Some ds), [])"
    using assms(3)
  proof (elim insertE emptyE)
    assume e: "(name, n) = (''MEDIA-SEQUENCE'', 4)"
    show ?thesis
      unfolding LEVEL_PLAYLIST_REGEX_SLOW_def alts.simps tag_value_def
      apply (rule first_Alt_right [THEN trans], simp add: first_result_def chr_def)
      apply (rule first_Alt_right [THEN trans], rule first_tag_None, use e in simp)
      apply (rule first_Alt_left)
      using first_tag [of "[lit '':'', spaces, Group 5 (plus digit)]" no_captures 4 name "'':'' @ ds"] number_first [OF assms(1,2)] e by simp
  next
    assume e: "(name, n) = (''TARGETDURATION'', 6)"
    show ?thesis
      unfolding LEVEL_PLAYLIST_REGEX_SLOW_def alts.simps tag_value_def
      apply (rule first_Alt_right [THEN trans], simp add: first_result_def chr_def)
      apply (rule first_Alt_right [THEN trans], rule first_tag_None, (use e in \<open>simp; fail\<close>))+
      apply (rule first_Alt_left)
      using first_tag [of "[lit '':'', spaces, Group 7 (plus digit)]" no_captures 6 name "'':'' @ ds"] number_first [OF assms(1,2)] e by simp
  qed
  from exec_here [OF this] show ?thesis by (simp add: slow_match_def group_text_def)
qed

subsection \<open>Reading it back\<close>

definition line_token :: "string \<Rightarrow> captures" where
  "line_token s = no_captures(0 := Some s)"

lemma written_tokens:
  assumes "list_all is_digit target" and "list_all is_digit sequence" and "list_all valid_segment gs"
  shows "exec_all LEVEL_PLAYLIST_REGEX_FAST (write_playlist target sequence gs) =
    [line_token ''#EXTM3U'', line_token (''#EXT-X-TARGETDURATION:'' @ target), line_token (''#EXT-X-MEDIA-SEQUENCE:'' @ sequence)]
    @ concat (map (\<lambda>g. [inf_token g, uri_token g]) gs) @ [line_token ''#EXT-X-ENDLIST'']"
proof -
  have segs: "exec_all LEVEL_PLAYLIST_REGEX_FAST (concat (map write_segment gs) @ s)
      = concat (map (\<lambda>g. [inf_token g, uri_token g]) gs) @ exec_all LEVEL_PLAYLIST_REGEX_FAST s" for s
    using assms(3) by (induction gs) (simp_all add: fast_segment)
  have empty: "exec_all LEVEL_PLAYLIST_REGEX_FAST [] = []"
    by (simp add: exec_all.simps exec.simps first_result_def LEVEL_PLAYLIST_REGEX_FAST_def extinf_def segment_uri_def
        byterange_def program_date_def other_tag_def plus_def chr_def)
  have tag: "exec_all LEVEL_PLAYLIST_REGEX_FAST ((CHR ''#'' # line) @ nl @ s)
      = line_token (CHR ''#'' # line) # exec_all LEVEL_PLAYLIST_REGEX_FAST s"
    if "line \<in> {''EXTM3U'', ''EXT-X-TARGETDURATION:'' @ target, ''EXT-X-MEDIA-SEQUENCE:'' @ sequence, ''EXT-X-ENDLIST''}" for line s
  proof -
    have nn: "list_all not_newline target" "list_all not_newline sequence" using assms(1,2) by (simp_all add: list_all_iff)
    have chars: "list_all not_newline ''EXTM3U''" "list_all not_newline ''EXT-X-TARGETDURATION:''"
      "list_all not_newline ''EXT-X-MEDIA-SEQUENCE:''" "list_all not_newline ''EXT-X-ENDLIST''"
      by (simp_all add: not_newline_def)
    have "list_all not_newline line" using that nn chars by (elim insertE emptyE) (simp_all only: list_all_append)
    moreover have "take 7 (line @ nl @ s) \<noteq> ''EXTINF:'' \<and> take 15 (line @ nl @ s) \<noteq> ''EXT-X-BYTERANGE''
        \<and> take 24 (line @ nl @ s) \<noteq> ''EXT-X-PROGRAM-DATE-TIME:''"
      using that by (elim insertE emptyE) (simp_all add: numeral_eq_Suc)
    ultimately show ?thesis using fast_tag [of line s] by (simp add: line_token_def)
  qed
  show ?thesis
    unfolding write_playlist_def
    using tag [of "''EXTM3U''"] tag [of "''EXT-X-TARGETDURATION:'' @ target"] tag [of "''EXT-X-MEDIA-SEQUENCE:'' @ sequence"]
      tag [of "''EXT-X-ENDLIST''" "[]"] segs empty
    by simp
qed

lemma takeWhile_digits: "list_all is_digit xs \<Longrightarrow> ys = [] \<or> \<not> is_digit (hd ys) \<Longrightarrow>
    takeWhile is_digit (xs @ ys) = xs \<and> dropWhile is_digit (xs @ ys) = ys"
  by (induction xs) (auto, (cases ys; simp)+)

lemma digit_not_sign: "is_digit c \<Longrightarrow> c \<noteq> CHR ''-'' \<and> c \<noteq> CHR ''+''"
  by (auto simp: is_digit_def)

lemma parseFloat_duration:
  assumes "valid_segment g"
  shows "parseFloat (duration_text g) = Some (duration_value g)"
proof -
  obtain x xs where w: "sg_whole g = x # xs" using assms by (cases "sg_whole g") (auto simp: valid_segment_def)
  have ds: "list_all is_digit (sg_whole g)" "list_all is_digit (sg_fraction g)" using assms by (simp_all add: valid_segment_def)
  have x: "is_digit x" using ds(1) by (simp add: w)
  define t where "t = (if sg_fraction g = [] then [] else CHR ''.'' # sg_fraction g)"
  have tw: "takeWhile is_digit (duration_text g) = sg_whole g" "dropWhile is_digit (duration_text g) = t"
    using takeWhile_digits [OF ds(1), of t] by (simp_all add: duration_text_def t_def)
  have fw: "takeWhile is_digit (sg_fraction g) = sg_fraction g" "dropWhile is_digit (sg_fraction g) = []"
    using takeWhile_digits [OF ds(2), of "[]"] by simp_all
  have hd: "duration_text g = x # xs @ t" by (simp add: duration_text_def w t_def)
  have sp: "dropWhile is_space (duration_text g) = duration_text g" using x by (simp add: hd)
  have sg: "hd (duration_text g) \<noteq> CHR ''-''" "hd (duration_text g) \<noteq> CHR ''+''" using digit_not_sign [OF x] by (simp_all add: hd)
  show ?thesis
    unfolding parseFloat_def Let_def sp using sg w by (simp add: tw fw t_def duration_value_def)
qed

text \<open>The loop over the segments.\<close>

lemma parse_segment:
  assumes "valid_segment g"
  shows "\<exists>f. parse_token dp u lid ty (uri_token g) (parse_token dp u lid ty (inf_token g) p) =
      p\<lparr>lp_currentSN := lp_currentSN p + 1, lp_level := (lp_level p)\<lparr>ld_fragments := ld_fragments (lp_level p) @ [f]\<rparr>,
        lp_prevFrag := Some f, lp_totalduration := lp_totalduration p + duration_value g, lp_frag := new_Fragment\<rparr>
    \<and> fr_relurl f = Some (sg_uri g) \<and> fr_duration f = Some (duration_value g) \<and> fr_sn f = SN (lp_currentSN p)
    \<and> fr_title f = (if sg_title g = [] then None else Some (sg_title g)) \<and> fr_start f = Some (lp_totalduration p)"
proof -
  have d: "duration_text g \<noteq> []" "sg_uri g \<noteq> []" using assms by (auto simp: valid_segment_def duration_text_def)
  have 1: "parse_token dp u lid ty (inf_token g) q = parse_inf (inf_token g) q" for q
    using d by (simp add: parse_token_def inf_token_def filled_string_def no_captures_def)
  have 2: "parse_token dp u lid ty (uri_token g) q = parse_uri u lid ty (uri_token g) q" for q
    using d by (simp add: parse_token_def uri_token_def filled_string_def no_captures_def)
  define f where "f = (lp_frag p)\<lparr>fr_duration := Some (duration_value g), fr_title := (if sg_title g = [] then None else Some (sg_title g)),
    fr_tagList := fr_tagList (lp_frag p) @ [if sg_title g \<noteq> [] then [''INF'', duration_text g, sg_title g] else [''INF'', duration_text g]],
    fr_type := ty, fr_start := Some (lp_totalduration p), fr_levelkey := Some (lp_levelkey p),
    fr_sn := SN (lp_currentSN p), fr_level := lid, fr_cc := lp_cc p, fr_baseurl := u, fr_relurl := Some (sg_uri g)\<rparr>"
  show ?thesis
    unfolding 1 2
    by (rule exI [of _ f]) (simp add: f_def parse_inf_def parse_uri_def inf_token_def uri_token_def group_text_def as_string_def push_tag_def no_captures_def
        Let_def parseFloat_duration [OF assms])
qed

lemma parse_segments:
  assumes "list_all valid_segment gs"
  shows "let q = fold (parse_token dp u lid ty) (concat (map (\<lambda>g. [inf_token g, uri_token g]) gs)) p;
      fs = ld_fragments (lp_level q); fs0 = ld_fragments (lp_level p)
    in map fr_relurl fs = map fr_relurl fs0 @ map (\<lambda>g. Some (sg_uri g)) gs
      \<and> map fr_duration fs = map fr_duration fs0 @ map (\<lambda>g. Some (duration_value g)) gs
      \<and> map fr_title fs = map fr_title fs0 @ map (\<lambda>g. if sg_title g = [] then None else Some (sg_title g)) gs
      \<and> ld_startSN (lp_level q) = ld_startSN (lp_level p) \<and> ld_targetduration (lp_level q) = ld_targetduration (lp_level p)"
  using assms
proof (induction gs arbitrary: p)
  case (Cons g gs)
  obtain f where f: "parse_token dp u lid ty (uri_token g) (parse_token dp u lid ty (inf_token g) p) =
      p\<lparr>lp_currentSN := lp_currentSN p + 1, lp_level := (lp_level p)\<lparr>ld_fragments := ld_fragments (lp_level p) @ [f]\<rparr>,
        lp_prevFrag := Some f, lp_totalduration := lp_totalduration p + duration_value g, lp_frag := new_Fragment\<rparr>"
    "fr_relurl f = Some (sg_uri g)" "fr_duration f = Some (duration_value g)"
    "fr_title f = (if sg_title g = [] then None else Some (sg_title g))"
    using parse_segment [of g] Cons.prems by fastforce
  show ?case using Cons.IH [of "p\<lparr>lp_currentSN := lp_currentSN p + 1, lp_level := (lp_level p)\<lparr>ld_fragments := ld_fragments (lp_level p) @ [f]\<rparr>,
        lp_prevFrag := Some f, lp_totalduration := lp_totalduration p + duration_value g, lp_frag := new_Fragment\<rparr>"] Cons.prems f
    by (simp add: Let_def)
qed simp

lemma line_token_parse: "parse_token dp u lid ty (line_token s) p = parse_tag u lid ty (line_token s) p"
  by (simp add: parse_token_def line_token_def filled_string_def no_captures_def)

lemma parse_number_line:
  fixes n :: nat
  assumes "list_all is_digit ds" and "ds \<noteq> []" and "(name, n) \<in> {(''MEDIA-SEQUENCE'', 4), (''TARGETDURATION'', 6)}"
  shows "slow_tag (line_token (''#EXT-X-'' @ name @ '':'' @ ds)) = name"
    "slow_match (line_token (''#EXT-X-'' @ name @ '':'' @ ds)) (slow_index (line_token (''#EXT-X-'' @ name @ '':'' @ ds)) + 1) = Some ds"
  using assms(3) slow_number [OF assms, folded line_token_def]
  by (auto simp: slow_tag_def slow_index_def group_text_def no_captures_def upt_rec)

lemma sequence_first_written:
  assumes "list_all valid_segment gs"
  shows "sequence_first (concat (map (\<lambda>g. [inf_token g, uri_token g]) gs) @ [line_token ''#EXT-X-ENDLIST''])"
proof -
  have tags: "\<not> is_sequence (inf_token g) \<and> \<not> is_sequence (uri_token g) \<and> filled_string (inf_token g 1)
      \<and> \<not> filled_string (uri_token g 1) \<and> filled_string (uri_token g 3)" if "valid_segment g" for g
    using that by (auto simp: valid_segment_def is_sequence_def other_token_def inf_token_def uri_token_def filled_string_def
        duration_text_def no_captures_def)
  have last: "\<not> is_sequence (line_token ''#EXT-X-ENDLIST'')" using slow_endlist by (simp add: is_sequence_def line_token_def)
  have later: "list_all (\<lambda>k. \<not> is_sequence k) (concat (map (\<lambda>g. [inf_token g, uri_token g]) hs) @ [line_token ''#EXT-X-ENDLIST''])"
    if "list_all valid_segment hs" for hs
    using that tags last by (induction hs) auto
  show ?thesis
  proof (cases gs)
    case Nil
    then show ?thesis by (simp add: line_token_def no_captures_def filled_string_def)
  next
    case (Cons g hs)
    then show ?thesis using tags [of g] later [of hs] assms by simp
  qed
qed

lemma parse_written:
  assumes "list_all is_digit target" "target \<noteq> []" and "list_all is_digit sequence" "sequence \<noteq> []" and "list_all valid_segment gs"
  shows "let d = parseLevelPlaylist dp (write_playlist target sequence gs) u lid ty in
    map fr_relurl (ld_fragments d) = map (\<lambda>g. Some (sg_uri g)) gs
    \<and> map fr_duration (ld_fragments d) = map (\<lambda>g. Some (duration_value g)) gs
    \<and> map fr_title (ld_fragments d) = map (\<lambda>g. if sg_title g = [] then None else Some (sg_title g)) gs
    \<and> ld_startSN d = digits_int sequence \<and> ld_targetduration d = parseFloat target \<and> \<not> ld_live d \<and> numbered d"
proof -
  define ts where "ts = concat (map (\<lambda>g. [inf_token g, uri_token g]) gs)"
  define p0 where "p0 = start_parse u"
  define tok where "tok = parse_token dp u lid ty"
  define p1 where "p1 = p0\<lparr>lp_level := (lp_level p0)\<lparr>ld_targetduration := parseFloat target\<rparr>\<rparr>"
  define p2 where "p2 = p1\<lparr>lp_currentSN := digits_int sequence, lp_level := (lp_level p1)\<lparr>ld_startSN := digits_int sequence\<rparr>\<rparr>"
  define p3 where "p3 = fold tok ts p2"
  note toks = written_tokens [OF assms(1,3,5), folded ts_def]
  have s1: "tok (line_token ''#EXTM3U'') p0 = p0"
    using slow_extm3u [folded line_token_def] by (simp add: tok_def line_token_parse parse_tag_def Let_def)
  have s2: "tok (line_token (''#EXT-X-TARGETDURATION:'' @ target)) p0 = p1"
    using parse_number_line [OF assms(1,2), of "''TARGETDURATION''" 6]
    by (simp add: tok_def line_token_parse parse_tag_def p1_def as_string_def Let_def)
  have s3: "tok (line_token (''#EXT-X-MEDIA-SEQUENCE:'' @ sequence)) p1 = p2"
    using parse_number_line [OF assms(3,4), of "''MEDIA-SEQUENCE''" 4]
    by (simp add: tok_def line_token_parse parse_tag_def p2_def as_string_def Let_def)
  have s4: "tok (line_token ''#EXT-X-ENDLIST'') p3 = p3\<lparr>lp_level := (lp_level p3)\<lparr>ld_live := False\<rparr>\<rparr>"
    using slow_endlist [folded line_token_def] by (simp add: tok_def line_token_parse parse_tag_def Let_def)
  have fold_all: "fold tok (exec_all LEVEL_PLAYLIST_REGEX_FAST (write_playlist target sequence gs)) p0
      = p3\<lparr>lp_level := (lp_level p3)\<lparr>ld_live := False\<rparr>\<rparr>"
    unfolding toks by (simp add: s1 [simplified] s2 [simplified] s3 [simplified] s4 [simplified] p3_def [symmetric])
  define q where "q = p3\<lparr>lp_level := (lp_level p3)\<lparr>ld_live := False\<rparr>\<rparr>"
  have d: "parseLevelPlaylist dp (write_playlist target sequence gs) u lid ty = finish_level q"
    unfolding parseLevelPlaylist_def tok_def [symmetric] p0_def [symmetric] fold_all q_def ..
  have inv: "parse_inv q"
    unfolding q_def fold_all [symmetric] tok_def p0_def by (intro parse_fold_inv start_inv)
  have segs: "map fr_relurl (ld_fragments (lp_level p3)) = map (\<lambda>g. Some (sg_uri g)) gs
      \<and> map fr_duration (ld_fragments (lp_level p3)) = map (\<lambda>g. Some (duration_value g)) gs
      \<and> map fr_title (ld_fragments (lp_level p3)) = map (\<lambda>g. if sg_title g = [] then None else Some (sg_title g)) gs
      \<and> ld_startSN (lp_level p3) = digits_int sequence \<and> ld_targetduration (lp_level p3) = parseFloat target"
    using parse_segments [OF assms(5), of dp u lid ty p2]
    by (simp add: Let_def p3_def tok_def ts_def p2_def p1_def p0_def start_parse_def initial_level_def)
  have "sequence_first (exec_all LEVEL_PLAYLIST_REGEX_FAST (write_playlist target sequence gs))"
    unfolding toks ts_def using sequence_first_written [OF assms(5)]
    by (simp add: line_token_def no_captures_def filled_string_def)
  then have num: "numbered (parseLevelPlaylist dp (write_playlist target sequence gs) u lid ty)" by (rule parsed_numbered)
  have fin: "ld_targetduration (finish_level q) = ld_targetduration (lp_level q)" "ld_live (finish_level q) = ld_live (lp_level q)"
    by (simp_all add: finish_level_def Let_def split: prod.split)
  show ?thesis using num finish_keeps(1,3) [OF inv] fin segs unfolding Let_def d by (simp add: q_def)
qed

end
