(* ===== verification/Search_Laws.thy ===== *)
theory Search_Laws
  imports Playlist_Laws
begin

text \<open>Searching by a key that orders the list, and the buffer without its small holes.\<close>

subsection \<open>Binary search\<close>

text \<open>
  The contract of a comparison function for \<open>BinarySearch.search\<close>: its sign tells on which side of the element the wanted
  key lies. On a list in the order of its keys the search finds an element with the key whenever there is one.
\<close>

locale keyed_search =
  fixes key :: "'a \<Rightarrow> int" and compare :: "int \<Rightarrow> 'a \<Rightarrow> int"
  assumes compare_sign: "sgn (compare c x) = sgn (c - key x)"
begin

lemma compare_pos [simp]: "0 < compare c x \<longleftrightarrow> key x < c"
proof -
  have "0 < sgn (compare c x) \<longleftrightarrow> 0 < sgn (c - key x)" by (simp only: compare_sign)
  then show ?thesis by (simp only: sgn_greater) simp
qed

lemma compare_neg [simp]: "compare c x < 0 \<longleftrightarrow> c < key x"
proof -
  have "sgn (compare c x) < 0 \<longleftrightarrow> sgn (c - key x) < 0" by (simp only: compare_sign)
  then show ?thesis by (simp only: sgn_less) simp
qed

lemma search_loop_finds:
  assumes "sorted (map key xs)" and "0 \<le> lo" and "hi < int (length xs)"
  shows "case search_loop xs (compare c) lo hi of
      Some x \<Rightarrow> x \<in> set xs \<and> key x = c
    | None \<Rightarrow> \<forall>i. lo \<le> int i \<and> int i \<le> hi \<longrightarrow> key (xs ! i) \<noteq> c"
  using assms(2,3)
proof (induction "nat (hi + 1 - lo)" arbitrary: lo hi rule: less_induct)
  case less
  show ?case
  proof (cases "lo \<le> hi")
    case True
    define m where "m = (lo + hi) div 2"
    have m: "lo \<le> m" "m \<le> hi" "nat m < length xs" using True less.prems by (auto simp: m_def)
    have ordered: "key (xs ! i) \<le> key (xs ! j)" if "i \<le> j" "j < length xs" for i j
      using sorted_nth_mono [OF assms(1), of i j] that by simp
    have step: "search_loop xs (compare c) lo hi =
      (if key (xs ! nat m) < c then search_loop xs (compare c) (m + 1) hi
       else if c < key (xs ! nat m) then search_loop xs (compare c) lo (m - 1) else Some (xs ! nat m))"
      using True by (subst search_loop.simps) (simp add: m_def [symmetric] Let_def)
    consider "key (xs ! nat m) < c" | "c < key (xs ! nat m)" | "key (xs ! nat m) = c" by linarith
    then show ?thesis
    proof cases
      case 1
      have "key (xs ! i) \<noteq> c" if "lo \<le> int i" "int i \<le> m" for i
        using ordered [of i "nat m"] that m 1 by (auto simp: nat_le_iff le_nat_iff)
      moreover have "case search_loop xs (compare c) (m + 1) hi of Some x \<Rightarrow> x \<in> set xs \<and> key x = c
          | None \<Rightarrow> \<forall>i. m + 1 \<le> int i \<and> int i \<le> hi \<longrightarrow> key (xs ! i) \<noteq> c"
        using m less.prems by (intro less.hyps) auto
      ultimately show ?thesis using 1 step by (auto split: option.splits) (metis not_less zless_imp_add1_zle)
    next
      case 2
      have "key (xs ! i) \<noteq> c" if "m \<le> int i" "int i \<le> hi" for i
        using ordered [of "nat m" i] that m 2 less.prems by (auto simp: nat_le_iff)
      moreover have "case search_loop xs (compare c) lo (m - 1) of Some x \<Rightarrow> x \<in> set xs \<and> key x = c
          | None \<Rightarrow> \<forall>i. lo \<le> int i \<and> int i \<le> m - 1 \<longrightarrow> key (xs ! i) \<noteq> c"
        using m less.prems by (intro less.hyps) auto
      ultimately show ?thesis using 2 step by (auto split: option.splits) (metis not_less zle_diff1_eq)
    next
      case 3
      then show ?thesis using step m(3) by simp
    qed
  next
    case False
    then show ?thesis by (subst search_loop.simps) auto
  qed
qed

lemma search_finds:
  assumes "sorted (map key xs)"
  shows "case search xs (compare c) of Some x \<Rightarrow> x \<in> set xs \<and> key x = c | None \<Rightarrow> c \<notin> key ` set xs"
proof -
  have "case search xs (compare c) of Some x \<Rightarrow> x \<in> set xs \<and> key x = c
    | None \<Rightarrow> \<forall>i. 0 \<le> int i \<and> int i \<le> int (length xs) - 1 \<longrightarrow> key (xs ! i) \<noteq> c"
    unfolding search_def by (rule search_loop_finds [OF assms]) simp_all
  then show ?thesis by (auto simp: in_set_conv_nth split: option.splits)
qed

end

interpretation cc_search: keyed_search fr_cc
  "\<lambda>CC candidate. if fr_cc candidate < CC then 1 else if fr_cc candidate > CC then - 1 else 0"
  by unfold_locales auto

subsection \<open>Small holes\<close>

definition proper :: "time_range \<Rightarrow> bool" where
  "proper r \<longleftrightarrow> rg_start r \<le> rg_end r"

text \<open>A time that is buffered, or that lies in a hole below the limit.\<close>

definition filled :: "rat \<Rightarrow> time_range list \<Rightarrow> rat \<Rightarrow> bool" where
  "filled hole rs x \<longleftrightarrow> (\<exists>r \<in> set rs. rg_start r \<le> x \<and> x \<le> rg_end r)
     \<or> (\<exists>r \<in> set rs. \<exists>r' \<in> set rs. rg_end r < x \<and> x < rg_start r' \<and> rg_start r' - rg_end r < hole)"

definition apart :: "rat \<Rightarrow> time_range list \<Rightarrow> bool" where
  "apart hole rs \<longleftrightarrow> sorted_wrt (\<lambda>a b. hole \<le> rg_start b - rg_end a) rs"

lemma range_sort: "sorted_wrt (\<lambda>a b. rg_start a \<le> rg_start b) (js_sort range_le rs)"
proof -
  have "sorted_wrt range_le (js_sort range_le rs)"
    by (rule sorted_js_sort) (auto simp: range_le_def Let_def split: if_splits)
  then show ?thesis by (rule sorted_wrt_mono_rel [rotated]) (auto simp: range_le_def Let_def split: if_splits)
qed

text \<open>The invariant of the merge: what was read so far is covered by ranges that are apart.\<close>

definition covers :: "rat \<Rightarrow> time_range list \<Rightarrow> time_range list \<Rightarrow> bool" where
  "covers hole rs ms \<longleftrightarrow> apart hole ms \<and> (\<forall>m \<in> set ms. proper m)
     \<and> (\<forall>r \<in> set rs. \<exists>m \<in> set ms. rg_start m \<le> rg_start r \<and> rg_end r \<le> rg_end m)
     \<and> (\<forall>m \<in> set ms. \<forall>x. rg_start m \<le> x \<and> x \<le> rg_end m \<longrightarrow> filled hole rs x)
     \<and> (\<forall>m \<in> set ms. \<exists>r \<in> set rs. rg_end m = rg_end r)
     \<and> (\<forall>m \<in> set ms. \<exists>r \<in> set rs. rg_start m = rg_start r)"

lemma filled_mono: "filled hole rs x \<Longrightarrow> set rs \<subseteq> set rs' \<Longrightarrow> filled hole rs' x"
  unfolding filled_def by blast

lemma covers_merge:
  assumes c: "covers hole ds (ms @ [l])" and r: "proper r" and "\<forall>d \<in> set ds. rg_start d \<le> rg_start r"
    and near: "rg_start r - rg_end l < hole"
  shows "covers hole (ds @ [r]) (ms @ [if rg_end r > rg_end l then l\<lparr>rg_end := rg_end r\<rparr> else l])"
proof -
  let ?l = "if rg_end r > rg_end l then l\<lparr>rg_end := rg_end r\<rparr> else l"
  obtain d where d: "d \<in> set ds" "rg_end l = rg_end d" using c by (auto simp: covers_def)
  obtain d' where d': "d' \<in> set ds" "rg_start l = rg_start d'" using c by (auto simp: covers_def)
  have ls: "rg_start ?l = rg_start l" "rg_end ?l = max (rg_end l) (rg_end r)" by auto
  have "filled hole (ds @ [r]) x" if x: "rg_start l \<le> x" "x \<le> rg_end ?l" for x
  proof (cases "x \<le> rg_end l")
    case True
    then show ?thesis using c x(1) by (auto simp: covers_def intro: filled_mono [of _ ds])
  next
    case False
    then have "x \<le> rg_end r" using x(2) ls(2) by auto
    then show ?thesis using False near d by (cases "rg_start r \<le> x") (auto simp: filled_def not_le)
  qed
  moreover have "\<forall>m \<in> set ms. \<forall>x. rg_start m \<le> x \<and> x \<le> rg_end m \<longrightarrow> filled hole (ds @ [r]) x"
    using c by (auto simp: covers_def intro: filled_mono [of _ ds])
  moreover have "apart hole (ms @ [?l])" "\<forall>m \<in> set (ms @ [?l]). proper m"
    using c by (auto simp: covers_def apart_def sorted_wrt_append proper_def)
  moreover have "\<exists>m \<in> set (ms @ [?l]). rg_start m \<le> rg_start q \<and> rg_end q \<le> rg_end m" if "q \<in> set (ds @ [r])" for q
  proof (cases "q = r")
    case True
    then show ?thesis using assms(3) d' ls by (intro bexI [of _ ?l]) auto
  next
    case False
    then have "q \<in> set ds" using that by simp
    then obtain m where m: "m \<in> set (ms @ [l])" "rg_start m \<le> rg_start q" "rg_end q \<le> rg_end m"
      using c unfolding covers_def by blast
    show ?thesis
    proof (cases "m \<in> set ms")
      case False
      then have "rg_start ?l \<le> rg_start q" "rg_end q \<le> rg_end ?l" using m ls by auto
      then show ?thesis by (metis in_set_conv_decomp)
    qed (use m in auto)
  qed
  moreover have "\<forall>m \<in> set (ms @ [?l]). \<exists>q \<in> set (ds @ [r]). rg_end m = rg_end q"
    using c by (auto simp: covers_def)
  moreover have "\<forall>m \<in> set (ms @ [?l]). \<exists>q \<in> set (ds @ [r]). rg_start m = rg_start q"
    using c by (auto simp: covers_def)
  ultimately show ?thesis unfolding covers_def using ls by auto
qed

lemma covers_push:
  assumes c: "covers hole ds (ms @ [l])" and r: "proper r" and far: "hole \<le> rg_start r - rg_end l" and "0 \<le> hole"
  shows "covers hole (ds @ [r]) (ms @ [l, r])"
proof -
  have "hole \<le> rg_start r - rg_end m" if "m \<in> set ms" for m
  proof -
    have "hole \<le> rg_start l - rg_end m" "rg_start l \<le> rg_end l"
      using c that by (auto simp: covers_def apart_def sorted_wrt_append proper_def)
    then show ?thesis using far assms(4) by simp
  qed
  then have "apart hole (ms @ [l, r])" using c far by (auto simp: covers_def apart_def sorted_wrt_append)
  moreover have "\<forall>x. rg_start r \<le> x \<and> x \<le> rg_end r \<longrightarrow> filled hole (ds @ [r]) x" by (auto simp: filled_def)
  ultimately show ?thesis
    using c r unfolding covers_def by (auto intro: filled_mono [of _ ds])
qed

lemma merge_ranges_covers:
  assumes "covers hole ds (rev acc)" and "acc \<noteq> []" and "0 \<le> hole" and "\<forall>r \<in> set rs. proper r"
    and "sorted_wrt (\<lambda>a b. rg_start a \<le> rg_start b) (ds @ rs)"
  shows "covers hole (ds @ rs) (merge_ranges hole acc rs)"
  using assms
proof (induction rs arbitrary: acc ds)
  case (Cons r rs)
  obtain l ms where acc: "acc = l # ms" using Cons.prems(2) by (cases acc) auto
  have c: "covers hole ds (rev ms @ [l])" using Cons.prems(1) by (simp add: acc)
  have r: "proper r" "\<forall>d \<in> set ds. rg_start d \<le> rg_start r" using Cons.prems(4,5) by (auto simp: sorted_wrt_append)
  have srt: "sorted_wrt (\<lambda>a b. rg_start a \<le> rg_start b) ((ds @ [r]) @ rs)" using Cons.prems(5) by simp
  show ?case
  proof (cases "rg_start r - rg_end l < hole")
    case True
    then show ?thesis
      using Cons.IH [of "ds @ [r]" "(if rg_end r > rg_end l then l\<lparr>rg_end := rg_end r\<rparr> else l) # ms"]
        covers_merge [OF c r True] Cons.prems(3,4) srt by (simp add: acc)
  next
    case False
    then have "covers hole (ds @ [r]) (rev ms @ [l, r])" using covers_push [OF c r(1)] Cons.prems(3) by simp
    then show ?thesis
      using Cons.IH [of "ds @ [r]" "r # l # ms"] False Cons.prems(3,4) srt by (simp add: acc)
  qed
qed simp

lemma merged_covers:
  assumes "0 \<le> hole" and "\<forall>r \<in> set rs. proper r"
  shows "covers hole (js_sort range_le rs) (merge_ranges hole [] (js_sort range_le rs))"
proof (cases "js_sort range_le rs")
  case Nil
  then show ?thesis by (simp add: covers_def apart_def)
next
  case (Cons r qs)
  have "proper r" "\<forall>q \<in> set qs. proper q" using assms(2) set_js_sort [of range_le rs] by (auto simp: Cons)
  moreover have "covers hole [r] (rev [r])" using \<open>proper r\<close> by (auto simp: covers_def apart_def filled_def)
  ultimately show ?thesis
    using merge_ranges_covers [of hole "[r]" "[r]" qs] assms(1) range_sort [of rs] by (simp add: Cons)
qed

lemma find_range_before:
  assumes "\<forall>r \<in> set ms. rg_end r \<le> pos"
  shows "find_range pos hole (ms @ rs) b = find_range pos hole rs b \<or> (\<exists>r \<in> set ms. pos + hole < rg_start r)"
  using assms by (induction ms) auto

lemma find_range_at:
  assumes "apart hole (ms @ r # rs)" and "\<forall>m \<in> set (ms @ r # rs). proper m" and "0 \<le> hole" and "rg_start r \<le> pos" and "pos < rg_end r"
  shows "find_range pos hole (ms @ r # rs) b
    = b\<lparr>bi_start := rg_start r, bi_end := rg_end r, bi_len := rg_end r - pos,
        bi_nextStart := (case rs of [] \<Rightarrow> bi_nextStart b | q # _ \<Rightarrow> Some (rg_start q))\<rparr>"
proof -
  have before: "rg_end m \<le> pos \<and> rg_start m \<le> pos" if "m \<in> set ms" for m
  proof -
    have "hole \<le> rg_start r - rg_end m" "rg_start m \<le> rg_end m"
      using assms(1,2) that by (auto simp: apart_def sorted_wrt_append proper_def)
    then show ?thesis using assms(3,4) by simp
  qed
  then have "find_range pos hole (ms @ r # rs) b = find_range pos hole (r # rs) b"
    using find_range_before [of ms pos hole "r # rs" b] assms(3) by fastforce
  also have "\<dots> = find_range pos hole rs (b\<lparr>bi_start := rg_start r, bi_end := rg_end r, bi_len := rg_end r - pos\<rparr>)"
    using assms(3-5) by simp
  also have "\<dots> = b\<lparr>bi_start := rg_start r, bi_end := rg_end r, bi_len := rg_end r - pos,
        bi_nextStart := (case rs of [] \<Rightarrow> bi_nextStart b | q # _ \<Rightarrow> Some (rg_start q))\<rparr>"
  proof (cases rs)
    case (Cons q qs)
    then have "pos + hole < rg_start q" using assms(1,5) by (auto simp: apart_def sorted_wrt_append)
    then show ?thesis by (simp add: Cons)
  qed simp
  finally show ?thesis .
qed

text \<open>Where the play position is buffered, the result is the range around it up to the next real hole.\<close>

lemma bufferedInfo_at:
  assumes "0 \<le> hole" and "\<forall>r \<in> set rs. proper r" and r: "r \<in> set rs" "rg_start r \<le> pos" "pos < rg_end r"
  shows "let b = bufferedInfo rs pos hole in
    bi_start b \<le> rg_start r \<and> rg_end r \<le> bi_end b \<and> bi_len b = bi_end b - pos
    \<and> (\<forall>x. bi_start b \<le> x \<and> x \<le> bi_end b \<longrightarrow> filled hole rs x)
    \<and> (\<forall>n. bi_nextStart b = Some n \<longrightarrow> hole \<le> n - bi_end b)
    \<and> (\<forall>q \<in> set rs. rg_start q \<le> bi_end b \<or> (\<exists>n. bi_nextStart b = Some n \<and> n \<le> rg_start q))"
proof -
  define ms where "ms = merge_ranges hole [] (js_sort range_le rs)"
  have c: "covers hole (js_sort range_le rs) ms" unfolding ms_def by (rule merged_covers [OF assms(1,2)])
  then obtain m where m: "m \<in> set ms" "rg_start m \<le> rg_start r" "rg_end r \<le> rg_end m" using r(1) by (auto simp: covers_def)
  obtain xs ys where ms: "ms = xs @ m # ys" using m(1) by (metis in_set_conv_decomp)
  have b: "bufferedInfo rs pos hole = \<lparr>bi_len = rg_end m - pos, bi_start = rg_start m, bi_end = rg_end m,
      bi_nextStart = (case ys of [] \<Rightarrow> None | q # _ \<Rightarrow> Some (rg_start q))\<rparr>"
    unfolding bufferedInfo_def ms_def [symmetric] ms
    using find_range_at [of hole xs m ys pos] c m r assms(1) by (simp add: ms covers_def split: list.split)
  have "filled hole rs x" if "rg_start m \<le> x" "x \<le> rg_end m" for x
  proof -
    have "filled hole (js_sort range_le rs) x" using c m(1) that by (auto simp: covers_def)
    then show ?thesis by (rule filled_mono) simp
  qed
  moreover have "hole \<le> n - rg_end m" if "(case ys of [] \<Rightarrow> None | q # _ \<Rightarrow> Some (rg_start q)) = Some n" for n
    using that c by (auto simp: covers_def ms apart_def sorted_wrt_append split: list.splits)
  moreover have "rg_start q \<le> rg_end m \<or> (\<exists>n. (case ys of [] \<Rightarrow> None | q # _ \<Rightarrow> Some (rg_start q)) = Some n \<and> n \<le> rg_start q)"
    if q: "q \<in> set rs" for q
  proof -
    obtain k where k: "k \<in> set ms" "rg_start k \<le> rg_start q" "rg_end q \<le> rg_end k" using c q by (auto simp: covers_def)
    have pq: "rg_start q \<le> rg_end q" using assms(2) q by (auto simp: proper_def)
    from k(1) consider "k \<in> set xs" | "k = m" | "k \<in> set ys" by (auto simp: ms)
    then show ?thesis
    proof cases
      case 1
      then have "rg_end k \<le> rg_start m" using c assms(1) by (auto simp: covers_def ms apart_def sorted_wrt_append)
      moreover have "rg_start m \<le> rg_end m" using c m(1) by (auto simp: covers_def proper_def)
      ultimately show ?thesis using k(3) pq by simp
    next
      case 2
      then show ?thesis using k(3) pq by simp
    next
      case 3
      then obtain y zs where ys: "ys = y # zs" by (cases ys) auto
      have "rg_start y \<le> rg_start k"
      proof (cases "k = y")
        case False
        then have "hole \<le> rg_start k - rg_end y" "rg_start y \<le> rg_end y"
          using 3 c by (auto simp: covers_def ms apart_def sorted_wrt_append ys proper_def)
        then show ?thesis using assms(1) by simp
      qed simp
      then show ?thesis using k(2) by (auto simp: ys)
    qed
  qed
  ultimately show ?thesis unfolding b Let_def using m by auto
qed

end
