(* ===== verification/Playlist_Props.thy ===== *)
theory Playlist_Props
  imports Playlist_Roundtrip Search_Laws
begin

text \<open>
  Properties of playlists: the parser on any text and on playlists in the usual form, refreshed playlists, measured
  fragments, the search for a discontinuity, and the buffer around the play position.
\<close>

text \<open>
  C17. The time line of any playlist: whatever text is parsed as a level playlist, the first fragment starts at 0, every other one
  where the fragment before it ends, every fragment has a duration and a URI, and the total duration is where the last one ends.
\<close>

theorem parsed_playlist_timeline:
  "let d = parseLevelPlaylist dateParse s baseurl level ty in
    list_all fresh (ld_fragments d) \<and> (\<exists>T. ld_totalduration d = Some T \<and> chained 0 (ld_fragments d) T)"
  by (rule parsed_timeline)

text \<open>
  C16. Playlists round-trip: from the text of a presentation with any number of segments, the parser reads back the URIs, the
  durations with their fractions and the titles in order, the target duration and the media sequence, numbers the fragments from there
  and marks the end of the presentation.
\<close>

theorem playlist_roundtrip:
  assumes "list_all is_digit target" "target \<noteq> []" and "list_all is_digit sequence" "sequence \<noteq> []" and "list_all valid_segment gs"
  shows "let d = parseLevelPlaylist dateParse (write_playlist target sequence gs) baseurl level ty in
    map fr_relurl (ld_fragments d) = map (\<lambda>g. Some (sg_uri g)) gs
    \<and> map fr_duration (ld_fragments d) = map (\<lambda>g. Some (duration_value g)) gs
    \<and> map fr_title (ld_fragments d) = map (\<lambda>g. if sg_title g = [] then None else Some (sg_title g)) gs
    \<and> ld_startSN d = digits_int sequence \<and> ld_targetduration d = parseFloat target \<and> \<not> ld_live d \<and> numbered d"
  by (rule parse_written [OF assms])

definition example_segments :: "segment list" where
  "example_segments = [\<lparr>sg_whole = ''9'', sg_fraction = ''5'', sg_title = '''', sg_uri = ''a.ts''\<rparr>,
     \<lparr>sg_whole = ''10'', sg_fraction = '''', sg_title = ''end'', sg_uri = ''b.ts''\<rparr>]"

lemma example_segments_valid: "list_all valid_segment example_segments"
  by (simp add: example_segments_def valid_segment_def is_digit_def not_newline_def is_space_def)

lemma playlist_roundtrip_witness:
  "let d = parseLevelPlaylist (\<lambda>_. None) (write_playlist ''10'' ''7'' example_segments) '''' 0 ''main'' in
    map fr_relurl (ld_fragments d) = [Some ''a.ts'', Some ''b.ts''] \<and> map fr_duration (ld_fragments d) = [Some (19 / 2), Some 10]
    \<and> map fr_title (ld_fragments d) = [None, Some ''end''] \<and> ld_startSN d = 7 \<and> \<not> ld_live d"
  using playlist_roundtrip [OF _ _ _ _ example_segments_valid, of "''10''" "''7''" "\<lambda>_. None" "''''" 0 "''main''"]
  by (simp add: Let_def example_segments_def duration_value_def digit_value_def is_digit_def digits_int_def parseInt_def is_space_def)

text \<open>
  C18. A refreshed playlist keeps what was measured: when the text of the new playlist has its media sequence before its
  segments and shares a measured fragment with the old playlist, merging the old details makes the whole new time line consistent (every
  fragment ends where the next one starts, up to fragments that would start before 0), and the measured start stays.
\<close>

theorem refreshed_playlist:
  assumes "\<forall>f \<in> set (ld_fragments old). measured f" and "numbered old" and "sequence_first (exec_all LEVEL_PLAYLIST_REGEX_FAST s)"
    and d: "d = parseLevelPlaylist dateParse s baseurl level ty" and "i < length (ld_fragments d)"
    and "elem (ld_fragments old) (ld_startSN d - ld_startSN old + int i) = Some g" and "fr_startPTS g \<noteq> None"
  shows "\<exists>m k. mergeDetails old d = Inr m \<and> timeline k (ld_fragments m) \<and> length (ld_fragments m) = length (ld_fragments d)
    \<and> ld_PTSKnown m = ld_PTSKnown old \<and> fr_startPTS (ld_fragments m ! i) = fr_startPTS g"
  using mergeDetails_timeline [of old d i g] assms parsed_measured [of dateParse s baseurl level ty]
    parsed_numbered [OF assms(3), of dateParse baseurl level ty] by simp

definition example_frag :: frag where
  "example_frag = new_Fragment\<lparr>fr_sn := SN 8, fr_start := Some 20, fr_duration := Some 12, fr_startPTS := Some 20, fr_endPTS := Some 32\<rparr>"

definition example_level :: level_details where
  "example_level = (initial_level '''')\<lparr>ld_fragments := [example_frag], ld_startSN := 8, ld_endSN := 8\<rparr>"

lemma refreshed_playlist_witness:
  "\<exists>m k. mergeDetails example_level (parseLevelPlaylist (\<lambda>_. None) (write_playlist ''10'' ''7'' example_segments) '''' 0 ''main'') = Inr m
    \<and> timeline k (ld_fragments m) \<and> fr_startPTS (ld_fragments m ! 1) = Some 20"
proof -
  define d where "d = parseLevelPlaylist (\<lambda>_. None) (write_playlist ''10'' ''7'' example_segments) '''' 0 ''main''"
  have ds: "list_all is_digit ''10''" "list_all is_digit ''7''" by (simp_all add: is_digit_def)
  have "ld_startSN d = digits_int ''7''" and two: "length (ld_fragments d) = 2"
    using parse_written [OF ds(1) _ ds(2) _ example_segments_valid, of "\<lambda>_. None" "''''" 0 "''main''"]
    by (auto simp: Let_def d_def example_segments_def dest: arg_cong [where f = length])
  then have sn: "ld_startSN d = 7" by (simp add: digits_int_def parseInt_def is_space_def digit_value_def)
  have seq: "sequence_first (exec_all LEVEL_PLAYLIST_REGEX_FAST (write_playlist ''10'' ''7'' example_segments))"
    unfolding written_tokens [OF ds example_segments_valid] using sequence_first_written [OF example_segments_valid]
    by (simp add: line_token_def no_captures_def filled_string_def)
  show ?thesis
    using refreshed_playlist [OF _ _ seq d_def, of example_level 1 example_frag] two sn unfolding d_def
    by (auto simp: example_level_def example_frag_def numbered_def initial_level_def measured_def frag_ok_def elem_def)
qed

text \<open>
  Measuring a fragment: in a playlist whose fragments have times, the measured start of a fragment (or the one measured before, when
  that is smaller) goes into the details, and after the loops down and up every fragment ends where the next one starts, up to
  fragments before it that would start before 0.
\<close>

lemma updateFragPTSDTS_timeline:
  assumes "\<forall>f \<in> set (ld_fragments d). frag_ok f" and "numbered d" and "k < length (ld_fragments d)"
    and "fr_sn frag = SN (ld_startSN d + int k)" and "fr_startPTS frag \<noteq> None \<Longrightarrow> fr_endPTS frag \<noteq> None"
  shows "\<exists>drift fs. updateFragPTSDTS (Some d) frag (Some a) (Some b) c e
      = Inr (drift, fs ! k, Some (d\<lparr>ld_fragments := fs, ld_PTSKnown := Some True\<rparr>))
    \<and> timeline k fs \<and> length fs = length (ld_fragments d)
    \<and> fr_startPTS (fs ! k) = Some (case fr_startPTS frag of None \<Rightarrow> a | Some p \<Rightarrow> min a p)"
proof -
  have "ld_endSN d = ld_startSN d + int (length (ld_fragments d)) - 1" using assms(2) by (simp add: numbered_def)
  from updateFragPTSDTS_in [OF assms(1,4,3) this assms(5), of a b c e] obtain drift fs where
    "updateFragPTSDTS (Some d) frag (Some a) (Some b) c e
      = Inr (drift, fs ! k, Some (d\<lparr>ld_fragments := fs, ld_PTSKnown := Some True\<rparr>))" "timeline k fs" "length fs = length (ld_fragments d)"
    "fr_startPTS (fs ! k) = fr_startPTS ((ld_fragments d)[k := set_times frag (Some a) (Some b) c e] ! k)"
    by blast
  then show ?thesis using assms(3) set_times_ok(3) [OF assms(5), of a b c e] by (intro exI [of _ drift] exI [of _ fs]) simp
qed

lemma updateFragPTSDTS_timeline_witness:
  "\<exists>drift fs. updateFragPTSDTS (Some example_level) example_frag (Some 19) (Some 33) None None
      = Inr (drift, fs ! 0, Some (example_level\<lparr>ld_fragments := fs, ld_PTSKnown := Some True\<rparr>))
    \<and> timeline 0 fs \<and> length fs = 1 \<and> fr_startPTS (fs ! 0) = Some 19"
  using updateFragPTSDTS_timeline [of example_level 0 example_frag 19 33 None None]
  by (simp add: example_level_def example_frag_def numbered_def initial_level_def frag_ok_def)

text \<open>
  Binary search: among fragments in the order of their discontinuity counters, the search finds a fragment with a counter
  whenever the scan from the start finds one, and only then.
\<close>

lemma findFragWithCC_finds:
  assumes "sorted (map fr_cc fragments)"
  shows "(findFragWithCC fragments cc = None \<longleftrightarrow> findFirstFragWithCC fragments cc = None)
    \<and> (case findFragWithCC fragments cc of None \<Rightarrow> True | Some f \<Rightarrow> f \<in> set fragments \<and> fr_cc f = cc)"
  using cc_search.search_finds [OF assms, of cc]
  by (auto simp: findFragWithCC_def findFirstFragWithCC_def find_None_iff split: option.splits)

lemma findFragWithCC_finds_witness:
  "(findFragWithCC [example_frag, example_frag\<lparr>fr_cc := 3\<rparr>] 3 = None
      \<longleftrightarrow> findFirstFragWithCC [example_frag, example_frag\<lparr>fr_cc := 3\<rparr>] 3 = None)"
  using findFragWithCC_finds [of "[example_frag, example_frag\<lparr>fr_cc := 3\<rparr>]" 3] by (simp add: example_frag_def new_Fragment_def)

text \<open>
  The buffer around the play position: when a buffered range holds the position, the result reaches from there to the
  end of the buffer without its small holes. Nothing up to its end is missing but holes below the limit, the next start
  it names is at least a hole away, and no buffered range begins in between.
\<close>

lemma bufferedInfo_holes:
  assumes "0 \<le> hole" and "\<forall>r \<in> set ranges. proper r" and "r \<in> set ranges" "rg_start r \<le> pos" "pos < rg_end r"
  shows "let b = bufferedInfo ranges pos hole in
    bi_start b \<le> rg_start r \<and> rg_end r \<le> bi_end b \<and> bi_len b = bi_end b - pos
    \<and> (\<forall>x. bi_start b \<le> x \<and> x \<le> bi_end b \<longrightarrow> filled hole ranges x)
    \<and> (\<forall>n. bi_nextStart b = Some n \<longrightarrow> hole \<le> n - bi_end b)
    \<and> (\<forall>q \<in> set ranges. rg_start q \<le> bi_end b \<or> (\<exists>n. bi_nextStart b = Some n \<and> n \<le> rg_start q))"
  by (rule bufferedInfo_at [OF assms])

lemma bufferedInfo_holes_witness:
  "let b = bufferedInfo [\<lparr>rg_start = 10, rg_end = 20\<rparr>, \<lparr>rg_start = 0, rg_end = 9\<rparr>] 5 2
   in bi_start b \<le> 0 \<and> 9 \<le> bi_end b \<and> bi_len b = bi_end b - 5"
  using bufferedInfo_holes [of 2 "[\<lparr>rg_start = 10, rg_end = 20\<rparr>, \<lparr>rg_start = 0, rg_end = 9\<rparr>]" "\<lparr>rg_start = 0, rg_end = 9\<rparr>" 5]
  by (simp add: proper_def Let_def)

end
