(* ===== verification/Ts_Stream.thy ===== *)
theory Ts_Stream
  imports Ts_Tables Ts_Fragments
begin

text \<open>
  A fragment that opens with its program tables: the packets of the association and the map, and that the demuxer which
  knows no packet ids yet finds the audio by them.
\<close>

subsection \<open>Tables in a fragment\<close>

definition pat_section :: "int \<Rightarrow> bytes \<Rightarrow> bytes" where
  "pat_section pmtId crc =
     [0, 0xB0, 0x0D, 0, 1, 0xC1, 0, 0, 0, 1, u8of (0xE0 + pmtId div 256), u8of (pmtId mod 256)] @ crc"

lemma parsePAT_section:
  assumes "0 \<le> pmtId" and "pmtId < 8192"
  shows "parsePAT (pre @ pat_section pmtId crc @ post) (Some (length pre)) = pmtId"
proof -
  let ?data = "pre @ pat_section pmtId crc @ post"
  have b: "byte ?data (length pre + k) = byte (pat_section pmtId crc) k" if "k < 12" for k
    using that by (intro byte_at) (simp add: pat_section_def)
  define h where "h = 0xE0 + pmtId div 256"
  have r: "0 \<le> h" "h < 256" "0 \<le> pmtId mod 256" "pmtId mod 256 < 256" using assms unfolding h_def by linarith+
  have bs: "byte ?data (length pre + 10) = h" "byte ?data (length pre + 11) = pmtId mod 256"
    using b [of 10] b [of 11] r by (simp_all add: pat_section_def byte_def uint_u8of flip: h_def)
  have "(0xE0 + x) mod 32 = x" if "0 \<le> x" "x < 32" for x :: int using that by presburger
  then have "h mod 32 = pmtId div 256" using assms by (simp add: h_def)
  then show ?thesis
    unfolding parsePAT_def option.case bs field12(2) [OF r] by simp
qed



text \<open>A packet that carries a table: a pointer field of 0, the section and stuffing.\<close>

definition table_chunk :: "bytes \<Rightarrow> bytes" where
  "table_chunk section = 0 # section @ replicate (183 - length section) 0xFF"

definition table_pkt :: "int \<Rightarrow> bytes \<Rightarrow> bytes" where
  "table_pkt pid section = ts_pkt pid (True, table_chunk section)"

lemma length_table_chunk: "length section \<le> 183 \<Longrightarrow> length (table_chunk section) = 184"
  by (simp add: table_chunk_def)

lemma length_table_pkt: "length section \<le> 183 \<Longrightarrow> length (table_pkt pid section) = 188"
  by (simp add: table_pkt_def length_ts_pkt length_table_chunk)

lemma table_pkt_eq:
  "length section \<le> 183 \<Longrightarrow>
   \<exists>h. length h = 4 \<and> table_pkt pid section = h @ [0] @ section @ replicate (183 - length section) 0xFF"
  by (intro exI [of _ "take 4 (table_pkt pid section)"])
    (simp add: table_pkt_def ts_pkt_def Let_def table_chunk_def eval_nat_numeral)

text \<open>The loop on such a packet.\<close>

lemma ts_packet_table:
  assumes "0 \<le> pid" and "pid < 8192" and len: "length section \<le> 183" and data: "data = pre @ table_pkt pid section @ post"
    and "pid \<noteq> tl_avcId st" and "pid \<noteq> tl_audioId st" and "pid \<noteq> tl_id3Id st"
  obtains h post' where "data = h @ section @ post'"
    and "pid = 0 \<Longrightarrow> ts_packet env data (length pre) st
      = (let pmtId = parsePAT data (Some (length h)) in Inr (st\<lparr>tl_pmtId := pmtId, tl_dem := (tl_dem st)\<lparr>ts_pmtId := pmtId\<rparr>\<rparr>, False))"
    and "pid \<noteq> 0 \<Longrightarrow> tl_pmtId st = pid \<Longrightarrow>
      ts_packet env data (length pre) st = Inr (ts_pmt env data (Some (length h)) st)"
proof -
  have l: "length (table_chunk section) = 184" using len by (rule length_table_chunk)
  then have "length (table_chunk section) \<le> 184" by simp
  note f = pkt_fields [OF assms(1,2) this data [unfolded table_pkt_def]]
  obtain h where h: "length h = 4" "table_pkt pid section = h @ [0] @ section @ replicate (183 - length section) 0xFF"
    using table_pkt_eq [OF len] by blast
  have d: "data = (pre @ h @ [0]) @ section @ (replicate (183 - length section) 0xFF @ post)" by (simp add: data h(2))
  have "at_index data (length pre + 4) = Some 0"
    by (simp add: d at_index_def nth_append h(1))
  then have off: "psi_offset data True (length pre + 4) = Some (length (pre @ h @ [0]))" by (simp add: psi_offset_def h(1))
  have pkt: "ts_packet env data (length pre) st = ts_payload env data (length pre) pid (length pre + 4) True st"
    unfolding ts_packet_def f(1,3,4) Let_def using l f(2) by simp
  show thesis
  proof (rule that [OF d])
    show "pid = 0 \<Longrightarrow> ts_packet env data (length pre) st
      = (let pmtId = parsePAT data (Some (length (pre @ h @ [0]))) in
         Inr (st\<lparr>tl_pmtId := pmtId, tl_dem := (tl_dem st)\<lparr>ts_pmtId := pmtId\<rparr>\<rparr>, False))"
      using assms(5-7) off by (simp add: pkt ts_payload_def Let_def)
    show "pid \<noteq> 0 \<Longrightarrow> tl_pmtId st = pid \<Longrightarrow> ts_packet env data (length pre) st = Inr (ts_pmt env data (Some (length (pre @ h @ [0]))) st)"
      using assms(5-7) off by (simp add: pkt ts_payload_def Let_def)
  qed
qed

text \<open>The demuxer after the tables, with the packet ids \<open>p\<close> of the program map.\<close>

definition after_tables :: "int \<Rightarrow> pmt_pids \<Rightarrow> ts_demuxer \<Rightarrow> ts_demuxer" where
  "after_tables pmtId p d =
     (let d = d\<lparr>ts_pmtId := pmtId\<rparr>;
          d = (if pm_avc p > 0 then d\<lparr>ts_avcTrack := (ts_avcTrack d)\<lparr>vt_id := pm_avc p\<rparr>\<rparr> else d);
          d = (if pm_audio p > 0
               then d\<lparr>ts_audioTrack := (ts_audioTrack d)\<lparr>au_id := pm_audio p, au_isAAC := pm_isAAC p\<rparr>\<rparr> else d);
          d = (if pm_id3 p > 0 then d\<lparr>ts_id3Track := (ts_id3Track d)\<lparr>it_id := pm_id3 p\<rparr>\<rparr> else d)
      in d\<lparr>ts_pmtParsed := True\<rparr>)"

lemma after_tables_fields:
  "ts_audioPesData (after_tables pmtId p d) = ts_audioPesData d"
  "vt_pesData (ts_avcTrack (after_tables pmtId p d)) = vt_pesData (ts_avcTrack d)"
  "it_pesData (ts_id3Track (after_tables pmtId p d)) = it_pesData (ts_id3Track d)"
  "vt_samples (ts_avcTrack (after_tables pmtId p d)) = vt_samples (ts_avcTrack d)"
  "it_samples (ts_id3Track (after_tables pmtId p d)) = it_samples (ts_id3Track d)"
  "ts_txtSamples (after_tables pmtId p d) = ts_txtSamples d"
  "ts_events (after_tables pmtId p d) = ts_events d"
  "ts_aacOverFlow (after_tables pmtId p d) = ts_aacOverFlow d"
  "ts_audioCodec (after_tables pmtId p d) = ts_audioCodec d"
  "ts_sampleAes (after_tables pmtId p d) = ts_sampleAes d"
  "pm_audio p > 0 \<Longrightarrow> ts_audioTrack (after_tables pmtId p d) = (ts_audioTrack d)\<lparr>au_id := pm_audio p, au_isAAC := pm_isAAC p\<rparr>"
  by (simp_all add: after_tables_def Let_def)

text \<open>Without packet ids from before, the tables tell where the audio is.\<close>

definition unknown_ids :: "ts_demuxer \<Rightarrow> bool" where
  "unknown_ids d \<longleftrightarrow> vt_id (ts_avcTrack d) = - 1 \<and> au_id (ts_audioTrack d) = - 1 \<and> it_id (ts_id3Track d) = - 1"

lemma ts_loop_step:
  "start < len \<Longrightarrow> ts_packet env data start st = Inr (st', False) \<Longrightarrow>
   ts_loop env data len start st = ts_loop env data len (start + 188) st'"
  by (subst ts_loop.simps) simp

lemma ts_append_tables:
  assumes pmt: "0 < pmtId" "pmtId < 8192" and pat: "length crc \<le> 171" and sec: "length section \<le> 183"
    and p: "\<And>pre post. parsePMT (pre @ section @ post) (Some (length pre)) (te_mpegSupported env) (ts_sampleAes d) = p"
    and pid: "0 < pm_audio p" "pm_audio p < 8192" "pm_avc p \<noteq> pm_audio p"
    and d: "unknown_ids d" "ts_audioPesData d = None" "vt_pesData (ts_avcTrack d) = None" "it_pesData (ts_id3Track d) = None"
    and us: "chunks_ok (units_chunks (u # us))" "\<forall>cs \<in> set (u # us). cs \<noteq> []" "list_all2 parses_to (u # us) pess"
    and parse: "parse_packets env pess (after_tables pmtId p (d\<lparr>ts_contiguous := contiguous\<rparr>)) = Inr d'"
    and rest: "length rest < 188"
  shows "ts_append env (table_pkt 0 (pat_section pmtId crc) @ table_pkt pmtId section
      @ pkts (pm_audio p) (units_chunks (u # us)) @ rest) contiguous d = Inr (d'\<lparr>ts_audioPesData := None\<rparr>)"
proof -
  let ?pat = "table_pkt 0 (pat_section pmtId crc)" and ?pmt = "table_pkt pmtId section"
  let ?au = "pkts (pm_audio p) (units_chunks (u # us))" and ?parse = "parseAudioPES env"
  let ?data = "?pat @ ?pmt @ ?au @ rest"
  let ?n = "188 + 188 + length ?au"
  let ?d = "d\<lparr>ts_contiguous := contiguous\<rparr>"
  have lsec: "length (pat_section pmtId crc) \<le> 183" using pat by (simp add: pat_section_def)
  note l = length_table_pkt [OF lsec] length_table_pkt [OF sec]
  have "length ?data mod 188 = length rest"
    using rest l length_pkts [OF us(1)] by (simp add: add.assoc [symmetric] mod_add_left_eq [symmetric])
  then have len: "length ?data - length ?data mod 188 = ?n" using l by simp
  define st where "st = start_scan contiguous d"
  have st: "tl_avcId st = - 1" "tl_audioId st = - 1" "tl_id3Id st = - 1" "tl_dem st = ?d" "tl_unknownPIDs st = False"
    "tl_avcData st = None" "tl_id3Data st = None" "tl_audioData st = None"
    using d by (simp_all add: st_def start_scan_def unknown_ids_def)
  define st1 where "st1 = st\<lparr>tl_pmtId := pmtId, tl_dem := ?d\<lparr>ts_pmtId := pmtId\<rparr>\<rparr>"
  have 1: "ts_packet env ?data 0 st = Inr (st1, False)"
  proof -
    have e: "?data = [] @ ?pat @ (?pmt @ ?au @ rest)" by simp
    obtain h post' where h: "?data = h @ pat_section pmtId crc @ post'"
      "ts_packet env ?data (length ([] :: bytes)) st
        = (let pmtId = parsePAT ?data (Some (length h)) in Inr (st\<lparr>tl_pmtId := pmtId, tl_dem := (tl_dem st)\<lparr>ts_pmtId := pmtId\<rparr>\<rparr>, False))"
      by (rule ts_packet_table [OF _ _ lsec e, of st env]) (use st in simp_all)
    have "parsePAT ?data (Some (length h)) = pmtId"
      unfolding h(1) by (rule parsePAT_section) (use pmt in simp_all)
    then show ?thesis using h(2) by (simp add: st1_def st)
  qed
  obtain h post' where h: "?data = h @ section @ post'"
    "ts_packet env ?data (length ?pat) st1 = Inr (ts_pmt env ?data (Some (length h)) st1)"
    by (rule ts_packet_table [OF _ _ sec, of pmtId ?data ?pat "?au @ rest" st1 env]) (use pmt st in \<open>simp_all add: st1_def\<close>)
  have pm: "parsePMT ?data (Some (length h)) (te_mpegSupported env) (ts_sampleAes d) = p"
    unfolding h(1) by (rule p)
  define st2 where "st2 = st1\<lparr>tl_dem := after_tables pmtId p ?d, tl_avcId := pm_avc p, tl_audioId := pm_audio p,
    tl_id3Id := pm_id3 p, tl_pmtParsed := True\<rparr>"
  have 2: "ts_packet env ?data 188 st1 = Inr (st2, False)"
    using h(2) pm l(1) by (simp add: ts_pmt_def Let_def st1_def st st2_def after_tables_def)
  obtain d1 cs str where all: "feed_chunks ?parse (units_chunks (u # us)) None (after_tables pmtId p ?d)
      = Inr (d1, Some \<lparr>ps_data = cs, ps_size = int (length (concat cs))\<rparr>)"
    and flush: "flush_pes ?parse (Some \<lparr>ps_data = cs, ps_size = int (length (concat cs))\<rparr>) d1 = Inr (d', True, str)"
    using feed_all [OF us(3,2) parse [unfolded parse_packets_def]] by blast
  have "ts_loop env ?data ?n 376 st2
      = Inr (st2\<lparr>tl_dem := d1, tl_audioData := Some \<lparr>ps_data = cs, ps_size = int (length (concat cs))\<rparr>\<rparr>)"
    using ts_loop_audio [of "pm_audio p" "units_chunks (u # us)" st2 ?data "?pat @ ?pmt" rest ?n env] pid us(1) all l
    by (simp add: st2_def st1_def st)
  then have loop: "ts_loop env ?data (length ?data - length ?data mod 188) 0 (start_scan contiguous d)
      = Inr (st2\<lparr>tl_dem := d1, tl_audioData := Some \<lparr>ps_data = cs, ps_size = int (length (concat cs))\<rparr>\<rparr>)"
    unfolding len st_def [symmetric] using ts_loop_step [OF _ 1, of ?n] ts_loop_step [OF _ 2, of ?n] by simp
  have d1: "ts_avcTrack d1 = ts_avcTrack (after_tables pmtId p ?d)" "ts_id3Track d1 = ts_id3Track (after_tables pmtId p ?d)"
    using audio_avc.feed_chunks_keeps [OF all] audio_id3.feed_chunks_keeps [OF all] by simp_all
  show ?thesis
    by (rule ts_append_flush [OF loop _ _ flush]) (use d d1 in \<open>simp_all add: st2_def st1_def st after_tables_fields\<close>)
qed

end
