(* ===== verification/Demuxer_Inline.thy ===== *)
theory Demuxer_Inline
  imports Mp4_Remux_Audio Mp4_Demuxer Ts_Demuxer Playlist_Helpers
begin

text \<open>
  The inline demuxer, \<open>src/demux/demuxer-inline.js\<close>, with the pass-through remuxer, \<open>src/remux/passthrough-remuxer.js\<close>:
  it decrypts a fragment, finds out what it contains, creates the demuxer and the remuxer for it, and feeds them. Here the
  demuxers meet the remuxers: the tracks of a demuxer are the arguments of \<open>remux\<close>, which empties them in place, and
  all calls of the observer come in one list. A demuxer and its remuxer are created together and the inline demuxer holds the
  same two objects, and so the remuxer is kept in the demuxer.
\<close>

subsection \<open>The player around the demuxers\<close>

text \<open>
  The configuration and the browser. \<open>pe_decryptBuffer\<close> is the decryption of a buffer of a protected sample, which calls its
  callback once.
\<close>

record player_env =
  pe_ts :: ts_env
  pe_remux :: remux_env
  pe_vendor :: string
  pe_subtle :: bool
  pe_enableSoftwareAES :: bool
  pe_importKey :: "bytes \<Rightarrow> bool"
  pe_web :: "bytes \<Rightarrow> bytes \<Rightarrow> bytes \<Rightarrow> bytes option"
  pe_decryptBuffer :: "decryptdata \<Rightarrow> bytes \<Rightarrow> (decrypter, bytes) stm"

text \<open>What the pass-through remuxer hands to the player.\<close>

record passed_data =
  pd_data1 :: bytes
  pd_startPTS :: rat
  pd_startDTS :: rat
  pd_type :: string
  pd_nb :: nat
  pd_dropped :: nat

datatype player_event =
    Triggered error_event
  | Remuxed remux_event
  | InitSegmentParsed "(string \<times> init_track) list"
  | Mp4InitPts rat
  | Passed passed_data
  | FragDecrypted

definition pass_remux :: "(int \<times> int) option \<Rightarrow> (int \<times> int) option \<Rightarrow> rat \<Rightarrow> bytes \<Rightarrow> player_event list" where
  "pass_remux audioTrack videoTrack timeOffset rawData =
     [Passed \<lparr>pd_data1 = rawData, pd_startPTS = timeOffset, pd_startDTS = timeOffset,
        pd_type = (if audioTrack \<noteq> None then ''audio'' else '''') @ (if videoTrack \<noteq> None then ''video'' else ''''),
        pd_nb = 1, pd_dropped = 0\<rparr>, Remuxed FragParsed]"

text \<open>What the MP4 demuxer did: its events, and the pass-through remuxer's for its call of \<open>remux\<close>.\<close>

fun mp4_player :: "mp4_event \<Rightarrow> player_event list" where
  "mp4_player (FragParsingInitSegment ts) = [InitSegmentParsed ts]"
| "mp4_player (InitPtsFound t) = [Mp4InitPts t]"
| "mp4_player (Remux audio video startDTS contiguous accurate data) = pass_remux audio video startDTS data"

subsection \<open>Demuxers with their remuxers\<close>

text \<open>The tracks of the transport stream demuxer have fields that only the remuxer writes.\<close>

record ts_source =
  tc_demuxer :: ts_demuxer
  tc_audioTimescale :: "int option"
  tc_videoTimescale :: "int option"
  tc_videoSequence :: int

text \<open>The tracks are undefined until \<open>resetInitSegment\<close>.\<close>

datatype demuxer =
    AacDemuxer "audio_in option" remuxer
  | Mp3Demuxer "audio_in option" remuxer
  | TsDemuxer "ts_source option" remuxer
  | Mp4Demuxer mp4_demuxer

datatype content = AAC | MP3 | TS | MP4

definition probe :: "content \<Rightarrow> bytes \<Rightarrow> bool" where
  "probe c = (case c of AAC \<Rightarrow> aac_probe | MP3 \<Rightarrow> mp3_probe | TS \<Rightarrow> ts_probe | MP4 \<Rightarrow> mp4_probe)"

definition new_demuxer :: "player_env \<Rightarrow> content \<Rightarrow> demuxer" where
  "new_demuxer env c =
     (let remuxer = new_MP4Remuxer (pe_vendor env) (re_userAgent (pe_remux env))
      in case c of AAC \<Rightarrow> AacDemuxer None remuxer | MP3 \<Rightarrow> Mp3Demuxer None remuxer
                 | TS \<Rightarrow> TsDemuxer None remuxer | MP4 \<Rightarrow> Mp4Demuxer new_MP4Demuxer)"

fun content_of :: "demuxer \<Rightarrow> content" where
  "content_of (AacDemuxer _ _) = AAC"
| "content_of (Mp3Demuxer _ _) = MP3"
| "content_of (TsDemuxer _ _) = TS"
| "content_of (Mp4Demuxer _) = MP4"

text \<open>\<open>demuxer.resetInitSegment\<close>, then \<open>remuxer.resetInitSegment\<close>. A transport stream demuxer starts with no other state.\<close>

definition ts_start :: ts_demuxer where
  "ts_start = \<lparr>ts_pmtParsed = False, ts_pmtId = - 1, ts_avcTrack = new_avcTrack, ts_audioTrack = new_tsAudioTrack None,
     ts_audioPesData = None, ts_id3Track = \<lparr>it_id = - 1, it_samples = [], it_pesData = None\<rparr>, ts_txtSamples = [],
     ts_aacOverFlow = None, ts_aacLastPTS = None, ts_avcSample = None, ts_audioCodec = None, ts_videoCodec = None,
     ts_duration = None, ts_contiguous = False, ts_sampleAes = False, ts_events = []\<rparr>"

fun demuxer_resetInitSegment ::
  "bytes \<Rightarrow> string option \<Rightarrow> string option \<Rightarrow> num \<Rightarrow> demuxer \<Rightarrow> demuxer \<times> player_event list" where
  "demuxer_resetInitSegment seg audioCodec videoCodec duration (AacDemuxer _ r) =
     (AacDemuxer (Some \<lparr>ai_track = aac_resetInitSegment audioCodec duration, ai_timescale = None\<rparr>) (remux_resetInitSegment r), [])"
| "demuxer_resetInitSegment seg audioCodec videoCodec duration (Mp3Demuxer _ r) =
     (Mp3Demuxer (Some \<lparr>ai_track = mp3_resetInitSegment audioCodec duration, ai_timescale = None\<rparr>) (remux_resetInitSegment r), [])"
| "demuxer_resetInitSegment seg audioCodec videoCodec duration (TsDemuxer s r) =
     (TsDemuxer (Some \<lparr>tc_demuxer = ts_resetInitSegment audioCodec videoCodec duration
                         (case s of None \<Rightarrow> ts_start | Some x \<Rightarrow> tc_demuxer x),
                       tc_audioTimescale = None, tc_videoTimescale = None, tc_videoSequence = 0\<rparr>) (remux_resetInitSegment r), [])"
| "demuxer_resetInitSegment seg audioCodec videoCodec duration (Mp4Demuxer d) =
     (let d = resetInitSegment (Some seg) audioCodec videoCodec (case duration of None \<Rightarrow> 0 | Some x \<Rightarrow> x) d
      in (Mp4Demuxer (d\<lparr>md_out := []\<rparr>), concat (map mp4_player (md_out d))))"

text \<open>\<open>demuxer.resetTimeStamp\<close> and \<open>remuxer.resetTimeStamp\<close>, with a number or \<open>undefined\<close>.\<close>

fun demuxer_resetTimeStamp :: "rat option \<Rightarrow> demuxer \<Rightarrow> demuxer" where
  "demuxer_resetTimeStamp initPTS (AacDemuxer a r) = AacDemuxer a (remux_resetTimeStamp (map_option Some initPTS) r)"
| "demuxer_resetTimeStamp initPTS (Mp3Demuxer a r) = Mp3Demuxer a (remux_resetTimeStamp (map_option Some initPTS) r)"
| "demuxer_resetTimeStamp initPTS (TsDemuxer s r) = TsDemuxer s (remux_resetTimeStamp (map_option Some initPTS) r)"
| "demuxer_resetTimeStamp initPTS (Mp4Demuxer d) = Mp4Demuxer (mp4_resetTimeStamp initPTS d)"

text \<open>Only the transport stream demuxer has \<open>setDecryptData\<close>; the flag is set again before each \<open>append\<close>.\<close>

fun demuxer_setDecryptData :: "decryptdata option \<Rightarrow> demuxer \<Rightarrow> demuxer" where
  "demuxer_setDecryptData dd (TsDemuxer (Some s) r) = TsDemuxer (Some (s\<lparr>tc_demuxer := setDecryptData dd (tc_demuxer s)\<rparr>)) r"
| "demuxer_setDecryptData dd d = d"

subsection \<open>From the demuxer to the remuxer\<close>

definition id3_text :: "id3_sample \<Rightarrow> timed_text" where
  "id3_text s = \<lparr>tt_pts = is_pts s, tt_dts = is_dts s, tt_bytes = map uint (is_data s)\<rparr>"

definition pes_text :: "pes_packet \<Rightarrow> timed_text" where
  "pes_text p = \<lparr>tt_pts = pp_pts p, tt_dts = pp_dts p, tt_bytes = map uint (pp_data p)\<rparr>"

definition txt_text :: "txt_sample \<Rightarrow> timed_text" where
  "txt_text s = \<lparr>tt_pts = tx_pts s, tt_dts = None, tt_bytes = tx_bytes s\<rparr>"

text \<open>The video and text tracks of packed audio: no samples, and nothing else is read of them.\<close>

definition packed_tracks :: "audio_in \<Rightarrow> id3_sample list \<Rightarrow> remux_tracks" where
  "packed_tracks a id3 =
     \<lparr>rt_audio = a, rt_video = \<lparr>vi_track = new_avcTrack, vi_inputTimeScale = 90000, vi_timescale = None, vi_sequenceNumber = 0\<rparr>,
      rt_id3 = \<lparr>ti_samples = map id3_text id3, ti_inputTimeScale = 90000\<rparr>,
      rt_text = \<lparr>ti_samples = [], ti_inputTimeScale = 90000\<rparr>\<rparr>"

definition ts_tracks :: "ts_source \<Rightarrow> remux_tracks" where
  "ts_tracks s =
     (let d = tc_demuxer s in
      \<lparr>rt_audio = \<lparr>ai_track = ts_audioTrack d, ai_timescale = tc_audioTimescale s\<rparr>,
       rt_video = \<lparr>vi_track = ts_avcTrack d, vi_inputTimeScale = 90000, vi_timescale = tc_videoTimescale s,
                   vi_sequenceNumber = tc_videoSequence s\<rparr>,
       rt_id3 = \<lparr>ti_samples = map pes_text (it_samples (ts_id3Track d)), ti_inputTimeScale = 90000\<rparr>,
       rt_text = \<lparr>ti_samples = map txt_text (ts_txtSamples d), ti_inputTimeScale = 90000\<rparr>\<rparr>)"

text \<open>The tracks as \<open>remux\<close> leaves them: it has taken all ID3 and text samples (\<open>remux_takes_texts\<close>).\<close>

definition ts_remuxed :: "ts_source \<Rightarrow> remux_tracks \<Rightarrow> ts_source" where
  "ts_remuxed s ts =
     s\<lparr>tc_demuxer := (tc_demuxer s)\<lparr>ts_audioTrack := ai_track (rt_audio ts), ts_avcTrack := vi_track (rt_video ts),
         ts_id3Track := (ts_id3Track (tc_demuxer s))\<lparr>it_samples := []\<rparr>, ts_txtSamples := []\<rparr>,
       tc_audioTimescale := ai_timescale (rt_audio ts), tc_videoTimescale := vi_timescale (rt_video ts),
       tc_videoSequence := vi_sequenceNumber (rt_video ts)\<rparr>"

lemma remux_takes_texts:
  "remux env off c acc ts r = Inr (ts', r') \<Longrightarrow> ti_samples (rt_id3 ts') = [] \<and> ti_samples (rt_text ts') = []"
  by (auto simp: remux_def remuxID3_def remuxText_def Let_def split: sum.splits if_splits)

text \<open>\<open>remuxer.remux\<close> with the events it triggers.\<close>

definition remux_events ::
  "remux_env \<Rightarrow> rat \<Rightarrow> bool \<Rightarrow> bool \<Rightarrow> remux_tracks \<Rightarrow> remuxer \<Rightarrow> (remux_tracks \<times> remuxer \<times> player_event list) result" where
  "remux_events env timeOffset contiguous accurateTimeOffset ts r =
     map_sum id (\<lambda>(ts, r). (ts, r\<lparr>rm_events := []\<rparr>, map Remuxed (rm_events r)))
       (remux env timeOffset contiguous accurateTimeOffset ts (r\<lparr>rm_events := []\<rparr>))"

text \<open>The end of \<open>append\<close> of the transport stream demuxer: decryption of the samples and \<open>remux\<close>.\<close>

definition ts_decrypted :: "player_env \<Rightarrow> decryptdata option \<Rightarrow> ts_demuxer \<Rightarrow> ts_demuxer result" where
  "ts_decrypted env dd d =
     (case (ts_sampleAes d, dd) of
        (True, Some x) \<Rightarrow>
          map_sum id fst (decryptAndRemux (pe_decryptBuffer env x) d (new_Decrypter (pe_subtle env) (pe_enableSoftwareAES env)))
      | _ \<Rightarrow> Inr d)"

text \<open>\<open>demuxer.append\<close>. Without tracks all of them fail on a property of \<open>undefined\<close>.\<close>

fun demuxer_append ::
  "player_env \<Rightarrow> decryptdata option \<Rightarrow> bytes \<Rightarrow> rat \<Rightarrow> bool \<Rightarrow> bool \<Rightarrow> demuxer \<Rightarrow> (demuxer \<times> player_event list) result" where
  "demuxer_append env dd data timeOffset contiguous accurateTimeOffset (AacDemuxer None r) = Inl TypeError"
| "demuxer_append env dd data timeOffset contiguous accurateTimeOffset (AacDemuxer (Some a) r) =
     (case aac_append (te_userAgent (pe_ts env)) data (ai_track a) of
        (evs, Inl e) \<Rightarrow> Inl e
      | (evs, Inr (track, id3)) \<Rightarrow>
          map_sum id (\<lambda>(ts, r, out). (AacDemuxer (Some (rt_audio ts)) r, map Triggered evs @ out))
            (remux_events (pe_remux env) timeOffset contiguous accurateTimeOffset (packed_tracks (a\<lparr>ai_track := track\<rparr>) id3) r))"
| "demuxer_append env dd data timeOffset contiguous accurateTimeOffset (Mp3Demuxer None r) = Inl TypeError"
| "demuxer_append env dd data timeOffset contiguous accurateTimeOffset (Mp3Demuxer (Some a) r) =
     (case mp3_append data (ai_track a) of
        Inl e \<Rightarrow> Inl e
      | Inr (track, id3) \<Rightarrow>
          map_sum id (\<lambda>(ts, r, out). (Mp3Demuxer (Some (rt_audio ts)) r, out))
            (remux_events (pe_remux env) timeOffset contiguous accurateTimeOffset (packed_tracks (a\<lparr>ai_track := track\<rparr>) id3) r))"
| "demuxer_append env dd data timeOffset contiguous accurateTimeOffset (TsDemuxer None r) = Inl TypeError"
| "demuxer_append env dd data timeOffset contiguous accurateTimeOffset (TsDemuxer (Some s) r) =
     (case ts_append (pe_ts env) data contiguous (tc_demuxer s) of
        Inl e \<Rightarrow> Inl e
      | Inr d \<Rightarrow>
          (case ts_decrypted env dd (d\<lparr>ts_events := []\<rparr>) of
             Inl e \<Rightarrow> Inl e
           | Inr d' \<Rightarrow>
               let s = s\<lparr>tc_demuxer := d'\<rparr>
               in map_sum id (\<lambda>(ts, r, out). (TsDemuxer (Some (ts_remuxed s ts)) r, map Triggered (ts_events d) @ out))
                    (remux_events (pe_remux env) timeOffset contiguous accurateTimeOffset (ts_tracks s) r)))"
| "demuxer_append env dd data timeOffset contiguous accurateTimeOffset (Mp4Demuxer d) =
     map_sum id (\<lambda>d. (Mp4Demuxer (d\<lparr>md_out := []\<rparr>), concat (map mp4_player (md_out d))))
       (mp4_append data timeOffset contiguous accurateTimeOffset d)"

subsection \<open>The inline demuxer\<close>

record inline =
  il_demuxer :: "demuxer option"
  il_probe :: "content option"
  il_decrypter :: "decrypter option"
  il_events :: "player_event list"

definition new_DemuxerInline :: inline where
  "new_DemuxerInline = \<lparr>il_demuxer = None, il_probe = None, il_decrypter = None, il_events = []\<rparr>"

text \<open>The arguments of \<open>push\<close> after the data and the decryption data.\<close>

record push_args =
  pa_initSegment :: bytes
  pa_audioCodec :: "string option"
  pa_videoCodec :: "string option"
  pa_timeOffset :: rat
  pa_discontinuity :: bool
  pa_trackSwitch :: bool
  pa_contiguous :: bool
  pa_duration :: num
  pa_accurateTimeOffset :: bool
  pa_defaultInitPTS :: "rat option"

definition mux_config :: "content list" where
  "mux_config = [AAC, MP3, TS, MP4]"

definition no_demux :: player_event where
  "no_demux = Triggered \<lparr>ee_name = Some ''hlsError'', ee_type = MediaError, ee_details = ''fragParsingError'', ee_fatal = True\<rparr>"

text \<open>\<open>this.probe(data)\<close>; it is only called when there is a demuxer, which comes with a probe.\<close>

definition still_probes :: "inline \<Rightarrow> bytes \<Rightarrow> bool" where
  "still_probes p data = (case il_probe p of None \<Rightarrow> False | Some c \<Rightarrow> probe c data)"

text \<open>The choice of the demuxer: the first that accepts the data; when there is none, the one before stays.\<close>

definition choose_demuxer :: "player_env \<Rightarrow> bytes \<Rightarrow> bool \<Rightarrow> inline \<Rightarrow> inline" where
  "choose_demuxer env data discontinuity p =
     (if il_demuxer p = None \<or> discontinuity \<and> \<not> still_probes p data then
        (case find (\<lambda>c. probe c data) mux_config of
           Some c \<Rightarrow> p\<lparr>il_demuxer := Some (new_demuxer env c), il_probe := Some c\<rparr>
         | None \<Rightarrow> p)
      else p)"

definition pushDecrypted :: "player_env \<Rightarrow> bytes \<Rightarrow> decryptdata option \<Rightarrow> push_args \<Rightarrow> inline \<Rightarrow> inline result" where
  "pushDecrypted env data dd a p =
     (let p = choose_demuxer env data (pa_discontinuity a) p
      in case il_demuxer p of
           None \<Rightarrow> Inr (p\<lparr>il_events := il_events p @ [no_demux]\<rparr>)
         | Some d \<Rightarrow>
             let (d, evs) = (if pa_discontinuity a \<or> pa_trackSwitch a
                             then demuxer_resetInitSegment (pa_initSegment a) (pa_audioCodec a) (pa_videoCodec a) (pa_duration a) d
                             else (d, []));
                 d = (if pa_discontinuity a then demuxer_resetTimeStamp (pa_defaultInitPTS a) d else d);
                 d = demuxer_setDecryptData dd d
             in (case demuxer_append env dd data (pa_timeOffset a) (pa_contiguous a) (pa_accurateTimeOffset a) d of
                   Inl e \<Rightarrow> Inl e
                 | Inr (d, out) \<Rightarrow> Inr (p\<lparr>il_demuxer := Some d, il_events := il_events p @ evs @ out\<rparr>)))"

text \<open>
  \<open>push\<close>: the callback of the decrypter goes on with each buffer it is called with, where \<open>undefined\<close> makes an empty
  array. A key and an initialization vector are read as buffers.
\<close>

definition on_decrypted :: "player_env \<Rightarrow> decryptdata option \<Rightarrow> push_args \<Rightarrow> bytes option \<Rightarrow> inline \<Rightarrow> inline result" where
  "on_decrypted env dd a r p =
     pushDecrypted env (case r of None \<Rightarrow> [] | Some x \<Rightarrow> x) dd a (p\<lparr>il_events := il_events p @ [FragDecrypted]\<rparr>)"

definition aes_key :: "bytes \<Rightarrow> decryptdata option \<Rightarrow> (bytes \<times> bytes) option" where
  "aes_key data dd =
     (case dd of
        None \<Rightarrow> None
      | Some x \<Rightarrow> (case dd_key x of
                     None \<Rightarrow> None
                   | Some key \<Rightarrow> if data \<noteq> [] \<and> dd_method x = ''AES-128'' then Some (key, dd_iv x) else None))"

definition push :: "player_env \<Rightarrow> bytes \<Rightarrow> decryptdata option \<Rightarrow> push_args \<Rightarrow> inline \<Rightarrow> inline result" where
  "push env data dd a p =
     (case aes_key data dd of
        None \<Rightarrow> pushDecrypted env data dd a p
      | Some (key, iv) \<Rightarrow>
          let decrypter = (case il_decrypter p of
                             None \<Rightarrow> new_Decrypter (pe_subtle env) (pe_enableSoftwareAES env) | Some d \<Rightarrow> d)
          in (case decrypter_decrypt (pe_importKey env) (pe_web env) data key iv decrypter of
                Inl e \<Rightarrow> Inl e
              | Inr (lg, decrypter) \<Rightarrow>
                  fold_result (on_decrypted env dd a) (cl_calls lg)
                    (p\<lparr>il_decrypter := Some decrypter, il_events := il_events p @ map Triggered (cl_events lg)\<rparr>)))"

text \<open>\<open>destroy\<close>: the demuxers drop nothing but the duration of a transport stream.\<close>

definition inline_destroy :: "inline \<Rightarrow> inline" where
  "inline_destroy p =
     (case il_demuxer p of
        Some (TsDemuxer (Some s) r) \<Rightarrow> p\<lparr>il_demuxer := Some (TsDemuxer (Some (s\<lparr>tc_demuxer := ts_destroy (tc_demuxer s)\<rparr>)) r)\<rparr>
      | _ \<Rightarrow> p)"

subsection \<open>The demuxer of a stream\<close>

text \<open>
  \<open>src/demux/demuxer.js\<close> without a web worker: it compares a fragment with the last one and hands it to the inline
  demuxer. The worker of \<open>src/demux/demuxer-worker.js\<close> calls the same inline demuxer with the same arguments. The decryption
  data of the fragment, which come from the key loader, are an argument; a start that is not a number is 0 here.
\<close>

record stream_demuxer =
  sd_frag :: "frag option"
  sd_inline :: inline

definition new_Demuxer :: stream_demuxer where
  "new_Demuxer = \<lparr>sd_frag = None, sd_inline = new_DemuxerInline\<rparr>"

text \<open>\<open>frag.sn === lastFrag.sn + 1\<close>\<close>

definition next_sn :: "frag \<Rightarrow> frag \<Rightarrow> bool" where
  "next_sn frag lastFrag = (case (fr_sn frag, fr_sn lastFrag) of (SN n, SN m) \<Rightarrow> n = m + 1 | _ \<Rightarrow> False)"

definition stream_args ::
  "bytes \<Rightarrow> string option \<Rightarrow> string option \<Rightarrow> frag \<Rightarrow> num \<Rightarrow> bool \<Rightarrow> rat option \<Rightarrow> frag option \<Rightarrow> push_args" where
  "stream_args seg audioCodec videoCodec frag duration accurateTimeOffset defaultInitPTS lastFrag =
     (let trackSwitch = (case lastFrag of None \<Rightarrow> True | Some l \<Rightarrow> fr_level frag \<noteq> fr_level l);
          nextSN = (case lastFrag of None \<Rightarrow> False | Some l \<Rightarrow> next_sn frag l)
      in \<lparr>pa_initSegment = seg, pa_audioCodec = audioCodec, pa_videoCodec = videoCodec,
          pa_timeOffset = num_rat (if fr_startDTS frag \<noteq> None then fr_startDTS frag else fr_start frag),
          pa_discontinuity = (case lastFrag of None \<Rightarrow> True | Some l \<Rightarrow> fr_cc frag \<noteq> fr_cc l),
          pa_trackSwitch = trackSwitch, pa_contiguous = (\<not> trackSwitch \<and> nextSN), pa_duration = duration,
          pa_accurateTimeOffset = accurateTimeOffset, pa_defaultInitPTS = defaultInitPTS\<rparr>)"

definition stream_push ::
  "player_env \<Rightarrow> bytes \<Rightarrow> bytes \<Rightarrow> string option \<Rightarrow> string option \<Rightarrow> frag \<Rightarrow> decryptdata option \<Rightarrow> num \<Rightarrow> bool \<Rightarrow> rat option
   \<Rightarrow> stream_demuxer \<Rightarrow> stream_demuxer result" where
  "stream_push env data seg audioCodec videoCodec frag dd duration accurateTimeOffset defaultInitPTS d =
     map_sum id (\<lambda>p. d\<lparr>sd_frag := Some frag, sd_inline := p\<rparr>)
       (push env data dd (stream_args seg audioCodec videoCodec frag duration accurateTimeOffset defaultInitPTS (sd_frag d))
         (sd_inline d))"

definition stream_destroy :: "stream_demuxer \<Rightarrow> stream_demuxer" where
  "stream_destroy d = d\<lparr>sd_inline := inline_destroy (sd_inline d)\<rparr>"

end
