(* ===== verification/Inline_Audio.thy ===== *)
theory Inline_Audio
  imports Ts_Stream Remux_Frames Demuxer_Inline Sample_Aes_Tracks
begin

text \<open>
  A fragment of AAC frames in a transport stream, followed from the inline demuxer through the demuxer and the remuxer: what it
  looks like, the track that demuxing it gives, and the MP4 fragment that remuxing the track gives.
\<close>

subsection \<open>The configuration of a track\<close>

text \<open>The configuration is read from the header of the first frame.\<close>

lemma getAudioConfig_frame:
  assumes "4 \<le> length f"
  shows "getAudioConfig ua (f @ rest) 0 codec = getAudioConfig ua f 0 codec"
proof -
  have "byte (f @ rest) 2 = byte f 2" "byte (f @ rest) 3 = byte f 3" using assms by (simp_all add: byte_append)
  then show ?thesis unfolding getAudioConfig_def add_0 by (simp only:)
qed

lemma getAudioConfig_rate: "getAudioConfig ua f off codec = Inr c \<Longrightarrow> 7350 \<le> ac_samplerate c"
proof -
  assume c: "getAudioConfig ua f off codec = Inr c"
  define i where "i = js_ushr (js_and (byte f (off + 2)) 0x3C) 2"
  have "0 \<le> i" by (simp add: i_def js_ushr_def to_uint32_def)
  moreover have le: "\<not> i > int (length adtsSampleingRates) - 1"
    using c unfolding getAudioConfig_def Let_def i_def by (auto split: if_splits)
  moreover have "ac_samplerate c = adtsSampleingRates ! nat i"
    using c le unfolding getAudioConfig_def Let_def i_def [symmetric] if_not_P [OF le] by (clarsimp split: prod.splits)
  ultimately have "ac_samplerate c \<in> set adtsSampleingRates" by (simp add: nat_less_iff)
  then show ?thesis by (auto simp: adtsSampleingRates_def)
qed

definition configured :: "audio_config \<Rightarrow> audio_track \<Rightarrow> audio_track" where
  "configured c track = track\<lparr>au_config := Some (ac_config c), au_samplerate := Some (ac_samplerate c),
     au_channelCount := Some (ac_channelCount c), au_codec := Some (ac_codec c), au_manifestCodec := ac_manifestCodec c\<rparr>"

lemma scan_samples_more:
  "au_len (scan_samples fs t k tr) = au_len tr + int (length (concat (map adts_payload fs)))"
  "au_config (scan_samples fs t k tr) = au_config tr" "au_inputTimeScale (scan_samples fs t k tr) = au_inputTimeScale tr"
  "au_sequenceNumber (scan_samples fs t k tr) = au_sequenceNumber tr" "au_codec (scan_samples fs t k tr) = au_codec tr"
  by (induction fs arbitrary: k tr) (simp_all add: push_sample_def)

subsection \<open>Frames that are on the grid already\<close>

lemma on_grid_sorted: "on_grid n D ss \<Longrightarrow> 0 \<le> D \<Longrightarrow> sorted_wrt pts_le ss"
proof (induction ss arbitrary: n)
  case (Cons s ss)
  have "pts_le s x" if "x \<in> set ss" for x
  proof -
    obtain i where "i < length ss" "x = ss ! i" using \<open>x \<in> set ss\<close> by (metis in_set_conv_nth)
    then have "sm_pts x = Some (n + D + of_nat i * D)" using Cons.prems(1) on_grid_nth [of "n + D" D ss i] by simp
    moreover have "0 \<le> D + of_nat i * D" using Cons.prems(2) by simp
    ultimately show ?thesis using Cons.prems by (simp add: pts_le_def num_le0_def not_less)
  qed
  then show ?case using Cons.IH [of "n + D"] Cons.prems by simp
qed simp

lemma place_frames_on_grid:
  "on_grid n D ss \<Longrightarrow> 0 < D \<Longrightarrow> map sm_unit (fst (place_frames t (Some D) (Some n) ss)) = map sm_unit ss"
  by (induction ss arbitrary: n) (simp_all add: Let_def)

lemma PTSNormalize_close: "\<bar>v - r\<bar> \<le> 4294967296 \<Longrightarrow> PTSNormalize (Some v) (Some r) = Some v"
  by (simp add: PTSNormalize_def pts_loop.simps)

text \<open>Samples from a time on, at the distance of frames.\<close>

lemma placed_frames_regular:
  assumes "aac_input a rate" and "rm_initDTS r = Some i"
    and times: "map sm_pts (au_samples (ai_track a)) = map (\<lambda>k. Some (i + n + of_nat k * frame_ticks a rate)) [0..<m]"
    and bound: "of_nat m * frame_ticks a rate \<le> 4294967296"
  shows "map sm_unit (placed_frames a rate n r) = map sm_unit (au_samples (ai_track a))"
proof -
  let ?D = "frame_ticks a rate" and ?f = "normalize_audio (rm_initDTS r) (Some n)"
  have D: "0 < ?D" using assms(1) by (simp add: frame_ticks_def aac_input_def)
  have grid: "on_grid (n + of_nat k * ?D) ?D (map ?f ss)"
    if "map sm_pts ss = map (\<lambda>k. Some (i + n + of_nat k * ?D)) [k..<m]" for k ss
    using that
  proof (induction ss arbitrary: k)
    case (Cons s ss)
    then have k: "k < m" by (cases "k < m") simp_all
    then have s: "sm_pts s = Some (i + n + of_nat k * ?D)" "map sm_pts ss = map (\<lambda>k. Some (i + n + of_nat k * ?D)) [Suc k..<m]"
      using Cons.prems by (simp_all add: upt_conv_Cons)
    have "of_nat k * ?D \<le> of_nat m * ?D" using k D by (intro mult_right_mono) simp_all
    then have "of_nat k * ?D \<le> 4294967296" using bound by (rule order_trans)
    moreover have "0 \<le> of_nat k * ?D" using D by simp
    ultimately have "of_nat k * ?D \<le> 4294967296" "0 \<le> of_nat k * ?D" by simp_all
    then have "\<bar>n + of_nat k * ?D - n\<bar> \<le> 4294967296" by simp
    then have "sm_pts (?f s) = Some (n + of_nat k * ?D)"
      using PTSNormalize_close by (simp add: normalize_audio_def s(1) assms(2) Let_def)
    then show ?case using Cons.IH [OF s(2)] by (simp add: algebra_simps)
  qed simp
  have g: "on_grid n ?D (map ?f (au_samples (ai_track a)))" using grid [OF times] by simp
  have "js_sort pts_le (map ?f (au_samples (ai_track a))) = map ?f (au_samples (ai_track a))"
    by (rule js_sort_sorted [OF on_grid_sorted [OF g]]) (use D in simp)
  then show ?thesis
    using place_frames_on_grid [OF g D] assms(1)
    by (simp add: placed_frames_def audio_frames_def Let_def aac_input_def normalize_audio_some(2) comp_def)
qed

subsection \<open>Audio without video\<close>

text \<open>The init segment of an AAC track, and the track that writing it leaves.\<close>

definition audio_ready :: "audio_in \<Rightarrow> audio_in" where
  "audio_ready a =
     (let t = ai_track a; a1 = a\<lparr>ai_timescale := au_samplerate t\<rparr>
      in a1\<lparr>ai_track := t\<lparr>au_duration := Some (tr_duration (default_duration (audio_mp4 a1 [])))\<rparr>\<rparr>)"

definition audio_init :: "audio_in \<Rightarrow> init_data_track" where
  "audio_init a =
     (let tr = audio_mp4 (a\<lparr>ai_timescale := au_samplerate (ai_track a)\<rparr>) [] in
      \<lparr>in_container = ''audio/mp4'', in_codec = au_codec (ai_track a),
       in_initSegment = enc [ftyp_tree, moov_tree (default_duration tr) []]\<rparr>)"

lemma audio_IS_aac:
  assumes "au_isAAC (ai_track a)"
  shows "audio_IS env a = Inr (audio_ready a, audio_init a)"
proof -
  have "(ai_track a)\<lparr>au_codec := au_codec (ai_track a)\<rparr> = ai_track a" by simp
  then have e: "a\<lparr>ai_timescale := au_samplerate (ai_track a), ai_track := (ai_track a)\<lparr>au_codec := au_codec (ai_track a)\<rparr>\<rparr>
      = a\<lparr>ai_timescale := au_samplerate (ai_track a)\<rparr>" by (cases a) simp
  show ?thesis
    using assms by (simp add: audio_IS_def Let_def e initSegment_enc audio_ready_def audio_init_def)
qed

definition audio_only :: "remux_tracks \<Rightarrow> bool" where
  "audio_only ts \<longleftrightarrow> vt_samples (vi_track (rt_video ts)) = [] \<and> ti_samples (rt_id3 ts) = [] \<and> ti_samples (rt_text ts) = []"

text \<open>A first fragment whose frames are one after the other: the init segment, the frames, and the end.\<close>

lemma remux_first_audio:
  assumes a: "a = rt_audio ts" "au_isAAC (ai_track a)" "au_config (ai_track a) \<noteq> None" "au_samplerate (ai_track a) = Some rate" "0 < rate"
      "au_inputTimeScale (ai_track a) = 90000" "au_len (ai_track a) = units_len (au_samples (ai_track a))"
    and times: "map sm_pts (au_samples (ai_track a)) = map (\<lambda>k. Some (t0 + of_nat k * (1024 * 90000 / of_int rate))) [0..<m]"
    and bound: "of_nat m * (1024 * 90000 / of_int rate) \<le> (4294967296 :: rat)"
    and us: "us = map sm_unit (au_samples (ai_track a))" "2 \<le> length us" "concat us \<noteq> []"
    and only: "audio_only ts" and off: "0 \<le> off"
    and r: "\<not> rm_ISGenerated r" "rm_initPTS r = None" "rm_nextAudioPts r = None"
  shows "\<exists>x ts' r' tr. remux env off False True ts r = Inr (ts', r')
    \<and> rm_events r' = rm_events r @ [ParsingInitSegment (Some (audio_init a)) None, ParsingData x, FragParsed]
    \<and> fd_data1 x @ fd_data2 x = fragment (au_sequenceNumber (ai_track a)) (off * of_int rate) tr (concat us)
    \<and> tr_samples tr = mp4_frames 1024 us \<and> tr_timescale tr = rate
    \<and> fd_startPTS x = Some off \<and> fd_endPTS x = Some (off + of_nat (length us) * 1024 / of_int rate)"
proof -
  define a1 where "a1 = audio_ready a"
  have f: "ai_timescale a1 = Some rate" "au_isAAC (ai_track a1)" "au_inputTimeScale (ai_track a1) = 90000"
    "au_len (ai_track a1) = units_len (au_samples (ai_track a1))" "au_samples (ai_track a1) = au_samples (ai_track a)"
    "au_sequenceNumber (ai_track a1) = au_sequenceNumber (ai_track a)"
    using a by (simp_all add: a1_def audio_ready_def Let_def)
  define D where "D = (1024 * 90000 / of_int rate :: rat)"
  have D: "frame_ticks a1 rate = D" by (simp add: frame_ticks_def f(3) D_def)
  have "sm_pts ` set (au_samples (ai_track a)) = (\<lambda>k. Some (t0 + of_nat k * D)) ` {0..<m}"
    using arg_cong [OF times, of set] by (simp add: D_def)
  then have in1: "aac_input a1 rate"
    using f a(5) by (auto simp: aac_input_def)
  define n where "n = off * 90000"
  define i where "i = t0 - n"
  have m: "m = length us" using arg_cong [OF times, of length] us(1) by simp
  have hd: "sm_pts (hd (au_samples (ai_track a))) = Some t0"
  proof -
    have "au_samples (ai_track a) \<noteq> []" "0 < m" using us m by auto
    then have "sm_pts (hd (au_samples (ai_track a))) = hd (map (\<lambda>k. Some (t0 + of_nat k * D)) [0..<m])"
      using arg_cong [OF times, of hd] by (simp add: hd_map D_def)
    then show ?thesis using \<open>0 < m\<close> by (simp add: hd_map)
  qed
  have init: "start_of (Some t0) 90000 off = Some i" by (simp add: start_of_def i_def n_def)
  define r1 where "r1 = (remux_emit (ParsingInitSegment (Some (audio_init a)) None) r)
    \<lparr>rm_ISGenerated := True, rm_initPTS := Some (Some i), rm_initDTS := Some i\<rparr>"
  have ne: "au_samples (ai_track a) \<noteq> []" using us by auto
  have gen: "generateIS env off (rt_audio ts) (rt_video ts) r = Inr (a1, rt_video ts, r1)"
    using only hd init r ne a(2,3)
    unfolding generateIS_def Let_def a(1) [symmetric] audio_IS_aac [OF a(2)] a1_def [symmetric]
    by (simp add: audio_only_def f r1_def)
  have units: "map sm_unit (placed_frames a1 rate n r1) = us"
    unfolding us(1) f(5) [symmetric]
    by (rule placed_frames_regular [OF in1, where i = i and m = m])
      (use times bound in \<open>simp_all add: r1_def f D i_def D_def\<close>)
  have ref: "audio_reference a1 r1 off False True = Some n"
    by (simp add: audio_reference_def audio_contiguous_def r1_def remux_emit_def r(3) as_num_def f n_def)
  have end_time: "n + of_nat (length us) * D = n + of_nat (length us - 1) * frame_ticks a1 rate
      + of_int 1024 * of_int (au_inputTimeScale (ai_track a1)) / of_int rate"
    using us(2) by (simp add: D D_def f of_nat_diff diff_divide_distrib algebra_simps)
  have n0: "0 \<le> n" using off by (simp add: n_def)
  have i1: "rm_initDTS r1 = Some i" by (simp add: r1_def)
  have d: "(1024 :: int) = (if 2 \<le> length us then 1024 else 0)" using us(2) by simp
  obtain x where x: "remuxAudio env a1 off False True r1 = Inr (Some x,
      a1\<lparr>ai_track := (ai_track a1)\<lparr>au_samples := [], au_len := 0, au_sequenceNumber := au_sequenceNumber (ai_track a1) + 1\<rparr>\<rparr>,
      remux_emit (ParsingData x) (r1\<lparr>rm_nextAudioPts := Some (Some (n + of_nat (length us) * D))\<rparr>))"
    "fd_data1 x @ fd_data2 x = fragment (au_sequenceNumber (ai_track a1)) (n * of_int rate / of_int (au_inputTimeScale (ai_track a1)))
      (audio_mp4 a1 (mp4_frames 1024 us)) (concat us)"
    "fd_startPTS x = Some (n / of_int (au_inputTimeScale (ai_track a1)))"
    "fd_endPTS x = Some ((n + of_nat (length us) * D) / of_int (au_inputTimeScale (ai_track a1)))"
    using remuxAudio_placed [OF in1 i1 ref n0 units [symmetric] us(3) d end_time, of env] by blast
  have nots: "\<not> no_timescale (ai_timescale a1)" using f(1) a(5) by (simp add: no_timescale_def)
  have au: "remux_with_audio env off False True a1 (rt_video ts) r1 = Inr (
      a1\<lparr>ai_track := (ai_track a1)\<lparr>au_samples := [], au_len := 0, au_sequenceNumber := au_sequenceNumber (ai_track a1) + 1\<rparr>\<rparr>,
      rt_video ts, remux_emit (ParsingData x) (r1\<lparr>rm_nextAudioPts := Some (Some (n + of_nat (length us) * D))\<rparr>))"
    using nots x(1) only by (simp add: remux_with_audio_def audio_only_def)
  have gen1: "rm_ISGenerated r1" and ev: "rm_events r1 = rm_events r @ [ParsingInitSegment (Some (audio_init a)) None]"
    by (simp_all add: r1_def remux_emit_def)
  have tr: "tr_samples (audio_mp4 a1 (mp4_frames 1024 us)) = mp4_frames 1024 us" "tr_timescale (audio_mp4 a1 (mp4_frames 1024 us)) = rate"
    by (simp_all add: audio_mp4_def Let_def f(1))
  have times': "n * of_int rate / 90000 = off * of_int rate" "n / 90000 = off"
    "(n + of_nat (length us) * D) / 90000 = off + of_nat (length us) * 1024 / of_int rate"
    by (simp_all add: n_def D_def add_divide_distrib)
  show ?thesis
    unfolding remux_def gen sum.case prod.case if_P [OF r(1)] if_P [OF gen1]
    using only au x(2-4) tr ev ne f times'
    by (simp add: audio_only_def remux_emit_def) blast
qed

subsection \<open>A fragment of AAC in a transport stream\<close>

text \<open>Tables and one packet of frames, whose chunks are at most a transport packet long.\<close>

record aac_fragment =
  af_pmtId :: int
  af_patCrc :: bytes
  af_info :: bytes
  af_entries :: "(int \<times> int \<times> bytes) list"
  af_pmtCrc :: bytes
  af_chunks :: "bytes list"
  af_pts :: int
  af_frames :: "bytes list"

definition af_section :: "aac_fragment \<Rightarrow> bytes" where
  "af_section f = pmt_section (af_info f) (af_entries f) (af_pmtCrc f)"

definition af_pid :: "bool \<Rightarrow> aac_fragment \<Rightarrow> int" where
  "af_pid mpeg f = first_pid (audio_types mpeg False) (af_entries f)"

definition af_stream :: "bool \<Rightarrow> aac_fragment \<Rightarrow> bytes" where
  "af_stream mpeg f = table_pkt 0 (pat_section (af_pmtId f) (af_patCrc f)) @ table_pkt (af_pmtId f) (af_section f)
     @ pkts (af_pid mpeg f) (unit_chunks (af_chunks f))"

definition af_pids :: "bool \<Rightarrow> aac_fragment \<Rightarrow> pmt_pids" where
  "af_pids mpeg f = \<lparr>pm_audio = af_pid mpeg f, pm_avc = first_pid (avc_types False) (af_entries f),
     pm_id3 = first_pid {0x15} (af_entries f), pm_isAAC = True\<rparr>"

text \<open>
  The tables are well-formed and announce AAC first among the audio types; the packet has a header with the timestamp
  \<open>af_pts\<close>, cut anywhere; and there are at least two frames, in all at most 13 hours.
\<close>

definition af_tables_ok :: "bool \<Rightarrow> aac_fragment \<Rightarrow> bool" where
  "af_tables_ok mpeg f \<longleftrightarrow> 0 < af_pmtId f \<and> af_pmtId f < 8192 \<and> length (af_patCrc f) = 4 \<and> length (af_section f) \<le> 183
     \<and> (\<forall>e \<in> set (af_entries f). pmt_ok e) \<and> 0 < af_pid mpeg f \<and> first_pid (avc_types False) (af_entries f) \<noteq> af_pid mpeg f
     \<and> (case filter (\<lambda>e. fst e \<in> audio_types mpeg False) (af_entries f) of [] \<Rightarrow> False | e # _ \<Rightarrow> fst e = 0x0f)"

definition af_ok :: "bool \<Rightarrow> aac_fragment \<Rightarrow> bool" where
  "af_ok mpeg f \<longleftrightarrow> af_tables_ok mpeg f
     \<and> (\<forall>c \<in> set (af_chunks f). c \<noteq> [] \<and> length c \<le> 184)
     \<and> (\<exists>sid stuffing. length stuffing \<le> 245
          \<and> concat (af_chunks f) = pes_header sid 0 (af_pts f) None stuffing @ concat (af_frames f))
     \<and> 0 \<le> af_pts f \<and> af_pts f < 2 ^ 33 \<and> (\<forall>x \<in> set (af_frames f). adts_frame x)
     \<and> 2 \<le> length (af_frames f) \<and> length (af_frames f) \<le> 300000"

lemma first_pid_ok: "\<forall>e \<in> set es. pmt_ok e \<Longrightarrow> first_pid ts es < 8192"
  by (induction es) (auto simp: first_pid_def pmt_ok_def)

lemma af_pmt:
  assumes "af_tables_ok mpeg f"
  shows "parsePMT (pre @ af_section f @ post) (Some (length pre)) mpeg False = af_pids mpeg f"
proof -
  have l: "13 + length (af_info f) + length (concat (map pmt_bytes (af_entries f))) < 4096"
    using assms by (simp add: af_tables_ok_def af_section_def pmt_section_def Let_def)
  have "\<forall>e \<in> set (af_entries f). pmt_ok e" using assms by (simp add: af_tables_ok_def)
  from parsePMT_section [OF this l, of pre "af_pmtCrc f" post mpeg False] assms
  show ?thesis
    by (auto simp: af_section_def af_pids_def af_pid_def af_tables_ok_def split: list.splits)
qed

lemma chunks_ok_units: "\<forall>c \<in> set cs. c \<noteq> [] \<and> length c \<le> 184 \<Longrightarrow> chunks_ok (units_chunks [cs])"
  by (cases cs) (auto simp: chunks_ok_def units_chunks_def unit_chunks_def)

text \<open>A demuxer that has been reset.\<close>

definition ts_reset :: "string option \<Rightarrow> string option \<Rightarrow> num \<Rightarrow> ts_demuxer" where
  "ts_reset audioCodec videoCodec duration = (ts_resetInitSegment audioCodec videoCodec duration ts_start)\<lparr>ts_sampleAes := False\<rparr>"

definition af_track :: "bool \<Rightarrow> num \<Rightarrow> audio_config \<Rightarrow> aac_fragment \<Rightarrow> audio_track" where
  "af_track mpeg duration c f = scan_samples (af_frames f) (Some (of_int (signed33 (af_pts f)))) 0
     (configured c ((new_tsAudioTrack duration)\<lparr>au_id := af_pid mpeg f, au_isAAC := True\<rparr>))"

lemma ts_append_first_audio:
  assumes ok: "af_ok (te_mpegSupported env) f" and c: "getAudioConfig (te_userAgent env) (hd (af_frames f)) 0 audioCodec = Inr c"
    and rest: "length rest < 188"
  shows "\<exists>d'. ts_append env (af_stream (te_mpegSupported env) f @ rest) contiguous (ts_reset audioCodec videoCodec duration) = Inr d'
    \<and> ts_audioTrack d' = af_track (te_mpegSupported env) duration c f
    \<and> vt_samples (ts_avcTrack d') = [] \<and> it_samples (ts_id3Track d') = [] \<and> ts_txtSamples d' = []
    \<and> ts_events d' = [] \<and> \<not> ts_sampleAes d'"
proof -
  let ?mpeg = "te_mpegSupported env"
  let ?d = "ts_reset audioCodec videoCodec duration" and ?fs = "af_frames f"
  let ?a = "after_tables (af_pmtId f) (af_pids ?mpeg f) (?d\<lparr>ts_contiguous := contiguous\<rparr>)"
  have t: "af_tables_ok ?mpeg f" and fs: "list_all adts_frame ?fs" "?fs \<noteq> []" using ok by (auto simp: af_ok_def list_all_iff)
  obtain sid stuffing where h: "length stuffing \<le> 245"
    "concat (af_chunks f) = pes_header sid 0 (af_pts f) None stuffing @ concat ?fs"
    using ok unfolding af_ok_def by blast
  have pts: "0 \<le> af_pts f" "af_pts f < 2 ^ 33" using ok by (simp_all add: af_ok_def)
  obtain pes where pes: "parses_to (af_chunks f) pes" "pp_data pes = concat ?fs" "pp_pts pes = Some (of_int (signed33 (af_pts f)))"
    using parsePES_header [OF h(2,1) _ _ _ pts] by (auto simp: parses_to_def pes_times_def h(2) length_pes_header)
  have ne: "af_chunks f \<noteq> []" using h(2) by (auto simp: pes_header_def)
  have "\<forall>c \<in> set (af_chunks f). c \<noteq> [] \<and> length c \<le> 184" using ok by (simp add: af_ok_def)
  then have ch: "chunks_ok (units_chunks [af_chunks f])" by (simp add: chunks_ok_units)
  have fields: "unknown_ids ?d" "ts_audioPesData ?d = None" "vt_pesData (ts_avcTrack ?d) = None" "it_pesData (ts_id3Track ?d) = None"
    "ts_audioTrack ?d = new_tsAudioTrack duration" "ts_aacOverFlow ?d = None" "ts_audioCodec ?d = audioCodec" "\<not> ts_sampleAes ?d"
    "vt_samples (ts_avcTrack ?d) = []" "it_samples (ts_id3Track ?d) = []" "ts_txtSamples ?d = []" "ts_events ?d = []"
    by (simp_all add: ts_reset_def ts_resetInitSegment_def ts_start_def unknown_ids_def new_avcTrack_def new_tsAudioTrack_def)
  have pid: "0 < pm_audio (af_pids ?mpeg f)" "pm_audio (af_pids ?mpeg f) < 8192"
    "pm_avc (af_pids ?mpeg f) \<noteq> pm_audio (af_pids ?mpeg f)"
    using t first_pid_ok by (auto simp: af_tables_ok_def af_pids_def af_pid_def)
  have track: "ts_audioTrack ?a = (new_tsAudioTrack duration)\<lparr>au_id := af_pid ?mpeg f, au_isAAC := True\<rparr>"
    using pid(1) fields(5) by (simp add: after_tables_fields af_pids_def)
  have hd: "8 \<le> length (hd ?fs)" using fs adts_frame_length by (cases ?fs) simp_all
  have "getAudioConfig (te_userAgent env) (concat ?fs) 0 audioCodec = Inr c"
    using getAudioConfig_frame [of "hd ?fs" "te_userAgent env" "concat (tl ?fs)" audioCodec] hd c fs(2) by (cases ?fs) simp_all
  then have cfg: "initTrackConfig (te_userAgent env) (ts_audioTrack ?a) (concat ?fs @ []) 0 (ts_audioCodec ?a)
      = ([], Inr (configured c (ts_audioTrack ?a)))"
    using fields(7) by (simp add: initTrackConfig_def track new_tsAudioTrack_def after_tables_fields configured_def)
  have w: "with_overflow ?a (pp_data pes) = concat ?fs @ []"
    using fields(6) by (simp add: with_overflow_def pes(2) after_tables_fields)
  have al: "pp_pts pes = aligned_pts (ts_aacOverFlow ?a \<noteq> None) (ts_aacLastPTS ?a)
      (getFrameDuration (au_samplerate (configured c (ts_audioTrack ?a)))) (pp_pts pes)"
    using fields(6) by (simp add: aligned_pts_def after_tables_fields)
  have part: "partial_frame []" by (simp add: partial_frame_def)
  define d1 where "d1 = ?a\<lparr>ts_audioTrack := scan_samples ?fs (pp_pts pes) 0 (configured c (ts_audioTrack ?a)), ts_aacOverFlow := None,
      ts_aacLastPTS := frame_time (configured c (ts_audioTrack ?a)) (pp_pts pes) (length ?fs - 1)\<rparr>"
  have "parseAACPES env pes ?a = Inr ((), d1)"
    using parseAACPES_config [OF w fs(1) part _ cfg al] fs(2) by (simp add: d1_def)
  then have parse: "parse_packets env [pes] ?a = Inr d1"
    by (simp add: parse_packets_def parseAudioPES_def track)
  have stream: "af_stream ?mpeg f @ rest = table_pkt 0 (pat_section (af_pmtId f) (af_patCrc f)) @ table_pkt (af_pmtId f) (af_section f)
      @ pkts (pm_audio (af_pids ?mpeg f)) (units_chunks [af_chunks f]) @ rest"
    by (simp add: af_stream_def af_pids_def units_chunks_def)
  have "ts_append env (af_stream ?mpeg f @ rest) contiguous ?d = Inr (d1\<lparr>ts_audioPesData := None\<rparr>)"
    unfolding stream
    by (rule ts_append_tables [OF _ _ _ _ _ pid fields(1-4) ch _ _ parse rest])
      (use t ne pes(1) af_pmt [OF t] fields(8) in \<open>simp_all add: af_tables_ok_def\<close>)
  then show ?thesis
    using fields by (intro exI [of _ "d1\<lparr>ts_audioPesData := None\<rparr>"])
      (simp add: d1_def after_tables_fields af_track_def track pes(3))
qed

subsection \<open>Which demuxer\<close>

lemma no_id3_probe: "at_index data 0 = Some 0x47 \<Longrightarrow> \<not> aac_probe data \<and> \<not> mp3_probe data"
proof -
  assume d: "at_index data 0 = Some 0x47"
  then have "\<not> isHeader data 0" by (auto simp: isHeader_def data_is_def at_index_def)
  then have "id3_length data 0 0 = 0" by (subst id3_length.simps) simp
  then show ?thesis by (simp add: aac_probe_def mp3_probe_def getID3Data_def)
qed

lemma ts_pkt_sync: "\<exists>xs. ts_pkt pid sc = 0x47 # xs"
  by (simp add: ts_pkt_def Let_def)

lemma table_pkt_sync: "\<exists>xs. table_pkt pid s = 0x47 # xs"
  using ts_pkt_sync by (simp add: table_pkt_def)

lemma af_stream_probes:
  assumes "af_ok mpeg f"
  shows "ts_probe (af_stream mpeg f @ rest)" "at_index (af_stream mpeg f @ rest) 0 = Some 0x47"
proof -
  let ?pat = "table_pkt 0 (pat_section (af_pmtId f) (af_patCrc f))" and ?pmt = "table_pkt (af_pmtId f) (af_section f)"
  have l: "length ?pat = 188" "length ?pmt = 188"
    using assms by (simp_all add: af_ok_def af_tables_ok_def length_table_pkt pat_section_def)
  obtain c cs where c: "af_chunks f = c # cs" "length c \<le> 184"
    using assms by (cases "af_chunks f") (auto simp: af_ok_def pes_header_def)
  obtain xs where xs: "ts_pkt (af_pid mpeg f) (True, c) = 0x47 # xs" using ts_pkt_sync by blast
  have lx: "length (0x47 # xs) = 188" using length_ts_pkt [of "(True, c)" "af_pid mpeg f"] c(2) xs by simp
  obtain ys zs where yz: "?pat = 0x47 # ys" "?pmt = 0x47 # zs" using table_pkt_sync by blast
  have "af_stream mpeg f @ rest = ?pat @ ?pmt @ (0x47 # xs) @ (pkts (af_pid mpeg f) (map (Pair False) cs) @ rest)"
    by (simp add: af_stream_def c(1) unit_chunks_def pkts_def xs)
  then obtain tl where s: "af_stream mpeg f @ rest = ?pat @ ?pmt @ (0x47 # xs) @ tl" by blast
  have i: "at_index (af_stream mpeg f @ rest) 0 = Some 0x47" "at_index (af_stream mpeg f @ rest) 188 = Some 0x47"
    "at_index (af_stream mpeg f @ rest) 376 = Some 0x47"
    unfolding s using l lx yz by (simp_all add: at_index_def nth_append)
  have "3 * 188 \<le> length (af_stream mpeg f @ rest)" unfolding s using l lx by simp
  then show "ts_probe (af_stream mpeg f @ rest)" "at_index (af_stream mpeg f @ rest) 0 = Some 0x47"
    using i by (simp_all add: ts_probe_def)
qed

lemma choose_ts:
  assumes "af_ok mpeg f" and "il_demuxer p = None"
  shows "choose_demuxer env (af_stream mpeg f @ rest) d p
    = p\<lparr>il_demuxer := Some (TsDemuxer None (new_MP4Remuxer (pe_vendor env) (re_userAgent (pe_remux env)))), il_probe := Some TS\<rparr>"
  using af_stream_probes [OF assms(1), of rest] no_id3_probe [of "af_stream mpeg f @ rest"] assms(2)
  by (simp add: choose_demuxer_def mux_config_def probe_def new_demuxer_def)

subsection \<open>Through the player\<close>

definition af_input :: "bool \<Rightarrow> num \<Rightarrow> audio_config \<Rightarrow> aac_fragment \<Rightarrow> audio_in" where
  "af_input mpeg duration c f = \<lparr>ai_track = af_track mpeg duration c f, ai_timescale = None\<rparr>"

definition first_push :: "push_args \<Rightarrow> bool" where
  "first_push a \<longleftrightarrow> pa_discontinuity a \<and> \<not> pa_contiguous a \<and> pa_accurateTimeOffset a \<and> 0 \<le> pa_timeOffset a
     \<and> pa_defaultInitPTS a = None"

lemma demuxer_append_first:
  fixes env :: player_env and f :: aac_fragment and a :: push_args
  defines "mpeg \<equiv> te_mpegSupported (pe_ts env)"
  assumes ok: "af_ok mpeg f" and a: "first_push a"
    and c: "getAudioConfig (te_userAgent (pe_ts env)) (hd (af_frames f)) 0 (pa_audioCodec a) = Inr c"
    and rest: "length rest < 188" and us: "us = map adts_payload (af_frames f)"
    and r: "\<not> rm_ISGenerated r" "rm_initPTS r = None" "rm_nextAudioPts r = None"
    and s: "tc_demuxer s = ts_reset (pa_audioCodec a) (pa_videoCodec a) (pa_duration a)"
      "tc_audioTimescale s = None" "tc_videoTimescale s = None"
  shows "\<exists>x d' tr. demuxer_append env dd (af_stream mpeg f @ rest) (pa_timeOffset a) (pa_contiguous a) (pa_accurateTimeOffset a)
        (TsDemuxer (Some s) r)
      = Inr (d', [Remuxed (ParsingInitSegment (Some (audio_init (af_input mpeg (pa_duration a) c f))) None),
                  Remuxed (ParsingData x), Remuxed FragParsed])
    \<and> fd_data1 x @ fd_data2 x = fragment 0 (pa_timeOffset a * of_int (ac_samplerate c)) tr (concat us)
    \<and> tr_samples tr = mp4_frames 1024 us \<and> tr_timescale tr = ac_samplerate c
    \<and> fd_startPTS x = Some (pa_timeOffset a)
    \<and> fd_endPTS x = Some (pa_timeOffset a + of_nat (length us) * 1024 / of_int (ac_samplerate c))"
proof -
  let ?fs = "af_frames f" and ?rate = "ac_samplerate c" and ?in = "af_input mpeg (pa_duration a) c f"
  obtain d where d: "ts_append (pe_ts env) (af_stream mpeg f @ rest) (pa_contiguous a) (tc_demuxer s) = Inr d"
    "ts_audioTrack d = af_track mpeg (pa_duration a) c f" "vt_samples (ts_avcTrack d) = []" "it_samples (ts_id3Track d) = []"
    "ts_txtSamples d = []" "ts_events d = []" "\<not> ts_sampleAes d"
    using ts_append_first_audio [OF ok [unfolded mpeg_def] c rest] unfolding s(1) mpeg_def by blast
  define s' where "s' = s\<lparr>tc_demuxer := d\<lparr>ts_events := []\<rparr>\<rparr>"
  have tracks: "rt_audio (ts_tracks s') = ?in" "audio_only (ts_tracks s')"
    using d(2-5) s by (simp_all add: s'_def ts_tracks_def Let_def audio_only_def af_input_def)
  have rate: "7350 \<le> ?rate" using getAudioConfig_rate [OF c] .
  have n: "2 \<le> length ?fs" "length ?fs \<le> 300000" and adts: "\<forall>x \<in> set ?fs. adts_frame x" using ok by (simp_all add: af_ok_def)
  have in_fields: "au_isAAC (ai_track ?in)" "au_config (ai_track ?in) \<noteq> None" "au_samplerate (ai_track ?in) = Some ?rate"
    "au_inputTimeScale (ai_track ?in) = 90000" "au_sequenceNumber (ai_track ?in) = 0"
    "map sm_unit (au_samples (ai_track ?in)) = us" "au_len (ai_track ?in) = int (length (concat us))"
    by (simp_all add: af_input_def af_track_def scan_samples_fields scan_samples_more configured_def new_tsAudioTrack_def us)
  have len: "au_len (ai_track ?in) = units_len (au_samples (ai_track ?in))"
    using in_fields(6,7) by (simp add: units_len_concat)
  have times: "map sm_pts (au_samples (ai_track ?in))
      = map (\<lambda>k. Some (of_int (signed33 (af_pts f)) + of_nat k * (1024 * 90000 / of_int ?rate))) [0..<length ?fs]"
    by (simp add: af_input_def af_track_def scan_samples_pts configured_def new_tsAudioTrack_def frame_time_def getFrameDuration_def)
  have bound: "of_nat (length ?fs) * (1024 * 90000 / of_int ?rate) \<le> (4294967296 :: rat)"
  proof -
    have "(7350 :: rat) \<le> of_int ?rate" using rate by (metis of_int_le_iff of_int_numeral)
    then have "1024 * 90000 / of_int ?rate \<le> (1024 * 90000 / 7350 :: rat)" by (intro divide_left_mono) simp_all
    moreover have "of_nat (length ?fs) \<le> (300000 :: rat)" using n(2) by (metis of_nat_le_iff of_nat_numeral)
    ultimately have "of_nat (length ?fs) * (1024 * 90000 / of_int ?rate) \<le> 300000 * (1024 * 90000 / 7350 :: rat)"
      using rate by (intro mult_mono) simp_all
    then show ?thesis by (rule order_trans) simp
  qed
  have ne: "concat us \<noteq> []"
  proof -
    obtain g gs where "?fs = g # gs" using n(1) by (cases ?fs) auto
    then show ?thesis using adts by (auto simp: us adts_payload_def adts_frame_def)
  qed
  have rate0: "0 < ?rate" and n': "2 \<le> length us" using rate n(1) by (simp_all add: us)
  have off: "0 \<le> pa_timeOffset a" using a by (simp add: first_push_def)
  obtain x ts' r' tr where x: "remux (pe_remux env) (pa_timeOffset a) False True (ts_tracks s') (r\<lparr>rm_events := []\<rparr>) = Inr (ts', r')"
    "rm_events r' = [ParsingInitSegment (Some (audio_init ?in)) None, ParsingData x, FragParsed]"
    "fd_data1 x @ fd_data2 x = fragment 0 (pa_timeOffset a * of_int ?rate) tr (concat us)"
    "tr_samples tr = mp4_frames 1024 us" "tr_timescale tr = ?rate" "fd_startPTS x = Some (pa_timeOffset a)"
    "fd_endPTS x = Some (pa_timeOffset a + of_nat (length us) * 1024 / of_int ?rate)"
    using remux_first_audio [OF tracks(1) [symmetric] in_fields(1-3) rate0 in_fields(4) len times bound in_fields(6) [symmetric] n' ne
        tracks(2) off, of "r\<lparr>rm_events := []\<rparr>" "pe_remux env"] r in_fields(5) by auto
  have "ts_decrypted env dd (d\<lparr>ts_events := []\<rparr>) = Inr (d\<lparr>ts_events := []\<rparr>)"
    using d(7) by (simp add: ts_decrypted_def)
  then have "demuxer_append env dd (af_stream mpeg f @ rest) (pa_timeOffset a) (pa_contiguous a) (pa_accurateTimeOffset a) (TsDemuxer (Some s) r)
      = Inr (TsDemuxer (Some (ts_remuxed s' ts')) (r'\<lparr>rm_events := []\<rparr>), map Remuxed (rm_events r'))"
    using d(1,6) x(1) a by (simp add: remux_events_def s'_def [symmetric] first_push_def Let_def)
  then show ?thesis using x(2-7) by auto
qed

lemma pushDecrypted_first:
  fixes env :: player_env and f :: aac_fragment and a :: push_args
  defines "mpeg \<equiv> te_mpegSupported (pe_ts env)"
  assumes ok: "af_ok mpeg f" and a: "first_push a"
    and c: "getAudioConfig (te_userAgent (pe_ts env)) (hd (af_frames f)) 0 (pa_audioCodec a) = Inr c"
    and rest: "length rest < 188" and us: "us = map adts_payload (af_frames f)"
    and p: "il_demuxer p = None" and dd: "\<And>x. dd = Some x \<Longrightarrow> dd_method x \<noteq> ''SAMPLE-AES''"
  shows "\<exists>x p' tr. pushDecrypted env (af_stream mpeg f @ rest) dd a p = Inr p'
    \<and> il_events p' = il_events p @ [Remuxed (ParsingInitSegment (Some (audio_init (af_input mpeg (pa_duration a) c f))) None),
         Remuxed (ParsingData x), Remuxed FragParsed]
    \<and> fd_data1 x @ fd_data2 x = fragment 0 (pa_timeOffset a * of_int (ac_samplerate c)) tr (concat us)
    \<and> tr_samples tr = mp4_frames 1024 us \<and> tr_timescale tr = ac_samplerate c
    \<and> fd_startPTS x = Some (pa_timeOffset a)
    \<and> fd_endPTS x = Some (pa_timeOffset a + of_nat (length us) * 1024 / of_int (ac_samplerate c))"
proof -
  define r where "r = remux_resetTimeStamp None (remux_resetInitSegment (new_MP4Remuxer (pe_vendor env) (re_userAgent (pe_remux env))))"
  define s where "s = \<lparr>tc_demuxer = ts_reset (pa_audioCodec a) (pa_videoCodec a) (pa_duration a),
    tc_audioTimescale = None, tc_videoTimescale = None, tc_videoSequence = 0\<rparr>"
  have r: "\<not> rm_ISGenerated r" "rm_initPTS r = None" "rm_nextAudioPts r = None"
    by (simp_all add: r_def remux_resetTimeStamp_def remux_resetInitSegment_def new_MP4Remuxer_def)
  have s: "tc_demuxer s = ts_reset (pa_audioCodec a) (pa_videoCodec a) (pa_duration a)" "tc_audioTimescale s = None" "tc_videoTimescale s = None"
    by (simp_all add: s_def)
  have sd: "setDecryptData dd (ts_resetInitSegment (pa_audioCodec a) (pa_videoCodec a) (pa_duration a) ts_start)
      = ts_reset (pa_audioCodec a) (pa_videoCodec a) (pa_duration a)"
    using dd by (simp add: setDecryptData_def ts_reset_def split: option.split)
  have a': "pa_discontinuity a" "pa_defaultInitPTS a = None" using a by (simp_all add: first_push_def)
  obtain x d' tr where x: "demuxer_append env dd (af_stream mpeg f @ rest) (pa_timeOffset a) (pa_contiguous a) (pa_accurateTimeOffset a)
        (TsDemuxer (Some s) r)
      = Inr (d', [Remuxed (ParsingInitSegment (Some (audio_init (af_input mpeg (pa_duration a) c f))) None),
                  Remuxed (ParsingData x), Remuxed FragParsed])"
    "fd_data1 x @ fd_data2 x = fragment 0 (pa_timeOffset a * of_int (ac_samplerate c)) tr (concat us)"
    "tr_samples tr = mp4_frames 1024 us" "tr_timescale tr = ac_samplerate c" "fd_startPTS x = Some (pa_timeOffset a)"
    "fd_endPTS x = Some (pa_timeOffset a + of_nat (length us) * 1024 / of_int (ac_samplerate c))"
    using demuxer_append_first [OF ok [unfolded mpeg_def] a c rest us r s] unfolding mpeg_def by blast
  have "pushDecrypted env (af_stream mpeg f @ rest) dd a p = Inr (p\<lparr>il_demuxer := Some d', il_probe := Some TS,
      il_events := il_events p @ [Remuxed (ParsingInitSegment (Some (audio_init (af_input mpeg (pa_duration a) c f))) None),
         Remuxed (ParsingData x), Remuxed FragParsed]\<rparr>)"
    unfolding pushDecrypted_def choose_ts [OF ok p] Let_def
    by (simp add: a' sd s_def [symmetric] r_def [symmetric] x(1) del: demuxer_append.simps)
  then show ?thesis using x(2-6) by auto
qed

end
