(* ===== verification/Inline_Props.thy ===== *)
theory Inline_Props
  imports Inline_Audio Ts_Props Remux_Props
begin

text \<open>
  Properties of the inline demuxer: a fragment through the whole player, fragmented MP4 that passes through, and the demuxer
  that follows the content.
\<close>

lemma push_software:
  assumes "\<not> pe_subtle env" and "pe_enableSoftwareAES env" and "16 \<le> length key" and "16 dvd length data" and "data \<noteq> []"
    and dd: "dd = \<lparr>dd_method = ''AES-128'', dd_key = Some key, dd_iv = block_bytes iv\<rparr>"
  shows "\<exists>d. push env (cbc_bytes (key_words key) iv data) (Some dd) a new_DemuxerInline
    = pushDecrypted env data (Some dd) a (new_DemuxerInline\<lparr>il_decrypter := Some d, il_events := [FragDecrypted]\<rparr>)"
proof -
  let ?d = "new_Decrypter (pe_subtle env) (pe_enableSoftwareAES env)"
  let ?c = "cbc_bytes (key_words key) iv data"
  have ne: "?c \<noteq> []" using length_cbc_bytes [OF assms(4), of "key_words key" iv] assms(5) by auto
  have "decrypter_ready key ?d" using assms(3) by (simp add: decrypter_ready_def new_Decrypter_def)
  then obtain d where "software_decrypt ?c key (block_bytes iv) ?d = Inr (data, d)"
    using software.dec_enc [OF assms(4)] by blast
  moreover have "isSync ?d" using assms(1,2) by (simp add: isSync_def new_Decrypter_def)
  ultimately have "decrypter_decrypt (pe_importKey env) (pe_web env) ?c key (block_bytes iv) ?d
      = Inr (\<lparr>cl_calls = [Some data], cl_events = []\<rparr>, d)"
    by (simp add: decrypter_decrypt_def)
  then show ?thesis
    using ne by (intro exI [of _ d])
      (simp add: push_def aes_key_def dd new_DemuxerInline_def on_decrypted_def Let_def split: sum.split)
qed

lemma first_push_args:
  "0 \<le> num_rat (if fr_startDTS frag \<noteq> None then fr_startDTS frag else fr_start frag) \<Longrightarrow>
   first_push (stream_args seg audioCodec videoCodec frag duration True None None)"
  by (simp add: first_push_def stream_args_def Let_def)

text \<open>
  C1. A fragment through the whole player: two program tables and one packet of AAC frames in a transport stream, cut into
  transport packets in any way, padded and encrypted with AES-128-CBC. The demuxer that receives it first decrypts it, finds a
  transport stream, and triggers exactly the init segment, one fragment of MP4 and the end of parsing. The fragment starts at
  the position of the playlist whatever the timestamps are, its samples have the duration of a frame each, and its media data are the
  payloads of the frames, in order.
\<close>

theorem push_aac_fragment:
  fixes env :: player_env and f :: aac_fragment
  assumes "\<not> pe_subtle env" and "pe_enableSoftwareAES env" and "16 \<le> length key"
    and ok: "af_ok (te_mpegSupported (pe_ts env)) f" and start: "fr_startDTS frag = None" "fr_start frag = Some start" "0 \<le> start"
    and c: "getAudioConfig (te_userAgent (pe_ts env)) (hd (af_frames f)) 0 audioCodec = Inr c"
    and rest: "length rest < 188" and "16 dvd length (af_stream (te_mpegSupported (pe_ts env)) f @ rest)"
    and us: "us = map adts_payload (af_frames f)"
    and dd: "dd = \<lparr>dd_method = ''AES-128'', dd_key = Some key, dd_iv = block_bytes iv\<rparr>"
  shows "\<exists>d i x tr. stream_push env (cbc_bytes (key_words key) iv (af_stream (te_mpegSupported (pe_ts env)) f @ rest))
        seg audioCodec videoCodec frag (Some dd) duration True None new_Demuxer = Inr d
    \<and> il_events (sd_inline d) = [FragDecrypted, Remuxed (ParsingInitSegment (Some i) None), Remuxed (ParsingData x), Remuxed FragParsed]
    \<and> fd_data1 x @ fd_data2 x = fragment 0 (start * of_int (ac_samplerate c)) tr (concat us)
    \<and> tr_samples tr = mp4_frames 1024 us \<and> tr_timescale tr = ac_samplerate c
    \<and> fd_startPTS x = Some start \<and> fd_endPTS x = Some (start + of_nat (length us) * 1024 / of_int (ac_samplerate c))"
proof -
  let ?data = "af_stream (te_mpegSupported (pe_ts env)) f @ rest"
  let ?a = "stream_args seg audioCodec videoCodec frag duration True None None"
  have a: "first_push ?a" by (rule first_push_args) (simp add: start)
  have a': "pa_audioCodec ?a = audioCodec" "pa_timeOffset ?a = start" by (simp_all add: stream_args_def Let_def start)
  have "?data \<noteq> []" using af_stream_probes(1) [OF ok, of rest] by (auto simp: ts_probe_def)
  from push_software [OF assms(1-3,10) this dd, of ?a] obtain d where
    d: "push env (cbc_bytes (key_words key) iv ?data) (Some dd) ?a new_DemuxerInline
      = pushDecrypted env ?data (Some dd) ?a (new_DemuxerInline\<lparr>il_decrypter := Some d, il_events := [FragDecrypted]\<rparr>)" by blast
  have p: "il_demuxer (new_DemuxerInline\<lparr>il_decrypter := Some d, il_events := [FragDecrypted]\<rparr>) = None"
    by (simp add: new_DemuxerInline_def)
  have m: "Some dd = Some x \<Longrightarrow> dd_method x \<noteq> ''SAMPLE-AES''" for x by (auto simp: dd)
  obtain x p' tr i where x: "pushDecrypted env ?data (Some dd) ?a (new_DemuxerInline\<lparr>il_decrypter := Some d, il_events := [FragDecrypted]\<rparr>)
      = Inr p'"
    "il_events p' = [FragDecrypted, Remuxed (ParsingInitSegment (Some i) None), Remuxed (ParsingData x), Remuxed FragParsed]"
    "fd_data1 x @ fd_data2 x = fragment 0 (start * of_int (ac_samplerate c)) tr (concat us)"
    "tr_samples tr = mp4_frames 1024 us \<and> tr_timescale tr = ac_samplerate c"
    "fd_startPTS x = Some start" "fd_endPTS x = Some (start + of_nat (length us) * 1024 / of_int (ac_samplerate c))"
    using pushDecrypted_first [where dd = "Some dd", OF ok a _ rest us p m, unfolded a', OF c] by (auto simp: new_DemuxerInline_def)
  show ?thesis
    unfolding stream_push_def new_Demuxer_def stream_demuxer.simps d x(1) using x(2-6) by auto
qed

definition example_fragment :: aac_fragment where
  "example_fragment = \<lparr>af_pmtId = 256, af_patCrc = [1, 2, 3, 4], af_info = [], af_entries = [(0x0f, 257, [])], af_pmtCrc = [5, 6, 7, 8],
     af_chunks = [pes_header 0xC0 0 90000 None [] @ frame10, frame10], af_pts = 90000, af_frames = [frame10, frame10]\<rparr>"

definition example_player :: player_env where
  "example_player = \<lparr>pe_ts = test_env, pe_remux = example_env, pe_vendor = ''Google Inc.'', pe_subtle = False,
     pe_enableSoftwareAES = True, pe_importKey = (\<lambda>_. False), pe_web = (\<lambda>_ _ _. None),
     pe_decryptBuffer = (\<lambda>_ x. ret x)\<rparr>"

definition example_frag :: frag where
  "example_frag = \<lparr>fr_type = ''main'', fr_sn = SN 7, fr_level = 0, fr_cc = 0, fr_start = Some 10, fr_duration = Some 6, fr_startPTS = None,
     fr_endPTS = None, fr_startDTS = None, fr_endDTS = None, fr_deltaPTS = None, fr_backtracked = None, fr_dropped = None,
     fr_title = None, fr_baseurl = [], fr_relurl = None, fr_rawByteRange = None, fr_lastByteRangeEndOffset = None,
     fr_rawProgramDateTime = None, fr_levelkey = None, fr_tagList = [],
     fr_autoLevel = False, fr_bitrateTest = False, fr_loadCounter = None, fr_loadIdx = None, fr_loader = False, fr_key = None,
     fr_data = None, fr_id = 0\<rparr>"

definition example_push :: push_args where
  "example_push = stream_args [] None None example_frag (Some 20) True None None"

lemma example_fragment_ok: "af_ok True example_fragment"
proof -
  have "af_tables_ok True example_fragment"
    by (simp add: af_tables_ok_def af_section_def af_pid_def example_fragment_def pmt_section_def pmt_bytes_def pmt_ok_def first_pid_def
        audio_types_def avc_types_def Let_def)
  moreover have "\<forall>c \<in> set (af_chunks example_fragment). c \<noteq> [] \<and> length c \<le> 184"
    by (simp add: example_fragment_def length_pes_header frame10_def)
  moreover have "concat (af_chunks example_fragment) = pes_header 0xC0 0 (af_pts example_fragment) None [] @ concat (af_frames example_fragment)"
    by (simp add: example_fragment_def)
  ultimately show ?thesis
    unfolding af_ok_def using frame10_fields(1)
    by (intro conjI exI [of _ "0xC0"] exI [of _ "[]"]) (simp_all add: example_fragment_def)
qed


lemma frame10_config: "\<exists>c. getAudioConfig [] frame10 0 None = Inr c \<and> ac_samplerate c = 44100"
proof -
  have i: "js_ushr (js_and (byte frame10 2) 0x3C) 2 = 4"
    by (simp add: frame10_def byte_def js_and_def js_ushr_def to_uint32_def)
  have n: "\<not> (4 :: int) > int (length adtsSampleingRates) - 1" "adtsSampleingRates ! 4 = 44100"
    by (simp_all add: adtsSampleingRates_def)
  show ?thesis
    unfolding getAudioConfig_def add_0 i Let_def if_not_P [OF n(1)] by (simp add: n(2) split: prod.split)
qed

lemma push_aac_fragment_witness:
  "\<exists>d i x tr. stream_push example_player (cbc_bytes (key_words (replicate 16 7)) (1, 2, 3, 4) (af_stream True example_fragment @ replicate 16 16))
      [] None None example_frag (Some \<lparr>dd_method = ''AES-128'', dd_key = Some (replicate 16 7), dd_iv = block_bytes (1, 2, 3, 4)\<rparr>)
      (Some 20) True None new_Demuxer = Inr d
    \<and> il_events (sd_inline d) = [FragDecrypted, Remuxed (ParsingInitSegment (Some i) None), Remuxed (ParsingData x), Remuxed FragParsed]
    \<and> fd_data1 x @ fd_data2 x = fragment 0 441000 tr [1, 2, 3, 1, 2, 3] \<and> fd_startPTS x = Some 10"
proof -
  have e: "te_mpegSupported (pe_ts example_player) = True" "te_userAgent (pe_ts example_player) = []"
    by (simp_all add: example_player_def test_env_def)
  obtain c where c: "getAudioConfig [] frame10 0 None = Inr c" "ac_samplerate c = 44100" using frame10_config by blast
  have fs: "af_frames example_fragment = [frame10, frame10]" by (simp add: example_fragment_def)
  have l: "length (af_stream True example_fragment @ replicate 16 16) = 768"
    by (simp add: af_stream_def length_table_pkt pat_section_def example_fragment_def af_section_def pmt_section_def pmt_bytes_def Let_def
        unit_chunks_def pkts_def length_ts_pkt length_pes_header frame10_def)
  have p: "\<not> pe_subtle example_player" "pe_enableSoftwareAES example_player" by (simp_all add: example_player_def)
  have st: "fr_startDTS example_frag = None" "fr_start example_frag = Some 10" by (simp_all add: example_frag_def)
  have d: "16 dvd length (af_stream True example_fragment @ replicate 16 16)" unfolding l by simp
  have c': "getAudioConfig [] (hd (af_frames example_fragment)) 0 None = Inr c" by (simp add: fs c(1))
  have us: "[[1, 2, 3], [1, 2, 3]] = map adts_payload (af_frames example_fragment)" by (simp add: fs frame10_fields(2))
  show ?thesis
    using push_aac_fragment [where env = example_player and f = example_fragment and frag = example_frag and key = "replicate 16 7"
        and rest = "replicate 16 16" and c = c and iv = "(1, 2, 3, 4)" and start = 10, unfolded e,
        OF p _ example_fragment_ok st _ c' _ d us refl, of "[]" None "Some 20"]
    by (simp add: c(2)) blast
qed

subsection \<open>Fragmented MP4 passes through\<close>

lemma fragment_bytes: "\<exists>rest. fragment sn time tr data = be32 (int (length (moof sn time tr))) @ types ''moof'' @ rest"
  by (simp add: fragment_def moof_enc moof_tree_def mk_box_def enc1.simps)

lemma fragment_probe:
  assumes "length (fragment sn time tr data) < 2 ^ 30"
  shows "find (\<lambda>c. probe c (fragment sn time tr data)) mux_config = Some MP4"
proof -
  let ?f = "fragment sn time tr data" and ?n = "int (length (moof sn time tr))"
  obtain rest where r: "?f = be32 ?n @ types ''moof'' @ rest" using fragment_bytes by blast
  have n: "0 \<le> ?n" "?n < 2 ^ 30" using assms by (simp_all add: fragment_def)
  have "js_shr ?n 24 = ?n div 2 ^ 24"
    using n by (simp add: js_shr_def to_int32_def signed_take_bit_int_eq_self drop_bit_eq_div)
  moreover have "0 \<le> ?n div 2 ^ 24" "?n div 2 ^ 24 < 64" using n by simp_all
  ultimately have "uint (u8of (js_shr ?n 24)) < 64" by (simp add: uint_u8of)
  then have b: "at_index ?f 0 \<noteq> Some 0x49 \<and> at_index ?f 0 \<noteq> Some 0x47" by (auto simp: r be32_eq at_index_def)
  then have "\<not> isHeader ?f 0" by (auto simp: isHeader_def data_is_def at_index_def)
  then have "id3_length ?f 0 0 = 0" by (subst id3_length.simps) simp
  then have "\<not> aac_probe ?f" "\<not> mp3_probe ?f" by (simp_all add: aac_probe_def mp3_probe_def getID3Data_def)
  moreover have "\<not> ts_probe ?f" using b by (simp add: ts_probe_def)
  moreover have "mp4_probe ?f"
  proof -
    have "subarray ?f 4 8 = types ''moof''"
      using subarray_nat [of 4 8 ?f] by (simp add: r)
    moreover have "bin2str (types ''moof'') = ''moof''" by (simp add: bin2str_def types_def)
    ultimately show ?thesis by (simp add: mp4_probe_def) (simp add: r)
  qed
  ultimately show ?thesis by (simp add: mux_config_def probe_def)
qed

text \<open>
  C2. Fragmented MP4 passes through the player: when the segments that the box writer makes come in as the first fragment, with the
  init segment beside it, the inline demuxer takes the MP4 demuxer, announces the tracks and the initial timestamp, and hands on the same
  fragment, shifted to the position of the playlist (to the tick), under the kinds of media that the init segment has.
\<close>

theorem push_mp4_fragment:
  fixes a :: push_args
  assumes wf: "\<forall>tr \<in> set (t # ts). 0 \<le> tr_id tr \<and> tr_id tr < 2 ^ 32 \<and> 0 \<le> tr_timescale tr \<and> tr_timescale tr < 2 ^ 32"
    and seg: "initSegment (t # ts) = Inr (pa_initSegment a, tracks)" and "length (pa_initSegment a) < 2 ^ 32"
    and len: "length (fragment sn time tr data) < 2 ^ 30" and time: "0 \<le> time" "time < 2 ^ 64"
    and scale: "map_of (rev (map init_entry (t # ts))) (to_uint32 (tr_id tr)) = Some (scale, ty)" "0 < scale"
    and a: "pa_discontinuity a" "pa_defaultInitPTS a = None" and off: "0 \<le> pa_timeOffset a" "pa_timeOffset a * of_int scale < 2 ^ 64"
  shows "\<exists>p ks. push env (fragment sn time tr data) None a new_DemuxerInline = Inr p
    \<and> il_events p = [InitSegmentParsed ks, Mp4InitPts (of_int \<lfloor>time\<rfloor> / of_int scale - pa_timeOffset a),
        Passed \<lparr>pd_data1 = fragment sn (pa_timeOffset a * of_int scale) tr data,
          pd_startPTS = of_int \<lfloor>pa_timeOffset a * of_int scale\<rfloor> / of_int scale,
          pd_startDTS = of_int \<lfloor>pa_timeOffset a * of_int scale\<rfloor> / of_int scale,
          pd_type = (if last_of Audio (t # ts) \<noteq> None then ''audio'' else '''') @ (if last_of Video (t # ts) \<noteq> None then ''video'' else ''''),
          pd_nb = 1, pd_dropped = 0\<rparr>, Remuxed FragParsed]"
proof -
  define r where "r = \<lparr>id_tracks = map_of (rev (map init_entry (t # ts))), id_audio = last_of Audio (t # ts), id_video = last_of Video (t # ts)\<rparr>"
  let ?f = "fragment sn time tr data"
  have parse: "parseInitSegment (pa_initSegment a) = r" unfolding r_def by (rule init_segment_parsed [OF wf seg assms(3)])
  have ne: "\<exists>b bs. pa_initSegment a = b # bs"
    using seg unfolding initSegment_enc by (cases "pa_initSegment a") (auto simp: ftyp_tree_def enc1.simps mk_box_def be32_eq)
  define dur where "dur = (case pa_duration a of None \<Rightarrow> 0 | Some x \<Rightarrow> x)"
  obtain ks where reset: "resetInitSegment (Some (pa_initSegment a)) (pa_audioCodec a) (pa_videoCodec a) dur new_MP4Demuxer
      = new_MP4Demuxer\<lparr>md_initData := Some r, md_out := [FragParsingInitSegment ks]\<rparr>"
    using ne parse by (auto simp: resetInitSegment_def emit_def Let_def new_MP4Demuxer_def)
  define d where "d = mp4_resetTimeStamp None (new_MP4Demuxer\<lparr>md_initData := Some r\<rparr>)"
  have d: "md_initData d = Some r" "md_initPTS d = None" "md_out d = []"
    by (simp_all add: d_def mp4_resetTimeStamp_def new_MP4Demuxer_def)
  have len': "length ?f < 2 ^ 32" using len by simp
  have sc: "id_tracks r (to_uint32 (tr_id tr)) = Some (scale, ty)" unfolding r_def using scale(1) by simp
  obtain d' where d': "mp4_append ?f (pa_timeOffset a) (pa_contiguous a) (pa_accurateTimeOffset a) d = Inr d'"
    "md_out d' = [InitPtsFound (of_int \<lfloor>time\<rfloor> / of_int scale - pa_timeOffset a),
        Remux (last_of Audio (t # ts)) (last_of Video (t # ts)) (of_int \<lfloor>pa_timeOffset a * of_int scale\<rfloor> / of_int scale)
          (pa_contiguous a) (pa_accurateTimeOffset a) (fragment sn (pa_timeOffset a * of_int scale) tr data)]"
    using mp4_append_shifts [OF len' time d(1,2) sc scale(2) off, of "pa_contiguous a" "pa_accurateTimeOffset a"] d(3) by (auto simp: r_def)
  have choose: "choose_demuxer env ?f (pa_discontinuity a) new_DemuxerInline
      = new_DemuxerInline\<lparr>il_demuxer := Some (Mp4Demuxer new_MP4Demuxer), il_probe := Some MP4\<rparr>"
    by (simp add: choose_demuxer_def fragment_probe [OF len] new_DemuxerInline_def new_demuxer_def)
  have dm: "new_MP4Demuxer\<lparr>md_initData := Some r, md_out := []\<rparr> = new_MP4Demuxer\<lparr>md_initData := Some r\<rparr>"
    by (simp add: new_MP4Demuxer_def)
  let ?out = "concat (map mp4_player (md_out d'))"
  have "push env ?f None a new_DemuxerInline = Inr (new_DemuxerInline\<lparr>il_demuxer := Some (Mp4Demuxer (d'\<lparr>md_out := []\<rparr>)),
      il_probe := Some MP4, il_events := InitSegmentParsed ks # ?out\<rparr>)"
    unfolding push_def aes_key_def option.case pushDecrypted_def choose Let_def
    by (simp add: a reset dm d_def [symmetric] d'(1) dur_def [symmetric]) (simp add: new_DemuxerInline_def)
  then show ?thesis by (simp add: d'(2) pass_remux_def)
qed

lemma push_mp4_fragment_witness:
  "\<exists>p ks. push example_player (fragment 7 180000 example_track [1, 2, 3, 4, 5]) None
      (example_push\<lparr>pa_initSegment := fst (projr (initSegment [example_track]))\<rparr>) new_DemuxerInline = Inr p
    \<and> il_events p = [InitSegmentParsed ks, Mp4InitPts (- 8),
        Passed \<lparr>pd_data1 = fragment 7 900000 example_track [1, 2, 3, 4, 5], pd_startPTS = 10, pd_startDTS = 10, pd_type = ''video'',
          pd_nb = 1, pd_dropped = 0\<rparr>, Remuxed FragParsed]"
proof -
  obtain seg trs where s: "initSegment [example_track] = Inr (seg, trs)" unfolding initSegment_enc by blast
  let ?a = "example_push\<lparr>pa_initSegment := seg\<rparr>"
  have a: "pa_initSegment ?a = seg" "pa_discontinuity ?a" "pa_defaultInitPTS ?a = None" "pa_timeOffset ?a = 10"
    by (simp_all add: example_push_def stream_args_def example_frag_def)
  have tr: "tr_id example_track = 1" "tr_timescale example_track = 90000" "tr_type example_track = Video"
    by (simp_all add: example_track_def)
  have len: "length seg < 2 ^ 32" using length_example_init s by simp
  have f: "length (fragment 7 180000 example_track [1, 2, 3, 4, 5]) < 2 ^ 30" by (simp add: length_fragment example_track_def)
  have e: "\<forall>tr \<in> set [example_track]. 0 \<le> tr_id tr \<and> tr_id tr < 2 ^ 32 \<and> 0 \<le> tr_timescale tr \<and> tr_timescale tr < 2 ^ 32"
    by (simp add: tr)
  have sc: "map_of (rev (map init_entry [example_track])) (to_uint32 (tr_id example_track)) = Some (90000, Video)"
    by (simp add: init_entry_def tr to_uint32_small)
  have t: "(0 :: rat) \<le> 180000" "(180000 :: rat) < 2 ^ 64" "(0 :: int) < 90000" "(10 :: rat) * of_int 90000 < 2 ^ 64" by simp_all
  have "last_of Audio [example_track] = None" "last_of Video [example_track] = Some (90000, 1)" by (simp_all add: last_of_def tr)
  then show ?thesis
    using push_mp4_fragment [OF e _ _ f t(1,2) sc t(3), of ?a] s len a t(4) by simp
qed

subsection \<open>Content that changes\<close>

text \<open>What the player does with an inline demuxer.\<close>

inductive reachable_inline :: "player_env \<Rightarrow> inline \<Rightarrow> bool" for env where
  inline_new: "reachable_inline env new_DemuxerInline"
| inline_push: "reachable_inline env p \<Longrightarrow> push env data dd a p = Inr p' \<Longrightarrow> reachable_inline env p'"
| inline_destroyed: "reachable_inline env p \<Longrightarrow> reachable_inline env (inline_destroy p)"

text \<open>The probe that is asked whether the content has changed is the one of the demuxer.\<close>

definition probes_own :: "inline \<Rightarrow> bool" where
  "probes_own p \<longleftrightarrow> il_probe p = map_option content_of (il_demuxer p)"

lemma demuxer_append_content:
  "demuxer_append env dd data off c acc d = Inr (d', out) \<Longrightarrow> content_of d' = content_of d"
  by (cases "(env, dd, data, off, c, acc, d)" rule: demuxer_append.cases)
    (auto simp: Let_def map_sum_Inr_iff split: sum.splits prod.splits)

lemma demuxer_parts_content [simp]:
  "content_of (fst (demuxer_resetInitSegment seg ac vc dur d)) = content_of d"
  "content_of (demuxer_resetTimeStamp t d) = content_of d"
  "content_of (demuxer_setDecryptData dd d) = content_of d"
  "content_of (new_demuxer env c) = c"
proof -
  show "content_of (fst (demuxer_resetInitSegment seg ac vc dur d)) = content_of d" by (cases d) (simp_all add: Let_def)
  show "content_of (demuxer_resetTimeStamp t d) = content_of d" by (cases d) simp_all
  show "content_of (demuxer_setDecryptData dd d) = content_of d" by (cases "(dd, d)" rule: demuxer_setDecryptData.cases) simp_all
  show "content_of (new_demuxer env c) = c" by (simp add: new_demuxer_def Let_def split: content.split)
qed

text \<open>The content after the choice of a demuxer.\<close>

definition next_content :: "bytes \<Rightarrow> bool \<Rightarrow> content option \<Rightarrow> content option" where
  "next_content data discontinuity old =
     (case (old, find (\<lambda>c. probe c data) [AAC, MP3, TS, MP4]) of
        (Some c, found) \<Rightarrow> if discontinuity \<and> \<not> probe c data \<and> found \<noteq> None then found else Some c
      | (None, found) \<Rightarrow> found)"

lemma choose_demuxer_content:
  assumes "probes_own p"
  shows "probes_own (choose_demuxer env data d p)"
    and "map_option content_of (il_demuxer (choose_demuxer env data d p)) = next_content data d (map_option content_of (il_demuxer p))"
  using assms
  by (auto simp: choose_demuxer_def probes_own_def next_content_def mux_config_def still_probes_def split: option.splits)

lemma pushDecrypted_content:
  assumes own: "probes_own p" and push: "pushDecrypted env data dd a p = Inr p'"
  shows "probes_own p' \<and> map_option content_of (il_demuxer p') = next_content data (pa_discontinuity a) (map_option content_of (il_demuxer p))"
proof -
  let ?q = "choose_demuxer env data (pa_discontinuity a) p"
  note q = choose_demuxer_content [OF own, of env data "pa_discontinuity a"]
  show ?thesis
  proof (cases "il_demuxer ?q")
    case None
    then show ?thesis using push q by (auto simp: pushDecrypted_def Let_def probes_own_def)
  next
    case (Some d)
    obtain d0 evs where r: "(if pa_discontinuity a \<or> pa_trackSwitch a
        then demuxer_resetInitSegment (pa_initSegment a) (pa_audioCodec a) (pa_videoCodec a) (pa_duration a) d else (d, [])) = (d0, evs)"
      by fastforce
    have d0: "content_of d0 = content_of d"
      using arg_cong [OF r, of "\<lambda>x. content_of (fst x)"] by (simp split: if_splits)
    define d1 where "d1 = demuxer_setDecryptData dd (if pa_discontinuity a then demuxer_resetTimeStamp (pa_defaultInitPTS a) d0 else d0)"
    obtain d' out where d: "demuxer_append env dd data (pa_timeOffset a) (pa_contiguous a) (pa_accurateTimeOffset a) d1 = Inr (d', out)"
      "p' = ?q\<lparr>il_demuxer := Some d', il_events := il_events ?q @ evs @ out\<rparr>"
      using push unfolding pushDecrypted_def Let_def Some option.case r prod.case d1_def [symmetric] by (auto split: sum.splits)
    have "content_of d1 = content_of d" by (simp add: d1_def d0)
    then show ?thesis using q Some demuxer_append_content [OF d(1)] by (simp add: probes_own_def d(2))
  qed
qed

lemma fold_decrypted_own:
  "probes_own p \<Longrightarrow> fold_result (on_decrypted env dd a) rs p = Inr p' \<Longrightarrow> probes_own p'"
proof (induction rs arbitrary: p)
  case (Cons r rs)
  then obtain q where q: "on_decrypted env dd a r p = Inr q" "fold_result (on_decrypted env dd a) rs q = Inr p'"
    by (auto split: sum.splits)
  have "probes_own (p\<lparr>il_events := il_events p @ [FragDecrypted]\<rparr>)" using Cons.prems(1) by (simp add: probes_own_def)
  then have "probes_own q" using q(1) pushDecrypted_content unfolding on_decrypted_def by blast
  then show ?case using Cons.IH q(2) by blast
qed simp

lemma reachable_own: "reachable_inline env p \<Longrightarrow> probes_own p"
proof (induction rule: reachable_inline.induct)
  case inline_new
  then show ?case by (simp add: probes_own_def new_DemuxerInline_def)
next
  case (inline_push p data dd a p')
  show ?case
  proof (cases "aes_key data dd")
    case None
    then show ?thesis using inline_push pushDecrypted_content by (auto simp: push_def)
  next
    case (Some k)
    have "probes_own (p\<lparr>il_decrypter := d, il_events := evs\<rparr>)" for d evs using inline_push.IH by (simp add: probes_own_def)
    then show ?thesis
      using inline_push.hyps(2) Some fold_decrypted_own unfolding push_def by (fastforce simp: Let_def split: sum.splits prod.splits)
  qed
next
  case (inline_destroyed p)
  then show ?case by (auto simp: probes_own_def inline_destroy_def split: option.splits demuxer.splits)
qed

text \<open>
  C3. The demuxer follows the content: for every sequence of pushes, the next fragment is handled by the demuxer that is there as long
  as the stream is continuous or its probe still accepts the data; after a discontinuity the first kind of content in the order AAC, MP3,
  transport stream, MP4 that accepts the data is taken, and when there is none the demuxer that was there stays.
\<close>

theorem content_followed:
  assumes "reachable_inline env p" and "pushDecrypted env data dd a p = Inr p'"
  shows "map_option content_of (il_demuxer p') = next_content data (pa_discontinuity a) (map_option content_of (il_demuxer p))"
  using pushDecrypted_content [OF reachable_own [OF assms(1)] assms(2)] by blast

lemma content_followed_witness:
  "\<exists>p p'. reachable_inline example_player p \<and> map_option content_of (il_demuxer p) = None
     \<and> pushDecrypted example_player [1, 2, 3] None example_push p = Inr p' \<and> map_option content_of (il_demuxer p') = None"
proof -
  let ?d = "[1, 2, 3] :: bytes"
  have "id3_length ?d 0 0 = 0" by (subst id3_length.simps) (simp add: isHeader_def)
  then have none: "find (\<lambda>c. probe c ?d) [AAC, MP3, TS, MP4] = None"
    by (simp add: probe_def aac_probe_def mp3_probe_def getID3Data_def ts_probe_def mp4_probe_def)
  have c: "choose_demuxer example_player ?d x new_DemuxerInline = new_DemuxerInline" for x
    using none by (simp add: choose_demuxer_def mux_config_def)
  have n: "il_demuxer new_DemuxerInline = None" by (simp add: new_DemuxerInline_def)
  obtain p' where p: "pushDecrypted example_player ?d None example_push new_DemuxerInline = Inr p'"
    unfolding pushDecrypted_def c Let_def n by simp
  have "map_option content_of (il_demuxer p') = None"
    unfolding content_followed [OF inline_new p] next_content_def n by (simp only: option.map option.case prod.case none)
  then show ?thesis using inline_new p n by (intro exI [of _ new_DemuxerInline] exI [of _ p']) simp
qed

end
