(* ===== verification/Js_Floats.thy ===== *)
theory Js_Floats
  imports Complex_Main Js_Values
begin

text \<open>
  Numbers of JavaScript that may overflow: the values of an ordered field, the two infinities, and \<open>NaN\<close>, which also
  stands for \<open>undefined\<close> in arithmetic. The operators are those of IEEE 754 without rounding and without a second zero;
  every comparison with \<open>NaN\<close> is false.
\<close>

datatype 'a js = Num 'a | PosInf | NegInf | NotNum

instantiation js :: (linordered_field) "{zero, one, plus, minus, uminus, times, inverse, ord}"
begin

definition zero_js :: "'a js" where "zero_js = Num 0"

definition one_js :: "'a js" where "one_js = Num 1"

definition uminus_js :: "'a js \<Rightarrow> 'a js" where
  "uminus_js x = (case x of Num a \<Rightarrow> Num (- a) | PosInf \<Rightarrow> NegInf | NegInf \<Rightarrow> PosInf | NotNum \<Rightarrow> NotNum)"

definition plus_js :: "'a js \<Rightarrow> 'a js \<Rightarrow> 'a js" where
  "plus_js x y = (case (x, y) of
     (NotNum, _) \<Rightarrow> NotNum | (_, NotNum) \<Rightarrow> NotNum | (Num a, Num b) \<Rightarrow> Num (a + b)
   | (PosInf, NegInf) \<Rightarrow> NotNum | (NegInf, PosInf) \<Rightarrow> NotNum | (Num _, z) \<Rightarrow> z | (z, _) \<Rightarrow> z)"

definition minus_js :: "'a js \<Rightarrow> 'a js \<Rightarrow> 'a js" where
  "minus_js x y = x + - y"

definition times_js :: "'a js \<Rightarrow> 'a js \<Rightarrow> 'a js" where
  "times_js x y =
     (let inf = (\<lambda>s. if s = 0 then NotNum else if s > 0 then PosInf else NegInf);
          sign = (\<lambda>z. case z of Num c \<Rightarrow> sgn c | PosInf \<Rightarrow> 1 | NegInf \<Rightarrow> - 1 | NotNum \<Rightarrow> 0)
      in case (x, y) of (Num a, Num b) \<Rightarrow> Num (a * b) | _ \<Rightarrow> inf (sign x * sign y))"

definition inverse_js :: "'a js \<Rightarrow> 'a js" where
  "inverse_js x = (case x of Num a \<Rightarrow> if a = 0 then PosInf else Num (inverse a) | NotNum \<Rightarrow> NotNum | _ \<Rightarrow> Num 0)"

definition divide_js :: "'a js \<Rightarrow> 'a js \<Rightarrow> 'a js" where
  "divide_js x y = x * inverse y"

definition less_js :: "'a js \<Rightarrow> 'a js \<Rightarrow> bool" where
  "less_js x y = (case (x, y) of
     (Num a, Num b) \<Rightarrow> a < b | (Num _, PosInf) \<Rightarrow> True | (NegInf, Num _) \<Rightarrow> True | (NegInf, PosInf) \<Rightarrow> True | _ \<Rightarrow> False)"

definition less_eq_js :: "'a js \<Rightarrow> 'a js \<Rightarrow> bool" where
  "less_eq_js x y \<longleftrightarrow> x < y \<or> (x = y \<and> x \<noteq> NotNum)"

instance ..

end

lemmas js_defs = zero_js_def one_js_def uminus_js_def plus_js_def minus_js_def times_js_def inverse_js_def divide_js_def less_js_def
  less_eq_js_def

lemma js_Num [simp]:
  "Num a + Num b = Num (a + b)" "Num a - Num b = Num (a - b)" "Num a * Num b = Num (a * b)" "- Num a = Num (- a)"
  "b \<noteq> 0 \<Longrightarrow> Num a / Num b = Num (a / b)" "Num a < Num b \<longleftrightarrow> a < b" "Num a \<le> Num b \<longleftrightarrow> a \<le> b"
  by (auto simp: js_defs divide_inverse)

lemma js_NotNum [simp]:
  "NotNum + x = NotNum" "x + NotNum = NotNum" "NotNum - x = NotNum" "x - NotNum = NotNum" "NotNum * x = NotNum" "x * NotNum = NotNum"
  "NotNum / x = NotNum" "x / NotNum = NotNum" "\<not> NotNum < x" "\<not> x < NotNum" "\<not> NotNum \<le> x" "\<not> x \<le> NotNum"
  by (auto simp: js_defs Let_def split: js.splits)

lemma js_Inf [simp]:
  "x < PosInf \<longleftrightarrow> x \<noteq> PosInf \<and> x \<noteq> NotNum" "\<not> PosInf < x" "\<not> x < NegInf" "NegInf < x \<longleftrightarrow> x \<noteq> NegInf \<and> x \<noteq> NotNum"
  by (auto simp: js_defs Let_def split: js.splits)

definition js_max :: "'a::linordered_field js \<Rightarrow> 'a js \<Rightarrow> 'a js" where \<comment> \<open>\<open>Math.max\<close>\<close>
  "js_max x y = (if x = NotNum \<or> y = NotNum then NotNum else if x \<le> y then y else x)"

definition js_min :: "'a::linordered_field js \<Rightarrow> 'a js \<Rightarrow> 'a js" where \<comment> \<open>\<open>Math.min\<close>\<close>
  "js_min x y = (if x = NotNum \<or> y = NotNum then NotNum else if x \<le> y then x else y)"

definition js_abs :: "'a::linordered_field js \<Rightarrow> 'a js" where \<comment> \<open>\<open>Math.abs\<close>\<close>
  "js_abs x = (if x < Num 0 then - x else x)"

definition js_true :: "'a::zero js \<Rightarrow> bool" where \<comment> \<open>a number as a condition\<close>
  "js_true x \<longleftrightarrow> x \<noteq> NotNum \<and> x \<noteq> Num 0"

definition js_rounded :: "'a::floor_ceiling js \<Rightarrow> 'a js" where \<comment> \<open>\<open>Math.round\<close>\<close>
  "js_rounded x = map_js (\<lambda>a. of_int \<lfloor>a + 1 / 2\<rfloor>) x"

lemma js_Num_ops [simp]:
  "js_max (Num a) (Num b) = Num (max a b)" "js_min (Num a) (Num b) = Num (min a b)" "js_abs (Num a) = Num \<bar>a\<bar>"
  "js_true (Num a) \<longleftrightarrow> a \<noteq> 0" "js_rounded (Num c) = Num (of_int \<lfloor>c + 1 / 2\<rfloor>)"
  by (auto simp: js_max_def js_min_def js_abs_def js_true_def js_rounded_def max_def min_def)

lemma js_NotNum_ops [simp]:
  "js_max NotNum x = NotNum" "js_max x NotNum = NotNum" "js_min NotNum x = NotNum" "js_min x NotNum = NotNum" "js_abs NotNum = NotNum"
  "\<not> js_true NotNum"
  by (simp_all add: js_max_def js_min_def js_abs_def js_true_def)

text \<open>The numbers of \<open>Js_Values\<close> among them.\<close>

definition js_of :: "num \<Rightarrow> 'a::field_char_0 js" where
  "js_of x = (case x of None \<Rightarrow> NotNum | Some a \<Rightarrow> Num (of_rat a))"

lemma js_of_simps [simp]: "js_of None = NotNum" "js_of (Some a) = Num (of_rat a)"
  by (simp_all add: js_of_def)

end
