(* ===== verification/Player_Objects.thy ===== *)
theory Player_Objects
  imports Playlist_Loader Js_Floats
begin

text \<open>
  The objects that the controllers under \<open>src/controller\<close> share: the options of the player (\<open>src/config.js\<close>), the quality
  levels, the statistics of a load, and what the code reads of the media element.
\<close>

subsection \<open>Options\<close>

record hls_config =
  cf_autoStartLoad :: bool
  cf_startPosition :: rat
  cf_defaultAudioCodec :: "string option"
  cf_capLevelOnFPSDrop :: bool
  cf_capLevelToPlayerSize :: bool
  cf_initialLiveManifestSize :: nat
  cf_maxBufferLength :: rat
  cf_maxBufferSize :: rat
  cf_maxBufferHole :: rat
  cf_maxSeekHole :: rat
  cf_lowBufferWatchdogPeriod :: rat
  cf_highBufferWatchdogPeriod :: rat
  cf_nudgeOffset :: rat
  cf_nudgeMaxRetry :: nat
  cf_maxFragLookUpTolerance :: rat
  cf_liveSyncDurationCount :: rat
  cf_liveMaxLatencyDurationCount :: "rat js"
  cf_liveSyncDuration :: "rat option"
  cf_liveMaxLatencyDuration :: "rat option"
  cf_maxMaxBufferLength :: rat
  cf_startLevel :: "int option"
  cf_levelLoadingRetryDelay :: rat
  cf_fragLoadingTimeOut :: rat
  cf_fragLoadingMaxRetry :: nat
  cf_fragLoadingRetryDelay :: rat
  cf_fragLoadingMaxRetryTimeout :: rat
  cf_fragLoadingLoopThreshold :: int
  cf_startFragPrefetch :: bool
  cf_fpsDroppedMonitoringPeriod :: rat
  cf_fpsDroppedMonitoringThreshold :: rat
  cf_appendErrorMaxRetry :: nat
  cf_abrEwmaFastLive :: real
  cf_abrEwmaSlowLive :: real
  cf_abrEwmaFastVoD :: real
  cf_abrEwmaSlowVoD :: real
  cf_abrEwmaDefaultEstimate :: real
  cf_abrBandWidthFactor :: real
  cf_abrBandWidthUpFactor :: real
  cf_abrMaxWithRealBitrate :: bool
  cf_maxStarvationDelay :: real
  cf_maxLoadingDelay :: real
  cf_minAutoBitrate :: real

definition hlsDefaultConfig :: hls_config where
  "hlsDefaultConfig =
     \<lparr>cf_autoStartLoad = True, cf_startPosition = - 1, cf_defaultAudioCodec = None, cf_capLevelOnFPSDrop = False,
      cf_capLevelToPlayerSize = False, cf_initialLiveManifestSize = 1, cf_maxBufferLength = 30,
      cf_maxBufferSize = 60 * 1000 * 1000, cf_maxBufferHole = 1 / 2, cf_maxSeekHole = 2, cf_lowBufferWatchdogPeriod = 1 / 2,
      cf_highBufferWatchdogPeriod = 3, cf_nudgeOffset = 1 / 10, cf_nudgeMaxRetry = 3, cf_maxFragLookUpTolerance = 1 / 5,
      cf_liveSyncDurationCount = 3, cf_liveMaxLatencyDurationCount = PosInf, cf_liveSyncDuration = None,
      cf_liveMaxLatencyDuration = None, cf_maxMaxBufferLength = 600, cf_startLevel = None, cf_levelLoadingRetryDelay = 1000,
      cf_fragLoadingTimeOut = 20000, cf_fragLoadingMaxRetry = 6, cf_fragLoadingRetryDelay = 1000,
      cf_fragLoadingMaxRetryTimeout = 64000, cf_fragLoadingLoopThreshold = 3, cf_startFragPrefetch = False,
      cf_fpsDroppedMonitoringPeriod = 5000, cf_fpsDroppedMonitoringThreshold = 1 / 5, cf_appendErrorMaxRetry = 3,
      cf_abrEwmaFastLive = 3, cf_abrEwmaSlowLive = 9, cf_abrEwmaFastVoD = 3, cf_abrEwmaSlowVoD = 9,
      cf_abrEwmaDefaultEstimate = 500000, cf_abrBandWidthFactor = 95 / 100, cf_abrBandWidthUpFactor = 7 / 10,
      cf_abrMaxWithRealBitrate = False, cf_maxStarvationDelay = 4, cf_maxLoadingDelay = 4, cf_minAutoBitrate = 0\<rparr>"

subsection \<open>Quality levels\<close>

text \<open>
  A level of the level controller: \<open>lv_url\<close> are its redundant playlists. \<open>lv_bitrate\<close> is \<open>None\<close> for \<open>undefined\<close>;
  \<open>lv_loadError\<close> is 0 for \<open>undefined\<close>, which the code does not distinguish.
\<close>

record level_obj =
  lv_url :: "string list"
  lv_urlId :: nat
  lv_bitrate :: "js_int option"
  lv_width :: "int option"
  lv_height :: "int option"
  lv_audioAttr :: "string option" \<comment> \<open>\<open>attrs.AUDIO\<close>\<close>
  lv_videoCodec :: "string option"
  lv_audioCodec :: "string option"
  lv_details :: "level_details option"
  lv_loadError :: nat
  lv_level :: "int option"
  lv_realBitrate :: "real js"
  lv_loaded :: "(real js \<times> real js) option" \<comment> \<open>bytes and duration\<close>

definition bitrate_js :: "js_int option \<Rightarrow> 'a::linordered_field js" where
  "bitrate_js b = (case b of Some (Fin n) \<Rightarrow> Num (of_int n) | Some Infinity \<Rightarrow> PosInf | _ \<Rightarrow> NotNum)"

lemma bitrate_js_Fin [simp]: "bitrate_js (Some (Fin n)) = Num (of_int n)"
  by (simp add: bitrate_js_def)

text \<open>The bitrate that the choice of levels goes by.\<close>

definition level_bitrate :: "level_obj \<Rightarrow> real js" where
  "level_bitrate l =
     (if js_true (lv_realBitrate l) then js_max (lv_realBitrate l) (bitrate_js (lv_bitrate l)) else bitrate_js (lv_bitrate l))"

subsection \<open>Loads and the media element\<close>

text \<open>The statistics of a load: times in milliseconds, \<open>NotNum\<close> while undefined.\<close>

record load_stats =
  st_trequest :: "real js"
  st_tfirst :: "real js"
  st_tload :: "real js"
  st_tparsed :: "real js"
  st_tbuffered :: "real js"
  st_loaded :: "real js"
  st_total :: "real js"
  st_bw :: "real js"
  st_aborted :: bool

record media_element =
  md_currentTime :: rat
  md_playbackRate :: rat
  md_paused :: bool
  md_ended :: bool
  md_seeking :: bool
  md_readyState :: nat
  md_duration :: num
  md_buffered :: "time_range list"

end
