(* ===== verification/Ewma.thy ===== *)
theory Ewma
  imports Js_Floats
begin

text \<open>
  The estimate of the bandwidth: \<open>src/utils/ewma.js\<close> and \<open>src/utils/ewma-bandwidth-estimator.js\<close>. \<open>Math.exp\<close>, \<open>Math.log\<close>
  and \<open>Math.pow\<close> are the functions on the reals.
\<close>

subsection \<open>Exponentially weighted moving averages\<close>

record ewma =
  ew_alpha :: real
  ew_estimate :: "real js"
  ew_totalWeight :: "real js"

text \<open>\<open>Math.pow\<close> on a base that is not negative; \<open>Math.pow(0, 0)\<close> is 1.\<close>

definition pow_real :: "real \<Rightarrow> real \<Rightarrow> real" where
  "pow_real a x = (if x = 0 then 1 else a powr x)"

definition js_pow :: "real \<Rightarrow> real js \<Rightarrow> real js" where
  "js_pow a w =
     (case w of
        Num x \<Rightarrow> if a = 0 \<and> x < 0 then PosInf else Num (pow_real a x)
      | NotNum \<Rightarrow> NotNum
      | PosInf \<Rightarrow> if a < 1 then Num 0 else if a = 1 then NotNum else PosInf
      | NegInf \<Rightarrow> if a < 1 then PosInf else if a = 1 then NotNum else Num 0)"

definition new_EWMA :: "real \<Rightarrow> ewma" where
  "new_EWMA halfLife =
     \<lparr>ew_alpha = (if halfLife \<noteq> 0 then exp (ln (1 / 2) / halfLife) else 0), ew_estimate = Num 0, ew_totalWeight = Num 0\<rparr>"

definition ewma_sample :: "real js \<Rightarrow> real js \<Rightarrow> ewma \<Rightarrow> ewma" where
  "ewma_sample weight v e =
     (let adjAlpha = js_pow (ew_alpha e) weight
      in e\<lparr>ew_estimate := v * (Num 1 - adjAlpha) + adjAlpha * ew_estimate e, ew_totalWeight := ew_totalWeight e + weight\<rparr>)"

definition ewma_getEstimate :: "ewma \<Rightarrow> real js" where
  "ewma_getEstimate e =
     (if ew_alpha e \<noteq> 0 then ew_estimate e / (Num 1 - js_pow (ew_alpha e) (ew_totalWeight e)) else ew_estimate e)"

subsection \<open>The estimator\<close>

record bw_estimator =
  be_defaultEstimate :: real
  be_minWeight :: real
  be_minDelayMs :: real
  be_slow :: ewma
  be_fast :: ewma

definition new_EwmaBandWidthEstimator :: "real \<Rightarrow> real \<Rightarrow> real \<Rightarrow> bw_estimator" where
  "new_EwmaBandWidthEstimator slow fast defaultEstimate =
     \<lparr>be_defaultEstimate = defaultEstimate, be_minWeight = 1 / 1000, be_minDelayMs = 50, be_slow = new_EWMA slow,
      be_fast = new_EWMA fast\<rparr>"

definition bw_sample :: "real js \<Rightarrow> real js \<Rightarrow> bw_estimator \<Rightarrow> bw_estimator" where
  "bw_sample durationMs numBytes b =
     (let durationMs = js_max durationMs (Num (be_minDelayMs b));
          bandwidth = Num 8000 * numBytes / durationMs;
          weight = durationMs / Num 1000
      in b\<lparr>be_fast := ewma_sample weight bandwidth (be_fast b), be_slow := ewma_sample weight bandwidth (be_slow b)\<rparr>)"

definition canEstimate :: "bw_estimator \<Rightarrow> bool" where
  "canEstimate b \<longleftrightarrow> Num (be_minWeight b) \<le> ew_totalWeight (be_fast b)"

definition bw_getEstimate :: "bw_estimator \<Rightarrow> real js" where
  "bw_getEstimate b =
     (if canEstimate b then js_min (ewma_getEstimate (be_fast b)) (ewma_getEstimate (be_slow b))
      else Num (be_defaultEstimate b))"

subsection \<open>Estimates are averages\<close>

text \<open>
  The estimate without its correction lies between \<open>lo\<close> and \<open>hi\<close> times the weight that the samples have taken from the
  initial zero: the correction divides by exactly that weight.
\<close>

definition ewma_within :: "real \<Rightarrow> real \<Rightarrow> ewma \<Rightarrow> bool" where
  "ewma_within lo hi e \<longleftrightarrow>
     0 \<le> ew_alpha e \<and> ew_alpha e < 1 \<and>
     (case (ew_totalWeight e, ew_estimate e) of
        (Num W, Num x) \<Rightarrow> 0 \<le> W \<and> lo * (1 - pow_real (ew_alpha e) W) \<le> x \<and> x \<le> hi * (1 - pow_real (ew_alpha e) W)
      | _ \<Rightarrow> False)"

lemma ewma_withinE:
  assumes "ewma_within lo hi e"
  obtains a W x where "e = \<lparr>ew_alpha = a, ew_estimate = Num x, ew_totalWeight = Num W\<rparr>" "0 \<le> a" "a < 1" "0 \<le> W"
    "lo * (1 - pow_real a W) \<le> x" "x \<le> hi * (1 - pow_real a W)"
  using assms by (cases e) (auto simp: ewma_within_def split: js.splits)

lemma pow_real_add: "0 \<le> a \<Longrightarrow> 0 \<le> x \<Longrightarrow> 0 \<le> y \<Longrightarrow> pow_real a (x + y) = pow_real a x * pow_real a y"
  by (auto simp: pow_real_def powr_add)

lemma pow_real_unit: "0 \<le> a \<Longrightarrow> a < 1 \<Longrightarrow> 0 \<le> x \<Longrightarrow> 0 \<le> pow_real a x \<and> pow_real a x \<le> 1"
  by (auto simp: pow_real_def intro: powr_le1)

lemma pow_real_less: "0 \<le> a \<Longrightarrow> a < 1 \<Longrightarrow> 0 < x \<Longrightarrow> pow_real a x < 1"
  by (cases "a = 0") (auto simp: pow_real_def powr_def intro!: mult_pos_neg ln_less_zero)

lemma js_pow_Num: "0 \<le> x \<Longrightarrow> js_pow a (Num x) = Num (pow_real a x)"
  by (simp add: js_pow_def)

lemma new_EWMA_within:
  assumes "0 \<le> halfLife"
  shows "ewma_within lo hi (new_EWMA halfLife)"
proof -
  have "ln (1 / 2 :: real) < 0" by (rule ln_less_zero) auto
  then have "halfLife \<noteq> 0 \<Longrightarrow> ln (1 / 2) / halfLife < 0" using assms by (simp add: divide_neg_pos)
  then show ?thesis by (auto simp: ewma_within_def pow_real_def new_EWMA_def)
qed

text \<open>A sample is a convex combination.\<close>

lemma average_within:
  fixes p q :: real
  assumes "0 \<le> p" "p \<le> 1" "lo \<le> v" "v \<le> hi" "lo * (1 - q) \<le> x" "x \<le> hi * (1 - q)"
  shows "lo * (1 - q * p) \<le> v * (1 - p) + p * x" "v * (1 - p) + p * x \<le> hi * (1 - q * p)"
  using mult_right_mono [OF assms(3), of "1 - p"] mult_left_mono [OF assms(5) assms(1)]
    mult_right_mono [OF assms(4), of "1 - p"] mult_left_mono [OF assms(6) assms(1)] assms(2)
  by (simp_all add: algebra_simps)

lemma ewma_sample_within:
  assumes "ewma_within lo hi e" "0 \<le> w" "lo \<le> v" "v \<le> hi"
  shows "ewma_within lo hi (ewma_sample (Num w) (Num v) e)"
  using assms(1)
proof (rule ewma_withinE)
  fix a W x
  assume e: "e = \<lparr>ew_alpha = a, ew_estimate = Num x, ew_totalWeight = Num W\<rparr>" "0 \<le> a" "a < 1" "0 \<le> W"
    "lo * (1 - pow_real a W) \<le> x" "x \<le> hi * (1 - pow_real a W)"
  have p: "0 \<le> pow_real a w" "pow_real a w \<le> 1" using pow_real_unit e assms(2) by auto
  show ?thesis
    using average_within [OF p assms(3, 4) e(5, 6)] e(2-4) assms(2)
    by (simp add: ewma_within_def ewma_sample_def Let_def e(1) js_pow_Num pow_real_add)
qed

lemma ewma_getEstimate_within:
  assumes "ewma_within lo hi e" "Num 0 < ew_totalWeight e"
  shows "\<exists>x. ewma_getEstimate e = Num x \<and> lo \<le> x \<and> x \<le> hi"
  using assms(1)
proof (rule ewma_withinE)
  fix a W x
  assume e: "e = \<lparr>ew_alpha = a, ew_estimate = Num x, ew_totalWeight = Num W\<rparr>" "0 \<le> a" "a < 1" "0 \<le> W"
    "lo * (1 - pow_real a W) \<le> x" "x \<le> hi * (1 - pow_real a W)"
  have "0 < 1 - pow_real a W" using pow_real_less assms(2) e by simp
  moreover have "a = 0 \<Longrightarrow> pow_real a W = 0" using assms(2) e by (simp add: pow_real_def)
  ultimately show ?thesis
    using e(5, 6) assms(2) by (auto simp: ewma_getEstimate_def e(1) js_pow_Num pos_le_divide_eq pos_divide_le_eq mult.commute)
qed

definition bw_within :: "real \<Rightarrow> real \<Rightarrow> bw_estimator \<Rightarrow> bool" where
  "bw_within lo hi b \<longleftrightarrow>
     ewma_within lo hi (be_slow b) \<and> ewma_within lo hi (be_fast b) \<and> ew_totalWeight (be_slow b) = ew_totalWeight (be_fast b) \<and>
     be_minWeight b = 1 / 1000 \<and> be_minDelayMs b = 50"

text \<open>The measured bandwidth of a download; very short ones count as 50 ms.\<close>

definition measured :: "real \<times> real \<Rightarrow> real" where
  "measured d = 8000 * snd d / max (fst d) 50"

lemma new_estimator_within: "0 \<le> slow \<Longrightarrow> 0 \<le> fast \<Longrightarrow> bw_within lo hi (new_EwmaBandWidthEstimator slow fast d)"
  using new_EWMA_within by (simp add: bw_within_def new_EwmaBandWidthEstimator_def) (simp add: new_EWMA_def)

lemma bw_sample_eq:
  assumes "be_minDelayMs b = 50"
  shows "bw_sample (Num t) (Num n) b =
    b\<lparr>be_fast := ewma_sample (Num (max t 50 / 1000)) (Num (measured (t, n))) (be_fast b),
      be_slow := ewma_sample (Num (max t 50 / 1000)) (Num (measured (t, n))) (be_slow b)\<rparr>"
  using assms by (auto simp: bw_sample_def measured_def Let_def max_def)

lemma bw_sample_within:
  assumes "bw_within lo hi b" "lo \<le> measured (t, n)" "measured (t, n) \<le> hi"
  shows "bw_within lo hi (bw_sample (Num t) (Num n) b)"
proof -
  have d: "be_minDelayMs b = 50" using assms(1) by (simp add: bw_within_def)
  show ?thesis
    unfolding bw_sample_eq [OF d] using assms
    by (auto simp: bw_within_def intro!: ewma_sample_within) (auto simp: ewma_sample_def Let_def)
qed

text \<open>The samples of a list of downloads.\<close>

definition bw_samples :: "(real \<times> real) list \<Rightarrow> bw_estimator \<Rightarrow> bw_estimator" where
  "bw_samples = fold (\<lambda>(t, n). bw_sample (Num t) (Num n))"

lemma bw_samples_within:
  assumes "bw_within lo hi b" "\<forall>d \<in> set ds. lo \<le> measured d \<and> measured d \<le> hi"
  shows "bw_within lo hi (bw_samples ds b)"
  using assms unfolding bw_samples_def by (induction ds arbitrary: b) (auto intro: bw_sample_within)

lemma canEstimate_sample:
  assumes "bw_within lo hi b"
  shows "canEstimate (bw_sample (Num t) (Num n) b)"
proof -
  have "be_minDelayMs b = 50" "be_minWeight b = 1 / 1000" and f: "ewma_within lo hi (be_fast b)"
    using assms by (auto simp: bw_within_def)
  then show ?thesis
    by (auto simp: canEstimate_def bw_sample_eq ewma_sample_def Let_def elim!: ewma_withinE)
qed

lemma bw_getEstimate_within:
  assumes "bw_within lo hi b" "canEstimate b"
  shows "\<exists>x. bw_getEstimate b = Num x \<and> lo \<le> x \<and> x \<le> hi"
proof -
  have "Num 0 < ew_totalWeight (be_fast b)" "ew_totalWeight (be_slow b) = ew_totalWeight (be_fast b)"
    using assms by (auto simp: bw_within_def canEstimate_def ewma_within_def split: js.splits)
  then obtain x y where "ewma_getEstimate (be_fast b) = Num x" "lo \<le> x" "x \<le> hi"
      "ewma_getEstimate (be_slow b) = Num y" "lo \<le> y" "y \<le> hi"
    using assms(1) ewma_getEstimate_within unfolding bw_within_def by metis
  then show ?thesis using assms(2) by (auto simp: bw_getEstimate_def min_def)
qed

lemma bw_estimate_between:
  assumes "0 \<le> slow" "0 \<le> fast" "ds \<noteq> []" "\<forall>d \<in> set ds. lo \<le> measured d \<and> measured d \<le> hi"
  shows "\<exists>x. bw_getEstimate (bw_samples ds (new_EwmaBandWidthEstimator slow fast d0)) = Num x \<and> lo \<le> x \<and> x \<le> hi"
proof -
  obtain ds' t n where ds: "ds = ds' @ [(t, n)]" using assms(3) by (metis rev_exhaust surj_pair)
  define b where "b = bw_samples ds' (new_EwmaBandWidthEstimator slow fast d0)"
  have b: "bw_within lo hi b"
    unfolding b_def using bw_samples_within new_estimator_within assms by (simp add: ds)
  have "bw_within lo hi (bw_sample (Num t) (Num n) b)" "canEstimate (bw_sample (Num t) (Num n) b)"
    using bw_sample_within [OF b] canEstimate_sample [OF b] assms(4) by (auto simp: ds)
  then show ?thesis
    using bw_getEstimate_within by (simp add: ds bw_samples_def b_def)
qed

end
