(* ===== verification/Abr_Controller.thy ===== *)
theory Abr_Controller
  imports Player_Objects Ewma
begin

text \<open>
  The choice of the next level, \<open>src/controller/abr-controller.js\<close>, and the limits that \<open>src/hls.js\<close> sets to it. The check
  that aborts a slow load acts on other components and is in \<open>Level_Controller\<close>. A \<open>TypeError\<close> stands for the exception of
  reading a level that does not exist.
\<close>

subsection \<open>The limits of automatic levels\<close>

fun first_above :: "real js \<Rightarrow> int \<Rightarrow> level_obj list \<Rightarrow> int" where
  "first_above minAutoBitrate i [] = 0"
| "first_above minAutoBitrate i (l # ls) = (if minAutoBitrate < level_bitrate l then i else first_above minAutoBitrate (i + 1) ls)"

definition minAutoLevel :: "hls_config \<Rightarrow> level_obj list option \<Rightarrow> int" where
  "minAutoLevel config levels = first_above (Num (cf_minAutoBitrate config)) 0 (case levels of None \<Rightarrow> [] | Some ls \<Rightarrow> ls)"

definition maxAutoLevel :: "int \<Rightarrow> level_obj list option \<Rightarrow> int" where
  "maxAutoLevel autoLevelCapping levels =
     (case levels of
        Some (l # ls) \<Rightarrow> if autoLevelCapping = - 1 then int (length ls) else autoLevelCapping
      | _ \<Rightarrow> autoLevelCapping)"

subsection \<open>The controller\<close>

record abr =
  ab_lastLoadedFragLevel :: int
  ab_nextAutoLevel :: int
  ab_timer :: bool
  ab_bwEstimator :: "bw_estimator option"
  ab_fragCurrent :: "frag option"
  ab_bitrateTestDelay :: "real js"

definition new_AbrController :: abr where
  "new_AbrController = \<lparr>ab_lastLoadedFragLevel = 0, ab_nextAutoLevel = - 1, ab_timer = False, ab_bwEstimator = None,
     ab_fragCurrent = None, ab_bitrateTestDelay = NotNum\<rparr>"

definition abr_clearTimer :: "abr \<Rightarrow> abr" where
  "abr_clearTimer A = A\<lparr>ab_timer := False\<rparr>"

definition abr_onFragLoading :: "hls_config \<Rightarrow> level_obj list \<Rightarrow> frag \<Rightarrow> abr \<Rightarrow> abr result" where
  "abr_onFragLoading config levels frag A =
     (if fr_type frag \<noteq> ''main'' then Inr A
      else
        let A = A\<lparr>ab_timer := True\<rparr> in
        case ab_bwEstimator A of
          Some _ \<Rightarrow> Inr (A\<lparr>ab_fragCurrent := Some frag\<rparr>)
        | None \<Rightarrow>
            case Option.bind (elem levels (fr_level frag)) lv_details of
              None \<Rightarrow> Inl TypeError
            | Some details \<Rightarrow>
                let (fast, slow) = (if ld_live details then (cf_abrEwmaFastLive config, cf_abrEwmaSlowLive config)
                                    else (cf_abrEwmaFastVoD config, cf_abrEwmaSlowVoD config))
                in Inr (A\<lparr>ab_bwEstimator := Some (new_EwmaBandWidthEstimator slow fast (cf_abrEwmaDefaultEstimate config)),
                          ab_fragCurrent := Some frag\<rparr>))"

text \<open>The numbered fragments: \<open>isNaN(frag.sn)\<close> holds of the init segment.\<close>

definition has_number :: "frag \<Rightarrow> bool" where
  "has_number frag \<longleftrightarrow> fr_sn frag \<noteq> InitSegment"

definition abr_onFragBuffered :: "frag \<Rightarrow> load_stats \<Rightarrow> abr \<Rightarrow> abr result" where
  "abr_onFragBuffered frag stats A =
     (if \<not> st_aborted stats \<and> fr_loadCounter frag = Some 1 \<and> fr_type frag = ''main'' \<and> has_number frag \<and>
         (\<not> fr_bitrateTest frag \<or> st_tload stats = st_tbuffered stats) then
        let fragLoadingProcessingMs = st_tparsed stats - st_trequest stats in
        case ab_bwEstimator A of
          None \<Rightarrow> Inl TypeError
        | Some b \<Rightarrow>
            Inr (A\<lparr>ab_bwEstimator := Some (bw_sample fragLoadingProcessingMs (st_loaded stats) b),
                   ab_bitrateTestDelay := (if fr_bitrateTest frag then fragLoadingProcessingMs / Num 1000 else Num 0)\<rparr>)
      else Inr A)"

text \<open>The measured bitrate of a level.\<close>

definition add_loaded :: "load_stats \<Rightarrow> frag \<Rightarrow> level_obj \<Rightarrow> level_obj" where
  "add_loaded stats frag level =
     (let (bytes, duration) = (case lv_loaded level of None \<Rightarrow> (Num 0, Num 0) | Some x \<Rightarrow> x);
          loadedBytes = bytes + st_loaded stats;
          loadedDuration = duration + js_of (fr_duration frag)
      in level\<lparr>lv_loaded := Some (loadedBytes, loadedDuration),
               lv_realBitrate := js_rounded (Num 8 * loadedBytes / loadedDuration)\<rparr>)"

definition measure_bitrate :: "hls_config \<Rightarrow> frag \<Rightarrow> load_stats \<Rightarrow> level_obj list \<Rightarrow> level_obj list result" where
  "measure_bitrate config frag stats levels =
     (if cf_abrMaxWithRealBitrate config then
        case elem levels (fr_level frag) of
          None \<Rightarrow> Inl TypeError
        | Some level \<Rightarrow> Inr (levels[nat (fr_level frag) := add_loaded stats frag level])
      else Inr levels)"

definition abr_onFragLoaded ::
  "hls_config \<Rightarrow> frag \<Rightarrow> load_stats \<Rightarrow> level_obj list \<Rightarrow> abr \<Rightarrow> (abr \<times> level_obj list \<times> load_stats) result" where
  "abr_onFragLoaded config frag stats levels A =
     (if fr_type frag = ''main'' \<and> has_number frag then
        let A = (abr_clearTimer A)\<lparr>ab_lastLoadedFragLevel := fr_level frag, ab_nextAutoLevel := - 1\<rparr> in
        case measure_bitrate config frag stats levels of
          Inl err \<Rightarrow> Inl err
        | Inr levels \<Rightarrow>
            if fr_bitrateTest frag then
              let stats = stats\<lparr>st_tbuffered := st_tload stats, st_tparsed := st_tload stats\<rparr>
              in (case abr_onFragBuffered frag stats A of Inl err \<Rightarrow> Inl err | Inr A \<Rightarrow> Inr (A, levels, stats))
            else Inr (A, levels, stats)
      else Inr (A, levels, stats))"

definition abr_onError :: "string \<Rightarrow> abr \<Rightarrow> abr" where
  "abr_onError details A = (if details = ''fragLoadError'' \<or> details = ''fragLoadTimeOut'' then abr_clearTimer A else A)"

subsection \<open>The next level\<close>

text \<open>The conditions on a level in the loop of \<open>_findBestLevel\<close>.\<close>

definition level_matches :: "abr \<Rightarrow> real js \<Rightarrow> real js \<Rightarrow> real js \<Rightarrow> level_obj \<Rightarrow> bool" where
  "level_matches A currentFragDuration adjustedbw maxFetchDuration l =
     (let avgDuration = (case lv_details l of
            Some d \<Rightarrow> js_of (ld_totalduration d) / Num (of_nat (length (ld_fragments d)))
          | None \<Rightarrow> currentFragDuration);
          live = (case lv_details l of Some d \<Rightarrow> ld_live d | None \<Rightarrow> False);
          bitrate = level_bitrate l;
          fetchDuration = bitrate * avgDuration / adjustedbw
      in bitrate < adjustedbw \<and>
         (\<not> js_true fetchDuration \<or> live \<and> \<not> js_true (ab_bitrateTestDelay A) \<or> fetchDuration < maxFetchDuration))"

function findBestLevel ::
  "abr \<Rightarrow> int \<Rightarrow> real js \<Rightarrow> real js \<Rightarrow> int \<Rightarrow> int \<Rightarrow> real js \<Rightarrow> real js \<Rightarrow> real js \<Rightarrow> level_obj list \<Rightarrow> int result" where
  "findBestLevel A currentLevel currentFragDuration currentBw minLevel i maxFetchDuration bwFactor bwUpFactor levels =
     (if i < minLevel then Inr (- 1)
      else case elem levels i of
        None \<Rightarrow> Inl TypeError
      | Some l \<Rightarrow>
          let adjustedbw = (if i \<le> currentLevel then bwFactor else bwUpFactor) * currentBw
          in if level_matches A currentFragDuration adjustedbw maxFetchDuration l then Inr i
             else findBestLevel A currentLevel currentFragDuration currentBw minLevel (i - 1) maxFetchDuration bwFactor bwUpFactor
               levels)"
  by pat_completeness auto
termination
  by (relation "measure (\<lambda>(A, c, d, bw, m, i, r). nat (i - m + 1))") auto

declare findBestLevel.simps [simp del]

definition avg_bandwidth :: "hls_config \<Rightarrow> abr \<Rightarrow> real js" where
  "avg_bandwidth config A =
     (case ab_bwEstimator A of Some b \<Rightarrow> bw_getEstimate b | None \<Rightarrow> Num (cf_abrEwmaDefaultEstimate config))"

text \<open>The time until the playback buffer is exhausted.\<close>

definition starvation_delay :: "hls_config \<Rightarrow> media_element option \<Rightarrow> real js" where
  "starvation_delay config v =
     (let pos = (case v of Some m \<Rightarrow> md_currentTime m | None \<Rightarrow> 0);
          playbackRate = (case v of Some m \<Rightarrow> if md_playbackRate m \<noteq> 0 then \<bar>md_playbackRate m\<bar> else 1 | None \<Rightarrow> 1)
      in Num (of_rat (bi_end (bufferInfo (map_option md_buffered v) pos (cf_maxBufferHole config)) - pos)) /
         Num (of_rat playbackRate))"

text \<open>The rebuffering that is accepted when no level avoids it, and the factors that then apply.\<close>

definition second_try :: "hls_config \<Rightarrow> media_element option \<Rightarrow> abr \<Rightarrow> real js \<times> real js \<times> real js" where
  "second_try config v A =
     (let currentFragDuration = (case ab_fragCurrent A of Some f \<Rightarrow> js_of (fr_duration f) | None \<Rightarrow> Num 0);
          capped = (\<lambda>limit. if js_true currentFragDuration then js_min currentFragDuration limit else limit)
      in if starvation_delay config v = Num 0 \<and> js_true (ab_bitrateTestDelay A)
         then (capped (Num (cf_maxLoadingDelay config)) - ab_bitrateTestDelay A, Num 1, Num 1)
         else (capped (Num (cf_maxStarvationDelay config)), Num (cf_abrBandWidthFactor config), Num (cf_abrBandWidthUpFactor config)))"

definition nextABRAutoLevel ::
  "hls_config \<Rightarrow> media_element option \<Rightarrow> int \<Rightarrow> int \<Rightarrow> level_obj list \<Rightarrow> abr \<Rightarrow> int result" where
  "nextABRAutoLevel config v minLevel maxLevel levels A =
     (let currentLevel = ab_lastLoadedFragLevel A;
          currentFragDuration = (case ab_fragCurrent A of Some f \<Rightarrow> js_of (fr_duration f) | None \<Rightarrow> Num 0);
          avgbw = avg_bandwidth config A;
          bufferStarvationDelay = starvation_delay config v;
          best = (\<lambda>maxFetchDuration bwFactor bwUpFactor.
            findBestLevel A currentLevel currentFragDuration avgbw minLevel maxLevel maxFetchDuration bwFactor bwUpFactor levels)
      in case best bufferStarvationDelay (Num (cf_abrBandWidthFactor config)) (Num (cf_abrBandWidthUpFactor config)) of
           Inl err \<Rightarrow> Inl err
         | Inr bestLevel \<Rightarrow>
             if bestLevel \<ge> 0 then Inr bestLevel
             else
               let (maxStarvationDelay, bwFactor, bwUpFactor) = second_try config v A
               in map_sum id (\<lambda>n. max n 0) (best (bufferStarvationDelay + maxStarvationDelay) bwFactor bwUpFactor))"

definition abr_nextAutoLevel ::
  "hls_config \<Rightarrow> media_element option \<Rightarrow> int \<Rightarrow> int \<Rightarrow> level_obj list \<Rightarrow> abr \<Rightarrow> int result" where
  "abr_nextAutoLevel config v minLevel maxLevel levels A =
     (let forced = ab_nextAutoLevel A;
          reliable = (case ab_bwEstimator A of Some b \<Rightarrow> canEstimate b | None \<Rightarrow> False)
      in if forced \<noteq> - 1 \<and> \<not> reliable then Inr forced
         else map_sum id (\<lambda>n. if forced \<noteq> - 1 then min forced n else n) (nextABRAutoLevel config v minLevel maxLevel levels A))"

definition hls_nextAutoLevel ::
  "hls_config \<Rightarrow> media_element option \<Rightarrow> int \<Rightarrow> level_obj list option \<Rightarrow> abr \<Rightarrow> int result" where
  "hls_nextAutoLevel config v autoLevelCapping levels A =
     (let lo = minAutoLevel config levels; hi = maxAutoLevel autoLevelCapping levels
      in map_sum id (\<lambda>n. min (max n lo) hi)
           (abr_nextAutoLevel config v lo hi (case levels of None \<Rightarrow> [] | Some ls \<Rightarrow> ls) A))"

definition hls_set_nextAutoLevel :: "hls_config \<Rightarrow> level_obj list option \<Rightarrow> int \<Rightarrow> abr \<Rightarrow> abr" where
  "hls_set_nextAutoLevel config levels nextLevel A = A\<lparr>ab_nextAutoLevel := max (minAutoLevel config levels) nextLevel\<rparr>"

end
