(* ===== verification/Level_Controller.thy ===== *)
theory Level_Controller
  imports Abr_Controller
begin

text \<open>
  The quality levels of the player: \<open>src/controller/level-controller.js\<close>, the getters and setters of \<open>src/hls.js\<close> that go
  through it, and the check of \<open>src/controller/abr-controller.js\<close> that aborts a slow load, because it sets the next level.
  The state holds both controllers; events and timers that the code starts are listed in the order it does.
\<close>

datatype quality_event =
    LevelSwitch int
  | LevelSwitching int
  | LevelLoading "string option" int nat \<comment> \<open>URL, level, index of the URL\<close>
  | ManifestParsed "level_obj list" "int option" bool bool bool \<comment> \<open>first level, audio, video, alternate audio\<close>
  | IncompatibleCodecs
  | LevelSwitchError int
  | SetTimer "real js"
  | ClearTimer
  | AbortLoad
  | FragLoadEmergencyAborted frag load_stats

record quality =
  q_config :: hls_config
  q_levels :: "level_obj list option"
  q_level :: "int option"
  q_manualLevel :: int
  q_startLevel :: "int option"
  q_firstLevel :: "int option"
  q_canload :: bool
  q_timer :: bool
  q_autoLevelCapping :: int
  q_abr :: abr
  q_events :: "quality_event list"

definition new_quality :: "hls_config \<Rightarrow> quality" where
  "new_quality config = \<lparr>q_config = config, q_levels = None, q_level = None, q_manualLevel = - 1, q_startLevel = None,
     q_firstLevel = None, q_canload = False, q_timer = False, q_autoLevelCapping = - 1, q_abr = new_AbrController, q_events = []\<rparr>"

definition signal :: "quality_event list \<Rightarrow> quality \<Rightarrow> quality" where
  "signal es q = q\<lparr>q_events := q_events q @ es\<rparr>"

subsection \<open>Timer and playlist of the current level\<close>

definition cleanTimer :: "quality \<Rightarrow> quality" where
  "cleanTimer q = (if q_timer q then (signal [ClearTimer] q)\<lparr>q_timer := False\<rparr> else q)"

definition arm_timer :: "real js \<Rightarrow> quality \<Rightarrow> quality" where
  "arm_timer delay q = (signal [SetTimer delay] q)\<lparr>q_timer := True\<rparr>"

definition level_url :: "level_obj \<Rightarrow> string option" where
  "level_url l = elem (lv_url l) (int (lv_urlId l))"

definition level_tick :: "quality \<Rightarrow> quality" where
  "level_tick q =
     (case q_level q of
        Some levelId \<Rightarrow>
          (case (q_levels q, q_canload q) of
             (Some levels, True) \<Rightarrow>
               (case elem levels levelId of
                  Some l \<Rightarrow> signal [LevelLoading (level_url l) levelId (lv_urlId l)] q
                | None \<Rightarrow> q)
           | _ \<Rightarrow> q)
      | None \<Rightarrow> q)"

definition refresh_level :: "level_obj \<Rightarrow> level_obj" where
  "refresh_level l =
     l\<lparr>lv_loadError := 0, lv_details := (case lv_details l of Some d \<Rightarrow> if ld_live d then None else Some d | None \<Rightarrow> None)\<rparr>"

definition level_startLoad :: "quality \<Rightarrow> quality" where
  "level_startLoad q =
     (let q = q\<lparr>q_canload := True, q_levels := map_option (map refresh_level) (q_levels q)\<rparr>
      in if q_timer q then level_tick q else q)"

definition level_stopLoad :: "quality \<Rightarrow> quality" where
  "level_stopLoad q = q\<lparr>q_canload := False\<rparr>"

definition level_destroy :: "quality \<Rightarrow> quality" where
  "level_destroy q = (cleanTimer q)\<lparr>q_manualLevel := - 1\<rparr>"

subsection \<open>The levels of a manifest\<close>

definition level_of_master :: "master_level \<Rightarrow> level_obj" where
  "level_of_master m =
     \<lparr>lv_url = [ml_url m], lv_urlId = 0, lv_bitrate = Some (ml_bitrate m), lv_width = map_option fst (ml_resolution m),
      lv_height = map_option snd (ml_resolution m), lv_audioAttr = ml_attrs m ''AUDIO'', lv_videoCodec = ml_videoCodec m,
      lv_audioCodec = ml_audioCodec m, lv_details = ml_details m, lv_loadError = 0, lv_level = None, lv_realBitrate = NotNum,
      lv_loaded = None\<rparr>"

definition level_of_playlist :: "string \<Rightarrow> level_details \<Rightarrow> level_obj" where
  "level_of_playlist url details =
     \<lparr>lv_url = [url], lv_urlId = 0, lv_bitrate = None, lv_width = None, lv_height = None, lv_audioAttr = None,
      lv_videoCodec = None, lv_audioCodec = None, lv_details = Some details, lv_loadError = 0, lv_level = None,
      lv_realBitrate = NotNum, lv_loaded = None\<rparr>"

text \<open>Redundant levels: \<open>bitrateSet\<close> maps a bitrate to the index of its level.\<close>

definition erase_mp3 :: "bool \<Rightarrow> level_obj \<Rightarrow> level_obj" where
  "erase_mp3 brokenmp4inmp3 l =
     (case lv_audioCodec l of
        Some c \<Rightarrow> if brokenmp4inmp3 \<and> contains ''mp4a.40.34'' c then l\<lparr>lv_audioCodec := None\<rparr> else l
      | None \<Rightarrow> l)"

definition regroup_step ::
  "bool \<Rightarrow> level_obj \<Rightarrow> level_obj list \<times> (js_int option \<Rightarrow> nat option) \<Rightarrow> level_obj list \<times> (js_int option \<Rightarrow> nat option)" where
  "regroup_step brokenmp4inmp3 l = (\<lambda>(levels0, bitrateSet).
     let l = erase_mp3 brokenmp4inmp3 l in
     case bitrateSet (lv_bitrate l) of
       None \<Rightarrow> (levels0 @ [l\<lparr>lv_urlId := 0\<rparr>], bitrateSet(lv_bitrate l \<mapsto> length levels0))
     | Some i \<Rightarrow> (levels0[i := (levels0 ! i)\<lparr>lv_url := lv_url (levels0 ! i) @ lv_url l\<rparr>], bitrateSet))"

definition regroup :: "bool \<Rightarrow> level_obj list \<Rightarrow> level_obj list" where
  "regroup brokenmp4inmp3 ls = fst (fold (regroup_step brokenmp4inmp3) ls ([], \<lambda>_. None))"

definition codec_ok :: "(string \<Rightarrow> bool) \<Rightarrow> string option \<Rightarrow> bool" where
  "codec_ok supported c \<longleftrightarrow> \<not> filled_string c \<or> (case c of Some s \<Rightarrow> supported s | None \<Rightarrow> True)"

definition usable_levels :: "(string \<Rightarrow> bool) \<Rightarrow> bool \<Rightarrow> bool \<Rightarrow> level_obj list \<Rightarrow> level_obj list" where
  "usable_levels supported videoCodecFound audioCodecFound levels0 =
     filter (\<lambda>l. codec_ok supported (lv_audioCodec l) \<and> codec_ok supported (lv_videoCodec l))
       (if videoCodecFound \<and> audioCodecFound then filter (\<lambda>l. filled_string (lv_videoCodec l)) levels0 else levels0)"

definition bitrate_le :: "level_obj \<Rightarrow> level_obj \<Rightarrow> bool" where
  "bitrate_le a b \<longleftrightarrow> \<not> (Num (0 :: rat)) < bitrate_js (lv_bitrate a) - bitrate_js (lv_bitrate b)"

fun index_of_bitrate :: "js_int option \<Rightarrow> int \<Rightarrow> level_obj list \<Rightarrow> int option" where
  "index_of_bitrate b i [] = None"
| "index_of_bitrate b i (l # ls) = (if lv_bitrate l = b \<and> b \<noteq> Some NaN then Some i else index_of_bitrate b (i + 1) ls)"

definition onManifestLoaded :: "(string \<Rightarrow> bool) \<Rightarrow> bool \<Rightarrow> level_obj list \<Rightarrow> bool \<Rightarrow> quality \<Rightarrow> quality" where
  "onManifestLoaded supported brokenmp4inmp3 data_levels altAudio q =
     (let videoCodecFound = list_ex (\<lambda>l. filled_string (lv_videoCodec l)) data_levels;
          audioCodecFound = list_ex (\<lambda>l. filled_string (lv_audioCodec (erase_mp3 brokenmp4inmp3 l)) \<or> filled_string (lv_audioAttr l))
            data_levels;
          levels = usable_levels supported videoCodecFound audioCodecFound (regroup brokenmp4inmp3 data_levels)
      in case levels of
           [] \<Rightarrow> signal [IncompatibleCodecs] q
         | first # _ \<Rightarrow>
             let sorted = js_sort bitrate_le levels;
                 firstLevel = (case index_of_bitrate (lv_bitrate first) 0 sorted of Some i \<Rightarrow> Some i | None \<Rightarrow> q_firstLevel q)
             in signal [ManifestParsed sorted firstLevel audioCodecFound videoCodecFound altAudio]
                  (q\<lparr>q_levels := Some sorted, q_firstLevel := firstLevel\<rparr>))"

subsection \<open>The level in use\<close>

definition setLevelInternal :: "int \<Rightarrow> level_obj list \<Rightarrow> quality \<Rightarrow> quality" where
  "setLevelInternal newLevel levels q =
     (case elem levels newLevel of
        None \<Rightarrow> signal [LevelSwitchError newLevel] q
      | Some l \<Rightarrow>
          let q = cleanTimer q;
              q = (if q_level q \<noteq> Some newLevel then
                     signal [LevelSwitch newLevel, LevelSwitching newLevel]
                       (q\<lparr>q_level := Some newLevel, q_levels := Some (levels[nat newLevel := l\<lparr>lv_level := Some newLevel\<rparr>])\<rparr>)
                   else q)
          in if (case lv_details l of None \<Rightarrow> True | Some d \<Rightarrow> ld_live d)
             then signal [LevelLoading (level_url l) newLevel (lv_urlId l)] q
             else q)"

definition set_level :: "int \<Rightarrow> quality \<Rightarrow> quality result" where
  "set_level newLevel q =
     (case q_levels q of
        None \<Rightarrow> Inr q
      | Some levels \<Rightarrow>
          if int (length levels) > newLevel then
            if q_level q \<noteq> Some newLevel then Inr (setLevelInternal newLevel levels q)
            else case elem levels newLevel of
                None \<Rightarrow> Inl TypeError
              | Some l \<Rightarrow> Inr (if lv_details l = None then setLevelInternal newLevel levels q else q)
          else Inr q)"

definition set_manualLevel :: "int \<Rightarrow> quality \<Rightarrow> quality result" where
  "set_manualLevel newLevel q =
     (let q = q\<lparr>q_manualLevel := newLevel, q_startLevel := (if q_startLevel q = None then Some newLevel else q_startLevel q)\<rparr>
      in if newLevel \<noteq> - 1 then set_level newLevel q else Inr q)"

definition get_startLevel :: "quality \<Rightarrow> int option" where
  "get_startLevel q =
     (case q_startLevel q of
        Some n \<Rightarrow> Some n
      | None \<Rightarrow> (case cf_startLevel (q_config q) of Some n \<Rightarrow> Some n | None \<Rightarrow> q_firstLevel q))"

definition hls_set_startLevel :: "int \<Rightarrow> quality \<Rightarrow> quality" where
  "hls_set_startLevel newLevel q =
     q\<lparr>q_startLevel := Some (if newLevel \<noteq> - 1 then max newLevel (minAutoLevel (q_config q) (q_levels q)) else newLevel)\<rparr>"

definition set_nextAutoLevel :: "int \<Rightarrow> quality \<Rightarrow> quality" where
  "set_nextAutoLevel n q = q\<lparr>q_abr := hls_set_nextAutoLevel (q_config q) (q_levels q) n (q_abr q)\<rparr>"

definition get_nextLoadLevel :: "media_element option \<Rightarrow> quality \<Rightarrow> int result" where
  "get_nextLoadLevel v q =
     (if q_manualLevel q \<noteq> - 1 then Inr (q_manualLevel q)
      else hls_nextAutoLevel (q_config q) v (q_autoLevelCapping q) (q_levels q) (q_abr q))"

definition set_nextLoadLevel :: "int \<Rightarrow> quality \<Rightarrow> quality result" where
  "set_nextLoadLevel nextLevel q =
     map_sum id (\<lambda>q. if q_manualLevel q = - 1 then set_nextAutoLevel nextLevel q else q) (set_level nextLevel q)"

subsection \<open>Errors\<close>

record error_data =
  ed_type :: string
  ed_details :: string
  ed_fatal :: bool
  ed_frag :: "frag option"
  ed_contextLevel :: "int option"
  ed_level :: "int option"
  ed_parent :: string
  ed_levelRetry :: bool

text \<open>The level that an error is about.\<close>

definition error_level :: "error_data \<Rightarrow> int option result" where
  "error_level data =
     (if ed_details data \<in> {''fragLoadError'', ''fragLoadTimeOut'', ''fragLoopLoadingError'', ''keyLoadError'', ''keyLoadTimeOut''} then
        (case ed_frag data of None \<Rightarrow> Inl TypeError | Some f \<Rightarrow> Inr (Some (fr_level f)))
      else if ed_details data = ''levelLoadError'' \<or> ed_details data = ''levelLoadTimeOut'' then Inr (ed_contextLevel data)
      else if ed_details data = ''remuxAllocError'' then Inr (ed_level data)
      else Inr None)"

definition levelError :: "error_data \<Rightarrow> bool" where
  "levelError data \<longleftrightarrow> ed_details data = ''levelLoadError'' \<or> ed_details data = ''levelLoadTimeOut''"

definition media_buffered :: "media_element option \<Rightarrow> bool" where
  "media_buffered v =
     (case v of
        None \<Rightarrow> False
      | Some m \<Rightarrow> isBuffered (Some (md_buffered m)) (md_currentTime m) \<and> isBuffered (Some (md_buffered m)) (md_currentTime m + 1 / 2))"

text \<open>No redundant playlist is left: switch down, discard, retry or give up.\<close>

definition no_redundancy :: "media_element option \<Rightarrow> error_data \<Rightarrow> int \<Rightarrow> level_obj \<Rightarrow> quality \<Rightarrow> quality \<times> error_data" where
  "no_redundancy v data levelId level q =
     (if q_manualLevel q = - 1 \<and> levelId \<noteq> 0 then (set_nextAutoLevel (max 0 (levelId - 1)) q, data)
      else if (case lv_details level of Some d \<Rightarrow> ld_live d | None \<Rightarrow> False) then
        (if levelError data then q\<lparr>q_level := None\<rparr> else q, data)
      else if levelError data then
        (if media_buffered v then
           (arm_timer (Num (of_rat (cf_levelLoadingRetryDelay (q_config q)))) q, data\<lparr>ed_levelRetry := True\<rparr>)
         else (cleanTimer (q\<lparr>q_level := None\<rparr>), data\<lparr>ed_fatal := True\<rparr>))
      else (q, data))"

definition level_onError :: "media_element option \<Rightarrow> error_data \<Rightarrow> quality \<Rightarrow> (quality \<times> error_data) result" where
  "level_onError v data q =
     (if ed_fatal data then Inr (if ed_type data = ''networkError'' then cleanTimer q else q, data)
      else case error_level data of
        Inl err \<Rightarrow> Inl err
      | Inr None \<Rightarrow> Inr (q, data)
      | Inr (Some levelId) \<Rightarrow>
          (case (case q_levels q of None \<Rightarrow> None | Some levels \<Rightarrow> map_option (\<lambda>l. (levels, l)) (elem levels levelId)) of
             None \<Rightarrow> Inl TypeError
           | Some (levels, level) \<Rightarrow>
               let level = level\<lparr>lv_loadError := Suc (lv_loadError level)\<rparr>;
                   nbRedundantLevel = length (lv_url level)
               in if nbRedundantLevel > 1 \<and> lv_loadError level < nbRedundantLevel then
                    Inr (q\<lparr>q_levels := Some (levels[nat levelId :=
                          level\<lparr>lv_urlId := (lv_urlId level + 1) mod nbRedundantLevel, lv_details := None\<rparr>])\<rparr>, data)
                  else Inr (no_redundancy v data levelId level (q\<lparr>q_levels := Some (levels[nat levelId := level])\<rparr>))))"

subsection \<open>Loaded fragments and playlists\<close>

text \<open>Both controllers listen to \<open>FRAG_LOADED\<close>; the choice of levels is registered first.\<close>

definition reset_loadError :: "int \<Rightarrow> level_obj list \<Rightarrow> level_obj list" where
  "reset_loadError i levels = (case elem levels i of Some l \<Rightarrow> levels[nat i := l\<lparr>lv_loadError := 0\<rparr>] | None \<Rightarrow> levels)"

definition level_onFragLoaded :: "frag \<Rightarrow> quality \<Rightarrow> quality result" where
  "level_onFragLoaded frag q =
     (if fr_type frag = ''main'' then
        case q_levels q of
          None \<Rightarrow> Inl TypeError
        | Some levels \<Rightarrow> Inr (q\<lparr>q_levels := Some (reset_loadError (fr_level frag) levels)\<rparr>)
      else Inr q)"

definition quality_onFragLoaded :: "frag \<Rightarrow> load_stats \<Rightarrow> quality \<Rightarrow> (quality \<times> load_stats) result" where
  "quality_onFragLoaded frag stats q =
     (case abr_onFragLoaded (q_config q) frag stats (case q_levels q of Some ls \<Rightarrow> ls | None \<Rightarrow> []) (q_abr q) of
        Inl err \<Rightarrow> Inl err
      | Inr (A, levels, stats) \<Rightarrow>
          map_sum id (\<lambda>q. (q, stats))
            (level_onFragLoaded frag (q\<lparr>q_abr := A, q_levels := map_option (\<lambda>_. levels) (q_levels q)\<rparr>)))"

definition reload_interval :: "real js \<Rightarrow> real js \<Rightarrow> level_details \<Rightarrow> level_details option \<Rightarrow> real js" where
  "reload_interval now trequest newDetails curDetails =
     (let target = (if truthy (ld_averagetargetduration newDetails) then ld_averagetargetduration newDetails
                    else ld_targetduration newDetails);
          interval = Num 1000 * js_of target;
          interval = (case curDetails of
            Some cur \<Rightarrow> if ld_endSN newDetails = ld_endSN cur then interval / Num 2 else interval
          | None \<Rightarrow> interval)
      in js_max (Num 1000) (js_rounded (interval - (now - trequest))))"

definition level_onLevelLoaded :: "real js \<Rightarrow> real js \<Rightarrow> int \<Rightarrow> level_details \<Rightarrow> quality \<Rightarrow> quality result" where
  "level_onLevelLoaded now trequest levelId newDetails q =
     (if q_level q = Some levelId then
        case (case q_levels q of None \<Rightarrow> None | Some levels \<Rightarrow> map_option (\<lambda>l. (levels, l)) (elem levels levelId)) of
          None \<Rightarrow> Inl TypeError
        | Some (levels, l) \<Rightarrow>
            let q = q\<lparr>q_levels := Some (levels[nat levelId := l\<lparr>lv_loadError := 0\<rparr>])\<rparr>
            in Inr (if ld_live newDetails then arm_timer (reload_interval now trequest newDetails (lv_details l)) q
                    else q\<lparr>q_timer := False\<rparr>)
      else Inr q)"

subsection \<open>Aborting slow loads\<close>

text \<open>
  \<open>_abandonRulesCheck\<close>: the loop over the lower levels, with the delay of the last level that it computed; then the check.
\<close>

function scan_down :: "level_obj list \<Rightarrow> real js \<Rightarrow> real js \<Rightarrow> real js \<Rightarrow> int \<Rightarrow> int \<Rightarrow> real js \<Rightarrow> (int \<times> real js) result" where
  "scan_down levels duration loadRate bufferStarvationDelay minLevel nextLoadLevel delay =
     (if nextLoadLevel > minLevel then
        case elem levels nextLoadLevel of
          None \<Rightarrow> Inl TypeError
        | Some l \<Rightarrow>
            let delay = duration * level_bitrate l / (Num (64 / 10) * loadRate)
            in if delay < bufferStarvationDelay then Inr (nextLoadLevel, delay)
               else scan_down levels duration loadRate bufferStarvationDelay minLevel (nextLoadLevel - 1) delay
      else Inr (nextLoadLevel, delay))"
  by pat_completeness auto
termination
  by (relation "measure (\<lambda>(ls, d, r, s, m, n, x). nat (n - m))") auto

declare scan_down.simps [simp del]

definition emergency_switch :: "frag \<Rightarrow> load_stats \<Rightarrow> real js \<Rightarrow> int \<Rightarrow> quality \<Rightarrow> quality result" where
  "emergency_switch frag stats requestDelay nextLoadLevel q =
     (case set_nextLoadLevel nextLoadLevel q of
        Inl err \<Rightarrow> Inl err
      | Inr q \<Rightarrow>
          (case ab_bwEstimator (q_abr q) of
             None \<Rightarrow> Inl TypeError
           | Some b \<Rightarrow>
               Inr (signal [AbortLoad, FragLoadEmergencyAborted frag stats]
                 (q\<lparr>q_abr := abr_clearTimer ((q_abr q)\<lparr>ab_bwEstimator := Some (bw_sample requestDelay (st_loaded stats) b)\<rparr>)\<rparr>))))"

text \<open>
  The times that the check compares: when the rest of the fragment arrives at the rate so far, and when the buffer runs
  empty.
\<close>

definition load_rate :: "load_stats \<Rightarrow> real js \<Rightarrow> real js" where
  "load_rate stats requestDelay =
     js_max (Num 1) (if js_true (st_bw stats) then st_bw stats / Num 8 else st_loaded stats * Num 1000 / requestDelay)"

definition expected_len :: "frag \<Rightarrow> load_stats \<Rightarrow> level_obj \<Rightarrow> real js" where
  "expected_len frag stats level =
     (if js_true (st_total stats) then st_total stats
      else js_max (st_loaded stats) (js_rounded (js_of (fr_duration frag) * level_bitrate level / Num 8)))"

definition starving :: "hls_config \<Rightarrow> media_element \<Rightarrow> real js" where
  "starving config m =
     Num (of_rat (bi_end (bufferInfo (Some (md_buffered m)) (md_currentTime m) (cf_maxBufferHole config)) - md_currentTime m)) /
     Num (of_rat \<bar>md_playbackRate m\<bar>)"

definition abandon_level :: "real js \<Rightarrow> media_element \<Rightarrow> frag \<Rightarrow> load_stats \<Rightarrow> quality \<Rightarrow> int option result" where
  "abandon_level requestDelay m frag stats q =
     (case (case q_levels q of None \<Rightarrow> None | Some levels \<Rightarrow> map_option (\<lambda>l. (levels, l)) (elem levels (fr_level frag))) of
        None \<Rightarrow> Inl TypeError
      | Some (levels, level) \<Rightarrow>
          let duration = js_of (fr_duration frag);
              playbackRate = Num (of_rat \<bar>md_playbackRate m\<bar>);
              loadRate = load_rate stats requestDelay;
              fragLoadedDelay = (expected_len frag stats level - st_loaded stats) / loadRate;
              bufferStarvationDelay = starving (q_config q) m
          in if bufferStarvationDelay < Num 2 * duration / playbackRate \<and> bufferStarvationDelay < fragLoadedDelay then
               case scan_down levels duration loadRate bufferStarvationDelay (minAutoLevel (q_config q) (q_levels q))
                      (fr_level frag - 1) NotNum of
                 Inl err \<Rightarrow> Inl err
               | Inr (nextLoadLevel, delay) \<Rightarrow> Inr (if delay < fragLoadedDelay then Some nextLoadLevel else None)
             else Inr None)"

definition monitored :: "media_element \<Rightarrow> frag \<Rightarrow> real js \<Rightarrow> bool" where
  "monitored m frag requestDelay \<longleftrightarrow>
     (\<not> md_paused m \<and> md_playbackRate m \<noteq> 0 \<or> md_readyState m = 0) \<and> fr_autoLevel frag \<and> fr_level frag \<noteq> 0 \<and>
     Num 500 * js_of (fr_duration frag) / Num (of_rat \<bar>md_playbackRate m\<bar>) < requestDelay"

definition abandonRulesCheck ::
  "real js \<Rightarrow> media_element option \<Rightarrow> frag \<Rightarrow> load_stats option option \<Rightarrow> quality \<Rightarrow> quality result" where
  "abandonRulesCheck now v frag loader q =
     (case loader of
        None \<Rightarrow> Inr (q\<lparr>q_abr := abr_clearTimer (q_abr q)\<rparr>)
      | Some None \<Rightarrow> Inr q
      | Some (Some stats) \<Rightarrow>
          if st_aborted stats then Inr (q\<lparr>q_abr := abr_clearTimer (q_abr q)\<rparr>)
          else case v of
            None \<Rightarrow> Inr q
          | Some m \<Rightarrow>
              let requestDelay = now - st_trequest stats
              in if monitored m frag requestDelay then
                   case abandon_level requestDelay m frag stats q of
                     Inl err \<Rightarrow> Inl err
                   | Inr None \<Rightarrow> Inr q
                   | Inr (Some nextLoadLevel) \<Rightarrow> emergency_switch frag stats requestDelay nextLoadLevel q
                 else Inr q)"

end
