(* ===== verification/Quality_Laws.thy ===== *)
theory Quality_Laws
  imports Level_Controller
begin

text \<open>Lemmas on the choice of levels: what the search returns, the limits, redundant levels, and the state of the levels.\<close>

subsection \<open>The search for the best level\<close>

definition level_fits ::
  "abr \<Rightarrow> int \<Rightarrow> real js \<Rightarrow> real js \<Rightarrow> real js \<Rightarrow> real js \<Rightarrow> real js \<Rightarrow> level_obj list \<Rightarrow> int \<Rightarrow> bool" where
  "level_fits A currentLevel dur bw maxFetch f u levels i =
     (case elem levels i of
        None \<Rightarrow> False
      | Some l \<Rightarrow> level_matches A dur ((if i \<le> currentLevel then f else u) * bw) maxFetch l)"

lemma elem_Some: "0 \<le> i \<Longrightarrow> i < int (length xs) \<Longrightarrow> elem xs i = Some (xs ! nat i)"
  by (simp add: elem_def nat_less_iff)

lemma elem_SomeD: "elem xs i = Some x \<Longrightarrow> 0 \<le> i \<and> i < int (length xs) \<and> x = xs ! nat i \<and> x \<in> set xs"
  by (auto simp: elem_def split: if_splits)

lemma finite_range_filter [simp]: "finite {j. (lo :: int) \<le> j \<and> j \<le> i \<and> P j}"
  by (rule finite_subset [of _ "{lo..i}"]) auto

lemma findBestLevel_highest:
  assumes "0 \<le> lo" "i < int (length levels)"
  shows "findBestLevel A c dur bw lo i mf f u levels =
    Inr (if \<exists>j \<in> {lo..i}. level_fits A c dur bw mf f u levels j
         then Max {j \<in> {lo..i}. level_fits A c dur bw mf f u levels j} else - 1)"
  using assms
proof (induction A c dur bw lo i mf f u levels rule: findBestLevel.induct)
  case (1 A c dur bw lo i mf f u levels)
  let ?fits = "level_fits A c dur bw mf f u levels"
  show ?case
  proof (cases "i < lo")
    case True
    then show ?thesis by (simp add: findBestLevel.simps)
  next
    case False
    then have el: "elem levels i = Some (levels ! nat i)" using 1 by (simp add: elem_Some)
    show ?thesis
    proof (cases "?fits i")
      case True
      have "Max {j \<in> {lo..i}. ?fits j} = i" using True False by (intro Max_eqI) auto
      moreover have "\<exists>j \<in> {lo..i}. ?fits j" using True False by (intro bexI [of _ i]) auto
      moreover have "findBestLevel A c dur bw lo i mf f u levels = Inr i"
        using True False el by (subst findBestLevel.simps) (simp add: level_fits_def)
      ultimately show ?thesis by simp
    next
      case no: False
      have split: "j \<in> {lo..i} \<longleftrightarrow> j = i \<or> j \<in> {lo..i - 1}" for j using False by auto
      have "{j \<in> {lo..i}. ?fits j} = {j \<in> {lo..i - 1}. ?fits j}" "(\<exists>j \<in> {lo..i}. ?fits j) \<longleftrightarrow> (\<exists>j \<in> {lo..i - 1}. ?fits j)"
        using no by (auto simp only: split)
      moreover have "findBestLevel A c dur bw lo i mf f u levels = findBestLevel A c dur bw lo (i - 1) mf f u levels"
        using no False el by (subst findBestLevel.simps) (simp add: level_fits_def)
      ultimately show ?thesis using 1(1) [OF False el refl] no el 1 by (simp add: level_fits_def)
    qed
  qed
qed

lemma findBestLevel_range:
  assumes "0 \<le> lo" "i < int (length levels)"
  shows "\<exists>n. findBestLevel A c dur bw lo i mf f u levels = Inr n \<and> (n = - 1 \<or> lo \<le> n \<and> n \<le> i)"
proof -
  let ?S = "{j \<in> {lo..i}. level_fits A c dur bw mf f u levels j}"
  have "?S \<noteq> {} \<Longrightarrow> lo \<le> Max ?S \<and> Max ?S \<le> i" using Max_in [of ?S] by simp
  then show ?thesis unfolding findBestLevel_highest [OF assms] by (cases "?S = {}") auto
qed

subsection \<open>The limits\<close>

lemma first_above_range:
  "0 \<le> i \<Longrightarrow> ls \<noteq> [] \<Longrightarrow> 0 \<le> first_above b i ls \<and> first_above b i ls < i + int (length ls)"
  by (induction b i ls rule: first_above.induct) (auto, (fastforce simp: neq_Nil_conv)+)

lemma minAutoLevel_range: "ls \<noteq> [] \<Longrightarrow> 0 \<le> minAutoLevel config (Some ls) \<and> minAutoLevel config (Some ls) < int (length ls)"
  using first_above_range [of 0 ls] by (simp add: minAutoLevel_def)

lemma maxAutoLevel_range:
  "ls \<noteq> [] \<Longrightarrow> - 1 \<le> cap \<Longrightarrow> cap < int (length ls) \<Longrightarrow> 0 \<le> maxAutoLevel cap (Some ls) \<and> maxAutoLevel cap (Some ls) < int (length ls)"
  by (cases ls) (auto simp: maxAutoLevel_def)

lemma nextABRAutoLevel_total:
  assumes "0 \<le> lo" "hi < int (length levels)"
  shows "\<exists>n \<ge> 0. nextABRAutoLevel config v lo hi levels A = Inr n \<and> (n = 0 \<or> lo \<le> n \<and> n \<le> hi)"
proof -
  define best where "best = (\<lambda>mf f u. findBestLevel A (ab_lastLoadedFragLevel A)
    (case ab_fragCurrent A of Some f \<Rightarrow> js_of (fr_duration f) | None \<Rightarrow> Num 0) (avg_bandwidth config A) lo hi mf f u levels)"
  have best: "\<exists>n. best mf f u = Inr n \<and> (n = - 1 \<or> lo \<le> n \<and> n \<le> hi)" for mf f u
    unfolding best_def by (rule findBestLevel_range [OF assms])
  have fallback: "\<exists>n \<ge> 0. map_sum id (\<lambda>n. max n 0) (best mf f u) = Inr n \<and> (n = 0 \<or> lo \<le> n \<and> n \<le> hi)" for mf f u
  proof -
    obtain n where "best mf f u = Inr n" "n = - 1 \<or> lo \<le> n \<and> n \<le> hi" using best by blast
    then show ?thesis using assms(1) by (intro exI [of _ "max n 0"]) auto
  qed
  obtain n where n: "best (starvation_delay config v) (Num (cf_abrBandWidthFactor config)) (Num (cf_abrBandWidthUpFactor config)) = Inr n"
      "n = - 1 \<or> lo \<le> n \<and> n \<le> hi"
    using best by blast
  have eq: "nextABRAutoLevel config v lo hi levels A =
    (case best (starvation_delay config v) (Num (cf_abrBandWidthFactor config)) (Num (cf_abrBandWidthUpFactor config)) of
       Inl err \<Rightarrow> Inl err
     | Inr b \<Rightarrow> if b \<ge> 0 then Inr b else
         (case second_try config v A of (m, f, u) \<Rightarrow> map_sum id (\<lambda>n. max n 0) (best (starvation_delay config v + m) f u)))"
    unfolding nextABRAutoLevel_def Let_def best_def second_try_def ..
  show ?thesis
    using n fallback by (cases "n \<ge> 0") (auto simp: eq split: prod.split)
qed

lemma hls_nextAutoLevel_range:
  assumes "ls \<noteq> []" "- 1 \<le> cap" "cap < int (length ls)"
  shows "\<exists>n. hls_nextAutoLevel config v cap (Some ls) A = Inr n \<and> 0 \<le> n \<and> n < int (length ls)"
proof -
  define lo hi where "lo = minAutoLevel config (Some ls)" "hi = maxAutoLevel cap (Some ls)"
  have r: "0 \<le> lo" "lo < int (length ls)" "0 \<le> hi" "hi < int (length ls)"
    using minAutoLevel_range maxAutoLevel_range assms by (auto simp: lo_hi_def)
  obtain n where "nextABRAutoLevel config v lo hi ls A = Inr n"
    using nextABRAutoLevel_total [OF r(1) r(4)] by blast
  then have "\<exists>n. abr_nextAutoLevel config v lo hi ls A = Inr n"
    by (simp add: abr_nextAutoLevel_def Let_def)
  then obtain n where "abr_nextAutoLevel config v lo hi ls A = Inr n" ..
  then show ?thesis using r by (auto simp: hls_nextAutoLevel_def Let_def lo_hi_def [symmetric])
qed

subsection \<open>Redundant levels\<close>

lemma erase_mp3_simps [simp]:
  "lv_url (erase_mp3 b l) = lv_url l" "lv_urlId (erase_mp3 b l) = lv_urlId l" "lv_bitrate (erase_mp3 b l) = lv_bitrate l"
  by (auto simp: erase_mp3_def split: option.splits)

text \<open>What the levels of a manifest are after redundant ones were joined.\<close>

definition regrouped :: "level_obj list \<Rightarrow> level_obj list \<Rightarrow> bool" where
  "regrouped data levels \<longleftrightarrow>
     distinct (map lv_bitrate levels) \<and> lv_bitrate ` set levels = lv_bitrate ` set data \<and>
     (\<forall>l \<in> set levels. lv_urlId l = 0 \<and> lv_url l = concat (map lv_url (filter (\<lambda>m. lv_bitrate m = lv_bitrate l) data)))"

text \<open>The map of the code is the position of each bitrate.\<close>

definition positions :: "level_obj list \<Rightarrow> (js_int option \<Rightarrow> nat option) \<Rightarrow> bool" where
  "positions levels bitrateSet \<longleftrightarrow>
     (\<forall>b. bitrateSet b = None \<longleftrightarrow> b \<notin> lv_bitrate ` set levels) \<and>
     (\<forall>b i. bitrateSet b = Some i \<longrightarrow> i < length levels \<and> lv_bitrate (levels ! i) = b)"

lemma regroup_step_keeps:
  assumes "regrouped data levels" "positions levels B" "regroup_step mp3 l (levels, B) = (levels', B')"
  shows "regrouped (data @ [l]) levels' \<and> positions levels' B'"
proof (cases "B (lv_bitrate l)")
  case None
  then have new: "lv_bitrate l \<notin> lv_bitrate ` set levels" "lv_bitrate l \<notin> lv_bitrate ` set data"
    using assms(1, 2) by (auto simp: positions_def regrouped_def)
  have l': "levels' = levels @ [(erase_mp3 mp3 l)\<lparr>lv_urlId := 0\<rparr>]" "B' = B(lv_bitrate l \<mapsto> length levels)"
    using assms(3) None by (auto simp: regroup_step_def Let_def)
  have "filter (\<lambda>m. lv_bitrate m = lv_bitrate l) data = []" using new(2) by (auto simp: filter_empty_conv image_iff)
  moreover have "lv_bitrate k \<noteq> lv_bitrate l" if "k \<in> set levels" for k using that new(1) by (metis imageI)
  moreover have "regrouped (data @ [l]) levels'"
    using assms(1) new calculation unfolding l' regrouped_def by auto
  moreover have "positions levels' B'"
    using assms(2) unfolding l' positions_def by (auto simp: nth_append intro: less_SucI)
  ultimately show ?thesis by blast
next
  case (Some i)
  then have i: "i < length levels" "lv_bitrate (levels ! i) = lv_bitrate l"
    using assms(2) by (auto simp: positions_def)
  define k where "k = (levels ! i)\<lparr>lv_url := lv_url (levels ! i) @ lv_url l\<rparr>"
  have l': "levels' = levels[i := k]" "B' = B" using assms(3) Some by (auto simp: regroup_step_def Let_def k_def)
  have bit: "map lv_bitrate levels' = map lv_bitrate levels"
    using i by (auto simp: l' k_def map_update intro!: nth_equalityI simp: nth_list_update)
  then have bits: "lv_bitrate ` set levels' = lv_bitrate ` set levels" by (metis set_map)
  have dist: "distinct (map lv_bitrate levels)" using assms(1) by (simp add: regrouped_def)
  have in_data: "lv_bitrate l \<in> lv_bitrate ` set data"
    using assms(1) i by (metis regrouped_def imageI nth_mem)
  have "lv_urlId x = 0 \<and> lv_url x = concat (map lv_url (filter (\<lambda>m. lv_bitrate m = lv_bitrate x) (data @ [l])))"
    if x: "x \<in> set levels'" for x
  proof -
    obtain j where j: "j < length levels" "x = levels' ! j" using x by (auto simp: l' in_set_conv_nth)
    show ?thesis
    proof (cases "j = i")
      case True
      then show ?thesis using j i assms(1) by (simp add: l' k_def regrouped_def)
    next
      case False
      then have "lv_bitrate (levels ! j) \<noteq> lv_bitrate l"
        using dist j(1) i by (metis nth_eq_iff_index_eq length_map nth_map)
      then show ?thesis using False j assms(1) by (simp add: l' regrouped_def)
    qed
  qed
  then have "regrouped (data @ [l]) levels'"
    using dist bit bits in_data assms(1) by (auto simp: regrouped_def)
  moreover have "positions levels' B'"
    using assms(2) bits bit i unfolding l' positions_def by (auto simp: nth_list_update k_def)
  ultimately show ?thesis by blast
qed

lemma regroup_regrouped: "regrouped data (regroup mp3 data)"
proof -
  have "case fold (regroup_step mp3) data ([], \<lambda>_. None) of (levels, B) \<Rightarrow> regrouped data levels \<and> positions levels B"
  proof (induction data rule: rev_induct)
    case Nil
    then show ?case by (simp add: regrouped_def positions_def)
  next
    case (snoc l data)
    obtain levels B where "fold (regroup_step mp3) data ([], \<lambda>_. None) = (levels, B)" by fastforce
    moreover obtain levels' B' where "regroup_step mp3 l (levels, B) = (levels', B')" by fastforce
    ultimately show ?case using snoc.IH regroup_step_keeps [of data levels B mp3 l levels' B'] by simp
  qed
  then show ?thesis by (auto simp: regroup_def split: prod.splits)
qed

lemma regroup_urls:
  assumes "l \<in> set (regroup mp3 data)" "\<forall>m \<in> set data. \<exists>u. lv_url m = [u]"
  shows "lv_urlId l = 0 \<and> lv_url l \<noteq> [] \<and> lv_url l = map (\<lambda>m. hd (lv_url m)) (filter (\<lambda>m. lv_bitrate m = lv_bitrate l) data)"
proof -
  have r: "regrouped data (regroup mp3 data)" by (rule regroup_regrouped)
  have one: "(\<forall>m \<in> set ms. \<exists>u. lv_url m = [u]) \<Longrightarrow> concat (map lv_url ms) = map (\<lambda>m. hd (lv_url m)) ms" for ms
    by (induction ms) auto
  have "lv_bitrate l \<in> lv_bitrate ` set data" using r assms(1) by (metis regrouped_def imageI)
  then have "filter (\<lambda>m. lv_bitrate m = lv_bitrate l) data \<noteq> []" by (auto simp: filter_empty_conv)
  moreover have "lv_url l = map (\<lambda>m. hd (lv_url m)) (filter (\<lambda>m. lv_bitrate m = lv_bitrate l) data)"
    using r assms one [of "filter (\<lambda>m. lv_bitrate m = lv_bitrate l) data"] by (simp add: regrouped_def)
  ultimately show ?thesis using r assms(1) by (auto simp: regrouped_def)
qed

subsection \<open>The order of the levels\<close>

lemma bitrate_le_Fin [simp]:
  "lv_bitrate a = Some (Fin m) \<Longrightarrow> lv_bitrate b = Some (Fin n) \<Longrightarrow> bitrate_le a b \<longleftrightarrow> m \<le> n"
  by (simp add: bitrate_le_def not_less)

lemma js_sort_bitrates:
  assumes "\<forall>l \<in> set ls. \<exists>n. lv_bitrate l = Some (Fin n)" "distinct (map lv_bitrate ls)"
  shows "sorted_wrt (\<lambda>a b. \<exists>m n. lv_bitrate a = Some (Fin m) \<and> lv_bitrate b = Some (Fin n) \<and> m < n) (js_sort bitrate_le ls)"
proof -
  let ?s = "js_sort bitrate_le ls"
  have le: "sorted_wrt bitrate_le ?s"
  proof (rule sorted_js_sort)
    fix x y assume "x \<in> set ls" "y \<in> set ls"
    then obtain m n where "lv_bitrate x = Some (Fin m)" "lv_bitrate y = Some (Fin n)" using assms(1) by blast
    then show "bitrate_le x y \<or> bitrate_le y x" by auto
  next
    fix x y z assume "x \<in> set ls" "y \<in> set ls" "z \<in> set ls" "bitrate_le x y" "bitrate_le y z"
    moreover then obtain k m n where "lv_bitrate x = Some (Fin k)" "lv_bitrate y = Some (Fin m)" "lv_bitrate z = Some (Fin n)"
      using assms(1) by meson
    ultimately show "bitrate_le x z" by auto
  qed
  have "mset (map lv_bitrate ?s) = mset (map lv_bitrate ls)" using mset_js_sort [of bitrate_le ls] by simp
  then have "distinct (map lv_bitrate ?s)" using assms(2) mset_eq_imp_distinct_iff by blast
  then have "sorted_wrt (\<lambda>a b. lv_bitrate a \<noteq> lv_bitrate b) ?s" by (simp add: distinct_map sorted_wrt_iff_nth_less distinct_conv_nth inj_on_def)
  with le have "sorted_wrt (\<lambda>a b. bitrate_le a b \<and> lv_bitrate a \<noteq> lv_bitrate b) ?s" by (simp add: sorted_wrt_iff_nth_less)
  then show ?thesis
  proof (rule sorted_wrt_mono_rel [rotated])
    fix x y assume "x \<in> set ?s" "y \<in> set ?s" "bitrate_le x y \<and> lv_bitrate x \<noteq> lv_bitrate y"
    moreover then obtain m n where "lv_bitrate x = Some (Fin m)" "lv_bitrate y = Some (Fin n)" using assms(1) by (metis set_js_sort)
    ultimately show "\<exists>m n. lv_bitrate x = Some (Fin m) \<and> lv_bitrate y = Some (Fin n) \<and> m < n" by auto
  qed
qed

lemma index_of_bitrate_finds:
  "l \<in> set ls \<Longrightarrow> lv_bitrate l \<noteq> Some NaN \<Longrightarrow>
     \<exists>j < length ls. index_of_bitrate (lv_bitrate l) i ls = Some (i + int j) \<and> lv_bitrate (ls ! j) = lv_bitrate l"
proof (induction ls arbitrary: i)
  case (Cons x ls)
  show ?case
  proof (cases "lv_bitrate x = lv_bitrate l")
    case True
    then show ?thesis using Cons.prems(2) by auto
  next
    case False
    then obtain j where "j < length ls" "index_of_bitrate (lv_bitrate l) (i + 1) ls = Some (i + 1 + int j)" "lv_bitrate (ls ! j) = lv_bitrate l"
      using Cons by force
    then show ?thesis using False by (intro exI [of _ "Suc j"]) auto
  qed
qed simp

subsection \<open>The state of the levels\<close>

text \<open>Every level has a playlist to load, and every playlist that was asked for exists.\<close>

definition level_ok :: "level_obj \<Rightarrow> bool" where
  "level_ok l \<longleftrightarrow> lv_urlId l < length (lv_url l)"

fun load_ok :: "quality_event \<Rightarrow> bool" where
  "load_ok (LevelLoading u n k) \<longleftrightarrow> u \<noteq> None"
| "load_ok _ \<longleftrightarrow> True"

definition loads_ok :: "quality_event list \<Rightarrow> bool" where
  "loads_ok es \<longleftrightarrow> list_all load_ok es"

definition quality_ok :: "quality \<Rightarrow> bool" where
  "quality_ok q \<longleftrightarrow> (\<forall>ls. q_levels q = Some ls \<longrightarrow> ls \<noteq> [] \<and> (\<forall>l \<in> set ls. level_ok l)) \<and> loads_ok (q_events q)"

lemma quality_okI:
  "quality_ok q \<Longrightarrow> q_levels q' = q_levels q \<Longrightarrow> q_events q' = q_events q @ es \<Longrightarrow> loads_ok es \<Longrightarrow> quality_ok q'"
  by (auto simp: quality_ok_def loads_ok_def)

lemma quality_ok_levels: "quality_ok q \<Longrightarrow> q_levels q = Some ls \<Longrightarrow> ls \<noteq> [] \<and> (\<forall>l \<in> set ls. level_ok l)"
  by (simp add: quality_ok_def)

lemma quality_ok_update:
  assumes "quality_ok q" "q_levels q = Some ls" "level_ok l"
  shows "quality_ok (q\<lparr>q_levels := Some (ls[i := l])\<rparr>)"
  using assms by (auto simp: quality_ok_def dest!: subsetD [OF set_update_subset_insert])

lemma quality_ok_level: "quality_ok q \<Longrightarrow> q_levels q = Some ls \<Longrightarrow> elem ls i = Some l \<Longrightarrow> level_ok l"
  by (auto simp: quality_ok_def dest!: elem_SomeD)

lemma level_ok_url: "level_ok l \<Longrightarrow> level_url l \<noteq> None"
  by (simp add: level_ok_def level_url_def elem_def)

lemma loads_ok_simps [simp]:
  "loads_ok []" "loads_ok (e # es) \<longleftrightarrow> load_ok e \<and> loads_ok es" "loads_ok (es @ es') \<longleftrightarrow> loads_ok es \<and> loads_ok es'"
  by (auto simp: loads_ok_def)

lemma signal_simps [simp]:
  "q_levels (signal es q) = q_levels q" "q_events (signal es q) = q_events q @ es" "q_config (signal es q) = q_config q"
  "q_level (signal es q) = q_level q" "q_manualLevel (signal es q) = q_manualLevel q" "q_abr (signal es q) = q_abr q"
  "q_timer (signal es q) = q_timer q" "q_canload (signal es q) = q_canload q"
  by (simp_all add: signal_def)

lemma signal_ok: "quality_ok q \<Longrightarrow> loads_ok es \<Longrightarrow> quality_ok (signal es q)"
  by (auto simp: quality_ok_def loads_ok_def)

lemma field_ok [simp]:
  "quality_ok (q\<lparr>q_level := a\<rparr>) = quality_ok q" "quality_ok (q\<lparr>q_manualLevel := b\<rparr>) = quality_ok q"
  "quality_ok (q\<lparr>q_startLevel := c\<rparr>) = quality_ok q" "quality_ok (q\<lparr>q_firstLevel := d\<rparr>) = quality_ok q"
  "quality_ok (q\<lparr>q_canload := e\<rparr>) = quality_ok q" "quality_ok (q\<lparr>q_timer := f\<rparr>) = quality_ok q"
  "quality_ok (q\<lparr>q_autoLevelCapping := g\<rparr>) = quality_ok q" "quality_ok (q\<lparr>q_abr := h\<rparr>) = quality_ok q"
  by (simp_all add: quality_ok_def)

lemma cleanTimer_ok: "quality_ok q \<Longrightarrow> quality_ok (cleanTimer q)"
  by (simp add: cleanTimer_def signal_ok)

lemma cleanTimer_simps [simp]: "q_levels (cleanTimer q) = q_levels q" "q_level (cleanTimer q) = q_level q"
  by (simp_all add: cleanTimer_def)

lemma arm_timer_ok: "quality_ok q \<Longrightarrow> quality_ok (arm_timer t q)"
  by (simp add: arm_timer_def signal_ok)

lemma level_tick_ok: "quality_ok q \<Longrightarrow> quality_ok (level_tick q)"
  using quality_ok_level level_ok_url
  by (fastforce simp: level_tick_def split: option.splits bool.splits intro!: signal_ok)

lemma level_startLoad_ok: "quality_ok q \<Longrightarrow> quality_ok (level_startLoad q)"
proof -
  assume ok: "quality_ok q"
  have "level_ok (refresh_level l) = level_ok l" for l by (simp add: level_ok_def refresh_level_def)
  then have "quality_ok (q\<lparr>q_canload := True, q_levels := map_option (map refresh_level) (q_levels q)\<rparr>)"
    using ok by (auto simp: quality_ok_def)
  then show ?thesis by (auto simp: level_startLoad_def Let_def intro: level_tick_ok)
qed

lemma setLevelInternal_ok:
  assumes "quality_ok q" "q_levels q = Some levels"
  shows "quality_ok (setLevelInternal n levels q)"
proof (cases "elem levels n")
  case None
  then show ?thesis using assms by (simp add: setLevelInternal_def signal_ok)
next
  case (Some l)
  have l: "level_ok l" "level_ok (l\<lparr>lv_level := Some n\<rparr>)" "level_url l \<noteq> None"
    using quality_ok_level [OF assms Some] level_ok_url by (auto simp: level_ok_def)
  define q1 where "q1 = (if q_level (cleanTimer q) \<noteq> Some n then
      signal [LevelSwitch n, LevelSwitching n]
        ((cleanTimer q)\<lparr>q_level := Some n, q_levels := Some (levels[nat n := l\<lparr>lv_level := Some n\<rparr>])\<rparr>) else cleanTimer q)"
  have "quality_ok ((cleanTimer q)\<lparr>q_levels := Some (levels[nat n := l\<lparr>lv_level := Some n\<rparr>])\<rparr>)"
    using quality_ok_update cleanTimer_ok assms l by simp
  then have "quality_ok ((cleanTimer q)\<lparr>q_level := Some n, q_levels := Some (levels[nat n := l\<lparr>lv_level := Some n\<rparr>])\<rparr>)"
    by (simp add: quality_ok_def)
  then have "quality_ok q1" using cleanTimer_ok [OF assms(1)] by (simp add: q1_def signal_ok)
  moreover have "setLevelInternal n levels q =
      (if (case lv_details l of None \<Rightarrow> True | Some d \<Rightarrow> ld_live d) then signal [LevelLoading (level_url l) n (lv_urlId l)] q1 else q1)"
    unfolding setLevelInternal_def Some Let_def q1_def by simp
  ultimately show ?thesis using l(3) by (simp add: signal_ok)
qed

lemma set_level_ok: "quality_ok q \<Longrightarrow> set_level n q = Inr q' \<Longrightarrow> quality_ok q'"
  by (auto simp: set_level_def setLevelInternal_ok split: option.splits if_splits)

lemma set_manualLevel_ok: "quality_ok q \<Longrightarrow> set_manualLevel n q = Inr q' \<Longrightarrow> quality_ok q'"
  by (auto simp: set_manualLevel_def Let_def split: if_splits elim!: set_level_ok [rotated])

lemma set_nextAutoLevel_ok [simp]: "quality_ok (set_nextAutoLevel n q) = quality_ok q"
  by (simp add: set_nextAutoLevel_def)

lemma set_nextLoadLevel_ok: "quality_ok q \<Longrightarrow> set_nextLoadLevel n q = Inr q' \<Longrightarrow> quality_ok q'"
  by (cases "set_level n q") (auto simp: set_nextLoadLevel_def dest: set_level_ok)

lemma onManifestLoaded_ok:
  assumes "quality_ok q" "\<forall>m \<in> set data. \<exists>u. lv_url m = [u]"
  shows "quality_ok (onManifestLoaded supported mp3 data alt q)"
proof -
  have "level_ok l" if "l \<in> set (usable_levels supported v a (regroup mp3 data))" for l v a
    using that regroup_urls [of l mp3 data] assms(2) by (auto simp: usable_levels_def level_ok_def split: if_splits)
  then have lev: "usable_levels supported v a (regroup mp3 data) = ls \<Longrightarrow> \<forall>l \<in> set (js_sort bitrate_le ls). level_ok l" for ls v a
    by auto
  have ne: "js_sort bitrate_le (x # xs) \<noteq> []" for x xs by (metis length_js_sort length_0_conv list.distinct(1))
  show ?thesis
    unfolding onManifestLoaded_def Let_def
    using assms(1) ne by (auto simp: quality_ok_def simp del: set_js_sort split: list.split dest!: lev)
qed

lemma no_redundancy_ok: "quality_ok q \<Longrightarrow> no_redundancy v data n l q = (q', data') \<Longrightarrow> quality_ok q'"
  by (auto simp: no_redundancy_def arm_timer_ok cleanTimer_ok split: if_splits)

lemma level_onError_ok:
  assumes "quality_ok q" "level_onError v data q = Inr (q', data')"
  shows "quality_ok q'"
proof (cases "ed_fatal data")
  case True
  then show ?thesis using assms by (auto simp: level_onError_def cleanTimer_ok split: if_splits)
next
  case notfatal: False
  show ?thesis
  proof (cases "error_level data")
    case (Inr lid)
    show ?thesis
    proof (cases lid)
      case None
      then show ?thesis using assms notfatal Inr by (simp add: level_onError_def)
    next
      case (Some n)
      then obtain levels l where l: "q_levels q = Some levels" "elem levels n = Some l"
        using assms(2) notfatal Inr by (auto simp: level_onError_def split: option.splits)
      have "level_ok l" using quality_ok_level [OF assms(1) l] .
      define l1 l2 where "l1 = l\<lparr>lv_loadError := Suc (lv_loadError l)\<rparr>"
        and "l2 = l1\<lparr>lv_urlId := (lv_urlId l1 + 1) mod length (lv_url l1), lv_details := None\<rparr>"
      have "Suc (lv_urlId l) mod length (lv_url l) < length (lv_url l)"
        using \<open>level_ok l\<close> unfolding level_ok_def by (intro mod_less_divisor) linarith
      then have "level_ok l1" "level_ok l2" using \<open>level_ok l\<close> by (simp_all add: level_ok_def l1_def l2_def)
      then have ok: "quality_ok (q\<lparr>q_levels := Some (levels[nat n := l1])\<rparr>)" "quality_ok (q\<lparr>q_levels := Some (levels[nat n := l2])\<rparr>)"
        using quality_ok_update [OF assms(1) l(1)] by auto
      have "level_onError v data q =
        (if length (lv_url l1) > 1 \<and> lv_loadError l1 < length (lv_url l1)
         then Inr (q\<lparr>q_levels := Some (levels[nat n := l2])\<rparr>, data)
         else Inr (no_redundancy v data n l1 (q\<lparr>q_levels := Some (levels[nat n := l1])\<rparr>)))"
        using notfatal Inr Some l by (simp add: level_onError_def Let_def l1_def l2_def)
      then show ?thesis
        using ok assms(2) no_redundancy_ok [OF ok(1), of v data n l1 q' data'] by (auto split: if_splits)
    qed
  qed (use assms notfatal in \<open>simp add: level_onError_def\<close>)
qed

lemma reset_loadError_ok: "\<forall>l \<in> set ls. level_ok l \<Longrightarrow> \<forall>l \<in> set (reset_loadError n ls). level_ok l"
  by (auto simp: reset_loadError_def level_ok_def split: option.splits
      dest!: subsetD [OF set_update_subset_insert] elem_SomeD)

lemma reset_loadError_Nil [simp]: "reset_loadError n ls = [] \<longleftrightarrow> ls = []"
  by (auto simp: reset_loadError_def split: option.splits)

lemma level_onFragLoaded_ok: "quality_ok q \<Longrightarrow> level_onFragLoaded f q = Inr q' \<Longrightarrow> quality_ok q'"
  using reset_loadError_ok by (auto simp: level_onFragLoaded_def quality_ok_def split: if_splits option.splits)

lemma add_loaded_ok [simp]: "level_ok (add_loaded stats f l) = level_ok l"
  by (simp add: add_loaded_def level_ok_def Let_def split: prod.split)

lemma abr_onFragLoaded_levels:
  assumes "abr_onFragLoaded config f stats levels A = Inr (A', levels', stats')" "\<forall>l \<in> set levels. level_ok l"
  shows "length levels' = length levels \<and> (\<forall>l \<in> set levels'. level_ok l)"
proof -
  have upd: "\<forall>l \<in> set (levels[nat (fr_level f) := add_loaded stats f l]). level_ok l" if "elem levels (fr_level f) = Some l" for l
    using assms(2) that by (auto dest!: subsetD [OF set_update_subset_insert] elem_SomeD)
  have "measure_bitrate config f stats levels = Inr levels' \<or> levels' = levels"
    using assms(1) by (auto simp: abr_onFragLoaded_def Let_def split: if_splits sum.splits)
  then have "levels' = levels \<or> (\<exists>l. elem levels (fr_level f) = Some l \<and> levels' = levels[nat (fr_level f) := add_loaded stats f l])"
    by (auto simp: measure_bitrate_def split: if_splits option.splits)
  then show ?thesis using upd assms(2) by auto
qed

lemma quality_onFragLoaded_ok:
  assumes "quality_ok q" "quality_onFragLoaded f stats q = Inr (q', stats')"
  shows "quality_ok q'"
proof -
  define ls where "ls = (case q_levels q of Some ls \<Rightarrow> ls | None \<Rightarrow> [])"
  obtain A levels st where A: "abr_onFragLoaded (q_config q) f stats ls (q_abr q) = Inr (A, levels, st)"
    using assms(2) by (auto simp: quality_onFragLoaded_def ls_def split: sum.splits)
  have "\<forall>l \<in> set ls. level_ok l" using assms(1) by (cases "q_levels q") (auto simp: ls_def quality_ok_def)
  note lev = abr_onFragLoaded_levels [OF A this]
  have "quality_ok (q\<lparr>q_abr := A, q_levels := map_option (\<lambda>_. levels) (q_levels q)\<rparr>)"
    using assms(1) lev by (cases "q_levels q") (auto simp: quality_ok_def ls_def)
  moreover obtain q1 where "level_onFragLoaded f (q\<lparr>q_abr := A, q_levels := map_option (\<lambda>_. levels) (q_levels q)\<rparr>) = Inr q1" "q' = q1"
    using assms(2) A by (cases "level_onFragLoaded f (q\<lparr>q_abr := A, q_levels := map_option (\<lambda>_. levels) (q_levels q)\<rparr>)")
      (auto simp: quality_onFragLoaded_def ls_def)
  ultimately show ?thesis using level_onFragLoaded_ok by blast
qed

lemma level_onLevelLoaded_ok:
  assumes "quality_ok q" "level_onLevelLoaded now t n d q = Inr q'"
  shows "quality_ok q'"
proof (cases "q_level q = Some n")
  case True
  then obtain levels l where l: "q_levels q = Some levels" "elem levels n = Some l"
    using assms(2) by (auto simp: level_onLevelLoaded_def split: option.splits)
  have "quality_ok (q\<lparr>q_levels := Some (levels[nat n := l\<lparr>lv_loadError := 0\<rparr>])\<rparr>)"
    using quality_ok_level [OF assms(1) l] by (intro quality_ok_update [OF assms(1) l(1)]) (simp add: level_ok_def)
  then show ?thesis
    using assms(2) True l by (auto simp: level_onLevelLoaded_def Let_def arm_timer_ok)
qed (use assms in \<open>simp add: level_onLevelLoaded_def\<close>)

lemma emergency_switch_ok: "quality_ok q \<Longrightarrow> emergency_switch f st d n q = Inr q' \<Longrightarrow> quality_ok q'"
  by (auto simp: emergency_switch_def signal_ok split: sum.splits option.splits dest: set_nextLoadLevel_ok)

lemma abandonRulesCheck_ok: "quality_ok q \<Longrightarrow> abandonRulesCheck now v f loader q = Inr q' \<Longrightarrow> quality_ok q'"
  by (auto simp: abandonRulesCheck_def Let_def split: option.splits if_splits sum.splits dest: emergency_switch_ok)

text \<open>The stream controller stores the details of a loaded playlist in its level.\<close>

definition set_details :: "int \<Rightarrow> level_details \<Rightarrow> quality \<Rightarrow> quality result" where
  "set_details n d q =
     (case (case q_levels q of None \<Rightarrow> None | Some levels \<Rightarrow> map_option (\<lambda>l. (levels, l)) (elem levels n)) of
        None \<Rightarrow> Inl TypeError
      | Some (levels, l) \<Rightarrow> Inr (q\<lparr>q_levels := Some (levels[nat n := l\<lparr>lv_details := Some d\<rparr>])\<rparr>))"

lemma set_details_ok: "quality_ok q \<Longrightarrow> set_details n d q = Inr q' \<Longrightarrow> quality_ok q'"
  by (auto simp: set_details_def level_ok_def split: option.splits intro!: quality_ok_update dest: quality_ok_level)

text \<open>Everything that happens to the levels of a player, in any order.\<close>

inductive quality_step :: "quality \<Rightarrow> quality \<Rightarrow> bool" where
  manifest: "\<forall>m \<in> set data. \<exists>u. lv_url m = [u] \<Longrightarrow> quality_step q (onManifestLoaded supported mp3 data alt q)"
| startLoad: "quality_step q (level_startLoad q)"
| stopLoad: "quality_step q (level_stopLoad q)"
| tick: "quality_step q (level_tick q)"
| destroy: "quality_step q (level_destroy q)"
| manualLevel: "set_manualLevel n q = Inr q' \<Longrightarrow> quality_step q q'"
| startLevel: "quality_step q (hls_set_startLevel n q)"
| capping: "quality_step q (q\<lparr>q_autoLevelCapping := n\<rparr>)"
| nextLoadLevel: "set_nextLoadLevel n q = Inr q' \<Longrightarrow> quality_step q q'"
| failure: "level_onError v data q = Inr (q', data') \<Longrightarrow> quality_step q q'"
| fragLoading: "abr_onFragLoading (q_config q) levels f (q_abr q) = Inr A \<Longrightarrow> quality_step q (q\<lparr>q_abr := A\<rparr>)"
| fragLoaded: "quality_onFragLoaded f stats q = Inr (q', stats') \<Longrightarrow> quality_step q q'"
| fragBuffered: "abr_onFragBuffered f stats (q_abr q) = Inr A \<Longrightarrow> quality_step q (q\<lparr>q_abr := A\<rparr>)"
| levelLoaded: "level_onLevelLoaded now t n d q = Inr q' \<Longrightarrow> quality_step q q'"
| details: "set_details n d q = Inr q' \<Longrightarrow> quality_step q q'"
| abandon: "abandonRulesCheck now v f loader q = Inr q' \<Longrightarrow> quality_step q q'"

lemma quality_step_ok: "quality_step q q' \<Longrightarrow> quality_ok q \<Longrightarrow> quality_ok q'"
  by (induction rule: quality_step.induct)
    (auto simp: level_stopLoad_def level_destroy_def hls_set_startLevel_def cleanTimer_ok level_startLoad_ok level_tick_ok
      intro: onManifestLoaded_ok set_manualLevel_ok set_nextLoadLevel_ok level_onError_ok quality_onFragLoaded_ok
        level_onLevelLoaded_ok set_details_ok abandonRulesCheck_ok)

inductive quality_reachable :: "hls_config \<Rightarrow> quality \<Rightarrow> bool" for config where
  "quality_reachable config (new_quality config)"
| "quality_reachable config q \<Longrightarrow> quality_step q q' \<Longrightarrow> quality_reachable config q'"

lemma quality_reachable_ok: "quality_reachable config q \<Longrightarrow> quality_ok q"
  by (induction rule: quality_reachable.induct) (auto simp: quality_ok_def new_quality_def loads_ok_def dest: quality_step_ok [unfolded quality_ok_def])

end
