(* ===== verification/Level_Capping.thy ===== *)
theory Level_Capping
  imports Player_Objects
begin

text \<open>
  Limits on automatic levels: the size of the player (\<open>src/controller/cap-level-controller.js\<close>) and dropped frames
  (\<open>src/controller/fps-controller.js\<close>). Both set \<open>hls.autoLevelCapping\<close>, which the operations take and return.
\<close>

subsection \<open>The size of the player\<close>

record media_size =
  ms_width :: rat
  ms_clientWidth :: rat
  ms_offsetWidth :: rat
  ms_height :: rat
  ms_clientHeight :: rat
  ms_offsetHeight :: rat

record cap_level =
  cl_media :: "media_size option"
  cl_restrictedLevels :: "int list option"
  cl_levels :: "level_obj list option"
  cl_autoLevelCapping :: "rat js"
  cl_timer :: bool

definition new_CapLevelController :: cap_level where
  "new_CapLevelController = \<lparr>cl_media = None, cl_restrictedLevels = None, cl_levels = None, cl_autoLevelCapping = NotNum, cl_timer = False\<rparr>"

definition isLevelAllowed :: "int \<Rightarrow> int list option \<Rightarrow> bool" where
  "isLevelAllowed level restrictedLevels \<longleftrightarrow> level \<notin> set (case restrictedLevels of Some ls \<Rightarrow> ls | None \<Rightarrow> [])"

definition onFpsDropLevelCapping :: "int \<Rightarrow> cap_level \<Rightarrow> cap_level result" where
  "onFpsDropLevelCapping droppedLevel c =
     (if isLevelAllowed droppedLevel (cl_restrictedLevels c) then
        case cl_restrictedLevels c of
          None \<Rightarrow> Inl TypeError
        | Some ls \<Rightarrow> Inr (c\<lparr>cl_restrictedLevels := Some (ls @ [droppedLevel])\<rparr>)
      else Inr c)"

definition cap_onMediaAttaching :: "media_size option \<Rightarrow> cap_level \<Rightarrow> cap_level" where
  "cap_onMediaAttaching video c = c\<lparr>cl_media := video\<rparr>"

definition or_else :: "rat \<Rightarrow> rat \<Rightarrow> rat" where \<comment> \<open>\<open>a || b\<close>\<close>
  "or_else a b = (if a \<noteq> 0 then a else b)"

definition mediaWidth :: "rat \<Rightarrow> cap_level \<Rightarrow> rat js" where
  "mediaWidth contentScaleFactor c =
     (case cl_media c of
        None \<Rightarrow> NotNum
      | Some m \<Rightarrow> Num (or_else (ms_width m) (or_else (ms_clientWidth m) (ms_offsetWidth m)) * contentScaleFactor))"

definition mediaHeight :: "rat \<Rightarrow> cap_level \<Rightarrow> rat js" where
  "mediaHeight contentScaleFactor c =
     (case cl_media c of
        None \<Rightarrow> NotNum
      | Some m \<Rightarrow> Num (or_else (ms_height m) (or_else (ms_clientHeight m) (ms_offsetHeight m)) * contentScaleFactor))"

definition size_js :: "int option \<Rightarrow> rat js" where
  "size_js x = (case x of None \<Rightarrow> NotNum | Some n \<Rightarrow> Num (of_int n))"

definition large_enough :: "rat js \<Rightarrow> rat js \<Rightarrow> level_obj \<Rightarrow> bool" where
  "large_enough width height l \<longleftrightarrow> width \<le> size_js (lv_width l) \<or> height \<le> size_js (lv_height l)"

definition atGreatestBandwidth :: "level_obj \<Rightarrow> level_obj list \<Rightarrow> bool" where
  "atGreatestBandwidth cur rest =
     (case rest of [] \<Rightarrow> True | l # _ \<Rightarrow> lv_width cur \<noteq> lv_width l \<or> lv_height cur \<noteq> lv_height l)"

fun first_covering :: "rat js \<Rightarrow> rat js \<Rightarrow> int \<Rightarrow> level_obj list \<Rightarrow> int option" where
  "first_covering width height i [] = None"
| "first_covering width height i (l # ls) =
     (if large_enough width height l \<and> atGreatestBandwidth l ls then Some i else first_covering width height (i + 1) ls)"

definition getMaxLevelByMediaSize :: "level_obj list \<Rightarrow> rat js \<Rightarrow> rat js \<Rightarrow> int" where
  "getMaxLevelByMediaSize levels width height =
     (if levels = [] then - 1
      else case first_covering width height 0 levels of Some i \<Rightarrow> i | None \<Rightarrow> int (length levels) - 1)"

definition valid_levels :: "int \<Rightarrow> int list option \<Rightarrow> level_obj list \<Rightarrow> level_obj list" where
  "valid_levels capLevelIndex restricted levels =
     map snd (filter (\<lambda>(i, l). isLevelAllowed i restricted \<and> i \<le> capLevelIndex) (zip [0..int (length levels) - 1] levels))"

definition getMaxLevel :: "rat \<Rightarrow> int \<Rightarrow> cap_level \<Rightarrow> int" where
  "getMaxLevel scale capLevelIndex c =
     (case cl_levels c of
        None \<Rightarrow> - 1
      | Some levels \<Rightarrow>
          getMaxLevelByMediaSize (valid_levels capLevelIndex (cl_restrictedLevels c) levels) (mediaWidth scale c) (mediaHeight scale c))"

text \<open>The result: the new state, the new \<open>hls.autoLevelCapping\<close>, and whether the buffer is flushed for the next level.\<close>

definition detectPlayerSize :: "rat \<Rightarrow> int \<Rightarrow> cap_level \<Rightarrow> cap_level \<times> int \<times> bool" where
  "detectPlayerSize scale hlsCapping c =
     (case (cl_media c, cl_levels c) of
        (Some _, Some (l # ls)) \<Rightarrow>
          let n = getMaxLevel scale (int (length ls)) c
          in (c\<lparr>cl_autoLevelCapping := Num (of_int n)\<rparr>, n, cl_autoLevelCapping c < Num (of_int n))
      | _ \<Rightarrow> (c, hlsCapping, False))"

text \<open>The result also has the new \<open>hls.firstLevel\<close>, if it is set.\<close>

definition cap_onManifestParsed ::
  "hls_config \<Rightarrow> rat \<Rightarrow> int \<Rightarrow> level_obj list \<Rightarrow> int \<Rightarrow> cap_level \<Rightarrow> (cap_level \<times> int \<times> bool) \<times> int option" where
  "cap_onManifestParsed config scale hlsCapping levels firstLevel c =
     (let c = c\<lparr>cl_restrictedLevels := Some []\<rparr> in
      if cf_capLevelToPlayerSize config then
        let c = c\<lparr>cl_autoLevelCapping := PosInf, cl_levels := Some levels\<rparr>;
            n = getMaxLevel scale firstLevel c
        in (detectPlayerSize scale hlsCapping (c\<lparr>cl_timer := True\<rparr>), Some n)
      else ((c, hlsCapping, False), None))"

subsection \<open>Dropped frames\<close>

record fps_controller =
  fp_video :: bool
  fp_isVideoPlaybackQualityAvailable :: bool
  fp_timer :: bool
  fp_lastTime :: real
  fp_lastDroppedFrames :: real
  fp_lastDecodedFrames :: real

datatype fps_event =
    FpsDrop real real real \<comment> \<open>dropped and decoded in the period, dropped in total\<close>
  | FpsDropLevelCapping int int \<comment> \<open>level, dropped level\<close>
  | NextLevelSwitch

text \<open>
  The video element, if the media is one, with whether it has \<open>getVideoPlaybackQuality\<close>. An audio element ends in an
  exception, because the method is looked up on \<open>null\<close>.
\<close>

definition fps_onMediaAttaching :: "hls_config \<Rightarrow> bool option \<Rightarrow> fps_controller \<Rightarrow> fps_controller result" where
  "fps_onMediaAttaching config video c =
     (if cf_capLevelOnFPSDrop config then
        case video of
          None \<Rightarrow> Inl TypeError
        | Some hasQuality \<Rightarrow>
            Inr (c\<lparr>fp_video := True, fp_timer := True,
                   fp_isVideoPlaybackQualityAvailable := hasQuality \<or> fp_isVideoPlaybackQualityAvailable c\<rparr>)
      else Inr c)"

definition fps_destroy :: "fps_controller \<Rightarrow> fps_controller" where
  "fps_destroy c = c\<lparr>fp_isVideoPlaybackQualityAvailable := False\<rparr>"

text \<open>\<open>lastTime\<close> is 0 while undefined; both count as false.\<close>

definition checkFPS ::
  "hls_config \<Rightarrow> real \<Rightarrow> int \<Rightarrow> real \<Rightarrow> real \<Rightarrow> int \<times> fps_controller \<Rightarrow> int \<times> fps_controller \<times> fps_event list" where
  "checkFPS config currentTime currentLevel decodedFrames droppedFrames = (\<lambda>(capping, c).
     if decodedFrames = 0 then (capping, c, [])
     else
       let c' = c\<lparr>fp_lastTime := currentTime, fp_lastDroppedFrames := droppedFrames, fp_lastDecodedFrames := decodedFrames\<rparr>
       in if fp_lastTime c = 0 then (capping, c', [])
          else
            let currentPeriod = currentTime - fp_lastTime c;
                currentDropped = droppedFrames - fp_lastDroppedFrames c;
                currentDecoded = decodedFrames - fp_lastDecodedFrames c;
                droppedFPS = Num 1000 * Num currentDropped / Num currentPeriod;
                drop = FpsDrop currentDropped currentDecoded droppedFrames
            in if Num 0 < droppedFPS \<and> currentDropped > of_rat (cf_fpsDroppedMonitoringThreshold config) * currentDecoded
                  \<and> currentLevel > 0 \<and> (capping = - 1 \<or> capping \<ge> currentLevel)
               then (currentLevel - 1, c', [drop, FpsDropLevelCapping (currentLevel - 1) currentLevel, NextLevelSwitch])
               else (capping, c', [drop]))"

text \<open>The counters of the video element: those of the standard, or those of WebKit (0 while undefined).\<close>

record video_counters =
  vc_totalVideoFrames :: real
  vc_droppedVideoFrames :: real
  vc_webkitDecodedFrameCount :: real
  vc_webkitDroppedFrameCount :: real

definition checkFPSInterval ::
  "hls_config \<Rightarrow> real \<Rightarrow> int \<Rightarrow> video_counters \<Rightarrow> int \<times> fps_controller \<Rightarrow> int \<times> fps_controller \<times> fps_event list" where
  "checkFPSInterval config currentTime currentLevel v = (\<lambda>(capping, c).
     if \<not> fp_video c then (capping, c, [])
     else if fp_isVideoPlaybackQualityAvailable c
     then checkFPS config currentTime currentLevel (vc_totalVideoFrames v) (vc_droppedVideoFrames v) (capping, c)
     else checkFPS config currentTime currentLevel (vc_webkitDecodedFrameCount v) (vc_webkitDroppedFrameCount v) (capping, c))"

subsection \<open>What the size of the player selects\<close>

text \<open>Without restricted levels, the levels that count are those up to the cap.\<close>

lemma valid_levels_all:
  assumes "0 \<le> cap" "cap < int (length levels)"
  shows "valid_levels cap (Some []) levels = take (nat cap + 1) levels"
proof -
  have "valid_levels cap (Some []) levels = map snd (filter (\<lambda>(i, l). i \<le> cap) (zip [0..int (length levels) - 1] levels))"
    by (simp add: valid_levels_def isLevelAllowed_def)
  also have "\<dots> = map snd (filter (\<lambda>x. fst x \<le> cap) (zip [0..int (length levels) - 1] levels))"
    by (simp add: case_prod_beta')
  also have "zip [0..int (length levels) - 1] levels =
      zip [0..cap] (take (nat cap + 1) levels) @ zip [cap + 1..int (length levels) - 1] (drop (nat cap + 1) levels)"
  proof -
    have "[0..int (length levels) - 1] = [0..cap] @ [cap + 1..int (length levels) - 1]"
      using assms upto_split2 [of 0 cap "int (length levels) - 1"] by simp
    moreover have "length [0..cap] = nat cap + 1" using assms by (simp add: nat_add_distrib)
    ultimately show ?thesis by (simp add: zip_append1)
  qed
  also have "map snd (filter (\<lambda>x. fst x \<le> cap) \<dots>) = take (nat cap + 1) levels"
  proof -
    have 1: "filter (\<lambda>x. fst x \<le> cap) (zip [0..cap] ys) = zip [0..cap] ys" for ys :: "level_obj list"
      by (rule filter_True) (auto dest: set_zip_leftD)
    have 2: "filter (\<lambda>x. fst x \<le> cap) (zip [cap + 1..n] ys) = []" for n and ys :: "level_obj list"
      by (auto simp: filter_empty_conv dest: set_zip_leftD)
    have "length [0..cap] = length (take (nat cap + 1) levels)" using assms by (simp add: nat_add_distrib)
    then have "map snd (zip [0..cap] (take (nat cap + 1) levels)) = take (nat cap + 1) levels" by (rule map_snd_zip)
    then show ?thesis by (simp add: 1 2)
  qed
  finally show ?thesis .
qed

lemma first_covering_spec:
  "first_covering w h i ls =
     (if \<exists>j < length ls. large_enough w h (ls ! j) \<and> atGreatestBandwidth (ls ! j) (drop (Suc j) ls)
      then Some (i + int (LEAST j. j < length ls \<and> large_enough w h (ls ! j) \<and> atGreatestBandwidth (ls ! j) (drop (Suc j) ls)))
      else None)"
proof (induction ls arbitrary: i)
  case (Cons l ls)
  let ?P = "\<lambda>xs j. j < length xs \<and> large_enough w h (xs ! j) \<and> atGreatestBandwidth (xs ! j) (drop (Suc j) xs)"
  show ?case
  proof (cases "large_enough w h l \<and> atGreatestBandwidth l ls")
    case True
    then have "?P (l # ls) 0" by simp
    then have least: "(LEAST j. ?P (l # ls) j) = 0" and ex: "\<exists>j < length (l # ls). large_enough w h ((l # ls) ! j) \<and>
        atGreatestBandwidth ((l # ls) ! j) (drop (Suc j) (l # ls))"
      by (rule Least_eq_0) (use True in \<open>auto intro!: exI [of _ 0]\<close>)
    have "first_covering w h i (l # ls) = Some (i + int (LEAST j. ?P (l # ls) j))" unfolding least using True by simp
    then show ?thesis unfolding if_P [OF ex] .
  next
    case False
    have P: "?P (l # ls) (Suc j) = ?P ls j" for j by simp
    show ?thesis
    proof (cases "\<exists>j. ?P ls j")
      case ex: True
      then obtain j where j: "?P ls j" by blast
      have least: "(LEAST j. ?P (l # ls) j) = Suc (LEAST j. ?P (l # ls) (Suc j))"
        by (rule Least_Suc [of _ "Suc j"]) (use False j in auto)
      have ex': "\<exists>j < length (l # ls). large_enough w h ((l # ls) ! j) \<and> atGreatestBandwidth ((l # ls) ! j) (drop (Suc j) (l # ls))"
        using j by (intro exI [of _ "Suc j"]) simp
      have "first_covering w h i (l # ls) = Some (i + int (LEAST j. ?P (l # ls) j))"
        unfolding least P using False ex Cons.IH [of "i + 1"] by auto
      then show ?thesis unfolding if_P [OF ex'] .
    next
      case none: False
      have "\<not> ?P (l # ls) j" for j using none False by (cases j) auto
      then show ?thesis using False none Cons.IH [of "i + 1"] by auto
    qed
  qed
qed simp

lemma getMaxLevel_unrestricted:
  assumes "cl_levels c = Some levels" "cl_restrictedLevels c = Some []" "0 \<le> cap" "cap < int (length levels)"
  shows "\<exists>n \<le> nat cap. getMaxLevel scale cap c = int n \<and>
    (n < nat cap \<longrightarrow> large_enough (mediaWidth scale c) (mediaHeight scale c) (levels ! n)) \<and>
    (\<forall>j < n. \<not> (large_enough (mediaWidth scale c) (mediaHeight scale c) (levels ! j) \<and>
       (lv_width (levels ! j) \<noteq> lv_width (levels ! Suc j) \<or> lv_height (levels ! j) \<noteq> lv_height (levels ! Suc j))))"
proof -
  define ls where "ls = take (nat cap + 1) levels"
  have ls: "ls \<noteq> []" "length ls = nat cap + 1" using assms by (auto simp: ls_def)
  define P where "P = (\<lambda>j. j < length ls \<and> large_enough (mediaWidth scale c) (mediaHeight scale c) (ls ! j) \<and>
      atGreatestBandwidth (ls ! j) (drop (Suc j) ls))"
  have vl: "valid_levels cap (Some []) levels = ls" unfolding ls_def by (rule valid_levels_all [OF assms(3, 4)])
  have P_nth: "P j \<longleftrightarrow> large_enough (mediaWidth scale c) (mediaHeight scale c) (levels ! j) \<and>
      (lv_width (levels ! j) \<noteq> lv_width (levels ! Suc j) \<or> lv_height (levels ! j) \<noteq> lv_height (levels ! Suc j))" if "j < nat cap" for j
  proof -
    have "drop (Suc j) ls = ls ! Suc j # drop (Suc (Suc j)) ls" using that ls by (simp add: Cons_nth_drop_Suc)
    then show ?thesis using that ls assms by (simp add: P_def atGreatestBandwidth_def ls_def)
  qed
  have "getMaxLevel scale cap c = getMaxLevelByMediaSize ls (mediaWidth scale c) (mediaHeight scale c)"
    by (simp add: getMaxLevel_def assms(1, 2) vl)
  also have "\<dots> = int (if \<exists>j. P j then LEAST j. P j else nat cap)"
    unfolding getMaxLevelByMediaSize_def first_covering_spec P_def using ls assms(3) by auto
  finally have eq: "getMaxLevel scale cap c = int (if \<exists>j. P j then LEAST j. P j else nat cap)" .
  show ?thesis
  proof (cases "\<exists>j. P j")
    case True
    define n where "n = (LEAST j. P j)"
    have least: "P n" unfolding n_def by (rule LeastI_ex [OF True])
    have below: "\<not> P j" if "j < n" for j using that not_less_Least unfolding n_def by blast
    have n: "getMaxLevel scale cap c = int n" "n \<le> nat cap" using eq True least ls by (auto simp: n_def P_def)
    show ?thesis
      using n below P_nth least by (intro exI [of _ n]) (meson order_less_le_trans)
  next
    case False
    then show ?thesis using eq P_nth by (intro exI [of _ "nat cap"]) auto
  qed
qed

end
