(* ===== verification/Quality_Props.thy ===== *)
theory Quality_Props
  imports Quality_Laws Level_Capping
begin

text \<open>Properties of the choice of levels: the estimate of the bandwidth, automatic levels, redundant playlists, reloads.\<close>

subsection \<open>The estimate of the bandwidth\<close>

text \<open>
  C22. After any downloads the estimate is a number between the slowest and the fastest of them: the weights and the correction
  for the initial zero make an average. Downloads shorter than 50 ms count as 50 ms.
\<close>

theorem bandwidth_estimate_bounds:
  assumes "0 \<le> slow" "0 \<le> fast" "downloads \<noteq> []"
  shows "\<exists>x. bw_getEstimate (bw_samples downloads (new_EwmaBandWidthEstimator slow fast defaultEstimate)) = Num x \<and>
    Min (measured ` set downloads) \<le> x \<and> x \<le> Max (measured ` set downloads)"
  by (rule bw_estimate_between [OF assms]) (auto intro: Min_le Max_ge)

theorem bandwidth_estimate_bounds_witness:
  "\<exists>x. bw_getEstimate (bw_samples [(1000, 250000), (10, 12500)] (new_EwmaBandWidthEstimator 9 3 500000)) = Num x \<and> 2000000 \<le> x \<and> x \<le> 2000000"
proof -
  have "measured ` set [(1000, 250000), (10, 12500)] = {2000000}" by (simp add: measured_def)
  then show ?thesis
    using bandwidth_estimate_bounds [of 9 3 "[(1000, 250000), (10, 12500)]" 500000] by simp
qed

subsection \<open>Automatic levels\<close>

text \<open>
  The interface between the two controllers: whoever chooses the next level returns an index of the list. Then the level
  controller loads that level and never reports a wrong index.
\<close>

locale level_chooser =
  fixes pick :: "media_element option \<Rightarrow> int \<Rightarrow> level_obj list \<Rightarrow> int result"
  assumes choice: "ls \<noteq> [] \<Longrightarrow> - 1 \<le> cap \<Longrightarrow> cap < int (length ls) \<Longrightarrow> \<exists>n. pick v cap ls = Inr n \<and> 0 \<le> n \<and> n < int (length ls)"
begin

lemma chosen_level:
  assumes "q_levels q = Some ls" "ls \<noteq> []" "- 1 \<le> cap" "cap < int (length ls)" "pick v cap ls = Inr n"
  shows "\<exists>q'. set_level n q = Inr q' \<and> (\<exists>es. q_events q' = q_events q @ es \<and> LevelSwitchError n \<notin> set es) \<and> q_level q' = Some n"
proof -
  have n: "0 \<le> n" "n < int (length ls)" using choice [OF assms(2-4), of v] assms(5) by auto
  have el: "elem ls n = Some (ls ! nat n)" using n by (simp add: elem_Some)
  have int: "\<exists>es. q_events (setLevelInternal n ls q) = q_events q @ es \<and> LevelSwitchError n \<notin> set es"
    "q_level (setLevelInternal n ls q) = Some n"
    by (auto simp: setLevelInternal_def el Let_def cleanTimer_def split: option.split)
  then show ?thesis using assms(1) n el by (auto simp: set_level_def)
qed

end

interpretation abr_levels: level_chooser "\<lambda>v cap ls. hls_nextAutoLevel config v cap (Some ls) A" for config A
  by unfold_locales (rule hls_nextAutoLevel_range)

text \<open>
  C23. In automatic mode, with a cap that is an index or \<open>-1\<close>, the next level is always found and is an index of the level
  list; selecting it makes it the current level without a switch error.
\<close>

theorem automatic_level_valid:
  assumes "q_levels q = Some ls" "ls \<noteq> []" "q_manualLevel q = - 1" "- 1 \<le> q_autoLevelCapping q" "q_autoLevelCapping q < int (length ls)"
  shows "\<exists>n q'. get_nextLoadLevel v q = Inr n \<and> 0 \<le> n \<and> n < int (length ls) \<and> set_nextLoadLevel n q = Inr q' \<and>
    q_level q' = Some n \<and> (\<exists>es. q_events q' = q_events q @ es \<and> LevelSwitchError n \<notin> set es)"
proof -
  obtain n where n: "hls_nextAutoLevel (q_config q) v (q_autoLevelCapping q) (Some ls) (q_abr q) = Inr n" "0 \<le> n" "n < int (length ls)"
    using abr_levels.choice assms by blast
  obtain q' where "set_level n q = Inr q'" "q_level q' = Some n"
      "\<exists>es. q_events q' = q_events q @ es \<and> LevelSwitchError n \<notin> set es"
    using abr_levels.chosen_level [OF assms(1, 2, 4, 5) n(1)] by blast
  then show ?thesis
    using n assms by (auto simp: get_nextLoadLevel_def set_nextLoadLevel_def set_nextAutoLevel_def)
qed

theorem automatic_level_valid_witness:
  "let l = (level_of_playlist ''a'' (initial_level ''u''))\<lparr>lv_bitrate := Some (Fin 100), lv_details := None\<rparr>;
       q = (new_quality hlsDefaultConfig)\<lparr>q_levels := Some [l]\<rparr>
   in \<exists>n q'. get_nextLoadLevel None q = Inr n \<and> 0 \<le> n \<and> n < 1 \<and> set_nextLoadLevel n q = Inr q' \<and>
    q_level q' = Some n \<and> (\<exists>es. q_events q' = q_events q @ es \<and> LevelSwitchError n \<notin> set es)"
  using automatic_level_valid [of "(new_quality hlsDefaultConfig)\<lparr>q_levels :=
      Some [(level_of_playlist ''a'' (initial_level ''u''))\<lparr>lv_bitrate := Some (Fin 100), lv_details := None\<rparr>]\<rparr>" _ None]
  by (simp add: new_quality_def Let_def)

text \<open>
  C24. The search returns the highest level of the range whose bitrate and expected time to fetch fit, or \<open>-1\<close>; it looks at
  every level of the range from the top.
\<close>

theorem best_level_highest:
  assumes "0 \<le> minLevel" "maxLevel < int (length levels)"
  shows "findBestLevel A current dur bw minLevel maxLevel maxFetch f u levels =
    Inr (if \<exists>j \<in> {minLevel..maxLevel}. level_fits A current dur bw maxFetch f u levels j
         then Max {j \<in> {minLevel..maxLevel}. level_fits A current dur bw maxFetch f u levels j} else - 1)"
  by (rule findBestLevel_highest [OF assms])

theorem best_level_highest_witness:
  "let l = level_of_playlist ''a'' (initial_level ''u'');
       levels = [l\<lparr>lv_bitrate := Some (Fin 100), lv_details := None\<rparr>, l\<lparr>lv_bitrate := Some (Fin 200), lv_details := None\<rparr>]
   in findBestLevel new_AbrController 0 (Num 10) (Num 250) 0 1 (Num 9) (Num 1) (Num (1 / 2)) levels =
      Inr (if \<exists>j \<in> {0..1}. level_fits new_AbrController 0 (Num 10) (Num 250) (Num 9) (Num 1) (Num (1 / 2)) levels j
           then Max {j \<in> {0..1}. level_fits new_AbrController 0 (Num 10) (Num 250) (Num 9) (Num 1) (Num (1 / 2)) levels j} else - 1)"
  unfolding Let_def by (rule best_level_highest) simp_all

subsection \<open>Slow loads\<close>

lemma scan_down_range:
  "scan_down levels dur rate starv lo n delay = Inr (n', delay') \<Longrightarrow> n' \<le> n \<and> (lo \<le> n \<longrightarrow> lo \<le> n') \<and> (n \<le> lo \<longrightarrow> delay' = delay)"
proof (induction levels dur rate starv lo n delay rule: scan_down.induct)
  case (1 levels dur rate starv lo n delay)
  show ?case
  proof (cases "n > lo")
    case True
    then obtain l where l: "elem levels n = Some l"
      using 1(2) by (subst (asm) scan_down.simps) (auto split: option.splits)
    show ?thesis
    proof (cases "dur * level_bitrate l / (Num (64 / 10) * rate) < starv")
      case less: True
      then show ?thesis using True l 1(2) by (subst (asm) scan_down.simps) auto
    next
      case False
      then have "scan_down levels dur rate starv lo (n - 1) (dur * level_bitrate l / (Num (64 / 10) * rate)) = Inr (n', delay')"
        using True l 1(2) by (subst (asm) scan_down.simps) (simp add: Let_def)
      then show ?thesis using 1(1) [OF True l refl False] True by auto
    qed
  next
    case False
    then show ?thesis using 1(2) by (subst (asm) scan_down.simps) auto
  qed
qed

text \<open>
  C25. A slow load is only given up for a lower level, down to the lowest automatic one. It is never given up on the level just
  above the lowest: the loop that would compute the time for the lowest level does not run, and the comparison with the
  undefined time fails. (The comment in the code says that the time of the lowest level is compared.)
\<close>

theorem emergency_switch_down:
  assumes "abandon_level requestDelay m frag stats q = Inr (Some n)"
  shows "minAutoLevel (q_config q) (q_levels q) \<le> n \<and> n < fr_level frag \<and>
    minAutoLevel (q_config q) (q_levels q) + 2 \<le> fr_level frag"
proof -
  define lo where "lo = minAutoLevel (q_config q) (q_levels q)"
  obtain levels rate starv delay loaded where
    scan: "scan_down levels (js_of (fr_duration frag)) rate starv lo (fr_level frag - 1) NotNum = Inr (n, delay)" and "delay < loaded"
    using assms by (auto simp: abandon_level_def Let_def lo_def split: option.splits if_splits sum.splits)
  then have "delay \<noteq> NotNum" by auto
  then show ?thesis using scan_down_range [OF scan] by (auto simp: lo_def)
qed

text \<open>Four seconds into a fragment of level 2, with 20 of 1000 kB received and one second in the buffer.\<close>

definition slow_levels :: "level_obj list" where
  "slow_levels = map (\<lambda>b. (level_of_playlist ''a'' (initial_level ''u''))\<lparr>lv_bitrate := Some (Fin b), lv_details := None\<rparr>) [1000, 2000, 800000]"

definition slow_frag :: frag where
  "slow_frag = new_Fragment\<lparr>fr_type := ''main'', fr_level := 2, fr_duration := Some 4, fr_autoLevel := True\<rparr>"

definition slow_media :: media_element where
  "slow_media = \<lparr>md_currentTime = 0, md_playbackRate = 1, md_paused = False, md_ended = False, md_seeking = False, md_readyState = 4,
     md_duration = Some 100, md_buffered = [\<lparr>rg_start = 0, rg_end = 1\<rparr>]\<rparr>"

definition slow_stats :: load_stats where
  "slow_stats = \<lparr>st_trequest = Num 0, st_tfirst = Num 10, st_tload = NotNum, st_tparsed = NotNum, st_tbuffered = NotNum,
     st_loaded = Num 20000, st_total = Num 1000000, st_bw = NotNum, st_aborted = False\<rparr>"

lemma slow_elem [simp]: "elem slow_levels 2 = Some (slow_levels ! 2)" "elem slow_levels 1 = Some (slow_levels ! 1)"
  by (simp_all add: elem_def slow_levels_def)

lemma slow_bitrate [simp]: "level_bitrate (slow_levels ! 1) = Num 2000" "level_bitrate (slow_levels ! 2) = Num 800000"
  by (simp_all add: slow_levels_def level_bitrate_def level_of_playlist_def)

lemma slow_scan:
  "scan_down slow_levels (Num 4) (Num 5000) (Num 1) 0 1 NotNum = Inr (1, Num (1 / 4))"
  using slow_bitrate by (subst scan_down.simps) (simp add: Let_def)

lemma slow_load:
  "abandon_level (Num 4000) slow_media slow_frag slow_stats ((new_quality hlsDefaultConfig)\<lparr>q_levels := Some slow_levels\<rparr>) = Inr (Some 1)"
proof -
  have min: "minAutoLevel hlsDefaultConfig (Some slow_levels) = 0"
    by (simp add: minAutoLevel_def slow_levels_def level_bitrate_def level_of_playlist_def hlsDefaultConfig_def)
  have "bi_end (bufferInfo (Some [\<lparr>rg_start = 0, rg_end = 1\<rparr>]) 0 (1 / 2)) = 1"
    by (simp add: bufferInfo_def bufferedInfo_def js_sort_def)
  then have starv: "starving hlsDefaultConfig slow_media = Num 1"
    by (simp add: starving_def slow_media_def hlsDefaultConfig_def)
  have rate: "load_rate slow_stats (Num 4000) = Num 5000" "st_loaded slow_stats = Num 20000"
    "expected_len slow_frag slow_stats l = Num 1000000" "md_playbackRate slow_media = 1" for l
    by (simp_all add: load_rate_def slow_stats_def expected_len_def slow_media_def)
  have frag: "fr_level slow_frag = 2" "fr_duration slow_frag = Some 4" by (simp_all add: slow_frag_def)
  show ?thesis
    unfolding abandon_level_def Let_def by (simp add: new_quality_def rate starv min frag slow_scan)
qed

theorem emergency_switch_down_witness:
  "minAutoLevel hlsDefaultConfig (Some slow_levels) \<le> 1 \<and> 1 < fr_level slow_frag \<and>
   minAutoLevel hlsDefaultConfig (Some slow_levels) + 2 \<le> fr_level slow_frag"
  using emergency_switch_down [OF slow_load] by (simp add: new_quality_def)

subsection \<open>The levels of a manifest\<close>

text \<open>
  C21. When a manifest is accepted, its levels are strictly ordered by bitrate, each with all playlists of the manifest that have
  this bitrate, in their order, and the first of them in use; all have supported codecs; the first level is one of them.
\<close>

theorem manifest_levels:
  assumes "\<forall>m \<in> set data. \<exists>u b. lv_url m = [u] \<and> lv_bitrate m = Some (Fin b)"
    and "q_events (onManifestLoaded supported mp3 data alt q) = q_events q @ [ManifestParsed ls first audio video alt]"
  shows "sorted_wrt (\<lambda>a b. \<exists>m n. lv_bitrate a = Some (Fin m) \<and> lv_bitrate b = Some (Fin n) \<and> m < n) ls \<and>
    (\<forall>l \<in> set ls. lv_urlId l = 0 \<and> lv_url l \<noteq> [] \<and> lv_url l = map (\<lambda>m. hd (lv_url m)) (filter (\<lambda>m. lv_bitrate m = lv_bitrate l) data) \<and>
       codec_ok supported (lv_audioCodec l) \<and> codec_ok supported (lv_videoCodec l)) \<and>
    (\<exists>i. first = Some i \<and> 0 \<le> i \<and> i < int (length ls))"
proof -
  obtain v a where us: "usable_levels supported v a (regroup mp3 data) \<noteq> []"
      "ls = js_sort bitrate_le (usable_levels supported v a (regroup mp3 data))"
      "first = (case index_of_bitrate (lv_bitrate (hd (usable_levels supported v a (regroup mp3 data)))) 0 ls of
         Some i \<Rightarrow> Some i | None \<Rightarrow> q_firstLevel q)"
    using assms(2) unfolding onManifestLoaded_def Let_def by (auto split: list.split_asm) (metis list.distinct(1) list.sel(1))+
  define us where "us = usable_levels supported v a (regroup mp3 data)"
  have sub: "set us \<subseteq> set (regroup mp3 data)" "\<forall>l \<in> set us. codec_ok supported (lv_audioCodec l) \<and> codec_ok supported (lv_videoCodec l)"
    by (auto simp: us_def usable_levels_def split: if_splits)
  have r: "regrouped data (regroup mp3 data)" by (rule regroup_regrouped)
  have dist: "distinct (map lv_bitrate us)"
    using r by (auto simp: us_def usable_levels_def regrouped_def distinct_map_filter)
  have fin: "\<forall>l \<in> set us. \<exists>n. lv_bitrate l = Some (Fin n)"
  proof
    fix l assume "l \<in> set us"
    then have "lv_bitrate l \<in> lv_bitrate ` set data" using sub(1) r unfolding regrouped_def by blast
    then show "\<exists>n. lv_bitrate l = Some (Fin n)" using assms(1) by fastforce
  qed
  have hd: "hd us \<in> set us" using us(1) by (simp add: us_def)
  then have "hd us \<in> set ls" "lv_bitrate (hd us) \<noteq> Some NaN" using us(2) fin by (fastforce simp: us_def)+
  from index_of_bitrate_finds [OF this, of 0] have "\<exists>i. first = Some i \<and> 0 \<le> i \<and> i < int (length ls)"
    by (auto simp: us(3) us_def)
  moreover have "\<forall>l \<in> set ls. lv_urlId l = 0 \<and> lv_url l \<noteq> [] \<and> lv_url l = map (\<lambda>m. hd (lv_url m)) (filter (\<lambda>m. lv_bitrate m = lv_bitrate l) data)"
    using sub(1) regroup_urls [of _ mp3 data] assms(1) by (fastforce simp: us(2) us_def)
  moreover have "sorted_wrt (\<lambda>a b. \<exists>m n. lv_bitrate a = Some (Fin m) \<and> lv_bitrate b = Some (Fin n) \<and> m < n) ls"
    "\<forall>l \<in> set ls. codec_ok supported (lv_audioCodec l) \<and> codec_ok supported (lv_videoCodec l)"
    using js_sort_bitrates [OF fin dist] sub(2) by (simp_all add: us(2) us_def)
  ultimately show ?thesis by blast
qed

text \<open>Three playlists of two bitrates, the higher one first.\<close>

definition two_bitrates :: "level_obj list" where
  "two_bitrates = map (\<lambda>(u, b). (level_of_playlist u (initial_level ''u''))\<lparr>lv_bitrate := Some (Fin b), lv_details := None\<rparr>)
     [(''a'', 200), (''b'', 100), (''c'', 200)]"

theorem manifest_levels_witness:
  "\<exists>ls first audio video. q_events (onManifestLoaded (\<lambda>_. True) False two_bitrates False (new_quality hlsDefaultConfig)) =
      [ManifestParsed ls first audio video False] \<and>
    sorted_wrt (\<lambda>a b. \<exists>m n. lv_bitrate a = Some (Fin m) \<and> lv_bitrate b = Some (Fin n) \<and> m < n) ls \<and> map lv_url ls = [[''b''], [''a'', ''c'']]"
proof -
  have e: "\<exists>ls first audio video. q_events (onManifestLoaded (\<lambda>_. True) False two_bitrates False (new_quality hlsDefaultConfig)) =
      q_events (new_quality hlsDefaultConfig) @ [ManifestParsed ls first audio video False] \<and> map lv_url ls = [[''b''], [''a'', ''c'']]"
    by (simp add: onManifestLoaded_def two_bitrates_def level_of_playlist_def regroup_def regroup_step_def erase_mp3_def Let_def
        usable_levels_def codec_ok_def filled_string_def js_sort_def bitrate_le_def new_quality_def) blast
  then obtain ls first audio video where ls: "q_events (onManifestLoaded (\<lambda>_. True) False two_bitrates False (new_quality hlsDefaultConfig)) =
      q_events (new_quality hlsDefaultConfig) @ [ManifestParsed ls first audio video False]" "map lv_url ls = [[''b''], [''a'', ''c'']]"
    by (elim exE conjE)
  have "\<forall>m \<in> set two_bitrates. \<exists>u b. lv_url m = [u] \<and> lv_bitrate m = Some (Fin b)"
    by (simp add: two_bitrates_def level_of_playlist_def)
  from manifest_levels [OF this ls(1)] ls show ?thesis by (simp add: new_quality_def)
qed

subsection \<open>Redundant playlists\<close>

fun repeat_error :: "nat \<Rightarrow> media_element option \<Rightarrow> error_data \<Rightarrow> quality \<Rightarrow> quality result" where
  "repeat_error 0 v data q = Inr q"
| "repeat_error (Suc k) v data q =
     (case repeat_error k v data q of Inl err \<Rightarrow> Inl err | Inr q' \<Rightarrow> map_sum id fst (level_onError v data q'))"

definition tried :: "nat \<Rightarrow> level_obj \<Rightarrow> level_obj" where
  "tried k l = (if k = 0 then l else l\<lparr>lv_loadError := k, lv_urlId := (lv_urlId l + k) mod length (lv_url l), lv_details := None\<rparr>)"

lemma quality_self: "q_levels q = Some ls \<Longrightarrow> q\<lparr>q_levels := Some ls\<rparr> = q"
  by (cases q) simp

lemma failover_steps:
  assumes "q_levels q = Some ls" "elem ls i = Some l" "lv_loadError l = 0" "level_ok l"
    and "\<not> ed_fatal data" "error_level data = Inr (Some i)" "k < length (lv_url l)"
  shows "repeat_error k v data q = Inr (q\<lparr>q_levels := Some (ls[nat i := tried k l])\<rparr>)"
  using assms(7)
proof (induction k)
  case 0
  have "ls[nat i := l] = ls" using assms(2) by (auto dest: elem_SomeD)
  then show ?case using quality_self [OF assms(1)] by (simp add: tried_def)
next
  case (Suc k)
  have i: "0 \<le> i" "i < int (length ls)" using assms(2) elem_SomeD by force+
  have el: "elem (ls[nat i := tried k l]) i = Some (tried k l)" using i by (simp add: elem_def nat_less_iff)
  have t: "lv_loadError (tried k l) = k" "lv_url (tried k l) = lv_url l"
    "(tried k l)\<lparr>lv_loadError := Suc k, lv_urlId := (lv_urlId (tried k l) + 1) mod length (lv_url l), lv_details := None\<rparr> = tried (Suc k) l"
    using assms(3) by (auto simp: tried_def mod_Suc_eq)
  show ?case
    using Suc assms(5, 6) el t by (simp add: level_onError_def Let_def)
qed

text \<open>
  C19. A level with \<open>n\<close> redundant playlists that fails again and again is tried with each of them once, without any other effect;
  only the \<open>n\<close>-th failure switches down, in automatic mode and above the lowest level.
\<close>

theorem failover_tries_all:
  assumes "q_levels q = Some ls" "elem ls i = Some l" "lv_loadError l = 0" "level_ok l"
    and "\<not> ed_fatal data" "error_level data = Inr (Some i)"
  shows "\<exists>f. (\<forall>k < length (lv_url l). repeat_error k v data q = Inr (q\<lparr>q_levels := Some (ls[nat i := f k])\<rparr>)) \<and>
      {lv_url l ! lv_urlId (f k) | k. k < length (lv_url l)} = set (lv_url l) \<and>
      (q_manualLevel q = - 1 \<longrightarrow> i \<noteq> 0 \<longrightarrow>
        (\<exists>q'. repeat_error (length (lv_url l)) v data q = Inr q' \<and>
          ab_nextAutoLevel (q_abr q') = max (minAutoLevel (q_config q') (q_levels q')) (max 0 (i - 1))))"
proof -
  define n where "n = length (lv_url l)"
  have u: "lv_urlId l < n" using assms(4) by (simp add: level_ok_def n_def)
  have "lv_urlId (tried k l) = (lv_urlId l + k) mod n" if "k < n" for k using that u by (simp add: tried_def n_def)
  then have eq: "{lv_url l ! lv_urlId (tried k l) | k. k < n} = {lv_url l ! ((lv_urlId l + k) mod n) | k. k < n}" by force
  have "\<exists>k < n. j = (lv_urlId l + k) mod n" if "j < n" for j
  proof (cases "lv_urlId l \<le> j")
    case True
    then show ?thesis using that by (intro exI [of _ "j - lv_urlId l"]) auto
  next
    case False
    then have "lv_urlId l + (j + n - lv_urlId l) = j + n" "j + n - lv_urlId l < n" using u by auto
    then show ?thesis using that by (intro exI [of _ "j + n - lv_urlId l"]) simp
  qed
  then have all: "{lv_url l ! lv_urlId (tried k l) | k. k < n} = set (lv_url l)"
    unfolding eq using u by (auto simp: in_set_conv_nth n_def [symmetric]) (metis mod_less_divisor gr_zeroI not_less_zero, metis)
  have last: "\<exists>q'. repeat_error n v data q = Inr q' \<and> ab_nextAutoLevel (q_abr q') = max (minAutoLevel (q_config q') (q_levels q')) (max 0 (i - 1))"
    if "q_manualLevel q = - 1" "i \<noteq> 0"
  proof -
    obtain k where k: "n = Suc k" using u by (cases n) auto
    define q1 where "q1 = q\<lparr>q_levels := Some (ls[nat i := tried k l])\<rparr>"
    have r: "repeat_error k v data q = Inr q1" using failover_steps [OF assms, of k v] k by (simp add: n_def q1_def)
    have "0 \<le> i" "i < int (length ls)" using assms(2) elem_SomeD by force+
    then have el: "elem (ls[nat i := tried k l]) i = Some (tried k l)" by (simp add: elem_def nat_less_iff)
    have t: "lv_loadError (tried k l) = k" "lv_url (tried k l) = lv_url l" using assms(3) by (auto simp: tried_def)
    have "level_onError v data q1 = Inr (no_redundancy v data i ((tried k l)\<lparr>lv_loadError := Suc k\<rparr>)
        (q1\<lparr>q_levels := Some (ls[nat i := (tried k l)\<lparr>lv_loadError := Suc k\<rparr>])\<rparr>))"
      using assms(5, 6) el t k by (simp add: level_onError_def Let_def q1_def n_def)
    then show ?thesis
      using that r k by (simp add: no_redundancy_def q1_def set_nextAutoLevel_def hls_set_nextAutoLevel_def)
  qed
  show ?thesis
    using failover_steps [OF assms] all last by (intro exI [of _ "\<lambda>k. tried k l"]) (simp add: n_def)
qed

definition redundant_level :: level_obj where
  "redundant_level = (level_of_playlist ''a'' (initial_level ''u''))\<lparr>lv_url := [''a'', ''b'', ''c''], lv_bitrate := Some (Fin 100), lv_details := None\<rparr>"

definition frag_error :: error_data where
  "frag_error = \<lparr>ed_type = ''networkError'', ed_details = ''fragLoadError'', ed_fatal = False, ed_frag = Some (new_Fragment\<lparr>fr_level := 1\<rparr>),
     ed_contextLevel = None, ed_level = None, ed_parent = '''', ed_levelRetry = False\<rparr>"

theorem failover_tries_all_witness:
  "\<exists>f. (\<forall>k < 3. repeat_error k None frag_error ((new_quality hlsDefaultConfig)\<lparr>q_levels := Some [redundant_level, redundant_level]\<rparr>) =
      Inr ((new_quality hlsDefaultConfig)\<lparr>q_levels := Some [redundant_level, f k]\<rparr>)) \<and>
    {[''a'', ''b'', ''c''] ! lv_urlId (f k) | k. k < 3} = {''a'', ''b'', ''c''}"
proof -
  have facts: "lv_loadError redundant_level = 0" "level_ok redundant_level" "\<not> ed_fatal frag_error" "error_level frag_error = Inr (Some 1)"
    "elem [redundant_level, redundant_level] 1 = Some redundant_level"
    by (simp_all add: redundant_level_def level_of_playlist_def level_ok_def frag_error_def error_level_def elem_def)
  have q: "q_levels ((new_quality hlsDefaultConfig)\<lparr>q_levels := Some [redundant_level, redundant_level]\<rparr>) = Some [redundant_level, redundant_level]"
    by simp
  have url: "lv_url redundant_level = [''a'', ''b'', ''c'']" by (simp add: redundant_level_def)
  from failover_tries_all [OF q facts(5, 1, 2, 3, 4), of None] obtain f where
    "(\<forall>k < 3. repeat_error k None frag_error ((new_quality hlsDefaultConfig)\<lparr>q_levels := Some [redundant_level, redundant_level]\<rparr>) =
      Inr ((new_quality hlsDefaultConfig)\<lparr>q_levels := Some [redundant_level, f k]\<rparr>)) \<and>
    {[''a'', ''b'', ''c''] ! lv_urlId (f k) | k. k < 3} = {''a'', ''b'', ''c''}"
    unfolding url by (auto simp: numeral_3_eq_3)
  then show ?thesis by blast
qed

text \<open>
  C20. Whatever happens to the levels of a player, in any order - manifests, loads, failures, switches by the user or the
  controllers - the playlist in use exists for every level and every playlist that was asked for has a URL.
\<close>

theorem playlist_in_use_exists:
  assumes "quality_reachable config q"
  shows "(\<forall>ls l. q_levels q = Some ls \<longrightarrow> l \<in> set ls \<longrightarrow> lv_urlId l < length (lv_url l)) \<and>
    (\<forall>u n k. LevelLoading u n k \<in> set (q_events q) \<longrightarrow> u \<noteq> None)"
  using quality_reachable_ok [OF assms] by (auto simp: quality_ok_def level_ok_def loads_ok_def list_all_iff)

theorem playlist_in_use_exists_witness:
  "\<exists>q data. level_onError None frag_error (onManifestLoaded (\<lambda>_. True) False two_bitrates False (new_quality hlsDefaultConfig)) =
      Inr (q, data) \<and> (\<forall>ls l. q_levels q = Some ls \<longrightarrow> l \<in> set ls \<longrightarrow> lv_urlId l < length (lv_url l))"
proof -
  define q0 where "q0 = onManifestLoaded (\<lambda>_. True) False two_bitrates False (new_quality hlsDefaultConfig)"
  have "\<forall>m \<in> set two_bitrates. \<exists>u. lv_url m = [u]" by (simp add: two_bitrates_def level_of_playlist_def)
  then have q0: "quality_reachable hlsDefaultConfig q0"
    unfolding q0_def by (rule quality_reachable.intros(2) [OF quality_reachable.intros(1) quality_step.manifest])
  have "\<exists>ls. q_levels q0 = Some ls \<and> length ls = 2"
    by (simp add: q0_def onManifestLoaded_def two_bitrates_def level_of_playlist_def regroup_def regroup_step_def erase_mp3_def Let_def
        usable_levels_def codec_ok_def filled_string_def js_sort_def bitrate_le_def new_quality_def)
  then have "\<exists>r. level_onError None frag_error q0 = Inr r"
    by (auto simp: level_onError_def error_level_def frag_error_def elem_def Let_def)
  then obtain q data where r: "level_onError None frag_error q0 = Inr (q, data)" by auto
  then have "quality_reachable hlsDefaultConfig q" using q0 quality_step.failure quality_reachable.intros(2) by blast
  from playlist_in_use_exists [OF this] show ?thesis using r by (auto simp: q0_def)
qed

text \<open>
  A live playlist of the level in use is reloaded after its target duration, half of it when it did not change, less the
  time that the load took, and never before one second has passed.
\<close>

lemma live_reload:
  assumes "q_level q = Some n" "q_levels q = Some ls" "elem ls n = Some l" "ld_live d"
    and "ld_averagetargetduration d = Some t" "t \<noteq> 0"
  shows "\<exists>q' delay. level_onLevelLoaded (Num now) (Num trequest) n d q = Inr q' \<and> q_timer q' \<and>
    q_events q' = q_events q @ [SetTimer (Num delay)] \<and> 1000 \<le> delay \<and>
    delay = max 1000 (of_int \<lfloor>1000 * of_rat t / (case lv_details l of Some c \<Rightarrow> if ld_endSN d = ld_endSN c then 2 else 1 | None \<Rightarrow> 1)
      - (now - trequest) + 1 / 2\<rfloor>)"
  using assms by (auto simp: level_onLevelLoaded_def reload_interval_def Let_def arm_timer_def split: option.split)

theorem live_reload_witness:
  "\<exists>q' delay. level_onLevelLoaded (Num 5000) (Num 4000) 0
      ((initial_level ''u'')\<lparr>ld_live := True, ld_averagetargetduration := Some 6\<rparr>)
      ((new_quality hlsDefaultConfig)\<lparr>q_level := Some 0, q_levels := Some [redundant_level]\<rparr>) = Inr q' \<and> q_timer q' \<and>
    q_events q' = [SetTimer (Num delay)] \<and> 1000 \<le> delay \<and> delay = 5000"
proof -
  define d where "d = (initial_level ''u'')\<lparr>ld_live := True, ld_averagetargetduration := Some 6\<rparr>"
  define q where "q = (new_quality hlsDefaultConfig)\<lparr>q_level := Some 0, q_levels := Some [redundant_level]\<rparr>"
  have q: "q_level q = Some 0" "q_levels q = Some [redundant_level]" "elem [redundant_level] 0 = Some redundant_level"
    "ld_live d" "ld_averagetargetduration d = Some 6"
    by (simp_all add: q_def d_def elem_def)
  have "lv_details redundant_level = None" "q_events q = []" by (simp_all add: redundant_level_def q_def new_quality_def)
  moreover have "max 1000 (of_int \<lfloor>1000 * of_rat 6 / 1 - (5000 - 4000) + 1 / 2 :: real\<rfloor>) = (5000 :: real)" by simp
  ultimately show ?thesis
    using live_reload [OF q, of 5000 4000] unfolding q_def [symmetric] d_def [symmetric] by (auto simp del: of_rat_numeral_eq)
qed

subsection \<open>The size of the player\<close>

text \<open>
  While no level is restricted, the cap is the first level whose size is at least that of the player in one dimension and that
  is the last of its size, or the highest level in question.
\<close>

lemma player_size_level:
  assumes "cl_levels c = Some levels" "cl_restrictedLevels c = Some []" "0 \<le> cap" "cap < int (length levels)"
  shows "\<exists>n \<le> nat cap. getMaxLevel scale cap c = int n \<and>
    (n < nat cap \<longrightarrow> large_enough (mediaWidth scale c) (mediaHeight scale c) (levels ! n)) \<and>
    (\<forall>j < n. \<not> (large_enough (mediaWidth scale c) (mediaHeight scale c) (levels ! j) \<and>
       (lv_width (levels ! j) \<noteq> lv_width (levels ! Suc j) \<or> lv_height (levels ! j) \<noteq> lv_height (levels ! Suc j))))"
  by (rule getMaxLevel_unrestricted [OF assms])

definition sized_levels :: "level_obj list" where
  "sized_levels = map (\<lambda>w. (level_of_playlist ''a'' (initial_level ''u''))\<lparr>lv_width := Some w, lv_height := Some w\<rparr>) [100, 200, 300]"

definition sized_player :: "int list \<Rightarrow> cap_level" where
  "sized_player restricted = \<lparr>cl_media = Some \<lparr>ms_width = 200, ms_clientWidth = 0, ms_offsetWidth = 0, ms_height = 200, ms_clientHeight = 0,
      ms_offsetHeight = 0\<rparr>, cl_restrictedLevels = Some restricted, cl_levels = Some sized_levels, cl_autoLevelCapping = PosInf, cl_timer = True\<rparr>"

theorem player_size_level_witness: "\<exists>n \<le> (2 :: nat). getMaxLevel 1 2 (sized_player []) = int n"
  using player_size_level [of "sized_player []" sized_levels 2 1] by (auto simp: sized_player_def sized_levels_def)

text \<open>
  With a restricted level the position among the levels that are allowed is taken for an index of all levels: for a player of the
  size of level 1, restricting level 0 makes level 0 the cap.
\<close>

lemma restricted_level_chosen: "getMaxLevel 1 2 (sized_player []) = 1" "getMaxLevel 1 2 (sized_player [0]) = 0"
  by (simp_all add: getMaxLevel_def sized_player_def sized_levels_def valid_levels_def isLevelAllowed_def getMaxLevelByMediaSize_def
      large_enough_def mediaWidth_def mediaHeight_def or_else_def size_js_def atGreatestBandwidth_def upto.simps)

end
