(* ===== verification/Stream_State.thy ===== *)
theory Stream_State
  imports Quality_Laws
begin

text \<open>
  The state of the fragment scheduler, \<open>src/controller/stream-controller.js\<close>, and the operations on it that the others use.
  \<open>this.levels\<close> is the array of the level controller, whose state is part of this one. A fragment is an object with an
  identity, \<open>fr_id\<close>: every variable that refers to it holds its current value, and a change is made to all of them
  (\<open>put_frags\<close>). What the code triggers or calls outside the three controllers is listed in \<open>sc_events\<close>.
\<close>

datatype stream_state =
    STOPPED | IDLE | KEY_LOADING | FRAG_LOADING | FRAG_LOADING_WAITING_RETRY | WAITING_LEVEL | PARSING | PARSED
  | BUFFER_FLUSHING | ENDED | ERROR

text \<open>What \<open>mediaBuffer\<close> refers to: the media element or a source buffer.\<close>

datatype buffer_ref = MediaItself | TrackBuffer string

text \<open>A track of the remuxer, as the init segment event carries it.\<close>

record track_info =
  tk_container :: string
  tk_codec :: "string option"
  tk_channelCount :: "nat option"
  tk_levelCodec :: "string option"
  tk_initSegment :: "bytes option"
  tk_id :: string

datatype stream_event =
    StateTransition stream_state stream_state
  | AbortFragLoader nat \<comment> \<open>of the fragment with this identity\<close>
  | DestroyDemuxer
  | KeyLoading frag
  | FragLoading frag
  | FragBuffered load_stats frag
  | FragChanged frag
  | LevelSwitched int
  | LevelUpdated level_details int
  | LevelPtsUpdated "level_details option" "int option" num string num num \<comment> \<open>drift, type, start, end\<close>
  | BufferReset
  | BufferEos "string option"
  | BufferFlushing num "rat js" "string option"
  | BufferCodecs "(string \<times> track_info) list"
  | BufferAppending string bytes bool \<comment> \<open>type, data, whether it is an init segment\<close>
  | DemuxerPush bytes "bytes option" "string option" "string option" frag num bool
      \<comment> \<open>payload, init segment, audio and video codec, fragment, duration, accurate time offset\<close>
  | Seek num
  | Play
  | Pause
  | AudioTrackSwitched int
  | ReportError string bool \<comment> \<open>details, fatal\<close>
  | InternalException
  | TickLater

record stream =
  sc_quality :: quality
  sc_state :: stream_state
  sc_media :: "media_element option"
  sc_mediaBuffer :: "buffer_ref option"
  sc_videoBuffer :: "buffer_ref option"
  sc_buffered :: "string \<Rightarrow> time_range list" \<comment> \<open>of the source buffers\<close>
  sc_levelLastLoaded :: "int option"
  sc_level :: "int option"
  sc_loadedmetadata :: bool
  sc_startFragRequested :: "bool option"
  sc_nextLoadPosition :: num
  sc_startPosition :: num
  sc_lastCurrentTime :: num
  sc_fragCurrent :: "frag option"
  sc_fragPrevious :: "frag option"
  sc_fragPlaying :: "frag option"
  sc_bufferedFrags :: "frag list"
  sc_fragLoadError :: nat
  sc_fragLoadIdx :: "int option option" \<comment> \<open>\<open>None\<close> is undefined, \<open>Some None\<close> is \<open>NaN\<close>\<close>
  sc_retryDate :: "rat option"
  sc_forceStartLoad :: bool
  sc_bitrateTest :: bool
  sc_altAudio :: bool
  sc_audioCodecSwap :: bool
  sc_audioCodecSwitch :: bool
  sc_lastAudioCodec :: "string option"
  sc_demuxer :: bool
  sc_stats :: "load_stats option"
  sc_pendingBuffering :: bool
  sc_appended :: bool
  sc_fragLastKbps :: "real js"
  sc_immediateSwitch :: bool
  sc_previouslyPaused :: bool
  sc_stalled :: "rat option"
  sc_stallReported :: bool
  sc_nudgeRetry :: nat
  sc_liveSyncPosition :: num
  sc_timer :: bool
  sc_ticks :: nat
  sc_events :: "stream_event list"

definition new_StreamController :: "hls_config \<Rightarrow> stream" where
  "new_StreamController config =
     \<lparr>sc_quality = new_quality config, sc_state = STOPPED, sc_media = None, sc_mediaBuffer = None, sc_videoBuffer = None,
      sc_buffered = (\<lambda>_. []), sc_levelLastLoaded = None, sc_level = None, sc_loadedmetadata = False,
      sc_startFragRequested = None, sc_nextLoadPosition = None, sc_startPosition = None, sc_lastCurrentTime = None,
      sc_fragCurrent = None, sc_fragPrevious = None, sc_fragPlaying = None, sc_bufferedFrags = [], sc_fragLoadError = 0,
      sc_fragLoadIdx = None, sc_retryDate = None, sc_forceStartLoad = False, sc_bitrateTest = False, sc_altAudio = False,
      sc_audioCodecSwap = False, sc_audioCodecSwitch = False, sc_lastAudioCodec = None, sc_demuxer = False, sc_stats = None,
      sc_pendingBuffering = False, sc_appended = False, sc_fragLastKbps = NotNum, sc_immediateSwitch = False,
      sc_previouslyPaused = False, sc_stalled = None, sc_stallReported = False, sc_nudgeRetry = 0, sc_liveSyncPosition = None,
      sc_timer = False, sc_ticks = 0, sc_events = []\<rparr>"

definition tell :: "stream_event list \<Rightarrow> stream \<Rightarrow> stream" where
  "tell es s = s\<lparr>sc_events := sc_events s @ es\<rparr>"

abbreviation config_of :: "stream \<Rightarrow> hls_config" where
  "config_of s \<equiv> q_config (sc_quality s)"

abbreviation levels_of :: "stream \<Rightarrow> level_obj list option" where
  "levels_of s \<equiv> q_levels (sc_quality s)"

definition level_at :: "int \<Rightarrow> stream \<Rightarrow> level_obj option" where
  "level_at n s = (case levels_of s of None \<Rightarrow> None | Some ls \<Rightarrow> elem ls n)"

definition set_state :: "stream_state \<Rightarrow> stream \<Rightarrow> stream" where
  "set_state nextState s =
     (if sc_state s \<noteq> nextState then tell [StateTransition (sc_state s) nextState] (s\<lparr>sc_state := nextState\<rparr>) else s)"

subsection \<open>Fragments\<close>

definition refresh :: "frag list \<Rightarrow> frag \<Rightarrow> frag" where
  "refresh fs f = (case find (\<lambda>g. fr_id g = fr_id f) fs of Some g \<Rightarrow> g | None \<Rightarrow> f)"

definition refresh_details :: "frag list \<Rightarrow> level_details \<Rightarrow> level_details" where
  "refresh_details fs d =
     d\<lparr>ld_fragments := map (refresh fs) (ld_fragments d), ld_initSegment := map_option (refresh fs) (ld_initSegment d)\<rparr>"

definition put_frags :: "frag list \<Rightarrow> stream \<Rightarrow> stream" where
  "put_frags fs s =
     (let q = sc_quality s; A = q_abr q
      in s\<lparr>sc_quality := q\<lparr>q_levels := map_option (map (\<lambda>l. l\<lparr>lv_details := map_option (refresh_details fs) (lv_details l)\<rparr>)) (q_levels q),
                            q_abr := A\<lparr>ab_fragCurrent := map_option (refresh fs) (ab_fragCurrent A)\<rparr>\<rparr>,
           sc_fragCurrent := map_option (refresh fs) (sc_fragCurrent s),
           sc_fragPrevious := map_option (refresh fs) (sc_fragPrevious s),
           sc_fragPlaying := map_option (refresh fs) (sc_fragPlaying s),
           sc_bufferedFrags := map (refresh fs) (sc_bufferedFrags s)\<rparr>)"

definition num_le :: "num \<Rightarrow> num \<Rightarrow> bool" where
  "num_le x y = (case (x, y) of (Some a, Some b) \<Rightarrow> a \<le> b | _ \<Rightarrow> False)"

definition getBufferedFrag :: "real js \<Rightarrow> stream \<Rightarrow> frag option" where
  "getBufferedFrag position s =
     search (sc_bufferedFrags s)
       (\<lambda>f. if position < js_of (fr_startPTS f) then - 1 else if js_of (fr_endPTS f) < position then 1 else 0)"

definition frag_playing_at :: "rat \<Rightarrow> stream \<Rightarrow> frag option" where
  "frag_playing_at position s = getBufferedFrag (Num (of_rat position)) s"

definition currentLevel :: "stream \<Rightarrow> int" where
  "currentLevel s =
     (case sc_media s of
        Some m \<Rightarrow> (case frag_playing_at (md_currentTime m) s of Some f \<Rightarrow> fr_level f | None \<Rightarrow> - 1)
      | None \<Rightarrow> - 1)"

definition followingBufferedFrag :: "frag option \<Rightarrow> stream \<Rightarrow> frag option" where
  "followingBufferedFrag frag s =
     (case frag of Some f \<Rightarrow> getBufferedFrag (js_of (fr_endPTS f) + Num (1 / 2)) s | None \<Rightarrow> None)"

definition nextBufferedFrag :: "stream \<Rightarrow> frag option" where
  "nextBufferedFrag s =
     (case sc_media s of
        Some m \<Rightarrow> followingBufferedFrag (frag_playing_at (md_currentTime m) s) s
      | None \<Rightarrow> None)"

definition nextLevel :: "stream \<Rightarrow> int" where
  "nextLevel s = (case nextBufferedFrag s of Some f \<Rightarrow> fr_level f | None \<Rightarrow> - 1)"

subsection \<open>Buffers\<close>

text \<open>The ranges of \<open>mediaBuffer ? mediaBuffer : media\<close>.\<close>

definition scheduled_buffer :: "stream \<Rightarrow> time_range list option" where
  "scheduled_buffer s =
     (case sc_mediaBuffer s of
        Some (TrackBuffer t) \<Rightarrow> Some (sc_buffered s t)
      | _ \<Rightarrow> map_option md_buffered (sc_media s))"

definition isBuffered_at :: "time_range list option \<Rightarrow> num \<Rightarrow> bool" where
  "isBuffered_at buffered position = (case position of Some p \<Rightarrow> isBuffered buffered p | None \<Rightarrow> False)"

text \<open>Length, end and next start at a position that may be \<open>NaN\<close>.\<close>

definition bufferInfo_at :: "time_range list option \<Rightarrow> num \<Rightarrow> rat \<Rightarrow> rat \<times> num \<times> rat option" where
  "bufferInfo_at buffered pos hole =
     (case pos of
        Some p \<Rightarrow> (let b = bufferInfo buffered p hole in (bi_len b, Some (bi_end b), bi_nextStart b))
      | None \<Rightarrow> (0, None, None))"

definition flushMainBuffer :: "num \<Rightarrow> rat js \<Rightarrow> stream \<Rightarrow> stream" where
  "flushMainBuffer startOffset endOffset s =
     tell [BufferFlushing startOffset endOffset (if sc_altAudio s then Some ''video'' else None)] (set_state BUFFER_FLUSHING s)"

text \<open>\<open>fragLoadIdx += n\<close>\<close>

definition raise_loadIdx :: "int \<Rightarrow> stream \<Rightarrow> stream" where
  "raise_loadIdx n s =
     s\<lparr>sc_fragLoadIdx := Some (case sc_fragLoadIdx s of Some (Some i) \<Rightarrow> Some (i + n) | _ \<Rightarrow> None)\<rparr>"

definition reduceMaxBufferLength :: "num \<Rightarrow> stream \<Rightarrow> stream" where
  "reduceMaxBufferLength minLength s =
     (let config = config_of s in
      if num_le minLength (Some (cf_maxMaxBufferLength config)) then
        raise_loadIdx (2 * cf_fragLoadingLoopThreshold config)
          (s\<lparr>sc_quality := (sc_quality s)\<lparr>q_config := config\<lparr>cf_maxMaxBufferLength := cf_maxMaxBufferLength config / 2\<rparr>\<rparr>\<rparr>)
      else s)"

text \<open>\<open>fragCurrent.loader.abort()\<close> where there is one.\<close>

definition abort_current :: "stream \<Rightarrow> stream" where
  "abort_current s =
     (case sc_fragCurrent s of
        Some f \<Rightarrow> if fr_loader f then tell [AbortFragLoader (fr_id f)] s else s
      | None \<Rightarrow> s)"

definition destroy_demuxer :: "stream \<Rightarrow> stream" where
  "destroy_demuxer s = (if sc_demuxer s then (tell [DestroyDemuxer] s)\<lparr>sc_demuxer := False\<rparr> else s)"

definition seek_to :: "num \<Rightarrow> stream \<Rightarrow> stream" where
  "seek_to t s =
     tell [Seek t] (s\<lparr>sc_media := map_option (\<lambda>m. case t of Some p \<Rightarrow> m\<lparr>md_currentTime := p\<rparr> | None \<Rightarrow> m) (sc_media s)\<rparr>)"

definition set_paused :: "bool \<Rightarrow> stream \<Rightarrow> stream" where \<comment> \<open>\<open>media.pause()\<close> and \<open>media.play()\<close>\<close>
  "set_paused p s = tell [if p then Pause else Play] (s\<lparr>sc_media := map_option (\<lambda>m. m\<lparr>md_paused := p\<rparr>) (sc_media s)\<rparr>)"

subsection \<open>Events that the other controllers handle\<close>

text \<open>An exception in a handler of an event is caught there and reported.\<close>

definition abr_event :: "(abr \<Rightarrow> abr result) \<Rightarrow> stream \<Rightarrow> stream" where
  "abr_event f s =
     (case f (q_abr (sc_quality s)) of
        Inl _ \<Rightarrow> tell [InternalException] s
      | Inr A \<Rightarrow> s\<lparr>sc_quality := (sc_quality s)\<lparr>q_abr := A\<rparr>\<rparr>)"

definition trigger_fragLoading :: "frag \<Rightarrow> stream \<Rightarrow> stream" where
  "trigger_fragLoading frag s =
     put_frags [frag\<lparr>fr_loader := True\<rparr>]
       (abr_event (abr_onFragLoading (config_of s) (case levels_of s of Some ls \<Rightarrow> ls | None \<Rightarrow> []) frag) (tell [FragLoading frag] s))"

definition trigger_fragBuffered :: "load_stats \<Rightarrow> frag \<Rightarrow> stream \<Rightarrow> stream" where
  "trigger_fragBuffered stats frag s = abr_event (abr_onFragBuffered frag stats) (tell [FragBuffered stats frag] s)"

text \<open>Errors go to the level controllers first; they may make the error fatal.\<close>

definition level_errors :: "error_data \<Rightarrow> stream \<Rightarrow> stream \<times> error_data" where
  "level_errors data s =
     (let q = sc_quality s; q = q\<lparr>q_abr := abr_onError (ed_details data) (q_abr q)\<rparr>
      in case level_onError (sc_media s) data q of
           Inl _ \<Rightarrow> (tell [InternalException] (s\<lparr>sc_quality := q\<rparr>), data)
         | Inr (q, data) \<Rightarrow> (s\<lparr>sc_quality := q\<rparr>, data))"

definition hls_get_nextLoadLevel :: "stream \<Rightarrow> int result" where
  "hls_get_nextLoadLevel s = get_nextLoadLevel (sc_media s) (sc_quality s)"

definition hls_set_nextLoadLevel :: "int \<Rightarrow> stream \<Rightarrow> stream result" where
  "hls_set_nextLoadLevel n s = map_sum id (\<lambda>q. s\<lparr>sc_quality := q\<rparr>) (set_nextLoadLevel n (sc_quality s))"

end
