(* ===== verification/Stream_Select.thy ===== *)
theory Stream_Select
  imports Stream_State
begin

text \<open>
  Errors, and the choice of the next fragment: \<open>onError\<close>, \<open>_fetchPayloadOrEos\<close>, \<open>_ensureFragmentAtLivePoint\<close>,
  \<open>_findFragment\<close> and \<open>_loadFragmentOrKey\<close> of \<open>src/controller/stream-controller.js\<close>.
\<close>

subsection \<open>Errors\<close>

definition retry_delay :: "hls_config \<Rightarrow> nat \<Rightarrow> rat" where
  "retry_delay config fragLoadError =
     min (2 ^ fragLoadError * cf_fragLoadingRetryDelay config) (cf_fragLoadingMaxRetryTimeout config)"

definition frag_load_failed :: "rat \<Rightarrow> error_data \<Rightarrow> frag option \<Rightarrow> stream \<Rightarrow> (stream \<times> error_data) result" where
  "frag_load_failed now data frag s =
     (if ed_fatal data then Inr (s, data)
      else if sc_fragLoadError s + 1 \<le> cf_fragLoadingMaxRetry (config_of s) then
        case frag of
          None \<Rightarrow> Inl TypeError
        | Some f \<Rightarrow>
            let delay = retry_delay (config_of s) (sc_fragLoadError s);
                s = (put_frags [f\<lparr>fr_loadCounter := Some 0\<rparr>] s)\<lparr>sc_retryDate := Some (now + delay)\<rparr>;
                s = (if \<not> sc_loadedmetadata s
                     then s\<lparr>sc_startFragRequested := Some False, sc_nextLoadPosition := sc_startPosition s\<rparr> else s)
            in Inr (set_state FRAG_LOADING_WAITING_RETRY (s\<lparr>sc_fragLoadError := sc_fragLoadError s + 1\<rparr>), data)
      else Inr (set_state ERROR s, data\<lparr>ed_fatal := True\<rparr>))"

definition frag_loop_failed :: "error_data \<Rightarrow> frag option \<Rightarrow> stream \<Rightarrow> (stream \<times> error_data) result" where
  "frag_loop_failed data frag s =
     (if ed_fatal data then Inr (s, data)
      else case frag of
        None \<Rightarrow> Inl TypeError
      | Some f \<Rightarrow>
          if media_buffered (sc_media s) then Inr (set_state IDLE (reduceMaxBufferLength (fr_duration f) s), data)
          else if \<not> fr_autoLevel f \<or> fr_level f = 0 then Inr (set_state ERROR s, data\<lparr>ed_fatal := True\<rparr>)
          else Inr (s, data))"

definition level_load_failed :: "error_data \<Rightarrow> stream \<Rightarrow> stream" where
  "level_load_failed data s =
     (if sc_state s = ERROR then s
      else if ed_fatal data then set_state ERROR s
      else if \<not> ed_levelRetry data \<and> sc_state s = WAITING_LEVEL then set_state IDLE s
      else s)"

definition buffer_full :: "error_data \<Rightarrow> stream \<Rightarrow> stream" where
  "buffer_full data s =
     (if ed_parent data = ''main'' \<and> (sc_state s = PARSING \<or> sc_state s = PARSED) then
        if media_buffered (sc_media s) then set_state IDLE (reduceMaxBufferLength (Some (cf_maxBufferLength (config_of s))) s)
        else flushMainBuffer (Some 0) PosInf (s\<lparr>sc_fragCurrent := None\<rparr>)
      else s)"

definition stream_onError :: "rat \<Rightarrow> error_data \<Rightarrow> stream \<Rightarrow> (stream \<times> error_data) result" where
  "stream_onError now data s =
     (let frag = (case ed_frag data of Some f \<Rightarrow> Some f | None \<Rightarrow> sc_fragCurrent s);
          details = ed_details data
      in if (case frag of Some f \<Rightarrow> fr_type f \<noteq> ''main'' | None \<Rightarrow> False) then Inr (s, data)
         else if details \<in> {''fragLoadError'', ''fragLoadTimeOut'', ''keyLoadError'', ''keyLoadTimeOut''} then frag_load_failed now data frag s
         else if details = ''fragLoopLoadingError'' then frag_loop_failed data frag s
         else if details = ''levelLoadError'' \<or> details = ''levelLoadTimeOut'' then Inr (level_load_failed data s, data)
         else if details = ''bufferFullError'' then Inr (buffer_full data s, data)
         else Inr (s, data))"

text \<open>An error of the player, as all three controllers see it.\<close>

definition player_onError :: "rat \<Rightarrow> error_data \<Rightarrow> stream \<Rightarrow> stream" where
  "player_onError now data s =
     (let (s, data) = level_errors data (tell [ReportError (ed_details data) (ed_fatal data)] s)
      in case stream_onError now data s of
           Inl _ \<Rightarrow> tell [InternalException] s
         | Inr (s, data) \<Rightarrow> s)"

subsection \<open>Live playlists\<close>

definition computeLivePosition :: "hls_config \<Rightarrow> num \<Rightarrow> level_details \<Rightarrow> num" where
  "computeLivePosition config sliding levelDetails =
     (let targetLatency = (case cf_liveSyncDuration config of
            Some d \<Rightarrow> Some d
          | None \<Rightarrow> num_mul (Some (cf_liveSyncDurationCount config)) (ld_targetduration levelDetails))
      in num_add sliding (num_max (Some 0) (num_sub (ld_totalduration levelDetails) targetLatency)))"

definition max_latency :: "hls_config \<Rightarrow> level_details \<Rightarrow> rat js" where
  "max_latency config levelDetails =
     (case cf_liveMaxLatencyDuration config of
        Some d \<Rightarrow> Num d
      | None \<Rightarrow> cf_liveMaxLatencyDurationCount config * js_of (ld_targetduration levelDetails))"

definition sn_num :: "frag \<Rightarrow> int option" where
  "sn_num f = (case fr_sn f of SN n \<Rightarrow> Some n | InitSegment \<Rightarrow> None)"

text \<open>The fragment to continue with after a switch to a level whose times are not known.\<close>

definition guess_fragment :: "level_details \<Rightarrow> frag option \<Rightarrow> frag option result" where
  "guess_fragment levelDetails fragPrevious =
     (let fragments = ld_fragments levelDetails;
          middle = elem fragments (min (int (length fragments) - 1) (js_round (of_nat (length fragments) / 2)))
      in case fragPrevious of
           None \<Rightarrow> Inr middle
         | Some prev \<Rightarrow>
             let same_cc = (case search fragments (\<lambda>f. fr_cc prev - fr_cc f) of Some f \<Rightarrow> Some f | None \<Rightarrow> middle)
             in case sn_num prev of
                  None \<Rightarrow> Inr same_cc
                | Some n \<Rightarrow>
                    if n + 1 \<ge> ld_startSN levelDetails \<and> n + 1 \<le> ld_endSN levelDetails then
                      case elem fragments (n + 1 - ld_startSN levelDetails) of
                        None \<Rightarrow> Inl TypeError
                      | Some fragNext \<Rightarrow> Inr (if fr_cc prev = fr_cc fragNext then Some fragNext else same_cc)
                    else Inr same_cc)"

text \<open>The buffer ends too far behind the live edge: continue from the live position.\<close>

definition behind_live :: "level_details \<Rightarrow> num \<Rightarrow> num \<Rightarrow> num \<Rightarrow> stream \<Rightarrow> bool" where
  "behind_live levelDetails bufferEnd start end s \<longleftrightarrow>
     js_of bufferEnd <
       js_max (js_of start - Num (cf_maxFragLookUpTolerance (config_of s))) (js_of end - max_latency (config_of s) levelDetails)"

definition to_live_position :: "num \<Rightarrow> stream \<Rightarrow> stream" where
  "to_live_position liveSyncPosition s =
     (let s = s\<lparr>sc_liveSyncPosition := liveSyncPosition, sc_nextLoadPosition := liveSyncPosition\<rparr> in
      case sc_media s of
        Some m \<Rightarrow> if md_readyState m \<noteq> 0 \<and> num_less liveSyncPosition (md_duration m) then seek_to liveSyncPosition s else s
      | None \<Rightarrow> s)"

text \<open>The result is \<open>None\<close> for \<open>null\<close>, on which the caller stops, and \<open>Some None\<close> for \<open>undefined\<close>.\<close>

definition ensureFragmentAtLivePoint ::
  "level_details \<Rightarrow> num \<Rightarrow> num \<Rightarrow> num \<Rightarrow> frag option \<Rightarrow> stream \<Rightarrow> (frag option option \<times> stream) result" where
  "ensureFragmentAtLivePoint levelDetails bufferEnd start end fragPrevious s =
     (let late = behind_live levelDetails bufferEnd start end s;
          liveSyncPosition = computeLivePosition (config_of s) start levelDetails;
          s = (if late then to_live_position liveSyncPosition s else s);
          bufferEnd = (if late then liveSyncPosition else bufferEnd)
      in if ld_PTSKnown levelDetails = Some True \<and> num_less end bufferEnd \<and>
            (case sc_media s of Some m \<Rightarrow> md_readyState m \<noteq> 0 | None \<Rightarrow> False) then Inr (None, s)
         else if sc_startFragRequested s = Some True \<and> ld_PTSKnown levelDetails \<noteq> Some True then
           map_sum id (\<lambda>f. (Some f, s)) (guess_fragment levelDetails fragPrevious)
         else Inr (Some None, s))"

subsection \<open>Finding a fragment\<close>

definition fragmentWithinTolerance :: "rat \<Rightarrow> num \<Rightarrow> frag \<Rightarrow> int" where
  "fragmentWithinTolerance maxFragLookUpTolerance bufferEnd candidate =
     (let tolerance = num_min (Some maxFragLookUpTolerance) (fr_duration candidate)
      in if num_le (num_sub (num_add (fr_start candidate) (fr_duration candidate)) tolerance) bufferEnd then 1
         else if num_less bufferEnd (num_sub (fr_start candidate) tolerance) \<and> truthy (fr_start candidate) then - 1
         else 0)"

definition candidate_fragment :: "hls_config \<Rightarrow> frag option \<Rightarrow> frag list \<Rightarrow> num \<Rightarrow> num \<Rightarrow> frag option" where
  "candidate_fragment config fragPrevious fragments bufferEnd end =
     (if num_less bufferEnd end then
        let tol = cf_maxFragLookUpTolerance config;
            tol = (if num_less (num_sub end (Some tol)) bufferEnd then 0 else tol);
            fragNext = (case fragPrevious of
              None \<Rightarrow> None
            | Some prev \<Rightarrow> (case (sn_num prev, sn_num (hd fragments)) of
                (Some n, Some first) \<Rightarrow> elem fragments (n - first + 1)
              | _ \<Rightarrow> None))
        in case fragNext of
             Some f \<Rightarrow> if fragmentWithinTolerance tol bufferEnd f = 0 then Some f
                       else search fragments (fragmentWithinTolerance tol bufferEnd)
           | None \<Rightarrow> search fragments (fragmentWithinTolerance tol bufferEnd)
      else elem fragments (int (length fragments) - 1))"

text \<open>
  \<open>loadCounter--\<close>: a counter that is not a number stays so.
\<close>

definition uncount :: "frag \<Rightarrow> frag" where
  "uncount f = f\<lparr>fr_loadCounter := map_option (\<lambda>n. n - 1) (fr_loadCounter f)\<rparr>"

text \<open>
  The fragment that was just loaded is found again: the next one, or the one before to get a keyframe.
\<close>

definition backtrack_to_previous :: "frag \<Rightarrow> frag option \<Rightarrow> int \<Rightarrow> stream \<Rightarrow> frag option \<times> stream" where
  "backtrack_to_previous frag prevFrag curSNIdx s =
     (let frag = frag\<lparr>fr_dropped := Some 0\<rparr>; s = put_frags [frag] s in
      case prevFrag of
        Some p \<Rightarrow>
          (let p = (if fr_loadCounter p \<noteq> None \<and> fr_loadCounter p \<noteq> Some 0 then uncount p else p)\<lparr>fr_backtracked := Some True\<rparr>
           in (Some p, put_frags [p] s))
      | None \<Rightarrow> (if curSNIdx \<noteq> 0 then None else Some frag, s))"

definition backtrack_fragment :: "frag \<Rightarrow> frag option \<Rightarrow> frag option \<Rightarrow> int \<Rightarrow> stream \<Rightarrow> frag option \<times> stream" where
  "backtrack_fragment frag prevFrag nextFrag curSNIdx s =
     (case nextFrag of
        Some n \<Rightarrow> if fr_backtracked n = Some True then (Some n, s) else backtrack_to_previous frag prevFrag curSNIdx s
      | None \<Rightarrow> backtrack_to_previous frag prevFrag curSNIdx s)"

definition after_previous ::
  "frag \<Rightarrow> frag \<Rightarrow> level_details \<Rightarrow> int \<Rightarrow> stream \<Rightarrow> (frag option \<times> stream) result" where
  "after_previous frag fragPrevious levelDetails sn s =
     (let fragments = ld_fragments levelDetails;
          curSNIdx = sn - ld_startSN levelDetails;
          prevFrag = elem fragments (curSNIdx - 1);
          nextFrag = elem fragments (curSNIdx + 1)
      in if fr_level frag = fr_level fragPrevious \<and> fr_backtracked frag \<noteq> Some True then
           if sn < ld_endSN levelDetails then
             if truthy (fr_deltaPTS fragPrevious) \<and> num_less (Some (cf_maxBufferHole (config_of s))) (fr_deltaPTS fragPrevious) \<and>
                truthy (fr_dropped fragPrevious) \<and> curSNIdx \<noteq> 0
             then Inr (prevFrag, put_frags [uncount fragPrevious] s)
             else case nextFrag of None \<Rightarrow> Inl TypeError | Some n \<Rightarrow> Inr (Some n, s)
           else Inr (None, s)
         else if fr_backtracked frag = Some True then Inr (backtrack_fragment frag prevFrag nextFrag curSNIdx s)
         else Inr (Some frag, s))"

definition findFragment :: "frag option \<Rightarrow> num \<Rightarrow> num \<Rightarrow> level_details \<Rightarrow> stream \<Rightarrow> (frag option \<times> stream) result" where
  "findFragment fragPrevious bufferEnd end levelDetails s =
     (case candidate_fragment (config_of s) fragPrevious (ld_fragments levelDetails) bufferEnd end of
        None \<Rightarrow> Inr (None, s)
      | Some frag \<Rightarrow>
          (case (fragPrevious, sn_num frag) of
             (Some prev, Some sn) \<Rightarrow>
               if sn_num prev = Some sn then after_previous frag prev levelDetails sn s else Inr (Some frag, s)
           | _ \<Rightarrow> Inr (Some frag, s)))"

subsection \<open>Loading\<close>

definition loop_error :: "frag \<Rightarrow> error_data" where
  "loop_error frag = \<lparr>ed_type = ''mediaError'', ed_details = ''fragLoopLoadingError'', ed_fatal = False, ed_frag = Some frag,
     ed_contextLevel = None, ed_level = None, ed_parent = '''', ed_levelRetry = False\<rparr>"

definition needs_key :: "(string \<Rightarrow> string \<Rightarrow> string) \<Rightarrow> frag \<Rightarrow> bool" where
  "needs_key resolve frag \<longleftrightarrow>
     (case decryptdata resolve frag of None \<Rightarrow> False | Some k \<Rightarrow> key_uri resolve k \<noteq> None \<and> fr_key frag = None)"

definition next_loadIdx :: "int option option \<Rightarrow> int option" where
  "next_loadIdx i = (case i of None \<Rightarrow> Some 0 | Some n \<Rightarrow> map_option (\<lambda>n. n + 1) n)"

text \<open>A fragment that was loaded too often in a row.\<close>

definition load_loop :: "int \<Rightarrow> int option \<Rightarrow> frag \<Rightarrow> bool" where
  "load_loop maxThreshold fragLoadIdx frag \<longleftrightarrow>
     (case (fr_loadCounter frag, fragLoadIdx, fr_loadIdx frag) of
        (Some n, Some i, Some j) \<Rightarrow> n > maxThreshold \<and> \<bar>i - j\<bar> < maxThreshold
      | _ \<Rightarrow> False)"

definition count_load :: "frag \<Rightarrow> frag" where
  "count_load f =
     f\<lparr>fr_loadCounter := Some (case fr_loadCounter f of Some n \<Rightarrow> if n \<noteq> 0 then n + 1 else 1 | None \<Rightarrow> 1)\<rparr>"

definition start_loading :: "frag \<Rightarrow> stream \<Rightarrow> stream" where
  "start_loading frag s =
     (let s = (put_frags [frag] s)\<lparr>sc_fragCurrent := Some frag, sc_startFragRequested := Some True\<rparr>;
          s = (if has_number frag \<and> \<not> fr_bitrateTest frag
               then s\<lparr>sc_nextLoadPosition := num_add (fr_start frag) (fr_duration frag)\<rparr> else s);
          s = trigger_fragLoading frag s
      in set_state FRAG_LOADING (s\<lparr>sc_demuxer := True\<rparr>))"

definition loadFragmentOrKey :: "(string \<Rightarrow> string \<Rightarrow> string) \<Rightarrow> rat \<Rightarrow> frag \<Rightarrow> stream \<Rightarrow> stream" where
  "loadFragmentOrKey resolve now frag s =
     (if needs_key resolve frag then tell [KeyLoading frag] (set_state KEY_LOADING s)
      else
        let idx = next_loadIdx (sc_fragLoadIdx s);
            again = (fr_loadCounter frag \<noteq> None \<and> fr_loadCounter frag \<noteq> Some 0);
            frag = count_load frag;
            s = put_frags [frag] (s\<lparr>sc_fragLoadIdx := Some idx\<rparr>)
        in if again \<and> load_loop (cf_fragLoadingLoopThreshold (config_of s)) idx frag
           then player_onError now (loop_error frag) s
           else start_loading
                  (frag\<lparr>fr_loadIdx := idx, fr_autoLevel := (q_manualLevel (sc_quality s) = - 1), fr_bitrateTest := sc_bitrateTest s\<rparr>) s)"

definition fetchPayloadOrEos ::
  "(string \<Rightarrow> string \<Rightarrow> string) \<Rightarrow> rat \<Rightarrow> num \<Rightarrow> level_details \<Rightarrow> stream \<Rightarrow> stream result" where
  "fetchPayloadOrEos resolve now bufferEnd levelDetails s =
     (let fragments = ld_fragments levelDetails in
      if fragments = [] then Inr s
      else
        let start = fr_start (hd fragments);
            end = num_add (fr_start (last fragments)) (fr_duration (last fragments));
            fragPrevious = sc_fragPrevious s;
            selected =
              (case ld_initSegment levelDetails of
                 Some seg \<Rightarrow> if fr_data seg = None then Some (Inr (Some (Some seg), s)) else None
               | None \<Rightarrow> None);
            selected =
              (case selected of
                 Some r \<Rightarrow> r
               | None \<Rightarrow>
                   if ld_live levelDetails then
                     if length fragments < cf_initialLiveManifestSize (config_of s) then Inr (None, s)
                     else ensureFragmentAtLivePoint levelDetails bufferEnd start end fragPrevious s
                   else Inr (Some (if num_less bufferEnd start then Some (hd fragments) else None), s))
        in case selected of
             Inl err \<Rightarrow> Inl err
           | Inr (None, s) \<Rightarrow> Inr s
           | Inr (Some (Some frag), s) \<Rightarrow> Inr (loadFragmentOrKey resolve now frag s)
           | Inr (Some None, s) \<Rightarrow>
               (case findFragment fragPrevious bufferEnd end levelDetails s of
                  Inl err \<Rightarrow> Inl err
                | Inr (None, s) \<Rightarrow> Inr s
                | Inr (Some frag, s) \<Rightarrow> Inr (loadFragmentOrKey resolve now frag s)))"

end
