(* ===== verification/Stream_Controller.thy ===== *)
theory Stream_Controller
  imports Stream_Select
begin

text \<open>
  The state machine of \<open>src/controller/stream-controller.js\<close>: its tick, the watchdog of the playback, and the handlers of
  its events. \<open>now\<close> is the clock, \<open>resolve\<close> the URL toolkit, \<open>ua\<close> the lower-case user agent. An error of the result type
  is an exception that leaves the handler.
\<close>

subsection \<open>Starting and stopping\<close>

definition stream_stopLoad :: "stream \<Rightarrow> stream" where
  "stream_stopLoad s =
     (let s = destroy_demuxer ((abort_current s)\<lparr>sc_fragCurrent := None, sc_fragPrevious := None\<rparr>)
      in (set_state STOPPED s)\<lparr>sc_forceStartLoad := False\<rparr>)"

definition stream_destroy :: "stream \<Rightarrow> stream" where
  "stream_destroy s = set_state STOPPED ((stream_stopLoad s)\<lparr>sc_timer := False\<rparr>)"

text \<open>\<open>media\<close>, as \<open>mediaBuffer\<close> refers to it.\<close>

definition media_ref :: "stream \<Rightarrow> buffer_ref option" where
  "media_ref s = map_option (\<lambda>_. MediaItself) (sc_media s)"

subsection \<open>The buffer is refilled\<close>

definition max_buffer_length :: "hls_config \<Rightarrow> level_obj \<Rightarrow> rat js" where
  "max_buffer_length config levelInfo =
     (let levelBitrate = bitrate_js (lv_bitrate levelInfo);
          maxBufLen = (if js_true levelBitrate
                       then js_max (Num 8 * Num (cf_maxBufferSize config) / levelBitrate) (Num (cf_maxBufferLength config))
                       else Num (cf_maxBufferLength config))
      in js_min maxBufLen (Num (cf_maxMaxBufferLength config)))"

text \<open>The last fragment is loaded, and what is buffered reaches its end up to one fragment.\<close>

definition all_buffered :: "num \<Rightarrow> num \<Rightarrow> frag \<Rightarrow> bool" where
  "all_buffered media_duration bufferEnd fragPrevious \<longleftrightarrow>
     (let duration = num_min media_duration (num_add (fr_start fragPrevious) (fr_duration fragPrevious))
      in num_le (num_sub duration (num_max bufferEnd (fr_start fragPrevious)))
           (num_max (Some (1 / 5)) (fr_duration fragPrevious)))"

definition last_loaded :: "level_details \<Rightarrow> rat option \<Rightarrow> stream \<Rightarrow> frag option" where
  "last_loaded levelDetails nextStart s =
     (case sc_fragPrevious s of
        Some f \<Rightarrow> if \<not> ld_live levelDetails \<and> fr_sn f = SN (ld_endSN levelDetails) \<and> \<not> truthy nextStart then Some f else None
      | None \<Rightarrow> None)"

definition end_of_stream :: "stream \<Rightarrow> stream" where
  "end_of_stream s = set_state ENDED (tell [BufferEos (if sc_altAudio s then Some ''video'' else None)] s)"

definition continue_level ::
  "(string \<Rightarrow> string \<Rightarrow> string) \<Rightarrow> rat \<Rightarrow> num \<Rightarrow> rat option \<Rightarrow> int \<Rightarrow> stream \<Rightarrow> stream result" where
  "continue_level resolve now bufferEnd nextStart level s =
     (case Option.bind (level_at level s) lv_details of
        None \<Rightarrow> Inr (set_state WAITING_LEVEL s)
      | Some levelDetails \<Rightarrow>
          if ld_live levelDetails \<and> sc_levelLastLoaded s \<noteq> Some level then Inr (set_state WAITING_LEVEL s)
          else case last_loaded levelDetails nextStart s of
            Some f \<Rightarrow>
              (case sc_media s of
                 None \<Rightarrow> Inl TypeError
               | Some m \<Rightarrow> if all_buffered (md_duration m) bufferEnd f then Inr (end_of_stream s)
                           else fetchPayloadOrEos resolve now bufferEnd levelDetails s)
          | None \<Rightarrow> fetchPayloadOrEos resolve now bufferEnd levelDetails s)"

definition load_position :: "stream \<Rightarrow> num result" where
  "load_position s =
     (if sc_loadedmetadata s then (case sc_media s of None \<Rightarrow> Inl TypeError | Some m \<Rightarrow> Inr (Some (md_currentTime m)))
      else Inr (sc_nextLoadPosition s))"

definition load_level :: "int \<Rightarrow> stream \<Rightarrow> stream result" where
  "load_level level s = map_sum id (\<lambda>s. s\<lparr>sc_level := Some level\<rparr>) (hls_set_nextLoadLevel level s)"

definition doTickIdle :: "(string \<Rightarrow> string \<Rightarrow> string) \<Rightarrow> rat \<Rightarrow> stream \<Rightarrow> stream result" where
  "doTickIdle resolve now s =
     (let config = config_of s in
      if sc_levelLastLoaded s \<noteq> None \<and> sc_media s = None \<and> (sc_startFragRequested s = Some True \<or> \<not> cf_startFragPrefetch config)
      then Inr s
      else case load_position s of
        Inl err \<Rightarrow> Inl err
      | Inr pos \<Rightarrow>
      (case hls_get_nextLoadLevel s of
        Inl err \<Rightarrow> Inl err
      | Inr level \<Rightarrow>
      (case levels_of s of
        None \<Rightarrow> Inl TypeError
      | Some levels \<Rightarrow>
      (case elem levels level of
        None \<Rightarrow> Inr s
      | Some levelInfo \<Rightarrow>
          let (bufferLen, bufferEnd, nextStart) = bufferInfo_at (scheduled_buffer s) pos (cf_maxBufferHole config)
          in if max_buffer_length config levelInfo \<le> Num bufferLen then Inr s
             else case load_level level s of
               Inl err \<Rightarrow> Inl err
             | Inr s \<Rightarrow> continue_level resolve now bufferEnd nextStart level s))))"

subsection \<open>The watchdog of the playback\<close>

definition media_error :: "string \<Rightarrow> bool \<Rightarrow> error_data" where
  "media_error details fatal = \<lparr>ed_type = ''mediaError'', ed_details = details, ed_fatal = fatal, ed_frag = None,
     ed_contextLevel = None, ed_level = None, ed_parent = '''', ed_levelRetry = False\<rparr>"

definition immediateLevelSwitchEnd :: "stream \<Rightarrow> stream" where
  "immediateLevelSwitchEnd s =
     (case sc_media s of
        None \<Rightarrow> s
      | Some m \<Rightarrow>
          if md_buffered m = [] then s
          else
            let s = s\<lparr>sc_immediateSwitch := False\<rparr>;
                s = (if isBuffered (Some (md_buffered m)) (md_currentTime m) then seek_to (Some (md_currentTime m - 1 / 10000)) s else s)
            in if \<not> sc_previouslyPaused s then set_paused False s else s)"

text \<open>After the first fragment is buffered: move to the start position, or to the first buffered one.\<close>

definition adjust_start :: "media_element \<Rightarrow> time_range list \<Rightarrow> stream \<Rightarrow> stream" where
  "adjust_start m buffered s =
     (let s = s\<lparr>sc_loadedmetadata := True\<rparr>;
          startPosition = (if md_seeking m then Some (md_currentTime m) else sc_startPosition s);
          startPositionBuffered = isBuffered_at (Some buffered) startPosition;
          firstbufferedPosition = Some (rg_start (hd buffered))
      in if Some (md_currentTime m) \<noteq> startPosition \<or>
            \<not> startPositionBuffered \<and>
            num_less (num_abs (num_sub startPosition firstbufferedPosition)) (Some (cf_maxSeekHole (config_of s)))
         then seek_to (if startPositionBuffered then startPosition else firstbufferedPosition) s
         else s)"

definition report_stall :: "rat \<Rightarrow> stream \<Rightarrow> stream" where
  "report_stall now s =
     (if \<not> sc_stallReported s then player_onError now (media_error ''bufferStalledError'' False) (s\<lparr>sc_stallReported := True\<rparr>) else s)"

definition seek_over_hole :: "rat \<Rightarrow> rat \<Rightarrow> rat option \<Rightarrow> stream \<Rightarrow> stream" where
  "seek_over_hole now currentTime nextBufferStart s =
     (case nextBufferStart of
        Some p \<Rightarrow>
          (let config = config_of s; delta = p - currentTime in
           if p \<noteq> 0 \<and> delta < cf_maxSeekHole config \<and> delta > 0 then
             let nudgeRetry = sc_nudgeRetry s + 1;
                 s = seek_to (Some (p + of_nat nudgeRetry * cf_nudgeOffset config)) (s\<lparr>sc_nudgeRetry := nudgeRetry\<rparr>)
             in player_onError now (media_error ''bufferSeekOverHole'' False) (s\<lparr>sc_stalled := None\<rparr>)
           else s)
      | None \<Rightarrow> s)"

definition nudge :: "rat \<Rightarrow> stream \<Rightarrow> stream" where
  "nudge now s =
     (let config = config_of s; nudgeRetry = sc_nudgeRetry s + 1; s = s\<lparr>sc_stalled := None, sc_nudgeRetry := nudgeRetry\<rparr>
      in if nudgeRetry < cf_nudgeMaxRetry config then
           let targetTime = map_option (\<lambda>m. md_currentTime m + of_nat nudgeRetry * cf_nudgeOffset config) (sc_media s)
           in player_onError now (media_error ''bufferNudgeOnStall'' False) (seek_to targetTime s)
         else player_onError now (media_error ''bufferStalledError'' True) s)"

definition check_playhead :: "rat \<Rightarrow> media_element \<Rightarrow> stream \<Rightarrow> stream" where
  "check_playhead now m s =
     (let config = config_of s; currentTime = md_currentTime m;
          info = bufferInfo (Some (md_buffered m)) currentTime 0;
          expectedPlaying = (\<not> md_paused m \<and> \<not> md_ended m \<and> md_buffered m \<noteq> []);
          playheadMoving = (Some currentTime \<noteq> sc_lastCurrentTime s)
      in if playheadMoving then s\<lparr>sc_stallReported := False, sc_stalled := None, sc_nudgeRetry := 0\<rparr>
         else if \<not> expectedPlaying then s
         else case sc_stalled s of
           None \<Rightarrow> s\<lparr>sc_stalled := Some now, sc_stallReported := False\<rparr>
         | Some since \<Rightarrow>
             if since = 0 then s\<lparr>sc_stalled := Some now, sc_stallReported := False\<rparr>
             else if bi_len info \<le> 1 / 2 \<and> now - since > cf_lowBufferWatchdogPeriod config * 1000 then
               seek_over_hole now currentTime (bi_nextStart info) (report_stall now s)
             else if bi_len info > 1 / 2 \<and> now - since > cf_highBufferWatchdogPeriod config * 1000 then
               nudge now (report_stall now s)
             else s)"

definition checkBuffer :: "rat \<Rightarrow> stream \<Rightarrow> stream" where
  "checkBuffer now s =
     (case sc_media s of
        None \<Rightarrow> s
      | Some m \<Rightarrow>
          if md_readyState m = 0 then s
          else case scheduled_buffer s of
            Some (r # rs) \<Rightarrow>
              if \<not> sc_loadedmetadata s then adjust_start m (r # rs) s
              else if sc_immediateSwitch s then immediateLevelSwitchEnd s else check_playhead now m s
          | _ \<Rightarrow> if sc_immediateSwitch s then immediateLevelSwitchEnd s else check_playhead now m s)"

subsection \<open>The fragment that is playing\<close>

definition fragment_changed :: "frag \<Rightarrow> stream \<Rightarrow> stream" where
  "fragment_changed f s =
     (if map_option fr_id (sc_fragPlaying s) \<noteq> Some (fr_id f) then
        let s' = tell [FragChanged f] s;
            s' = (if map_option fr_level (sc_fragPlaying s) \<noteq> Some (fr_level f) then tell [LevelSwitched (fr_level f)] s' else s')
        in s'\<lparr>sc_fragPlaying := Some f\<rparr>
      else s)"

definition playing_fragment :: "media_element \<Rightarrow> stream \<Rightarrow> frag option" where
  "playing_fragment m s =
     (let currentTime = md_currentTime m in
      if isBuffered (Some (md_buffered m)) currentTime then frag_playing_at currentTime s
      else if isBuffered (Some (md_buffered m)) (currentTime + 1 / 10) then frag_playing_at (currentTime + 1 / 10) s
      else None)"

definition checkFragmentChanged :: "stream \<Rightarrow> stream" where
  "checkFragmentChanged s =
     (case sc_media s of
        None \<Rightarrow> s
      | Some m \<Rightarrow>
          if md_readyState m = 0 \<or> md_seeking m then s
          else
            let s = (if num_less (num_mul (Some (md_playbackRate m)) (sc_lastCurrentTime s)) (Some (md_currentTime m))
                     then s\<lparr>sc_lastCurrentTime := Some (md_currentTime m)\<rparr> else s)
            in case playing_fragment m s of None \<Rightarrow> s | Some f \<Rightarrow> fragment_changed f s)"

subsection \<open>The tick\<close>

definition tick_state :: "(string \<Rightarrow> string \<Rightarrow> string) \<Rightarrow> rat \<Rightarrow> stream \<Rightarrow> stream result" where
  "tick_state resolve now s =
     (case sc_state s of
        BUFFER_FLUSHING \<Rightarrow> Inr (s\<lparr>sc_fragLoadError := 0\<rparr>)
      | IDLE \<Rightarrow> doTickIdle resolve now s
      | WAITING_LEVEL \<Rightarrow>
          if levels_of s = None then Inl TypeError
          else Inr (if Option.bind (Option.bind (sc_level s) (\<lambda>n. level_at n s)) lv_details \<noteq> None then set_state IDLE s else s)
      | FRAG_LOADING_WAITING_RETRY \<Rightarrow>
          Inr (if \<not> truthy (sc_retryDate s) \<or> num_le (sc_retryDate s) (Some now) \<or>
                  (case sc_media s of Some m \<Rightarrow> md_seeking m | None \<Rightarrow> False)
               then set_state IDLE s else s)
      | _ \<Rightarrow> Inr s)"

definition doTick :: "(string \<Rightarrow> string \<Rightarrow> string) \<Rightarrow> rat \<Rightarrow> stream \<Rightarrow> stream result" where
  "doTick resolve now s = map_sum id (\<lambda>s. checkFragmentChanged (checkBuffer now s)) (tick_state resolve now s)"

text \<open>A tick during a tick is put off by a timer.\<close>

definition stream_tick :: "(string \<Rightarrow> string \<Rightarrow> string) \<Rightarrow> rat \<Rightarrow> stream \<Rightarrow> stream result" where
  "stream_tick resolve now s =
     (let s = s\<lparr>sc_ticks := sc_ticks s + 1\<rparr> in
      if sc_ticks s = 1 then
        map_sum id (\<lambda>s. (if sc_ticks s > 1 then tell [TickLater] s else s)\<lparr>sc_ticks := 0\<rparr>) (doTick resolve now s)
      else Inr s)"

text \<open>The levels of a manifest come with a first level, so that the start level is defined when there are levels.\<close>

definition start_level :: "stream \<Rightarrow> stream result" where
  "start_level s =
     (case get_startLevel (sc_quality s) of
        None \<Rightarrow> Inr (s\<lparr>sc_level := None, sc_loadedmetadata := False\<rparr>)
      | Some n \<Rightarrow>
          let (startLevel, s) = (if n = - 1 then (0, s\<lparr>sc_bitrateTest := True\<rparr>) else (n, s))
          in map_sum id (\<lambda>s. s\<lparr>sc_loadedmetadata := False\<rparr>) (load_level startLevel s))"

definition stream_startLoad :: "(string \<Rightarrow> string \<Rightarrow> string) \<Rightarrow> rat \<Rightarrow> rat \<Rightarrow> stream \<Rightarrow> stream result" where
  "stream_startLoad resolve now startPosition s =
     (if levels_of s = None then Inr (set_state STOPPED (s\<lparr>sc_forceStartLoad := True\<rparr>))
      else
        let lastCurrentTime = sc_lastCurrentTime s;
            s = (stream_stopLoad s)\<lparr>sc_timer := True, sc_level := Some (- 1), sc_fragLoadError := 0\<rparr>
        in case (if sc_startFragRequested s \<noteq> Some True then start_level s else Inr s) of
             Inl err \<Rightarrow> Inl err
           | Inr s \<Rightarrow>
               let startPosition = (if num_less (Some 0) lastCurrentTime \<and> startPosition = - 1 then lastCurrentTime
                                    else Some startPosition);
                   s = (set_state IDLE s)\<lparr>sc_nextLoadPosition := startPosition, sc_startPosition := startPosition,
                                          sc_lastCurrentTime := startPosition\<rparr>
               in stream_tick resolve now s)"

text \<open>\<open>startLoad\<close> and \<open>stopLoad\<close> of \<open>src/hls.js\<close>: both controllers.\<close>

definition hls_startLoad :: "(string \<Rightarrow> string \<Rightarrow> string) \<Rightarrow> rat \<Rightarrow> rat \<Rightarrow> stream \<Rightarrow> stream result" where
  "hls_startLoad resolve now startPosition s =
     stream_startLoad resolve now startPosition (s\<lparr>sc_quality := level_startLoad (sc_quality s)\<rparr>)"

definition hls_stopLoad :: "stream \<Rightarrow> stream" where
  "hls_stopLoad s = stream_stopLoad (s\<lparr>sc_quality := level_stopLoad (sc_quality s)\<rparr>)"

end
