(* ===== verification/Stream_Handlers.thy ===== *)
theory Stream_Handlers
  imports Stream_Controller
begin

text \<open>
  The event handlers of \<open>src/controller/stream-controller.js\<close>. An error of the source buffers that an append causes
  arrives as an event of its own.
\<close>

subsection \<open>Buffered fragments\<close>

definition mid_pts :: "frag \<Rightarrow> num" where
  "mid_pts f = num_div (num_add (fr_startPTS f) (fr_endPTS f)) (Some 2)"

definition still_buffered :: "time_range list option \<Rightarrow> frag list \<Rightarrow> frag list" where
  "still_buffered buffered fs = filter (\<lambda>f. isBuffered_at buffered (mid_pts f)) fs"

definition add_buffered :: "time_range list \<Rightarrow> frag \<Rightarrow> frag list \<Rightarrow> frag list" where
  "add_buffered buffered frag fs =
     js_sort (\<lambda>a b. num_le0 (fr_startPTS a) (fr_startPTS b)) (still_buffered (Some buffered) fs @ [frag])"

text \<open>The current fragment is parsed and in the buffer.\<close>

definition fragment_buffered :: "rat \<Rightarrow> frag \<Rightarrow> stream \<Rightarrow> stream result" where
  "fragment_buffered now frag s =
     (case (scheduled_buffer s, sc_stats s) of
        (Some buffered, Some stats) \<Rightarrow>
          (let stats = stats\<lparr>st_tbuffered := Num (of_rat now)\<rparr>;
               s = s\<lparr>sc_bufferedFrags := add_buffered buffered frag (sc_bufferedFrags s), sc_fragPrevious := Some frag,
                     sc_stats := Some stats,
                     sc_fragLastKbps := js_rounded (Num 8 * st_total stats / (st_tbuffered stats - st_tfirst stats))\<rparr>
           in Inr (set_state IDLE (trigger_fragBuffered stats frag s)))
      | _ \<Rightarrow> Inl TypeError)"

definition checkAppendedParsed :: "(string \<Rightarrow> string \<Rightarrow> string) \<Rightarrow> rat \<Rightarrow> stream \<Rightarrow> stream result" where
  "checkAppendedParsed resolve now s =
     (if sc_state s = PARSED \<and> (\<not> sc_appended s \<or> \<not> sc_pendingBuffering s) then
        case (case sc_fragCurrent s of None \<Rightarrow> Inr s | Some frag \<Rightarrow> fragment_buffered now frag s) of
          Inl err \<Rightarrow> Inl err
        | Inr s \<Rightarrow> stream_tick resolve now s
      else Inr s)"

subsection \<open>Switches of the quality\<close>

definition immediateLevelSwitch :: "stream \<Rightarrow> stream" where
  "immediateLevelSwitch s =
     (let s = (if \<not> sc_immediateSwitch s then
                 (case sc_media s of
                    Some m \<Rightarrow> set_paused True (s\<lparr>sc_immediateSwitch := True, sc_previouslyPaused := md_paused m\<rparr>)
                  | None \<Rightarrow> s\<lparr>sc_immediateSwitch := True, sc_previouslyPaused := True\<rparr>)
               else s);
          s = (abort_current s)\<lparr>sc_fragCurrent := None\<rparr>;
          s = (if sc_fragLoadIdx s \<noteq> None then raise_loadIdx (2 * cf_fragLoadingLoopThreshold (config_of s)) s else s)
      in flushMainBuffer (Some 0) PosInf s)"

text \<open>The seconds that the next fragment takes to arrive, as \<open>nextLevelSwitch\<close> estimates them.\<close>

definition fetch_delay :: "media_element \<Rightarrow> stream \<Rightarrow> real js result" where
  "fetch_delay m s =
     (if md_paused m then Inr (Num 0)
      else case hls_get_nextLoadLevel s of
        Inl err \<Rightarrow> Inl err
      | Inr n \<Rightarrow>
          (case levels_of s of
             None \<Rightarrow> Inl TypeError
           | Some levels \<Rightarrow>
               (case sc_fragCurrent s of
                  Some f \<Rightarrow>
                    if js_true (sc_fragLastKbps s) then
                      (case elem levels n of
                         None \<Rightarrow> Inl TypeError
                       | Some l \<Rightarrow> Inr (js_of (fr_duration f) * bitrate_js (lv_bitrate l) / (Num 1000 * sc_fragLastKbps s) + Num 1))
                    else Inr (Num 0)
                | None \<Rightarrow> Inr (Num 0))))"

text \<open>\<open>nextBufferedFrag.maxStartPTS\<close> is a property that no code assigns: the start of the flush is \<open>undefined\<close>.\<close>

definition flush_following :: "real js \<Rightarrow> stream \<Rightarrow> stream" where
  "flush_following position s =
     (case followingBufferedFrag (getBufferedFrag position s) s of
        Some f \<Rightarrow> flushMainBuffer None PosInf ((abort_current s)\<lparr>sc_fragCurrent := None\<rparr>)
      | None \<Rightarrow> s)"

definition nextLevelSwitch :: "stream \<Rightarrow> stream result" where
  "nextLevelSwitch s =
     (case sc_media s of
        None \<Rightarrow> Inr s
      | Some m \<Rightarrow>
          if md_readyState m = 0 then Inr s
          else
            let s = raise_loadIdx (2 * cf_fragLoadingLoopThreshold (config_of s)) s;
                s = (case Option.bind (frag_playing_at (md_currentTime m) s) fr_startPTS of
                       Some p \<Rightarrow> if p > 1 then flushMainBuffer (Some 0) (Num (p - 1)) s else s
                     | None \<Rightarrow> s)
            in map_sum id (\<lambda>fetchdelay. flush_following (Num (of_rat (md_currentTime m)) + fetchdelay) s) (fetch_delay m s))"

definition hls_set_currentLevel :: "int \<Rightarrow> stream \<Rightarrow> stream result" where
  "hls_set_currentLevel newLevel s =
     map_sum id (\<lambda>q. immediateLevelSwitch (s\<lparr>sc_quality := q\<rparr>)) (set_manualLevel newLevel (sc_quality s))"

definition hls_set_nextLevel :: "int \<Rightarrow> stream \<Rightarrow> stream result" where
  "hls_set_nextLevel newLevel s =
     (case set_manualLevel newLevel (sc_quality s) of
        Inl err \<Rightarrow> Inl err
      | Inr q \<Rightarrow> nextLevelSwitch (s\<lparr>sc_quality := q\<rparr>))"

subsection \<open>The media element\<close>

definition stream_onMediaAttached :: "(string \<Rightarrow> string \<Rightarrow> string) \<Rightarrow> rat \<Rightarrow> media_element \<Rightarrow> stream \<Rightarrow> stream result" where
  "stream_onMediaAttached resolve now v s =
     (let s = s\<lparr>sc_media := Some v, sc_mediaBuffer := Some MediaItself\<rparr>
      in if levels_of s \<noteq> None \<and> cf_autoStartLoad (config_of s) then hls_startLoad resolve now (cf_startPosition (config_of s)) s
         else Inr s)"

definition level_frags :: "stream \<Rightarrow> frag list" where
  "level_frags s =
     concat (map (\<lambda>l. case lv_details l of None \<Rightarrow> [] | Some d \<Rightarrow> ld_fragments d) (case levels_of s of None \<Rightarrow> [] | Some ls \<Rightarrow> ls))"

definition stream_onMediaDetaching :: "stream \<Rightarrow> stream" where
  "stream_onMediaDetaching s =
     (let s = (if (case sc_media s of Some m \<Rightarrow> md_ended m | None \<Rightarrow> False)
               then s\<lparr>sc_startPosition := Some 0, sc_lastCurrentTime := Some 0\<rparr> else s);
          s = put_frags (map (\<lambda>f. f\<lparr>fr_loadCounter := None, fr_backtracked := None\<rparr>) (level_frags s)) s
      in stream_stopLoad (s\<lparr>sc_media := None, sc_mediaBuffer := None, sc_loadedmetadata := False\<rparr>))"

text \<open>The seek leaves the fragment that is loading.\<close>

definition seek_leaves :: "rat \<Rightarrow> num \<Rightarrow> frag \<Rightarrow> bool" where
  "seek_leaves tolerance currentTime f \<longleftrightarrow>
     num_less currentTime (num_sub (fr_start f) (Some tolerance)) \<or>
     num_less (num_add (num_add (fr_start f) (fr_duration f)) (Some tolerance)) currentTime"

definition seek_state :: "rat \<Rightarrow> num \<Rightarrow> stream \<Rightarrow> stream" where
  "seek_state bufferLen currentTime s =
     (if sc_state s = FRAG_LOADING then
        case sc_fragCurrent s of
          Some f \<Rightarrow>
            if bufferLen = 0 \<and> seek_leaves (cf_maxFragLookUpTolerance (config_of s)) currentTime f
            then set_state IDLE ((abort_current s)\<lparr>sc_fragCurrent := None, sc_fragPrevious := None\<rparr>)
            else s
        | None \<Rightarrow> s
      else if sc_state s = ENDED then set_state IDLE (if bufferLen = 0 then s\<lparr>sc_fragPrevious := None\<rparr> else s)
      else s)"

definition onMediaSeeking :: "(string \<Rightarrow> string \<Rightarrow> string) \<Rightarrow> rat \<Rightarrow> stream \<Rightarrow> stream result" where
  "onMediaSeeking resolve now s =
     (let config = config_of s;
          currentTime = map_option md_currentTime (sc_media s);
          (bufferLen, _, _) = bufferInfo_at (scheduled_buffer s) currentTime (cf_maxBufferHole config);
          s = seek_state bufferLen currentTime s;
          s = (if sc_media s \<noteq> None then s\<lparr>sc_lastCurrentTime := currentTime\<rparr> else s);
          s = (if sc_state s \<noteq> FRAG_LOADING \<and> sc_fragLoadIdx s \<noteq> None
               then raise_loadIdx (2 * cf_fragLoadingLoopThreshold config) s else s);
          s = (if \<not> sc_loadedmetadata s then s\<lparr>sc_nextLoadPosition := currentTime, sc_startPosition := currentTime\<rparr> else s)
      in stream_tick resolve now s)"

definition onMediaSeeked :: "(string \<Rightarrow> string \<Rightarrow> string) \<Rightarrow> rat \<Rightarrow> stream \<Rightarrow> stream result" where
  "onMediaSeeked resolve now s = stream_tick resolve now s"

definition onMediaEnded :: "stream \<Rightarrow> stream" where
  "onMediaEnded s = s\<lparr>sc_startPosition := Some 0, sc_lastCurrentTime := Some 0\<rparr>"

subsection \<open>Playlists\<close>

definition stream_onManifestLoading :: "stream \<Rightarrow> stream" where
  "stream_onManifestLoading s =
     (tell [BufferReset] s)\<lparr>sc_bufferedFrags := [], sc_stalled := None, sc_startPosition := Some 0, sc_lastCurrentTime := Some 0\<rparr>"

definition uses_codec :: "string \<Rightarrow> level_obj \<Rightarrow> bool" where
  "uses_codec c l = (case lv_audioCodec l of Some codec \<Rightarrow> contains c codec | None \<Rightarrow> False)"

definition stream_onManifestParsed :: "(string \<Rightarrow> string \<Rightarrow> string) \<Rightarrow> rat \<Rightarrow> level_obj list \<Rightarrow> stream \<Rightarrow> stream result" where
  "stream_onManifestParsed resolve now levels s =
     (let s = s\<lparr>sc_audioCodecSwitch := (list_ex (uses_codec ''mp4a.40.2'') levels \<and> list_ex (uses_codec ''mp4a.40.5'') levels),
                sc_quality := (sc_quality s)\<lparr>q_levels := Some levels\<rparr>, sc_startFragRequested := Some False\<rparr>
      in if cf_autoStartLoad (config_of s) \<or> sc_forceStartLoad s then hls_startLoad resolve now (cf_startPosition (config_of s)) s
         else Inr s)"

text \<open>The new details, the sliding of the playlist, and the live position when it is computed.\<close>

definition place_details ::
  "hls_config \<Rightarrow> frag option \<Rightarrow> level_details option option \<Rightarrow> level_details option \<Rightarrow> level_details \<Rightarrow>
     (level_details \<times> num \<times> num option) result" where
  "place_details config fragPrevious lastLevel curDetails newDetails =
     (if \<not> ld_live newDetails then Inr (newDetails\<lparr>ld_PTSKnown := Some False\<rparr>, Some 0, None)
      else case (curDetails, ld_fragments newDetails) of
        (Some cur, f # fs) \<Rightarrow>
          (case mergeDetails cur newDetails of
             Inl err \<Rightarrow> Inl err
           | Inr d \<Rightarrow>
               let sliding = fr_start (hd (ld_fragments d)); live = computeLivePosition config sliding cur
               in if ld_PTSKnown d = Some True \<and> sliding \<noteq> None then Inr (d, sliding, Some live)
                  else map_sum id (\<lambda>d. (d, sliding, Some live)) (alignDiscontinuities fragPrevious lastLevel d))
      | _ \<Rightarrow>
          map_sum id (\<lambda>d. (d, Some 0, None))
            (alignDiscontinuities fragPrevious lastLevel (newDetails\<lparr>ld_PTSKnown := Some False\<rparr>)))"

definition start_position :: "hls_config \<Rightarrow> num \<Rightarrow> level_details \<Rightarrow> num" where
  "start_position config sliding newDetails =
     (case ld_startTimeOffset newDetails of
        Some t \<Rightarrow> if t < 0 then num_add (num_add sliding (ld_totalduration newDetails)) (Some t) else Some t
      | None \<Rightarrow> if ld_live newDetails then computeLivePosition config sliding newDetails else Some 0)"

definition set_start :: "num \<Rightarrow> level_details \<Rightarrow> stream \<Rightarrow> stream" where
  "set_start sliding newDetails s =
     (if sc_startFragRequested s = Some False then
        let s = (if sc_startPosition s = Some (- 1) \<or> sc_lastCurrentTime s = Some (- 1) then
                   let p = start_position (config_of s) sliding newDetails
                   in s\<lparr>sc_startPosition := p, sc_lastCurrentTime := p\<rparr>
                 else s)
        in s\<lparr>sc_nextLoadPosition := sc_startPosition s\<rparr>
      else s)"

definition use_details :: "int \<Rightarrow> quality \<Rightarrow> level_details \<Rightarrow> num \<Rightarrow> num option \<Rightarrow> stream \<Rightarrow> stream" where
  "use_details newLevelId q newDetails sliding live s =
     (let s = s\<lparr>sc_quality := q, sc_levelLastLoaded := Some newLevelId,
                sc_liveSyncPosition := (case live of Some p \<Rightarrow> p | None \<Rightarrow> sc_liveSyncPosition s)\<rparr>;
          s = set_start sliding newDetails (tell [LevelUpdated newDetails newLevelId] s)
      in if sc_state s = WAITING_LEVEL then set_state IDLE s else s)"

definition stream_onLevelLoaded ::
  "(string \<Rightarrow> string \<Rightarrow> string) \<Rightarrow> rat \<Rightarrow> int \<Rightarrow> level_details \<Rightarrow> stream \<Rightarrow> stream result" where
  "stream_onLevelLoaded resolve now newLevelId newDetails s =
     (case level_at newLevelId s of
        None \<Rightarrow> Inl TypeError
      | Some curLevel \<Rightarrow>
          let lastLevel = map_option lv_details (Option.bind (sc_levelLastLoaded s) (\<lambda>n. level_at n s)) in
          (case place_details (config_of s) (sc_fragPrevious s) lastLevel (lv_details curLevel) newDetails of
             Inl err \<Rightarrow> Inl err
           | Inr (d, sliding, live) \<Rightarrow>
               (case set_details newLevelId d (sc_quality s) of
                  Inl err \<Rightarrow> Inl err
                | Inr q \<Rightarrow> stream_tick resolve now (use_details newLevelId q d sliding live s))))"

subsection \<open>A fragment arrives\<close>

definition stream_onKeyLoaded :: "(string \<Rightarrow> string \<Rightarrow> string) \<Rightarrow> rat \<Rightarrow> stream \<Rightarrow> stream result" where
  "stream_onKeyLoaded resolve now s =
     (if sc_state s = KEY_LOADING then stream_tick resolve now (set_state IDLE s) else Inr s)"

text \<open>Strings as conditions: the empty one is false.\<close>

definition or_str :: "string option \<Rightarrow> string option \<Rightarrow> string option" where
  "or_str a b = (case a of Some (c # cs) \<Rightarrow> a | _ \<Rightarrow> b)"

definition swap_codec :: "string \<Rightarrow> string" where
  "swap_codec codec = (if contains ''mp4a.40.5'' codec then ''mp4a.40.2'' else ''mp4a.40.5'')"

definition push_codec :: "level_obj \<Rightarrow> stream \<Rightarrow> string option" where
  "push_codec loadedLevel s =
     (let audioCodec = or_str (cf_defaultAudioCodec (config_of s)) (lv_audioCodec loadedLevel) in
      if sc_audioCodecSwap s then
        let audioCodec = (if audioCodec = None then sc_lastAudioCodec s else audioCodec)
        in map_option (\<lambda>c. if c = [] then c else swap_codec c) audioCodec
      else audioCodec)"

definition push_fragment :: "bytes \<Rightarrow> frag \<Rightarrow> level_obj \<Rightarrow> level_details \<Rightarrow> stream \<Rightarrow> stream" where
  "push_fragment payload fragCurrent loadedLevel details s =
     (let s = (set_state PARSING s)\<lparr>sc_pendingBuffering := True, sc_appended := False, sc_demuxer := True\<rparr>;
          mediaSeeking = (case sc_media s of Some m \<Rightarrow> md_seeking m | None \<Rightarrow> False);
          accurateTimeOffset = (\<not> mediaSeeking \<and> (ld_PTSKnown details = Some True \<or> \<not> ld_live details));
          initSegmentData = (case ld_initSegment details of Some seg \<Rightarrow> fr_data seg | None \<Rightarrow> Some [])
      in tell [DemuxerPush payload initSegmentData (push_codec loadedLevel s) (lv_videoCodec loadedLevel) fragCurrent
                 (ld_totalduration details) accurateTimeOffset] s)"

definition stats_done :: "rat \<Rightarrow> load_stats \<Rightarrow> load_stats" where
  "stats_done now stats = stats\<lparr>st_tparsed := Num (of_rat now), st_tbuffered := Num (of_rat now)\<rparr>"

text \<open>The load was a test of the bandwidth, and there is a better level to start with.\<close>

definition test_was_enough :: "frag \<Rightarrow> stream \<Rightarrow> bool result" where
  "test_was_enough fragLoaded s =
     (if fr_bitrateTest fragLoaded then map_sum id (\<lambda>n. n \<noteq> 0) (hls_get_nextLoadLevel s) else Inr False)"

definition fragment_loaded ::
  "(string \<Rightarrow> string \<Rightarrow> string) \<Rightarrow> rat \<Rightarrow> frag \<Rightarrow> bytes \<Rightarrow> load_stats \<Rightarrow> frag \<Rightarrow> level_obj \<Rightarrow> level_details \<Rightarrow> stream \<Rightarrow> stream result" where
  "fragment_loaded resolve now fragLoaded payload stats fragCurrent loadedLevel details s =
     (let s = s\<lparr>sc_bitrateTest := False, sc_stats := Some stats\<rparr>; stats = stats_done now stats in
      case test_was_enough fragLoaded s of
        Inl err \<Rightarrow> Inl err
      | Inr True \<Rightarrow>
          stream_tick resolve now
            (trigger_fragBuffered stats fragCurrent ((set_state IDLE s)\<lparr>sc_startFragRequested := Some False, sc_stats := Some stats\<rparr>))
      | Inr False \<Rightarrow>
          if fr_sn fragLoaded = InitSegment then
            (case ld_initSegment details of
               None \<Rightarrow> Inl TypeError
             | Some seg \<Rightarrow>
                 stream_tick resolve now
                   (trigger_fragBuffered stats fragCurrent
                     (put_frags [seg\<lparr>fr_data := Some payload\<rparr>] ((set_state IDLE s)\<lparr>sc_stats := Some stats\<rparr>))))
          else Inr (push_fragment payload fragCurrent loadedLevel details s))"

definition expected_fragment :: "frag \<Rightarrow> stream \<Rightarrow> frag option" where
  "expected_fragment fragNew s =
     (case sc_fragCurrent s of
        Some f \<Rightarrow> if fr_sn fragNew = fr_sn f \<and> fr_level fragNew = fr_level f then Some f else None
      | None \<Rightarrow> None)"

definition stream_onFragLoaded ::
  "(string \<Rightarrow> string \<Rightarrow> string) \<Rightarrow> rat \<Rightarrow> frag \<Rightarrow> bytes \<Rightarrow> load_stats \<Rightarrow> stream \<Rightarrow> stream result" where
  "stream_onFragLoaded resolve now fragLoaded payload stats s =
     map_sum id (\<lambda>s. s\<lparr>sc_fragLoadError := 0\<rparr>)
       (if sc_state s = FRAG_LOADING \<and> fr_type fragLoaded = ''main'' then
          case expected_fragment fragLoaded s of
            None \<Rightarrow> Inr s
          | Some fragCurrent \<Rightarrow>
              (case level_at (fr_level fragCurrent) s of
                 None \<Rightarrow> Inl TypeError
               | Some loadedLevel \<Rightarrow>
                   (case lv_details loadedLevel of
                      None \<Rightarrow> Inl TypeError
                    | Some details \<Rightarrow> fragment_loaded resolve now fragLoaded payload stats fragCurrent loadedLevel details s))
        else Inr s)"

end
