(* ===== verification/Stream_Parsing.thy ===== *)
theory Stream_Parsing
  imports Stream_Handlers
begin

text \<open>
  The rest of the handlers of \<open>src/controller/stream-controller.js\<close>: what the demuxer and the source buffers report, audio
  tracks, aborts and flushes. An init segment event carries its tracks in the order of their names.
\<close>

subsection \<open>Init segments\<close>

text \<open>The audio codec that the source buffer is made for.\<close>

definition level_codec :: "string \<Rightarrow> track_info \<Rightarrow> string option \<Rightarrow> stream \<Rightarrow> string option" where
  "level_codec ua track audioCodec s =
     (let audioCodec = (if sc_audioCodecSwap s then map_option (\<lambda>c. if c = [] then c else swap_codec c) audioCodec else audioCodec);
          audioCodec = (if sc_audioCodecSwitch s \<and> tk_channelCount track \<noteq> Some 1 \<and> \<not> contains ''firefox'' ua
                        then Some ''mp4a.40.5'' else audioCodec)
      in if contains ''android'' ua \<and> tk_container track \<noteq> ''audio/mpeg'' then Some ''mp4a.40.2'' else audioCodec)"

definition label_track :: "string \<Rightarrow> level_obj \<Rightarrow> stream \<Rightarrow> string \<times> track_info \<Rightarrow> string \<times> track_info" where
  "label_track ua level s = (\<lambda>(name, track).
     if name = ''audio'' then (name, track\<lparr>tk_levelCodec := level_codec ua track (lv_audioCodec level) s, tk_id := ''main''\<rparr>)
     else if name = ''video'' then (name, track\<lparr>tk_levelCodec := lv_videoCodec level, tk_id := ''main''\<rparr>)
     else (name, track))"

definition append_init :: "string \<times> track_info \<Rightarrow> stream \<Rightarrow> stream" where
  "append_init t s =
     (case tk_initSegment (snd t) of
        Some seg \<Rightarrow> tell [BufferAppending (fst t) seg True] (s\<lparr>sc_appended := True, sc_pendingBuffering := True\<rparr>)
      | None \<Rightarrow> s)"

definition parsing_fragment :: "frag \<Rightarrow> string \<Rightarrow> stream \<Rightarrow> frag option" where
  "parsing_fragment fragNew eid s = (if eid = ''main'' \<and> sc_state s = PARSING then expected_fragment fragNew s else None)"

definition playing_level :: "stream \<Rightarrow> level_obj option" where
  "playing_level s = Option.bind (sc_level s) (\<lambda>n. level_at n s)"

definition onFragParsingInitSegment ::
  "(string \<Rightarrow> string \<Rightarrow> string) \<Rightarrow> rat \<Rightarrow> string \<Rightarrow> frag \<Rightarrow> string \<Rightarrow> (string \<times> track_info) list \<Rightarrow> stream \<Rightarrow> stream result" where
  "onFragParsingInitSegment resolve now ua fragNew eid tracks s =
     (if parsing_fragment fragNew eid s = None then Inr s
      else
        let tracks = (if sc_altAudio s then filter (\<lambda>(name, _). name \<noteq> ''audio'') tracks else tracks) in
        case playing_level s of
          None \<Rightarrow>
            if list_ex (\<lambda>(name, _). name = ''audio'' \<or> name = ''video'') tracks then Inl TypeError
            else stream_tick resolve now (fold append_init tracks (tell [BufferCodecs tracks] s))
        | Some level \<Rightarrow>
            let tracks = map (label_track ua level s) tracks
            in stream_tick resolve now (fold append_init tracks (tell [BufferCodecs tracks] s)))"

subsection \<open>Remuxed data\<close>

record parsing_data =
  pd_type :: string
  pd_startPTS :: num
  pd_endPTS :: num
  pd_startDTS :: num
  pd_endDTS :: num
  pd_dropped :: num
  pd_data1 :: "bytes option"
  pd_data2 :: "bytes option"

definition end_times :: "frag \<Rightarrow> parsing_data \<Rightarrow> num \<times> num" where
  "end_times frag data =
     (if pd_endPTS data = None
      then (num_add (pd_startPTS data) (fr_duration frag), num_add (pd_startDTS data) (fr_duration frag))
      else (pd_endPTS data, pd_endDTS data))"

text \<open>Dropped video frames: the fragment before this one is loaded first, once.\<close>

definition must_backtrack :: "frag \<Rightarrow> parsing_data \<Rightarrow> bool" where
  "must_backtrack frag data \<longleftrightarrow> pd_type data = ''video'' \<and> truthy (pd_dropped data) \<and> fr_backtracked frag \<noteq> Some True"

definition note_dropped :: "frag \<Rightarrow> parsing_data \<Rightarrow> frag" where
  "note_dropped frag data =
     (if pd_type data = ''video'' then
        frag\<lparr>fr_dropped := pd_dropped data,
             fr_backtracked := (if truthy (pd_dropped data) then Some True else Some False)\<rparr>
      else frag)"

text \<open>The times of the fragment go into the playlist.\<close>

definition put_details :: "int \<Rightarrow> level_details \<Rightarrow> frag \<Rightarrow> stream \<Rightarrow> stream" where
  "put_details n d frag s =
     (case set_details n d (sc_quality s) of
        Inl _ \<Rightarrow> s
      | Inr q \<Rightarrow> put_frags (frag # ld_fragments d) (s\<lparr>sc_quality := q\<rparr>))"

definition update_times :: "frag \<Rightarrow> parsing_data \<Rightarrow> stream \<Rightarrow> stream result" where
  "update_times frag data s =
     (case (playing_level s, sc_level s) of
        (Some level, Some n) \<Rightarrow>
          (let (endPTS, endDTS) = end_times frag data in
           case updateFragPTSDTS (lv_details level) frag (pd_startPTS data) endPTS (pd_startDTS data) endDTS of
             Inl err \<Rightarrow> Inl err
           | Inr (drift, frag', details) \<Rightarrow>
               let s = (case details of Some d \<Rightarrow> put_details n d frag' s | None \<Rightarrow> put_frags [frag'] s)
               in Inr (tell [LevelPtsUpdated details (sc_level s) drift (pd_type data) (pd_startPTS data) endPTS] s))
      | _ \<Rightarrow> Inl TypeError)"

definition append_data :: "string \<Rightarrow> bytes option \<Rightarrow> stream \<Rightarrow> stream" where
  "append_data ty buffer s =
     (case buffer of
        Some (b # bs) \<Rightarrow>
          if sc_state s = PARSING
          then tell [BufferAppending ty (b # bs) False] (s\<lparr>sc_appended := True, sc_pendingBuffering := True\<rparr>) else s
      | _ \<Rightarrow> s)"

definition onFragParsingData ::
  "(string \<Rightarrow> string \<Rightarrow> string) \<Rightarrow> rat \<Rightarrow> frag \<Rightarrow> string \<Rightarrow> parsing_data \<Rightarrow> stream \<Rightarrow> stream result" where
  "onFragParsingData resolve now fragNew eid data s =
     (case parsing_fragment fragNew eid s of
        None \<Rightarrow> Inr s
      | Some frag \<Rightarrow>
          if pd_type data = ''audio'' \<and> sc_altAudio s then Inr s
          else
            let frag' = note_dropped frag data; s = put_frags [frag'] s in
            if must_backtrack frag data then
              stream_tick resolve now ((set_state IDLE (s\<lparr>sc_nextLoadPosition := pd_startPTS data\<rparr>))\<lparr>sc_fragPrevious := Some frag'\<rparr>)
            else
              case update_times frag' data s of
                Inl err \<Rightarrow> Inl err
              | Inr s \<Rightarrow>
                  stream_tick resolve now (append_data (pd_type data) (pd_data2 data) (append_data (pd_type data) (pd_data1 data) s)))"

definition onFragParsed :: "(string \<Rightarrow> string \<Rightarrow> string) \<Rightarrow> rat \<Rightarrow> frag \<Rightarrow> string \<Rightarrow> stream \<Rightarrow> stream result" where
  "onFragParsed resolve now fragNew eid s =
     (if parsing_fragment fragNew eid s = None then Inr s
      else case sc_stats s of
        None \<Rightarrow> Inl TypeError
      | Some stats \<Rightarrow>
          checkAppendedParsed resolve now (set_state PARSED (s\<lparr>sc_stats := Some (stats\<lparr>st_tparsed := Num (of_rat now)\<rparr>)\<rparr>)))"

subsection \<open>Audio tracks\<close>

definition to_main_audio :: "stream \<Rightarrow> stream result" where
  "to_main_audio s =
     (if sc_mediaBuffer s = media_ref s then Inr s
      else case sc_fragCurrent s of
        None \<Rightarrow> Inl TypeError
      | Some f \<Rightarrow>
          let s = (abort_current (s\<lparr>sc_mediaBuffer := media_ref s\<rparr>))\<lparr>sc_fragCurrent := None, sc_fragPrevious := None\<rparr>
          in Inr (set_state IDLE (destroy_demuxer s)))"

definition onAudioTrackSwitched :: "(string \<Rightarrow> string \<Rightarrow> string) \<Rightarrow> rat \<Rightarrow> bool \<Rightarrow> stream \<Rightarrow> stream result" where
  "onAudioTrackSwitched resolve now altAudio s =
     (let s = (if altAudio \<and> sc_videoBuffer s \<noteq> None then s\<lparr>sc_mediaBuffer := sc_videoBuffer s\<rparr> else s)
      in stream_tick resolve now (s\<lparr>sc_altAudio := altAudio\<rparr>))"

text \<open>
  \<open>main\<close> says that the new track has no URL; the audio controllers handle the others. The trigger of
  \<open>AUDIO_TRACK_SWITCHED\<close> comes back to the handler above, whose exceptions are reported.
\<close>

definition onAudioTrackSwitching :: "(string \<Rightarrow> string \<Rightarrow> string) \<Rightarrow> rat \<Rightarrow> bool \<Rightarrow> int \<Rightarrow> stream \<Rightarrow> stream result" where
  "onAudioTrackSwitching resolve now main trackId s =
     (if \<not> main then Inr s
      else case to_main_audio s of
        Inl err \<Rightarrow> Inl err
      | Inr s \<Rightarrow>
          let s = tell [BufferFlushing (Some 0) PosInf (Some ''audio''), AudioTrackSwitched trackId] s;
              s = (case onAudioTrackSwitched resolve now False s of Inr s \<Rightarrow> s | Inl _ \<Rightarrow> tell [InternalException] s)
          in Inr (s\<lparr>sc_altAudio := False\<rparr>))"

subsection \<open>Source buffers\<close>

text \<open>The tracks with the controller that each belongs to; the last one of the main controller is scheduled by.\<close>

definition main_track :: "(string \<times> string) list \<Rightarrow> string option" where
  "main_track tracks = (case filter (\<lambda>(_, tid). tid = ''main'') tracks of [] \<Rightarrow> None | ts \<Rightarrow> Some (fst (last ts)))"

definition onBufferCreated :: "(string \<times> string) list \<Rightarrow> stream \<Rightarrow> stream" where
  "onBufferCreated tracks s =
     (let s = (if (''video'', ''main'') \<in> set tracks then s\<lparr>sc_videoBuffer := Some (TrackBuffer ''video'')\<rparr> else s);
          alternate = list_ex (\<lambda>(_, tid). tid \<noteq> ''main'') tracks
      in s\<lparr>sc_mediaBuffer :=
             (case main_track tracks of Some t \<Rightarrow> if alternate then Some (TrackBuffer t) else media_ref s | None \<Rightarrow> media_ref s)\<rparr>)"

definition onBufferAppended :: "(string \<Rightarrow> string \<Rightarrow> string) \<Rightarrow> rat \<Rightarrow> string \<Rightarrow> nat \<Rightarrow> stream \<Rightarrow> stream result" where
  "onBufferAppended resolve now parent pending s =
     (if parent = ''main'' \<and> (sc_state s = PARSING \<or> sc_state s = PARSED)
      then checkAppendedParsed resolve now (s\<lparr>sc_pendingBuffering := (pending > 0)\<rparr>)
      else Inr s)"

definition onFragLoadEmergencyAborted :: "(string \<Rightarrow> string \<Rightarrow> string) \<Rightarrow> rat \<Rightarrow> stream \<Rightarrow> stream result" where
  "onFragLoadEmergencyAborted resolve now s =
     (let s = set_state IDLE s;
          s = (if \<not> sc_loadedmetadata s then s\<lparr>sc_startFragRequested := Some False, sc_nextLoadPosition := sc_startPosition s\<rparr> else s)
      in stream_tick resolve now s)"

definition onBufferFlushed :: "stream \<Rightarrow> stream" where
  "onBufferFlushed s =
     (let s = s\<lparr>sc_bufferedFrags := still_buffered (scheduled_buffer s) (sc_bufferedFrags s)\<rparr>;
          s = raise_loadIdx (2 * cf_fragLoadingLoopThreshold (config_of s)) s
      in (set_state IDLE s)\<lparr>sc_fragPrevious := None\<rparr>)"

definition swapAudioCodec :: "stream \<Rightarrow> stream" where
  "swapAudioCodec s = s\<lparr>sc_audioCodecSwap := \<not> sc_audioCodecSwap s\<rparr>"

end
