(* ===== verification/Stream_Laws.thy ===== *)
theory Stream_Laws
  imports Stream_Parsing
begin

text \<open>
  The invariant of the fragment scheduler, and that its tick, its choice of a fragment and its errors keep it.
\<close>

subsection \<open>The level controllers keep the options\<close>

lemma cleanTimer_config [simp]: "q_config (cleanTimer q) = q_config q"
  by (simp add: cleanTimer_def)

lemma level_tick_config [simp]: "q_config (level_tick q) = q_config q"
  by (simp add: level_tick_def split: option.split bool.split)

lemma level_load_config [simp]:
  "q_config (level_startLoad q) = q_config q" "q_config (level_stopLoad q) = q_config q" "q_config (level_destroy q) = q_config q"
  by (simp_all add: level_startLoad_def level_stopLoad_def level_destroy_def Let_def)

lemma set_level_config: "set_level n q = Inr q' \<Longrightarrow> q_config q' = q_config q"
  by (auto simp: set_level_def setLevelInternal_def Let_def split: option.splits if_splits)

lemma set_nextAutoLevel_config [simp]: "q_config (set_nextAutoLevel n q) = q_config q"
  by (simp add: set_nextAutoLevel_def)

lemma set_manualLevel_config: "set_manualLevel n q = Inr q' \<Longrightarrow> q_config q' = q_config q"
  by (auto simp: set_manualLevel_def Let_def split: if_splits dest!: set_level_config)

lemma set_nextLoadLevel_config: "set_nextLoadLevel n q = Inr q' \<Longrightarrow> q_config q' = q_config q"
  by (cases "set_level n q") (auto simp: set_nextLoadLevel_def dest: set_level_config)

lemma no_redundancy_config: "no_redundancy v data n l q = (q', data') \<Longrightarrow> q_config q' = q_config q"
  by (auto simp: no_redundancy_def arm_timer_def split: if_splits)

lemma level_onError_config: "level_onError v data q = Inr (q', data') \<Longrightarrow> q_config q' = q_config q"
  by (auto simp: level_onError_def Let_def split: if_splits sum.splits option.splits dest!: no_redundancy_config)

lemma level_onFragLoaded_config: "level_onFragLoaded f q = Inr q' \<Longrightarrow> q_config q' = q_config q"
  by (auto simp: level_onFragLoaded_def split: if_splits option.splits)

lemma quality_onFragLoaded_config: "quality_onFragLoaded f st q = Inr (q', st') \<Longrightarrow> q_config q' = q_config q"
  by (auto simp: quality_onFragLoaded_def map_sum_def split: sum.splits dest!: level_onFragLoaded_config)

lemma level_onLevelLoaded_config: "level_onLevelLoaded now t n d q = Inr q' \<Longrightarrow> q_config q' = q_config q"
  by (auto simp: level_onLevelLoaded_def arm_timer_def Let_def split: if_splits option.splits)

lemma set_details_config: "set_details n d q = Inr q' \<Longrightarrow> q_config q' = q_config q"
  by (auto simp: set_details_def split: option.splits)

lemma abandonRulesCheck_config: "abandonRulesCheck now v f loader q = Inr q' \<Longrightarrow> q_config q' = q_config q"
  by (auto simp: abandonRulesCheck_def emergency_switch_def Let_def split: option.splits if_splits sum.splits dest!: set_nextLoadLevel_config)

lemma onManifestLoaded_config [simp]: "q_config (onManifestLoaded supported mp3 data alt q) = q_config q"
  by (simp add: onManifestLoaded_def Let_def split: list.split)

lemma quality_step_config: "quality_step q q' \<Longrightarrow> q_config q' = q_config q"
  by (induction rule: quality_step.induct)
    (auto simp: hls_set_startLevel_def dest: set_manualLevel_config set_nextLoadLevel_config level_onError_config
      quality_onFragLoaded_config level_onLevelLoaded_config set_details_config abandonRulesCheck_config)

subsection \<open>The invariant\<close>

definition loading_state :: "stream_state \<Rightarrow> bool" where
  "loading_state st \<longleftrightarrow> st = FRAG_LOADING \<or> st = PARSING \<or> st = PARSED"

definition stream_ok :: "stream \<Rightarrow> bool" where
  "stream_ok s \<longleftrightarrow>
     (loading_state (sc_state s) \<longrightarrow> sc_fragCurrent s \<noteq> None \<and> sc_demuxer s) \<and>
     (sc_state s = PARSING \<or> sc_state s = PARSED \<longrightarrow> sc_stats s \<noteq> None) \<and>
     (sc_state s = FRAG_LOADING_WAITING_RETRY \<longrightarrow> sc_retryDate s \<noteq> None) \<and>
     sc_fragLoadError s \<le> cf_fragLoadingMaxRetry (config_of s) \<and>
     (sc_loadedmetadata s \<longrightarrow> sc_media s \<noteq> None) \<and>
     quality_ok (sc_quality s)"

text \<open>What the invariant reads; most operations leave it as it is.\<close>

definition frame :: "stream \<Rightarrow> stream \<Rightarrow> bool" where
  "frame s s' \<longleftrightarrow>
     sc_state s' = sc_state s \<and> (sc_fragCurrent s' = None \<longleftrightarrow> sc_fragCurrent s = None) \<and> (sc_demuxer s \<longrightarrow> sc_demuxer s') \<and>
     (sc_stats s \<noteq> None \<longrightarrow> sc_stats s' \<noteq> None) \<and> (sc_retryDate s \<noteq> None \<longrightarrow> sc_retryDate s' \<noteq> None) \<and>
     sc_fragLoadError s' \<le> sc_fragLoadError s \<and>
     cf_fragLoadingMaxRetry (config_of s') = cf_fragLoadingMaxRetry (config_of s) \<and>
     (sc_media s' = None \<longleftrightarrow> sc_media s = None) \<and> (sc_loadedmetadata s' \<longrightarrow> sc_loadedmetadata s \<or> sc_media s \<noteq> None) \<and>
     sc_ticks s' = sc_ticks s \<and> (quality_ok (sc_quality s) \<longrightarrow> quality_ok (sc_quality s'))"

lemma frame_refl [simp]: "frame s s"
  by (simp add: frame_def)

lemma frame_trans [trans]: "frame s s' \<Longrightarrow> frame s' s'' \<Longrightarrow> frame s s''"
  by (auto simp: frame_def)

lemma frame_ok: "frame s s' \<Longrightarrow> stream_ok s \<Longrightarrow> stream_ok s'"
  by (auto simp: frame_def stream_ok_def)

lemma frame_ticks: "frame s s' \<Longrightarrow> sc_ticks s' = sc_ticks s"
  by (simp add: frame_def)

lemma tell_simps [simp]:
  "sc_state (tell es s) = sc_state s" "sc_fragCurrent (tell es s) = sc_fragCurrent s" "sc_demuxer (tell es s) = sc_demuxer s"
  "sc_stats (tell es s) = sc_stats s" "sc_retryDate (tell es s) = sc_retryDate s" "sc_fragLoadError (tell es s) = sc_fragLoadError s"
  "sc_quality (tell es s) = sc_quality s" "sc_media (tell es s) = sc_media s" "sc_loadedmetadata (tell es s) = sc_loadedmetadata s"
  "sc_ticks (tell es s) = sc_ticks s" "sc_fragPrevious (tell es s) = sc_fragPrevious s" "sc_level (tell es s) = sc_level s"
  "sc_fragLoadIdx (tell es s) = sc_fragLoadIdx s" "sc_events (tell es s) = sc_events s @ es"
  "sc_startFragRequested (tell es s) = sc_startFragRequested s" "sc_bufferedFrags (tell es s) = sc_bufferedFrags s"
  "sc_nextLoadPosition (tell es s) = sc_nextLoadPosition s"
  by (simp_all add: tell_def)

lemma tell_frame [simp]: "frame s (tell es s)"
  by (simp add: frame_def)

lemma set_state_simps [simp]:
  "sc_state (set_state st s) = st" "sc_fragCurrent (set_state st s) = sc_fragCurrent s" "sc_demuxer (set_state st s) = sc_demuxer s"
  "sc_stats (set_state st s) = sc_stats s" "sc_retryDate (set_state st s) = sc_retryDate s"
  "sc_fragLoadError (set_state st s) = sc_fragLoadError s" "sc_quality (set_state st s) = sc_quality s"
  "sc_media (set_state st s) = sc_media s" "sc_loadedmetadata (set_state st s) = sc_loadedmetadata s"
  "sc_ticks (set_state st s) = sc_ticks s" "sc_fragPrevious (set_state st s) = sc_fragPrevious s"
  "sc_level (set_state st s) = sc_level s" "sc_fragLoadIdx (set_state st s) = sc_fragLoadIdx s"
  "sc_startFragRequested (set_state st s) = sc_startFragRequested s" "sc_bufferedFrags (set_state st s) = sc_bufferedFrags s"
  "sc_nextLoadPosition (set_state st s) = sc_nextLoadPosition s"
  by (simp_all add: set_state_def)

lemma put_frags_simps [simp]:
  "sc_state (put_frags fs s) = sc_state s" "sc_fragCurrent (put_frags fs s) = map_option (refresh fs) (sc_fragCurrent s)"
  "sc_demuxer (put_frags fs s) = sc_demuxer s" "sc_stats (put_frags fs s) = sc_stats s" "sc_retryDate (put_frags fs s) = sc_retryDate s"
  "sc_fragLoadError (put_frags fs s) = sc_fragLoadError s" "q_config (sc_quality (put_frags fs s)) = q_config (sc_quality s)"
  "sc_media (put_frags fs s) = sc_media s" "sc_loadedmetadata (put_frags fs s) = sc_loadedmetadata s"
  "sc_ticks (put_frags fs s) = sc_ticks s" "sc_fragPrevious (put_frags fs s) = map_option (refresh fs) (sc_fragPrevious s)"
  "sc_level (put_frags fs s) = sc_level s" "sc_fragLoadIdx (put_frags fs s) = sc_fragLoadIdx s"
  "sc_events (put_frags fs s) = sc_events s" "sc_startFragRequested (put_frags fs s) = sc_startFragRequested s"
  "q_manualLevel (sc_quality (put_frags fs s)) = q_manualLevel (sc_quality s)"
  "sc_bitrateTest (put_frags fs s) = sc_bitrateTest s" "sc_startPosition (put_frags fs s) = sc_startPosition s"
  "sc_nextLoadPosition (put_frags fs s) = sc_nextLoadPosition s"
  by (simp_all add: put_frags_def Let_def)

lemma put_frags_quality: "quality_ok (sc_quality (put_frags fs s)) = quality_ok (sc_quality s)"
  by (auto simp: put_frags_def Let_def quality_ok_def level_ok_def)

lemma put_frags_frame [simp]: "frame s (put_frags fs s)"
  by (simp add: frame_def put_frags_quality)

lemma raise_loadIdx_frame [simp]: "frame s (raise_loadIdx n s)"
  by (simp add: frame_def raise_loadIdx_def)

lemma reduceMaxBufferLength_frame [simp]: "frame s (reduceMaxBufferLength n s)"
  by (auto simp: frame_def reduceMaxBufferLength_def raise_loadIdx_def quality_ok_def Let_def)

lemma abort_current_frame [simp]: "frame s (abort_current s)"
  by (simp add: abort_current_def split: option.split)

lemma seek_to_frame [simp]: "frame s (seek_to t s)"
  by (simp add: frame_def seek_to_def)

lemma set_paused_frame [simp]: "frame s (set_paused p s)"
  by (simp add: frame_def set_paused_def)

lemma abr_event_frame:
  "frame s (abr_event f s)"
  by (auto simp: frame_def abr_event_def split: sum.split)

lemma trigger_fragLoading_frame [simp]: "frame s (trigger_fragLoading f s)"
  unfolding trigger_fragLoading_def
  by (rule frame_trans [OF tell_frame frame_trans [OF abr_event_frame put_frags_frame]])

lemma trigger_fragBuffered_frame [simp]: "frame s (trigger_fragBuffered st f s)"
  unfolding trigger_fragBuffered_def by (rule frame_trans [OF tell_frame abr_event_frame])

lemma level_errors_frame: "frame s (fst (level_errors data s))"
proof -
  define q where "q = (sc_quality s)\<lparr>q_abr := abr_onError (ed_details data) (q_abr (sc_quality s))\<rparr>"
  have q: "q_config q = config_of s" "quality_ok q = quality_ok (sc_quality s)" by (simp_all add: q_def)
  have 1: "frame s (s\<lparr>sc_quality := q\<rparr>)" using q by (simp add: frame_def)
  have 2: "frame s (s\<lparr>sc_quality := q'\<rparr>)" if "level_onError (sc_media s) data q = Inr (q', data')" for q' data'
    using q level_onError_config [OF that] level_onError_ok [OF _ that] by (simp add: frame_def)
  show ?thesis
    using 1 2 by (auto simp: level_errors_def Let_def q_def [symmetric] split: sum.split intro: frame_trans [OF _ tell_frame])
qed

subsection \<open>The handlers keep the invariant\<close>

definition keeps :: "stream \<Rightarrow> stream \<Rightarrow> bool" where
  "keeps s s' \<longleftrightarrow> (stream_ok s \<longrightarrow> stream_ok s') \<and> sc_ticks s' = sc_ticks s"

lemma keeps_refl [simp]: "keeps s s"
  by (simp add: keeps_def)

lemma keeps_trans [trans]: "keeps s s' \<Longrightarrow> keeps s' s'' \<Longrightarrow> keeps s s''"
  by (simp add: keeps_def)

lemma frame_keeps: "frame s s' \<Longrightarrow> keeps s s'"
  by (simp add: keeps_def frame_ok frame_ticks)

text \<open>The part of the invariant that does not depend on the state.\<close>

definition base_ok :: "stream \<Rightarrow> bool" where
  "base_ok s \<longleftrightarrow> sc_fragLoadError s \<le> cf_fragLoadingMaxRetry (config_of s) \<and> (sc_loadedmetadata s \<longrightarrow> sc_media s \<noteq> None) \<and>
     quality_ok (sc_quality s)"

definition quiet :: "stream_state \<Rightarrow> bool" where
  "quiet st \<longleftrightarrow> \<not> loading_state st \<and> st \<noteq> FRAG_LOADING_WAITING_RETRY"

lemma quiet_simps [simp]: "quiet IDLE" "quiet STOPPED" "quiet KEY_LOADING" "quiet WAITING_LEVEL" "quiet BUFFER_FLUSHING" "quiet ENDED"
  "quiet ERROR"
  by (simp_all add: quiet_def loading_state_def)

lemma stream_ok_base: "stream_ok s \<Longrightarrow> base_ok s"
  by (simp add: stream_ok_def base_ok_def)

lemma stream_ok_quiet: "quiet (sc_state s) \<Longrightarrow> stream_ok s \<longleftrightarrow> base_ok s"
  by (auto simp: stream_ok_def base_ok_def quiet_def loading_state_def)

lemma frame_base: "frame s s' \<Longrightarrow> base_ok s \<Longrightarrow> base_ok s'"
  by (auto simp: frame_def base_ok_def)

lemma base_ok_simps [simp]: "base_ok (tell es s) = base_ok s" "base_ok (set_state st s) = base_ok s"
  by (simp_all add: base_ok_def)

lemma keeps_quiet: "quiet (sc_state s') \<Longrightarrow> (base_ok s \<Longrightarrow> base_ok s') \<Longrightarrow> sc_ticks s' = sc_ticks s \<Longrightarrow> keeps s s'"
  by (simp add: keeps_def stream_ok_quiet stream_ok_base)

lemma set_state_keeps [simp]: "quiet st \<Longrightarrow> keeps s (set_state st s)"
  by (simp add: keeps_quiet)

lemma frame_base_eq: "frame s (raise_loadIdx n s) \<Longrightarrow> base_ok s \<Longrightarrow> base_ok (raise_loadIdx n s)"
  by (rule frame_base)

lemma flushMainBuffer_simps [simp]:
  "sc_state (flushMainBuffer a b s) = BUFFER_FLUSHING" "base_ok (flushMainBuffer a b s) = base_ok s"
  "sc_ticks (flushMainBuffer a b s) = sc_ticks s"
  by (simp_all add: flushMainBuffer_def)

lemma abort_current_base [simp]: "base_ok (abort_current s) = base_ok s" "sc_ticks (abort_current s) = sc_ticks s"
  "sc_state (abort_current s) = sc_state s" "sc_media (abort_current s) = sc_media s"
  by (simp_all add: abort_current_def split: option.split)

lemma destroy_demuxer_base [simp]: "base_ok (destroy_demuxer s) = base_ok s" "sc_ticks (destroy_demuxer s) = sc_ticks s"
  by (simp_all add: destroy_demuxer_def base_ok_def)

lemma field_base [simp]:
  "base_ok (s\<lparr>sc_fragCurrent := f\<rparr>) = base_ok s" "base_ok (s\<lparr>sc_fragPrevious := p\<rparr>) = base_ok s"
  "base_ok (s\<lparr>sc_forceStartLoad := b\<rparr>) = base_ok s" "base_ok (s\<lparr>sc_mediaBuffer := mb\<rparr>) = base_ok s"
  "base_ok (s\<lparr>sc_timer := t\<rparr>) = base_ok s" "base_ok (s\<lparr>sc_level := l\<rparr>) = base_ok s" "base_ok (s\<lparr>sc_stats := st\<rparr>) = base_ok s"
  "base_ok (s\<lparr>sc_nextLoadPosition := n\<rparr>) = base_ok s" "base_ok (s\<lparr>sc_startPosition := n\<rparr>) = base_ok s"
  "base_ok (s\<lparr>sc_lastCurrentTime := n\<rparr>) = base_ok s" "base_ok (s\<lparr>sc_startFragRequested := r\<rparr>) = base_ok s"
  "base_ok (s\<lparr>sc_bitrateTest := b\<rparr>) = base_ok s" "base_ok (s\<lparr>sc_bufferedFrags := fs\<rparr>) = base_ok s"
  "base_ok (s\<lparr>sc_ticks := k\<rparr>) = base_ok s" "base_ok (s\<lparr>sc_stalled := n\<rparr>) = base_ok s" "base_ok (s\<lparr>sc_altAudio := b\<rparr>) = base_ok s"
  "base_ok (s\<lparr>sc_levelLastLoaded := l\<rparr>) = base_ok s" "base_ok (s\<lparr>sc_liveSyncPosition := n\<rparr>) = base_ok s"
  "base_ok (s\<lparr>sc_fragLastKbps := k'\<rparr>) = base_ok s"
  by (simp_all add: base_ok_def)

lemma frag_load_failed_keeps: "frag_load_failed now data frag s = Inr (s', data') \<Longrightarrow> keeps s s'"
proof -
  assume *: "frag_load_failed now data frag s = Inr (s', data')"
  show ?thesis
  proof (cases "\<not> ed_fatal data \<and> sc_fragLoadError s + 1 \<le> cf_fragLoadingMaxRetry (config_of s)")
    case True
    then obtain f where "frag = Some f" using * by (auto simp: frag_load_failed_def split: option.splits)
    then have s': "s' = set_state FRAG_LOADING_WAITING_RETRY
        ((let t = (put_frags [f\<lparr>fr_loadCounter := Some 0\<rparr>] s)\<lparr>sc_retryDate := Some (now + retry_delay (config_of s) (sc_fragLoadError s))\<rparr>
          in if \<not> sc_loadedmetadata t then t\<lparr>sc_startFragRequested := Some False, sc_nextLoadPosition := sc_startPosition t\<rparr> else t)
         \<lparr>sc_fragLoadError := sc_fragLoadError s + 1\<rparr>)"
      using True * by (simp add: frag_load_failed_def Let_def split: if_splits)
    show ?thesis using True unfolding s' Let_def
      by (auto simp: keeps_def stream_ok_def loading_state_def put_frags_quality)
  next
    case False
    then show ?thesis using * by (cases "ed_fatal data") (auto simp: frag_load_failed_def)
  qed
qed

lemma keeps_after: "frame s t \<Longrightarrow> quiet st \<Longrightarrow> keeps s (set_state st t)"
  by (rule keeps_trans [OF frame_keeps set_state_keeps])

lemma stream_onError_keeps: "stream_onError now data s = Inr (s', data') \<Longrightarrow> keeps s s'"
proof -
  have 1: "keeps s s'" if "frag_loop_failed data f s = Inr (s', data')" for f
    using that by (auto simp: frag_loop_failed_def keeps_after split: if_splits option.splits)
  have 2: "keeps s (level_load_failed data s)" by (simp add: level_load_failed_def)
  have 3: "keeps s (buffer_full data s)" by (auto simp: buffer_full_def keeps_after intro: keeps_quiet)
  show "stream_onError now data s = Inr (s', data') \<Longrightarrow> keeps s s'"
    using 1 2 3 frag_load_failed_keeps [of now data _ s s' data'] by (auto simp: stream_onError_def Let_def split: if_splits)
qed

lemma player_onError_keeps [simp]: "keeps s (player_onError now data s)"
proof -
  obtain t d where t: "level_errors data (tell [ReportError (ed_details data) (ed_fatal data)] s) = (t, d)" by fastforce
  then have st: "keeps s t"
    using level_errors_frame [of "tell [ReportError (ed_details data) (ed_fatal data)] s" data] frame_keeps frame_trans [OF tell_frame] by (metis fst_conv)
  have *: "keeps s (tell [InternalException] t)" by (rule keeps_trans [OF st frame_keeps [OF tell_frame]])
  show ?thesis
    using * stream_onError_keeps [of now d t] keeps_trans [OF st] by (simp add: player_onError_def t split: sum.split)
qed

subsection \<open>Fragments\<close>

lemma to_live_position_frame: "frame s (to_live_position p s)"
proof -
  have 1: "frame s (s\<lparr>sc_liveSyncPosition := p, sc_nextLoadPosition := p\<rparr>)" by (simp add: frame_def)
  show ?thesis
    using 1 frame_trans [OF 1 seek_to_frame] by (simp add: to_live_position_def Let_def split: option.split)
qed

lemma ensure_keeps:
  assumes "ensureFragmentAtLivePoint d be st en fp s = Inr (f, s')"
  shows "frame s s'"
proof -
  define live where "live = computeLivePosition (config_of s) st d"
  define t where "t = (if behind_live d be st en s then to_live_position live s else s)"
  define be' where "be' = (if behind_live d be st en s then live else be)"
  have "s' = t"
    using assms unfolding ensureFragmentAtLivePoint_def Let_def live_def [symmetric] t_def [symmetric] be'_def [symmetric]
    by (cases "guess_fragment d fp") (simp_all split: if_split_asm)
  then show ?thesis by (simp add: t_def to_live_position_frame)
qed

lemma backtrack_to_previous_frame: "frame s (snd (backtrack_to_previous f p i s))"
proof -
  have "frame s (put_frags fs (put_frags gs s))" for fs gs by (rule frame_trans [OF put_frags_frame put_frags_frame])
  then show ?thesis by (simp add: backtrack_to_previous_def Let_def split: option.split)
qed

lemma findFragment_frame: "findFragment fp be en d s = Inr (f, s') \<Longrightarrow> frame s s'"
proof -
  have 1: "frame s (snd (backtrack_fragment f p n i s))" for f p n i
    by (simp add: backtrack_fragment_def backtrack_to_previous_frame split: option.split)
  have 2: "frame s s'" if "after_previous f p d sn s = Inr (r, s')" for f p sn r s'
    using that 1 [of f _ _ _] by (auto simp: after_previous_def Let_def split: if_splits option.splits) (metis snd_conv)+
  show "findFragment fp be en d s = Inr (f, s') \<Longrightarrow> frame s s'"
    using 2 by (auto simp: findFragment_def split: option.splits if_splits)
qed

lemma start_loading_keeps: "keeps s (start_loading f s)"
proof -
  define t where "t = (put_frags [f] s)\<lparr>sc_fragCurrent := Some f, sc_startFragRequested := Some True\<rparr>"
  define u where "u = (if has_number f \<and> \<not> fr_bitrateTest f then t\<lparr>sc_nextLoadPosition := num_add (fr_start f) (fr_duration f)\<rparr> else t)"
  have u: "base_ok s \<Longrightarrow> base_ok u" "sc_ticks u = sc_ticks s" "sc_fragCurrent u = Some f"
    by (auto simp: u_def t_def base_ok_def put_frags_quality)
  define v where "v = trigger_fragLoading f u"
  have f: "frame u v" by (simp add: v_def)
  have v: "base_ok s \<Longrightarrow> base_ok v" "sc_ticks v = sc_ticks s" "sc_fragCurrent v \<noteq> None"
    using frame_base [OF f] u f by (auto simp: frame_def)
  have "start_loading f s = set_state FRAG_LOADING (v\<lparr>sc_demuxer := True\<rparr>)"
    by (simp add: start_loading_def v_def u_def t_def Let_def)
  then show ?thesis using v stream_ok_base [of s] by (auto simp: keeps_def stream_ok_def base_ok_def loading_state_def)
qed

lemma loadFragmentOrKey_keeps: "keeps s (loadFragmentOrKey resolve now f s)"
proof -
  have 1: "frame s (put_frags fs (s\<lparr>sc_fragLoadIdx := i\<rparr>))" for fs i
    by (rule frame_trans [OF _ put_frags_frame]) (simp add: frame_def)
  show ?thesis
    unfolding loadFragmentOrKey_def Let_def
    using keeps_trans [OF frame_keeps [OF 1] player_onError_keeps] keeps_trans [OF frame_keeps [OF 1] start_loading_keeps]
    by (auto intro: keeps_quiet)
qed

lemma fetch_keeps: "fetchPayloadOrEos resolve now be d s = Inr s' \<Longrightarrow> keeps s s'"
proof -
  assume *: "fetchPayloadOrEos resolve now be d s = Inr s'"
  have 1: "keeps s s'" if "findFragment p b e d t = Inr (None, s')" "frame s t" for t p b e
    using that findFragment_frame frame_keeps frame_trans by blast
  have 2: "keeps s (loadFragmentOrKey resolve now f u)" if "frame s u" for f u
    by (rule keeps_trans [OF frame_keeps [OF that] loadFragmentOrKey_keeps])
  have 3: "keeps s (loadFragmentOrKey resolve now f u)" if "findFragment p b e d t = Inr (Some f, u)" "frame s t" for f u t p b e
    by (rule 2, rule frame_trans [OF that(2) findFragment_frame [OF that(1)]])
  show ?thesis
  proof (cases "ld_fragments d = []")
    case True
    then show ?thesis using * by (simp add: fetchPayloadOrEos_def)
  next
    case False
    show ?thesis
      using * False unfolding fetchPayloadOrEos_def Let_def
      by (auto split: if_splits option.splits sum.splits prod.splits
        intro: 2 frame_keeps dest: ensure_keeps 1 3 [OF _ ensure_keeps] 1 [OF _ ensure_keeps] 3 [OF _ frame_refl] 1 [OF _ frame_refl])
  qed
qed

subsection \<open>The tick\<close>

lemma load_level_frame: "load_level n s = Inr s' \<Longrightarrow> frame s s'"
proof -
  assume "load_level n s = Inr s'"
  then obtain q where q: "set_nextLoadLevel n (sc_quality s) = Inr q" "s' = s\<lparr>sc_quality := q, sc_level := Some n\<rparr>"
    by (cases "set_nextLoadLevel n (sc_quality s)") (auto simp: load_level_def hls_set_nextLoadLevel_def)
  show ?thesis
    using set_nextLoadLevel_config [OF q(1)] set_nextLoadLevel_ok [OF _ q(1)] by (simp add: q(2) frame_def)
qed

lemma continue_level_keeps: "continue_level resolve now be nx n s = Inr s' \<Longrightarrow> keeps s s'"
proof -
  have 1: "keeps s (end_of_stream s)" by (simp add: end_of_stream_def keeps_after)
  show "continue_level resolve now be nx n s = Inr s' \<Longrightarrow> keeps s s'"
    using 1 by (auto simp: continue_level_def split: option.splits if_splits dest: fetch_keeps)
qed

lemma doTickIdle_keeps: "doTickIdle resolve now s = Inr s' \<Longrightarrow> keeps s s'"
  by (auto simp: doTickIdle_def Let_def split: if_splits option.splits sum.splits prod.splits
    dest!: load_level_frame frame_keeps continue_level_keeps intro: keeps_trans)

lemma tick_state_keeps: "tick_state resolve now s = Inr s' \<Longrightarrow> keeps s s'"
proof -
  have "keeps s (s\<lparr>sc_fragLoadError := 0\<rparr>)" by (rule frame_keeps) (simp add: frame_def)
  then show "tick_state resolve now s = Inr s' \<Longrightarrow> keeps s s'"
    by (auto simp: tick_state_def split: stream_state.splits if_splits dest: doTickIdle_keeps)
qed

lemma immediateLevelSwitchEnd_frame: "frame s (immediateLevelSwitchEnd s)"
proof -
  have 1: "frame s (s\<lparr>sc_immediateSwitch := False\<rparr>)" by (simp add: frame_def)
  show ?thesis
    using 1 frame_trans [OF 1 seek_to_frame] frame_trans [OF 1 set_paused_frame] frame_trans [OF frame_trans [OF 1 seek_to_frame] set_paused_frame]
    by (simp add: immediateLevelSwitchEnd_def Let_def split: option.split)
qed

lemma adjust_start_frame: "sc_media s = Some m \<Longrightarrow> frame s (adjust_start m' rs s)"
proof -
  assume "sc_media s = Some m"
  then have 1: "frame s (s\<lparr>sc_loadedmetadata := True\<rparr>)" by (simp add: frame_def)
  show ?thesis using 1 frame_trans [OF 1 seek_to_frame] by (simp add: adjust_start_def Let_def)
qed

lemma report_stall_keeps: "keeps s (report_stall now s)"
proof -
  have 1: "frame s (s\<lparr>sc_stallReported := True\<rparr>)" by (simp add: frame_def)
  show ?thesis using keeps_trans [OF frame_keeps [OF 1] player_onError_keeps] by (simp add: report_stall_def)
qed

lemma seek_over_hole_keeps: "keeps s (seek_over_hole now t p s)"
proof -
  have 1: "frame s ((seek_to x (s\<lparr>sc_nudgeRetry := n\<rparr>))\<lparr>sc_stalled := None\<rparr>)" for x n by (simp add: frame_def seek_to_def)
  show ?thesis
    using keeps_trans [OF frame_keeps [OF 1] player_onError_keeps] by (simp add: seek_over_hole_def Let_def split: option.split)
qed

lemma nudge_keeps: "keeps s (nudge now s)"
proof -
  have 1: "frame s (s\<lparr>sc_stalled := None, sc_nudgeRetry := n\<rparr>)" for n by (simp add: frame_def)
  show ?thesis
    using keeps_trans [OF frame_keeps [OF frame_trans [OF 1 seek_to_frame]] player_onError_keeps]
      keeps_trans [OF frame_keeps [OF 1] player_onError_keeps]
    by (simp add: nudge_def Let_def)
qed

lemma check_playhead_keeps: "keeps s (check_playhead now m s)"
proof -
  have 1: "keeps s (s\<lparr>sc_stallReported := a, sc_stalled := b, sc_nudgeRetry := c\<rparr>)" "keeps s (s\<lparr>sc_stalled := b, sc_stallReported := a\<rparr>)"
    for a b c by (rule frame_keeps, simp add: frame_def)+
  show ?thesis
    using 1 keeps_trans [OF report_stall_keeps seek_over_hole_keeps] keeps_trans [OF report_stall_keeps nudge_keeps]
    by (simp add: check_playhead_def Let_def split: option.split)
qed

lemma checkBuffer_keeps: "keeps s (checkBuffer now s)"
  using check_playhead_keeps frame_keeps [OF immediateLevelSwitchEnd_frame] frame_keeps [OF adjust_start_frame]
  by (auto simp: checkBuffer_def split: option.split list.split)

lemma checkFragmentChanged_frame: "frame s (checkFragmentChanged s)"
proof -
  have 1: "frame t (fragment_changed f t)" for f t by (simp add: fragment_changed_def frame_def Let_def)
  have 2: "frame s (s\<lparr>sc_lastCurrentTime := n\<rparr>)" for n by (simp add: frame_def)
  show ?thesis using 1 2 frame_trans [OF 2 1] by (simp add: checkFragmentChanged_def Let_def split: option.split)
qed

lemma doTick_keeps: "doTick resolve now s = Inr s' \<Longrightarrow> keeps s s'"
proof -
  have 1: "keeps s (checkFragmentChanged (checkBuffer now t))" if "keeps s t" for t
    using keeps_trans [OF that keeps_trans [OF checkBuffer_keeps frame_keeps [OF checkFragmentChanged_frame]]] .
  show "doTick resolve now s = Inr s' \<Longrightarrow> keeps s s'"
    using 1 by (cases "tick_state resolve now s") (auto simp: doTick_def dest: tick_state_keeps)
qed

lemma stream_tick_ok: "stream_ok s \<Longrightarrow> sc_ticks s = 0 \<Longrightarrow> stream_tick resolve now s = Inr s' \<Longrightarrow> stream_ok s' \<and> sc_ticks s' = 0"
proof -
  assume ok: "stream_ok s" "sc_ticks s = 0" and t: "stream_tick resolve now s = Inr s'"
  define r where "r = s\<lparr>sc_ticks := Suc 0\<rparr>"
  have r: "stream_ok r" "sc_ticks r = 1" using ok by (simp_all add: r_def stream_ok_def)
  have "stream_tick resolve now s = map_sum id (\<lambda>s. (if sc_ticks s > 1 then tell [TickLater] s else s)\<lparr>sc_ticks := 0\<rparr>) (doTick resolve now r)"
    using ok by (simp add: stream_tick_def r_def)
  then obtain u where u: "doTick resolve now r = Inr u" "s' = (if sc_ticks u > 1 then tell [TickLater] u else u)\<lparr>sc_ticks := 0\<rparr>"
    using t by (cases "doTick resolve now r") auto
  have "stream_ok u" "sc_ticks u = 1" using doTick_keeps [OF u(1)] r by (auto simp: keeps_def)
  then show ?thesis by (simp add: u(2) stream_ok_def)
qed

text \<open>What a handler needs to keep the invariant.\<close>

definition idle_ok :: "stream \<Rightarrow> bool" where
  "idle_ok s \<longleftrightarrow> stream_ok s \<and> sc_ticks s = 0"

lemma tick_idle_ok: "idle_ok s \<Longrightarrow> stream_tick resolve now s = Inr s' \<Longrightarrow> idle_ok s'"
  unfolding idle_ok_def using stream_tick_ok by blast

lemma keeps_idle_ok: "keeps s s' \<Longrightarrow> idle_ok s \<Longrightarrow> idle_ok s'"
  by (simp add: keeps_def idle_ok_def)

lemma idle_ok_quiet: "quiet (sc_state s) \<Longrightarrow> base_ok s \<Longrightarrow> sc_ticks s = 0 \<Longrightarrow> idle_ok s"
  by (simp add: idle_ok_def stream_ok_quiet)

lemma idle_ok_base: "idle_ok s \<Longrightarrow> base_ok s \<and> sc_ticks s = 0"
  by (simp add: idle_ok_def stream_ok_base)

subsection \<open>Starting and stopping\<close>

lemma stream_stopLoad_simps [simp]: "sc_state (stream_stopLoad s) = STOPPED" "base_ok (stream_stopLoad s) = base_ok s"
  "sc_ticks (stream_stopLoad s) = sc_ticks s"
  by (simp_all add: stream_stopLoad_def Let_def)

lemma start_level_frame: "start_level s = Inr s' \<Longrightarrow> frame s s'"
proof -
  have 1: "frame s (s\<lparr>sc_level := None, sc_loadedmetadata := False\<rparr>)" "frame s (s\<lparr>sc_bitrateTest := True\<rparr>)" by (simp_all add: frame_def)
  have 2: "frame s (t\<lparr>sc_loadedmetadata := False\<rparr>)" if "frame s t" for t using that by (simp add: frame_def)
  have 3: "frame s u" if "map_sum id (\<lambda>s. s\<lparr>sc_loadedmetadata := False\<rparr>) (load_level n t) = Inr u" "frame s t" for n t u
    using that(1) 2 frame_trans [OF that(2) load_level_frame] by (cases "load_level n t") auto
  assume *: "start_level s = Inr s'"
  show ?thesis
  proof (cases "get_startLevel (sc_quality s)")
    case None
    then show ?thesis using * 1(1) by (simp add: start_level_def)
  next
    case (Some n)
    have "map_sum id (\<lambda>s. s\<lparr>sc_loadedmetadata := False\<rparr>)
        (load_level (if n = - 1 then 0 else n) (if n = - 1 then s\<lparr>sc_bitrateTest := True\<rparr> else s)) = Inr s'"
      using * Some by (cases "n = - 1") (simp_all add: start_level_def)
    moreover have "frame s (if n = - 1 then s\<lparr>sc_bitrateTest := True\<rparr> else s)" using 1(2) by simp
    ultimately show ?thesis by (rule 3)
  qed
qed

lemma stream_startLoad_ok: "idle_ok s \<Longrightarrow> stream_startLoad resolve now p s = Inr s' \<Longrightarrow> idle_ok s'"
proof -
  assume ok: "idle_ok s" and *: "stream_startLoad resolve now p s = Inr s'"
  show ?thesis
  proof (cases "levels_of s = None")
    case True
    have "idle_ok (set_state STOPPED (s\<lparr>sc_forceStartLoad := True\<rparr>))"
      using idle_ok_base [OF ok] by (intro idle_ok_quiet) simp_all
    then show ?thesis using * True by (simp add: stream_startLoad_def)
  next
    case False
    define t where "t = (stream_stopLoad s)\<lparr>sc_timer := True, sc_level := Some (- 1), sc_fragLoadError := 0\<rparr>"
    have t: "base_ok t" "sc_ticks t = 0" using idle_ok_base [OF ok] stream_stopLoad_simps(2) [of s] stream_stopLoad_simps(3) [of s]
      by (simp_all add: t_def base_ok_def)
    define r where "r = (if sc_startFragRequested t \<noteq> Some True then start_level t else Inr t)"
    define go where "go = (\<lambda>x u. stream_tick resolve now
      ((set_state IDLE u)\<lparr>sc_nextLoadPosition := x, sc_startPosition := x, sc_lastCurrentTime := x\<rparr>))"
    define x where "x = (if num_less (Some 0) (sc_lastCurrentTime s) \<and> p = - 1 then sc_lastCurrentTime s else Some p)"
    have "stream_startLoad resolve now p s = (case r of Inl err \<Rightarrow> Inl err | Inr u \<Rightarrow> go x u)"
      unfolding stream_startLoad_def Let_def t_def [symmetric] r_def [symmetric] using False by (cases r) (auto simp: go_def x_def)
    then obtain u where u: "r = Inr u" "go x u = Inr s'" using * by (cases r) auto
    have "frame t u" using u(1) by (cases "sc_startFragRequested t = Some True") (simp_all add: r_def start_level_frame)
    then have "base_ok u" "sc_ticks u = 0" using frame_base [OF _ t(1)] frame_ticks t(2) by simp_all
    then have "idle_ok ((set_state IDLE u)\<lparr>sc_nextLoadPosition := x, sc_startPosition := x, sc_lastCurrentTime := x\<rparr>)"
      by (intro idle_ok_quiet) simp_all
    then show ?thesis using u(2) tick_idle_ok unfolding go_def by blast
  qed
qed

lemma with_quality_frame:
  "q_config q = config_of s \<Longrightarrow> (quality_ok (sc_quality s) \<Longrightarrow> quality_ok q) \<Longrightarrow> frame s (s\<lparr>sc_quality := q\<rparr>)"
  by (simp add: frame_def)

lemma hls_startLoad_ok: "idle_ok s \<Longrightarrow> hls_startLoad resolve now p s = Inr s' \<Longrightarrow> idle_ok s'"
  using keeps_idle_ok [OF frame_keeps [OF with_quality_frame [of "level_startLoad (sc_quality s)" s]]]
  by (auto simp: hls_startLoad_def level_startLoad_ok intro: stream_startLoad_ok)

lemma hls_stopLoad_ok: "idle_ok s \<Longrightarrow> idle_ok (hls_stopLoad s)"
proof -
  assume "idle_ok s"
  then have "base_ok (s\<lparr>sc_quality := level_stopLoad (sc_quality s)\<rparr>)" "sc_ticks s = 0"
    using idle_ok_base [of s] by (auto simp: base_ok_def level_stopLoad_def)
  then show ?thesis by (intro idle_ok_quiet) (simp_all add: hls_stopLoad_def)
qed

end
