(* ===== verification/Stream_Invariant.thy ===== *)
theory Stream_Invariant
  imports Stream_Laws
begin

text \<open>
  The states that the fragment scheduler can reach: its handlers keep the invariant, and so does everything that can
  happen to it, an inductive relation.
\<close>

subsection \<open>Handlers\<close>

lemma idle_ok_after: "frame s t \<Longrightarrow> quiet st \<Longrightarrow> idle_ok s \<Longrightarrow> idle_ok (set_state st t)"
  by (rule keeps_idle_ok [OF keeps_after])

lemma fragment_buffered_frame: "fragment_buffered now f s = Inr s' \<Longrightarrow> \<exists>t. frame s t \<and> s' = set_state IDLE t"
proof -
  assume *: "fragment_buffered now f s = Inr s'"
  then obtain b st where b: "scheduled_buffer s = Some b" "sc_stats s = Some st"
    by (auto simp: fragment_buffered_def split: option.splits)
  define st' where "st' = st\<lparr>st_tbuffered := Num (of_rat now)\<rparr>"
  define t where "t = s\<lparr>sc_bufferedFrags := add_buffered b f (sc_bufferedFrags s), sc_fragPrevious := Some f, sc_stats := Some st',
    sc_fragLastKbps := js_rounded (Num 8 * st_total st' / (st_tbuffered st' - st_tfirst st'))\<rparr>"
  have "frame s t" by (simp add: t_def frame_def)
  then have "frame s (trigger_fragBuffered st' f t)" by (rule frame_trans [OF _ trigger_fragBuffered_frame])
  moreover have "s' = set_state IDLE (trigger_fragBuffered st' f t)"
    using * b by (simp add: fragment_buffered_def t_def st'_def Let_def)
  ultimately show ?thesis by blast
qed

lemma checkAppendedParsed_ok: "idle_ok s \<Longrightarrow> checkAppendedParsed resolve now s = Inr s' \<Longrightarrow> idle_ok s'"
proof -
  assume ok: "idle_ok s" and *: "checkAppendedParsed resolve now s = Inr s'"
  have 1: "idle_ok t" if "fragment_buffered now f s = Inr t" for f t
    using fragment_buffered_frame [OF that] idle_ok_after [OF _ _ ok] by force
  show ?thesis
  proof (cases "sc_state s = PARSED \<and> (\<not> sc_appended s \<or> \<not> sc_pendingBuffering s)")
    case True
    then have "case (case sc_fragCurrent s of None \<Rightarrow> Inr s | Some frag \<Rightarrow> fragment_buffered now frag s) of
        Inl err \<Rightarrow> False | Inr t \<Rightarrow> idle_ok t \<and> stream_tick resolve now t = Inr s'"
      using * ok 1 by (auto simp: checkAppendedParsed_def split: option.split sum.split)
    then show ?thesis using tick_idle_ok by (auto split: sum.splits)
  next
    case False
    then have "s' = s" using * by (auto simp: checkAppendedParsed_def)
    then show ?thesis using ok by simp
  qed
qed

lemma raise_loadIdx_base [simp]: "base_ok (raise_loadIdx n s) = base_ok s" "sc_ticks (raise_loadIdx n s) = sc_ticks s"
  "sc_media (raise_loadIdx n s) = sc_media s" "sc_state (raise_loadIdx n s) = sc_state s"
  by (simp_all add: raise_loadIdx_def base_ok_def)

lemma set_paused_base [simp]: "base_ok (set_paused p s) = base_ok s" "sc_ticks (set_paused p s) = sc_ticks s"
  by (simp_all add: set_paused_def base_ok_def)

lemma immediateLevelSwitch_ok: "idle_ok s \<Longrightarrow> idle_ok (immediateLevelSwitch s)"
proof -
  assume "idle_ok s"
  then have b: "base_ok s" "sc_ticks s = 0" using idle_ok_base by auto
  have 1: "base_ok (s\<lparr>sc_immediateSwitch := x, sc_previouslyPaused := y\<rparr>) = base_ok s" for x y by (simp add: base_ok_def)
  have 2: "sc_state (immediateLevelSwitch s) = BUFFER_FLUSHING" by (simp add: immediateLevelSwitch_def Let_def)
  have "base_ok (immediateLevelSwitch s) \<and> sc_ticks (immediateLevelSwitch s) = 0"
    unfolding immediateLevelSwitch_def Let_def using b 1 by (simp split: option.split)
  then show ?thesis using 2 by (intro idle_ok_quiet) simp_all
qed

lemma flush_idle_ok: "idle_ok s \<Longrightarrow> idle_ok (flushMainBuffer a b s)"
  using idle_ok_base by (intro idle_ok_quiet) auto

lemma flush_following_ok: "idle_ok s \<Longrightarrow> idle_ok (flush_following p s)"
  using idle_ok_base [of s] by (auto simp: flush_following_def split: option.split intro: idle_ok_quiet)

lemma nextLevelSwitch_ok: "idle_ok s \<Longrightarrow> nextLevelSwitch s = Inr s' \<Longrightarrow> idle_ok s'"
proof -
  assume ok: "idle_ok s" and *: "nextLevelSwitch s = Inr s'"
  have r: "idle_ok (raise_loadIdx n s)" for n using keeps_idle_ok [OF frame_keeps [OF raise_loadIdx_frame] ok] .
  have "\<exists>t p. idle_ok t \<and> s' = flush_following p t" if m: "sc_media s = Some m" "md_readyState m \<noteq> 0" for m
  proof -
    define u where "u = raise_loadIdx (2 * cf_fragLoadingLoopThreshold (config_of s)) s"
    define t where "t = (case Option.bind (frag_playing_at (md_currentTime m) u) fr_startPTS of
        Some p \<Rightarrow> if p > 1 then flushMainBuffer (Some 0) (Num (p - 1)) u else u | None \<Rightarrow> u)"
    have "idle_ok t" using r flush_idle_ok [OF r] by (simp add: t_def u_def split: option.split)
    moreover have "\<exists>p. s' = flush_following p t"
      using * m unfolding nextLevelSwitch_def u_def [symmetric] Let_def
      by (cases "fetch_delay m t") (simp_all add: u_def [symmetric] t_def [symmetric], metis)
    ultimately show ?thesis by blast
  qed
  moreover have "sc_media s = None \<or> (\<exists>m. sc_media s = Some m \<and> md_readyState m = 0) \<Longrightarrow> s' = s"
    using * by (auto simp: nextLevelSwitch_def)
  ultimately show ?thesis using ok flush_following_ok by (cases "sc_media s") blast+
qed

lemma manual_level_ok: "idle_ok s \<Longrightarrow> set_manualLevel n (sc_quality s) = Inr q \<Longrightarrow> idle_ok (s\<lparr>sc_quality := q\<rparr>)"
  by (rule keeps_idle_ok [OF frame_keeps [OF with_quality_frame]])
    (auto simp: set_manualLevel_config intro: set_manualLevel_ok)

lemma hls_set_levels_ok:
  "idle_ok s \<Longrightarrow> hls_set_currentLevel n s = Inr s' \<Longrightarrow> idle_ok s'"
  "idle_ok s \<Longrightarrow> hls_set_nextLevel n s = Inr s' \<Longrightarrow> idle_ok s'"
  using manual_level_ok [of s n]
  by (cases "set_manualLevel n (sc_quality s)"; force simp: hls_set_currentLevel_def hls_set_nextLevel_def
      intro: immediateLevelSwitch_ok nextLevelSwitch_ok)+

lemma media_ok:
  "idle_ok s \<Longrightarrow> idle_ok (s\<lparr>sc_media := Some m, sc_buffered := b\<rparr>)" "idle_ok s \<Longrightarrow> idle_ok (s\<lparr>sc_media := Some m, sc_mediaBuffer := mb\<rparr>)"
  by (auto simp: idle_ok_def stream_ok_def)

lemma stream_onMediaAttached_ok: "idle_ok s \<Longrightarrow> stream_onMediaAttached resolve now v s = Inr s' \<Longrightarrow> idle_ok s'"
  by (auto simp: stream_onMediaAttached_def Let_def media_ok split: if_splits dest: hls_startLoad_ok [OF media_ok(2)])

lemma stream_onMediaDetaching_ok: "idle_ok s \<Longrightarrow> idle_ok (stream_onMediaDetaching s)"
proof -
  assume ok: "idle_ok s"
  then have "base_ok s" "sc_ticks s = 0" using idle_ok_base by auto
  then have "base_ok ((put_frags fs t)\<lparr>sc_media := None, sc_mediaBuffer := None, sc_loadedmetadata := False\<rparr>)" "sc_ticks (put_frags fs t) = 0"
    if "t = s \<or> t = s\<lparr>sc_startPosition := Some 0, sc_lastCurrentTime := Some 0\<rparr>" for fs t
    using that by (auto simp: base_ok_def put_frags_quality)
  then show ?thesis unfolding stream_onMediaDetaching_def Let_def by (intro idle_ok_quiet) simp_all
qed

lemma fields_frame [simp]:
  "frame s (s\<lparr>sc_lastCurrentTime := n\<rparr>)" "frame s (s\<lparr>sc_nextLoadPosition := n, sc_startPosition := n\<rparr>)"
  "frame s (s\<lparr>sc_startPosition := n, sc_lastCurrentTime := n\<rparr>)" "frame s (s\<lparr>sc_nextLoadPosition := n\<rparr>)"
  "frame s (s\<lparr>sc_startFragRequested := r, sc_nextLoadPosition := n\<rparr>)" "frame s (s\<lparr>sc_audioCodecSwap := b\<rparr>)"
  "frame s (s\<lparr>sc_pendingBuffering := b\<rparr>)" "frame s (s\<lparr>sc_appended := b, sc_pendingBuffering := b'\<rparr>)"
  "frame s (s\<lparr>sc_altAudio := b\<rparr>)" "frame s (s\<lparr>sc_mediaBuffer := mb\<rparr>)" "frame s (s\<lparr>sc_bufferedFrags := fs\<rparr>)"
  "frame s (s\<lparr>sc_fragPrevious := fp\<rparr>)" "frame s (s\<lparr>sc_stats := Some st\<rparr>)"
  "frame s (s\<lparr>sc_videoBuffer := vb, sc_mediaBuffer := mb\<rparr>)" "frame s (s\<lparr>sc_mediaBuffer := mb, sc_altAudio := b\<rparr>)"
  "frame s (s\<lparr>sc_bitrateTest := b, sc_stats := Some st\<rparr>)" "frame s (s\<lparr>sc_startFragRequested := r, sc_stats := Some st\<rparr>)"
  by (simp_all add: frame_def)

lemma seek_state_keeps: "keeps s (seek_state n t s)"
proof -
  have 1: "keeps s (set_state IDLE ((abort_current s)\<lparr>sc_fragCurrent := None, sc_fragPrevious := None\<rparr>))" by (rule keeps_quiet) simp_all
  have 2: "keeps s (set_state IDLE (s\<lparr>sc_fragPrevious := None\<rparr>))" by (rule keeps_after) simp_all
  show ?thesis using 1 2 by (auto simp: seek_state_def split: option.split)
qed

lemma onMediaSeeking_ok: "idle_ok s \<Longrightarrow> onMediaSeeking resolve now s = Inr s' \<Longrightarrow> idle_ok s'"
proof -
  assume ok: "idle_ok s" and *: "onMediaSeeking resolve now s = Inr s'"
  obtain len x y where b: "bufferInfo_at (scheduled_buffer s) (map_option md_currentTime (sc_media s)) (cf_maxBufferHole (config_of s)) = (len, x, y)"
    by (cases "bufferInfo_at (scheduled_buffer s) (map_option md_currentTime (sc_media s)) (cf_maxBufferHole (config_of s))")
  define t where "t = map_option md_currentTime (sc_media s)"
  define s1 where "s1 = seek_state len t s"
  define s2 where "s2 = (if sc_media s1 \<noteq> None then s1\<lparr>sc_lastCurrentTime := t\<rparr> else s1)"
  define s3 where "s3 = (if sc_state s2 \<noteq> FRAG_LOADING \<and> sc_fragLoadIdx s2 \<noteq> None
    then raise_loadIdx (2 * cf_fragLoadingLoopThreshold (config_of s)) s2 else s2)"
  define s4 where "s4 = (if \<not> sc_loadedmetadata s3 then s3\<lparr>sc_nextLoadPosition := t, sc_startPosition := t\<rparr> else s3)"
  have "frame s1 s2" "frame s2 s3" "frame s3 s4" by (simp_all add: s2_def s3_def s4_def)
  then have "keeps s s4" using seek_state_keeps [of s len t] frame_keeps keeps_trans unfolding s1_def [symmetric] by blast
  moreover have "stream_tick resolve now s4 = Inr s'"
    using * unfolding onMediaSeeking_def Let_def b prod.case
    by (simp only: t_def [symmetric] s1_def [symmetric] s2_def [symmetric] s3_def [symmetric] s4_def [symmetric])
  ultimately show ?thesis using ok keeps_idle_ok tick_idle_ok by blast
qed

lemma stream_onManifestLoading_ok: "idle_ok s \<Longrightarrow> idle_ok (stream_onManifestLoading s)"
  by (rule keeps_idle_ok [OF frame_keeps]) (simp_all add: stream_onManifestLoading_def frame_def)

lemma stream_onManifestParsed_ok:
  "idle_ok s \<Longrightarrow> levels_of s = Some levels \<Longrightarrow> stream_onManifestParsed resolve now levels s = Inr s' \<Longrightarrow> idle_ok s'"
proof -
  assume ok: "idle_ok s" and l: "levels_of s = Some levels" and *: "stream_onManifestParsed resolve now levels s = Inr s'"
  have q: "(sc_quality s)\<lparr>q_levels := Some levels\<rparr> = sc_quality s" using l by simp
  have "idle_ok (s\<lparr>sc_audioCodecSwitch := b, sc_quality := sc_quality s, sc_startFragRequested := r\<rparr>)" for b r
    by (rule keeps_idle_ok [OF frame_keeps ok]) (simp add: frame_def)
  then show ?thesis
    using * unfolding stream_onManifestParsed_def Let_def q by (auto split: if_splits intro: hls_startLoad_ok)
qed

lemma use_details_keeps:
  assumes q: "set_details n d (sc_quality s) = Inr q"
  shows "keeps s (use_details n q d sl live s)"
proof -
  define t where "t = s\<lparr>sc_quality := q, sc_levelLastLoaded := Some n,
    sc_liveSyncPosition := (case live of Some p \<Rightarrow> p | None \<Rightarrow> sc_liveSyncPosition s)\<rparr>"
  have "frame s t" using set_details_config [OF q] set_details_ok [OF _ q] by (simp add: t_def frame_def)
  moreover have start: "frame u (set_start sl d u)" for u by (simp add: set_start_def Let_def frame_def)
  ultimately have k: "keeps s (set_start sl d (tell es t))" for es
    by (intro frame_keeps) (rule frame_trans [OF _ frame_trans [OF tell_frame start]])
  have "use_details n q d sl live s =
      (let u = set_start sl d (tell [LevelUpdated d n] t) in if sc_state u = WAITING_LEVEL then set_state IDLE u else u)"
    by (simp add: use_details_def t_def Let_def)
  then show ?thesis using k keeps_trans [OF k set_state_keeps [OF quiet_simps(1)]] by (simp add: Let_def)
qed

lemma stream_onLevelLoaded_ok: "idle_ok s \<Longrightarrow> stream_onLevelLoaded resolve now n d s = Inr s' \<Longrightarrow> idle_ok s'"
  using tick_idle_ok [OF keeps_idle_ok [OF use_details_keeps]]
  unfolding stream_onLevelLoaded_def Let_def by (auto split: option.split_asm sum.split_asm)

lemma stream_onKeyLoaded_ok: "idle_ok s \<Longrightarrow> stream_onKeyLoaded resolve now s = Inr s' \<Longrightarrow> idle_ok s'"
  using tick_idle_ok [OF keeps_idle_ok [OF set_state_keeps [OF quiet_simps(1)]]] by (auto simp: stream_onKeyLoaded_def split: if_splits)

lemma push_fragment_ok:
  "idle_ok s \<Longrightarrow> sc_fragCurrent s \<noteq> None \<Longrightarrow> sc_stats s \<noteq> None \<Longrightarrow> idle_ok (push_fragment payload f l d s)"
  by (auto simp: push_fragment_def Let_def idle_ok_def stream_ok_def loading_state_def)

lemma fragment_loaded_ok:
  assumes ok: "idle_ok s" and cur: "sc_fragCurrent s \<noteq> None"
    and *: "fragment_loaded resolve now fl payload st f l d s = Inr s'"
  shows "idle_ok s'"
proof -
  define t where "t = s\<lparr>sc_bitrateTest := False, sc_stats := Some st\<rparr>"
  have t: "idle_ok t" "sc_fragCurrent t \<noteq> None" "sc_stats t \<noteq> None"
    using keeps_idle_ok [OF frame_keeps ok, of t] cur by (simp_all add: t_def)
  have idle: "idle_ok u" if "frame (set_state IDLE t) u" for u
    using keeps_idle_ok [OF keeps_trans [OF set_state_keeps frame_keeps [OF that]] t(1)] by simp
  have 1: "frame (set_state IDLE t) (trigger_fragBuffered sd f ((set_state IDLE t)\<lparr>sc_startFragRequested := r, sc_stats := Some sd\<rparr>))" for sd r
    by (rule frame_trans [OF _ trigger_fragBuffered_frame]) simp
  have 2: "frame (set_state IDLE t) (trigger_fragBuffered sd f (put_frags fs ((set_state IDLE t)\<lparr>sc_stats := Some sd\<rparr>)))" for sd fs
    by (rule frame_trans [OF frame_trans [OF _ put_frags_frame] trigger_fragBuffered_frame]) simp
  show ?thesis
    using * push_fragment_ok [OF t] unfolding fragment_loaded_def Let_def t_def [symmetric]
    by (auto split: sum.split_asm bool.split_asm if_split_asm option.split_asm intro: tick_idle_ok [OF idle [OF 1]] tick_idle_ok [OF idle [OF 2]])
qed

lemma expected_fragment_current: "expected_fragment f s = Some g \<Longrightarrow> sc_fragCurrent s = Some g"
  by (auto simp: expected_fragment_def split: option.splits if_splits)

lemma stream_onFragLoaded_ok: "idle_ok s \<Longrightarrow> stream_onFragLoaded resolve now f payload st s = Inr s' \<Longrightarrow> idle_ok s'"
proof -
  assume ok: "idle_ok s" and *: "stream_onFragLoaded resolve now f payload st s = Inr s'"
  define r where "r = (if sc_state s = FRAG_LOADING \<and> fr_type f = ''main'' then
      case expected_fragment f s of None \<Rightarrow> Inr s
      | Some g \<Rightarrow> (case level_at (fr_level g) s of None \<Rightarrow> Inl TypeError
          | Some l \<Rightarrow> (case lv_details l of None \<Rightarrow> Inl TypeError | Some d \<Rightarrow> fragment_loaded resolve now f payload st g l d s))
      else Inr s)"
  have reset: "idle_ok (t\<lparr>sc_fragLoadError := 0\<rparr>)" if "idle_ok t" for t
    by (rule keeps_idle_ok [OF frame_keeps that]) (simp add: frame_def)
  have "idle_ok t" if "r = Inr t" for t
    using that ok fragment_loaded_ok [OF ok] by (auto simp: r_def dest: expected_fragment_current split: if_split_asm option.split_asm)
  then show ?thesis using * reset unfolding stream_onFragLoaded_def r_def [symmetric] by (cases r) auto
qed

lemma append_init_frame: "frame s (append_init t s)"
  unfolding append_init_def by (simp split: option.split) (blast intro: frame_trans [OF fields_frame(8) tell_frame])

lemma fold_frame: "(\<And>x t. frame t (g x t)) \<Longrightarrow> frame s (fold g xs s)"
  by (induction xs arbitrary: s) (simp_all, metis frame_trans)

lemma onFragParsingInitSegment_ok:
  assumes ok: "idle_ok s" and *: "onFragParsingInitSegment resolve now ua f i ts s = Inr s'"
  shows "idle_ok s'"
proof -
  have "keeps s (fold append_init xs (tell es s))" for xs es
    by (rule frame_keeps [OF frame_trans [OF tell_frame fold_frame]]) (rule append_init_frame)
  then have "stream_tick resolve now (fold append_init xs (tell es s)) = Inr s' \<Longrightarrow> idle_ok s'" for xs es
    using keeps_idle_ok [OF _ ok] tick_idle_ok by blast
  then show ?thesis
    using * ok by (auto simp: onFragParsingInitSegment_def Let_def split: if_split_asm option.split_asm)
qed

lemma update_times_frame: "update_times f data s = Inr s' \<Longrightarrow> frame s s'"
proof -
  have put: "frame s (put_details n d g s)" for n d g
  proof (cases "set_details n d (sc_quality s)")
    case (Inr q)
    have "frame s (s\<lparr>sc_quality := q\<rparr>)" using set_details_config [OF Inr] set_details_ok [OF _ Inr] by (simp add: frame_def)
    then show ?thesis using Inr by (simp add: put_details_def frame_trans [OF _ put_frags_frame])
  qed (simp add: put_details_def)
  assume *: "update_times f data s = Inr s'"
  then obtain l n e e' where "playing_level s = Some l" "sc_level s = Some n" "end_times f data = (e, e')"
    by (cases "end_times f data") (auto simp: update_times_def split: option.splits)
  then show ?thesis
    using * frame_trans [OF put tell_frame] frame_trans [OF put_frags_frame tell_frame]
    by (auto simp: update_times_def Let_def split: sum.split_asm option.split_asm)
qed

lemma append_data_frame: "frame s (append_data ty b s)"
  by (auto simp: append_data_def split: option.split list.split intro: frame_trans [OF fields_frame(8) tell_frame])

lemma onFragParsingData_ok:
  assumes ok: "idle_ok s" and *: "onFragParsingData resolve now f i data s = Inr s'"
  shows "idle_ok s'"
proof (cases "parsing_fragment f i s")
  case None
  then show ?thesis using assms by (simp add: onFragParsingData_def)
next
  case (Some g)
  define t where "t = put_frags [note_dropped g data] s"
  have t: "frame s t" by (simp add: t_def)
  have 1: "keeps s ((set_state IDLE (t\<lparr>sc_nextLoadPosition := n\<rparr>))\<lparr>sc_fragPrevious := fp\<rparr>)" for n fp
    by (rule keeps_trans [OF keeps_after [OF frame_trans [OF t fields_frame(4)] quiet_simps(1)] frame_keeps [OF fields_frame(12)]])
  have 2: "keeps s (append_data ty b (append_data ty' b' u))" if "frame t u" for ty b ty' b' u
    by (rule frame_keeps [OF frame_trans [OF t frame_trans [OF that frame_trans [OF append_data_frame append_data_frame]]]])
  show ?thesis
  proof (cases "pd_type data = ''audio'' \<and> sc_altAudio s")
    case True
    then show ?thesis using assms Some by (simp add: onFragParsingData_def)
  next
    case False
    show ?thesis
    proof (cases "must_backtrack g data")
      case True
      then show ?thesis
        using * False Some tick_idle_ok [OF keeps_idle_ok [OF 1 ok]] by (auto simp: onFragParsingData_def Let_def t_def)
    next
      case nb: False
      then obtain u where u: "update_times (note_dropped g data) data t = Inr u"
        using * False Some by (auto simp: onFragParsingData_def Let_def t_def split: sum.split_asm)
      then show ?thesis
        using * False Some nb tick_idle_ok [OF keeps_idle_ok [OF 2 [OF update_times_frame [OF u]] ok]]
        by (auto simp: onFragParsingData_def Let_def t_def)
    qed
  qed
qed

lemma parsing_current: "parsing_fragment f i s \<noteq> None \<Longrightarrow> sc_fragCurrent s \<noteq> None \<and> sc_state s = PARSING"
  by (auto simp: parsing_fragment_def expected_fragment_def split: if_splits option.splits)

lemma onFragParsed_ok: "idle_ok s \<Longrightarrow> onFragParsed resolve now f i s = Inr s' \<Longrightarrow> idle_ok s'"
proof -
  assume ok: "idle_ok s" and *: "onFragParsed resolve now f i s = Inr s'"
  show ?thesis
  proof (cases "parsing_fragment f i s = None")
    case True
    then show ?thesis using ok * by (simp add: onFragParsed_def)
  next
    case False
    then obtain st where st: "sc_stats s = Some st" using * by (auto simp: onFragParsed_def split: option.splits)
    have "idle_ok (set_state PARSED (s\<lparr>sc_stats := Some x\<rparr>))" for x
      using ok parsing_current [OF False] by (auto simp: idle_ok_def stream_ok_def loading_state_def)
    then show ?thesis using * False st by (auto simp: onFragParsed_def intro: checkAppendedParsed_ok)
  qed
qed

lemma onAudioTrackSwitched_ok: "idle_ok s \<Longrightarrow> onAudioTrackSwitched resolve now a s = Inr s' \<Longrightarrow> idle_ok s'"
  by (auto simp: onAudioTrackSwitched_def Let_def split: if_split_asm
    intro: tick_idle_ok [OF keeps_idle_ok [OF frame_keeps [OF fields_frame(15)]]] tick_idle_ok [OF keeps_idle_ok [OF frame_keeps [OF fields_frame(9)]]])

lemma to_main_audio_keeps: "to_main_audio s = Inr s' \<Longrightarrow> keeps s s'"
proof -
  have "keeps s (set_state IDLE (destroy_demuxer ((abort_current (s\<lparr>sc_mediaBuffer := mb\<rparr>))\<lparr>sc_fragCurrent := None, sc_fragPrevious := None\<rparr>)))" for mb
    by (rule keeps_quiet) simp_all
  then show "to_main_audio s = Inr s' \<Longrightarrow> keeps s s'"
    by (auto simp: to_main_audio_def Let_def split: if_split_asm option.split_asm)
qed

lemma onAudioTrackSwitching_ok:
  assumes ok: "idle_ok s" and *: "onAudioTrackSwitching resolve now m n s = Inr s'"
  shows "idle_ok s'"
proof (cases m)
  case True
  then obtain t where t: "to_main_audio s = Inr t" using * by (cases "to_main_audio s") (simp_all add: onAudioTrackSwitching_def)
  define u where "u = tell [BufferFlushing (Some 0) PosInf (Some ''audio''), AudioTrackSwitched n] t"
  have u: "idle_ok u" using keeps_idle_ok [OF keeps_trans [OF to_main_audio_keeps [OF t] frame_keeps [OF tell_frame]] ok] by (simp add: u_def)
  define v where "v = (case onAudioTrackSwitched resolve now False u of Inr s \<Rightarrow> s | Inl _ \<Rightarrow> tell [InternalException] u)"
  have "idle_ok v" using u onAudioTrackSwitched_ok [OF u] keeps_idle_ok [OF frame_keeps [OF tell_frame] u] by (auto simp: v_def split: sum.split)
  then have "idle_ok (v\<lparr>sc_altAudio := False\<rparr>)" by (rule keeps_idle_ok [OF frame_keeps [OF fields_frame(9)]])
  moreover have "s' = v\<lparr>sc_altAudio := False\<rparr>" using * True t unfolding v_def u_def by (simp add: onAudioTrackSwitching_def Let_def)
  ultimately show ?thesis by simp
qed (use assms in \<open>simp add: onAudioTrackSwitching_def\<close>)

lemma onBufferCreated_ok: "idle_ok s \<Longrightarrow> idle_ok (onBufferCreated ts s)"
  by (rule keeps_idle_ok [OF frame_keeps]) (simp_all add: onBufferCreated_def Let_def)

lemma onBufferAppended_ok: "idle_ok s \<Longrightarrow> onBufferAppended resolve now p n s = Inr s' \<Longrightarrow> idle_ok s'"
  using checkAppendedParsed_ok [OF keeps_idle_ok [OF frame_keeps [OF fields_frame(7)]]]
  by (auto simp: onBufferAppended_def split: if_split_asm)

lemma onFragLoadEmergencyAborted_ok: "idle_ok s \<Longrightarrow> onFragLoadEmergencyAborted resolve now s = Inr s' \<Longrightarrow> idle_ok s'"
proof -
  assume ok: "idle_ok s"
  have 1: "idle_ok (set_state IDLE s)" using keeps_idle_ok [OF set_state_keeps ok] by simp
  have 2: "idle_ok ((set_state IDLE s)\<lparr>sc_startFragRequested := r, sc_nextLoadPosition := n\<rparr>)" for r n
    by (rule keeps_idle_ok [OF frame_keeps [OF fields_frame(5)] 1])
  show "onFragLoadEmergencyAborted resolve now s = Inr s' \<Longrightarrow> idle_ok s'"
    by (auto simp: onFragLoadEmergencyAborted_def Let_def split: if_split_asm intro: tick_idle_ok [OF 1] tick_idle_ok [OF 2])
qed

lemma onBufferFlushed_ok: "idle_ok s \<Longrightarrow> idle_ok (onBufferFlushed s)"
  using idle_ok_base [of s] by (intro idle_ok_quiet) (simp_all add: onBufferFlushed_def Let_def)

lemma small_handlers_ok:
  "idle_ok s \<Longrightarrow> idle_ok (onMediaEnded s)" "idle_ok s \<Longrightarrow> idle_ok (swapAudioCodec s)" "idle_ok s \<Longrightarrow> idle_ok (stream_destroy s)"
  "idle_ok s \<Longrightarrow> idle_ok (put_frags fs s)" "idle_ok s \<Longrightarrow> idle_ok (player_onError now data s)"
proof -
  show "idle_ok s \<Longrightarrow> idle_ok (onMediaEnded s)"
    unfolding onMediaEnded_def by (rule keeps_idle_ok [OF frame_keeps [OF fields_frame(3)]])
  show "idle_ok s \<Longrightarrow> idle_ok (swapAudioCodec s)"
    unfolding swapAudioCodec_def by (rule keeps_idle_ok [OF frame_keeps [OF fields_frame(6)]])
  show "idle_ok s \<Longrightarrow> idle_ok (stream_destroy s)"
    using idle_ok_base [of s] by (intro idle_ok_quiet) (simp_all add: stream_destroy_def)
  show "idle_ok s \<Longrightarrow> idle_ok (put_frags fs s)" by (rule keeps_idle_ok [OF frame_keeps [OF put_frags_frame]])
  show "idle_ok s \<Longrightarrow> idle_ok (player_onError now data s)" by (rule keeps_idle_ok [OF player_onError_keeps])
qed

subsection \<open>Everything that can happen\<close>

inductive stream_step :: "(string \<Rightarrow> string \<Rightarrow> string) \<Rightarrow> string \<Rightarrow> stream \<Rightarrow> stream \<Rightarrow> bool" for resolve ua where
  timer: "stream_tick resolve now s = Inr s' \<Longrightarrow> stream_step resolve ua s s'"
| start: "hls_startLoad resolve now p s = Inr s' \<Longrightarrow> stream_step resolve ua s s'"
| stop: "stream_step resolve ua s (hls_stopLoad s)"
| destroy: "stream_step resolve ua s (stream_destroy s)"
| currentLevel: "hls_set_currentLevel n s = Inr s' \<Longrightarrow> stream_step resolve ua s s'"
| nextLevel: "hls_set_nextLevel n s = Inr s' \<Longrightarrow> stream_step resolve ua s s'"
| swapCodec: "stream_step resolve ua s (swapAudioCodec s)"
| attached: "stream_onMediaAttached resolve now v s = Inr s' \<Longrightarrow> stream_step resolve ua s s'"
| detaching: "stream_step resolve ua s (stream_onMediaDetaching s)"
| seeking: "onMediaSeeking resolve now s = Inr s' \<Longrightarrow> stream_step resolve ua s s'"
| seeked: "onMediaSeeked resolve now s = Inr s' \<Longrightarrow> stream_step resolve ua s s'"
| mediaEnded: "stream_step resolve ua s (onMediaEnded s)"
| manifestLoading: "stream_step resolve ua s (stream_onManifestLoading s)"
| manifestParsed: "levels_of s = Some levels \<Longrightarrow> stream_onManifestParsed resolve now levels s = Inr s' \<Longrightarrow> stream_step resolve ua s s'"
| levelLoaded: "stream_onLevelLoaded resolve now n d s = Inr s' \<Longrightarrow> stream_step resolve ua s s'"
| keyArrives: "stream_step resolve ua s (put_frags [f\<lparr>fr_key := k\<rparr>] s)"
| keyLoaded: "stream_onKeyLoaded resolve now s = Inr s' \<Longrightarrow> stream_step resolve ua s s'"
| fragLoaded: "stream_onFragLoaded resolve now f payload st s = Inr s' \<Longrightarrow> stream_step resolve ua s s'"
| initSegmentParsed: "onFragParsingInitSegment resolve now ua f i tracks s = Inr s' \<Longrightarrow> stream_step resolve ua s s'"
| dataParsed: "onFragParsingData resolve now f i data s = Inr s' \<Longrightarrow> stream_step resolve ua s s'"
| fragParsed: "onFragParsed resolve now f i s = Inr s' \<Longrightarrow> stream_step resolve ua s s'"
| audioSwitching: "onAudioTrackSwitching resolve now m k s = Inr s' \<Longrightarrow> stream_step resolve ua s s'"
| audioSwitched: "onAudioTrackSwitched resolve now a s = Inr s' \<Longrightarrow> stream_step resolve ua s s'"
| bufferCreated: "stream_step resolve ua s (onBufferCreated ts s)"
| bufferAppended: "onBufferAppended resolve now p pending s = Inr s' \<Longrightarrow> stream_step resolve ua s s'"
| bufferFlushed: "stream_step resolve ua s (onBufferFlushed s)"
| emergency: "onFragLoadEmergencyAborted resolve now s = Inr s' \<Longrightarrow> stream_step resolve ua s s'"
| failure: "stream_step resolve ua s (player_onError now data s)"
| loaderDone: "stream_step resolve ua s (put_frags [f\<lparr>fr_loader := False\<rparr>] s)"
| levels: "quality_step (sc_quality s) q \<Longrightarrow> stream_step resolve ua s (s\<lparr>sc_quality := q\<rparr>)"
| media: "sc_media s = Some m \<Longrightarrow> stream_step resolve ua s (s\<lparr>sc_media := Some m', sc_buffered := b\<rparr>)"

lemma stream_step_ok: "stream_step resolve ua s s' \<Longrightarrow> idle_ok s \<Longrightarrow> idle_ok s'"
proof (induction rule: stream_step.induct)
  case (levels s q)
  then show ?case
    using quality_step_config [OF levels.hyps] quality_step_ok [OF levels.hyps]
    by (intro keeps_idle_ok [OF frame_keeps [OF with_quality_frame]]) simp_all
next
  case (seeked now s s')
  then show ?case using tick_idle_ok by (simp add: onMediaSeeked_def)
next
  case (manifestParsed s levels now s')
  then show ?case using stream_onManifestParsed_ok by blast
next
  case (media s m m' b)
  then show ?case using media_ok by blast
qed (erule (1) tick_idle_ok hls_startLoad_ok hls_set_levels_ok stream_onMediaAttached_ok onMediaSeeking_ok stream_onLevelLoaded_ok
    stream_onKeyLoaded_ok stream_onFragLoaded_ok onFragParsingInitSegment_ok onFragParsingData_ok onFragParsed_ok onAudioTrackSwitching_ok
    onAudioTrackSwitched_ok onBufferAppended_ok onFragLoadEmergencyAborted_ok
  | erule small_handlers_ok hls_stopLoad_ok stream_onMediaDetaching_ok stream_onManifestLoading_ok onBufferCreated_ok onBufferFlushed_ok)+

inductive stream_reachable :: "(string \<Rightarrow> string \<Rightarrow> string) \<Rightarrow> string \<Rightarrow> hls_config \<Rightarrow> stream \<Rightarrow> bool" for resolve ua config where
  "stream_reachable resolve ua config (new_StreamController config)"
| "stream_reachable resolve ua config s \<Longrightarrow> stream_step resolve ua s s' \<Longrightarrow> stream_reachable resolve ua config s'"

lemma stream_reachable_ok: "stream_reachable resolve ua config s \<Longrightarrow> idle_ok s"
proof (induction rule: stream_reachable.induct)
  case 1
  show ?case
    by (simp add: idle_ok_def stream_ok_def new_StreamController_def loading_state_def quality_ok_def new_quality_def)
qed (rule stream_step_ok)

end
