(* ===== verification/Stream_Choice.thy ===== *)
theory Stream_Choice
  imports Stream_Invariant
begin

text \<open>
  Which fragment is loaded next: the search of \<open>_findFragment\<close> in \<open>src/controller/stream-controller.js\<close> on a playlist
  without gaps, how often a load is tried again, and how often the same fragment is loaded.
\<close>

subsection \<open>Searching\<close>

text \<open>A comparison that is positive before one element and negative after it.\<close>

lemma search_loop_sign:
  assumes "\<And>j. j < i \<Longrightarrow> f (xs ! j) > 0" "f (xs ! i) = 0" "\<And>j. i < j \<Longrightarrow> j < length xs \<Longrightarrow> f (xs ! j) < 0"
    and "0 \<le> lo" "lo \<le> int i" "int i \<le> hi" "hi < int (length xs)"
  shows "search_loop xs f lo hi = Some (xs ! i)"
  using assms(4-7)
proof (induction "nat (hi + 1 - lo)" arbitrary: lo hi rule: less_induct)
  case less
  define m where "m = (lo + hi) div 2"
  have m: "lo \<le> m" "m \<le> hi" "0 \<le> m" using less.prems by (auto simp: m_def)
  have step: "search_loop xs f lo hi =
      (if f (xs ! nat m) > 0 then search_loop xs f (m + 1) hi
       else if f (xs ! nat m) < 0 then search_loop xs f lo (m - 1) else Some (xs ! nat m))"
    using less.prems by (subst search_loop.simps) (simp add: m_def [symmetric] Let_def)
  consider "nat m < i" | "nat m = i" | "i < nat m" by linarith
  then show ?case
  proof cases
    case 1
    moreover have "search_loop xs f (m + 1) hi = Some (xs ! i)"
      using less.prems m 1 by (intro less.hyps) linarith+
    ultimately show ?thesis using step assms(1) by simp
  next
    case 2
    then show ?thesis using step assms(2) by simp
  next
    case 3
    moreover have "search_loop xs f lo (m - 1) = Some (xs ! i)"
      using less.prems m 3 by (intro less.hyps) linarith+
    moreover have "f (xs ! nat m) < 0" using assms(3) [OF 3] m less.prems by linarith
    ultimately show ?thesis using step by simp
  qed
qed

lemma search_sign:
  assumes "\<And>j. j < i \<Longrightarrow> f (xs ! j) > 0" "f (xs ! i) = 0" "\<And>j. i < j \<Longrightarrow> j < length xs \<Longrightarrow> f (xs ! j) < 0" "i < length xs"
  shows "search xs f = Some (xs ! i)"
  unfolding search_def using assms by (intro search_loop_sign) auto

subsection \<open>A playlist without gaps\<close>

definition contiguous :: "rat \<Rightarrow> frag list \<Rightarrow> bool" where
  "contiguous tol fs \<longleftrightarrow>
     list_all (\<lambda>f. fr_start f \<noteq> None \<and> fr_duration f \<noteq> None \<and> 0 \<le> num_rat (fr_start f) \<and> 0 < num_rat (fr_duration f) \<and>
                tol \<le> num_rat (fr_duration f)) fs \<and>
     successively (\<lambda>f g. fr_start g = num_add (fr_start f) (fr_duration f)) fs"

definition frag_begin :: "frag \<Rightarrow> rat" where
  "frag_begin f = num_rat (fr_start f)"

definition frag_end :: "frag \<Rightarrow> rat" where
  "frag_end f = num_rat (fr_start f) + num_rat (fr_duration f)"

lemma contiguous_frag:
  assumes "contiguous tol fs" "f \<in> set fs"
  shows "fr_start f = Some (frag_begin f)" "fr_duration f = Some (frag_end f - frag_begin f)" "0 \<le> frag_begin f"
    "frag_begin f < frag_end f" "tol \<le> frag_end f - frag_begin f"
  using assms by (auto simp: contiguous_def frag_begin_def frag_end_def list_all_iff)

lemma contiguous_step:
  assumes c: "contiguous tol fs" and i: "Suc i < length fs"
  shows "frag_begin (fs ! Suc i) = frag_end (fs ! i)"
proof -
  have "fr_start (fs ! Suc i) = num_add (fr_start (fs ! i)) (fr_duration (fs ! i))"
    using c i by (simp add: contiguous_def successively_conv_nth)
  also have "\<dots> = Some (frag_end (fs ! i))"
    using contiguous_frag(1,2) [OF c, of "fs ! i"] i by simp
  finally show ?thesis by (simp add: frag_begin_def)
qed

lemma contiguous_le: "contiguous tol fs \<Longrightarrow> i < j \<Longrightarrow> j < length fs \<Longrightarrow> frag_end (fs ! i) \<le> frag_begin (fs ! j)"
proof (induction j)
  case (Suc j)
  show ?case
  proof (cases "i = j")
    case True
    then show ?thesis using Suc.prems contiguous_step [of tol fs j] by simp
  next
    case False
    then have "frag_end (fs ! i) \<le> frag_begin (fs ! j)" using Suc by simp
    also have "\<dots> \<le> frag_end (fs ! j)" using contiguous_frag(4) [OF Suc.prems(1), of "fs ! j"] Suc.prems by simp
    also have "\<dots> = frag_begin (fs ! Suc j)" using contiguous_step [OF Suc.prems(1,3)] by simp
    finally show ?thesis .
  qed
qed simp

text \<open>The test of one fragment.\<close>

lemma within_tolerance:
  assumes "contiguous tol fs" "f \<in> set fs" "0 \<le> t" "t \<le> tol"
  shows "fragmentWithinTolerance t (Some be) f =
    (if frag_end f - t \<le> be then 1 else if be < frag_begin f - t \<and> frag_begin f \<noteq> 0 then - 1 else 0)"
  using contiguous_frag [OF assms(1,2)] assms(3,4) by (auto simp: fragmentWithinTolerance_def num_le_def Let_def min_def)

lemma tolerance_sign:
  assumes c: "contiguous tol fs" and t: "0 \<le> t" "t \<le> tol" and i: "i < length fs"
    and be: "frag_begin (fs ! i) - t \<le> be" "be < frag_end (fs ! i) - t"
  shows "j < i \<Longrightarrow> fragmentWithinTolerance t (Some be) (fs ! j) > 0"
    and "fragmentWithinTolerance t (Some be) (fs ! i) = 0"
    and "i < j \<Longrightarrow> j < length fs \<Longrightarrow> fragmentWithinTolerance t (Some be) (fs ! j) < 0"
proof -
  show "fragmentWithinTolerance t (Some be) (fs ! j) > 0" if "j < i"
    using contiguous_le [OF c that i] within_tolerance [OF c _ t, of "fs ! j" be] that i be by simp
  show "fragmentWithinTolerance t (Some be) (fs ! i) = 0"
    using within_tolerance [OF c _ t, of "fs ! i" be] i be by simp
  show "fragmentWithinTolerance t (Some be) (fs ! j) < 0" if j: "i < j" "j < length fs"
  proof -
    have "frag_end (fs ! i) \<le> frag_begin (fs ! j)" by (rule contiguous_le [OF c j])
    moreover have "0 < frag_end (fs ! i)" using contiguous_frag(3,4) [OF c, of "fs ! i"] i by simp
    moreover have "frag_begin (fs ! j) < frag_end (fs ! j)" using contiguous_frag(4) [OF c, of "fs ! j"] j by simp
    ultimately show ?thesis using within_tolerance [OF c _ t, of "fs ! j" be] j be by simp
  qed
qed

definition end_tolerance :: "hls_config \<Rightarrow> frag list \<Rightarrow> rat \<Rightarrow> rat" where
  "end_tolerance config fs be =
     (if frag_end (last fs) - cf_maxFragLookUpTolerance config < be then 0 else cf_maxFragLookUpTolerance config)"

lemma candidate_found:
  assumes c: "contiguous (cf_maxFragLookUpTolerance config) fs" and t: "0 \<le> cf_maxFragLookUpTolerance config" and i: "i < length fs"
    and be: "frag_begin (fs ! i) - end_tolerance config fs be \<le> be" "be < frag_end (fs ! i) - end_tolerance config fs be"
  shows "candidate_fragment config prev fs (Some be) (Some (frag_end (last fs))) = Some (fs ! i)"
proof -
  define tol where "tol = end_tolerance config fs be"
  have tol: "0 \<le> tol" "tol \<le> cf_maxFragLookUpTolerance config" using t by (simp_all add: tol_def end_tolerance_def)
  note sign = tolerance_sign [OF c tol i be [folded tol_def]]
  have found: "search fs (fragmentWithinTolerance tol (Some be)) = Some (fs ! i)"
    by (rule search_sign) (use sign i in auto)
  have only: "f = fs ! i" if "elem fs k = Some f" "fragmentWithinTolerance tol (Some be) f = 0" for k f
  proof -
    have k: "nat k < length fs" "f = fs ! nat k" using that(1) by (auto simp: elem_def split: if_splits)
    consider "nat k < i" | "nat k = i" | "i < nat k" by linarith
    then show ?thesis using sign(1,3) k that(2) by cases force+
  qed
  have "frag_end (fs ! i) \<le> frag_end (last fs)"
  proof (cases "i = length fs - 1")
    case False
    then have "frag_end (fs ! i) \<le> frag_begin (last fs)" using contiguous_le [OF c, of i "length fs - 1"] i by (cases fs) (auto simp: last_conv_nth)
    also have "\<dots> < frag_end (last fs)" using contiguous_frag(4) [OF c, of "last fs"] i by (cases fs) auto
    finally show ?thesis by simp
  next
    case True
    then show ?thesis using i by (cases fs) (auto simp: last_conv_nth)
  qed
  then have lt: "be < frag_end (last fs)" using be(2) tol by (simp add: tol_def)
  have e: "(if num_less (num_sub (Some (frag_end (last fs))) (Some (cf_maxFragLookUpTolerance config))) (Some be) then 0
      else cf_maxFragLookUpTolerance config) = tol"
    by (simp add: tol_def end_tolerance_def)
  show ?thesis
    unfolding candidate_fragment_def Let_def e using lt found only by (auto split: option.split)
qed

subsection \<open>The next fragment\<close>

definition numbered :: "level_details \<Rightarrow> bool" where
  "numbered d \<longleftrightarrow>
     map fr_sn (ld_fragments d) = map (\<lambda>i. SN (ld_startSN d + int i)) [0..<length (ld_fragments d)] \<and>
     ld_endSN d = ld_startSN d + int (length (ld_fragments d)) - 1"

lemma numbered_sn: "numbered d \<Longrightarrow> i < length (ld_fragments d) \<Longrightarrow> sn_num (ld_fragments d ! i) = Some (ld_startSN d + int i)"
proof -
  assume "numbered d" "i < length (ld_fragments d)"
  then have "map fr_sn (ld_fragments d) ! i = SN (ld_startSN d + int i)" by (simp add: numbered_def)
  then show ?thesis using \<open>i < length (ld_fragments d)\<close> by (simp add: sn_num_def)
qed

text \<open>The audio and video of the fragment that was loaded start together, or it started with a keyframe.\<close>

definition in_sync :: "hls_config \<Rightarrow> frag \<Rightarrow> bool" where
  "in_sync config f \<longleftrightarrow> \<not> (num_less (Some (cf_maxBufferHole config)) (fr_deltaPTS f) \<and> truthy (fr_deltaPTS f) \<and> truthy (fr_dropped f))"

lemma after_previous_next:
  assumes d: "numbered d" and n: "Suc n < length (ld_fragments d)" and prev: "fr_level (ld_fragments d ! n) = fr_level prev"
    and bt: "fr_backtracked (ld_fragments d ! n) \<noteq> Some True" and sync: "in_sync (config_of s) prev"
  shows "after_previous (ld_fragments d ! n) prev d (ld_startSN d + int n) s = Inr (Some (ld_fragments d ! Suc n), s)"
proof -
  have "elem (ld_fragments d) (int n + 1) = Some (ld_fragments d ! Suc n)"
    using n by (simp add: elem_def nat_add_distrib)
  then show ?thesis
    using assms by (auto simp: after_previous_def Let_def in_sync_def numbered_def)
qed

lemma findFragment_next:
  fixes d config s prev
  defines "fs \<equiv> ld_fragments d"
  assumes c: "contiguous (cf_maxFragLookUpTolerance (config_of s)) fs" and t: "0 \<le> cf_maxFragLookUpTolerance (config_of s)"
    and d: "numbered d" and n: "Suc n < length fs"
    and prev: "sn_num prev = Some (ld_startSN d + int n)" "fr_level (fs ! n) = fr_level prev"
    and bt: "fr_backtracked (fs ! n) \<noteq> Some True" and sync: "in_sync (config_of s) prev"
    and be: "frag_begin (fs ! n) \<le> be" "be < frag_end (fs ! Suc n) - cf_maxFragLookUpTolerance (config_of s)"
  shows "findFragment (Some prev) (Some be) (Some (frag_end (last fs))) d s = Inr (Some (fs ! Suc n), s)"
proof -
  define tol where "tol = cf_maxFragLookUpTolerance (config_of s)"
  have "frag_end (fs ! Suc n) \<le> frag_end (last fs)"
  proof (cases "Suc n = length fs - 1")
    case False
    then have "frag_end (fs ! Suc n) \<le> frag_begin (last fs)"
      using contiguous_le [OF c, of "Suc n" "length fs - 1"] n by (cases fs) (auto simp: last_conv_nth)
    also have "\<dots> < frag_end (last fs)" using contiguous_frag(4) [OF c, of "last fs"] n by (cases fs) auto
    finally show ?thesis by simp
  next
    case True
    then show ?thesis using n by (cases fs) (auto simp: last_conv_nth)
  qed
  then have et: "end_tolerance (config_of s) fs be = tol" using be(2) by (simp add: end_tolerance_def tol_def)
  have step: "frag_begin (fs ! Suc n) = frag_end (fs ! n)" by (rule contiguous_step [OF c n])
  show ?thesis
  proof (cases "be < frag_end (fs ! n) - tol")
    case True
    have "candidate_fragment (config_of s) (Some prev) fs (Some be) (Some (frag_end (last fs))) = Some (fs ! n)"
      by (rule candidate_found [OF c t, unfolded et]) (use True be n t in \<open>auto simp: tol_def et\<close>)
    then show ?thesis
      using after_previous_next [OF d n [unfolded fs_def] prev(2) [unfolded fs_def] bt [unfolded fs_def] sync] prev(1) numbered_sn [OF d, of n] n
      by (simp add: findFragment_def fs_def)
  next
    case False
    have "candidate_fragment (config_of s) (Some prev) fs (Some be) (Some (frag_end (last fs))) = Some (fs ! Suc n)"
      by (rule candidate_found [OF c t, unfolded et]) (use False be n t step in \<open>auto simp: tol_def et\<close>)
    then show ?thesis
      using prev(1) numbered_sn [OF d, of "Suc n"] n by (simp add: findFragment_def fs_def)
  qed
qed

lemma fetch_next:
  fixes d s
  defines "fs \<equiv> ld_fragments d"
  assumes c: "contiguous (cf_maxFragLookUpTolerance (config_of s)) fs" and t: "0 \<le> cf_maxFragLookUpTolerance (config_of s)"
    and d: "numbered d" "\<not> ld_live d" "ld_initSegment d = None" and n: "Suc n < length fs"
    and prev: "sc_fragPrevious s = Some prev" "sn_num prev = Some (ld_startSN d + int n)" "fr_level (fs ! n) = fr_level prev"
    and bt: "fr_backtracked (fs ! n) \<noteq> Some True" and sync: "in_sync (config_of s) prev"
    and be: "frag_begin (fs ! n) \<le> be" "be < frag_end (fs ! Suc n) - cf_maxFragLookUpTolerance (config_of s)"
  shows "fetchPayloadOrEos resolve now (Some be) d s = Inr (loadFragmentOrKey resolve now (fs ! Suc n) s)"
proof -
  have ne: "fs \<noteq> []" using n by auto
  have e: "num_add (fr_start (last fs)) (fr_duration (last fs)) = Some (frag_end (last fs))"
    using contiguous_frag(1,2) [OF c last_in_set [OF ne]] by simp
  have "frag_begin (hd fs) \<le> frag_begin (fs ! n)"
  proof (cases n)
    case (Suc m)
    have "frag_end (fs ! 0) \<le> frag_begin (fs ! n)" using contiguous_le [OF c, of 0 n] n Suc by simp
    then show ?thesis using contiguous_frag(4) [OF c, of "fs ! 0"] ne by (simp add: hd_conv_nth)
  qed (simp add: hd_conv_nth ne)
  then have s: "\<not> num_less (Some be) (fr_start (hd fs))"
    using be(1) contiguous_frag(1) [OF c, of "hd fs"] ne by simp
  show ?thesis
    using findFragment_next [OF c [unfolded fs_def] t d(1) n [unfolded fs_def] prev(2) prev(3) [unfolded fs_def] bt [unfolded fs_def] sync
      be [unfolded fs_def]] e s ne d prev(1)
    by (simp add: fetchPayloadOrEos_def Let_def fs_def)
qed

end
