(* ===== verification/Stream_Loads.thy ===== *)
theory Stream_Loads
  imports Stream_Choice
begin

text \<open>
  How often fragments are loaded: what one tick starts, how often a failed load is tried again, and when loading the same
  fragment again and again is given up.
\<close>

subsection \<open>Loads that were started\<close>

fun is_load :: "stream_event \<Rightarrow> bool" where
  "is_load (FragLoading f) \<longleftrightarrow> True"
| "is_load _ \<longleftrightarrow> False"

definition loads :: "stream \<Rightarrow> nat" where
  "loads s = length (filter is_load (sc_events s))"

lemma loads_simps [simp]:
  "loads (tell es s) = loads s + length (filter is_load es)" "loads (put_frags fs s) = loads s" "loads (set_state st s) = loads s"
  by (simp_all add: loads_def set_state_def)

lemma loads_fields [simp]:
  "loads (s\<lparr>sc_quality := q\<rparr>) = loads s" "loads (s\<lparr>sc_nudgeRetry := n\<rparr>) = loads s" "loads (s\<lparr>sc_stalled := r\<rparr>) = loads s"
  "loads (s\<lparr>sc_stallReported := b\<rparr>) = loads s" "loads (s\<lparr>sc_retryDate := r\<rparr>) = loads s" "loads (s\<lparr>sc_fragLoadError := n\<rparr>) = loads s"
  "loads (s\<lparr>sc_fragCurrent := f\<rparr>) = loads s" "loads (s\<lparr>sc_fragLoadIdx := i\<rparr>) = loads s" "loads (s\<lparr>sc_ticks := n\<rparr>) = loads s"
  "loads (s\<lparr>sc_startFragRequested := sr\<rparr>) = loads s" "loads (s\<lparr>sc_nextLoadPosition := p\<rparr>) = loads s" "loads (s\<lparr>sc_demuxer := b\<rparr>) = loads s"
  "loads (s\<lparr>sc_level := l\<rparr>) = loads s" "loads (s\<lparr>sc_lastCurrentTime := p\<rparr>) = loads s" "loads (s\<lparr>sc_immediateSwitch := b\<rparr>) = loads s"
  "loads (s\<lparr>sc_loadedmetadata := b\<rparr>) = loads s" "loads (s\<lparr>sc_liveSyncPosition := p\<rparr>) = loads s" "loads (s\<lparr>sc_fragPlaying := f\<rparr>) = loads s"
  by (simp_all add: loads_def)

lemma loads_small [simp]:
  "loads (raise_loadIdx n s) = loads s" "loads (reduceMaxBufferLength m s) = loads s" "loads (seek_to p s) = loads s"
  "loads (flushMainBuffer a b s) = loads s" "loads (set_paused x s) = loads s"
  by (simp_all add: raise_loadIdx_def reduceMaxBufferLength_def seek_to_def flushMainBuffer_def set_paused_def Let_def loads_def set_state_def tell_def)

lemma loads_abr_event [simp]: "loads (abr_event f s) = loads s"
  by (simp add: abr_event_def split: sum.split)

lemma level_errors_loads [simp]: "loads (fst (level_errors data s)) = loads s"
  by (simp add: level_errors_def Let_def split: sum.split prod.split)

text \<open>Errors of the watchdog do not change the state, and no error starts a load.\<close>

lemma stream_onError_loads: "stream_onError now data s = Inr (s', data') \<Longrightarrow> loads s' = loads s"
  by (auto simp: stream_onError_def frag_load_failed_def frag_loop_failed_def level_load_failed_def buffer_full_def Let_def
    split: if_splits option.splits)

lemma player_onError_loads [simp]: "loads (player_onError now data s) = loads s"
proof -
  obtain t d where t: "level_errors data (tell [ReportError (ed_details data) (ed_fatal data)] s) = (t, d)" by fastforce
  then have "loads t = loads s"
    using level_errors_loads [of data "tell [ReportError (ed_details data) (ed_fatal data)] s"] by simp
  then show ?thesis
    using stream_onError_loads [of now d t] by (simp add: player_onError_def t split: sum.split)
qed

lemma watchdog_error_state: "details \<in> {''bufferStalledError'', ''bufferSeekOverHole'', ''bufferNudgeOnStall''} \<Longrightarrow>
  sc_state (player_onError now (media_error details fatal) s) = sc_state s"
proof -
  assume d: "details \<in> {''bufferStalledError'', ''bufferSeekOverHole'', ''bufferNudgeOnStall''}"
  define data where "data = media_error details fatal"
  have data: "ed_details data = details" "ed_type data \<noteq> ''networkError''" by (simp_all add: data_def media_error_def)
  have lv: "level_onError v data q = Inr (q, data)" for v q
    using d data by (auto simp: level_onError_def error_level_def)
  obtain t where t: "level_errors data (tell [ReportError (ed_details data) (ed_fatal data)] s) = (t, data)" "sc_state t = sc_state s"
    by (simp add: level_errors_def Let_def lv)
  have "stream_onError now data t = Inr (t, data)"
    using d data by (auto simp: stream_onError_def Let_def)
  then show ?thesis using t by (simp add: player_onError_def data_def [symmetric])
qed

lemma seek_to_state [simp]: "sc_state (seek_to p s) = sc_state s" "sc_state (set_paused b s) = sc_state s"
  by (simp_all add: seek_to_def set_paused_def)

lemma checkBuffer_state [simp]: "sc_state (checkBuffer now s) = sc_state s" "loads (checkBuffer now s) = loads s"
proof -
  have 1: "sc_state (report_stall now t) = sc_state t" "loads (report_stall now t) = loads t" for t
    by (simp_all add: report_stall_def watchdog_error_state)
  have 2: "sc_state (seek_over_hole now x p t) = sc_state t" "loads (seek_over_hole now x p t) = loads t" for t x p
    by (simp_all add: seek_over_hole_def Let_def watchdog_error_state split: option.split)
  have 3: "sc_state (nudge now t) = sc_state t" "loads (nudge now t) = loads t" for t
    by (simp_all add: nudge_def Let_def watchdog_error_state)
  have 4: "sc_state (check_playhead now m t) = sc_state t" "loads (check_playhead now m t) = loads t" for m t
    by (simp_all add: check_playhead_def Let_def 1 2 3 split: option.split)
  have 5: "sc_state (immediateLevelSwitchEnd s) = sc_state s" "loads (immediateLevelSwitchEnd s) = loads s"
    by (simp_all add: immediateLevelSwitchEnd_def Let_def split: option.split)
  have 6: "sc_state (adjust_start m rs s) = sc_state s" "loads (adjust_start m rs s) = loads s" for m rs
    by (simp_all add: adjust_start_def Let_def)
  show "sc_state (checkBuffer now s) = sc_state s" "loads (checkBuffer now s) = loads s"
    by (simp_all add: checkBuffer_def 4 5 6 split: option.split list.split)
qed

lemma checkFragmentChanged_state [simp]: "sc_state (checkFragmentChanged s) = sc_state s" "loads (checkFragmentChanged s) = loads s"
proof -
  have "sc_state (fragment_changed f t) = sc_state t" "loads (fragment_changed f t) = loads t" for f t
    by (simp_all add: fragment_changed_def Let_def)
  then show "sc_state (checkFragmentChanged s) = sc_state s" "loads (checkFragmentChanged s) = loads s"
    by (simp_all add: checkFragmentChanged_def Let_def split: option.split)
qed

subsection \<open>What a tick does\<close>

text \<open>The outcome of a tick: either nothing is loaded, or one fragment and the state says so.\<close>

definition one_load :: "stream \<Rightarrow> stream \<Rightarrow> bool" where
  "one_load s s' \<longleftrightarrow> loads s' = loads s \<and> sc_state s' \<noteq> FRAG_LOADING \<or> loads s' = loads s + 1 \<and> sc_state s' = FRAG_LOADING"

lemma start_loading_one: "loads (start_loading f s) = loads s + 1" "sc_state (start_loading f s) = FRAG_LOADING"
  by (simp_all add: start_loading_def trigger_fragLoading_def Let_def)

lemma loadFragmentOrKey_one:
  assumes "sc_state s = IDLE"
  shows "one_load s (loadFragmentOrKey resolve now f s)"
proof -
  have 1: "sc_state (player_onError now (loop_error g) t) \<noteq> FRAG_LOADING" if "sc_state t = IDLE" for g t
  proof -
    obtain u d where u: "level_errors (loop_error g) (tell [ReportError ''fragLoopLoadingError'' False] t) = (u, d)" by fastforce
    have st: "sc_state u = IDLE"
      using level_errors_frame [of "tell [ReportError ''fragLoopLoadingError'' False] t" "loop_error g"] u that by (simp add: frame_def)
    have "sc_state u' \<noteq> FRAG_LOADING" if "stream_onError now d u = Inr (u', d')" for u' d'
      using that st by (auto simp: stream_onError_def frag_load_failed_def frag_loop_failed_def level_load_failed_def buffer_full_def
        flushMainBuffer_def Let_def split: if_splits option.splits)
    then show ?thesis
      using u st by (simp add: player_onError_def loop_error_def split: sum.split)
  qed
  show ?thesis
    using assms 1 start_loading_one by (auto simp: loadFragmentOrKey_def Let_def one_load_def)
qed

lemma ensure_state: "ensureFragmentAtLivePoint d be st en fp s = Inr (f, s') \<Longrightarrow> sc_state s' = sc_state s \<and> loads s' = loads s"
proof -
  assume *: "ensureFragmentAtLivePoint d be st en fp s = Inr (f, s')"
  have 1: "loads (to_live_position p t) = loads t" for p t
    by (simp add: to_live_position_def Let_def seek_to_def loads_def tell_def split: option.split)
  define live where "live = computeLivePosition (config_of s) st d"
  define t where "t = (if behind_live d be st en s then to_live_position live s else s)"
  define be' where "be' = (if behind_live d be st en s then live else be)"
  have "s' = t"
    using * unfolding ensureFragmentAtLivePoint_def Let_def live_def [symmetric] t_def [symmetric] be'_def [symmetric]
    by (cases "guess_fragment d fp") (simp_all split: if_split_asm)
  then show ?thesis using ensure_keeps [OF *] 1 by (simp add: frame_def t_def)
qed

lemma findFragment_state: "findFragment fp be en d s = Inr (f, s') \<Longrightarrow> sc_state s' = sc_state s \<and> loads s' = loads s"
proof -
  assume *: "findFragment fp be en d s = Inr (f, s')"
  have 1: "loads (snd (backtrack_fragment g p n i s)) = loads s" for g p n i
    by (simp add: backtrack_fragment_def backtrack_to_previous_def Let_def split: option.split)
  have 2: "loads s' = loads s" if "after_previous g p d sn s = Inr (r, s')" for g p sn r
    using that 1 [of g _ _ _] by (auto simp: after_previous_def Let_def split: if_splits option.splits) (metis snd_conv)+
  have "loads s' = loads s" using * 2 by (auto simp: findFragment_def split: option.splits if_splits)
  then show ?thesis using findFragment_frame [OF *] by (simp add: frame_def)
qed

lemma one_load_same: "sc_state t = sc_state s \<and> loads t = loads s \<Longrightarrow> one_load t u \<Longrightarrow> one_load s u"
  by (simp add: one_load_def)

lemma fetch_one: "fetchPayloadOrEos resolve now be d s = Inr s' \<Longrightarrow> sc_state s = IDLE \<Longrightarrow> one_load s s'"
proof -
  assume *: "fetchPayloadOrEos resolve now be d s = Inr s'" and idle: "sc_state s = IDLE"
  have 1: "one_load s t" if "sc_state t = sc_state s \<and> loads t = loads s" for t using that idle by (simp add: one_load_def)
  have 2: "one_load s (loadFragmentOrKey resolve now f u)" if "sc_state u = sc_state s \<and> loads u = loads s" for f u
    using one_load_same [OF that loadFragmentOrKey_one] that idle by simp
  have 3: "one_load s u" if "findFragment p b e d t = Inr (None, u)" "sc_state t = sc_state s \<and> loads t = loads s" for t p b e u
    using 1 findFragment_state [OF that(1)] that(2) by simp
  have 4: "one_load s (loadFragmentOrKey resolve now f u)"
    if "findFragment p b e d t = Inr (Some f, u)" "sc_state t = sc_state s \<and> loads t = loads s" for f u t p b e
    using 2 findFragment_state [OF that(1)] that(2) by simp
  show ?thesis
  proof (cases "ld_fragments d = []")
    case True
    then show ?thesis using * 1 by (simp add: fetchPayloadOrEos_def)
  next
    case False
    then show ?thesis
      using * 1 2 unfolding fetchPayloadOrEos_def Let_def
      by (auto split: if_splits option.splits sum.splits prod.splits dest!: ensure_state
        dest: 3 4 3 [OF _ conjI [OF refl refl]] 4 [OF _ conjI [OF refl refl]])
  qed
qed

lemma doTickIdle_one: "doTickIdle resolve now s = Inr s' \<Longrightarrow> sc_state s = IDLE \<Longrightarrow> one_load s s'"
proof -
  assume *: "doTickIdle resolve now s = Inr s'" and idle: "sc_state s = IDLE"
  have 1: "one_load s s" using idle by (simp add: one_load_def)
  have 2: "one_load s s'" if "load_level n s = Inr t" "continue_level resolve now be nx n t = Inr s'" for n t be nx
  proof -
    have t: "sc_state t = sc_state s \<and> loads t = loads s"
      using that(1) by (cases "set_nextLoadLevel n (sc_quality s)") (auto simp: load_level_def hls_set_nextLoadLevel_def)
    have w: "one_load t (set_state WAITING_LEVEL t)" "one_load t (end_of_stream t)" by (simp_all add: one_load_def end_of_stream_def)
    have "one_load t s'"
      using that(2) w fetch_one [of resolve now be _ t s'] t idle
      by (auto simp: continue_level_def split: option.splits if_splits)
    then show ?thesis by (rule one_load_same [OF t])
  qed
  show ?thesis
    using * 1 2 by (auto simp: doTickIdle_def Let_def split: if_splits option.splits sum.splits prod.splits)
qed

subsection \<open>The end of the stream\<close>

lemma loadFragmentOrKey_not_ended: "sc_state s = IDLE \<Longrightarrow> sc_state (loadFragmentOrKey resolve now f s) \<noteq> ENDED"
proof -
  assume idle: "sc_state s = IDLE"
  have "sc_state (player_onError now (loop_error g) t) \<noteq> ENDED" if "sc_state t = IDLE" for g t
  proof -
    obtain u d where u: "level_errors (loop_error g) (tell [ReportError ''fragLoopLoadingError'' False] t) = (u, d)" by fastforce
    have st: "sc_state u = IDLE"
      using level_errors_frame [of "tell [ReportError ''fragLoopLoadingError'' False] t" "loop_error g"] u that by (simp add: frame_def)
    have "sc_state u' \<noteq> ENDED" if "stream_onError now d u = Inr (u', d')" for u' d'
      using that st by (auto simp: stream_onError_def frag_load_failed_def frag_loop_failed_def level_load_failed_def buffer_full_def
        flushMainBuffer_def Let_def split: if_splits option.splits)
    then show ?thesis using u st by (simp add: player_onError_def loop_error_def split: sum.split)
  qed
  then show ?thesis using idle by (simp add: loadFragmentOrKey_def Let_def start_loading_one)
qed

lemma fetch_not_ended: "fetchPayloadOrEos resolve now be d s = Inr s' \<Longrightarrow> sc_state s = IDLE \<Longrightarrow> sc_state s' \<noteq> ENDED"
proof -
  assume *: "fetchPayloadOrEos resolve now be d s = Inr s'" and idle: "sc_state s = IDLE"
  have 3: "sc_state u \<noteq> ENDED" if "findFragment p b e d t = Inr (None, u)" "sc_state t = sc_state s \<and> loads t = loads s" for t p b e u
    using findFragment_state [OF that(1)] that(2) idle by simp
  have 4: "sc_state (loadFragmentOrKey resolve now f u) \<noteq> ENDED"
    if "findFragment p b e d t = Inr (Some f, u)" "sc_state t = sc_state s \<and> loads t = loads s" for f u t p b e
    using loadFragmentOrKey_not_ended findFragment_state [OF that(1)] that(2) idle by simp
  show ?thesis
  proof (cases "ld_fragments d = []")
    case True
    then show ?thesis using * idle by (simp add: fetchPayloadOrEos_def)
  next
    case False
    then show ?thesis
      using * idle loadFragmentOrKey_not_ended unfolding fetchPayloadOrEos_def Let_def
      by (auto split: if_splits option.splits sum.splits prod.splits dest!: ensure_state
        dest: 3 4 3 [OF _ conjI [OF refl refl]] 4 [OF _ conjI [OF refl refl]])
  qed
qed

lemma continue_level_ended:
  assumes "continue_level resolve now be nx n s = Inr s'" "sc_state s = IDLE" "sc_state s' = ENDED"
  obtains d f m where "Option.bind (level_at n s) lv_details = Some d" "last_loaded d nx s = Some f" "sc_media s = Some m"
    "all_buffered (md_duration m) be f"
  using assms fetch_not_ended [of resolve now be _ s s'] unfolding continue_level_def
  by (auto split: option.splits if_splits)

end
