(* ===== verification/Stream_Retry.thy ===== *)
theory Stream_Retry
  imports Stream_Loads
begin

text \<open>Repeated failures of a load, and repeated loads of one fragment.\<close>

subsection \<open>A tick from every state\<close>

lemma tick_state_busy:
  "sc_state s \<noteq> IDLE \<Longrightarrow> tick_state resolve now s = Inr s' \<Longrightarrow>
     loads s' = loads s \<and> (sc_state s' = sc_state s \<or> sc_state s' = IDLE \<and> (sc_state s = WAITING_LEVEL \<or> sc_state s = FRAG_LOADING_WAITING_RETRY))"
  by (auto simp: tick_state_def split: stream_state.splits if_splits)

lemma stream_tick_doTick:
  assumes "sc_ticks s = 0" "stream_tick resolve now s = Inr s'"
  obtains t where "tick_state resolve now (s\<lparr>sc_ticks := 1\<rparr>) = Inr t" "sc_state s' = sc_state t" "loads s' = loads t"
proof -
  have "stream_tick resolve now s = map_sum id (\<lambda>s. (if sc_ticks s > 1 then tell [TickLater] s else s)\<lparr>sc_ticks := 0\<rparr>)
      (doTick resolve now (s\<lparr>sc_ticks := 1\<rparr>))"
    using assms(1) by (simp add: stream_tick_def)
  then obtain u where u: "doTick resolve now (s\<lparr>sc_ticks := 1\<rparr>) = Inr u" "s' = (if sc_ticks u > 1 then tell [TickLater] u else u)\<lparr>sc_ticks := 0\<rparr>"
    using assms(2) by (cases "doTick resolve now (s\<lparr>sc_ticks := 1\<rparr>)") auto
  then obtain t where "tick_state resolve now (s\<lparr>sc_ticks := 1\<rparr>) = Inr t" "u = checkFragmentChanged (checkBuffer now t)"
    by (cases "tick_state resolve now (s\<lparr>sc_ticks := 1\<rparr>)") (auto simp: doTick_def)
  then show ?thesis using that u(2) by simp
qed

subsection \<open>Failed loads\<close>

definition load_failures :: "string set" where
  "load_failures = {''fragLoadError'', ''fragLoadTimeOut'', ''keyLoadError'', ''keyLoadTimeOut''}"

text \<open>The same error at several times, until it is fatal.\<close>

fun repeat_error :: "error_data \<Rightarrow> rat list \<Rightarrow> stream \<Rightarrow> (stream \<times> bool) result" where
  "repeat_error data [] s = Inr (s, False)"
| "repeat_error data (now # moments) s =
     (case stream_onError now data s of
        Inl err \<Rightarrow> Inl err
      | Inr (s, data') \<Rightarrow> if ed_fatal data' then Inr (s, True) else repeat_error data moments s)"

lemma stream_onError_load:
  assumes "ed_details data \<in> load_failures" "ed_frag data = Some f" "fr_type f = ''main''"
  shows "stream_onError now data s = frag_load_failed now data (Some f) s"
  using assms by (simp add: stream_onError_def load_failures_def)

lemma frag_load_failed_retry:
  assumes "\<not> ed_fatal data" "sc_fragLoadError s < cf_fragLoadingMaxRetry (config_of s)"
  shows "\<exists>s'. frag_load_failed now data (Some f) s = Inr (s', data) \<and> sc_fragLoadError s' = sc_fragLoadError s + 1 \<and>
    config_of s' = config_of s \<and> sc_state s' = FRAG_LOADING_WAITING_RETRY \<and>
    sc_retryDate s' = Some (now + retry_delay (config_of s) (sc_fragLoadError s))"
  using assms by (auto simp: frag_load_failed_def Let_def)

lemma frag_load_failed_fatal:
  assumes "\<not> ed_fatal data" "sc_fragLoadError s = cf_fragLoadingMaxRetry (config_of s)"
  shows "frag_load_failed now data (Some f) s = Inr (set_state ERROR s, data\<lparr>ed_fatal := True\<rparr>)"
  using assms by (simp add: frag_load_failed_def)

lemma repeat_error_retries:
  assumes "ed_details data \<in> load_failures" "ed_frag data = Some f" "fr_type f = ''main''" "\<not> ed_fatal data"
  shows "sc_fragLoadError s + length moments \<le> cf_fragLoadingMaxRetry (config_of s) \<Longrightarrow>
    \<exists>s'. repeat_error data moments s = Inr (s', False) \<and> sc_fragLoadError s' = sc_fragLoadError s + length moments \<and>
      config_of s' = config_of s \<and>
      (moments \<noteq> [] \<longrightarrow> sc_state s' = FRAG_LOADING_WAITING_RETRY \<and>
        sc_retryDate s' = Some (last moments + retry_delay (config_of s) (sc_fragLoadError s + length moments - 1)))"
proof (induction moments arbitrary: s)
  case (Cons now moments)
  obtain u where u: "frag_load_failed now data (Some f) s = Inr (u, data)" "sc_fragLoadError u = sc_fragLoadError s + 1"
    "config_of u = config_of s" "sc_state u = FRAG_LOADING_WAITING_RETRY"
    "sc_retryDate u = Some (now + retry_delay (config_of s) (sc_fragLoadError s))"
    using frag_load_failed_retry [OF assms(4), of s now f] Cons.prems by auto
  obtain s' where s': "repeat_error data moments u = Inr (s', False)" "sc_fragLoadError s' = sc_fragLoadError u + length moments"
    "config_of s' = config_of u"
    "moments \<noteq> [] \<longrightarrow> sc_state s' = FRAG_LOADING_WAITING_RETRY \<and>
      sc_retryDate s' = Some (last moments + retry_delay (config_of u) (sc_fragLoadError u + length moments - 1))"
    using Cons.IH [of u] Cons.prems u by auto
  have "repeat_error data (now # moments) s = Inr (s', False)"
    using stream_onError_load [OF assms(1-3)] u(1) s'(1) assms(4) by simp
  moreover have "moments = [] \<Longrightarrow> s' = u" using s'(1) by simp
  ultimately show ?case using s' u by (cases "moments = []") auto
qed simp

lemma repeat_error_gives_up:
  assumes "ed_details data \<in> load_failures" "ed_frag data = Some f" "fr_type f = ''main''" "\<not> ed_fatal data"
  shows "sc_fragLoadError s \<le> cf_fragLoadingMaxRetry (config_of s) \<Longrightarrow>
    cf_fragLoadingMaxRetry (config_of s) < sc_fragLoadError s + length moments \<Longrightarrow>
    \<exists>s'. repeat_error data moments s = Inr (s', True) \<and> sc_state s' = ERROR"
proof (induction moments arbitrary: s)
  case (Cons now moments)
  show ?case
  proof (cases "sc_fragLoadError s = cf_fragLoadingMaxRetry (config_of s)")
    case True
    then show ?thesis
      using frag_load_failed_fatal [OF assms(4) True] stream_onError_load [OF assms(1-3)] by simp
  next
    case False
    then obtain u where u: "frag_load_failed now data (Some f) s = Inr (u, data)" "sc_fragLoadError u = sc_fragLoadError s + 1"
      "config_of u = config_of s"
      using frag_load_failed_retry [OF assms(4), of s now f] Cons.prems by auto
    then show ?thesis
      using Cons.IH [of u] Cons.prems False stream_onError_load [OF assms(1-3)] assms(4) by simp
  qed
qed simp

lemma retry_delay_bounds:
  assumes "0 \<le> cf_fragLoadingRetryDelay config" "m \<le> n"
  shows "retry_delay config m \<le> retry_delay config n" "retry_delay config n \<le> cf_fragLoadingMaxRetryTimeout config"
proof -
  have "(2::rat) ^ m * cf_fragLoadingRetryDelay config \<le> 2 ^ n * cf_fragLoadingRetryDelay config"
    using assms by (intro mult_right_mono power_increasing) auto
  then show "retry_delay config m \<le> retry_delay config n" by (simp add: retry_delay_def)
qed (simp add: retry_delay_def)

subsection \<open>The same fragment again\<close>

fun load_again :: "(string \<Rightarrow> string \<Rightarrow> string) \<Rightarrow> rat \<Rightarrow> nat \<Rightarrow> frag \<Rightarrow> stream \<Rightarrow> stream" where
  "load_again resolve now 0 f s = s"
| "load_again resolve now (Suc n) f s =
     (let s' = loadFragmentOrKey resolve now f s
      in case sc_fragCurrent s' of Some g \<Rightarrow> load_again resolve now n g s' | None \<Rightarrow> s')"

lemma needs_key_counters [simp]:
  "needs_key resolve (f\<lparr>fr_loader := b\<rparr>) = needs_key resolve f" "needs_key resolve (f\<lparr>fr_loadIdx := i\<rparr>) = needs_key resolve f"
  "needs_key resolve (f\<lparr>fr_autoLevel := b\<rparr>) = needs_key resolve f" "needs_key resolve (f\<lparr>fr_bitrateTest := b\<rparr>) = needs_key resolve f"
  "needs_key resolve (f\<lparr>fr_loadCounter := c\<rparr>) = needs_key resolve f"
  by (simp_all add: needs_key_def decryptdata_def split: option.split)

text \<open>One load: the new state, and the fragment with its counters.\<close>

definition loading :: "frag \<Rightarrow> int \<Rightarrow> int \<Rightarrow> stream \<Rightarrow> bool" where
  "loading g k i s \<longleftrightarrow> fr_loadCounter g = Some k \<and> fr_loadIdx g = Some i \<and> sc_fragLoadIdx s = Some (Some i) \<and> sc_fragCurrent s = Some g"

lemma start_loading_simps [simp]:
  "sc_fragCurrent (start_loading f s) = Some (f\<lparr>fr_loader := True\<rparr>)" "sc_fragLoadIdx (start_loading f s) = sc_fragLoadIdx s"
  "config_of (start_loading f s) = config_of s"
proof -
  have e: "sc_fragCurrent (abr_event h t) = sc_fragCurrent t" "sc_fragLoadIdx (abr_event h t) = sc_fragLoadIdx t"
    "q_config (sc_quality (abr_event h t)) = q_config (sc_quality t)" for h t
    by (simp_all add: abr_event_def split: sum.split)
  show "sc_fragCurrent (start_loading f s) = Some (f\<lparr>fr_loader := True\<rparr>)" "sc_fragLoadIdx (start_loading f s) = sc_fragLoadIdx s"
    "config_of (start_loading f s) = config_of s"
    by (simp_all add: start_loading_def trigger_fragLoading_def Let_def e refresh_def)
qed

lemma first_load:
  assumes "fr_loadCounter f = None \<or> fr_loadCounter f = Some 0" "\<not> needs_key resolve f" "next_loadIdx (sc_fragLoadIdx s) = Some i"
  shows "\<exists>g. loading g 1 i (loadFragmentOrKey resolve now f s) \<and> \<not> needs_key resolve g \<and> fr_id g = fr_id f \<and>
    loads (loadFragmentOrKey resolve now f s) = loads s + 1 \<and> config_of (loadFragmentOrKey resolve now f s) = config_of s"
  using assms by (auto simp: loadFragmentOrKey_def count_load_def Let_def loading_def start_loading_one)

lemma next_load:
  assumes g: "loading g k i s" "\<not> needs_key resolve g" and k: "0 < k" "k < cf_fragLoadingLoopThreshold (config_of s)"
  shows "\<exists>g'. loading g' (k + 1) (i + 1) (loadFragmentOrKey resolve now g s) \<and> \<not> needs_key resolve g' \<and> fr_id g' = fr_id g \<and>
    loads (loadFragmentOrKey resolve now g s) = loads s + 1 \<and> config_of (loadFragmentOrKey resolve now g s) = config_of s"
  using g k by (auto simp: loadFragmentOrKey_def count_load_def Let_def loading_def start_loading_one next_loadIdx_def load_loop_def)

lemma load_again_below:
  assumes g: "loading g k i s" "\<not> needs_key resolve g" and k: "0 < k" "k + int n \<le> cf_fragLoadingLoopThreshold (config_of s)"
  shows "\<exists>g'. loading g' (k + int n) (i + int n) (load_again resolve now n g s) \<and> \<not> needs_key resolve g' \<and> fr_id g' = fr_id g \<and>
    loads (load_again resolve now n g s) = loads s + n \<and> config_of (load_again resolve now n g s) = config_of s \<and>
    (\<forall>m. load_again resolve now (n + m) g s = load_again resolve now m g' (load_again resolve now n g s))"
  using g k
proof (induction n arbitrary: g k i s)
  case (Suc n)
  define s1 where "s1 = loadFragmentOrKey resolve now g s"
  obtain g1 where g1: "loading g1 (k + 1) (i + 1) s1" "\<not> needs_key resolve g1" "fr_id g1 = fr_id g" "loads s1 = loads s + 1"
    "config_of s1 = config_of s"
    using next_load [OF Suc.prems(1-3), of now] Suc.prems(4) by (auto simp: s1_def)
  have step: "load_again resolve now (Suc m) g s = load_again resolve now m g1 s1" for m
    using g1(1) by (simp add: s1_def [symmetric] Let_def loading_def)
  obtain g2 where "loading g2 (k + 1 + int n) (i + 1 + int n) (load_again resolve now n g1 s1)" "\<not> needs_key resolve g2"
    "fr_id g2 = fr_id g1" "loads (load_again resolve now n g1 s1) = loads s1 + n"
    "config_of (load_again resolve now n g1 s1) = config_of s1"
    "\<forall>m. load_again resolve now (n + m) g1 s1 = load_again resolve now m g2 (load_again resolve now n g1 s1)"
    using Suc.IH [OF g1(1,2)] Suc.prems(3,4) g1(5) by auto
  then show ?case
    using g1 step by (intro exI [of _ g2]) (simp add: step ac_simps del: load_again.simps)
qed auto

text \<open>One more load is reported as a loop instead.\<close>

lemma load_at_threshold:
  assumes g: "loading g k i s" "\<not> needs_key resolve g" and k: "1 < k" "k = cf_fragLoadingLoopThreshold (config_of s)"
  shows "loads (loadFragmentOrKey resolve now g s) = loads s \<and>
    ReportError ''fragLoopLoadingError'' False \<in> set (sc_events (loadFragmentOrKey resolve now g s))"
proof -
  define g' where "g' = count_load g"
  define t where "t = put_frags [g'] (s\<lparr>sc_fragLoadIdx := Some (Some (i + 1))\<rparr>)"
  have t: "loadFragmentOrKey resolve now g s = player_onError now (loop_error g') t"
    using g k by (simp add: loadFragmentOrKey_def Let_def loading_def next_loadIdx_def load_loop_def g'_def [symmetric] t_def [symmetric])
      (simp add: g'_def count_load_def)
  have ev: "ReportError ''fragLoopLoadingError'' False \<in> set (sc_events (player_onError now (loop_error g') t))"
  proof -
    define u where "u = tell [ReportError ''fragLoopLoadingError'' False] t"
    obtain v d where v: "level_errors (loop_error g') u = (v, d)" by fastforce
    have ve: "set (sc_events u) \<subseteq> set (sc_events v)"
      using v by (auto simp: level_errors_def Let_def split: sum.splits)
    have "set (sc_events v) \<subseteq> set (sc_events w)" if "stream_onError now d v = Inr (w, d')" for w d'
      using that by (auto simp: stream_onError_def frag_load_failed_def frag_loop_failed_def level_load_failed_def buffer_full_def
        flushMainBuffer_def set_state_def reduceMaxBufferLength_def raise_loadIdx_def Let_def split: if_splits option.splits)
    then show ?thesis
      using v ve by (auto simp: player_onError_def loop_error_def u_def split: sum.split)
  qed
  show ?thesis using t ev by (simp add: t_def)
qed

end
