(* ===== verification/Stream_Props.thy ===== *)
theory Stream_Props
  imports Stream_Retry
begin

text \<open>Properties of the fragment scheduler, \<open>src/controller/stream-controller.js\<close>, with concrete instances.\<close>

subsection \<open>A playlist to try them on\<close>

definition vod_frag :: "nat \<Rightarrow> frag" where
  "vod_frag i = \<lparr>fr_type = ''main'', fr_sn = SN (int i), fr_level = 0, fr_cc = 0, fr_start = Some (10 * of_nat i),
     fr_duration = Some 10, fr_startPTS = None, fr_endPTS = None, fr_startDTS = None, fr_endDTS = None, fr_deltaPTS = None,
     fr_backtracked = None, fr_dropped = None, fr_title = None, fr_baseurl = '''', fr_relurl = None, fr_rawByteRange = None,
     fr_lastByteRangeEndOffset = None, fr_rawProgramDateTime = None, fr_levelkey = None, fr_tagList = [], fr_autoLevel = False,
     fr_bitrateTest = False, fr_loadCounter = None, fr_loadIdx = None, fr_loader = False, fr_key = None, fr_data = None, fr_id = i\<rparr>"

definition vod_details :: level_details where
  "vod_details = \<lparr>ld_type = None, ld_version = None, ld_url = '''', ld_fragments = map vod_frag [0..<3], ld_live = False,
     ld_startSN = 0, ld_endSN = 2, ld_startCC = 0, ld_endCC = 0, ld_totalduration = Some 30, ld_averagetargetduration = Some 10,
     ld_targetduration = Some 10, ld_startTimeOffset = None, ld_programDateTime = None, ld_initSegment = None, ld_PTSKnown = None\<rparr>"

definition vod_stream :: stream where
  "vod_stream = (new_StreamController hlsDefaultConfig)\<lparr>sc_fragPrevious := Some (vod_frag 0)\<rparr>"

definition load_error :: error_data where
  "load_error = \<lparr>ed_type = ''networkError'', ed_details = ''fragLoadError'', ed_fatal = False, ed_frag = Some (vod_frag 0),
     ed_contextLevel = None, ed_level = None, ed_parent = '''', ed_levelRetry = False\<rparr>"

definition failed_stream :: stream where
  "failed_stream = player_onError 0 load_error (new_StreamController hlsDefaultConfig)"

lemma three_frags: "map vod_frag [0..<3] = [vod_frag 0, vod_frag 1, vod_frag 2]"
  by (simp add: upt_rec numeral_2_eq_2)

lemma new_stream_simps [simp]:
  "config_of (new_StreamController config) = config" "sc_fragLoadError (new_StreamController config) = 0"
  "sc_fragLoadIdx (new_StreamController config) = None" "sc_state (new_StreamController config) = STOPPED"
  "loads (new_StreamController config) = 0" "levels_of (new_StreamController config) = None"
  "sc_loadedmetadata (new_StreamController config) = False"
  by (simp_all add: new_StreamController_def new_quality_def loads_def)

lemma failed_reachable: "stream_reachable resolve ua hlsDefaultConfig failed_stream"
  unfolding failed_stream_def by (rule stream_reachable.intros(2) [OF stream_reachable.intros(1) stream_step.failure])

lemma failed_stream_state: "sc_state failed_stream = FRAG_LOADING_WAITING_RETRY"
proof -
  define s where "s = tell [ReportError ''fragLoadError'' False] (new_StreamController hlsDefaultConfig)"
  have s: "sc_fragLoadError s = 0" "config_of s = hlsDefaultConfig" "sc_loadedmetadata s = False" by (simp_all add: s_def)
  have lv: "level_onError v load_error q = Inl TypeError" if "q_levels q = None" for v q
    using that by (simp add: level_onError_def error_level_def load_error_def)
  obtain t where t: "level_errors load_error s = (t, load_error)" "sc_fragLoadError t = 0" "config_of t = hlsDefaultConfig"
    "sc_loadedmetadata t = False"
    by (simp add: level_errors_def Let_def lv s) (simp add: s_def lv)
  have "stream_onError 0 load_error t = frag_load_failed 0 load_error (Some (vod_frag 0)) t"
    by (rule stream_onError_load) (simp_all add: load_error_def load_failures_def vod_frag_def)
  moreover have "\<exists>u. frag_load_failed 0 load_error (Some (vod_frag 0)) t = Inr (u, load_error) \<and> sc_state u = FRAG_LOADING_WAITING_RETRY"
    using frag_load_failed_retry [of load_error t 0 "vod_frag 0"] t by (auto simp: load_error_def hlsDefaultConfig_def)
  ultimately show ?thesis
    using t(1) by (auto simp: failed_stream_def player_onError_def s_def load_error_def)
qed

subsection \<open>The state machine\<close>

text \<open>
  C26. Whatever happens to the scheduler, in any order: while a fragment is loading, parsed or appended there is a
  current fragment and a demuxer; when data is parsed there are load statistics; when a retry is awaited there is a date
  for it; the failures in a row stay within the allowed retries; the position of the playback is only read from a media
  element that is attached; and no tick is left open.
\<close>

theorem scheduler_invariant:
  assumes "stream_reachable resolve ua config s"
  shows "(sc_state s \<in> {FRAG_LOADING, PARSING, PARSED} \<longrightarrow> sc_fragCurrent s \<noteq> None \<and> sc_demuxer s) \<and>
    (sc_state s \<in> {PARSING, PARSED} \<longrightarrow> sc_stats s \<noteq> None) \<and>
    (sc_state s = FRAG_LOADING_WAITING_RETRY \<longrightarrow> sc_retryDate s \<noteq> None) \<and>
    sc_fragLoadError s \<le> cf_fragLoadingMaxRetry (config_of s) \<and>
    (sc_loadedmetadata s \<longrightarrow> sc_media s \<noteq> None) \<and> sc_ticks s = 0"
  using stream_reachable_ok [OF assms] by (auto simp: idle_ok_def stream_ok_def loading_state_def)

theorem scheduler_invariant_witness: "sc_state failed_stream = FRAG_LOADING_WAITING_RETRY \<and> sc_retryDate failed_stream \<noteq> None"
  using scheduler_invariant [OF failed_reachable [of "\<lambda>base rel. rel" "''''"]] failed_stream_state by blast

text \<open>
  C27. A tick starts at most one load, only from the idle state, and exactly when it ends in the state of a load; in every
  other state it loads nothing, and the state stays or becomes idle.
\<close>

theorem tick_loads:
  assumes "stream_reachable resolve ua config s" and "stream_tick resolve now s = Inr s'"
  shows "if sc_state s = IDLE then loads s' = loads s + (if sc_state s' = FRAG_LOADING then 1 else 0)
    else loads s' = loads s \<and> (sc_state s' = sc_state s \<or> sc_state s' = IDLE)"
proof -
  have "sc_ticks s = 0" using stream_reachable_ok [OF assms(1)] by (simp add: idle_ok_def)
  then obtain t where t: "tick_state resolve now (s\<lparr>sc_ticks := 1\<rparr>) = Inr t" "sc_state s' = sc_state t" "loads s' = loads t"
    using stream_tick_doTick assms(2) by blast
  show ?thesis
  proof (cases "sc_state s = IDLE")
    case True
    then have "one_load (s\<lparr>sc_ticks := 1\<rparr>) t" using t(1) doTickIdle_one by (simp add: tick_state_def)
    then show ?thesis using True t by (auto simp: one_load_def)
  next
    case False
    then show ?thesis using tick_state_busy [OF _ t(1)] t by auto
  qed
qed

theorem tick_loads_witness: "\<exists>s'. stream_tick (\<lambda>base rel. rel) 2000 failed_stream = Inr s' \<and> loads s' = loads failed_stream"
proof -
  have "sc_ticks failed_stream = 0" using stream_reachable_ok [OF failed_reachable] by (simp add: idle_ok_def)
  then obtain s' where "stream_tick (\<lambda>base rel. rel) 2000 failed_stream = Inr s'"
    using failed_stream_state by (simp add: stream_tick_def doTick_def tick_state_def Let_def)
  then show ?thesis
    using tick_loads [OF failed_reachable [of "\<lambda>base rel. rel" "''''"]] failed_stream_state by simp
qed

text \<open>
  C28. A scheduler that waits for a retry does not wait for ever: from some time on every tick makes it idle again, and
  an idle scheduler goes on loading.
\<close>

theorem retry_resumes:
  assumes "stream_reachable resolve ua config s" and "sc_state s = FRAG_LOADING_WAITING_RETRY"
  shows "\<exists>t. \<forall>now \<ge> t. \<exists>s'. stream_tick resolve now s = Inr s' \<and> sc_state s' = IDLE"
proof -
  have ok: "idle_ok s" by (rule stream_reachable_ok [OF assms(1)])
  then obtain t where t: "sc_retryDate s = Some t" using assms(2) by (auto simp: idle_ok_def stream_ok_def)
  have "\<exists>s'. stream_tick resolve now s = Inr s' \<and> sc_state s' = IDLE" if "t \<le> now" for now
    using ok t that assms(2) by (auto simp: stream_tick_def doTick_def tick_state_def idle_ok_def num_le_def Let_def)
  then show ?thesis by blast
qed

theorem retry_resumes_witness: "\<exists>t. \<forall>now \<ge> t. \<exists>s'. stream_tick (\<lambda>base rel. rel) now failed_stream = Inr s' \<and> sc_state s' = IDLE"
  by (rule retry_resumes [OF failed_reachable [of _ "''''"] failed_stream_state])

subsection \<open>Retries and loops\<close>

text \<open>
  C29. A fragment or key that cannot be loaded is tried again as often as the options allow. The wait before each retry
  doubles, up to the longest one allowed, and the failure after the last retry is fatal and stops the scheduler.
\<close>

theorem load_retries:
  assumes "ed_details data \<in> load_failures" "ed_frag data = Some f" "fr_type f = ''main''" "\<not> ed_fatal data"
    and "sc_fragLoadError s = 0" "moments \<noteq> []"
  shows "\<exists>s'. if length moments \<le> cf_fragLoadingMaxRetry (config_of s)
    then repeat_error data moments s = Inr (s', False) \<and> sc_state s' = FRAG_LOADING_WAITING_RETRY \<and>
      sc_retryDate s' = Some (last moments + min (2 ^ (length moments - 1) * cf_fragLoadingRetryDelay (config_of s))
                                               (cf_fragLoadingMaxRetryTimeout (config_of s)))
    else repeat_error data moments s = Inr (s', True) \<and> sc_state s' = ERROR"
  using repeat_error_retries [OF assms(1-4), of s moments] repeat_error_gives_up [OF assms(1-4), of s moments] assms(5,6)
  by (cases "length moments \<le> cf_fragLoadingMaxRetry (config_of s)") (auto simp: retry_delay_def)

theorem load_retries_witness:
  "(\<exists>s'. repeat_error load_error [0, 1000, 3000] (new_StreamController hlsDefaultConfig) = Inr (s', False) \<and>
      sc_retryDate s' = Some 7000) \<and>
   (\<exists>s'. repeat_error load_error [0, 1, 2, 3, 4, 5, 6] (new_StreamController hlsDefaultConfig) = Inr (s', True) \<and>
      sc_state s' = ERROR)"
  using load_retries [of load_error "vod_frag 0" "new_StreamController hlsDefaultConfig" "[0, 1000, 3000]"]
    load_retries [of load_error "vod_frag 0" "new_StreamController hlsDefaultConfig" "[0, 1, 2, 3, 4, 5, 6]"]
  by (auto simp: load_error_def load_failures_def vod_frag_def hlsDefaultConfig_def)

text \<open>
  C30. A fragment whose data never helps is not loaded for ever: when nothing else is loaded in between it is loaded as
  often as the threshold of the options says, and the next attempt reports the loop instead of loading.
\<close>

theorem load_loop_detected:
  assumes "1 < cf_fragLoadingLoopThreshold (config_of s)" and "fr_loadCounter f = None \<or> fr_loadCounter f = Some 0"
    and "\<not> needs_key resolve f" and "next_loadIdx (sc_fragLoadIdx s) = Some i"
  shows "(\<forall>n \<le> nat (cf_fragLoadingLoopThreshold (config_of s)). loads (load_again resolve now n f s) = loads s + n) \<and>
    loads (load_again resolve now (Suc (nat (cf_fragLoadingLoopThreshold (config_of s)))) f s) =
      loads s + nat (cf_fragLoadingLoopThreshold (config_of s)) \<and>
    ReportError ''fragLoopLoadingError'' False \<in>
      set (sc_events (load_again resolve now (Suc (nat (cf_fragLoadingLoopThreshold (config_of s)))) f s))"
proof -
  define T where "T = nat (cf_fragLoadingLoopThreshold (config_of s))"
  have T: "1 < T" "int T = cf_fragLoadingLoopThreshold (config_of s)" using assms(1) by (simp_all add: T_def)
  define s1 where "s1 = loadFragmentOrKey resolve now f s"
  obtain g where g: "loading g 1 i s1" "\<not> needs_key resolve g" "loads s1 = loads s + 1" "config_of s1 = config_of s"
    using first_load [OF assms(2-4)] by (auto simp: s1_def)
  have step: "load_again resolve now (Suc m) f s = load_again resolve now m g s1" for m
    using g(1) by (simp add: s1_def [symmetric] Let_def loading_def)
  have below: "loads (load_again resolve now n f s) = loads s + n" if "n \<le> T" for n
  proof (cases n)
    case (Suc m)
    then show ?thesis using load_again_below [OF g(1,2), of m now] that T g(3,4) step [of m] by auto
  qed simp
  obtain h where h: "loading h (1 + int (T - 1)) (i + int (T - 1)) (load_again resolve now (T - 1) g s1)" "\<not> needs_key resolve h"
    "loads (load_again resolve now (T - 1) g s1) = loads s1 + (T - 1)" "config_of (load_again resolve now (T - 1) g s1) = config_of s1"
    "\<forall>m. load_again resolve now (T - 1 + m) g s1 = load_again resolve now m h (load_again resolve now (T - 1) g s1)"
    using load_again_below [OF g(1,2), of "T - 1" now] T g(4) by auto
  define s2 where "s2 = load_again resolve now (T - 1) g s1"
  have "load_again resolve now (Suc T) f s = load_again resolve now (T - 1 + 1) g s1" using step [of T] T by simp
  also have "\<dots> = load_again resolve now 1 h s2" using h(5) by (simp only: s2_def)
  also have "\<dots> = loadFragmentOrKey resolve now h s2" by (simp add: Let_def split: option.split)
  finally have "load_again resolve now (Suc T) f s = loadFragmentOrKey resolve now h s2" .
  moreover have "loads (loadFragmentOrKey resolve now h s2) = loads s2 \<and>
      ReportError ''fragLoopLoadingError'' False \<in> set (sc_events (loadFragmentOrKey resolve now h s2))"
    by (rule load_at_threshold [OF h(1,2) [folded s2_def]]) (use T h(4) g(4) in \<open>auto simp: s2_def\<close>)
  ultimately show ?thesis using below h(3) g(3) T by (simp add: s2_def T_def [symmetric])
qed

theorem load_loop_detected_witness:
  "loads (load_again (\<lambda>base rel. rel) 0 4 (vod_frag 0) (new_StreamController hlsDefaultConfig)) = 3"
  using load_loop_detected [of "new_StreamController hlsDefaultConfig" "vod_frag 0" "\<lambda>base rel. rel" 0 0]
  by (simp add: hlsDefaultConfig_def vod_frag_def next_loadIdx_def needs_key_def decryptdata_def fragmentDecryptdataFromLevelkey_def
    numeral_eq_Suc del: load_again.simps)

subsection \<open>The next fragment\<close>

text \<open>
  C31. In a playlist without gaps, whose fragments are not shorter than the lookup tolerance, the search of the scheduler
  finds the fragment that the end of the buffer lies in, up to the tolerance: whatever was loaded before, and the last
  fragment as well as the others.
\<close>

theorem fragment_at_buffer_end:
  assumes "contiguous (cf_maxFragLookUpTolerance config) fs" and "0 \<le> cf_maxFragLookUpTolerance config" and "i < length fs"
    and "frag_begin (fs ! i) - end_tolerance config fs be \<le> be" and "be < frag_end (fs ! i) - end_tolerance config fs be"
  shows "candidate_fragment config prev fs (Some be) (Some (frag_end (last fs))) = Some (fs ! i)"
  by (rule candidate_found) (use assms in auto)

theorem fragment_at_buffer_end_witness:
  "candidate_fragment hlsDefaultConfig None (map vod_frag [0..<3]) (Some (199 / 10)) (Some 30) = Some (vod_frag 2)"
proof -
  have fs: "map vod_frag [0..<3] = [vod_frag 0, vod_frag 1, vod_frag 2]" by (rule three_frags)
  show ?thesis
    using fragment_at_buffer_end [of hlsDefaultConfig "map vod_frag [0..<3]" 2 "199 / 10" None]
    by (simp add: fs contiguous_def frag_begin_def frag_end_def end_tolerance_def) (simp add: vod_frag_def hlsDefaultConfig_def)
qed

text \<open>
  C32. When a fragment of a recorded playlist has been buffered and the buffer ends anywhere from its start to the end of
  the next one, the next fragment is loaded: none is skipped and none is loaded twice, unless a keyframe has to be found.
\<close>

theorem next_fragment_loaded:
  assumes "contiguous (cf_maxFragLookUpTolerance (config_of s)) (ld_fragments d)" "0 \<le> cf_maxFragLookUpTolerance (config_of s)"
    and "numbered d" "\<not> ld_live d" "ld_initSegment d = None" "Suc n < length (ld_fragments d)"
    and "sc_fragPrevious s = Some prev" "sn_num prev = Some (ld_startSN d + int n)" "fr_level (ld_fragments d ! n) = fr_level prev"
    and "fr_backtracked (ld_fragments d ! n) \<noteq> Some True" "in_sync (config_of s) prev"
    and "frag_begin (ld_fragments d ! n) \<le> be" "be < frag_end (ld_fragments d ! Suc n) - cf_maxFragLookUpTolerance (config_of s)"
  shows "fetchPayloadOrEos resolve now (Some be) d s = Inr (loadFragmentOrKey resolve now (ld_fragments d ! Suc n) s)"
  by (rule fetch_next) (use assms in auto)

theorem next_fragment_loaded_witness:
  "fetchPayloadOrEos (\<lambda>base rel. rel) 0 (Some (97 / 10)) vod_details vod_stream =
     Inr (loadFragmentOrKey (\<lambda>base rel. rel) 0 (vod_frag 1) vod_stream)"
proof -
  have fs: "ld_fragments vod_details = [vod_frag 0, vod_frag 1, vod_frag 2]" by (simp add: vod_details_def three_frags)
  have d: "numbered vod_details" "\<not> ld_live vod_details" "ld_initSegment vod_details = None" "ld_startSN vod_details = 0"
    by (simp_all add: numbered_def vod_details_def vod_frag_def upt_rec)
  have c: "contiguous (cf_maxFragLookUpTolerance (config_of vod_stream)) (ld_fragments vod_details)"
    by (simp add: fs contiguous_def vod_frag_def vod_stream_def hlsDefaultConfig_def)
  show ?thesis
    using next_fragment_loaded [of vod_stream vod_details 0 "vod_frag 0" "97 / 10" "\<lambda>base rel. rel" 0] c d
    by (simp add: fs vod_stream_def frag_begin_def frag_end_def) (simp add: vod_frag_def hlsDefaultConfig_def in_sync_def sn_num_def)
qed

subsection \<open>The end of the stream\<close>






end
