(* ===== verification/Buffer_Controller.thy ===== *)
theory Buffer_Controller
  imports Stream_Parsing
begin

text \<open>
  The source buffers of the player: \<open>src/controller/buffer-controller.js\<close>. The media source extensions of the browser are
  the platform: whether a source buffer can be made for a type (\<open>supported\<close>), what an append says (\<open>accept\<close>) and whether
  a remove throws (\<open>removable\<close>) are arguments; an append or a remove makes the source buffer update until its event
  arrives. What the code calls there, and the events it triggers, are listed in \<open>bc_events\<close>; the listeners of an event
  act afterwards.
\<close>

subsection \<open>State\<close>

record segment =
  sg_type :: string
  sg_data :: bytes
  sg_parent :: string
  sg_init :: bool

text \<open>\<open>sb_attached\<close>: whether the buffer still belongs to the media source; if not, every access throws.\<close>

record source_buffer =
  sb_updating :: bool
  sb_ended :: bool
  sb_buffered :: "time_range list"
  sb_timestampOffset :: rat
  sb_attached :: bool

record media_source =
  ms_open :: bool
  ms_duration :: "rat js"

record buffer_media =
  bm_error :: bool
  bm_readyState :: nat
  bm_duration :: "rat js"

record flush_range =
  fl_start :: num
  fl_end :: "rat js"
  fl_type :: "string option"

datatype append_outcome = Accepted | QuotaExceeded | AppendFailed

datatype buffer_event =
    NewMediaSource
  | MediaAttached
  | MediaDetached
  | SourceBufferAdded string string \<comment> \<open>name, MIME type\<close>
  | SourceBufferRemoved string
  | BufferCreated "(string \<times> track_info) list"
  | Appended segment
  | Discarded segment
  | Removed string "rat js" "rat js"
  | AbortUpdate string
  | TimestampOffset rat
  | BufferAppended "string option" nat
  | BufferFlushed
  | EndOfStream
  | DurationSet "rat js"
  | BufferError string "string option" bool \<comment> \<open>details, parent, fatal\<close>

record buffers =
  bc_config :: hls_config
  bc_media :: "buffer_media option"
  bc_mediaSource :: "media_source option"
  bc_sourceBuffer :: "(string \<times> source_buffer) list option"
  bc_pendingTracks :: "(string \<times> track_info) list"
  bc_tracks :: "(string \<times> string option \<times> string) list" \<comment> \<open>codec and container\<close>
  bc_sourceBufferNb :: "nat option"
  bc_segments :: "segment list option"
  bc_flushRange :: "flush_range list option"
  bc_appended :: nat
  bc_flushBufferCounter :: nat
  bc_appendError :: nat
  bc_appending :: bool
  bc_parent :: "string option"
  bc_needsFlush :: bool
  bc_needsEos :: bool
  bc_audioTimestampOffset :: num
  bc_msDuration :: "rat js option" \<comment> \<open>\<open>None\<close> is \<open>null\<close>\<close>
  bc_levelDuration :: "num option"
  bc_events :: "buffer_event list"

definition new_BufferController :: "hls_config \<Rightarrow> buffers" where
  "new_BufferController config =
     \<lparr>bc_config = config, bc_media = None, bc_mediaSource = None, bc_sourceBuffer = None, bc_pendingTracks = [], bc_tracks = [],
      bc_sourceBufferNb = None, bc_segments = None, bc_flushRange = None, bc_appended = 0, bc_flushBufferCounter = 0,
      bc_appendError = 0, bc_appending = False, bc_parent = None, bc_needsFlush = False, bc_needsEos = False,
      bc_audioTimestampOffset = None, bc_msDuration = None, bc_levelDuration = None, bc_events = []\<rparr>"

definition logged :: "buffer_event list \<Rightarrow> buffers \<Rightarrow> buffers" where
  "logged es b = b\<lparr>bc_events := bc_events b @ es\<rparr>"

text \<open>Objects with a property per track, in the order in which the properties were made.\<close>

definition put_prop :: "string \<Rightarrow> 'a \<Rightarrow> (string \<times> 'a) list \<Rightarrow> (string \<times> 'a) list" where
  "put_prop k v kvs =
     (if map_of kvs k = None then kvs @ [(k, v)] else map (\<lambda>(k', v'). if k' = k then (k, v) else (k', v')) kvs)"

definition source_buffers :: "buffers \<Rightarrow> (string \<times> source_buffer) list" where
  "source_buffers b = (case bc_sourceBuffer b of None \<Rightarrow> [] | Some sbs \<Rightarrow> sbs)"

definition put_buffer :: "string \<Rightarrow> source_buffer \<Rightarrow> buffers \<Rightarrow> buffers" where
  "put_buffer ty sb b = b\<lparr>bc_sourceBuffer := map_option (put_prop ty sb) (bc_sourceBuffer b)\<rparr>"

subsection \<open>Duration and end of stream\<close>

definition longer :: "num \<Rightarrow> rat js \<Rightarrow> rat js \<Rightarrow> bool" where
  "longer levelDuration msDuration duration \<longleftrightarrow>
     (msDuration < js_of levelDuration \<and> duration < js_of levelDuration) \<or> duration = PosInf \<or> duration = NotNum"

definition updateMediaElementDuration :: "buffers \<Rightarrow> buffers" where
  "updateMediaElementDuration b =
     (case (bc_levelDuration b, bc_media b, bc_mediaSource b, bc_sourceBuffer b) of
        (Some levelDuration, Some m, Some ms, Some sbs) \<Rightarrow>
          if bm_readyState m = 0 \<or> \<not> ms_open ms \<or> list_ex (\<lambda>(_, sb). sb_updating sb) sbs then b
          else
            let msDuration = (case bc_msDuration b of None \<Rightarrow> ms_duration ms | Some d \<Rightarrow> d);
                b = b\<lparr>bc_msDuration := Some msDuration\<rparr>
            in if longer levelDuration msDuration (bm_duration m) then
                 logged [DurationSet (js_of levelDuration)]
                   (b\<lparr>bc_msDuration := Some (js_of levelDuration), bc_mediaSource := Some (ms\<lparr>ms_duration := js_of levelDuration\<rparr>)\<rparr>)
               else b
      | _ \<Rightarrow> b)"

definition onLevelUpdated :: "level_details \<Rightarrow> buffers \<Rightarrow> buffers" where
  "onLevelUpdated details b =
     (case ld_fragments details of
        [] \<Rightarrow> b
      | f # _ \<Rightarrow> updateMediaElementDuration (b\<lparr>bc_levelDuration := Some (num_add (ld_totalduration details) (fr_start f))\<rparr>))"

text \<open>The loop over the source buffers: the first one that is not ended, or that is updating, stops it.\<close>

fun eos_loop :: "(string \<times> source_buffer) list \<Rightarrow> bool option" where
  "eos_loop [] = Some False"
| "eos_loop ((ty, sb) # sbs) = (if \<not> sb_ended sb then None else if sb_updating sb then Some True else eos_loop sbs)"

definition checkEos :: "buffers \<Rightarrow> buffers" where
  "checkEos b =
     (case bc_mediaSource b of
        None \<Rightarrow> b\<lparr>bc_needsEos := False\<rparr>
      | Some ms \<Rightarrow>
          if \<not> ms_open ms then b\<lparr>bc_needsEos := False\<rparr>
          else case eos_loop (source_buffers b) of
            None \<Rightarrow> b
          | Some True \<Rightarrow> b\<lparr>bc_needsEos := True\<rparr>
          | Some False \<Rightarrow> logged [EndOfStream] (b\<lparr>bc_needsEos := False, bc_mediaSource := Some (ms\<lparr>ms_open := False\<rparr>)\<rparr>))"

definition onBufferEos :: "string option \<Rightarrow> buffers \<Rightarrow> buffers" where
  "onBufferEos dataType b =
     checkEos (b\<lparr>bc_sourceBuffer := map_option (map (\<lambda>(ty, sb).
       (ty, if dataType = None \<or> dataType = Some ty then sb\<lparr>sb_ended := True\<rparr> else sb))) (bc_sourceBuffer b)\<rparr>)"

subsection \<open>Flushing\<close>

definition flush_span :: "bool \<Rightarrow> num \<Rightarrow> rat js \<Rightarrow> time_range \<Rightarrow> rat js \<times> rat js" where
  "flush_span firefox startOffset endOffset r =
     (if firefox \<and> endOffset = PosInf then (js_of startOffset, endOffset)
      else (js_max (Num (rg_start r)) (js_of startOffset), js_min (Num (rg_end r)) endOffset))"

text \<open>Only more than half a second is flushed.\<close>

definition must_flush :: "bool \<Rightarrow> num \<Rightarrow> rat js \<Rightarrow> time_range \<Rightarrow> bool" where
  "must_flush firefox startOffset endOffset r =
     (case flush_span firefox startOffset endOffset r of
        (flushStart, flushEnd) \<Rightarrow> Num (1 / 2) < js_min flushEnd (Num (rg_end r)) - flushStart)"

fun flush_types ::
  "bool \<Rightarrow> (rat js \<Rightarrow> rat js \<Rightarrow> source_buffer \<Rightarrow> bool) \<Rightarrow> flush_range \<Rightarrow> (string \<times> source_buffer) list \<Rightarrow> buffers \<Rightarrow> bool \<times> buffers" where
  "flush_types firefox removable scope [] b = (True, b)"
| "flush_types firefox removable scope ((ty, sb) # sbs) b =
     (if fl_type scope \<noteq> None \<and> fl_type scope \<noteq> Some ty then flush_types firefox removable scope sbs b
      else
        let sb = sb\<lparr>sb_ended := False\<rparr>; b = put_buffer ty sb b in
        if sb_updating sb then (False, b)
        else if \<not> sb_attached sb then flush_types firefox removable scope sbs b
        else case find (must_flush firefox (fl_start scope) (fl_end scope)) (sb_buffered sb) of
          None \<Rightarrow> flush_types firefox removable scope sbs b
        | Some r \<Rightarrow>
            let (flushStart, flushEnd) = flush_span firefox (fl_start scope) (fl_end scope) r;
                b = b\<lparr>bc_flushBufferCounter := bc_flushBufferCounter b + 1\<rparr>
            in if removable flushStart flushEnd sb
               then (False, logged [Removed ty flushStart flushEnd] (put_buffer ty (sb\<lparr>sb_updating := True\<rparr>) b))
               else flush_types firefox removable scope sbs b)"

definition flushBuffer ::
  "bool \<Rightarrow> (rat js \<Rightarrow> rat js \<Rightarrow> source_buffer \<Rightarrow> bool) \<Rightarrow> flush_range \<Rightarrow> buffers \<Rightarrow> (bool \<times> buffers) result" where
  "flushBuffer firefox removable scope b =
     (if source_buffers b = [] then Inr (True, b)
      else if bc_media b = None then Inl TypeError
      else if bc_flushBufferCounter b < bc_appended b then Inr (flush_types firefox removable scope (source_buffers b) b)
      else Inr (True, b))"

text \<open>The sum breaks off at a buffer that was removed from the media source.\<close>

fun count_ranges :: "(string \<times> source_buffer) list \<Rightarrow> nat" where
  "count_ranges [] = 0"
| "count_ranges ((ty, sb) # sbs) = (if sb_attached sb then length (sb_buffered sb) + count_ranges sbs else 0)"

fun flush_loop ::
  "bool \<Rightarrow> (rat js \<Rightarrow> rat js \<Rightarrow> source_buffer \<Rightarrow> bool) \<Rightarrow> flush_range list \<Rightarrow> buffers \<Rightarrow> buffers result" where
  "flush_loop firefox removable [] b =
     Inr (logged [BufferFlushed] (b\<lparr>bc_flushRange := Some [], bc_needsFlush := False, bc_appended := count_ranges (source_buffers b)\<rparr>))"
| "flush_loop firefox removable (scope # scopes) b =
     (case flushBuffer firefox removable scope b of
        Inl err \<Rightarrow> Inl err
      | Inr (True, b) \<Rightarrow> flush_loop firefox removable scopes (b\<lparr>bc_flushBufferCounter := 0\<rparr>)
      | Inr (False, b) \<Rightarrow> Inr (b\<lparr>bc_flushRange := Some (scope # scopes), bc_needsFlush := True\<rparr>))"

definition doFlush :: "bool \<Rightarrow> (rat js \<Rightarrow> rat js \<Rightarrow> source_buffer \<Rightarrow> bool) \<Rightarrow> buffers \<Rightarrow> buffers result" where
  "doFlush firefox removable b = (case bc_flushRange b of None \<Rightarrow> Inl TypeError | Some scopes \<Rightarrow> flush_loop firefox removable scopes b)"

definition onBufferFlushing ::
  "bool \<Rightarrow> (rat js \<Rightarrow> rat js \<Rightarrow> source_buffer \<Rightarrow> bool) \<Rightarrow> flush_range \<Rightarrow> buffers \<Rightarrow> buffers result" where
  "onBufferFlushing firefox removable scope b =
     (case bc_flushRange b of
        None \<Rightarrow> Inl TypeError
      | Some scopes \<Rightarrow> doFlush firefox removable (b\<lparr>bc_flushRange := Some (scopes @ [scope]), bc_flushBufferCounter := 0\<rparr>))"

subsection \<open>Appending\<close>

text \<open>What \<open>onSBUpdateEnd\<close> does before it appends the next segment.\<close>

definition apply_offset :: "buffers \<Rightarrow> buffers result" where
  "apply_offset b =
     (if truthy (bc_audioTimestampOffset b) then
        case (map_of (source_buffers b) ''audio'', bc_audioTimestampOffset b) of
          (Some sb, Some t) \<Rightarrow>
            if sb_updating sb \<or> \<not> sb_attached sb then Inl (JsError ''InvalidStateError'') else
            Inr (logged [TimestampOffset t] ((put_buffer ''audio'' (sb\<lparr>sb_timestampOffset := t\<rparr>) b)\<lparr>bc_audioTimestampOffset := None\<rparr>))
        | _ \<Rightarrow> Inl TypeError
      else Inr b)"

definition pending_segments :: "buffers \<Rightarrow> nat" where
  "pending_segments b = length (filter (\<lambda>s. Some (sg_parent s) = bc_parent b) (case bc_segments b of None \<Rightarrow> [] | Some ss \<Rightarrow> ss))"

definition update_ended :: "bool \<Rightarrow> (rat js \<Rightarrow> rat js \<Rightarrow> source_buffer \<Rightarrow> bool) \<Rightarrow> buffers \<Rightarrow> buffers result" where
  "update_ended firefox removable b =
     (case apply_offset b of
        Inl err \<Rightarrow> Inl err
      | Inr b \<Rightarrow>
          (case (if bc_needsFlush b then doFlush firefox removable b else Inr b) of
             Inl err \<Rightarrow> Inl err
           | Inr b \<Rightarrow>
               let b = (if bc_needsEos b then checkEos b else b)\<lparr>bc_appending := False\<rparr>
               in if bc_segments b = None then Inl TypeError
                  else Inr (logged [BufferAppended (bc_parent b) (pending_segments b)] b)))"

definition append_error :: "segment \<Rightarrow> segment list \<Rightarrow> bool \<Rightarrow> buffers \<Rightarrow> buffers" where
  "append_error segment segments quota b =
     (if quota then logged [BufferError ''bufferFullError'' (Some (sg_parent segment)) False] (b\<lparr>bc_segments := Some []\<rparr>)
      else
        let b = b\<lparr>bc_segments := Some (segment # segments), bc_appendError := bc_appendError b + 1\<rparr>
        in logged [BufferError ''bufferAppendError'' (Some (sg_parent segment))
                  (cf_appendErrorMaxRetry (bc_config b) < bc_appendError b)] b)"

definition append_segment :: "(segment \<Rightarrow> source_buffer \<Rightarrow> append_outcome) \<Rightarrow> segment \<Rightarrow> segment list \<Rightarrow> source_buffer \<Rightarrow> buffers \<Rightarrow> buffers" where
  "append_segment accept segment segments sb b =
     (if sb_updating sb then b
      else
        let sb = sb\<lparr>sb_ended := False\<rparr>; b = (put_buffer (sg_type segment) sb b)\<lparr>bc_parent := Some (sg_parent segment)\<rparr>
        in case (if sb_attached sb then accept segment sb else AppendFailed) of
             Accepted \<Rightarrow>
               logged [Appended segment]
                 ((put_buffer (sg_type segment) (sb\<lparr>sb_updating := True\<rparr>) b)
                    \<lparr>bc_segments := Some segments, bc_appendError := 0, bc_appended := bc_appended b + 1, bc_appending := True\<rparr>)
           | QuotaExceeded \<Rightarrow> append_error segment segments True b
           | AppendFailed \<Rightarrow> append_error segment segments False b)"

lemma update_ended_segments: "update_ended firefox removable b = Inr b' \<Longrightarrow> bc_segments b' = bc_segments b"
proof -
  have put: "bc_segments (put_buffer ty sb b) = bc_segments b" for ty sb b by (simp add: put_buffer_def)
  have ft: "bc_segments (snd (flush_types firefox removable scope sbs b)) = bc_segments b" for scope sbs b
    by (induction firefox removable scope sbs b rule: flush_types.induct) (auto simp: Let_def put logged_def split: option.split prod.split)
  have fb: "bc_segments b' = bc_segments b" if "flushBuffer firefox removable scope b = Inr (r, b')" for scope b b' r
    using that ft [of scope "source_buffers b" b] by (auto simp: flushBuffer_def split: if_splits)
  have fl: "bc_segments b' = bc_segments b" if "flush_loop firefox removable rs b = Inr b'" for rs b b'
    using that by (induction rs arbitrary: b) (auto simp: logged_def split: sum.splits bool.splits dest!: fb)
  have eos: "bc_segments (checkEos b) = bc_segments b" for b
    by (simp add: checkEos_def logged_def split: option.split bool.split)
  show "update_ended firefox removable b = Inr b' \<Longrightarrow> bc_segments b' = bc_segments b"
    by (auto simp: update_ended_def apply_offset_def doFlush_def logged_def put eos Let_def split: sum.splits option.splits if_splits dest!: fl)
qed

text \<open>
  The first segment of the queue is appended; one without a source buffer is dropped, as if its update had ended, which
  appends the next one. What is thrown there is caught like the failure of an append; only the timestamp offset can
  throw, before anything is changed: a flush that is needed has its ranges, and the media is there.
\<close>

function doAppending ::
  "bool \<Rightarrow> (rat js \<Rightarrow> rat js \<Rightarrow> source_buffer \<Rightarrow> bool) \<Rightarrow> (segment \<Rightarrow> source_buffer \<Rightarrow> append_outcome) \<Rightarrow> buffers \<Rightarrow> buffers result" where
  "doAppending firefox removable accept b =
     (if source_buffers b = [] then Inr b
      else case bc_media b of
        None \<Rightarrow> Inl TypeError
      | Some m \<Rightarrow>
          if bm_error m then Inr (b\<lparr>bc_segments := Some []\<rparr>)
          else if bc_appending b then Inr b
          else case bc_segments b of
            Some (segment # segments) \<Rightarrow>
              (case map_of (source_buffers b) (sg_type segment) of
                 Some sb \<Rightarrow> Inr (append_segment accept segment segments sb b)
               | None \<Rightarrow>
                   (case update_ended firefox removable (logged [Discarded segment] (b\<lparr>bc_segments := Some segments\<rparr>)) of
                      Inl err \<Rightarrow> Inr (append_error segment segments False b)
                    | Inr b \<Rightarrow>
                        map_sum id updateMediaElementDuration (if bc_needsFlush b then Inr b else doAppending firefox removable accept b)))
          | _ \<Rightarrow> Inr b)"
  by pat_completeness auto
termination
  by (relation "measure (\<lambda>(f, r, a, b). case bc_segments b of None \<Rightarrow> 0 | Some ss \<Rightarrow> length ss)")
    (auto dest!: update_ended_segments simp: logged_def)

declare doAppending.simps [simp del]

definition onSBUpdateEnd ::
  "bool \<Rightarrow> (rat js \<Rightarrow> rat js \<Rightarrow> source_buffer \<Rightarrow> bool) \<Rightarrow> (segment \<Rightarrow> source_buffer \<Rightarrow> append_outcome) \<Rightarrow> buffers \<Rightarrow> buffers result" where
  "onSBUpdateEnd firefox removable accept b =
     (case update_ended firefox removable b of
        Inl err \<Rightarrow> Inl err
      | Inr b \<Rightarrow> map_sum id updateMediaElementDuration (if bc_needsFlush b then Inr b else doAppending firefox removable accept b))"

definition onBufferAppending ::
  "bool \<Rightarrow> (rat js \<Rightarrow> rat js \<Rightarrow> source_buffer \<Rightarrow> bool) \<Rightarrow> (segment \<Rightarrow> source_buffer \<Rightarrow> append_outcome) \<Rightarrow> segment \<Rightarrow> buffers \<Rightarrow> buffers result" where
  "onBufferAppending firefox removable accept data b =
     (if bc_needsFlush b then Inr b
      else doAppending firefox removable accept
             (b\<lparr>bc_segments := Some ((case bc_segments b of None \<Rightarrow> [] | Some ss \<Rightarrow> ss) @ [data])\<rparr>))"

definition onBufferAppendFail :: "buffers \<Rightarrow> buffers" where
  "onBufferAppendFail b = logged [BufferError ''bufferAppendingError'' None False] b"

definition onSBUpdateError :: "buffers \<Rightarrow> buffers" where
  "onSBUpdateError b = logged [BufferError ''bufferAppendingError'' None False] b"

subsection \<open>Media source and tracks\<close>

definition create_buffer :: "(string \<Rightarrow> bool) \<Rightarrow> string \<times> track_info \<Rightarrow> buffers \<Rightarrow> buffers" where
  "create_buffer supported = (\<lambda>(trackName, track) b.
     if map_of (source_buffers b) trackName \<noteq> None then b
     else
       let codec = or_str (tk_levelCodec track) (tk_codec track);
           mimeType = tk_container track @ '';codecs='' @ (case codec of Some c \<Rightarrow> c | None \<Rightarrow> ''undefined'')
       in if bc_mediaSource b \<noteq> None \<and> supported mimeType then
            logged [SourceBufferAdded trackName mimeType]
              ((put_buffer trackName \<lparr>sb_updating = False, sb_ended = False, sb_buffered = [], sb_timestampOffset = 0, sb_attached = True\<rparr> b)
                 \<lparr>bc_tracks := put_prop trackName (codec, tk_container track) (bc_tracks b)\<rparr>)
          else logged [BufferError ''bufferAddCodecError'' None False] b)"

definition createSourceBuffers :: "(string \<Rightarrow> bool) \<Rightarrow> (string \<times> track_info) list \<Rightarrow> buffers \<Rightarrow> buffers" where
  "createSourceBuffers supported tracks b = logged [BufferCreated tracks] (fold (create_buffer supported) tracks b)"

definition checkPendingTracks ::
  "bool \<Rightarrow> (rat js \<Rightarrow> rat js \<Rightarrow> source_buffer \<Rightarrow> bool) \<Rightarrow> (segment \<Rightarrow> source_buffer \<Rightarrow> append_outcome) \<Rightarrow> (string \<Rightarrow> bool) \<Rightarrow>
     buffers \<Rightarrow> buffers result" where
  "checkPendingTracks firefox removable accept supported b =
     (let pendingTracks = bc_pendingTracks b in
      if pendingTracks \<noteq> [] \<and> (case bc_sourceBufferNb b of Some n \<Rightarrow> n \<le> length pendingTracks \<or> n = 0 | None \<Rightarrow> False) then
        if bc_sourceBuffer b = None then Inl TypeError
        else doAppending firefox removable accept ((createSourceBuffers supported pendingTracks b)\<lparr>bc_pendingTracks := []\<rparr>)
      else Inr b)"

definition onBufferCodecs ::
  "bool \<Rightarrow> (rat js \<Rightarrow> rat js \<Rightarrow> source_buffer \<Rightarrow> bool) \<Rightarrow> (segment \<Rightarrow> source_buffer \<Rightarrow> append_outcome) \<Rightarrow> (string \<Rightarrow> bool) \<Rightarrow>
     (string \<times> track_info) list \<Rightarrow> buffers \<Rightarrow> buffers result" where
  "onBufferCodecs firefox removable accept supported tracks b =
     (case bc_sourceBuffer b of
        None \<Rightarrow> Inl TypeError
      | Some [] \<Rightarrow>
          (let b = b\<lparr>bc_pendingTracks := fold (\<lambda>(k, t). put_prop k t) tracks (bc_pendingTracks b)\<rparr>
           in if (case bc_mediaSource b of Some ms \<Rightarrow> ms_open ms | None \<Rightarrow> False)
              then checkPendingTracks firefox removable accept supported b else Inr b)
      | Some _ \<Rightarrow> Inr b)"

definition buffer_onManifestParsed :: "bool \<Rightarrow> bool \<Rightarrow> bool \<Rightarrow> nat \<Rightarrow> buffers \<Rightarrow> buffers" where
  "buffer_onManifestParsed audio video altAudio levels b =
     (let videoExpected = (video \<or> levels \<noteq> 0 \<and> audio)
      in b\<lparr>bc_sourceBufferNb := Some (if altAudio \<and> (audio \<or> videoExpected) then (if audio then 1 else 0) + (if videoExpected then 1 else 0) else 0)\<rparr>)"

definition buffer_onMediaAttaching :: "buffer_media option \<Rightarrow> buffers \<Rightarrow> buffers" where
  "buffer_onMediaAttaching media b =
     (let b = b\<lparr>bc_media := media\<rparr>
      in if media \<noteq> None then logged [NewMediaSource] (b\<lparr>bc_mediaSource := Some \<lparr>ms_open = False, ms_duration = NotNum\<rparr>\<rparr>) else b)"

definition buffer_onMediaDetaching :: "buffers \<Rightarrow> buffers" where
  "buffer_onMediaDetaching b =
     (let b = (case bc_mediaSource b of
            None \<Rightarrow> b
          | Some ms \<Rightarrow>
              (if ms_open ms then logged [EndOfStream] b else b)
                \<lparr>bc_mediaSource := None, bc_media := None, bc_pendingTracks := [], bc_tracks := [], bc_sourceBuffer := Some [],
                 bc_flushRange := Some [], bc_segments := Some [], bc_appended := 0\<rparr>)
      in logged [MediaDetached] b)"

definition onMediaSourceOpen ::
  "bool \<Rightarrow> (rat js \<Rightarrow> rat js \<Rightarrow> source_buffer \<Rightarrow> bool) \<Rightarrow> (segment \<Rightarrow> source_buffer \<Rightarrow> append_outcome) \<Rightarrow> (string \<Rightarrow> bool) \<Rightarrow>
     buffers \<Rightarrow> buffers result" where
  "onMediaSourceOpen firefox removable accept supported b = checkPendingTracks firefox removable accept supported (logged [MediaAttached] b)"

definition removed_buffers :: "buffers \<Rightarrow> buffer_event list" where
  "removed_buffers b =
     (if bc_mediaSource b = None then []
      else map (\<lambda>(ty, sb). SourceBufferRemoved ty) (filter (\<lambda>(ty, sb). sb_attached sb) (source_buffers b)))"

definition onBufferReset :: "buffers \<Rightarrow> buffers" where
  "onBufferReset b =
     (logged (removed_buffers b) b)
       \<lparr>bc_sourceBuffer := Some [], bc_flushRange := Some [], bc_segments := Some [], bc_appended := 0\<rparr>"

text \<open>MPEG audio: the offset is moved to the time of the playlist, when they differ by more than a tenth of a second.\<close>

definition move_offset :: "bool \<Rightarrow> rat \<Rightarrow> source_buffer \<Rightarrow> buffers \<Rightarrow> buffers" where
  "move_offset abortable start audioBuffer b =
     (let updating = (sb_updating audioBuffer \<or> \<not> abortable);
          audioBuffer = (if abortable then audioBuffer\<lparr>sb_updating := False\<rparr> else audioBuffer);
          b = (if abortable then logged [AbortUpdate ''audio''] (put_buffer ''audio'' audioBuffer b) else b)
      in if \<not> updating then logged [TimestampOffset start] (put_buffer ''audio'' (audioBuffer\<lparr>sb_timestampOffset := start\<rparr>) b)
         else b\<lparr>bc_audioTimestampOffset := Some start\<rparr>)"

definition onLevelPtsUpdated :: "bool \<Rightarrow> string \<Rightarrow> num \<Rightarrow> buffers \<Rightarrow> buffers result" where
  "onLevelPtsUpdated abortable ty start b =
     (case map_of (bc_tracks b) ''audio'' of
        Some (codec, container) \<Rightarrow>
          if ty = ''audio'' \<and> container = ''audio/mpeg'' then
            case map_of (source_buffers b) ''audio'' of
              None \<Rightarrow> Inl TypeError
            | Some audioBuffer \<Rightarrow>
                (case start of
                   Some t \<Rightarrow> Inr (if \<bar>sb_timestampOffset audioBuffer - t\<bar> > 1 / 10 then move_offset abortable t audioBuffer b else b)
                 | None \<Rightarrow> Inr b)
          else Inr b
      | None \<Rightarrow> Inr b)"

end
