(* ===== verification/Buffer_Laws.thy ===== *)
theory Buffer_Laws
  imports Buffer_Controller "HOL-Library.Sublist"
begin

text \<open>
  Properties of the source buffers, \<open>src/controller/buffer-controller.js\<close>: the queue of segments, flushes and failed
  appends.
\<close>

subsection \<open>The queue\<close>

definition queue :: "buffers \<Rightarrow> segment list" where
  "queue b = (case bc_segments b of None \<Rightarrow> [] | Some ss \<Rightarrow> ss)"

text \<open>The segments that were appended, or dropped for want of a source buffer, in this order.\<close>

fun handled_segment :: "buffer_event \<Rightarrow> segment list" where
  "handled_segment (Appended s) = [s]"
| "handled_segment (Discarded s) = [s]"
| "handled_segment _ = []"

definition handled :: "buffers \<Rightarrow> segment list" where
  "handled b = concat (map handled_segment (bc_events b))"

lemma handled_logged [simp]: "handled (logged es b) = handled b @ concat (map handled_segment es)" "queue (logged es b) = queue b"
  by (simp_all add: handled_def logged_def queue_def)

lemma handled_fields [simp]:
  "handled (b\<lparr>bc_segments := ss\<rparr>) = handled b" "handled (b\<lparr>bc_flushBufferCounter := n\<rparr>) = handled b"
  "handled (b\<lparr>bc_flushRange := fr\<rparr>) = handled b" "handled (b\<lparr>bc_needsFlush := f\<rparr>) = handled b" "handled (b\<lparr>bc_appended := n\<rparr>) = handled b"
  "handled (b\<lparr>bc_needsEos := f\<rparr>) = handled b" "handled (b\<lparr>bc_mediaSource := ms\<rparr>) = handled b" "handled (b\<lparr>bc_appending := f\<rparr>) = handled b"
  "handled (b\<lparr>bc_audioTimestampOffset := t\<rparr>) = handled b" "handled (b\<lparr>bc_appendError := n\<rparr>) = handled b"
  "handled (b\<lparr>bc_parent := p\<rparr>) = handled b" "handled (b\<lparr>bc_msDuration := d\<rparr>) = handled b" "handled (b\<lparr>bc_sourceBuffer := sbs\<rparr>) = handled b"
  "handled (b\<lparr>bc_tracks := ts\<rparr>) = handled b" "handled (b\<lparr>bc_pendingTracks := ps\<rparr>) = handled b" "handled (b\<lparr>bc_levelDuration := l\<rparr>) = handled b"
  "handled (b\<lparr>bc_media := m\<rparr>) = handled b" "handled (b\<lparr>bc_sourceBufferNb := k\<rparr>) = handled b"
  by (simp_all add: handled_def)

lemma queue_fields [simp]:
  "queue (b\<lparr>bc_flushBufferCounter := n\<rparr>) = queue b" "queue (b\<lparr>bc_segments := Some ss\<rparr>) = ss"
  "queue (b\<lparr>bc_flushRange := fr\<rparr>) = queue b" "queue (b\<lparr>bc_needsFlush := f\<rparr>) = queue b" "queue (b\<lparr>bc_appended := n\<rparr>) = queue b"
  "queue (b\<lparr>bc_needsEos := f\<rparr>) = queue b" "queue (b\<lparr>bc_mediaSource := ms\<rparr>) = queue b" "queue (b\<lparr>bc_appending := f\<rparr>) = queue b"
  "queue (b\<lparr>bc_audioTimestampOffset := t\<rparr>) = queue b" "queue (b\<lparr>bc_appendError := n\<rparr>) = queue b"
  "queue (b\<lparr>bc_parent := p\<rparr>) = queue b" "queue (b\<lparr>bc_msDuration := d\<rparr>) = queue b" "queue (b\<lparr>bc_sourceBuffer := sbs\<rparr>) = queue b"
  "queue (b\<lparr>bc_tracks := ts\<rparr>) = queue b" "queue (b\<lparr>bc_pendingTracks := ps\<rparr>) = queue b" "queue (b\<lparr>bc_levelDuration := l\<rparr>) = queue b"
  "queue (b\<lparr>bc_media := m\<rparr>) = queue b" "queue (b\<lparr>bc_sourceBufferNb := k\<rparr>) = queue b"
  by (simp_all add: queue_def)

lemma put_buffer_same [simp]: "handled (put_buffer ty sb b) = handled b" "queue (put_buffer ty sb b) = queue b"
  by (simp_all add: put_buffer_def)

text \<open>An operation that neither appends nor drops.\<close>

definition same_queue :: "buffers \<Rightarrow> buffers \<Rightarrow> bool" where
  "same_queue b b' \<longleftrightarrow> handled b' = handled b \<and> queue b' = queue b"

lemma same_queue_refl [simp]: "same_queue b b"
  by (simp add: same_queue_def)

lemma same_queue_trans: "same_queue b b' \<Longrightarrow> same_queue b' b'' \<Longrightarrow> same_queue b b''"
  by (simp add: same_queue_def)

lemma flush_types_queue: "same_queue b (snd (flush_types firefox removable scope sbs b))"
  unfolding same_queue_def
  by (induction firefox removable scope sbs b rule: flush_types.induct) (auto simp: Let_def split: option.split prod.split)

lemma flushBuffer_queue: "flushBuffer firefox removable scope b = Inr (r, b') \<Longrightarrow> same_queue b b'"
  using flush_types_queue [of b firefox removable scope "source_buffers b"] by (auto simp: flushBuffer_def split: if_splits)

lemma flush_loop_queue: "flush_loop firefox removable scopes b = Inr b' \<Longrightarrow> same_queue b b'"
proof (induction scopes arbitrary: b)
  case (Cons scope scopes)
  then obtain r c where c: "flushBuffer firefox removable scope b = Inr (r, c)" by (auto split: sum.splits)
  have "same_queue b c" by (rule flushBuffer_queue [OF c])
  then show ?case using Cons c by (cases r) (auto simp: same_queue_def)
qed (auto simp: same_queue_def)

lemma doFlush_queue: "doFlush firefox removable b = Inr b' \<Longrightarrow> same_queue b b'"
  by (auto simp: doFlush_def flush_loop_queue split: option.splits)

lemma checkEos_queue [simp]: "same_queue b (checkEos b)"
  by (simp add: checkEos_def same_queue_def split: option.split bool.split)

lemma duration_queue [simp]: "same_queue b (updateMediaElementDuration b)"
  by (simp add: updateMediaElementDuration_def same_queue_def Let_def split: option.split)

lemma update_ended_queue: "update_ended firefox removable b = Inr b' \<Longrightarrow> same_queue b b'"
proof -
  assume *: "update_ended firefox removable b = Inr b'"
  then obtain c where c: "apply_offset b = Inr c" by (auto simp: update_ended_def split: sum.splits)
  have 1: "same_queue b c" using c by (auto simp: apply_offset_def same_queue_def split: if_splits option.splits)
  obtain d where d: "(if bc_needsFlush c then doFlush firefox removable c else Inr c) = Inr d"
    using * c by (auto simp: update_ended_def split: sum.splits)
  have 2: "same_queue c d" using d doFlush_queue [of firefox removable c d] by (auto split: if_splits)
  have 3: "same_queue d (logged [BufferAppended p n] ((if bc_needsEos d then checkEos d else d)\<lparr>bc_appending := False\<rparr>))" for p n
    using checkEos_queue [of d] by (simp add: same_queue_def)
  have "\<exists>p n. b' = logged [BufferAppended p n] ((if bc_needsEos d then checkEos d else d)\<lparr>bc_appending := False\<rparr>)"
    using * c d by (auto simp: update_ended_def Let_def split: if_splits)
  then show ?thesis using 1 2 3 same_queue_trans by blast
qed

text \<open>Appending: the handled segments and the queue stay the same list, unless the queue is emptied after an error.\<close>

definition queue_step :: "buffers \<Rightarrow> buffers \<Rightarrow> bool" where
  "queue_step b b' \<longleftrightarrow>
     handled b' @ queue b' = handled b @ queue b \<or> queue b' = [] \<and> (\<exists>ss. prefix ss (queue b) \<and> handled b' = handled b @ ss)"

lemma queue_step_same: "same_queue b b' \<Longrightarrow> queue_step b b'"
  by (simp add: queue_step_def same_queue_def)

lemma append_segment_queue: "queue b = s # ss \<Longrightarrow> queue_step b (append_segment accept s ss sb b)"
  by (auto simp: append_segment_def append_error_def queue_step_def Let_def split: append_outcome.split)

lemma queue_step_after:
  assumes "handled c = handled b @ [s]" "queue b = s # queue c" "queue_step c d"
  shows "queue_step b d"
  using assms(3) unfolding queue_step_def assms(1,2)
  by (metis (no_types, lifting) Cons_prefix_Cons append.assoc append_Cons append_Nil)

lemma doAppending_queue: "doAppending firefox removable accept b = Inr b' \<Longrightarrow> queue_step b b'"
proof (induction firefox removable accept b arbitrary: b' rule: doAppending.induct)
  case (1 firefox removable accept b)
  show ?case
  proof (cases "source_buffers b = [] \<or> bc_media b = None")
    case True
    then have "b' = b" using "1.prems" by (subst (asm) doAppending.simps) (auto split: if_splits)
    then show ?thesis by (simp add: queue_step_def)
  next
    case False
    then obtain m where sb: "source_buffers b \<noteq> []" and m: "bc_media b = Some m" by auto
    show ?thesis
    proof (cases "bm_error m \<or> bc_appending b \<or> queue b = []")
      case True
      then show ?thesis
        using "1.prems" sb m by (subst (asm) doAppending.simps) (auto simp: queue_step_def queue_def split: if_splits option.splits)
    next
      case False
      then obtain s ss where q: "bc_segments b = Some (s # ss)" and f: "\<not> bm_error m" "\<not> bc_appending b"
        by (auto simp: queue_def split: option.splits) (metis neq_Nil_conv)
      have qb: "queue b = s # ss" using q by (simp add: queue_def)
      show ?thesis
      proof (cases "map_of (source_buffers b) (sg_type s)")
        case (Some buf)
        then have "b' = append_segment accept s ss buf b"
          using "1.prems" sb m q f by (subst (asm) doAppending.simps) simp
        then show ?thesis using append_segment_queue [OF qb] by simp
      next
        case None
        show ?thesis
        proof (cases "update_ended firefox removable (logged [Discarded s] (b\<lparr>bc_segments := Some ss\<rparr>))")
          case (Inl err)
          then have "b' = append_error s ss False b"
            using "1.prems" sb m q f None by (subst (asm) doAppending.simps) simp
          then show ?thesis by (simp add: queue_step_def append_error_def Let_def qb)
        next
          case c: (Inr c)
          have same: "handled c = handled b @ [s]" "queue c = ss"
            using update_ended_queue [OF c] by (simp_all add: same_queue_def)
          have dec: "b' = updateMediaElementDuration c \<or>
              (\<exists>d. doAppending firefox removable accept c = Inr d \<and> \<not> bc_needsFlush c \<and> b' = updateMediaElementDuration d)"
            using "1.prems" sb m q f None c
            by (subst (asm) doAppending.simps) (cases "doAppending firefox removable accept c"; auto split: if_splits)
          have "\<exists>d. queue_step c d \<and> same_queue d b'"
            using dec
          proof (elim disjE exE conjE)
            assume "b' = updateMediaElementDuration c"
            then show ?thesis by (intro exI [of _ c]) (simp add: queue_step_def)
        next
            fix d assume "doAppending firefox removable accept c = Inr d" "\<not> bc_needsFlush c" "b' = updateMediaElementDuration d"
            then show ?thesis using "1.IH" [OF sb m f q refl None c] by (intro exI [of _ d]) simp
          qed
          then have "queue_step c b'" by (auto simp: queue_step_def same_queue_def)
          then show ?thesis using queue_step_after [of c b s b'] same qb by simp
        qed
      qed
    qed
  qed
qed


subsection \<open>Everything that can happen\<close>

text \<open>
  What the browser may do by itself: source buffers finish their update or are removed, ranges are evicted, the media source
  opens and closes, the media element changes.
\<close>

definition platform_step :: "buffers \<Rightarrow> buffers \<Rightarrow> bool" where
  "platform_step b b' \<longleftrightarrow>
     (\<exists>m ms sbs. b' = b\<lparr>bc_media := m, bc_mediaSource := ms, bc_sourceBuffer := sbs\<rparr> \<and>
        map_option (map fst) sbs = map_option (map fst) (bc_sourceBuffer b))"

text \<open>
  \<open>arrived\<close>: the segments that were given to the controller outside a flush, in their order. What the browser answers may
  differ from step to step.
\<close>

inductive buffer_run ::
  "bool \<Rightarrow> hls_config \<Rightarrow> segment list \<Rightarrow> buffers \<Rightarrow> bool" for firefox config where
  run_new: "buffer_run firefox config [] (new_BufferController config)"
| run_platform: "buffer_run firefox config arrived b \<Longrightarrow> platform_step b b' \<Longrightarrow>
    buffer_run firefox config arrived b'"
| run_appending: "buffer_run firefox config arrived b \<Longrightarrow>
    onBufferAppending firefox removable accept s b = Inr b' \<Longrightarrow>
    buffer_run firefox config (if bc_needsFlush b then arrived else arrived @ [s]) b'"
| run_updateEnd: "buffer_run firefox config arrived b \<Longrightarrow> onSBUpdateEnd firefox removable accept b = Inr b' \<Longrightarrow>
    buffer_run firefox config arrived b'"
| run_updateError: "buffer_run firefox config arrived b \<Longrightarrow>
    buffer_run firefox config arrived (onSBUpdateError b)"
| run_codecs: "buffer_run firefox config arrived b \<Longrightarrow>
    onBufferCodecs firefox removable accept supported ts b = Inr b' \<Longrightarrow> buffer_run firefox config arrived b'"
| run_open: "buffer_run firefox config arrived b \<Longrightarrow>
    onMediaSourceOpen firefox removable accept supported b = Inr b' \<Longrightarrow> buffer_run firefox config arrived b'"
| run_flushing: "buffer_run firefox config arrived b \<Longrightarrow>
    onBufferFlushing firefox removable scope b = Inr b' \<Longrightarrow> buffer_run firefox config arrived b'"
| run_eos: "buffer_run firefox config arrived b \<Longrightarrow>
    buffer_run firefox config arrived (onBufferEos ty b)"
| run_updated: "buffer_run firefox config arrived b \<Longrightarrow>
    buffer_run firefox config arrived (onLevelUpdated d b)"
| run_pts: "buffer_run firefox config arrived b \<Longrightarrow> onLevelPtsUpdated x ty t b = Inr b' \<Longrightarrow>
    buffer_run firefox config arrived b'"
| run_manifest: "buffer_run firefox config arrived b \<Longrightarrow>
    buffer_run firefox config arrived (buffer_onManifestParsed a v alt n b)"
| run_attaching: "buffer_run firefox config arrived b \<Longrightarrow>
    buffer_run firefox config arrived (buffer_onMediaAttaching media b)"
| run_detaching: "buffer_run firefox config arrived b \<Longrightarrow>
    buffer_run firefox config arrived (buffer_onMediaDetaching b)"
| run_reset: "buffer_run firefox config arrived b \<Longrightarrow>
    buffer_run firefox config arrived (onBufferReset b)"

definition ordered :: "segment list \<Rightarrow> buffers \<Rightarrow> bool" where
  "ordered arrived b \<longleftrightarrow> subseq (handled b @ queue b) arrived"

lemma ordered_same: "ordered arrived b \<Longrightarrow> same_queue b b' \<Longrightarrow> ordered arrived b'"
  by (simp add: ordered_def same_queue_def)

lemma ordered_cleared: "ordered arrived b \<Longrightarrow> handled b' = handled b \<Longrightarrow> queue b' = [] \<Longrightarrow> ordered arrived b'"
  unfolding ordered_def by (rule subseq_order.order_trans [of _ "handled b @ queue b"]) (simp_all add: prefix_imp_subseq)

lemma ordered_step: "ordered arrived b \<Longrightarrow> queue_step b b' \<Longrightarrow> ordered arrived b'"
proof -
  assume o: "ordered arrived b" and q: "queue_step b b'"
  show ?thesis
  proof (cases "handled b' @ queue b' = handled b @ queue b")
    case False
    then obtain ss where s: "queue b' = []" "prefix ss (queue b)" "handled b' = handled b @ ss" using q by (auto simp: queue_step_def)
    have "subseq (handled b @ ss) (handled b @ queue b)" using s(2) by (intro list_emb_append_mono) (auto intro: prefix_imp_subseq)
    then show ?thesis using o s(1,3) by (auto simp: ordered_def intro: subseq_order.order_trans)
  qed (use o in \<open>simp add: ordered_def\<close>)
qed

lemma create_buffers_queue: "same_queue b (createSourceBuffers supported ts b)"
proof -
  have "same_queue b (create_buffer supported t b)" for t b
    by (cases t) (auto simp: create_buffer_def same_queue_def Let_def split: option.split)
  then have "same_queue b (fold (create_buffer supported) ts b)"
    by (induction ts arbitrary: b) (simp_all, blast intro: same_queue_trans)
  then show ?thesis by (simp add: createSourceBuffers_def same_queue_def)
qed

lemma checkPendingTracks_ordered:
  "ordered arrived b \<Longrightarrow> checkPendingTracks firefox removable accept supported b = Inr b' \<Longrightarrow> ordered arrived b'"
proof -
  assume o: "ordered arrived b" and *: "checkPendingTracks firefox removable accept supported b = Inr b'"
  have "ordered arrived ((createSourceBuffers supported ts b)\<lparr>bc_pendingTracks := []\<rparr>)" for ts
    using ordered_same [OF o create_buffers_queue] by (simp add: ordered_def)
  then show ?thesis
    using * o ordered_step [OF _ doAppending_queue] unfolding checkPendingTracks_def Let_def by (simp split: if_split_asm) blast+
qed

lemma buffer_run_ordered: "buffer_run firefox config arrived b \<Longrightarrow> ordered arrived b"
proof (induction rule: buffer_run.induct)
  case run_new
  then show ?case by (simp add: ordered_def new_BufferController_def handled_def queue_def)
next
  case (run_platform arrived b b')
  then obtain m ms sbs where b': "b' = b\<lparr>bc_media := m, bc_mediaSource := ms, bc_sourceBuffer := sbs\<rparr>"
    unfolding platform_step_def by blast
  show ?case by (rule ordered_same [OF run_platform.IH]) (simp add: b' same_queue_def)
next
  case (run_appending arrived b removable accept s b')
  show ?case
  proof (cases "bc_needsFlush b")
    case False
    define c where "c = b\<lparr>bc_segments := Some (queue b @ [s])\<rparr>"
    have "ordered (arrived @ [s]) c"
      using run_appending.IH by (simp add: ordered_def c_def) (metis append.assoc subseq_append)
    moreover have "doAppending firefox removable accept c = Inr b'"
      using run_appending.hyps(2) False by (simp add: onBufferAppending_def c_def queue_def)
    ultimately show ?thesis using False doAppending_queue ordered_step by simp
  qed (use run_appending in \<open>auto simp: onBufferAppending_def\<close>)
next
  case (run_updateEnd arrived b removable accept b')
  obtain c where c: "update_ended firefox removable b = Inr c" using run_updateEnd.hyps(2) by (auto simp: onSBUpdateEnd_def split: sum.splits)
  have o: "ordered arrived c" by (rule ordered_same [OF run_updateEnd.IH update_ended_queue [OF c]])
  show ?case
  proof (cases "bc_needsFlush c")
    case True
    then show ?thesis using run_updateEnd.hyps(2) c ordered_same [OF o duration_queue] by (simp add: onSBUpdateEnd_def)
  next
    case False
    then obtain d where d: "doAppending firefox removable accept c = Inr d" "b' = updateMediaElementDuration d"
      using run_updateEnd.hyps(2) c by (cases "doAppending firefox removable accept c") (auto simp: onSBUpdateEnd_def)
    show ?thesis
      using ordered_same [OF ordered_step [OF o doAppending_queue [OF d(1)]] duration_queue] d(2) by simp
  qed
next
  case (run_updateError arrived b)
  then show ?case by (simp add: ordered_def onSBUpdateError_def)
next
  case (run_codecs arrived b removable accept supported ts b')
  have "ordered arrived (b\<lparr>bc_pendingTracks := p\<rparr>)" for p using run_codecs.IH by (simp add: ordered_def)
  then show ?case using run_codecs.hyps(2) run_codecs.IH
    by (auto simp: onBufferCodecs_def Let_def split: option.splits list.splits if_splits dest: checkPendingTracks_ordered [rotated])
next
  case (run_open arrived b removable accept supported b')
  have "ordered arrived (logged [MediaAttached] b)" using run_open.IH by (simp add: ordered_def)
  then show ?case using run_open.hyps(2) checkPendingTracks_ordered unfolding onMediaSourceOpen_def by blast
next
  case (run_flushing arrived b removable scope b')
  obtain fr where "bc_flushRange b = Some fr" using run_flushing.hyps(2) by (auto simp: onBufferFlushing_def split: option.splits)
  then have "same_queue (b\<lparr>bc_flushRange := Some (fr @ [scope]), bc_flushBufferCounter := 0\<rparr>) b'"
    using run_flushing.hyps(2) by (auto simp: onBufferFlushing_def intro: doFlush_queue)
  then show ?case using run_flushing.IH by (auto simp: same_queue_def ordered_def)
next
  case (run_eos arrived b ty)
  show ?case unfolding onBufferEos_def
    by (rule ordered_same [OF _ checkEos_queue]) (use run_eos.IH in \<open>simp add: ordered_def\<close>)
next
  case (run_updated arrived b d)
  show ?case
    using run_updated.IH ordered_same [OF _ duration_queue] by (auto simp: onLevelUpdated_def ordered_def split: list.split)
next
  case (run_pts arrived b x ty t b')
  then show ?case
    by (auto simp: onLevelPtsUpdated_def move_offset_def Let_def ordered_def split: option.splits if_splits prod.splits)
next
  case (run_detaching arrived b)
  show ?case
  proof (cases "bc_mediaSource b")
    case None
    then show ?thesis using run_detaching.IH by (simp add: buffer_onMediaDetaching_def ordered_def)
  next
    case (Some ms)
    show ?thesis by (rule ordered_cleared [OF run_detaching.IH]) (simp_all add: Some buffer_onMediaDetaching_def queue_def handled_def logged_def)
  qed
next
  case (run_reset arrived b)
  have "concat (map handled_segment (removed_buffers b)) = []" by (auto simp: removed_buffers_def)
  then show ?case by (intro ordered_cleared [OF run_reset.IH]) (simp_all add: onBufferReset_def)
qed (auto simp: buffer_onManifestParsed_def buffer_onMediaAttaching_def ordered_def Let_def)


subsection \<open>Flushes\<close>

lemma put_buffer_simps [simp]:
  "bc_media (put_buffer ty sb b) = bc_media b" "bc_appended (put_buffer ty sb b) = bc_appended b"
  "bc_flushBufferCounter (put_buffer ty sb b) = bc_flushBufferCounter b" "bc_flushRange (put_buffer ty sb b) = bc_flushRange b"
  "bc_segments (put_buffer ty sb b) = bc_segments b" "bc_config (put_buffer ty sb b) = bc_config b"
  "bc_appendError (put_buffer ty sb b) = bc_appendError b" "bc_events (put_buffer ty sb b) = bc_events b"
  "bc_appending (put_buffer ty sb b) = bc_appending b" "bc_needsFlush (put_buffer ty sb b) = bc_needsFlush b"
  by (simp_all add: put_buffer_def)

lemma logged_simps [simp]:
  "bc_media (logged es b) = bc_media b" "bc_appended (logged es b) = bc_appended b"
  "bc_flushBufferCounter (logged es b) = bc_flushBufferCounter b" "bc_flushRange (logged es b) = bc_flushRange b"
  "bc_needsFlush (logged es b) = bc_needsFlush b" "bc_segments (logged es b) = bc_segments b"
  "bc_events (logged es b) = bc_events b @ es"
  by (simp_all add: logged_def)

text \<open>Which source buffers are updating.\<close>

definition flags :: "buffers \<Rightarrow> (string \<times> bool) list" where
  "flags b = map (\<lambda>(ty, sb). (ty, sb_updating sb)) (source_buffers b)"

definition busy :: "buffers \<Rightarrow> nat" where
  "busy b = length (filter snd (flags b))"

lemma flags_fields [simp]:
  "flags (logged es b) = flags b" "flags (b\<lparr>bc_flushBufferCounter := n\<rparr>) = flags b" "flags (b\<lparr>bc_flushRange := fr\<rparr>) = flags b"
  "flags (b\<lparr>bc_needsFlush := f\<rparr>) = flags b" "flags (b\<lparr>bc_appended := k\<rparr>) = flags b" "flags (b\<lparr>bc_appending := f\<rparr>) = flags b"
  by (simp_all add: flags_def source_buffers_def logged_def)

lemma put_prop_found:
  assumes "(k, w) \<in> set kvs"
  shows "put_prop k v kvs = map (\<lambda>(k', v'). if k' = k then (k, v) else (k', v')) kvs"
  using weak_map_of_SomeI [OF assms] by (auto simp: put_prop_def)

lemma put_buffer_flags:
  assumes "(ty, u) \<in> set (flags b)"
  shows "flags (put_buffer ty sb b) = map (\<lambda>(t, v). (t, if t = ty then sb_updating sb else v)) (flags b)"
proof -
  obtain sbs where sbs: "bc_sourceBuffer b = Some sbs"
    using assms by (cases "bc_sourceBuffer b") (simp_all add: flags_def source_buffers_def)
  then obtain w where w: "(ty, w) \<in> set sbs" using assms by (auto simp: flags_def source_buffers_def)
  then show ?thesis
    using put_prop_found [OF w, of sb] by (auto simp: flags_def source_buffers_def put_buffer_def sbs)
qed

lemma set_flag_same: "distinct (map fst fs) \<Longrightarrow> (ty, u) \<in> set fs \<Longrightarrow> map (\<lambda>(t, v). (t, if t = ty then u else v)) fs = fs"
  by (rule map_idI) (auto dest: eq_key_imp_eq_value)

lemma set_flag_count:
  "distinct (map fst fs) \<Longrightarrow> (ty, u) \<in> set fs \<Longrightarrow>
    length (filter snd (map (\<lambda>(t, v). (t, if t = ty then w else v)) fs)) + (if u then 1 else 0) =
    length (filter snd fs) + (if w then 1 else 0)"
proof (induction fs)
  case (Cons f fs)
  obtain t v where f: "f = (t, v)" by (cases f)
  show ?case
  proof (cases "t = ty")
    case True
    then have "ty \<notin> fst ` set fs" using Cons.prems(1) f by simp
    then have "map (\<lambda>(t, v). (t, if t = ty then w else v)) fs = fs" "u = v"
      using Cons.prems f True by (force intro!: map_idI)+
    then show ?thesis using f True by simp
  next
    case False
    then show ?thesis using Cons f by (cases v) auto
  qed
qed simp

text \<open>
  A round that looks at the buffers: when it is not complete, a buffer is updating - one that it found so, with nothing changed,
  or one more, from which it has asked for the removal of a range, and then it is counted.
\<close>

definition flush_round :: "bool \<Rightarrow> buffers \<Rightarrow> buffers \<Rightarrow> bool" where
  "flush_round r b b' \<longleftrightarrow> bc_appended b' = bc_appended b \<and> map fst (flags b') = map fst (flags b) \<and>
     bc_flushBufferCounter b \<le> bc_flushBufferCounter b' \<and>
     (if r then flags b' = flags b
      else (\<exists>t. (t, True) \<in> set (flags b')) \<and>
        (flags b' = flags b \<or> busy b' = busy b + 1 \<and> bc_flushBufferCounter b < bc_flushBufferCounter b'))"

lemma flush_types_round:
  assumes "flush_types firefox removable scope sbs b = (r, b')" "distinct (map fst (flags b))"
    and "\<forall>(ty, sb) \<in> set sbs. (ty, sb_updating sb) \<in> set (flags b)"
  shows "flush_round r b b'"
  using assms
proof (induction sbs arbitrary: r b b')
  case (Cons x sbs)
  obtain ty sb where x: "x = (ty, sb)" by (cases x)
  show ?case
  proof (cases "fl_type scope \<noteq> None \<and> fl_type scope \<noteq> Some ty")
    case True
    then show ?thesis using Cons x by simp
  next
    case False
    define sb0 where "sb0 = sb\<lparr>sb_ended := False\<rparr>"
    define b0 where "b0 = put_buffer ty sb0 b"
    have here: "(ty, sb_updating sb) \<in> set (flags b)" using Cons.prems(3) x by simp
    have same: "sb_updating sb0 = sb_updating sb" by (simp add: sb0_def)
    have b0: "flags b0 = flags b" "bc_appended b0 = bc_appended b" "bc_flushBufferCounter b0 = bc_flushBufferCounter b"
      using put_buffer_flags [OF here, of sb0] set_flag_same [OF Cons.prems(2) here] unfolding same by (simp_all add: b0_def)
    have step: "flush_types firefox removable scope (x # sbs) b =
        (if sb_updating sb0 then (False, b0)
         else if \<not> sb_attached sb0 then flush_types firefox removable scope sbs b0
         else case find (must_flush firefox (fl_start scope) (fl_end scope)) (sb_buffered sb0) of
           None \<Rightarrow> flush_types firefox removable scope sbs b0
         | Some rg \<Rightarrow> (let (fs, fe) = flush_span firefox (fl_start scope) (fl_end scope) rg;
               b1 = b0\<lparr>bc_flushBufferCounter := bc_flushBufferCounter b0 + 1\<rparr>
             in if removable fs fe sb0 then (False, logged [Removed ty fs fe] (put_buffer ty (sb0\<lparr>sb_updating := True\<rparr>) b1))
                else flush_types firefox removable scope sbs b1))"
      using False unfolding x flush_types.simps Let_def sb0_def [symmetric] b0_def [symmetric] by (simp only: if_False)
    have rest: "flush_round r c b'"
      if "flush_types firefox removable scope sbs c = (r, b')" "flags c = flags b" for c
      using Cons.IH [OF that(1)] Cons.prems(2,3) that(2) by simp
    show ?thesis
    proof (cases "sb_updating sb0")
      case True
      then have "r = False" "b' = b0" using Cons.prems(1) step by simp_all
      then show ?thesis using b0 here True by (auto simp: flush_round_def sb0_def)
    next
      case nu: False
      show ?thesis
      proof (cases "sb_attached sb0 \<and> find (must_flush firefox (fl_start scope) (fl_end scope)) (sb_buffered sb0) \<noteq> None")
        case False
        then have "flush_types firefox removable scope sbs b0 = (r, b')" using Cons.prems(1) step nu by (auto split: option.splits)
        then show ?thesis using rest [of b0] b0 by (auto simp: flush_round_def busy_def split: if_splits)
      next
        case True
        then obtain rg where rg: "find (must_flush firefox (fl_start scope) (fl_end scope)) (sb_buffered sb0) = Some rg" by blast
        obtain fs fe where span: "flush_span firefox (fl_start scope) (fl_end scope) rg = (fs, fe)" by (meson surj_pair)
        define b1 where "b1 = b0\<lparr>bc_flushBufferCounter := bc_flushBufferCounter b0 + 1\<rparr>"
        have b1: "flags b1 = flags b" "bc_appended b1 = bc_appended b" "bc_flushBufferCounter b1 = bc_flushBufferCounter b + 1"
          using b0 by (simp_all add: b1_def)
        have s: "flush_types firefox removable scope (x # sbs) b =
            (if removable fs fe sb0 then (False, logged [Removed ty fs fe] (put_buffer ty (sb0\<lparr>sb_updating := True\<rparr>) b1))
             else flush_types firefox removable scope sbs b1)"
          unfolding step b1_def Let_def using True nu by (simp add: rg span)
        show ?thesis
        proof (cases "removable fs fe sb0")
          case True
          define b2 where "b2 = put_buffer ty (sb0\<lparr>sb_updating := True\<rparr>) b1"
          have u: "sb_updating (sb0\<lparr>sb_updating := True\<rparr>) = True" by simp
          have f2: "flags b2 = map (\<lambda>(t, v). (t, if t = ty then True else v)) (flags b)"
            using put_buffer_flags [of ty "sb_updating sb" b1 "sb0\<lparr>sb_updating := True\<rparr>"] here b1(1) unfolding u b2_def by simp
          have "busy b2 = busy b + 1"
            using set_flag_count [OF Cons.prems(2) here, of True] nu f2 by (simp add: busy_def sb0_def)
          moreover have "(ty, True) \<in> set (flags b2)" using here unfolding f2 by force
          moreover have "map fst (flags b2) = map fst (flags b)" unfolding f2 by auto
          moreover have "r = False" "b' = logged [Removed ty fs fe] b2" using Cons.prems(1) s True by (simp_all add: b2_def)
          moreover have "bc_appended b2 = bc_appended b" "bc_flushBufferCounter b2 = bc_flushBufferCounter b + 1"
            using b1 by (simp_all add: b2_def)
          ultimately show ?thesis by (auto simp: flush_round_def busy_def)
        next
          case False
          then show ?thesis using rest [of b1] b1 Cons.prems(1) s by (auto simp: flush_round_def busy_def split: if_splits)
        qed
      qed
    qed
  qed
qed (simp add: flush_round_def)

lemma flush_types_keeps:
  "flush_types firefox removable scope sbs b = (r, b') \<Longrightarrow>
    bc_media b' = bc_media b \<and> bc_audioTimestampOffset b' = bc_audioTimestampOffset b \<and> bc_segments b' = bc_segments b"
proof (induction sbs arbitrary: r b b')
  case (Cons x sbs)
  then show ?case
    by (cases x) (auto simp: Let_def logged_def put_buffer_def split: if_split_asm option.split_asm prod.split_asm dest!: Cons.IH)
qed simp

text \<open>What the rest of an update's end keeps.\<close>

definition same_flush :: "buffers \<Rightarrow> buffers \<Rightarrow> bool" where
  "same_flush b c \<longleftrightarrow> bc_media c = bc_media b \<and> bc_flushRange c = bc_flushRange b \<and> bc_needsFlush c = bc_needsFlush b \<and>
     bc_appended c = bc_appended b \<and> bc_flushBufferCounter c = bc_flushBufferCounter b \<and>
     bc_audioTimestampOffset c = bc_audioTimestampOffset b \<and> bc_segments c = bc_segments b \<and> bc_sourceBuffer c = bc_sourceBuffer b"

lemma checkEos_flush: "same_flush b (checkEos b)"
  by (auto simp: checkEos_def same_flush_def logged_def split: option.split bool.split)

lemma duration_flush: "same_flush b (updateMediaElementDuration b)"
  by (auto simp: updateMediaElementDuration_def same_flush_def logged_def Let_def split: option.split)

definition flushed :: "buffers \<Rightarrow> bool" where
  "flushed b \<longleftrightarrow> \<not> bc_needsFlush b \<and> bc_flushRange b = Some []"

lemma flushed_same: "same_flush b c \<Longrightarrow> flushed c \<longleftrightarrow> flushed b"
  by (simp add: same_flush_def flushed_def)

text \<open>A bound of the update ends that a flush still waits for: every waiting buffer, and every removal left to each range.\<close>

definition flush_left :: "nat \<Rightarrow> buffers \<Rightarrow> nat" where
  "flush_left n b = busy b + (bc_appended b - bc_flushBufferCounter b) + bc_appended b * (n - 1)"

definition waiting :: "buffers \<Rightarrow> bool" where
  "waiting b \<longleftrightarrow> bc_needsFlush b \<and> (\<exists>scope scopes. bc_flushRange b = Some (scope # scopes)) \<and> (\<exists>t. (t, True) \<in> set (flags b))"

text \<open>What a flush needs and keeps.\<close>

definition calm :: "buffers \<Rightarrow> bool" where
  "calm b \<longleftrightarrow> bc_media b \<noteq> None \<and> bc_audioTimestampOffset b = None \<and> bc_segments b \<noteq> None \<and> distinct (map fst (flags b))"

lemma flushBuffer_round:
  assumes "calm b"
  shows "\<exists>r c. flushBuffer firefox removable scope b = Inr (r, c) \<and> calm c \<and> flush_round r b c \<and>
    (\<not> r \<longrightarrow> bc_flushBufferCounter b < bc_appended b)"
proof (cases "source_buffers b \<noteq> [] \<and> bc_flushBufferCounter b < bc_appended b")
  case True
  obtain r c where rc: "flush_types firefox removable scope (source_buffers b) b = (r, c)" by (meson surj_pair)
  have "flush_round r b c"
    using assms by (intro flush_types_round [OF rc]) (auto simp: calm_def flags_def)
  moreover have "calm c" using flush_types_keeps [OF rc] \<open>flush_round r b c\<close> assms by (simp add: calm_def flush_round_def)
  ultimately show ?thesis using True rc assms by (auto simp: flushBuffer_def calm_def)
next
  case False
  then have "flushBuffer firefox removable scope b = Inr (True, b)" using assms by (auto simp: flushBuffer_def calm_def)
  then show ?thesis using assms by (intro exI [of _ True] exI [of _ b]) (simp add: flush_round_def)
qed

lemma flush_loop_waits:
  "calm b \<Longrightarrow> \<exists>b'. flush_loop firefox removable scopes b = Inr b' \<and> calm b' \<and>
    (flushed b' \<or> waiting b' \<and> flush_left (length (the (bc_flushRange b'))) b' \<le> flush_left (length scopes) b)"
proof (induction scopes arbitrary: b)
  case Nil
  then show ?case by (simp add: flushed_def calm_def logged_def flags_def source_buffers_def)
next
  case (Cons scope scopes)
  obtain r c where c: "flushBuffer firefox removable scope b = Inr (r, c)" "calm c" "flush_round r b c"
    "\<not> r \<longrightarrow> bc_flushBufferCounter b < bc_appended b"
    using flushBuffer_round [OF Cons.prems] by blast
  show ?case
  proof (cases r)
    case False
    define d where "d = c\<lparr>bc_flushRange := Some (scope # scopes), bc_needsFlush := True\<rparr>"
    have "flush_loop firefox removable (scope # scopes) b = Inr d" using c(1) False by (simp add: d_def)
    moreover have "calm d" using c(2) by (simp add: calm_def d_def)
    moreover have "waiting d" using c(3) False by (auto simp: waiting_def flush_round_def d_def)
    moreover have "flush_left (length (scope # scopes)) d \<le> flush_left (length (scope # scopes)) b"
      using c(3,4) False by (auto simp: flush_left_def flush_round_def busy_def d_def)
    ultimately show ?thesis by (auto simp: d_def)
  next
    case True
    define d where "d = c\<lparr>bc_flushBufferCounter := 0\<rparr>"
    have l: "flush_loop firefox removable (scope # scopes) b = flush_loop firefox removable scopes d" using c(1) True by (simp add: d_def)
    have "calm d" using c(2) by (simp add: calm_def d_def)
    then obtain b' where b': "flush_loop firefox removable scopes d = Inr b'" "calm b'"
      "flushed b' \<or> waiting b' \<and> flush_left (length (the (bc_flushRange b'))) b' \<le> flush_left (length scopes) d"
      using Cons.IH [of d] by blast
    have "flush_left (length scopes) d \<le> flush_left (length (scope # scopes)) b" if "scopes \<noteq> []"
      using c(3) True that by (cases scopes) (simp_all add: flush_left_def flush_round_def busy_def d_def)
    moreover have "flushed b'" if "scopes = []" using b'(1) that by (auto simp: flushed_def)
    ultimately show ?thesis using l b' by (cases "scopes = []") auto
  qed
qed

text \<open>Appending leaves a flush that is done as it is.\<close>

lemma update_ended_keeps:
  assumes "update_ended firefox removable b = Inr c" "\<not> bc_needsFlush b"
  shows "bc_media c = bc_media b \<and> bc_needsFlush c = bc_needsFlush b \<and> bc_flushRange c = bc_flushRange b"
proof -
  obtain d where d: "apply_offset b = Inr d" using assms(1) by (auto simp: update_ended_def split: sum.splits)
  have 1: "bc_media d = bc_media b \<and> bc_needsFlush d = bc_needsFlush b \<and> bc_flushRange d = bc_flushRange b"
    using d by (auto simp: apply_offset_def split: if_splits option.splits)
  have "c = logged [BufferAppended (bc_parent e) (pending_segments e)] e" if "e = (if bc_needsEos d then checkEos d else d)\<lparr>bc_appending := False\<rparr>" for e
    using assms 1 d that by (auto simp: update_ended_def Let_def split: if_splits)
  then show ?thesis using 1 checkEos_flush [of d] by (auto simp: same_flush_def logged_def)
qed

lemma doAppending_flushed:
  "bc_media b \<noteq> None \<Longrightarrow> flushed b \<Longrightarrow> \<exists>c. doAppending firefox removable accept b = Inr c \<and> flushed c"
proof (induction firefox removable accept b rule: doAppending.induct)
  case (1 firefox removable accept b)
  obtain m where m: "bc_media b = Some m" using "1.prems"(1) by blast
  show ?case
  proof (cases "source_buffers b = [] \<or> bm_error m \<or> bc_appending b \<or> queue b = []")
    case True
    then show ?thesis
      using "1.prems" m by (subst doAppending.simps) (auto simp: flushed_def queue_def split: option.splits list.splits)
  next
    case False
    then obtain s ss where q: "bc_segments b = Some (s # ss)" and f: "source_buffers b \<noteq> []" "\<not> bm_error m" "\<not> bc_appending b"
      by (auto simp: queue_def split: option.splits) (metis neq_Nil_conv)
    show ?thesis
    proof (cases "map_of (source_buffers b) (sg_type s)")
      case (Some sb)
      have "flushed (append_segment accept s ss sb b)"
        using "1.prems"(2) by (auto simp: flushed_def append_segment_def append_error_def Let_def logged_def put_buffer_def split: append_outcome.split)
      then show ?thesis using m q f Some by (subst doAppending.simps) simp
    next
      case None
      define b1 where "b1 = logged [Discarded s] (b\<lparr>bc_segments := Some ss\<rparr>)"
      show ?thesis
      proof (cases "update_ended firefox removable b1")
        case (Inl err)
        have "flushed (append_error s ss False b)"
          using "1.prems"(2) by (simp add: flushed_def append_error_def Let_def logged_def)
        then show ?thesis using m q f None Inl by (subst doAppending.simps) (simp add: b1_def)
      next
        case (Inr c)
        have c: "bc_media c \<noteq> None" "flushed c"
          using update_ended_keeps [OF Inr] "1.prems" m by (auto simp: b1_def flushed_def logged_def)
        then obtain d where d: "doAppending firefox removable accept c = Inr d" "flushed d"
          using "1.IH" [OF f(1) m f(2,3) q refl None Inr [unfolded b1_def]] by (auto simp: flushed_def)
        have "doAppending firefox removable accept b = Inr (updateMediaElementDuration d)"
          using m q f None Inr d c(2) by (subst doAppending.simps) (simp add: b1_def flushed_def)
        then show ?thesis using d(2) flushed_same [OF duration_flush] by blast
      qed
    qed
  qed
qed

lemma calm_same: "same_flush b c \<Longrightarrow> calm c \<longleftrightarrow> calm b"
  by (simp add: same_flush_def calm_def flags_def source_buffers_def)

lemma flush_same: "same_flush b c \<Longrightarrow> waiting c \<longleftrightarrow> waiting b" "same_flush b c \<Longrightarrow> flush_left n c = flush_left n b"
  by (simp_all add: same_flush_def waiting_def flush_left_def busy_def flags_def source_buffers_def)

lemma update_end_flushes:
  assumes "bc_needsFlush b" "bc_flushRange b = Some scopes" "calm b"
  shows "\<exists>c. onSBUpdateEnd firefox removable accept b = Inr c \<and> (flushed c \<or>
    calm c \<and> waiting c \<and> flush_left (length (the (bc_flushRange c))) c \<le> flush_left (length scopes) b)"
proof -
  obtain d where d: "doFlush firefox removable b = Inr d" "calm d"
    "flushed d \<or> waiting d \<and> flush_left (length (the (bc_flushRange d))) d \<le> flush_left (length scopes) b"
    using flush_loop_waits [OF assms(3), of firefox removable scopes] assms(2) by (auto simp: doFlush_def)
  define e0 where "e0 = (if bc_needsEos d then checkEos d else d)\<lparr>bc_appending := False\<rparr>"
  define e where "e = logged [BufferAppended (bc_parent e0) (pending_segments e0)] e0"
  have e: "same_flush d e" using checkEos_flush [of d] by (simp add: e_def e0_def same_flush_def logged_def)
  have off: "apply_offset b = Inr b" using assms(3) by (simp add: apply_offset_def truthy_def calm_def)
  have ue: "update_ended firefox removable b = Inr e"
    using off assms(1) d(1,2) e unfolding update_ended_def
    by (simp add: Let_def e0_def [symmetric] e_def [symmetric]) (simp add: e_def e0_def same_flush_def logged_def calm_def)
  show ?thesis
  proof (cases "flushed d")
    case True
    have "flushed e" "bc_media e \<noteq> None" using True flushed_same [OF e] e d(2) by (auto simp: same_flush_def calm_def)
    then obtain g where g: "doAppending firefox removable accept e = Inr g" "flushed g" using doAppending_flushed by blast
    have "onSBUpdateEnd firefox removable accept b = Inr (updateMediaElementDuration g)"
      using ue g \<open>flushed e\<close> by (simp add: onSBUpdateEnd_def flushed_def)
    then show ?thesis using g(2) flushed_same [OF duration_flush] by blast
  next
    case False
    then have w: "waiting e" "calm e" "flush_left (length (the (bc_flushRange e))) e \<le> flush_left (length scopes) b"
      using d e calm_same [OF e] flush_same [OF e] by (simp_all add: same_flush_def)
    have "onSBUpdateEnd firefox removable accept b = Inr (updateMediaElementDuration e)"
      using ue w(1) by (simp add: onSBUpdateEnd_def waiting_def)
    moreover have "bc_flushRange (updateMediaElementDuration e) = bc_flushRange e" using duration_flush [of e] by (simp add: same_flush_def)
    ultimately show ?thesis using w calm_same [OF duration_flush] flush_same [OF duration_flush] by auto
  qed
qed

text \<open>
  The end of the update of the buffer \<open>ty\<close>: from then on it is not updating, the others are as they were; the ranges, the media
  source and the state of the media element are what the browser says.
\<close>

definition finished :: "string \<Rightarrow> buffers \<Rightarrow> buffers \<Rightarrow> bool" where
  "finished ty b c \<longleftrightarrow> (\<exists>m ms sbs. c = b\<lparr>bc_media := Some m, bc_mediaSource := ms, bc_sourceBuffer := sbs\<rparr>) \<and>
     (ty, True) \<in> set (flags b) \<and> flags c = map (\<lambda>(t, v). (t, if t = ty then False else v)) (flags b)"

text \<open>Update ends while a flush waits, with their number.\<close>

inductive flush_ends_after :: "bool \<Rightarrow> nat \<Rightarrow> buffers \<Rightarrow> buffers \<Rightarrow> bool" for firefox where
  no_end: "flush_ends_after firefox 0 b b"
| one_more: "flush_ends_after firefox n b c \<Longrightarrow> bc_needsFlush c \<Longrightarrow> finished ty c d \<Longrightarrow>
    onSBUpdateEnd firefox removable accept d = Inr e \<Longrightarrow> flush_ends_after firefox (Suc n) b e"

lemma finished_calm:
  assumes "finished ty b c" "calm b" "waiting b"
  shows "calm c \<and> bc_needsFlush c \<and> bc_flushRange c = bc_flushRange b \<and> flush_left n c < flush_left n b"
proof -
  obtain m ms sbs where c: "c = b\<lparr>bc_media := Some m, bc_mediaSource := ms, bc_sourceBuffer := sbs\<rparr>"
    and f: "(ty, True) \<in> set (flags b)" "flags c = map (\<lambda>(t, v). (t, if t = ty then False else v)) (flags b)"
    using assms(1) by (auto simp: finished_def)
  have "map fst (flags c) = map fst (flags b)" unfolding f(2) by auto
  moreover have "busy c + 1 = busy b" using set_flag_count [OF _ f(1), of False] assms(2) f(2) by (simp add: busy_def calm_def)
  moreover have "bc_media c \<noteq> None" "bc_audioTimestampOffset c = bc_audioTimestampOffset b" "bc_segments c = bc_segments b"
    "bc_needsFlush c = bc_needsFlush b" "bc_flushRange c = bc_flushRange b" "bc_appended c = bc_appended b"
    "bc_flushBufferCounter c = bc_flushBufferCounter b"
    unfolding c by simp_all
  ultimately show ?thesis using assms(2,3) by (simp add: calm_def waiting_def flush_left_def)
qed

lemma one_update_end:
  assumes "calm b" "waiting b" "finished ty b c"
  shows "\<exists>d. onSBUpdateEnd firefox removable accept c = Inr d \<and> (flushed d \<or>
    calm d \<and> waiting d \<and> flush_left (length (the (bc_flushRange d))) d < flush_left (length (the (bc_flushRange b))) b)"
proof -
  obtain scopes where s: "bc_flushRange b = Some scopes" using assms(2) by (auto simp: waiting_def)
  have c: "calm c" "bc_needsFlush c" "bc_flushRange c = Some scopes" "flush_left (length scopes) c < flush_left (length scopes) b"
    using finished_calm [OF assms(3,1,2)] s by auto
  show ?thesis using update_end_flushes [OF c(2,3,1), of firefox removable accept] c(4) s by fastforce
qed

lemma flush_ends_after_bound:
  assumes "flush_ends_after firefox n b c" "calm b" "waiting b"
  shows "n \<le> flush_left (length (the (bc_flushRange b))) b \<and> (flushed c \<or>
    calm c \<and> waiting c \<and> n + flush_left (length (the (bc_flushRange c))) c \<le> flush_left (length (the (bc_flushRange b))) b)"
  using assms
proof (induction rule: flush_ends_after.induct)
  case (one_more n b c ty d removable accept e)
  then have c: "calm c" "waiting c" "n + flush_left (length (the (bc_flushRange c))) c \<le> flush_left (length (the (bc_flushRange b))) b"
    by (auto simp: flushed_def)
  have "flush_left (length (the (bc_flushRange d))) d < flush_left (length (the (bc_flushRange c))) c"
    using finished_calm [OF one_more.hyps(3) c(1,2)] by simp
  then show ?case
    using one_update_end [OF c(1,2) one_more.hyps(3), of firefox removable accept] one_more.hyps(4) c(3) by auto
qed simp

lemma flush_ends_after_over: "flush_ends_after firefox n b c \<Longrightarrow> flushed b \<Longrightarrow> n = 0 \<and> c = b"
  by (induction rule: flush_ends_after.induct) (auto simp: flushed_def)

text \<open>A completed flush leaves at most half a second of every range.\<close>

lemma flush_types_complete:
  assumes "flush_types firefox (\<lambda>_ _ _. True) scope sbs b = (True, b')" "(ty, sb) \<in> set sbs" "fl_type scope = None \<or> fl_type scope = Some ty"
  shows "\<not> sb_updating sb \<and> (sb_attached sb \<longrightarrow> (\<forall>r \<in> set (sb_buffered sb). \<not> must_flush firefox (fl_start scope) (fl_end scope) r))"
  using assms
proof (induction sbs arbitrary: b b')
  case (Cons x sbs)
  then show ?case
    by (cases x) (auto simp: Let_def find_None_iff split: if_split_asm option.split_asm prod.split_asm)
qed simp

lemma must_flush_left:
  assumes "\<not> must_flush firefox (Some s) stop r" "stop \<noteq> NotNum"
  shows "js_min (Num (rg_end r)) stop \<le> Num (max (rg_start r) s + 1 / 2)"
  using assms by (cases stop) (auto simp: must_flush_def flush_span_def js_min_def js_max_def max_def less_js_def less_eq_js_def minus_js_def split: if_splits)

subsection \<open>Failed appends\<close>

fun append_again :: "bool \<Rightarrow> (rat js \<Rightarrow> rat js \<Rightarrow> source_buffer \<Rightarrow> bool) \<Rightarrow> nat \<Rightarrow> buffers \<Rightarrow> buffers result" where
  "append_again firefox removable 0 b = Inr b"
| "append_again firefox removable (Suc n) b =
     (case doAppending firefox removable (\<lambda>_ _. AppendFailed) b of Inl err \<Rightarrow> Inl err | Inr b \<Rightarrow> append_again firefox removable n b)"

definition ready :: "segment \<Rightarrow> buffers \<Rightarrow> bool" where
  "ready s b \<longleftrightarrow> (\<exists>m ss sb. bc_media b = Some m \<and> \<not> bm_error m \<and> \<not> bc_appending b \<and> bc_segments b = Some (s # ss) \<and>
     map_of (source_buffers b) (sg_type s) = Some sb \<and> \<not> sb_updating sb)"

lemma map_of_put_prop: "map_of (put_prop k v kvs) k = Some v"
proof (cases "map_of kvs k")
  case (Some w)
  then show ?thesis by (induction kvs) (auto simp: put_prop_def split: if_splits)
next
  case None
  then show ?thesis by (simp add: put_prop_def map_add_def)
qed

lemma append_fails:
  assumes "ready s b"
  shows "\<exists>b'. doAppending firefox removable (\<lambda>_ _. AppendFailed) b = Inr b' \<and> ready s b' \<and> bc_segments b' = bc_segments b \<and>
    bc_config b' = bc_config b \<and> bc_appendError b' = bc_appendError b + 1 \<and>
    bc_events b' = bc_events b @ [BufferError ''bufferAppendError'' (Some (sg_parent s))
      (cf_appendErrorMaxRetry (bc_config b) < bc_appendError b + 1)]"
proof -
  obtain m ss sb where r: "bc_media b = Some m" "\<not> bm_error m" "\<not> bc_appending b" "bc_segments b = Some (s # ss)"
    "map_of (source_buffers b) (sg_type s) = Some sb" "\<not> sb_updating sb"
    using assms by (auto simp: ready_def)
  have ne: "source_buffers b \<noteq> []" using r(5) by auto
  have d: "doAppending firefox removable (\<lambda>_ _. AppendFailed) b = Inr (append_segment (\<lambda>_ _. AppendFailed) s ss sb b)"
    using r ne by (subst doAppending.simps) simp
  obtain sbs where sbs: "bc_sourceBuffer b = Some sbs" using ne by (auto simp: source_buffers_def split: option.splits)
  show ?thesis
    unfolding d
    using r sbs by (auto simp: append_segment_def append_error_def Let_def ready_def source_buffers_def put_buffer_def map_of_put_prop logged_def)
qed

lemma append_again_fails:
  assumes "ready s b"
  shows "\<exists>b'. append_again firefox removable n b = Inr b' \<and> bc_segments b' = bc_segments b \<and>
    bc_events b' = bc_events b @ map (\<lambda>k. BufferError ''bufferAppendError'' (Some (sg_parent s))
      (cf_appendErrorMaxRetry (bc_config b) < bc_appendError b + 1 + k)) [0..<n]"
  using assms
proof (induction n arbitrary: b)
  case (Suc n)
  obtain c where c: "doAppending firefox removable (\<lambda>_ _. AppendFailed) b = Inr c" "ready s c" "bc_segments c = bc_segments b"
    "bc_config c = bc_config b" "bc_appendError c = bc_appendError b + 1"
    "bc_events c = bc_events b @ [BufferError ''bufferAppendError'' (Some (sg_parent s))
      (cf_appendErrorMaxRetry (bc_config b) < bc_appendError b + 1)]"
    using append_fails [OF Suc.prems] by blast
  have shift: "map f [0..<Suc n] = f 0 # map (\<lambda>k. f (Suc k)) [0..<n]" for f :: "nat \<Rightarrow> buffer_event"
    by (simp add: upt_conv_Cons map_Suc_upt [symmetric] del: upt_Suc)
  show ?case using Suc.IH [OF c(2)] c by (auto simp: shift simp del: upt_Suc)
qed simp

end
