(* ===== verification/Buffer_Props.thy ===== *)
theory Buffer_Props
  imports Buffer_Laws
begin

text \<open>Properties of the source buffers, \<open>src/controller/buffer-controller.js\<close>, with concrete instances.\<close>

subsection \<open>A media source with one buffer to try them on\<close>

definition data_segment :: "nat \<Rightarrow> segment" where
  "data_segment n = \<lparr>sg_type = ''video'', sg_data = replicate n 0, sg_parent = ''main'', sg_init = False\<rparr>"

definition video_track :: track_info where
  "video_track = \<lparr>tk_container = ''video/mp4'', tk_codec = Some ''avc1'', tk_channelCount = None, tk_levelCodec = None,
     tk_initSegment = None, tk_id = ''video''\<rparr>"

definition video_buffer :: "bool \<Rightarrow> time_range list \<Rightarrow> source_buffer" where
  "video_buffer updating ranges =
     \<lparr>sb_updating = updating, sb_ended = False, sb_buffered = ranges, sb_timestampOffset = 0, sb_attached = True\<rparr>"

text \<open>The state after the tracks are known, \<open>k\<close> segments were appended and \<open>evs\<close> happened.\<close>

definition one_buffer :: "nat \<Rightarrow> bool \<Rightarrow> string option \<Rightarrow> buffer_event list \<Rightarrow> buffers" where
  "one_buffer k updating parent evs = (new_BufferController hlsDefaultConfig)
     \<lparr>bc_media := Some \<lparr>bm_error = False, bm_readyState = 0, bm_duration = NotNum\<rparr>,
      bc_mediaSource := Some \<lparr>ms_open = True, ms_duration = NotNum\<rparr>, bc_sourceBuffer := Some [(''video'', video_buffer updating [])],
      bc_tracks := [(''video'', Some ''avc1'', ''video/mp4'')], bc_sourceBufferNb := Some 0, bc_segments := Some [], bc_flushRange := Some [],
      bc_appended := k, bc_appending := updating, bc_parent := parent, bc_events := evs\<rparr>"

definition opened_events :: "buffer_event list" where
  "opened_events = [NewMediaSource, MediaAttached, SourceBufferAdded ''video'' ''video/mp4;codecs=avc1'', BufferCreated [(''video'', video_track)]]"

lemma run_opened: "buffer_run False hlsDefaultConfig [] (one_buffer 0 False None opened_events)"
proof -
  define m where "m = \<lparr>bm_error = False, bm_readyState = 0, bm_duration = (NotNum :: rat js)\<rparr>"
  define b1 where "b1 = buffer_onManifestParsed False True False 1
    (buffer_onMediaAttaching (Some m) (onBufferReset (new_BufferController hlsDefaultConfig)))"
  define b2 where "b2 = b1\<lparr>bc_mediaSource := Some \<lparr>ms_open = True, ms_duration = NotNum\<rparr>\<rparr>"
  have "buffer_run False hlsDefaultConfig [] b1" unfolding b1_def by (intro run_manifest run_attaching run_reset run_new)
  moreover have "platform_step b1 b2"
    unfolding platform_step_def by (intro exI [of _ "bc_media b1"] exI [of _ "Some \<lparr>ms_open = True, ms_duration = NotNum\<rparr>"] exI [of _ "bc_sourceBuffer b1"])
      (simp add: b2_def)
  ultimately have "buffer_run False hlsDefaultConfig [] b2" by (rule run_platform)
  moreover have "onMediaSourceOpen False (\<lambda>_ _ _. True) (\<lambda>_ _. Accepted) (\<lambda>_. True) b2 = Inr (logged [MediaAttached] b2)"
    by (simp add: onMediaSourceOpen_def checkPendingTracks_def b2_def b1_def buffer_onManifestParsed_def buffer_onMediaAttaching_def
        onBufferReset_def new_BufferController_def logged_def Let_def)
  ultimately have "buffer_run False hlsDefaultConfig [] (logged [MediaAttached] b2)" by (rule run_open)
  moreover have "onBufferCodecs False (\<lambda>_ _ _. True) (\<lambda>_ _. Accepted) (\<lambda>_. True) [(''video'', video_track)] (logged [MediaAttached] b2) =
      Inr (one_buffer 0 False None opened_events)"
    by (simp add: onBufferCodecs_def checkPendingTracks_def createSourceBuffers_def create_buffer_def put_buffer_def put_prop_def
        source_buffers_def one_buffer_def video_buffer_def opened_events_def video_track_def or_str_def b2_def b1_def m_def
        buffer_onManifestParsed_def buffer_onMediaAttaching_def onBufferReset_def removed_buffers_def new_BufferController_def logged_def Let_def doAppending.simps)
  ultimately show ?thesis by (rule run_codecs)
qed

lemma run_next:
  assumes "buffer_run False hlsDefaultConfig arrived (one_buffer k False p evs)"
  shows "buffer_run False hlsDefaultConfig (arrived @ [data_segment n])
    (one_buffer (k + 1) False (Some ''main'') (evs @ [Appended (data_segment n), BufferAppended (Some ''main'') 0]))"
proof -
  define b1 where "b1 = one_buffer (k + 1) True (Some ''main'') (evs @ [Appended (data_segment n)])"
  define b2 where "b2 = b1\<lparr>bc_sourceBuffer := Some [(''video'', video_buffer False [])]\<rparr>"
  have "onBufferAppending False (\<lambda>_ _ _. True) (\<lambda>_ _. Accepted) (data_segment n) (one_buffer k False p evs) = Inr b1"
    by (simp add: onBufferAppending_def one_buffer_def new_BufferController_def doAppending.simps source_buffers_def append_segment_def
        data_segment_def video_buffer_def put_buffer_def put_prop_def logged_def b1_def Let_def)
  from run_appending [OF assms this]
  have "buffer_run False hlsDefaultConfig (arrived @ [data_segment n]) b1" by (simp add: one_buffer_def new_BufferController_def)
  moreover have "platform_step b1 b2"
    unfolding platform_step_def b2_def by (intro exI [of _ "bc_media b1"] exI [of _ "bc_mediaSource b1"] exI [of _ "Some [(''video'', video_buffer False [])]"])
      (simp add: b1_def one_buffer_def)
  ultimately have "buffer_run False hlsDefaultConfig (arrived @ [data_segment n]) b2" by (rule run_platform)
  moreover have "onSBUpdateEnd False (\<lambda>_ _ _. True) (\<lambda>_ _. Accepted) b2 =
      Inr (one_buffer (k + 1) False (Some ''main'') (evs @ [Appended (data_segment n), BufferAppended (Some ''main'') 0]))"
    by (simp add: onSBUpdateEnd_def update_ended_def apply_offset_def truthy_def b2_def b1_def one_buffer_def new_BufferController_def
        doAppending.simps source_buffers_def pending_segments_def updateMediaElementDuration_def logged_def Let_def)
  ultimately show ?thesis by (rule run_updateEnd)
qed

text \<open>A state in which a flush waits for the removal of a range.\<close>

definition flushing_state :: buffers where
  "flushing_state = (one_buffer 2 False (Some ''main'') [])
     \<lparr>bc_needsFlush := True, bc_flushRange := Some [\<lparr>fl_start = Some 0, fl_end = PosInf, fl_type = None\<rparr>], bc_flushBufferCounter := 1\<rparr>"

definition nearly_empty :: source_buffer where
  "nearly_empty = video_buffer False [\<lparr>rg_start = 0, rg_end = 1 / 5\<rparr>, \<lparr>rg_start = 3, rg_end = 10 / 3\<rparr>]"

subsection \<open>The properties\<close>

text \<open>
  C34. Whatever happens to the buffer controller, in any order: the segments that were handed to the browser, or dropped for want of a source buffer,
  followed by those still in the queue are a subsequence of the segments that arrived outside a flush. No segment overtakes another, and
  none is appended twice, also after a failed append is tried again.
\<close>

theorem segments_in_order:
  assumes "buffer_run firefox config arrived b"
  shows "subseq (handled b @ queue b) arrived"
  using buffer_run_ordered [OF assms] by (simp add: ordered_def)

lemma segments_in_order_witness:
  "\<exists>b. handled b = [data_segment 1, data_segment 2] \<and> subseq (handled b @ queue b) [data_segment 1, data_segment 2]"
proof -
  let ?b = "one_buffer 2 False (Some ''main'')
    (opened_events @ [Appended (data_segment 1), BufferAppended (Some ''main'') 0, Appended (data_segment 2), BufferAppended (Some ''main'') 0])"
  have "buffer_run False hlsDefaultConfig [data_segment 1, data_segment 2] ?b"
    using run_next [OF run_next [OF run_opened, of 1], of 2] by (simp add: numeral_2_eq_2)
  from segments_in_order [OF this]
  show ?thesis by (intro exI [of _ ?b]) (simp add: one_buffer_def handled_def opened_events_def)
qed

text \<open>
  C35. A flush ends. From the moment it is asked for, with whatever other ranges are still to be flushed and whichever source buffers are updating,
  at most as many update ends pass, of any buffers in any order, as buffers were updating at first and segments were appended, these counted once per range - whatever
  ranges the browser reports each time and whether or not its removals throw or do anything. As long as the flush waits, some buffer is updating, so that
  an update end is to come, and no update end throws; when it is over, nothing is left to flush and segments are taken again. The media is
  attached, the queues are there (\<open>onBufferReset\<close> makes them when a manifest is loaded), there is no timestamp offset of the audio
  to be set (which throws while the audio is updating), and no further flush is asked for.
\<close>

theorem flush_ends:
  assumes "bc_flushRange b = Some ranges" "bc_media b \<noteq> None" "bc_audioTimestampOffset b = None" "bc_segments b \<noteq> None"
    and "distinct (map fst (source_buffers b))"
  shows "\<exists>c. onBufferFlushing firefox removable scope b = Inr c \<and>
    (\<forall>n d. flush_ends_after firefox n c d \<longrightarrow>
       n \<le> busy b + bc_appended b * (length ranges + 1) \<and>
       (if bc_needsFlush d
        then (\<exists>t. (t, True) \<in> set (flags d)) \<and>
          (\<forall>ty e rem acc. finished ty d e \<longrightarrow> (\<exists>f. onSBUpdateEnd firefox rem acc e = Inr f))
        else bc_flushRange d = Some []))"
proof -
  define b0 where "b0 = b\<lparr>bc_flushRange := Some (ranges @ [scope]), bc_flushBufferCounter := 0\<rparr>"
  have "calm b0" using assms by (simp add: b0_def calm_def flags_def source_buffers_def comp_def case_prod_beta split: option.splits)
  then obtain c where c: "flush_loop firefox removable (ranges @ [scope]) b0 = Inr c" "calm c"
    "flushed c \<or> waiting c \<and> flush_left (length (the (bc_flushRange c))) c \<le> flush_left (length (ranges @ [scope])) b0"
    using flush_loop_waits by blast
  have left: "flush_left (length (ranges @ [scope])) b0 = busy b + bc_appended b * (length ranges + 1)"
    by (simp add: flush_left_def b0_def busy_def)
  have "onBufferFlushing firefox removable scope b = Inr c"
    using c(1) assms(1) by (simp add: onBufferFlushing_def doFlush_def b0_def)
  moreover have "n \<le> busy b + bc_appended b * (length ranges + 1) \<and> (flushed d \<or> calm d \<and> waiting d)"
    if run: "flush_ends_after firefox n c d" for n d
  proof (cases "flushed c")
    case True
    then show ?thesis using flush_ends_after_over [OF run] by simp
  next
    case False
    then show ?thesis using flush_ends_after_bound [OF run c(2)] c(3) left by auto
  qed
  moreover have "\<exists>f. onSBUpdateEnd firefox rem acc e = Inr f" if "calm d" "waiting d" "finished ty d e" for d ty e rem acc
    using one_update_end [OF that] by blast
  moreover have "flushed d \<Longrightarrow> \<not> bc_needsFlush d \<and> bc_flushRange d = Some []" "waiting d \<Longrightarrow> bc_needsFlush d \<and> (\<exists>t. (t, True) \<in> set (flags d))" for d
    by (auto simp: flushed_def waiting_def)
  ultimately show ?thesis by (intro exI [of _ c]) metis
qed

lemma flush_ends_witness:
  "\<exists>c f. onBufferFlushing False (\<lambda>_ _ _. True) \<lparr>fl_start = Some 0, fl_end = PosInf, fl_type = None\<rparr> (one_buffer 1 True (Some ''main'') []) = Inr c \<and>
    bc_needsFlush c \<and> flush_ends_after False 1 c f"
proof -
  let ?b = "one_buffer 1 True (Some ''main'') []" and ?scope = "\<lparr>fl_start = Some (0 :: rat), fl_end = (PosInf :: rat js), fl_type = None\<rparr>"
  have "bc_flushRange ?b = Some [] \<and> bc_media ?b \<noteq> None \<and> bc_audioTimestampOffset ?b = None \<and> bc_segments ?b \<noteq> None \<and>
      distinct (map fst (source_buffers ?b))"
    by (simp add: one_buffer_def new_BufferController_def source_buffers_def)
  then obtain c where c: "onBufferFlushing False (\<lambda>_ _ _. True) ?scope ?b = Inr c" and
    run: "flush_ends_after False 0 c c \<longrightarrow> (if bc_needsFlush c
      then (\<forall>ty e rem acc. finished ty c e \<longrightarrow> (\<exists>f. onSBUpdateEnd False rem acc e = Inr f)) else bc_flushRange c = Some [])"
    using flush_ends [of ?b "[]" False "\<lambda>_ _ _. True" ?scope] by auto
  have w: "bc_needsFlush c" "flags c = [(''video'', True)]"
    using c by (auto simp: onBufferFlushing_def doFlush_def flushBuffer_def one_buffer_def new_BufferController_def source_buffers_def
        video_buffer_def put_buffer_def put_prop_def flags_def Let_def)
  define e where "e = c\<lparr>bc_media := Some \<lparr>bm_error = False, bm_readyState = 4, bm_duration = Num 10\<rparr>, bc_mediaSource := bc_mediaSource c,
    bc_sourceBuffer := Some [(''video'', video_buffer False [\<lparr>rg_start = 0, rg_end = 10\<rparr>])]\<rparr>"
  have e: "finished ''video'' c e"
    unfolding finished_def w(2) by (intro conjI exI, rule e_def) (simp_all add: e_def flags_def source_buffers_def video_buffer_def)
  then obtain f where "onSBUpdateEnd False (\<lambda>_ _ _. True) (\<lambda>_ _. Accepted) e = Inr f"
    using run w(1) e no_end [of False c] by (simp only: if_True simp_thms) blast
  then have "flush_ends_after False (Suc 0) c f" by (rule one_more [OF no_end w(1) e])
  then show ?thesis using c w(1) by auto
qed

text \<open>
  C36. A flush that reports success, before it has given up: no source buffer it is for is updating, and in each of them at most half a second of
  every range is left in the interval to flush, provided the browser's removals do not throw.
\<close>

theorem flush_complete:
  assumes "flushBuffer firefox (\<lambda>_ _ _. True) scope b = Inr (True, b')" "bc_flushBufferCounter b < bc_appended b"
    and "(ty, sb) \<in> set (source_buffers b)" "fl_type scope = None \<or> fl_type scope = Some ty" "sb_attached sb"
    and "fl_start scope = Some s" "fl_end scope \<noteq> NotNum"
  shows "\<not> sb_updating sb \<and>
    (\<forall>r \<in> set (sb_buffered sb). js_min (Num (rg_end r)) (fl_end scope) \<le> Num (max (rg_start r) s + 1 / 2))"
proof -
  have "flush_types firefox (\<lambda>_ _ _. True) scope (source_buffers b) b = (True, b')"
    using assms(1-3) by (auto simp: flushBuffer_def split: if_splits)
  then have "\<not> sb_updating sb" "\<forall>r \<in> set (sb_buffered sb). \<not> must_flush firefox (Some s) (fl_end scope) r"
    using flush_types_complete [OF _ assms(3,4)] assms(5,6) by auto
  then show ?thesis using must_flush_left assms(7) by blast
qed

lemma flush_complete_witness:
  "\<not> sb_updating nearly_empty \<and> js_min (Num (1 / 5)) PosInf \<le> Num (max 0 0 + 1 / 2 :: rat) \<and> js_min (Num (10 / 3)) PosInf \<le> Num (max 3 0 + 1 / 2 :: rat)"
proof -
  define b where "b = flushing_state\<lparr>bc_sourceBuffer := Some [(''video'', nearly_empty)]\<rparr>"
  define scope where "scope = \<lparr>fl_start = Some (0 :: rat), fl_end = (PosInf :: rat js), fl_type = None\<rparr>"
  have short: "\<not> must_flush False (Some 0) PosInf \<lparr>rg_start = 0, rg_end = 1 / 5\<rparr>" "\<not> must_flush False (Some 0) PosInf \<lparr>rg_start = 3, rg_end = 10 / 3\<rparr>"
    by (simp_all add: must_flush_def flush_span_def js_min_def js_max_def js_defs)
  obtain b' where "flushBuffer False (\<lambda>_ _ _. True) scope b = Inr (True, b')"
    by (simp add: short flushBuffer_def b_def flushing_state_def one_buffer_def new_BufferController_def source_buffers_def nearly_empty_def
        video_buffer_def scope_def Let_def)
  from flush_complete [OF this, of "''video''" nearly_empty 0]
  show ?thesis
    by (simp add: b_def scope_def flushing_state_def one_buffer_def new_BufferController_def source_buffers_def) (simp add: nearly_empty_def video_buffer_def)
qed

text \<open>
  C37. A segment whose appends keep failing stays first in the queue: nothing is lost or reordered. Every failure is reported, and from the
  one after \<open>appendErrorMaxRetry\<close> failures on the reports are fatal.
\<close>

theorem append_retries:
  assumes "ready s b" "bc_appendError b = 0"
  shows "\<exists>b'. append_again firefox removable n b = Inr b' \<and> bc_segments b' = bc_segments b \<and>
    bc_events b' = bc_events b @ map (\<lambda>k. BufferError ''bufferAppendError'' (Some (sg_parent s)) (cf_appendErrorMaxRetry (bc_config b) \<le> k)) [0..<n]"
  using append_again_fails [OF assms(1), of firefox removable n] assms(2) by (simp add: less_Suc_eq_le)

lemma append_retries_witness:
  "\<exists>b'. append_again False (\<lambda>_ _ _. True) 4 ((one_buffer 0 False None [])\<lparr>bc_segments := Some [data_segment 1, data_segment 2]\<rparr>) = Inr b' \<and>
    bc_segments b' = Some [data_segment 1, data_segment 2] \<and>
    bc_events b' = [BufferError ''bufferAppendError'' (Some ''main'') False, BufferError ''bufferAppendError'' (Some ''main'') False,
      BufferError ''bufferAppendError'' (Some ''main'') False, BufferError ''bufferAppendError'' (Some ''main'') True]"
proof -
  let ?b = "(one_buffer 0 False None [])\<lparr>bc_segments := Some [data_segment 1, data_segment 2]\<rparr>"
  have "ready (data_segment 1) ?b"
    by (simp add: ready_def one_buffer_def new_BufferController_def source_buffers_def video_buffer_def data_segment_def)
  moreover have "bc_appendError ?b = 0" "cf_appendErrorMaxRetry (bc_config ?b) = 3" "bc_segments ?b = Some [data_segment 1, data_segment 2]"
    "bc_events ?b = []" "sg_parent (data_segment 1) = ''main''"
    by (simp_all add: one_buffer_def new_BufferController_def hlsDefaultConfig_def data_segment_def)
  ultimately show ?thesis using append_retries [of "data_segment 1" ?b False "\<lambda>_ _ _. True" 4] by (simp add: upt_rec)
qed

end
