(* ===== verification/Request_Loaders.thy ===== *)
theory Request_Loaders
  imports Player_Objects
begin

text \<open>
  The loaders of requests: \<open>src/utils/xhr-loader.js\<close>, \<open>src/loader/fragment-loader.js\<close> and \<open>src/loader/key-loader.js\<close>.
  The request of the browser and its timers are the platform: what it answers are arguments, the timers that are set are
  listed with their delay, and the calls of the callbacks are listed in the order they are made.
\<close>

subsection \<open>A request with retries\<close>

record xhr_context =
  xc_url :: "string option"
  xc_rangeStart :: num
  xc_rangeEnd :: num
  xc_responseType :: string

record xhr_stats =
  ls_trequest :: rat
  ls_tfirst :: rat
  ls_tload :: "rat option"
  ls_loaded :: nat
  ls_total :: "nat option"
  ls_retry :: nat
  ls_aborted :: bool

datatype timer_kind = RequestTimeout | RetryTimeout

datatype xhr_event =
    RequestSent "(num \<times> num) option" \<comment> \<open>with the byte range of its header\<close>
  | RequestAborted
  | RetryIn rat
  | OnSuccess xhr_stats
  | OnError int
  | OnTimeout
  | OnProgress xhr_stats

text \<open>\<open>xl_loader\<close> is the \<open>readyState\<close> of the request, if there is one; \<open>xl_timers\<close> are the timers that are set.\<close>

record xhr_loader =
  xl_context :: xhr_context
  xl_config :: load_config
  xl_stats :: xhr_stats
  xl_retryDelay :: rat
  xl_loader :: "nat option"
  xl_requestTimeout :: "nat option"
  xl_retryTimeout :: "nat option"
  xl_timers :: "(nat \<times> timer_kind \<times> rat) list"
  xl_nextTimer :: nat
  xl_events :: "xhr_event list"

definition told :: "xhr_event list \<Rightarrow> xhr_loader \<Rightarrow> xhr_loader" where
  "told es l = l\<lparr>xl_events := xl_events l @ es\<rparr>"

definition clearTimer :: "nat option \<Rightarrow> xhr_loader \<Rightarrow> xhr_loader" where
  "clearTimer t l = l\<lparr>xl_timers := filter (\<lambda>(i, _). Some i \<noteq> t) (xl_timers l)\<rparr>"

definition setTimer :: "timer_kind \<Rightarrow> rat \<Rightarrow> xhr_loader \<Rightarrow> xhr_loader" where
  "setTimer k delay l =
     (let l' = l\<lparr>xl_timers := xl_timers l @ [(xl_nextTimer l, k, delay)], xl_nextTimer := xl_nextTimer l + 1\<rparr>
      in case k of
           RequestTimeout \<Rightarrow> l'\<lparr>xl_requestTimeout := Some (xl_nextTimer l)\<rparr>
         | RetryTimeout \<Rightarrow> l'\<lparr>xl_retryTimeout := Some (xl_nextTimer l)\<rparr>)"

definition clear_timers :: "xhr_loader \<Rightarrow> xhr_loader" where
  "clear_timers l =
     (let l = (clearTimer (xl_requestTimeout l) l)\<lparr>xl_requestTimeout := None\<rparr>
      in (clearTimer (xl_retryTimeout l) l)\<lparr>xl_retryTimeout := None\<rparr>)"

text \<open>\<open>opens\<close>: the setup of the caller and the call of \<open>open\<close> do not throw.\<close>

definition loadInternal :: "bool \<Rightarrow> xhr_loader \<Rightarrow> xhr_loader" where
  "loadInternal opens l =
     (let l = l\<lparr>xl_loader := Some 0, xl_stats := (xl_stats l)\<lparr>ls_tfirst := 0, ls_loaded := 0\<rparr>\<rparr>
      in if \<not> opens then told [OnError 0] l
         else
           let context = xl_context l;
               header = (if truthy (xc_rangeEnd context) then Some (xc_rangeStart context, num_sub (xc_rangeEnd context) (Some 1)) else None)
           in told [RequestSent header] (setTimer RequestTimeout (lg_timeout (xl_config l)) (l\<lparr>xl_loader := Some 1\<rparr>)))"

text \<open>Every caller makes a new loader for a request.\<close>

definition xhr_load :: "rat \<Rightarrow> bool \<Rightarrow> xhr_context \<Rightarrow> load_config \<Rightarrow> xhr_loader" where
  "xhr_load now opens context config =
     loadInternal opens
       \<lparr>xl_context = context, xl_config = config,
        xl_stats = \<lparr>ls_trequest = now, ls_tfirst = 0, ls_tload = None, ls_loaded = 0, ls_total = None, ls_retry = 0, ls_aborted = False\<rparr>,
        xl_retryDelay = lg_retryDelay config, xl_loader = None, xl_requestTimeout = None, xl_retryTimeout = None, xl_timers = [],
        xl_nextTimer = 1, xl_events = []\<rparr>"

definition request_succeeded :: "rat \<Rightarrow> nat \<Rightarrow> xhr_loader \<Rightarrow> xhr_loader" where
  "request_succeeded now len l =
     (let stats = (xl_stats l)\<lparr>ls_tload := Some (max (ls_tfirst (xl_stats l)) now), ls_loaded := len, ls_total := Some len\<rparr>
      in told [OnSuccess stats] (l\<lparr>xl_stats := stats\<rparr>))"

text \<open>The request is done here, its ready state is 4: \<open>destroy\<close> clears the timers and forgets it, see \<open>destroy_done\<close>.\<close>

definition retry_request :: "xhr_loader \<Rightarrow> xhr_loader" where
  "retry_request l =
     (let l = (clear_timers l)\<lparr>xl_loader := None\<rparr>;
          l = told [RetryIn (xl_retryDelay l)] (setTimer RetryTimeout (xl_retryDelay l) l)
      in l\<lparr>xl_retryDelay := min (2 * xl_retryDelay l) (lg_maxRetryDelay (xl_config l)),
           xl_stats := (xl_stats l)\<lparr>ls_retry := ls_retry (xl_stats l) + 1\<rparr>\<rparr>)"

definition request_failed :: "int \<Rightarrow> xhr_loader \<Rightarrow> xhr_loader" where
  "request_failed status l =
     (if lg_maxRetry (xl_config l) \<le> int (ls_retry (xl_stats l)) \<or> 400 \<le> status \<and> status < 499 then told [OnError status] l
      else retry_request l)"

text \<open>The request goes to \<open>readyState\<close>, at the end with a status and the length of its data.\<close>

definition readystatechange :: "rat \<Rightarrow> nat \<Rightarrow> int \<Rightarrow> nat \<Rightarrow> xhr_loader \<Rightarrow> xhr_loader" where
  "readystatechange now readyState status len l =
     (let l = l\<lparr>xl_loader := Some readyState\<rparr> in
      if ls_aborted (xl_stats l) \<or> readyState < 2 then l
      else
        let l = clearTimer (xl_requestTimeout l) l;
            stats = xl_stats l;
            l = (if ls_tfirst stats = 0 then l\<lparr>xl_stats := stats\<lparr>ls_tfirst := max now (ls_trequest stats)\<rparr>\<rparr> else l)
        in if readyState = 4 then (if 200 \<le> status \<and> status < 300 then request_succeeded now len l else request_failed status l)
           else setTimer RequestTimeout (lg_timeout (xl_config l)) l)"

text \<open>
  What the browser does when it aborts a request: one that was sent goes to the ready state 4 with the status 0, and its listener is
  called before \<open>abort\<close> returns; then the ready state is 0. The listener may have dropped the request.
\<close>

definition request_abort :: "rat \<Rightarrow> nat \<Rightarrow> xhr_loader \<Rightarrow> xhr_loader" where
  "request_abort now readyState l =
     (let l = told [RequestAborted] l;
          l = (if 1 \<le> readyState then readystatechange now 4 0 0 l else l)
      in l\<lparr>xl_loader := map_option (\<lambda>_. 0) (xl_loader l)\<rparr>)"

definition xhr_abort :: "rat \<Rightarrow> xhr_loader \<Rightarrow> xhr_loader" where
  "xhr_abort now l =
     clear_timers (case xl_loader l of
         None \<Rightarrow> l
       | Some readyState \<Rightarrow>
           if readyState \<noteq> 4 then request_abort now readyState (l\<lparr>xl_stats := (xl_stats l)\<lparr>ls_aborted := True\<rparr>\<rparr>) else l)"

definition xhr_destroy :: "rat \<Rightarrow> xhr_loader \<Rightarrow> xhr_loader" where
  "xhr_destroy now l = (xhr_abort now l)\<lparr>xl_loader := None\<rparr>"

lemma destroy_done: "xl_loader l = Some 4 \<Longrightarrow> xhr_destroy now l = (clear_timers l)\<lparr>xl_loader := None\<rparr>"
  by (simp add: xhr_destroy_def xhr_abort_def)

definition xhr_loadtimeout :: "xhr_loader \<Rightarrow> xhr_loader" where
  "xhr_loadtimeout l = told [OnTimeout] l"

definition xhr_loadprogress :: "bool \<Rightarrow> nat \<Rightarrow> nat option \<Rightarrow> xhr_loader \<Rightarrow> xhr_loader" where
  "xhr_loadprogress onProgress loaded newTotal l =
     (let stats = (xl_stats l)\<lparr>ls_loaded := loaded, ls_total := (if newTotal = None then ls_total (xl_stats l) else newTotal)\<rparr>
      in (if onProgress then told [OnProgress stats] else id) (l\<lparr>xl_stats := stats\<rparr>))"

text \<open>A timer that fires is no longer set.\<close>

definition timer_fires :: "bool \<Rightarrow> nat \<times> timer_kind \<times> rat \<Rightarrow> xhr_loader \<Rightarrow> xhr_loader" where
  "timer_fires opens t l =
     (let l = clearTimer (Some (fst t)) l
      in case fst (snd t) of RequestTimeout \<Rightarrow> xhr_loadtimeout l | RetryTimeout \<Rightarrow> loadInternal opens l)"

subsection \<open>Fragments\<close>

text \<open>
  A loader is known by its number; the fragment it loads and the request's context go with it. The callbacks look for
  \<open>context.loader\<close> and \<open>context.type\<close>, which the contexts made here do not have: \<open>loaders\<close> keeps its entry.
\<close>

datatype load_event =
    NewLoader nat xhr_context load_config
  | AbortLoader nat
  | DestroyLoader nat
  | FragLoaded frag bytes xhr_stats
  | FragLoadProgress frag xhr_stats
  | KeyLoaded frag
  | LoadError string frag "int option" \<comment> \<open>details, fragment, status; never fatal\<close>

record frag_loader =
  fl_loaders :: "string \<rightharpoonup> nat"
  fl_next :: nat

definition new_FragmentLoader :: frag_loader where
  "new_FragmentLoader = \<lparr>fl_loaders = Map.empty, fl_next = 0\<rparr>"

definition abort_previous :: "(string \<rightharpoonup> nat) \<Rightarrow> string \<Rightarrow> load_event list" where
  "abort_previous loaders ty = (case loaders ty of None \<Rightarrow> [] | Some n \<Rightarrow> [AbortLoader n])"

definition frag_context :: "(string \<Rightarrow> string \<Rightarrow> string) \<Rightarrow> frag \<Rightarrow> xhr_context" where
  "frag_context resolve frag =
     (let start = byteRangeStartOffset frag; stop = byteRangeEndOffset frag; ranged = (start \<noteq> None \<and> stop \<noteq> None)
      in \<lparr>xc_url = frag_url resolve frag, xc_rangeStart = (if ranged then start else None), xc_rangeEnd = (if ranged then stop else None),
          xc_responseType = ''arraybuffer''\<rparr>)"

definition loader_onFragLoading ::
  "hls_config \<Rightarrow> (string \<Rightarrow> string \<Rightarrow> string) \<Rightarrow> frag \<Rightarrow> frag_loader \<Rightarrow> frag_loader \<times> frag \<times> load_event list" where
  "loader_onFragLoading config resolve frag fl =
     (let n = fl_next fl;
          loaderConfig = \<lparr>lg_maxRetry = 0, lg_timeout = cf_fragLoadingTimeOut config, lg_retryDelay = 0,
                          lg_maxRetryDelay = cf_fragLoadingMaxRetryTimeout config\<rparr>
      in (fl\<lparr>fl_loaders := (fl_loaders fl)(fr_type frag \<mapsto> n), fl_next := n + 1\<rparr>, frag\<lparr>fr_loader := True\<rparr>,
          abort_previous (fl_loaders fl) (fr_type frag) @ [NewLoader n (frag_context resolve frag) loaderConfig]))"

definition frag_loadsuccess :: "bytes \<Rightarrow> xhr_stats \<Rightarrow> frag \<Rightarrow> frag_loader \<Rightarrow> frag_loader \<times> frag \<times> load_event list" where
  "frag_loadsuccess payload stats frag fl =
     (let frag = frag\<lparr>fr_loader := False\<rparr>
      in (fl\<lparr>fl_loaders := (fl_loaders fl)(fr_type frag := None)\<rparr>, frag, [FragLoaded frag payload stats]))"

definition frag_loaderror :: "int \<Rightarrow> frag \<Rightarrow> frag_loader \<Rightarrow> frag_loader \<times> frag \<times> load_event list" where
  "frag_loaderror status frag fl = (fl, frag, [LoadError ''fragLoadError'' frag (Some status)])"

definition frag_loadtimeout :: "frag \<Rightarrow> frag_loader \<Rightarrow> frag_loader \<times> frag \<times> load_event list" where
  "frag_loadtimeout frag fl = (fl, frag, [LoadError ''fragLoadTimeOut'' frag None])"

definition frag_loadprogress :: "xhr_stats \<Rightarrow> frag \<Rightarrow> frag_loader \<Rightarrow> frag_loader \<times> frag \<times> load_event list" where
  "frag_loadprogress stats frag fl = (fl, frag, [FragLoadProgress frag stats])"

definition destroy_loaders :: "string list \<Rightarrow> (string \<rightharpoonup> nat) \<Rightarrow> load_event list" where
  "destroy_loaders types loaders = concat (map (\<lambda>ty. case loaders ty of None \<Rightarrow> [] | Some n \<Rightarrow> [DestroyLoader n]) types)"

definition frag_loader_destroy :: "string list \<Rightarrow> frag_loader \<Rightarrow> frag_loader \<times> load_event list" where
  "frag_loader_destroy types fl = (fl\<lparr>fl_loaders := Map.empty\<rparr>, destroy_loaders types (fl_loaders fl))"

subsection \<open>Keys\<close>

record key_loader =
  kl_loaders :: "string \<rightharpoonup> nat"
  kl_decryptkey :: "bytes option"
  kl_decrypturl :: "string option"
  kl_next :: nat

definition new_KeyLoader :: key_loader where
  "new_KeyLoader = \<lparr>kl_loaders = Map.empty, kl_decryptkey = None, kl_decrypturl = None, kl_next = 0\<rparr>"

definition frag_key_uri :: "(string \<Rightarrow> string \<Rightarrow> string) \<Rightarrow> frag \<Rightarrow> string option result" where
  "frag_key_uri resolve frag = (case decryptdata resolve frag of None \<Rightarrow> Inl TypeError | Some k \<Rightarrow> Inr (key_uri resolve k))"

text \<open>An empty key is an object, and so it counts as a key.\<close>

definition onKeyLoading ::
  "hls_config \<Rightarrow> (string \<Rightarrow> string \<Rightarrow> string) \<Rightarrow> frag \<Rightarrow> key_loader \<Rightarrow> (key_loader \<times> frag \<times> load_event list) result" where
  "onKeyLoading config resolve frag kl =
     (case frag_key_uri resolve frag of
        Inl err \<Rightarrow> Inl err
      | Inr uri \<Rightarrow>
          (case (if uri \<noteq> kl_decrypturl kl then None else kl_decryptkey kl) of
             None \<Rightarrow>
               let n = kl_next kl;
                   context = \<lparr>xc_url = uri, xc_rangeStart = None, xc_rangeEnd = None, xc_responseType = ''arraybuffer''\<rparr>;
                   loaderConfig = \<lparr>lg_maxRetry = int (cf_fragLoadingMaxRetry config), lg_timeout = cf_fragLoadingTimeOut config,
                                   lg_retryDelay = cf_fragLoadingRetryDelay config, lg_maxRetryDelay = cf_fragLoadingMaxRetryTimeout config\<rparr>
               in Inr (kl\<lparr>kl_loaders := (kl_loaders kl)(fr_type frag \<mapsto> n), kl_decrypturl := uri, kl_decryptkey := None, kl_next := n + 1\<rparr>,
                       frag\<lparr>fr_loader := True\<rparr>, abort_previous (kl_loaders kl) (fr_type frag) @ [NewLoader n context loaderConfig])
           | Some key \<Rightarrow> let frag = frag\<lparr>fr_key := Some key\<rparr> in Inr (kl, frag, [KeyLoaded frag])))"

definition key_loadsuccess :: "bytes \<Rightarrow> frag \<Rightarrow> key_loader \<Rightarrow> key_loader \<times> frag \<times> load_event list" where
  "key_loadsuccess data frag kl =
     (let frag = frag\<lparr>fr_key := Some data, fr_loader := False\<rparr>
      in (kl\<lparr>kl_decryptkey := Some data, kl_loaders := (kl_loaders kl)(fr_type frag := None)\<rparr>, frag, [KeyLoaded frag]))"

text \<open>Here the loader of the fragment is aborted; \<open>n\<close> is its number.\<close>

definition key_loaderror :: "int \<Rightarrow> nat \<Rightarrow> frag \<Rightarrow> key_loader \<Rightarrow> key_loader \<times> frag \<times> load_event list" where
  "key_loaderror status n frag kl =
     (kl, frag, (if fr_loader frag then [AbortLoader n] else []) @ [LoadError ''keyLoadError'' frag (Some status)])"

definition key_loadtimeout :: "nat \<Rightarrow> frag \<Rightarrow> key_loader \<Rightarrow> key_loader \<times> frag \<times> load_event list" where
  "key_loadtimeout n frag kl = (kl, frag, (if fr_loader frag then [AbortLoader n] else []) @ [LoadError ''keyLoadTimeOut'' frag None])"

definition key_loader_destroy :: "string list \<Rightarrow> key_loader \<Rightarrow> key_loader \<times> load_event list" where
  "key_loader_destroy types kl = (kl\<lparr>kl_loaders := Map.empty\<rparr>, destroy_loaders types (kl_loaders kl))"

end
