(* ===== verification/Request_Props.thy ===== *)
theory Request_Props
  imports Request_Loaders
begin

text \<open>
  Properties of the loaders of requests, \<open>src/utils/xhr-loader.js\<close> and \<open>src/loader/key-loader.js\<close>, with concrete instances.
\<close>

subsection \<open>What can happen to a request\<close>

text \<open>
  The ready state of a request that was sent only grows, and the browser reports changes and progress until it is 4; a timer that is set
  may fire; the caller may abort or destroy the loader at any time.
\<close>

inductive xhr_step :: "xhr_loader \<Rightarrow> xhr_loader \<Rightarrow> bool" where
  changes: "xl_loader l = Some rs \<Longrightarrow> 1 \<le> rs \<Longrightarrow> rs < 4 \<Longrightarrow> rs \<le> rs' \<Longrightarrow> rs' \<le> 4 \<Longrightarrow> xhr_step l (readystatechange now rs' status len l)"
| progresses: "xl_loader l = Some rs \<Longrightarrow> 1 \<le> rs \<Longrightarrow> rs < 4 \<Longrightarrow> xhr_step l (xhr_loadprogress onProgress n m l)"
| fires: "t \<in> set (xl_timers l) \<Longrightarrow> xhr_step l (timer_fires opens t l)"
| aborts: "xhr_step l (xhr_abort now l)"
| destroys: "xhr_step l (xhr_destroy now l)"

definition sent :: "xhr_loader \<Rightarrow> nat" where
  "sent l = length (filter (\<lambda>e. case e of RequestSent _ \<Rightarrow> True | _ \<Rightarrow> False) (xl_events l))"

definition outcomes :: "xhr_loader \<Rightarrow> nat" where
  "outcomes l = length (filter (\<lambda>e. case e of OnSuccess _ \<Rightarrow> True | OnError _ \<Rightarrow> True | _ \<Rightarrow> False) (xl_events l))"

definition waits :: "xhr_loader \<Rightarrow> rat list" where
  "waits l = concat (map (\<lambda>e. case e of RetryIn d \<Rightarrow> [d] | _ \<Rightarrow> []) (xl_events l))"

text \<open>Everything but aborting: the requests sent, the waits and the calls of the callbacks.\<close>

definition calls :: "xhr_loader \<Rightarrow> xhr_event list" where
  "calls l = filter (\<lambda>e. e \<noteq> RequestAborted) (xl_events l)"

fun nth_wait :: "load_config \<Rightarrow> nat \<Rightarrow> rat" where
  "nth_wait config 0 = lg_retryDelay config"
| "nth_wait config (Suc k) = min (2 * nth_wait config k) (lg_maxRetryDelay config)"

lemma nth_wait_doubles: "0 \<le> lg_maxRetryDelay config \<Longrightarrow> nth_wait config (Suc k) = min (2 ^ Suc k * lg_retryDelay config) (lg_maxRetryDelay config)"
  by (induction k) (auto simp: min_def)

definition counted :: "load_config \<Rightarrow> xhr_loader \<Rightarrow> bool" where
  "counted config l \<longleftrightarrow> xl_config l = config \<and> xl_retryDelay l = nth_wait config (ls_retry (xl_stats l)) \<and>
     waits l = map (nth_wait config) [0..<ls_retry (xl_stats l)] \<and> int (ls_retry (xl_stats l)) \<le> max 0 (lg_maxRetry config)"

definition active :: "xhr_loader \<Rightarrow> bool" where
  "active l \<longleftrightarrow> (\<exists>rs. xl_loader l = Some rs \<and> 1 \<le> rs \<and> rs < 4) \<and> \<not> ls_aborted (xl_stats l) \<and> outcomes l = 0 \<and>
     sent l = Suc (ls_retry (xl_stats l)) \<and> (xl_timers l = [] \<or> (\<exists>i d. xl_timers l = [(i, RequestTimeout, d)] \<and> xl_requestTimeout l = Some i))"

definition waiting :: "xhr_loader \<Rightarrow> bool" where
  "waiting l \<longleftrightarrow> xl_loader l = None \<and> \<not> ls_aborted (xl_stats l) \<and> outcomes l = 0 \<and> sent l = ls_retry (xl_stats l) \<and>
     (\<exists>i d. xl_timers l = [(i, RetryTimeout, d)] \<and> xl_retryTimeout l = Some i)"

definition over :: "xhr_loader \<Rightarrow> bool" where
  "over l \<longleftrightarrow> xl_loader l \<in> {None, Some 0, Some 4} \<and> xl_timers l = [] \<and> outcomes l \<le> 1 \<and> sent l \<le> Suc (ls_retry (xl_stats l))"

lemmas xhr_defs = counted_def clear_timers_def told_def clearTimer_def setTimer_def sent_def outcomes_def waits_def calls_def Let_def

text \<open>The state change that an abort causes is ignored.\<close>

lemma request_abort_ignored:
  "ls_aborted (xl_stats l) \<Longrightarrow> xl_loader l \<noteq> None \<Longrightarrow> request_abort now readyState l = told [RequestAborted] (l\<lparr>xl_loader := Some 0\<rparr>)"
  by (auto simp: request_abort_def readystatechange_def told_def Let_def)

lemma aborted_over:
  assumes "counted config l" "active l \<or> waiting l \<or> over l"
  shows "counted config (xhr_abort now l)" "over (xhr_abort now l)" "calls (xhr_abort now l) = calls l"
  using assms by (auto simp: xhr_abort_def request_abort_ignored active_def waiting_def over_def xhr_defs split: option.splits)

lemma destroyed_over:
  assumes "counted config l" "active l \<or> waiting l \<or> over l"
  shows "counted config (xhr_destroy now l)" "over (xhr_destroy now l)" "calls (xhr_destroy now l) = calls l"
  using aborted_over [OF assms] by (auto simp: xhr_destroy_def over_def xhr_defs)

lemma loadInternal_starts:
  assumes "counted config l" "xl_timers l = []" "\<not> ls_aborted (xl_stats l)" "outcomes l = 0" "sent l = ls_retry (xl_stats l)"
  shows "counted config (loadInternal opens l) \<and> (active (loadInternal opens l) \<or> over (loadInternal opens l))"
  using assms by (auto simp: loadInternal_def active_def over_def xhr_defs)

lemma retry_waits:
  assumes "counted config l" "xl_loader l = Some 4" "xl_timers l = []" "\<not> ls_aborted (xl_stats l)" "outcomes l = 0"
    "sent l = Suc (ls_retry (xl_stats l))" "int (ls_retry (xl_stats l)) < lg_maxRetry config"
  shows "counted config (retry_request l) \<and> waiting (retry_request l)"
  using assms by (auto simp: retry_request_def waiting_def xhr_defs)

lemma readystatechange_ok:
  assumes "counted config l" "active l" "xl_loader l = Some rs" "rs \<le> rs'" "rs' \<le> 4"
  shows "counted config (readystatechange now rs' status len l) \<and>
    (active (readystatechange now rs' status len l) \<or> waiting (readystatechange now rs' status len l) \<or> over (readystatechange now rs' status len l))"
proof (cases "rs' < 2")
  case True
  then show ?thesis using assms by (auto simp: readystatechange_def active_def xhr_defs)
next
  case False
  define l1 where "l1 = clearTimer (xl_requestTimeout l) (l\<lparr>xl_loader := Some rs'\<rparr>)"
  define l2 where "l2 = (if ls_tfirst (xl_stats l1) = 0
    then l1\<lparr>xl_stats := (xl_stats l1)\<lparr>ls_tfirst := max now (ls_trequest (xl_stats l1))\<rparr>\<rparr> else l1)"
  have l2: "counted config l2" "xl_loader l2 = Some rs'" "xl_timers l2 = []" "\<not> ls_aborted (xl_stats l2)" "outcomes l2 = 0"
    "sent l2 = Suc (ls_retry (xl_stats l2))" "xl_config l2 = config"
    using assms by (auto simp: l2_def l1_def active_def xhr_defs)
  have r: "readystatechange now rs' status len l =
      (if rs' = 4 then (if 200 \<le> status \<and> status < 300 then request_succeeded now len l2 else request_failed status l2)
       else setTimer RequestTimeout (lg_timeout (xl_config l2)) l2)"
    using assms(2) False by (simp add: readystatechange_def active_def l2_def l1_def Let_def clearTimer_def)
  show ?thesis
  proof (cases "rs' = 4")
    case True
    have "counted config (request_succeeded now len l2) \<and> over (request_succeeded now len l2)"
      using l2 True by (auto simp: request_succeeded_def over_def xhr_defs)
    moreover have "counted config (request_failed status l2) \<and> (waiting (request_failed status l2) \<or> over (request_failed status l2))"
      using l2 True retry_waits [OF l2(1)] by (auto simp: request_failed_def over_def xhr_defs)
    ultimately show ?thesis using r True by simp
  next
    case False
    then show ?thesis using l2 r \<open>\<not> rs' < 2\<close> assms(5) by (auto simp: active_def xhr_defs)
  qed
qed

lemma xhr_step_ok:
  assumes "xhr_step l l'" "counted config l" "active l \<or> waiting l \<or> over l"
  shows "counted config l' \<and> (active l' \<or> waiting l' \<or> over l')"
  using assms
proof (induction rule: xhr_step.induct)
  case (changes l rs rs' now status len)
  then have "active l" by (auto simp: waiting_def over_def)
  then show ?case using readystatechange_ok [OF changes.prems(1) _ changes.hyps(1,4,5)] by blast
next
  case (progresses l rs onProgress n m)
  then have "active l" by (auto simp: waiting_def over_def)
  then show ?case using progresses.prems(1) by (auto simp: xhr_loadprogress_def active_def xhr_defs)
next
  case (fires t l opens)
  then consider "active l" | "waiting l" by (auto simp: over_def)
  then show ?case
  proof cases
    case 1
    then show ?thesis using fires by (auto simp: timer_fires_def xhr_loadtimeout_def active_def xhr_defs)
  next
    case 2
    define k where "k = clearTimer (Some (fst t)) l"
    have "timer_fires opens t l = loadInternal opens k" using 2 fires.hyps by (auto simp: timer_fires_def waiting_def k_def)
    moreover have "counted config k" "xl_timers k = []" "\<not> ls_aborted (xl_stats k)" "outcomes k = 0" "sent k = ls_retry (xl_stats k)"
      using 2 fires by (auto simp: k_def waiting_def xhr_defs)
    ultimately show ?thesis using loadInternal_starts by metis
  qed
next
  case (aborts l)
  then show ?case using aborted_over by blast
next
  case (destroys l)
  then show ?case using destroyed_over by blast
qed

lemma xhr_load_ok: "counted config (xhr_load now opens context config) \<and>
    (active (xhr_load now opens context config) \<or> over (xhr_load now opens context config))"
  unfolding xhr_load_def by (rule loadInternal_starts) (simp_all add: xhr_defs)

lemma xhr_reachable_ok:
  assumes "xhr_step\<^sup>*\<^sup>* (xhr_load now opens context config) l"
  shows "counted config l \<and> (active l \<or> waiting l \<or> over l)"
  using assms by (induction rule: rtranclp_induct) (use xhr_load_ok xhr_step_ok in blast)+

lemma over_silent:
  assumes "xhr_step\<^sup>*\<^sup>* l l'" "over l" "counted config l"
  shows "over l' \<and> counted config l' \<and> calls l' = calls l"
  using assms
proof (induction rule: rtranclp_induct)
  case (step l' l'')
  then have o: "over l'" "counted config l'" "calls l' = calls l" by auto
  from step.hyps(2) o(1) have "\<exists>now. l'' = xhr_abort now l' \<or> l'' = xhr_destroy now l'"
    by (cases rule: xhr_step.cases) (auto simp: over_def)
  then show ?case using aborted_over [OF o(2)] destroyed_over [OF o(2)] o by auto
qed simp

subsection \<open>What can happen to the keys\<close>

text \<open>
  The requests that can still report, with their fragments: a request that was aborted, or that has ended, is silent. \<open>handed\<close> are
  the fragments whose key was reported. The player asks for keys of fragments of the given \<open>types\<close>.
\<close>

record key_world =
  kw_loader :: key_loader
  kw_alive :: "(nat \<times> frag) list"
  kw_handed :: "frag list"

fun track_event :: "frag \<Rightarrow> load_event \<Rightarrow> key_world \<Rightarrow> key_world" where
  "track_event f (NewLoader n _ _) w = w\<lparr>kw_alive := kw_alive w @ [(n, f)]\<rparr>"
| "track_event f (AbortLoader n) w = w\<lparr>kw_alive := filter (\<lambda>(k, _). k \<noteq> n) (kw_alive w)\<rparr>"
| "track_event f (DestroyLoader n) w = w\<lparr>kw_alive := filter (\<lambda>(k, _). k \<noteq> n) (kw_alive w)\<rparr>"
| "track_event f (KeyLoaded g) w = w\<lparr>kw_handed := kw_handed w @ [g]\<rparr>"
| "track_event f _ w = w"

definition track :: "key_loader \<times> frag \<times> load_event list \<Rightarrow> key_world \<Rightarrow> key_world" where
  "track = (\<lambda>(kl, f, es) w. fold (track_event f) es (w\<lparr>kw_loader := kl\<rparr>))"

definition ended :: "nat \<Rightarrow> key_world \<Rightarrow> key_world" where
  "ended n w = w\<lparr>kw_alive := filter (\<lambda>(k, _). k \<noteq> n) (kw_alive w)\<rparr>"

inductive key_run :: "hls_config \<Rightarrow> (string \<Rightarrow> string \<Rightarrow> string) \<Rightarrow> (string option \<Rightarrow> bytes) \<Rightarrow> string set \<Rightarrow> key_world \<Rightarrow> bool"
  for config resolve server types where
  key_new: "key_run config resolve server types \<lparr>kw_loader = new_KeyLoader, kw_alive = [], kw_handed = []\<rparr>"
| key_asked: "key_run config resolve server types w \<Longrightarrow> fr_type f \<in> types \<Longrightarrow> onKeyLoading config resolve f (kw_loader w) = Inr r \<Longrightarrow>
    key_run config resolve server types (track r w)"
| key_served: "key_run config resolve server types w \<Longrightarrow> (n, f) \<in> set (kw_alive w) \<Longrightarrow> frag_key_uri resolve f = Inr uri \<Longrightarrow>
    key_run config resolve server types (track (key_loadsuccess (server uri) f (kw_loader w)) (ended n w))"
| key_failed: "key_run config resolve server types w \<Longrightarrow> (n, f) \<in> set (kw_alive w) \<Longrightarrow>
    key_run config resolve server types (track (key_loaderror status n f (kw_loader w)) (ended n w))"
| key_late: "key_run config resolve server types w \<Longrightarrow> (n, f) \<in> set (kw_alive w) \<Longrightarrow>
    key_run config resolve server types (track (key_loadtimeout n f (kw_loader w)) w)"

definition right_key :: "(string \<Rightarrow> string \<Rightarrow> string) \<Rightarrow> (string option \<Rightarrow> bytes) \<Rightarrow> frag \<Rightarrow> bool" where
  "right_key resolve server f \<longleftrightarrow> (\<exists>uri. frag_key_uri resolve f = Inr uri \<and> fr_key f = Some (server uri))"

text \<open>With one type of fragments, the requests that can still report are for the key that was asked for last.\<close>

definition keys_ok :: "(string \<Rightarrow> string \<Rightarrow> string) \<Rightarrow> (string option \<Rightarrow> bytes) \<Rightarrow> string \<Rightarrow> key_world \<Rightarrow> bool" where
  "keys_ok resolve server ty w \<longleftrightarrow>
     (\<forall>(n, f) \<in> set (kw_alive w). kl_loaders (kw_loader w) ty = Some n \<and> fr_type f = ty \<and> frag_key_uri resolve f = Inr (kl_decrypturl (kw_loader w))) \<and>
     (\<forall>key. kl_decryptkey (kw_loader w) = Some key \<longrightarrow> key = server (kl_decrypturl (kw_loader w))) \<and>
     (\<forall>f \<in> set (kw_handed w). right_key resolve server f)"

lemma frag_key_uri_fields [simp]:
  "frag_key_uri resolve (f\<lparr>fr_loader := b\<rparr>) = frag_key_uri resolve f" "frag_key_uri resolve (f\<lparr>fr_key := k\<rparr>) = frag_key_uri resolve f"
  by (simp_all add: frag_key_uri_def decryptdata_def)

lemma asked_ok:
  assumes "keys_ok resolve server ty w" "fr_type f = ty" "onKeyLoading config resolve f (kw_loader w) = Inr r"
  shows "keys_ok resolve server ty (track r w)"
proof -
  obtain uri where uri: "frag_key_uri resolve f = Inr uri" using assms(3) by (auto simp: onKeyLoading_def split: sum.splits)
  let ?kl = "kw_loader w"
  show ?thesis
  proof (cases "if uri \<noteq> kl_decrypturl ?kl then None else kl_decryptkey ?kl")
    case (Some key)
    then have "uri = kl_decrypturl ?kl" "kl_decryptkey ?kl = Some key" by (auto split: if_splits)
    then show ?thesis using assms uri by (auto simp: onKeyLoading_def track_def keys_ok_def right_key_def Let_def)
  next
    case None
    then have r: "\<exists>c d. r = (?kl\<lparr>kl_loaders := (kl_loaders ?kl)(ty \<mapsto> kl_next ?kl), kl_decrypturl := uri, kl_decryptkey := None, kl_next := kl_next ?kl + 1\<rparr>,
        f\<lparr>fr_loader := True\<rparr>, abort_previous (kl_loaders ?kl) ty @ [NewLoader (kl_next ?kl) c d])"
      using assms(2,3) uri by (auto simp: onKeyLoading_def Let_def split: if_splits)
    have "filter (\<lambda>(k, _). k \<noteq> n) (kw_alive w) = []" if "kl_loaders ?kl ty = Some n" for n
      using assms(1) that by (auto simp: keys_ok_def filter_empty_conv)
    moreover have "kw_alive w = []" if "kl_loaders ?kl ty = None"
      using assms(1) that by (cases "kw_alive w") (auto simp: keys_ok_def)
    ultimately show ?thesis
      using r assms(1,2) uri by (cases "kl_loaders ?kl ty") (auto simp: track_def keys_ok_def abort_previous_def)
  qed
qed

lemma served_ok:
  assumes "keys_ok resolve server ty w" "(n, f) \<in> set (kw_alive w)" "frag_key_uri resolve f = Inr uri"
  shows "keys_ok resolve server ty (track (key_loadsuccess (server uri) f (kw_loader w)) (ended n w))"
proof -
  have "k = n" if "(k, g) \<in> set (kw_alive w)" for k g
    using assms(1,2) that unfolding keys_ok_def by (metis (mono_tags, lifting) case_prodD option.inject)
  then have "filter (\<lambda>(k, _). k \<noteq> n) (kw_alive w) = []" by (auto simp: filter_empty_conv)
  moreover have "uri = kl_decrypturl (kw_loader w)" using assms by (fastforce simp: keys_ok_def)
  ultimately show ?thesis using assms by (auto simp: key_loadsuccess_def track_def ended_def keys_ok_def right_key_def Let_def)
qed

lemma key_run_ok: "key_run config resolve server {ty} w \<Longrightarrow> keys_ok resolve server ty w"
proof (induction rule: key_run.induct)
  case key_new
  then show ?case by (simp add: keys_ok_def new_KeyLoader_def)
next
  case (key_asked w f r)
  then show ?case using asked_ok by blast
next
  case (key_served w n f uri)
  then show ?case using served_ok by blast
next
  case (key_failed w n f status)
  then show ?case by (auto simp: key_loaderror_def track_def ended_def keys_ok_def)
next
  case (key_late w n f)
  then show ?case by (auto simp: key_loadtimeout_def track_def keys_ok_def)
qed

subsection \<open>The properties\<close>

definition retry_thrice :: load_config where
  "retry_thrice = \<lparr>lg_maxRetry = 3, lg_timeout = 20000, lg_retryDelay = 1000, lg_maxRetryDelay = 3000\<rparr>"

definition plain_context :: xhr_context where
  "plain_context = \<lparr>xc_url = Some ''a.ts'', xc_rangeStart = None, xc_rangeEnd = None, xc_responseType = ''arraybuffer''\<rparr>"

text \<open>The first request fails with an error of the server, and its first retry too.\<close>

definition failed_once :: xhr_loader where
  "failed_once = readystatechange 5 4 503 0 (xhr_load 1 True plain_context retry_thrice)"

definition failed_twice :: xhr_loader where
  "failed_twice = readystatechange 2000 4 503 0 (timer_fires True (2, RetryTimeout, 1000) failed_once)"

lemma failed_once_step: "xhr_step (xhr_load 1 True plain_context retry_thrice) failed_once"
  unfolding failed_once_def by (rule changes [of _ 1]) (simp_all add: xhr_load_def loadInternal_def xhr_defs)

lemma failed_twice_steps: "xhr_step\<^sup>*\<^sup>* (xhr_load 1 True plain_context retry_thrice) failed_twice"
proof -
  have t: "xl_timers failed_once = [(2, RetryTimeout, 1000)]"
    by (simp add: failed_once_def readystatechange_def request_failed_def retry_request_def xhr_load_def
        loadInternal_def plain_context_def retry_thrice_def xhr_defs)
  have 1: "xhr_step failed_once (timer_fires True (2, RetryTimeout, 1000) failed_once)" by (rule fires) (simp add: t)
  have 2: "xhr_step (timer_fires True (2, RetryTimeout, 1000) failed_once) failed_twice"
    unfolding failed_twice_def by (rule changes [of _ 1]) (simp_all add: timer_fires_def loadInternal_def xhr_defs)
  show ?thesis using failed_once_step 1 2 
    by (rule converse_rtranclp_into_rtranclp [OF _ converse_rtranclp_into_rtranclp [OF _ r_into_rtranclp]])
qed

text \<open>
  C38. However the browser answers, and whenever the caller aborts: a load sends at most one request more than \<open>maxRetry\<close>, reports success or
  an error at most once, and waits before the retries: \<open>retryDelay\<close> at first, even when this is longer than \<open>maxRetryDelay\<close>, then twice as long
  each time, up to \<open>maxRetryDelay\<close>. A timeout ends nothing: it may be reported before, see \<open>timeout_then_success\<close>.
\<close>

theorem xhr_retries:
  assumes "xhr_step\<^sup>*\<^sup>* (xhr_load now opens context config) l" "0 \<le> lg_maxRetryDelay config"
  shows "sent l \<le> Suc (nat (lg_maxRetry config)) \<and> outcomes l \<le> 1 \<and> length (waits l) \<le> nat (lg_maxRetry config) \<and>
    waits l = map (\<lambda>k. if k = 0 then lg_retryDelay config else min (2 ^ k * lg_retryDelay config) (lg_maxRetryDelay config)) [0..<length (waits l)]"
proof -
  have ok: "counted config l" "active l \<or> waiting l \<or> over l" using xhr_reachable_ok [OF assms(1)] by auto
  have "nth_wait config k = (if k = 0 then lg_retryDelay config else min (2 ^ k * lg_retryDelay config) (lg_maxRetryDelay config))" for k
    using nth_wait_doubles [OF assms(2)] by (cases k) simp_all
  then show ?thesis using ok by (auto simp: counted_def active_def waiting_def over_def)
qed

lemma xhr_retries_witness:
  "sent failed_twice \<le> 4 \<and> outcomes failed_twice \<le> 1 \<and> waits failed_twice = [1000, 2000]"
proof -
  have len: "length (waits failed_twice) = 2"
    by (simp add: failed_twice_def failed_once_def timer_fires_def readystatechange_def request_failed_def retry_request_def xhr_load_def
        loadInternal_def plain_context_def retry_thrice_def xhr_defs)
  show ?thesis using xhr_retries [OF failed_twice_steps, unfolded len] by (simp add: retry_thrice_def upt_rec)
qed

text \<open>Nothing aborts a request whose timeout was reported, so that it may still succeed.\<close>

lemma timeout_then_success:
  "\<exists>l stats. xhr_step\<^sup>*\<^sup>* (xhr_load 1 True plain_context retry_thrice) l \<and>
     xl_events l = [RequestSent None, OnTimeout, OnSuccess stats]"
proof -
  let ?l = "xhr_load 1 True plain_context retry_thrice"
  let ?t = "timer_fires True (1, RequestTimeout, 20000) ?l"
  have "xhr_step ?l ?t" by (rule fires) (simp add: xhr_load_def loadInternal_def retry_thrice_def xhr_defs)
  moreover have "xhr_step ?t (readystatechange 30000 4 200 100 ?t)"
    by (rule changes [of _ 1]) (simp_all add: timer_fires_def xhr_loadtimeout_def xhr_load_def loadInternal_def xhr_defs)
  ultimately have "xhr_step\<^sup>*\<^sup>* ?l (readystatechange 30000 4 200 100 ?t)" by simp
  moreover have "\<exists>stats. xl_events (readystatechange 30000 4 200 100 ?t) = [RequestSent None, OnTimeout, OnSuccess stats]"
    by (simp add: readystatechange_def request_succeeded_def timer_fires_def xhr_loadtimeout_def xhr_load_def loadInternal_def plain_context_def xhr_defs)
  ultimately show ?thesis by blast
qed

text \<open>
  C39. After a load has reported success or an error, or was aborted, nothing more comes of it, whatever its request and timers do - also not of
  the state change that the browser reports while the request is aborted: no request is sent, no retry is planned and no callback is called.
\<close>

theorem xhr_silent:
  assumes "xhr_step\<^sup>*\<^sup>* (xhr_load now opens context config) l" "outcomes l = 1 \<and> k = l \<or> k = xhr_abort time l" "xhr_step\<^sup>*\<^sup>* k l'"
  shows "calls l' = calls l"
proof -
  have ok: "counted config l" "active l \<or> waiting l \<or> over l" using xhr_reachable_ok [OF assms(1)] by auto
  then have "over k" "counted config k" "calls k = calls l"
    using assms(2) aborted_over [OF ok] by (auto simp: active_def waiting_def)
  then show ?thesis using over_silent [OF assms(3)] by simp
qed

lemma xhr_silent_witness:
  "calls (xhr_destroy 4 (xhr_abort 3 (xhr_load 1 True plain_context retry_thrice))) = [RequestSent None]"
proof -
  have "calls (xhr_load 1 True plain_context retry_thrice) = [RequestSent None]"
    by (simp add: xhr_load_def loadInternal_def plain_context_def xhr_defs)
  moreover have "calls (xhr_destroy 4 (xhr_abort 3 (xhr_load 1 True plain_context retry_thrice))) = calls (xhr_load 1 True plain_context retry_thrice)"
    by (rule xhr_silent [where k = "xhr_abort 3 (xhr_load 1 True plain_context retry_thrice)" and time = 3, OF rtranclp.rtrancl_refl]) (simp, rule r_into_rtranclp, rule destroys)
  ultimately show ?thesis by simp
qed

definition key_frag :: "string \<Rightarrow> string \<Rightarrow> frag" where
  "key_frag ty uri = new_Fragment\<lparr>fr_type := ty, fr_sn := SN 1, fr_levelkey := Some (new_LevelKey\<lparr>lk_method := Some ''AES-128'', lk_reluri := Some uri\<rparr>)\<rparr>"

text \<open>A URI is its own resolution, and the server has two keys.\<close>

definition flat :: "string \<Rightarrow> string \<Rightarrow> string" where
  "flat u b = u"

definition two_keys :: "string option \<Rightarrow> bytes" where
  "two_keys u = (if u = Some ''b.key'' then [2] else [1])"

definition no_keys :: key_world where
  "no_keys = \<lparr>kw_loader = new_KeyLoader, kw_alive = [], kw_handed = []\<rparr>"

definition asked :: "frag \<Rightarrow> key_world \<Rightarrow> key_world" where
  "asked f w = track (projr (onKeyLoading hlsDefaultConfig flat f (kw_loader w))) w"

lemma key_frag_uri [simp]: "frag_key_uri flat (key_frag ty (c # uri)) = Inr (Some (c # uri))" "fr_type (key_frag ty u) = ty"
  by (simp_all add: key_frag_def frag_key_uri_def decryptdata_def fragmentDecryptdataFromLevelkey_def key_uri_def new_Fragment_def
      new_LevelKey_def flat_def filled_string_def)

lemma no_keys_run: "key_run hlsDefaultConfig flat server types no_keys"
  unfolding no_keys_def by (rule key_new)

lemma asked_run:
  "key_run hlsDefaultConfig flat server types w \<Longrightarrow> ty \<in> types \<Longrightarrow> key_run hlsDefaultConfig flat server types (asked (key_frag ty (c # uri)) w)"
proof -
  assume w: "key_run hlsDefaultConfig flat server types w" "ty \<in> types"
  have "\<exists>r. onKeyLoading hlsDefaultConfig flat (key_frag ty (c # uri)) (kw_loader w) = Inr r"
    by (simp add: onKeyLoading_def Let_def split: option.split)
  then show ?thesis using key_asked [OF w(1), of "key_frag ty (c # uri)"] w(2) by (auto simp: asked_def)
qed

lemmas asked_simps = asked_def onKeyLoading_def track_def abort_previous_def new_KeyLoader_def no_keys_def Let_def

text \<open>
  C40. As long as keys are asked for fragments of one type, every fragment gets the key that the server has at its own URI,
  whichever requests fail, run into their timeout or are overtaken by the next one.
\<close>

theorem key_for_uri:
  assumes "key_run config resolve server {ty} w" "f \<in> set (kw_handed w)"
  shows "\<exists>uri. frag_key_uri resolve f = Inr uri \<and> fr_key f = Some (server uri)"
  using key_run_ok [OF assms(1)] assms(2) by (auto simp: keys_ok_def right_key_def)

lemma key_for_uri_witness:
  "\<exists>(w :: key_world) f. f \<in> set (kw_handed w) \<and> (\<exists>uri. frag_key_uri flat f = Inr uri \<and> fr_key f = Some (two_keys uri))"
proof -
  let ?w = "asked (key_frag ''main'' ''b.key'') (asked (key_frag ''main'' ''a.key'') no_keys)"
  let ?f = "(key_frag ''main'' ''b.key'')\<lparr>fr_loader := True\<rparr>"
  let ?v = "track (key_loadsuccess [2] ?f (kw_loader ?w)) (ended 1 ?w)"
  have "key_run hlsDefaultConfig flat two_keys {''main''} ?w" by (simp add: asked_run no_keys_run)
  moreover have "(1, ?f) \<in> set (kw_alive ?w)" by (simp add: asked_simps)
  moreover have "frag_key_uri flat ?f = Inr (Some ''b.key'')" by simp
  ultimately have run: "key_run hlsDefaultConfig flat two_keys {''main''} ?v"
    using key_served [of hlsDefaultConfig flat two_keys "{''main''}" ?w 1 ?f "Some ''b.key''"] by (simp add: two_keys_def)
  have handed: "?f\<lparr>fr_key := Some [2], fr_loader := False\<rparr> \<in> set (kw_handed ?v)"
    by (simp add: key_loadsuccess_def track_def Let_def)
  show ?thesis using handed key_for_uri [OF run handed] by blast
qed

text \<open>
  With two types it may get another one: the loader remembers one URI and one key, and a response for one type is taken for the key of the
  URI that was asked for last, for another type.
\<close>

lemma keys_mixed_up:
  "\<exists>w f. key_run hlsDefaultConfig flat two_keys {''main'', ''audio''} w \<and> f \<in> set (kw_handed w) \<and>
     frag_key_uri flat f = Inr (Some ''b.key'') \<and> fr_key f \<noteq> Some (two_keys (Some ''b.key''))"
proof -
  let ?w = "asked (key_frag ''audio'' ''b.key'') (asked (key_frag ''main'' ''a.key'') no_keys)"
  let ?f = "(key_frag ''main'' ''a.key'')\<lparr>fr_loader := True\<rparr>"
  let ?v = "track (key_loadsuccess [1] ?f (kw_loader ?w)) (ended 0 ?w)"
  let ?u = "asked (key_frag ''main'' ''b.key'') ?v"
  have "key_run hlsDefaultConfig flat two_keys {''main'', ''audio''} ?w" by (simp add: asked_run no_keys_run)
  moreover have "(0, ?f) \<in> set (kw_alive ?w)" by (simp add: asked_simps)
  moreover have "frag_key_uri flat ?f = Inr (Some ''a.key'')" by simp
  ultimately have "key_run hlsDefaultConfig flat two_keys {''main'', ''audio''} ?v"
    using key_served [of hlsDefaultConfig flat two_keys "{''main'', ''audio''}" ?w 0 ?f "Some ''a.key''"] by (simp add: two_keys_def)
  then have "key_run hlsDefaultConfig flat two_keys {''main'', ''audio''} ?u" by (simp add: asked_run)
  moreover have "(key_frag ''main'' ''b.key'')\<lparr>fr_key := Some [1]\<rparr> \<in> set (kw_handed ?u)"
    by (simp add: asked_simps key_loadsuccess_def ended_def)
  moreover have "frag_key_uri flat ((key_frag ''main'' ''b.key'')\<lparr>fr_key := Some [1]\<rparr>) = Inr (Some ''b.key'')" by simp
  ultimately show ?thesis by (intro exI conjI) (assumption+, simp add: two_keys_def)
qed

end
