(* ===== verification/Spec2Isabelle.thy ===== *)
theory Spec2Isabelle
  imports Golomb_Props Mp4_Props Cea608_Props Aes_Props Ts_Props Audio_Props Remux_Props Playlist_Props Inline_Props Quality_Props Stream_Props Buffer_Props Request_Props
begin

text \<open>
  A verification development for hls.js, the JavaScript player of HTTP live streams that the RTSP server of this
  repository ships under \<open>src/hls.js\<close>. File names below are relative to \<open>src/hls.js/src\<close>.

  \<^bold>\<open>The program.\<close> The player loads a playlist (\<open>loader/playlist-loader.js\<close>), keeps the fragments of a level with
  their times (\<open>helper/level-helper.js\<close>), finds the fragment for a position (\<open>utils/binary-search.js\<close>,
  \<open>utils/discontinuities.js\<close>, \<open>helper/buffer-helper.js\<close>), decrypts it (\<open>crypt/*\<close>), demultiplexes it (\<open>demux/*\<close>) into
  an audio track, a video track, ID3 samples and captions, and remuxes the tracks into fragmented MP4 (\<open>remux/*\<close>) for the
  browser. Captions in the video go to \<open>utils/cea-608-parser.js\<close>. The scheduler (\<open>controller/stream-controller.js\<close>)
  decides which fragment is loaded next and what follows on a failure; the quality controllers
  (\<open>controller/abr-controller.js\<close>, \<open>level-controller.js\<close>, \<open>cap-level-controller.js\<close>, \<open>fps-controller.js\<close>) decide at which
  level, on an estimate of the bandwidth (\<open>utils/ewma*.js\<close>). The components on the path of the data meet in calls that
  carry plain data, and so each is a group of theories: its definitions, the lemmas of its contract, and a theory
  \<open>..._Props\<close> with the properties. The controllers meet in the events they trigger and in the properties of
  the player; their state is one record that contains the level controllers.

  \<^bold>\<open>Shared ground.\<close> \<open>Js_Prelude\<close> holds bytes, the error type, results (\<open>error + 'a\<close>, every throw of the code is an
  \<open>Inl\<close>) and the 32-bit operators of JavaScript on \<open>int\<close>; \<open>Js_Values\<close> holds numbers (\<open>num\<close>, a rational or
  \<open>None\<close> for \<open>NaN\<close> and \<open>undefined\<close> in arithmetic), rounding, strings and the stable sort; \<open>Js_Regex\<close> is a
  backtracking matcher for the regular expressions of the code; \<open>Bit_Lists\<close> are bit strings; \<open>Js_Floats\<close> holds the numbers
  of the controllers, which reach infinities and \<open>NaN\<close>, over an ordered field.

  \<^bold>\<open>Components and theories.\<close>
  \<^item> \<open>demux/exp-golomb.js\<close>: \<open>Exp_Golomb\<close> (the reader and the parser of parameter sets), \<open>Golomb_Codes\<close> (what the reader has
    left is a bit string; the locale \<open>bit_reader\<close>, interpreted on \<open>readBits\<close>, \<open>skipLZ\<close> and \<open>skipBits\<close>; the codes of the
    H.264 standard, scaling lists included, and what a parameter set means there for each chroma format), \<open>Golomb_Props\<close>.
  \<^item> \<open>remux/mp4-generator.js\<close> and \<open>demux/mp4demuxer.js\<close>: \<open>Mp4_Generator\<close>, \<open>Mp4_Demuxer\<close>, \<open>Mp4_Boxes\<close> (boxes as trees;
    the locale \<open>box_reader\<close>, interpreted on the reader of the demuxer), \<open>Mp4_Segments\<close>, \<open>Mp4_Props\<close>.
  \<^item> \<open>utils/cea-608-parser.js\<close>: \<open>Cea608\<close> (pen, rows, screens, channels, parser), \<open>Cea608_Ops\<close> (the locales \<open>row_op\<close>,
    \<open>screen_op\<close>, \<open>channel_op\<close> and \<open>parser_op\<close> with an interpretation for every operation, each contract lifted to the next
    level by a \<open>sublocale\<close>), \<open>Cea608_Captions\<close> (what a caption looks like), \<open>Cea608_Props\<close> (reachable states, and
    runs in the order of time).
  \<^item> \<open>crypt/aes-decryptor.js\<close>: \<open>Aes_Decryptor\<close>; \<open>Aes_Tables\<close>, \<open>Aes_Field\<close> and \<open>Aes_Cbc\<close>
    relate its tables, key schedule and loop to FIPS 197 (the locale \<open>block_cipher\<close>); \<open>Aes_Props\<close>.
  \<^item> \<open>crypt/decrypter.js\<close>, \<open>crypt/fast-aes-key.js\<close>, \<open>crypt/aes-crypto.js\<close> and \<open>demux/sample-aes.js\<close>: \<open>Sample_Aes\<close>, with
    the lemmas in \<open>Sample_Aes_Tracks\<close> (the protection that the format prescribes, the slices that the decrypter
    gives back, and the locale \<open>sample_cipher\<close>, interpreted on the software decryptor).
  \<^item> \<open>demux/adts.js\<close>, \<open>demux/mpegaudio.js\<close> and \<open>helper/aac.js\<close>: \<open>Audio_Frames\<close> and \<open>Audio_Headers\<close>;
    \<open>demux/id3.js\<close>: \<open>Id3\<close>; \<open>demux/aacdemuxer.js\<close> and \<open>demux/mp3demuxer.js\<close>: \<open>Audio_Demuxers\<close>; \<open>Audio_Props\<close>.
  \<^item> \<open>demux/tsdemuxer.js\<close>: \<open>Ts_Pes\<close> (tables and packets), \<open>Ts_Avc\<close> (units, access units, captions), \<open>Ts_Demuxer\<close> (audio and
    the loop over a fragment); lemmas in \<open>Ts_Packets\<close>, \<open>Ts_Aac\<close>, \<open>Ts_Nal\<close>, \<open>Ts_Sei\<close>, \<open>Ts_Tables\<close> and \<open>Ts_Fragments\<close>
    (the locale \<open>stream_keeps\<close>); \<open>Ts_Props\<close>.
  \<^item> \<open>remux/mp4-remuxer.js\<close>: \<open>Mp4_Remuxer\<close> (timestamps and video) and \<open>Mp4_Remux_Audio\<close> (audio and \<open>remux\<close>); lemmas in
    \<open>Remux_Timeline\<close> and \<open>Remux_Frames\<close>; \<open>Remux_Props\<close>.
  \<^item> \<open>demux/demuxer-inline.js\<close>, \<open>demux/demuxer.js\<close> and \<open>remux/passthrough-remuxer.js\<close>: \<open>Demuxer_Inline\<close>, where the decrypter, the
    demuxers and the remuxers are composed; \<open>Ts_Stream\<close> and \<open>Inline_Audio\<close> follow a fragment from its tables to the MP4
    fragment that comes out; \<open>Inline_Props\<close>, with the properties of the whole path.
  \<^item> \<open>loader/playlist-loader.js\<close>: \<open>Playlist_Loader\<close>, over \<open>Attr_List\<close> (\<open>utils/attr-list.js\<close> and \<open>utils/codecs.js\<close>); lemmas in
    \<open>Playlist_Parse\<close> and \<open>Playlist_Roundtrip\<close>.
  \<^item> \<open>helper/level-helper.js\<close>, \<open>utils/binary-search.js\<close>, \<open>utils/discontinuities.js\<close> and \<open>helper/buffer-helper.js\<close>:
    \<open>Playlist_Helpers\<close>; lemmas in \<open>Playlist_Laws\<close> and \<open>Search_Laws\<close> (the locale \<open>keyed_search\<close>); \<open>Playlist_Props\<close>.
  \<^item> \<open>utils/ewma.js\<close> and \<open>utils/ewma-bandwidth-estimator.js\<close>: \<open>Ewma\<close>; the options of \<open>config.js\<close> and the levels and
    fragments that the controllers share: \<open>Player_Objects\<close>; \<open>controller/abr-controller.js\<close>: \<open>Abr_Controller\<close>;
    \<open>controller/level-controller.js\<close> and the getters of \<open>hls.js\<close> for levels: \<open>Level_Controller\<close>;
    \<open>controller/cap-level-controller.js\<close> and \<open>controller/fps-controller.js\<close>: \<open>Level_Capping\<close>; lemmas in \<open>Quality_Laws\<close> (the
    locale \<open>level_chooser\<close>); \<open>Quality_Props\<close>.
  \<^item> \<open>controller/stream-controller.js\<close>: \<open>Stream_State\<close> (the record and its getters), \<open>Stream_Select\<close> (the choice of a
    fragment), \<open>Stream_Controller\<close> (the tick, the watchdog of the playhead, the retries), \<open>Stream_Handlers\<close> and
    \<open>Stream_Parsing\<close> (the handlers of events); lemmas in \<open>Stream_Laws\<close>, \<open>Stream_Invariant\<close> (the step relation over all
    handlers and its invariant), \<open>Stream_Choice\<close>, \<open>Stream_Loads\<close> and \<open>Stream_Retry\<close>; \<open>Stream_Props\<close>.
  \<^item> \<open>controller/buffer-controller.js\<close>: \<open>Buffer_Controller\<close>; lemmas in \<open>Buffer_Laws\<close> (the relation \<open>buffer_run\<close> over all handlers
    and what the browser does between them, and \<open>flush_ends_after\<close> for the update ends while a flush waits); \<open>Buffer_Props\<close>.
  \<^item> \<open>utils/xhr-loader.js\<close>, \<open>loader/fragment-loader.js\<close> and \<open>loader/key-loader.js\<close>: \<open>Request_Loaders\<close>; \<open>Request_Props\<close> (the
    relations \<open>xhr_step\<close> and \<open>key_run\<close> over what requests, timers and callers do). The state change that the browser reports while it
    aborts a request is part of \<open>xhr_abort\<close>.

  \<^bold>\<open>How the controllers are modelled.\<close> A handler is a function from the state, the platform's answers (the media element,
  the clock) and the event to the state after it and the list of the events it triggers and timers it sets; the reactions of the
  other components to these are further events, in any order. An exception is an \<open>Inl\<close>, and the state half changed when
  it is thrown is not described; where \<open>event-handler.js\<close> catches it, the model goes on as the code does. Fragments are shared objects of
  the code: they carry their identity \<open>fr_id\<close>, and \<open>put_frags\<close> writes a change to every reference that the state holds.

  \<^bold>\<open>What the properties show.\<close> Readers decode what the standards write: bit strings, boxes, tables, packets, units and tags
  are written by specifications and read back by the code's models (round trips and refinements). Optimised routines agree with
  their references: the AES tables and the key schedule with FIPS 197, decryption with CBC, the frames of cut packets with
  the frames of the whole. States keep their invariants: the decoder of captions under everything the player calls, the
  timeline of a playlist under parsing, refresh and update, the clock of the remuxer across fragments, the scheduler under
  every event. Where the code throws or loops, the properties say on which inputs. The scheduler is live: retries are
  resumed, end after the number allowed, and loops of loads are reported; it loads the fragments of a playlist in their order.
  What the source buffers get is in the order in which it arrived, and flushes end, whichever buffers are updating. Requests are retried as often as allowed, and
  silent once they are over.

  \<^bold>\<open>Bounds.\<close> Loops that are not structural are \<open>function\<close>s with a measure, mostly the bytes that are left. A loop of the
  code that does not end on some input is written with the result \<open>Inl\<close> of the error \<open>diverges\<close> at the call that would
  repeat its own state. \<open>Star\<close> in a regular expression has the length of the string as its bound, which is enough because
  an iteration that consumes nothing stops there as in JavaScript; \<open>exec_all\<close> moves forward with each match. \<open>PTSNormalize\<close>
  counts down the distance to the reference and is shown to end.

  \<^bold>\<open>Idealisations.\<close> Numbers that the code computes with fractions are rationals instead of doubles; numbers it uses as integers
  are \<open>int\<close>, and what goes through a 32-bit operator or a typed array wraps as there. Characters are bytes. Calls of the logger and
  \<open>destroy\<close> methods that only drop references are left out. The parts of the platform are arguments: WebCrypto, the
  resolution of URLs (\<open>url-toolkit\<close>), \<open>Date.parse\<close>, support for codecs, the user agent.

  \<^bold>\<open>Not modelled.\<close> The controllers of alternative audio and of text tracks
  (\<open>controller/audio-*.js\<close>, \<open>subtitle-*.js\<close>, \<open>timeline-controller.js\<close>, \<open>id3-track-controller.js\<close>):
  the scheduler's model ends at the events they answer to. The streaming \<open>utils/fetch-loader.js\<close>
  is a call of the browser. Cues and WebVTT (\<open>utils/vttparser.js\<close>, \<open>utils/webvtt-parser.js\<close>, \<open>utils/vttcue.js\<close>) come from vtt.js
  or make objects of the browser. \<open>dist/\<close> is generated from these sources, \<open>demo/\<close> and \<open>misc/\<close> are pages around the player, and
  the C++ server is glue to live555 and a device.
\<close>

end
